(* ===== verification/Prelude.thy ===== *)
theory Prelude
  imports Main "HOL-Library.Product_Lexorder" "HOL-Library.Multiset"
begin

text \<open>
  The vocabulary every component of the web client shares: the JavaScript operators the
  source leans on (\<open>??\<close>, truthiness, template strings, \<open>trim\<close>, array
  \<open>map\<close>/\<open>filter\<close>/\<open>sort\<close>), the JSON values that go over the WebSocket, and
  the generic list and map lemmas the component proofs rest on. Numbers that the program
  uses as ids, counts and milliseconds are integers below \<open>2 ^ 53\<close> in every run, so they
  are \<open>int\<close>. Strings are lists of Latin-1 characters.
\<close>

named_theorems js "unfolding rules for the JavaScript operators"
named_theorems frame "fields an operation leaves alone"

type_synonym ms = int
type_synonym 'v int_record = "int \<rightharpoonup> 'v" \<comment> \<open>\<open>Record<number, V>\<close>\<close>
type_synonym 'v str_record = "string \<rightharpoonup> 'v" \<comment> \<open>\<open>Record<string, V>\<close>\<close>

section \<open>Nullish values and truthiness\<close>

text \<open>\<open>a ?? b\<close>: \<open>null\<close> and \<open>undefined\<close> are both \<open>None\<close>.\<close>

definition nvl :: "'a option \<Rightarrow> 'a \<Rightarrow> 'a" where
  "nvl a b = (case a of None \<Rightarrow> b | Some x \<Rightarrow> x)"

lemma nvl_simps [simp]: "nvl None b = b" "nvl (Some x) b = x"
  by (simp_all add: nvl_def)

text \<open>A number is falsy when it is 0, a string when it is empty.\<close>

definition num_truthy :: "int option \<Rightarrow> bool" where
  "num_truthy n = (case n of None \<Rightarrow> False | Some i \<Rightarrow> i \<noteq> 0)"

definition str_truthy :: "string option \<Rightarrow> bool" where
  "str_truthy s = (case s of None \<Rightarrow> False | Some t \<Rightarrow> t \<noteq> [])"

lemma num_truthy_simps [simp]: "\<not> num_truthy None" "num_truthy (Some i) = (i \<noteq> 0)"
  by (simp_all add: num_truthy_def)

lemma str_truthy_simps [simp]: "\<not> str_truthy None" "str_truthy (Some s) = (s \<noteq> [])"
  by (simp_all add: str_truthy_def)

section \<open>Dates\<close>

text \<open>
  A timestamp field holds an ISO string. The program only parses it (\<open>Date.parse\<close>) and
  tests it for truth, so a timestamp is either a string that parses, kept as its
  milliseconds, or one that does not.
\<close>

datatype iso = Iso ms | NotIso string

fun date_parse :: "iso \<Rightarrow> ms option" where
  "date_parse (Iso t) = Some t"
| "date_parse (NotIso s) = None"

fun iso_truthy :: "iso option \<Rightarrow> bool" where
  "iso_truthy None = False"
| "iso_truthy (Some (Iso t)) = True"
| "iso_truthy (Some (NotIso s)) = (s \<noteq> [])"

section \<open>Numbers in template strings\<close>

definition digit :: "nat \<Rightarrow> char" where
  "digit n = ''0123456789'' ! n"

fun show_nat :: "nat \<Rightarrow> string" where
  "show_nat n = (if n < 10 then [digit n] else show_nat (n div 10) @ [digit (n mod 10)])"

declare show_nat.simps [simp del]

definition show_int :: "int \<Rightarrow> string" where
  "show_int i = (if i < 0 then ''-'' @ show_nat (nat (- i)) else show_nat (nat i))"

definition is_digit :: "char \<Rightarrow> bool" where
  "is_digit c = (c \<in> set ''0123456789'')"

lemma digit_inj: "m < 10 \<Longrightarrow> n < 10 \<Longrightarrow> digit m = digit n \<Longrightarrow> m = n"
proof -
  assume "m < 10" "n < 10" and eq: "digit m = digit n"
  moreover have "distinct ''0123456789''" by simp
  ultimately show ?thesis
    using nth_eq_iff_index_eq [of "''0123456789''" m n] by (simp add: digit_def)
qed

lemma is_digit_digit: "n < 10 \<Longrightarrow> is_digit (digit n)"
  unfolding is_digit_def digit_def by (rule nth_mem) simp

lemma show_nat_digits: "c \<in> set (show_nat n) \<Longrightarrow> is_digit c"
proof (induction n rule: show_nat.induct)
  case (1 n)
  show ?case
  proof (cases "n < 10")
    case True
    with "1.prems" have "c = digit n" by (simp add: show_nat.simps [of n])
    with True show ?thesis using is_digit_digit by simp
  next
    case False
    with "1.prems" have "c \<in> set (show_nat (n div 10)) \<or> c = digit (n mod 10)"
      by (auto simp: show_nat.simps [of n])
    then show ?thesis using "1.IH" [OF False] is_digit_digit [of "n mod 10"] by auto
  qed
qed

lemma show_nat_nonempty: "show_nat n \<noteq> []"
  by (simp add: show_nat.simps [of n])

lemma show_nat_len1: "show_nat n = [c] \<Longrightarrow> n < 10"
  by (rule ccontr) (simp add: show_nat.simps [of n] show_nat_nonempty)

lemma show_nat_inj: "show_nat m = show_nat n \<Longrightarrow> m = n"
proof (induction m arbitrary: n rule: show_nat.induct)
  case (1 m)
  show ?case
  proof (cases "m < 10 \<or> n < 10")
    case True
    have "m < 10 \<and> n < 10"
      using True "1.prems" show_nat_len1 [of m] show_nat_len1 [of n]
      by (metis show_nat.simps)
    moreover then have "digit m = digit n"
      using "1.prems" by (simp add: show_nat.simps [of m] show_nat.simps [of n])
    ultimately show ?thesis using digit_inj by blast
  next
    case False
    then have "show_nat (m div 10) = show_nat (n div 10)" "digit (m mod 10) = digit (n mod 10)"
      using "1.prems" by (simp_all add: show_nat.simps [of m] show_nat.simps [of n])
    with "1.IH" False have "m div 10 = n div 10" "m mod 10 = n mod 10"
      using digit_inj [of "m mod 10" "n mod 10"] by auto
    then show ?thesis by (metis div_mult_mod_eq)
  qed
qed

lemma show_int_inj: "show_int i = show_int j \<Longrightarrow> i = j"
proof -
  assume eq: "show_int i = show_int j"
  have minus: "\<not> is_digit (CHR ''-'')" by (simp add: is_digit_def)
  have "hd (show_nat n) \<noteq> CHR ''-''" for n
    using show_nat_digits [of "hd (show_nat n)" n] minus show_nat_nonempty [of n]
    by (metis list.set_sel(1))
  then have head: "show_nat n \<noteq> CHR ''-'' # xs" for n xs
    by (metis list.sel(1))
  from eq head show ?thesis
    by (auto simp: show_int_def split: if_splits dest!: show_nat_inj) (metis head)
qed

lemma show_int_eq [simp]: "(show_int i = show_int j) = (i = j)"
  using show_int_inj by blast

section \<open>Strings\<close>

text \<open>The white space \<open>String.prototype.trim\<close> and the regular expression \<open>\s\<close> know below U+0100.\<close>

definition js_space :: "char \<Rightarrow> bool" where
  "js_space c = (of_char c \<in> {9, 10, 11, 12, 13, 32, 160 :: nat})"

definition js_trim :: "string \<Rightarrow> string" where
  "js_trim s = rev (dropWhile js_space (rev (dropWhile js_space s)))"

definition starts_with :: "string \<Rightarrow> string \<Rightarrow> bool" where
  "starts_with s p = (take (length p) s = p)"

lemma starts_with_append [simp]: "starts_with (p @ s) p"
  by (simp add: starts_with_def)

lemma starts_with_iff: "starts_with s p \<longleftrightarrow> (\<exists>t. s = p @ t)"
  by (metis append_take_drop_id starts_with_append starts_with_def)

lemma dropWhile_rev_last: "dropWhile P xs \<noteq> [] \<Longrightarrow> \<not> P (hd (dropWhile P xs))"
  by (rule hd_dropWhile)

lemma js_trim_idem: "js_trim (js_trim s) = js_trim s"
proof -
  define t where "t = dropWhile js_space s"
  define u where "u = dropWhile js_space (rev t)"
  have t_head: "t \<noteq> [] \<Longrightarrow> \<not> js_space (hd t)"
    by (simp add: t_def hd_dropWhile)
  have u_head: "dropWhile js_space u = u"
    by (simp add: u_def)
  have "dropWhile js_space (rev u) = rev u"
  proof (cases "u = []")
    case False
    then have "t \<noteq> []" by (auto simp: u_def)
    obtain ys where "rev t = ys @ u"
      by (metis u_def takeWhile_dropWhile_id)
    then have "t = rev u @ rev ys" by (metis rev_append rev_rev_ident)
    with False \<open>t \<noteq> []\<close> t_head have "\<not> js_space (hd (rev u))" by simp
    with False show ?thesis by (cases "rev u") auto
  qed simp
  then show ?thesis by (simp add: js_trim_def t_def [symmetric] u_def [symmetric] u_head)
qed

section \<open>Values sent over the socket\<close>

text \<open>What \<open>JSON.stringify\<close> can write. A property whose value is \<open>undefined\<close> is left out.\<close>

datatype json = JNull | JBool bool | JNum int | JStr string
  | JArr "json list" | JObj "(string \<times> json) list"

definition jopt :: "int option \<Rightarrow> json" where
  "jopt n = (case n of None \<Rightarrow> JNull | Some i \<Rightarrow> JNum i)"

text \<open>A frame is what \<open>ws.send(type, data)\<close> writes: the type and the data.\<close>

type_synonym ws_frame = "string \<times> json"

section \<open>Arrays\<close>

text \<open>\<open>xs.map((x) => (p(x) ? f(x) : x))\<close>, the in-place patch the stores use everywhere.\<close>

definition map_if :: "('a \<Rightarrow> bool) \<Rightarrow> ('a \<Rightarrow> 'a) \<Rightarrow> 'a list \<Rightarrow> 'a list" where
  "map_if p f xs = map (\<lambda>x. if p x then f x else x) xs"

lemma map_if_simps [simp]:
  "map_if p f [] = []"
  "map_if p f (x # xs) = (if p x then f x else x) # map_if p f xs"
  by (simp_all add: map_if_def)

lemma length_map_if [simp]: "length (map_if p f xs) = length xs"
  by (simp add: map_if_def)

lemma map_if_key:
  "(\<And>x. x \<in> set xs \<Longrightarrow> p x \<Longrightarrow> k (f x) = k x) \<Longrightarrow> map k (map_if p f xs) = map k xs"
  by (simp add: map_if_def)

lemma map_if_none: "(\<And>x. x \<in> set xs \<Longrightarrow> \<not> p x) \<Longrightarrow> map_if p f xs = xs"
  by (simp add: map_if_def map_idI)

lemma set_map_if: "set (map_if p f xs) = {x \<in> set xs. \<not> p x} \<union> f ` {x \<in> set xs. p x}"
  by (auto simp: map_if_def)

lemma filter_map_if:
  "(\<And>x. x \<in> set xs \<Longrightarrow> p x \<Longrightarrow> q (f x) = q x) \<Longrightarrow>
   filter q (map_if p f xs) = map_if p f (filter q xs)"
  by (induction xs) auto

text \<open>
  \<open>xs.sort(cmp)\<close> for a comparator: stable, as ECMAScript requires since 2019. Where the
  comparator is not a consistent order the standard leaves the result's order open; the
  theorems about order carry a hypothesis that excludes that.
\<close>

fun cmp_insert :: "('a \<Rightarrow> 'a \<Rightarrow> int) \<Rightarrow> 'a \<Rightarrow> 'a list \<Rightarrow> 'a list" where
  "cmp_insert cmp x [] = [x]"
| "cmp_insert cmp x (y # ys) = (if cmp x y \<le> 0 then x # y # ys else y # cmp_insert cmp x ys)"

fun js_sort :: "('a \<Rightarrow> 'a \<Rightarrow> int) \<Rightarrow> 'a list \<Rightarrow> 'a list" where
  "js_sort cmp [] = []"
| "js_sort cmp (x # xs) = cmp_insert cmp x (js_sort cmp xs)"

lemma mset_cmp_insert [simp]: "mset (cmp_insert cmp x xs) = add_mset x (mset xs)"
  by (induction xs) auto

lemma mset_js_sort [simp]: "mset (js_sort cmp xs) = mset xs"
  by (induction xs) auto

lemma set_js_sort [simp]: "set (js_sort cmp xs) = set xs"
  by (metis mset_js_sort set_mset_mset)

lemma length_js_sort [simp]: "length (js_sort cmp xs) = length xs"
  by (metis mset_js_sort size_mset)

lemma cmp_insert_insort:
  assumes "\<And>y. y \<in> set ys \<Longrightarrow> (cmp x y \<le> 0) = (k x \<le> k y)"
  shows "cmp_insert cmp x ys = insort_key k x ys"
  using assms by (induction ys) auto

lemma js_sort_sort_key:
  assumes "\<And>x y. x \<in> set xs \<Longrightarrow> y \<in> set xs \<Longrightarrow> (cmp x y \<le> 0) = (k x \<le> (k y :: 'k::linorder))"
  shows "js_sort cmp xs = sort_key k xs"
  using assms
proof (induction xs)
  case (Cons x xs)
  then have "js_sort cmp xs = sort_key k xs" by simp
  moreover have "cmp_insert cmp x (sort_key k xs) = insort_key k x (sort_key k xs)"
    by (rule cmp_insert_insort) (use Cons.prems in auto)
  ultimately show ?case by simp
qed simp

text \<open>Two lists sorted by an injective key that hold the same elements are the same list.\<close>

lemma sorted_key_unique:
  assumes "sorted (map (k :: 'a \<Rightarrow> 'k::linorder) xs)" "sorted (map k ys)"
    and "distinct xs" "distinct ys" "set xs = set ys" "inj_on k (set xs)"
  shows "xs = ys"
proof -
  have "map k xs = map k ys"
    using assms by (intro sorted_distinct_set_unique) (auto simp: distinct_map)
  then show ?thesis using assms by (metis map_inj_on sup.idem)
qed

section \<open>Updates of nested records\<close>

lemma map_upd_same_dom: "k \<in> dom m \<Longrightarrow> dom (m(k \<mapsto> v)) = dom m"
  by auto

end
