(* ===== verification/JsMap.thy ===== *)
theory JsMap
  imports Prelude
begin

text \<open>
  The JavaScript \<open>Map\<close> and \<open>Set\<close> the client keeps its tables in (pending
  acknowledgements, the decrypt cache, socket handlers, local storage). A \<open>Map\<close> remembers
  insertion order: setting a present key keeps its place, setting a new one appends it. The
  locale states the laws the components use; their shared consequences (a fold of
  \<open>set\<close>s, the "delete, then set" refresh of an LRU cache) are proved once inside it.
\<close>

type_synonym ('k, 'v) jsmap = "('k \<times> 'v) list"

definition jm_get :: "('k, 'v) jsmap \<Rightarrow> 'k \<Rightarrow> 'v option" where
  "jm_get m k = map_of m k"

fun jm_set :: "'k \<Rightarrow> 'v \<Rightarrow> ('k, 'v) jsmap \<Rightarrow> ('k, 'v) jsmap" where
  "jm_set k v [] = [(k, v)]"
| "jm_set k v ((a, b) # m) = (if a = k then (k, v) # m else (a, b) # jm_set k v m)"

definition jm_delete :: "'k \<Rightarrow> ('k, 'v) jsmap \<Rightarrow> ('k, 'v) jsmap" where
  "jm_delete k m = filter (\<lambda>p. fst p \<noteq> k) m"

definition jm_has :: "('k, 'v) jsmap \<Rightarrow> 'k \<Rightarrow> bool" where
  "jm_has m k = (jm_get m k \<noteq> None)"

definition jm_keys :: "('k, 'v) jsmap \<Rightarrow> 'k list" where
  "jm_keys m = map fst m"

definition jm_values :: "('k, 'v) jsmap \<Rightarrow> 'v list" where
  "jm_values m = map snd m"

definition jm_size :: "('k, 'v) jsmap \<Rightarrow> nat" where
  "jm_size m = length m"

definition jm_inv :: "('k, 'v) jsmap \<Rightarrow> bool" where
  "jm_inv m = distinct (map fst m)"

lemma jm_get_set: "jm_get (jm_set k v m) k' = (if k' = k then Some v else jm_get m k')"
  by (induction m) (auto simp: jm_get_def)

lemma jm_get_delete: "jm_get (jm_delete k m) k' = (if k' = k then None else jm_get m k')"
  by (induction m) (auto simp: jm_get_def jm_delete_def)

lemma jm_keys_set:
  "jm_keys (jm_set k v m) = (if jm_get m k = None then jm_keys m @ [k] else jm_keys m)"
  by (induction m) (auto simp: jm_get_def jm_keys_def)

lemma jm_keys_delete: "jm_keys (jm_delete k m) = filter (\<lambda>a. a \<noteq> k) (jm_keys m)"
  by (induction m) (auto simp: jm_delete_def jm_keys_def)

lemma jm_get_iff_key: "(jm_get m k \<noteq> None) = (k \<in> set (jm_keys m))"
  by (induction m) (auto simp: jm_get_def jm_keys_def)

lemma jm_inv_keys: "jm_inv m = distinct (jm_keys m)"
  by (simp add: jm_inv_def jm_keys_def)

lemma jm_inv_set: "jm_inv m \<Longrightarrow> jm_inv (jm_set k v m)"
  using jm_get_iff_key [of m k] by (auto simp: jm_inv_keys jm_keys_set)

lemma jm_inv_delete: "jm_inv m \<Longrightarrow> jm_inv (jm_delete k m)"
  by (simp add: jm_inv_keys jm_keys_delete)

lemma jm_size_keys: "jm_size m = length (jm_keys m)"
  by (simp add: jm_size_def jm_keys_def)

lemma jm_values_eq: "jm_inv m \<Longrightarrow> jm_values m = map (\<lambda>k. the (jm_get m k)) (jm_keys m)"
  by (induction m) (force simp: jm_values_def jm_keys_def jm_get_def jm_inv_def)+

section \<open>The interface\<close>

locale js_map =
  fixes get :: "'m \<Rightarrow> 'k \<Rightarrow> 'v option"
    and put :: "'k \<Rightarrow> 'v \<Rightarrow> 'm \<Rightarrow> 'm"
    and del :: "'k \<Rightarrow> 'm \<Rightarrow> 'm"
    and keys :: "'m \<Rightarrow> 'k list"
    and invar :: "'m \<Rightarrow> bool"
  assumes get_put: "get (put k v m) k' = (if k' = k then Some v else get m k')"
    and get_del: "get (del k m) k' = (if k' = k then None else get m k')"
    and keys_put: "keys (put k v m) = (if get m k = None then keys m @ [k] else keys m)"
    and keys_del: "keys (del k m) = filter (\<lambda>a. a \<noteq> k) (keys m)"
    and get_key: "(get m k \<noteq> None) = (k \<in> set (keys m))"
    and invar_keys: "invar m = distinct (keys m)"
begin

lemma keys_unmapped: "get m k = None \<Longrightarrow> k \<notin> set (keys m)"
  using get_key by blast

lemma invar_put: "invar m \<Longrightarrow> invar (put k v m)"
  using keys_unmapped by (auto simp: invar_keys keys_put)

lemma invar_del: "invar m \<Longrightarrow> invar (del k m)"
  by (simp add: invar_keys keys_del)

text \<open>Putting a list of entries one after the other: later entries win.\<close>

lemma get_fold_put:
  "get (fold (\<lambda>x m. put (f x) (g x) m) xs m) k =
   (case map_of (rev (map (\<lambda>x. (f x, g x)) xs)) k of Some v \<Rightarrow> Some v | None \<Rightarrow> get m k)"
  by (induction xs arbitrary: m) (auto simp: get_put map_add_def split: option.splits)

lemma invar_fold_put: "invar m \<Longrightarrow> invar (fold (\<lambda>x m. put (f x) (g x) m) xs m)"
  by (induction xs arbitrary: m) (auto intro: invar_put)

lemma keys_fold_put:
  "set (keys (fold (\<lambda>x m. put (f x) (g x) m) xs m)) = set (keys m) \<union> f ` set xs"
proof (induction xs arbitrary: m)
  case (Cons x xs)
  have "set (keys (put (f x) (g x) m)) = insert (f x) (set (keys m))"
    using get_key [of m "f x"] by (auto simp: keys_put)
  with Cons show ?case by simp
qed simp

text \<open>\<open>delete\<close> and \<open>set\<close> again moves an entry to the end and changes nothing else.\<close>

lemma refresh:
  assumes "get m k = Some v"
  shows "get (put k v (del k m)) k' = get m k'"
    and "keys (put k v (del k m)) = filter (\<lambda>a. a \<noteq> k) (keys m) @ [k]"
  using assms by (auto simp: get_put get_del keys_put keys_del)

lemma length_refresh:
  assumes "invar m" "get m k = Some v"
  shows "length (keys (put k v (del k m))) = length (keys m)"
proof -
  have k: "k \<in> set (keys m)" using assms(2) get_key [of m k] by simp
  have "length (filter (\<lambda>a. a \<noteq> k) (keys m)) = length (remove1 k (keys m))"
    using assms(1) by (simp add: distinct_remove1_removeAll invar_keys removeAll_filter_not_eq)
      (metis (mono_tags, lifting) filter_cong)
  with k show ?thesis
    using refresh(2) [OF assms(2)] length_pos_if_in_set [OF k] by (simp add: length_remove1)
qed

end

interpretation jm: js_map jm_get jm_set jm_delete jm_keys jm_inv
  by unfold_locales (auto simp: jm_get_set jm_get_delete jm_keys_set jm_keys_delete jm_inv_keys
    simp flip: jm_get_iff_key)

lemmas jm_simps [js] = jm_get_set jm_get_delete jm_keys_set jm_keys_delete jm_has_def

section \<open>Local storage\<close>

text \<open>
  \<open>localStorage\<close> of the page: a table of strings, or blocked (private mode), in which
  case every access throws. The source wraps each access in \<open>try\<close>; a throw is \<open>None\<close>.
\<close>

record storage =
  blocked :: bool
  items :: "(string, string) jsmap"

definition getItem :: "storage \<Rightarrow> string \<Rightarrow> string option option" where
  "getItem st k = (if blocked st then None else Some (jm_get (items st) k))"

definition setItem :: "storage \<Rightarrow> string \<Rightarrow> string \<Rightarrow> storage option" where
  "setItem st k v = (if blocked st then None else Some (st\<lparr>items := jm_set k v (items st)\<rparr>))"

definition removeItem :: "storage \<Rightarrow> string \<Rightarrow> storage option" where
  "removeItem st k = (if blocked st then None else Some (st\<lparr>items := jm_delete k (items st)\<rparr>))"

end
