(* ===== verification/Messages.thy ===== *)
theory Messages
  imports JsMap
begin

text \<open>
  The data the server sends (\<open>lib/types.ts\<close>) and the message lists the chat store keeps
  per conversation: the order on messages, the ways a list is changed (a message placed, a
  page merged, one message patched or dropped), the invariant of a list (sorted, one entry
  per id) and its abstraction, a finite map from ids to messages.
\<close>

section \<open>Data\<close>

datatype presence = Online | Away | Dnd | Offline
datatype role = RoleAdmin | RoleUser
datatype member_role = Owner | GroupAdmin | Member

record user_brief =
  ub_id :: int
  ub_display_name :: string
  ub_username :: string
  ub_avatar_file_id :: "int option"

record group_member = user_brief +
  gm_role :: member_role

record file_brief =
  fb_id :: int
  fb_name :: string
  fb_mime :: string
  fb_size :: int

record message_preview =
  mp_id :: int
  mp_content :: string
  mp_has_file :: bool
  mp_deleted :: bool
  mp_is_encrypted :: bool
  mp_sender :: "user_brief option"

record message_reaction =
  mr_message_id :: int
  mr_user_id :: int
  mr_emoji :: string

text \<open>Optional flags (\<open>pending?: boolean\<close>) are only tested for truth, so they are \<open>bool\<close>.\<close>

record message =
  mid :: int
  sender_id :: int
  recipient_id :: "int option"
  group_id :: "int option"
  file_id :: "int option"
  content :: string
  sent_at :: iso
  delivered_at :: "iso option"
  read_at :: "iso option"
  deleted_at :: "iso option"
  edited_at :: "iso option"
  reply_to_id :: "int option"
  pinned_at :: "iso option"
  is_encrypted :: bool
  enc_iv :: "string option"
  enc_keys :: "string option"
  reply_to :: "message_preview option"
  reactions :: "message_reaction list option"
  sender :: "user_brief option"
  mfile :: "file_brief option"
  pending :: bool
  failed :: bool
  clientID :: "string option"

record group =
  g_id :: int
  g_name :: string
  g_topic :: string
  g_created_by :: int
  g_created_at :: iso
  g_avatar_file_id :: "int option"
  g_members :: "group_member list"

record user_preferences =
  p_theme :: string
  p_accent_color :: string
  p_radius :: string

record user =
  u_id :: int
  u_username :: string
  u_display_name :: string
  u_role :: role
  u_avatar_file_id :: "int option"
  u_email :: "string option"
  u_disabled :: bool
  u_deleted :: bool
  u_created_at :: iso
  u_oidc_linked :: bool
  u_status :: presence
  u_preferences :: "user_preferences option"

datatype convo = Dm (peerID: int) | GroupConvo (groupID: int)

text \<open>The key of a conversation in every per-conversation table.\<close>

fun key :: "convo \<Rightarrow> string" where
  "key (Dm p) = ''dm:'' @ show_int p"
| "key (GroupConvo g) = ''g:'' @ show_int g"

lemma key_inj [simp]: "(key c = key d) = (c = d)"
  by (cases c; cases d) auto

section \<open>The order on messages\<close>

definition messageOrder :: "message \<Rightarrow> message \<Rightarrow> int" where
  "messageOrder a b =
     (case (date_parse (sent_at a), date_parse (sent_at b)) of
        (Some x, Some y) \<Rightarrow> if x - y = 0 then mid a - mid b else x - y
      | _ \<Rightarrow> mid a - mid b)"

definition dated :: "message \<Rightarrow> bool" where
  "dated m = (date_parse (sent_at m) \<noteq> None)"

definition mkey :: "message \<Rightarrow> ms \<times> int" where
  "mkey m = (the (date_parse (sent_at m)), mid m)"

lemma messageOrder_le: "dated a \<Longrightarrow> dated b \<Longrightarrow> (messageOrder a b \<le> 0) = (mkey a \<le> mkey b)"
  by (auto simp: dated_def messageOrder_def mkey_def less_eq_prod_def split: option.splits)

lemma sort_messages: "(\<forall>m \<in> set xs. dated m) \<Longrightarrow> js_sort messageOrder xs = sort_key mkey xs"
  by (rule js_sort_sort_key) (auto simp: messageOrder_le)

lemma mid_mkey: "mid m = snd (mkey m)"
  by (simp add: mkey_def)

section \<open>Changing a list\<close>

text \<open>Drop the entries with the given ids and the message's own, append it, sort.\<close>

definition place :: "int set \<Rightarrow> message \<Rightarrow> message list \<Rightarrow> message list" where
  "place ids m arr = js_sort messageOrder (filter (\<lambda>x. mid x \<notin> ids \<and> mid x \<noteq> mid m) arr @ [m])"

text \<open>A page of history over the list it joins, by way of a \<open>Map\<close> from ids.\<close>

definition byId :: "message list \<Rightarrow> (int, message) jsmap \<Rightarrow> (int, message) jsmap" where
  "byId ms m = fold (\<lambda>x m. jm_set (mid x) x m) ms m"

definition merge_page :: "message list \<Rightarrow> message list \<Rightarrow> message list" where
  "merge_page existing msgs = js_sort messageOrder (jm_values (byId msgs (byId existing [])))"

text \<open>\<open>fetchRecent\<close>'s \<open>add\<close>: a list that has the message already stays as it is.\<close>

definition add_recent :: "message list option \<Rightarrow> message \<Rightarrow> message list option" where
  "add_recent list m =
     (case list of
        Some xs \<Rightarrow> if \<exists>x \<in> set xs. mid x = mid m then Some xs
                   else Some (js_sort messageOrder (xs @ [m]))
      | None \<Rightarrow> Some (js_sort messageOrder [m]))"

definition patch_id :: "int \<Rightarrow> (message \<Rightarrow> message) \<Rightarrow> message list \<Rightarrow> message list" where
  "patch_id i f xs = map_if (\<lambda>m. mid m = i) f xs"

definition drop_id :: "int \<Rightarrow> message list \<Rightarrow> message list" where
  "drop_id i xs = filter (\<lambda>m. mid m \<noteq> i) xs"

section \<open>Invariant and abstraction\<close>

definition bucket_ok :: "message list \<Rightarrow> bool" where
  "bucket_ok xs \<longleftrightarrow> distinct (map mid xs) \<and> sorted (map mkey xs) \<and> (\<forall>m \<in> set xs. dated m)"

definition bucket_abs :: "message list \<Rightarrow> int \<rightharpoonup> message" where
  "bucket_abs xs = map_of (map (\<lambda>m. (mid m, m)) xs)"

definition same_place :: "message \<Rightarrow> message \<Rightarrow> bool" where
  "same_place m n \<longleftrightarrow> mid n = mid m \<and> sent_at n = sent_at m"

lemma same_place_key: "same_place m n \<Longrightarrow> mkey n = mkey m \<and> dated n = dated m \<and> mid n = mid m"
  by (simp add: same_place_def mkey_def dated_def)

lemma bucket_abs_simps [simp]:
  "bucket_abs [] = Map.empty"
  "bucket_abs (x # xs) = (bucket_abs xs)(mid x \<mapsto> x)"
  by (simp_all add: bucket_abs_def)

lemma bucket_abs_mid: "bucket_abs xs i = Some m \<Longrightarrow> mid m = i \<and> m \<in> set xs"
  by (induction xs) (auto split: if_splits)

lemma bucket_abs_None: "(bucket_abs xs i = None) = (i \<notin> mid ` set xs)"
  by (induction xs) auto

lemma bucket_abs_in: "distinct (map mid xs) \<Longrightarrow> m \<in> set xs \<Longrightarrow> bucket_abs xs (mid m) = Some m"
  by (induction xs) (force simp: image_iff)+

text \<open>The abstraction of a duplicate-free list depends on its elements only.\<close>

lemma bucket_abs_mset:
  assumes "mset xs = mset ys" "distinct (map mid xs)"
  shows "bucket_abs xs = bucket_abs ys"
proof
  fix i
  have "mset (map mid xs) = mset (map mid ys)" using assms(1) by simp
  then have d: "distinct (map mid ys)" using assms(2) mset_eq_imp_distinct_iff by blast
  have s: "set xs = set ys" using assms(1) by (rule mset_eq_setD)
  show "bucket_abs xs i = bucket_abs ys i"
  proof (cases "bucket_abs xs i")
    case None
    then show ?thesis using s by (metis bucket_abs_None)
  next
    case (Some m)
    with bucket_abs_mid bucket_abs_in [OF d] s show ?thesis by metis
  qed
qed

lemma distinct_mid_sort: "distinct (map mid (js_sort c xs)) = distinct (map mid xs)"
  by (rule mset_eq_imp_distinct_iff) simp

lemma abs_sort: "distinct (map mid xs) \<Longrightarrow> bucket_abs (js_sort c xs) = bucket_abs xs"
  by (rule sym, rule bucket_abs_mset) simp_all

lemma bucket_ok_sort:
  "distinct (map mid xs) \<Longrightarrow> (\<forall>m \<in> set xs. dated m) \<Longrightarrow> bucket_ok (js_sort messageOrder xs)"
  unfolding bucket_ok_def by (simp add: distinct_mid_sort) (simp add: sort_messages)

lemma bucket_ok_Nil [simp]: "bucket_ok []"
  by (simp add: bucket_ok_def)

lemma bucket_canonical:
  assumes "bucket_ok xs" "bucket_ok ys" "bucket_abs xs = bucket_abs ys"
  shows "xs = ys"
proof (rule sorted_key_unique [where k = mkey])
  show "set xs = set ys"
    using assms bucket_abs_in bucket_abs_mid unfolding bucket_ok_def by (metis subsetI subset_antisym)
  show "inj_on mkey (set xs)"
    using assms(1) by (auto simp: bucket_ok_def inj_on_def distinct_map mid_mkey)
qed (use assms in \<open>auto simp: bucket_ok_def distinct_map\<close>)

lemma bucket_abs_append: "bucket_abs (xs @ ys) = bucket_abs ys ++ bucket_abs xs"
  by (simp add: bucket_abs_def)

lemma bucket_abs_filter:
  "bucket_abs (filter (\<lambda>m. P (mid m)) xs) i = (if P i then bucket_abs xs i else None)"
  by (induction xs) auto

lemma distinct_mid_filter: "distinct (map mid xs) \<Longrightarrow> distinct (map mid (filter P xs))"
  by (rule distinct_map_filter)

subsection \<open>\<open>place\<close>\<close>

lemma place_distinct:
  "distinct (map mid xs) \<Longrightarrow> distinct (map mid (filter (\<lambda>x. mid x \<notin> ids \<and> mid x \<noteq> mid m) xs @ [m]))"
  by (auto intro: distinct_map_filter)

lemma abs_place:
  assumes "distinct (map mid xs)"
  shows "bucket_abs (place ids m xs) i =
    (if i = mid m then Some m else if i \<in> ids then None else bucket_abs xs i)"
  unfolding place_def abs_sort [OF place_distinct [OF assms]] bucket_abs_append
  by (simp add: bucket_abs_filter [where P = "\<lambda>i. i \<notin> ids \<and> i \<noteq> mid m"] map_add_def
      split: option.splits)

lemma abs_place_ok: "bucket_ok xs \<Longrightarrow> bucket_abs (place ids m xs) i =
    (if i = mid m then Some m else if i \<in> ids then None else bucket_abs xs i)"
  by (rule abs_place) (simp add: bucket_ok_def)

lemma place_ok: "bucket_ok xs \<Longrightarrow> dated m \<Longrightarrow> bucket_ok (place ids m xs)"
  unfolding place_def
  by (rule bucket_ok_sort) (auto simp: bucket_ok_def intro: distinct_map_filter)

subsection \<open>\<open>merge_page\<close>\<close>

definition byId_inv :: "(int, message) jsmap \<Rightarrow> bool" where
  "byId_inv m \<longleftrightarrow> jm_inv m \<and> (\<forall>p \<in> set m. mid (snd p) = fst p)"

lemma jm_set_subset: "set (jm_set k v m) \<subseteq> insert (k, v) (set m)"
  by (induction k v m rule: jm_set.induct) auto

lemma byId_inv_set: "byId_inv m \<Longrightarrow> byId_inv (jm_set (mid x) x m)"
  using jm_set_subset [of "mid x" x m] by (auto simp: byId_inv_def jm_inv_set)

lemma byId_inv_fold: "byId_inv m \<Longrightarrow> byId_inv (byId xs m)"
  unfolding byId_def by (induction xs arbitrary: m) (auto intro: byId_inv_set)

lemma byId_inv_Nil [simp]: "byId_inv []"
  by (simp add: byId_inv_def jm_inv_def)

lemma byId_values: "byId_inv m \<Longrightarrow> map mid (jm_values m) = jm_keys m"
  by (auto simp: byId_inv_def jm_values_def jm_keys_def)

lemma byId_values_abs: "byId_inv m \<Longrightarrow> bucket_abs (jm_values m) = jm_get m"
proof -
  assume "byId_inv m"
  then have "map (\<lambda>x. (mid x, x)) (jm_values m) = m"
    unfolding jm_values_def map_map by (intro map_idI) (auto simp: byId_inv_def prod_eq_iff)
  then show ?thesis by (simp add: bucket_abs_def jm_get_def fun_eq_iff)
qed

lemma byId_get: "jm_get (byId xs m) = jm_get m ++ bucket_abs (rev xs)"
  by (rule ext)
    (simp add: byId_def jm.get_fold_put bucket_abs_def rev_map map_add_def split: option.splits)

lemma abs_merge_page_any:
  "bucket_abs (merge_page existing msgs) = bucket_abs (rev existing) ++ bucket_abs (rev msgs)"
proof -
  let ?m = "byId msgs (byId existing [])"
  have inv: "byId_inv ?m" by (intro byId_inv_fold) simp
  then have "distinct (map mid (jm_values ?m))"
    by (simp add: byId_values byId_inv_def jm_inv_keys)
  then have "bucket_abs (merge_page existing msgs) = jm_get ?m"
    using inv by (simp add: merge_page_def abs_sort byId_values_abs)
  moreover have "jm_get [] = (Map.empty :: int \<rightharpoonup> message)" by (simp add: jm_get_def fun_eq_iff)
  ultimately show ?thesis by (simp add: byId_get)
qed

lemma merge_page_set: "set (merge_page existing msgs) \<subseteq> set existing \<union> set msgs"
proof
  fix m assume m: "m \<in> set (merge_page existing msgs)"
  let ?m = "byId msgs (byId existing [])"
  have inv: "byId_inv ?m" by (intro byId_inv_fold) simp
  then have "distinct (map mid (merge_page existing msgs))"
    by (simp add: merge_page_def distinct_mid_sort byId_values byId_inv_def jm_inv_keys)
  with m have "bucket_abs (merge_page existing msgs) (mid m) = Some m"
    by (simp add: bucket_abs_in)
  then show "m \<in> set existing \<union> set msgs"
    by (auto simp: abs_merge_page_any map_add_Some_iff dest: bucket_abs_mid)
qed

lemma merge_page_ok:
  assumes "\<forall>m \<in> set existing. dated m" "\<forall>m \<in> set msgs. dated m"
  shows "bucket_ok (merge_page existing msgs)"
proof -
  let ?m = "byId msgs (byId existing [])"
  have "byId_inv ?m" by (intro byId_inv_fold) simp
  then have "distinct (map mid (jm_values ?m))"
    by (simp add: byId_values byId_inv_def jm_inv_keys)
  moreover have "\<forall>m \<in> set (jm_values ?m). dated m"
    using merge_page_set [of existing msgs] assms unfolding merge_page_def set_js_sort by blast
  ultimately show ?thesis
    unfolding merge_page_def by (rule bucket_ok_sort)
qed

lemma bucket_abs_rev: "distinct (map mid xs) \<Longrightarrow> bucket_abs (rev xs) = bucket_abs xs"
  by (rule sym, rule bucket_abs_mset) simp_all

subsection \<open>\<open>patch_id\<close> and \<open>drop_id\<close>\<close>

lemma abs_patch:
  assumes "\<And>m. mid (f m) = mid m"
  shows "bucket_abs (patch_id i f xs) j =
    (if j = i then map_option f (bucket_abs xs i) else bucket_abs xs j)"
  unfolding patch_id_def using assms by (induction xs) auto

lemma patch_ok:
  assumes "bucket_ok xs" and f: "\<And>m. m \<in> set xs \<Longrightarrow> mid m = i \<Longrightarrow> same_place m (f m)"
  shows "bucket_ok (patch_id i f xs)"
proof -
  have "map mid (patch_id i f xs) = map mid xs" "map mkey (patch_id i f xs) = map mkey xs"
    using f [THEN same_place_key] unfolding patch_id_def by (intro map_if_key; simp)+
  moreover have "\<forall>m \<in> set (patch_id i f xs). dated m"
    using assms f by (auto simp: bucket_ok_def patch_id_def set_map_if dest: same_place_key)
  ultimately show ?thesis using assms(1) by (simp add: bucket_ok_def)
qed

lemma abs_drop: "bucket_abs (drop_id i xs) j = (if j = i then None else bucket_abs xs j)"
  by (simp add: drop_id_def bucket_abs_filter [where P = "\<lambda>j. j \<noteq> i"])

lemma drop_ok: "bucket_ok xs \<Longrightarrow> bucket_ok (drop_id i xs)"
  by (auto simp: bucket_ok_def drop_id_def intro: distinct_map_filter sorted_filter)

subsection \<open>\<open>add_recent\<close>\<close>

lemma add_recent_ok:
  assumes "bucket_ok (nvl list [])" "dated m"
  shows "bucket_ok (nvl (add_recent list m) [])"
proof (cases list)
  case None
  then show ?thesis using assms by (simp add: add_recent_def bucket_ok_def)
next
  case (Some xs)
  show ?thesis
  proof (cases "\<exists>x \<in> set xs. mid x = mid m")
    case False
    then have "bucket_ok (js_sort messageOrder (xs @ [m]))"
      using Some assms by (intro bucket_ok_sort) (auto simp: bucket_ok_def)
    with False Some show ?thesis by (simp add: add_recent_def)
  qed (use Some assms in \<open>simp add: add_recent_def\<close>)
qed

section \<open>The contract of a message list\<close>

text \<open>
  What the chat store relies on, whatever the representation: a well-formed list is
  determined by the map it stands for, and every change acts on that map. The locale's
  lemmas are the store's convergence facts: the arrival order of live messages, history
  pages and acknowledgements does not matter.
\<close>

locale message_bucket =
  fixes look :: "'b \<Rightarrow> int \<Rightarrow> 'm option"
    and ok :: "'b \<Rightarrow> bool"
    and idm :: "'m \<Rightarrow> int"
    and fine :: "'m \<Rightarrow> bool"
    and ins :: "int set \<Rightarrow> 'm \<Rightarrow> 'b \<Rightarrow> 'b"
    and join :: "'b \<Rightarrow> 'm list \<Rightarrow> 'b"
    and page :: "'m list \<Rightarrow> int \<Rightarrow> 'm option"
    and del :: "int \<Rightarrow> 'b \<Rightarrow> 'b"
  assumes canonical: "ok b \<Longrightarrow> ok c \<Longrightarrow> look b = look c \<Longrightarrow> b = c"
    and look_ins: "ok b \<Longrightarrow> look (ins D m b) i =
      (if i = idm m then Some m else if i \<in> D then None else look b i)"
    and ok_ins: "ok b \<Longrightarrow> fine m \<Longrightarrow> ok (ins D m b)"
    and look_join: "ok b \<Longrightarrow> look (join b ms) = look b ++ page ms"
    and ok_join: "ok b \<Longrightarrow> (\<forall>m \<in> set ms. fine m) \<Longrightarrow> ok (join b ms)"
    and look_del: "ok b \<Longrightarrow> look (del j b) i = (if i = j then None else look b i)"
    and ok_del: "ok b \<Longrightarrow> ok (del j b)"
begin

lemma ins_comm:
  assumes "ok b" "fine m" "fine n" "idm m \<noteq> idm n" "idm m \<notin> E" "idm n \<notin> D"
  shows "ins D m (ins E n b) = ins E n (ins D m b)"
  using assms by (intro canonical ok_ins ext) (auto simp: look_ins ok_ins)

lemma ins_join_comm:
  assumes "ok b" "fine m" "\<forall>x \<in> set ms. fine x"
    and "page ms (idm m) = None \<or> page ms (idm m) = Some m"
    and "\<And>i. i \<in> D \<Longrightarrow> i \<noteq> idm m \<Longrightarrow> page ms i = None"
  shows "ins D m (join b ms) = join (ins D m b) ms"
  using assms
  by (intro canonical ok_ins ok_join ext) (auto simp: look_ins look_join ok_ins ok_join map_add_def
      split: option.splits)

lemma join_idem:
  assumes "ok b" "\<forall>x \<in> set ms. fine x"
  shows "join (join b ms) ms = join b ms"
  using assms by (intro canonical ok_join ext) (auto simp: look_join ok_join map_add_def
      split: option.splits)

lemma join_comm:
  assumes "ok b" "\<forall>x \<in> set ms. fine x" "\<forall>x \<in> set ns. fine x"
    and "\<And>i x y. page ms i = Some x \<Longrightarrow> page ns i = Some y \<Longrightarrow> x = y"
  shows "join (join b ms) ns = join (join b ns) ms"
proof -
  have "page ms ++ page ns = page ns ++ page ms"
    using assms(4) by (auto simp: map_add_def fun_eq_iff split: option.splits)
  with assms(1-3) show ?thesis
    by (intro canonical ok_join) (simp_all add: look_join ok_join flip: map_add_assoc)
qed

text \<open>Placing a stand-in and then its replacement is placing the replacement.\<close>

lemma ins_replace:
  assumes "ok b" "fine m" "fine n" "idm n \<in> D"
  shows "ins D m (ins E n b) = ins (D \<union> E) m b"
  using assms by (intro canonical ok_ins ext) (auto simp: look_ins ok_ins)

lemma del_ins:
  assumes "ok b" "fine m"
  shows "del (idm m) (ins {} m b) = del (idm m) b"
  using assms by (intro canonical ok_ins ok_del ext) (auto simp: look_ins look_del ok_ins)

end

interpretation bk: message_bucket bucket_abs bucket_ok mid dated place merge_page
  "\<lambda>ms. bucket_abs (rev ms)" drop_id
proof unfold_locales
  fix b ms
  assume "bucket_ok b"
  then show "bucket_abs (merge_page b ms) = bucket_abs b ++ bucket_abs (rev ms)"
    by (simp add: abs_merge_page_any bucket_abs_rev bucket_ok_def)
next
  fix b ms
  assume "bucket_ok b" "\<forall>m \<in> set ms. dated m"
  then show "bucket_ok (merge_page b ms)"
    by (intro merge_page_ok) (simp_all add: bucket_ok_def)
qed (auto intro: bucket_canonical place_ok drop_ok simp: abs_place_ok abs_drop)

end
