(* ===== verification/ChatStore.thy ===== *)
theory ChatStore
  imports Messages
begin

text \<open>
  The chat store of the web client (\<open>store/chats.ts\<close>): its state, one definition per
  action and per socket handler, and the event system they form. A handler takes what it
  reads from outside (the signed-in user, the clock, the socket's state, the page's
  visibility) as a \<open>chat_env\<close> and appends what it does outside (frames sent, requests
  started, timers, notifications) to the trace \<open>out\<close>, in order. An \<open>async\<close> action is one
  definition per stretch between two \<open>await\<close>s: the definition that starts it, and one
  that takes the awaited outcome, \<open>None\<close> for a rejected promise.
\<close>

section \<open>State\<close>

record chat_env =
  me :: "user option"
  now :: ms
  rnd :: string
  ws_up :: bool
  hidden :: bool
  my_status :: presence
  secure :: bool
  local_storage :: storage

text \<open>What the promise chain of one encrypted send captures.\<close>

record send_job =
  j_client :: string
  j_convo :: convo
  j_opt :: int
  j_file :: "int option"
  j_reply :: "int option"
  j_text :: string
  j_to :: "int list"

record encrypted_payload =
  ep_ciphertext :: string
  ep_iv :: string
  ep_encKeys :: string

record pending_ack =
  pa_convo :: convo
  pa_opt :: int

datatype chat_eff =
    SendFrame ws_frame
  | ApiMessages convo "int option"
  | ApiGroups
  | ApiRecent int
  | ApiSaved
  | ApiSave int bool
  | DecryptContent message
  | StartTimer string ms
  | ClearTimer string
  | CheckKeys "int list" send_job
  | EncryptFor send_job
  | ToastInfo string
  | Notify string string string convo

record chats =
  messagesByDm :: "message list int_record"
  messagesByGroup :: "message list int_record"
  groups :: "group list"
  active :: "convo option"
  typingDm :: "ms int_record"
  typingGroup :: "(string \<times> ms) int_record int_record"
  unread :: "int str_record"
  callCovering :: bool
  sendError :: "string option"
  historyLoading :: "bool str_record"
  hasMore :: "bool str_record"
  savedIDs :: "int set"
  encryptedConvos :: "bool str_record"
  decryptedContent :: "string option int_record"
  lastTypingSent :: ms
  wsRegistered :: bool
  optimisticSequence :: int
  pendingAcks :: "(string, pending_ack) jsmap"
  out :: "chat_eff list"

definition init_chats :: chats where
  "init_chats = \<lparr>messagesByDm = Map.empty, messagesByGroup = Map.empty, groups = [],
     active = None, typingDm = Map.empty, typingGroup = Map.empty, unread = Map.empty,
     callCovering = False, sendError = None, historyLoading = Map.empty, hasMore = Map.empty,
     savedIDs = {}, encryptedConvos = Map.empty, decryptedContent = Map.empty,
     lastTypingSent = 0, wsRegistered = False, optimisticSequence = 0, pendingAcks = [],
     out = []\<rparr>"

definition emit :: "chat_eff \<Rightarrow> chats \<Rightarrow> chats" where
  "emit e s = s\<lparr>out := out s @ [e]\<rparr>"

text \<open>\<open>ws.send\<close>: false, and nothing sent, unless the socket is open.\<close>

definition ws_send :: "chat_env \<Rightarrow> string \<Rightarrow> json \<Rightarrow> chats \<Rightarrow> chats \<times> bool" where
  "ws_send env ty d s = (if ws_up env then (emit (SendFrame (ty, d)) s, True) else (s, False))"

definition my_id :: "chat_env \<Rightarrow> int option" where
  "my_id env = map_option u_id (me env)"

section \<open>Conversations and their lists\<close>

fun bucket :: "convo \<Rightarrow> chats \<Rightarrow> message list" where
  "bucket (Dm p) s = nvl (messagesByDm s p) []"
| "bucket (GroupConvo g) s = nvl (messagesByGroup s g) []"

fun set_bucket :: "convo \<Rightarrow> message list \<Rightarrow> chats \<Rightarrow> chats" where
  "set_bucket (Dm p) xs s = s\<lparr>messagesByDm := (messagesByDm s)(p \<mapsto> xs)\<rparr>"
| "set_bucket (GroupConvo g) xs s = s\<lparr>messagesByGroup := (messagesByGroup s)(g \<mapsto> xs)\<rparr>"

fun dm_field :: "convo \<Rightarrow> json" where
  "dm_field (Dm p) = JNum p"
| "dm_field (GroupConvo g) = JNull"

fun group_field :: "convo \<Rightarrow> json" where
  "group_field (Dm p) = JNull"
| "group_field (GroupConvo g) = JNum g"

record msg_ref =
  r_id :: int
  r_sender_id :: int
  r_recipient_id :: "int option"
  r_group_id :: "int option"

definition ref_of :: "message \<Rightarrow> msg_ref" where
  "ref_of m = \<lparr>r_id = mid m, r_sender_id = sender_id m, r_recipient_id = recipient_id m,
     r_group_id = group_id m\<rparr>"

text \<open>The conversation a message reference belongs to: its group, or the other party.\<close>

definition ref_convo :: "chat_env \<Rightarrow> msg_ref \<Rightarrow> convo option" where
  "ref_convo env ref =
     (case r_group_id ref of
        Some g \<Rightarrow> Some (GroupConvo g)
      | None \<Rightarrow> map_option Dm
          (if my_id env = Some (r_sender_id ref) then r_recipient_id ref
           else Some (r_sender_id ref)))"

definition updateMessage ::
  "chat_env \<Rightarrow> msg_ref \<Rightarrow> (message \<Rightarrow> message) \<Rightarrow> chats \<Rightarrow> chats" where
  "updateMessage env ref updater s =
     (case ref_convo env ref of
        None \<Rightarrow> s
      | Some c \<Rightarrow> set_bucket c (patch_id (r_id ref) updater (bucket c s)) s)"

definition markDeleted :: "chat_env \<Rightarrow> msg_ref \<Rightarrow> chats \<Rightarrow> chats" where
  "markDeleted env ref = updateMessage env ref
     (\<lambda>m. m\<lparr>content := [], mfile := None, file_id := None, deleted_at := Some (Iso (now env))\<rparr>)"

definition buildReplyPreview :: "message \<Rightarrow> message_preview" where
  "buildReplyPreview m = \<lparr>mp_id = mid m, mp_content = content m, mp_has_file = num_truthy (file_id m),
     mp_deleted = iso_truthy (deleted_at m), mp_is_encrypted = is_encrypted m,
     mp_sender = sender m\<rparr>"

section \<open>The per-device encryption switch\<close>

definition e2eStorageKey :: "string \<Rightarrow> string" where
  "e2eStorageKey k = ''vc.e2e.v2.'' @ k"

definition loadE2EFlag :: "chat_env \<Rightarrow> string \<Rightarrow> bool" where
  "loadE2EFlag env k =
     (if \<not> secure env then False
      else (case getItem (local_storage env) (e2eStorageKey k) of
              None \<Rightarrow> True
            | Some None \<Rightarrow> True
            | Some (Some stored) \<Rightarrow> stored = ''1''))"

definition hasExplicitE2EFlag :: "chat_env \<Rightarrow> string \<Rightarrow> bool" where
  "hasExplicitE2EFlag env k =
     (case getItem (local_storage env) (e2eStorageKey k) of
        None \<Rightarrow> False
      | Some stored \<Rightarrow> stored \<noteq> None)"

definition saveE2EFlag :: "storage \<Rightarrow> string \<Rightarrow> bool \<Rightarrow> storage" where
  "saveE2EFlag st k on = nvl (setItem st (e2eStorageKey k) (if on then ''1'' else ''0'')) st"

definition isEncrypted :: "convo \<Rightarrow> chats \<Rightarrow> bool" where
  "isEncrypted c s = (encryptedConvos s (key c) = Some True)"

definition hydrateEncryptedFlag :: "chat_env \<Rightarrow> convo \<Rightarrow> chats \<Rightarrow> chats" where
  "hydrateEncryptedFlag env c s =
     (if encryptedConvos s (key c) \<noteq> None then s
      else s\<lparr>encryptedConvos := (encryptedConvos s)(key c \<mapsto> loadE2EFlag env (key c))\<rparr>)"

definition setEncrypted :: "convo \<Rightarrow> bool \<Rightarrow> chats \<times> storage \<Rightarrow> chats \<times> storage" where
  "setEncrypted c on w =
     (case w of (s, st) \<Rightarrow>
       (s\<lparr>encryptedConvos := (encryptedConvos s)(key c \<mapsto> on)\<rparr>, saveE2EFlag st (key c) on))"

definition decryptPending :: "message list \<Rightarrow> chats \<Rightarrow> chats" where
  "decryptPending msgs s = fold (\<lambda>m s'.
     if \<not> is_encrypted m \<or> decryptedContent s (mid m) \<noteq> None then s'
     else emit (DecryptContent m) s') msgs s"

definition decrypt_done :: "int \<Rightarrow> string option \<Rightarrow> chats \<Rightarrow> chats" where
  "decrypt_done i plain s = s\<lparr>decryptedContent := (decryptedContent s)(i \<mapsto> plain)\<rparr>"

section \<open>History\<close>

definition loadMessages :: "convo \<Rightarrow> int option \<Rightarrow> chats \<Rightarrow> chats" where
  "loadMessages c before s =
     (if historyLoading s (key c) = Some True then s
      else emit (ApiMessages c before)
        (s\<lparr>historyLoading := (historyLoading s)(key c \<mapsto> True)\<rparr>))"

definition loadMessages_done :: "convo \<Rightarrow> message list option \<Rightarrow> chats \<Rightarrow> chats" where
  "loadMessages_done c resp s =
     (case resp of
        None \<Rightarrow> s\<lparr>historyLoading := (historyLoading s)(key c \<mapsto> False)\<rparr>
      | Some msgs \<Rightarrow>
          decryptPending msgs
            ((set_bucket c (merge_page (bucket c s) msgs) s)
               \<lparr>historyLoading := (historyLoading s)(key c \<mapsto> False),
                hasMore := (hasMore s)(key c \<mapsto> length msgs \<ge> 50)\<rparr>))"

definition fetchGroups_done :: "group list option \<Rightarrow> chats \<Rightarrow> chats" where
  "fetchGroups_done resp s = (case resp of None \<Rightarrow> s | Some gs \<Rightarrow> s\<lparr>groups := gs\<rparr>)"

definition fetchRecent :: "chat_env \<Rightarrow> chats \<Rightarrow> chats" where
  "fetchRecent env s = (case my_id env of None \<Rightarrow> s | Some i \<Rightarrow> emit (ApiRecent i) s)"

definition recent_dm :: "int \<Rightarrow> message \<Rightarrow> message list int_record \<Rightarrow> message list int_record" where
  "recent_dm my m byDm =
     (case (if sender_id m = my then recipient_id m else Some (sender_id m)) of
        None \<Rightarrow> byDm
      | Some peer \<Rightarrow> byDm(peer := add_recent (byDm peer) m))"

definition recent_group :: "message \<Rightarrow> message list int_record \<Rightarrow> message list int_record" where
  "recent_group m byGroup =
     (case group_id m of None \<Rightarrow> byGroup | Some g \<Rightarrow> byGroup(g := add_recent (byGroup g) m))"

definition fetchRecent_done ::
  "int \<Rightarrow> (message list \<times> message list) option \<Rightarrow> chats \<Rightarrow> chats" where
  "fetchRecent_done my resp s =
     (case resp of
        None \<Rightarrow> s
      | Some (dms, gms) \<Rightarrow>
          decryptPending (dms @ gms)
            (s\<lparr>messagesByDm := fold (recent_dm my) dms (messagesByDm s),
               messagesByGroup := fold recent_group gms (messagesByGroup s)\<rparr>))"

section \<open>Groups\<close>

definition drop_group :: "int \<Rightarrow> chats \<Rightarrow> chats" where
  "drop_group gid s = s\<lparr>groups := filter (\<lambda>g. g_id g \<noteq> gid) (groups s),
     active := (if active s = Some (GroupConvo gid) then None else active s)\<rparr>"

definition deleteGroup_done :: "int \<Rightarrow> unit option \<Rightarrow> chats \<Rightarrow> chats" where
  "deleteGroup_done gid resp s = (case resp of None \<Rightarrow> s | Some _ \<Rightarrow> drop_group gid s)"

text \<open>
  \<open>renameGroup\<close>, \<open>updateGroup\<close>, \<open>setGroupMemberRole\<close> and \<open>addGroupMembers\<close> end the
  same way: the group the server returns takes the place of the old one.
\<close>

definition group_done :: "int \<Rightarrow> group option \<Rightarrow> chats \<Rightarrow> chats" where
  "group_done gid resp s =
     (case resp of None \<Rightarrow> s
      | Some g \<Rightarrow> s\<lparr>groups := map (\<lambda>x. if g_id x = gid then g else x) (groups s)\<rparr>)"

definition removeGroupMember_done :: "chat_env \<Rightarrow> int \<Rightarrow> int \<Rightarrow> unit option \<Rightarrow> chats \<Rightarrow> chats" where
  "removeGroupMember_done env gid uid resp s =
     (case resp of
        None \<Rightarrow> s
      | Some _ \<Rightarrow>
          if my_id env = Some uid then drop_group gid s
          else s\<lparr>groups := map (\<lambda>g. if g_id g = gid
            then g\<lparr>g_members := filter (\<lambda>m. ub_id m \<noteq> uid) (g_members g)\<rparr> else g) (groups s)\<rparr>)"

section \<open>Acting on a message\<close>

definition deleteMessage :: "chat_env \<Rightarrow> message \<Rightarrow> chats \<Rightarrow> chats" where
  "deleteMessage env msg s =
     (case ws_send env ''message:delete'' (JObj [(''id'', JNum (mid msg))]) s of (s1, sent) \<Rightarrow>
       if \<not> sent then s1 else markDeleted env (ref_of msg) s1)"

definition editMessage :: "chat_env \<Rightarrow> message \<Rightarrow> string \<Rightarrow> chats \<Rightarrow> chats" where
  "editMessage env msg txt s =
     (let trimmed = js_trim txt in
      if trimmed = [] \<or> trimmed = content msg then s
      else (case ws_send env ''message:edit''
                   (JObj [(''id'', JNum (mid msg)), (''content'', JStr trimmed)]) s of (s1, sent) \<Rightarrow>
        if \<not> sent then s1
        else updateMessage env (ref_of msg)
               (\<lambda>m. m\<lparr>content := trimmed, edited_at := Some (Iso (now env))\<rparr>) s1))"

definition same_reaction :: "int \<Rightarrow> string \<Rightarrow> message_reaction \<Rightarrow> bool" where
  "same_reaction uid emoji r \<longleftrightarrow> mr_user_id r = uid \<and> mr_emoji r = emoji"

definition reactToMessage :: "chat_env \<Rightarrow> message \<Rightarrow> string \<Rightarrow> chats \<Rightarrow> chats" where
  "reactToMessage env msg emoji s =
     (case my_id env of
        None \<Rightarrow> s
      | Some my \<Rightarrow>
         (case ws_send env ''message:react''
                (JObj [(''id'', JNum (mid msg)), (''emoji'', JStr emoji)]) s of (s1, sent) \<Rightarrow>
           if \<not> sent then s1
           else (let already = (\<exists>r \<in> set (nvl (reactions msg) []). same_reaction my emoji r) in
             updateMessage env (ref_of msg)
               (\<lambda>m. m\<lparr>reactions := Some
                 (if already
                  then filter (\<lambda>r. \<not> same_reaction my emoji r) (nvl (reactions m) [])
                  else nvl (reactions m) [] @
                    [\<lparr>mr_message_id = mid msg, mr_user_id = my, mr_emoji = emoji\<rparr>])\<rparr>) s1)))"

definition pinMessage :: "chat_env \<Rightarrow> message \<Rightarrow> bool \<Rightarrow> chats \<Rightarrow> chats" where
  "pinMessage env msg pinned s =
     (case ws_send env ''message:pin''
            (JObj [(''id'', JNum (mid msg)), (''pinned'', JBool pinned)]) s of (s1, sent) \<Rightarrow>
       if \<not> sent then s1
       else updateMessage env (ref_of msg)
              (\<lambda>m. m\<lparr>pinned_at := (if pinned then Some (Iso (now env)) else None)\<rparr>) s1)"

definition fetchSaved_done :: "message list option \<Rightarrow> chats \<Rightarrow> chats" where
  "fetchSaved_done resp s =
     (case resp of None \<Rightarrow> s | Some msgs \<Rightarrow> s\<lparr>savedIDs := set (map mid msgs)\<rparr>)"

definition toggleSave :: "message \<Rightarrow> chats \<Rightarrow> chats" where
  "toggleSave msg s = emit (ApiSave (mid msg) (mid msg \<notin> savedIDs s)) s"

definition toggleSave_done :: "int \<Rightarrow> bool \<Rightarrow> unit option \<Rightarrow> chats \<Rightarrow> chats" where
  "toggleSave_done i already resp s =
     (case resp of None \<Rightarrow> s
      | Some _ \<Rightarrow> s\<lparr>savedIDs := (if already then savedIDs s - {i} else insert i (savedIDs s))\<rparr>)"

section \<open>Sending\<close>

text \<open>
  The closures \<open>patch\<close> and \<open>fail\<close> that \<open>sendMessage\<close> makes capture the conversation and
  the id of the optimistic message; both are kept in \<open>pendingAcks\<close> under the client id, with
  a ten-second timer that runs \<open>fail\<close>.
\<close>

definition ack_patch :: "convo \<Rightarrow> int \<Rightarrow> message \<Rightarrow> chats \<Rightarrow> chats" where
  "ack_patch c opt m s = set_bucket c (place {opt} m (bucket c s)) s"

definition drop_pending :: "string \<Rightarrow> chats \<Rightarrow> chats" where
  "drop_pending cid s =
     (if jm_has (pendingAcks s) cid
      then emit (ClearTimer cid) (s\<lparr>pendingAcks := jm_delete cid (pendingAcks s)\<rparr>)
      else s)"

definition not_sent :: string where
  "not_sent = ''Message not sent. Check your connection.''"

definition send_fail :: "string \<Rightarrow> convo \<Rightarrow> int \<Rightarrow> chats \<Rightarrow> chats" where
  "send_fail cid c opt s =
     (let s1 = drop_pending cid s in
      (set_bucket c
        (patch_id opt (\<lambda>m. m\<lparr>pending := False, failed := True\<rparr>) (bucket c s1)) s1)
        \<lparr>sendError := Some not_sent\<rparr>)"

definition ack_timeout :: "string \<Rightarrow> chats \<Rightarrow> chats" where
  "ack_timeout cid s =
     (case jm_get (pendingAcks s) cid of
        None \<Rightarrow> s
      | Some pa \<Rightarrow> send_fail cid (pa_convo pa) (pa_opt pa) s)"

definition base_payload :: "send_job \<Rightarrow> (string \<times> json) list" where
  "base_payload job =
     [(''client_id'', JStr (j_client job)), (''recipient_id'', dm_field (j_convo job)),
      (''group_id'', group_field (j_convo job)), (''file_id'', jopt (j_file job)),
      (''reply_to_id'', jopt (j_reply job))]"

definition send_or_fail :: "chat_env \<Rightarrow> send_job \<Rightarrow> (string \<times> json) list \<Rightarrow> chats \<Rightarrow> chats" where
  "send_or_fail env job extra s =
     (case ws_send env ''message:send'' (JObj (base_payload job @ extra)) s of (s1, sent) \<Rightarrow>
       if sent then s1 else send_fail (j_client job) (j_convo job) (j_opt job) s1)"

definition brief_of :: "user \<Rightarrow> user_brief" where
  "brief_of u = \<lparr>ub_id = u_id u, ub_display_name = u_display_name u,
     ub_username = u_username u, ub_avatar_file_id = u_avatar_file_id u\<rparr>"

definition optimistic_message ::
  "chat_env \<Rightarrow> user \<Rightarrow> convo \<Rightarrow> string \<Rightarrow> int option \<Rightarrow> int option \<Rightarrow> string \<Rightarrow> chats \<Rightarrow> message" where
  "optimistic_message env u c txt fileID replyToID cid s =
     \<lparr>mid = - (now env * 1000 + optimisticSequence s mod 1000),
      sender_id = u_id u,
      recipient_id = (case c of Dm p \<Rightarrow> Some p | GroupConvo _ \<Rightarrow> None),
      group_id = (case c of Dm _ \<Rightarrow> None | GroupConvo g \<Rightarrow> Some g),
      file_id = fileID, content = js_trim txt, sent_at = Iso (now env),
      delivered_at = None, read_at = None, deleted_at = None, edited_at = None,
      reply_to_id = replyToID, pinned_at = None, is_encrypted = isEncrypted c s,
      enc_iv = None, enc_keys = None,
      reply_to = (case replyToID of None \<Rightarrow> None
        | Some r \<Rightarrow> map_option buildReplyPreview (find (\<lambda>m. mid m = r) (bucket c s))),
      reactions = None, sender = Some (brief_of u), mfile = None,
      pending = True, failed = False, clientID = Some cid\<rparr>"

definition client_id_of :: "chat_env \<Rightarrow> string" where
  "client_id_of env = ''c-'' @ show_int (now env) @ ''-'' @ rnd env"

definition recipients :: "int \<Rightarrow> convo \<Rightarrow> chats \<Rightarrow> int list" where
  "recipients my c s =
     (case c of
        Dm p \<Rightarrow> [my, p]
      | GroupConvo g \<Rightarrow> my # (case find (\<lambda>x. g_id x = g) (groups s) of
            None \<Rightarrow> [] | Some x \<Rightarrow> map ub_id (g_members x)))"

text \<open>
  \<open>sendMessage\<close> up to its first \<open>await\<close>: the optimistic bubble, the acknowledgement entry
  with its timer, and then either the plain frame or, for an encrypted conversation, the check
  of the other members' keys.
\<close>

definition sendMessage ::
  "chat_env \<Rightarrow> convo \<Rightarrow> string \<Rightarrow> int option \<Rightarrow> int option \<Rightarrow> chats \<Rightarrow> chats" where
  "sendMessage env c txt fileID replyToID s =
     (if js_trim txt = [] \<and> \<not> num_truthy fileID then s
      else (case me env of
        None \<Rightarrow> s
      | Some u \<Rightarrow>
         (let cid = client_id_of env;
              s0 = s\<lparr>sendError := None\<rparr>;
              opt = optimistic_message env u c txt fileID replyToID cid s0;
              s1 = ack_patch c (mid opt) opt
                     (s0\<lparr>optimisticSequence := optimisticSequence s0 + 1\<rparr>);
              s2 = (emit (StartTimer cid 10000) s1)
                     \<lparr>pendingAcks :=
                        jm_set cid \<lparr>pa_convo = c, pa_opt = mid opt\<rparr> (pendingAcks s1)\<rparr>;
              job = \<lparr>j_client = cid, j_convo = c, j_opt = mid opt, j_file = fileID,
                     j_reply = replyToID, j_text = js_trim txt,
                     j_to = recipients (u_id u) c s2\<rparr>
          in if j_text job \<noteq> [] \<and> isEncrypted c s2
             then emit (CheckKeys (filter (\<lambda>i. i \<noteq> u_id u) (j_to job)) job) s2
             else send_or_fail env job [(''content'', JStr (j_text job))] s2)))"

definition unencrypted_notice :: "nat \<Rightarrow> string" where
  "unencrypted_notice n =
     (if n = 1
      then ''Sent without end-to-end encryption: the other person hasn't signed in on any device yet.''
      else ''Sent without end-to-end encryption: '' @ show_nat n @
           '' people haven't signed in on any device yet.'')"

definition missing_keys_error :: "nat \<Rightarrow> string" where
  "missing_keys_error n = ''Could not send: '' @
     (if n = 1 then ''a recipient hasn't'' else show_nat n @ '' recipients haven't'') @
     '' set up encryption on any device yet.''"

definition no_verify_error :: string where
  "no_verify_error = ''Could not verify recipients' encryption keys -- message not sent.''"

definition no_encrypt_error :: string where
  "no_encrypt_error =
     ''Could not encrypt message -- the recipient may not have encryption set up yet.''"

text \<open>
  (The messages' dash, outside Latin-1, is written \<open>--\<close>.)
  The outcome of \<open>usersMissingKeys\<close>: rejected, some members without a key, or none missing.
  The source's \<open>catch\<close> also covers what runs inside this \<open>then\<close>, none of which throws.
\<close>

definition keys_checked :: "chat_env \<Rightarrow> send_job \<Rightarrow> int list option \<Rightarrow> chats \<Rightarrow> chats" where
  "keys_checked env job resp s =
     (case resp of
        None \<Rightarrow> send_fail (j_client job) (j_convo job) (j_opt job)
                  (s\<lparr>sendError := Some no_verify_error\<rparr>)
      | Some missing \<Rightarrow>
          if missing \<noteq> [] \<and> \<not> hasExplicitE2EFlag env (key (j_convo job))
          then send_or_fail env job [(''content'', JStr (j_text job))]
                 (emit (ToastInfo (unencrypted_notice (length missing))) s)
          else if missing \<noteq> []
          then send_fail (j_client job) (j_convo job) (j_opt job)
                 (s\<lparr>sendError := Some (missing_keys_error (length missing))\<rparr>)
          else emit (EncryptFor job) s)"

definition encrypted_done ::
  "chat_env \<Rightarrow> send_job \<Rightarrow> encrypted_payload option \<Rightarrow> chats \<Rightarrow> chats" where
  "encrypted_done env job resp s =
     (case resp of
        None \<Rightarrow> send_fail (j_client job) (j_convo job) (j_opt job)
                  (s\<lparr>sendError := Some no_encrypt_error\<rparr>)
      | Some p \<Rightarrow> send_or_fail env job
          [(''content'', JStr (ep_ciphertext p)), (''encrypted'', JBool True),
           (''enc_iv'', JStr (ep_iv p)), (''enc_keys'', JStr (ep_encKeys p))] s)"

text \<open>A failed message is taken out of its list and sent again as a new one.\<close>

definition retry_convo :: "message \<Rightarrow> convo option" where
  "retry_convo msg =
     (if num_truthy (recipient_id msg) then Some (Dm (the (recipient_id msg)))
      else if num_truthy (group_id msg) then Some (GroupConvo (the (group_id msg))) else None)"

definition retryMessage :: "chat_env \<Rightarrow> message \<Rightarrow> chats \<Rightarrow> chats" where
  "retryMessage env msg s =
     (case retry_convo msg of
        None \<Rightarrow> s
      | Some c \<Rightarrow> sendMessage env c (content msg) (file_id msg) (reply_to_id msg)
          (set_bucket c (drop_id (mid msg) (bucket c s)) s))"

definition sendTyping :: "chat_env \<Rightarrow> convo \<Rightarrow> chats \<Rightarrow> chats" where
  "sendTyping env c s =
     (if now env - lastTypingSent s < 2500 then s
      else fst (ws_send env ''message:typing''
             (JObj [(''recipient_id'', dm_field c), (''group_id'', group_field c)])
             (s\<lparr>lastTypingSent := now env\<rparr>)))"

definition markRead :: "chat_env \<Rightarrow> convo \<Rightarrow> chats \<Rightarrow> chats" where
  "markRead env c s =
     fst (ws_send env ''message:read''
       (JObj [(''peer_id'', dm_field c), (''group_id'', group_field c)])
       (if num_truthy (unread s (key c)) then s\<lparr>unread := (unread s)(key c \<mapsto> 0)\<rparr> else s))"

text \<open>\<open>openDm\<close> and \<open>openGroup\<close>.\<close>

definition open_convo :: "chat_env \<Rightarrow> convo \<Rightarrow> chats \<Rightarrow> chats" where
  "open_convo env c s =
     markRead env c (loadMessages c None (hydrateEncryptedFlag env c (s\<lparr>active := Some c\<rparr>)))"

end
