(* ===== verification/ChatInv.thy ===== *)
theory ChatInv
  imports ChatHandlers
begin

text \<open>
  How the chat store's operations act on the message lists: the frame facts (which operation
  leaves which list alone), the list of each conversation after each operation, reachable
  states, and the invariant that every list stays well formed.
\<close>

section \<open>Frame facts\<close>

lemma bucket_set_bucket [simp]: "bucket c (set_bucket d xs s) = (if c = d then xs else bucket c s)"
  by (cases c; cases d) auto

lemma bucket_frame [simp]:
  "bucket c (s\<lparr>groups := a1\<rparr>) = bucket c s"
  "bucket c (s\<lparr>active := a2\<rparr>) = bucket c s"
  "bucket c (s\<lparr>typingDm := a3\<rparr>) = bucket c s"
  "bucket c (s\<lparr>typingGroup := a4\<rparr>) = bucket c s"
  "bucket c (s\<lparr>unread := a5\<rparr>) = bucket c s"
  "bucket c (s\<lparr>callCovering := a6\<rparr>) = bucket c s"
  "bucket c (s\<lparr>sendError := a7\<rparr>) = bucket c s"
  "bucket c (s\<lparr>historyLoading := a8\<rparr>) = bucket c s"
  "bucket c (s\<lparr>hasMore := a9\<rparr>) = bucket c s"
  "bucket c (s\<lparr>savedIDs := b1\<rparr>) = bucket c s"
  "bucket c (s\<lparr>encryptedConvos := b2\<rparr>) = bucket c s"
  "bucket c (s\<lparr>decryptedContent := b3\<rparr>) = bucket c s"
  "bucket c (s\<lparr>lastTypingSent := b4\<rparr>) = bucket c s"
  "bucket c (s\<lparr>wsRegistered := b5\<rparr>) = bucket c s"
  "bucket c (s\<lparr>optimisticSequence := b6\<rparr>) = bucket c s"
  "bucket c (s\<lparr>pendingAcks := b7\<rparr>) = bucket c s"
  "bucket c (s\<lparr>out := b8\<rparr>) = bucket c s"
  by (cases c; simp)+

lemma bucket_emit [simp]: "bucket c (emit e s) = bucket c s"
  by (simp add: emit_def)

lemma emit_simps [simp]:
  "out (emit e s) = out s @ [e]"
  "unread (emit e s) = unread s" "sendError (emit e s) = sendError s"
  "pendingAcks (emit e s) = pendingAcks s" "encryptedConvos (emit e s) = encryptedConvos s"
  "active (emit e s) = active s" "callCovering (emit e s) = callCovering s"
  "groups (emit e s) = groups s" "lastTypingSent (emit e s) = lastTypingSent s"
  "historyLoading (emit e s) = historyLoading s" "hasMore (emit e s) = hasMore s"
  "decryptedContent (emit e s) = decryptedContent s"
  "optimisticSequence (emit e s) = optimisticSequence s"
  by (simp_all add: emit_def)

lemma set_bucket_simps [simp]:
  "out (set_bucket c xs s) = out s" "unread (set_bucket c xs s) = unread s"
  "sendError (set_bucket c xs s) = sendError s" "pendingAcks (set_bucket c xs s) = pendingAcks s"
  "encryptedConvos (set_bucket c xs s) = encryptedConvos s"
  "active (set_bucket c xs s) = active s" "callCovering (set_bucket c xs s) = callCovering s"
  "groups (set_bucket c xs s) = groups s" "lastTypingSent (set_bucket c xs s) = lastTypingSent s"
  "historyLoading (set_bucket c xs s) = historyLoading s" "hasMore (set_bucket c xs s) = hasMore s"
  "decryptedContent (set_bucket c xs s) = decryptedContent s"
  "optimisticSequence (set_bucket c xs s) = optimisticSequence s"
  by (cases c; simp)+

lemma ws_send_fst: "fst (ws_send env ty d s) = (if ws_up env then emit (SendFrame (ty, d)) s else s)"
  by (simp add: ws_send_def)

lemma ws_send_cases: "ws_send env ty d s = (fst (ws_send env ty d s), ws_up env)"
  by (simp add: ws_send_def)

lemma bucket_ws_send [simp]: "bucket c (fst (ws_send env ty d s)) = bucket c s"
  by (simp add: ws_send_def)

lemma decryptPending_emits:
  "decryptPending ms s = s\<lparr>out := out s @
     map DecryptContent (filter (\<lambda>m. is_encrypted m \<and> decryptedContent s (mid m) = None) ms)\<rparr>"
proof -
  have "fold (\<lambda>m s'. if \<not> is_encrypted m \<or> decryptedContent s (mid m) \<noteq> None then s'
          else emit (DecryptContent m) s') ms t = t\<lparr>out := out t @
     map DecryptContent (filter (\<lambda>m. is_encrypted m \<and> decryptedContent s (mid m) = None) ms)\<rparr>" for t
    by (induction ms arbitrary: t) (auto simp: emit_def)
  then show ?thesis by (simp add: decryptPending_def)
qed

lemma bucket_decryptPending [simp]: "bucket c (decryptPending ms s) = bucket c s"
  by (simp add: decryptPending_emits)

lemma bucket_drop_pending [simp]: "bucket c (drop_pending cid s) = bucket c s"
  by (simp add: drop_pending_def)

lemma bucket_markRead [simp]: "bucket c (markRead env d s) = bucket c s"
  by (simp add: markRead_def)

lemma bucket_loadMessages [simp]: "bucket c (loadMessages d before s) = bucket c s"
  by (simp add: loadMessages_def)

lemma bucket_hydrate [simp]: "bucket c (hydrateEncryptedFlag env d s) = bucket c s"
  by (simp add: hydrateEncryptedFlag_def)

lemma bucket_open [simp]: "bucket c (open_convo env d s) = bucket c s"
  by (simp add: open_convo_def)

lemma bucket_count_unread [simp]: "bucket c (count_unread env u d m s) = bucket c s"
  by (simp add: count_unread_def Let_def)

section \<open>The lists after each operation\<close>

lemma bucket_updateMessage:
  "bucket c (updateMessage env ref f s) =
     (if ref_convo env ref = Some c then patch_id (r_id ref) f (bucket c s) else bucket c s)"
  by (auto simp: updateMessage_def split: option.splits)

lemma bucket_ack_patch:
  "bucket c (ack_patch d opt m s) = (if c = d then place {opt} m (bucket c s) else bucket c s)"
  by (simp add: ack_patch_def)

lemma bucket_send_fail:
  "bucket c (send_fail cid d opt s) =
     (if c = d then patch_id opt (\<lambda>m. m\<lparr>pending := False, failed := True\<rparr>) (bucket c s)
      else bucket c s)"
  by (simp add: send_fail_def Let_def)

lemma bucket_loadMessages_done:
  "bucket c (loadMessages_done d resp s) =
     (case resp of Some msgs \<Rightarrow> if c = d then merge_page (bucket c s) msgs else bucket c s
      | None \<Rightarrow> bucket c s)"
  by (simp add: loadMessages_done_def split: option.splits)

definition arrives_in :: "chat_env \<Rightarrow> message \<Rightarrow> convo \<Rightarrow> bool" where
  "arrives_in env msg c \<longleftrightarrow>
     (case me env of None \<Rightarrow> False | Some u \<Rightarrow> incoming_convo (u_id u) msg = Some c)"

lemma bucket_on_message_new:
  "bucket c (on_message_new env msg s) =
     (if arrives_in env msg c then place {} msg (bucket c s) else bucket c s)"
  by (auto simp: on_message_new_def arrives_in_def Let_def split: option.splits)

section \<open>Well-formed lists\<close>

definition chats_ok :: "chats \<Rightarrow> bool" where
  "chats_ok s \<longleftrightarrow> (\<forall>c. bucket_ok (bucket c s))"

lemma chats_okD: "chats_ok s \<Longrightarrow> bucket_ok (bucket c s)"
  by (simp add: chats_ok_def)

lemma chats_ok_init: "chats_ok init_chats"
proof -
  have "bucket c init_chats = []" for c by (cases c) (simp_all add: init_chats_def)
  then show ?thesis by (simp add: chats_ok_def)
qed

text \<open>An operation that only touches other fields.\<close>

lemma chats_ok_same: "chats_ok s \<Longrightarrow> (\<And>c. bucket c t = bucket c s) \<Longrightarrow> chats_ok t"
  by (simp add: chats_ok_def)

lemma chats_ok_set: "chats_ok s \<Longrightarrow> bucket_ok xs \<Longrightarrow> chats_ok (set_bucket c xs s)"
  by (simp add: chats_ok_def)

lemma chats_ok_ack_patch: "chats_ok s \<Longrightarrow> dated m \<Longrightarrow> chats_ok (ack_patch c opt m s)"
  unfolding ack_patch_def by (intro chats_ok_set place_ok) (auto simp: chats_ok_def)

lemma chats_ok_update:
  assumes "chats_ok s"
    and "\<And>c m. ref_convo env ref = Some c \<Longrightarrow> m \<in> set (bucket c s) \<Longrightarrow> mid m = r_id ref \<Longrightarrow>
      same_place m (f m)"
  shows "chats_ok (updateMessage env ref f s)"
  using assms by (auto simp: chats_ok_def bucket_updateMessage intro: patch_ok)

lemma chats_ok_send_fail: "chats_ok s \<Longrightarrow> chats_ok (send_fail cid c opt s)"
  by (auto simp: chats_ok_def bucket_send_fail same_place_def intro!: patch_ok)

lemma chats_ok_ack_timeout: "chats_ok s \<Longrightarrow> chats_ok (ack_timeout cid s)"
  by (simp add: ack_timeout_def chats_ok_send_fail split: option.split)

lemma chats_ok_send_or_fail: "chats_ok s \<Longrightarrow> chats_ok (send_or_fail env job extra s)"
  by (auto simp: send_or_fail_def ws_send_def chats_ok_def
      intro: chats_ok_send_fail [unfolded chats_ok_def, rule_format])

lemma dated_optimistic [simp]: "dated (optimistic_message env u c t f r cid s)"
  by (simp add: optimistic_message_def dated_def)

lemma chats_ok_sendMessage: "chats_ok s \<Longrightarrow> chats_ok (sendMessage env c t f r s)"
proof -
  assume ok: "chats_ok s"
  have ack: "chats_ok (ack_patch c (mid opt) opt (s\<lparr>sendError := None, optimisticSequence := n\<rparr>))"
    if "dated opt" for opt n
    using that ok by (intro chats_ok_ack_patch) (auto intro: chats_ok_same)
  have "chats_ok ((emit e t)\<lparr>pendingAcks := p\<rparr>)" "chats_ok (emit e t)" if "chats_ok t" for e t p
    using that by (auto intro: chats_ok_same)
  with ok ack show ?thesis
    by (auto simp: sendMessage_def Let_def intro!: chats_ok_send_or_fail split: option.splits)
qed

lemma chats_ok_keys_checked: "chats_ok s \<Longrightarrow> chats_ok (keys_checked env job resp s)"
  by (auto simp: keys_checked_def split: option.split
      intro!: chats_ok_send_fail chats_ok_send_or_fail intro: chats_ok_same)

lemma chats_ok_encrypted_done: "chats_ok s \<Longrightarrow> chats_ok (encrypted_done env job resp s)"
  by (auto simp: encrypted_done_def split: option.split
      intro!: chats_ok_send_fail chats_ok_send_or_fail intro: chats_ok_same)

lemma chats_ok_retry: "chats_ok s \<Longrightarrow> chats_ok (retryMessage env msg s)"
  by (auto simp: retryMessage_def split: option.split
      intro!: chats_ok_sendMessage chats_ok_set drop_ok dest: chats_okD)

lemma chats_ok_optimistic_edits:
  assumes "chats_ok s"
  shows "chats_ok (deleteMessage env m s)" "chats_ok (editMessage env m t s)"
    "chats_ok (reactToMessage env m e s)" "chats_ok (pinMessage env m b s)"
proof -
  have upd: "chats_ok (updateMessage env r f (fst (ws_send env ty d s)))"
    if "\<And>m. same_place m (f m)" for r f ty d
    using that assms by (intro chats_ok_update) (auto intro: chats_ok_same)
  have snd: "chats_ok (fst (ws_send env ty d s))" for ty d
    using assms by (auto intro: chats_ok_same)
  note defs = ws_send_cases [of env] Let_def
  show "chats_ok (deleteMessage env m s)"
    using upd snd by (subst deleteMessage_def, subst ws_send_cases)
      (auto simp: markDeleted_def same_place_def)
  show "chats_ok (editMessage env m t s)"
    using upd snd assms by (subst editMessage_def, subst ws_send_cases)
      (auto simp: Let_def same_place_def)
  show "chats_ok (reactToMessage env m e s)"
    using upd snd assms by (subst reactToMessage_def, subst ws_send_cases)
      (auto simp: Let_def same_place_def split: option.split)
  show "chats_ok (pinMessage env m b s)"
    using upd snd assms by (subst pinMessage_def, subst ws_send_cases)
      (auto simp: Let_def same_place_def)
qed

subsection \<open>Operations driven by the server\<close>

lemma chats_ok_loaded:
  assumes "chats_ok s" "\<forall>m \<in> set (nvl resp []). dated m"
  shows "chats_ok (loadMessages_done c resp s)"
  using assms by (auto simp: chats_ok_def bucket_loadMessages_done intro!: bk.ok_join split: option.splits)

definition table_ok :: "message list int_record \<Rightarrow> bool" where
  "table_ok t \<longleftrightarrow> (\<forall>k. bucket_ok (nvl (t k) []))"

lemma chats_ok_tables: "chats_ok s \<longleftrightarrow> table_ok (messagesByDm s) \<and> table_ok (messagesByGroup s)"
  unfolding chats_ok_def table_ok_def by (metis bucket.simps convo.exhaust)

lemma table_ok_add: "table_ok t \<Longrightarrow> dated m \<Longrightarrow> table_ok (t(k := add_recent (t k) m))"
  by (simp add: table_ok_def add_recent_ok)

lemma table_ok_recent_dm:
  "table_ok t \<Longrightarrow> \<forall>m \<in> set ms. dated m \<Longrightarrow> table_ok (fold (recent_dm my) ms t)"
  by (induction ms arbitrary: t)
    (auto simp: recent_dm_def table_ok_add split: option.splits)

lemma table_ok_recent_group:
  "table_ok t \<Longrightarrow> \<forall>m \<in> set ms. dated m \<Longrightarrow> table_ok (fold recent_group ms t)"
  by (induction ms arbitrary: t)
    (auto simp: recent_group_def table_ok_add split: option.splits)

lemma chats_ok_recent:
  assumes "chats_ok s" "\<forall>p. resp = Some p \<longrightarrow> (\<forall>m \<in> set (fst p @ snd p). dated m)"
  shows "chats_ok (fetchRecent_done my resp s)"
proof (cases resp)
  case (Some p)
  have "chats_ok (s\<lparr>messagesByDm := fold (recent_dm my) (fst p) (messagesByDm s),
      messagesByGroup := fold recent_group (snd p) (messagesByGroup s)\<rparr>)"
    using assms Some by (auto simp: chats_ok_tables intro!: table_ok_recent_dm table_ok_recent_group)
  then show ?thesis
    using Some by (auto simp: fetchRecent_done_def case_prod_beta intro: chats_ok_same)
qed (use assms in \<open>simp add: fetchRecent_done_def\<close>)

lemma chats_ok_message_sent:
  "chats_ok s \<Longrightarrow> dated m \<Longrightarrow> chats_ok (on_message_sent cid m s)"
proof -
  assume ok: "chats_ok s" and d: "dated m"
  then have "chats_ok (drop_pending cid s)" by (auto intro: chats_ok_same)
  with d ok show ?thesis
    by (auto simp: on_message_sent_def split: option.split
        intro: chats_ok_same [OF _ bucket_decryptPending] chats_ok_ack_patch)
qed

lemma chats_ok_message_new: "chats_ok s \<Longrightarrow> dated m \<Longrightarrow> chats_ok (on_message_new env m s)"
  by (auto simp: chats_ok_def bucket_on_message_new intro: place_ok)

lemma chats_ok_patches:
  assumes "chats_ok s"
  shows "chats_ok (on_message_deleted env r s)" "chats_ok (on_message_pinned env r at s)"
    "chats_ok (on_message_reaction env r u e a s)"
  unfolding on_message_deleted_def markDeleted_def on_message_pinned_def on_message_reaction_def
  by (rule chats_ok_update [OF assms]; simp add: same_place_def with_reaction_def Let_def)+

lemma chats_ok_message_read: "chats_ok s \<Longrightarrow> chats_ok (on_message_read env from s)"
proof -
  assume ok: "chats_ok s"
  let ?f = "\<lambda>m. m\<lparr>read_at := Some (Iso (now env))\<rparr>"
  have "bucket_ok (map_if P ?f xs)" if "bucket_ok xs" for P xs
  proof -
    have "map mid (map_if P ?f xs) = map mid xs" "map mkey (map_if P ?f xs) = map mkey xs"
      by (rule map_if_key; simp add: mkey_def)+
    moreover have "\<forall>m \<in> set (map_if P ?f xs). dated m"
      using that by (auto simp: bucket_ok_def set_map_if dated_def)
    ultimately show ?thesis using that by (simp add: bucket_ok_def)
  qed
  with ok show ?thesis
    by (auto simp: on_message_read_def chats_okD simp del: bucket.simps set_bucket.simps
        intro!: chats_ok_set split: option.split)
qed

section \<open>Reachable states\<close>

text \<open>
  What the store may rely on from the server: message dates parse, and an edit does not move
  a message in time.
\<close>

definition server_ok :: "chat_env \<Rightarrow> chat_event \<Rightarrow> chats \<Rightarrow> bool" where
  "server_ok env ev s = (case ev of
      LoadedMessages c r \<Rightarrow> \<forall>m \<in> set (nvl r []). dated m
    | GotRecent my r \<Rightarrow> \<forall>p. r = Some p \<longrightarrow> (\<forall>m \<in> set (fst p @ snd p). dated m)
    | WsSent cid m \<Rightarrow> dated m
    | WsNew m \<Rightarrow> dated m
    | WsEdited m \<Rightarrow> \<forall>c x. x \<in> set (bucket c s) \<longrightarrow> mid x = mid m \<longrightarrow> sent_at x = sent_at m
    | _ \<Rightarrow> True)"

inductive chat_reach :: "chats \<Rightarrow> bool" where
  init: "chat_reach init_chats"
| step: "chat_reach s \<Longrightarrow> server_ok env ev s \<Longrightarrow> chat_reach (chat_step env ev s)"

inductive_cases chat_reachE: "chat_reach s"

lemma chats_ok_groups:
  assumes "chats_ok s"
  shows "chats_ok (fetchGroups_done r1 s)" "chats_ok (deleteGroup_done g r2 s)"
    "chats_ok (group_done g r3 s)" "chats_ok (removeGroupMember_done env g u r2 s)"
  by (rule chats_ok_same [OF assms];
      simp add: fetchGroups_done_def deleteGroup_done_def group_done_def drop_group_def
        removeGroupMember_done_def split: option.split)+

lemma chats_ok_quiet:
  assumes "chats_ok s"
  shows "chats_ok (fetchRecent env s)" "chats_ok (fetchSaved_done r1 s)"
    "chats_ok (toggleSave m s)" "chats_ok (toggleSave_done i b r2 s)"
    "chats_ok (sendTyping env c s)" "chats_ok (on_visibility env s)" "chats_ok (registerWs s)"
    "chats_ok (on_typing env f n g s)" "chats_ok (on_unread x y s)"
    "chats_ok (decrypt_done i p s)" "chats_ok (fst (setEncrypted c on (s, st)))"
  by (rule chats_ok_same [OF assms];
      simp add: fetchRecent_def fetchSaved_done_def toggleSave_def toggleSave_done_def
        sendTyping_def on_visibility_def registerWs_def on_typing_def on_unread_def
        decrypt_done_def setEncrypted_def Let_def split: option.split)+

lemma chats_ok_step:
  assumes "chats_ok s" "server_ok env ev s"
  shows "chats_ok (chat_step env ev s)"
proof (cases ev)
  case (WsEdited m)
  have "chats_ok (on_message_edited env m s)"
    unfolding on_message_edited_def
    by (rule chats_ok_update [OF assms(1)])
      (use assms(2) WsEdited in \<open>auto simp: server_ok_def same_place_def ref_of_def\<close>)
  with WsEdited show ?thesis by (simp add: chat_step_def)
qed (use assms in \<open>auto simp: chat_step_def server_ok_def on_error_def
      intro: chats_ok_loaded chats_ok_recent chats_ok_message_sent chats_ok_message_new
        chats_ok_patches chats_ok_message_read chats_ok_groups chats_ok_quiet
        chats_ok_optimistic_edits chats_ok_sendMessage chats_ok_retry chats_ok_keys_checked
        chats_ok_encrypted_done chats_ok_ack_timeout chats_ok_same\<close>)

lemma chat_reach_ok: "chat_reach s \<Longrightarrow> chats_ok s"
  by (induction rule: chat_reach.induct) (auto intro: chats_ok_init chats_ok_step)

end
