(* ===== verification/ChatLaws.thy ===== *)
theory ChatLaws
  imports ChatInv
begin

text \<open>
  What the chat store promises: lists stay sorted and free of duplicates in every reachable
  state, a sent message ends as the server's copy or as a failed bubble, the order in which
  pages and live messages arrive does not matter, a conversation the user chose to encrypt
  never sends plain text, and the unread counters follow what is on screen. Each property is
  followed by an instance on concrete data.
\<close>

section \<open>Sample data\<close>

definition ex_user :: user where
  "ex_user = \<lparr>u_id = 7, u_username = ''ann'', u_display_name = ''Ann'', u_role = RoleUser,
     u_avatar_file_id = None, u_email = None, u_disabled = False, u_deleted = False,
     u_created_at = Iso 0, u_oidc_linked = False, u_status = Online, u_preferences = None\<rparr>"

definition ex_storage :: storage where
  "ex_storage = \<lparr>blocked = False, items = [(''vc.e2e.v2.dm:9'', ''1'')]\<rparr>"

definition ex_env :: chat_env where
  "ex_env = \<lparr>me = Some ex_user, now = 5000, rnd = ''k3x9q'', ws_up = True, hidden = False,
     my_status = Online, secure = True, local_storage = ex_storage\<rparr>"

definition ex_msg :: "int \<Rightarrow> ms \<Rightarrow> string \<Rightarrow> message" where
  "ex_msg i t txt = \<lparr>mid = i, sender_id = 9, recipient_id = Some 7, group_id = None,
     file_id = None, content = txt, sent_at = Iso t, delivered_at = None, read_at = None,
     deleted_at = None, edited_at = None, reply_to_id = None, pinned_at = None,
     is_encrypted = False, enc_iv = None, enc_keys = None, reply_to = None, reactions = None,
     sender = None, mfile = None, pending = False, failed = False, clientID = None\<rparr>"

lemmas ex_defs = ex_user_def ex_storage_def ex_env_def ex_msg_def

lemma ex_dated [simp]: "dated (ex_msg i t txt)"
  by (simp add: ex_msg_def dated_def)

lemma ex_mid [simp]: "mid (ex_msg i t txt) = i"
  by (simp add: ex_msg_def)

lemma bucket_init [simp]: "bucket c init_chats = []"
  by (cases c) (simp_all add: init_chats_def)

lemma init_fields [simp]:
  "pendingAcks init_chats = []" "encryptedConvos init_chats = Map.empty"
  "out init_chats = []" "unread init_chats = Map.empty" "active init_chats = None"
  "groups init_chats = []" "optimisticSequence init_chats = 0" "callCovering init_chats = False"
  "lastTypingSent init_chats = 0" "decryptedContent init_chats = Map.empty"
  by (simp_all add: init_chats_def)

section \<open>Lists\<close>

text \<open>
  C4. In every state the chat store can reach, each conversation's list holds at most one entry
  per message id and is in the order of (time, id).
\<close>

theorem reachable_lists_ordered:
  assumes "chat_reach s"
  shows "distinct (map mid (bucket c s)) \<and>
    sorted_wrt (\<lambda>a b. messageOrder a b \<le> 0) (bucket c s)"
proof -
  from assms have ok: "bucket_ok (bucket c s)" by (blast dest: chat_reach_ok chats_okD)
  then have "sorted_wrt (\<lambda>a b. mkey a \<le> mkey b) (bucket c s)"
    by (simp add: bucket_ok_def sorted_map)
  then have "sorted_wrt (\<lambda>a b. messageOrder a b \<le> 0) (bucket c s)"
    by (rule sorted_wrt_mono_rel [rotated]) (use ok in \<open>auto simp: bucket_ok_def messageOrder_le\<close>)
  with ok show ?thesis by (simp add: bucket_ok_def)
qed

theorem reachable_lists_ordered_witness:
  "chat_reach (chat_step ex_env (WsNew (ex_msg 3 50 ''hi'')) init_chats) \<and>
   distinct (map mid (bucket (Dm 9) (chat_step ex_env (WsNew (ex_msg 3 50 ''hi'')) init_chats)))"
proof -
  have r: "chat_reach (chat_step ex_env (WsNew (ex_msg 3 50 ''hi'')) init_chats)"
    by (rule chat_reach.step [OF chat_reach.init]) (simp add: server_ok_def)
  show ?thesis using r reachable_lists_ordered [OF r, of "Dm 9"] by simp
qed

text \<open>
  A history page and a live message can arrive in either order: every conversation's list
  comes out the same, when the page does not hold a different version of that message.
\<close>

theorem page_and_live_message_commute:
  assumes "chats_ok s" "dated m" "\<forall>x \<in> set ms. dated x"
    and "\<forall>x \<in> set ms. mid x = mid m \<longrightarrow> x = m"
  shows "bucket d (on_message_new env m (loadMessages_done c (Some ms) s)) =
    bucket d (loadMessages_done c (Some ms) (on_message_new env m s))"
proof -
  have "bucket_abs (rev ms) (mid m) = None \<or> bucket_abs (rev ms) (mid m) = Some m"
    using assms(4) bucket_abs_mid [of "rev ms" "mid m"] by (metis not_None_eq set_rev)
  then have "place {} m (merge_page (bucket d s) ms) = merge_page (place {} m (bucket d s)) ms"
    using assms by (intro bk.ins_join_comm) (auto dest: chats_okD)
  then show ?thesis by (auto simp: bucket_on_message_new bucket_loadMessages_done)
qed

theorem page_and_live_message_commute_witness:
  "bucket (Dm 9) (on_message_new ex_env (ex_msg 3 50 ''hi'')
     (loadMessages_done (Dm 9) (Some [ex_msg 2 40 ''a'', ex_msg 4 60 ''b'']) init_chats)) =
   bucket (Dm 9) (loadMessages_done (Dm 9) (Some [ex_msg 2 40 ''a'', ex_msg 4 60 ''b''])
     (on_message_new ex_env (ex_msg 3 50 ''hi'') init_chats))"
  by (rule page_and_live_message_commute) (auto simp: chats_ok_init)

text \<open>
  C7. Two live messages with different ids can arrive in either order, and two history pages
  that agree where they overlap can too: the lists come out the same.
\<close>

theorem arrival_order_irrelevant:
  assumes "chats_ok s" "dated m" "dated n" "mid m \<noteq> mid n"
    and "\<forall>x \<in> set ms \<union> set ns. dated x"
    and "\<forall>x \<in> set ms. \<forall>y \<in> set ns. mid x = mid y \<longrightarrow> x = y"
  shows "bucket d (on_message_new env m (on_message_new env n s)) =
      bucket d (on_message_new env n (on_message_new env m s)) \<and>
    bucket d (loadMessages_done c (Some ms) (loadMessages_done c (Some ns) s)) =
      bucket d (loadMessages_done c (Some ns) (loadMessages_done c (Some ms) s))"
proof -
  have ok: "bucket_ok (bucket d s)" using assms(1) by (rule chats_okD)
  have live: "place {} m (place {} n (bucket d s)) = place {} n (place {} m (bucket d s))"
    using ok assms by (intro bk.ins_comm) auto
  have agree: "x = y" if "bucket_abs (rev ns) i = Some x" "bucket_abs (rev ms) i = Some y" for i x y
    using that assms(6) bucket_abs_mid [of "rev ns" i x] bucket_abs_mid [of "rev ms" i y] by auto
  have pages: "merge_page (merge_page (bucket d s) ns) ms = merge_page (merge_page (bucket d s) ms) ns"
    by (rule bk.join_comm [OF ok _ _ agree]) (use assms(5) in auto)
  show ?thesis
    using live pages
    by (cases "arrives_in env m d"; cases "arrives_in env n d")
      (auto simp: bucket_on_message_new bucket_loadMessages_done)
qed

theorem arrival_order_irrelevant_witness:
  "bucket (Dm 9) (on_message_new ex_env (ex_msg 3 50 ''x'')
      (on_message_new ex_env (ex_msg 4 40 ''y'') init_chats)) =
   bucket (Dm 9) (on_message_new ex_env (ex_msg 4 40 ''y'')
      (on_message_new ex_env (ex_msg 3 50 ''x'') init_chats))"
proof -
  note law = arrival_order_irrelevant
    [of init_chats "ex_msg 3 50 ''x''" "ex_msg 4 40 ''y''" "[]" "[]" "Dm 9" ex_env "Dm 9"]
  show ?thesis by (rule law [THEN conjunct1]) (auto simp: chats_ok_init)
qed

section \<open>Sending\<close>

definition opt_id :: "chat_env \<Rightarrow> chats \<Rightarrow> int" where
  "opt_id env s = - (now env * 1000 + optimisticSequence s mod 1000)"

lemma mid_optimistic: "mid (optimistic_message env u c t f r cid s) = opt_id env s"
  by (simp add: optimistic_message_def opt_id_def)

lemma optimistic_sendError [simp]:
  "optimistic_message env u c t f r cid (s\<lparr>sendError := e\<rparr>) = optimistic_message env u c t f r cid s"
  by (simp add: optimistic_message_def isEncrypted_def split: option.split)

lemma opt_id_sendError [simp]: "opt_id env (s\<lparr>sendError := e\<rparr>) = opt_id env s"
  by (simp add: opt_id_def)

lemma ack_patch_simps [simp]:
  "pendingAcks (ack_patch c opt m s) = pendingAcks s"
  "encryptedConvos (ack_patch c opt m s) = encryptedConvos s"
  "out (ack_patch c opt m s) = out s"
  "sendError (ack_patch c opt m s) = sendError s"
  by (simp_all add: ack_patch_def)

text \<open>The state in which the first frame or request of a send goes out.\<close>

definition send_begun ::
  "chat_env \<Rightarrow> user \<Rightarrow> convo \<Rightarrow> string \<Rightarrow> int option \<Rightarrow> int option \<Rightarrow> chats \<Rightarrow> chats" where
  "send_begun env u c t f r s =
     (emit (StartTimer (client_id_of env) 10000)
       (ack_patch c (opt_id env s) (optimistic_message env u c t f r (client_id_of env) s)
         (s\<lparr>sendError := None, optimisticSequence := optimisticSequence s + 1\<rparr>)))
       \<lparr>pendingAcks := jm_set (client_id_of env) \<lparr>pa_convo = c, pa_opt = opt_id env s\<rparr> (pendingAcks s)\<rparr>"

definition send_job_of ::
  "chat_env \<Rightarrow> user \<Rightarrow> convo \<Rightarrow> string \<Rightarrow> int option \<Rightarrow> int option \<Rightarrow> chats \<Rightarrow> send_job" where
  "send_job_of env u c t f r s =
     \<lparr>j_client = client_id_of env, j_convo = c, j_opt = opt_id env s, j_file = f, j_reply = r,
      j_text = js_trim t, j_to = recipients (u_id u) c (send_begun env u c t f r s)\<rparr>"

lemma sendMessage_begun:
  assumes "me env = Some u" "js_trim t \<noteq> [] \<or> num_truthy f"
  shows "sendMessage env c t f r s =
    (let job = send_job_of env u c t f r s; s2 = send_begun env u c t f r s in
     if js_trim t \<noteq> [] \<and> isEncrypted c s
     then emit (CheckKeys (filter (\<lambda>i. i \<noteq> u_id u) (j_to job)) job) s2
     else send_or_fail env job [(''content'', JStr (js_trim t))] s2)"
  using assms
  by (auto simp: sendMessage_def Let_def send_begun_def send_job_of_def mid_optimistic isEncrypted_def)

lemma send_begun_simps [simp]:
  "bucket d (send_begun env u c t f r s) =
     (if d = c then place {opt_id env s} (optimistic_message env u c t f r (client_id_of env) s) (bucket c s)
      else bucket d s)"
  "pendingAcks (send_begun env u c t f r s) =
     jm_set (client_id_of env) \<lparr>pa_convo = c, pa_opt = opt_id env s\<rparr> (pendingAcks s)"
  "sendError (send_begun env u c t f r s) = None"
  "out (send_begun env u c t f r s) = out s @ [StartTimer (client_id_of env) 10000]"
  by (auto simp: send_begun_def bucket_ack_patch)

lemma drop_pending_simps [simp]:
  "pendingAcks (drop_pending cid s) = jm_delete cid (pendingAcks s)"
  "sendError (drop_pending cid s) = sendError s"
proof -
  have "jm_delete cid m = m" if "jm_get m cid = None" for m :: "(string, pending_ack) jsmap"
    using that jm_get_iff_key [of m cid]
    by (auto simp: jm_delete_def jm_keys_def filter_id_conv)
  then show "pendingAcks (drop_pending cid s) = jm_delete cid (pendingAcks s)"
    by (simp add: drop_pending_def jm_has_def)
qed (simp add: drop_pending_def)

lemma on_message_sent_known:
  assumes "jm_get (pendingAcks s) cid = Some pa"
  shows "bucket d (on_message_sent cid m s) =
      (if d = pa_convo pa then place {pa_opt pa} m (bucket d s) else bucket d s)"
    and "jm_get (pendingAcks (on_message_sent cid m s)) cid = None"
  using assms by (auto simp: on_message_sent_def bucket_ack_patch decryptPending_emits jm.get_del)

text \<open>
  C5. A message sent in a conversation that is not encrypted and acknowledged by the server ends
  in its list as the server's copy alone: the list is the old one with that copy placed in it,
  no optimistic bubble is left, other lists are untouched and nothing waits for an answer.
\<close>

theorem send_then_ack:
  assumes "chats_ok s" "me env = Some u" "ws_up env"
    and "js_trim t \<noteq> [] \<or> num_truthy f" "\<not> isEncrypted c s"
    and "dated m" "opt_id env s \<notin> mid ` set (bucket c s)"
  shows "(\<forall>d. bucket d (on_message_sent (client_id_of env) m (sendMessage env c t f r s)) =
      (if d = c then place {} m (bucket c s) else bucket d s)) \<and>
    jm_get (pendingAcks (on_message_sent (client_id_of env) m (sendMessage env c t f r s)))
      (client_id_of env) = None"
proof -
  let ?b = "bucket c s" and ?o = "optimistic_message env u c t f r (client_id_of env) s"
  have ok: "bucket_ok ?b" using assms(1) by (rule chats_okD)
  have sent: "sendMessage env c t f r s = emit (SendFrame (''message:send'',
      JObj (base_payload (send_job_of env u c t f r s) @ [(''content'', JStr (js_trim t))])))
      (send_begun env u c t f r s)"
    using sendMessage_begun [OF assms(2,4)] assms(3,5) by (simp add: send_or_fail_def ws_send_def)
  have "place {opt_id env s} m (place {opt_id env s} ?o ?b) = place {opt_id env s} m ?b"
    using bk.ins_replace [OF ok assms(6) dated_optimistic, of env u c t f r "client_id_of env" s
        "{opt_id env s}" "{opt_id env s}"] by (simp add: mid_optimistic)
  also have "\<dots> = place {} m ?b"
  proof (rule bk.canonical)
    show "bucket_abs (place {opt_id env s} m ?b) = bucket_abs (place {} m ?b)"
      using ok assms(7) bucket_abs_None [of ?b "opt_id env s"]
      by (auto simp: fun_eq_iff abs_place_ok)
  qed (use ok assms(6) place_ok in blast)+
  finally show ?thesis
    using on_message_sent_known [of "sendMessage env c t f r s" "client_id_of env"
        "\<lparr>pa_convo = c, pa_opt = opt_id env s\<rparr>"] by (simp add: sent jm_get_set)
qed

theorem send_then_ack_witness:
  "bucket (Dm 9) (on_message_sent (client_id_of ex_env) (ex_msg 31 5003 ''hi'')
     (sendMessage ex_env (Dm 9) '' hi '' None None init_chats)) = [ex_msg 31 5003 ''hi'']"
proof -
  have "js_trim '' hi '' = ''hi''" by (simp add: js_trim_def js_space_def)
  then show ?thesis
    using send_then_ack [of init_chats ex_env ex_user "'' hi ''" None "Dm 9" "ex_msg 31 5003 ''hi''" None]
    by (simp add: chats_ok_init isEncrypted_def place_def ex_env_def)
qed

text \<open>
  C8. A message that gets no answer within its ten seconds stays in the list marked failed, with
  the error shown and nothing waiting; the timer running out twice, or an acknowledgement that
  arrives after it, changes no list.
\<close>

theorem unanswered_send_fails:
  assumes "chats_ok s" "me env = Some u" "ws_up env"
    and "js_trim t \<noteq> [] \<or> num_truthy f"
    and "s' = ack_timeout (client_id_of env) (sendMessage env c t f r s)"
  shows "(\<exists>x \<in> set (bucket c s'). mid x = opt_id env s \<and> failed x \<and> \<not> pending x \<and>
      content x = js_trim t) \<and> sendError s' = Some not_sent \<and>
    jm_get (pendingAcks s') (client_id_of env) = None \<and>
    ack_timeout (client_id_of env) s' = s' \<and>
    (\<forall>d m. bucket d (on_message_sent (client_id_of env) m s') = bucket d s')"
proof -
  let ?cid = "client_id_of env" and ?o = "optimistic_message env u c t f r (client_id_of env) s"
  let ?b = "place {opt_id env s} ?o (bucket c s)"
  have ok: "bucket_ok (bucket c s)" using assms(1) by (rule chats_okD)
  obtain e where sent: "sendMessage env c t f r s = emit e (send_begun env u c t f r s)"
    using sendMessage_begun [OF assms(2,4), of c r s] assms(3)
    by (auto simp: send_or_fail_def ws_send_def Let_def split: if_splits)
  have s': "s' = send_fail ?cid c (opt_id env s) (emit e (send_begun env u c t f r s))"
    by (simp add: assms(5) sent ack_timeout_def jm_get_set)
  have pend: "jm_get (pendingAcks s') ?cid = None"
    by (simp add: s' send_fail_def Let_def jm_get_delete)
  have mem: "?o \<in> set ?b" by (simp add: place_def)
  have buck: "bucket c s' = patch_id (opt_id env s) (\<lambda>m. m\<lparr>pending := False, failed := True\<rparr>) ?b"
    by (simp add: s' bucket_send_fail)
  have "?o\<lparr>pending := False, failed := True\<rparr> \<in> set (bucket c s')"
    using mem by (force simp: buck patch_id_def set_map_if mid_optimistic)
  moreover have "mid (?o\<lparr>pending := False, failed := True\<rparr>) = opt_id env s"
    "content (?o\<lparr>pending := False, failed := True\<rparr>) = js_trim t"
    by (simp_all add: mid_optimistic) (simp add: optimistic_message_def)
  moreover have "sendError s' = Some not_sent" by (simp add: s' send_fail_def Let_def)
  ultimately show ?thesis
    using pend by (auto simp: ack_timeout_def on_message_sent_def intro!: bexI [rotated])
qed

theorem unanswered_send_fails_witness:
  "sendError (ack_timeout (client_id_of ex_env)
     (sendMessage ex_env (Dm 9) ''hi'' None None init_chats)) = Some not_sent"
  using unanswered_send_fails [of init_chats ex_env ex_user "''hi''" None _ "Dm 9" None, OF _ _ _ _ refl]
  by (simp add: chats_ok_init js_trim_def js_space_def ex_env_def)

section \<open>Encryption\<close>

text \<open>The \<open>message:send\<close> frames in a trace.\<close>

definition sends :: "chat_eff list \<Rightarrow> json list" where
  "sends es = List.map_filter
     (\<lambda>e. case e of SendFrame (ty, d) \<Rightarrow> if ty = ''message:send'' then Some d else None | _ \<Rightarrow> None) es"

lemma sends_simps [simp]:
  "sends [] = []" "sends (xs @ ys) = sends xs @ sends ys"
  "sends (SendFrame (ty, d) # es) = (if ty = ''message:send'' then d # sends es else sends es)"
  "sends (StartTimer a n # es) = sends es" "sends (ClearTimer a # es) = sends es"
  "sends (CheckKeys is j # es) = sends es" "sends (EncryptFor j # es) = sends es"
  "sends (ToastInfo t # es) = sends es"
  by (simp_all add: sends_def List.map_filter_def)

lemma sends_send_fail [simp]: "sends (out (send_fail cid c opt s)) = sends (out s)"
  by (simp add: send_fail_def Let_def drop_pending_def)

lemma sends_send_or_fail: "sends (out (send_or_fail env job extra s)) =
    sends (out s) @ (if ws_up env then [JObj (base_payload job @ extra)] else [])"
  by (simp add: send_or_fail_def ws_send_def)

definition sealed_fields :: "encrypted_payload \<Rightarrow> (string \<times> json) list" where
  "sealed_fields p = [(''content'', JStr (ep_ciphertext p)), (''encrypted'', JBool True),
     (''enc_iv'', JStr (ep_iv p)), (''enc_keys'', JStr (ep_encKeys p))]"

text \<open>
  C6. When a conversation is encrypted and this browser holds an explicit choice for it, a text
  message never goes out in the clear: starting the send and checking the members' keys send no
  message frame whatever the outcome, and the only frame of the send carries the cipher text.
\<close>

theorem chosen_encryption_never_sends_plaintext:
  assumes "isEncrypted c s" "js_trim t \<noteq> []"
    and "hasExplicitE2EFlag env' (key (j_convo job))"
  shows "sends (out (sendMessage env c t f r s)) = sends (out s) \<and>
    sends (out (keys_checked env' job missing s')) = sends (out s') \<and>
    sends (out (encrypted_done env'' job sealed s'')) = sends (out s'') @
      (case sealed of
         Some p \<Rightarrow> if ws_up env'' then [JObj (base_payload job @ sealed_fields p)] else []
       | None \<Rightarrow> [])"
proof -
  have "sends (out (sendMessage env c t f r s)) = sends (out s)"
  proof (cases "me env")
    case (Some u)
    show ?thesis using sendMessage_begun [OF Some, of t f c r s] assms(1,2) by (simp add: Let_def)
  qed (simp add: sendMessage_def)
  moreover have "sends (out (keys_checked env' job missing s')) = sends (out s')"
    using assms(3) by (auto simp: keys_checked_def split: option.split)
  ultimately show ?thesis
    by (auto simp: encrypted_done_def sends_send_or_fail sealed_fields_def split: option.split)
qed

definition ex_enc :: chats where
  "ex_enc = init_chats\<lparr>encryptedConvos := [key (Dm 9) \<mapsto> True]\<rparr>"

theorem chosen_encryption_never_sends_plaintext_witness:
  "isEncrypted (Dm 9) ex_enc \<and> hasExplicitE2EFlag ex_env (key (Dm 9)) \<and>
   sends (out (sendMessage ex_env (Dm 9) ''secret'' None None ex_enc)) = []"
proof -
  have e: "isEncrypted (Dm 9) ex_enc" by (simp add: isEncrypted_def ex_enc_def)
  have t: "js_trim ''secret'' \<noteq> []" by (simp add: js_trim_def js_space_def)
  have h: "hasExplicitE2EFlag ex_env (key (Dm 9))"
    by (simp add: hasExplicitE2EFlag_def e2eStorageKey_def getItem_def ex_env_def ex_storage_def
        show_int_def show_nat.simps digit_def jm_get_def)
  let ?job = "send_job_of ex_env ex_user (Dm 9) ''secret'' None None ex_enc"
  have "hasExplicitE2EFlag ex_env (key (j_convo ?job))" using h by (simp add: send_job_of_def)
  from chosen_encryption_never_sends_plaintext [OF e t this] e h
  show ?thesis by (simp add: ex_enc_def)
qed

text \<open>
  When encrypting cannot go ahead (a member without keys in a conversation the user chose to
  encrypt, the key check rejected, the encryption rejected) the send fails, and the error the
  user is left with is the general connection message: the specific one set just before is
  overwritten in the same step.
\<close>

theorem specific_send_error_is_overwritten:
  assumes "missing \<noteq> []" "hasExplicitE2EFlag env (key (j_convo job))"
  shows "sendError (keys_checked env job (Some missing) s) = Some not_sent \<and>
    sendError (keys_checked env job None s) = Some not_sent \<and>
    sendError (encrypted_done env job None s) = Some not_sent \<and>
    missing_keys_error (length missing) \<noteq> not_sent"
proof -
  have "missing_keys_error n \<noteq> not_sent" for n
    by (simp add: missing_keys_error_def not_sent_def)
  then show ?thesis
    using assms by (simp add: keys_checked_def encrypted_done_def send_fail_def Let_def)
qed

theorem specific_send_error_is_overwritten_witness:
  "hasExplicitE2EFlag ex_env (key (j_convo (send_job_of ex_env ex_user (Dm 9) ''a'' None None ex_enc))) \<and>
   sendError (keys_checked ex_env (send_job_of ex_env ex_user (Dm 9) ''a'' None None ex_enc)
     (Some [9]) ex_enc) = Some not_sent"
proof -
  let ?job = "send_job_of ex_env ex_user (Dm 9) ''a'' None None ex_enc"
  have h: "hasExplicitE2EFlag ex_env (key (j_convo ?job))"
    by (simp add: send_job_of_def hasExplicitE2EFlag_def e2eStorageKey_def getItem_def ex_env_def
        ex_storage_def show_int_def show_nat.simps digit_def jm_get_def)
  show ?thesis using h specific_send_error_is_overwritten [of "[9]", OF _ h] by simp
qed

text \<open>
  A send whose encryption finishes after its ten seconds ran out still goes to the server,
  although its bubble is already marked failed and no acknowledgement entry is left to update it.
\<close>

theorem late_encryption_still_sends:
  assumes "chats_ok s" "me env = Some u" "ws_up env" "js_trim t \<noteq> []" "isEncrypted c s"
    and "ws_up env'"
    and "failed_state = ack_timeout (client_id_of env) (sendMessage env c t f r s)"
    and "job = send_job_of env u c t f r s"
    and "after = encrypted_done env' job (Some p) failed_state"
  shows "sends (out after) = sends (out s) @ [JObj (base_payload job @ sealed_fields p)] \<and>
    (\<forall>d m. bucket d (on_message_sent (client_id_of env) m after) = bucket d failed_state)"
proof -
  have begun: "sendMessage env c t f r s = emit (CheckKeys (filter (\<lambda>i. i \<noteq> u_id u) (j_to job)) job)
      (send_begun env u c t f r s)"
    using sendMessage_begun [OF assms(2), of t f c r s] assms(4,5,8) by (simp add: Let_def)
  have failed: "failed_state = send_fail (client_id_of env) c (opt_id env s) (sendMessage env c t f r s)"
    by (simp add: assms(7) begun ack_timeout_def jm_get_set)
  have none: "jm_get (pendingAcks failed_state) (client_id_of env) = None"
    by (simp add: failed send_fail_def Let_def jm_get_delete)
  have after: "after = emit (SendFrame (''message:send'', JObj (base_payload job @ sealed_fields p))) failed_state"
    using assms(6,9) by (simp add: encrypted_done_def send_or_fail_def ws_send_def sealed_fields_def)
  have "sends (out failed_state) = sends (out s)"
    by (simp add: failed begun)
  then show ?thesis
    using none by (simp add: after on_message_sent_def)
qed

theorem late_encryption_still_sends_witness:
  "length (sends (out (encrypted_done ex_env (send_job_of ex_env ex_user (Dm 9) ''a'' None None ex_enc)
      (Some \<lparr>ep_ciphertext = ''x'', ep_iv = ''y'', ep_encKeys = ''z''\<rparr>)
      (ack_timeout (client_id_of ex_env) (sendMessage ex_env (Dm 9) ''a'' None None ex_enc))))) = 1"
proof -
  have "chats_ok ex_enc" by (rule chats_ok_same [OF chats_ok_init]) (simp add: ex_enc_def)
  from late_encryption_still_sends [OF this, of ex_env ex_user "''a''" "Dm 9" ex_env, OF _ _ _ _ _ refl refl refl]
  show ?thesis by (simp add: ex_env_def js_trim_def js_space_def isEncrypted_def ex_enc_def)
qed

section \<open>Unread counters\<close>

lemma unread_markRead:
  "unread (markRead env c s) k = (if k = key c \<and> num_truthy (unread s k) then Some 0 else unread s k)"
  by (auto simp: markRead_def ws_send_def)

lemma unread_count_unread:
  "unread (count_unread env u c msg s) = (unread s)(key c \<mapsto> nvl (unread s (key c)) 0 + 1)"
  by (simp add: count_unread_def Let_def emit_def)

text \<open>
  C9. An arriving message counts as unread exactly when its conversation is not on screen: then
  its counter goes up by one; otherwise the counter is cleared and a read receipt is sent. Other
  conversations' counters never change.
\<close>

theorem unread_follows_the_screen:
  assumes "me env = Some u" "incoming_convo (u_id u) msg = Some c"
  shows "(let s' = on_message_new env msg s in
    (\<forall>k. k \<noteq> key c \<longrightarrow> unread s' k = unread s k) \<and>
    (if is_active c s \<and> \<not> hidden env
     then \<not> num_truthy (unread s' (key c)) \<and>
       (ws_up env \<longrightarrow> last (out s') = SendFrame (''message:read'',
          JObj [(''peer_id'', dm_field c), (''group_id'', group_field c)]))
     else unread s' (key c) = Some (nvl (unread s (key c)) 0 + 1)))"
proof -
  let ?s1 = "decryptPending [msg] (set_bucket c (place {} msg (bucket c s)) s)"
  have act: "is_active c ?s1 = is_active c s" and un: "unread ?s1 = unread s"
    by (cases c; simp add: is_active_def decryptPending_emits)+
  have new: "on_message_new env msg s = (if is_active c s \<and> \<not> hidden env
      then markRead env c ?s1 else count_unread env u c msg ?s1)"
    using assms act by (simp add: on_message_new_def Let_def)
  show ?thesis
  proof (cases "is_active c s \<and> \<not> hidden env")
    case True
    then have "on_message_new env msg s = markRead env c ?s1" using new by simp
    moreover have "ws_up env \<Longrightarrow> last (out (markRead env c ?s1)) = SendFrame (''message:read'',
          JObj [(''peer_id'', dm_field c), (''group_id'', group_field c)])"
      by (simp add: markRead_def ws_send_def emit_def)
    ultimately show ?thesis using True by (simp add: Let_def unread_markRead un num_truthy_def)
  next
    case False
    then have "on_message_new env msg s = count_unread env u c msg ?s1" using new by auto
    then show ?thesis using False by (auto simp: Let_def unread_count_unread un)
  qed
qed

theorem unread_follows_the_screen_witness:
  "unread (on_message_new ex_env (ex_msg 3 50 ''hi'') init_chats) (key (Dm 9)) = Some 1"
proof -
  have "incoming_convo (u_id ex_user) (ex_msg 3 50 ''hi'') = Some (Dm 9)"
    by (simp add: incoming_convo_def ex_defs)
  moreover have "me ex_env = Some ex_user" by (simp add: ex_env_def)
  ultimately show ?thesis
    using unread_follows_the_screen [of ex_env ex_user "ex_msg 3 50 ''hi''" "Dm 9" init_chats]
    by (simp add: Let_def is_active_def)
qed

end
