(* ===== verification/Rtc.thy ===== *)
theory Rtc
  imports Prelude
begin

text \<open>
  The browser's media objects as far as the client looks at them: a track is its kind and its
  identity, a stream its tracks in order, a peer connection its two states. What the browser
  does behind them (capturing, encoding, finding a route) is not modelled: it shows up as
  events and as the outcomes of awaited promises.
\<close>

section \<open>Tracks and streams\<close>

datatype track = AudioTrack nat | VideoTrack nat

type_synonym stream = "track list"

fun is_audio :: "track \<Rightarrow> bool" where
  "is_audio (AudioTrack _) = True"
| "is_audio (VideoTrack _) = False"

abbreviation is_video :: "track \<Rightarrow> bool" where
  "is_video t \<equiv> \<not> is_audio t"

definition getAudioTracks :: "stream \<Rightarrow> track list" where
  "getAudioTracks st = filter is_audio st"

definition getVideoTracks :: "stream \<Rightarrow> track list" where
  "getVideoTracks st = filter (\<lambda>t. \<not> is_audio t) st"

definition first_track :: "track list \<Rightarrow> track option" where
  "first_track ts = (case ts of [] \<Rightarrow> None | t # _ \<Rightarrow> Some t)"

text \<open>\<open>MediaStream.addTrack\<close> ignores a track the stream already has.\<close>

definition addTrack :: "track \<Rightarrow> stream \<Rightarrow> stream" where
  "addTrack t st = (if t \<in> set st then st else st @ [t])"

definition removeTrack :: "track \<Rightarrow> stream \<Rightarrow> stream" where
  "removeTrack t st = filter (\<lambda>x. x \<noteq> t) st"

text \<open>\<open>(stream?.getVideoTracks().length ?? 0) > 0\<close>.\<close>

definition has_video :: "stream option \<Rightarrow> bool" where
  "has_video st = (case st of None \<Rightarrow> False | Some ts \<Rightarrow> getVideoTracks ts \<noteq> [])"

lemma has_video_simps [simp]:
  "has_video None = False" "has_video (Some ts) = (\<exists>t \<in> set ts. is_video t)"
  by (auto simp: has_video_def getVideoTracks_def filter_empty_conv)

lemma set_addTrack [simp]: "set (addTrack t st) = insert t (set st)"
  by (auto simp: addTrack_def)

lemma set_removeTrack [simp]: "set (removeTrack t st) = set st - {t}"
  by (auto simp: removeTrack_def)

lemma distinct_addTrack [simp]: "distinct (addTrack t st) = distinct st"
  by (auto simp: addTrack_def)

lemma distinct_removeTrack [intro]: "distinct st \<Longrightarrow> distinct (removeTrack t st)"
  by (simp add: removeTrack_def)

lemma set_getAudioTracks [simp]: "set (getAudioTracks st) = {t \<in> set st. is_audio t}"
  by (simp add: getAudioTracks_def)

lemma set_getVideoTracks [simp]: "set (getVideoTracks st) = {t \<in> set st. is_video t}"
  by (simp add: getVideoTracks_def)

lemma first_track_Some: "first_track ts = Some t \<Longrightarrow> t \<in> set ts"
  by (auto simp: first_track_def split: list.splits)

lemma first_track_Nil [simp]: "first_track [] = None"
  by (simp add: first_track_def)

lemma first_track_None [simp]: "first_track ts = None \<longleftrightarrow> ts = []"
  by (auto simp: first_track_def split: list.splits)

text \<open>The tracks forwarded for one participant of a room (\<open>RemoteTracks\<close>).\<close>

record remote_tracks =
  rt_mic :: "track option"
  rt_cam :: "track option"
  rt_screen :: "track option"

section \<open>Peer connections\<close>

datatype signaling = Stable | HaveLocalOffer | HaveRemoteOffer | SignalingClosed

datatype connection = ConnNew | Connecting | Connected | Disconnected | ConnFailed | ConnClosed

text \<open>
  What the engines read of a peer connection; \<open>audio_sender\<close> is the sender whose track is an
  audio track, if there is one.
\<close>

record pc_view =
  signalingState :: signaling
  connectionState :: connection
  localDescription :: "json option"
  has_remoteDescription :: bool
  audio_sender :: "nat option"

text \<open>
  Candidates that wait for a description: a run of steps that receive candidates, hand them to
  the connection or hold them back. What every single step keeps, any run keeps.
\<close>

locale candidate_queue =
  fixes run :: "'step \<Rightarrow> 's \<Rightarrow> 's"
    and received :: "'step \<Rightarrow> 'c list"
    and given :: "'s \<Rightarrow> 'c list"
    and held :: "'s \<Rightarrow> 'c list"
    and ready :: "'s \<Rightarrow> bool"
  assumes ready_run: "ready s \<Longrightarrow> ready (run st s)"
    and account: "ready s \<Longrightarrow>
      mset (given (run st s)) + mset (held (run st s)) = mset (given s) + mset (held s) + mset (received st)"
begin

lemma ready_runs: "ready s \<Longrightarrow> ready (fold run steps s)"
  by (induction steps arbitrary: s) (simp_all add: ready_run)

lemma account_runs: "ready s \<Longrightarrow>
    mset (given (fold run steps s)) + mset (held (fold run steps s)) =
    mset (given s) + mset (held s) + mset (concat (map received steps))"
proof (induction steps arbitrary: s)
  case (Cons st steps)
  then show ?case using Cons.IH [of "run st s"] by (simp add: ready_run account ac_simps)
qed simp

lemma nothing_lost: "ready s \<Longrightarrow> c \<in> set (concat (map received steps)) \<Longrightarrow>
    c \<in> set (given (fold run steps s)) \<union> set (held (fold run steps s))"
  using arg_cong [OF account_runs [of s steps], of set_mset] by auto

end

end
