(* ===== verification/NetMonitor.thy ===== *)
theory NetMonitor
  imports Complex_Main Rtc
begin

text \<open>
  The network monitor both kinds of call share (\<open>lib/webrtc/netmonitor.ts\<close>): sampling a peer
  connection, scoring a sample, polling a set of connections and capping a video sender.
  Numbers are exact rationals. The round-trip thresholds are the doubles the literals
  \<open>0.4\<close> and \<open>0.2\<close> denote, so comparing a double with them is exact; the loss ratio is
  compared with the decimal fractions, which agrees with the rounded division for any packet
  counts below \<open>2 ^ 40\<close> (two different fractions are then further apart than a rounding).
\<close>

section \<open>Quality\<close>

datatype net_quality = Good | Fair | Poor

fun rank :: "net_quality \<Rightarrow> nat" where
  "rank Good = 0" | "rank Fair = 1" | "rank Poor = 2"

lemma rank_inj [simp]: "rank a = rank b \<longleftrightarrow> a = b"
  by (cases a; cases b) simp_all

instantiation net_quality :: linorder
begin

definition less_eq_net_quality :: "net_quality \<Rightarrow> net_quality \<Rightarrow> bool" where
  "less_eq_net_quality a b \<longleftrightarrow> rank a \<le> rank b"

definition less_net_quality :: "net_quality \<Rightarrow> net_quality \<Rightarrow> bool" where
  "less_net_quality a b \<longleftrightarrow> rank a < rank b"

instance
  by standard (auto simp: less_eq_net_quality_def less_net_quality_def)

end

lemma quality_order [simp]:
  "Good \<le> q" "q \<le> Poor" "Fair \<le> q \<longleftrightarrow> q \<noteq> Good" "q \<le> Fair \<longleftrightarrow> q \<noteq> Poor"
  "q \<le> Good \<longleftrightarrow> q = Good" "Poor \<le> q \<longleftrightarrow> q = Poor"
  by (cases q; simp add: less_eq_net_quality_def)+

section \<open>Sampling a connection\<close>

record sample =
  packetsLost :: int
  packetsReceived :: int
  rtt :: rat

text \<open>A statistics entry, with the fields the code reads; a missing number is \<open>None\<close>.\<close>

record rtc_stat =
  st_type :: string
  st_isRemote :: bool
  st_packetsLost :: "int option"
  st_packetsReceived :: "int option"
  st_state :: string
  st_currentRoundTripTime :: "rat option"

definition add_stat :: "rtc_stat \<Rightarrow> sample \<Rightarrow> sample" where
  "add_stat r s =
     (let s1 = (if st_type r = ''inbound-rtp'' \<and> \<not> st_isRemote r
                then s\<lparr>packetsLost := packetsLost s + nvl (st_packetsLost r) 0,
                       packetsReceived := packetsReceived s + nvl (st_packetsReceived r) 0\<rparr>
                else s)
      in if st_type r = ''candidate-pair'' \<and> st_state r = ''succeeded''
         then (case st_currentRoundTripTime r of
                 None \<Rightarrow> s1 | Some t \<Rightarrow> s1\<lparr>rtt := max (rtt s1) t\<rparr>)
         else s1)"

text \<open>A connection the monitor polls: its state, and its report (\<open>None\<close>: \<open>getStats\<close> rejected).\<close>

record polled =
  po_state :: connection
  po_stats :: "rtc_stat list option"

definition sampleInbound :: "polled option \<Rightarrow> sample option" where
  "sampleInbound pc =
     (case pc of
        None \<Rightarrow> None
      | Some p \<Rightarrow>
          if po_state p = ConnClosed then None
          else map_option (\<lambda>rs. fold add_stat rs \<lparr>packetsLost = 0, packetsReceived = 0, rtt = 0\<rparr>)
                 (po_stats p))"

definition rtt_poor :: rat where "rtt_poor = 3602879701896397 / 9007199254740992"
definition rtt_fair :: rat where "rtt_fair = 3602879701896397 / 18014398509481984"

definition lossRatio :: "sample \<Rightarrow> rat" where
  "lossRatio s =
     (let total = packetsLost s + packetsReceived s
      in if total > 0 then of_int (packetsLost s) / of_int total else 0)"

definition scoreQuality :: "sample option \<Rightarrow> net_quality" where
  "scoreQuality so =
     (case so of
        None \<Rightarrow> Good
      | Some s \<Rightarrow>
          if lossRatio s > 8 / 100 \<or> rtt s > rtt_poor then Poor
          else if lossRatio s > 3 / 100 \<or> rtt s > rtt_fair then Fair
          else Good)"

definition worst :: "net_quality list \<Rightarrow> net_quality" where
  "worst qs = (if Poor \<in> set qs then Poor else if Fair \<in> set qs then Fair else Good)"

section \<open>Polling\<close>

text \<open>
  One monitor: \<open>tick\<close> runs up to its \<open>await\<close>, \<open>tick_done\<close> after it, with the reports of
  the connections it was polling; what it tells \<open>onQuality\<close> is the list \<open>told\<close>.
\<close>

record monitor =
  stopped :: bool
  interval_on :: bool
  told :: "net_quality list"

definition startNetworkMonitor :: monitor where
  "startNetworkMonitor = \<lparr>stopped = False, interval_on = True, told = []\<rparr>"

definition tick_polls :: "monitor \<Rightarrow> bool" where
  "tick_polls m = (\<not> stopped m)"

definition tick_done :: "polled option list \<Rightarrow> monitor \<Rightarrow> monitor" where
  "tick_done pcs m =
     (if stopped m then m
      else m\<lparr>told := told m @ [worst (map (scoreQuality \<circ> sampleInbound) pcs)]\<rparr>)"

definition stop_monitor :: "monitor \<Rightarrow> monitor" where
  "stop_monitor m = m\<lparr>stopped := True, interval_on := False\<rparr>"

section \<open>Adapting a sender\<close>

record encoding =
  maxBitrate :: "int option"
  scaleResolutionDownBy :: "rat option"

text \<open>A sender: its track, and the encodings of its parameters.\<close>

record sender =
  se_track :: "track option"
  se_encodings :: "encoding list"

text \<open>The source's \<open>originalMaxBitrate\<close> is the argument \<open>full\<close>.\<close>

definition tier :: "net_quality \<Rightarrow> int \<Rightarrow> encoding \<Rightarrow> encoding" where
  "tier q full enc =
     (case q of
        Poor \<Rightarrow> enc\<lparr>maxBitrate := Some 250000, scaleResolutionDownBy := Some 2\<rparr>
      | Fair \<Rightarrow> enc\<lparr>maxBitrate := Some 600000, scaleResolutionDownBy := Some (3 / 2)\<rparr>
      | Good \<Rightarrow> enc\<lparr>maxBitrate := Some full, scaleResolutionDownBy := Some 1\<rparr>)"

text \<open>The parameters it asks the sender to take (\<open>None\<close>: it asks nothing).\<close>

definition CAM_MAX_BITRATE :: int where "CAM_MAX_BITRATE = 1500000"
definition SCREEN_MAX_BITRATE :: int where "SCREEN_MAX_BITRATE = 2500000"

definition adaptSenderToQuality :: "sender option \<Rightarrow> net_quality \<Rightarrow> int \<Rightarrow> encoding list option" where
  "adaptSenderToQuality so q full =
     (case so of
        None \<Rightarrow> None
      | Some s \<Rightarrow>
          (case se_track s of
             None \<Rightarrow> None
           | Some t \<Rightarrow>
               if \<not> is_video t then None
               else (case se_encodings s of
                       [] \<Rightarrow> None
                     | e # es \<Rightarrow> Some (tier q full e # es))))"

section \<open>Lemmas\<close>

lemma worst_Cons: "worst (q # qs) = max q (worst qs)"
  by (cases q) (auto simp: worst_def max_def)

lemma worst_is_max: "worst qs = foldr max qs Good"
  by (induction qs) (simp_all add: worst_Cons, simp add: worst_def)

lemma foldr_max_le: "foldr max qs (Good :: net_quality) \<le> b \<longleftrightarrow> (\<forall>q \<in> set qs. q \<le> b)"
  by (induction qs) auto

lemma worst_le_iff: "worst qs \<le> b \<longleftrightarrow> (\<forall>q \<in> set qs. q \<le> b)"
  by (simp add: worst_is_max foldr_max_le)

lemma worst_mem: "qs \<noteq> [] \<Longrightarrow> worst qs \<in> set qs"
proof -
  assume "qs \<noteq> []"
  then obtain q where "q \<in> set qs" by (cases qs) auto
  then show ?thesis by (cases q) (auto simp: worst_def, (metis net_quality.exhaust)+)
qed

lemma lossRatio_mono:
  assumes "packetsReceived s = packetsReceived t" "0 \<le> packetsReceived s"
    and "0 \<le> packetsLost s" "packetsLost s \<le> packetsLost t"
  shows "lossRatio s \<le> lossRatio t"
proof (cases "packetsLost s + packetsReceived s > 0")
  case True
  define a b r where "a = (of_int (packetsLost s) :: rat)" and "b = (of_int (packetsLost t) :: rat)"
    and "r = (of_int (packetsReceived s) :: rat)"
  have "0 \<le> a" "a \<le> b" "0 \<le> r" "0 < a + r"
    using assms True unfolding a_def b_def r_def by (simp_all flip: of_int_add)
  then have "a / (a + r) \<le> b / (b + r)"
    by (simp add: divide_simps) (simp add: algebra_simps mult_right_mono)
  then show ?thesis
    using assms True by (simp add: lossRatio_def Let_def a_def b_def r_def)
next
  case False
  then show ?thesis
    using assms by (auto simp: lossRatio_def Let_def)
qed

lemma scoreQuality_mono:
  assumes "lossRatio s \<le> lossRatio t" "rtt s \<le> rtt t"
  shows "scoreQuality (Some s) \<le> scoreQuality (Some t)"
  using assms by (auto simp: scoreQuality_def)

section \<open>Properties\<close>

text \<open>
  What a tick tells the call is the worst quality among the connections polled: no sampled
  connection is worse than it, one of them has it unless it is good, and a monitor stopped
  while the reports were being collected tells nothing.
\<close>

theorem tick_reports_the_worst:
  "told (tick_done pcs (stop_monitor m)) = told m \<and>
   (\<exists>q. told (tick_done pcs (m\<lparr>stopped := False\<rparr>)) = told m @ [q] \<and>
      (\<forall>pc \<in> set pcs. scoreQuality (sampleInbound pc) \<le> q) \<and>
      q \<in> insert Good ((scoreQuality \<circ> sampleInbound) ` set pcs))"
proof -
  let ?qs = "map (scoreQuality \<circ> sampleInbound) pcs"
  have "\<forall>pc \<in> set pcs. scoreQuality (sampleInbound pc) \<le> worst ?qs"
    using worst_le_iff [of ?qs "worst ?qs"] by simp
  moreover have "worst ?qs \<in> insert Good ((scoreQuality \<circ> sampleInbound) ` set pcs)"
    using worst_mem [of ?qs] by (cases "pcs = []") (auto simp: worst_def)
  ultimately show ?thesis
    by (simp add: tick_done_def stop_monitor_def)
qed

theorem tick_reports_the_worst_witness:
  "told (tick_done [None, Some \<lparr>po_state = Connected, po_stats = Some []\<rparr>] startNetworkMonitor) = [Good]"
proof -
  let ?pcs = "[None, Some \<lparr>po_state = Connected, po_stats = Some []\<rparr>]"
  obtain q where q: "told (tick_done ?pcs (startNetworkMonitor\<lparr>stopped := False\<rparr>)) = told startNetworkMonitor @ [q]"
    and "q \<in> insert Good ((scoreQuality \<circ> sampleInbound) ` set ?pcs)"
    using tick_reports_the_worst [of ?pcs startNetworkMonitor] by blast
  moreover have "(scoreQuality \<circ> sampleInbound) ` set ?pcs = {Good}"
    by (simp add: sampleInbound_def scoreQuality_def lossRatio_def rtt_poor_def rtt_fair_def)
  ultimately have "q = Good" by auto
  with q show ?thesis by (simp add: startNetworkMonitor_def)
qed

text \<open>
  Losing more of the same number of received packets, or a longer round trip, never improves
  the quality of a sample, and a worse quality never gives a sender a higher bit rate or a finer
  picture than a better one, as long as its full rate is at least the fair tier's.
\<close>

theorem worse_network_lower_rate:
  assumes "packetsReceived s = packetsReceived t" "0 \<le> packetsReceived s"
    and "0 \<le> packetsLost s" "packetsLost s \<le> packetsLost t" "rtt s \<le> rtt t"
    and "600000 \<le> full" "q = scoreQuality (Some s)" "q' = scoreQuality (Some t)"
  shows "q \<le> q' \<and> the (maxBitrate (tier q' full e)) \<le> the (maxBitrate (tier q full e)) \<and>
    the (scaleResolutionDownBy (tier q full e)) \<le> the (scaleResolutionDownBy (tier q' full e))"
proof -
  have "q \<le> q'" using assms lossRatio_mono [of s t] scoreQuality_mono [of s t] by simp
  then show ?thesis
    using assms(6) by (cases q; cases q') (auto simp: tier_def)
qed

theorem worse_network_lower_rate_witness:
  "scoreQuality (Some \<lparr>packetsLost = 1, packetsReceived = 99, rtt = 0\<rparr>)
     \<le> scoreQuality (Some \<lparr>packetsLost = 9, packetsReceived = 99, rtt = 1\<rparr>)"
  using worse_network_lower_rate [of "\<lparr>packetsLost = 1, packetsReceived = 99, rtt = 0\<rparr>"
      "\<lparr>packetsLost = 9, packetsReceived = 99, rtt = 1\<rparr>" 1500000, OF _ _ _ _ _ _ refl refl]
  by simp

end
