(* ===== verification/CallStore.thy ===== *)
theory CallStore
  imports Messages NetMonitor JsMap
begin

text \<open>
  The call store (\<open>store/calls.ts\<close>): its state and its actions. The media engines
  (\<open>DirectCall\<close>, \<open>RoomClient\<close>) are objects the store holds references to; every
  construction is right after \<open>++callEpoch\<close>, so an engine is named by the epoch it was
  built in, and the closures it was given compare their captured epoch and engine with the
  current ones. Calls into an engine, frames, the ringtone, timers and requests are effects,
  appended to \<open>trace\<close>. An \<open>async\<close> action is split at its \<open>await\<close>: the \<open>_done\<close>
  definition takes what the closure captured and the outcome.
\<close>

section \<open>State\<close>

datatype call_status = Idle | Outgoing | IncomingCall | ConnectingCall | WaitingApproval | ActiveCall

datatype call_mode = P2p | Sfu

record incoming_call =
  in_callId :: string
  in_from :: user_brief
  in_video :: bool

record room_invite =
  ri_roomId :: string
  ri_groupName :: string
  ri_from :: user_brief

record join_request =
  jr_roomId :: string
  jr_from :: user_brief

record participant_info =
  p_user_id :: int
  p_display_name :: string
  p_avatar_file_id :: "int option"
  p_muted :: bool
  p_video_on :: bool
  p_screen :: bool
  p_host :: bool
  p_locked :: bool
  p_can_present :: bool

record call_participant =
  cp_user_id :: int
  cp_joined_at :: "iso option"
  cp_left_at :: "iso option"
  cp_missed :: bool
  cp_user :: "user_brief option"

record call_record =
  cr_id :: int
  cr_room_id :: string
  cr_initiator_id :: int
  cr_is_conference :: bool
  cr_started_at :: iso
  cr_ended_at :: "iso option"
  cr_initiator :: "user_brief option"
  cr_participants :: "call_participant list option"

record private_room =
  pr_id :: string
  pr_name :: string

record room_roster =
  ro_invitees :: "user_brief list"
  ro_joined :: "int list"

text \<open>The public fields of an engine the store reads.\<close>

record engine_view =
  ev_localStream :: "stream option"
  ev_remoteStream :: stream
  ev_screenStream :: "stream option"
  ev_remoteTracks :: "remote_tracks int_record"

record call_env =
  c_now :: ms
  c_up :: bool
  c_replaced :: bool
  c_me :: "int option"
  c_uuid :: string
  engine :: "nat \<Rightarrow> engine_view"

datatype device_kind = MicDevice | CamDevice

datatype (plugins only: size) call_eff =
    CallFrame ws_frame
  | NewDirect nat
  | StartAsCaller nat user_brief string bool
  | StartAsCallee nat user_brief string bool
  | DirectClose nat
  | DirectEnableRenegotiation nat
  | DirectMakeOffer nat
  | DirectSetMic nat bool
  | DirectSetCam nat bool
  | DirectStartScreen nat
  | DirectStopScreen nat
  | DirectSwitchDevice nat device_kind string
  | DirectOnRelay nat json
  | NewRoom nat
  | RoomJoin nat string bool "string option"
  | RoomLeave nat bool
  | RoomSetMic nat bool
  | RoomSetCam nat bool
  | RoomStartScreen nat
  | RoomStopScreen nat
  | RoomSwitchDevice nat device_kind string
  | RoomHandleJoined nat bool
  | RoomResendJoin nat
  | RoomResume nat
  | RoomSignal nat string json
  | StartRingtone
  | StopRingtone
  | StopStream stream
  | NotifyCall string string string
  | FetchHistory
  | StartReconnectTimer ms
  | ClearReconnectTimer

record calls =
  status :: call_status
  ringing :: bool
  mode :: call_mode
  callId :: "string option"
  roomId :: "string option"
  peer :: "user_brief option"
  call_group :: "group option"
  privateRoom :: "private_room option"
  roomJoinRequests :: "join_request list"
  startedWithVideo :: bool
  startedAt :: "ms option"
  localStream :: "stream option"
  localScreenStream :: "stream option"
  remoteStream :: "stream option"
  remoteMuted :: bool
  participants :: "participant_info list"
  remoteTracks :: "remote_tracks int_record"
  raisedHands :: "bool int_record"
  presenterOnly :: bool
  roster :: "room_roster option"
  showParticipants :: bool
  networkQuality :: net_quality
  wsReconnecting :: bool
  mediaReconnecting :: bool
  micOn :: bool
  camOn :: bool
  sharing :: bool
  minimized :: bool
  inCallChat :: bool
  activeGroupRooms :: "bool int_record"
  call_toast :: "string option"
  incoming :: "incoming_call option"
  roomInvite :: "room_invite option"
  history :: "call_record list"
  historyLoaded :: bool
  historyError :: "string option"
  direct :: "nat option"
  room :: "nat option"
  calls_registered :: bool
  callEpoch :: nat
  p2pReconnectTimer :: bool
  trace :: "call_eff list"

definition init_calls :: calls where
  "init_calls = \<lparr>status = Idle, ringing = False, mode = P2p, callId = None, roomId = None,
     peer = None, call_group = None, privateRoom = None, roomJoinRequests = [],
     startedWithVideo = False, startedAt = None, localStream = None, localScreenStream = None,
     remoteStream = None, remoteMuted = False, participants = [], remoteTracks = Map.empty,
     raisedHands = Map.empty, presenterOnly = False, roster = None, showParticipants = False,
     networkQuality = Good, wsReconnecting = False, mediaReconnecting = False, micOn = True,
     camOn = True, sharing = False, minimized = False, inCallChat = False,
     activeGroupRooms = Map.empty, call_toast = None, incoming = None, roomInvite = None,
     history = [], historyLoaded = False, historyError = None, direct = None, room = None,
     calls_registered = False, callEpoch = 0, p2pReconnectTimer = False, trace = []\<rparr>"


definition emit_call :: "call_eff \<Rightarrow> calls \<Rightarrow> calls" where
  "emit_call e s = s\<lparr>trace := trace s @ [e]\<rparr>"

definition send_call :: "call_env \<Rightarrow> string \<Rightarrow> (string \<times> json) list \<Rightarrow> calls \<Rightarrow> calls" where
  "send_call env ty d s = (if c_up env then emit_call (CallFrame (ty, JObj d)) s else s)"

text \<open>\<open>x?.method()\<close> on a reference, and \<open>stopStream(x)\<close>.\<close>

definition on_engine :: "nat option \<Rightarrow> (nat \<Rightarrow> call_eff) \<Rightarrow> calls \<Rightarrow> calls" where
  "on_engine r f s = (case r of None \<Rightarrow> s | Some e \<Rightarrow> emit_call (f e) s)"

definition stop_stream :: "stream option \<Rightarrow> calls \<Rightarrow> calls" where
  "stop_stream st s = (case st of None \<Rightarrow> s | Some ts \<Rightarrow> emit_call (StopStream ts) s)"

definition clearP2PReconnectTimer :: "calls \<Rightarrow> calls" where
  "clearP2PReconnectTimer s =
     (if p2pReconnectTimer s then emit_call ClearReconnectTimer (s\<lparr>p2pReconnectTimer := False\<rparr>)
      else s)"

definition newCallID :: "call_env \<Rightarrow> string" where
  "newCallID env = ''p2p-'' @ c_uuid env"

definition callEndReasonToast :: "string option \<Rightarrow> string option" where
  "callEndReasonToast reason =
     (if reason = Some ''offline'' then Some ''They're offline right now''
      else if reason = Some ''busy'' then Some ''They're on another call''
      else if reason = Some ''no-answer'' then Some ''No answer''
      else if reason = Some ''unavailable'' then Some ''That call is no longer available''
      else if reason = Some ''server-error'' then Some ''Something went wrong starting the call''
      else None)"

definition toast_call :: "string \<Rightarrow> calls \<Rightarrow> calls" where
  "toast_call t s = s\<lparr>call_toast := Some t\<rparr>"

section \<open>Engines\<close>

text \<open>The guards of the closures an engine gets: its epoch and itself are the current ones.\<close>

definition direct_current :: "nat \<Rightarrow> calls \<Rightarrow> bool" where
  "direct_current e s = (callEpoch s = e \<and> direct s = Some e)"

definition room_current :: "nat \<Rightarrow> calls \<Rightarrow> bool" where
  "room_current e s = (callEpoch s = e \<and> room s = Some e)"

definition onRemoteStream :: "call_env \<Rightarrow> nat \<Rightarrow> calls \<Rightarrow> calls" where
  "onRemoteStream env e s =
     (if direct_current e s then s\<lparr>remoteStream := Some (ev_remoteStream (engine env e))\<rparr> else s)"

definition voice_notice :: string where
  "voice_notice = ''Camera permission not granted -- converted to voice call''"

definition onState :: "call_env \<Rightarrow> nat \<Rightarrow> connection \<Rightarrow> calls \<Rightarrow> calls" where
  "onState env e st s =
     (if \<not> direct_current e s then s
      else
        (let s1 = (if st = Connected
               then (let v = engine env e;
                         convertedToVoice = (startedWithVideo s \<and> \<not> has_video (ev_localStream v) \<and>
                           \<not> has_video (Some (ev_remoteStream v)))
                     in s\<lparr>status := ActiveCall, startedAt := Some (c_now env),
                          call_toast := (if convertedToVoice then Some voice_notice else call_toast s)\<rparr>)
               else s)
         in if status s1 = ActiveCall then s1\<lparr>mediaReconnecting := (st \<noteq> Connected)\<rparr> else s1))"

definition directSharing :: "nat \<Rightarrow> bool \<Rightarrow> stream option \<Rightarrow> calls \<Rightarrow> calls" where
  "directSharing e b st s =
     (if direct_current e s then s\<lparr>sharing := b, localScreenStream := st\<rparr> else s)"

definition directQuality :: "nat \<Rightarrow> net_quality \<Rightarrow> calls \<Rightarrow> calls" where
  "directQuality e q s = (if direct_current e s then s\<lparr>networkQuality := q\<rparr> else s)"

definition onTracks :: "call_env \<Rightarrow> nat \<Rightarrow> calls \<Rightarrow> calls" where
  "onTracks env e s =
     (if room_current e s then s\<lparr>remoteTracks := ev_remoteTracks (engine env e)\<rparr> else s)"

definition roomSharing :: "nat \<Rightarrow> bool \<Rightarrow> stream option \<Rightarrow> calls \<Rightarrow> calls" where
  "roomSharing e b st s =
     (if room_current e s then s\<lparr>sharing := b, localScreenStream := st\<rparr> else s)"

definition roomQuality :: "nat \<Rightarrow> net_quality \<Rightarrow> calls \<Rightarrow> calls" where
  "roomQuality e q s = (if room_current e s then s\<lparr>networkQuality := q\<rparr> else s)"

definition onConnectionState :: "nat \<Rightarrow> bool \<Rightarrow> calls \<Rightarrow> calls" where
  "onConnectionState e up s =
     (if room_current e s then s\<lparr>mediaReconnecting := \<not> up\<rparr> else s)"

text \<open>\<open>RoomClient.leave\<close> reports that sharing ended before it returns.\<close>

definition room_leave :: "nat \<Rightarrow> bool \<Rightarrow> calls \<Rightarrow> calls" where
  "room_leave e notifyServer s = roomSharing e False None (emit_call (RoomLeave e notifyServer) s)"

definition leave_current :: "bool \<Rightarrow> calls \<Rightarrow> calls" where
  "leave_current notifyServer s =
     (case room s of None \<Rightarrow> s | Some e \<Rightarrow> room_leave e notifyServer s)\<lparr>room := None\<rparr>"

definition close_current :: "calls \<Rightarrow> calls" where
  "close_current s = (on_engine (direct s) DirectClose s)\<lparr>direct := None\<rparr>"

definition no_device :: string where
  "no_device = ''Could not access microphone/camera''"

section \<open>One to one calls\<close>

text \<open>The fields every end of a one to one call clears.\<close>

definition p2p_idle :: "calls \<Rightarrow> calls" where
  "p2p_idle s = s\<lparr>status := Idle, callId := None, peer := None, localStream := None,
     localScreenStream := None, remoteStream := None, startedAt := None, sharing := False\<rparr>"

definition startDmCall :: "call_env \<Rightarrow> user_brief \<Rightarrow> bool \<Rightarrow> calls \<Rightarrow> calls" where
  "startDmCall env p video s =
     (if status s \<noteq> Idle then toast_call ''Already in a call'' s
      else if \<not> c_up env then toast_call ''Realtime connection is unavailable'' s
      else
        (let e = callEpoch s + 1;
             s1 = s\<lparr>callEpoch := e, status := Outgoing, ringing := False, mode := P2p,
                    callId := Some (newCallID env), peer := Some p, startedWithVideo := video,
                    camOn := video, micOn := True, sharing := False, localScreenStream := None,
                    startedAt := None, call_toast := None\<rparr>
         in emit_call (StartAsCaller e p (newCallID env) video)
              ((emit_call (NewDirect e) s1)\<lparr>direct := Some e\<rparr>)))"

definition close_own :: "nat \<Rightarrow> calls \<Rightarrow> calls" where
  "close_own e s = (let s1 = emit_call (DirectClose e) s
     in if direct s1 = Some e then s1\<lparr>direct := None\<rparr> else s1)"

text \<open>\<open>ok\<close>: \<open>startAsCaller\<close> resolved.\<close>

definition startDmCall_done ::
  "call_env \<Rightarrow> nat \<Rightarrow> user_brief \<Rightarrow> string \<Rightarrow> bool \<Rightarrow> bool \<Rightarrow> calls \<Rightarrow> calls" where
  "startDmCall_done env e p cid video ok s =
     (if ok then
        (if \<not> direct_current e s \<or> callId s \<noteq> Some cid then emit_call (DirectClose e) s
         else
           (let v = engine env e; actualVideo = has_video (ev_localStream v);
                s1 = s\<lparr>localStream := ev_localStream v, camOn := actualVideo,
                       call_toast := (if video \<and> \<not> actualVideo
                         then Some ''Camera access not granted -- calling with voice only'' else None)\<rparr>
            in if c_up env
               then send_call env ''call:invite''
                      [(''callee_id'', JNum (ub_id p)), (''call_id'', JStr cid), (''video'', JBool video)] s1
               else (close_own e (s1\<lparr>callEpoch := callEpoch s1 + 1\<rparr>))
                      \<lparr>status := Idle, callId := None, peer := None, localStream := None,
                       localScreenStream := None, call_toast := Some ''Call could not be started''\<rparr>))
      else if \<not> direct_current e s then emit_call (DirectClose e) s
      else close_own e ((p2p_idle s)\<lparr>call_toast := Some no_device\<rparr>))"

definition acceptIncoming :: "call_env \<Rightarrow> bool option \<Rightarrow> calls \<Rightarrow> calls" where
  "acceptIncoming env withVideo s =
     (case incoming s of
        None \<Rightarrow> s
      | Some inc \<Rightarrow>
         (let s0 = emit_call StopRingtone s in
          if status s \<noteq> Idle
          then (send_call env ''call:decline'' [(''call_id'', JStr (in_callId inc))] s0)\<lparr>incoming := None\<rparr>
          else
            (let enableVideo = nvl withVideo (in_video inc);
                 e = callEpoch s + 1;
                 s1 = s0\<lparr>callEpoch := e, incoming := None, status := ConnectingCall, mode := P2p,
                         callId := Some (in_callId inc), peer := Some (in_from inc),
                         startedWithVideo := in_video inc, micOn := True, camOn := enableVideo,
                         localScreenStream := None, call_toast := None\<rparr>
             in emit_call (StartAsCallee e (in_from inc) (in_callId inc) enableVideo)
                  ((emit_call (NewDirect e) s1)\<lparr>direct := Some e\<rparr>))))"

definition acceptIncoming_done ::
  "call_env \<Rightarrow> nat \<Rightarrow> string \<Rightarrow> bool \<Rightarrow> bool \<Rightarrow> calls \<Rightarrow> calls" where
  "acceptIncoming_done env e cid enableVideo ok s =
     (if ok then
        (if \<not> direct_current e s \<or> callId s \<noteq> Some cid then emit_call (DirectClose e) s
         else
           (let v = engine env e; actualVideo = has_video (ev_localStream v);
                s1 = (emit_call (DirectEnableRenegotiation e) s)
                       \<lparr>localStream := ev_localStream v, camOn := actualVideo,
                        call_toast := (if enableVideo \<and> \<not> actualVideo
                          then Some ''Camera access not granted -- joined with voice only'' else None)\<rparr>
            in if c_up env
               then send_call env ''call:accept'' [(''call_id'', JStr cid)] s1
               else (p2p_idle (close_own e (s1\<lparr>callEpoch := callEpoch s1 + 1\<rparr>)))
                      \<lparr>call_toast := Some ''Call could not be accepted''\<rparr>))
      else if \<not> direct_current e s then emit_call (DirectClose e) s
      else close_own e ((p2p_idle s)\<lparr>call_toast := Some no_device\<rparr>))"

definition declineIncoming :: "call_env \<Rightarrow> calls \<Rightarrow> calls" where
  "declineIncoming env s =
     (let s0 = emit_call StopRingtone s in
      (case incoming s of
         None \<Rightarrow> s0
       | Some inc \<Rightarrow> send_call env ''call:decline'' [(''call_id'', JStr (in_callId inc))]
           (s0\<lparr>callEpoch := callEpoch s0 + 1\<rparr>))\<lparr>incoming := None\<rparr>)"

definition hangup :: "call_env \<Rightarrow> calls \<Rightarrow> calls" where
  "hangup env s =
     (let s1 = s\<lparr>callEpoch := callEpoch s + 1\<rparr>;
          s2 = (if mode s = Sfu \<and> str_truthy (roomId s) then leave_current True s1
                else if str_truthy (callId s)
                then close_current (send_call env ''call:hangup'' [(''call_id'', JStr (the (callId s)))] s1)
                else s1);
          s3 = stop_stream (localStream s) (emit_call StopRingtone (clearP2PReconnectTimer s2))
      in emit_call FetchHistory
          (s3\<lparr>status := Idle, callId := None, roomId := None, peer := None, call_group := None,
              privateRoom := None, roomJoinRequests := [], startedAt := None, localStream := None,
              localScreenStream := None, remoteStream := None, remoteMuted := False,
              minimized := False, inCallChat := False, participants := [], remoteTracks := Map.empty,
              sharing := False, incoming := None, roomInvite := None, raisedHands := Map.empty,
              presenterOnly := False, roster := None, showParticipants := False,
              networkQuality := Good, wsReconnecting := False, mediaReconnecting := False\<rparr>))"

section \<open>Controls\<close>

definition toggleMic :: "call_env \<Rightarrow> calls \<Rightarrow> calls" where
  "toggleMic env s =
     (let on = (\<not> micOn s);
          s1 = (if mode s = Sfu then on_engine (room s) (\<lambda>e. RoomSetMic e on) s
                else
                  (let s' = on_engine (direct s) (\<lambda>e. DirectSetMic e on) s in
                   case peer s of
                     Some p \<Rightarrow>
                       if str_truthy (callId s)
                       then send_call env ''webrtc:relay''
                         [(''to'', JNum (ub_id p)), (''call_id'', JStr (the (callId s))),
                          (''data'', JObj [(''type'', JStr ''mute-state''), (''muted'', JBool (\<not> on))])] s'
                       else s'
                   | None \<Rightarrow> s'))
      in s1\<lparr>micOn := on\<rparr>)"

definition toggleCam :: "calls \<Rightarrow> calls" where
  "toggleCam s =
     (if mode s = Sfu then on_engine (room s) (\<lambda>e. RoomSetCam e (\<not> camOn s)) s
      else on_engine (direct s) (\<lambda>e. DirectSetCam e (\<not> camOn s)) s)"

text \<open>\<open>ep\<close>: the epoch captured before the \<open>await\<close>.\<close>

definition toggleCam_done :: "nat \<Rightarrow> bool \<Rightarrow> bool \<Rightarrow> calls \<Rightarrow> calls" where
  "toggleCam_done ep on ok s =
     (if callEpoch s \<noteq> ep then s
      else if ok then s\<lparr>camOn := on\<rparr> else toast_call ''Could not access camera'' s)"

definition toggleScreen :: "calls \<Rightarrow> calls" where
  "toggleScreen s =
     (if sharing s then on_engine (room s) RoomStopScreen s
      else if mode s = Sfu then on_engine (room s) RoomStartScreen s
      else on_engine (direct s) DirectStartScreen s)"

text \<open>The second call of the stopping branch, between its two \<open>await\<close>s.\<close>

definition toggleScreen_stop_direct :: "calls \<Rightarrow> calls" where
  "toggleScreen_stop_direct s = on_engine (direct s) DirectStopScreen s"

datatype screen_step = Stopping | StartingSfu | StartingP2p

definition toggleScreen_done :: "call_env \<Rightarrow> nat \<Rightarrow> screen_step \<Rightarrow> bool \<Rightarrow> calls \<Rightarrow> calls" where
  "toggleScreen_done env ep st ok s =
     (if callEpoch s \<noteq> ep then s
      else if \<not> ok then toast_call ''Screen sharing was cancelled'' s
      else (case st of
              Stopping \<Rightarrow> s\<lparr>sharing := False, localScreenStream := None\<rparr>
            | StartingSfu \<Rightarrow>
                (let scr = (case room s of None \<Rightarrow> None | Some e \<Rightarrow> ev_screenStream (engine env e))
                 in s\<lparr>sharing := (scr \<noteq> None), localScreenStream := scr\<rparr>)
            | StartingP2p \<Rightarrow> s\<lparr>sharing := True\<rparr>))"

definition switchDevice :: "device_kind \<Rightarrow> string \<Rightarrow> calls \<Rightarrow> calls" where
  "switchDevice k d s =
     (if mode s = Sfu then on_engine (room s) (\<lambda>e. RoomSwitchDevice e k d) s
      else on_engine (direct s) (\<lambda>e. DirectSwitchDevice e k d) s)"

definition engine_local :: "call_env \<Rightarrow> nat option \<Rightarrow> stream option" where
  "engine_local env r = (case r of None \<Rightarrow> None | Some e \<Rightarrow> ev_localStream (engine env e))"

definition switchDevice_done :: "call_env \<Rightarrow> nat \<Rightarrow> device_kind \<Rightarrow> bool \<Rightarrow> calls \<Rightarrow> calls" where
  "switchDevice_done env ep k ok s =
     (if callEpoch s \<noteq> ep then s
      else if \<not> ok then toast_call ''Could not switch device'' s
      else
        (let cur = (case engine_local env (room s) of
                      Some st \<Rightarrow> Some st | None \<Rightarrow> engine_local env (direct s))
         in s\<lparr>localStream := cur, camOn := (if k = CamDevice then has_video cur else camOn s)\<rparr>))"

section \<open>Room calls\<close>

text \<open>The fields a room call's start sets in every case.\<close>

definition room_start :: "nat \<Rightarrow> string \<Rightarrow> bool \<Rightarrow> calls \<Rightarrow> calls" where
  "room_start e rid video s = s\<lparr>callEpoch := e, status := ConnectingCall, mode := Sfu,
     roomId := Some rid, micOn := True, camOn := video, sharing := False, participants := [],
     remoteTracks := Map.empty, startedAt := None, localScreenStream := None, call_toast := None\<rparr>"

definition open_room :: "nat \<Rightarrow> string \<Rightarrow> bool \<Rightarrow> string option \<Rightarrow> calls \<Rightarrow> calls" where
  "open_room e rid video passcode s =
     emit_call (RoomJoin e rid video passcode) ((emit_call (NewRoom e) s)\<lparr>room := Some e\<rparr>)"

definition group_room :: "int \<Rightarrow> string" where
  "group_room g = ''group:'' @ show_int g"

definition joined_voice_only :: string where
  "joined_voice_only = ''Camera access not granted -- joined with voice only''"

definition startGroupCall :: "call_env \<Rightarrow> group \<Rightarrow> bool \<Rightarrow> calls \<Rightarrow> calls" where
  "startGroupCall env g video s =
     (if status s \<noteq> Idle then toast_call ''Already in a call'' s
      else if \<not> c_up env then toast_call ''Realtime connection is unavailable'' s
      else
        (let e = callEpoch s + 1; rid = group_room (g_id g)
         in open_room e rid video None
              ((room_start e rid video s)\<lparr>call_group := Some g, startedWithVideo := video\<rparr>)))"

text \<open>What the three continuations share: a stale one only leaves its own room.\<close>

definition room_failed :: "nat \<Rightarrow> calls \<Rightarrow> calls" where
  "room_failed e s = (room_leave e False s)\<lparr>room := None\<rparr>"

definition room_idle :: "string \<Rightarrow> calls \<Rightarrow> calls" where
  "room_idle t s = s\<lparr>call_toast := Some t, status := Idle, roomId := None, localStream := None,
     localScreenStream := None, sharing := False\<rparr>"

definition startGroupCall_done ::
  "call_env \<Rightarrow> nat \<Rightarrow> string \<Rightarrow> bool \<Rightarrow> bool \<Rightarrow> calls \<Rightarrow> calls" where
  "startGroupCall_done env e rid video ok s =
     (if ok then
        (if \<not> room_current e s \<or> roomId s \<noteq> Some rid then room_leave e False s
         else
           (let v = engine env e; actualVideo = has_video (ev_localStream v)
            in s\<lparr>localStream := ev_localStream v, camOn := actualVideo,
                 call_toast := (if video \<and> \<not> actualVideo then Some joined_voice_only else None)\<rparr>))
      else if \<not> room_current e s then room_leave e False s
      else room_failed e ((room_idle no_device s)\<lparr>call_group := None\<rparr>))"

definition acceptRoomInvite :: "calls \<Rightarrow> calls" where
  "acceptRoomInvite s =
     (case roomInvite s of
        None \<Rightarrow> s
      | Some invite \<Rightarrow>
         (let s0 = emit_call StopRingtone s in
          if status s \<noteq> Idle
          then s0\<lparr>roomInvite := None, call_toast := Some ''Already in a call''\<rparr>
          else
            (let e = callEpoch s + 1
             in open_room e (ri_roomId invite) True None
                  ((room_start e (ri_roomId invite) True s0)\<lparr>roomInvite := None\<rparr>))))"

definition acceptRoomInvite_done :: "call_env \<Rightarrow> nat \<Rightarrow> string \<Rightarrow> bool \<Rightarrow> calls \<Rightarrow> calls" where
  "acceptRoomInvite_done env e rid ok s =
     (if ok then
        (if \<not> room_current e s \<or> roomId s \<noteq> Some rid then room_leave e False s
         else s\<lparr>localStream := ev_localStream (engine env e)\<rparr>)
      else if \<not> room_current e s then room_leave e False s
      else room_failed e (room_idle no_device s))"

definition declineRoomInvite :: "calls \<Rightarrow> calls" where
  "declineRoomInvite s = (emit_call StopRingtone s)\<lparr>roomInvite := None\<rparr>"

definition private_room_id :: "private_room \<Rightarrow> string" where
  "private_room_id info = ''priv:'' @ pr_id info"

definition joinPrivateRoom ::
  "call_env \<Rightarrow> private_room \<Rightarrow> string option \<Rightarrow> bool \<Rightarrow> calls \<Rightarrow> calls" where
  "joinPrivateRoom env info passcode video s =
     (if status s \<noteq> Idle then toast_call ''Already in a call'' s
      else if \<not> c_up env then toast_call ''Realtime connection is unavailable'' s
      else
        (let e = callEpoch s + 1; rid = private_room_id info
         in open_room e rid video passcode
              ((room_start e rid video s)
                 \<lparr>call_group := None, privateRoom := Some info, startedWithVideo := video\<rparr>)))"

text \<open>\<open>err\<close>: the message of the error the join was rejected with.\<close>

definition joinPrivateRoom_done ::
  "call_env \<Rightarrow> nat \<Rightarrow> string \<Rightarrow> bool \<Rightarrow> bool \<Rightarrow> string option \<Rightarrow> calls \<Rightarrow> calls" where
  "joinPrivateRoom_done env e rid video ok err s =
     (if ok then
        (if \<not> room_current e s \<or> roomId s \<noteq> Some rid then room_leave e False s
         else
           (let v = engine env e; actualVideo = has_video (ev_localStream v)
            in s\<lparr>localStream := ev_localStream v, camOn := actualVideo,
                 call_toast := (if video \<and> \<not> actualVideo then Some joined_voice_only else call_toast s)\<rparr>))
      else if \<not> room_current e s then room_leave e False s
      else room_failed e
        ((room_idle (if str_truthy err then the err else no_device) s)\<lparr>privateRoom := None\<rparr>))"

section \<open>Hosting a room\<close>

definition drop_request :: "string \<Rightarrow> int \<Rightarrow> join_request list \<Rightarrow> join_request list" where
  "drop_request rid uid rs = filter (\<lambda>r. \<not> (jr_roomId r = rid \<and> ub_id (jr_from r) = uid)) rs"

text \<open>\<open>if (!ws.send(...)) set({ toast })\<close>: send, or say why not.\<close>

definition send_or_toast ::
  "call_env \<Rightarrow> string \<Rightarrow> (string \<times> json) list \<Rightarrow> string \<Rightarrow> calls \<Rightarrow> calls" where
  "send_or_toast env ty d lost s = (if c_up env then send_call env ty d s else toast_call lost s)"

definition admitJoinRequest :: "call_env \<Rightarrow> string \<Rightarrow> int \<Rightarrow> calls \<Rightarrow> calls" where
  "admitJoinRequest env rid uid s =
     (if \<not> c_up env then toast_call ''Could not admit -- connection lost'' s
      else (send_call env ''room:admit'' [(''room_id'', JStr rid), (''user_id'', JNum uid)] s)
             \<lparr>roomJoinRequests := drop_request rid uid (roomJoinRequests s)\<rparr>)"

definition denyJoinRequest :: "call_env \<Rightarrow> string \<Rightarrow> int \<Rightarrow> calls \<Rightarrow> calls" where
  "denyJoinRequest env rid uid s =
     (if \<not> c_up env then toast_call ''Could not deny -- connection lost'' s
      else (send_call env ''room:deny'' [(''room_id'', JStr rid), (''user_id'', JNum uid)] s)
             \<lparr>roomJoinRequests := drop_request rid uid (roomJoinRequests s)\<rparr>)"

definition muteParticipant :: "call_env \<Rightarrow> int \<Rightarrow> bool \<Rightarrow> calls \<Rightarrow> calls" where
  "muteParticipant env uid lock = send_or_toast env ''room:mute-request''
     [(''target_user_id'', JNum uid), (''lock'', JBool lock)] ''Could not mute -- connection lost''"

definition unlockParticipant :: "call_env \<Rightarrow> int \<Rightarrow> calls \<Rightarrow> calls" where
  "unlockParticipant env uid = send_or_toast env ''room:unlock-request''
     [(''target_user_id'', JNum uid)] ''Could not unlock -- connection lost''"

definition kickParticipant :: "call_env \<Rightarrow> int \<Rightarrow> calls \<Rightarrow> calls" where
  "kickParticipant env uid = send_or_toast env ''room:kick-request''
     [(''target_user_id'', JNum uid)] ''Could not remove participant -- connection lost''"

definition setPresenterOnly :: "call_env \<Rightarrow> bool \<Rightarrow> calls \<Rightarrow> calls" where
  "setPresenterOnly env on s =
     (if \<not> str_truthy (roomId s) then s
      else send_or_toast env ''room:presenter-only-request''
        [(''room_id'', JStr (the (roomId s))), (''enabled'', JBool on)]
        ''Could not update presenter mode -- connection lost'' s)"

definition setPresenter :: "call_env \<Rightarrow> int \<Rightarrow> bool \<Rightarrow> calls \<Rightarrow> calls" where
  "setPresenter env uid allowed = send_or_toast env ''room:presenter-request''
     [(''target_user_id'', JNum uid), (''allowed'', JBool allowed)]
     ''Could not update presenter -- connection lost''"

definition fetchRoster :: "call_env \<Rightarrow> calls \<Rightarrow> calls" where
  "fetchRoster env s =
     (if \<not> str_truthy (roomId s) then s
      else send_call env ''room:roster-request'' [(''room_id'', JStr (the (roomId s)))] s)"

definition nudgeInvitee :: "call_env \<Rightarrow> int \<Rightarrow> calls \<Rightarrow> calls" where
  "nudgeInvitee env uid s =
     (if \<not> str_truthy (roomId s) then s
      else send_or_toast env ''room:nudge-request''
        [(''room_id'', JStr (the (roomId s))), (''target_user_id'', JNum uid)]
        ''Could not nudge -- connection lost'' s)"

definition toggleRaiseHand :: "call_env \<Rightarrow> calls \<Rightarrow> calls" where
  "toggleRaiseHand env s =
     (if \<not> str_truthy (roomId s) then s
      else (case c_me env of
              None \<Rightarrow> s
            | Some my \<Rightarrow>
               (let raised = (raisedHands s my \<noteq> Some True)
                in send_call env ''call:raise-hand''
                     [(''room_id'', JStr (the (roomId s))), (''raised'', JBool raised)]
                     (s\<lparr>raisedHands := (raisedHands s)(my \<mapsto> raised)\<rparr>))))"

text \<open>\<open>fetchHistory\<close> after its \<open>await\<close>: the calls, or the error's message.\<close>

definition fetchHistory_done :: "call_record list option \<Rightarrow> string option \<Rightarrow> calls \<Rightarrow> calls" where
  "fetchHistory_done resp err s =
     (case resp of
        Some h \<Rightarrow> s\<lparr>history := h, historyLoaded := True, historyError := None\<rparr>
      | None \<Rightarrow> s\<lparr>historyError := Some (nvl err ''Couldn't load call history'')\<rparr>)"

end
