(* ===== verification/CallHandlers.thy ===== *)
theory CallHandlers
  imports CallStore
begin

text \<open>
  The socket handlers \<open>registerWs\<close> installs for the call store, its reconnect timer, and the
  event system of the store. A payload field the code tests before it uses it is an option.
\<close>

section \<open>One to one calls\<close>

text \<open>\<open>d.call_id && d.call_id !== callId\<close>: the frame names another call (or room).\<close>

definition names_other :: "string option \<Rightarrow> string option \<Rightarrow> bool" where
  "names_other named cur = (str_truthy named \<and> named \<noteq> cur)"

definition on_call_outgoing :: "string \<Rightarrow> calls \<Rightarrow> calls" where
  "on_call_outgoing cid s =
     (if status s \<noteq> Outgoing \<or> callId s \<noteq> Some cid then s else s\<lparr>callId := Some cid\<rparr>)"

definition on_call_invite :: "call_env \<Rightarrow> string \<Rightarrow> user_brief \<Rightarrow> bool \<Rightarrow> calls \<Rightarrow> calls" where
  "on_call_invite env cid from video s =
     (if status s \<noteq> Idle \<or> incoming s \<noteq> None \<or> roomInvite s \<noteq> None
      then send_call env ''call:decline'' [(''call_id'', JStr cid)] s
      else send_call env ''call:ringing'' [(''call_id'', JStr cid)]
        (emit_call (NotifyCall ''Incoming call'' (ub_display_name from @ '' is calling you'') ''call'')
          (emit_call StartRingtone
            (s\<lparr>incoming := Some \<lparr>in_callId = cid, in_from = from, in_video = video\<rparr>\<rparr>))))"

definition on_call_ringing :: "string option \<Rightarrow> calls \<Rightarrow> calls" where
  "on_call_ringing cid s =
     (if names_other cid (callId s) then s
      else if status s = Outgoing then emit_call StartRingtone (s\<lparr>ringing := True\<rparr>) else s)"

definition on_call_accepted :: "string option \<Rightarrow> calls \<Rightarrow> calls" where
  "on_call_accepted cid s =
     (if names_other cid (callId s) then s
      else
        (let s1 = (emit_call StopRingtone s)\<lparr>status := ConnectingCall, ringing := False, call_toast := None\<rparr>
         in on_engine (direct s) DirectMakeOffer (on_engine (direct s) DirectEnableRenegotiation s1)))"

definition on_call_declined :: "string option \<Rightarrow> calls \<Rightarrow> calls" where
  "on_call_declined cid s =
     (if names_other cid (callId s) then s
      else
        (let s1 = clearP2PReconnectTimer s;
             s2 = stop_stream (localStream s) (s1\<lparr>callEpoch := callEpoch s + 1\<rparr>);
             s3 = emit_call StopRingtone (close_current s2)
         in emit_call FetchHistory ((p2p_idle s3)\<lparr>call_toast := Some ''Call declined''\<rparr>)))"

definition on_call_ended :: "string option \<Rightarrow> string option \<Rightarrow> calls \<Rightarrow> calls" where
  "on_call_ended cid reason s =
     (if str_truthy cid \<and> callId s \<noteq> cid \<and> map_option in_callId (incoming s) \<noteq> cid then s
      else
        (let s1 = clearP2PReconnectTimer s;
             s2 = stop_stream (localStream s) (s1\<lparr>callEpoch := callEpoch s + 1\<rparr>);
             s3 = emit_call StopRingtone (leave_current True (close_current s2));
             s4 = s3\<lparr>status := Idle, callId := None, roomId := None, peer := None, call_group := None,
                     incoming := None, localStream := None, localScreenStream := None,
                     remoteStream := None, participants := [], remoteTracks := Map.empty,
                     startedAt := None, sharing := False,
                     call_toast := (if reason = Some ''missed'' then None
                       else (case callEndReasonToast reason of
                               Some t \<Rightarrow> Some t | None \<Rightarrow> call_toast s3))\<rparr>
         in if status s \<noteq> Idle \<or> reason = Some ''missed'' \<or> reason = Some ''no-answer''
            then emit_call FetchHistory s4 else s4))"

text \<open>A relayed payload: the peer's mute state, or signaling for the engine.\<close>

datatype relay_data = MuteState bool | Signal json

definition on_webrtc_relay :: "relay_data \<Rightarrow> calls \<Rightarrow> calls" where
  "on_webrtc_relay d s =
     (case d of
        MuteState b \<Rightarrow> s\<lparr>remoteMuted := b\<rparr>
      | Signal j \<Rightarrow> on_engine (direct s) (\<lambda>e. DirectOnRelay e j) s)"

section \<open>Rooms\<close>

text \<open>
  \<open>Number(text)\<close> for the texts that can follow \<open>group:\<close> in a room's name: decimal digits with
  an optional sign and surrounding blanks. The other numerals (fractions, exponents, other
  bases) are no ids the server forms and count as not a number.
\<close>

fun digits_value :: "int \<Rightarrow> string \<Rightarrow> int" where
  "digits_value a [] = a"
| "digits_value a (c # cs) = digits_value (10 * a + (of_char c - 48)) cs"

definition js_number :: "string \<Rightarrow> int option" where
  "js_number txt =
     (case js_trim txt of
        [] \<Rightarrow> Some 0
      | c # cs \<Rightarrow>
          if c = CHR ''-'' \<and> cs \<noteq> [] \<and> list_all is_digit cs then Some (- digits_value 0 cs)
          else if c = CHR ''+'' \<and> cs \<noteq> [] \<and> list_all is_digit cs then Some (digits_value 0 cs)
          else if list_all is_digit (c # cs) then Some (digits_value 0 (c # cs)) else None)"

text \<open>The group a room belongs to, \<open>None\<close> when the code's \<open>gid\<close> is falsy.\<close>

definition room_gid :: "string option \<Rightarrow> int option" where
  "room_gid rid =
     (case rid of
        None \<Rightarrow> None
      | Some r \<Rightarrow>
          if starts_with r ''group:''
          then (case js_number (drop 6 r) of None \<Rightarrow> None | Some n \<Rightarrow> if n = 0 then None else Some n)
          else None)"

text \<open>The room of a group is named after it and read back from the name.\<close>

lemma digits_value_append: "digits_value a (xs @ ys) = digits_value (digits_value a xs) ys"
  by (induction a xs rule: digits_value.induct) simp_all

lemma digits_value_show_nat: "digits_value 0 (show_nat n) = int n"
proof (induction n rule: show_nat.induct)
  case (1 n)
  have d: "m < 10 \<Longrightarrow> (of_char (digit m) :: int) = 48 + int m" for m
    by (auto simp: digit_def less_Suc_eq numeral_eq_Suc)
  show ?case
  proof (cases "n < 10")
    case True
    then show ?thesis by (simp add: show_nat.simps [of n] d)
  next
    case False
    then have "digits_value 0 (show_nat n) = 10 * int (n div 10) + int (n mod 10)"
      using 1 [OF False] by (simp add: show_nat.simps [of n] digits_value_append d)
    also have "\<dots> = int n" by (metis mult_div_mod_eq of_nat_add of_nat_mult of_nat_numeral)
    finally show ?thesis .
  qed
qed

lemma js_trim_digits: "list_all is_digit s \<Longrightarrow> js_trim s = s"
proof -
  assume "list_all is_digit s"
  moreover have "is_digit c \<Longrightarrow> \<not> js_space c" for c
    by (auto simp: is_digit_def js_space_def)
  ultimately have "\<forall>c \<in> set s. \<not> js_space c" by (auto simp: list_all_iff)
  then have "dropWhile js_space s = s" "dropWhile js_space (rev s) = rev s"
    by (metis dropWhile_eq_self_iff hd_in_set)
      (metis \<open>\<forall>c \<in> set s. \<not> js_space c\<close> dropWhile_eq_self_iff hd_in_set set_rev)
  then show ?thesis by (simp add: js_trim_def)
qed

lemma js_number_show_nat: "js_number (show_nat n) = Some (int n)"
proof -
  have digits: "list_all is_digit (show_nat n)" using show_nat_digits by (auto simp: list_all_iff)
  obtain c cs where s: "show_nat n = c # cs" using show_nat_nonempty by (cases "show_nat n") auto
  with digits have "is_digit c" by simp
  then have "c \<noteq> CHR ''-''" "c \<noteq> CHR ''+''" by (auto simp: is_digit_def)
  with digits digits_value_show_nat [of n] show ?thesis
    by (simp add: js_number_def js_trim_digits s)
qed

lemma room_gid_group_room: "0 < g \<Longrightarrow> room_gid (Some (group_room g)) = Some g"
  using js_number_show_nat [of "nat g"]
  by (simp add: room_gid_def group_room_def starts_with_def show_int_def)

lemma room_gid_private_room: "room_gid (Some (''priv:'' @ x)) = None"
  by (simp add: room_gid_def starts_with_def)

definition mark_room :: "int option \<Rightarrow> calls \<Rightarrow> calls" where
  "mark_room gid s =
     (case gid of None \<Rightarrow> s
      | Some g \<Rightarrow> s\<lparr>activeGroupRooms := (activeGroupRooms s)(g \<mapsto> True)\<rparr>)"

definition unmark_room :: "int option \<Rightarrow> calls \<Rightarrow> calls" where
  "unmark_room gid s =
     (case gid of None \<Rightarrow> s
      | Some g \<Rightarrow> s\<lparr>activeGroupRooms := (activeGroupRooms s)(g := None)\<rparr>)"

definition invite_gid :: "string option \<Rightarrow> int option \<Rightarrow> int option" where
  "invite_gid rid grp =
     (case grp of Some g \<Rightarrow> if g = 0 then None else Some g | None \<Rightarrow> room_gid rid)"

definition on_room_invite ::
  "string \<Rightarrow> string \<Rightarrow> user_brief \<Rightarrow> int option \<Rightarrow> calls \<Rightarrow> calls" where
  "on_room_invite rid gname from grp s =
     (let s1 = mark_room (invite_gid (Some rid) grp) s in
      if status s1 \<noteq> Idle \<or> roomInvite s1 \<noteq> None \<or> incoming s1 \<noteq> None then s1
      else emit_call (NotifyCall ''Group call''
             (ub_display_name from @ '' started a call in '' @ gname) ''room'')
        (emit_call StartRingtone
          (s1\<lparr>roomInvite := Some \<lparr>ri_roomId = rid, ri_groupName = gname, ri_from = from\<rparr>\<rparr>)))"

text \<open>A frame about a room this client is connecting to or in.\<close>

definition in_room :: "string option \<Rightarrow> calls \<Rightarrow> bool" where
  "in_room rid s \<longleftrightarrow> mode s = Sfu \<and> (status s = ConnectingCall \<or> status s = ActiveCall) \<and>
     \<not> names_other rid (roomId s)"

definition on_room_joined ::
  "call_env \<Rightarrow> string option \<Rightarrow> bool \<Rightarrow> participant_info list option \<Rightarrow> calls \<Rightarrow> calls" where
  "on_room_joined env rid resumed ps s =
     (let s1 = mark_room (room_gid rid) s in
      if \<not> in_room rid s1 then s1
      else (on_engine (room s1) (\<lambda>e. RoomHandleJoined e resumed) s1)
             \<lparr>participants := nvl ps [], status := ActiveCall,
              startedAt := Some (nvl (startedAt s1) (c_now env)), call_toast := None,
              wsReconnecting := False\<rparr>)"

fun put_participant :: "participant_info \<Rightarrow> participant_info list \<Rightarrow> participant_info list" where
  "put_participant p [] = [p]"
| "put_participant p (q # qs) =
     (if p_user_id q = p_user_id p then p # qs else q # put_participant p qs)"

definition on_room_participant :: "string option \<Rightarrow> participant_info \<Rightarrow> calls \<Rightarrow> calls" where
  "on_room_participant rid p s =
     (if \<not> in_room rid s then s else s\<lparr>participants := put_participant p (participants s)\<rparr>)"

definition on_room_left :: "string option \<Rightarrow> int \<Rightarrow> calls \<Rightarrow> calls" where
  "on_room_left rid uid s =
     (if \<not> in_room rid s then s
      else s\<lparr>participants := filter (\<lambda>p. p_user_id p \<noteq> uid) (participants s),
             remoteTracks := (remoteTracks s)(uid := None)\<rparr>)"

definition on_room_closed :: "string option \<Rightarrow> calls \<Rightarrow> calls" where
  "on_room_closed rid s =
     (let s1 = unmark_room (room_gid rid) s in
      if mode s1 \<noteq> Sfu \<or> names_other rid (roomId s1) then s1
      else
        (let s2 = leave_current False (s1\<lparr>callEpoch := callEpoch s1 + 1\<rparr>);
             s3 = emit_call StopRingtone (stop_stream (localStream s1) s2)
         in emit_call FetchHistory
             (s3\<lparr>status := Idle, callId := None, roomId := None, peer := None, call_group := None,
                 privateRoom := None, roomJoinRequests := [], incoming := None, localStream := None,
                 localScreenStream := None, participants := [], remoteTracks := Map.empty,
                 startedAt := None, sharing := False, minimized := False, inCallChat := False,
                 showParticipants := False, presenterOnly := False, roster := None,
                 raisedHands := Map.empty, networkQuality := Good, wsReconnecting := False,
                 mediaReconnecting := False, call_toast := Some ''This group call ended''\<rparr>)))"

definition on_join_pending :: "string option \<Rightarrow> calls \<Rightarrow> calls" where
  "on_join_pending rid s =
     (if names_other rid (roomId s) then s
      else if status s = ConnectingCall then s\<lparr>status := WaitingApproval\<rparr> else s)"

definition on_join_approved :: "string option \<Rightarrow> calls \<Rightarrow> calls" where
  "on_join_approved rid s =
     (if names_other rid (roomId s) \<or> status s \<noteq> WaitingApproval then s
      else on_engine (room s) RoomResendJoin (s\<lparr>status := ConnectingCall\<rparr>))"

definition on_join_denied :: "string option \<Rightarrow> calls \<Rightarrow> calls" where
  "on_join_denied rid s =
     (if names_other rid (roomId s) then s
      else
        (leave_current False (stop_stream (localStream s) (s\<lparr>callEpoch := callEpoch s + 1\<rparr>)))
          \<lparr>status := Idle, roomId := None, privateRoom := None, localStream := None,
           localScreenStream := None, participants := [], remoteTracks := Map.empty,
           sharing := False, startedAt := None,
           call_toast := Some ''The host denied your request to join''\<rparr>)"

definition on_join_request :: "string option \<Rightarrow> user_brief option \<Rightarrow> calls \<Rightarrow> calls" where
  "on_join_request rid from s =
     (case (rid, from) of
        (Some r, Some f) \<Rightarrow>
          if r = [] then s
          else s\<lparr>roomJoinRequests := drop_request r (ub_id f) (roomJoinRequests s) @
                   [\<lparr>jr_roomId = r, jr_from = f\<rparr>]\<rparr>
      | _ \<Rightarrow> s)"

definition on_raise_hand :: "string option \<Rightarrow> int \<Rightarrow> bool \<Rightarrow> calls \<Rightarrow> calls" where
  "on_raise_hand rid uid raised s =
     (if names_other rid (roomId s) then s
      else s\<lparr>raisedHands := (raisedHands s)(uid \<mapsto> raised)\<rparr>)"

definition on_room_muted :: "bool \<Rightarrow> calls \<Rightarrow> calls" where
  "on_room_muted is_locked s =
     (if mode s = Sfu then on_engine (room s) (\<lambda>e. RoomSetMic e False) s
      else on_engine (direct s) (\<lambda>e. DirectSetMic e False) s)
       \<lparr>micOn := False,
        call_toast := Some (if is_locked then ''You were muted and locked by the host''
                            else ''You were muted by the host'')\<rparr>"

definition on_room_unlocked :: "calls \<Rightarrow> calls" where
  "on_room_unlocked = toast_call ''The host unlocked your microphone -- you can unmute now''"

definition on_room_removed :: "calls \<Rightarrow> calls" where
  "on_room_removed s =
     (let s1 = leave_current False (s\<lparr>callEpoch := callEpoch s + 1\<rparr>);
          s2 = emit_call StopRingtone (stop_stream (localStream s) s1)
      in emit_call FetchHistory
          (s2\<lparr>status := Idle, callId := None, roomId := None, peer := None, call_group := None,
              privateRoom := None, roomJoinRequests := [], localStream := None,
              localScreenStream := None, participants := [], remoteTracks := Map.empty,
              startedAt := None, sharing := False, minimized := False, inCallChat := False,
              showParticipants := False, presenterOnly := False, roster := None,
              raisedHands := Map.empty, networkQuality := Good, wsReconnecting := False,
              mediaReconnecting := False,
              call_toast := Some ''You were removed from the call by the host''\<rparr>))"

definition on_presenter_only :: "string option \<Rightarrow> bool \<Rightarrow> calls \<Rightarrow> calls" where
  "on_presenter_only rid on s =
     (if names_other rid (roomId s) then s
      else s\<lparr>presenterOnly := on,
             call_toast := Some (if on
               then ''Only the host and approved presenters can share their screen now''
               else ''Anyone can share their screen now'')\<rparr>)"

definition on_roster ::
  "string option \<Rightarrow> user_brief list option \<Rightarrow> int list option \<Rightarrow> calls \<Rightarrow> calls" where
  "on_roster rid invitees joined s =
     (if names_other rid (roomId s) then s
      else s\<lparr>roster := Some \<lparr>ro_invitees = nvl invitees [], ro_joined = nvl joined []\<rparr>\<rparr>)"

text \<open>\<open>sfu:sub-offer\<close>, \<open>sfu:sub-ice\<close>, \<open>sfu:pub-answer\<close> and \<open>sfu:pub-ice\<close> go to the room.\<close>

definition on_sfu_signal :: "string \<Rightarrow> json \<Rightarrow> calls \<Rightarrow> calls" where
  "on_sfu_signal ty d s = on_engine (room s) (\<lambda>e. RoomSignal e ty d) s"

definition on_room_ended :: "string option \<Rightarrow> int option \<Rightarrow> calls \<Rightarrow> calls" where
  "on_room_ended rid gid s =
     (let s1 = (case roomInvite s of
                  None \<Rightarrow> s
                | Some invite \<Rightarrow> if Some (ri_roomId invite) = rid
                    then (emit_call StopRingtone s)\<lparr>roomInvite := None\<rparr> else s)
      in unmark_room (if num_truthy gid then gid else None) s1)"

section \<open>The socket itself\<close>

definition on_ws_close :: "call_env \<Rightarrow> calls \<Rightarrow> calls" where
  "on_ws_close env s =
     (if status s = ActiveCall
      then
        (let s1 = s\<lparr>wsReconnecting := True\<rparr> in
         if mode s = Sfu then s1
         else if p2pReconnectTimer s1 then s1
         else emit_call (StartReconnectTimer 15000) (s1\<lparr>p2pReconnectTimer := True\<rparr>))
      else
        (let s1 = clearP2PReconnectTimer s in
         if status s = Idle \<and> incoming s = None \<and> roomInvite s = None then s1
         else
           (let s2 = leave_current False (close_current (s1\<lparr>callEpoch := callEpoch s1 + 1\<rparr>));
                s3 = stop_stream (localStream s) (emit_call StopRingtone s2)
            in s3\<lparr>status := Idle, callId := None, roomId := None, peer := None, call_group := None,
                  incoming := None, roomInvite := None, localStream := None,
                  localScreenStream := None, remoteStream := None, participants := [],
                  remoteTracks := Map.empty, startedAt := None, sharing := False,
                  call_toast := (if c_replaced env then None else Some ''Realtime connection lost'')\<rparr>)))"

definition reconnect_timer_fires :: "call_env \<Rightarrow> calls \<Rightarrow> calls" where
  "reconnect_timer_fires env s =
     (if \<not> p2pReconnectTimer s then s
      else
        (let s1 = s\<lparr>p2pReconnectTimer := False\<rparr> in
         if status s1 = ActiveCall \<and> mode s1 = P2p \<and> \<not> c_up env
         then toast_call ''Call ended: Connection to server lost'' (hangup env s1) else s1))"

record ws_error =
  er_code :: "string option"
  er_message :: "string option"
  er_client_id :: "string option"

definition on_call_error :: "ws_error \<Rightarrow> calls \<Rightarrow> calls" where
  "on_call_error d s =
     (if mode s = Sfu \<and> (status s = ConnectingCall \<or> status s = ActiveCall) \<and> er_code d = Some ''room-join''
      then
        (let s1 = stop_stream (localStream s) (leave_current False (s\<lparr>callEpoch := callEpoch s + 1\<rparr>))
         in emit_call FetchHistory
             (s1\<lparr>status := Idle, roomId := None, call_group := None, localStream := None,
                 localScreenStream := None, participants := [], remoteTracks := Map.empty,
                 sharing := False,
                 call_toast := Some (nvl (er_message d) ''Could not join the group call'')\<rparr>))
      else if mode s = Sfu \<and> (status s = ConnectingCall \<or> status s = ActiveCall) \<and>
              \<not> str_truthy (er_client_id d) \<and> er_code d \<noteq> Some ''rate-limit''
      then toast_call (nvl (er_message d) ''Call signaling error'') s
      else if mode s = P2p \<and> (status s = Outgoing \<or> status s = ConnectingCall) \<and> er_code d = Some ''call''
      then (p2p_idle (stop_stream (localStream s) (close_current (s\<lparr>callEpoch := callEpoch s + 1\<rparr>))))
             \<lparr>call_toast := Some (nvl (er_message d) ''Call could not be started'')\<rparr>
      else s)"

definition on_ws_open :: "call_env \<Rightarrow> calls \<Rightarrow> calls" where
  "on_ws_open env s =
     (let s1 = clearP2PReconnectTimer s;
          s2 = (if mode s1 = P2p \<and> str_truthy (callId s1) \<and> status s1 \<noteq> Idle
                then send_call env ''call:resume'' [(''call_id'', JStr (the (callId s1)))] s1 else s1)
      in if status s1 = ActiveCall
         then (let s3 = s2\<lparr>wsReconnecting := False\<rparr>
               in if mode s1 = Sfu then on_engine (room s3) RoomResume s3 else s3)
         else s2)"

definition register_calls :: "calls \<Rightarrow> calls" where
  "register_calls s = (if calls_registered s then s else s\<lparr>calls_registered := True\<rparr>)"

section \<open>The event system\<close>

datatype (plugins only: size) call_event =
    SetToast "string option"
  | SetMinimized bool
  | SetInCallChat bool
  | SetShowParticipants bool
  | StartDm user_brief bool
  | StartDmDone nat user_brief string bool bool
  | Accept "bool option"
  | AcceptDone nat string bool bool
  | Decline
  | Hangup
  | ToggleMic
  | ToggleCam
  | ToggleCamDone nat bool bool
  | ToggleScreen
  | StopDirectScreen
  | ToggleScreenDone nat screen_step bool
  | SwitchDev device_kind string
  | SwitchDevDone nat device_kind bool
  | StartGroup group bool
  | StartGroupDone nat string bool bool
  | AcceptRoom
  | AcceptRoomDone nat string bool
  | DeclineRoom
  | JoinPrivate private_room "string option" bool
  | JoinPrivateDone nat string bool bool "string option"
  | Admit string int
  | Deny string int
  | Mute int bool
  | Unlock int
  | Kick int
  | SetPresOnly bool
  | SetPres int bool
  | FetchRoster
  | Nudge int
  | RaiseHand
  | HistoryDone "call_record list option" "string option"
  | RegisterCalls
  | DirectRemote nat
  | DirectState nat connection
  | DirectShare nat bool "stream option"
  | DirectNet nat net_quality
  | RoomTracks nat
  | RoomShare nat bool "stream option"
  | RoomNet nat net_quality
  | RoomConn nat bool
  | WsCallOutgoing string
  | WsCallInvite string user_brief bool
  | WsCallRinging "string option"
  | WsCallAccepted "string option"
  | WsCallDeclined "string option"
  | WsCallEnded "string option" "string option"
  | WsRelay relay_data
  | WsRoomInvite string string user_brief "int option"
  | WsRoomJoined "string option" bool "participant_info list option"
  | WsRoomParticipant "string option" participant_info
  | WsRoomLeft "string option" int
  | WsRoomClosed "string option"
  | WsJoinPending "string option"
  | WsJoinApproved "string option"
  | WsJoinDenied "string option"
  | WsJoinRequest "string option" "user_brief option"
  | WsRaiseHand "string option" int bool
  | WsRoomMuted bool
  | WsRoomUnlocked
  | WsRoomRemoved
  | WsPresenterOnly "string option" bool
  | WsRoster "string option" "user_brief list option" "int list option"
  | WsSfu string json
  | WsRoomEnded "string option" "int option"
  | WsClose
  | ReconnectTimer
  | WsError ws_error
  | WsOpen

definition call_step :: "call_env \<Rightarrow> call_event \<Rightarrow> calls \<Rightarrow> calls" where
  "call_step env ev s = (case ev of
       SetToast t \<Rightarrow> s\<lparr>call_toast := t\<rparr>
     | SetMinimized b \<Rightarrow> s\<lparr>minimized := b\<rparr>
     | SetInCallChat b \<Rightarrow> s\<lparr>inCallChat := b\<rparr>
     | SetShowParticipants b \<Rightarrow> s\<lparr>showParticipants := b\<rparr>
     | StartDm p v \<Rightarrow> startDmCall env p v s
     | StartDmDone e p c v ok \<Rightarrow> startDmCall_done env e p c v ok s
     | Accept w \<Rightarrow> acceptIncoming env w s
     | AcceptDone e c v ok \<Rightarrow> acceptIncoming_done env e c v ok s
     | Decline \<Rightarrow> declineIncoming env s
     | Hangup \<Rightarrow> hangup env s
     | ToggleMic \<Rightarrow> toggleMic env s
     | ToggleCam \<Rightarrow> toggleCam s
     | ToggleCamDone ep on ok \<Rightarrow> toggleCam_done ep on ok s
     | ToggleScreen \<Rightarrow> toggleScreen s
     | StopDirectScreen \<Rightarrow> toggleScreen_stop_direct s
     | ToggleScreenDone ep st ok \<Rightarrow> toggleScreen_done env ep st ok s
     | SwitchDev k d \<Rightarrow> switchDevice k d s
     | SwitchDevDone ep k ok \<Rightarrow> switchDevice_done env ep k ok s
     | StartGroup g v \<Rightarrow> startGroupCall env g v s
     | StartGroupDone e r v ok \<Rightarrow> startGroupCall_done env e r v ok s
     | AcceptRoom \<Rightarrow> acceptRoomInvite s
     | AcceptRoomDone e r ok \<Rightarrow> acceptRoomInvite_done env e r ok s
     | DeclineRoom \<Rightarrow> declineRoomInvite s
     | JoinPrivate i p v \<Rightarrow> joinPrivateRoom env i p v s
     | JoinPrivateDone e r v ok err \<Rightarrow> joinPrivateRoom_done env e r v ok err s
     | Admit r u \<Rightarrow> admitJoinRequest env r u s
     | Deny r u \<Rightarrow> denyJoinRequest env r u s
     | Mute u l \<Rightarrow> muteParticipant env u l s
     | Unlock u \<Rightarrow> unlockParticipant env u s
     | Kick u \<Rightarrow> kickParticipant env u s
     | SetPresOnly b \<Rightarrow> setPresenterOnly env b s
     | SetPres u b \<Rightarrow> setPresenter env u b s
     | FetchRoster \<Rightarrow> fetchRoster env s
     | Nudge u \<Rightarrow> nudgeInvitee env u s
     | RaiseHand \<Rightarrow> toggleRaiseHand env s
     | HistoryDone r err \<Rightarrow> fetchHistory_done r err s
     | RegisterCalls \<Rightarrow> register_calls s
     | DirectRemote e \<Rightarrow> onRemoteStream env e s
     | DirectState e st \<Rightarrow> onState env e st s
     | DirectShare e b st \<Rightarrow> directSharing e b st s
     | DirectNet e q \<Rightarrow> directQuality e q s
     | RoomTracks e \<Rightarrow> onTracks env e s
     | RoomShare e b st \<Rightarrow> roomSharing e b st s
     | RoomNet e q \<Rightarrow> roomQuality e q s
     | RoomConn e b \<Rightarrow> onConnectionState e b s
     | WsCallOutgoing c \<Rightarrow> on_call_outgoing c s
     | WsCallInvite c f v \<Rightarrow> on_call_invite env c f v s
     | WsCallRinging c \<Rightarrow> on_call_ringing c s
     | WsCallAccepted c \<Rightarrow> on_call_accepted c s
     | WsCallDeclined c \<Rightarrow> on_call_declined c s
     | WsCallEnded c r \<Rightarrow> on_call_ended c r s
     | WsRelay d \<Rightarrow> on_webrtc_relay d s
     | WsRoomInvite r n f g \<Rightarrow> on_room_invite r n f g s
     | WsRoomJoined r b ps \<Rightarrow> on_room_joined env r b ps s
     | WsRoomParticipant r p \<Rightarrow> on_room_participant r p s
     | WsRoomLeft r u \<Rightarrow> on_room_left r u s
     | WsRoomClosed r \<Rightarrow> on_room_closed r s
     | WsJoinPending r \<Rightarrow> on_join_pending r s
     | WsJoinApproved r \<Rightarrow> on_join_approved r s
     | WsJoinDenied r \<Rightarrow> on_join_denied r s
     | WsJoinRequest r f \<Rightarrow> on_join_request r f s
     | WsRaiseHand r u b \<Rightarrow> on_raise_hand r u b s
     | WsRoomMuted b \<Rightarrow> on_room_muted b s
     | WsRoomUnlocked \<Rightarrow> on_room_unlocked s
     | WsRoomRemoved \<Rightarrow> on_room_removed s
     | WsPresenterOnly r b \<Rightarrow> on_presenter_only r b s
     | WsRoster r i j \<Rightarrow> on_roster r i j s
     | WsSfu ty d \<Rightarrow> on_sfu_signal ty d s
     | WsRoomEnded r g \<Rightarrow> on_room_ended r g s
     | WsClose \<Rightarrow> on_ws_close env s
     | ReconnectTimer \<Rightarrow> reconnect_timer_fires env s
     | WsError d \<Rightarrow> on_call_error d s
     | WsOpen \<Rightarrow> on_ws_open env s)"

end
