(* ===== verification/CallInv.thy ===== *)
theory CallInv
  imports CallHandlers
begin

text \<open>
  The invariant of the call store: what is set in each status and mode, kept by every event the
  client itself causes and by every frame a well-behaved server sends.
\<close>

section \<open>Helpers as record updates\<close>

definition calls_effects :: "nat option \<Rightarrow> (nat \<Rightarrow> call_eff) \<Rightarrow> call_eff list" where
  "calls_effects r f = (case r of None \<Rightarrow> [] | Some e \<Rightarrow> [f e])"

lemma calls_effects_simps [simp]:
  "calls_effects None f = []" "calls_effects (Some e) f = [f e]"
  by (simp_all add: calls_effects_def)

lemma send_call_eq: "send_call env ty d s =
    s\<lparr>trace := trace s @ (if c_up env then [CallFrame (ty, JObj d)] else [])\<rparr>"
  by (simp add: send_call_def emit_call_def)

lemma on_engine_eq: "on_engine r f s = s\<lparr>trace := trace s @ calls_effects r f\<rparr>"
  by (simp add: on_engine_def emit_call_def split: option.split)

lemma stop_stream_eq: "stop_stream st s =
    s\<lparr>trace := trace s @ (case st of None \<Rightarrow> [] | Some ts \<Rightarrow> [StopStream ts])\<rparr>"
  by (simp add: stop_stream_def emit_call_def split: option.split)

lemma clearP2PReconnectTimer_eq: "clearP2PReconnectTimer s = s\<lparr>p2pReconnectTimer := False,
    trace := trace s @ (if p2pReconnectTimer s then [ClearReconnectTimer] else [])\<rparr>"
  by (simp add: clearP2PReconnectTimer_def emit_call_def)

lemma roomSharing_eq: "roomSharing e b st s =
    s\<lparr>sharing := (if room_current e s then b else sharing s),
      localScreenStream := (if room_current e s then st else localScreenStream s)\<rparr>"
  by (simp add: roomSharing_def)

lemma room_leave_eq: "room_leave e b s = s\<lparr>trace := trace s @ [RoomLeave e b],
    sharing := (if room_current e s then False else sharing s),
    localScreenStream := (if room_current e s then None else localScreenStream s)\<rparr>"
  by (simp add: room_leave_def roomSharing_eq emit_call_def room_current_def)

definition leaving_current :: "calls \<Rightarrow> bool" where
  "leaving_current s = (room s = Some (callEpoch s))"

lemma leave_current_eq: "leave_current b s = s\<lparr>room := None,
    trace := trace s @ calls_effects (room s) (\<lambda>e. RoomLeave e b),
    sharing := (if leaving_current s then False else sharing s),
    localScreenStream := (if leaving_current s then None else localScreenStream s)\<rparr>"
  by (auto simp: leave_current_def room_leave_eq room_current_def leaving_current_def split: option.split)

lemma close_current_eq: "close_current s =
    s\<lparr>direct := None, trace := trace s @ calls_effects (direct s) DirectClose\<rparr>"
  by (simp add: close_current_def on_engine_eq)

lemma close_own_eq: "close_own e s =
    s\<lparr>direct := (if direct s = Some e then None else direct s), trace := trace s @ [DirectClose e]\<rparr>"
  by (simp add: close_own_def emit_call_def Let_def)

lemmas calls_eq = emit_call_def send_call_eq on_engine_eq stop_stream_eq
  clearP2PReconnectTimer_eq roomSharing_eq room_leave_eq leave_current_eq close_current_eq
  close_own_eq toast_call_def

section \<open>The invariant\<close>

definition idle_ok :: "calls \<Rightarrow> bool" where
  "idle_ok s \<longleftrightarrow> callId s = None \<and> roomId s = None \<and> direct s = None \<and> room s = None \<and>
     localStream s = None"

definition p2p_ok :: "calls \<Rightarrow> bool" where
  "p2p_ok s \<longleftrightarrow> str_truthy (callId s) \<and> direct s \<noteq> None \<and> room s = None \<and> roomId s = None \<and>
     status s \<noteq> WaitingApproval"

definition room_ok :: "calls \<Rightarrow> bool" where
  "room_ok s \<longleftrightarrow> str_truthy (roomId s) \<and> room s \<noteq> None \<and> direct s = None \<and> callId s = None \<and>
     status s \<noteq> Outgoing"

definition phase_ok :: "calls \<Rightarrow> bool" where
  "phase_ok s = (case status s of
      Idle \<Rightarrow> idle_ok s | _ \<Rightarrow> (case mode s of P2p \<Rightarrow> p2p_ok s | Sfu \<Rightarrow> room_ok s))"

definition calls_ok :: "calls \<Rightarrow> bool" where
  "calls_ok s \<longleftrightarrow> phase_ok s \<and> status s \<noteq> IncomingCall \<and>
     (status s = ActiveCall \<longrightarrow> startedAt s \<noteq> None) \<and>
     \<not> (incoming s \<noteq> None \<and> roomInvite s \<noteq> None) \<and>
     (\<forall>i. incoming s = Some i \<longrightarrow> in_callId i \<noteq> []) \<and>
     (\<forall>i. roomInvite s = Some i \<longrightarrow> ri_roomId i \<noteq> []) \<and>
     distinct (map p_user_id (participants s)) \<and>
     (\<forall>e. direct s = Some e \<or> room s = Some e \<longrightarrow> e \<le> callEpoch s)"

lemma phase_ok_simps:
  "status s = Idle \<Longrightarrow> phase_ok s = idle_ok s"
  "status s \<noteq> Idle \<Longrightarrow> mode s = P2p \<Longrightarrow> phase_ok s = p2p_ok s"
  "status s \<noteq> Idle \<Longrightarrow> mode s = Sfu \<Longrightarrow> phase_ok s = room_ok s"
  by (cases "status s"; simp add: phase_ok_def)+

lemma phase_ok_iff: "phase_ok s \<longleftrightarrow>
    (status s = Idle \<longrightarrow> idle_ok s) \<and>
    (status s \<noteq> Idle \<and> mode s = P2p \<longrightarrow> p2p_ok s) \<and>
    (status s \<noteq> Idle \<and> mode s = Sfu \<longrightarrow> room_ok s)"
  by (cases "status s = Idle"; cases "mode s") (simp_all add: phase_ok_simps)

lemmas calls_ok_defs = calls_ok_def phase_ok_iff idle_ok_def p2p_ok_def room_ok_def

lemma calls_ok_init: "calls_ok init_calls"
  by (simp add: calls_ok_defs init_calls_def)

text \<open>The fields the invariant reads.\<close>

definition core :: "calls \<Rightarrow> _" where
  "core s = (status s, mode s, callId s, roomId s, direct s, room s, callEpoch s,
     localStream s, startedAt s, incoming s, roomInvite s, participants s)"

lemma calls_ok_core: "core s' = core s \<Longrightarrow> calls_ok s \<Longrightarrow> calls_ok s'"
  by (simp add: core_def calls_ok_defs)

lemma calls_ok_to_idle:
  assumes "calls_ok s"
    and "status s' = Idle" "callId s' = None" "roomId s' = None" "direct s' = None" "room s' = None"
    and "localStream s' = None"
    and "incoming s' = incoming s \<or> incoming s' = None"
    and "roomInvite s' = roomInvite s \<or> roomInvite s' = None"
    and "participants s' = participants s \<or> participants s' = []"
  shows "calls_ok s'"
proof -
  have "phase_ok s'" using assms(2-7) by (simp add: phase_ok_simps idle_ok_def)
  moreover have "distinct (map p_user_id (participants s'))"
    using assms(1,10) by (auto simp: calls_ok_def)
  moreover have "\<not> (incoming s' \<noteq> None \<and> roomInvite s' \<noteq> None)"
    "\<forall>i. incoming s' = Some i \<longrightarrow> in_callId i \<noteq> []" "\<forall>i. roomInvite s' = Some i \<longrightarrow> ri_roomId i \<noteq> []"
    using assms(1,8,9) by (auto simp: calls_ok_def)
  ultimately show ?thesis using assms(2,5,6) by (simp add: calls_ok_def)
qed

lemma calls_ok_direct:
  assumes "calls_ok s" "direct s \<noteq> None"
  shows "status s \<noteq> Idle \<and> mode s = P2p \<and> p2p_ok s"
proof -
  have "phase_ok s" using assms(1) by (simp add: calls_ok_def)
  then show ?thesis using assms(2)
    by (cases "status s = Idle"; cases "mode s") (simp_all add: phase_ok_simps idle_ok_def room_ok_def)
qed

lemma calls_ok_room:
  assumes "calls_ok s" "room s \<noteq> None"
  shows "status s \<noteq> Idle \<and> mode s = Sfu \<and> room_ok s"
proof -
  have "phase_ok s" using assms(1) by (simp add: calls_ok_def)
  then show ?thesis using assms(2)
    by (cases "status s = Idle"; cases "mode s") (simp_all add: phase_ok_simps idle_ok_def p2p_ok_def)
qed

lemma calls_ok_p2p:
  assumes "calls_ok s" "direct_current e s"
  shows "status s \<noteq> Idle" "mode s = P2p" "direct s = Some e" "room s = None" "roomId s = None"
    "status s \<noteq> WaitingApproval" "str_truthy (callId s)"
  using calls_ok_direct [OF assms(1)] assms(2) by (auto simp: direct_current_def p2p_ok_def)

lemma calls_ok_sfu:
  assumes "calls_ok s" "room_current e s"
  shows "status s \<noteq> Idle" "mode s = Sfu" "room s = Some e" "direct s = None" "callId s = None"
    "status s \<noteq> Outgoing" "str_truthy (roomId s)"
  using calls_ok_room [OF assms(1)] assms(2) by (auto simp: room_current_def room_ok_def)

text \<open>
  What the client relies on in the frames it gets: identifiers are there, nobody is listed twice, and \<open>room:removed\<close>
  does not come while there is an engine of a one to one call. The server sends it to somebody who was in the room then,
  without naming the room, and neither side makes sure that the person has not left the room and started another call by the
  time it arrives: what happens then is in \<open>CallLaws\<close> (\<open>stray_removal_leaks_the_engine\<close>).
\<close>

definition frame_ok :: "call_event \<Rightarrow> calls \<Rightarrow> bool" where
  "frame_ok ev s = (case ev of
      WsCallInvite c _ _ \<Rightarrow> c \<noteq> []
    | WsCallAccepted c \<Rightarrow> str_truthy c
    | WsCallDeclined c \<Rightarrow> str_truthy c
    | WsRoomInvite r _ _ _ \<Rightarrow> r \<noteq> []
    | WsRoomJoined _ _ ps \<Rightarrow> distinct (map p_user_id (nvl ps []))
    | WsJoinPending r \<Rightarrow> str_truthy r
    | WsJoinDenied r \<Rightarrow> str_truthy r
    | WsRoomRemoved \<Rightarrow> direct s = None
    | _ \<Rightarrow> True)"

lemma calls_ok_to_p2p:
  assumes "calls_ok s" "status s = Idle"
    and "status s' = Outgoing \<or> status s' = ConnectingCall" "mode s' = P2p" "str_truthy (callId s')"
    and "direct s' = Some (callEpoch s')" "room s' = room s" "roomId s' = roomId s"
    and "incoming s' = incoming s \<or> incoming s' = None" "roomInvite s' = roomInvite s"
    and "participants s' = participants s"
  shows "calls_ok s'"
proof -
  have idle: "room s = None" "roomId s = None"
    using assms(1,2) by (simp_all add: calls_ok_def phase_ok_simps idle_ok_def)
  have "phase_ok s'" using assms(3-8) idle by (auto simp: phase_ok_simps p2p_ok_def)
  moreover have "\<not> (incoming s' \<noteq> None \<and> roomInvite s' \<noteq> None)"
    "\<forall>i. incoming s' = Some i \<longrightarrow> in_callId i \<noteq> []"
    using assms(1,9,10) by (auto simp: calls_ok_def)
  ultimately show ?thesis using assms(1,3,6,7,10,11) idle by (auto simp: calls_ok_def)
qed

lemma calls_ok_to_room:
  assumes "calls_ok s" "status s = Idle"
    and "status s' = ConnectingCall" "mode s' = Sfu" "str_truthy (roomId s')"
    and "room s' = Some (callEpoch s')" "direct s' = direct s" "callId s' = callId s"
    and "incoming s' = incoming s" "roomInvite s' = roomInvite s \<or> roomInvite s' = None"
    and "participants s' = []"
  shows "calls_ok s'"
proof -
  have idle: "direct s = None" "callId s = None"
    using assms(1,2) by (simp_all add: calls_ok_def phase_ok_simps idle_ok_def)
  have "phase_ok s'" using assms(3-8) idle by (auto simp: phase_ok_simps room_ok_def)
  moreover have "\<not> (incoming s' \<noteq> None \<and> roomInvite s' \<noteq> None)"
    "\<forall>i. roomInvite s' = Some i \<longrightarrow> ri_roomId i \<noteq> []"
    using assms(1,9,10) by (auto simp: calls_ok_def)
  ultimately show ?thesis using assms(1,3,6,7,9,11) idle by (auto simp: calls_ok_def)
qed

section \<open>Actions keep the invariant\<close>

lemma ok_startDmCall: 
  assumes "calls_ok s"
  shows "calls_ok (startDmCall env p v s)"
proof (cases "status s = Idle \<and> c_up env")
  case True
  show ?thesis
    by (rule calls_ok_to_p2p [OF assms]; use True in
        \<open>simp add: startDmCall_def calls_eq Let_def newCallID_def str_truthy_def\<close>)
next
  case False
  then show ?thesis
    by (intro calls_ok_core [OF _ assms]) (auto simp: startDmCall_def calls_eq core_def)
qed

lemma ok_acceptIncoming:
  assumes "calls_ok s"
  shows "calls_ok (acceptIncoming env w s)"
proof (cases "incoming s")
  case None
  then show ?thesis using assms by (simp add: acceptIncoming_def)
next
  case (Some inc)
  then have ne: "in_callId inc \<noteq> []" using assms by (simp add: calls_ok_def)
  show ?thesis
  proof (cases "status s = Idle")
    case True
    show ?thesis
      by (rule calls_ok_to_p2p [OF assms]; use True Some ne in
          \<open>simp add: acceptIncoming_def calls_eq Let_def str_truthy_def\<close>)
  next
    case False
    have "calls_ok (s\<lparr>incoming := None\<rparr>)" using assms by (simp add: calls_ok_defs)
    then show ?thesis
      by (rule calls_ok_core [rotated])
        (use False Some in \<open>simp add: acceptIncoming_def calls_eq core_def\<close>)
  qed
qed

lemma ok_declineIncoming:
  assumes "calls_ok s"
  shows "calls_ok (declineIncoming env s)"
proof -
  have "calls_ok (s\<lparr>incoming := None\<rparr>)" "calls_ok (s\<lparr>incoming := None, callEpoch := Suc (callEpoch s)\<rparr>)"
    using assms by (simp add: calls_ok_defs, auto simp: calls_ok_def phase_ok_def idle_ok_def
        p2p_ok_def room_ok_def split: call_status.split call_mode.split)
  then show ?thesis
    by (rule_tac calls_ok_core [rotated, of "if incoming s = None then s\<lparr>incoming := None\<rparr> else
        s\<lparr>incoming := None, callEpoch := Suc (callEpoch s)\<rparr>"])
      (auto simp: declineIncoming_def calls_eq core_def split: option.split)
qed

lemma ok_hangup:
  assumes "calls_ok s"
  shows "calls_ok (hangup env s)"
proof (rule calls_ok_to_idle [OF assms])
  have "direct s = None \<or> \<not> (mode s = Sfu \<and> str_truthy (roomId s)) \<and> str_truthy (callId s)"
    "room s = None \<or> mode s = Sfu \<and> str_truthy (roomId s)"
    using calls_ok_direct [OF assms] calls_ok_room [OF assms] by (auto simp: p2p_ok_def room_ok_def)
  then show "direct (hangup env s) = None" "room (hangup env s) = None"
    by (auto simp: hangup_def calls_eq Let_def)
qed (simp_all add: hangup_def calls_eq Let_def)

lemma ok_startDmCall_done: 
  assumes "calls_ok s"
  shows "calls_ok (startDmCall_done env e p c v ok s)"
proof (cases "direct_current e s \<and> (ok \<longrightarrow> callId s = Some c)")
  case True
  then have cur: "direct_current e s" ..
  note p2p = calls_ok_p2p [OF assms cur]
  show ?thesis
  proof (cases "ok \<and> c_up env")
    case up: True
    show ?thesis using assms p2p True up
      by (simp add: startDmCall_done_def Let_def calls_eq) (simp add: calls_ok_defs)
  next
    case False
    show ?thesis
      by (rule calls_ok_to_idle [OF assms]; use True False p2p in
        \<open>simp add: startDmCall_done_def Let_def calls_eq p2p_idle_def\<close>)
  qed
next
  case False
  show ?thesis
    by (rule calls_ok_core [OF _ assms])
      (use False in \<open>auto simp: startDmCall_done_def calls_eq core_def\<close>)
qed

lemma ok_acceptIncoming_done:
  assumes "calls_ok s"
  shows "calls_ok (acceptIncoming_done env e c v ok s)"
proof (cases "direct_current e s \<and> (ok \<longrightarrow> callId s = Some c)")
  case True
  then have cur: "direct_current e s" ..
  note p2p = calls_ok_p2p [OF assms cur]
  show ?thesis
  proof (cases "ok \<and> c_up env")
    case up: True
    show ?thesis using assms p2p True up
      by (simp add: acceptIncoming_done_def Let_def calls_eq) (simp add: calls_ok_defs)
  next
    case False
    show ?thesis
      by (rule calls_ok_to_idle [OF assms]; use True False p2p in
        \<open>simp add: acceptIncoming_done_def Let_def calls_eq p2p_idle_def\<close>)
  qed
next
  case False
  show ?thesis
    by (rule calls_ok_core [OF _ assms])
      (use False in \<open>auto simp: acceptIncoming_done_def calls_eq core_def\<close>)
qed

lemmas ok_core = calls_ok_core [rotated]

text \<open>Events that leave the fields of the invariant alone.\<close>

lemma core_controls:
  "core (toggleMic env s) = core s" "core (toggleCam s) = core s"
  "core (toggleCam_done ep on ok s) = core s" "core (toggleScreen s) = core s"
  "core (toggleScreen_stop_direct s) = core s" "core (toggleScreen_done env ep st ok s) = core s"
  "core (switchDevice k d s) = core s"
  by (simp_all add: core_def calls_eq Let_def toggleMic_def toggleCam_def toggleCam_done_def
      toggleScreen_def toggleScreen_stop_direct_def toggleScreen_done_def switchDevice_def
      split: option.split screen_step.split)

lemma core_hosting:
  "core (admitJoinRequest env r u s) = core s" "core (denyJoinRequest env r u s) = core s"
  "core (muteParticipant env u l s) = core s" "core (unlockParticipant env u s) = core s"
  "core (kickParticipant env u s) = core s" "core (setPresenterOnly env b s) = core s"
  "core (setPresenter env u b s) = core s" "core (fetchRoster env s) = core s"
  "core (nudgeInvitee env u s) = core s" "core (toggleRaiseHand env s) = core s"
  "core (fetchHistory_done h err s) = core s"
  by (simp_all add: core_def calls_eq Let_def send_or_toast_def admitJoinRequest_def denyJoinRequest_def
      muteParticipant_def unlockParticipant_def kickParticipant_def setPresenterOnly_def
      setPresenter_def fetchRoster_def nudgeInvitee_def toggleRaiseHand_def fetchHistory_done_def
      split: option.split)

lemma core_engine:
  "core (onRemoteStream env e s) = core s" "core (directSharing e b st s) = core s"
  "core (directQuality e q s) = core s" "core (onTracks env e s) = core s"
  "core (roomSharing e b st s) = core s" "core (roomQuality e q s) = core s"
  "core (onConnectionState e b s) = core s"
  by (simp_all add: core_def onRemoteStream_def directSharing_def directQuality_def onTracks_def
      roomSharing_def roomQuality_def onConnectionState_def)

lemma core_frames:
  "core (on_call_outgoing c s) = core s" "core (on_call_ringing c' s) = core s"
  "core (on_webrtc_relay d s) = core s" "core (on_join_request r f s) = core s"
  "core (on_raise_hand r u b s) = core s" "core (on_room_muted b s) = core s"
  "core (on_room_unlocked s) = core s" "core (on_presenter_only r b s) = core s"
  "core (on_roster r i j s) = core s" "core (on_sfu_signal ty js s) = core s"
  "core (mark_room g s) = core s" "core (unmark_room g s) = core s" "core (on_ws_open env s) = core s"
  "core (register_calls s) = core s"
  by (simp_all add: core_def calls_eq Let_def on_call_outgoing_def on_call_ringing_def
      on_webrtc_relay_def on_join_request_def on_raise_hand_def on_room_muted_def on_room_unlocked_def
      on_presenter_only_def on_roster_def on_sfu_signal_def mark_room_def unmark_room_def
      on_ws_open_def register_calls_def split: option.split relay_data.split)

section \<open>Rooms\<close>

lemma group_room_truthy [simp]: "group_room g \<noteq> []" by (simp add: group_room_def)

lemma private_room_truthy [simp]: "private_room_id i \<noteq> []" by (simp add: private_room_id_def)

lemma calls_ok_idle: "calls_ok s \<Longrightarrow> status s = Idle \<Longrightarrow> idle_ok s"
  by (simp add: calls_ok_def phase_ok_simps)

lemma ok_startGroupCall:
  assumes "calls_ok s"
  shows "calls_ok (startGroupCall env g v s)"
proof (cases "status s = Idle \<and> c_up env")
  case True
  show ?thesis
    by (rule calls_ok_to_room [OF assms]; use True in
        \<open>simp add: startGroupCall_def calls_eq Let_def open_room_def room_start_def str_truthy_def\<close>)
next
  case False
  then show ?thesis
    by (intro calls_ok_core [OF _ assms]) (auto simp: startGroupCall_def calls_eq core_def)
qed

lemma ok_joinPrivateRoom:
  assumes "calls_ok s"
  shows "calls_ok (joinPrivateRoom env i p v s)"
proof (cases "status s = Idle \<and> c_up env")
  case True
  show ?thesis
    by (rule calls_ok_to_room [OF assms]; use True in
        \<open>simp add: joinPrivateRoom_def calls_eq Let_def open_room_def room_start_def str_truthy_def\<close>)
next
  case False
  then show ?thesis
    by (intro calls_ok_core [OF _ assms]) (auto simp: joinPrivateRoom_def calls_eq core_def)
qed

lemma calls_ok_no_invite: "calls_ok s \<Longrightarrow> calls_ok (s\<lparr>roomInvite := None\<rparr>)"
  by (simp add: calls_ok_defs)

lemma ok_acceptRoomInvite:
  assumes "calls_ok s"
  shows "calls_ok (acceptRoomInvite s)"
proof (cases "roomInvite s")
  case None
  then show ?thesis using assms by (simp add: acceptRoomInvite_def)
next
  case (Some iv)
  then have ne: "ri_roomId iv \<noteq> []" using assms by (simp add: calls_ok_def)
  show ?thesis
  proof (cases "status s = Idle")
    case True
    show ?thesis
      by (rule calls_ok_to_room [OF assms]; use True Some ne in
          \<open>simp add: acceptRoomInvite_def calls_eq Let_def open_room_def room_start_def str_truthy_def\<close>)
  next
    case False
    show ?thesis
      by (rule calls_ok_core [OF _ calls_ok_no_invite [OF assms]])
        (use False Some in \<open>simp add: acceptRoomInvite_def calls_eq core_def\<close>)
  qed
qed

lemma ok_declineRoomInvite: "calls_ok s \<Longrightarrow> calls_ok (declineRoomInvite s)"
  by (rule calls_ok_core [OF _ calls_ok_no_invite])
    (simp_all add: declineRoomInvite_def calls_eq core_def)

lemma calls_ok_stream:
  assumes "calls_ok s" "status s \<noteq> Idle" "core s' = core (s\<lparr>localStream := st\<rparr>)"
  shows "calls_ok s'"
proof (rule calls_ok_core [OF assms(3)])
  show "calls_ok (s\<lparr>localStream := st\<rparr>)"
    using assms(1,2) by (simp add: calls_ok_defs)
qed

lemma ok_switchDevice_done:
  assumes "calls_ok s"
  shows "calls_ok (switchDevice_done env ep k ok s)"
proof (cases "callEpoch s = ep \<and> ok \<and> status s \<noteq> Idle")
  case True
  then show ?thesis
    by (intro calls_ok_stream [OF assms]) (auto simp: switchDevice_done_def Let_def core_def)
next
  case False
  have "core (switchDevice_done env ep k ok s) = core s"
  proof (cases "status s = Idle")
    case True
    then have "idle_ok s" using assms by (rule calls_ok_idle [rotated])
    then show ?thesis
      by (simp add: switchDevice_done_def core_def calls_eq idle_ok_def engine_local_def)
  next
    case nidle: False
    then show ?thesis using False by (auto simp: switchDevice_done_def core_def calls_eq)
  qed
  then show ?thesis by (rule calls_ok_core [OF _ assms])
qed

text \<open>
  A join's continuation does one of three things: nothing but leave its own room, store the
  stream, or reset to idle.
\<close>

lemma ok_join_done:
  assumes "calls_ok s"
    and stale: "\<not> room_current e s \<Longrightarrow> core s' = core s"
    and good: "room_current e s \<Longrightarrow> ok \<Longrightarrow> core s' = core s \<or> core s' = core (s\<lparr>localStream := st\<rparr>)"
    and bad: "room_current e s \<Longrightarrow> \<not> ok \<Longrightarrow>
      core s' = core (s\<lparr>status := Idle, roomId := None, room := None, localStream := None\<rparr>)"
  shows "calls_ok s'"
proof (cases "room_current e s")
  case True
  note sfu = calls_ok_sfu [OF assms(1) True]
  show ?thesis
  proof (cases ok)
    case ok: True
    show ?thesis
      using good [OF True ok] calls_ok_core [OF _ assms(1)] calls_ok_stream [OF assms(1) sfu(1)] by blast
  next
    case False
    show ?thesis
      by (rule calls_ok_core [OF bad [OF True False]], rule calls_ok_to_idle [OF assms(1)])
        (simp_all add: sfu)
  qed
next
  case False
  show ?thesis by (rule calls_ok_core [OF stale [OF False] assms(1)])
qed

lemma ok_startGroupCall_done: "calls_ok s \<Longrightarrow> calls_ok (startGroupCall_done env e r v ok s)"
  by (erule ok_join_done [where e = e and ok = ok and st = "ev_localStream (engine env e)"])
    (simp_all add: startGroupCall_done_def calls_eq Let_def room_failed_def room_idle_def core_def)

lemma ok_acceptRoomInvite_done: "calls_ok s \<Longrightarrow> calls_ok (acceptRoomInvite_done env e r ok s)"
  by (erule ok_join_done [where e = e and ok = ok and st = "ev_localStream (engine env e)"])
    (simp_all add: acceptRoomInvite_done_def calls_eq Let_def room_failed_def room_idle_def core_def)

lemma ok_joinPrivateRoom_done: "calls_ok s \<Longrightarrow> calls_ok (joinPrivateRoom_done env e r v ok err s)"
  by (erule ok_join_done [where e = e and ok = ok and st = "ev_localStream (engine env e)"])
    (simp_all add: joinPrivateRoom_done_def calls_eq Let_def room_failed_def room_idle_def core_def)

section \<open>Frames keep the invariant\<close>

lemma ok_on_call_invite: "calls_ok s \<Longrightarrow> c \<noteq> [] \<Longrightarrow> calls_ok (on_call_invite env c f v s)"
proof -
  assume ok: "calls_ok s" and ne: "c \<noteq> []"
  show ?thesis
  proof (cases "status s \<noteq> Idle \<or> incoming s \<noteq> None \<or> roomInvite s \<noteq> None")
    case True
    show ?thesis by (rule calls_ok_core [OF _ ok]) (use True in \<open>simp add: on_call_invite_def calls_eq core_def\<close>)
  next
    case False
    then have "calls_ok (s\<lparr>incoming := Some \<lparr>in_callId = c, in_from = f, in_video = v\<rparr>\<rparr>)"
      using ok ne by (simp add: calls_ok_defs)
    then show ?thesis
      by (rule calls_ok_core [rotated]) (use False in \<open>simp add: on_call_invite_def calls_eq core_def\<close>)
  qed
qed

lemma same_id_call: "\<not> names_other c (callId s) \<Longrightarrow> str_truthy c \<Longrightarrow> callId s = c"
  by (auto simp: names_other_def)

lemma same_room: "\<not> names_other r (roomId s) \<Longrightarrow> str_truthy r \<Longrightarrow> roomId s \<noteq> None"
  by (cases r; cases "roomId s") (simp_all add: names_other_def)

lemma calls_ok_in_p2p:
  assumes "calls_ok s" "callId s \<noteq> None"
  shows "status s \<noteq> Idle \<and> mode s = P2p \<and> p2p_ok s"
proof -
  have "phase_ok s" using assms(1) by (simp add: calls_ok_def)
  then show ?thesis using assms(2)
    by (cases "status s = Idle"; cases "mode s") (simp_all add: phase_ok_simps idle_ok_def room_ok_def)
qed

lemma calls_ok_in_room:
  assumes "calls_ok s" "roomId s \<noteq> None"
  shows "status s \<noteq> Idle \<and> mode s = Sfu \<and> room_ok s"
proof -
  have "phase_ok s" using assms(1) by (simp add: calls_ok_def)
  then show ?thesis using assms(2)
    by (cases "status s = Idle"; cases "mode s") (simp_all add: phase_ok_simps idle_ok_def p2p_ok_def)
qed

lemma ok_on_call_accepted:
  assumes "calls_ok s" "str_truthy c"
  shows "calls_ok (on_call_accepted c s)"
proof (cases "names_other c (callId s)")
  case True
  then show ?thesis using assms by (simp add: on_call_accepted_def)
next
  case False
  then have "callId s = c" using assms(2) by (rule same_id_call)
  then have "callId s \<noteq> None" using assms(2) by (cases c) simp_all
  then have "calls_ok (s\<lparr>status := ConnectingCall\<rparr>)"
    using calls_ok_in_p2p [OF assms(1)] assms(1)
    by (simp add: calls_ok_def phase_ok_simps p2p_ok_def)
  then show ?thesis
    by (rule calls_ok_core [rotated]) (use False in \<open>simp add: on_call_accepted_def calls_eq Let_def core_def\<close>)
qed

lemma ok_on_call_declined:
  assumes "calls_ok s" "str_truthy c"
  shows "calls_ok (on_call_declined c s)"
proof (cases "names_other c (callId s)")
  case True
  then show ?thesis using assms by (simp add: on_call_declined_def)
next
  case False
  then have "callId s = c" using assms(2) by (rule same_id_call)
  then have "callId s \<noteq> None" using assms(2) by (cases c) simp_all
  from calls_ok_in_p2p [OF assms(1) this] have p2p: "p2p_ok s" by simp
  show ?thesis
    by (rule calls_ok_to_idle [OF assms(1)]; use False p2p in
        \<open>simp add: on_call_declined_def calls_eq Let_def p2p_idle_def p2p_ok_def\<close>)
qed

lemma ok_on_call_ended:
  assumes "calls_ok s"
  shows "calls_ok (on_call_ended c r s)"
proof (cases "str_truthy c \<and> callId s \<noteq> c \<and> map_option in_callId (incoming s) \<noteq> c")
  case True
  then show ?thesis using assms by (simp add: on_call_ended_def)
next
  case False
  show ?thesis
    by (rule calls_ok_to_idle [OF assms];
        simp only: on_call_ended_def calls_eq Let_def if_not_P [OF False]; simp)
qed

lemma ok_mark_room: "calls_ok s \<Longrightarrow> calls_ok (mark_room g s)"
  by (rule calls_ok_core [OF core_frames(11)])

lemma ok_unmark_room: "calls_ok s \<Longrightarrow> calls_ok (unmark_room g s)"
  by (rule calls_ok_core [OF core_frames(12)])

lemma ok_on_room_invite:
  assumes "calls_ok s" "r \<noteq> []"
  shows "calls_ok (on_room_invite r n f g s)"
proof -
  define s1 where "s1 = mark_room (invite_gid (Some r) g) s"
  have ok: "calls_ok s1" unfolding s1_def by (rule ok_mark_room [OF assms(1)])
  show ?thesis
  proof (cases "status s1 \<noteq> Idle \<or> roomInvite s1 \<noteq> None \<or> incoming s1 \<noteq> None")
    case True
    then show ?thesis using ok by (simp add: on_room_invite_def Let_def flip: s1_def)
  next
    case False
    then have "calls_ok (s1\<lparr>roomInvite := Some \<lparr>ri_roomId = r, ri_groupName = n, ri_from = f\<rparr>\<rparr>)"
      using ok assms(2) by (simp add: calls_ok_defs)
    then show ?thesis
      by (rule calls_ok_core [rotated])
        (use False in \<open>simp add: on_room_invite_def calls_eq Let_def core_def flip: s1_def\<close>)
  qed
qed

lemma ok_on_room_joined:
  assumes "calls_ok s" "distinct (map p_user_id (nvl ps []))"
  shows "calls_ok (on_room_joined env r b ps s)"
proof -
  define s1 where "s1 = mark_room (room_gid r) s"
  have ok: "calls_ok s1" unfolding s1_def by (rule ok_mark_room [OF assms(1)])
  show ?thesis
  proof (cases "in_room r s1")
    case False
    then show ?thesis using ok by (simp add: on_room_joined_def Let_def flip: s1_def)
  next
    case True
    then have "room_ok s1" using ok by (auto simp: in_room_def calls_ok_def phase_ok_iff)
    then have "calls_ok (s1\<lparr>participants := nvl ps [], status := ActiveCall, startedAt := Some t\<rparr>)" for t
      using ok assms(2) True by (simp add: calls_ok_def phase_ok_simps room_ok_def in_room_def)
    then show ?thesis
      by (rule calls_ok_core [rotated])
        (use True in \<open>simp add: on_room_joined_def calls_eq Let_def core_def flip: s1_def\<close>)
  qed
qed

lemma put_participant_ids: "set (map p_user_id (put_participant p ps)) =
    insert (p_user_id p) (set (map p_user_id ps))"
  by (induction p ps rule: put_participant.induct) auto

lemma distinct_put_participant:
  "distinct (map p_user_id ps) \<Longrightarrow> distinct (map p_user_id (put_participant p ps))"
proof (induction p ps rule: put_participant.induct)
  case (2 p q qs)
  then show ?case
    using put_participant_ids [of p qs] by (auto simp: image_iff)
qed simp

lemma ok_participants:
  assumes "calls_ok s" "distinct (map p_user_id ps)" "core s' = core (s\<lparr>participants := ps\<rparr>)"
  shows "calls_ok s'"
  by (rule calls_ok_core [OF assms(3)]) (use assms(1,2) in \<open>simp add: calls_ok_defs\<close>)

lemma calls_ok_distinct: "calls_ok s \<Longrightarrow> distinct (map p_user_id (participants s))"
  by (simp add: calls_ok_def)

lemma ok_on_room_participant:
  assumes "calls_ok s"
  shows "calls_ok (on_room_participant r p s)"
proof (cases "in_room r s")
  case True
  show ?thesis
    by (rule ok_participants [OF assms distinct_put_participant [OF calls_ok_distinct [OF assms]]])
      (use True in \<open>simp add: on_room_participant_def core_def\<close>)
qed (use assms in \<open>simp add: on_room_participant_def\<close>)

lemma ok_on_room_left:
  assumes "calls_ok s"
  shows "calls_ok (on_room_left r u s)"
proof (cases "in_room r s")
  case True
  show ?thesis
    by (rule ok_participants [OF assms distinct_map_filter [OF calls_ok_distinct [OF assms]]])
      (use True in \<open>simp add: on_room_left_def core_def\<close>)
qed (use assms in \<open>simp add: on_room_left_def\<close>)

lemma ok_on_room_closed:
  assumes "calls_ok s"
  shows "calls_ok (on_room_closed r s)"
proof -
  define s1 where "s1 = unmark_room (room_gid r) s"
  have ok: "calls_ok s1" unfolding s1_def by (rule ok_unmark_room [OF assms])
  show ?thesis
  proof (cases "mode s1 \<noteq> Sfu \<or> names_other r (roomId s1)")
    case True
    then show ?thesis using ok by (simp add: on_room_closed_def Let_def flip: s1_def)
  next
    case False
    then have "direct s1 = None" using calls_ok_direct [OF ok] by (cases "direct s1") simp_all
    then show ?thesis
      by (intro calls_ok_to_idle [OF ok]; use False in
          \<open>simp add: on_room_closed_def calls_eq Let_def flip: s1_def\<close>)
  qed
qed

lemma ok_on_join_pending:
  assumes "calls_ok s" "str_truthy r"
  shows "calls_ok (on_join_pending r s)"
proof (cases "\<not> names_other r (roomId s) \<and> status s = ConnectingCall")
  case True
  then have "roomId s \<noteq> None" using assms(2) same_room by blast
  from calls_ok_in_room [OF assms(1) this]
  have "calls_ok (s\<lparr>status := WaitingApproval\<rparr>)"
    using assms(1) by (simp add: calls_ok_def phase_ok_simps room_ok_def)
  then show ?thesis using True by (simp add: on_join_pending_def)
next
  case False
  then show ?thesis using assms(1) by (auto simp: on_join_pending_def)
qed

lemma ok_on_join_approved:
  assumes "calls_ok s"
  shows "calls_ok (on_join_approved r s)"
proof (cases "names_other r (roomId s) \<or> status s \<noteq> WaitingApproval")
  case True
  then show ?thesis using assms by (simp add: on_join_approved_def)
next
  case False
  then have "mode s = Sfu" "room_ok s"
    using assms by (cases "mode s"; simp add: calls_ok_def phase_ok_simps p2p_ok_def)+
  then have "calls_ok (s\<lparr>status := ConnectingCall\<rparr>)"
    using assms False by (simp add: calls_ok_def phase_ok_simps room_ok_def)
  then show ?thesis
    by (rule calls_ok_core [rotated]) (use False in \<open>simp add: on_join_approved_def calls_eq core_def\<close>)
qed

lemma ok_on_join_denied:
  assumes "calls_ok s" "str_truthy r"
  shows "calls_ok (on_join_denied r s)"
proof (cases "names_other r (roomId s)")
  case True
  then show ?thesis using assms by (simp add: on_join_denied_def)
next
  case False
  then have "roomId s \<noteq> None" using assms(2) same_room by blast
  from calls_ok_in_room [OF assms(1) this] have "room_ok s" by simp
  then show ?thesis
    by (intro calls_ok_to_idle [OF assms(1)]; use False in
        \<open>simp add: on_join_denied_def calls_eq Let_def room_ok_def\<close>)
qed

lemma ok_on_room_removed:
  assumes "calls_ok s" "direct s = None"
  shows "calls_ok (on_room_removed s)"
  using assms(2) by (intro calls_ok_to_idle [OF assms(1)]) (simp_all add: on_room_removed_def calls_eq Let_def)

lemma ok_on_room_ended: "calls_ok s \<Longrightarrow> calls_ok (on_room_ended r g s)"
proof -
  assume ok: "calls_ok s"
  have "calls_ok (emit_call StopRingtone s\<lparr>roomInvite := None\<rparr>)"
    by (rule calls_ok_core [OF _ calls_ok_no_invite [OF ok]]) (simp add: emit_call_def core_def)
  then show ?thesis
    using ok by (auto simp: on_room_ended_def Let_def intro!: ok_unmark_room split: option.split)
qed

lemma ok_on_ws_close:
  assumes "calls_ok s"
  shows "calls_ok (on_ws_close env s)"
proof (cases "status s = ActiveCall \<or> status s = Idle \<and> incoming s = None \<and> roomInvite s = None")
  case True
  then show ?thesis
    by (intro calls_ok_core [OF _ assms]) (auto simp: on_ws_close_def calls_eq Let_def core_def)
next
  case False
  then have "status s \<noteq> ActiveCall" "\<not> (status s = Idle \<and> incoming s = None \<and> roomInvite s = None)"
    by blast+
  then show ?thesis
    by (intro calls_ok_to_idle [OF assms]; simp only: on_ws_close_def calls_eq Let_def if_False; simp)
qed

lemma ok_reconnect_timer: "calls_ok s \<Longrightarrow> calls_ok (reconnect_timer_fires env s)"
proof -
  assume ok: "calls_ok s"
  have t: "calls_ok (s\<lparr>p2pReconnectTimer := False\<rparr>)"
    by (rule calls_ok_core [OF _ ok]) (simp add: core_def)
  have "calls_ok (toast_call x (hangup env (s\<lparr>p2pReconnectTimer := False\<rparr>)))" for x
    by (rule calls_ok_core [OF _ ok_hangup [OF t]]) (simp add: toast_call_def core_def)
  then show ?thesis using t ok by (auto simp: reconnect_timer_fires_def Let_def)
qed

lemma ok_on_call_error:
  assumes "calls_ok s"
  shows "calls_ok (on_call_error d s)"
proof (cases "mode s = Sfu \<and> (status s = ConnectingCall \<or> status s = ActiveCall)")
  case True
  then have "room_ok s" using assms by (auto simp: calls_ok_def phase_ok_iff)
  show ?thesis
  proof (cases "er_code d = Some ''room-join''")
    case join: True
    show ?thesis
      by (rule calls_ok_to_idle [OF assms]; use True join \<open>room_ok s\<close> in
          \<open>simp add: on_call_error_def calls_eq Let_def room_ok_def\<close>)
  next
    case False
    then show ?thesis
      using True by (intro calls_ok_core [OF _ assms]) (auto simp: on_call_error_def calls_eq core_def)
  qed
next
  case nroom: False
  show ?thesis
  proof (cases "mode s = P2p \<and> (status s = Outgoing \<or> status s = ConnectingCall) \<and> er_code d = Some ''call''")
    case True
    then have "p2p_ok s" using assms by (auto simp: calls_ok_def phase_ok_iff)
    then show ?thesis
      by (intro calls_ok_to_idle [OF assms]; use True nroom in
          \<open>simp add: on_call_error_def calls_eq Let_def p2p_idle_def p2p_ok_def\<close>)
  next
    case False
    then show ?thesis using nroom assms by (auto simp: on_call_error_def)
  qed
qed

lemma ok_onState:
  assumes "calls_ok s"
  shows "calls_ok (onState env e st s)"
proof (cases "direct_current e s")
  case False
  then show ?thesis using assms by (simp add: onState_def)
next
  case True
  note p2p = calls_ok_p2p [OF assms True]
  show ?thesis
  proof (cases "st = Connected")
    case False
    then show ?thesis
      using True by (intro calls_ok_core [OF _ assms]) (auto simp: onState_def core_def)
  next
    case conn: True
    have "calls_ok (s\<lparr>status := ActiveCall, startedAt := Some (c_now env)\<rparr>)"
      using assms p2p by (simp add: calls_ok_def phase_ok_simps p2p_ok_def)
    then show ?thesis
      by (rule calls_ok_core [rotated]) (use True conn in \<open>simp add: onState_def Let_def core_def\<close>)
  qed
qed

section \<open>Every step\<close>

lemmas calls_ok_handlers = ok_startDmCall ok_startDmCall_done ok_acceptIncoming
  ok_acceptIncoming_done ok_declineIncoming ok_hangup ok_switchDevice_done ok_startGroupCall
  ok_startGroupCall_done ok_acceptRoomInvite ok_acceptRoomInvite_done ok_declineRoomInvite
  ok_joinPrivateRoom ok_joinPrivateRoom_done ok_onState ok_on_call_invite ok_on_call_accepted
  ok_on_call_declined ok_on_call_ended ok_on_room_invite ok_on_room_joined ok_on_room_participant
  ok_on_room_left ok_on_room_closed ok_on_join_pending ok_on_join_approved ok_on_join_denied
  ok_on_room_removed ok_on_room_ended ok_on_ws_close ok_reconnect_timer ok_on_call_error

lemmas core_handlers = core_controls core_hosting core_engine core_frames

lemma core_fields [simp]:
  "core (s\<lparr>call_toast := t\<rparr>) = core s" "core (s\<lparr>minimized := b\<rparr>) = core s"
  "core (s\<lparr>inCallChat := b\<rparr>) = core s" "core (s\<lparr>showParticipants := b\<rparr>) = core s"
  by (simp_all add: core_def)

lemma calls_ok_step:
  assumes "calls_ok s" "frame_ok ev s"
  shows "calls_ok (call_step env ev s)"
  using assms
  by (cases ev; simp add: call_step_def frame_ok_def calls_ok_handlers
      calls_ok_core [OF _ assms(1)] core_handlers)

inductive call_reach :: "calls \<Rightarrow> bool" where
  start: "call_reach init_calls"
| step: "call_reach s \<Longrightarrow> frame_ok ev s \<Longrightarrow> call_reach (call_step env ev s)"

inductive_cases call_reachE: "call_reach s"

lemma call_reach_ok: "call_reach s \<Longrightarrow> calls_ok s"
  by (induction rule: call_reach.induct) (simp_all add: calls_ok_init calls_ok_step)

end
