(* ===== verification/CallLaws.thy ===== *)
theory CallLaws
  imports CallInv
begin

text \<open>
  The properties of the call store: what holds in every reachable state, that leaving a call
  always shuts its engine down, that events of superseded engines are ignored for ever, how
  invitations, dropped sockets and a whole call go.
\<close>

section \<open>Leaving a call\<close>

definition new_effects :: "calls \<Rightarrow> calls \<Rightarrow> call_eff list" where
  "new_effects s s' = drop (length (trace s)) (trace s')"

definition shuts_down :: "calls \<Rightarrow> calls \<Rightarrow> bool" where
  "shuts_down s s' \<longleftrightarrow>
     (\<forall>e. direct s = Some e \<longrightarrow> DirectClose e \<in> set (new_effects s s')) \<and>
     (\<forall>e. room s = Some e \<longrightarrow> (\<exists>b. RoomLeave e b \<in> set (new_effects s s')))"

lemma set_calls_effects [simp]: "set (calls_effects r f) = f ` set_option r"
  by (cases r) simp_all

lemma new_effects_append [simp]: "trace s' = trace s @ es \<Longrightarrow> new_effects s s' = es"
  by (simp add: new_effects_def)

lemma shuts_down_p2p:
  assumes "calls_ok s" "direct s = Some e" "DirectClose e \<in> set (new_effects s s')"
  shows "shuts_down s s'"
  using calls_ok_direct [OF assms(1)] assms(2,3) by (auto simp: p2p_ok_def shuts_down_def)

lemma shuts_down_room:
  assumes "calls_ok s" "room s = Some e" "RoomLeave e b \<in> set (new_effects s s')"
  shows "shuts_down s s'"
  using calls_ok_room [OF assms(1)] assms(2,3) by (auto simp: room_ok_def shuts_down_def)

definition ends_well :: "calls \<Rightarrow> calls \<Rightarrow> bool" where
  "ends_well s s' \<longleftrightarrow> (status s \<noteq> Idle \<longrightarrow> status s' = Idle \<longrightarrow> shuts_down s s')"

lemma ends_well_core: "core s' = core s \<Longrightarrow> ends_well s s'"
  by (simp add: ends_well_def core_def)

lemma ends_well_busy: "status s' \<noteq> Idle \<Longrightarrow> ends_well s s'"
  by (simp add: ends_well_def)

lemma ends_startDmCall: "ends_well s (startDmCall env p v s)"
  by (simp add: ends_well_def startDmCall_def calls_eq Let_def)

lemma ends_startDmCall_done:
  assumes "calls_ok s"
  shows "ends_well s (startDmCall_done env e p c v ok s)"
proof (cases "direct_current e s \<and> (ok \<longrightarrow> callId s = Some c \<and> \<not> c_up env)")
  case True
  then show ?thesis
    by (auto simp: ends_well_def startDmCall_done_def calls_eq Let_def direct_current_def p2p_idle_def
        new_effects_def intro!: shuts_down_p2p [OF assms])
next
  case False
  then show ?thesis
    by (auto simp: ends_well_def startDmCall_done_def calls_eq Let_def)
qed

lemma ends_acceptIncoming: "ends_well s (acceptIncoming env w s)"
  by (auto simp: ends_well_def acceptIncoming_def calls_eq Let_def split: option.split)

lemma ends_acceptIncoming_done:
  assumes "calls_ok s"
  shows "ends_well s (acceptIncoming_done env e c v ok s)"
proof (cases "direct_current e s \<and> (ok \<longrightarrow> callId s = Some c \<and> \<not> c_up env)")
  case True
  then show ?thesis
    by (auto simp: ends_well_def acceptIncoming_done_def calls_eq Let_def direct_current_def p2p_idle_def
        new_effects_def intro!: shuts_down_p2p [OF assms])
next
  case False
  then show ?thesis
    by (auto simp: ends_well_def acceptIncoming_done_def calls_eq Let_def)
qed

lemma ends_declineIncoming: "ends_well s (declineIncoming env s)"
  by (simp add: ends_well_def declineIncoming_def calls_eq Let_def split: option.split)

lemma set_new_effects: "set (new_effects s s') = set es" if "trace s' = trace s @ es"
  using that by simp

lemma shuts_down_hangup:
  assumes "calls_ok s"
  shows "shuts_down s (hangup env s)"
proof (cases "mode s = Sfu \<and> str_truthy (roomId s)")
  case True
  then have "direct s = None" using calls_ok_direct [OF assms] by (cases "direct s") simp_all
  then show ?thesis
    using True by (auto simp: shuts_down_def hangup_def calls_eq Let_def new_effects_def)
next
  case False
  then have r: "room s = None"
    using calls_ok_room [OF assms] by (cases "room s") (simp_all add: room_ok_def)
  have "direct s \<noteq> None \<Longrightarrow> str_truthy (callId s)"
    using calls_ok_direct [OF assms] by (simp add: p2p_ok_def)
  then show ?thesis
    using False r by (auto simp: shuts_down_def hangup_def calls_eq Let_def new_effects_def)
qed

lemma ends_hangup: "calls_ok s \<Longrightarrow> ends_well s (hangup env s)"
  by (simp add: ends_well_def shuts_down_hangup)

lemma ends_same_status: "status s' = status s \<Longrightarrow> ends_well s s'"
  by (simp add: ends_well_def)

lemma ends_room_starts:
  "ends_well s (startGroupCall env g v s)" "ends_well s (joinPrivateRoom env i p v s)"
  "ends_well s (acceptRoomInvite s)" "ends_well s (declineRoomInvite s)"
  by (auto simp: ends_well_def startGroupCall_def joinPrivateRoom_def acceptRoomInvite_def
      declineRoomInvite_def open_room_def room_start_def calls_eq Let_def split: option.split)

lemma ends_join_done:
  assumes "calls_ok s"
    and "\<not> (\<not> ok \<and> room_current e s) \<Longrightarrow> status s' = status s"
    and "\<not> ok \<Longrightarrow> room_current e s \<Longrightarrow> RoomLeave e False \<in> set (new_effects s s')"
  shows "ends_well s s'"
proof (cases "\<not> ok \<and> room_current e s")
  case True
  then show ?thesis
    using assms(3) shuts_down_room [OF assms(1), of e False s']
    by (simp add: ends_well_def room_current_def)
qed (simp add: assms(2) ends_same_status)

lemma ends_startGroupCall_done: "calls_ok s \<Longrightarrow> ends_well s (startGroupCall_done env e r v ok s)"
  by (erule ends_join_done [where e = e and ok = ok])
    (auto simp: startGroupCall_done_def calls_eq Let_def room_failed_def room_idle_def new_effects_def)

lemma ends_acceptRoomInvite_done: "calls_ok s \<Longrightarrow> ends_well s (acceptRoomInvite_done env e r ok s)"
  by (erule ends_join_done [where e = e and ok = ok])
    (auto simp: acceptRoomInvite_done_def calls_eq Let_def room_failed_def room_idle_def new_effects_def)

lemma ends_joinPrivateRoom_done: "calls_ok s \<Longrightarrow> ends_well s (joinPrivateRoom_done env e r v ok err s)"
  by (erule ends_join_done [where e = e and ok = ok])
    (auto simp: joinPrivateRoom_done_def calls_eq Let_def room_failed_def room_idle_def new_effects_def)

lemma ends_on_call_invite: "ends_well s (on_call_invite env c f v s)"
  by (rule ends_same_status) (simp add: on_call_invite_def calls_eq)

lemma ends_on_call_accepted: "ends_well s (on_call_accepted c s)"
  by (simp add: ends_well_def on_call_accepted_def calls_eq Let_def)

lemma ends_on_call_declined:
  assumes "calls_ok s" "str_truthy c"
  shows "ends_well s (on_call_declined c s)"
proof (cases "names_other c (callId s)")
  case True
  then show ?thesis by (simp add: on_call_declined_def ends_same_status)
next
  case False
  then have "callId s = c" using assms(2) by (rule same_id_call)
  then have "callId s \<noteq> None" using assms(2) by (cases c) simp_all
  from calls_ok_in_p2p [OF assms(1) this] have p2p: "p2p_ok s" by simp
  then show ?thesis
    using False by (auto simp: ends_well_def shuts_down_def on_call_declined_def calls_eq Let_def
        p2p_idle_def p2p_ok_def new_effects_def)
qed

lemma shuts_down_both:
  assumes "set (calls_effects (direct s) DirectClose) \<subseteq> set (new_effects s s')"
    and "set (calls_effects (room s) (\<lambda>e. RoomLeave e b)) \<subseteq> set (new_effects s s')"
  shows "shuts_down s s'"
  using assms by (auto simp: shuts_down_def)

lemma ends_on_call_ended: "ends_well s (on_call_ended c r s)"
proof (cases "str_truthy c \<and> callId s \<noteq> c \<and> map_option in_callId (incoming s) \<noteq> c")
  case True
  then show ?thesis by (simp add: on_call_ended_def ends_same_status)
next
  case False
  have "shuts_down s (on_call_ended c r s)"
    by (rule shuts_down_both [where b = True])
      (simp_all only: on_call_ended_def calls_eq Let_def if_not_P [OF False], auto simp: new_effects_def)
  then show ?thesis by (simp add: ends_well_def)
qed

lemma ends_on_room_invite: "ends_well s (on_room_invite r n f g s)"
  by (rule ends_same_status)
    (simp add: on_room_invite_def mark_room_def calls_eq Let_def split: option.split)

lemma ends_on_room_joined: "ends_well s (on_room_joined env r b ps s)"
  by (auto simp: ends_well_def on_room_joined_def mark_room_def calls_eq Let_def split: option.splits)

lemma ends_on_room_members:
  "ends_well s (on_room_participant r p s)" "ends_well s (on_room_left r u s)"
  by (rule ends_same_status, simp add: on_room_participant_def on_room_left_def)+

lemma ends_on_room_closed:
  assumes "calls_ok s"
  shows "ends_well s (on_room_closed r s)"
proof (cases "mode s = Sfu")
  case True
  then have "direct s = None" using calls_ok_direct [OF assms] by (cases "direct s") simp_all
  then show ?thesis
    using True by (auto simp: ends_well_def shuts_down_def on_room_closed_def unmark_room_def calls_eq
        Let_def new_effects_def split: option.splits)
next
  case False
  then show ?thesis
    by (intro ends_same_status) (simp add: on_room_closed_def unmark_room_def Let_def split: option.split)
qed

lemma ends_on_joins:
  "ends_well s (on_join_pending r s)" "ends_well s (on_join_approved r s)"
  by (auto simp: ends_well_def on_join_pending_def on_join_approved_def calls_eq)

lemma ends_on_join_denied:
  assumes "calls_ok s" "str_truthy r"
  shows "ends_well s (on_join_denied r s)"
proof (cases "names_other r (roomId s)")
  case True
  then show ?thesis by (simp add: on_join_denied_def ends_same_status)
next
  case False
  then have "roomId s \<noteq> None" using assms(2) same_room by blast
  from calls_ok_in_room [OF assms(1) this] have "direct s = None" by (simp add: room_ok_def)
  then show ?thesis
    using False by (auto simp: ends_well_def shuts_down_def on_join_denied_def calls_eq Let_def new_effects_def)
qed

lemma ends_on_room_removed:
  assumes "calls_ok s" "direct s = None"
  shows "ends_well s (on_room_removed s)"
  using assms(2) by (auto simp: ends_well_def shuts_down_def on_room_removed_def calls_eq Let_def new_effects_def)

lemma ends_on_room_ended: "ends_well s (on_room_ended r g s)"
  by (rule ends_same_status)
    (simp add: on_room_ended_def unmark_room_def calls_eq Let_def split: option.split)

lemma ends_on_ws_close: "ends_well s (on_ws_close env s)"
proof (cases "status s = ActiveCall \<or> status s = Idle")
  case True
  then show ?thesis by (auto simp: ends_well_def on_ws_close_def calls_eq Let_def)
next
  case False
  then have "status s \<noteq> ActiveCall" "\<not> (status s = Idle \<and> incoming s = None \<and> roomInvite s = None)"
    by blast+
  then have "shuts_down s (on_ws_close env s)"
    by (intro shuts_down_both [where b = False])
      (simp_all only: on_ws_close_def calls_eq Let_def if_False, auto simp: new_effects_def)
  then show ?thesis by (simp add: ends_well_def)
qed

lemma ends_reconnect_timer:
  assumes "calls_ok s"
  shows "ends_well s (reconnect_timer_fires env s)"
proof -
  let ?t = "s\<lparr>p2pReconnectTimer := False\<rparr>"
  have "calls_ok ?t" by (rule calls_ok_core [OF _ assms]) (simp add: core_def)
  from shuts_down_hangup [OF this, of env] have "shuts_down s (toast_call x (hangup env ?t))" for x
    by (simp add: shuts_down_def new_effects_def toast_call_def)
  then show ?thesis by (simp add: ends_well_def reconnect_timer_fires_def Let_def)
qed

lemma ends_on_call_error:
  assumes "calls_ok s"
  shows "ends_well s (on_call_error d s)"
proof (cases "mode s")
  case P2p
  then have "room s = None" using calls_ok_room [OF assms] by (cases "room s") simp_all
  then show ?thesis
    using P2p by (auto simp: ends_well_def shuts_down_def on_call_error_def calls_eq Let_def
        p2p_idle_def new_effects_def)
next
  case Sfu
  then have "direct s = None" using calls_ok_direct [OF assms] by (cases "direct s") simp_all
  then show ?thesis
    using Sfu by (auto simp: ends_well_def shuts_down_def on_call_error_def calls_eq Let_def new_effects_def)
qed

lemma ends_onState: "ends_well s (onState env e st s)"
  by (auto simp: ends_well_def onState_def Let_def)

lemma ends_switchDevice_done: "ends_well s (switchDevice_done env ep k ok s)"
  by (rule ends_same_status) (simp add: switchDevice_done_def Let_def calls_eq)

lemmas ends_handlers = ends_startDmCall ends_startDmCall_done ends_acceptIncoming
  ends_acceptIncoming_done ends_declineIncoming ends_hangup ends_room_starts
  ends_startGroupCall_done ends_acceptRoomInvite_done ends_joinPrivateRoom_done
  ends_on_call_invite ends_on_call_accepted ends_on_call_declined ends_on_call_ended
  ends_on_room_invite ends_on_room_joined ends_on_room_members ends_on_room_closed ends_on_joins
  ends_on_join_denied ends_on_room_removed ends_on_room_ended ends_on_ws_close
  ends_reconnect_timer ends_on_call_error ends_onState ends_switchDevice_done

lemma ends_well_step:
  assumes "calls_ok s" "frame_ok ev s"
  shows "ends_well s (call_step env ev s)"
  using assms
  by (cases ev; simp add: call_step_def frame_ok_def ends_handlers ends_well_core core_handlers)

section \<open>Epochs\<close>

lemma epoch_core: "core s' = core s \<Longrightarrow> callEpoch s \<le> callEpoch s'"
  by (simp add: core_def)

lemma epoch_actions:
  "callEpoch s \<le> callEpoch (startDmCall env p v s)"
  "callEpoch s \<le> callEpoch (startDmCall_done env e p c v ok s)"
  "callEpoch s \<le> callEpoch (acceptIncoming env w s)"
  "callEpoch s \<le> callEpoch (acceptIncoming_done env e c v ok s)"
  "callEpoch s \<le> callEpoch (declineIncoming env s)"
  "callEpoch s \<le> callEpoch (hangup env s)"
  "callEpoch s \<le> callEpoch (switchDevice_done env e k ok s)"
  by (simp_all add: startDmCall_def startDmCall_done_def acceptIncoming_def acceptIncoming_done_def
      declineIncoming_def hangup_def switchDevice_done_def calls_eq Let_def p2p_idle_def split: option.split)

lemma epoch_rooms:
  "callEpoch s \<le> callEpoch (startGroupCall env g v s)"
  "callEpoch s \<le> callEpoch (startGroupCall_done env e r v ok s)"
  "callEpoch s \<le> callEpoch (acceptRoomInvite s)"
  "callEpoch s \<le> callEpoch (acceptRoomInvite_done env e r ok s)"
  "callEpoch s \<le> callEpoch (declineRoomInvite s)"
  "callEpoch s \<le> callEpoch (joinPrivateRoom env i pc v s)"
  "callEpoch s \<le> callEpoch (joinPrivateRoom_done env e r v ok err s)"
  by (simp_all add: startGroupCall_def startGroupCall_done_def acceptRoomInvite_def
      acceptRoomInvite_done_def declineRoomInvite_def joinPrivateRoom_def joinPrivateRoom_done_def
      open_room_def room_start_def room_failed_def room_idle_def calls_eq Let_def split: option.split)

lemma epoch_frames:
  "callEpoch s \<le> callEpoch (onState env e st s)"
  "callEpoch s \<le> callEpoch (on_call_invite env c f v s)"
  "callEpoch s \<le> callEpoch (on_call_accepted cid s)"
  "callEpoch s \<le> callEpoch (on_call_declined cid s)"
  "callEpoch s \<le> callEpoch (on_call_ended cid rs s)"
  "callEpoch s \<le> callEpoch (on_room_invite r n f g s)"
  "callEpoch s \<le> callEpoch (on_room_joined env rid b ps s)"
  "callEpoch s \<le> callEpoch (on_room_participant rid pt s)"
  "callEpoch s \<le> callEpoch (on_room_left rid u s)"
  by (simp_all add: onState_def on_call_invite_def on_call_accepted_def on_call_declined_def
      on_call_ended_def on_room_invite_def on_room_joined_def on_room_participant_def
      on_room_left_def mark_room_def p2p_idle_def calls_eq Let_def split: option.split)

lemma epoch_frames2:
  "callEpoch s \<le> callEpoch (on_room_closed rid s)"
  "callEpoch s \<le> callEpoch (on_join_pending rid s)"
  "callEpoch s \<le> callEpoch (on_join_approved rid s)"
  "callEpoch s \<le> callEpoch (on_join_denied rid s)"
  "callEpoch s \<le> callEpoch (on_room_removed s)"
  "callEpoch s \<le> callEpoch (on_room_ended rid gi s)"
  "callEpoch s \<le> callEpoch (on_ws_close env s)"
  "callEpoch s \<le> callEpoch (reconnect_timer_fires env s)"
  "callEpoch s \<le> callEpoch (on_call_error d s)"
  by (simp_all add: on_room_closed_def on_join_pending_def on_join_approved_def on_join_denied_def
      on_room_removed_def on_room_ended_def on_ws_close_def reconnect_timer_fires_def hangup_def
      on_call_error_def unmark_room_def p2p_idle_def calls_eq Let_def split: option.split)

lemma callEpoch_step: "callEpoch s \<le> callEpoch (call_step env ev s)"
  by (cases ev; simp add: call_step_def epoch_actions epoch_rooms epoch_frames epoch_frames2
      epoch_core core_handlers)

definition call_runs :: "(call_env \<times> call_event) list \<Rightarrow> calls \<Rightarrow> calls" where
  "call_runs evs = fold (\<lambda>(env, ev). call_step env ev) evs"

lemma call_runs_simps [simp]:
  "call_runs [] s = s" "call_runs ((env, ev) # evs) s = call_runs evs (call_step env ev s)"
  by (simp_all add: call_runs_def)

lemma callEpoch_runs: "callEpoch s \<le> callEpoch (call_runs evs s)"
proof (induction evs arbitrary: s)
  case (Cons x evs)
  obtain env ev where "x = (env, ev)" by (cases x)
  then show ?case using Cons [of "call_step env ev s"] callEpoch_step [of s env ev] by simp
qed simp

section \<open>Sample data\<close>

definition ex_peer :: user_brief where
  "ex_peer = \<lparr>ub_id = 9, ub_display_name = ''Bo'', ub_username = ''bo'', ub_avatar_file_id = None\<rparr>"

definition ex_view :: engine_view where
  "ex_view = \<lparr>ev_localStream = Some [AudioTrack 0, VideoTrack 1], ev_remoteStream = [AudioTrack 2],
     ev_screenStream = None, ev_remoteTracks = Map.empty\<rparr>"

definition ex_cenv :: call_env where
  "ex_cenv = \<lparr>c_now = 1000, c_up = True, c_replaced = False, c_me = Some 1, c_uuid = ''u'',
     engine = (\<lambda>_. ex_view)\<rparr>"

abbreviation ex_dm :: calls where
  "ex_dm \<equiv> startDmCall ex_cenv ex_peer True init_calls"

lemma ex_cenv_simps [simp]:
  "c_now ex_cenv = 1000" "c_up ex_cenv" "c_me ex_cenv = Some 1" "engine ex_cenv e = ex_view"
  "newCallID ex_cenv = ''p2p-u''"
  by (simp_all add: ex_cenv_def newCallID_def)

lemma init_calls_simps [simp]:
  "status init_calls = Idle" "incoming init_calls = None" "roomInvite init_calls = None"
  "callEpoch init_calls = 0" "trace init_calls = []" "direct init_calls = None"
  "room init_calls = None" "privateRoom init_calls = None"
  by (simp_all add: init_calls_def)

lemma ex_dm_simps [simp]:
  "status ex_dm = Outgoing" "mode ex_dm = P2p" "direct ex_dm = Some 1" "callEpoch ex_dm = 1"
  "callId ex_dm = Some ''p2p-u''" "incoming ex_dm = None" "roomInvite ex_dm = None"
  by (simp_all add: startDmCall_def Let_def emit_call_def)

lemma ex_dm_reach: "call_reach ex_dm"
  using call_reach.step [OF call_reach.start, of "StartDm ex_peer True" ex_cenv]
  by (simp add: frame_ok_def call_step_def)

section \<open>Properties\<close>

text \<open>
  C10. In every state of the call store that is reachable with frames as \<^const>\<open>frame_ok\<close> has them (identifiers present, nobody listed twice,
  no \<open>room:removed\<close> while there is a one to one engine): an idle store names no call, no room, no engine
  and holds no local stream; a one to one call that is not idle has its id and its own engine and
  no room; a room call has its room's id and engine and no direct one; an active call has its
  starting time; at most one invitation is pending and no participant is listed twice.
\<close>

theorem reachable_calls_consistent:
  assumes "call_reach s"
  shows "(status s = Idle \<longrightarrow> callId s = None \<and> roomId s = None \<and> direct s = None \<and>
      room s = None \<and> localStream s = None) \<and>
    (status s \<noteq> Idle \<and> mode s = P2p \<longrightarrow> str_truthy (callId s) \<and> direct s \<noteq> None \<and>
      room s = None \<and> roomId s = None) \<and>
    (status s \<noteq> Idle \<and> mode s = Sfu \<longrightarrow> str_truthy (roomId s) \<and> room s \<noteq> None \<and>
      direct s = None \<and> callId s = None) \<and>
    (status s = ActiveCall \<longrightarrow> startedAt s \<noteq> None) \<and>
    (incoming s = None \<or> roomInvite s = None) \<and> distinct (map p_user_id (participants s))"
  using call_reach_ok [OF assms] by (simp add: calls_ok_defs)

theorem reachable_calls_consistent_witness:
  "direct ex_dm \<noteq> None \<and> room ex_dm = None"
  using reachable_calls_consistent [OF ex_dm_reach] by simp

text \<open>
  C11. Whatever event takes such a store from a call to idle (again with frames as \<^const>\<open>frame_ok\<close> has them; a
  \<open>room:removed\<close> that comes late, during a one to one call, leaves its engine open, as shown below), the engine of that call is
  closed or left in that very step, the store keeps no reference to an engine and no local stream.
\<close>

theorem leaving_shuts_the_engine_down:
  assumes "call_reach s" "frame_ok ev s" "status s \<noteq> Idle" "status (call_step env ev s) = Idle"
  shows "(\<forall>e. direct s = Some e \<longrightarrow> DirectClose e \<in> set (new_effects s (call_step env ev s))) \<and>
    (\<forall>e. room s = Some e \<longrightarrow> (\<exists>b. RoomLeave e b \<in> set (new_effects s (call_step env ev s)))) \<and>
    direct (call_step env ev s) = None \<and> room (call_step env ev s) = None \<and>
    localStream (call_step env ev s) = None"
proof -
  have ok: "calls_ok s" by (rule call_reach_ok [OF assms(1)])
  have "shuts_down s (call_step env ev s)"
    using ends_well_step [OF ok assms(2), of env] assms(3,4) by (simp add: ends_well_def)
  moreover have "idle_ok (call_step env ev s)"
    using calls_ok_step [OF ok assms(2)] assms(4) by (rule calls_ok_idle)
  ultimately show ?thesis by (simp add: shuts_down_def idle_ok_def)
qed

theorem leaving_shuts_the_engine_down_witness:
  "DirectClose 1 \<in> set (new_effects ex_dm (call_step ex_cenv (WsError
     \<lparr>er_code = Some ''call'', er_message = None, er_client_id = None\<rparr>) ex_dm))"
proof -
  let ?ev = "WsError \<lparr>er_code = Some ''call'', er_message = None, er_client_id = None\<rparr>"
  have "status (call_step ex_cenv ?ev ex_dm) = Idle"
    by (simp add: call_step_def on_call_error_def p2p_idle_def)
  then show ?thesis
    using leaving_shuts_the_engine_down [OF ex_dm_reach, of ?ev ex_cenv] by (simp add: frame_ok_def)
qed

text \<open>
  The condition on \<open>room:removed\<close> is needed: one that comes during a one to one call makes the store idle with the engine of
  that call still there and open, and the next call replaces the reference without closing it.
\<close>

lemma stray_removal_leaks_the_engine:
  "status (call_step ex_cenv WsRoomRemoved ex_dm) = Idle \<and> direct (call_step ex_cenv WsRoomRemoved ex_dm) = Some 1 \<and>
   DirectClose 1 \<notin> set (trace (startDmCall ex_cenv ex_peer True (call_step ex_cenv WsRoomRemoved ex_dm))) \<and>
   direct (startDmCall ex_cenv ex_peer True (call_step ex_cenv WsRoomRemoved ex_dm)) \<noteq> Some 1"
  by (simp add: call_step_def on_room_removed_def startDmCall_def calls_eq Let_def init_calls_def)

text \<open>
  C12. An engine that has been superseded never touches the call again: once the epoch has moved
  past it, then after any further events its callbacks leave the store as it is, and an action
  still waiting for it only closes or leaves that engine.
\<close>

theorem superseded_engine_is_ignored:
  assumes "e < callEpoch s"
  shows "(let s' = call_runs evs s in
    onRemoteStream env e s' = s' \<and> onState env e st s' = s' \<and> directSharing e b scr s' = s' \<and>
    directQuality e q s' = s' \<and> onTracks env e s' = s' \<and> roomSharing e b scr s' = s' \<and>
    roomQuality e q s' = s' \<and> onConnectionState e b s' = s' \<and>
    startDmCall_done env e p c v ok s' = emit_call (DirectClose e) s' \<and>
    acceptIncoming_done env e c v ok s' = emit_call (DirectClose e) s' \<and>
    startGroupCall_done env e r v ok s' = emit_call (RoomLeave e False) s' \<and>
    acceptRoomInvite_done env e r ok s' = emit_call (RoomLeave e False) s' \<and>
    joinPrivateRoom_done env e r v ok err s' = emit_call (RoomLeave e False) s')"
proof -
  define s' where "s' = call_runs evs s"
  have "e \<noteq> callEpoch s'"
    using callEpoch_runs [of s evs] assms by (simp add: s'_def)
  then have "\<not> direct_current e s'" "\<not> room_current e s'"
    and "\<And>x. \<not> room_current e (emit_call x s')"
    by (auto simp: direct_current_def room_current_def emit_call_def)
  then show ?thesis
    unfolding s'_def [symmetric] Let_def
    by (simp add: onRemoteStream_def onState_def directSharing_def directQuality_def onTracks_def
        roomSharing_def roomQuality_def onConnectionState_def startDmCall_done_def
        acceptIncoming_done_def startGroupCall_done_def acceptRoomInvite_done_def
        joinPrivateRoom_done_def room_leave_def)
qed

theorem superseded_engine_is_ignored_witness:
  "(let s = call_runs [(ex_cenv, WsClose), (ex_cenv, StartDm ex_peer False)] (hangup ex_cenv ex_dm)
    in onState ex_cenv 1 Connected s = s)"
proof -
  have "1 < callEpoch (hangup ex_cenv ex_dm)" by (simp add: hangup_def calls_eq Let_def)
  from superseded_engine_is_ignored [OF this, unfolded Let_def, THEN conjunct2, THEN conjunct1,
    of ex_cenv Connected "[(ex_cenv, WsClose), (ex_cenv, StartDm ex_peer False)]"]
  show ?thesis unfolding Let_def .
qed

text \<open>
  Whatever the store was doing, once a call invitation has been handled the store is busy for
  the next one: a further call invitation is declined and a group's invitation only marks its
  group; neither replaces the pending one, the running call or its peer. The first one itself is
  kept as pending exactly when nothing was going on.
\<close>

theorem one_invitation_at_a_time:
  assumes "s1 = on_call_invite env cid f v s"
  shows "on_call_invite env2 cid2 f2 v2 s1 =
      send_call env2 ''call:decline'' [(''call_id'', JStr cid2)] s1 \<and>
    on_room_invite r n f2 g s1 = mark_room (invite_gid (Some r) g) s1 \<and>
    incoming s1 = (if status s = Idle \<and> incoming s = None \<and> roomInvite s = None
      then Some \<lparr>in_callId = cid, in_from = f, in_video = v\<rparr> else incoming s) \<and>
    core (s1\<lparr>incoming := incoming s\<rparr>) = core s \<and> peer s1 = peer s"
proof -
  have busy: "status s1 \<noteq> Idle \<or> incoming s1 \<noteq> None \<or> roomInvite s1 \<noteq> None"
    using assms by (simp add: on_call_invite_def calls_eq)
  have "status (mark_room x s1) = status s1" "incoming (mark_room x s1) = incoming s1"
    "roomInvite (mark_room x s1) = roomInvite s1" for x
    by (simp_all add: mark_room_def split: option.split)
  then have "on_room_invite r n f2 g s1 = mark_room (invite_gid (Some r) g) s1"
    using busy by (auto simp: on_room_invite_def Let_def)
  then show ?thesis
    using busy by (simp add: on_call_invite_def [of env2]) (simp add: assms on_call_invite_def calls_eq core_def)
qed

theorem one_invitation_at_a_time_witness:
  "incoming (on_call_invite ex_cenv ''a'' ex_peer True init_calls) =
     Some \<lparr>in_callId = ''a'', in_from = ex_peer, in_video = True\<rparr>"
  using one_invitation_at_a_time [OF refl, where s = init_calls and env = ex_cenv and cid = "''a''"
      and f = ex_peer and v = True] by simp

text \<open>
  A dropped socket does not end an active one to one call: the drop only marks it as
  reconnecting and starts one fifteen second timer. If the socket is back in time the timer is
  cleared and the call claimed back; the timer running out ends the call only when it is still an
  active one to one call and the socket is still down, and then closes its engine.
\<close>

theorem dropped_socket_grace:
  assumes "calls_ok s" "status s = ActiveCall" "mode s = P2p" "direct s = Some e"
    and "\<not> p2pReconnectTimer s" "s' = on_ws_close env s"
  shows "s' = s\<lparr>wsReconnecting := True, p2pReconnectTimer := True,
      trace := trace s @ [StartReconnectTimer 15000]\<rparr> \<and>
    on_ws_close env2 s' = s' \<and>
    on_ws_open env3 s' = s'\<lparr>wsReconnecting := False, p2pReconnectTimer := False,
      trace := trace s' @ ClearReconnectTimer # (if c_up env3
        then [CallFrame (''call:resume'', JObj [(''call_id'', JStr (the (callId s)))])] else [])\<rparr> \<and>
    (if c_up env4 then reconnect_timer_fires env4 s' = s'\<lparr>p2pReconnectTimer := False\<rparr>
     else status (reconnect_timer_fires env4 s') = Idle \<and>
       DirectClose e \<in> set (new_effects s' (reconnect_timer_fires env4 s')) \<and>
       call_toast (reconnect_timer_fires env4 s') = Some ''Call ended: Connection to server lost'')"
proof -
  have c: "str_truthy (callId s)" using calls_ok_direct [OF assms(1)] assms(4) by (simp add: p2p_ok_def)
  have s': "s' = s\<lparr>wsReconnecting := True, p2pReconnectTimer := True,
      trace := trace s @ [StartReconnectTimer 15000]\<rparr>"
    using assms by (simp add: on_ws_close_def calls_eq Let_def)
  moreover have "on_ws_close env2 s' = s'"
    using assms(2,3) by (simp add: s' on_ws_close_def calls_eq Let_def)
  moreover have "on_ws_open env3 s' = s'\<lparr>wsReconnecting := False, p2pReconnectTimer := False,
      trace := trace s' @ ClearReconnectTimer # (if c_up env3
        then [CallFrame (''call:resume'', JObj [(''call_id'', JStr (the (callId s)))])] else [])\<rparr>"
    using assms(2,3) c by (simp add: s' on_ws_open_def calls_eq Let_def)
  moreover have "if c_up env4 then reconnect_timer_fires env4 s' = s'\<lparr>p2pReconnectTimer := False\<rparr>
     else status (reconnect_timer_fires env4 s') = Idle \<and>
       DirectClose e \<in> set (new_effects s' (reconnect_timer_fires env4 s')) \<and>
       call_toast (reconnect_timer_fires env4 s') = Some ''Call ended: Connection to server lost''"
    using assms(2-4) c
    by (simp add: s' reconnect_timer_fires_def hangup_def calls_eq Let_def new_effects_def)
  ultimately show ?thesis by blast
qed

definition ex_active :: calls where
  "ex_active = onState ex_cenv 1 Connected
     (on_call_accepted (Some ''p2p-u'') (startDmCall_done ex_cenv 1 ex_peer ''p2p-u'' True True ex_dm))"

lemma ex_active_simps [simp]:
  "status ex_active = ActiveCall" "mode ex_active = P2p" "direct ex_active = Some 1"
  "\<not> p2pReconnectTimer ex_active" "calls_ok ex_active"
proof -
  have "calls_ok ex_dm" using ex_dm_reach by (rule call_reach_ok)
  then show "calls_ok ex_active"
    unfolding ex_active_def by (intro ok_onState ok_on_call_accepted ok_startDmCall_done) simp_all
qed (simp_all add: ex_active_def onState_def on_call_accepted_def startDmCall_done_def direct_current_def
    calls_eq Let_def names_other_def startDmCall_def init_calls_def)

theorem dropped_socket_grace_witness:
  "(let down = ex_cenv\<lparr>c_up := False\<rparr>; s = on_ws_close down ex_active in
    status s = ActiveCall \<and> status (reconnect_timer_fires down s) = Idle)"
proof -
  let ?down = "ex_cenv\<lparr>c_up := False\<rparr>"
  note drop = dropped_socket_grace [OF ex_active_simps(5,1-4) refl, of ?down ?down ex_cenv ?down]
  have "on_ws_close ?down ex_active = ex_active\<lparr>wsReconnecting := True, p2pReconnectTimer := True,
      trace := trace ex_active @ [StartReconnectTimer 15000]\<rparr>"
    using drop by (rule conjunct1)
  then have "status (on_ws_close ?down ex_active) = ActiveCall" by simp
  moreover have "status (reconnect_timer_fires ?down (on_ws_close ?down ex_active)) = Idle"
    using drop [THEN conjunct2, THEN conjunct2, THEN conjunct2] by simp
  ultimately show ?thesis unfolding Let_def by (rule conjI)
qed

text \<open>
  C13. A call to a user that is answered becomes active: from an idle store with the socket up,
  starting, getting the media, ringing, being accepted and the engine connecting lead through
  the outgoing, ringing, connecting and active states, and what the store does on the way is
  exactly this: build the engine, start it, send one invitation, ring, stop ringing, enable
  renegotiation and make the offer.
\<close>

theorem answered_call_becomes_active:
  assumes "status s = Idle" "c_up env" "e = callEpoch s + 1" "cid = newCallID env"
    and "s1 = startDmCall env p v s" "s2 = startDmCall_done env e p cid v True s1"
    and "s3 = on_call_ringing (Some cid) s2" "s4 = on_call_accepted (Some cid) s3"
    and "s5 = onState env2 e Connected s4"
  shows "status s1 = Outgoing \<and> \<not> ringing s1 \<and> status s3 = Outgoing \<and> ringing s3 \<and>
    status s4 = ConnectingCall \<and> \<not> ringing s4 \<and>
    status s5 = ActiveCall \<and> startedAt s5 = Some (c_now env2) \<and> \<not> mediaReconnecting s5 \<and>
    peer s5 = Some p \<and> callId s5 = Some cid \<and> direct s5 = Some e \<and>
    localStream s5 = ev_localStream (engine env e) \<and> camOn s5 = has_video (localStream s5) \<and>
    new_effects s s5 = [NewDirect e, StartAsCaller e p cid v,
      CallFrame (''call:invite'', JObj [(''callee_id'', JNum (ub_id p)), (''call_id'', JStr cid),
        (''video'', JBool v)]), StartRingtone, StopRingtone, DirectEnableRenegotiation e,
      DirectMakeOffer e]"
proof -
  have s1: "status s1 = Outgoing" "\<not> ringing s1" "direct s1 = Some e" "callEpoch s1 = e"
    "callId s1 = Some cid" "peer s1 = Some p"
    "trace s1 = trace s @ [NewDirect e, StartAsCaller e p cid v]"
    using assms(1-5) by (simp_all add: startDmCall_def emit_call_def Let_def)
  obtain t where s2: "s2 = s1\<lparr>localStream := ev_localStream (engine env e),
      camOn := has_video (ev_localStream (engine env e)), call_toast := t,
      trace := trace s1 @ [CallFrame (''call:invite'', JObj [(''callee_id'', JNum (ub_id p)),
        (''call_id'', JStr cid), (''video'', JBool v)])]\<rparr>"
    using assms(2) s1(3-5) by (simp add: assms(6) startDmCall_done_def direct_current_def calls_eq Let_def)
  have s3: "s3 = s2\<lparr>ringing := True, trace := trace s2 @ [StartRingtone]\<rparr>"
    by (simp add: assms(7) s2 on_call_ringing_def names_other_def s1 emit_call_def)
  have s4: "s4 = s3\<lparr>status := ConnectingCall, ringing := False, call_toast := None,
      trace := trace s3 @ [StopRingtone, DirectEnableRenegotiation e, DirectMakeOffer e]\<rparr>"
    by (simp add: assms(8) s3 s2 on_call_accepted_def names_other_def s1 calls_eq Let_def)
  have cur: "direct_current e s4"
    by (simp add: s4 s3 s2 direct_current_def s1)
  obtain t' where s5: "s5 = s4\<lparr>status := ActiveCall, startedAt := Some (c_now env2),
      call_toast := t', mediaReconnecting := False\<rparr>"
    using cur by (simp add: assms(9) onState_def Let_def)
  show ?thesis
    using s1 by (simp add: s5 s4 s3 s2 new_effects_def)
qed

theorem answered_call_becomes_active_witness:
  "status ex_active = ActiveCall \<and> length (new_effects init_calls
     (onState ex_cenv 1 Connected (on_call_accepted (Some ''p2p-u'') (on_call_ringing (Some ''p2p-u'')
       (startDmCall_done ex_cenv 1 ex_peer ''p2p-u'' True True ex_dm))))) = 7"
  using answered_call_becomes_active [OF _ _ _ _ refl refl refl refl refl,
      of init_calls ex_cenv 1 "''p2p-u''" ex_peer True ex_cenv] by simp

section \<open>Behaviour worth knowing\<close>

text \<open>
  Declining an invitation while an own outgoing call is running (the invitation came first, the
  call was started while it rang) cuts the store off from that call: the call stays outgoing with
  its engine, but no callback of the engine is listened to any more, so it can never become active,
  and when its media is ready it is closed without an invitation being sent.
\<close>

theorem decline_cuts_off_the_own_call:
  assumes "incoming s = Some i" "status s = Outgoing" "direct_current e s" "s' = declineIncoming env s"
  shows "status s' = Outgoing \<and> direct s' = Some e \<and> callId s' = callId s \<and>
    onState env2 e st s' = s' \<and>
    startDmCall_done env2 e p cid v True s' = emit_call (DirectClose e) s'"
proof -
  have s': "callEpoch s' = callEpoch s + 1" "status s' = Outgoing" "direct s' = Some e" "callId s' = callId s"
    using assms by (simp_all add: declineIncoming_def calls_eq Let_def direct_current_def)
  then have "\<not> direct_current e s'" using assms(3) by (simp add: direct_current_def)
  with s' show ?thesis by (simp add: onState_def startDmCall_done_def)
qed

definition ex_both :: calls where
  "ex_both = startDmCall ex_cenv ex_peer True (on_call_invite ex_cenv ''in'' ex_peer True init_calls)"

lemma ex_both_reach: "call_reach ex_both"
proof -
  have "call_reach (call_step ex_cenv (StartDm ex_peer True)
      (call_step ex_cenv (WsCallInvite ''in'' ex_peer True) init_calls))"
    by (intro call_reach.intros) (simp_all add: frame_ok_def)
  then show ?thesis by (simp add: call_step_def ex_both_def)
qed

lemma ex_both_simps:
  "incoming ex_both = Some \<lparr>in_callId = ''in'', in_from = ex_peer, in_video = True\<rparr>"
  "status ex_both = Outgoing" "direct_current 1 ex_both" "callId ex_both = Some ''p2p-u''"
  "direct ex_both = Some 1" "localStream ex_both = None"
  by (simp_all add: ex_both_def startDmCall_def on_call_invite_def calls_eq Let_def
      direct_current_def init_calls_def)

theorem decline_cuts_off_the_own_call_witness:
  "call_reach ex_both \<and> (let s = declineIncoming ex_cenv ex_both in
     status s = Outgoing \<and> onState ex_cenv 1 Connected s = s)"
  using ex_both_reach decline_cuts_off_the_own_call [OF ex_both_simps(1-3) refl, of ex_cenv ex_cenv Connected]
  unfolding Let_def by blast

text \<open>
  The end of an invitation that is still ringing ends the own call as well when one was started
  meanwhile: the store goes idle and closes that call's engine, but the user it was calling is not
  told, no frame is sent.
\<close>

theorem ended_invitation_ends_the_own_call:
  assumes "incoming s = Some i" "in_callId i \<noteq> []" "callId s \<noteq> Some (in_callId i)"
    and "status s \<noteq> Idle" "direct s = Some e" "s' = on_call_ended (Some (in_callId i)) reason s"
  shows "status s' = Idle \<and> callId s' = None \<and> DirectClose e \<in> set (new_effects s s') \<and>
    (\<forall>f. CallFrame f \<notin> set (new_effects s s'))"
proof -
  have c: "\<not> (str_truthy (Some (in_callId i)) \<and> callId s \<noteq> Some (in_callId i) \<and>
      map_option in_callId (incoming s) \<noteq> Some (in_callId i))" using assms(1) by simp
  have "status s' = Idle" "callId s' = None"
    unfolding assms(6) on_call_ended_def if_not_P [OF c] calls_eq Let_def using assms(4) by simp_all
  moreover have "new_effects s s' =
      (if p2pReconnectTimer s then [ClearReconnectTimer] else []) @
      (case localStream s of None \<Rightarrow> [] | Some ts \<Rightarrow> [StopStream ts]) @ [DirectClose e] @
      calls_effects (room s) (\<lambda>e. RoomLeave e True) @ [StopRingtone, FetchHistory]"
    unfolding assms(6) on_call_ended_def if_not_P [OF c] calls_eq Let_def new_effects_def
    using assms(4,5) by simp
  ultimately show ?thesis by (auto split: option.splits)
qed

theorem ended_invitation_ends_the_own_call_witness:
  "call_reach ex_both \<and> status (on_call_ended (Some ''in'') None ex_both) = Idle"
  using ex_both_reach ended_invitation_ends_the_own_call [OF ex_both_simps(1) _ _ _ ex_both_simps(5) refl]
    ex_both_simps by simp

text \<open>
  A private room left behind by a dropped socket stays on record: a room call that is not yet
  active when the socket closes is ended, but its private room is kept, and a group call started
  next carries it along with its own group.
\<close>

theorem private_room_outlives_its_call:
  assumes "status s \<noteq> Idle" "status s \<noteq> ActiveCall" "privateRoom s = Some pr" "s' = on_ws_close env s"
  shows "status s' = Idle \<and> privateRoom s' = Some pr \<and>
    (c_up env2 \<longrightarrow> privateRoom (startGroupCall env2 g v s') = Some pr \<and>
      call_group (startGroupCall env2 g v s') = Some g)"
proof -
  have "status s' = Idle" "privateRoom s' = Some pr"
    unfolding assms(4) on_ws_close_def calls_eq Let_def using assms(1-3) by simp_all
  then show ?thesis
    by (simp add: startGroupCall_def open_room_def room_start_def calls_eq Let_def)
qed

theorem private_room_outlives_its_call_witness:
  "privateRoom (on_ws_close ex_cenv (joinPrivateRoom ex_cenv \<lparr>pr_id = ''r'', pr_name = ''n''\<rparr> None True
     init_calls)) = Some \<lparr>pr_id = ''r'', pr_name = ''n''\<rparr>"
proof -
  let ?s = "joinPrivateRoom ex_cenv \<lparr>pr_id = ''r'', pr_name = ''n''\<rparr> None True init_calls"
  have "status ?s \<noteq> Idle" "status ?s \<noteq> ActiveCall" "privateRoom ?s = Some \<lparr>pr_id = ''r'', pr_name = ''n''\<rparr>"
    by (simp_all add: joinPrivateRoom_def open_room_def room_start_def emit_call_def Let_def)
  from private_room_outlives_its_call [OF this refl, THEN conjunct2, THEN conjunct1]
  show ?thesis .
qed

end
