(* ===== verification/WsClient.thy ===== *)
theory WsClient
  imports JsMap
begin

text \<open>
  The socket client every other part talks through (\<open>lib/ws.ts\<close>): the device's identifier, the
  singleton \<open>WSClient\<close> with its automatic reconnection, and the dispatch of typed frames.
  A socket is named by the order it was made in; what the browser does to it (opening, a
  message, an error, closing) is an event. Handlers are named; calling one is an effect of the
  log, and what the handlers themselves do to the client while \<open>ws:close\<close> is being
  dispatched is an argument of that event, since the client looks at its state afterwards.
\<close>

section \<open>The device's identifier\<close>

text \<open>
  \<open>made\<close> are the identifiers successive calls of \<open>uuid()\<close> would make, \<open>quota\<close> says that
  writing throws although reading works. The result is the identifier and what is kept.
\<close>

definition deviceID_key :: string where
  "deviceID_key = ''vc.deviceId''"

definition deviceID ::
  "bool \<Rightarrow> string \<times> string \<Rightarrow> storage \<times> string option \<Rightarrow> string \<times> storage \<times> string option" where
  "deviceID quota made w =
     (case w of (st, fallback) \<Rightarrow>
       (case getItem st deviceID_key of
          None \<Rightarrow> (nvl fallback (fst made), st, Some (nvl fallback (fst made)))
        | Some stored \<Rightarrow>
            if str_truthy stored then (the stored, st, fallback)
            else (case (if quota then None else setItem st deviceID_key (fst made)) of
                    Some st' \<Rightarrow> (fst made, st', fallback)
                  | None \<Rightarrow> (nvl fallback (snd made), st, Some (nvl fallback (snd made))))))"

section \<open>The client\<close>

datatype ready_state = CONNECTING | OPEN | CLOSING | CLOSED

datatype ws_eff =
    NewSocket nat string
  | CloseSocket nat
  | WsSend string json
  | Handle string nat json
  | StartTimer ms
  | ClearTimer

record ws_client =
  sockets :: "(nat, ready_state) jsmap"
  next_socket :: nat
  muted :: "nat set"
  ws :: "nat option"
  handlers :: "(string, nat list) jsmap"
  backoff :: int
  timer :: bool
  wantConnected :: bool
  replaced :: bool
  log :: "ws_eff list"

definition init_ws :: ws_client where
  "init_ws = \<lparr>sockets = [], next_socket = 0, muted = {}, ws = None, handlers = [], backoff = 1000,
     timer = False, wantConnected = False, replaced = False, log = []\<rparr>"

definition note_ws :: "ws_eff \<Rightarrow> ws_client \<Rightarrow> ws_client" where
  "note_ws e c = c\<lparr>log := log c @ [e]\<rparr>"

text \<open>A socket's \<open>readyState\<close>; every socket the client made is in the table.\<close>

definition readyState :: "ws_client \<Rightarrow> nat \<Rightarrow> ready_state" where
  "readyState c i = nvl (jm_get (sockets c) i) CLOSED"

definition connected_ws :: "ws_client \<Rightarrow> bool" where
  "connected_ws c = (case ws c of None \<Rightarrow> False | Some i \<Rightarrow> readyState c i = OPEN)"

text \<open>\<open>url\<close>: the address made of the page's protocol and host and the device's identifier.\<close>

definition ws_url :: "string \<Rightarrow> string \<Rightarrow> string \<Rightarrow> string" where
  "ws_url protocol host device =
     (if protocol = ''https:'' then ''wss'' else ''ws'') @ ''://'' @ host @ ''/ws?device='' @ device"

definition connect :: "string \<Rightarrow> ws_client \<Rightarrow> ws_client" where
  "connect url c =
     (if ws c \<noteq> None \<and> readyState c (the (ws c)) \<noteq> CLOSED then c
      else
        (let i = next_socket c
         in (note_ws (NewSocket i url)
              (c\<lparr>wantConnected := True, replaced := False, next_socket := i + 1,
                 sockets := jm_set i CONNECTING (sockets c)\<rparr>))\<lparr>ws := Some i\<rparr>))"

text \<open>\<open>WebSocket.close()\<close>: a socket that is not closed yet is closing.\<close>

definition close_socket :: "nat \<Rightarrow> ws_client \<Rightarrow> ws_client" where
  "close_socket i c =
     (note_ws (CloseSocket i) c)
       \<lparr>sockets := (if readyState c i = CLOSED then sockets c else jm_set i CLOSING (sockets c))\<rparr>"

definition disconnect :: "ws_client \<Rightarrow> ws_client" where
  "disconnect c =
     (let c1 = c\<lparr>wantConnected := False\<rparr>;
          c2 = (if timer c1 then note_ws ClearTimer c1 else c1)\<lparr>timer := False\<rparr>
      in case ws c2 of
           None \<Rightarrow> c2
         | Some i \<Rightarrow> (close_socket i (c2\<lparr>muted := insert i (muted c2)\<rparr>))\<lparr>ws := None\<rparr>)"

definition send :: "string \<Rightarrow> json option \<Rightarrow> ws_client \<Rightarrow> ws_client \<times> bool" where
  "send ty d c =
     (if \<not> connected_ws c then (c, False)
      else (note_ws (WsSend ty (case d of None \<Rightarrow> JObj [] | Some j \<Rightarrow> if j = JNull then JObj [] else j)) c, True))"

definition on :: "string \<Rightarrow> nat \<Rightarrow> ws_client \<Rightarrow> ws_client" where
  "on ty h c =
     (let hs = nvl (jm_get (handlers c) ty) []
      in c\<lparr>handlers := jm_set ty (if h \<in> set hs then hs else hs @ [h]) (handlers c)\<rparr>)"

text \<open>The function \<open>on\<close> returns.\<close>

definition off :: "string \<Rightarrow> nat \<Rightarrow> ws_client \<Rightarrow> ws_client" where
  "off ty h c =
     (case jm_get (handlers c) ty of
        None \<Rightarrow> c
      | Some hs \<Rightarrow> c\<lparr>handlers := jm_set ty (filter (\<lambda>x. x \<noteq> h) hs) (handlers c)\<rparr>)"

definition emit_ws :: "string \<Rightarrow> json \<Rightarrow> ws_client \<Rightarrow> ws_client" where
  "emit_ws ty d c = fold (\<lambda>h. note_ws (Handle ty h d)) (nvl (jm_get (handlers c) ty) []) c"

definition scheduleReconnect :: "ws_client \<Rightarrow> ws_client" where
  "scheduleReconnect c =
     (if timer c then c
      else (note_ws (StartTimer (backoff c)) c)
             \<lparr>timer := True, backoff := min (backoff c * 2) 15000\<rparr>)"

definition timer_fires :: "string \<Rightarrow> ws_client \<Rightarrow> ws_client" where
  "timer_fires url c = (if timer c then connect url (c\<lparr>timer := False\<rparr>) else c)"

section \<open>What the browser reports of a socket\<close>

definition onopen :: "nat \<Rightarrow> ws_client \<Rightarrow> ws_client" where
  "onopen i c =
     (let c1 = c\<lparr>sockets := jm_set i OPEN (sockets c)\<rparr>
      in if ws c1 \<noteq> Some i then close_socket i c1
         else emit_ws ''ws:open'' JNull (c1\<lparr>backoff := 1000\<rparr>))"

text \<open>A message that is not JSON, one without a type, or a typed one.\<close>

datatype ws_message = Malformed | Untyped | Typed string json

definition onmessage :: "nat \<Rightarrow> ws_message \<Rightarrow> ws_client \<Rightarrow> ws_client" where
  "onmessage i m c =
     (if ws c \<noteq> Some i then c
      else (case m of
              Typed ty d \<Rightarrow>
                emit_ws ty d
                  (if ty = ''ws:replaced'' then c\<lparr>wantConnected := False, replaced := True\<rparr> else c)
            | _ \<Rightarrow> c))"

text \<open>\<open>react\<close>: what the \<open>ws:close\<close> handlers do to the client.\<close>

definition onclose :: "(ws_client \<Rightarrow> ws_client) \<Rightarrow> nat \<Rightarrow> ws_client \<Rightarrow> ws_client" where
  "onclose react i c =
     (let c1 = c\<lparr>sockets := jm_set i CLOSED (sockets c)\<rparr>
      in if i \<in> muted c1 \<or> ws c1 \<noteq> Some i then c1
         else (let c2 = react (emit_ws ''ws:close'' JNull (c1\<lparr>ws := None\<rparr>))
               in if wantConnected c2 then scheduleReconnect c2 else c2))"

definition onerror :: "nat \<Rightarrow> ws_client \<Rightarrow> ws_client" where
  "onerror i c = close_socket i c"

section \<open>The event system\<close>

datatype (plugins only: size) ws_event =
    Connect string
  | Disconnect
  | Send string "json option"
  | On string nat
  | Off string nat
  | TimerFires string
  | SockOpen nat
  | SockMessage nat ws_message
  | SockClose "ws_event list" nat
  | SockError nat

text \<open>The calls handlers make while \<open>ws:close\<close> is dispatched.\<close>

definition ws_call :: "ws_event \<Rightarrow> ws_client \<Rightarrow> ws_client" where
  "ws_call ev c = (case ev of
       Connect url \<Rightarrow> connect url c
     | Disconnect \<Rightarrow> disconnect c
     | Send ty d \<Rightarrow> fst (send ty d c)
     | On ty h \<Rightarrow> on ty h c
     | Off ty h \<Rightarrow> off ty h c
     | _ \<Rightarrow> c)"

definition ws_step :: "ws_event \<Rightarrow> ws_client \<Rightarrow> ws_client" where
  "ws_step ev c = (case ev of
       TimerFires url \<Rightarrow> timer_fires url c
     | SockOpen i \<Rightarrow> onopen i c
     | SockMessage i m \<Rightarrow> onmessage i m c
     | SockClose react i \<Rightarrow> onclose (fold ws_call react) i c
     | SockError i \<Rightarrow> onerror i c
     | _ \<Rightarrow> ws_call ev c)"

text \<open>
  What a browser does: only a socket that was made and is still connecting opens, and a closed
  one reports nothing more.
\<close>

definition browser_ok :: "ws_event \<Rightarrow> ws_client \<Rightarrow> bool" where
  "browser_ok ev c = (case ev of
      SockOpen i \<Rightarrow> readyState c i = CONNECTING
    | SockMessage i _ \<Rightarrow> readyState c i \<noteq> CLOSED
    | SockClose _ i \<Rightarrow> readyState c i \<noteq> CLOSED
    | SockError i \<Rightarrow> readyState c i \<noteq> CLOSED
    | _ \<Rightarrow> True)"

inductive ws_reach :: "ws_client \<Rightarrow> bool" where
  init: "ws_reach init_ws"
| step: "ws_reach c \<Longrightarrow> browser_ok ev c \<Longrightarrow> ws_reach (ws_step ev c)"

inductive_cases ws_reachE: "ws_reach c"

section \<open>The invariant\<close>

lemma emit_ws_eq: "emit_ws ty d c = c\<lparr>log := log c @ map (\<lambda>h. Handle ty h d) (nvl (jm_get (handlers c) ty) [])\<rparr>"
proof -
  have "fold (\<lambda>h. note_ws (Handle ty h d)) hs c = c\<lparr>log := log c @ map (\<lambda>h. Handle ty h d) hs\<rparr>" for hs c
    by (induction hs arbitrary: c) (simp_all add: note_ws_def)
  then show ?thesis by (simp add: emit_ws_def)
qed

lemma readyState_set: "readyState (c\<lparr>sockets := jm_set i r (sockets c)\<rparr>) j = (if j = i then r else readyState c j)"
  by (simp add: readyState_def jm_get_set)

definition base_ok :: "ws_client \<Rightarrow> bool" where
  "base_ok c \<longleftrightarrow> (\<forall>i. readyState c i \<noteq> CLOSED \<longrightarrow> i < next_socket c) \<and>
     muted c \<subseteq> {..< next_socket c} \<and>
     (\<forall>i. ws c = Some i \<longrightarrow> readyState c i \<noteq> CLOSED \<and> i \<notin> muted c) \<and>
     backoff c \<in> {1000, 2000, 4000, 8000, 15000}"

definition alive :: "ws_client \<Rightarrow> bool" where
  "alive c \<longleftrightarrow> (wantConnected c \<longrightarrow> ws c \<noteq> None \<or> timer c)"

lemmas ws_defs = base_ok_def alive_def readyState_def jm_get_set note_ws_def emit_ws_eq Let_def

lemma base_init: "base_ok init_ws" "alive init_ws"
  by (simp_all add: ws_defs init_ws_def jm_get_def)

lemma base_connect: "base_ok c \<Longrightarrow> base_ok (connect url c)"
  by (auto simp: connect_def ws_defs less_Suc_eq)

lemma alive_connect: "base_ok c \<Longrightarrow> alive (connect url c)"
  by (auto simp: connect_def ws_defs)

lemma base_disconnect: "base_ok c \<Longrightarrow> base_ok (disconnect c)"
  by (auto simp: disconnect_def close_socket_def ws_defs split: option.split)

lemma alive_disconnect: "alive (disconnect c)"
  by (simp add: disconnect_def close_socket_def ws_defs split: option.split)

lemma base_send: "base_ok c \<Longrightarrow> base_ok (fst (send ty d c))" "alive c \<Longrightarrow> alive (fst (send ty d c))"
  by (simp_all add: send_def ws_defs)

lemma base_on: "base_ok c \<Longrightarrow> base_ok (on ty h c)" "alive c \<Longrightarrow> alive (on ty h c)"
  by (simp_all add: on_def ws_defs)

lemma base_off: "base_ok c \<Longrightarrow> base_ok (off ty h c)" "alive c \<Longrightarrow> alive (off ty h c)"
  by (simp_all add: off_def ws_defs split: option.split)

lemma base_call: "base_ok c \<Longrightarrow> base_ok (ws_call ev c)"
  by (cases ev) (simp_all add: ws_call_def base_connect base_disconnect base_send base_on base_off)

lemma alive_call: "base_ok c \<Longrightarrow> alive c \<Longrightarrow> alive (ws_call ev c)"
  by (cases ev) (simp_all add: ws_call_def alive_connect alive_disconnect base_send base_on base_off)

lemma base_calls: "base_ok c \<Longrightarrow> base_ok (fold ws_call evs c)"
  by (induction evs arbitrary: c) (simp_all add: base_call)

lemma base_schedule: "base_ok c \<Longrightarrow> base_ok (scheduleReconnect c)"
  by (auto simp: scheduleReconnect_def ws_defs)

lemma alive_schedule: "alive (scheduleReconnect c)"
  by (simp add: scheduleReconnect_def ws_defs)

lemma base_close_socket: "base_ok c \<Longrightarrow> base_ok (close_socket i c)"
  by (auto simp: close_socket_def ws_defs)

lemma alive_close_socket: "alive c \<Longrightarrow> alive (close_socket i c)"
  by (simp add: close_socket_def alive_def note_ws_def)

lemma base_emit: "base_ok c \<Longrightarrow> base_ok (emit_ws ty d c)" "alive c \<Longrightarrow> alive (emit_ws ty d c)"
  by (simp_all add: ws_defs)

lemma base_onopen:
  assumes "base_ok c" "readyState c i = CONNECTING"
  shows "base_ok (onopen i c)"
proof -
  have "base_ok (c\<lparr>sockets := jm_set i OPEN (sockets c)\<rparr>)"
    using assms by (auto simp: ws_defs)
  moreover then have "base_ok (c\<lparr>sockets := jm_set i OPEN (sockets c), backoff := 1000\<rparr>)"
    by (simp add: base_ok_def readyState_def)
  ultimately show ?thesis by (simp add: onopen_def Let_def base_close_socket base_emit)
qed

lemma alive_onopen: "alive c \<Longrightarrow> alive (onopen i c)"
  by (simp add: onopen_def Let_def alive_def close_socket_def note_ws_def emit_ws_eq)

lemma base_onmessage: "base_ok c \<Longrightarrow> base_ok (onmessage i m c)"
  by (simp add: onmessage_def ws_defs split: ws_message.split)

lemma alive_onmessage: "alive c \<Longrightarrow> alive (onmessage i m c)"
  by (simp add: onmessage_def ws_defs split: ws_message.split)

lemma base_onclose:
  assumes "base_ok c"
  shows "base_ok (onclose (fold ws_call evs) i c)"
proof (cases "i \<in> muted c \<or> ws c \<noteq> Some i")
  case True
  then have "base_ok (c\<lparr>sockets := jm_set i CLOSED (sockets c)\<rparr>)"
    using assms by (auto simp: ws_defs)
  then show ?thesis using True by (auto simp: onclose_def Let_def)
next
  case False
  then have "base_ok (c\<lparr>sockets := jm_set i CLOSED (sockets c), ws := None\<rparr>)"
    using assms by (auto simp: ws_defs)
  then show ?thesis
    using False by (simp add: onclose_def Let_def base_schedule base_calls base_emit)
qed

lemma base_onclose_quiet: "base_ok c \<Longrightarrow> base_ok (onclose (\<lambda>x. x) i c)"
  using base_onclose [of c "[]" i] by (simp add: id_def)

lemma alive_onclose: "alive c \<Longrightarrow> alive (onclose react i c)"
proof (cases "i \<in> muted c \<or> ws c \<noteq> Some i")
  case True
  then show "alive c \<Longrightarrow> alive (onclose react i c)" by (auto simp: onclose_def Let_def alive_def)
next
  case False
  then show "alive c \<Longrightarrow> alive (onclose react i c)"
    by (simp add: onclose_def Let_def alive_schedule) (simp add: alive_def)
qed

lemma base_step:
  assumes "base_ok c" "browser_ok ev c"
  shows "base_ok (ws_step ev c)"
proof -
  have "base_ok (c\<lparr>timer := False\<rparr>)" using assms(1) by (simp add: ws_defs)
  then show ?thesis
    using assms by (cases ev) (simp_all add: ws_step_def browser_ok_def base_call base_onopen
        base_onmessage base_onclose onerror_def base_close_socket timer_fires_def base_connect)
qed

lemma alive_step: "base_ok c \<Longrightarrow> alive c \<Longrightarrow> alive (ws_step ev c)"
proof -
  assume c: "base_ok c" "alive c"
  have "base_ok (c\<lparr>timer := False\<rparr>)" using c(1) by (simp add: ws_defs)
  then show ?thesis
    using c by (cases ev) (simp_all add: ws_step_def alive_call alive_onopen alive_onmessage
        alive_onclose onerror_def alive_close_socket timer_fires_def alive_connect)
qed

lemma ws_reach_ok: "ws_reach c \<Longrightarrow> base_ok c \<and> alive c"
  by (induction rule: ws_reach.induct) (simp_all add: base_init base_step alive_step)

section \<open>Properties\<close>

text \<open>
  C17. The client never gives up by itself: in every reachable state in which a connection is
  wanted there is a socket that is not closed or a reconnect timer running, whatever sockets,
  handlers and the user did, and the delay of the next attempt is one of the five steps.
\<close>

theorem wanted_connection_is_pursued:
  assumes "ws_reach c" "wantConnected c"
  shows "((\<exists>i. ws c = Some i \<and> readyState c i \<noteq> CLOSED) \<or> timer c) \<and>
    backoff c \<in> {1000, 2000, 4000, 8000, 15000}"
proof -
  have "base_ok c" "alive c" using ws_reach_ok [OF assms(1)] by auto
  then show ?thesis using assms(2) by (auto simp: base_ok_def alive_def)
qed

lemma ex_ws_reach: "ws_reach (ws_step (SockClose [] 0) (ws_step (Connect ''u'') init_ws))"
  by (intro ws_reach.intros)
    (simp_all add: browser_ok_def ws_step_def ws_call_def connect_def note_ws_def init_ws_def Let_def
      readyState_def jm_get_def)

theorem wanted_connection_is_pursued_witness:
  "timer (ws_step (SockClose [] 0) (ws_step (Connect ''u'') init_ws))"
proof -
  have "wantConnected (ws_step (SockClose [] 0) (ws_step (Connect ''u'') init_ws))"
    "ws (ws_step (SockClose [] 0) (ws_step (Connect ''u'') init_ws)) = None"
    by (simp_all add: ws_step_def ws_call_def connect_def note_ws_def init_ws_def Let_def onclose_def
        emit_ws_eq scheduleReconnect_def)
  then show ?thesis using wanted_connection_is_pursued [OF ex_ws_reach] by simp
qed

text \<open>A reconnect attempt that fails: the timer fires and the new socket closes unopened.\<close>

definition failed_attempt :: "string \<Rightarrow> ws_client \<Rightarrow> ws_client" where
  "failed_attempt url c = (let c1 = timer_fires url c in onclose (\<lambda>x. x) (the (ws c1)) c1)"

definition waiting :: "int \<Rightarrow> ws_client \<Rightarrow> bool" where
  "waiting d c \<longleftrightarrow> base_ok c \<and> timer c \<and> ws c = None \<and> wantConnected c \<and>
     backoff c = min (2 * d) 15000 \<and> (\<exists>l. log c = l @ [StartTimer d])"

lemma waiting_failed:
  assumes "waiting d c"
  shows "waiting (min (2 * d) 15000) (failed_attempt url c)"
proof -
  have c: "base_ok c" "timer c" "ws c = None" "backoff c = min (2 * d) 15000"
    using assms by (simp_all add: waiting_def)
  have "base_ok (c\<lparr>timer := False\<rparr>)" using c(1) by (simp add: ws_defs)
  then have "base_ok (failed_attempt url c)"
    using c(2) by (simp add: failed_attempt_def timer_fires_def Let_def base_onclose_quiet base_connect)
  moreover have "next_socket c \<notin> muted c" using c(1) by (auto simp: base_ok_def)
  ultimately show ?thesis
    using c(2-4) by (simp add: waiting_def failed_attempt_def timer_fires_def connect_def onclose_def
        note_ws_def emit_ws_eq scheduleReconnect_def Let_def)
qed

text \<open>
  The delays between attempts double from one second and stay at fifteen: after the current,
  open connection of a client that wants one is lost, and after every further failed attempt,
  a timer is started, the k-th one with the smaller of \<open>1000 * 2 ^ k\<close> and 15000 milliseconds.
\<close>

theorem reconnect_delays_double:
  assumes "base_ok c" "ws c = Some i" "wantConnected c" "\<not> timer c" "backoff c = 1000"
  shows "\<exists>l. log ((failed_attempt url ^^ k) (onclose (\<lambda>x. x) i c)) =
    l @ [StartTimer (min (1000 * 2 ^ k) 15000)]"
proof -
  have "i \<notin> muted c" using assms(1,2) by (simp add: base_ok_def)
  moreover have "base_ok (onclose (\<lambda>x. x) i c)"
    by (rule base_onclose_quiet [OF assms(1)])
  ultimately have start: "waiting (min (1000 * 2 ^ 0) 15000) (onclose (\<lambda>x. x) i c)"
    using assms(2-5) by (simp add: waiting_def onclose_def note_ws_def emit_ws_eq scheduleReconnect_def Let_def)
  have "waiting (min (1000 * 2 ^ k) 15000) ((failed_attempt url ^^ k) (onclose (\<lambda>x. x) i c))"
  proof (induction k)
    case (Suc k)
    have "min (2 * min (1000 * 2 ^ k) 15000) 15000 = min (1000 * 2 ^ Suc k) (15000 :: int)" by simp
    then show ?case using waiting_failed [OF Suc.IH, of url] by simp
  qed (use start in simp)
  then show ?thesis by (simp add: waiting_def)
qed

theorem reconnect_delays_double_witness:
  "\<exists>l. log ((failed_attempt ''u'' ^^ 5) (onclose (\<lambda>x. x) 0 (connect ''u'' init_ws))) = l @ [StartTimer 15000]"
  using reconnect_delays_double [OF base_connect [OF base_init(1)], where url = "''u''" and k = 5 and i = 0]
  by (simp add: connect_def note_ws_def init_ws_def Let_def)

text \<open>
  A tab that was told it has been replaced stays quiet only if no reconnect timer was left
  running: connecting by hand while one runs does not cancel it, so after the connection made
  by hand is replaced and closed the timer still connects again and forgets the replacement.
\<close>

theorem replaced_tab_reconnects:
  assumes "base_ok c" "ws c = None" "i = next_socket c"
    and "c1 = onclose (\<lambda>x. x) i (onmessage i (Typed ''ws:replaced'' d) (onopen i (connect url c)))"
  shows "ws c1 = None \<and> replaced c1 \<and> \<not> wantConnected c1 \<and> timer c1 = timer c \<and>
    (\<not> timer c \<longrightarrow> timer_fires url c1 = c1) \<and>
    (timer c \<longrightarrow> ws (timer_fires url c1) = Some (i + 1) \<and> wantConnected (timer_fires url c1) \<and>
      \<not> replaced (timer_fires url c1))"
proof -
  have "i \<notin> muted c" using assms(1,3) by (auto simp: base_ok_def)
  then have "ws c1 = None \<and> replaced c1 \<and> \<not> wantConnected c1 \<and> timer c1 = timer c \<and> next_socket c1 = i + 1"
    using assms(2,3) by (simp add: assms(4) connect_def onopen_def onmessage_def onclose_def note_ws_def emit_ws_eq Let_def)
  then show ?thesis
    by (simp add: timer_fires_def connect_def note_ws_def Let_def)
qed

theorem replaced_tab_reconnects_witness:
  "(let c = ws_step (SockClose [] 0) (ws_step (Connect ''u'') init_ws);
        c1 = onclose (\<lambda>x. x) 1 (onmessage 1 (Typed ''ws:replaced'' JNull) (onopen 1 (connect ''u'' c)))
    in ws_reach c \<and> replaced c1 \<and> \<not> replaced (timer_fires ''u'' c1))"
proof -
  let ?c = "ws_step (SockClose [] 0) (ws_step (Connect ''u'') init_ws)"
  have c: "base_ok ?c" using ws_reach_ok [OF ex_ws_reach] by simp
  have "ws ?c = None" "1 = next_socket ?c" "timer ?c"
    by (simp_all add: ws_step_def ws_call_def connect_def note_ws_def init_ws_def Let_def onclose_def
        emit_ws_eq scheduleReconnect_def)
  with replaced_tab_reconnects [OF c this(1,2) refl, of JNull "''u''"] ex_ws_reach
  show ?thesis by (simp add: Let_def)
qed

text \<open>
  A socket that is not the current one can do nothing but be closed: its messages are dropped,
  its closing runs no handler and starts no timer, and if it opens late it is closed again.
\<close>

theorem stale_socket_is_mute:
  assumes "ws c \<noteq> Some i"
  shows "onmessage i m c = c \<and>
    onclose react i c = c\<lparr>sockets := jm_set i CLOSED (sockets c)\<rparr> \<and>
    onopen i c = c\<lparr>sockets := jm_set i CLOSING (jm_set i OPEN (sockets c)), log := log c @ [CloseSocket i]\<rparr>"
  using assms by (simp add: onmessage_def onclose_def onopen_def close_socket_def note_ws_def readyState_def
      jm_get_set Let_def)

theorem stale_socket_is_mute_witness:
  "onmessage 0 (Typed ''call:ended'' JNull) (disconnect (connect ''u'' init_ws)) = disconnect (connect ''u'' init_ws)"
proof -
  have "ws (disconnect (connect ''u'' init_ws)) \<noteq> Some 0"
    by (simp add: disconnect_def connect_def close_socket_def note_ws_def init_ws_def Let_def)
  then show ?thesis using stale_socket_is_mute by blast
qed

text \<open>
  The device's identifier is stable: asking for it again gives the same one, whether storage
  works, is blocked, or can be read but not written.
\<close>

theorem deviceID_is_stable:
  assumes "deviceID quota made w = (i, w')" "fst made \<noteq> []"
  shows "\<exists>w''. deviceID quota made' w' = (i, w'')"
  using assms
  by (cases w) (auto simp: deviceID_def getItem_def setItem_def jm_get_set str_truthy_def
      split: option.splits if_splits prod.splits)

theorem deviceID_is_stable_witness:
  "\<exists>w. deviceID False (''c'', ''d'') (snd (deviceID False (''a'', ''b'') (\<lparr>blocked = False, items = []\<rparr>, None)))
     = (''a'', w)"
  using deviceID_is_stable [of False "(''a'', ''b'')" "(\<lparr>blocked = False, items = []\<rparr>, None)" "''a''"]
  by (simp add: deviceID_def getItem_def setItem_def jm_get_def)

end
