(* ===== verification/DirectCall.thy ===== *)
theory DirectCall
  imports NetMonitor
begin

text \<open>
  The engine of a one to one call (\<open>lib/webrtc/direct.ts\<close>). The browser's peer connection is
  an object the engine calls (effects in \<open>dlog\<close>) and reads (a \<open>pc_view\<close> per event); tracks
  are enabled, disabled and stopped through effects as well. Each \<open>async\<close> method is split at
  its \<open>await\<close>s: the definitions after the first one take what the method captured and the
  outcome of the awaited promise, \<open>None\<close> or \<open>False\<close> for a rejection. A method that throws
  logs \<open>Throws\<close> with the error's text.
\<close>

section \<open>State\<close>

datatype (plugins only: size) dc_eff =
    AcquireLocalMedia nat bool
  | FetchIce nat
  | NewPC nat "string list"
  | StartMonitor nat
  | StopMonitor nat
  | RelayFrame int string json
  | AddTrack nat track nat
  | RemoveTrack nat nat
  | ReplaceTrack nat track
  | CreateOffer nat
  | SetLocal nat
  | Rollback nat
  | SetRemote nat json
  | CreateAnswer nat
  | AddIceCandidate nat json
  | RestartIce nat
  | ClosePC nat
  | StopTracks "track list"
  | EnableTrack track bool
  | GetUserMedia
  | GetDisplayMedia nat
  | SavePreferredDevice bool string
  | ReportRemoteStream
  | ReportState connection
  | ReportSharing bool "stream option"
  | ReportQuality net_quality
  | AdaptSender "nat option" net_quality int
  | Throws string
  | Returns

record direct_call =
  pc :: "nat option"
  d_localStream :: "stream option"
  d_remoteStream :: stream
  d_callId :: string
  peerId :: int
  isCaller :: bool
  camSender :: "nat option"
  screenSender :: "nat option"
  savedCamTrack :: "track option"
  d_screenStream :: "stream option"
  pendingCandidates :: "json list"
  pendingLocalCandidates :: "json list"
  remoteDescSet :: bool
  iceServers :: "string list"
  canOffer :: bool
  makingOffer :: bool
  closed :: bool
  restartingIce :: bool
  lifecycle :: nat
  netStop :: "nat option"
  next_id :: nat
  dlog :: "dc_eff list"

definition new_DirectCall :: direct_call where
  "new_DirectCall = \<lparr>pc = None, d_localStream = None, d_remoteStream = [], d_callId = [],
     peerId = 0, isCaller = False, camSender = None, screenSender = None, savedCamTrack = None,
     d_screenStream = None, pendingCandidates = [], pendingLocalCandidates = [],
     remoteDescSet = False, iceServers = [], canOffer = False, makingOffer = False,
     closed = False, restartingIce = False, lifecycle = 0, netStop = None, next_id = 0, dlog = []\<rparr>"

definition dnote :: "dc_eff \<Rightarrow> direct_call \<Rightarrow> direct_call" where
  "dnote e d = d\<lparr>dlog := dlog d @ [e]\<rparr>"

definition dnotes :: "dc_eff list \<Rightarrow> direct_call \<Rightarrow> direct_call" where
  "dnotes es d = d\<lparr>dlog := dlog d @ es\<rparr>"

definition stop_opt :: "stream option \<Rightarrow> dc_eff list" where
  "stop_opt st = (case st of None \<Rightarrow> [] | Some ts \<Rightarrow> [StopTracks ts])"

text \<open>The peer connection and life a callback or a suspended method captured are still the ones.\<close>

definition live :: "nat \<Rightarrow> nat \<Rightarrow> direct_call \<Rightarrow> bool" where
  "live lc p d \<longleftrightarrow> lc = lifecycle d \<and> pc d = Some p \<and> \<not> closed d"

section \<open>Signaling\<close>

definition relay_data_of :: "string \<Rightarrow> string \<Rightarrow> json \<Rightarrow> json" where
  "relay_data_of kind field d = JObj [(''kind'', JStr kind), (field, d)]"

definition relay_frame :: "json \<Rightarrow> direct_call \<Rightarrow> dc_eff" where
  "relay_frame data d = RelayFrame (peerId d) (d_callId d) data"

definition relay_candidate :: "json \<Rightarrow> direct_call \<Rightarrow> direct_call" where
  "relay_candidate c d =
     (if isCaller d \<and> \<not> canOffer d
      then d\<lparr>pendingLocalCandidates := pendingLocalCandidates d @ [c]\<rparr>
      else dnote (relay_frame (relay_data_of ''candidate'' ''candidate'' c) d) d)"

definition relay_sdp :: "string \<Rightarrow> json \<Rightarrow> direct_call \<Rightarrow> direct_call" where
  "relay_sdp kind sdp d = dnote (relay_frame (relay_data_of kind ''sdp'' sdp) d) d"

definition enableRenegotiation :: "direct_call \<Rightarrow> direct_call" where
  "enableRenegotiation d =
     (dnotes (map (\<lambda>c. relay_frame (relay_data_of ''candidate'' ''candidate'' c) d) (pendingLocalCandidates d))
        (d\<lparr>canOffer := True\<rparr>))\<lparr>pendingLocalCandidates := []\<rparr>"

text \<open>
  \<open>makeOffer\<close>: refused, or started on the current connection. \<open>restart\<close> says that the offer
  is the one of an ICE restart, whose end (also that of a refused one) clears \<open>restartingIce\<close>.
\<close>

definition offer_settled :: "bool \<Rightarrow> direct_call \<Rightarrow> direct_call" where
  "offer_settled restart d = (if restart then d\<lparr>restartingIce := False\<rparr> else d)"

definition makeOffer :: "(nat \<Rightarrow> pc_view) \<Rightarrow> bool \<Rightarrow> direct_call \<Rightarrow> direct_call" where
  "makeOffer v restart d =
     (case pc d of
        None \<Rightarrow> offer_settled restart d
      | Some p \<Rightarrow>
          if \<not> canOffer d \<or> makingOffer d \<or> signalingState (v p) \<noteq> Stable then offer_settled restart d
          else dnote (CreateOffer p) (d\<lparr>makingOffer := True\<rparr>))"

definition offer_created :: "nat \<Rightarrow> bool \<Rightarrow> bool \<Rightarrow> direct_call \<Rightarrow> direct_call" where
  "offer_created p restart ok d =
     (if ok then dnote (SetLocal p) d else offer_settled restart (d\<lparr>makingOffer := False\<rparr>))"

definition offer_set :: "(nat \<Rightarrow> pc_view) \<Rightarrow> nat \<Rightarrow> nat \<Rightarrow> bool \<Rightarrow> bool \<Rightarrow> direct_call \<Rightarrow> direct_call" where
  "offer_set v lc p restart ok d =
     (let d1 = (case localDescription (v p) of
                  Some sdp \<Rightarrow> if ok \<and> live lc p d then relay_sdp ''offer'' sdp d else d
                | None \<Rightarrow> d)
      in offer_settled restart (d1\<lparr>makingOffer := False\<rparr>))"

definition flush_candidates :: "nat \<Rightarrow> direct_call \<Rightarrow> direct_call" where
  "flush_candidates p d =
     (dnotes (map (AddIceCandidate p) (pendingCandidates d)) d)\<lparr>pendingCandidates := []\<rparr>"

text \<open>A relayed payload of the peer, by its \<open>kind\<close>.\<close>

datatype relayed = Offer json | Answer json | Candidate "json option" | OtherKind

definition onRelay :: "(nat \<Rightarrow> pc_view) \<Rightarrow> relayed \<Rightarrow> direct_call \<Rightarrow> direct_call" where
  "onRelay v data d =
     (case pc d of
        None \<Rightarrow> d
      | Some p \<Rightarrow>
          if closed d then d
          else (case data of
              Offer sdp \<Rightarrow> if signalingState (v p) = HaveLocalOffer then dnote (Rollback p) d
                           else dnote (SetRemote p sdp) d
            | Answer sdp \<Rightarrow> if signalingState (v p) = HaveLocalOffer then dnote (SetRemote p sdp) d else d
            | Candidate (Some c) \<Rightarrow>
                if remoteDescSet d \<or> has_remoteDescription (v p) then dnote (AddIceCandidate p c) d
                else d\<lparr>pendingCandidates := pendingCandidates d @ [c]\<rparr>
            | _ \<Rightarrow> d))"

text \<open>The rest of an offer, one definition per \<open>await\<close>; a rejection ends it.\<close>

definition rolled_back :: "nat \<Rightarrow> json \<Rightarrow> bool \<Rightarrow> direct_call \<Rightarrow> direct_call" where
  "rolled_back p sdp ok d = (if ok then dnote (SetRemote p sdp) d else d)"

definition remote_offer_set :: "nat \<Rightarrow> bool \<Rightarrow> direct_call \<Rightarrow> direct_call" where
  "remote_offer_set p ok d = (if ok then dnote (CreateAnswer p) (d\<lparr>remoteDescSet := True\<rparr>) else d)"

definition answer_created :: "nat \<Rightarrow> bool \<Rightarrow> direct_call \<Rightarrow> direct_call" where
  "answer_created p ok d = (if ok then dnote (SetLocal p) d else d)"

definition answer_set :: "(nat \<Rightarrow> pc_view) \<Rightarrow> nat \<Rightarrow> bool \<Rightarrow> direct_call \<Rightarrow> direct_call" where
  "answer_set v p ok d =
     (if ok then flush_candidates p (relay_sdp ''answer'' (nvl (localDescription (v p)) JNull) d) else d)"

definition remote_answer_set :: "nat \<Rightarrow> bool \<Rightarrow> direct_call \<Rightarrow> direct_call" where
  "remote_answer_set p ok d = (if ok then flush_candidates p (d\<lparr>remoteDescSet := True\<rparr>) else d)"

section \<open>Starting\<close>

text \<open>\<open>startAsCaller\<close> and \<open>startAsCallee\<close> differ only in \<open>isCaller\<close>.\<close>

definition start_as :: "bool \<Rightarrow> int \<Rightarrow> string \<Rightarrow> bool \<Rightarrow> direct_call \<Rightarrow> direct_call" where
  "start_as caller peer cid video d =
     dnote (AcquireLocalMedia (lifecycle d + 1) video)
       (d\<lparr>lifecycle := lifecycle d + 1, isCaller := caller, closed := False, peerId := peer,
          d_callId := cid\<rparr>)"

definition start_media :: "nat \<Rightarrow> stream option \<Rightarrow> direct_call \<Rightarrow> direct_call" where
  "start_media lc media d =
     (case media of
        None \<Rightarrow> dnote (Throws ''media'') d
      | Some st \<Rightarrow>
          if lc \<noteq> lifecycle d \<or> closed d then dnotes [StopTracks st, Throws ''call cancelled''] d
          else dnote (FetchIce lc) (d\<lparr>d_localStream := Some st\<rparr>))"

text \<open>
  \<open>setupIce\<close> and the rest of \<open>createPC\<close>; the life the connection's callbacks capture is
  the one current here. \<open>ice\<close>: the servers, \<open>None\<close> when the request failed, in which
  case the old configuration stays.
\<close>

definition createPC :: "string list option option \<Rightarrow> direct_call \<Rightarrow> direct_call" where
  "createPC ice d =
     (let d1 = (case ice of None \<Rightarrow> d | Some srv \<Rightarrow> d\<lparr>iceServers := nvl srv []\<rparr>);
          p = next_id d1;
          stop = (case netStop d1 of None \<Rightarrow> [] | Some m \<Rightarrow> [StopMonitor m])
      in dnotes (NewPC p (iceServers d1) # stop @ [StartMonitor p])
           (d1\<lparr>pc := Some p, next_id := p + 1, netStop := Some p\<rparr>))"

text \<open>\<open>pc.addTrack\<close>: the new sender gets the next name.\<close>

definition add_track :: "nat \<Rightarrow> track \<Rightarrow> direct_call \<Rightarrow> direct_call \<times> nat" where
  "add_track p t d = (dnote (AddTrack p t (next_id d)) (d\<lparr>next_id := next_id d + 1\<rparr>), next_id d)"

definition attachLocal :: "nat \<Rightarrow> bool \<Rightarrow> direct_call \<Rightarrow> direct_call" where
  "attachLocal p video d =
     (let st = nvl (d_localStream d) [];
          d1 = (case first_track (getAudioTracks st) of None \<Rightarrow> d | Some t \<Rightarrow> fst (add_track p t d))
      in (case first_track (getVideoTracks st) of
            Some cam \<Rightarrow>
              if video then (case add_track p cam d1 of (d2, s) \<Rightarrow>
                d2\<lparr>camSender := Some s, savedCamTrack := Some cam\<rparr>)
              else d1
          | None \<Rightarrow> d1))"

definition start_connected :: "nat \<Rightarrow> stream \<Rightarrow> nat \<Rightarrow> bool \<Rightarrow> direct_call \<Rightarrow> direct_call" where
  "start_connected lc st p video d =
     (if lc \<noteq> lifecycle d \<or> closed d
      then dnotes [ClosePC p, StopTracks st, Throws ''call cancelled''] (d\<lparr>d_localStream := None\<rparr>)
      else dnote Returns (attachLocal p video d))"

section \<open>Callbacks of the connection and the monitor\<close>

definition onicecandidate :: "nat \<Rightarrow> nat \<Rightarrow> json option \<Rightarrow> direct_call \<Rightarrow> direct_call" where
  "onicecandidate lc p c d =
     (case c of None \<Rightarrow> d | Some cand \<Rightarrow> if live lc p d then relay_candidate cand d else d)"

definition ontrack :: "nat \<Rightarrow> nat \<Rightarrow> track \<Rightarrow> direct_call \<Rightarrow> direct_call" where
  "ontrack lc p t d =
     (if \<not> live lc p d \<or> t \<in> set (d_remoteStream d) then d
      else dnote ReportRemoteStream (d\<lparr>d_remoteStream := addTrack t (d_remoteStream d)\<rparr>))"

definition track_ended :: "nat \<Rightarrow> nat \<Rightarrow> track \<Rightarrow> direct_call \<Rightarrow> direct_call" where
  "track_ended lc p t d =
     (if \<not> live lc p d \<or> t \<notin> set (d_remoteStream d) then d
      else dnote ReportRemoteStream (d\<lparr>d_remoteStream := removeTrack t (d_remoteStream d)\<rparr>))"

definition onconnectionstatechange ::
  "(nat \<Rightarrow> pc_view) \<Rightarrow> nat \<Rightarrow> nat \<Rightarrow> direct_call \<Rightarrow> direct_call" where
  "onconnectionstatechange v lc p d =
     (if \<not> live lc p d then d
      else
        (let d1 = dnote (ReportState (connectionState (v p))) d
         in if connectionState (v p) = ConnFailed \<and> canOffer d1 \<and> \<not> restartingIce d1
            then makeOffer v True (dnote (RestartIce p) (d1\<lparr>restartingIce := True\<rparr>))
            else d1))"

text \<open>The monitor's report; the two senders adapt to it (\<open>adaptSenderToQuality\<close>).\<close>

definition onQuality :: "net_quality \<Rightarrow> direct_call \<Rightarrow> direct_call" where
  "onQuality q d = dnotes [ReportQuality q, AdaptSender (camSender d) q CAM_MAX_BITRATE,
     AdaptSender (screenSender d) q SCREEN_MAX_BITRATE] d"

section \<open>Controls\<close>

definition setMic :: "bool \<Rightarrow> direct_call \<Rightarrow> direct_call" where
  "setMic on d = dnotes (map (\<lambda>t. EnableTrack t on) (getAudioTracks (nvl (d_localStream d) []))) d"

definition not_active :: string where "not_active = ''call is not active''"

text \<open>\<open>setCam\<close>: switch the tracks, or open the camera (\<open>addCameraTrack\<close>) and renegotiate.\<close>

definition setCam :: "bool \<Rightarrow> direct_call \<Rightarrow> direct_call" where
  "setCam on d =
     (if on \<and> \<not> has_video (d_localStream d)
      then (if pc d = None \<or> d_localStream d = None then dnote (Throws not_active) d
            else dnote GetUserMedia d)
      else dnotes (map (\<lambda>t. EnableTrack t on) (getVideoTracks (nvl (d_localStream d) []))) d)"

text \<open>\<open>add_ok\<close>: \<open>pc.addTrack\<close> does not throw.\<close>

definition camera_opened ::
  "(nat \<Rightarrow> pc_view) \<Rightarrow> bool \<Rightarrow> stream option \<Rightarrow> direct_call \<Rightarrow> direct_call" where
  "camera_opened v add_ok media d =
     (case media of
        None \<Rightarrow> dnote (Throws ''getUserMedia'') d
      | Some temp \<Rightarrow>
         (case (pc d, d_localStream d) of
            (Some p, Some local) \<Rightarrow>
              if closed d then dnotes [StopTracks temp, Throws not_active] d
              else (case first_track (getVideoTracks temp) of
                 None \<Rightarrow> dnotes [StopTracks temp, Throws ''camera unavailable''] d
               | Some t \<Rightarrow>
                   if d_screenStream d \<noteq> None
                   then makeOffer v False
                          (d\<lparr>d_localStream := Some (addTrack t local), savedCamTrack := Some t\<rparr>)
                   else if add_ok
                   then (case add_track p t (d\<lparr>d_localStream := Some (addTrack t local)\<rparr>) of (d1, s) \<Rightarrow>
                          makeOffer v False (d1\<lparr>camSender := Some s, savedCamTrack := Some t\<rparr>))
                   else dnotes [StopTracks [t], Throws ''addTrack'']
                          (d\<lparr>d_localStream := Some (removeTrack t (addTrack t local))\<rparr>))
          | _ \<Rightarrow> dnotes [StopTracks temp, Throws not_active] d))"

section \<open>Screen sharing\<close>

text \<open>The end of \<open>stopScreenShare\<close>, after its \<open>await\<close> where it has one.\<close>

definition stop_finished :: "(nat \<Rightarrow> pc_view) \<Rightarrow> direct_call \<Rightarrow> direct_call" where
  "stop_finished v d = makeOffer v False (dnote (ReportSharing False None) d)"

text \<open>
  With a sender to give the camera back to, the method waits for \<open>replaceTrack\<close> (whose outcome
  it ignores) and goes on with \<open>stop_finished\<close>; otherwise it gets there at once.
\<close>

definition stopScreenShare :: "(nat \<Rightarrow> pc_view) \<Rightarrow> bool \<Rightarrow> direct_call \<Rightarrow> direct_call" where
  "stopScreenShare v add_ok d =
     (let d1 = (dnotes (stop_opt (d_screenStream d)) d)\<lparr>d_screenStream := None\<rparr>
      in case pc d1 of
           None \<Rightarrow> dnote (ReportSharing False None) d1
         | Some p \<Rightarrow>
            (case screenSender d1 of
               Some s \<Rightarrow>
                 (let d2 = (dnote (RemoveTrack p s) d1)\<lparr>screenSender := None\<rparr>
                  in case (savedCamTrack d2, camSender d2) of
                       (Some cam, Some cs) \<Rightarrow> dnote (ReplaceTrack cs cam) d2
                     | (Some cam, None) \<Rightarrow>
                         if d_localStream d2 \<noteq> None \<and> add_ok
                         then (case add_track p cam d2 of (d3, s') \<Rightarrow>
                                stop_finished v (d3\<lparr>camSender := Some s'\<rparr>))
                         else stop_finished v d2
                     | _ \<Rightarrow> stop_finished v d2)
             | None \<Rightarrow>
                 (case (camSender d1, savedCamTrack d1) of
                    (Some cs, Some cam) \<Rightarrow> dnote (ReplaceTrack cs cam) d1
                  | (Some cs, None) \<Rightarrow>
                      stop_finished v ((dnote (RemoveTrack p cs) d1)\<lparr>camSender := None\<rparr>)
                  | _ \<Rightarrow> stop_finished v d1)))"

definition startScreenShare :: "direct_call \<Rightarrow> direct_call" where
  "startScreenShare d =
     (if pc d = None \<or> closed d then dnote (Throws not_active) d
      else if d_screenStream d \<noteq> None then dnote Returns d
      else dnote (GetDisplayMedia (lifecycle d)) d)"

definition screen_published ::
  "(nat \<Rightarrow> pc_view) \<Rightarrow> bool \<Rightarrow> nat \<Rightarrow> nat \<Rightarrow> direct_call \<Rightarrow> direct_call" where
  "screen_published v add_ok lc p d =
     (if \<not> live lc p d then dnote (Throws not_active) (stopScreenShare v add_ok d)
      else makeOffer v False (dnote (ReportSharing True (d_screenStream d)) d))"

definition screen_failed :: "stream \<Rightarrow> string \<Rightarrow> direct_call \<Rightarrow> direct_call" where
  "screen_failed st err d = (dnotes [StopTracks st, Throws err] d)\<lparr>d_screenStream := None\<rparr>"

text \<open>
  (A screen published too late is taken back first; the error follows. The track's \<open>onended\<close>
  callback is \<open>stopScreenShare\<close>.)
  The picked screen takes the camera's sender if there is one (then the method waits), else it
  gets a sender of its own.
\<close>

definition screen_picked ::
  "(nat \<Rightarrow> pc_view) \<Rightarrow> bool \<Rightarrow> nat \<Rightarrow> nat \<Rightarrow> stream option \<Rightarrow> direct_call \<Rightarrow> direct_call" where
  "screen_picked v add_ok lc p media d =
     (case media of
        None \<Rightarrow> dnote (Throws ''getDisplayMedia'') d
      | Some st \<Rightarrow>
          if \<not> live lc p d then dnotes [StopTracks st, Throws not_active] d
          else (let d1 = d\<lparr>d_screenStream := Some st\<rparr> in
            case first_track (getVideoTracks st) of
              None \<Rightarrow> screen_failed st ''screen unavailable'' d1
            | Some t \<Rightarrow>
                (case (camSender d1, savedCamTrack d1) of
                   (Some cs, Some _) \<Rightarrow> dnote (ReplaceTrack cs t) d1
                 | _ \<Rightarrow>
                     if add_ok
                     then (case add_track p t d1 of (d2, s) \<Rightarrow>
                            screen_published v add_ok lc p (d2\<lparr>screenSender := Some s\<rparr>))
                     else screen_failed st ''addTrack'' d1)))"

definition screen_replaced ::
  "(nat \<Rightarrow> pc_view) \<Rightarrow> bool \<Rightarrow> nat \<Rightarrow> nat \<Rightarrow> stream \<Rightarrow> bool \<Rightarrow> direct_call \<Rightarrow> direct_call" where
  "screen_replaced v add_ok lc p st ok d =
     (if ok then screen_published v add_ok lc p d else screen_failed st ''replaceTrack'' d)"

section \<open>Switching devices\<close>

text \<open>\<open>mic\<close>: the microphone rather than the camera; \<open>en\<close>: which tracks are enabled.\<close>

definition switch_device :: "direct_call \<Rightarrow> direct_call" where
  "switch_device d = (if pc d = None \<or> d_localStream d = None then dnote Returns d else dnote GetUserMedia d)"

definition swap_local :: "track option \<Rightarrow> track \<Rightarrow> direct_call \<Rightarrow> direct_call" where
  "swap_local old new d =
     (case d_localStream d of
        None \<Rightarrow> dnote (Throws ''TypeError'') d
      | Some st \<Rightarrow>
         (case old of
            None \<Rightarrow> d\<lparr>d_localStream := Some (addTrack new st)\<rparr>
          | Some t \<Rightarrow> (dnote (StopTracks [t]) d)\<lparr>d_localStream := Some (addTrack new (removeTrack t st))\<rparr>))"

definition mic_replaced :: "string \<Rightarrow> track option \<Rightarrow> track \<Rightarrow> bool \<Rightarrow> direct_call \<Rightarrow> direct_call" where
  "mic_replaced dev old new ok d =
     (if ok then dnote (SavePreferredDevice True dev) (swap_local old new d)
      else dnotes [StopTracks [new], Throws ''replaceTrack''] d)"

definition mic_opened ::
  "(nat \<Rightarrow> pc_view) \<Rightarrow> (track \<Rightarrow> bool) \<Rightarrow> bool \<Rightarrow> string \<Rightarrow> stream option \<Rightarrow> direct_call \<Rightarrow> direct_call" where
  "mic_opened v en add_ok dev media d =
     (case media of
        None \<Rightarrow> dnote (Throws ''getUserMedia'') d
      | Some temp \<Rightarrow>
         (case (pc d, d_localStream d) of
            (Some p, Some local) \<Rightarrow>
              if closed d then dnotes [StopTracks temp, Throws not_active] d
              else (case first_track (getAudioTracks temp) of
                 None \<Rightarrow> dnotes [StopTracks temp, Returns] d
               | Some new \<Rightarrow>
                  (let old = first_track (getAudioTracks local);
                       d1 = dnote (EnableTrack new (case old of None \<Rightarrow> False | Some t \<Rightarrow> en t)) d
                   in case audio_sender (v p) of
                        Some s \<Rightarrow> dnote (ReplaceTrack s new) d1
                      | None \<Rightarrow>
                          if add_ok
                          then makeOffer v False (mic_replaced dev old new True (fst (add_track p new d1)))
                          else dnotes [StopTracks [new], Throws ''addTrack''] d1))
          | _ \<Rightarrow> dnotes [StopTracks temp, Throws not_active] d))"

definition cam_swapped :: "string \<Rightarrow> track option \<Rightarrow> track \<Rightarrow> direct_call \<Rightarrow> direct_call" where
  "cam_swapped dev old new d = dnote (SavePreferredDevice False dev) (swap_local old new d)"

text \<open>
  After \<open>replaceTrack\<close> on the camera's sender. In the branch that adds a sender the source
  waits for \<open>makeOffer\<close> before it swaps the tracks: \<open>cam_swapped\<close> is that continuation.
\<close>

definition cam_replaced :: "string \<Rightarrow> track option \<Rightarrow> track \<Rightarrow> bool \<Rightarrow> direct_call \<Rightarrow> direct_call" where
  "cam_replaced dev old new ok d =
     (if ok then cam_swapped dev old new (d\<lparr>savedCamTrack := Some new\<rparr>)
      else dnotes [StopTracks [new], Throws ''replaceTrack''] d)"

definition cam_opened ::
  "(nat \<Rightarrow> pc_view) \<Rightarrow> (track \<Rightarrow> bool) \<Rightarrow> bool \<Rightarrow> string \<Rightarrow> stream option \<Rightarrow> direct_call \<Rightarrow> direct_call" where
  "cam_opened v en add_ok dev media d =
     (case media of
        None \<Rightarrow> dnote (Throws ''getUserMedia'') d
      | Some temp \<Rightarrow>
         (case (pc d, d_localStream d) of
            (Some p, Some local) \<Rightarrow>
              if closed d then dnotes [StopTracks temp, Throws not_active] d
              else (case first_track (getVideoTracks temp) of
                 None \<Rightarrow> dnotes [StopTracks temp, Returns] d
               | Some new \<Rightarrow>
                  (let old = first_track (getVideoTracks local);
                       d1 = dnote (EnableTrack new (case old of None \<Rightarrow> True | Some t \<Rightarrow> en t)) d
                   in if d_screenStream d1 \<noteq> None
                      then (case (screenSender d1, camSender d1) of
                              (Some _, Some cs) \<Rightarrow> dnote (ReplaceTrack cs new) d1
                            | _ \<Rightarrow> cam_swapped dev old new (d1\<lparr>savedCamTrack := Some new\<rparr>))
                      else (case camSender d1 of
                              Some cs \<Rightarrow> dnote (ReplaceTrack cs new) d1
                            | None \<Rightarrow>
                                if add_ok
                                then (case add_track p new d1 of (d2, s) \<Rightarrow>
                                       makeOffer v False (d2\<lparr>camSender := Some s, savedCamTrack := Some new\<rparr>))
                                else dnotes [StopTracks [new], Throws ''addTrack''] d1)))
          | _ \<Rightarrow> dnotes [StopTracks temp, Throws not_active] d))"

section \<open>Closing\<close>

definition close :: "direct_call \<Rightarrow> direct_call" where
  "close d =
     dnotes ((case netStop d of None \<Rightarrow> [] | Some m \<Rightarrow> [StopMonitor m]) @
            stop_opt (d_screenStream d) @ stop_opt (d_localStream d) @
            (case pc d of None \<Rightarrow> [] | Some p \<Rightarrow> [ClosePC p]) @ [StopTracks (d_remoteStream d)])
       (d\<lparr>lifecycle := lifecycle d + 1, closed := True, canOffer := False, makingOffer := False,
          restartingIce := False, netStop := None, pendingCandidates := [],
          pendingLocalCandidates := [], d_screenStream := None, pc := None, camSender := None,
          screenSender := None, savedCamTrack := None, d_remoteStream := []\<rparr>)"


end
