(* ===== verification/DirectLaws.thy ===== *)
theory DirectLaws
  imports DirectCall
begin

text \<open>
  The properties of the one to one engine: candidates are neither lost nor duplicated nor
  reordered, whatever was captured is released, a closed engine is inert, sharing the screen
  gives the camera back, and some behaviour of the offers and late completions worth knowing.
\<close>

lemmas direct_simps = dnote_def dnotes_def Let_def

lemma offer_settled_simps [simp]:
  "pc (offer_settled r d) = pc d" "closed (offer_settled r d) = closed d"
  "pendingCandidates (offer_settled r d) = pendingCandidates d"
  "pendingLocalCandidates (offer_settled r d) = pendingLocalCandidates d"
  "dlog (offer_settled r d) = dlog d" "lifecycle (offer_settled r d) = lifecycle d"
  "canOffer (offer_settled r d) = canOffer d" "isCaller (offer_settled r d) = isCaller d"
  "camSender (offer_settled r d) = camSender d" "savedCamTrack (offer_settled r d) = savedCamTrack d"
  "screenSender (offer_settled r d) = screenSender d" "d_screenStream (offer_settled r d) = d_screenStream d"
  "d_localStream (offer_settled r d) = d_localStream d"
  by (simp_all add: offer_settled_def)

lemma makeOffer_frame [simp]:
  "pc (makeOffer v r d) = pc d" "closed (makeOffer v r d) = closed d"
  "pendingCandidates (makeOffer v r d) = pendingCandidates d"
  "pendingLocalCandidates (makeOffer v r d) = pendingLocalCandidates d"
  "lifecycle (makeOffer v r d) = lifecycle d" "canOffer (makeOffer v r d) = canOffer d"
  "isCaller (makeOffer v r d) = isCaller d" "camSender (makeOffer v r d) = camSender d"
  "savedCamTrack (makeOffer v r d) = savedCamTrack d" "screenSender (makeOffer v r d) = screenSender d"
  "d_screenStream (makeOffer v r d) = d_screenStream d" "d_localStream (makeOffer v r d) = d_localStream d"
  by (simp_all add: makeOffer_def dnote_def split: option.split)

definition offer_effects :: "(nat \<Rightarrow> pc_view) \<Rightarrow> direct_call \<Rightarrow> dc_eff list" where
  "offer_effects v d = (case pc d of None \<Rightarrow> []
     | Some p \<Rightarrow> if canOffer d \<and> \<not> makingOffer d \<and> signalingState (v p) = Stable then [CreateOffer p] else [])"

lemma makeOffer_log [simp]: "dlog (makeOffer v r d) = dlog d @ offer_effects v d"
  by (simp add: makeOffer_def offer_effects_def dnote_def split: option.split)

section \<open>Remote candidates\<close>

text \<open>The candidates handed to a connection, in order.\<close>

definition added :: "nat \<Rightarrow> dc_eff list \<Rightarrow> json list" where
  "added p es = List.map_filter (\<lambda>e. case e of AddIceCandidate q c \<Rightarrow> if q = p then Some c else None | _ \<Rightarrow> None) es"

lemma added_simps [simp]:
  "added p [] = []" "added p (xs @ ys) = added p xs @ added p ys"
  "added p (AddIceCandidate q c # es) = (if q = p then c # added p es else added p es)"
  "added p (RelayFrame a b j # es) = added p es" "added p (SetRemote q j # es) = added p es"
  "added p (SetLocal q # es) = added p es" "added p (Rollback q # es) = added p es"
  "added p (CreateAnswer q # es) = added p es" "added p (CreateOffer q # es) = added p es"
  "added p (map (AddIceCandidate p) cs) = cs"
  by (simp_all add: added_def List.map_filter_def) (induction cs, simp_all)

text \<open>The steps of the signaling with one connection \<open>p\<close>.\<close>

datatype (plugins only: size) relay_step =
    Relayed "nat \<Rightarrow> pc_view" relayed
  | RolledBack json bool
  | RemoteOfferSet bool
  | AnswerCreated bool
  | AnswerSet "nat \<Rightarrow> pc_view" bool
  | RemoteAnswerSet bool

definition relay_run :: "nat \<Rightarrow> relay_step \<Rightarrow> direct_call \<Rightarrow> direct_call" where
  "relay_run p st d = (case st of
       Relayed v data \<Rightarrow> onRelay v data d
     | RolledBack sdp ok \<Rightarrow> rolled_back p sdp ok d
     | RemoteOfferSet ok \<Rightarrow> remote_offer_set p ok d
     | AnswerCreated ok \<Rightarrow> answer_created p ok d
     | AnswerSet v ok \<Rightarrow> answer_set v p ok d
     | RemoteAnswerSet ok \<Rightarrow> remote_answer_set p ok d)"

definition received :: "relay_step \<Rightarrow> json list" where
  "received st = (case st of Relayed v (Candidate (Some c)) \<Rightarrow> [c] | _ \<Rightarrow> [])"

lemma relay_run_frame: "pc (relay_run p st d) = pc d" "closed (relay_run p st d) = closed d"
  by (simp_all add: relay_run_def onRelay_def rolled_back_def remote_offer_set_def answer_created_def
      answer_set_def remote_answer_set_def flush_candidates_def relay_sdp_def direct_simps
      split: relay_step.split option.split relayed.split)

lemma accounted_run:
  assumes "pc d = Some p \<and> \<not> closed d"
  shows "mset (added p (dlog (relay_run p st d))) + mset (pendingCandidates (relay_run p st d)) =
    mset (added p (dlog d)) + mset (pendingCandidates d) + mset (received st)"
  using assms
  by (simp add: relay_run_def received_def onRelay_def rolled_back_def remote_offer_set_def
      answer_created_def answer_set_def remote_answer_set_def flush_candidates_def relay_sdp_def
      relay_frame_def direct_simps split: relay_step.split option.split relayed.split)

interpretation dq: candidate_queue "relay_run p" received "\<lambda>d. added p (dlog d)" pendingCandidates
  "\<lambda>d. pc d = Some p \<and> \<not> closed d" for p
  by unfold_locales (simp_all add: relay_run_frame accounted_run)

text \<open>
  No candidate of the peer is lost or added twice: whatever order offers, answers, candidates
  and the browser's completions come in, the candidates added to the connection together with
  the ones still held back are exactly the ones received, and once a description has been
  answered or an answer set nothing is held back.
\<close>

theorem remote_candidates_accounted:
  assumes "pc d = Some p" "\<not> closed d" "d' = fold (relay_run p) steps d"
  shows "mset (added p (dlog d')) + mset (pendingCandidates d') =
      mset (added p (dlog d)) + mset (pendingCandidates d) + mset (concat (map received steps)) \<and>
    pendingCandidates (answer_set v p True d') = [] \<and>
    pendingCandidates (remote_answer_set p True d') = []"
proof -
  have "pc d = Some p \<and> \<not> closed d" using assms(1,2) by simp
  from dq.account_runs [OF this, of steps] show ?thesis
    unfolding assms(3) by (simp add: answer_set_def remote_answer_set_def flush_candidates_def dnotes_def)
qed

definition ex_pcv :: "nat \<Rightarrow> pc_view" where
  "ex_pcv = (\<lambda>_. \<lparr>signalingState = Stable, connectionState = Connected, localDescription = Some (JStr ''sdp''),
     has_remoteDescription = False, audio_sender = Some 7\<rparr>)"

definition ex_dc :: direct_call where
  "ex_dc = new_DirectCall\<lparr>pc := Some 0, next_id := 1, canOffer := True\<rparr>"

theorem remote_candidates_accounted_witness:
  "added 0 (dlog (fold (relay_run 0) [Relayed ex_pcv (Candidate (Some (JNum 1))), Relayed ex_pcv (Offer JNull),
     RemoteOfferSet True, Relayed ex_pcv (Candidate (Some (JNum 2))), AnswerCreated True, AnswerSet ex_pcv True]
     ex_dc)) = [JNum 2, JNum 1] \<and>
   mset (added 0 (dlog (fold (relay_run 0) [] ex_dc))) = {#}"
proof -
  have d: "pc ex_dc = Some 0" "\<not> closed ex_dc" by (simp_all add: ex_dc_def new_DirectCall_def)
  have "mset (added 0 (dlog (fold (relay_run 0) [] ex_dc))) + mset (pendingCandidates (fold (relay_run 0) [] ex_dc)) =
      mset (added 0 (dlog ex_dc)) + mset (pendingCandidates ex_dc) + mset (concat (map received []))"
    using remote_candidates_accounted [OF d refl, where steps = "[]"] by blast
  moreover have "pendingCandidates ex_dc = []" "dlog ex_dc = []" by (simp_all add: ex_dc_def new_DirectCall_def)
  ultimately show ?thesis
    by (simp add: relay_run_def onRelay_def remote_offer_set_def answer_created_def answer_set_def
        flush_candidates_def relay_sdp_def relay_frame_def direct_simps ex_dc_def new_DirectCall_def ex_pcv_def)
qed

section \<open>Local candidates\<close>

definition sent_candidates :: "dc_eff list \<Rightarrow> json list" where
  "sent_candidates es = List.map_filter
     (\<lambda>e. case e of RelayFrame _ _ (JObj [(k, JStr kind), (f, c)]) \<Rightarrow>
        if kind = ''candidate'' then Some c else None | _ \<Rightarrow> None) es"

lemma sent_candidates_simps [simp]:
  "sent_candidates [] = []" "sent_candidates (xs @ ys) = sent_candidates xs @ sent_candidates ys"
  "sent_candidates [relay_frame (relay_data_of ''candidate'' f c) d] = [c]"
  "sent_candidates (map (\<lambda>c. relay_frame (relay_data_of ''candidate'' f c) d) cs) = cs"
  by (simp_all add: sent_candidates_def List.map_filter_def relay_frame_def relay_data_of_def comp_def)

text \<open>The browser finds a candidate, or renegotiation is enabled.\<close>

datatype local_step = Gathered json | Enabled

definition local_run :: "nat \<Rightarrow> nat \<Rightarrow> local_step \<Rightarrow> direct_call \<Rightarrow> direct_call" where
  "local_run lc p st d = (case st of
       Gathered c \<Rightarrow> onicecandidate lc p (Some c) d | Enabled \<Rightarrow> enableRenegotiation d)"

definition gathered :: "local_step \<Rightarrow> json list" where
  "gathered st = (case st of Gathered c \<Rightarrow> [c] | Enabled \<Rightarrow> [])"

lemma local_run_step:
  assumes "live lc p d" "canOffer d \<longrightarrow> pendingLocalCandidates d = []"
    and "isCaller d \<or> pendingLocalCandidates d = []"
  shows "live lc p (local_run lc p st d) \<and>
    (canOffer (local_run lc p st d) \<longrightarrow> pendingLocalCandidates (local_run lc p st d) = []) \<and>
    (isCaller (local_run lc p st d) \<or> pendingLocalCandidates (local_run lc p st d) = []) \<and>
    sent_candidates (dlog (local_run lc p st d)) @ pendingLocalCandidates (local_run lc p st d) =
      sent_candidates (dlog d) @ pendingLocalCandidates d @ gathered st"
  using assms
  by (auto simp: local_run_def gathered_def onicecandidate_def enableRenegotiation_def relay_candidate_def
      direct_simps live_def split: local_step.split)

text \<open>
  An engine's own candidates reach the peer once each and in the order they were found: those
  found before the call was accepted wait on the caller's side, and enabling renegotiation sends
  them before any later one.
\<close>

theorem local_candidates_in_order:
  assumes "live lc p d" "canOffer d \<longrightarrow> pendingLocalCandidates d = []"
    and "isCaller d \<or> pendingLocalCandidates d = []" "d' = fold (local_run lc p) steps d"
  shows "sent_candidates (dlog d') @ pendingLocalCandidates d' =
      sent_candidates (dlog d) @ pendingLocalCandidates d @ concat (map gathered steps) \<and>
    sent_candidates (dlog (enableRenegotiation d')) =
      sent_candidates (dlog d) @ pendingLocalCandidates d @ concat (map gathered steps)"
proof -
  have "sent_candidates (dlog (fold (local_run lc p) steps d)) @ pendingLocalCandidates (fold (local_run lc p) steps d) =
      sent_candidates (dlog d) @ pendingLocalCandidates d @ concat (map gathered steps)"
    using assms(1-3)
  proof (induction steps arbitrary: d)
    case (Cons st steps)
    then show ?case using local_run_step [OF Cons.prems, of st] Cons.IH [of "local_run lc p st d"] by simp
  qed simp
  then show ?thesis
    unfolding assms(4) by (simp add: enableRenegotiation_def dnotes_def)
qed

theorem local_candidates_in_order_witness:
  "sent_candidates (dlog (enableRenegotiation (fold (local_run 0 0) [Gathered (JNum 1), Gathered (JNum 2)]
     (ex_dc\<lparr>isCaller := True, canOffer := False\<rparr>)))) = [JNum 1, JNum 2]"
  using local_candidates_in_order [of 0 0 "ex_dc\<lparr>isCaller := True, canOffer := False\<rparr>", OF _ _ _ refl,
      of "[Gathered (JNum 1), Gathered (JNum 2)]"]
  by (simp add: live_def ex_dc_def new_DirectCall_def gathered_def)

section \<open>Release\<close>

definition is_stopped :: "track \<Rightarrow> dc_eff list \<Rightarrow> bool" where
  "is_stopped t es \<longleftrightarrow> (\<exists>ts. StopTracks ts \<in> set es \<and> t \<in> set ts)"

lemma is_stopped_simps [simp]:
  "\<not> is_stopped t []" "is_stopped t (xs @ ys) \<longleftrightarrow> is_stopped t xs \<or> is_stopped t ys"
  "is_stopped t (e # es) \<longleftrightarrow> (\<exists>ts. e = StopTracks ts \<and> t \<in> set ts) \<or> is_stopped t es"
  "is_stopped t (stop_opt st) \<longleftrightarrow> (\<exists>ts. st = Some ts \<and> t \<in> set ts)"
  by (auto simp: is_stopped_def stop_opt_def split: option.split)

lemma close_effects: "dlog (close d) = dlog d @
    (case netStop d of None \<Rightarrow> [] | Some m \<Rightarrow> [StopMonitor m]) @ stop_opt (d_screenStream d) @
    stop_opt (d_localStream d) @ (case pc d of None \<Rightarrow> [] | Some p \<Rightarrow> [ClosePC p]) @
    [StopTracks (d_remoteStream d)]"
  by (simp add: close_def dnotes_def)

text \<open>
  C20. A call closed at any moment of its start captures nothing: wherever the closing falls (before
  the media arrives, while the connection is being built, or after), every track of the stream
  that was acquired is stopped and every connection that was made is closed; closing once more, as
  the store does for a start it gave up, also stops the monitor of a connection built too late.
\<close>

theorem closing_releases_the_start:
  assumes "d0 = start_as caller peer cid video d" "lc = lifecycle d0" "t \<in> set st"
  shows "is_stopped t (dlog (start_media lc (Some st) (close d0))) \<and>
    (let late = createPC ice (close (start_media lc (Some st) d0)); p = next_id d0 in
      pc late = Some p \<and> is_stopped t (dlog (start_connected lc st p video late)) \<and>
      ClosePC p \<in> set (dlog (start_connected lc st p video late)) \<and>
      StopMonitor p \<in> set (dlog (close (start_connected lc st p video late)))) \<and>
    (let built = start_connected lc st (next_id d0) video (createPC ice (start_media lc (Some st) d0)) in
      is_stopped t (dlog (close built)) \<and> ClosePC (next_id d0) \<in> set (dlog (close built)) \<and>
      StopMonitor (next_id d0) \<in> set (dlog (close built)))"
proof -
  have d0: "lifecycle d0 = lc" "\<not> closed d0" using assms(1,2) by (simp_all add: start_as_def dnote_def)
  have "is_stopped t (dlog (start_media lc (Some st) (close d0)))"
    using d0 assms(3) by (simp add: start_media_def close_def direct_simps)
  moreover have "let late = createPC ice (close (start_media lc (Some st) d0)); p = next_id d0 in
      pc late = Some p \<and> is_stopped t (dlog (start_connected lc st p video late)) \<and>
      ClosePC p \<in> set (dlog (start_connected lc st p video late)) \<and>
      StopMonitor p \<in> set (dlog (close (start_connected lc st p video late)))"
    using d0 assms(3)
    by (simp add: start_media_def start_connected_def createPC_def close_def direct_simps split: option.split)
  moreover have "let built = start_connected lc st (next_id d0) video (createPC ice (start_media lc (Some st) d0)) in
      is_stopped t (dlog (close built)) \<and> ClosePC (next_id d0) \<in> set (dlog (close built)) \<and>
      StopMonitor (next_id d0) \<in> set (dlog (close built))"
    using d0 assms(3)
    by (simp add: start_media_def start_connected_def createPC_def attachLocal_def add_track_def
        close_effects direct_simps split: option.split)
  ultimately show ?thesis by blast
qed

theorem closing_releases_the_start_witness:
  "is_stopped (AudioTrack 3) (dlog (start_media 1 (Some [AudioTrack 3])
     (close (start_as True 9 ''c'' False new_DirectCall))))"
proof -
  have "lifecycle (start_as True 9 ''c'' False new_DirectCall) = 1"
    by (simp add: start_as_def dnote_def new_DirectCall_def)
  then show ?thesis
    using closing_releases_the_start [OF refl refl, of "AudioTrack 3" "[AudioTrack 3]" True 9 "''c''" False
        new_DirectCall] by simp
qed

text \<open>
  A closed engine is inert: no callback of any connection it had changes it or sends a frame,
  frames of the peer are ignored, an offer whose browser part ends late is not sent, and screens
  or cameras that are granted late are stopped.
\<close>

theorem closed_engine_is_inert:
  assumes "d' = close d"
  shows "onicecandidate lc p c d' = d' \<and> ontrack lc p t d' = d' \<and> track_ended lc p t d' = d' \<and>
    onconnectionstatechange v lc p d' = d' \<and> onRelay v data d' = d' \<and>
    makeOffer v restart d' = d' \<and> offer_set v lc p restart ok d' = d' \<and>
    screen_picked v add_ok lc p (Some st) d' = dnotes [StopTracks st, Throws not_active] d' \<and>
    camera_opened v add_ok (Some st) d' = dnotes [StopTracks st, Throws not_active] d' \<and>
    mic_opened v en add_ok dev (Some st) d' = dnotes [StopTracks st, Throws not_active] d' \<and>
    cam_opened v en add_ok dev (Some st) d' = dnotes [StopTracks st, Throws not_active] d'"
proof -
  have c: "closed d'" "pc d' = None" "\<not> makingOffer d'" "\<not> restartingIce d'" "\<not> live lc p d'"
    by (simp_all add: assms close_def dnotes_def live_def)
  have "offer_settled restart d' = d'" "offer_set v lc p restart ok d' = d'"
    using c(3-5) by (cases d'; simp add: offer_settled_def offer_set_def Let_def split: option.split)+
  then show ?thesis
    using c by (simp add: onicecandidate_def ontrack_def track_ended_def onconnectionstatechange_def
        onRelay_def makeOffer_def screen_picked_def camera_opened_def mic_opened_def
        cam_opened_def split: option.split)
qed

theorem closed_engine_is_inert_witness:
  "onRelay ex_pcv (Offer JNull) (close ex_dc) = close ex_dc"
  using closed_engine_is_inert [OF refl, of 0 0 None ex_dc "AudioTrack 0" ex_pcv "Offer JNull"] by blast

section \<open>Screen sharing\<close>

text \<open>
  Sharing the screen and stopping gives the camera back: with a camera being sent, the screen
  takes over the camera's sender, and stopping stops the screen's tracks and puts the camera's
  track back on the same sender; senders, saved track and stream are as before. Without a camera
  the screen gets a sender of its own, which stopping removes again.
\<close>

theorem screen_share_round_trip:
  assumes "live lc p d" "d_screenStream d = None" "screenSender d = None"
    and "first_track (getVideoTracks st) = Some scr"
    and "camSender d = None \<longleftrightarrow> savedCamTrack d = None"
    and "d1 = screen_picked v True lc p (Some st) d"
    and "d2 = (if camSender d = None then d1 else screen_replaced v True lc p st True d1)"
    and "d3 = stopScreenShare v True d2"
  shows "d_screenStream d2 = Some st \<and> d_screenStream d3 = None \<and> screenSender d3 = None \<and>
    camSender d3 = camSender d \<and> savedCamTrack d3 = savedCamTrack d \<and>
    d_localStream d3 = d_localStream d \<and>
    (\<forall>t \<in> set st. is_stopped t (dlog d3)) \<and>
    (case camSender d of
       Some cs \<Rightarrow> dlog d3 = dlog d2 @ [StopTracks st, ReplaceTrack cs (the (savedCamTrack d))] \<and>
         ReplaceTrack cs scr \<in> set (dlog d2)
     | None \<Rightarrow> screenSender d2 = Some (next_id d) \<and> AddTrack p scr (next_id d) \<in> set (dlog d2) \<and>
         RemoveTrack p (next_id d) \<in> set (dlog d3))"
proof (cases "camSender d")
  case None
  then have saved: "savedCamTrack d = None" using assms(5) by simp
  have live: "lifecycle d = lc" "pc d = Some p" "\<not> closed d" using assms(1) by (simp_all add: live_def)
  have d2: "pc d2 = Some p" "d_screenStream d2 = Some st" "screenSender d2 = Some (next_id d)"
    "camSender d2 = None" "savedCamTrack d2 = None" "d_localStream d2 = d_localStream d"
    "AddTrack p scr (next_id d) \<in> set (dlog d2)"
    using None saved live assms(4)
    by (simp_all add: assms(6,7) screen_picked_def screen_published_def live_def add_track_def direct_simps)
  have "d3 = stop_finished v ((dnote (RemoveTrack p (next_id d))
      ((dnotes (stop_opt (d_screenStream d2)) d2)\<lparr>d_screenStream := None\<rparr>))\<lparr>screenSender := None\<rparr>)"
    unfolding assms(8) stopScreenShare_def using d2 by (simp add: direct_simps)
  then show ?thesis
    using d2 None saved by (auto simp: stop_finished_def direct_simps stop_opt_def)
next
  case (Some cs)
  then obtain cam where saved: "savedCamTrack d = Some cam" using assms(5) by auto
  have live: "lifecycle d = lc" "pc d = Some p" "\<not> closed d" using assms(1) by (simp_all add: live_def)
  have d1: "d1 = dnote (ReplaceTrack cs scr) (d\<lparr>d_screenStream := Some st\<rparr>)"
    using Some saved assms(1,4) by (simp add: assms(6) screen_picked_def)
  have d2: "pc d2 = Some p" "d_screenStream d2 = Some st" "screenSender d2 = None"
    "camSender d2 = Some cs" "savedCamTrack d2 = Some cam" "d_localStream d2 = d_localStream d"
    "ReplaceTrack cs scr \<in> set (dlog d2)"
    using Some saved live assms(3)
    by (simp_all add: assms(7) d1 screen_replaced_def screen_published_def live_def direct_simps)
  have "d3 = dnote (ReplaceTrack cs cam) ((dnotes (stop_opt (d_screenStream d2)) d2)\<lparr>d_screenStream := None\<rparr>)"
    unfolding assms(8) stopScreenShare_def using d2 by (simp add: direct_simps)
  then show ?thesis
    using d2 Some saved by (auto simp: direct_simps stop_opt_def)
qed

theorem screen_share_round_trip_witness:
  "(let d = ex_dc\<lparr>camSender := Some 5, savedCamTrack := Some (VideoTrack 1)\<rparr>;
        d1 = screen_picked ex_pcv True 0 0 (Some [VideoTrack 8]) d;
        d2 = screen_replaced ex_pcv True 0 0 [VideoTrack 8] True d1
    in camSender (stopScreenShare ex_pcv True d2) = Some 5)"
proof -
  let ?d = "ex_dc\<lparr>camSender := Some 5, savedCamTrack := Some (VideoTrack 1)\<rparr>"
  have "live 0 0 ?d" "d_screenStream ?d = None" "screenSender ?d = None"
    "first_track (getVideoTracks [VideoTrack 8]) = Some (VideoTrack 8)"
    "camSender ?d = None \<longleftrightarrow> savedCamTrack ?d = None"
    by (simp_all add: ex_dc_def new_DirectCall_def live_def getVideoTracks_def first_track_def)
  from screen_share_round_trip [OF this refl refl refl] show ?thesis by (simp add: Let_def)
qed

section \<open>Behaviour worth knowing\<close>

text \<open>
  Asking to share twice before a screen was picked keeps two captures and one reference: both
  requests reach the browser, and when both are granted the first stream is forgotten without
  being stopped, neither stopping the share nor closing the call stops it any more.
\<close>

theorem second_picker_leaks_the_first:
  assumes "live lc p d" "d_screenStream d = None" "camSender d = Some cs" "savedCamTrack d = Some cam"
    and "first_track (getVideoTracks a) = Some t" "t \<notin> set b"
    and "\<not> is_stopped t (dlog d)" "d_localStream d = Some local" "t \<notin> set local" "t \<notin> set (d_remoteStream d)"
    and "d1 = startScreenShare (startScreenShare d)"
    and "d2 = screen_picked v True lc p (Some b) (screen_picked v True lc p (Some a) d1)"
  shows "dlog d1 = dlog d @ [GetDisplayMedia lc, GetDisplayMedia lc] \<and>
    (first_track (getVideoTracks b) \<noteq> None \<longrightarrow> d_screenStream d2 = Some b) \<and>
    \<not> is_stopped t (dlog (close (stopScreenShare v True d2)))"
proof -
  have live: "lifecycle d = lc" "pc d = Some p" "\<not> closed d" using assms(1) by (simp_all add: live_def)
  have d1: "d1 = d\<lparr>dlog := dlog d @ [GetDisplayMedia lc, GetDisplayMedia lc]\<rparr>"
    using live assms(2) by (simp add: assms(11) startScreenShare_def direct_simps)
  let ?d1 = "dnote (ReplaceTrack cs t) (d1\<lparr>d_screenStream := Some a\<rparr>)"
  have a: "screen_picked v True lc p (Some a) d1 = ?d1"
    using live assms(3-5) by (simp add: screen_picked_def d1 live_def)
  have d2: "d2 = (case first_track (getVideoTracks b) of
      None \<Rightarrow> screen_failed b ''screen unavailable'' (?d1\<lparr>d_screenStream := Some b\<rparr>)
    | Some t' \<Rightarrow> dnote (ReplaceTrack cs t') (?d1\<lparr>d_screenStream := Some b\<rparr>))"
    using live assms(3,4) unfolding assms(12) a
    by (simp add: screen_picked_def d1 live_def direct_simps split: option.split)
  have keep: "pc d2 = Some p" "camSender d2 = Some cs" "savedCamTrack d2 = Some cam"
    "d_localStream d2 = Some local" "d_remoteStream d2 = d_remoteStream d" "screenSender d2 = screenSender d"
    "\<not> is_stopped t (dlog d2)" "d_screenStream d2 = None \<or> d_screenStream d2 = Some b"
    using live assms(3,4,6-8)
    by (auto simp: d2 screen_failed_def direct_simps d1 is_stopped_def split: option.split)
  have "\<not> is_stopped t (dlog (close (stopScreenShare v True d2)))"
  proof (cases "screenSender d2")
    case None
    then show ?thesis
      using keep assms(6,9,10) by (auto simp: stopScreenShare_def close_effects direct_simps stop_opt_def
          is_stopped_def split: option.splits)
  next
    case (Some s)
    then show ?thesis
      using keep assms(6,9,10) by (auto simp: stopScreenShare_def close_effects direct_simps stop_opt_def
          is_stopped_def split: option.splits)
  qed
  then show ?thesis using d1 by (auto simp: d2 dnote_def split: option.split)
qed

definition ex_sharing :: direct_call where
  "ex_sharing = ex_dc\<lparr>camSender := Some 5, savedCamTrack := Some (VideoTrack 1),
     d_localStream := Some [AudioTrack 0, VideoTrack 1]\<rparr>"

lemma ex_sharing_simps:
  "live 0 0 ex_sharing" "d_screenStream ex_sharing = None" "camSender ex_sharing = Some 5"
  "savedCamTrack ex_sharing = Some (VideoTrack 1)" "dlog ex_sharing = []"
  "d_localStream ex_sharing = Some [AudioTrack 0, VideoTrack 1]" "d_remoteStream ex_sharing = []"
  by (simp_all add: ex_sharing_def ex_dc_def new_DirectCall_def live_def)

theorem second_picker_leaks_the_first_witness:
  "\<not> is_stopped (VideoTrack 8) (dlog (close (stopScreenShare ex_pcv True
     (screen_picked ex_pcv True 0 0 (Some [VideoTrack 9]) (screen_picked ex_pcv True 0 0 (Some [VideoTrack 8])
       (startScreenShare (startScreenShare ex_sharing)))))))"
proof -
  have "first_track (getVideoTracks [VideoTrack 8]) = Some (VideoTrack 8)"
    by (simp add: getVideoTracks_def first_track_def)
  from second_picker_leaks_the_first [OF ex_sharing_simps(1-4) this _ _ ex_sharing_simps(6) _ _ refl refl,
    of "[VideoTrack 9]"]
  show ?thesis using ex_sharing_simps by simp
qed

text \<open>
  A microphone switched while the call is being closed stays open: when the browser replaces
  the sender's track after the call was closed, the new track joins the stream of the closed
  engine, whose tracks were stopped before, and is not stopped itself.
\<close>

theorem late_switch_keeps_the_microphone:
  assumes "d_localStream d = Some local" "d' = close d" "new \<notin> set local"
    and "\<not> is_stopped new (dlog d')" "old = first_track (getAudioTracks local)"
    and "d2 = mic_replaced dev old new True d'"
  shows "closed d2 \<and> \<not> is_stopped new (dlog d2) \<and> (\<exists>st. d_localStream d2 = Some st \<and> new \<in> set st)"
proof -
  have "d_localStream d' = Some local" "closed d'"
    using assms(1,2) by (simp_all add: close_def dnotes_def)
  moreover have "old \<noteq> Some new" using assms(3,5) first_track_Some [of "getAudioTracks local" new] by auto
  ultimately show ?thesis
    using assms(4) by (auto simp: assms(6) mic_replaced_def swap_local_def direct_simps is_stopped_def
        split: option.split)
qed

theorem late_switch_keeps_the_microphone_witness:
  "\<not> is_stopped (AudioTrack 4) (dlog (mic_replaced ''m'' (Some (AudioTrack 0)) (AudioTrack 4) True (close ex_sharing)))"
proof -
  have "\<not> is_stopped (AudioTrack 4) (dlog (close ex_sharing))"
    by (simp add: close_effects ex_sharing_simps split: option.split)
  from late_switch_keeps_the_microphone [OF ex_sharing_simps(6) refl _ this refl refl, of "''m''"]
  show ?thesis by (simp add: getAudioTracks_def first_track_def)
qed

text \<open>
  Both sides make offers: the callee's engine, once renegotiation was enabled on it (which the
  store does right after it started), makes and relays an offer like the caller's whenever its
  connection is stable.
\<close>

theorem callee_makes_offers_too:
  assumes "\<not> isCaller d" "live lc p d" "\<not> makingOffer d"
    and "signalingState (v p) = Stable" "localDescription (v p) = Some sdp"
    and "d1 = makeOffer v False (enableRenegotiation d)"
  shows "CreateOffer p \<in> set (dlog d1) \<and>
    relay_frame (relay_data_of ''offer'' ''sdp'' sdp) d \<in> set (dlog (offer_set v lc p False True (offer_created p False True d1)))"
  using assms(2-5)
  by (simp add: assms(6) makeOffer_def enableRenegotiation_def direct_simps live_def offer_set_def offer_created_def
      relay_sdp_def relay_frame_def offer_settled_def)

theorem callee_makes_offers_too_witness:
  "CreateOffer 0 \<in> set (dlog (makeOffer ex_pcv False (enableRenegotiation ex_dc)))"
  using callee_makes_offers_too [OF _ _ _ _ _ refl, of ex_dc 0 0 ex_pcv "JStr ''sdp''"]
  by (simp add: ex_dc_def new_DirectCall_def live_def ex_pcv_def)

end
