(* ===== verification/RoomClient.thy ===== *)
theory RoomClient
  imports NetMonitor
begin

text \<open>
  The engine of a room call (\<open>lib/webrtc/sfu.ts\<close>): a publishing and a subscribing peer
  connection, joining, resuming and rejoining, the exchange of descriptions and candidates with
  the server, and the controls. As for the one to one engine, connections, tracks and the
  socket are called through effects in \<open>rlog\<close>, an \<open>async\<close> method is split at its
  \<open>await\<close>s, and a method that throws logs \<open>RThrows\<close>. A frame is logged only when the
  socket takes it (\<open>up\<close>). A track is enabled unless it is in \<open>disabled\<close>.
\<close>

section \<open>State\<close>

datatype slot = MicSlot | CamSlot | ScreenSlot

text \<open>The arguments of a \<open>join\<close>, which its suspended parts capture.\<close>

record join_args =
  ja_roomId :: string
  ja_video :: bool
  ja_resume :: bool
  ja_reuseMedia :: bool
  ja_passcode :: "string option"

datatype (plugins only: size) rc_eff =
    LoadIce nat join_args
  | NewPair nat nat "string list"
  | StartRoomMonitor nat
  | StopRoomMonitor nat
  | RoomFrame string json
  | AcquireRoomMedia nat bool
  | RAddTrack nat track nat
  | RRemoveTrack nat nat
  | RReplaceTrack nat track
  | RCreateOffer nat
  | RSetLocal nat
  | RSetRemote nat json
  | RCreateAnswer nat
  | RAddIce nat json
  | RClosePC nat
  | RStopTracks "track list"
  | RGetUserMedia
  | RGetDisplayMedia
  | RSavePreferred bool string
  | ReportTracks
  | ReportRoomSharing bool "stream option"
  | ReportRoomQuality net_quality
  | RAdaptSender "nat option" net_quality int
  | ReportConnection bool
  | RThrows string

record room_client =
  r_roomId :: string
  pub :: "nat option"
  sub :: "nat option"
  r_localStream :: "stream option"
  r_screenStream :: "stream option"
  r_remoteTracks :: "remote_tracks int_record"
  r_iceServers :: "string list"
  micSender :: "nat option"
  r_camSender :: "nat option"
  r_screenSender :: "nat option"
  micTrack :: "track option"
  camTrack :: "track option"
  screenTrack :: "track option"
  r_makingOffer :: bool
  pendingPubCandidates :: "json list"
  pendingSubCandidates :: "json list"
  pubHasRemote :: bool
  subHasRemote :: bool
  r_lifecycle :: nat
  resumePending :: bool
  rejoinPending :: bool
  r_netStop :: "nat option"
  disabled :: "track set"
  r_next :: nat
  rlog :: "rc_eff list"

definition new_RoomClient :: room_client where
  "new_RoomClient = \<lparr>r_roomId = [], pub = None, sub = None, r_localStream = None,
     r_screenStream = None, r_remoteTracks = Map.empty, r_iceServers = [], micSender = None,
     r_camSender = None, r_screenSender = None, micTrack = None, camTrack = None,
     screenTrack = None, r_makingOffer = False, pendingPubCandidates = [],
     pendingSubCandidates = [], pubHasRemote = False, subHasRemote = False, r_lifecycle = 0,
     resumePending = False, rejoinPending = False, r_netStop = None, disabled = {}, r_next = 0,
     rlog = []\<rparr>"

definition rnote :: "rc_eff list \<Rightarrow> room_client \<Rightarrow> room_client" where
  "rnote es r = r\<lparr>rlog := rlog r @ es\<rparr>"

definition rsend :: "bool \<Rightarrow> string \<Rightarrow> json \<Rightarrow> room_client \<Rightarrow> room_client" where
  "rsend up ty d r = (if up then rnote [RoomFrame ty d] r else r)"

definition rstop :: "stream option \<Rightarrow> rc_eff list" where
  "rstop st = (case st of None \<Rightarrow> [] | Some ts \<Rightarrow> [RStopTracks ts])"

definition rclose :: "nat option \<Rightarrow> rc_eff list" where
  "rclose p = (case p of None \<Rightarrow> [] | Some q \<Rightarrow> [RClosePC q])"

text \<open>The life and the publisher (or subscriber) a closure captured are still the ones.\<close>

definition pub_live :: "nat \<Rightarrow> nat \<Rightarrow> room_client \<Rightarrow> bool" where
  "pub_live lc p r \<longleftrightarrow> lc = r_lifecycle r \<and> pub r = Some p"

definition sub_live :: "nat \<Rightarrow> nat \<Rightarrow> room_client \<Rightarrow> bool" where
  "sub_live lc q r \<longleftrightarrow> lc = r_lifecycle r \<and> sub r = Some q"

section \<open>Track state\<close>

definition track_on :: "track option \<Rightarrow> room_client \<Rightarrow> bool" where
  "track_on t r = (case t of None \<Rightarrow> False | Some x \<Rightarrow> x \<notin> disabled r)"

definition r_sharing :: "room_client \<Rightarrow> bool" where
  "r_sharing r = (r_screenStream r \<noteq> None)"

definition enable :: "track \<Rightarrow> bool \<Rightarrow> room_client \<Rightarrow> room_client" where
  "enable t on r = r\<lparr>disabled := (if on then disabled r - {t} else insert t (disabled r))\<rparr>"

text \<open>The overrides of \<open>pushTrackState\<close> the code uses: \<open>screen\<close> and \<open>video_on\<close>.\<close>

definition track_state :: "bool option \<Rightarrow> bool option \<Rightarrow> room_client \<Rightarrow> json" where
  "track_state screen video_on r = JObj [(''muted'', JBool (\<not> track_on (micTrack r) r)),
     (''video_on'', JBool (nvl video_on (track_on (camTrack r) r))),
     (''screen'', JBool (nvl screen (r_sharing r)))]"

definition pushTrackState :: "bool \<Rightarrow> bool option \<Rightarrow> bool option \<Rightarrow> room_client \<Rightarrow> room_client" where
  "pushTrackState up screen video_on r = rsend up ''sfu:track-state'' (track_state screen video_on r) r"

definition r_addTrack :: "nat \<Rightarrow> track \<Rightarrow> room_client \<Rightarrow> room_client \<times> nat" where
  "r_addTrack p t r = (rnote [RAddTrack p t (r_next r)] (r\<lparr>r_next := r_next r + 1\<rparr>), r_next r)"

section \<open>Leaving\<close>

definition leave :: "bool \<Rightarrow> bool \<Rightarrow> room_client \<Rightarrow> room_client" where
  "leave up notifyServer r =
     rnote ((case r_netStop r of None \<Rightarrow> [] | Some m \<Rightarrow> [StopRoomMonitor m]) @
            (if notifyServer \<and> r_roomId r \<noteq> [] \<and> up then [RoomFrame ''room:leave'' (JObj [])] else []) @
            rstop (r_localStream r) @ rstop (r_screenStream r) @ rclose (pub r) @ rclose (sub r) @
            [ReportRoomSharing False None])
       (r\<lparr>r_lifecycle := r_lifecycle r + 1, resumePending := False, r_netStop := None, pub := None,
          sub := None, micSender := None, r_camSender := None, r_screenSender := None,
          r_remoteTracks := Map.empty, r_localStream := None, r_screenStream := None,
          micTrack := None, camTrack := None, screenTrack := None, r_roomId := [],
          pendingPubCandidates := [], pendingSubCandidates := [], pubHasRemote := False,
          subHasRemote := False\<rparr>)"

section \<open>Publishing an offer\<close>

definition publishOffer :: "bool \<Rightarrow> (nat \<Rightarrow> pc_view) \<Rightarrow> nat \<Rightarrow> nat \<Rightarrow> room_client \<Rightarrow> room_client" where
  "publishOffer up v p lc r =
     (if r_makingOffer r \<or> \<not> pub_live lc p r then r
      else (case (signalingState (v p), localDescription (v p)) of
              (HaveLocalOffer, Some sdp) \<Rightarrow> rsend up ''sfu:pub-offer'' sdp r
            | (Stable, _) \<Rightarrow> rnote [RCreateOffer p] (r\<lparr>r_makingOffer := True\<rparr>)
            | _ \<Rightarrow> r))"

text \<open>With the defaults of its arguments: the current publisher and life.\<close>

definition publishOffer_now :: "bool \<Rightarrow> (nat \<Rightarrow> pc_view) \<Rightarrow> room_client \<Rightarrow> room_client" where
  "publishOffer_now up v r = (case pub r of None \<Rightarrow> r | Some p \<Rightarrow> publishOffer up v p (r_lifecycle r) r)"

definition pub_offer_created :: "nat \<Rightarrow> bool \<Rightarrow> room_client \<Rightarrow> room_client" where
  "pub_offer_created p ok r = (if ok then rnote [RSetLocal p] r else r\<lparr>r_makingOffer := False\<rparr>)"

definition pub_offer_set ::
  "bool \<Rightarrow> (nat \<Rightarrow> pc_view) \<Rightarrow> nat \<Rightarrow> nat \<Rightarrow> bool \<Rightarrow> room_client \<Rightarrow> room_client" where
  "pub_offer_set up v p lc ok r =
     (case localDescription (v p) of
        Some sdp \<Rightarrow> if ok \<and> pub_live lc p r then rsend up ''sfu:pub-offer'' sdp r else r
      | None \<Rightarrow> r)\<lparr>r_makingOffer := False\<rparr>"

section \<open>Joining\<close>

definition join :: "join_args \<Rightarrow> room_client \<Rightarrow> room_client" where
  "join a r = rnote [LoadIce (r_lifecycle r + 1) a]
     (r\<lparr>r_lifecycle := r_lifecycle r + 1, r_roomId := ja_roomId a\<rparr>)"

definition join_cancelled :: "nat \<Rightarrow> nat \<Rightarrow> rc_eff list" where
  "join_cancelled p q = [RClosePC p, RClosePC q, RThrows ''join cancelled'']"

definition join_frame :: "string \<Rightarrow> bool \<Rightarrow> bool \<Rightarrow> string option \<Rightarrow> json" where
  "join_frame rid video resume passcode = JObj ([(''room_id'', JStr rid), (''video'', JBool video),
     (''resume'', JBool resume)] @ (case passcode of None \<Rightarrow> [] | Some c \<Rightarrow> [(''passcode'', JStr c)]))"

text \<open>
  The end of \<open>join\<close>, from the check after the media on. (The frame is sent without an
  \<open>await\<close>, so the source's second check of the life cannot fail.)
\<close>

definition join_send ::
  "bool \<Rightarrow> (nat \<Rightarrow> pc_view) \<Rightarrow> nat \<Rightarrow> nat \<Rightarrow> nat \<Rightarrow> join_args \<Rightarrow> room_client \<Rightarrow> room_client" where
  "join_send up v lc p q a r =
     (if \<not> pub_live lc p r then rnote (join_cancelled p q) r
      else if \<not> up
      then rnote [RThrows ''realtime connection unavailable'']
             (leave up False (rnote [RClosePC p, RClosePC q] r))
      else
        (let r1 = rnote [RoomFrame ''room:join'' 
                 (join_frame (ja_roomId a) (ja_video a) (ja_resume a) (ja_passcode a))] r;
             r2 = (case (r_screenStream r1, screenTrack r1) of
                     (Some st, Some t) \<Rightarrow>
                       if \<not> ja_resume a \<and> ja_reuseMedia a
                       then (case r_addTrack p t (pushTrackState up (Some True) None r1) of (r', s) \<Rightarrow>
                              r'\<lparr>r_screenSender := Some s\<rparr>)
                       else r1
                   | _ \<Rightarrow> r1);
             r3 = (if \<not> ja_resume a \<and> ja_reuseMedia a then pushTrackState up (Some (r_sharing r2)) None r2 else r2)
         in if \<not> ja_resume a then publishOffer up v p lc r3 else r3))"

text \<open>Publishing the microphone and the camera on a new connection.\<close>

definition publish_mic :: "nat \<Rightarrow> room_client \<Rightarrow> room_client" where
  "publish_mic p r = (case micTrack r of None \<Rightarrow> r
     | Some t \<Rightarrow> (case r_addTrack p t r of (r', s) \<Rightarrow> r'\<lparr>micSender := Some s\<rparr>))"

definition publish_cam :: "nat \<Rightarrow> room_client \<Rightarrow> room_client" where
  "publish_cam p r = (case camTrack r of None \<Rightarrow> r
     | Some t \<Rightarrow> (case r_addTrack p t r of (r', s) \<Rightarrow> r'\<lparr>r_camSender := Some s\<rparr>))"

definition take_tracks :: "stream \<Rightarrow> bool \<Rightarrow> room_client \<Rightarrow> room_client" where
  "take_tracks st video r = r\<lparr>micTrack := first_track (getAudioTracks st),
     camTrack := (if video then first_track (getVideoTracks st) else None)\<rparr>"

text \<open>
  \<open>join\<close> after \<open>loadIce\<close>: the two connections (named by the next numbers), the monitor, and
  the media: acquired (one more \<open>await\<close>), or the stream there is.
\<close>

definition join_connect ::
  "bool \<Rightarrow> (nat \<Rightarrow> pc_view) \<Rightarrow> nat \<Rightarrow> join_args \<Rightarrow>
    string list option option \<Rightarrow> room_client \<Rightarrow> room_client" where
  "join_connect up v lc a ice r =
     (let r0 = (case ice of None \<Rightarrow> r | Some srv \<Rightarrow> r\<lparr>r_iceServers := nvl srv []\<rparr>) in
      if lc \<noteq> r_lifecycle r0 then rnote [RThrows ''join cancelled''] r0
      else
        (let p = r_next r0; q = p + 1;
             r1 = rnote (NewPair p q (r_iceServers r0) #
                    (case r_netStop r0 of None \<Rightarrow> [] | Some m \<Rightarrow> [StopRoomMonitor m]) @ [StartRoomMonitor p])
                    (r0\<lparr>pub := Some p, sub := Some q, r_next := q + 1, r_netStop := Some p\<rparr>)
         in if ja_resume a then join_send up v lc p q a r1
            else (case r_localStream r1 of
                    Some st \<Rightarrow>
                      if ja_reuseMedia a
                      then join_send up v lc p q a
                             (publish_cam p (publish_mic p (take_tracks st True r1)))
                      else rnote [AcquireRoomMedia lc (ja_video a)] r1
                  | None \<Rightarrow> rnote [AcquireRoomMedia lc (ja_video a)] r1)))"

definition join_media ::
  "bool \<Rightarrow> (nat \<Rightarrow> pc_view) \<Rightarrow> nat \<Rightarrow> nat \<Rightarrow> nat \<Rightarrow> join_args \<Rightarrow>
    stream option \<Rightarrow> room_client \<Rightarrow> room_client" where
  "join_media up v lc p q a media r =
     (case media of
        None \<Rightarrow> rnote [RThrows ''media''] r
      | Some st \<Rightarrow>
          if \<not> pub_live lc p r
          then rnote [RClosePC p, RClosePC q, RStopTracks st, RThrows ''join cancelled''] r
          else join_send up v lc p q a
                 (publish_cam p (publish_mic p (take_tracks st (ja_video a) (r\<lparr>r_localStream := Some st\<rparr>)))))"

definition resendJoin :: "bool \<Rightarrow> (nat \<Rightarrow> pc_view) \<Rightarrow> room_client \<Rightarrow> room_client" where
  "resendJoin up v r =
     (case (pub r, sub r) of
        (Some p, Some q) \<Rightarrow>
          if r_roomId r = [] \<or> \<not> up then r
          else publishOffer up v p (r_lifecycle r)
            (rsend up ''room:join'' (join_frame (r_roomId r) (track_on (camTrack r) r) False None) r)
      | _ \<Rightarrow> r)"

definition rejoinWithExistingMedia :: "room_client \<Rightarrow> room_client" where
  "rejoinWithExistingMedia r =
     (if rejoinPending r \<or> r_roomId r = [] \<or> r_localStream r = None then r
      else join \<lparr>ja_roomId = r_roomId r, ja_video = has_video (r_localStream r), ja_resume = False,
          ja_reuseMedia = True, ja_passcode = None\<rparr>
        (rnote (rclose (pub r) @ rclose (sub r) @ [ReportTracks])
          (r\<lparr>rejoinPending := True, r_makingOffer := False, pub := None, sub := None,
             micSender := None, r_camSender := None, r_screenSender := None,
             pendingPubCandidates := [], pendingSubCandidates := [], pubHasRemote := False,
             subHasRemote := False, r_remoteTracks := Map.empty\<rparr>)))"

text \<open>The \<open>finally\<close> of a rejoin whose join ended either way.\<close>

definition rejoin_settled :: "room_client \<Rightarrow> room_client" where
  "rejoin_settled r = r\<lparr>rejoinPending := False\<rparr>"

definition pc_dead :: "pc_view \<Rightarrow> bool" where
  "pc_dead pv \<longleftrightarrow> connectionState pv = ConnClosed \<or> connectionState pv = ConnFailed"

definition resume :: "bool \<Rightarrow> (nat \<Rightarrow> pc_view) \<Rightarrow> room_client \<Rightarrow> room_client" where
  "resume up v r =
     (if r_roomId r = [] then r
      else (case (pub r, sub r) of
              (Some p, Some q) \<Rightarrow>
                if pc_dead (v p) \<or> pc_dead (v q) then rejoinWithExistingMedia r
                else if \<not> up then r
                else publishOffer_now up v
                  (let r1 = (rsend up ''room:join'' (join_frame (r_roomId r) (track_on (camTrack r) r) True None) r)
                              \<lparr>resumePending := True\<rparr>
                   in pushTrackState up (Some (r_sharing r1)) None r1)
            | _ \<Rightarrow> rejoinWithExistingMedia r))"

definition handleRoomJoined :: "bool \<Rightarrow> room_client \<Rightarrow> room_client" where
  "handleRoomJoined resumed r =
     (if \<not> resumePending r then r
      else if resumed then r\<lparr>resumePending := False\<rparr>
      else rejoinWithExistingMedia (r\<lparr>resumePending := False\<rparr>))"

section \<open>Signaling\<close>

definition flush_pub :: "nat \<Rightarrow> room_client \<Rightarrow> room_client" where
  "flush_pub p r = (rnote (map (RAddIce p) (pendingPubCandidates r)) r)\<lparr>pendingPubCandidates := []\<rparr>"

definition flush_sub :: "nat \<Rightarrow> room_client \<Rightarrow> room_client" where
  "flush_sub q r = (rnote (map (RAddIce q) (pendingSubCandidates r)) r)\<lparr>pendingSubCandidates := []\<rparr>"

definition handlePubAnswer :: "json \<Rightarrow> room_client \<Rightarrow> room_client" where
  "handlePubAnswer sdp r = (case pub r of None \<Rightarrow> r | Some p \<Rightarrow> rnote [RSetRemote p sdp] r)"

definition pub_answer_set :: "nat \<Rightarrow> nat \<Rightarrow> bool \<Rightarrow> room_client \<Rightarrow> room_client" where
  "pub_answer_set lc p ok r =
     (if ok \<and> pub_live lc p r then flush_pub p (r\<lparr>pubHasRemote := True\<rparr>) else r)"

definition handlePubICE :: "(nat \<Rightarrow> pc_view) \<Rightarrow> json \<Rightarrow> room_client \<Rightarrow> room_client" where
  "handlePubICE v c r =
     (case pub r of
        None \<Rightarrow> r
      | Some p \<Rightarrow>
          if pubHasRemote r \<or> has_remoteDescription (v p) then rnote [RAddIce p c] r
          else r\<lparr>pendingPubCandidates := pendingPubCandidates r @ [c]\<rparr>)"

definition handleSubOffer :: "json \<Rightarrow> room_client \<Rightarrow> room_client" where
  "handleSubOffer sdp r = (case sub r of None \<Rightarrow> r | Some q \<Rightarrow> rnote [RSetRemote q sdp] r)"

definition sub_offer_set :: "nat \<Rightarrow> nat \<Rightarrow> bool \<Rightarrow> room_client \<Rightarrow> room_client" where
  "sub_offer_set lc q ok r =
     (if ok \<and> sub_live lc q r then rnote [RCreateAnswer q] (flush_sub q (r\<lparr>subHasRemote := True\<rparr>)) else r)"

definition sub_answer_created :: "nat \<Rightarrow> bool \<Rightarrow> room_client \<Rightarrow> room_client" where
  "sub_answer_created q ok r = (if ok then rnote [RSetLocal q] r else r)"

definition sub_answer_set ::
  "bool \<Rightarrow> (nat \<Rightarrow> pc_view) \<Rightarrow> nat \<Rightarrow> nat \<Rightarrow> bool \<Rightarrow> room_client \<Rightarrow> room_client" where
  "sub_answer_set up v lc q ok r =
     (case localDescription (v q) of
        Some sdp \<Rightarrow> if ok \<and> sub_live lc q r then rsend up ''sfu:sub-answer'' sdp r else r
      | None \<Rightarrow> r)"

definition handleSubICE :: "(nat \<Rightarrow> pc_view) \<Rightarrow> json \<Rightarrow> room_client \<Rightarrow> room_client" where
  "handleSubICE v c r =
     (case sub r of
        None \<Rightarrow> r
      | Some q \<Rightarrow>
          if subHasRemote r \<or> has_remoteDescription (v q) then rnote [RAddIce q c] r
          else r\<lparr>pendingSubCandidates := pendingSubCandidates r @ [c]\<rparr>)"

section \<open>Callbacks of the connections\<close>

definition pub_icecandidate :: "bool \<Rightarrow> nat \<Rightarrow> nat \<Rightarrow> json option \<Rightarrow> room_client \<Rightarrow> room_client" where
  "pub_icecandidate up lc p c r =
     (case c of None \<Rightarrow> r | Some cand \<Rightarrow> if pub_live lc p r then rsend up ''sfu:pub-ice'' cand r else r)"

definition sub_icecandidate :: "bool \<Rightarrow> nat \<Rightarrow> nat \<Rightarrow> json option \<Rightarrow> room_client \<Rightarrow> room_client" where
  "sub_icecandidate up lc q c r =
     (case c of None \<Rightarrow> r | Some cand \<Rightarrow> if sub_live lc q r then rsend up ''sfu:sub-ice'' cand r else r)"

definition negotiationneeded ::
  "bool \<Rightarrow> (nat \<Rightarrow> pc_view) \<Rightarrow> nat \<Rightarrow> nat \<Rightarrow> room_client \<Rightarrow> room_client" where
  "negotiationneeded up v lc p r = (if pub_live lc p r then publishOffer up v p lc r else r)"

text \<open>The monitor's report; the two senders adapt to it (\<open>adaptSenderToQuality\<close>).\<close>

definition room_onQuality :: "net_quality \<Rightarrow> room_client \<Rightarrow> room_client" where
  "room_onQuality q r = rnote [ReportRoomQuality q, RAdaptSender (r_camSender r) q CAM_MAX_BITRATE,
     RAdaptSender (r_screenSender r) q SCREEN_MAX_BITRATE] r"

definition reportConnectionState :: "pc_view \<Rightarrow> pc_view \<Rightarrow> room_client \<Rightarrow> room_client" where
  "reportConnectionState pv qv r =
     rnote [ReportConnection (connectionState pv = Connected \<and> connectionState qv = Connected)] r"

definition pub_statechange :: "(nat \<Rightarrow> pc_view) \<Rightarrow> nat \<Rightarrow> nat \<Rightarrow> nat \<Rightarrow> room_client \<Rightarrow> room_client" where
  "pub_statechange v lc p q r =
     (if \<not> pub_live lc p r then r
      else (let r1 = reportConnectionState (v p) (v q) r
            in if connectionState (v p) = ConnFailed then rejoinWithExistingMedia r1 else r1))"

definition sub_statechange :: "(nat \<Rightarrow> pc_view) \<Rightarrow> nat \<Rightarrow> nat \<Rightarrow> nat \<Rightarrow> room_client \<Rightarrow> room_client" where
  "sub_statechange v lc p q r =
     (if \<not> sub_live lc q r then r
      else (let r1 = reportConnectionState (v p) (v q) r
            in if connectionState (v q) = ConnFailed then rejoinWithExistingMedia r1 else r1))"

fun get_slot :: "slot \<Rightarrow> remote_tracks \<Rightarrow> track option" where
  "get_slot MicSlot x = rt_mic x" | "get_slot CamSlot x = rt_cam x" | "get_slot ScreenSlot x = rt_screen x"

fun put_slot :: "slot \<Rightarrow> track option \<Rightarrow> remote_tracks \<Rightarrow> remote_tracks" where
  "put_slot MicSlot t x = x\<lparr>rt_mic := t\<rparr>"
| "put_slot CamSlot t x = x\<lparr>rt_cam := t\<rparr>"
| "put_slot ScreenSlot t x = x\<lparr>rt_screen := t\<rparr>"

definition no_tracks :: remote_tracks where
  "no_tracks = \<lparr>rt_mic = None, rt_cam = None, rt_screen = None\<rparr>"

text \<open>
  A forwarded track: \<open>uid\<close> is the number its stream's id denotes (\<open>None\<close> for none),
  \<open>sl\<close> the slot its own id names (\<open>None\<close> for any other id).
\<close>

definition sub_track ::
  "nat \<Rightarrow> nat \<Rightarrow> int option \<Rightarrow> slot option \<Rightarrow> track \<Rightarrow> room_client \<Rightarrow> room_client" where
  "sub_track lc q uid sl t r =
     (if \<not> sub_live lc q r \<or> \<not> num_truthy uid then r
      else (case sl of
              None \<Rightarrow> r
            | Some k \<Rightarrow> rnote [ReportTracks]
                (r\<lparr>r_remoteTracks := (r_remoteTracks r)
                     (the uid \<mapsto> put_slot k (Some t) (nvl (r_remoteTracks r (the uid)) no_tracks))\<rparr>)))"

definition sub_track_unmuted :: "nat \<Rightarrow> nat \<Rightarrow> room_client \<Rightarrow> room_client" where
  "sub_track_unmuted lc q r = (if sub_live lc q r then rnote [ReportTracks] r else r)"

definition sub_track_ended :: "nat \<Rightarrow> nat \<Rightarrow> int \<Rightarrow> slot \<Rightarrow> track \<Rightarrow> room_client \<Rightarrow> room_client" where
  "sub_track_ended lc q uid k t r =
     (if \<not> sub_live lc q r then r
      else (case r_remoteTracks r uid of
              None \<Rightarrow> r
            | Some x \<Rightarrow>
                if get_slot k x \<noteq> Some t then r
                else rnote [ReportTracks]
                  (r\<lparr>r_remoteTracks := (r_remoteTracks r)
                       (uid := (let next = put_slot k None x in if next = no_tracks then None else Some next))\<rparr>)))"

section \<open>Controls\<close>

definition room_not_active :: string where "room_not_active = ''call is not active''"

definition r_setMic :: "bool \<Rightarrow> bool \<Rightarrow> room_client \<Rightarrow> room_client" where
  "r_setMic up on r = pushTrackState up None None (case micTrack r of None \<Rightarrow> r | Some t \<Rightarrow> enable t on r)"

text \<open>The three identities \<open>setCam\<close> and \<open>switchDevice\<close> capture and compare after an \<open>await\<close>.\<close>

definition same_call :: "nat \<Rightarrow> nat \<Rightarrow> bool \<Rightarrow> room_client \<Rightarrow> bool" where
  "same_call lc p same_local r \<longleftrightarrow> pub_live lc p r \<and> same_local \<and> r_localStream r \<noteq> None"

definition r_setCam :: "bool \<Rightarrow> bool \<Rightarrow> room_client \<Rightarrow> room_client" where
  "r_setCam up on r =
     (if pub r = None \<or> r_localStream r = None then rnote [RThrows room_not_active] r
      else (case camTrack r of
              None \<Rightarrow> if on then rnote [RGetUserMedia] r else pushTrackState up None None r
            | Some t \<Rightarrow> pushTrackState up None None (enable t on r)))"

text \<open>
  \<open>same_local\<close>: the stream object is the captured one (it can only have been replaced together
  with the life). \<open>add_ok\<close>: \<open>addTrack\<close> does not throw.
\<close>

definition cam_granted ::
  "bool \<Rightarrow> bool \<Rightarrow> bool \<Rightarrow> nat \<Rightarrow> nat \<Rightarrow> stream option \<Rightarrow> room_client \<Rightarrow> room_client" where
  "cam_granted up add_ok same_local lc p media r =
     (case media of
        None \<Rightarrow> rnote [RThrows ''getUserMedia''] r
      | Some temp \<Rightarrow>
          if \<not> same_call lc p same_local r then rnote [RStopTracks temp, RThrows room_not_active] r
          else (case first_track (getVideoTracks temp) of
                  None \<Rightarrow> rnote [RStopTracks temp, RThrows ''camera unavailable''] r
                | Some t \<Rightarrow>
                    (let local = the (r_localStream r) in
                     if add_ok
                     then (case r_addTrack p t (r\<lparr>camTrack := Some t, r_localStream := Some (addTrack t local)\<rparr>) of
                             (r1, s) \<Rightarrow> pushTrackState up None None (r1\<lparr>r_camSender := Some s\<rparr>))
                     else rnote [RStopTracks [t], RThrows ''addTrack'']
                            (r\<lparr>camTrack := None, r_localStream := Some (removeTrack t (addTrack t local))\<rparr>))))"

definition r_startScreenShare :: "room_client \<Rightarrow> room_client" where
  "r_startScreenShare r =
     (if pub r = None then rnote [RThrows room_not_active] r
      else if r_screenStream r \<noteq> None then r
      else rnote [RGetDisplayMedia] r)"

definition screen_granted ::
  "bool \<Rightarrow> bool \<Rightarrow> nat \<Rightarrow> nat \<Rightarrow> stream option \<Rightarrow> room_client \<Rightarrow> room_client" where
  "screen_granted up add_ok lc p media r =
     (case media of
        None \<Rightarrow> rnote [RThrows ''getDisplayMedia''] r
      | Some st \<Rightarrow>
          if \<not> pub_live lc p r then rnote [RStopTracks st, RThrows room_not_active] r
          else (case first_track (getVideoTracks st) of
                  None \<Rightarrow> rnote [RStopTracks st, RThrows ''screen unavailable'']
                    (r\<lparr>r_screenStream := None, screenTrack := None\<rparr>)
                | Some t \<Rightarrow>
                    (let r1 = pushTrackState up (Some True) None
                           (r\<lparr>r_screenStream := Some st, screenTrack := Some t\<rparr>)
                     in if add_ok
                        then (case r_addTrack p t r1 of (r2, s) \<Rightarrow>
                               rnote [ReportRoomSharing True (Some st)] (r2\<lparr>r_screenSender := Some s\<rparr>))
                        else rnote [RThrows ''addTrack'']
                               (pushTrackState up (Some False) None
                                 ((rnote [RStopTracks st] r1)\<lparr>r_screenStream := None, screenTrack := None\<rparr>)))))"

definition r_stopScreenShare :: "bool \<Rightarrow> room_client \<Rightarrow> room_client" where
  "r_stopScreenShare up r =
     (let r1 = (case (r_screenSender r, pub r) of
                  (Some s, Some p) \<Rightarrow> rnote [RRemoveTrack p s] r | _ \<Rightarrow> r)\<lparr>r_screenSender := None\<rparr>;
          r2 = (rnote (rstop (r_screenStream r1)) r1)\<lparr>r_screenStream := None, screenTrack := None\<rparr>
      in if pub r2 = None then rnote [ReportRoomSharing False None] r2
         else rnote [ReportRoomSharing False None] (pushTrackState up (Some False) None r2))"

section \<open>Switching devices\<close>

definition r_switchDevice :: "room_client \<Rightarrow> room_client" where
  "r_switchDevice r =
     (if pub r = None \<or> r_localStream r = None then rnote [RThrows room_not_active] r
      else rnote [RGetUserMedia] r)"

definition enabled_or :: "bool \<Rightarrow> track option \<Rightarrow> room_client \<Rightarrow> bool" where
  "enabled_or dflt t r = (case t of None \<Rightarrow> dflt | Some x \<Rightarrow> x \<notin> disabled r)"

text \<open>
  The microphone: the granted device's track takes over the state of the old one and the
  sender (waiting for \<open>replaceTrack\<close>), or gets a sender; \<open>mic_switched\<close> is the rest.
\<close>

definition stop_option :: "track option \<Rightarrow> rc_eff list" where
  "stop_option t = (case t of None \<Rightarrow> [] | Some x \<Rightarrow> [RStopTracks [x]])"

definition mic_switched :: "string \<Rightarrow> nat \<Rightarrow> nat \<Rightarrow> bool \<Rightarrow> track \<Rightarrow> room_client \<Rightarrow> room_client" where
  "mic_switched dev lc p same_local t r =
     (if \<not> same_call lc p same_local r then rnote [RStopTracks [t], RThrows room_not_active] r
      else
        (let local = the (r_localStream r)
         in rnote (stop_option (micTrack r) @ map (\<lambda>x. RStopTracks [x]) (getAudioTracks local) @
                   [RSavePreferred True dev])
              (r\<lparr>micTrack := Some t, r_localStream := Some (addTrack t (filter (\<lambda>x. \<not> is_audio x) local))\<rparr>)))"

definition mic_granted ::
  "bool \<Rightarrow> bool \<Rightarrow> string \<Rightarrow> nat \<Rightarrow> nat \<Rightarrow> stream option \<Rightarrow> room_client \<Rightarrow> room_client" where
  "mic_granted add_ok same_local dev lc p media r =
     (case media of
        None \<Rightarrow> rnote [RThrows ''getUserMedia''] r
      | Some temp \<Rightarrow>
          if \<not> same_call lc p same_local r then rnote [RStopTracks temp, RThrows room_not_active] r
          else (case first_track (getAudioTracks temp) of
                  None \<Rightarrow> rnote [RStopTracks temp] r
                | Some t \<Rightarrow>
                    (let r1 = enable t (enabled_or False (micTrack r) r) r
                     in case micSender r1 of
                          Some s \<Rightarrow> rnote [RReplaceTrack s t] r1
                        | None \<Rightarrow>
                            if add_ok
                            then (case r_addTrack p t r1 of (r2, s) \<Rightarrow>
                                   mic_switched dev lc p same_local t (r2\<lparr>micSender := Some s\<rparr>))
                            else rnote [RStopTracks [t], RThrows ''addTrack''] r1)))"

definition track_replaced :: "track \<Rightarrow> bool \<Rightarrow> (room_client \<Rightarrow> room_client) \<Rightarrow> room_client \<Rightarrow> room_client" where
  "track_replaced t ok rest r = (if ok then rest r else rnote [RStopTracks [t], RThrows ''replaceTrack''] r)"

text \<open>The camera, with or without a screen being shared, likewise.\<close>

definition cam_switched ::
  "bool \<Rightarrow> (nat \<Rightarrow> pc_view) \<Rightarrow> string \<Rightarrow> nat \<Rightarrow> nat \<Rightarrow> bool \<Rightarrow> bool \<Rightarrow> track \<Rightarrow> room_client \<Rightarrow> room_client" where
  "cam_switched up v dev lc p same_local addedTrack t r =
     (if \<not> same_call lc p same_local r then rnote [RStopTracks [t], RThrows room_not_active] r
      else
        (let local = the (r_localStream r);
             r1 = rnote (stop_option (camTrack r) @ map (\<lambda>x. RStopTracks [x]) (getVideoTracks local) @
                         [RSavePreferred False dev])
                    (r\<lparr>camTrack := Some t, r_localStream := Some (addTrack t (filter is_audio local))\<rparr>)
         in if addedTrack then publishOffer_now up v r1
            else pushTrackState up None (Some (t \<notin> disabled r1)) r1))"

text \<open>After the offer of the branch that added a sender.\<close>

definition cam_offer_done :: "bool \<Rightarrow> track \<Rightarrow> room_client \<Rightarrow> room_client" where
  "cam_offer_done up t r = pushTrackState up None (Some (t \<notin> disabled r)) r"

definition cam_switch_granted ::
  "bool \<Rightarrow> (nat \<Rightarrow> pc_view) \<Rightarrow> bool \<Rightarrow> bool \<Rightarrow> string \<Rightarrow> nat \<Rightarrow> nat \<Rightarrow> stream option \<Rightarrow> room_client \<Rightarrow> room_client" where
  "cam_switch_granted up v add_ok same_local dev lc p media r =
     (case media of
        None \<Rightarrow> rnote [RThrows ''getUserMedia''] r
      | Some temp \<Rightarrow>
          if \<not> same_call lc p same_local r then rnote [RStopTracks temp, RThrows room_not_active] r
          else (case first_track (getVideoTracks temp) of
                  None \<Rightarrow> rnote [RStopTracks temp] r
                | Some t \<Rightarrow>
                    (let r1 = enable t (enabled_or True (camTrack r) r) r
                     in case r_camSender r1 of
                          Some s \<Rightarrow> rnote [RReplaceTrack s t] r1
                        | None \<Rightarrow>
                            if add_ok
                            then (case r_addTrack p t r1 of (r2, s) \<Rightarrow>
                                   cam_switched up v dev lc p same_local True t (r2\<lparr>r_camSender := Some s\<rparr>))
                            else rnote [RStopTracks [t], RThrows ''addTrack''] r1)))"

end
