(* ===== verification/RoomLaws.thy ===== *)
theory RoomLaws
  imports RoomClient
begin

text \<open>
  The properties of the room engine: candidates of both connections are accounted for, leaving
  releases everything and leaves nothing that reacts, rejoining publishes the same media again
  and announces the screen before its track, the table of forwarded tracks, and how the engine
  comes back to a room with a passcode.
\<close>

lemmas room_simps = rnote_def rsend_def Let_def

section \<open>Candidates\<close>

definition ice_added :: "nat \<Rightarrow> rc_eff list \<Rightarrow> json list" where
  "ice_added p es = List.map_filter (\<lambda>e. case e of RAddIce q c \<Rightarrow> if q = p then Some c else None | _ \<Rightarrow> None) es"

lemma ice_added_simps [simp]:
  "ice_added p [] = []" "ice_added p (xs @ ys) = ice_added p xs @ ice_added p ys"
  "ice_added p [RAddIce q c] = (if q = p then [c] else [])" "ice_added p [RSetRemote q j] = []"
  "ice_added p [RSetLocal q] = []" "ice_added p [RCreateAnswer q] = []" "ice_added p [RoomFrame ty j] = []"
  "ice_added p (map (RAddIce q) cs) = (if q = p then cs else [])"
  by (simp_all add: ice_added_def List.map_filter_def) (induction cs, simp_all)

text \<open>The steps of the signaling with one pair of connections.\<close>

datatype (plugins only: size) room_signal =
    PubIce "nat \<Rightarrow> pc_view" json
  | PubAnswer json
  | PubAnswerSet nat bool
  | SubIce "nat \<Rightarrow> pc_view" json
  | SubOffer json
  | SubOfferSet nat bool
  | SubAnswerCreated bool
  | SubAnswerSet bool "nat \<Rightarrow> pc_view" nat bool

definition room_signal_run :: "nat \<Rightarrow> nat \<Rightarrow> room_signal \<Rightarrow> room_client \<Rightarrow> room_client" where
  "room_signal_run p q st r = (case st of
       PubIce v c \<Rightarrow> handlePubICE v c r
     | PubAnswer sdp \<Rightarrow> handlePubAnswer sdp r
     | PubAnswerSet lc ok \<Rightarrow> pub_answer_set lc p ok r
     | SubIce v c \<Rightarrow> handleSubICE v c r
     | SubOffer sdp \<Rightarrow> handleSubOffer sdp r
     | SubOfferSet lc ok \<Rightarrow> sub_offer_set lc q ok r
     | SubAnswerCreated ok \<Rightarrow> sub_answer_created q ok r
     | SubAnswerSet up v lc ok \<Rightarrow> sub_answer_set up v lc q ok r)"

definition pub_received :: "room_signal \<Rightarrow> json list" where
  "pub_received st = (case st of PubIce v c \<Rightarrow> [c] | _ \<Rightarrow> [])"

definition sub_received :: "room_signal \<Rightarrow> json list" where
  "sub_received st = (case st of SubIce v c \<Rightarrow> [c] | _ \<Rightarrow> [])"

lemmas room_signal_defs = room_signal_run_def pub_received_def sub_received_def handlePubICE_def
  handlePubAnswer_def pub_answer_set_def handleSubICE_def handleSubOffer_def sub_offer_set_def
  sub_answer_created_def sub_answer_set_def flush_pub_def flush_sub_def room_simps

definition pair_ready :: "nat \<Rightarrow> nat \<Rightarrow> room_client \<Rightarrow> bool" where
  "pair_ready p q r \<longleftrightarrow> pub r = Some p \<and> sub r = Some q \<and> p \<noteq> q"

interpretation pq: candidate_queue "room_signal_run p q" pub_received "\<lambda>r. ice_added p (rlog r)"
  pendingPubCandidates "pair_ready p q" for p q
  by unfold_locales
    (auto simp: pair_ready_def room_signal_defs split: room_signal.split option.split)

interpretation sq: candidate_queue "room_signal_run p q" sub_received "\<lambda>r. ice_added q (rlog r)"
  pendingSubCandidates "pair_ready p q" for p q
  by unfold_locales
    (auto simp: pair_ready_def room_signal_defs split: room_signal.split option.split)

text \<open>
  C21. No candidate of the server is lost, added twice or given to the wrong connection: in any run
  of the signaling of a joined room the publisher has been given, together with the ones held
  back for it, exactly the publisher's candidates received, and likewise the subscriber; an
  answer or an offer that is set leaves none behind.
\<close>

theorem room_candidates_accounted:
  assumes "pub r = Some p" "sub r = Some q" "p \<noteq> q" "r' = fold (room_signal_run p q) steps r"
  shows "mset (ice_added p (rlog r')) + mset (pendingPubCandidates r') = mset (ice_added p (rlog r)) +
      mset (pendingPubCandidates r) + mset (concat (map pub_received steps)) \<and>
    mset (ice_added q (rlog r')) + mset (pendingSubCandidates r') = mset (ice_added q (rlog r)) +
      mset (pendingSubCandidates r) + mset (concat (map sub_received steps)) \<and>
    pendingPubCandidates (pub_answer_set (r_lifecycle r') p True r') = [] \<and>
    pendingSubCandidates (sub_offer_set (r_lifecycle r') q True r') = []"
proof -
  have ready: "pair_ready p q r" using assms(1-3) by (simp add: pair_ready_def)
  from pq.ready_runs [OF this, of steps] have "pub r' = Some p" "sub r' = Some q"
    by (simp_all add: assms(4) pair_ready_def)
  then show ?thesis
    using pq.account_runs [OF ready, of steps] sq.account_runs [OF ready, of steps]
    by (simp add: assms(4) pub_answer_set_def sub_offer_set_def pub_live_def sub_live_def flush_pub_def
        flush_sub_def rnote_def)
qed

definition ex_rv :: "nat \<Rightarrow> pc_view" where
  "ex_rv = (\<lambda>_. \<lparr>signalingState = Stable, connectionState = Connected, localDescription = None,
     has_remoteDescription = False, audio_sender = None\<rparr>)"

definition ex_room :: room_client where
  "ex_room = new_RoomClient\<lparr>r_roomId := ''group:4'', pub := Some 0, sub := Some 1, r_next := 2,
     r_lifecycle := 1, r_localStream := Some [AudioTrack 0, VideoTrack 1], micTrack := Some (AudioTrack 0),
     camTrack := Some (VideoTrack 1), r_screenStream := Some [VideoTrack 9], screenTrack := Some (VideoTrack 9)\<rparr>"

lemma ex_room_simps:
  "pub ex_room = Some 0" "sub ex_room = Some 1" "r_localStream ex_room = Some [AudioTrack 0, VideoTrack 1]"
  "r_roomId ex_room = ''group:4''" "\<not> rejoinPending ex_room" "rlog ex_room = []" "r_next ex_room = 2"
  "pendingPubCandidates ex_room = []" "micTrack ex_room = Some (AudioTrack 0)"
  "camTrack ex_room = Some (VideoTrack 1)" "r_screenStream ex_room = Some [VideoTrack 9]"
  "screenTrack ex_room = Some (VideoTrack 9)"
  by (simp_all add: ex_room_def new_RoomClient_def)

theorem room_candidates_accounted_witness:
  "(let r = fold (room_signal_run 0 1) [PubIce ex_rv (JNum 5)] ex_room
    in mset (ice_added 0 (rlog r)) + mset (pendingPubCandidates r) = {#JNum 5#})"
proof -
  have "mset (ice_added 0 (rlog (fold (room_signal_run 0 1) [PubIce ex_rv (JNum 5)] ex_room))) +
      mset (pendingPubCandidates (fold (room_signal_run 0 1) [PubIce ex_rv (JNum 5)] ex_room)) =
      mset (ice_added 0 (rlog ex_room)) + mset (pendingPubCandidates ex_room) +
      mset (concat (map pub_received [PubIce ex_rv (JNum 5)]))"
    using room_candidates_accounted [OF ex_room_simps(1,2) _ refl, of "[PubIce ex_rv (JNum 5)]"] by simp
  then show ?thesis by (simp add: Let_def ex_room_simps pub_received_def)
qed

section \<open>Leaving\<close>

definition room_stopped :: "track \<Rightarrow> rc_eff list \<Rightarrow> bool" where
  "room_stopped t es \<longleftrightarrow> (\<exists>ts. RStopTracks ts \<in> set es \<and> t \<in> set ts)"

lemma room_stopped_simps [simp]:
  "\<not> room_stopped t []" "room_stopped t (xs @ ys) \<longleftrightarrow> room_stopped t xs \<or> room_stopped t ys"
  "room_stopped t (e # es) \<longleftrightarrow> (\<exists>ts. e = RStopTracks ts \<and> t \<in> set ts) \<or> room_stopped t es"
  "room_stopped t (rstop st) \<longleftrightarrow> (\<exists>ts. st = Some ts \<and> t \<in> set ts)"
  "\<not> room_stopped t (rclose p)"
  by (auto simp: room_stopped_def rstop_def rclose_def split: option.split)

text \<open>
  C22. Leaving a room releases everything and leaves nothing that reacts: the local and the shared
  tracks are stopped, both connections closed, and afterwards callbacks of the old connections
  and frames of the server change nothing, late offers are not sent, and media granted to a
  join, a share, a camera or a device switch that was under way is stopped.
\<close>

theorem left_room_is_released_and_inert:
  assumes "r' = leave up notifyServer r" "lc \<le> r_lifecycle r"
  shows "(\<forall>st t. (r_localStream r = Some st \<or> r_screenStream r = Some st) \<and> t \<in> set st \<longrightarrow>
      room_stopped t (rlog r')) \<and>
    (\<forall>p. pub r = Some p \<or> sub r = Some p \<longrightarrow> RClosePC p \<in> set (rlog r')) \<and>
    r_remoteTracks r' = Map.empty \<and>
    sub_track lc q uid sl t r' = r' \<and> sub_track_ended lc q u k t r' = r' \<and>
    pub_icecandidate up2 lc p c r' = r' \<and> sub_icecandidate up2 lc q c r' = r' \<and>
    negotiationneeded up2 v lc p r' = r' \<and> pub_statechange v lc p q r' = r' \<and>
    sub_statechange v lc p q r' = r' \<and> handlePubICE v j r' = r' \<and> handleSubOffer j r' = r' \<and>
    resume up2 v r' = r' \<and> handleRoomJoined b r' = r' \<and> resendJoin up2 v r' = r' \<and>
    (pub_offer_set up2 v p lc ok r')\<lparr>r_makingOffer := r_makingOffer r'\<rparr> = r' \<and>
    join_media up2 v lc p q a (Some st) r' = rnote [RClosePC p, RClosePC q, RStopTracks st, RThrows ''join cancelled''] r' \<and>
    screen_granted up2 add_ok lc p (Some st) r' = rnote [RStopTracks st, RThrows room_not_active] r' \<and>
    cam_granted up2 add_ok sl2 lc p (Some st) r' = rnote [RStopTracks st, RThrows room_not_active] r' \<and>
    mic_granted add_ok sl2 dev lc p (Some st) r' = rnote [RStopTracks st, RThrows room_not_active] r' \<and>
    mic_switched dev lc p sl2 t r' = rnote [RStopTracks [t], RThrows room_not_active] r'"
proof -
  have r': "pub r' = None" "sub r' = None" "r_roomId r' = []" "\<not> resumePending r'" "r_remoteTracks r' = Map.empty"
    by (simp_all add: assms(1) leave_def rnote_def)
  then have live: "\<not> pub_live lc p r'" "\<not> sub_live lc q r'" "\<not> same_call lc p sl2 r'"
    by (simp_all add: pub_live_def sub_live_def same_call_def)
  have "\<forall>st t. (r_localStream r = Some st \<or> r_screenStream r = Some st) \<and> t \<in> set st \<longrightarrow> room_stopped t (rlog r')"
    "\<forall>p. pub r = Some p \<or> sub r = Some p \<longrightarrow> RClosePC p \<in> set (rlog r')"
    by (auto simp: assms(1) leave_def rnote_def rclose_def)
  moreover have "(pub_offer_set up2 v p lc ok r')\<lparr>r_makingOffer := r_makingOffer r'\<rparr> = r'"
    using live(1) by (simp add: pub_offer_set_def split: option.split)
  ultimately show ?thesis
    using r' live
    by (simp add: sub_track_def sub_track_ended_def pub_icecandidate_def sub_icecandidate_def
        negotiationneeded_def pub_statechange_def sub_statechange_def handlePubICE_def handleSubOffer_def
        resume_def handleRoomJoined_def resendJoin_def join_media_def screen_granted_def cam_granted_def
        mic_granted_def mic_switched_def split: option.split)
qed

theorem left_room_is_released_and_inert_witness:
  "room_stopped (VideoTrack 9) (rlog (leave True True ex_room))"
proof -
  have "1 \<le> r_lifecycle ex_room" by (simp add: ex_room_def new_RoomClient_def)
  from left_room_is_released_and_inert [OF refl this, THEN conjunct1, rule_format, of "[VideoTrack 9]" "VideoTrack 9"]
  show ?thesis by (simp add: ex_room_simps)
qed

section \<open>Rejoining\<close>

definition announce :: "track \<Rightarrow> track \<Rightarrow> room_client \<Rightarrow> json" where
  "announce m c r = JObj [(''muted'', JBool (m \<in> disabled r)), (''video_on'', JBool (c \<notin> disabled r)),
     (''screen'', JBool True)]"

text \<open>What the parts of a join with media that is there add to the log.\<close>

lemma publishOffer_log:
  assumes "pub_live lc p r" "\<not> r_makingOffer r"
  shows "rlog (publishOffer True v p lc r) = rlog r @ (case (signalingState (v p), localDescription (v p)) of
      (Stable, _) \<Rightarrow> [RCreateOffer p]
    | (HaveLocalOffer, Some sdp) \<Rightarrow> [RoomFrame ''sfu:pub-offer'' sdp]
    | _ \<Rightarrow> [])"
  using assms by (simp add: publishOffer_def rsend_def rnote_def split: signaling.split option.split)

lemma publishOffer_keeps:
  "pub (publishOffer up v p lc r) = pub r" "sub (publishOffer up v p lc r) = sub r"
  "r_localStream (publishOffer up v p lc r) = r_localStream r"
  "r_screenStream (publishOffer up v p lc r) = r_screenStream r"
  by (simp_all add: publishOffer_def rsend_def rnote_def split: signaling.split option.split)

lemma publish_tracks:
  assumes "first_track (getAudioTracks st) = Some m" "first_track (getVideoTracks st) = Some c"
  shows "publish_cam p (publish_mic p (take_tracks st True r)) =
    r\<lparr>micTrack := Some m, camTrack := Some c, micSender := Some (r_next r), r_camSender := Some (r_next r + 1),
      r_next := r_next r + 2, rlog := rlog r @ [RAddTrack p m (r_next r), RAddTrack p c (r_next r + 1)]\<rparr>"
  using assms by (simp add: publish_cam_def publish_mic_def take_tracks_def r_addTrack_def rnote_def)

lemma join_send_shared:
  assumes "pub_live lc p r" "\<not> ja_resume a" "ja_reuseMedia a" "r_screenStream r = Some scr" "screenTrack r = Some s"
    and "micTrack r = Some m" "camTrack r = Some c"
  shows "join_send True v lc p q a r = publishOffer True v p lc (r\<lparr>r_next := r_next r + 1,
      r_screenSender := Some (r_next r), rlog := rlog r @
        [RoomFrame ''room:join'' (join_frame (ja_roomId a) (ja_video a) False (ja_passcode a)),
         RoomFrame ''sfu:track-state'' (announce m c r), RAddTrack p s (r_next r),
         RoomFrame ''sfu:track-state'' (announce m c r)]\<rparr>)"
proof -
  have "r_sharing (x :: room_client) \<longleftrightarrow> r_screenStream x \<noteq> None" for x by (simp add: r_sharing_def)
  then show ?thesis
    using assms by (simp add: join_send_def pushTrackState_def track_state_def track_on_def announce_def
        r_addTrack_def rsend_def rnote_def)
qed

lemma join_connect_reuse:
  assumes "lc = r_lifecycle r" "\<not> ja_resume a" "ja_reuseMedia a" "r_localStream r = Some st"
    and "srv = (case ice of None \<Rightarrow> r_iceServers r | Some x \<Rightarrow> nvl x [])" "p = r_next r"
  shows "join_connect True v lc a ice r = join_send True v lc p (p + 1) a
    (publish_cam p (publish_mic p (take_tracks st True (r\<lparr>r_iceServers := srv, pub := Some p, sub := Some (p + 1),
       r_next := p + 2, r_netStop := Some p, rlog := rlog r @ NewPair p (p + 1) srv #
         (case r_netStop r of None \<Rightarrow> [] | Some n \<Rightarrow> [StopRoomMonitor n]) @ [StartRoomMonitor p]\<rparr>))))"
  using assms(1-4) by (cases ice) (simp_all add: assms(5,6) join_connect_def rnote_def Let_def)

lemma rejoin_closes:
  assumes "r_localStream r = Some st" "r_roomId r \<noteq> []" "\<not> rejoinPending r"
    and "pub r = Some p0" "sub r = Some q0" "first_track (getVideoTracks st) = Some c"
    and "r1 = rejoinWithExistingMedia r"
    and "a = \<lparr>ja_roomId = r_roomId r, ja_video = True, ja_resume = False, ja_reuseMedia = True, ja_passcode = None\<rparr>"
  shows "r1 = r\<lparr>rejoinPending := True, r_makingOffer := False, pub := None, sub := None,
      micSender := None, r_camSender := None, r_screenSender := None, pendingPubCandidates := [],
      pendingSubCandidates := [], pubHasRemote := False, subHasRemote := False, r_remoteTracks := Map.empty,
      rlog := rlog r @ [RClosePC p0, RClosePC q0, ReportTracks, LoadIce (r_lifecycle r + 1) a],
      r_lifecycle := r_lifecycle r + 1\<rparr>"
proof -
  have "\<exists>t \<in> set st. is_video t" using first_track_Some [OF assms(6)] by auto
  then show ?thesis
    using assms(1-5) by (simp add: assms(7,8) rejoinWithExistingMedia_def join_def rnote_def rclose_def)
qed

text \<open>
  When a connection fails the engine joins again with the media it has: it closes both old
  connections, asks to join the same room again, and on the new publisher it publishes the same
  microphone, camera and shared screen; no local track is stopped, and the server is told that
  the next video is a screen before the screen's track is published.
\<close>

theorem rejoin_publishes_the_same_media:
  assumes "r_localStream r = Some st" "r_roomId r \<noteq> []" "\<not> rejoinPending r"
    and "pub r = Some p0" "sub r = Some q0" "r_screenStream r = Some scr" "screenTrack r = Some s"
    and "first_track (getAudioTracks st) = Some m" "first_track (getVideoTracks st) = Some c"
    and "r1 = rejoinWithExistingMedia r"
    and "a = \<lparr>ja_roomId = r_roomId r, ja_video = True, ja_resume = False, ja_reuseMedia = True, ja_passcode = None\<rparr>"
    and "r2 = join_connect True v (r_lifecycle r1) a ice r1" "p = r_next r"
  shows "rlog r1 = rlog r @ [RClosePC p0, RClosePC q0, ReportTracks, LoadIce (r_lifecycle r + 1) a] \<and>
    pub r2 = Some p \<and> sub r2 = Some (p + 1) \<and>
    r_localStream r2 = Some st \<and> r_screenStream r2 = Some scr \<and>
    rlog r2 = rlog r1 @ NewPair p (p + 1) (case ice of None \<Rightarrow> r_iceServers r | Some srv \<Rightarrow> nvl srv []) #
      (case r_netStop r of None \<Rightarrow> [] | Some n \<Rightarrow> [StopRoomMonitor n]) @
      [StartRoomMonitor p, RAddTrack p m (p + 2), RAddTrack p c (p + 3),
       RoomFrame ''room:join'' (join_frame (r_roomId r) True False None),
       RoomFrame ''sfu:track-state'' (announce m c r), RAddTrack p s (p + 4),
       RoomFrame ''sfu:track-state'' (announce m c r)] @
      (case (signalingState (v p), localDescription (v p)) of
         (Stable, _) \<Rightarrow> [RCreateOffer p]
       | (HaveLocalOffer, Some sdp) \<Rightarrow> [RoomFrame ''sfu:pub-offer'' sdp]
       | _ \<Rightarrow> []) \<and>
    (\<forall>t. room_stopped t (rlog r2) \<longleftrightarrow> room_stopped t (rlog r))"
proof -
  note r1 = rejoin_closes [OF assms(1-5,9-11)]
  let ?srv = "case ice of None \<Rightarrow> r_iceServers r | Some srv \<Rightarrow> nvl srv []"
  let ?up = "NewPair p (p + 1) ?srv #
      (case r_netStop r of None \<Rightarrow> [] | Some n \<Rightarrow> [StopRoomMonitor n]) @
      [StartRoomMonitor p, RAddTrack p m (p + 2), RAddTrack p c (p + 3),
       RoomFrame ''room:join'' (join_frame (r_roomId r) True False None),
       RoomFrame ''sfu:track-state'' (announce m c r), RAddTrack p s (p + 4),
       RoomFrame ''sfu:track-state'' (announce m c r)]"
  let ?y = "r1\<lparr>r_iceServers := ?srv, pub := Some p, sub := Some (p + 1), r_netStop := Some p, micTrack := Some m,
      camTrack := Some c, micSender := Some (p + 2), r_camSender := Some (p + 3), r_screenSender := Some (p + 4),
      r_next := p + 5, rlog := rlog r1 @ ?up\<rparr>"
  have f: "r_localStream r1 = Some st" "r_next r1 = p" "r_screenStream r1 = Some scr" "screenTrack r1 = Some s"
    "r_iceServers r1 = r_iceServers r" "r_netStop r1 = r_netStop r" "\<not> r_makingOffer r1" "disabled r1 = disabled r"
    using assms(1,6,7) by (simp_all add: r1 assms(13))
  have r2: "r2 = publishOffer True v p (r_lifecycle r1) ?y"
    unfolding assms(12)
    by (subst join_connect_reuse [OF refl _ _ f(1) refl f(2) [symmetric]], simp add: assms(11), simp add: assms(11),
        subst publish_tracks [OF assms(8,9)], subst join_send_shared [where scr = scr and s = s and m = m and c = c])
      (simp_all add: pub_live_def assms(11) f announce_def eval_nat_numeral, rule arg_cong [where f = "publishOffer True v p (r_lifecycle r1)", OF room_client.equality],
       simp_all add: f eval_nat_numeral cong: option.case_cong)
  have log: "rlog r2 = rlog r1 @ ?up @ (case (signalingState (v p), localDescription (v p)) of
         (Stable, _) \<Rightarrow> [RCreateOffer p]
       | (HaveLocalOffer, Some sdp) \<Rightarrow> [RoomFrame ''sfu:pub-offer'' sdp]
       | _ \<Rightarrow> [])"
    unfolding r2 by (subst publishOffer_log) (simp_all add: pub_live_def f)
  have keep: "pub r2 = Some p" "sub r2 = Some (p + 1)" "r_localStream r2 = Some st" "r_screenStream r2 = Some scr"
    by (simp_all add: r2 publishOffer_keeps f)
  have log1: "rlog r1 = rlog r @ [RClosePC p0, RClosePC q0, ReportTracks, LoadIce (r_lifecycle r + 1) a]"
    by (simp add: r1)
  have "room_stopped t (rlog r2) \<longleftrightarrow> room_stopped t (rlog r)" for t
    unfolding log log1 by (simp split: option.split signaling.split)
  then show ?thesis using log log1 keep by simp
qed

theorem rejoin_publishes_the_same_media_witness:
  "r_localStream (join_connect True ex_rv 2 \<lparr>ja_roomId = ''group:4'', ja_video = True, ja_resume = False,
     ja_reuseMedia = True, ja_passcode = None\<rparr> None (rejoinWithExistingMedia ex_room)) =
   Some [AudioTrack 0, VideoTrack 1]"
proof -
  have f: "first_track (getAudioTracks [AudioTrack 0, VideoTrack 1]) = Some (AudioTrack 0)"
    "first_track (getVideoTracks [AudioTrack 0, VideoTrack 1]) = Some (VideoTrack 1)"
    by (simp_all add: getAudioTracks_def getVideoTracks_def first_track_def)
  have "r_lifecycle (rejoinWithExistingMedia ex_room) = 2"
    by (simp add: rejoinWithExistingMedia_def join_def rnote_def ex_room_def new_RoomClient_def)
  then show ?thesis
    using rejoin_publishes_the_same_media [OF ex_room_simps(3) _ ex_room_simps(5,1,2,11,12) f refl refl refl refl,
        of ex_rv None] by (simp add: ex_room_simps)
qed

section \<open>Forwarded tracks\<close>

lemma get_put_slot: "get_slot j (put_slot k t x) = (if j = k then t else get_slot j x)"
  by (cases j; cases k) simp_all

lemma get_slot_no_tracks: "get_slot k no_tracks = None"
  by (cases k) (simp_all add: no_tracks_def)

lemma put_slot_no_tracks: "put_slot k (Some t) x \<noteq> no_tracks"
  using get_put_slot [of k k "Some t" x] get_slot_no_tracks [of k] by auto

definition forwarded :: "room_client \<Rightarrow> int \<Rightarrow> slot \<Rightarrow> track option" where
  "forwarded r u k = get_slot k (nvl (r_remoteTracks r u) no_tracks)"

definition table_ok :: "room_client \<Rightarrow> bool" where
  "table_ok r \<longleftrightarrow> (\<forall>u. r_remoteTracks r u \<noteq> Some no_tracks)"

text \<open>
  The table of forwarded tracks is exact: a track that arrives takes its own participant's
  slot and touches no other, the end of a track empties its slot only if that track is still in
  it, a track that was replaced ends without effect, and a participant without tracks is not
  listed.
\<close>

theorem forwarded_tracks_table:
  assumes "table_ok r" "sub_live lc q r" "u \<noteq> 0"
    and "r1 = sub_track lc q (Some u) (Some k) t r" "r2 = sub_track_ended lc q u k t' r1"
  shows "table_ok r1 \<and> table_ok r2 \<and>
    (\<forall>w j. forwarded r1 w j = (if w = u \<and> j = k then Some t else forwarded r w j)) \<and>
    (\<forall>w j. forwarded r2 w j = (if w = u \<and> j = k then (if t' = t then None else Some t) else forwarded r w j))"
proof -
  let ?x = "put_slot k (Some t) (nvl (r_remoteTracks r u) no_tracks)"
  have r1: "r1 = rnote [ReportTracks] (r\<lparr>r_remoteTracks := (r_remoteTracks r)(u \<mapsto> ?x)\<rparr>)"
    using assms(2,3) by (simp add: assms(4) sub_track_def)
  have ok1: "table_ok r1" using assms(1) by (simp add: r1 table_ok_def rnote_def put_slot_no_tracks)
  have f1: "forwarded r1 w j = (if w = u \<and> j = k then Some t else forwarded r w j)" for w j
    by (simp add: r1 forwarded_def rnote_def get_put_slot)
  have live: "sub_live lc q r1" using assms(2) by (simp add: r1 rnote_def sub_live_def)
  have x: "r_remoteTracks r1 u = Some ?x" by (simp add: r1 rnote_def)
  show ?thesis
  proof (cases "t' = t")
    case False
    then have "r2 = r1" using live x by (simp add: assms(5) sub_track_ended_def get_put_slot)
    then show ?thesis using ok1 f1 False by auto
  next
    case True
    let ?y = "put_slot k None ?x"
    have r2: "r2 = rnote [ReportTracks] (r1\<lparr>r_remoteTracks := (r_remoteTracks r1)
        (u := (if ?y = no_tracks then None else Some ?y))\<rparr>)"
      using live x True by (simp add: assms(5) sub_track_ended_def get_put_slot Let_def)
    have "table_ok r2" using ok1 by (simp add: r2 table_ok_def rnote_def)
    moreover have "get_slot j (nvl (if ?y = no_tracks then None else Some ?y) no_tracks) =
        (if j = k then None else get_slot j (nvl (r_remoteTracks r u) no_tracks))" for j
      using get_put_slot [of j k None ?x] arg_cong [of ?y no_tracks "get_slot j"]
      by (cases "?y = no_tracks") (auto simp: get_put_slot get_slot_no_tracks split: if_splits)
    then have "forwarded r2 w j = (if w = u \<and> j = k then None else forwarded r w j)" for w j
      using f1 [of w j] by (auto simp: r2 forwarded_def rnote_def)
    ultimately show ?thesis using ok1 f1 True by auto
  qed
qed

theorem forwarded_tracks_table_witness:
  "forwarded (sub_track 1 1 (Some 7) (Some CamSlot) (VideoTrack 3) ex_room) 7 CamSlot = Some (VideoTrack 3)"
proof -
  have "table_ok ex_room" "sub_live 1 1 ex_room" "(7 :: int) \<noteq> 0"
    by (simp_all add: table_ok_def sub_live_def ex_room_def new_RoomClient_def)
  from forwarded_tracks_table [OF this refl refl] show ?thesis by simp
qed

section \<open>Rooms with a passcode\<close>

text \<open>
  A client that has to attach again to a room with a passcode never says it again: the first
  join sends the passcode it was given, but resuming after a dropped socket, asking again after
  an admission, and joining again after a failed connection all send a join frame without one.
\<close>

theorem reattaching_omits_the_passcode:
  assumes "pub r = Some p" "sub r = Some q" "r_roomId r = rid" "rid \<noteq> []" "r_localStream r = Some st"
    and "\<not> rejoinPending r" "\<not> pc_dead (v p)" "\<not> pc_dead (v q)"
    and "ja_roomId a = rid" "ja_passcode a = Some code" "\<not> ja_resume a" "\<not> ja_reuseMedia a"
  shows "(pub_live lc p r \<longrightarrow> RoomFrame ''room:join'' (join_frame rid (ja_video a) False (Some code))
      \<in> set (rlog (join_send True v lc p q a r))) \<and>
    (\<exists>b es. rlog (resume True v r) = rlog r @ RoomFrame ''room:join'' (join_frame rid b True None) # es \<and>
      (\<forall>d. RoomFrame ''room:join'' d \<notin> set es)) \<and>
    (\<exists>b es. rlog (resendJoin True v r) = rlog r @ RoomFrame ''room:join'' (join_frame rid b False None) # es \<and>
      (\<forall>d. RoomFrame ''room:join'' d \<notin> set es)) \<and>
    (\<exists>n a'. last (rlog (rejoinWithExistingMedia r)) = LoadIce n a' \<and> ja_roomId a' = rid \<and> ja_passcode a' = None)"
proof -
  have pub_log: "\<exists>es. rlog (publishOffer True v p lc' x) = rlog x @ es \<and> (\<forall>d. RoomFrame ''room:join'' d \<notin> set es)" for lc' x
    by (auto simp: publishOffer_def room_simps split: signaling.split option.split)
  have "pub_live lc p r \<Longrightarrow> RoomFrame ''room:join'' (join_frame rid (ja_video a) False (Some code))
      \<in> set (rlog (join_send True v lc p q a r))"
  proof -
    assume live: "pub_live lc p r"
    let ?r1 = "rnote [RoomFrame ''room:join'' (join_frame rid (ja_video a) False (Some code))] r"
    obtain es where "rlog (publishOffer True v p lc ?r1) = rlog ?r1 @ es" using pub_log by blast
    moreover have "join_send True v lc p q a r = publishOffer True v p lc ?r1"
      using live assms(9-12) by (simp add: join_send_def Let_def split: option.split)
    ultimately show ?thesis by (simp add: rnote_def)
  qed
  moreover have "\<exists>b es. rlog (resume True v r) = rlog r @ RoomFrame ''room:join'' (join_frame rid b True None) # es \<and>
      (\<forall>d. RoomFrame ''room:join'' d \<notin> set es)"
  proof -
    let ?f = "RoomFrame ''room:join'' (join_frame rid (track_on (camTrack r) r) True None)"
    let ?r1 = "(rsend True ''room:join'' (join_frame rid (track_on (camTrack r) r) True None) r)\<lparr>resumePending := True\<rparr>"
    let ?r2 = "pushTrackState True (Some (r_sharing ?r1)) None ?r1"
    obtain es where "rlog (publishOffer True v p (r_lifecycle ?r2) ?r2) = rlog ?r2 @ es"
      "\<forall>d. RoomFrame ''room:join'' d \<notin> set es" using pub_log by blast
    moreover have "resume True v r = publishOffer True v p (r_lifecycle ?r2) ?r2"
      using assms(1-4,7,8) by (simp add: resume_def publishOffer_now_def Let_def pushTrackState_def rsend_def rnote_def)
    ultimately show ?thesis by (auto simp: pushTrackState_def rsend_def rnote_def)
  qed
  moreover have "\<exists>b es. rlog (resendJoin True v r) = rlog r @ RoomFrame ''room:join'' (join_frame rid b False None) # es \<and>
      (\<forall>d. RoomFrame ''room:join'' d \<notin> set es)"
  proof -
    let ?r1 = "rsend True ''room:join'' (join_frame rid (track_on (camTrack r) r) False None) r"
    obtain es where "rlog (publishOffer True v p (r_lifecycle r) ?r1) = rlog ?r1 @ es"
      "\<forall>d. RoomFrame ''room:join'' d \<notin> set es" using pub_log by blast
    then show ?thesis using assms(1-4) by (auto simp: resendJoin_def rsend_def rnote_def)
  qed
  moreover have "\<exists>n a'. last (rlog (rejoinWithExistingMedia r)) = LoadIce n a' \<and> ja_roomId a' = rid \<and> ja_passcode a' = None"
    using assms(3-6) by (simp add: rejoinWithExistingMedia_def join_def rnote_def)
  ultimately show ?thesis by blast
qed

theorem reattaching_omits_the_passcode_witness:
  "\<exists>n a. last (rlog (rejoinWithExistingMedia (ex_room\<lparr>r_roomId := ''priv:x''\<rparr>))) = LoadIce n a \<and>
     ja_roomId a = ''priv:x'' \<and> ja_passcode a = None"
proof -
  let ?r = "ex_room\<lparr>r_roomId := ''priv:x''\<rparr>"
  let ?a = "\<lparr>ja_roomId = ''priv:x'', ja_video = True, ja_resume = False, ja_reuseMedia = False,
    ja_passcode = Some ''1234''\<rparr>"
  have "pub ?r = Some 0" "sub ?r = Some 1" "r_roomId ?r = ''priv:x''" "''priv:x'' \<noteq> []"
    "r_localStream ?r = Some [AudioTrack 0, VideoTrack 1]" "\<not> rejoinPending ?r"
    "\<not> pc_dead (ex_rv 0)" "\<not> pc_dead (ex_rv 1)" "ja_roomId ?a = ''priv:x''" "ja_passcode ?a = Some ''1234''"
    "\<not> ja_resume ?a" "\<not> ja_reuseMedia ?a"
    by (simp_all add: ex_room_simps pc_dead_def ex_rv_def)
  from reattaching_omits_the_passcode [OF this] show ?thesis by blast
qed

end
