(* ===== verification/Util.thy ===== *)
theory Util
  imports Complex_Main "HOL-Library.Word" Prelude
begin

text \<open>
  The helpers of \<open>lib/util.ts\<close>: identifiers built from random bytes (kept at their eight
  bits), avatar colours and the texts for durations and sizes. The two date helpers only call
  the browser's locale and are left out.
\<close>

unbundle bit_operations_syntax

section \<open>Identifiers\<close>

type_synonym byte = "8 word"

text \<open>\<open>x.toString(16).padStart(2, "0")\<close> of a byte.\<close>

definition hex_digit :: "nat \<Rightarrow> char" where
  "hex_digit n = ''0123456789abcdef'' ! n"

definition hex2 :: "byte \<Rightarrow> string" where
  "hex2 x = [hex_digit (unat x div 16), hex_digit (unat x mod 16)]"

text \<open>
  The path without \<open>crypto.randomUUID\<close>: sixteen random bytes, of which byte 6 gets the
  version and byte 8 the variant.
\<close>

definition stamp :: "byte list \<Rightarrow> byte list" where
  "stamp b = b[6 := (b ! 6 AND 0x0f) OR 0x40, 8 := (b ! 8 AND 0x3f) OR 0x80]"

definition slice :: "nat \<Rightarrow> nat \<Rightarrow> 'a list \<Rightarrow> 'a list" where
  "slice i j xs = drop i (take j xs)"

definition uuid_of_bytes :: "byte list \<Rightarrow> string" where
  "uuid_of_bytes b =
     (let h = concat (map hex2 (stamp b))
      in slice 0 8 h @ ''-'' @ slice 8 12 h @ ''-'' @ slice 12 16 h @ ''-'' @ slice 16 20 h @ ''-'' @ drop 20 h)"

definition uuid :: "string option \<Rightarrow> byte list \<Rightarrow> string" where
  "uuid randomUUID b = (case randomUUID of Some u \<Rightarrow> u | None \<Rightarrow> uuid_of_bytes b)"

section \<open>Avatar colours\<close>

definition AVATAR_COLORS :: "string list" where
  "AVATAR_COLORS = [''bg-indigo-500'', ''bg-emerald-500'', ''bg-rose-500'', ''bg-amber-500'',
     ''bg-sky-500'', ''bg-violet-500'', ''bg-teal-500'', ''bg-orange-500'']"

definition avatarColor :: "int \<Rightarrow> string" where
  "avatarColor i = AVATAR_COLORS ! nat (\<bar>i\<bar> mod int (length AVATAR_COLORS))"

section \<open>Durations and sizes\<close>

definition pad2 :: "int \<Rightarrow> string" where
  "pad2 n = (let t = show_int n in if length t < 2 then replicate (2 - length t) (CHR ''0'') @ t else t)"

text \<open>
  \<open>secs\<close> is the floor of the difference in seconds; with a date that does not parse every
  number involved is \<open>NaN\<close>, and so is the text.
\<close>

definition fmt_secs :: "int \<Rightarrow> string" where
  "fmt_secs secs =
     (let h = secs div 3600; m = (secs mod 3600) div 60; s = secs mod 60
      in if h > 0 then show_int h @ '':'' @ pad2 m @ '':'' @ pad2 s else show_int m @ '':'' @ pad2 s)"

definition fmtDuration :: "ms \<Rightarrow> iso \<Rightarrow> iso option \<Rightarrow> string" where
  "fmtDuration current startISO endISO =
     (case (date_parse startISO,
            if iso_truthy endISO then date_parse (the endISO) else Some current) of
        (Some a, Some b) \<Rightarrow> fmt_secs (max 0 ((b - a) div 1000))
      | _ \<Rightarrow> ''NaN:NaN'')"

text \<open>\<open>toFixed(1)\<close> of a number that is exact: to the nearest tenth, halves upwards.\<close>

definition toFixed1 :: "rat \<Rightarrow> string" where
  "toFixed1 x = (let t = floor (x * 10 + 1 / 2) in show_int (t div 10) @ ''.'' @ show_int (t mod 10))"

definition fmtBytes :: "nat \<Rightarrow> string" where
  "fmtBytes n =
     (if n < 1024 then show_nat n @ '' B''
      else if n < 1024 * 1024 then toFixed1 (of_nat n / 1024) @ '' KB''
      else if n < 1024 * 1024 * 1024 then toFixed1 (of_nat n / 1024 / 1024) @ '' MB''
      else toFixed1 (of_nat n / 1024 / 1024 / 1024) @ '' GB'')"

definition presenceColor :: "string \<Rightarrow> string" where
  "presenceColor status =
     (if status = ''online'' then ''bg-emerald-500''
      else if status = ''away'' then ''bg-amber-500''
      else if status = ''dnd'' then ''bg-rose-500''
      else ''bg-zinc-400 dark:bg-zinc-600'')"

definition presenceLabel :: "string \<Rightarrow> string" where
  "presenceLabel status =
     (if status = ''online'' then ''Online''
      else if status = ''away'' then ''Away''
      else if status = ''dnd'' then ''Do not disturb''
      else ''Offline'')"

section \<open>Lemmas\<close>

lemma length_concat_hex2: "length (concat (map hex2 bs)) = 2 * length bs"
  by (induction bs) (simp_all add: hex2_def)

lemma take4: "(x :: byte) AND 0x0f = take_bit 4 x"
  by (simp add: take_bit_eq_mask mask_eq_decr_exp)

lemma take6: "(x :: byte) AND 0x3f = take_bit 6 x"
  by (simp add: take_bit_eq_mask mask_eq_decr_exp)

lemma version_byte: "unat ((x AND 0x0f) OR 0x40 :: byte) div 16 = 4"
proof -
  have "(x AND 0x0f) AND 0x40 = (0 :: byte)" by (simp add: and.assoc)
  then have "(x AND 0x0f) OR 0x40 = (x AND 0x0f) + (0x40 :: byte)"
    by (simp add: disjunctive_add_eq_or)
  moreover have "unat (x AND 0x0f) = unat x mod 16"
    by (simp only: take4 unsigned_take_bit_eq) (simp add: take_bit_eq_mod)
  ultimately show ?thesis
    by (simp add: unat_word_ariths)
qed

lemma variant_byte: "unat ((x AND 0x3f) OR 0x80 :: byte) div 16 = 8 + (unat x mod 64) div 16"
proof -
  have "(x AND 0x3f) AND 0x80 = (0 :: byte)" by (simp add: and.assoc)
  then have "(x AND 0x3f) OR 0x80 = (x AND 0x3f) + (0x80 :: byte)"
    by (simp add: disjunctive_add_eq_or)
  moreover have "unat (x AND 0x3f) = unat x mod 64"
    by (simp only: take6 unsigned_take_bit_eq) (simp add: take_bit_eq_mod)
  ultimately show ?thesis
    by (simp add: unat_word_ariths)
qed

lemma concat_hex2_nth: "i < length bs \<Longrightarrow>
    concat (map hex2 bs) ! (2 * i) = hex_digit (unat (bs ! i) div 16)"
proof (induction bs arbitrary: i)
  case (Cons b bs)
  then show ?case by (cases i) (simp_all add: hex2_def)
qed simp

definition is_hex :: "char \<Rightarrow> bool" where
  "is_hex c = (c \<in> set ''0123456789abcdef'')"

lemma hex_digit_set: "n < 16 \<Longrightarrow> hex_digit n \<in> set ''0123456789abcdef''"
  unfolding hex_digit_def by (rule nth_mem) simp

lemma hex2_hex: "list_all is_hex (hex2 x)"
proof -
  have "unat x < 256" using unsigned_less [of x, where ?'a = nat] by simp
  then show ?thesis
    using hex_digit_set [of "unat x div 16"] hex_digit_set [of "unat x mod 16"]
    by (simp add: hex2_def is_hex_def)
qed

lemma concat_hex2_hex: "list_all is_hex (concat (map hex2 bs))"
  by (induction bs) (simp_all add: hex2_hex)

lemma list_all_slice: "list_all P xs \<Longrightarrow> list_all P (slice i j xs)"
  by (auto simp: list_all_iff slice_def dest: in_set_takeD in_set_dropD)

lemma length_slice [simp]: "length (slice i j xs) = min j (length xs) - i"
  by (simp add: slice_def)

lemma hd_slice: "i < j \<Longrightarrow> i < length xs \<Longrightarrow> hd (slice i j xs) = xs ! i"
  by (simp add: slice_def hd_drop_conv_nth)

section \<open>Properties\<close>

text \<open>
  Without the browser's own generator an identifier still has the form of a random UUID:
  five groups of lower-case hexadecimal digits of lengths 8, 4, 4, 4 and 12 with dashes between
  them, the third starting with the version 4 and the fourth with one of the variant digits.
\<close>

theorem uuid_has_version_4_form:
  assumes "length b = 16"
  shows "\<exists>p1 p2 p3 p4 p5. uuid None b = p1 @ ''-'' @ p2 @ ''-'' @ p3 @ ''-'' @ p4 @ ''-'' @ p5 \<and>
    map length [p1, p2, p3, p4, p5] = [8, 4, 4, 4, 12] \<and>
    list_all (list_all is_hex) [p1, p2, p3, p4, p5] \<and>
    hd p3 = CHR ''4'' \<and> hd p4 \<in> set ''89ab''"
proof -
  define h where "h = concat (map hex2 (stamp b))"
  have len: "length (stamp b) = 16" using assms by (simp add: stamp_def)
  then have lh: "length h = 32" by (simp add: h_def length_concat_hex2)
  have hex: "list_all is_hex h" by (simp add: h_def concat_hex2_hex)
  have "stamp b ! 6 = (b ! 6 AND 0x0f) OR 0x40" "stamp b ! 8 = (b ! 8 AND 0x3f) OR 0x80"
    using assms by (simp_all add: stamp_def)
  moreover have "h ! 12 = hex_digit (unat (stamp b ! 6) div 16)" "h ! 16 = hex_digit (unat (stamp b ! 8) div 16)"
    using concat_hex2_nth [of 6 "stamp b"] concat_hex2_nth [of 8 "stamp b"] len by (simp_all add: h_def)
  ultimately have d: "h ! 12 = hex_digit 4" "h ! 16 = hex_digit (8 + (unat (b ! 8) mod 64) div 16)"
    by (simp_all only: version_byte variant_byte)
  have "(unat (b ! 8) mod 64) div 16 \<in> {0, 1, 2, 3}"
    using less_mult_imp_div_less [of "unat (b ! 8) mod 64" 4 16] by auto
  then have v: "h ! 16 \<in> set ''89ab''" by (auto simp: d hex_digit_def)
  have "hd (slice 12 16 h) = CHR ''4''" "hd (slice 16 20 h) \<in> set ''89ab''"
    using v lh d(1) by (simp_all only: hd_slice) (simp_all add: hex_digit_def)
  moreover have "drop 20 h = slice 20 32 h" using lh by (simp add: slice_def)
  ultimately show ?thesis
    using lh hex list_all_slice [OF hex]
    by (intro exI [of _ "slice 0 8 h"] exI [of _ "slice 8 12 h"] exI [of _ "slice 12 16 h"]
        exI [of _ "slice 16 20 h"] exI [of _ "slice 20 32 h"])
      (simp add: uuid_def uuid_of_bytes_def Let_def flip: h_def)
qed

theorem uuid_has_version_4_form_witness:
  "length (replicate 16 (0 :: byte)) = 16 \<and> uuid None (replicate 16 0) \<noteq> []"
  using uuid_has_version_4_form [of "replicate 16 0"] by fastforce

text \<open>
  A duration reads back as itself: the hours, minutes and seconds shown are the ones of its
  whole seconds, minutes and seconds below sixty, and the hours are shown exactly when there are
  any; an end before the start counts as no time.
\<close>

theorem fmtDuration_reads_back:
  "\<exists>h m s. max 0 ((b - a) div 1000) = 3600 * h + 60 * m + s \<and> 0 \<le> h \<and> 0 \<le> m \<and> m < 60 \<and>
    0 \<le> s \<and> s < 60 \<and>
    fmtDuration current (Iso a) (Some (Iso b)) =
      (if h > 0 then show_int h @ '':'' @ pad2 m @ '':'' @ pad2 s else show_int m @ '':'' @ pad2 s)"
proof -
  define t where "t = max 0 ((b - a) div 1000)"
  have "(t mod 3600) mod 60 = t mod 60" by (simp add: mod_mod_cancel)
  then have "t = 3600 * (t div 3600) + 60 * ((t mod 3600) div 60) + t mod 60"
    using div_mult_mod_eq [of t 3600] div_mult_mod_eq [of "t mod 3600" 60] by linarith
  moreover have "0 \<le> t div 3600" by (simp add: t_def pos_imp_zdiv_nonneg_iff)
  moreover have "0 \<le> (t mod 3600) div 60" "(t mod 3600) div 60 < 60"
    by (simp_all add: pos_imp_zdiv_nonneg_iff div_less_iff_less_mult)
  moreover have "0 \<le> t mod 60" "t mod 60 < 60" by simp_all
  moreover have "fmtDuration current (Iso a) (Some (Iso b)) = fmt_secs t"
    by (simp add: fmtDuration_def t_def)
  ultimately show ?thesis
    unfolding fmt_secs_def Let_def t_def [symmetric] by blast
qed

end
