(* ===== verification/Base64.thy ===== *)
theory Base64
  imports Prelude
begin

text \<open>
  Bytes as base64 text: \<open>b64encode\<close> and \<open>b64decode\<close> of \<open>lib/crypto.ts\<close>, over the platform's
  \<open>btoa\<close> and \<open>atob\<close> as the HTML standard defines them (six bits a character, \<open>=\<close> as padding,
  white space ignored, \<open>atob\<close> throwing on a length of 1 modulo 4 or a foreign character).
  A binary string is a string of characters below 256, which are all the characters there are here.
\<close>

type_synonym byte = nat
type_synonym bytes = "byte list"

definition is_bytes :: "bytes \<Rightarrow> bool" where
  "is_bytes bs = list_all (\<lambda>b. b < 256) bs"

section \<open>The platform's functions\<close>

definition b64_alphabet :: string where
  "b64_alphabet = ''ABCDEFGHIJKLMNOPQRSTUVWXYZabcdefghijklmnopqrstuvwxyz0123456789+/''"

fun index_of :: "'a \<Rightarrow> 'a list \<Rightarrow> nat option" where
  "index_of x [] = None"
| "index_of x (y # ys) = (if x = y then Some 0 else map_option Suc (index_of x ys))"

fun sextets :: "nat list \<Rightarrow> nat list" where
  "sextets [] = []"
| "sextets [a] = [a div 4, (a mod 4) * 16]"
| "sextets [a, b] = [a div 4, (a mod 4) * 16 + b div 16, (b mod 16) * 4]"
| "sextets (a # b # c # r) =
     a div 4 # ((a mod 4) * 16 + b div 16) # ((b mod 16) * 4 + c div 64) # (c mod 64) # sextets r"

fun octets :: "nat list \<Rightarrow> nat list" where
  "octets [] = []"
| "octets [a] = []"
| "octets [a, b] = [a * 4 + b div 16]"
| "octets [a, b, c] = [a * 4 + b div 16, (b mod 16) * 16 + c div 4]"
| "octets (a # b # c # d # r) =
     (a * 4 + b div 16) # ((b mod 16) * 16 + c div 4) # ((c mod 4) * 64 + d) # octets r"

definition char_code :: "char \<Rightarrow> nat" where "char_code c = of_char c"
definition from_char_code :: "nat \<Rightarrow> char" where "from_char_code n = char_of n"

definition btoa :: "string \<Rightarrow> string" where
  "btoa s = map (\<lambda>i. b64_alphabet ! i) (sextets (map char_code s)) @
     replicate ((3 - length s mod 3) mod 3) (CHR ''='')"

definition is_ascii_space :: "char \<Rightarrow> bool" where
  "is_ascii_space c = (char_code c \<in> {9, 10, 12, 13, 32})"

definition strip_pad :: "string \<Rightarrow> string" where
  "strip_pad s =
     (if length s mod 4 \<noteq> 0 then s
      else if drop (length s - 2) s = ''=='' then take (length s - 2) s
      else if drop (length s - 1) s = ''='' then take (length s - 1) s
      else s)"

text \<open>\<open>None\<close>: \<open>atob\<close> throws.\<close>

definition atob :: "string \<Rightarrow> string option" where
  "atob s =
     (let t = strip_pad (filter (\<lambda>c. \<not> is_ascii_space c) s);
          is = map (\<lambda>c. index_of c b64_alphabet) t
      in if length t mod 4 = 1 \<or> None \<in> set is then None
         else Some (map from_char_code (octets (map the is))))"

section \<open>The program's functions\<close>

text \<open>The loop of \<open>b64encode\<close>: chunks of 8192 bytes appended to \<open>binary\<close>.\<close>

function chunks :: "bytes \<Rightarrow> string \<Rightarrow> string" where
  "chunks bs binary =
     (if bs = [] then binary
      else chunks (drop 8192 bs) (binary @ map from_char_code (take 8192 bs)))"
  by pat_completeness auto
termination
  by (relation "measure (\<lambda>(bs, binary). length bs)") auto

definition b64encode :: "bytes \<Rightarrow> string" where
  "b64encode bs = btoa (chunks bs [])"

definition b64decode :: "string \<Rightarrow> bytes option" where
  "b64decode s = map_option (map char_code) (atob s)"

section \<open>Decoding what was encoded\<close>

declare chunks.simps [simp del]

lemma chunks_map: "chunks bs binary = binary @ map from_char_code bs"
proof (induction bs binary rule: chunks.induct)
  case (1 bs binary)
  then show ?case
    by (subst chunks.simps) (simp flip: map_append)
qed

lemma char_code_from: "b < 256 \<Longrightarrow> char_code (from_char_code b) = b"
  by (simp add: char_code_def from_char_code_def)

lemma from_char_code_code: "from_char_code (char_code c) = c"
  by (simp add: char_code_def from_char_code_def)

lemma digits_div_mod:
  assumes "y < (n :: nat)"
  shows "(x * n + y) div n = x" "(x * n + y) mod n = y"
  using assms by simp_all

lemma octets_sextets: "is_bytes bs \<Longrightarrow> octets (sextets bs) = bs"
proof (induction bs rule: sextets.induct)
  case (3 a b)
  then have "a < 256" "b < 256" by (simp_all add: is_bytes_def)
  then show ?case by simp
next
  case (4 a b c r)
  then have "a < 256" "b < 256" "c < 256" "octets (sextets r) = r" by (simp_all add: is_bytes_def)
  moreover have "b div 16 < 16" "c div 64 < 4" using \<open>b < 256\<close> \<open>c < 256\<close> by simp_all
  ultimately show ?case by (simp add: digits_div_mod)
qed (simp_all add: is_bytes_def)

lemma sextets_bound: "is_bytes bs \<Longrightarrow> i \<in> set (sextets bs) \<Longrightarrow> i < 64"
proof (induction bs rule: sextets.induct)
  case (4 a b c r)
  then have "a < 256" "b < 256" "c < 256" "is_bytes r" by (simp_all add: is_bytes_def)
  with 4 show ?case by auto
qed (auto simp: is_bytes_def)

lemma length_sextets: "length (sextets bs) = 4 * (length bs div 3) +
  (if length bs mod 3 = 0 then 0 else length bs mod 3 + 1)"
  by (induction bs rule: sextets.induct) (simp_all add: mod_Suc div_Suc, presburger)

lemma index_of_nth: "distinct xs \<Longrightarrow> i < length xs \<Longrightarrow> index_of (xs ! i) xs = Some i"
proof (induction xs arbitrary: i)
  case (Cons x xs)
  then show ?case by (cases i) auto
qed simp

lemma alphabet_ok:
  "length b64_alphabet = 64" "distinct b64_alphabet" "list_all (\<lambda>c. \<not> is_ascii_space c \<and> c \<noteq> CHR ''='') b64_alphabet"
  by (simp_all add: b64_alphabet_def is_ascii_space_def char_code_def)

lemma alphabet_nth:
  assumes "i < 64"
  shows "index_of (b64_alphabet ! i) b64_alphabet = Some i" "\<not> is_ascii_space (b64_alphabet ! i)"
    "b64_alphabet ! i \<noteq> CHR ''=''"
  using assms alphabet_ok index_of_nth [of b64_alphabet i]
  by (auto simp: list_all_length)

lemma strip_pad_btoa:
  assumes "\<forall>c \<in> set cs. c \<noteq> CHR ''=''" "length cs mod 4 = (if k = 0 then 0 else 4 - k)" "k < 3"
  shows "strip_pad (cs @ replicate k (CHR ''='')) = cs"
proof -
  consider "k = 0" | "k = 1" | "k = 2" using assms(3) by linarith
  then show ?thesis
  proof cases
    case 1
    have "drop (length cs - Suc 0) cs \<noteq> ''=''" "drop (length cs - 2) cs \<noteq> ''==''"
      using assms(1) by (metis in_set_dropD list.set_intros(1))+
    with 1 assms(2) show ?thesis by (simp add: strip_pad_def)
  next
    case 2
    have "drop (length cs - 1) (cs @ ''='') \<noteq> ''==''"
    proof (cases cs rule: rev_cases)
      case (snoc ys y)
      then show ?thesis using assms(1) by auto
    qed simp
    with 2 assms(2) show ?thesis by (simp add: strip_pad_def mod_Suc)
  next
    case 3
    with assms(2) show ?thesis by (simp add: strip_pad_def mod_Suc numeral_2_eq_2)
  qed
qed

lemma b64_round_trip:
  assumes "is_bytes bs"
  shows "b64decode (b64encode bs) = Some bs"
proof -
  let ?s = "sextets bs"
  let ?cs = "map (\<lambda>i. b64_alphabet ! i) ?s"
  let ?k = "(3 - length bs mod 3) mod 3"
  have codes: "map char_code (map from_char_code bs) = bs"
    using assms by (induction bs) (simp_all add: is_bytes_def char_code_from)
  have enc: "b64encode bs = ?cs @ replicate ?k (CHR ''='')"
    using codes by (simp add: b64encode_def chunks_map btoa_def)
  have bnd: "\<forall>i \<in> set ?s. i < 64" using sextets_bound [OF assms] by blast
  have m: "length bs mod 3 = 0 \<or> length bs mod 3 = 1 \<or> length bs mod 3 = 2" by linarith
  have len: "length ?cs mod 4 = (if ?k = 0 then 0 else 4 - ?k)"
    using m by (auto simp: length_sextets)
  have nospace: "filter (\<lambda>c. \<not> is_ascii_space c) (?cs @ replicate ?k (CHR ''='')) = ?cs @ replicate ?k (CHR ''='')"
    using bnd alphabet_nth(2) by (intro filter_True) (auto simp: is_ascii_space_def char_code_def)
  have strip: "strip_pad (?cs @ replicate ?k (CHR ''='')) = ?cs"
    using bnd alphabet_nth(3) len by (intro strip_pad_btoa) auto
  have idx: "map (\<lambda>c. index_of c b64_alphabet) ?cs = map Some ?s"
    using bnd alphabet_nth(1) by simp
  have "length ?cs mod 4 \<noteq> 1" using len m by auto
  then have "atob (b64encode bs) = Some (map from_char_code (octets ?s))"
    unfolding atob_def enc nospace strip Let_def idx by (simp add: comp_def)
  then show ?thesis
    using codes octets_sextets [OF assms] by (simp add: b64decode_def)
qed

end
