(* ===== verification/Crypto.thy ===== *)
theory Crypto
  imports Base64 JsMap Messages ChatStore
begin

text \<open>
  End-to-end encryption (\<open>lib/crypto.ts\<close>): the device's key pair in IndexedDB and its
  registration, sealing a message for every device of its readers, opening it again, the cache
  of opened messages, and the password-protected backup of the account's key. The browser's
  WebCrypto and JSON texts are the fields of a \<open>platform\<close>; what they promise is \<open>platform_ok\<close>.
  An \<open>async\<close> function is a machine of steps between its \<open>await\<close>s.
\<close>

section \<open>The platform\<close>

record jwk =
  jwk_x :: string
  jwk_y :: string

record wrapped_key_entry =
  we_user_id :: int
  we_device_id :: string
  wrapped_key :: string
  wrap_iv :: string
  sender_pub_jwk :: jwk

record device_key =
  dk_user_id :: int
  dk_device_id :: string
  public_key_jwk :: string

text \<open>
  \<open>'sk\<close> are private ECDH keys, \<open>'ck\<close> AES-GCM keys. A function that throws returns \<open>None\<close>.
\<close>

record ('sk, 'ck) platform =
  stringify_keys :: "wrapped_key_entry list \<Rightarrow> string"
  parse_keys :: "string \<Rightarrow> wrapped_key_entry list option"
  stringify_jwk :: "jwk \<Rightarrow> string"
  parse_jwk :: "string \<Rightarrow> jwk option"
  derive :: "'sk \<Rightarrow> jwk \<Rightarrow> 'ck option"
  gcm_encrypt :: "'ck \<Rightarrow> bytes \<Rightarrow> bytes \<Rightarrow> bytes"
  gcm_decrypt :: "'ck \<Rightarrow> bytes \<Rightarrow> bytes \<Rightarrow> bytes option"
  export_raw :: "'ck \<Rightarrow> bytes"
  import_raw :: "bytes \<Rightarrow> 'ck option"
  encode_text :: "string \<Rightarrow> bytes"
  decode_text :: "bytes \<Rightarrow> string"
  export_pkcs8 :: "'sk \<Rightarrow> bytes"
  import_pkcs8 :: "bytes \<Rightarrow> 'sk option"
  pbkdf2 :: "string \<Rightarrow> bytes \<Rightarrow> nat \<Rightarrow> 'ck"

text \<open>
  What the standards promise: both sides of ECDH agree on a key, AES-GCM opens what it sealed,
  exported keys import, texts decode, and all of them work on bytes. \<open>pub\<close> gives the public
  half of a private key.
\<close>

definition platform_ok :: "('sk \<Rightarrow> jwk) \<Rightarrow> ('sk, 'ck) platform \<Rightarrow> bool" where
  "platform_ok pub pf \<longleftrightarrow>
     (\<forall>a b. derive pf a (pub b) = derive pf b (pub a) \<and> derive pf a (pub b) \<noteq> None) \<and>
     (\<forall>k iv m. is_bytes m \<longrightarrow> gcm_decrypt pf k iv (gcm_encrypt pf k iv m) = Some m \<and>
        is_bytes (gcm_encrypt pf k iv m)) \<and>
     (\<forall>k. import_raw pf (export_raw pf k) = Some k \<and> is_bytes (export_raw pf k)) \<and>
     (\<forall>s. decode_text pf (encode_text pf s) = s \<and> is_bytes (encode_text pf s)) \<and>
     (\<forall>a. import_pkcs8 pf (export_pkcs8 pf a) = Some a \<and> is_bytes (export_pkcs8 pf a))"

section \<open>State\<close>

text \<open>What IndexedDB holds: key pairs and backup keys.\<close>

datatype (plugins only: size) 'sk stored_key = StoredPair jwk 'sk | StoredBackup 'sk

datatype (plugins only: size) crypto_eff = RegisterDeviceKey string string

record 'sk crypto_state =
  cachedKeyPair :: "(jwk \<times> 'sk) option"
  registerPromise :: bool
  currentUserID :: "int option"
  keyDB :: "string \<rightharpoonup> 'sk stored_key"
  decryptCache :: "(int, string) jsmap"
  sent_to_server :: "crypto_eff list"

definition LEGACY_RECORD_KEY :: string where "LEGACY_RECORD_KEY = ''device''"
definition recordKey :: "int \<Rightarrow> string" where "recordKey u = ''device:'' @ show_int u"
definition BACKUP_DEVICE_ID :: string where "BACKUP_DEVICE_ID = ''backup''"
definition backupRecordKey :: "int \<Rightarrow> string" where "backupRecordKey u = ''backup:'' @ show_int u"

definition idbSet :: "string \<Rightarrow> 'sk stored_key \<Rightarrow> 'sk crypto_state \<Rightarrow> 'sk crypto_state" where
  "idbSet k v st = st\<lparr>keyDB := (keyDB st)(k \<mapsto> v)\<rparr>"

definition idbDelete :: "string \<Rightarrow> 'sk crypto_state \<Rightarrow> 'sk crypto_state" where
  "idbDelete k st = st\<lparr>keyDB := (keyDB st)(k := None)\<rparr>"

definition new_crypto :: "'sk crypto_state" where
  "new_crypto = \<lparr>cachedKeyPair = None, registerPromise = False, currentUserID = None,
     keyDB = Map.empty, decryptCache = [], sent_to_server = []\<rparr>"

definition clearDecryptCache :: "'sk crypto_state \<Rightarrow> 'sk crypto_state" where
  "clearDecryptCache st = st\<lparr>decryptCache := [], cachedKeyPair := None, registerPromise := False,
     currentUserID := None\<rparr>"

section \<open>The device's key pair\<close>

text \<open>
  \<open>getDeviceKeyPair\<close> (with \<open>adoptLegacyKeyPair\<close>) as a machine: where a call stands, with what it
  captured. \<open>HavePair\<close> and \<open>NoPair\<close> are its results.
\<close>

datatype (plugins only: size) 'sk key_job =
    ReadRecord int
  | ReadLegacy int
  | AskServer int jwk 'sk
  | StoreAdopted int jwk 'sk
  | DropLegacy jwk 'sk
  | GenerateKey int
  | StoreNew int jwk 'sk
  | CachePair jwk 'sk
  | HavePair jwk 'sk
  | NoPair string

definition insecure_error :: string where
  "insecure_error = ''WebCrypto is unavailable in insecure HTTP contexts. Connect over HTTPS to enable encryption.''"

definition signed_out_error :: string where
  "signed_out_error = ''E2E keys are not available before sign-in''"

definition getDeviceKeyPair :: "bool \<Rightarrow> 'sk crypto_state \<Rightarrow> 'sk key_job" where
  "getDeviceKeyPair subtle st =
     (if \<not> subtle then NoPair insecure_error
      else (case cachedKeyPair st of
              Some (p, k) \<Rightarrow> HavePair p k
            | None \<Rightarrow> (case currentUserID st of
                         None \<Rightarrow> NoPair signed_out_error
                       | Some u \<Rightarrow> ReadRecord u)))"

text \<open>
  One step: \<open>keys\<close> is the answer of \<open>api.deviceKeys([userID])\<close> (\<open>None\<close>: rejected), \<open>gen\<close> the pair
  that \<open>generateKey\<close> makes.
\<close>

definition legacy_is_mine ::
  "('sk, 'ck) platform \<Rightarrow> string \<Rightarrow> device_key list option \<Rightarrow> jwk \<Rightarrow> bool" where
  "legacy_is_mine pf dev keys p =
     (case keys of
        None \<Rightarrow> False
      | Some ks \<Rightarrow> (case find (\<lambda>k. dk_device_id k = dev) ks of
                      None \<Rightarrow> False
                    | Some mine \<Rightarrow> parse_jwk pf (public_key_jwk mine) = Some p))"

definition key_step ::
  "('sk, 'ck) platform \<Rightarrow> string \<Rightarrow> device_key list option \<Rightarrow> jwk \<times> 'sk \<Rightarrow>
    'sk key_job \<Rightarrow> 'sk crypto_state \<Rightarrow> 'sk key_job \<times> 'sk crypto_state" where
  "key_step pf dev keys gen job st =
     (case job of
        ReadRecord u \<Rightarrow>
          (case keyDB st (recordKey u) of
             Some (StoredPair p k) \<Rightarrow> (HavePair p k, st\<lparr>cachedKeyPair := Some (p, k)\<rparr>)
           | _ \<Rightarrow> (ReadLegacy u, st))
      | ReadLegacy u \<Rightarrow>
          (case keyDB st LEGACY_RECORD_KEY of
             Some (StoredPair p k) \<Rightarrow> (AskServer u p k, st)
           | _ \<Rightarrow> (GenerateKey u, st))
      | AskServer u p k \<Rightarrow> (if legacy_is_mine pf dev keys p then StoreAdopted u p k else GenerateKey u, st)
      | StoreAdopted u p k \<Rightarrow> (DropLegacy p k, idbSet (recordKey u) (StoredPair p k) st)
      | DropLegacy p k \<Rightarrow> (CachePair p k, idbDelete LEGACY_RECORD_KEY st)
      | GenerateKey u \<Rightarrow> (StoreNew u (fst gen) (snd gen), st)
      | StoreNew u p k \<Rightarrow> (CachePair p k, idbSet (recordKey u) (StoredPair p k) st)
      | CachePair p k \<Rightarrow> (HavePair p k, st\<lparr>cachedKeyPair := Some (p, k)\<rparr>)
      | HavePair p k \<Rightarrow> (job, st)
      | NoPair e \<Rightarrow> (job, st))"

definition key_done :: "'sk key_job \<Rightarrow> bool" where
  "key_done job = (case job of HavePair p k \<Rightarrow> True | NoPair e \<Rightarrow> True | _ \<Rightarrow> False)"

text \<open>\<open>ensureDeviceRegistered\<close>: the job it starts, if any; \<open>registered\<close> is its end.\<close>

definition ensureDeviceRegistered ::
  "bool \<Rightarrow> int \<Rightarrow> 'sk crypto_state \<Rightarrow> 'sk key_job option \<times> 'sk crypto_state" where
  "ensureDeviceRegistered subtle u st =
     (if \<not> subtle then (None, st)
      else
        (let st1 = (if currentUserID st \<noteq> Some u
                    then st\<lparr>currentUserID := Some u, cachedKeyPair := None, registerPromise := False\<rparr>
                    else st)
         in if registerPromise st1 then (None, st1)
            else (Some (getDeviceKeyPair subtle st1), st1\<lparr>registerPromise := True\<rparr>)))"

definition registered :: "('sk, 'ck) platform \<Rightarrow> string \<Rightarrow> 'sk key_job \<Rightarrow> 'sk crypto_state \<Rightarrow> 'sk crypto_state" where
  "registered pf dev job st =
     (case job of
        HavePair p k \<Rightarrow> st\<lparr>sent_to_server := sent_to_server st @ [RegisterDeviceKey dev (stringify_jwk pf p)]\<rparr>
      | _ \<Rightarrow> st)"

section \<open>Sealing\<close>

definition usersMissingKeys :: "device_key list \<Rightarrow> int list \<Rightarrow> int list" where
  "usersMissingKeys keys userIDs = filter (\<lambda>u. u \<notin> dk_user_id ` set keys) userIDs"

text \<open>The body of the loop: a device whose key cannot be used is left out.\<close>

definition wrap_for ::
  "('sk, 'ck) platform \<Rightarrow> jwk \<Rightarrow> 'sk \<Rightarrow> bytes \<Rightarrow> bytes \<times> device_key \<Rightarrow> wrapped_key_entry option" where
  "wrap_for pf own priv raw d =
     (case d of (iv, dk) \<Rightarrow>
        (case parse_jwk pf (public_key_jwk dk) of
           None \<Rightarrow> None
         | Some peer \<Rightarrow>
             (case derive pf priv peer of
                None \<Rightarrow> None
              | Some wk \<Rightarrow>
                  Some \<lparr>we_user_id = dk_user_id dk, we_device_id = dk_device_id dk,
                    wrapped_key = b64encode (gcm_encrypt pf wk iv raw), wrap_iv = b64encode iv,
                    sender_pub_jwk = own\<rparr>)))"

definition sealed_entries ::
  "('sk, 'ck) platform \<Rightarrow> jwk \<times> 'sk \<Rightarrow> 'ck \<Rightarrow> bytes list \<Rightarrow> device_key list \<Rightarrow> wrapped_key_entry list" where
  "sealed_entries pf pair contentKey ivs allKeys =
     List.map_filter (wrap_for pf (fst pair) (snd pair) (export_raw pf contentKey)) (zip ivs allKeys)"

text \<open>
  \<open>encryptForRecipients\<close> with the device's pair, the recipients' keys, and what the random
  generator gives: the content key, its IV, one IV for each device. \<open>None\<close>: it throws.
\<close>

definition encryptForRecipients ::
  "('sk, 'ck) platform \<Rightarrow> jwk \<times> 'sk \<Rightarrow> device_key list \<Rightarrow> 'ck \<Rightarrow> bytes \<Rightarrow> bytes list \<Rightarrow>
    string \<Rightarrow> encrypted_payload option" where
  "encryptForRecipients pf pair allKeys contentKey iv ivs plaintext =
     (if allKeys = [] then None
      else Some \<lparr>ep_ciphertext = b64encode (gcm_encrypt pf contentKey iv (encode_text pf plaintext)),
             ep_iv = b64encode iv,
             ep_encKeys = stringify_keys pf (sealed_entries pf pair contentKey ivs allKeys)\<rparr>)"

section \<open>Opening\<close>

text \<open>The \<open>try\<close> of \<open>decryptNow\<close>, with the entry and the private key found.\<close>

definition open_entry ::
  "('sk, 'ck) platform \<Rightarrow> 'sk \<Rightarrow> wrapped_key_entry \<Rightarrow> string \<Rightarrow> string \<Rightarrow> string option" where
  "open_entry pf priv mine msg_iv ciphertext =
     Option.bind (derive pf priv (sender_pub_jwk mine)) (\<lambda>wk.
     Option.bind (b64decode (wrap_iv mine)) (\<lambda>wiv.
     Option.bind (b64decode (wrapped_key mine)) (\<lambda>wrapped.
     Option.bind (gcm_decrypt pf wk wiv wrapped) (\<lambda>raw.
     Option.bind (import_raw pf raw) (\<lambda>ck.
     Option.bind (b64decode msg_iv) (\<lambda>iv.
     Option.bind (b64decode ciphertext) (\<lambda>c.
     map_option (decode_text pf) (gcm_decrypt pf ck iv c))))))))"

text \<open>
  \<open>backup\<close> is the backup's private key on this device, \<open>own\<close> the device's (\<open>None\<close>: getting it
  throws), \<open>cur\<close> the user signed in.
\<close>

definition decryptNow ::
  "('sk, 'ck) platform \<Rightarrow> string \<Rightarrow> int option \<Rightarrow> 'sk option \<Rightarrow> 'sk option \<Rightarrow> message \<Rightarrow> string option" where
  "decryptNow pf dev cur backup own msg =
     (if \<not> str_truthy (enc_keys msg) \<or> \<not> str_truthy (enc_iv msg) then None
      else (case parse_keys pf (the (enc_keys msg)) of
              None \<Rightarrow> None
            | Some entries \<Rightarrow>
                (case find (\<lambda>e. we_device_id e = dev) entries of
                   Some mine \<Rightarrow>
                     Option.bind own (\<lambda>priv. open_entry pf priv mine (the (enc_iv msg)) (content msg))
                 | None \<Rightarrow>
                     (case find (\<lambda>e. we_device_id e = BACKUP_DEVICE_ID \<and> Some (we_user_id e) = cur) entries of
                        None \<Rightarrow> None
                      | Some mine \<Rightarrow>
                          Option.bind backup (\<lambda>priv. open_entry pf priv mine (the (enc_iv msg)) (content msg))))))"

section \<open>The cache of opened messages\<close>

definition MAX_DECRYPT_CACHE :: nat where "MAX_DECRYPT_CACHE = 500"

text \<open>(The source writes an em dash.)\<close>

definition no_https_text :: string where
  "no_https_text = ''[Encrypted message - HTTPS required to decrypt]''"

text \<open>
  \<open>decryptMessageContent\<close> up to its \<open>await\<close>: an answer (\<open>Inl\<close>), or the call of \<open>decryptNow\<close>;
  \<open>decrypt_finish\<close> is what follows it.
\<close>

definition decrypt_begin ::
  "bool \<Rightarrow> message \<Rightarrow> 'sk crypto_state \<Rightarrow> (string + message) \<times> 'sk crypto_state" where
  "decrypt_begin subtle msg st =
     (if \<not> is_encrypted msg then (Inl (content msg), st)
      else if \<not> subtle then (Inl no_https_text, st)
      else (case jm_get (decryptCache st) (mid msg) of
              Some val \<Rightarrow> (Inl val, st\<lparr>decryptCache := jm_set (mid msg) val (jm_delete (mid msg) (decryptCache st))\<rparr>)
            | None \<Rightarrow> (Inr msg, st)))"

definition decrypt_finish :: "int \<Rightarrow> string option \<Rightarrow> 'sk crypto_state \<Rightarrow> 'sk crypto_state" where
  "decrypt_finish i result st =
     (case result of
        None \<Rightarrow> st
      | Some r \<Rightarrow>
          (let c = decryptCache st;
               c1 = (if jm_size c \<ge> MAX_DECRYPT_CACHE
                     then (case jm_keys c of [] \<Rightarrow> c | oldestKey # _ \<Rightarrow> jm_delete oldestKey c)
                     else c)
           in st\<lparr>decryptCache := jm_set i r c1\<rparr>))"

text \<open>
  Many requests at once, as \<open>decryptPending\<close> starts them: the messages \<open>decryptNow\<close> is still opening, and what it gave
  so far. A request begins, or the \<open>n\<close>-th of those under way is answered.
\<close>

record 'sk requests =
  rq_crypto :: "'sk crypto_state"
  rq_open :: "message list"
  rq_given :: "(int \<times> string) list"

datatype decrypt_event = AskFor message | Answered nat "string option"

definition decryptMessageContent :: "decrypt_event \<Rightarrow> 'sk requests \<Rightarrow> 'sk requests" where
  "decryptMessageContent e q =
     (case e of
        AskFor msg \<Rightarrow>
          (case decrypt_begin True msg (rq_crypto q) of
             (Inl _, st) \<Rightarrow> q\<lparr>rq_crypto := st\<rparr>
           | (Inr m, st) \<Rightarrow> q\<lparr>rq_crypto := st, rq_open := rq_open q @ [m]\<rparr>)
      | Answered n opened \<Rightarrow>
          if n < length (rq_open q)
          then (let i = mid (rq_open q ! n) in
                q\<lparr>rq_crypto := decrypt_finish i opened (rq_crypto q), rq_open := take n (rq_open q) @ drop (Suc n) (rq_open q),
                  rq_given := rq_given q @ (case opened of None \<Rightarrow> [] | Some v \<Rightarrow> [(i, v)])\<rparr>)
          else q)"

section \<open>The account's key backup\<close>

record key_backup_data =
  kb_iterations :: nat
  kb_salt :: string
  kb_iv :: string
  kb_ciphertext :: string

definition PBKDF2_ITERATIONS :: nat where "PBKDF2_ITERATIONS = 310000"

definition backupPrivateKey :: "'sk crypto_state \<Rightarrow> 'sk option" where
  "backupPrivateKey st =
     (case currentUserID st of
        None \<Rightarrow> None
      | Some u \<Rightarrow> (case keyDB st (backupRecordKey u) of Some (StoredBackup k) \<Rightarrow> Some k | _ \<Rightarrow> None))"

definition hasBackupKeyOnDevice :: "bool \<Rightarrow> 'sk crypto_state \<Rightarrow> bool" where
  "hasBackupKeyOnDevice subtle st = (subtle \<and> backupPrivateKey st \<noteq> None)"

definition sealBackup ::
  "('sk, 'ck) platform \<Rightarrow> bytes \<Rightarrow> bytes \<Rightarrow> bytes \<Rightarrow> string \<Rightarrow> key_backup_data" where
  "sealBackup pf salt iv pkcs8 password =
     \<lparr>kb_iterations = PBKDF2_ITERATIONS, kb_salt = b64encode salt, kb_iv = b64encode iv,
       kb_ciphertext = b64encode (gcm_encrypt pf (pbkdf2 pf password salt PBKDF2_ITERATIONS) iv pkcs8)\<rparr>"

text \<open>\<open>Inl\<close> is the error thrown, \<open>Inr\<close> the state after a return.\<close>

definition storeBackupKey ::
  "('sk, 'ck) platform \<Rightarrow> bytes \<Rightarrow> 'sk crypto_state \<Rightarrow> string + 'sk crypto_state" where
  "storeBackupKey pf pkcs8 st =
     (case currentUserID st of
        None \<Rightarrow> Inl ''Not signed in''
      | Some u \<Rightarrow>
          (case import_pkcs8 pf pkcs8 of
             None \<Rightarrow> Inl ''importKey''
           | Some priv \<Rightarrow> Inr ((idbSet (backupRecordKey u) (StoredBackup priv) st)\<lparr>decryptCache := []\<rparr>)))"

text \<open>What the server keeps: the sealed key and the public key it was saved with.\<close>

type_synonym server_backup = "(key_backup_data \<times> string) option"

definition createKeyBackup ::
  "('sk, 'ck) platform \<Rightarrow> jwk \<times> 'sk \<Rightarrow> bytes \<Rightarrow> bytes \<Rightarrow> bool \<Rightarrow> string \<Rightarrow>
    server_backup \<times> 'sk crypto_state \<Rightarrow> (string + 'sk crypto_state) \<times> server_backup" where
  "createKeyBackup pf pair salt iv save_ok password w =
     (case w of (srv, st) \<Rightarrow>
        (let pkcs8 = export_pkcs8 pf (snd pair); data = sealBackup pf salt iv pkcs8 password
         in if save_ok
            then (storeBackupKey pf pkcs8 st, Some (data, stringify_jwk pf (fst pair)))
            else (Inl ''saveKeyBackup'', srv)))"

text \<open>
  What the change of the password awaits, in its order. Each of these calls may reject: \<open>fails\<close> gives the error it then
  throws. A rejected \<open>saveKeyBackup\<close> may have been carried out all the same, when only its answer was lost (\<open>stored\<close>).
\<close>

datatype backup_await = ReadBackupKey | ExportBackupKey | AskBackup | AskBackupKeys | SealBackup | SaveBackup

fun first_error :: "(backup_await \<Rightarrow> string option) \<Rightarrow> backup_await list \<Rightarrow> string option" where
  "first_error fails [] = None"
| "first_error fails (c # cs) = (case fails c of Some e \<Rightarrow> Some e | None \<Rightarrow> first_error fails cs)"

definition changeKeyBackupPassword ::
  "('sk, 'ck) platform \<Rightarrow> (backup_await \<Rightarrow> string option) \<Rightarrow> bool \<Rightarrow> bytes \<Rightarrow> bytes \<Rightarrow> device_key list \<Rightarrow> string \<Rightarrow>
    server_backup \<times> 'sk crypto_state \<Rightarrow> (string + 'sk crypto_state) \<times> server_backup" where
  "changeKeyBackupPassword pf fails stored salt iv keys password w =
     (case w of (srv, st) \<Rightarrow>
        (case (currentUserID st, fails ReadBackupKey) of
           (Some _, Some e) \<Rightarrow> (Inl e, srv)
         | _ \<Rightarrow>
        (case backupPrivateKey st of
           None \<Rightarrow> (Inl ''Restore the backup on this device first'', srv)
         | Some priv \<Rightarrow>
        (case first_error fails [ExportBackupKey, AskBackup, AskBackupKeys] of
           Some e \<Rightarrow> (Inl e, srv)
         | None \<Rightarrow>
        (case (srv, find (\<lambda>k. dk_device_id k = BACKUP_DEVICE_ID) keys) of
           (Some _, Some pub) \<Rightarrow>
             (let srv' = Some (sealBackup pf salt iv (export_pkcs8 pf priv) password, public_key_jwk pub)
              in (case (fails SealBackup, fails SaveBackup) of
                    (Some e, _) \<Rightarrow> (Inl e, srv)
                  | (None, Some e) \<Rightarrow> (Inl e, if stored then srv' else srv)
                  | (None, None) \<Rightarrow> (Inr st, srv')))
         | _ \<Rightarrow> (Inl ''There is no backup to update'', srv))))))"

definition restoreKeyBackup ::
  "('sk, 'ck) platform \<Rightarrow> string \<Rightarrow> server_backup \<Rightarrow> 'sk crypto_state \<Rightarrow> string + 'sk crypto_state" where
  "restoreKeyBackup pf password srv st =
     (case srv of
        None \<Rightarrow> Inl ''There is no backup for this account''
      | Some (d, _) \<Rightarrow>
          (case b64decode (kb_salt d) of
             None \<Rightarrow> Inl ''atob''
           | Some salt \<Rightarrow>
               (case Option.bind (b64decode (kb_iv d)) (\<lambda>iv. Option.bind (b64decode (kb_ciphertext d))
                       (gcm_decrypt pf (pbkdf2 pf password salt (kb_iterations d)) iv)) of
                  None \<Rightarrow> Inl ''That password doesn't match the backup''
                | Some pkcs8 \<Rightarrow> storeBackupKey pf pkcs8 st)))"

definition deleteKeyBackup :: "'sk crypto_state \<Rightarrow> 'sk crypto_state \<times> server_backup" where
  "deleteKeyBackup st =
     (case currentUserID st of
        None \<Rightarrow> (st, None)
      | Some u \<Rightarrow> (idbDelete (backupRecordKey u) st, None))"

end
