(* ===== verification/CryptoLaws.thy ===== *)
theory CryptoLaws
  imports Crypto
begin

text \<open>
  The properties of the encryption: a sealed message opens on every device it was sealed for and
  through the backup, the cache is a least-recently-used cache of bounded size, the key pair is
  made once and kept, the backup restores the key; and where two accounts share a browser or a
  log-out overtakes a key look-up, what goes wrong.
\<close>

section \<open>Sealing and opening\<close>

lemma platform_okD:
  assumes "platform_ok pub pf"
  shows "derive pf a (pub b) = derive pf b (pub a)" "\<exists>k. derive pf a (pub b) = Some k"
    "is_bytes m \<Longrightarrow> gcm_decrypt pf k iv (gcm_encrypt pf k iv m) = Some m"
    "is_bytes m \<Longrightarrow> is_bytes (gcm_encrypt pf k iv m)"
    "import_raw pf (export_raw pf k) = Some k" "is_bytes (export_raw pf k)"
    "decode_text pf (encode_text pf s) = s" "is_bytes (encode_text pf s)"
    "import_pkcs8 pf (export_pkcs8 pf a) = Some a" "is_bytes (export_pkcs8 pf a)"
  using assms by (auto simp: platform_ok_def)

lemma open_wrapped:
  assumes "platform_ok pub pf" "wrap_for pf (pub sk) sk (export_raw pf ck) (wiv, dk) = Some e"
    and "parse_jwk pf (public_key_jwk dk) = Some (pub dsk)" "is_bytes wiv" "is_bytes iv"
  shows "open_entry pf dsk e (b64encode iv) (b64encode (gcm_encrypt pf ck iv (encode_text pf t))) = Some t"
proof -
  obtain k where k: "derive pf sk (pub dsk) = Some k" using platform_okD(2) [OF assms(1)] by blast
  then have e: "sender_pub_jwk e = pub sk" "wrap_iv e = b64encode wiv"
    "wrapped_key e = b64encode (gcm_encrypt pf k wiv (export_raw pf ck))"
    using assms(2,3) by (auto simp: wrap_for_def)
  have "derive pf dsk (pub sk) = Some k" using k platform_okD(1) [OF assms(1), of dsk sk] by simp
  then show ?thesis
    using assms(4,5) by (simp add: open_entry_def e b64_round_trip platform_okD [OF assms(1)])
qed

lemma wrap_for_ids: "wrap_for pf own priv raw (iv, dk) = Some e \<Longrightarrow>
    we_device_id e = dk_device_id dk \<and> we_user_id e = dk_user_id dk"
  by (auto simp: wrap_for_def split: option.splits)

lemma find_map_filter:
  assumes "x \<in> set xs" "f x = Some e" "P e"
  obtains x' e' where "find P (List.map_filter f xs) = Some e'" "x' \<in> set xs" "f x' = Some e'" "P e'"
proof -
  have "e \<in> set (List.map_filter f xs)" using assms(1,2) by (force simp: List.map_filter_def)
  then have "find P (List.map_filter f xs) \<noteq> None" using assms(3) by (auto simp: find_None_iff)
  then obtain e' where e': "find P (List.map_filter f xs) = Some e'" by blast
  then have "e' \<in> set (List.map_filter f xs)" "P e'" by (auto simp: find_Some_iff)
  then show ?thesis using that e' by (auto simp: List.map_filter_def)
qed

text \<open>Among the entries of a sealed message, the first one satisfying a test of the ids.\<close>

lemma sealed_find:
  assumes ok: "platform_ok pub pf" and dk: "dk \<in> set keys" "parse_jwk pf (public_key_jwk dk) = Some (pub dsk)"
    and ivs: "length ivs = length keys" "list_all is_bytes ivs" and iv: "is_bytes iv"
    and only: "\<forall>d \<in> set keys. Q (dk_device_id d) (dk_user_id d) \<longrightarrow> d = dk" and q: "Q (dk_device_id dk) (dk_user_id dk)"
  obtains e where "find (\<lambda>e. Q (we_device_id e) (we_user_id e)) (sealed_entries pf (pub sk, sk) ck ivs keys) = Some e"
    and "open_entry pf dsk e (b64encode iv) (b64encode (gcm_encrypt pf ck iv (encode_text pf t))) = Some t"
proof -
  let ?f = "wrap_for pf (pub sk) sk (export_raw pf ck)"
  obtain wiv where w: "(wiv, dk) \<in> set (zip ivs keys)"
    using dk(1) ivs(1) by (metis in_set_impl_in_set_zip2 surj_pair)
  obtain k where "derive pf sk (pub dsk) = Some k" using platform_okD(2) [OF ok] by blast
  then obtain e where e: "?f (wiv, dk) = Some e" using dk(2) by (auto simp: wrap_for_def)
  obtain x' e' where x': "find (\<lambda>e. Q (we_device_id e) (we_user_id e)) (List.map_filter ?f (zip ivs keys)) = Some e'"
    and "x' \<in> set (zip ivs keys)" "?f x' = Some e'" "Q (we_device_id e') (we_user_id e')"
    by (rule find_map_filter [where f = ?f and P = "\<lambda>e. Q (we_device_id e) (we_user_id e)", OF w e]) (use q wrap_for_ids [OF e] in auto)
  moreover obtain wiv' dk' where s: "x' = (wiv', dk')" by fastforce
  ultimately have "dk' = dk" using only wrap_for_ids [of pf "pub sk" sk _ wiv' dk' e'] by (auto dest: set_zip_rightD)
  moreover have "is_bytes wiv'"
    using \<open>x' \<in> set (zip ivs keys)\<close> ivs(2) s by (auto simp: list_all_iff dest: set_zip_leftD)
  ultimately have "open_entry pf dsk e' (b64encode iv) (b64encode (gcm_encrypt pf ck iv (encode_text pf t))) = Some t"
    using open_wrapped [OF ok _ dk(2) _ iv] \<open>?f x' = Some e'\<close> s by blast
  then show ?thesis using that x' by (simp add: sealed_entries_def)
qed

definition carries :: "message \<Rightarrow> encrypted_payload \<Rightarrow> bool" where
  "carries m p \<longleftrightarrow> content m = ep_ciphertext p \<and> enc_iv m = Some (ep_iv p) \<and> enc_keys m = Some (ep_encKeys p)"

lemma find_append: "find P (xs @ ys) = (case find P xs of None \<Rightarrow> find P ys | Some x \<Rightarrow> Some x)"
  by (induction xs) simp_all

lemma map_filter_append: "List.map_filter f (xs @ ys) = List.map_filter f xs @ List.map_filter f ys"
  by (simp add: List.map_filter_def)

lemma b64encode_nonempty: "is_bytes bs \<Longrightarrow> bs \<noteq> [] \<Longrightarrow> b64encode bs \<noteq> []"
proof
  assume bs: "is_bytes bs" "bs \<noteq> []" and "b64encode bs = []"
  then have "b64decode [] = Some bs" using b64_round_trip by metis
  then show False using bs(2) by (simp add: b64decode_def atob_def strip_pad_def Let_def)
qed

lemma sealed_opens_on_device:
  assumes "platform_ok pub pf" "encryptForRecipients pf (pub sk, sk) keys ck iv ivs plaintext = Some p"
    and "parse_keys pf (ep_encKeys p) = Some (sealed_entries pf (pub sk, sk) ck ivs keys)" "ep_encKeys p \<noteq> []"
    and "length ivs = length keys" "list_all is_bytes ivs" "is_bytes iv" "iv \<noteq> []" "carries m p"
    and "dk \<in> set keys" "parse_jwk pf (public_key_jwk dk) = Some (pub dsk)"
    and only: "\<forall>d \<in> set keys. dk_device_id d = dk_device_id dk \<longrightarrow> d = dk"
  shows "decryptNow pf (dk_device_id dk) cur backup (Some dsk) m = Some plaintext"
proof -
  let ?es = "sealed_entries pf (pub sk, sk) ck ivs keys"
  have p: "ep_ciphertext p = b64encode (gcm_encrypt pf ck iv (encode_text pf plaintext))" "ep_iv p = b64encode iv"
    using assms(2) by (auto simp: encryptForRecipients_def split: if_splits)
  have truthy: "str_truthy (enc_keys m)" "str_truthy (enc_iv m)"
    using assms(4,9) b64encode_nonempty [OF assms(7,8)] by (simp_all add: carries_def p)
  obtain e where "find (\<lambda>e. we_device_id e = dk_device_id dk) ?es = Some e"
    "open_entry pf dsk e (b64encode iv) (b64encode (gcm_encrypt pf ck iv (encode_text pf plaintext))) = Some plaintext"
    by (rule sealed_find [OF assms(1,10,11,5-7), where Q = "\<lambda>d u. d = dk_device_id dk" and t = plaintext and sk = sk and ck = ck])
      (use only in auto)
  then show ?thesis using truthy assms(3,9) by (simp add: decryptNow_def carries_def p)
qed

text \<open>
  C23. A message sealed for a list of devices opens to the text it was sealed from on each of them that shares its device id with
  no other recipient (two accounts of one browser do share it, see below): on the device itself, and on any device of the same
  account that was not a recipient and has restored the backup, when the backup was one.
\<close>

theorem sealed_message_opens:
  assumes "platform_ok pub pf" "encryptForRecipients pf (pub sk, sk) keys ck iv ivs plaintext = Some p"
    and "parse_keys pf (ep_encKeys p) = Some (sealed_entries pf (pub sk, sk) ck ivs keys)" "ep_encKeys p \<noteq> []"
    and "length ivs = length keys" "list_all is_bytes ivs" "is_bytes iv" "iv \<noteq> []" "carries m p"
    and "dk \<in> set keys" "parse_jwk pf (public_key_jwk dk) = Some (pub dsk)"
  shows "((\<forall>d \<in> set keys. dk_device_id d = dk_device_id dk \<longrightarrow> d = dk) \<longrightarrow>
      decryptNow pf (dk_device_id dk) cur backup (Some dsk) m = Some plaintext) \<and>
    (dk_device_id dk = BACKUP_DEVICE_ID \<and> dev \<notin> dk_device_id ` set keys \<and>
      (\<forall>d \<in> set keys. dk_device_id d = BACKUP_DEVICE_ID \<and> dk_user_id d = dk_user_id dk \<longrightarrow> d = dk) \<longrightarrow>
      decryptNow pf dev (Some (dk_user_id dk)) (Some dsk) own m = Some plaintext)"
proof -
  let ?es = "sealed_entries pf (pub sk, sk) ck ivs keys"
  have p: "ep_ciphertext p = b64encode (gcm_encrypt pf ck iv (encode_text pf plaintext))" "ep_iv p = b64encode iv"
    using assms(2) by (auto simp: encryptForRecipients_def split: if_splits)
  have truthy: "str_truthy (enc_keys m)" "str_truthy (enc_iv m)"
    using assms(4,9) b64encode_nonempty [OF assms(7,8)] by (simp_all add: carries_def p)
  note sf = sealed_find [OF assms(1,10,11,5-7)]
  have "decryptNow pf (dk_device_id dk) cur backup (Some dsk) m = Some plaintext"
    if h: "\<forall>d \<in> set keys. dk_device_id d = dk_device_id dk \<longrightarrow> d = dk"
    by (rule sealed_opens_on_device [OF assms h])
  moreover have "decryptNow pf dev (Some (dk_user_id dk)) (Some dsk) own m = Some plaintext"
    if h: "dk_device_id dk = BACKUP_DEVICE_ID" "dev \<notin> dk_device_id ` set keys"
      "\<forall>d \<in> set keys. dk_device_id d = BACKUP_DEVICE_ID \<and> dk_user_id d = dk_user_id dk \<longrightarrow> d = dk"
  proof -
    have "find (\<lambda>e. we_device_id e = dev) ?es = None"
      using h(2) wrap_for_ids by (fastforce simp: find_None_iff sealed_entries_def List.map_filter_def dest: set_zip_rightD)
    moreover obtain e where "find (\<lambda>e. we_device_id e = BACKUP_DEVICE_ID \<and> Some (we_user_id e) = Some (dk_user_id dk)) ?es = Some e"
      "open_entry pf dsk e (b64encode iv) (b64encode (gcm_encrypt pf ck iv (encode_text pf plaintext))) = Some plaintext"
      by (rule sf [where Q = "\<lambda>d u. d = BACKUP_DEVICE_ID \<and> Some u = Some (dk_user_id dk)" and t = plaintext and sk = sk
            and ck = ck]) (use h in auto)
    ultimately show ?thesis using truthy assms(3,9) by (simp add: decryptNow_def carries_def p)
  qed
  ultimately show ?thesis by blast
qed

text \<open>A platform to evaluate with: keys are numbers, sealing prepends the key.\<close>

definition ex_pub :: "nat \<Rightarrow> jwk" where "ex_pub n = \<lparr>jwk_x = replicate n (CHR ''a''), jwk_y = []\<rparr>"

definition ex_pf :: "wrapped_key_entry list \<Rightarrow> (nat, nat) platform" where
  "ex_pf es = \<lparr>stringify_keys = (\<lambda>_. ''keys''), parse_keys = (\<lambda>_. Some es), stringify_jwk = jwk_x,
     parse_jwk = (\<lambda>s. Some \<lparr>jwk_x = s, jwk_y = []\<rparr>), derive = (\<lambda>a j. Some (a + length (jwk_x j))),
     gcm_encrypt = (\<lambda>k iv m. k mod 256 # m),
     gcm_decrypt = (\<lambda>k iv c. case c of [] \<Rightarrow> None | x # m \<Rightarrow> if x = k mod 256 then Some m else None),
     export_raw = (\<lambda>k. replicate k 0), import_raw = (\<lambda>b. Some (length b)), encode_text = map char_code,
     decode_text = map from_char_code, export_pkcs8 = (\<lambda>k. replicate k 0), import_pkcs8 = (\<lambda>b. Some (length b)),
     pbkdf2 = (\<lambda>pw salt n. length pw)\<rparr>"

lemma ex_pf_ok: "platform_ok ex_pub (ex_pf es)"
proof -
  have "is_bytes (map char_code s)" for s by (induction s) (simp_all add: is_bytes_def char_code_def)
  moreover have "map (from_char_code \<circ> char_code) s = s" for s by (induction s) (simp_all add: from_char_code_code)
  ultimately show ?thesis by (simp add: platform_ok_def ex_pf_def ex_pub_def is_bytes_def list_all_iff)
qed

definition ex_key :: "int \<Rightarrow> string \<Rightarrow> nat \<Rightarrow> device_key" where
  "ex_key u dev n = \<lparr>dk_user_id = u, dk_device_id = dev, public_key_jwk = jwk_x (ex_pub n)\<rparr>"

lemma ex_key_jwk: "parse_jwk (ex_pf es) (public_key_jwk (ex_key u dev n)) = Some (ex_pub n)"
  by (simp add: ex_pf_def ex_key_def ex_pub_def)

definition ex_sealed :: "device_key list \<Rightarrow> wrapped_key_entry list" where
  "ex_sealed keys = sealed_entries (ex_pf []) (ex_pub 4, 4) 5 (map (\<lambda>_. [7]) keys) keys"

lemma ex_sealed_any: "sealed_entries (ex_pf es) (ex_pub 4, 4) 5 (map (\<lambda>_. [7]) keys) keys = ex_sealed keys"
proof -
  have "wrap_for (ex_pf es) own priv raw = wrap_for (ex_pf []) own priv raw" for own priv raw
    by (simp add: fun_eq_iff wrap_for_def ex_pf_def)
  then show ?thesis by (simp add: ex_sealed_def sealed_entries_def ex_pf_def)
qed

definition ex_payload :: "device_key list \<Rightarrow> encrypted_payload" where
  "ex_payload keys = the (encryptForRecipients (ex_pf (ex_sealed keys)) (ex_pub 4, 4) keys 5 [9] (map (\<lambda>_. [7]) keys) ''hi'')"

lemma ex_payload:
  assumes "keys \<noteq> []"
  shows "encryptForRecipients (ex_pf (ex_sealed keys)) (ex_pub 4, 4) keys 5 [9] (map (\<lambda>_. [7]) keys) ''hi'' =
      Some (ex_payload keys)"
    "parse_keys (ex_pf (ex_sealed keys)) (ep_encKeys (ex_payload keys)) =
      Some (sealed_entries (ex_pf (ex_sealed keys)) (ex_pub 4, 4) 5 (map (\<lambda>_. [7]) keys) keys)"
    "ep_encKeys (ex_payload keys) \<noteq> []"
  using assms by (simp_all add: ex_payload_def encryptForRecipients_def ex_sealed_any) (simp_all add: ex_pf_def)

definition sealed_msg :: "encrypted_payload \<Rightarrow> message" where
  "sealed_msg p = \<lparr>mid = 3, sender_id = 9, recipient_id = Some 7, group_id = None, file_id = None,
     content = ep_ciphertext p, sent_at = Iso 0, delivered_at = None, read_at = None, deleted_at = None,
     edited_at = None, reply_to_id = None, pinned_at = None, is_encrypted = True, enc_iv = Some (ep_iv p),
     enc_keys = Some (ep_encKeys p), reply_to = None, reactions = None, sender = None, mfile = None,
     pending = False, failed = False, clientID = None\<rparr>"

lemma carries_sealed_msg: "carries (sealed_msg p) p"
  by (simp add: carries_def sealed_msg_def)

theorem sealed_message_opens_witness:
  "decryptNow (ex_pf (ex_sealed [ex_key 7 ''phone'' 2, ex_key 7 ''backup'' 3])) ''phone'' (Some 7) None (Some 2)
     (sealed_msg (ex_payload [ex_key 7 ''phone'' 2, ex_key 7 ''backup'' 3])) = Some ''hi''"
proof -
  let ?keys = "[ex_key 7 ''phone'' 2, ex_key 7 ''backup'' 3]"
  have "?keys \<noteq> []" by simp
  moreover have "length (map (\<lambda>_. [7]) ?keys) = length ?keys" "list_all is_bytes (map (\<lambda>_. [7]) ?keys)"
    "is_bytes [9]" "[9 :: byte] \<noteq> []" "ex_key 7 ''phone'' 2 \<in> set ?keys"
    by (simp_all add: is_bytes_def)
  moreover have "\<forall>d \<in> set ?keys. dk_device_id d = dk_device_id (ex_key 7 ''phone'' 2) \<longrightarrow> d = ex_key 7 ''phone'' 2"
    by (simp add: ex_key_def)
  ultimately have "decryptNow (ex_pf (ex_sealed ?keys)) (dk_device_id (ex_key 7 ''phone'' 2)) (Some 7) None (Some 2)
      (sealed_msg (ex_payload ?keys)) = Some ''hi''"
    using sealed_message_opens [OF ex_pf_ok ex_payload [of ?keys] _ _ _ _ carries_sealed_msg _ ex_key_jwk,
        THEN conjunct1, rule_format]
    by blast
  then show ?thesis by (simp add: ex_key_def)
qed

section \<open>Two accounts in one browser\<close>

text \<open>
  Two accounts of one browser have the same device id, and only the id is looked for: when
  both are recipients of a message and the other account's entry comes first, the message does
  not open for the account signed in, although its own entry is there and would open it.
\<close>

theorem shared_browser_cannot_open:
  assumes "platform_ok pub pf" "keys = pre @ dA # post"
    and "encryptForRecipients pf (pub sk, sk) keys ck iv ivs plaintext = Some p"
    and "parse_keys pf (ep_encKeys p) = Some (sealed_entries pf (pub sk, sk) ck ivs keys)"
    and "length ivs = length keys" "list_all is_bytes ivs" "is_bytes iv" "carries m p"
    and "\<forall>d \<in> set pre. dk_device_id d \<noteq> dev" "dk_device_id dA = dev" "dB \<in> set post" "dk_device_id dB = dev"
    and "parse_jwk pf (public_key_jwk dA) = Some (pub skA)" "parse_jwk pf (public_key_jwk dB) = Some (pub skB)"
    and "derive pf sk (pub skA) = Some kA" "derive pf sk (pub skB) = Some kB"
    and "\<And>iv m. gcm_decrypt pf kB iv (gcm_encrypt pf kA iv m) = None"
  shows "decryptNow pf dev (Some (dk_user_id dB)) backup (Some skB) m = None \<and>
    (\<exists>e \<in> set (sealed_entries pf (pub sk, sk) ck ivs keys). we_device_id e = dev \<and> we_user_id e = dk_user_id dB \<and>
      open_entry pf skB e (ep_iv p) (ep_ciphertext p) = Some plaintext)"
proof -
  let ?f = "wrap_for pf (pub sk) sk (export_raw pf ck)"
  let ?es = "sealed_entries pf (pub sk, sk) ck ivs keys"
  define as wa bs where "as = take (length pre) ivs" "wa = ivs ! length pre" "bs = drop (Suc (length pre)) ivs"
  have n: "length pre < length ivs" using assms(2,5) by simp
  have ivs: "ivs = as @ wa # bs" "length as = length pre" "length bs = length post"
    using id_take_nth_drop [OF n] n assms(2,5) by (simp_all add: as_wa_bs_def)
  obtain eA where eA: "?f (wa, dA) = Some eA" "we_device_id eA = dev" "sender_pub_jwk eA = pub sk"
    "wrap_iv eA = b64encode wa" "wrapped_key eA = b64encode (gcm_encrypt pf kA wa (export_raw pf ck))"
    using assms(10,13,15) by (simp add: wrap_for_def)
  have "find (\<lambda>e. we_device_id e = dev) (List.map_filter ?f (zip as pre)) = None"
    using assms(9) wrap_for_ids by (fastforce simp: find_None_iff List.map_filter_def dest: set_zip_rightD)
  then have first: "find (\<lambda>e. we_device_id e = dev) ?es = Some eA"
    using eA(1,2) ivs(2) by (simp add: sealed_entries_def assms(2) ivs(1) find_append map_filter_append)
  have "derive pf skB (pub sk) = Some kB" using assms(16) platform_okD(1) [OF assms(1), of skB sk] by simp
  moreover have "is_bytes wa" using assms(6) ivs(1) by simp
  ultimately have "open_entry pf skB eA i c = None" for i c
    using eA assms(17) by (simp add: open_entry_def b64_round_trip platform_okD [OF assms(1)])
  then have "decryptNow pf dev (Some (dk_user_id dB)) backup (Some skB) m = None"
    using first assms(4,8) by (simp add: decryptNow_def carries_def)
  moreover obtain wb where wb: "(wb, dB) \<in> set (zip bs post)"
    using assms(11) ivs(3) by (metis in_set_impl_in_set_zip2 surj_pair)
  then obtain eB where eB: "?f (wb, dB) = Some eB" using assms(14,16) by (simp add: wrap_for_def)
  have "eB \<in> set ?es"
    using wb eB ivs by (force simp: sealed_entries_def assms(2) List.map_filter_def)
  moreover have "is_bytes wb" using wb assms(6) by (auto simp: ivs(1) list_all_iff dest: set_zip_leftD)
  then have "open_entry pf skB eB (ep_iv p) (ep_ciphertext p) = Some plaintext"
    using open_wrapped [OF assms(1) eB assms(14) _ assms(7)] assms(3)
    by (auto simp: encryptForRecipients_def split: if_splits)
  ultimately show ?thesis using wrap_for_ids [OF eB] assms(12) by blast
qed

theorem shared_browser_cannot_open_witness:
  "decryptNow (ex_pf (ex_sealed [ex_key 7 ''kiosk'' 2, ex_key 8 ''kiosk'' 3])) ''kiosk'' (Some 8) None (Some 3)
     (sealed_msg (ex_payload [ex_key 7 ''kiosk'' 2, ex_key 8 ''kiosk'' 3])) = None"
proof -
  let ?A = "ex_key 7 ''kiosk'' 2" and ?B = "ex_key 8 ''kiosk'' 3"
  let ?pf = "ex_pf (ex_sealed [?A, ?B])"
  note e = ex_payload [of "[?A, ?B]", OF list.simps(3)]
  have "decryptNow ?pf ''kiosk'' (Some (dk_user_id ?B)) None (Some 3) (sealed_msg (ex_payload [?A, ?B])) = None"
    by (rule shared_browser_cannot_open [of ex_pub ?pf "[?A, ?B]" "[]" ?A "[?B]", OF ex_pf_ok _ e(1,2) _ _ _
          carries_sealed_msg _ _ _ _ ex_key_jwk ex_key_jwk, where kA = 6 and kB = 7, THEN conjunct1])
      (simp_all add: is_bytes_def ex_key_def ex_pf_def ex_pub_def)
  then show ?thesis by (simp add: ex_key_def)
qed

section \<open>The cache\<close>

text \<open>The specification: the ids of the last 500 uses, the oldest use first, and the ids being opened.\<close>

definition lru_use :: "int \<Rightarrow> int list \<Rightarrow> int list" where
  "lru_use i ids = (let ids' = removeAll i ids @ [i] in drop (length ids' - MAX_DECRYPT_CACHE) ids')"

definition lru_step :: "decrypt_event \<Rightarrow> int list \<times> int list \<Rightarrow> int list \<times> int list" where
  "lru_step e x = (case x of (ids, asked) \<Rightarrow>
     (case e of
        AskFor m \<Rightarrow>
          if \<not> is_encrypted m then x
          else if mid m \<in> set ids then (lru_use (mid m) ids, asked) else (ids, asked @ [mid m])
      | Answered n opened \<Rightarrow>
          if n < length asked
          then (if opened = None then ids else lru_use (asked ! n) ids, take n asked @ drop (Suc n) asked)
          else x))"

text \<open>No message is asked for while it is being opened.\<close>

fun no_overlap :: "decrypt_event list \<Rightarrow> 'sk requests \<Rightarrow> bool" where
  "no_overlap [] q = True"
| "no_overlap (e # es) q =
     ((case e of AskFor m \<Rightarrow> \<not> is_encrypted m \<or> mid m \<notin> mid ` set (rq_open q) | _ \<Rightarrow> True) \<and>
      no_overlap es (decryptMessageContent e q))"

abbreviation cached :: "'sk requests \<Rightarrow> (int, string) jsmap" where
  "cached q \<equiv> decryptCache (rq_crypto q)"

definition cache_ok :: "(int, string) jsmap \<Rightarrow> bool" where
  "cache_ok c \<longleftrightarrow> jm_inv c \<and> length (jm_keys c) \<le> MAX_DECRYPT_CACHE"

lemma decrypt_finish_keys:
  assumes "cache_ok (decryptCache st)" "jm_get (decryptCache st) i = None"
  shows "jm_keys (decryptCache (decrypt_finish i (Some r) st)) = lru_use i (jm_keys (decryptCache st))"
proof -
  let ?c = "decryptCache st"
  have inv: "jm_inv ?c" "distinct (jm_keys ?c)" and le: "length (jm_keys ?c) \<le> MAX_DECRYPT_CACHE"
    using assms(1) by (simp_all add: cache_ok_def jm.invar_keys)
  have i: "i \<notin> set (jm_keys ?c)" using assms(2) by (rule jm.keys_unmapped)
  then have use: "lru_use i (jm_keys ?c) = drop (Suc (length (jm_keys ?c)) - MAX_DECRYPT_CACHE) (jm_keys ?c @ [i])"
    by (simp add: lru_use_def)
  show ?thesis
  proof (cases "jm_size ?c \<ge> MAX_DECRYPT_CACHE")
    case False
    then show ?thesis using assms(2) use by (simp add: decrypt_finish_def jm_size_keys jm.keys_put)
  next
    case True
    then have full: "length (jm_keys ?c) = MAX_DECRYPT_CACHE" using le by (simp add: jm_size_keys)
    then obtain k ks where ks: "jm_keys ?c = k # ks" by (cases "jm_keys ?c") (auto simp: MAX_DECRYPT_CACHE_def)
    then have "jm_keys (jm_delete k ?c) = ks" using inv(2) by (auto simp: jm.keys_del filter_id_conv)
    moreover have "jm_get (jm_delete k ?c) i = None" using assms(2) by (simp add: jm.get_del)
    ultimately show ?thesis using True use full ks by (simp add: decrypt_finish_def jm.keys_put Let_def)
  qed
qed

text \<open>The bound holds even when the id came in meanwhile.\<close>

lemma finish_cache_ok:
  assumes "cache_ok (decryptCache st)"
  shows "cache_ok (decryptCache (decrypt_finish i r st))"
proof (cases r)
  case None
  then show ?thesis using assms by (simp add: decrypt_finish_def)
next
  case (Some v)
  let ?c = "decryptCache st"
  have inv: "jm_inv ?c" "distinct (jm_keys ?c)" and le: "length (jm_keys ?c) \<le> MAX_DECRYPT_CACHE"
    using assms by (simp_all add: cache_ok_def jm.invar_keys)
  have put: "length (jm_keys (jm_set i v c)) \<le> Suc (length (jm_keys c))" for c :: "(int, string) jsmap"
    by (simp add: jm.keys_put)
  show ?thesis
  proof (cases "jm_size ?c \<ge> MAX_DECRYPT_CACHE")
    case False
    then show ?thesis
      using Some inv(1) put [of ?c] by (simp add: cache_ok_def decrypt_finish_def jm_size_keys jm.invar_put)
  next
    case True
    then obtain k ks where ks: "jm_keys ?c = k # ks" by (cases "jm_keys ?c") (auto simp: MAX_DECRYPT_CACHE_def jm_size_keys)
    then have "jm_keys (jm_delete k ?c) = ks" using inv(2) by (auto simp: jm.keys_del filter_id_conv)
    then show ?thesis
      using Some True inv(1) put [of "jm_delete k ?c"] ks le
      by (simp add: cache_ok_def decrypt_finish_def Let_def jm.invar_put jm.invar_del)
  qed
qed

text \<open>What a hit does.\<close>

lemma hit_keys:
  assumes "cache_ok c" "jm_get c i = Some v"
  shows "jm_keys (jm_set i v (jm_delete i c)) = lru_use i (jm_keys c) \<and> cache_ok (jm_set i v (jm_delete i c))"
proof -
  have inv: "jm_inv c" and len: "length (jm_keys (jm_set i v (jm_delete i c))) \<le> MAX_DECRYPT_CACHE"
    using assms jm.length_refresh [OF _ assms(2)] by (auto simp: cache_ok_def)
  have "jm_keys (jm_set i v (jm_delete i c)) = removeAll i (jm_keys c) @ [i]"
    using jm.refresh(2) [OF assms(2)] by (simp add: removeAll_filter_not_eq eq_commute)
  then show ?thesis using len inv by (simp add: lru_use_def cache_ok_def jm.invar_put jm.invar_del)
qed

text \<open>What holds however the requests overlap.\<close>

definition requests_ok :: "'sk requests \<Rightarrow> bool" where
  "requests_ok q = (cache_ok (cached q) \<and> (\<forall>i v. jm_get (cached q) i = Some v \<longrightarrow> (i, v) \<in> set (rq_given q)))"

lemma finish_values:
  "jm_get (decryptCache (decrypt_finish i r st)) j = Some v \<Longrightarrow> jm_get (decryptCache st) j = Some v \<or> j = i \<and> r = Some v"
  by (auto simp: decrypt_finish_def Let_def jm.get_put jm.get_del split: option.splits if_splits list.splits)

lemma requests_ok_step:
  assumes "requests_ok q"
  shows "requests_ok (decryptMessageContent e q)"
proof -
  have ok: "cache_ok (cached q)" and val: "\<And>i v. jm_get (cached q) i = Some v \<Longrightarrow> (i, v) \<in> set (rq_given q)"
    using assms by (auto simp: requests_ok_def)
  show ?thesis
  proof (cases e)
    case (AskFor m)
    show ?thesis
    proof (cases "is_encrypted m \<and> jm_get (cached q) (mid m) \<noteq> None")
      case True
      then obtain v where v: "jm_get (cached q) (mid m) = Some v" by auto
      have "(i, x) \<in> set (rq_given q)" if "jm_get (jm_set (mid m) v (jm_delete (mid m) (cached q))) i = Some x" for i x
        using that v val by (auto simp: jm.get_put jm.get_del split: if_splits)
      then show ?thesis using True v hit_keys [OF ok v] AskFor
        by (simp add: requests_ok_def decryptMessageContent_def decrypt_begin_def)
    next
      case False
      then have "decryptMessageContent e q = q \<or> decryptMessageContent e q = q\<lparr>rq_open := rq_open q @ [m]\<rparr>"
        using AskFor by (auto simp: decryptMessageContent_def decrypt_begin_def)
      then show ?thesis using assms by (auto simp: requests_ok_def)
    qed
  next
    case (Answered n r)
    show ?thesis
    proof (cases "n < length (rq_open q)")
      case True
      let ?i = "mid (rq_open q ! n)"
      have "(j, v) \<in> set (rq_given q @ (case r of None \<Rightarrow> [] | Some v \<Rightarrow> [(?i, v)]))"
        if "jm_get (decryptCache (decrypt_finish ?i r (rq_crypto q))) j = Some v" for j v
        using finish_values [OF that] val by auto
      then show ?thesis using True Answered finish_cache_ok [OF ok]
        by (simp add: requests_ok_def decryptMessageContent_def Let_def)
    next
      case False
      then show ?thesis using assms Answered by (simp add: decryptMessageContent_def)
    qed
  qed
qed

text \<open>Without overlap the ids are those of the specification.\<close>

definition follows :: "'sk requests \<Rightarrow> int list \<times> int list \<Rightarrow> bool" where
  "follows q x = (cache_ok (cached q) \<and> x = (jm_keys (cached q), map mid (rq_open q)) \<and>
     distinct (map mid (rq_open q)) \<and> (\<forall>i \<in> mid ` set (rq_open q). jm_get (cached q) i = None))"

lemma drop_one_distinct: "distinct xs \<Longrightarrow> n < length xs \<Longrightarrow> distinct (take n xs @ drop (Suc n) xs) \<and> xs ! n \<notin> set (take n xs @ drop (Suc n) xs)"
  using id_take_nth_drop [of n xs] by (metis distinct.simps(2) distinct_append not_distinct_conv_prefix distinct_rev rotate1.simps(2) UnI1 UnI2 Un_iff
    disjoint_insert(2) list.simps(15) set_append)

lemma follows_step:
  assumes "follows q x" "no_overlap [e] q"
  shows "follows (decryptMessageContent e q) (lru_step e x)"
proof -
  have ok: "cache_ok (cached q)" and x: "x = (jm_keys (cached q), map mid (rq_open q))" and dist: "distinct (map mid (rq_open q))"
    and miss: "\<And>i. i \<in> mid ` set (rq_open q) \<Longrightarrow> jm_get (cached q) i = None"
    using assms(1) by (auto simp: follows_def)
  have key: "i \<in> set (jm_keys (cached q)) \<longleftrightarrow> jm_get (cached q) i \<noteq> None" for i using jm.get_key [of "cached q" i] by simp
  show ?thesis
  proof (cases e)
    case (AskFor m)
    consider "\<not> is_encrypted m" | v where "is_encrypted m" "jm_get (cached q) (mid m) = Some v"
      | "is_encrypted m" "jm_get (cached q) (mid m) = None" by fastforce
    then show ?thesis
    proof cases
      case 1
      then show ?thesis using assms(1) AskFor x by (simp add: decryptMessageContent_def decrypt_begin_def lru_step_def)
    next
      case 2
      have "jm_get (jm_set (mid m) v (jm_delete (mid m) (cached q))) i = None" if "i \<in> mid ` set (rq_open q)" for i
        using miss [OF that] 2(2) by (auto simp: jm.get_put jm.get_del)
      then show ?thesis using 2 AskFor x dist key [of "mid m"] hit_keys [OF ok 2(2)]
        by (simp add: follows_def decryptMessageContent_def decrypt_begin_def lru_step_def)
    next
      case 3
      then have "mid m \<notin> mid ` set (rq_open q)" using assms(2) AskFor by simp
      then show ?thesis using 3 AskFor x dist miss ok key [of "mid m"]
        by (auto simp: follows_def decryptMessageContent_def decrypt_begin_def lru_step_def)
    qed
  next
    case (Answered n r)
    show ?thesis
    proof (cases "n < length (rq_open q)")
      case True
      let ?i = "mid (rq_open q ! n)" and ?rest = "take n (rq_open q) @ drop (Suc n) (rq_open q)"
      have i: "jm_get (cached q) ?i = None" using miss True by simp
      have rest: "map mid ?rest = take n (map mid (rq_open q)) @ drop (Suc n) (map mid (rq_open q))" by (simp add: take_map drop_map)
      have d: "distinct (map mid ?rest)" "?i \<notin> set (map mid ?rest)"
        using drop_one_distinct [OF dist, of n] True unfolding rest by simp_all
      have "jm_get (decryptCache (decrypt_finish ?i r (rq_crypto q))) j = None" if j: "j \<in> mid ` set ?rest" for j
      proof -
        have "j \<noteq> ?i" using d(2) j by (metis set_map)
        moreover have "jm_get (cached q) j = None" using miss j by (auto dest: in_set_takeD in_set_dropD)
        ultimately show ?thesis using finish_values [of ?i r "rq_crypto q" j] by fastforce
      qed
      moreover have "jm_keys (decryptCache (decrypt_finish ?i r (rq_crypto q))) = (if r = None then jm_keys (cached q) else lru_use ?i (jm_keys (cached q)))"
        using decrypt_finish_keys [OF ok i] by (cases r) (simp_all add: decrypt_finish_def [of _ None])
      moreover have "decryptMessageContent e q = q\<lparr>rq_crypto := decrypt_finish ?i r (rq_crypto q), rq_open := ?rest,
          rq_given := rq_given q @ (case r of None \<Rightarrow> [] | Some v \<Rightarrow> [(?i, v)])\<rparr>"
        using True Answered by (simp add: decryptMessageContent_def Let_def)
      moreover have "lru_step e x = (if r = None then jm_keys (cached q) else lru_use ?i (jm_keys (cached q)), map mid ?rest)"
        using True Answered x rest by (simp add: lru_step_def)
      ultimately show ?thesis
        using d(1) finish_cache_ok [OF ok, of ?i r] unfolding follows_def by simp
    next
      case False
      then show ?thesis using assms(1) Answered x by (simp add: decryptMessageContent_def lru_step_def)
    qed
  qed
qed

lemma follows_run: "follows q x \<Longrightarrow> no_overlap es q \<Longrightarrow> follows (fold decryptMessageContent es q) (fold lru_step es x)"
  by (induction es arbitrary: q x) (simp_all add: follows_step)

text \<open>
  C24. However requests to open messages begin and are answered in between each other: the cache of opened messages never holds
  more than 500, none twice, and only what opening that very message gave. As long as no message is asked for while it is
  already being opened, the cache is a least-recently-used cache of 500: its ids are, in order, those the specification keeps.
\<close>

theorem decrypt_cache_is_lru:
  assumes "decryptCache st = []" "q = fold decryptMessageContent es \<lparr>rq_crypto = st, rq_open = [], rq_given = []\<rparr>"
  shows "length (jm_keys (cached q)) \<le> 500 \<and> distinct (jm_keys (cached q)) \<and>
    (\<forall>i v. jm_get (cached q) i = Some v \<longrightarrow> (i, v) \<in> set (rq_given q)) \<and>
    (no_overlap es \<lparr>rq_crypto = st, rq_open = [], rq_given = []\<rparr> \<longrightarrow> jm_keys (cached q) = fst (fold lru_step es ([], [])))"
proof -
  let ?q = "\<lparr>rq_crypto = st, rq_open = [], rq_given = []\<rparr>"
  have "requests_ok ?q" "follows ?q ([], [])"
    using assms(1) by (simp_all add: requests_ok_def follows_def cache_ok_def jm_inv_def jm_keys_def jm_get_def)
  moreover have "requests_ok (fold decryptMessageContent es r)" if "requests_ok r" for r :: "'a requests"
    using that by (induction es arbitrary: r) (simp_all add: requests_ok_step)
  ultimately have "requests_ok q" "no_overlap es ?q \<Longrightarrow> follows q (fold lru_step es ([], []))"
    using follows_run by (auto simp: assms(2))
  then show ?thesis by (auto simp: requests_ok_def follows_def cache_ok_def jm.invar_keys MAX_DECRYPT_CACHE_def)
qed

theorem decrypt_cache_is_lru_witness:
  "jm_keys (cached (fold decryptMessageContent [AskFor (sealed_msg (ex_payload [])), Answered 0 (Some ''hi'')]
     \<lparr>rq_crypto = new_crypto :: nat crypto_state, rq_open = [], rq_given = []\<rparr>)) = [3]"
proof -
  have "decryptCache (new_crypto :: nat crypto_state) = []" by (simp add: new_crypto_def)
  from decrypt_cache_is_lru [OF this refl, of "[AskFor (sealed_msg (ex_payload [])), Answered 0 (Some ''hi'')]"]
  show ?thesis by (simp add: lru_step_def lru_use_def sealed_msg_def MAX_DECRYPT_CACHE_def)
qed

text \<open>
  Two requests for one message that overlap (a page of history that holds a message which has just come in): the second
  answer leaves the id where it is in the order, and throws out the oldest entry of a full cache although nothing is added.
\<close>

lemma overlapping_requests:
  assumes "jm_get (decryptCache st) i = Some v" "jm_keys (decryptCache st) = k # ks" "k \<noteq> i" "distinct (k # ks)"
  shows "jm_keys (decryptCache (decrypt_finish i (Some w) st)) = (if Suc (length ks) \<ge> MAX_DECRYPT_CACHE then ks else k # ks)"
proof -
  have "jm_keys (jm_delete k (decryptCache st)) = ks" using assms(2,4) by (auto simp: jm.keys_del filter_id_conv)
  then show ?thesis using assms(1-3) by (simp add: decrypt_finish_def Let_def jm_size_keys jm.keys_put jm.get_del)
qed

section \<open>The key pair\<close>

text \<open>How many steps a look-up has still to go.\<close>

fun key_rank :: "'sk key_job \<Rightarrow> nat" where
  "key_rank (ReadRecord u) = 6"
| "key_rank (ReadLegacy u) = 5"
| "key_rank (AskServer u p k) = 4"
| "key_rank (StoreAdopted u p k) = 3"
| "key_rank (DropLegacy p k) = 2"
| "key_rank (GenerateKey u) = 3"
| "key_rank (StoreNew u p k) = 2"
| "key_rank (CachePair p k) = 1"
| "key_rank (HavePair p k) = 0"
| "key_rank (NoPair e) = 0"

text \<open>What holds of a look-up for the account \<open>u\<close> whose pairs other look-ups leave alone.\<close>

fun job_ok :: "int \<Rightarrow> 'sk crypto_state \<Rightarrow> 'sk key_job \<Rightarrow> bool" where
  "job_ok u st (ReadRecord w) = (w = u)"
| "job_ok u st (ReadLegacy w) = (w = u)"
| "job_ok u st (AskServer w p k) = (w = u)"
| "job_ok u st (StoreAdopted w p k) = (w = u)"
| "job_ok u st (DropLegacy p k) = (keyDB st (recordKey u) = Some (StoredPair p k))"
| "job_ok u st (GenerateKey w) = (w = u)"
| "job_ok u st (StoreNew w p k) = (w = u)"
| "job_ok u st (CachePair p k) = (keyDB st (recordKey u) = Some (StoredPair p k))"
| "job_ok u st (HavePair p k) = (keyDB st (recordKey u) = Some (StoredPair p k) \<and> cachedKeyPair st = Some (p, k))"
| "job_ok u st (NoPair e) = False"

lemma recordKey_inj [simp]: "recordKey u = recordKey w \<longleftrightarrow> u = w"
  by (simp add: recordKey_def show_int_eq)

lemma recordKey_legacy [simp]: "recordKey u \<noteq> LEGACY_RECORD_KEY" "LEGACY_RECORD_KEY \<noteq> recordKey u"
  by (simp_all add: recordKey_def LEGACY_RECORD_KEY_def)

lemma key_step_ok:
  assumes "job_ok u st job" "key_step pf dev keys gen job st = (job', st')"
  shows "job_ok u st' job' \<and> key_rank job' \<le> key_rank job - 1 \<and>
    (\<forall>w. w \<noteq> u \<longrightarrow> keyDB st' (recordKey w) = keyDB st (recordKey w)) \<and> currentUserID st' = currentUserID st"
  using assms by (cases job) (auto simp: key_step_def idbSet_def idbDelete_def split: option.splits stored_key.splits if_splits)

text \<open>A look-up on its own, with the answers its steps get.\<close>

definition key_run ::
  "('sk, 'ck) platform \<Rightarrow> string \<Rightarrow> (device_key list option \<times> (jwk \<times> 'sk)) list \<Rightarrow>
    'sk key_job \<times> 'sk crypto_state \<Rightarrow> 'sk key_job \<times> 'sk crypto_state" where
  "key_run pf dev answers w = fold (\<lambda>(keys, gen) (job, st). key_step pf dev keys gen job st) answers w"

lemma key_run_ok:
  assumes "job_ok u st job" "key_run pf dev answers (job, st) = (job', st')"
  shows "job_ok u st' job' \<and> key_rank job' \<le> key_rank job - length answers \<and>
    (\<forall>w. w \<noteq> u \<longrightarrow> keyDB st' (recordKey w) = keyDB st (recordKey w))"
  using assms
proof (induction answers arbitrary: job st)
  case (Cons a answers)
  obtain keys gen where a: "a = (keys, gen)" by (cases a)
  obtain job1 st1 where s: "key_step pf dev keys gen job st = (job1, st1)" by fastforce
  have run: "key_run pf dev answers (job1, st1) = (job', st')"
    using Cons.prems(2) by (simp add: key_run_def a s)
  note step = key_step_ok [OF Cons.prems(1) s]
  from Cons.IH [OF step [THEN conjunct1] run] step show ?case by auto
qed (simp add: key_run_def)

lemma rank_done: "job_ok u st job \<Longrightarrow> key_rank job \<le> 0 \<Longrightarrow>
    \<exists>p k. job = HavePair p k \<and> keyDB st (recordKey u) = Some (StoredPair p k) \<and> cachedKeyPair st = Some (p, k)"
  by (cases job) auto

text \<open>
  Looking up the device's key pair ends within six steps with a pair, whatever the server
  answers; the pair is then the account's record and no other account's record has changed, and
  after any number of log-outs the same account gets the same pair from the record in one step.
\<close>

theorem key_pair_is_made_once:
  assumes "cachedKeyPair st = None" "currentUserID st = Some u" "6 \<le> length answers"
    and "key_run pf dev answers (getDeviceKeyPair True st, st) = (job, st')"
  shows "\<exists>p k. job = HavePair p k \<and> keyDB st' (recordKey u) = Some (StoredPair p k) \<and>
    (\<forall>w. w \<noteq> u \<longrightarrow> keyDB st' (recordKey w) = keyDB st (recordKey w)) \<and>
    (\<forall>t keys gen. keyDB t = keyDB st' \<longrightarrow>
      (case ensureDeviceRegistered True u (clearDecryptCache t) of
         (Some j, t1) \<Rightarrow> fst (key_step pf dev keys gen j t1) = HavePair p k
       | (None, t1) \<Rightarrow> False))"
proof -
  have start: "getDeviceKeyPair True st = ReadRecord u" using assms(1,2) by (simp add: getDeviceKeyPair_def)
  have run: "key_run pf dev answers (ReadRecord u, st) = (job, st')" using assms(4) start by simp
  have "job_ok u st (ReadRecord u)" by simp
  note fin = key_run_ok [OF this run]
  from fin have "key_rank job \<le> 0" using assms(3) by simp
  with fin obtain p k where "job = HavePair p k" "keyDB st' (recordKey u) = Some (StoredPair p k)"
    using rank_done by blast
  with fin show ?thesis
    by (auto simp: ensureDeviceRegistered_def clearDecryptCache_def getDeviceKeyPair_def key_step_def)
qed

theorem key_pair_is_made_once_witness:
  "\<exists>p k. fst (key_run (ex_pf []) ''kiosk'' (replicate 6 (None, ex_pub 2, 2))
      (getDeviceKeyPair True ((new_crypto :: nat crypto_state)\<lparr>currentUserID := Some 7\<rparr>),
       new_crypto\<lparr>currentUserID := Some 7\<rparr>)) = HavePair p k"
proof -
  let ?st = "(new_crypto :: nat crypto_state)\<lparr>currentUserID := Some 7\<rparr>"
  let ?run = "key_run (ex_pf []) ''kiosk'' (replicate 6 (None, ex_pub 2, 2)) (getDeviceKeyPair True ?st, ?st)"
  have "cachedKeyPair ?st = None" "currentUserID ?st = Some 7" by (simp_all add: new_crypto_def)
  moreover have "6 \<le> length (replicate 6 (None :: device_key list option, ex_pub 2, 2 :: nat))" by simp
  moreover have "?run = (fst ?run, snd ?run)" by simp
  ultimately show ?thesis using key_pair_is_made_once by blast
qed

text \<open>
  A look-up that is still waiting when its account logs out and another one signs in puts the
  first account's pair into the cache of the second: from then on the second account seals, and
  registers its device, with the first account's key.
\<close>

theorem late_key_crosses_accounts:
  assumes "ensureDeviceRegistered True a st0 = (Some (ReadRecord a), st)"
    and "keyDB st (recordKey a) = Some (StoredPair p k)" "a \<noteq> b"
    and "ensureDeviceRegistered True b (clearDecryptCache st) = (j, st1)"
    and "key_step pf dev keys gen (ReadRecord a) st1 = (late, st2)"
  shows "j = Some (ReadRecord b) \<and> currentUserID st2 = Some b \<and> cachedKeyPair st2 = Some (p, k) \<and>
    getDeviceKeyPair True st2 = HavePair p k \<and>
    sent_to_server (registered pf dev (getDeviceKeyPair True st2) st2) =
      sent_to_server st2 @ [RegisterDeviceKey dev (stringify_jwk pf p)]"
proof -
  have j: "j = Some (ReadRecord b)" "st1 = (clearDecryptCache st)\<lparr>currentUserID := Some b, cachedKeyPair := None,
      registerPromise := True\<rparr>"
    using assms(4) by (auto simp: ensureDeviceRegistered_def clearDecryptCache_def getDeviceKeyPair_def)
  have st2: "st2 = st1\<lparr>cachedKeyPair := Some (p, k)\<rparr>"
    using assms(2,5) by (simp add: j(2) clearDecryptCache_def key_step_def)
  show ?thesis by (simp add: j st2 getDeviceKeyPair_def registered_def)
qed

theorem late_key_crosses_accounts_witness:
  "cachedKeyPair (snd (key_step (ex_pf []) ''kiosk'' None (ex_pub 9, 9) (ReadRecord 7)
     (snd (ensureDeviceRegistered True 8 (clearDecryptCache (snd (ensureDeviceRegistered True 7
        ((new_crypto :: nat crypto_state)\<lparr>keyDB := [recordKey 7 \<mapsto> StoredPair (ex_pub 2) 2]\<rparr>)))))))) = Some (ex_pub 2, 2)"
proof -
  let ?init = "(new_crypto :: nat crypto_state)\<lparr>keyDB := [recordKey 7 \<mapsto> StoredPair (ex_pub 2) 2]\<rparr>"
  let ?st = "snd (ensureDeviceRegistered True 7 ?init)"
  let ?r = "ensureDeviceRegistered True 8 (clearDecryptCache ?st)"
  let ?s = "key_step (ex_pf []) ''kiosk'' None (ex_pub 9, 9) (ReadRecord 7) (snd ?r)"
  have "ensureDeviceRegistered True 7 ?init = (Some (ReadRecord 7), ?st)"
    by (rule prod_eqI) (simp add: ensureDeviceRegistered_def new_crypto_def getDeviceKeyPair_def, rule snd_conv [symmetric])
  moreover have "keyDB ?st (recordKey 7) = Some (StoredPair (ex_pub 2) 2)"
    by (simp add: ensureDeviceRegistered_def new_crypto_def)
  moreover have "(7 :: int) \<noteq> 8" by simp
  ultimately show ?thesis
    by (rule late_key_crosses_accounts [OF _ _ _ prod.collapse [symmetric] prod.collapse [symmetric],
          THEN conjunct2, THEN conjunct2, THEN conjunct1])
qed

text \<open>A registration that failed is remembered like one that succeeded: it is never tried again.\<close>

lemma failed_registration_is_not_retried:
  assumes "ensureDeviceRegistered True u st = (Some job, st1)"
  shows "ensureDeviceRegistered True u (registered pf dev (NoPair e) st1) = (None, st1)"
proof -
  have "currentUserID st1 = Some u" "registerPromise st1"
    using assms by (auto simp: ensureDeviceRegistered_def Let_def split: if_splits)
  then show ?thesis by (simp add: ensureDeviceRegistered_def registered_def)
qed

section \<open>The backup\<close>

text \<open>
  A change of the password that fails anywhere reports an error and leaves the device alone; the server keeps the old
  backup, unless the last call was carried out and only its answer lost: then the new password holds already, although
  the person was told that it does not.
\<close>

lemma failed_change_of_password:
  assumes "changeKeyBackupPassword pf fails stored salt iv keys pw (srv, st) = (res, srv')" "fails c = Some e"
    and "currentUserID st \<noteq> None"
  shows "\<exists>err. res = Inl err"
    and "srv' = srv \<or> stored \<and> fails SaveBackup = Some (projl res) \<and>
      (\<exists>priv pub. backupPrivateKey st = Some priv \<and> srv' = Some (sealBackup pf salt iv (export_pkcs8 pf priv) pw, pub))"
  using assms by (cases c; force simp: changeKeyBackupPassword_def Let_def
      split: option.splits list.splits if_splits)+

text \<open>
  C25. The backup gives the account's key back: whatever device of the account restores it with its
  password then holds the key that was backed up, also after the password was changed by a change none of whose calls
  failed, and with a password that does not open it the restore fails and stores nothing.
\<close>

theorem backup_restores_the_key:
  assumes "platform_ok pub pf" "is_bytes salt" "is_bytes iv" "is_bytes salt'" "is_bytes iv'"
    and "currentUserID st = Some u" "currentUserID t = Some u"
    and "createKeyBackup pf (pub k, k) salt iv True pw (srv0, st) = (Inr st1, srv)"
    and "find (\<lambda>d. dk_device_id d = BACKUP_DEVICE_ID) keys = Some d"
    and "changeKeyBackupPassword pf (\<lambda>_. None) stored salt' iv' keys pw' (srv, st1) = (changed, srv')"
    and "\<And>iv m. gcm_decrypt pf (pbkdf2 pf wrong salt PBKDF2_ITERATIONS) iv
        (gcm_encrypt pf (pbkdf2 pf pw salt PBKDF2_ITERATIONS) iv m) = None"
  shows "map_sum id backupPrivateKey (restoreKeyBackup pf pw srv t) = Inr (Some k) \<and>
    changed = Inr st1 \<and> map_sum id backupPrivateKey (restoreKeyBackup pf pw' srv' t) = Inr (Some k) \<and>
    restoreKeyBackup pf wrong srv t = Inl ''That password doesn't match the backup''"
proof -
  note pf = platform_okD [OF assms(1)]
  have srv: "srv = Some (sealBackup pf salt iv (export_pkcs8 pf k) pw, stringify_jwk pf (pub k))"
    and st1: "st1 = (idbSet (backupRecordKey u) (StoredBackup k) st)\<lparr>decryptCache := []\<rparr>"
    using assms(6,8) by (auto simp: createKeyBackup_def storeBackupKey_def pf)
  have "backupPrivateKey st1 = Some k" "currentUserID st1 = Some u" using assms(6) by (simp_all add: st1 backupPrivateKey_def idbSet_def)
  then have ch: "changed = Inr st1" "srv' = Some (sealBackup pf salt' iv' (export_pkcs8 pf k) pw', public_key_jwk d)"
    using assms(9,10) by (simp_all add: changeKeyBackupPassword_def srv Let_def)
  have restored: "map_sum id backupPrivateKey (restoreKeyBackup pf w (Some (sealBackup pf sa i (export_pkcs8 pf k) w, x)) t) =
      Inr (Some k)" if "is_bytes sa" "is_bytes i" for w sa i x
    using that assms(7)
    by (simp add: restoreKeyBackup_def sealBackup_def b64_round_trip pf storeBackupKey_def backupPrivateKey_def idbSet_def)
  have "restoreKeyBackup pf wrong srv t = Inl ''That password doesn't match the backup''"
    using assms(2,3,11) by (simp add: srv restoreKeyBackup_def sealBackup_def b64_round_trip pf)
  then show ?thesis using restored assms(2-5) ch by (simp add: srv)
qed

theorem backup_restores_the_key_witness:
  "map_sum id backupPrivateKey (restoreKeyBackup (ex_pf []) ''pw''
     (snd (createKeyBackup (ex_pf []) (ex_pub 5, 5) [1] [2] True ''pw'' (None, new_crypto\<lparr>currentUserID := Some 7\<rparr>)))
     (new_crypto\<lparr>currentUserID := Some 7\<rparr>)) = Inr (Some (5 :: nat))"
proof -
  let ?st = "(new_crypto :: nat crypto_state)\<lparr>currentUserID := Some 7\<rparr>"
  let ?c = "createKeyBackup (ex_pf []) (ex_pub 5, 5) [1] [2] True ''pw'' (None, ?st)"
  let ?d = "changeKeyBackupPassword (ex_pf []) (\<lambda>_. None) False [3] [4] [ex_key 7 ''backup'' 5] ''newpw'' (snd ?c, projr (fst ?c))"
  have "?c = (Inr (projr (fst ?c)), snd ?c)"
    by (simp add: createKeyBackup_def storeBackupKey_def new_crypto_def ex_pf_def)
  moreover have "?d = (fst ?d, snd ?d)" by simp
  moreover have "find (\<lambda>d. dk_device_id d = BACKUP_DEVICE_ID) [ex_key 7 ''backup'' 5] = Some (ex_key 7 ''backup'' 5)"
    by (simp add: ex_key_def BACKUP_DEVICE_ID_def)
  moreover have "gcm_decrypt (ex_pf []) (pbkdf2 (ex_pf []) ''wrong'' [1] PBKDF2_ITERATIONS) iv
      (gcm_encrypt (ex_pf []) (pbkdf2 (ex_pf []) ''pw'' [1] PBKDF2_ITERATIONS) iv m) = None" for iv m
    by (simp add: ex_pf_def)
  moreover have "is_bytes [1]" "is_bytes [2]" "is_bytes [3]" "is_bytes [4]" "currentUserID ?st = Some 7"
    by (simp_all add: is_bytes_def new_crypto_def)
  ultimately show ?thesis
    using backup_restores_the_key [OF ex_pf_ok, of "[1]" "[2]" "[3]" "[4]" ?st 7 ?st "[]" 5 "''pw''" None "projr (fst ?c)"
        "snd ?c" "[ex_key 7 ''backup'' 5]" "ex_key 7 ''backup'' 5" False "''newpw''" "fst ?d" "snd ?d" "''wrong''"]
    by simp
qed

end
