(* ===== verification/Theme.thy ===== *)
theory Theme
  imports JsMap Messages
begin

text \<open>
  The appearance (\<open>lib/theme.ts\<close>): the preferences in force, what they set in the page, the
  cache in local storage that the next start reads, and saving them to the server. The JSON text
  of the cache goes through \<open>to_text\<close> and \<open>of_text\<close> (\<open>None\<close>: \<open>JSON.parse\<close> throws).
\<close>

section \<open>Preferences\<close>

text \<open>\<open>Partial<UserPreferences>\<close>.\<close>

record partial_prefs =
  pp_theme :: "string option"
  pp_accent_color :: "string option"
  pp_radius :: "string option"

definition all_prefs :: "user_preferences \<Rightarrow> partial_prefs" where
  "all_prefs p = \<lparr>pp_theme = Some (p_theme p), pp_accent_color = Some (p_accent_color p), pp_radius = Some (p_radius p)\<rparr>"

definition DEFAULT_PREFERENCES :: user_preferences where
  "DEFAULT_PREFERENCES = \<lparr>p_theme = ''dark'', p_accent_color = ''blue'', p_radius = ''rounded''\<rparr>"

record theme_meta =
  tm_id :: string
  tm_name :: string
  tm_description :: string
  tm_dark :: bool
  bgHex :: string
  cardHex :: string
  accentHex :: string

definition THEMES :: "theme_meta list" where
  "THEMES =
    [\<lparr>tm_id = ''dark'', tm_name = ''Dark (Default)'', tm_description = ''Deep charcoal with balanced contrast'',
       tm_dark = True, bgHex = ''#0b0e14'', cardHex = ''#151b28'', accentHex = ''#3b82f6''\<rparr>,
     \<lparr>tm_id = ''light'', tm_name = ''Light'', tm_description = ''Crisp modern light workspace'',
       tm_dark = False, bgHex = ''#f4f4f5'', cardHex = ''#ffffff'', accentHex = ''#2563eb''\<rparr>,
     \<lparr>tm_id = ''midnight'', tm_name = ''Midnight OLED'', tm_description = ''Pure pitch black for OLED displays'',
       tm_dark = True, bgHex = ''#000000'', cardHex = ''#0d0d0d'', accentHex = ''#60a5fa''\<rparr>,
     \<lparr>tm_id = ''sunset'', tm_name = ''Sunset'', tm_description = ''Warm twilight plum with rose tones'',
       tm_dark = True, bgHex = ''#120b18'', cardHex = ''#1d1226'', accentHex = ''#f43f5e''\<rparr>,
     \<lparr>tm_id = ''forest'', tm_name = ''Nordic Forest'', tm_description = ''Deep spruce pine with emerald glow'',
       tm_dark = True, bgHex = ''#06110c'', cardHex = ''#0c2017'', accentHex = ''#10b981''\<rparr>,
     \<lparr>tm_id = ''cyberpunk'', tm_name = ''Cyberpunk'', tm_description = ''High-tech electric navy with cyan'',
       tm_dark = True, bgHex = ''#060913'', cardHex = ''#0e162c'', accentHex = ''#06b6d4''\<rparr>]"

definition ACCENTS :: "(string \<times> string \<times> string) list" where
  "ACCENTS = [(''blue'', ''Electric Blue'', ''#2563eb''), (''purple'', ''Royal Violet'', ''#8b5cf6''),
     (''emerald'', ''Emerald Mint'', ''#10b981''), (''rose'', ''Rose Ruby'', ''#f43f5e''),
     (''amber'', ''Sunset Amber'', ''#f59e0b''), (''cyan'', ''Neon Cyan'', ''#06b6d4'')]"

definition RADII :: "(string \<times> string \<times> string) list" where
  "RADII = [(''rounded'', ''Smooth'', ''Balanced modern corners''), (''compact'', ''Sharp'', ''Crisp, technical corners''),
     (''pill'', ''Pill'', ''Curved friendly rounded curves'')]"

section \<open>The page\<close>

text \<open>
  What \<open>applyTheme\<close> writes: the data attributes and the class of the root element, the colour in
  the \<open>theme-color\<close> tag (\<open>None\<close>: there is no such tag), the cache, and the events it dispatches.
\<close>

record page =
  currentPreferences :: user_preferences
  data_theme :: "string option"
  data_accent :: "string option"
  data_radius :: "string option"
  dark_class :: bool
  theme_color :: "string option"
  page_storage :: storage
  theme_events :: "user_preferences list"

definition prefs_key :: string where "prefs_key = ''vc.theme.prefs''"
definition legacy_theme_key :: string where "legacy_theme_key = ''vc.theme''"

text \<open>\<open>a || b || c\<close> on strings, where \<open>undefined\<close> is \<open>None\<close>.\<close>

definition or_else :: "string option \<Rightarrow> string \<Rightarrow> string \<Rightarrow> string" where
  "or_else a b c = (if str_truthy a then the a else if b \<noteq> [] then b else c)"

definition merge_prefs :: "partial_prefs \<Rightarrow> user_preferences \<Rightarrow> user_preferences" where
  "merge_prefs prefs cur =
     \<lparr>p_theme = or_else (pp_theme prefs) (p_theme cur) ''dark'',
       p_accent_color = or_else (pp_accent_color prefs) (p_accent_color cur) ''blue'',
       p_radius = or_else (pp_radius prefs) (p_radius cur) ''rounded''\<rparr>"

text \<open>The boot cache: two writes in one \<open>try\<close>.\<close>

definition write_cache :: "(user_preferences \<Rightarrow> string) \<Rightarrow> user_preferences \<Rightarrow> storage \<Rightarrow> storage" where
  "write_cache to_text merged st =
     (case setItem st prefs_key (to_text merged) of
        None \<Rightarrow> st
      | Some st1 \<Rightarrow> nvl (setItem st1 legacy_theme_key (if p_theme merged = ''light'' then ''light'' else ''dark'')) st1)"

definition applyTheme :: "(user_preferences \<Rightarrow> string) \<Rightarrow> partial_prefs \<Rightarrow> page \<Rightarrow> page" where
  "applyTheme to_text prefs pg =
     (let merged = merge_prefs prefs (currentPreferences pg) in
      pg\<lparr>currentPreferences := merged, data_theme := Some (p_theme merged),
         data_accent := Some (p_accent_color merged), data_radius := Some (p_radius merged),
         dark_class := (p_theme merged \<noteq> ''light''),
         theme_color := (case (theme_color pg, find (\<lambda>t. tm_id t = p_theme merged) THEMES) of
                           (Some _, Some t) \<Rightarrow> Some (bgHex t) | _ \<Rightarrow> theme_color pg),
         page_storage := write_cache to_text merged (page_storage pg),
         theme_events := theme_events pg @ [merged]\<rparr>)"

definition initTheme ::
  "(user_preferences \<Rightarrow> string) \<Rightarrow> (string \<Rightarrow> partial_prefs option) \<Rightarrow> page \<Rightarrow> page" where
  "initTheme to_text of_text pg =
     (case getItem (page_storage pg) prefs_key of
        None \<Rightarrow> applyTheme to_text (all_prefs DEFAULT_PREFERENCES) pg
      | Some cached \<Rightarrow>
          if str_truthy cached
          then (case of_text (the cached) of
                  Some parsed \<Rightarrow> applyTheme to_text parsed pg
                | None \<Rightarrow> applyTheme to_text (all_prefs DEFAULT_PREFERENCES) pg)
          else if getItem (page_storage pg) legacy_theme_key = Some (Some ''light'')
          then applyTheme to_text \<lparr>pp_theme = Some ''light'', pp_accent_color = None, pp_radius = None\<rparr> pg
          else applyTheme to_text (all_prefs DEFAULT_PREFERENCES) pg)"

text \<open>
  \<open>savePreferencesToDb\<close> up to its request, which carries the second component, and with the
  answer (\<open>None\<close>: rejected); what it returns is the second component.
\<close>

definition savePreferencesToDb ::
  "(user_preferences \<Rightarrow> string) \<Rightarrow> partial_prefs \<Rightarrow> page \<Rightarrow> page \<times> user_preferences" where
  "savePreferencesToDb to_text prefs pg =
     (let merged = merge_prefs prefs (currentPreferences pg)
      in (applyTheme to_text (all_prefs merged) pg, merged))"

definition preferences_saved ::
  "(user_preferences \<Rightarrow> string) \<Rightarrow> user_preferences \<Rightarrow> user_preferences option \<Rightarrow> page \<Rightarrow> page \<times> user_preferences" where
  "preferences_saved to_text merged answer pg =
     (case answer of
        Some updated \<Rightarrow> (applyTheme to_text (all_prefs updated) pg, updated)
      | None \<Rightarrow> (pg, merged))"

section \<open>Properties\<close>

definition proper :: "user_preferences \<Rightarrow> bool" where
  "proper p \<longleftrightarrow> p_theme p \<noteq> [] \<and> p_accent_color p \<noteq> [] \<and> p_radius p \<noteq> []"

lemma merge_proper [simp]: "proper (merge_prefs prefs cur)"
  by (auto simp: proper_def merge_prefs_def or_else_def str_truthy_def split: option.splits)

lemma merge_all [simp]: "proper p \<Longrightarrow> merge_prefs (all_prefs p) cur = p"
  by (simp add: proper_def merge_prefs_def or_else_def all_prefs_def)

lemma prefs_keys [simp]: "prefs_key \<noteq> legacy_theme_key" "legacy_theme_key \<noteq> prefs_key"
  by (simp_all add: prefs_key_def legacy_theme_key_def)

lemma cache_read:
  assumes "\<not> blocked st"
  shows "getItem (write_cache to_text p st) prefs_key = Some (Some (to_text p))" "\<not> blocked (write_cache to_text p st)"
  using assms by (simp_all add: write_cache_def setItem_def getItem_def jm.get_put)

definition looks :: "page \<Rightarrow> string option \<times> string option \<times> string option \<times> bool" where
  "looks pg = (data_theme pg, data_accent pg, data_radius pg, dark_class pg)"

text \<open>
  The appearance survives a reload: after any preferences were applied, a new page that finds
  the cache shows exactly them, the three attributes and the dark class agree with the
  preferences in force, and applying preferences again changes nothing more.
\<close>

theorem appearance_survives_reload:
  assumes "\<not> blocked (page_storage pg)" "pg1 = applyTheme to_text prefs pg"
    and "of_text (to_text (currentPreferences pg1)) = Some (all_prefs (currentPreferences pg1))"
    and "to_text (currentPreferences pg1) \<noteq> []" "page_storage fresh = page_storage pg1"
  shows "looks (initTheme to_text of_text fresh) = looks pg1 \<and>
    currentPreferences (initTheme to_text of_text fresh) = currentPreferences pg1 \<and>
    looks pg1 = (let p = currentPreferences pg1
      in (Some (p_theme p), Some (p_accent_color p), Some (p_radius p), p_theme p \<noteq> ''light'')) \<and>
    looks (applyTheme to_text (all_prefs (currentPreferences pg1)) pg1) = looks pg1"
proof -
  let ?p = "merge_prefs prefs (currentPreferences pg)"
  have cur: "currentPreferences pg1 = ?p" by (simp add: assms(2) applyTheme_def Let_def)
  have look: "looks pg1 = (Some (p_theme ?p), Some (p_accent_color ?p), Some (p_radius ?p), p_theme ?p \<noteq> ''light'')"
    by (simp add: assms(2) applyTheme_def Let_def looks_def)
  have "page_storage fresh = write_cache to_text ?p (page_storage pg)"
    using assms(5) by (simp add: assms(2) applyTheme_def Let_def)
  then have "getItem (page_storage fresh) prefs_key = Some (Some (to_text ?p))"
    using cache_read [OF assms(1)] by simp
  then have "initTheme to_text of_text fresh = applyTheme to_text (all_prefs ?p) fresh"
    using assms(3,4) cur by (simp add: initTheme_def)
  then show ?thesis using cur look by (simp add: applyTheme_def Let_def looks_def)
qed

definition ex_page :: page where
  "ex_page = \<lparr>currentPreferences = DEFAULT_PREFERENCES, data_theme = None, data_accent = None, data_radius = None,
     dark_class = False, theme_color = Some ''#fff'', page_storage = \<lparr>blocked = False, items = []\<rparr>, theme_events = []\<rparr>"

theorem appearance_survives_reload_witness:
  "looks (initTheme (\<lambda>p. p_theme p) (\<lambda>t. Some (all_prefs (DEFAULT_PREFERENCES\<lparr>p_theme := t\<rparr>)))
     (ex_page\<lparr>page_storage := page_storage (applyTheme (\<lambda>p. p_theme p)
        \<lparr>pp_theme = Some ''light'', pp_accent_color = None, pp_radius = None\<rparr> ex_page)\<rparr>)) =
   (Some ''light'', Some ''blue'', Some ''rounded'', False)"
proof -
  let ?p = "\<lparr>pp_theme = Some ''light'', pp_accent_color = None, pp_radius = None\<rparr>"
  let ?pg = "applyTheme (\<lambda>p. p_theme p) ?p ex_page"
  have cur: "currentPreferences ?pg = DEFAULT_PREFERENCES\<lparr>p_theme := ''light''\<rparr>"
    by (simp add: applyTheme_def Let_def ex_page_def merge_prefs_def or_else_def DEFAULT_PREFERENCES_def)
  have "\<not> blocked (page_storage ex_page)" by (simp add: ex_page_def)
  moreover have "Some (all_prefs (DEFAULT_PREFERENCES\<lparr>p_theme := p_theme (currentPreferences ?pg)\<rparr>)) =
      Some (all_prefs (currentPreferences ?pg))" "p_theme (currentPreferences ?pg) \<noteq> []"
    "page_storage (ex_page\<lparr>page_storage := page_storage ?pg\<rparr>) = page_storage ?pg"
    by (simp_all add: cur)
  ultimately have "looks (initTheme (\<lambda>p. p_theme p) (\<lambda>t. Some (all_prefs (DEFAULT_PREFERENCES\<lparr>p_theme := t\<rparr>)))
      (ex_page\<lparr>page_storage := page_storage ?pg\<rparr>)) = looks ?pg"
    using appearance_survives_reload [of ex_page ?pg "\<lambda>p. p_theme p" ?p
        "\<lambda>t. Some (all_prefs (DEFAULT_PREFERENCES\<lparr>p_theme := t\<rparr>))" "ex_page\<lparr>page_storage := page_storage ?pg\<rparr>"]
    by blast
  also have "looks ?pg = (Some ''light'', Some ''blue'', Some ''rounded'', False)"
    by (simp add: looks_def applyTheme_def Let_def ex_page_def merge_prefs_def or_else_def DEFAULT_PREFERENCES_def)
  finally show ?thesis .
qed

text \<open>
  Answers of the server are applied as they come: when two saves are answered in the other order,
  the page ends with the preferences of the first although the second was chosen last.
\<close>

lemma late_answer_reverts_the_theme:
  assumes "savePreferencesToDb to_text a pg = (pg1, ma)" "savePreferencesToDb to_text b pg1 = (pg2, mb)"
  shows "currentPreferences (fst (preferences_saved to_text ma (Some ma)
      (fst (preferences_saved to_text mb (Some mb) pg2)))) = ma"
  using assms by (auto simp: savePreferencesToDb_def preferences_saved_def applyTheme_def Let_def)

end
