(* ===== verification/Stores.thy ===== *)
theory Stores
  imports Theme
begin

text \<open>
  The small stores: toasts (\<open>store/toast.ts\<close>), the user's own presence (\<open>store/presence.ts\<close>), the
  directory of users (\<open>store/directory.ts\<close>) and the account signed in (\<open>store/auth.ts\<close>).
\<close>

section \<open>Toasts\<close>

datatype toast_variant = SuccessToast | ErrorToast | InfoToast | MessageToast

text \<open>A click handler is a name.\<close>

record toast =
  t_id :: nat
  t_variant :: toast_variant
  t_message :: string
  t_title :: "string option"
  t_onClick :: "string option"
  t_duration :: ms

text \<open>The store with its counter, and the timers that are running, by toast.\<close>

record toasts_state =
  toasts :: "toast list"
  nextId :: nat
  toast_timers :: "(nat \<times> ms) list"

definition MAX_VISIBLE :: nat where "MAX_VISIBLE = 4"

definition init_toasts :: toasts_state where
  "init_toasts = \<lparr>toasts = [], nextId = 1, toast_timers = []\<rparr>"

definition keep_last :: "nat \<Rightarrow> 'a list \<Rightarrow> 'a list" where
  "keep_last n xs = drop (length xs - n) xs"

definition push ::
  "toast_variant \<Rightarrow> string \<Rightarrow> string option \<Rightarrow> string option \<Rightarrow> ms option \<Rightarrow> toasts_state \<Rightarrow> toasts_state" where
  "push variant message title onClick dur s =
     (let i = nextId s; d = nvl dur (if variant = ErrorToast then 6000 else 4000);
          t = \<lparr>t_id = i, t_variant = variant, t_message = message, t_title = title, t_onClick = onClick, t_duration = d\<rparr>
      in s\<lparr>nextId := i + 1, toasts := keep_last MAX_VISIBLE (toasts s @ [t]), toast_timers := toast_timers s @ [(i, d)]\<rparr>)"

definition toast_timer_fires :: "nat \<Rightarrow> toasts_state \<Rightarrow> toasts_state" where
  "toast_timer_fires i s = s\<lparr>toasts := filter (\<lambda>t. t_id t \<noteq> i) (toasts s),
     toast_timers := filter (\<lambda>p. fst p \<noteq> i) (toast_timers s)\<rparr>"

definition dismiss :: "nat \<Rightarrow> toasts_state \<Rightarrow> toasts_state" where
  "dismiss i s = s\<lparr>toasts := filter (\<lambda>t. t_id t \<noteq> i) (toasts s)\<rparr>"

definition toast_success :: "string \<Rightarrow> toasts_state \<Rightarrow> toasts_state" where
  "toast_success m = push SuccessToast m None None None"
definition toast_error :: "string \<Rightarrow> toasts_state \<Rightarrow> toasts_state" where
  "toast_error m = push ErrorToast m None None None"
definition toast_info :: "string \<Rightarrow> toasts_state \<Rightarrow> toasts_state" where
  "toast_info m = push InfoToast m None None None"
definition toast_message :: "string \<Rightarrow> string \<Rightarrow> string option \<Rightarrow> toasts_state \<Rightarrow> toasts_state" where
  "toast_message title m onClick = push MessageToast m (Some title) onClick (Some 5000)"

text \<open>Every state the store can be in.\<close>

inductive toasts_reach :: "toasts_state \<Rightarrow> bool" where
  start: "toasts_reach init_toasts"
| pushed: "toasts_reach s \<Longrightarrow> toasts_reach (push v m ti c d s)"
| dismissed: "toasts_reach s \<Longrightarrow> toasts_reach (dismiss i s)"
| fired: "toasts_reach s \<Longrightarrow> i \<in> fst ` set (toast_timers s) \<Longrightarrow> toasts_reach (toast_timer_fires i s)"

definition toasts_ok :: "toasts_state \<Rightarrow> bool" where
  "toasts_ok s \<longleftrightarrow> length (toasts s) \<le> MAX_VISIBLE \<and> sorted_wrt (<) (map t_id (toasts s)) \<and>
     (\<forall>t \<in> set (toasts s). t_id t < nextId s \<and> (t_id t, t_duration t) \<in> set (toast_timers s))"

lemma set_keep_last: "set (keep_last n xs) \<subseteq> set xs"
  by (simp add: keep_last_def set_drop_subset)

lemma length_keep_last: "length (keep_last n xs) \<le> n"
  by (simp add: keep_last_def)

lemma toasts_ok_push: "toasts_ok s \<Longrightarrow> toasts_ok (push v m ti c d s)"
proof -
  assume s: "toasts_ok s"
  define t where "t = \<lparr>t_id = nextId s, t_variant = v, t_message = m, t_title = ti, t_onClick = c,
     t_duration = nvl d (if v = ErrorToast then 6000 else 4000)\<rparr>"
  have t: "t_id t = nextId s" "(t_id t, t_duration t) \<in> set (toast_timers (push v m ti c d s))"
    "toasts (push v m ti c d s) = keep_last MAX_VISIBLE (toasts s @ [t])"
    by (simp_all add: push_def Let_def t_def)
  have "sorted_wrt (<) (map t_id (toasts s @ [t]))" using s t(1) by (auto simp: toasts_ok_def sorted_wrt_append)
  then have "sorted_wrt (<) (map t_id (keep_last MAX_VISIBLE (toasts s @ [t])))"
    unfolding keep_last_def drop_map [symmetric] by (rule sorted_wrt_drop)
  moreover have "nextId (push v m ti c d s) = nextId s + 1" "set (toast_timers s) \<subseteq> set (toast_timers (push v m ti c d s))"
    by (auto simp: push_def Let_def)
  ultimately show ?thesis
    using s t set_keep_last [of MAX_VISIBLE "toasts s @ [t]"] length_keep_last by (fastforce simp: toasts_ok_def)
qed

lemma toasts_reach_ok: "toasts_reach s \<Longrightarrow> toasts_ok s"
proof (induction rule: toasts_reach.induct)
  case start
  show ?case by (simp add: toasts_ok_def init_toasts_def)
next
  case (dismissed s i)
  then show ?case
    by (auto simp: toasts_ok_def dismiss_def sorted_wrt_map sorted_wrt_filter intro: le_trans [OF length_filter_le])
next
  case (fired s i)
  then show ?case
    by (auto simp: toasts_ok_def toast_timer_fires_def sorted_wrt_map sorted_wrt_filter
        intro: le_trans [OF length_filter_le])
qed (rule toasts_ok_push)

lemma fired_all: "toasts (fold toast_timer_fires is s) = filter (\<lambda>t. t_id t \<notin> set is) (toasts s)"
  by (induction "is" arbitrary: s) (auto simp: toast_timer_fires_def conj_commute intro: filter_cong)

text \<open>
  At most four toasts are ever on screen, in the order they were raised and each with its own
  id; every one of them has a running timer of its duration, so that when the running timers have
  fired the screen is empty.
\<close>

theorem toasts_are_bounded_and_end:
  assumes "toasts_reach s"
  shows "length (toasts s) \<le> 4 \<and> sorted_wrt (<) (map t_id (toasts s)) \<and>
    (\<forall>t \<in> set (toasts s). (t_id t, t_duration t) \<in> set (toast_timers s)) \<and>
    toasts (fold toast_timer_fires (map fst (toast_timers s)) s) = []"
  using toasts_reach_ok [OF assms]
  by (force simp: toasts_ok_def MAX_VISIBLE_def fired_all filter_empty_conv)

theorem toasts_are_bounded_and_end_witness:
  "length (toasts (toast_error ''e'' (toast_info ''a'' (toast_info ''b'' (toast_success ''c''
     (toast_message ''d'' ''m'' None init_toasts)))))) \<le> 4"
proof -
  have "toasts_reach (toast_error ''e'' (toast_info ''a'' (toast_info ''b'' (toast_success ''c''
     (toast_message ''d'' ''m'' None init_toasts)))))"
    unfolding toast_error_def toast_info_def toast_success_def toast_message_def
    by (intro toasts_reach.intros)
  then show ?thesis by (rule toasts_are_bounded_and_end [THEN conjunct1])
qed

section \<open>Presence\<close>

text \<open>The frames \<open>ws.send\<close> is given, sent when the socket is up.\<close>

record presence_state =
  myStatus :: presence
  presence_frames :: "presence list"

definition init_presence :: presence_state where
  "init_presence = \<lparr>myStatus = Online, presence_frames = []\<rparr>"

definition setMyStatus :: "bool \<Rightarrow> presence \<Rightarrow> presence_state \<Rightarrow> presence_state" where
  "setMyStatus up st s = s\<lparr>myStatus := st, presence_frames := presence_frames s @ (if up then [st] else [])\<rparr>"

section \<open>Directory\<close>

record directory =
  users :: "user list"
  dir_loaded :: bool
  dir_error :: "string option"

definition init_directory :: directory where
  "init_directory = \<lparr>users = [], dir_loaded = False, dir_error = None\<rparr>"

text \<open>\<open>fetchUsers\<close> with its answer: the users, or the error's message.\<close>

definition fetchUsers_done :: "string option + user list \<Rightarrow> directory \<Rightarrow> directory" where
  "fetchUsers_done resp d =
     (case resp of
        Inr us \<Rightarrow> d\<lparr>users := us, dir_loaded := True, dir_error := None\<rparr>
      | Inl msg \<Rightarrow> d\<lparr>dir_error := Some (nvl msg ''Couldn't load directory'')\<rparr>)"

definition applyPresence :: "int \<Rightarrow> presence \<Rightarrow> directory \<Rightarrow> directory" where
  "applyPresence userID st d =
     d\<lparr>users := map (\<lambda>u. if u_id u = userID then u\<lparr>u_status := st\<rparr> else u) (users d)\<rparr>"

definition presenceSync :: "(int \<times> presence) list \<Rightarrow> directory \<Rightarrow> directory" where
  "presenceSync list d =
     (let byID = fold (\<lambda>p m. jm_set (fst p) (snd p) m) list []
      in d\<lparr>users := map (\<lambda>u. u\<lparr>u_status := nvl (jm_get byID (u_id u)) Offline\<rparr>) (users d)\<rparr>)"

definition userById :: "int \<Rightarrow> directory \<Rightarrow> user option" where
  "userById i d = find (\<lambda>u. u_id u = i) (users d)"

definition status_of :: "directory \<Rightarrow> int \<Rightarrow> presence option" where
  "status_of d i = map_option u_status (userById i d)"

lemma find_map_if:
  assumes "\<And>u. k (f u) = k u"
  shows "find (\<lambda>u. k u = i) (map f us) = map_option f (find (\<lambda>u. k u = i) us)"
  by (induction us) (simp_all add: assms)

lemma userById_sync:
  "userById i (presenceSync ps d) =
     map_option (\<lambda>u. u\<lparr>u_status := nvl (map_of (rev ps) (u_id u)) Offline\<rparr>) (userById i d)"
proof -
  have "jm_get (fold (\<lambda>p m. jm_set (fst p) (snd p) m) ps []) k = map_of (rev ps) k" for k
    using jm.get_fold_put [of fst snd ps "[]" k] by (simp add: jm_get_def split: option.split)
  then show ?thesis by (simp add: userById_def presenceSync_def Let_def find_map_if [where k = u_id])
qed

lemma userById_apply:
  "userById i (applyPresence j st d) =
     map_option (\<lambda>u. if u_id u = j then u\<lparr>u_status := st\<rparr> else u) (userById i d)"
  by (simp add: userById_def applyPresence_def find_map_if [where k = u_id])

lemma userById_id: "userById i d = Some u \<Longrightarrow> u_id u = i"
  by (auto simp: userById_def find_Some_iff)

text \<open>
  A synchronisation sets everyone's status from the list alone (the last entry for a user, or
  offline) and so overrides every update received before it, and an update received after it
  changes that one user; apart from the status, and from users who are not listed, nobody changes.
\<close>

theorem presence_sync_then_update:
  "(\<forall>i. status_of (presenceSync ps (applyPresence j st d)) i =
      (if userById i d = None then None else Some (nvl (map_of (rev ps) i) Offline))) \<and>
   (\<forall>i. status_of (applyPresence j st (presenceSync ps d)) i =
      (if userById i d = None then None else if i = j then Some st else Some (nvl (map_of (rev ps) i) Offline))) \<and>
   map (\<lambda>u. u\<lparr>u_status := Online\<rparr>) (users (applyPresence j st (presenceSync ps d))) =
     map (\<lambda>u. u\<lparr>u_status := Online\<rparr>) (users d)"
proof -
  have "map (\<lambda>u. u\<lparr>u_status := Online\<rparr>) (users (applyPresence j st (presenceSync ps d))) =
      map (\<lambda>u. u\<lparr>u_status := Online\<rparr>) (users d)"
    by (simp add: applyPresence_def presenceSync_def Let_def)
  moreover have "status_of (presenceSync ps (applyPresence j st d)) i =
      (if userById i d = None then None else Some (nvl (map_of (rev ps) i) Offline))" for i
    using userById_id [of i d] by (cases "userById i d") (simp_all add: status_of_def userById_sync userById_apply)
  moreover have "status_of (applyPresence j st (presenceSync ps d)) i =
      (if userById i d = None then None else if i = j then Some st else Some (nvl (map_of (rev ps) i) Offline))" for i
    using userById_id [of i d] by (cases "userById i d") (simp_all add: status_of_def userById_sync userById_apply)
  ultimately show ?thesis by blast
qed

section \<open>The account\<close>

record auth_state =
  auth_me :: "user option"
  initialized :: bool

definition init_auth :: auth_state where
  "init_auth = \<lparr>auth_me = None, initialized = False\<rparr>"

definition prefs_applied :: "(user_preferences \<Rightarrow> string) \<Rightarrow> user option \<Rightarrow> page \<Rightarrow> page" where
  "prefs_applied to_text u pg =
     (case Option.bind u u_preferences of None \<Rightarrow> pg | Some p \<Rightarrow> applyTheme to_text (all_prefs p) pg)"

text \<open>\<open>init\<close> and \<open>login\<close> with their answers; \<open>login\<close>'s result is the error it returns.\<close>

definition auth_init_done ::
  "(user_preferences \<Rightarrow> string) \<Rightarrow> user option \<Rightarrow> auth_state \<times> page \<Rightarrow> auth_state \<times> page" where
  "auth_init_done to_text resp w =
     (case w of (a, pg) \<Rightarrow>
        (case resp of
           Some u \<Rightarrow> (a\<lparr>auth_me := Some u, initialized := True\<rparr>, prefs_applied to_text (Some u) pg)
         | None \<Rightarrow> (a\<lparr>auth_me := None, initialized := True\<rparr>, pg)))"

definition login_done ::
  "(user_preferences \<Rightarrow> string) \<Rightarrow> string option + user \<Rightarrow> auth_state \<times> page \<Rightarrow>
    string option \<times> auth_state \<times> page" where
  "login_done to_text resp w =
     (case w of (a, pg) \<Rightarrow>
        (case resp of
           Inr u \<Rightarrow> (None, a\<lparr>auth_me := Some u\<rparr>, prefs_applied to_text (Some u) pg)
         | Inl msg \<Rightarrow> (Some (nvl msg ''Login failed''), a, pg)))"

definition setMe :: "(user_preferences \<Rightarrow> string) \<Rightarrow> user option \<Rightarrow> auth_state \<times> page \<Rightarrow> auth_state \<times> page" where
  "setMe to_text u w = (case w of (a, pg) \<Rightarrow> (a\<lparr>auth_me := u\<rparr>, prefs_applied to_text u pg))"

end
