(* ===== verification/Strings.thy ===== *)
theory Strings
  imports Prelude
begin

text \<open>
  The string operations the pages use: \<open>toLowerCase\<close>, \<open>toUpperCase\<close>, \<open>includes\<close>, \<open>join\<close>, and \<open>split\<close> by a
  regular expression with one capturing group, for an expression given by the length of its
  match at the start of a string. The locale states what the two expressions of the program
  have in common; their lemmas about \<open>split\<close> are proved once inside it.
\<close>

section \<open>Case and substrings\<close>

definition js_lower_char :: "char \<Rightarrow> char" where
  "js_lower_char c = (let k = (of_char c :: nat) in
     if (65 \<le> k \<and> k \<le> 90) \<or> (192 \<le> k \<and> k \<le> 222 \<and> k \<noteq> 215) then char_of (k + 32) else c)"

definition js_lower :: "string \<Rightarrow> string" where
  "js_lower s = map js_lower_char s"

text \<open>
  \<open>toUpperCase\<close> on Latin-1: the sharp s becomes two letters; the micro sign and the y with diaeresis, whose
  capitals lie outside Latin-1, are left as they are here.
\<close>

definition js_upper :: "string \<Rightarrow> string" where
  "js_upper s = concat (map (\<lambda>c. let k = (of_char c :: nat) in
     if (97 \<le> k \<and> k \<le> 122) \<or> (224 \<le> k \<and> k \<le> 254 \<and> k \<noteq> 247) then [char_of (k - 32)]
     else if k = 223 then ''SS'' else [c]) s)"

fun str_includes :: "string \<Rightarrow> string \<Rightarrow> bool" where
  "str_includes [] t = (t = [])"
| "str_includes (c # s) t = (starts_with (c # s) t \<or> str_includes s t)"

lemma str_includes_iff: "str_includes s t \<longleftrightarrow> (\<exists>a b. s = a @ t @ b)"
proof (induction s)
  case (Cons c s)
  note IH = Cons
  show ?case
  proof
    assume "str_includes (c # s) t"
    then consider b where "c # s = [] @ t @ b" | a b where "c # s = (c # a) @ t @ b"
      using Cons by (auto simp: starts_with_iff)
    then show "\<exists>a b. c # s = a @ t @ b" by cases blast+
  next
    assume "\<exists>a b. c # s = a @ t @ b"
    then obtain a b where ab: "c # s = a @ t @ b" by blast
    show "str_includes (c # s) t"
    proof (cases a)
      case Nil
      then have "starts_with (c # s) t" using ab by (auto simp: starts_with_iff)
      then show ?thesis by simp
    next
      case (Cons d e)
      then have "s = e @ t @ b" using ab by simp
      then show ?thesis using IH by auto
    qed
  qed
qed auto

lemma str_includes_empty [simp]: "str_includes s []"
  by (cases s) (simp_all add: starts_with_def)

fun join_with :: "string \<Rightarrow> string list \<Rightarrow> string" where
  "join_with sep [] = []"
| "join_with sep [x] = x"
| "join_with sep (x # y # r) = x @ sep @ join_with sep (y # r)"

section \<open>Regular expressions\<close>

text \<open>\<open>len s\<close> is the length of the match at the start of \<open>s\<close>, 0 if there is none.\<close>

fun re_test :: "(string \<Rightarrow> nat) \<Rightarrow> string \<Rightarrow> bool" where
  "re_test len [] = False"
| "re_test len (c # s) = (0 < len (c # s) \<or> re_test len s)"

text \<open>\<open>s.split(/(\<dots>)/)\<close>; the second argument is the piece under way, reversed.\<close>

function re_split :: "(string \<Rightarrow> nat) \<Rightarrow> string \<Rightarrow> string \<Rightarrow> string list" where
  "re_split len acc [] = [rev acc]"
| "re_split len acc (c # s) =
     (let n = len (c # s) in
      if n = 0 then re_split len (c # acc) s
      else rev acc # take n (c # s) # re_split len [] (drop n (c # s)))"
  by pat_completeness auto
termination by (relation "measure (\<lambda>(len, acc, s). length s)") auto

lemma re_test_drop: "re_test len s \<longleftrightarrow> (\<exists>i < length s. 0 < len (drop i s))"
proof (induction s)
  case (Cons c s)
  show ?case
  proof
    assume "re_test len (c # s)"
    then consider "0 < len (drop 0 (c # s))" | i where "i < length s" "0 < len (drop (Suc i) (c # s))"
      using Cons by auto
    then show "\<exists>i < length (c # s). 0 < len (drop i (c # s))" by cases fastforce+
  next
    assume "\<exists>i < length (c # s). 0 < len (drop i (c # s))"
    then obtain i where "i < length (c # s)" "0 < len (drop i (c # s))" by blast
    then show "re_test len (c # s)" using Cons by (cases i) auto
  qed
qed simp

text \<open>
  An expression whose match does not look past its own end: what follows a match does not undo it,
  and the matched text matches in full.
\<close>

locale matcher =
  fixes len :: "string \<Rightarrow> nat"
  assumes len_stays: "0 < len a \<Longrightarrow> 0 < len (a @ b)"
    and len_self: "0 < len s \<Longrightarrow> 0 < len (take (len s) s)"
    and len_Nil: "len [] = 0"
begin

lemma concat_split: "concat (re_split len acc s) = rev acc @ s"
proof (induction len acc s rule: re_split.induct)
  case (2 len acc c s)
  then show ?case by (auto simp: Let_def)
qed simp

lemma captured_tested: "0 < len t \<Longrightarrow> re_test len (take (len t) t)"
  using len_self [of t] len_Nil by (cases "take (len t) t") auto

text \<open>Every piece is a match, or holds none.\<close>

lemma untested_before:
  assumes "\<And>i. i < length acc \<Longrightarrow> len (drop i (rev acc @ s)) = 0"
  shows "\<not> re_test len (rev acc)"
proof
  assume "re_test len (rev acc)"
  then obtain i where i: "i < length acc" "0 < len (drop i (rev acc))" by (auto simp: re_test_drop)
  then have "0 < len (drop i (rev acc) @ s)" by (intro len_stays)
  with assms [OF i(1)] i(1) show False by simp
qed

lemma split_pieces:
  assumes "p \<in> set (re_split len acc s)" "\<And>i. i < length acc \<Longrightarrow> len (drop i (rev acc @ s)) = 0"
  shows "(\<exists>t. 0 < len t \<and> p = take (len t) t) \<or> \<not> re_test len p"
  using assms
proof (induction "length s" arbitrary: acc s rule: less_induct)
  case less
  note none = untested_before [OF less.prems(2)]
  show ?case
  proof (cases s)
    case Nil
    then show ?thesis using none less.prems(1) by simp
  next
    case (Cons c r)
    show ?thesis
    proof (cases "len s = 0")
      case True
      have "len (drop i (rev (c # acc) @ r)) = 0" if "i < length (c # acc)" for i
        using less.prems(2) [of i] that True Cons by (cases "i = length acc") auto
      then show ?thesis using less.hyps [of r "c # acc"] less.prems(1) Cons True by simp
    next
      case False
      then have "p = rev acc \<or> p = take (len s) s \<or> p \<in> set (re_split len [] (drop (len s) s))"
        using less.prems(1) Cons by (auto simp: Let_def)
      then show ?thesis using none False less.hyps [of "drop (len s) s" "[]"] Cons by auto
    qed
  qed
qed

lemma split_piece_cases:
  assumes "p \<in> set (re_split len [] s)"
  obtains t where "0 < len t" "p = take (len t) t" "re_test len p" | "\<not> re_test len p"
  using split_pieces [OF assms] captured_tested by auto

end

end
