(* ===== verification/Forms.thy ===== *)
theory Forms
  imports Messages Strings
begin

text \<open>
  What the forms of the pages share: the outcome of a request, the search over people, and the
  contract most forms follow. A form is edited, submitted and answered; submitting it sends at most one
  request and is refused while one is under way. The locale states that contract; what follows from it
  (one request at a time, the busy flag tells whether one is under way) is proved once inside.
\<close>

section \<open>Requests\<close>

text \<open>How a request ended: the error's message (\<open>None\<close> if it has none) or success.\<close>

type_synonym outcome = "string option + unit"

text \<open>What a \<open>catch\<close> shows: \<open>err?.message ?? text\<close>.\<close>

definition failure_text :: "outcome \<Rightarrow> string \<Rightarrow> string option" where
  "failure_text r t = (case r of Inr _ \<Rightarrow> None | Inl e \<Rightarrow> Some (nvl e t))"

lemma failure_text_simps [simp]: "failure_text (Inr u) t = None" "failure_text (Inl e) t = Some (nvl e t)"
  by (simp_all add: failure_text_def)

text \<open>What a request rejects with: an \<open>ApiError\<close> with its status and message, or anything else.\<close>

datatype failure = ApiFailure int string | OtherFailure

section \<open>People\<close>

definition matches_search :: "string \<Rightarrow> string \<Rightarrow> string \<Rightarrow> bool" where
  "matches_search search display username =
     (str_includes (js_lower display) (js_lower search) \<or> str_includes (js_lower username) (js_lower search))"

text \<open>Everyone else who may be picked: the filter of the dialogs that invite people.\<close>

definition pickable_users :: "int \<Rightarrow> string \<Rightarrow> user list \<Rightarrow> user list" where
  "pickable_users meID search us =
     filter (\<lambda>u. if search \<noteq> [] then matches_search search (u_display_name u) (u_username u) else True)
       (filter (\<lambda>u. u_id u \<noteq> meID \<and> \<not> u_disabled u) us)"

text \<open>A checkbox of such a list.\<close>

definition tick :: "bool \<Rightarrow> 'a \<Rightarrow> 'a list \<Rightarrow> 'a list" where
  "tick checked x xs = (if checked then xs @ [x] else filter (\<lambda>y. y \<noteq> x) xs)"

lemma tick_set: "set (tick checked x xs) = (if checked then insert x (set xs) else set xs - {x})"
  by (auto simp: tick_def)

section \<open>One request at a time\<close>

text \<open>
  The runs of a form: \<open>n\<close> requests are under way in state \<open>s\<close>. It is edited, submitted, or one of the
  requests under way is answered.
\<close>

inductive form_reach ::
  "('e \<Rightarrow> 's \<Rightarrow> 's) \<Rightarrow> ('s \<Rightarrow> 's) \<Rightarrow> ('r \<Rightarrow> 's \<Rightarrow> 's) \<Rightarrow> ('s \<Rightarrow> nat) \<Rightarrow> 's \<Rightarrow> nat \<Rightarrow> 's \<Rightarrow> bool"
  for edit submit finish sent s0 where
  form_start: "form_reach edit submit finish sent s0 0 s0"
| form_edit: "form_reach edit submit finish sent s0 n (edit e s)"
    if "form_reach edit submit finish sent s0 n s"
| form_submit: "form_reach edit submit finish sent s0 (n + (sent (submit s) - sent s)) (submit s)"
    if "form_reach edit submit finish sent s0 n s"
| form_answer: "form_reach edit submit finish sent s0 n (finish r s)"
    if "form_reach edit submit finish sent s0 (Suc n) s"

locale request_form =
  fixes edit :: "'e \<Rightarrow> 's \<Rightarrow> 's"
    and submit :: "'s \<Rightarrow> 's"
    and finish :: "'r \<Rightarrow> 's \<Rightarrow> 's"
    and busy :: "'s \<Rightarrow> bool"
    and sent :: "'s \<Rightarrow> nat"
  assumes edit_quiet: "busy (edit e s) = busy s"
    and submit_busy: "busy s \<Longrightarrow> submit s = s"
    and submit_idle: "\<not> busy s \<Longrightarrow> sent (submit s) = sent s + (if busy (submit s) then 1 else 0)"
    and finish_idle: "\<not> busy (finish r s)"
begin

lemma under_way_iff_busy:
  assumes "form_reach edit submit finish sent s0 n s" "\<not> busy s0"
  shows "n = (if busy s then 1 else 0)"
  using assms
proof (induction rule: form_reach.induct)
  case (form_submit n s)
  then show ?case using submit_busy [of s] submit_idle [of s] by (cases "busy s") simp_all
qed (simp_all add: edit_quiet finish_idle split: if_splits)

lemma one_at_a_time:
  assumes "form_reach edit submit finish sent s0 n s" "\<not> busy s0"
  shows "n \<le> 1"
  using under_way_iff_busy [OF assms] by simp

text \<open>Once nothing is under way the form can be submitted again.\<close>

lemma idle_again:
  assumes "form_reach edit submit finish sent s0 0 s" "\<not> busy s0"
  shows "\<not> busy s"
  using under_way_iff_busy [OF assms] by (simp split: if_splits)

end

end
