(* ===== verification/BackupDialogs.thy ===== *)
theory BackupDialogs
  imports Crypto JsMap Forms
begin

text \<open>
  The dialogs of the key backup (\<open>components/KeyBackup.tsx\<close>): the password form, the section of the settings
  that turns the backup on and off, and the prompt after signing in on a device without it. What they run is
  \<open>Crypto\<close>'s; its outcome comes back as an event.
\<close>

section \<open>The password form\<close>

record password_form =
  pw :: string
  pw2 :: string

definition empty_form :: password_form where "empty_form = \<lparr>pw = [], pw2 = []\<rparr>"

definition tooShort :: "bool \<Rightarrow> password_form \<Rightarrow> bool" where
  "tooShort confirm f = (confirm \<and> 0 < length (pw f) \<and> length (pw f) < 8)"

definition mismatch :: "bool \<Rightarrow> password_form \<Rightarrow> bool" where
  "mismatch confirm f = (confirm \<and> 0 < length (pw2 f) \<and> pw f \<noteq> pw2 f)"

definition refused :: "bool \<Rightarrow> password_form \<Rightarrow> bool" where
  "refused confirm f = ((confirm \<and> (length (pw f) < 8 \<or> pw f \<noteq> pw2 f)) \<or> pw f = [])"

text \<open>\<open>submit\<close>: the password it hands on; the button is disabled on the same grounds and while busy.\<close>

definition submit_password :: "bool \<Rightarrow> bool \<Rightarrow> password_form \<Rightarrow> string option" where
  "submit_password confirm busy f = (if busy \<or> refused confirm f then None else Some (pw f))"

section \<open>The section of the settings\<close>

record backup_status =
  bs_exists :: bool
  bs_updatedAt :: "string option"
  bs_onDevice :: bool

datatype backup_mode = ModeCreate | ModeRestore | ModeChange | ModeDelete

datatype backup_action =
    AskStatus
  | RunCreate string
  | RunRestore string
  | RunChange string
  | RunDelete
  | ToastSuccess string
  | ReloadPage

record backup_section =
  kb_status :: "backup_status option"
  kb_mode :: "backup_mode option"
  kb_form :: password_form
  kb_busy :: bool
  kb_error :: "string option"
  kb_log :: "backup_action list"

definition kb_do :: "backup_action list \<Rightarrow> backup_section \<Rightarrow> backup_section" where
  "kb_do as s = s\<lparr>kb_log := kb_log s @ as\<rparr>"

definition mount_section :: backup_section where
  "mount_section = \<lparr>kb_status = None, kb_mode = None, kb_form = empty_form, kb_busy = False, kb_error = None,
     kb_log = [AskStatus]\<rparr>"

text \<open>\<open>loadStatus\<close>: the server's answer and what the device holds; a failure counts as no backup.\<close>

definition loadStatus :: "bool \<times> string option \<Rightarrow> bool \<Rightarrow> backup_status" where
  "loadStatus resp on_device = \<lparr>bs_exists = fst resp, bs_updatedAt = snd resp, bs_onDevice = on_device\<rparr>"

definition status_answered :: "backup_status option \<Rightarrow> backup_section \<Rightarrow> backup_section" where
  "status_answered r s = s\<lparr>kb_status := Some (nvl r \<lparr>bs_exists = False, bs_updatedAt = None, bs_onDevice = False\<rparr>)\<rparr>"

text \<open>The buttons that open a dialog: which are shown.\<close>

definition section_buttons :: "bool \<Rightarrow> backup_section \<Rightarrow> backup_mode list" where
  "section_buttons supported s =
     (if \<not> supported then []
      else case kb_status s of
        None \<Rightarrow> []
      | Some st \<Rightarrow>
          if \<not> bs_exists st then [ModeCreate]
          else (if bs_onDevice st then [ModeChange] else [ModeRestore]) @ [ModeDelete])"

text \<open>A closed dialog forgets what was typed into it; it closes only when nothing is under way.\<close>

definition open_mode :: "backup_mode \<Rightarrow> backup_section \<Rightarrow> backup_section" where
  "open_mode m s = s\<lparr>kb_mode := Some m, kb_form := (if kb_mode s = Some m then kb_form s else empty_form)\<rparr>"

definition close_mode :: "backup_section \<Rightarrow> backup_section" where
  "close_mode s = (if kb_busy s then s else s\<lparr>kb_mode := None, kb_form := empty_form\<rparr>)"

definition type_password :: "password_form \<Rightarrow> backup_section \<Rightarrow> backup_section" where
  "type_password f s = s\<lparr>kb_form := f\<rparr>"

definition mode_confirms :: "backup_mode \<Rightarrow> bool" where
  "mode_confirms m = (m = ModeCreate \<or> m = ModeChange)"

text \<open>The dialog's button: \<open>run\<close> up to its \<open>await\<close>.\<close>

definition run_mode :: "backup_section \<Rightarrow> backup_section" where
  "run_mode s =
     (case kb_mode s of
        None \<Rightarrow> s
      | Some ModeDelete \<Rightarrow> if kb_busy s then s else kb_do [RunDelete] (s\<lparr>kb_busy := True, kb_error := None\<rparr>)
      | Some m \<Rightarrow>
          (case submit_password (mode_confirms m) (kb_busy s) (kb_form s) of
             None \<Rightarrow> s
           | Some p \<Rightarrow> kb_do [if m = ModeCreate then RunCreate p else if m = ModeRestore then RunRestore p else RunChange p]
                         (s\<lparr>kb_busy := True, kb_error := None\<rparr>)))"

definition done_text :: "backup_mode \<Rightarrow> string" where
  "done_text m = (case m of ModeCreate \<Rightarrow> ''Chat backup is on.'' | ModeRestore \<Rightarrow> ''Backup restored.''
     | ModeChange \<Rightarrow> ''Backup password changed.'' | ModeDelete \<Rightarrow> ''Chat backup is off.'')"

text \<open>\<open>run\<close> after its \<open>await\<close>; \<open>m\<close> is the dialog it was started from. A restored backup reloads the page.\<close>

definition run_done :: "backup_mode \<times> outcome \<Rightarrow> backup_section \<Rightarrow> backup_section" where
  "run_done mr s =
     (case snd mr of
        Inr _ \<Rightarrow> kb_do [ToastSuccess (done_text (fst mr)), if fst mr = ModeRestore then ReloadPage else AskStatus]
                   (s\<lparr>kb_mode := None, kb_form := empty_form\<rparr>)
      | Inl e \<Rightarrow> s\<lparr>kb_error := Some (nvl e ''Something went wrong'')\<rparr>)
     \<lparr>kb_busy := False\<rparr>"

section \<open>The prompt\<close>

record restore_prompt =
  kp_user :: int
  kp_open :: bool
  kp_busy :: bool
  kp_error :: "string option"
  kp_storage :: storage
  kp_log :: "backup_action list"

definition skipKey :: "int \<Rightarrow> string" where
  "skipKey u = ''vc.backupPromptSkipped.'' @ show_int u"

definition mount_prompt :: "bool \<Rightarrow> int \<Rightarrow> storage \<Rightarrow> restore_prompt" where
  "mount_prompt subtle u st =
     (let p = \<lparr>kp_user = u, kp_open = False, kp_busy = False, kp_error = None, kp_storage = st, kp_log = []\<rparr>
      in if \<not> subtle then p
         else case getItem st (skipKey u) of
           Some v \<Rightarrow> if str_truthy v then p else p\<lparr>kp_log := [AskStatus]\<rparr>
         | None \<Rightarrow> p\<lparr>kp_log := [AskStatus]\<rparr>)"

definition prompt_status :: "backup_status option \<Rightarrow> restore_prompt \<Rightarrow> restore_prompt" where
  "prompt_status r p = (case r of None \<Rightarrow> p | Some s \<Rightarrow> p\<lparr>kp_open := (bs_exists s \<and> \<not> bs_onDevice s)\<rparr>)"

definition skip :: "restore_prompt \<Rightarrow> restore_prompt" where
  "skip p = p\<lparr>kp_storage := nvl (setItem (kp_storage p) (skipKey (kp_user p)) ''1'') (kp_storage p), kp_open := False\<rparr>"

definition close_prompt :: "restore_prompt \<Rightarrow> restore_prompt" where
  "close_prompt p = (if kp_busy p then p else skip p)"

definition prompt_restore :: "password_form \<Rightarrow> restore_prompt \<Rightarrow> restore_prompt" where
  "prompt_restore f p =
     (case submit_password False (kp_busy p) f of
        None \<Rightarrow> p
      | Some t \<Rightarrow> p\<lparr>kp_busy := True, kp_error := None, kp_log := kp_log p @ [RunRestore t]\<rparr>)"

text \<open>After a success the page reloads, so the prompt stays busy.\<close>

definition prompt_restored :: "outcome \<Rightarrow> restore_prompt \<Rightarrow> restore_prompt" where
  "prompt_restored r p =
     (case r of
        Inr _ \<Rightarrow> p\<lparr>kp_log := kp_log p @
          [ToastSuccess ''Backup restored. Your encrypted messages are readable here now.'', ReloadPage]\<rparr>
      | Inl e \<Rightarrow> p\<lparr>kp_error := Some (nvl e ''Could not restore the backup''), kp_busy := False\<rparr>)"

section \<open>Properties\<close>

datatype section_edit = OpenMode backup_mode | CloseMode | TypePw password_form | StatusAnswer "backup_status option"

primrec edit_section :: "section_edit \<Rightarrow> backup_section \<Rightarrow> backup_section" where
  "edit_section (OpenMode m) s = open_mode m s"
| "edit_section CloseMode s = close_mode s"
| "edit_section (TypePw f) s = type_password f s"
| "edit_section (StatusAnswer r) s = status_answered r s"

definition is_run :: "backup_action \<Rightarrow> bool" where
  "is_run a = (case a of RunCreate _ \<Rightarrow> True | RunRestore _ \<Rightarrow> True | RunChange _ \<Rightarrow> True | RunDelete \<Rightarrow> True | _ \<Rightarrow> False)"

lemmas section_defs = open_mode_def close_mode_def type_password_def status_answered_def run_mode_def run_done_def kb_do_def
  submit_password_def mode_confirms_def is_run_def

interpretation backup_form: request_form edit_section run_mode run_done kb_busy "\<lambda>s. length (filter is_run (kb_log s))"
proof unfold_locales
  show "kb_busy (edit_section e s) = kb_busy s" for e s by (cases e) (simp_all add: section_defs)
  show "\<not> kb_busy (run_done r s)" for r s by (simp add: section_defs split: sum.split)
  show "kb_busy s \<Longrightarrow> run_mode s = s" for s by (simp add: section_defs split: option.split backup_mode.split)
  show "\<not> kb_busy s \<Longrightarrow> length (filter is_run (kb_log (run_mode s))) =
      length (filter is_run (kb_log s)) + (if kb_busy (run_mode s) then 1 else 0)" for s
    by (simp add: section_defs split: option.split backup_mode.split)
qed

text \<open>A dialog runs what its title says, with a password that may be used for it, and only one thing at a time.\<close>

lemma dialogs_run_what_they_say:
  assumes "form_reach edit_section run_mode run_done (\<lambda>s. length (filter is_run (kb_log s))) mount_section n s"
  shows "n \<le> 1" and "kb_log (run_mode s) \<noteq> kb_log s \<Longrightarrow> n = 0 \<and> kb_mode s \<noteq> None"
    and "RunCreate p \<in> set (kb_log (run_mode s)) - set (kb_log s) \<Longrightarrow>
      kb_mode s = Some ModeCreate \<and> 8 \<le> length p \<and> p = pw (kb_form s) \<and> p = pw2 (kb_form s)"
proof -
  have n: "n = (if kb_busy s then 1 else 0)"
    by (rule backup_form.under_way_iff_busy [OF assms]) (simp add: mount_section_def)
  show "n \<le> 1" using n by simp
  show "kb_log (run_mode s) \<noteq> kb_log s \<Longrightarrow> n = 0 \<and> kb_mode s \<noteq> None"
    using n by (auto simp: section_defs split: option.splits backup_mode.splits if_splits)
  show "RunCreate p \<in> set (kb_log (run_mode s)) - set (kb_log s) \<Longrightarrow>
      kb_mode s = Some ModeCreate \<and> 8 \<le> length p \<and> p = pw (kb_form s) \<and> p = pw2 (kb_form s)"
    by (auto simp: section_defs refused_def split: option.splits backup_mode.splits if_splits)
qed

lemma form_says_why:
  "refused True f \<longleftrightarrow> tooShort True f \<or> mismatch True f \<or> pw f = [] \<or> (pw2 f = [] \<and> 8 \<le> length (pw f))"
  by (auto simp: refused_def tooShort_def mismatch_def)

text \<open>
  The prompt asks again until it is answered: where the browser keeps things it is not shown again once it was put off, and
  wherever a restore succeeded it is not shown, because the device then holds the backup's key.
\<close>

theorem prompt_asks_until_answered:
  assumes "\<not> blocked (kp_storage p)" "restoreKeyBackup pf password srv st = Inr st'"
  shows "kp_log (mount_prompt True (kp_user p) (kp_storage (skip p))) = [] \<and>
    \<not> kp_open (mount_prompt True (kp_user p) (kp_storage (skip p))) \<and>
    \<not> kp_open (prompt_status (Some (loadStatus resp (hasBackupKeyOnDevice True st'))) (mount_prompt True u sto)) \<and>
    kp_open (prompt_status (Some (loadStatus (True, t) False)) (mount_prompt True u sto))"
proof -
  have "hasBackupKeyOnDevice True st'"
    using assms(2)
    by (auto simp: restoreKeyBackup_def storeBackupKey_def hasBackupKeyOnDevice_def backupPrivateKey_def idbSet_def Let_def
        split: option.splits prod.splits)
  then show ?thesis
    using assms(1) by (simp add: skip_def mount_prompt_def setItem_def getItem_def jm_get_set prompt_status_def loadStatus_def Let_def)
qed

end
