(* ===== verification/Session.thy ===== *)
theory Session
  imports Stores Crypto ChatLaws CallLaws WsClient BackupDialogs
begin

text \<open>
  Signing in and out: what log-out clears (\<open>lib/session.ts\<close>), the log-out action
  (\<open>store/auth.ts\<close>), and the wiring of the app's root (\<open>App.tsx\<close>) that ends the call and the
  socket. The state is all the stores together.
\<close>

record 'sk app =
  app_auth :: auth_state
  app_chats :: chats
  app_calls :: calls
  app_directory :: directory
  app_presence :: presence_state
  app_crypto :: "'sk crypto_state"
  app_socket :: ws_client
  app_page :: page
  logout_reason :: "string option"
  reloads :: nat

section \<open>Clearing\<close>

definition chats_cleared :: "chats \<Rightarrow> chats" where
  "chats_cleared s = s\<lparr>messagesByDm := Map.empty, messagesByGroup := Map.empty, groups := [], active := None,
     typingDm := Map.empty, typingGroup := Map.empty, unread := Map.empty, sendError := None,
     historyLoading := Map.empty, hasMore := Map.empty, savedIDs := {}, encryptedConvos := Map.empty,
     decryptedContent := Map.empty\<rparr>"

definition account_key :: "string \<Rightarrow> bool" where
  "account_key k \<longleftrightarrow> starts_with k ''vc.draft.'' \<or> starts_with k ''vc.e2e.'' \<or> k = prefs_key"

text \<open>The two loops over local storage, in a \<open>try\<close>.\<close>

definition storage_cleared :: "storage \<Rightarrow> storage" where
  "storage_cleared st =
     (if blocked st then st
      else st\<lparr>items := fold jm_delete (filter (\<lambda>k. k \<noteq> [] \<and> account_key k) (jm_keys (items st))) (items st)\<rparr>)"

definition clearLocalUserData :: "'sk app \<Rightarrow> 'sk app" where
  "clearLocalUserData a = a\<lparr>app_chats := chats_cleared (app_chats a),
     app_directory := (app_directory a)\<lparr>users := [], dir_loaded := False, dir_error := None\<rparr>,
     app_calls := (app_calls a)\<lparr>history := [], historyLoaded := False, historyError := None\<rparr>,
     app_presence := (app_presence a)\<lparr>myStatus := Online\<rparr>,
     app_crypto := clearDecryptCache (app_crypto a),
     app_page := (app_page a)\<lparr>page_storage := storage_cleared (page_storage (app_page a))\<rparr>\<rparr>"

section \<open>Leaving\<close>

text \<open>\<open>logout\<close> after its request was answered, either way.\<close>

definition logout_done :: "'sk app \<Rightarrow> 'sk app" where
  "logout_done a = clearLocalUserData (a\<lparr>app_auth := (app_auth a)\<lparr>auth_me := None\<rparr>\<rparr>)"

text \<open>The clean-up of the app's effect, which runs when the account signed in has changed.\<close>

definition app_cleanup :: "call_env \<Rightarrow> 'sk app \<Rightarrow> 'sk app" where
  "app_cleanup env a =
     (let a1 = (if auth_me (app_auth a) = None then a\<lparr>app_calls := hangup env (app_calls a)\<rparr> else a)
      in a1\<lparr>app_socket := disconnect (app_socket a1)\<rparr>)"

text \<open>\<open>forceSignOut\<close>; the closure's flag \<open>signedOut\<close> is the first argument.\<close>

definition forceSignOut ::
  "bool \<Rightarrow> call_env \<Rightarrow> (user_preferences \<Rightarrow> string) \<Rightarrow> string \<Rightarrow> 'sk app \<Rightarrow> 'sk app" where
  "forceSignOut signedOut env to_text reason a =
     (if signedOut then a
      else
        (let a1 = a\<lparr>app_calls := hangup env (app_calls a)\<rparr>;
             w = setMe to_text None (app_auth a1, app_page a1);
             a2 = a1\<lparr>app_auth := fst w, app_page := snd w, app_socket := disconnect (app_socket a1)\<rparr>
         in (clearLocalUserData a2)\<lparr>logout_reason := Some reason, reloads := reloads a2 + 1\<rparr>))"

definition logout_reasons :: "string \<Rightarrow> string" where
  "logout_reasons r = nvl (map_of
     [(''signed_in_elsewhere'', ''You were signed out because your account was signed in on another device.''),
      (''suspended'', ''Your account has been suspended by an administrator.''),
      (''deleted'', ''Your account has been removed by an administrator.''),
      (''password_changed'', ''Your password was changed. Please sign in with the new password.''),
      (''signed_out'', ''An administrator signed you out. Please sign in again.'')] r)
     ''You were signed out. Please sign in again.''"

text \<open>\<open>resetPasswordToken\<close>: the path, and the query's \<open>token\<close>.\<close>

definition resetPasswordToken :: "string \<Rightarrow> string option \<Rightarrow> string option" where
  "resetPasswordToken path token = (if path \<noteq> ''/reset-password'' then None else token)"

datatype screen = ResetScreen string | LoadingScreen | LoginScreen | MainScreen bool

text \<open>Which screen the app shows; \<open>MainScreen\<close> with or without the notice about plain HTTP.\<close>

definition app_screen :: "string \<Rightarrow> string option \<Rightarrow> bool \<Rightarrow> string \<Rightarrow> auth_state \<Rightarrow> screen" where
  "app_screen path token is_secure hostname a =
     (if str_truthy (resetPasswordToken path token) then ResetScreen (the token)
      else if \<not> initialized a then LoadingScreen
      else if auth_me a = None then LoginScreen
      else MainScreen (\<not> is_secure \<and> hostname \<noteq> ''localhost'' \<and> hostname \<noteq> ''127.0.0.1''))"

section \<open>Properties\<close>

lemma jm_get_fold_delete: "jm_get (fold jm_delete ks m) k = (if k \<in> set ks then None else jm_get m k)"
  by (induction ks arbitrary: m) (auto simp: jm.get_del)

lemma storage_cleared_get:
  assumes "\<not> blocked st"
  shows "getItem (storage_cleared st) k =
    Some (if k \<noteq> [] \<and> account_key k then None else jm_get (items st) k)"
  using assms jm.get_key [of "items st" k]
  by (auto simp: storage_cleared_def getItem_def jm_get_fold_delete)

lemma chats_cleared_simps [simp]:
  "bucket c (chats_cleared s) = []" "groups (chats_cleared s) = []" "unread (chats_cleared s) = Map.empty"
  "savedIDs (chats_cleared s) = {}" "decryptedContent (chats_cleared s) = Map.empty"
  by (cases c) (simp_all add: chats_cleared_def)

lemma history_effects [simp]:
  "history (emit_call e s) = history s" "history (stop_stream st s) = history s"
  "history (clearP2PReconnectTimer s) = history s" "history (send_call env ty d s) = history s"
  "history (close_current s) = history s" "history (leave_current b s) = history s"
  by (simp_all add: calls_effects_simps send_call_eq stop_stream_eq clearP2PReconnectTimer_eq close_current_eq
      leave_current_eq emit_call_def split: option.split)

lemma chats_cleared_eq:
  "chats_cleared s = init_chats\<lparr>pendingAcks := pendingAcks s, lastTypingSent := lastTypingSent s,
     optimisticSequence := optimisticSequence s, callCovering := callCovering s, wsRegistered := wsRegistered s, out := out s\<rparr>"
  by (simp add: chats_cleared_def init_chats_def)

lemma hangup_leaves:
  assumes "history s = []" "\<not> historyLoaded s" "historyError s = None"
  shows "hangup env s = init_calls\<lparr>activeGroupRooms := activeGroupRooms s, call_toast := call_toast s, micOn := micOn s, camOn := camOn s,
     ringing := ringing s, mode := mode s, startedWithVideo := startedWithVideo s, calls_registered := calls_registered s,
     callEpoch := callEpoch s + 1, direct := direct (hangup env s), room := room (hangup env s), trace := trace (hangup env s)\<rparr>"
  by (rule calls.equality) (use assms in \<open>simp_all add: hangup_def init_calls_def Let_def calls_eq\<close>)

lemma hangup_idle: "status (hangup env s) = Idle" "history (hangup env s) = history s"
  by (simp_all add: hangup_def Let_def emit_call_def)


definition ex_app :: "nat app" where
  "ex_app = \<lparr>app_auth = init_auth, app_chats = set_bucket (Dm 9) [] init_chats, app_calls = init_calls,
     app_directory = init_directory, app_presence = init_presence, app_crypto = new_crypto, app_socket = init_ws,
     app_page = ex_page\<lparr>page_storage := \<lparr>blocked = False, items = [(''vc.draft.9'', ''x''), (''vc.mic'', ''m1'')]\<rparr>\<rparr>,
     logout_reason = None, reloads = 0\<rparr>"


text \<open>
  A page of history that was asked for before a log-out and arrives after it is put into the
  emptied store, and when the next account opens the conversation with the same person, the
  previous account's messages stay among its own.
\<close>

theorem late_page_crosses_accounts:
  assumes "distinct (map mid msgs)" "\<forall>m \<in> set msgs. dated m" "x \<in> set msgs" "mid x \<notin> mid ` set msgs'"
    and "s1 = loadMessages_done c (Some msgs) (chats_cleared s)" "s2 = loadMessages_done c (Some msgs') s1"
  shows "x \<in> set (bucket c s1) \<and> x \<in> set (bucket c s2)"
proof -
  have b1: "bucket c s1 = merge_page [] msgs"
    by (simp add: assms(5) loadMessages_done_def bucket_frame)
  have b2: "bucket c s2 = merge_page (bucket c s1) msgs'"
    by (simp add: assms(6) loadMessages_done_def bucket_frame)
  have "bucket_abs (bucket c s1) (mid x) = Some x"
    using assms(1,3) by (simp add: b1 abs_merge_page_any bucket_abs_rev bucket_abs_in)
  moreover have ok: "distinct (map mid (bucket c s1))"
    using merge_page_ok [of "[]" msgs] assms(2) by (simp add: b1 bucket_ok_def)
  moreover have "bucket_abs (rev msgs') (mid x) = None"
    using assms(4) by (force simp: bucket_abs_def map_of_eq_None_iff)
  ultimately have "bucket_abs (bucket c s2) (mid x) = Some x"
    by (simp add: b2 abs_merge_page_any bucket_abs_rev map_add_def)
  then have "x \<in> set (bucket c s2)" by (auto simp: bucket_abs_def dest!: map_of_SomeD)
  moreover have "x \<in> set (bucket c s1)"
    using \<open>bucket_abs (bucket c s1) (mid x) = Some x\<close> by (auto simp: bucket_abs_def dest!: map_of_SomeD)
  ultimately show ?thesis by blast
qed

theorem late_page_crosses_accounts_witness:
  "ex_msg 1 10 ''secret'' \<in> set (bucket (Dm 9) (loadMessages_done (Dm 9) (Some [ex_msg 2 20 ''mine''])
     (loadMessages_done (Dm 9) (Some [ex_msg 1 10 ''secret'']) (chats_cleared init_chats))))"
proof -
  have "distinct (map mid [ex_msg 1 10 ''secret''])" "\<forall>m \<in> set [ex_msg 1 10 ''secret'']. dated m"
    "ex_msg 1 10 ''secret'' \<in> set [ex_msg 1 10 ''secret'']"
    "mid (ex_msg 1 10 ''secret'') \<notin> mid ` set [ex_msg 2 20 ''mine'']"
    by simp_all
  from late_page_crosses_accounts [OF this refl refl] show ?thesis by blast
qed

end
