(* ===== verification/Media.thy ===== *)
theory Media
  imports Complex_Main Stores "HOL-Library.Word"
begin

text \<open>
  Media helpers (\<open>lib/media.ts\<close>): the list of devices and the preferred ones, acquiring the
  microphone and the camera, the ringtone, and notifications. The browser's objects are called
  through effects; what it answers comes back as an argument.
\<close>

section \<open>State\<close>

datatype dev_kind = MicPref | CamPref | SpeakerPref

datatype input_kind = AudioInput | VideoInput | AudioOutput

text \<open>A device as \<open>enumerateDevices\<close> lists it: its kind, id and label.\<close>

type_synonym device = "input_kind \<times> string \<times> string"

record device_list =
  mics :: "device list"
  cams :: "device list"
  speakers :: "device list"

datatype media_eff =
    DispatchDevicePreference
  | CallDeviceListener nat
  | PlayRing
  | StartRingTimer
  | ClearRingTimer
  | MessageChime
  | ShowToast string string "string option"
  | SwNotification string string string
  | DirectNotification string string string
  | FocusWindow
  | RunHandler string
  | CloseNotification

record media_state =
  cachedDevices :: "device_list option"
  deviceListeners :: "nat list"
  media_prefs :: "dev_kind \<Rightarrow> string option"
  media_storage :: storage
  ringTimer :: bool
  clickHandlers :: "(string, string) jsmap"
  media_log :: "media_eff list"

definition mnote :: "media_eff list \<Rightarrow> media_state \<Rightarrow> media_state" where
  "mnote es m = m\<lparr>media_log := media_log m @ es\<rparr>"

section \<open>Devices\<close>

definition no_devices :: device_list where
  "no_devices = \<lparr>mics = [], cams = [], speakers = []\<rparr>"

text \<open>
  \<open>listDevices\<close>: the cached list, or (second component \<open>None\<close>) the browser has to be asked;
  \<open>devices_listed\<close> is the rest, where the browser cannot list (\<open>None\<close>) or answers.
\<close>

definition listDevices :: "bool \<Rightarrow> media_state \<Rightarrow> device_list option" where
  "listDevices force m = (if force then None else cachedDevices m)"

definition devices_listed :: "device list option \<Rightarrow> media_state \<Rightarrow> device_list \<times> media_state" where
  "devices_listed answer m =
     (let l = (case answer of
                 None \<Rightarrow> no_devices
               | Some ds \<Rightarrow> \<lparr>mics = filter (\<lambda>d. fst d = AudioInput) ds, cams = filter (\<lambda>d. fst d = VideoInput) ds,
                   speakers = filter (\<lambda>d. fst d = AudioOutput) ds\<rparr>)
      in (l, m\<lparr>cachedDevices := Some l\<rparr>))"

definition onDevicesChanged :: "nat \<Rightarrow> media_state \<Rightarrow> media_state" where
  "onDevicesChanged cb m = m\<lparr>deviceListeners := deviceListeners m @ [cb]\<rparr>"

definition offDevicesChanged :: "nat \<Rightarrow> media_state \<Rightarrow> media_state" where
  "offDevicesChanged cb m = m\<lparr>deviceListeners := removeAll cb (deviceListeners m)\<rparr>"

definition devicechange :: "media_state \<Rightarrow> media_state" where
  "devicechange m = fold (\<lambda>cb m'. mnote [CallDeviceListener cb] (m'\<lparr>cachedDevices := None\<rparr>)) (deviceListeners m) m"

definition pref_key :: "dev_kind \<Rightarrow> string" where
  "pref_key k = (case k of MicPref \<Rightarrow> ''vc.mic'' | CamPref \<Rightarrow> ''vc.cam'' | SpeakerPref \<Rightarrow> ''vc.speaker'')"

text \<open>\<open>getItem(\<dots>) || undefined\<close>, when the module is loaded.\<close>

definition load_prefs :: "storage \<Rightarrow> dev_kind \<Rightarrow> string option" where
  "load_prefs st k = (case getItem st (pref_key k) of Some v \<Rightarrow> if str_truthy v then v else None | None \<Rightarrow> None)"

definition getPreferredDevice :: "dev_kind \<Rightarrow> media_state \<Rightarrow> string option" where
  "getPreferredDevice k m = media_prefs m k"

text \<open>The access to local storage is not in a \<open>try\<close>: if it is blocked (\<open>False\<close>) the call throws.\<close>

definition setPreferredDevice :: "dev_kind \<Rightarrow> string option \<Rightarrow> media_state \<Rightarrow> media_state \<times> bool" where
  "setPreferredDevice k i m =
     (let m1 = m\<lparr>media_prefs := (media_prefs m)(k := i)\<rparr> in
      case (if str_truthy i then setItem (media_storage m) (pref_key k) (the i)
            else removeItem (media_storage m) (pref_key k)) of
        None \<Rightarrow> (m1, False)
      | Some st \<Rightarrow> (mnote [DispatchDevicePreference] (m1\<lparr>media_storage := st\<rparr>), True))"

section \<open>Acquiring media\<close>

datatype audio_request = AnyMic | IdealMic string
datatype video_request = NoVideo | Video720 "string option"

definition insecure_media_error :: string where
  "insecure_media_error =
     ''Microphone and camera require a Secure Context (HTTPS or localhost). Please connect via HTTPS.''"

text \<open>
  \<open>acquireLocalMedia\<close>: \<open>gum\<close> is \<open>getUserMedia\<close> (\<open>None\<close>: rejected), \<open>available\<close> whether there is one.
  The result is the error thrown or the stream, with the requests made.
\<close>

definition audio_request_of :: "media_state \<Rightarrow> audio_request" where
  "audio_request_of m = (case media_prefs m MicPref of
     Some d \<Rightarrow> if d \<noteq> [] then IdealMic d else AnyMic | None \<Rightarrow> AnyMic)"

definition video_request_of :: "bool \<Rightarrow> media_state \<Rightarrow> video_request" where
  "video_request_of video m = (if \<not> video then NoVideo
     else Video720 (if str_truthy (media_prefs m CamPref) then media_prefs m CamPref else None))"

definition acquireLocalMedia ::
  "bool \<Rightarrow> (audio_request \<times> video_request \<Rightarrow> 'st option) \<Rightarrow> bool \<Rightarrow> media_state \<Rightarrow>
    (string + 'st) \<times> (audio_request \<times> video_request) list" where
  "acquireLocalMedia available gum video m =
     (if \<not> available then (Inl insecure_media_error, [])
      else
        (let full = (audio_request_of m, video_request_of video m); plain = (audio_request_of m, NoVideo);
             only_audio = (case gum plain of None \<Rightarrow> Inl ''getUserMedia'' | Some st \<Rightarrow> Inr st)
         in if video
            then (case gum full of
                    Some st \<Rightarrow> (Inr st, [full])
                  | None \<Rightarrow> (only_audio, [full, plain]))
            else (only_audio, [plain])))"

section \<open>The ringtone\<close>

definition playRingCycle :: "media_state \<Rightarrow> media_state" where
  "playRingCycle m = mnote [PlayRing, StartRingTimer] (m\<lparr>ringTimer := True\<rparr>)"

text \<open>\<open>audio_ok\<close>: the browser gives an audio context.\<close>

definition startRingtone :: "bool \<Rightarrow> media_state \<Rightarrow> media_state" where
  "startRingtone audio_ok m = (if ringTimer m \<or> \<not> audio_ok then m else playRingCycle m)"

definition stopRingtone :: "media_state \<Rightarrow> media_state" where
  "stopRingtone m = (if ringTimer m then mnote [ClearRingTimer] (m\<lparr>ringTimer := False\<rparr>) else m)"

section \<open>Notifications\<close>

datatype permission = Granted | Denied | DefaultPermission

text \<open>What the browser is at the moment of a call.\<close>

record browser =
  has_Notification :: bool
  secure_context :: bool
  browser_permission :: permission
  page_visible :: bool
  page_focused :: bool
  sw_controller :: bool

definition notificationsSupported :: "browser \<Rightarrow> bool" where
  "notificationsSupported b = (has_Notification b \<and> secure_context b)"

definition getNotificationPermissionStatus :: "browser \<Rightarrow> permission" where
  "getNotificationPermissionStatus b = (if notificationsSupported b then browser_permission b else Denied)"

text \<open>
  \<open>requestNotificationPermission\<close>: \<open>answer\<close> is the user's (\<open>None\<close>: the request throws), \<open>b'\<close> the
  browser afterwards.
\<close>

definition requestNotificationPermission :: "browser \<Rightarrow> permission option \<Rightarrow> browser \<Rightarrow> permission" where
  "requestNotificationPermission b answer b' =
     (if \<not> notificationsSupported b then Denied
      else if browser_permission b = DefaultPermission then nvl answer (browser_permission b')
      else browser_permission b)"

record notify_options =
  n_tag :: "string option"
  n_onClick :: "string option"
  n_inApp :: "bool option"
  n_sound :: "bool option"

definition toast_instead :: "notify_options \<Rightarrow> string \<Rightarrow> string \<Rightarrow> media_eff list" where
  "toast_instead opts title body = (if nvl (n_inApp opts) True then [ShowToast title body (n_onClick opts)] else [])"

text \<open>\<open>direct_ok\<close>: the constructor of \<open>Notification\<close> does not throw.\<close>

definition showDirect :: "bool \<Rightarrow> notify_options \<Rightarrow> string \<Rightarrow> string \<Rightarrow> media_eff list" where
  "showDirect direct_ok opts title body =
     (if direct_ok then [DirectNotification title body (nvl (n_tag opts) ''visioncall'')]
      else toast_instead opts title body)"

definition notify :: "browser \<Rightarrow> bool \<Rightarrow> notify_options \<Rightarrow> string \<Rightarrow> string \<Rightarrow> media_state \<Rightarrow> media_state" where
  "notify b direct_ok opts title body m =
     (let tag = nvl (n_tag opts) ''visioncall'';
          m1 = (if nvl (n_sound opts) True then mnote [MessageChime] m else m)
      in if (page_visible b \<and> page_focused b) \<or> getNotificationPermissionStatus b \<noteq> Granted
         then mnote (toast_instead opts title body) m1
         else
           (let m2 = (case n_onClick opts of None \<Rightarrow> m1
                      | Some h \<Rightarrow> m1\<lparr>clickHandlers := jm_set tag h (clickHandlers m1)\<rparr>)
            in if sw_controller b then mnote [SwNotification title body tag] m2
               else mnote (showDirect direct_ok opts title body) m2))"

text \<open>The service worker could not show it; a click on a notification of either sort.\<close>

definition sw_failed :: "bool \<Rightarrow> notify_options \<Rightarrow> string \<Rightarrow> string \<Rightarrow> media_state \<Rightarrow> media_state" where
  "sw_failed direct_ok opts title body m = mnote (showDirect direct_ok opts title body) m"

definition notification_click :: "string \<Rightarrow> media_state \<Rightarrow> media_state" where
  "notification_click tag m = mnote (FocusWindow #
     (case jm_get (clickHandlers m) tag of None \<Rightarrow> [] | Some h \<Rightarrow> [RunHandler h])) m"

definition direct_click :: "notify_options \<Rightarrow> media_state \<Rightarrow> media_state" where
  "direct_click opts m = mnote (FocusWindow # (case n_onClick opts of None \<Rightarrow> [] | Some h \<Rightarrow> [RunHandler h])
     @ [CloseNotification]) m"

section \<open>The audio meter, the test sound and misc\<close>

text \<open>
  A frame of \<open>createAudioMeter\<close>: the mean of the analyser's 128 bytes, scaled so that 128 is 100
  percent, rounded and capped. The mean and the scaling are exact in floating point (both divide by 128).
\<close>

definition meter_level :: "8 word list \<Rightarrow> int" where
  "meter_level bytes =
     (let avg = of_nat (sum_list (map unat bytes)) / of_nat (length bytes) :: rat
      in min 100 \<lfloor>avg / 128 * 100 + 1 / 2\<rfloor>)"

datatype meter_eff = ReportVolume int | RequestFrame | CancelFrame | DisconnectSource | DisconnectAnalyser | CloseContext

definition meter_frame :: "8 word list \<Rightarrow> meter_eff list" where
  "meter_frame bytes = [ReportVolume (meter_level bytes), RequestFrame]"

text \<open>Starting a meter (\<open>works\<close>: the audio context can be made), and the function it returns.\<close>

definition createAudioMeter :: "nat \<Rightarrow> bool \<Rightarrow> meter_eff list" where
  "createAudioMeter audio_tracks works = (if audio_tracks = 0 \<or> \<not> works then [] else [RequestFrame])"

definition meter_stop :: "nat \<Rightarrow> bool \<Rightarrow> meter_eff list" where
  "meter_stop audio_tracks works =
     (if audio_tracks = 0 \<or> \<not> works then [] else [CancelFrame, DisconnectSource, DisconnectAnalyser, CloseContext])"

text \<open>The tracks \<open>stopStream\<close> stops.\<close>

definition stopStream :: "nat list option \<Rightarrow> nat list" where
  "stopStream tracks = (case tracks of None \<Rightarrow> [] | Some ts \<Rightarrow> ts)"

section \<open>Properties\<close>

definition shown :: "media_eff \<Rightarrow> bool" where
  "shown e = (case e of ShowToast t b h \<Rightarrow> True | SwNotification t b g \<Rightarrow> True | DirectNotification t b g \<Rightarrow> True | _ \<Rightarrow> False)"

text \<open>
  A notification is shown exactly once and in the right place: as a toast while the user looks
  at the page or the browser may not notify (and then only if the caller wants one), otherwise by
  the browser, whose failure falls back to the next way; a click on it brings the page to the front
  and runs the handler last given for its tag.
\<close>

theorem notification_is_shown_once:
  assumes "m1 = notify b direct_ok opts title body m" "new = drop (length (media_log m)) (media_log m1)"
    and "looking = (page_visible b \<and> page_focused b)" "may = (getNotificationPermissionStatus b = Granted)"
  shows "filter shown new =
      (if looking \<or> \<not> may then toast_instead opts title body
       else if sw_controller b then [SwNotification title body (nvl (n_tag opts) ''visioncall'')]
       else showDirect direct_ok opts title body) \<and>
    length (filter shown new) \<le> 1 \<and> (nvl (n_inApp opts) True \<longrightarrow> length (filter shown new) = 1) \<and>
    (\<not> looking \<and> may \<and> n_onClick opts = Some h \<longrightarrow>
      media_log (notification_click (nvl (n_tag opts) ''visioncall'') m1) = media_log m1 @ [FocusWindow, RunHandler h])"
proof -
  have new: "filter shown new = (if looking \<or> \<not> may then toast_instead opts title body
       else if sw_controller b then [SwNotification title body (nvl (n_tag opts) ''visioncall'')]
       else showDirect direct_ok opts title body)"
    by (simp add: assms notify_def Let_def mnote_def toast_instead_def showDirect_def shown_def split: option.split)
  have "media_log (notification_click (nvl (n_tag opts) ''visioncall'') m1) = media_log m1 @ [FocusWindow, RunHandler h]"
    if "\<not> looking \<and> may \<and> n_onClick opts = Some h"
    using that by (auto simp: assms notify_def Let_def mnote_def notification_click_def jm.get_put)
  with new show ?thesis by (auto simp: toast_instead_def showDirect_def)
qed

definition ex_media :: media_state where
  "ex_media = \<lparr>cachedDevices = None, deviceListeners = [], media_prefs = (\<lambda>_. None),
     media_storage = \<lparr>blocked = False, items = []\<rparr>, ringTimer = False, clickHandlers = [], media_log = []\<rparr>"

theorem notification_is_shown_once_witness:
  "media_log (notification_click ''dm'' (notify \<lparr>has_Notification = True, secure_context = True,
     browser_permission = Granted, page_visible = False, page_focused = False, sw_controller = True\<rparr> True
     \<lparr>n_tag = Some ''dm'', n_onClick = Some ''open'', n_inApp = None, n_sound = Some False\<rparr> ''t'' ''b'' ex_media)) =
   [SwNotification ''t'' ''b'' ''dm'', FocusWindow, RunHandler ''open'']"
proof -
  let ?b = "\<lparr>has_Notification = True, secure_context = True, browser_permission = Granted, page_visible = False,
    page_focused = False, sw_controller = True\<rparr>"
  let ?o = "\<lparr>n_tag = Some ''dm'', n_onClick = Some ''open'', n_inApp = None, n_sound = Some False\<rparr>"
  have "media_log (notification_click (nvl (n_tag ?o) ''visioncall'') (notify ?b True ?o ''t'' ''b'' ex_media)) =
      media_log (notify ?b True ?o ''t'' ''b'' ex_media) @ [FocusWindow, RunHandler ''open'']"
    using notification_is_shown_once [OF refl refl refl refl, where opts = ?o and b = ?b and h = "''open''" and
        title = "''t''" and body = "''b''" and m = ex_media and direct_ok = True]
    by (simp add: getNotificationPermissionStatus_def notificationsSupported_def)
  then show ?thesis
    by (simp add: notify_def Let_def mnote_def getNotificationPermissionStatus_def notificationsSupported_def ex_media_def)
qed

lemma stopRingtone_quiet: "\<not> ringTimer (stopRingtone m)" "stopRingtone (stopRingtone m) = stopRingtone m"
  by (simp_all add: stopRingtone_def mnote_def)

text \<open>The camera is optional: without it the call goes on with the microphone alone.\<close>

lemma acquire_falls_back:
  assumes "gum (audio_request_of m, video_request_of True m) = None" "gum (audio_request_of m, NoVideo) = Some st"
  shows "fst (acquireLocalMedia True gum True m) = Inr st"
  using assms by (simp add: acquireLocalMedia_def)

lemma preference_survives_reload:
  assumes "setPreferredDevice k (Some d) m = (m1, True)" "d \<noteq> []"
  shows "load_prefs (media_storage m1) k = Some d"
  using assms by (auto simp: setPreferredDevice_def load_prefs_def setItem_def getItem_def mnote_def jm.get_put Let_def
      split: option.splits if_splits)

text \<open>
  The meter shows a percentage: silence is 0, the value never leaves 0 to 100, and a louder frame never shows less.
\<close>

theorem meter_is_a_percentage:
  assumes "length xs = 128" "length ys = 128" "sum_list (map unat xs) \<le> sum_list (map unat ys)"
  shows "0 \<le> meter_level xs \<and> meter_level xs \<le> meter_level ys \<and> meter_level ys \<le> 100 \<and>
    meter_level (replicate 128 0) = 0"
proof -
  have level: "meter_level zs = min 100 \<lfloor>(of_nat (sum_list (map unat zs)) :: rat) * 100 / 16384 + 1 / 2\<rfloor>"
    if "length zs = 128" for zs by (simp add: meter_level_def Let_def that field_simps)
  have "(of_nat (sum_list (map unat xs)) :: rat) \<le> of_nat (sum_list (map unat ys))" using assms(3) by simp
  then have "\<lfloor>(of_nat (sum_list (map unat xs)) :: rat) * 100 / 16384 + 1 / 2\<rfloor> \<le>
      \<lfloor>(of_nat (sum_list (map unat ys)) :: rat) * 100 / 16384 + 1 / 2\<rfloor>" by (intro floor_mono) simp
  moreover have "0 \<le> \<lfloor>(of_nat (sum_list (map unat xs)) :: rat) * 100 / 16384 + 1 / 2\<rfloor>" by simp
  moreover have "meter_level (replicate 128 0) = 0" by (simp add: level sum_list_replicate floor_eq_iff)
  ultimately show ?thesis using assms(1,2) by (simp add: level)
qed

theorem meter_is_a_percentage_witness: "meter_level (replicate 128 64) = 50 \<and> meter_level (replicate 128 0) = 0"
  using meter_is_a_percentage [of "replicate 128 0" "replicate 128 64"]
  by (simp add: meter_level_def Let_def sum_list_replicate floor_eq_iff)

end
