(* ===== verification/Api.thy ===== *)
theory Api
  imports Strings Complex_Main
begin

text \<open>
  The REST client (\<open>lib/api.ts\<close>): the CSRF cookie, the request every endpoint goes through with
  its treatment of errors and of lost sessions, uploads, and the endpoints with their methods,
  paths and bodies. \<open>encodeURIComponent\<close>, its inverse and the query string of
  \<open>URLSearchParams\<close> are arguments.
\<close>

section \<open>The CSRF cookie\<close>

definition csrf_name :: string where "csrf_name = ''vc_csrf=''"

text \<open>\<open>vc_csrf=([^;]+)\<close> right here: the captured value.\<close>

definition csrf_here :: "string \<Rightarrow> string option" where
  "csrf_here s =
     (if starts_with s csrf_name
      then (let v = takeWhile (\<lambda>c. c \<noteq> CHR '';'') (drop (length csrf_name) s) in if v = [] then None else Some v)
      else None)"

text \<open>The leftmost match of \<open>(?:^|;\<bslash>s*)vc_csrf=([^;]+)\<close> from a later position on, and from the start.\<close>

fun csrf_scan :: "string \<Rightarrow> string option" where
  "csrf_scan [] = None"
| "csrf_scan (c # s) =
     (if c = CHR '';''
      then (case csrf_here (dropWhile js_space s) of Some v \<Rightarrow> Some v | None \<Rightarrow> csrf_scan s)
      else csrf_scan s)"

definition csrf_match :: "string \<Rightarrow> string option" where
  "csrf_match cookie = (case csrf_here cookie of Some v \<Rightarrow> Some v | None \<Rightarrow> csrf_scan cookie)"

definition csrfToken :: "(string \<Rightarrow> string) \<Rightarrow> string \<Rightarrow> string option" where
  "csrfToken decode cookie = map_option decode (csrf_match cookie)"

section \<open>Requests\<close>

definition PATHS_EXPECTED_UNAUTHENTICATED :: "string list" where
  "PATHS_EXPECTED_UNAUTHENTICATED =
     [''/api/me'', ''/api/login'', ''/api/oidc/'', ''/api/password-reset'', ''/api/reset-password'']"

definition expectedUnauthenticated :: "string \<Rightarrow> bool" where
  "expectedUnauthenticated path = list_ex (\<lambda>p.
     if p = ''/api/me'' then path = p \<or> starts_with path ''/api/me?'' else starts_with path p)
     PATHS_EXPECTED_UNAUTHENTICATED"

datatype body = NoBody | JsonBody json | FormBody

definition upper :: "string \<Rightarrow> string" where
  "upper s = map (\<lambda>c. let k = (of_char c :: nat) in if 97 \<le> k \<and> k \<le> 122 then char_of (k - 32) else c) s"

text \<open>The headers of \<open>req\<close>.\<close>

definition req_headers :: "string option \<Rightarrow> string option \<Rightarrow> body \<Rightarrow> (string \<times> string) list" where
  "req_headers token meth b =
     (let m = upper (nvl meth ''GET'') in
      (case b of JsonBody _ \<Rightarrow> [(''Content-Type'', ''application/json'')] | _ \<Rightarrow> []) @
      (if m \<noteq> ''GET'' \<and> m \<noteq> ''HEAD'' \<and> str_truthy token then [(''X-CSRF-Token'', the token)] else []))"

text \<open>A response: its status, its text, and the \<open>error\<close> of its body (\<open>None\<close>: no JSON, or none).\<close>

record response =
  res_status :: int
  res_statusText :: string
  res_error :: "string option"

definition res_ok :: "response \<Rightarrow> bool" where
  "res_ok r = (200 \<le> res_status r \<and> res_status r < 300)"

text \<open>What \<open>req\<close> does with it: whether it calls \<open>onUnauthorized\<close>, and the \<open>ApiError\<close> it throws.\<close>

definition req_result :: "string \<Rightarrow> response \<Rightarrow> bool \<times> (int \<times> string) option" where
  "req_result path r =
     (if res_ok r then (False, None)
      else (res_status r = 401 \<and> \<not> expectedUnauthenticated path,
            Some (res_status r, if str_truthy (res_error r) then the (res_error r) else res_statusText r)))"

text \<open>
  \<open>uploadWithProgress\<close>: its header, the fraction it reports (where the length is computable), and how it
  ends; \<open>None\<close> is the request that got no response.
\<close>

definition upload_headers :: "string option \<Rightarrow> (string \<times> string) list" where
  "upload_headers token = (if str_truthy token then [(''X-CSRF-Token'', the token)] else [])"

definition upload_progress :: "bool \<Rightarrow> nat \<Rightarrow> nat \<Rightarrow> rat option" where
  "upload_progress computable loaded whole = (if computable then Some (of_nat loaded / of_nat whole) else None)"

definition upload_result :: "response option \<Rightarrow> bool \<times> string option" where
  "upload_result res = (case res of
     None \<Rightarrow> (False, Some ''Upload failed. Check your connection.'')
   | Some r \<Rightarrow>
       if res_ok r then (False, None)
       else (res_status r = 401, Some (nvl (res_error r) (res_statusText r))))"

section \<open>The endpoints\<close>

datatype chat_target = GroupTarget int | PeerTarget int

datatype session_call =
    ApiLogin string string
  | ApiLogout
  | ApiMe
  | ApiUserPreferences
  | ApiUpdateUserPreferences json

datatype user_call =
    ApiUsers
  | ApiCreateUser json
  | ApiUpdateUser int json
  | ApiDeleteUser int bool
  | ApiSignOutUser int
  | ApiUpdateSelf json

datatype access_call =
    ApiOidcConfig
  | ApiRegisterDeviceKey string string
  | ApiDeviceKeys "int list"
  | ApiOidcUnlink
  | ApiAdminOidcUnlink int
  | ApiPasswordResetEnabled
  | ApiRequestPasswordReset string
  | ApiConfirmPasswordReset string string

datatype group_call =
    ApiDirectMessages int "int option"
  | ApiRecentConversations
  | ApiGroupsList
  | ApiCreateGroup string "int list"
  | ApiDeleteGroup int
  | ApiRenameGroup int string
  | ApiUpdateGroup int json
  | ApiAddGroupMembers int "int list"
  | ApiRemoveGroupMember int int
  | ApiSetGroupMemberRole int int string
  | ApiGroupMessages int "int option"
  | ApiGroupReadState int

datatype message_call =
    ApiPinnedMessages chat_target
  | ApiSearchMessages string
  | ApiSavedMessages
  | ApiSaveMessage int
  | ApiUnsaveMessage int

datatype room_call =
    ApiCalls int
  | ApiCreateRoom json
  | ApiMyRooms
  | ApiGetRoom string
  | ApiDeleteRoom string

datatype backup_call =
    ApiKeyBackup
  | ApiSaveKeyBackup json string
  | ApiDeleteKeyBackup
  | ApiListBackups
  | ApiCreateBackup
  | ApiRestoreSnapshot string

datatype admin_call =
    ApiIceServers
  | ApiAdminStats
  | ApiListSettings
  | ApiUpdateSetting string string
  | ApiResetSetting string
  | ApiAuditLog "int option"

datatype api_call =
    SessionCall session_call
  | UserCall user_call
  | AccessCall access_call
  | GroupCall group_call
  | MessageCall message_call
  | RoomCall room_call
  | BackupCall backup_call
  | AdminCall admin_call

definition target_query :: "chat_target \<Rightarrow> string" where
  "target_query t = (case t of GroupTarget g \<Rightarrow> ''group_id='' @ show_int g | PeerTarget p \<Rightarrow> ''peer_id='' @ show_int p)"

definition before_page :: "int option \<Rightarrow> string" where
  "before_page before = (if num_truthy before then ''?before='' @ show_int (the before) @ ''&limit=50'' else [])"

definition jints :: "int list \<Rightarrow> json" where "jints is = JArr (map JNum is)"

text \<open>Method (\<open>None\<close>: the default), path and body of each; \<open>enc\<close> is \<open>encodeURIComponent\<close>.\<close>

primrec session_request :: "session_call \<Rightarrow> string option \<times> string \<times> body" where
  "session_request (ApiLogin u p) = (Some ''POST'', ''/api/login'',
     JsonBody (JObj [(''username'', JStr u), (''password'', JStr p)]))"
| "session_request ApiLogout = (Some ''POST'', ''/api/logout'', NoBody)"
| "session_request ApiMe = (None, ''/api/me'', NoBody)"
| "session_request ApiUserPreferences = (None, ''/api/users/me/preferences'', NoBody)"
| "session_request (ApiUpdateUserPreferences b) = (Some ''PUT'', ''/api/users/me/preferences'', JsonBody b)"

primrec user_request :: "user_call \<Rightarrow> string option \<times> string \<times> body" where
  "user_request ApiUsers = (None, ''/api/users'', NoBody)"
| "user_request (ApiCreateUser b) = (Some ''POST'', ''/api/users'', JsonBody b)"
| "user_request (ApiUpdateUser i b) = (Some ''PATCH'', ''/api/users/'' @ show_int i, JsonBody b)"
| "user_request (ApiDeleteUser i permanent) = (Some ''DELETE'', ''/api/users/'' @ show_int i @
     (if permanent then ''?permanent=true'' else []), NoBody)"
| "user_request (ApiSignOutUser i) = (Some ''POST'', ''/api/users/'' @ show_int i @ ''/sign-out'', NoBody)"
| "user_request (ApiUpdateSelf b) = (Some ''PATCH'', ''/api/users/me'', JsonBody b)"

primrec access_request :: "access_call \<Rightarrow> string option \<times> string \<times> body" where
  "access_request ApiOidcConfig = (None, ''/api/oidc/config'', NoBody)"
| "access_request (ApiRegisterDeviceKey d k) = (Some ''PUT'', ''/api/devices/keys'',
     JsonBody (JObj [(''device_id'', JStr d), (''public_key_jwk'', JStr k)]))"
| "access_request (ApiDeviceKeys us) = (None, ''/api/devices/keys?user_ids='' @ join_with '','' (map show_int us), NoBody)"
| "access_request ApiOidcUnlink = (Some ''DELETE'', ''/api/oidc/link'', NoBody)"
| "access_request (ApiAdminOidcUnlink u) = (Some ''DELETE'', ''/api/users/'' @ show_int u @ ''/oidc-link'', NoBody)"
| "access_request ApiPasswordResetEnabled = (None, ''/api/password-reset/enabled'', NoBody)"
| "access_request (ApiRequestPasswordReset e) = (Some ''POST'', ''/api/password-reset/request'',
     JsonBody (JObj [(''email'', JStr e)]))"
| "access_request (ApiConfirmPasswordReset t p) = (Some ''POST'', ''/api/password-reset/confirm'',
     JsonBody (JObj [(''token'', JStr t), (''new_password'', JStr p)]))"

primrec group_request :: "group_call \<Rightarrow> string option \<times> string \<times> body" where
  "group_request (ApiDirectMessages p before) = (None, ''/api/messages/'' @ show_int p @ before_page before, NoBody)"
| "group_request ApiRecentConversations = (None, ''/api/conversations/recent'', NoBody)"
| "group_request ApiGroupsList = (None, ''/api/groups'', NoBody)"
| "group_request (ApiCreateGroup n ms) = (Some ''POST'', ''/api/groups'',
     JsonBody (JObj [(''name'', JStr n), (''member_ids'', jints ms)]))"
| "group_request (ApiDeleteGroup g) = (Some ''DELETE'', ''/api/groups/'' @ show_int g, NoBody)"
| "group_request (ApiRenameGroup g n) = (Some ''PATCH'', ''/api/groups/'' @ show_int g, JsonBody (JObj [(''name'', JStr n)]))"
| "group_request (ApiUpdateGroup g b) = (Some ''PATCH'', ''/api/groups/'' @ show_int g, JsonBody b)"
| "group_request (ApiAddGroupMembers g ms) = (Some ''POST'', ''/api/groups/'' @ show_int g @ ''/members'',
     JsonBody (JObj [(''member_ids'', jints ms)]))"
| "group_request (ApiRemoveGroupMember g u) = (Some ''DELETE'', ''/api/groups/'' @ show_int g @ ''/members/'' @ show_int u, NoBody)"
| "group_request (ApiSetGroupMemberRole g u r) = (Some ''PATCH'', ''/api/groups/'' @ show_int g @ ''/members/'' @ show_int u,
     JsonBody (JObj [(''role'', JStr r)]))"
| "group_request (ApiGroupMessages g before) = (None, ''/api/groups/'' @ show_int g @ ''/messages'' @ before_page before, NoBody)"
| "group_request (ApiGroupReadState g) = (None, ''/api/groups/'' @ show_int g @ ''/read-state'', NoBody)"

primrec message_request :: "message_call \<Rightarrow> string option \<times> string \<times> body" where
  "message_request (ApiPinnedMessages t) = (None, ''/api/pinned?'' @ target_query t, NoBody)"
| "message_request (ApiSearchMessages q) = (None, ''/api/search?'' @ q, NoBody)"
| "message_request ApiSavedMessages = (None, ''/api/saved'', NoBody)"
| "message_request (ApiSaveMessage i) = (Some ''PUT'', ''/api/messages/'' @ show_int i @ ''/save'', NoBody)"
| "message_request (ApiUnsaveMessage i) = (Some ''DELETE'', ''/api/messages/'' @ show_int i @ ''/save'', NoBody)"

primrec room_request :: "(string \<Rightarrow> string) \<Rightarrow> room_call \<Rightarrow> string option \<times> string \<times> body" where
  "room_request enc (ApiCalls n) = (None, ''/api/calls?limit='' @ show_int n, NoBody)"
| "room_request enc (ApiCreateRoom b) = (Some ''POST'', ''/api/rooms'', JsonBody b)"
| "room_request enc ApiMyRooms = (None, ''/api/rooms'', NoBody)"
| "room_request enc (ApiGetRoom i) = (None, ''/api/rooms/'' @ enc i, NoBody)"
| "room_request enc (ApiDeleteRoom i) = (Some ''DELETE'', ''/api/rooms/'' @ enc i, NoBody)"

primrec backup_request :: "(string \<Rightarrow> string) \<Rightarrow> backup_call \<Rightarrow> string option \<times> string \<times> body" where
  "backup_request enc ApiKeyBackup = (None, ''/api/users/me/key-backup'', NoBody)"
| "backup_request enc (ApiSaveKeyBackup d k) = (Some ''PUT'', ''/api/users/me/key-backup'',
     JsonBody (JObj [(''data'', d), (''public_key_jwk'', JStr k)]))"
| "backup_request enc ApiDeleteKeyBackup = (Some ''DELETE'', ''/api/users/me/key-backup'', NoBody)"
| "backup_request enc ApiListBackups = (None, ''/api/admin/backups'', NoBody)"
| "backup_request enc ApiCreateBackup = (Some ''POST'', ''/api/admin/backups'', NoBody)"
| "backup_request enc (ApiRestoreSnapshot n) = (Some ''POST'', ''/api/admin/backups/'' @ enc n @ ''/restore'', NoBody)"

primrec admin_request :: "(string \<Rightarrow> string) \<Rightarrow> admin_call \<Rightarrow> string option \<times> string \<times> body" where
  "admin_request enc ApiIceServers = (None, ''/api/ice'', NoBody)"
| "admin_request enc ApiAdminStats = (None, ''/api/admin/stats'', NoBody)"
| "admin_request enc ApiListSettings = (None, ''/api/admin/settings'', NoBody)"
| "admin_request enc (ApiUpdateSetting k v) = (Some ''PUT'', ''/api/admin/settings/'' @ enc k, JsonBody (JObj [(''value'', JStr v)]))"
| "admin_request enc (ApiResetSetting k) = (Some ''DELETE'', ''/api/admin/settings/'' @ enc k, NoBody)"
| "admin_request enc (ApiAuditLog before) = (None, ''/api/admin/audit'' @
     (if num_truthy before then ''?before='' @ show_int (the before) else []), NoBody)"

primrec api_request :: "(string \<Rightarrow> string) \<Rightarrow> api_call \<Rightarrow> string option \<times> string \<times> body" where
  "api_request enc (SessionCall c) = session_request c"
| "api_request enc (UserCall c) = user_request c"
| "api_request enc (AccessCall c) = access_request c"
| "api_request enc (GroupCall c) = group_request c"
| "api_request enc (MessageCall c) = message_request c"
| "api_request enc (RoomCall c) = room_request enc c"
| "api_request enc (BackupCall c) = backup_request enc c"
| "api_request enc (AdminCall c) = admin_request enc c"

record search_filter =
  sf_q :: "string option"
  sf_senderId :: "int option"
  sf_since :: "string option"
  sf_until :: "string option"
  sf_hasFile :: bool
  sf_limit :: "int option"

text \<open>The parameters of \<open>searchMessages\<close>; the query text is \<open>query\<close> of them.\<close>

definition search_params :: "search_filter \<Rightarrow> (string \<times> string) list" where
  "search_params f =
     (if str_truthy (sf_q f) then [(''q'', the (sf_q f))] else []) @
     (if num_truthy (sf_senderId f) then [(''sender_id'', show_int (the (sf_senderId f)))] else []) @
     (if str_truthy (sf_since f) then [(''since'', the (sf_since f))] else []) @
     (if str_truthy (sf_until f) then [(''until'', the (sf_until f))] else []) @
     (if sf_hasFile f then [(''has_file'', ''true'')] else []) @
     (if num_truthy (sf_limit f) then [(''limit'', show_int (the (sf_limit f)))] else [])"

definition searchMessages :: "((string \<times> string) list \<Rightarrow> string) \<Rightarrow> search_filter \<Rightarrow> api_call" where
  "searchMessages query f = MessageCall (ApiSearchMessages (query (search_params f)))"

definition exportUrl :: "chat_target \<Rightarrow> string" where
  "exportUrl t = ''/api/export?'' @ target_query t"

section \<open>Properties\<close>

text \<open>\<open>document.cookie\<close>: the pairs, joined. A name holds no \<open>=\<close> and does not begin with a space.\<close>

fun cookie_text :: "(string \<times> string) list \<Rightarrow> string" where
  "cookie_text [] = []"
| "cookie_text [(n, v)] = n @ ''='' @ v"
| "cookie_text ((n, v) # c # cs) = n @ ''='' @ v @ ''; '' @ cookie_text (c # cs)"

definition cookie_ok :: "string \<times> string \<Rightarrow> bool" where
  "cookie_ok c = (fst c \<noteq> [] \<and> \<not> js_space (hd (fst c)) \<and> CHR ''='' \<notin> set (fst c) \<and>
     CHR '';'' \<notin> set (fst c) \<and> CHR '';'' \<notin> set (snd c))"

definition is_csrf :: "string \<times> string \<Rightarrow> bool" where
  "is_csrf c = (fst c = ''vc_csrf'' \<and> snd c \<noteq> [])"

lemma takeWhile_semi:
  assumes "CHR '';'' \<notin> set v" "s = [] \<or> hd s = CHR '';''"
  shows "takeWhile (\<lambda>c. c \<noteq> CHR '';'') (v @ s) = v"
proof -
  have "takeWhile (\<lambda>c. c \<noteq> CHR '';'') s = []" using assms(2) by (cases s) auto
  then show ?thesis using assms(1) by (subst takeWhile_append2) auto
qed

lemma name_split:
  assumes "a @ CHR ''='' # x = b @ CHR ''='' # y" "CHR ''='' \<notin> set a" "CHR ''='' \<notin> set b"
  shows "a = b \<and> x = y"
  using assms by (auto simp: append_eq_append_conv2 Cons_eq_append_conv append_eq_Cons_conv)

lemma csrf_here_pair:
  assumes "cookie_ok (n, v)" "s = [] \<or> hd s = CHR '';''"
  shows "csrf_here (n @ ''='' @ v @ s) = (if is_csrf (n, v) then Some v else None)"
proof (cases "n = ''vc_csrf''")
  case True
  then show ?thesis
    using assms takeWhile_semi [of v s] by (simp add: csrf_here_def csrf_name_def cookie_ok_def is_csrf_def starts_with_def)
next
  case False
  have "\<not> starts_with (n @ ''='' @ v @ s) csrf_name"
  proof
    assume "starts_with (n @ ''='' @ v @ s) csrf_name"
    then obtain t where "n @ CHR ''='' # (v @ s) = ''vc_csrf'' @ CHR ''='' # t"
      by (auto simp: starts_with_iff csrf_name_def)
    then show False using name_split [of n "v @ s" "''vc_csrf''" t] False assms(1) by (simp add: cookie_ok_def)
  qed
  then show ?thesis using False by (simp add: csrf_here_def is_csrf_def)
qed

lemma csrf_scan_skip: "CHR '';'' \<notin> set a \<Longrightarrow> csrf_scan (a @ s) = csrf_scan s"
  by (induction a) auto

lemma cookie_text_head:
  assumes "cs \<noteq> []" "list_all cookie_ok cs"
  shows "dropWhile js_space (cookie_text cs) = cookie_text cs"
proof -
  obtain n v cs' where cs: "cs = (n, v) # cs'" using assms(1) by (cases cs) auto
  then have "n \<noteq> []" "\<not> js_space (hd n)" using assms(2) by (auto simp: cookie_ok_def)
  then show ?thesis unfolding cs by (cases n; cases cs') auto
qed

lemma csrf_match_cookies:
  "list_all cookie_ok cs \<Longrightarrow> csrf_match (cookie_text cs) = map_option snd (find is_csrf cs)"
proof (induction cs rule: cookie_text.induct)
  case (2 n v)
  have "CHR '';'' \<notin> set (n @ ''='' @ v)" using 2 by (simp add: cookie_ok_def)
  then have "csrf_scan (n @ ''='' @ v) = None" using csrf_scan_skip [of "n @ ''='' @ v" "[]"] by simp
  with csrf_here_pair [of n v "[]"] 2 show ?case by (simp add: csrf_match_def)
next
  case (3 n v c cs)
  define r where "r = cookie_text (c # cs)"
  have ok: "cookie_ok (n, v)" "list_all cookie_ok (c # cs)" using "3.prems" by auto
  have IH: "csrf_match r = map_option snd (find is_csrf (c # cs))" using "3.IH" ok(2) by (simp add: r_def)
  have head: "dropWhile js_space r = r" unfolding r_def by (rule cookie_text_head) (use ok in auto)
  have here: "csrf_here (n @ ''='' @ v @ ''; '' @ r) = (if is_csrf (n, v) then Some v else None)"
    by (rule csrf_here_pair) (use ok in auto)
  have "CHR '';'' \<notin> set (n @ ''='' @ v)" using ok by (simp add: cookie_ok_def)
  then have "csrf_scan (n @ ''='' @ v @ ''; '' @ r) = csrf_scan (''; '' @ r)"
    using csrf_scan_skip [of "n @ ''='' @ v" "''; '' @ r"] by simp
  also have "\<dots> = csrf_match r" using head by (simp add: csrf_match_def js_space_def split: option.split)
  finally show ?case using here IH by (simp add: csrf_match_def r_def)
qed (simp add: csrf_match_def csrf_here_def starts_with_def csrf_name_def)

text \<open>The calls a signed-out page may make.\<close>

definition public_call :: "api_call \<Rightarrow> bool" where
  "public_call c = (case c of
     SessionCall (ApiLogin u p) \<Rightarrow> True | SessionCall ApiMe \<Rightarrow> True | AccessCall ApiOidcConfig \<Rightarrow> True
   | AccessCall ApiPasswordResetEnabled \<Rightarrow> True | AccessCall (ApiRequestPasswordReset e) \<Rightarrow> True
   | AccessCall (ApiConfirmPasswordReset t p) \<Rightarrow> True | _ \<Rightarrow> False)"

lemma call_facts:
  assumes "api_request enc c = (m, path, b)"
  shows "m \<in> {None, Some ''POST'', Some ''PUT'', Some ''PATCH'', Some ''DELETE''} \<and> starts_with path ''/api/'' \<and>
    expectedUnauthenticated path = (public_call c \<or> c = AccessCall ApiOidcUnlink)"
proof -
  note facts = expectedUnauthenticated_def PATHS_EXPECTED_UNAUTHENTICATED_def starts_with_def public_call_def before_page_def
  show ?thesis
  proof (cases c)
    case (SessionCall x) then show ?thesis using assms by (cases x) (auto simp: facts) next
    case (UserCall x) then show ?thesis using assms by (cases x) (auto simp: facts) next
    case (AccessCall x) then show ?thesis using assms by (cases x) (auto simp: facts) next
    case (GroupCall x) then show ?thesis using assms by (cases x) (auto simp: facts) next
    case (MessageCall x) then show ?thesis using assms by (cases x) (auto simp: facts) next
    case (RoomCall x) then show ?thesis using assms by (cases x) (auto simp: facts) next
    case (BackupCall x) then show ?thesis using assms by (cases x) (auto simp: facts) next
    case (AdminCall x) then show ?thesis using assms by (cases x) (auto simp: facts)
  qed
qed

text \<open>
  Every call that changes something carries the value of the CSRF cookie, and no other does:
  the cookie is found whatever stands before and after it, and exactly the endpoints with a method of
  their own (which is never \<open>GET\<close>) send the header, with the decoded value.
\<close>

theorem writes_carry_the_csrf_token:
  assumes "list_all cookie_ok cs" "find is_csrf cs = Some (n, v)" "decode v \<noteq> []"
    and "api_request enc c = (m, path, b)"
  shows "((''X-CSRF-Token'', h) \<in> set (req_headers (csrfToken decode (cookie_text cs)) m b)) = (m \<noteq> None \<and> h = decode v) \<and>
    m \<noteq> Some ''GET'' \<and> starts_with path ''/api/''"
proof -
  have m: "m \<in> {None, Some ''POST'', Some ''PUT'', Some ''PATCH'', Some ''DELETE''} \<and> starts_with path ''/api/''"
    using call_facts [OF assms(4)] by simp
  have tok: "csrfToken decode (cookie_text cs) = Some (decode v)"
    using csrf_match_cookies [OF assms(1)] assms(2) by (simp add: csrfToken_def)
  have up: "upper ''GET'' = ''GET''" "upper ''POST'' = ''POST''" "upper ''PUT'' = ''PUT''" "upper ''PATCH'' = ''PATCH''"
    "upper ''DELETE'' = ''DELETE''" by (simp_all add: upper_def)
  show ?thesis using m assms(3) by (auto simp: req_headers_def Let_def tok up split: body.splits)
qed

theorem writes_carry_the_csrf_token_witness:
  "(''X-CSRF-Token'', ''k9'') \<in> set (req_headers (csrfToken id ''theme=dark; vc_csrf=k9; x='') (Some ''DELETE'') NoBody)"
  using writes_carry_the_csrf_token [of "[(''theme'', ''dark''), (''vc_csrf'', ''k9''), (''x'', '''')]" "''vc_csrf''"
      "''k9''" id id "GroupCall (ApiDeleteGroup 4)" "Some ''DELETE''" "''/api/groups/'' @ show_int 4" NoBody "''k9''"]
  by (simp add: cookie_ok_def js_space_def is_csrf_def)

text \<open>
  A lost session is noticed: a 401 calls the handler that signs the user out exactly for the calls that
  need a session, with one exception, and the call always fails with the server's message. The exception is
  the removal of the own single sign-on link: its path shares the prefix of the sign-in pages, so its 401
  leaves the user in a session that is gone.
\<close>

theorem lost_session_is_noticed:
  assumes "api_request enc c = (m, path, b)" "\<not> res_ok r"
  shows "req_result path r = (res_status r = 401 \<and> \<not> public_call c \<and> c \<noteq> AccessCall ApiOidcUnlink,
    Some (res_status r, if str_truthy (res_error r) then the (res_error r) else res_statusText r))"
  using assms(2) call_facts [OF assms(1)] by (simp add: req_result_def)

theorem lost_session_is_noticed_witness:
  "req_result ''/api/oidc/link'' \<lparr>res_status = 401, res_statusText = ''Unauthorized'', res_error = None\<rparr> =
     (False, Some (401, ''Unauthorized''))"
  using lost_session_is_noticed [of id "AccessCall ApiOidcUnlink" "Some ''DELETE''" "''/api/oidc/link''" NoBody
      "\<lparr>res_status = 401, res_statusText = ''Unauthorized'', res_error = None\<rparr>"]
  by (simp add: res_ok_def)

end
