(* ===== verification/MessageView.thy ===== *)
theory MessageView
  imports Strings Messages
begin

text \<open>
  How a chat panel shows one message (\<open>components/ChatPanel.tsx\<close>): its text cut into links,
  mentions and plain text, the placeholder of an encrypted message, the delivery ticks, what the
  user may do with it, and the counts of its reactions.
\<close>

section \<open>The text\<close>

text \<open>\<open>/(https?:\/\/[^\s]+)/g\<close> and \<open>/(@[a-zA-Z0-9._-]{2,32})/g\<close>: the length of the match here.\<close>

definition url_scheme :: "string \<Rightarrow> nat" where
  "url_scheme s = (if starts_with s ''https://'' then 8 else if starts_with s ''http://'' then 7 else 0)"

definition url_len :: "string \<Rightarrow> nat" where
  "url_len s =
     (let n = url_scheme s; k = length (takeWhile (\<lambda>c. \<not> js_space c) (drop n s))
      in if n = 0 \<or> k = 0 then 0 else n + k)"

definition mention_char :: "char \<Rightarrow> bool" where
  "mention_char c = (let k = (of_char c :: nat) in
     (97 \<le> k \<and> k \<le> 122) \<or> (65 \<le> k \<and> k \<le> 90) \<or> (48 \<le> k \<and> k \<le> 57) \<or> c \<in> set ''._-'')"

definition mention_len :: "string \<Rightarrow> nat" where
  "mention_len s = (case s of
     [] \<Rightarrow> 0
   | c # r \<Rightarrow> let k = length (takeWhile mention_char (take 32 r)) in if c \<noteq> CHR ''@'' \<or> k < 2 then 0 else 1 + k)"

text \<open>What is rendered; a mention says whether it is the reader's own.\<close>

datatype segment = Link string | Mention bool string | Plain string

fun seg_text :: "segment \<Rightarrow> string" where
  "seg_text (Link t) = t"
| "seg_text (Mention mine t) = t"
| "seg_text (Plain t) = t"

definition format_bit :: "string set \<Rightarrow> string \<Rightarrow> string \<Rightarrow> segment" where
  "format_bit knownUsernames myUsername b =
     (if starts_with b ''@'' \<and> js_lower (drop 1 b) \<in> knownUsernames
      then Mention (js_lower (drop 1 b) = js_lower myUsername) b
      else Plain b)"

definition FormattedContent :: "string \<Rightarrow> string set \<Rightarrow> string \<Rightarrow> segment list" where
  "FormattedContent txt knownUsernames myUsername =
     concat (map (\<lambda>part.
       if re_test url_len part then [Link part]
       else map (format_bit knownUsernames myUsername) (re_split mention_len [] part))
     (re_split url_len [] txt))"

datatype encrypted_view = Decrypting | NotOnThisDevice | Decrypted "segment list"

text \<open>\<open>decrypted\<close>: \<open>undefined\<close>, \<open>null\<close> or the text.\<close>

definition EncryptedContent :: "string option option \<Rightarrow> string set \<Rightarrow> string \<Rightarrow> encrypted_view" where
  "EncryptedContent decrypted knownUsernames myUsername = (case decrypted of
     None \<Rightarrow> Decrypting | Some None \<Rightarrow> NotOnThisDevice
   | Some (Some t) \<Rightarrow> Decrypted (FormattedContent t knownUsernames myUsername))"

definition knownUsernames :: "user list \<Rightarrow> string set" where
  "knownUsernames us = (\<lambda>u. js_lower (u_username u)) ` set us"

section \<open>What belongs to it\<close>

datatype ticks = ReadTicks | DeliveredTicks | SentTick

definition Ticks :: "message \<Rightarrow> ticks" where
  "Ticks m = (if iso_truthy (read_at m) then ReadTicks else if iso_truthy (delivered_at m) then DeliveredTicks else SentTick)"

definition canActOn :: "message \<Rightarrow> bool" where
  "canActOn m = (\<not> iso_truthy (deleted_at m) \<and> \<not> pending m \<and> \<not> failed m \<and> 0 < mid m)"

definition canPin :: "message \<Rightarrow> int \<Rightarrow> bool \<Rightarrow> group_member list option \<Rightarrow> bool" where
  "canPin m meID meSiteAdmin members =
     (if sender_id m = meID \<or> meSiteAdmin then True
      else case members of
        Some ms \<Rightarrow> (case find (\<lambda>x. ub_id x = meID) ms of None \<Rightarrow> False | Some x \<Rightarrow> gm_role x = Owner \<or> gm_role x = GroupAdmin)
      | None \<Rightarrow> recipient_id m = Some meID)"

text \<open>The actions offered on a message; in the source, the callbacks that are not \<open>undefined\<close>.\<close>

datatype message_action = ActReact | ActReply | ActEdit | ActSave | ActForward | ActPin | ActDelete

definition message_actions :: "int \<Rightarrow> bool \<Rightarrow> group_member list option \<Rightarrow> message \<Rightarrow> message_action list" where
  "message_actions meID admin members m =
     (if \<not> canActOn m then []
      else [ActReact, ActReply] @
        (if sender_id m = meID \<and> \<not> is_encrypted m then [ActEdit] else []) @ [ActSave] @
        (if content m \<noteq> [] \<and> \<not> is_encrypted m then [ActForward] else []) @
        (if canPin m meID admin members then [ActPin] else []) @
        (if sender_id m = meID then [ActDelete] else []))"

text \<open>The counts of \<open>ReactionPills\<close>, by way of a \<open>Map\<close> from emojis.\<close>

definition count_reaction :: "int \<Rightarrow> message_reaction \<Rightarrow> (string, nat \<times> bool) jsmap \<Rightarrow> (string, nat \<times> bool) jsmap" where
  "count_reaction meID r counts =
     (let cur = nvl (jm_get counts (mr_emoji r)) (0, False) in
      jm_set (mr_emoji r) (fst cur + 1, snd cur \<or> mr_user_id r = meID) counts)"

definition ReactionPills :: "message_reaction list \<Rightarrow> int \<Rightarrow> (string \<times> nat \<times> bool) list" where
  "ReactionPills rs meID = fold (count_reaction meID) rs []"

text \<open>The line above a reply.\<close>

datatype reply_text = ReplyDeleted | ReplyEncrypted | ReplyContent string | ReplyFile | ReplyEmpty

definition reply_line :: "message_preview \<Rightarrow> string \<times> reply_text" where
  "reply_line p = (case mp_sender p of None \<Rightarrow> ''Someone'' | Some u \<Rightarrow> ub_display_name u,
     if mp_deleted p then ReplyDeleted else if mp_is_encrypted p then ReplyEncrypted
     else if mp_content p \<noteq> [] then ReplyContent (mp_content p) else if mp_has_file p then ReplyFile else ReplyEmpty)"

text \<open>How an attached file is shown.\<close>

datatype file_view = ShowImage | ShowVideo | ShowAudio | ShowDownload

definition file_views :: "file_brief \<Rightarrow> file_view list" where
  "file_views f =
     (if starts_with (fb_mime f) ''image/'' then [ShowImage] else []) @
     (if starts_with (fb_mime f) ''video/'' then [ShowVideo] else []) @
     (if starts_with (fb_mime f) ''audio/'' then [ShowAudio] else []) @
     (if \<not> (starts_with (fb_mime f) ''image/'' \<or> starts_with (fb_mime f) ''video/'' \<or> starts_with (fb_mime f) ''audio/'')
      then [ShowDownload] else [])"

text \<open>The pinned messages above the list; \<open>later\<close> compares the texts of two times.\<close>

definition pinnedMessages :: "(iso \<Rightarrow> iso \<Rightarrow> bool) \<Rightarrow> message list \<Rightarrow> message list" where
  "pinnedMessages later messages =
     js_sort (\<lambda>a b. if later (the (pinned_at b)) (the (pinned_at a)) then 1 else -1)
       (filter (\<lambda>m. iso_truthy (pinned_at m) \<and> \<not> iso_truthy (deleted_at m)) messages)"

text \<open>The day separators; \<open>fmtDay\<close> is the library's text for a day.\<close>

fun day_lines :: "(iso \<Rightarrow> string) \<Rightarrow> string \<Rightarrow> message list \<Rightarrow> (string option \<times> message) list" where
  "day_lines fmtDay lastDay [] = []"
| "day_lines fmtDay lastDay (m # ms) =
     ((if fmtDay (sent_at m) \<noteq> lastDay then Some (fmtDay (sent_at m)) else None), m) # day_lines fmtDay (fmtDay (sent_at m)) ms"

section \<open>Who is typing\<close>

definition typing_line :: "string list \<Rightarrow> string" where
  "typing_line names = (case names of
     [] \<Rightarrow> []
   | [n] \<Rightarrow> n @ '' is typing...''
   | _ \<Rightarrow> join_with '', '' names @ '' are typing...'')"

text \<open>
  \<open>typingText\<close>: \<open>dm\<close> the time the peer last typed, \<open>peer\<close> the peer's name; or the group's typers
  with their times. The dots stand for the ellipsis character.
\<close>

definition typing_dm :: "ms \<Rightarrow> ms option \<Rightarrow> string option \<Rightarrow> string" where
  "typing_dm now ts peer = (if num_truthy ts \<and> now - the ts < 4000 then nvl peer ''Peer'' @ '' is typing...'' else [])"

definition typing_group :: "ms \<Rightarrow> (string \<times> ms) list \<Rightarrow> string" where
  "typing_group now typers = typing_line (map fst (filter (\<lambda>t. now - snd t < 4000) typers))"

section \<open>The two expressions\<close>

lemma url_scheme_eqs [simp]: "url_scheme (''https://'' @ t) = 8" "url_scheme (''http://'' @ t) = 7"
  by (simp_all add: url_scheme_def starts_with_def)

lemma url_scheme_cases:
  assumes "url_scheme s \<noteq> 0"
  obtains p t where "s = p @ t" "p = ''https://'' \<or> p = ''http://''" "url_scheme s = length p"
    "\<And>w. url_scheme (p @ w) = length p"
proof -
  have "starts_with s ''https://'' \<or> starts_with s ''http://''"
    using assms by (simp add: url_scheme_def split: if_splits)
  then obtain p t where p: "s = p @ t" "p = ''https://'' \<or> p = ''http://''" by (auto simp only: starts_with_iff)
  have "url_scheme (p @ w) = length p" for w using p(2) url_scheme_eqs [of w] by auto
  with p that show ?thesis by simp
qed

lemma url_len_scheme: "0 < url_len s \<Longrightarrow> url_scheme s \<noteq> 0"
  by (rule ccontr) (simp add: url_len_def)

lemma takeWhile_mono: "length (takeWhile q xs) \<le> length (takeWhile q (xs @ ys))"
  by (induction xs) auto

lemma takeWhile_take_self: "takeWhile q (take (length (takeWhile q xs)) xs) = takeWhile q xs"
  by (induction xs) auto

interpretation url: matcher url_len
proof
  fix a b :: string
  assume pos: "0 < url_len a"
  then have "url_scheme a \<noteq> 0" by (rule url_len_scheme)
  then obtain p t where p: "a = p @ t" "p = ''https://'' \<or> p = ''http://''" "url_scheme a = length p"
    "\<And>w. url_scheme (p @ w) = length p" by (rule url_scheme_cases) blast
  have "takeWhile (\<lambda>c. \<not> js_space c) t \<noteq> []" using pos p(1,3) by (auto simp: url_len_def Let_def split: if_splits)
  then have "takeWhile (\<lambda>c. \<not> js_space c) (t @ b) \<noteq> []"
    using takeWhile_mono [of "\<lambda>c. \<not> js_space c" t b] by auto
  then show "0 < url_len (a @ b)" using p(1,2) p(4) [of "t @ b"] by (auto simp: url_len_def Let_def)
next
  fix s :: string
  assume pos: "0 < url_len s"
  then have "url_scheme s \<noteq> 0" by (rule url_len_scheme)
  then obtain p t where p: "s = p @ t" "p = ''https://'' \<or> p = ''http://''" "url_scheme s = length p"
    "\<And>w. url_scheme (p @ w) = length p" by (rule url_scheme_cases) blast
  let ?k = "length (takeWhile (\<lambda>c. \<not> js_space c) t)"
  have len: "url_len s = length p + ?k" "0 < ?k"
    using pos p(1,3) by (auto simp: url_len_def Let_def split: if_splits)
  have "take (url_len s) s = p @ take ?k t" unfolding len(1) by (simp add: p(1))
  moreover have "url_len (p @ take ?k t) = length p + ?k"
    using len(2) p(2) p(4) [of "take ?k t"] by (auto simp: url_len_def Let_def takeWhile_take_self)
  ultimately show "0 < url_len (take (url_len s) s)" using len(2) by simp
qed (simp add: url_len_def url_scheme_def starts_with_def)

lemma mention_len_append:
  "length (takeWhile q (take n a)) \<le> length (takeWhile q (take n (a @ b)))"
  using takeWhile_mono [of q "take n a" "take (n - length a) b"] by simp

interpretation mention: matcher mention_len
proof
  fix a b :: string
  assume "0 < mention_len a"
  then obtain r where "a = CHR ''@'' # r" "2 \<le> length (takeWhile mention_char (take 32 r))"
    by (cases a) (auto simp: mention_len_def Let_def split: if_splits)
  with mention_len_append [of mention_char 32 r b] show "0 < mention_len (a @ b)"
    by (simp add: mention_len_def Let_def)
next
  fix s :: string
  assume pos: "0 < mention_len s"
  then obtain r where r: "s = CHR ''@'' # r" "2 \<le> length (takeWhile mention_char (take 32 r))"
    by (cases s) (auto simp: mention_len_def Let_def split: if_splits)
  let ?k = "length (takeWhile mention_char (take 32 r))"
  have k: "mention_len s = 1 + ?k" "?k \<le> 32"
    using r length_takeWhile_le [of mention_char "take 32 r"] by (auto simp: mention_len_def Let_def)
  have "take 32 (take ?k r) = take ?k (take 32 r)" by (simp add: min.commute)
  then have "takeWhile mention_char (take 32 (take ?k r)) = takeWhile mention_char (take 32 r)"
    by (simp only: takeWhile_take_self)
  then have "mention_len (CHR ''@'' # take ?k r) = 1 + ?k" using r(2) by (simp add: mention_len_def Let_def)
  moreover have "take (mention_len s) s = CHR ''@'' # take ?k r" unfolding k(1) by (simp add: r(1))
  ultimately show "0 < mention_len (take (mention_len s) s)" by simp
qed (simp add: mention_len_def)

section \<open>Properties\<close>

fun seg_ok :: "string set \<Rightarrow> string \<Rightarrow> segment \<Rightarrow> bool" where
  "seg_ok known my (Link t) =
     ((starts_with t ''http://'' \<or> starts_with t ''https://'') \<and> list_all (\<lambda>c. \<not> js_space c) t)"
| "seg_ok known my (Mention mine t) =
     (starts_with t ''@'' \<and> js_lower (drop 1 t) \<in> known \<and> mine = (js_lower (drop 1 t) = js_lower my) \<and> \<not> re_test url_len t)"
| "seg_ok known my (Plain t) = (\<not> re_test url_len t)"

lemma url_piece:
  assumes "0 < url_len t"
  shows "(starts_with (take (url_len t) t) ''http://'' \<or> starts_with (take (url_len t) t) ''https://'') \<and>
    list_all (\<lambda>c. \<not> js_space c) (take (url_len t) t)"
proof -
  have "url_scheme t \<noteq> 0" using assms by (rule url_len_scheme)
  then obtain p r where p: "t = p @ r" "p = ''https://'' \<or> p = ''http://''" "url_scheme t = length p"
    by (rule url_scheme_cases) blast
  have "take (url_len t) t = p @ takeWhile (\<lambda>c. \<not> js_space c) r"
    using assms p(1,3) by (auto simp: url_len_def Let_def takeWhile_eq_take [symmetric] split: if_splits)
  moreover have "list_all (\<lambda>c. \<not> js_space c) p" using p(2) by (auto simp: js_space_def)
  moreover have "list_all (\<lambda>c. \<not> js_space c) (takeWhile (\<lambda>c. \<not> js_space c) r)"
    by (auto simp: list_all_iff dest: set_takeWhileD)
  ultimately show ?thesis using p(2) by (auto simp del: append.simps)
qed

lemma url_untested_sub:
  assumes "\<not> re_test url_len (a @ b @ c)"
  shows "\<not> re_test url_len b"
proof
  assume "re_test url_len b"
  then obtain i where i: "i < length b" "0 < url_len (drop i b)" by (auto simp: re_test_drop)
  then have "0 < url_len (drop i b @ c)" by (intro url.len_stays)
  then have "0 < url_len (drop (length a + i) (a @ b @ c))" using i(1) by simp
  moreover have "length a + i < length (a @ b @ c)" using i(1) by simp
  ultimately show False using assms re_test_drop by blast
qed

lemma piece_of_concat: "p \<in> set ps \<Longrightarrow> \<exists>a c. concat ps = a @ p @ c"
  by (metis concat.simps(2) concat_append in_set_conv_decomp)

lemma format_bit_ok: "\<not> re_test url_len b \<Longrightarrow> seg_ok known my (format_bit known my b)"
  by (simp add: format_bit_def)

lemma seg_text_format_bit [simp]: "seg_text (format_bit known my b) = b"
  by (simp add: format_bit_def)

lemma format_part:
  assumes "part \<in> set (re_split url_len [] txt)"
  shows "list_all (seg_ok known my)
    (if re_test url_len part then [Link part] else map (format_bit known my) (re_split mention_len [] part))"
  using assms
proof (cases rule: url.split_piece_cases)
  case (1 t)
  then show ?thesis using url_piece [of t] by simp
next
  case 2
  have "\<not> re_test url_len b" if "b \<in> set (re_split mention_len [] part)" for b
    using piece_of_concat [OF that] url_untested_sub 2 mention.concat_split [of "[]" part] by auto
  then show ?thesis using 2 by (simp add: list_all_iff format_bit_ok)
qed

text \<open>
  C27. A message is shown as it was written, and nothing but web addresses becomes a link: the segments,
  joined, are the text; a link starts with \<open>http://\<close> or \<open>https://\<close> and holds no space; a mention
  names someone of the directory and is marked as the reader's own exactly when it names the reader;
  no address is left outside a link.
\<close>

theorem message_text_is_shown_faithfully:
  "concat (map seg_text (FormattedContent txt known my)) = txt \<and>
   list_all (seg_ok known my) (FormattedContent txt known my)"
proof
  have "concat (map seg_text (if re_test url_len part then [Link part]
      else map (format_bit known my) (re_split mention_len [] part))) = part" for part
    using mention.concat_split [of "[]" part] by (simp add: comp_def)
  then have "concat (map seg_text (concat (map (\<lambda>part. if re_test url_len part then [Link part]
      else map (format_bit known my) (re_split mention_len [] part)) ps))) = concat ps" for ps
    by (induction ps) (simp_all only: list.map concat.simps map_append concat_append)
  then have "concat (map seg_text (FormattedContent txt known my)) = concat (re_split url_len [] txt)"
    by (simp only: FormattedContent_def)
  then show "concat (map seg_text (FormattedContent txt known my)) = txt" by (simp add: url.concat_split)
  show "list_all (seg_ok known my) (FormattedContent txt known my)"
    using format_part [of _ "txt" known my] unfolding FormattedContent_def list_all_iff by fastforce
qed

lemma formatted_example:
  "FormattedContent ''hi @Bo, see http://x.y ok'' {''bo''} ''bo'' =
     [Plain ''hi '', Mention True ''@Bo'', Plain '', see '', Link ''http://x.y'', Plain '' ok'']"
  by code_simp

text \<open>The pill of an emoji counts its reactions and is marked when the reader is among them.\<close>

lemma count_reaction_get:
  "jm_get (fold (count_reaction me) rs m) e =
    (case (jm_get m e, filter (\<lambda>r. mr_emoji r = e) rs) of
       (None, []) \<Rightarrow> None
     | (c, es) \<Rightarrow> Some (fst (nvl c (0, False)) + length es, snd (nvl c (0, False)) \<or> (\<exists>r \<in> set es. mr_user_id r = me)))"
proof (induction rs arbitrary: m)
  case (Cons r rs)
  show ?case
    unfolding fold.simps comp_def Cons.IH
    by (auto simp: count_reaction_def Let_def jm.get_put split: option.splits list.splits)
qed (auto split: option.splits)

lemma reaction_pill:
  "jm_get (ReactionPills rs me) e =
    (let es = filter (\<lambda>r. mr_emoji r = e) rs in
     if es = [] then None else Some (length es, list_ex (\<lambda>r. mr_user_id r = me) es))"
  unfolding ReactionPills_def count_reaction_get
  by (cases "filter (\<lambda>r. mr_emoji r = e) rs") (simp_all add: Let_def list_ex_iff jm_get_def)

end
