(* ===== verification/ChatPanel.thy ===== *)
theory ChatPanel
  imports MessageView Complex_Main
begin

text \<open>
  The chat panel (\<open>components/ChatPanel.tsx\<close>): the composer with its drafts, replies, edits and
  staged files, the scroll position, the encryption switch, the swipe gesture and the group dialog.
  The component's \<open>useState\<close>s and refs are the records; each handler is a function on them that appends
  the calls it makes (to the chat store, the REST client, the parent) to \<open>calls\<close>. An \<open>async\<close> handler is
  one definition per stretch between two \<open>await\<close>s; what its closure captured is a job record.
\<close>

section \<open>State\<close>

record attachment =
  at_name :: string
  at_size :: int
  at_type :: string

record scroller =
  scrollTop :: int
  scrollHeight :: int
  clientHeight :: int

datatype panel_call =
    SendMessage convo string "int option" "int option"
  | EditMessage message string
  | DeleteMessage message
  | ReactToMessage message string
  | SendTyping convo
  | ClearSendError
  | SetEncrypted convo bool
  | UsersMissingKeys "int list"
  | UploadFile attachment
  | LoadMessages convo "int option"
  | OnBack

record panel =
  cp_active :: "convo option"
  cp_text :: string
  uploading :: bool
  uploadError :: "string option"
  dragOver :: bool
  encryptBusy :: bool
  replyTo :: "message option"
  editingID :: "int option"
  editDraft :: string
  reactionPickerFor :: "int option"
  forwardingMsg :: "message option"
  forwardSearch :: string
  deleteMsgConfirm :: "message option"
  showPinned :: bool
  staged :: "attachment list"
  sendProgress :: "rat option"
  prevConversationKey :: string
  lastCount :: nat
  preserveScroll :: "(int \<times> int) option"
  scroll :: scroller
  drafts :: storage
  calls :: "panel_call list"

definition pcall :: "panel_call list \<Rightarrow> panel \<Rightarrow> panel" where
  "pcall cs p = p\<lparr>calls := calls p @ cs\<rparr>"

definition conversationKey :: "convo option \<Rightarrow> string" where
  "conversationKey a = (case a of None \<Rightarrow> [] | Some c \<Rightarrow> key c)"

section \<open>Drafts\<close>

definition draftKey :: "string \<Rightarrow> string" where
  "draftKey k = ''vc.draft.'' @ k"

definition loadDraft :: "storage \<Rightarrow> string \<Rightarrow> string" where
  "loadDraft st k = (case getItem st (draftKey k) of None \<Rightarrow> [] | Some v \<Rightarrow> nvl v [])"

definition saveDraft :: "string \<Rightarrow> string \<Rightarrow> storage \<Rightarrow> storage" where
  "saveDraft k txt st = nvl (if js_trim txt \<noteq> [] then setItem st (draftKey k) txt else removeItem st (draftKey k)) st"

section \<open>Scrolling\<close>

text \<open>Assigning \<open>scrollTop\<close>: the browser keeps it between 0 and the last position there is.\<close>

definition set_scrollTop :: "int \<Rightarrow> scroller \<Rightarrow> scroller" where
  "set_scrollTop v s = s\<lparr>scrollTop := max 0 (min v (scrollHeight s - clientHeight s))\<rparr>"

text \<open>The effect on the number of messages; \<open>height\<close> is the list's height with them.\<close>

definition autoscroll :: "nat \<Rightarrow> int \<Rightarrow> panel \<Rightarrow> panel" where
  "autoscroll n height p =
     (let el = (scroll p)\<lparr>scrollHeight := height\<rparr> in
      if n = lastCount p then p\<lparr>scroll := el\<rparr>
      else
        (case preserveScroll p of
           Some (t, h) \<Rightarrow> p\<lparr>scroll := set_scrollTop (t + (scrollHeight el - h)) el, preserveScroll := None, lastCount := n\<rparr>
         | None \<Rightarrow>
             (let distanceFromBottom = scrollHeight el - scrollTop el - clientHeight el in
              if lastCount p = 0 \<or> distanceFromBottom < 120
              then p\<lparr>scroll := set_scrollTop (scrollHeight el) el, lastCount := n\<rparr>
              else p\<lparr>scroll := el, lastCount := n\<rparr>)))"

text \<open>The button \<open>Load older messages\<close>; \<open>first\<close> is the id of the first message shown.\<close>

definition loadOlder :: "int option \<Rightarrow> panel \<Rightarrow> panel" where
  "loadOlder first p = (case cp_active p of
     None \<Rightarrow> p
   | Some c \<Rightarrow> pcall [LoadMessages c first]
       (p\<lparr>preserveScroll := Some (scrollTop (scroll p), scrollHeight (scroll p))\<rparr>))"

section \<open>The composer\<close>

text \<open>The effect on the conversation's key, which runs when it changes (and on mounting).\<close>

definition enter_conversation :: "convo option \<Rightarrow> panel \<Rightarrow> panel" where
  "enter_conversation a p =
     (let k = conversationKey a;
          st = (if prevConversationKey p \<noteq> [] \<and> prevConversationKey p \<noteq> k
                then saveDraft (prevConversationKey p) (cp_text p) (drafts p) else drafts p)
      in pcall [ClearSendError]
          (p\<lparr>cp_active := a, cp_text := (if k \<noteq> [] then loadDraft st k else []), uploadError := None,
             replyTo := None, editingID := None, reactionPickerFor := None, showPinned := False,
             prevConversationKey := k, lastCount := 0, preserveScroll := None,
             scroll := set_scrollTop (scrollHeight (scroll p)) (scroll p), drafts := st\<rparr>))"

definition handleTextChange :: "string \<Rightarrow> panel \<Rightarrow> panel" where
  "handleTextChange v p =
     (let k = conversationKey (cp_active p) in
      p\<lparr>cp_text := v, drafts := (if k \<noteq> [] then saveDraft k v (drafts p) else drafts p)\<rparr>)"

definition send :: "panel \<Rightarrow> panel" where
  "send p = (case cp_active p of
     None \<Rightarrow> p
   | Some c \<Rightarrow>
       if js_trim (cp_text p) = [] then p
       else pcall [SendMessage c (cp_text p) None (map_option mid (replyTo p))]
         (p\<lparr>cp_text := [], replyTo := None, drafts := saveDraft (conversationKey (cp_active p)) [] (drafts p)\<rparr>))"

definition onKeyDown :: "bool \<Rightarrow> bool \<Rightarrow> panel \<Rightarrow> panel" where
  "onKeyDown is_enter shiftKey p =
     (if is_enter \<and> \<not> shiftKey then send p
      else (case cp_active p of Some c \<Rightarrow> if js_trim (cp_text p) \<noteq> [] then pcall [SendTyping c] p else p | None \<Rightarrow> p))"

definition startEdit :: "message \<Rightarrow> panel \<Rightarrow> panel" where
  "startEdit m p = p\<lparr>editingID := Some (mid m), editDraft := content m, replyTo := None\<rparr>"

definition saveEdit :: "message \<Rightarrow> panel \<Rightarrow> panel" where
  "saveEdit m p =
     (let c = js_trim (editDraft p);
          p1 = (if c \<noteq> [] \<and> c \<noteq> content m then pcall [EditMessage m c] p else p)
      in p1\<lparr>editingID := None\<rparr>)"

definition reply_to_message :: "message \<Rightarrow> panel \<Rightarrow> panel" where
  "reply_to_message m p = p\<lparr>replyTo := Some m, editingID := None\<rparr>"

definition toggle_reaction_picker :: "message \<Rightarrow> panel \<Rightarrow> panel" where
  "toggle_reaction_picker m p =
     p\<lparr>reactionPickerFor := (if reactionPickerFor p = Some (mid m) then None else Some (mid m))\<rparr>"

definition pick_reaction :: "message \<Rightarrow> string \<Rightarrow> panel \<Rightarrow> panel" where
  "pick_reaction m emoji p =
     (if emoji \<noteq> [] then pcall [ReactToMessage m emoji] p else p)\<lparr>reactionPickerFor := None\<rparr>"

definition confirm_delete :: "panel \<Rightarrow> panel" where
  "confirm_delete p = (case deleteMsgConfirm p of
     None \<Rightarrow> p | Some m \<Rightarrow> (pcall [DeleteMessage m] p)\<lparr>deleteMsgConfirm := None\<rparr>)"

definition forwardTo :: "convo \<Rightarrow> panel \<Rightarrow> panel" where
  "forwardTo target p = (case forwardingMsg p of
     None \<Rightarrow> p
   | Some m \<Rightarrow>
       (if is_encrypted m then p else pcall [SendMessage target (content m) None None] p)
         \<lparr>forwardingMsg := None, forwardSearch := []\<rparr>)"

section \<open>Files\<close>

definition stageFiles :: "attachment list \<Rightarrow> panel \<Rightarrow> panel" where
  "stageFiles fs p = (if fs \<noteq> [] then p\<lparr>staged := staged p @ fs\<rparr> else p)"

definition unstage :: "nat \<Rightarrow> panel \<Rightarrow> panel" where
  "unstage i p = p\<lparr>staged := map snd (filter (\<lambda>q. fst q \<noteq> i) (enumerate 0 (staged p)))\<rparr>"

text \<open>The clipboard's items: type, and the file if there is one.\<close>

fun handlePaste :: "(string \<times> attachment option) list \<Rightarrow> panel \<Rightarrow> panel" where
  "handlePaste [] p = p"
| "handlePaste ((ty, f) # rest) p =
     (if starts_with ty ''image/'' then (case f of Some a \<Rightarrow> stageFiles [a] p | None \<Rightarrow> handlePaste rest p)
      else handlePaste rest p)"

definition handleDragOver :: "panel \<Rightarrow> panel" where "handleDragOver p = p\<lparr>dragOver := True\<rparr>"
definition handleDragLeave :: "panel \<Rightarrow> panel" where "handleDragLeave p = p\<lparr>dragOver := False\<rparr>"

definition handleDrop :: "attachment list \<Rightarrow> panel \<Rightarrow> panel" where
  "handleDrop fs p = stageFiles fs (p\<lparr>dragOver := False\<rparr>)"

text \<open>What the closure of \<open>sendStaged\<close> captured, and its loop's variables.\<close>

record staged_job =
  sj_target :: convo
  sj_list :: "attachment list"
  sj_caption :: string
  sj_reply :: "int option"
  sj_i :: nat
  sj_failures :: nat
  sj_lastError :: string

text \<open>The next upload of the loop, or what follows it.\<close>

definition staged_next :: "staged_job \<Rightarrow> panel \<Rightarrow> panel" where
  "staged_next j p =
     (if sj_i j < length (sj_list j) then pcall [UploadFile (sj_list j ! sj_i j)] p
      else p\<lparr>replyTo := None, staged := [], sendProgress := None, uploading := False,
             uploadError := (if 0 < sj_failures j
               then Some (if length (sj_list j) = 1 then sj_lastError j
                 else show_nat (sj_failures j) @ '' of '' @ show_nat (length (sj_list j)) @ '' files failed to upload'')
               else uploadError p)\<rparr>)"

definition sendStaged :: "string \<Rightarrow> panel \<Rightarrow> staged_job option \<times> panel" where
  "sendStaged caption p = (case cp_active p of
     None \<Rightarrow> (None, p)
   | Some target \<Rightarrow>
       if staged p = [] then (None, p)
       else (let j = \<lparr>sj_target = target, sj_list = staged p, sj_caption = caption,
                   sj_reply = map_option mid (replyTo p), sj_i = 0, sj_failures = 0, sj_lastError = []\<rparr>
             in (Some j, staged_next j (p\<lparr>uploading := True, uploadError := None, sendProgress := Some 0\<rparr>))))"

definition staged_progress :: "staged_job \<Rightarrow> rat \<Rightarrow> panel \<Rightarrow> panel" where
  "staged_progress j f p = p\<lparr>sendProgress := Some ((of_nat (sj_i j) + f) / of_nat (length (sj_list j)))\<rparr>"

text \<open>The upload of file \<open>sj_i\<close> ends: an error (\<open>None\<close>: one without a message) or the file's id.\<close>

definition staged_uploaded :: "string option + int \<Rightarrow> staged_job \<Rightarrow> panel \<Rightarrow> staged_job \<times> panel" where
  "staged_uploaded r j p =
     (case r of
        Inr f \<Rightarrow>
          (let j1 = j\<lparr>sj_i := sj_i j + 1\<rparr>;
               p1 = pcall [SendMessage (sj_target j) (if sj_i j = 0 then sj_caption j else []) (Some f)
                      (if sj_i j = 0 then sj_reply j else None)] p
           in (j1, staged_next j1 p1))
      | Inl e \<Rightarrow>
          (let j1 = j\<lparr>sj_i := sj_i j + 1, sj_failures := sj_failures j + 1,
                      sj_lastError := nvl e ''Could not upload file''\<rparr>
           in (j1, staged_next j1 p)))"

section \<open>The encryption switch\<close>

record encrypt_job =
  ej_convo :: convo
  ej_ids :: "int list"
  ej_name :: "int \<Rightarrow> string option"

text \<open>\<open>ids\<close>: the peer, or the ids of the group's members; \<open>name\<close> is how the closure names one of them.\<close>

definition toggleEncryption :: "bool \<Rightarrow> int list \<Rightarrow> (int \<Rightarrow> string option) \<Rightarrow> panel \<Rightarrow> encrypt_job option \<times> panel" where
  "toggleEncryption encrypted members name p = (case cp_active p of
     None \<Rightarrow> (None, p)
   | Some c \<Rightarrow>
       if encrypted then (None, pcall [SetEncrypted c False] p)
       else (let ids = (case c of Dm peer \<Rightarrow> [peer] | GroupConvo g \<Rightarrow> members)
             in (Some \<lparr>ej_convo = c, ej_ids = ids, ej_name = name\<rparr>,
                 pcall [UsersMissingKeys ids] (p\<lparr>encryptBusy := True, uploadError := None\<rparr>))))"

definition keys_looked_up :: "encrypt_job \<Rightarrow> int list option \<Rightarrow> panel \<Rightarrow> panel" where
  "keys_looked_up j missing p =
     (case missing of
        None \<Rightarrow> p\<lparr>uploadError := Some ''Could not check encryption readiness''\<rparr>
      | Some ms \<Rightarrow>
          if ms \<noteq> []
          then p\<lparr>uploadError := Some (''Can't enable encryption yet - '' @
                  join_with '', '' (map (\<lambda>i. nvl (ej_name j i) (''#'' @ show_int i)) ms) @
                  '' hasn't opened the app on a device with encryption set up.'')\<rparr>
          else pcall [SetEncrypted (ej_convo j) True] p)
     \<lparr>encryptBusy := False\<rparr>"

end
