(* ===== verification/ChatPanelLaws.thy ===== *)
theory ChatPanelLaws
  imports ChatPanel
begin

text \<open>
  What the chat panel keeps: drafts survive switching conversations, staged files are sent one after
  the other with the caption once, the view stays where it is when older messages are loaded.
\<close>

section \<open>Events\<close>

datatype panel_event =
    Enter "convo option"
  | TypeText string
  | PressSend
  | PressKey bool bool
  | StartEdit message
  | SetEditDraft string
  | SaveEdit message
  | ReplyTo message
  | TogglePicker message
  | PickReaction message string
  | AskDelete message
  | ConfirmDelete
  | AskForward message
  | ForwardTo convo
  | Stage "attachment list"
  | Unstage nat
  | Paste "(string \<times> attachment option) list"
  | DragOver bool
  | Drop "attachment list"
  | SendStaged string
  | Uploaded staged_job "string option + int"
  | ToggleEncryption bool "int list" "int \<Rightarrow> string option"
  | KeysLookedUp encrypt_job "int list option"
  | LoadOlder "int option"
  | MessagesShown nat int

fun panel_step :: "panel_event \<Rightarrow> panel \<Rightarrow> panel" where
  "panel_step (Enter a) p = enter_conversation a p"
| "panel_step (TypeText v) p = handleTextChange v p"
| "panel_step PressSend p = send p"
| "panel_step (PressKey e s) p = onKeyDown e s p"
| "panel_step (StartEdit m) p = startEdit m p"
| "panel_step (SetEditDraft v) p = p\<lparr>editDraft := v\<rparr>"
| "panel_step (SaveEdit m) p = saveEdit m p"
| "panel_step (ReplyTo m) p = reply_to_message m p"
| "panel_step (TogglePicker m) p = toggle_reaction_picker m p"
| "panel_step (PickReaction m e) p = pick_reaction m e p"
| "panel_step (AskDelete m) p = p\<lparr>deleteMsgConfirm := Some m\<rparr>"
| "panel_step ConfirmDelete p = confirm_delete p"
| "panel_step (AskForward m) p = p\<lparr>forwardingMsg := Some m\<rparr>"
| "panel_step (ForwardTo c) p = forwardTo c p"
| "panel_step (Stage fs) p = stageFiles fs p"
| "panel_step (Unstage i) p = unstage i p"
| "panel_step (Paste its) p = handlePaste its p"
| "panel_step (DragOver b) p = (if b then handleDragOver p else handleDragLeave p)"
| "panel_step (Drop fs) p = handleDrop fs p"
| "panel_step (SendStaged c) p = snd (sendStaged c p)"
| "panel_step (Uploaded j r) p = snd (staged_uploaded r j p)"
| "panel_step (ToggleEncryption e ms nm) p = snd (toggleEncryption e ms nm p)"
| "panel_step (KeysLookedUp j ms) p = keys_looked_up j ms p"
| "panel_step (LoadOlder first) p = loadOlder first p"
| "panel_step (MessagesShown n h) p = autoscroll n h p"

definition open_panel :: "storage \<Rightarrow> panel \<Rightarrow> bool" where
  "open_panel st p = (prevConversationKey p = [] \<and> cp_active p = None \<and> cp_text p = [] \<and> drafts p = st)"

inductive panel_reach :: "storage \<Rightarrow> panel \<Rightarrow> bool" for st where
  start: "open_panel st p \<Longrightarrow> panel_reach st p"
| step: "panel_reach st p \<Longrightarrow> panel_reach st (panel_step e p)"

section \<open>Drafts\<close>

text \<open>What the drafts depend on: everything but typing, sending and switching leaves it alone.\<close>

definition draft_view :: "panel \<Rightarrow> convo option \<times> string \<times> string \<times> storage" where
  "draft_view p = (cp_active p, cp_text p, prevConversationKey p, drafts p)"

lemma draft_view_pcall [simp]: "draft_view (pcall cs p) = draft_view p"
  by (simp add: draft_view_def pcall_def)

lemma draft_view_stage [simp]: "draft_view (stageFiles fs p) = draft_view p"
  by (simp add: draft_view_def stageFiles_def)

lemma draft_view_paste [simp]: "draft_view (handlePaste its p) = draft_view p"
  by (induction its p rule: handlePaste.induct) (simp_all split: option.split)

lemma draft_view_next [simp]: "draft_view (staged_next j p) = draft_view p"
  by (simp add: staged_next_def) (simp add: draft_view_def)

definition quiet :: "panel_event \<Rightarrow> bool" where
  "quiet e = (case e of Enter a \<Rightarrow> False | TypeText v \<Rightarrow> False | PressSend \<Rightarrow> False | PressKey a b \<Rightarrow> False | _ \<Rightarrow> True)"

lemma draft_view_cong:
  "draft_view (p\<lparr>uploading := a, uploadError := b, sendProgress := c\<rparr>) = draft_view p"
  by (simp add: draft_view_def)

lemma draft_view_quiet: "quiet e \<Longrightarrow> draft_view (panel_step e p) = draft_view p"
proof (cases e)
  case (Uploaded j r)
  then show ?thesis by (cases r) (simp_all add: staged_uploaded_def Let_def)
next
  case (SendStaged c)
  then show ?thesis by (simp add: sendStaged_def Let_def draft_view_cong split: option.split)
next
  case (MessagesShown n h)
  then show ?thesis by (simp add: autoscroll_def Let_def draft_view_def split: option.split)
next
  case (KeysLookedUp j ms)
  then show ?thesis by (simp add: keys_looked_up_def draft_view_def pcall_def split: option.split)
next
  case (ToggleEncryption x y z)
  then show ?thesis by (simp add: toggleEncryption_def Let_def draft_view_def pcall_def split: option.split)
qed (simp_all add: quiet_def startEdit_def saveEdit_def reply_to_message_def toggle_reaction_picker_def pick_reaction_def
    confirm_delete_def forwardTo_def unstage_def handleDragOver_def handleDragLeave_def handleDrop_def loadOlder_def
    draft_view_def pcall_def Let_def stageFiles_def draft_view_paste [unfolded draft_view_def] split: option.split)

lemma blocked_saveDraft [simp]: "blocked (saveDraft k t st) = blocked st"
  by (simp add: saveDraft_def setItem_def removeItem_def)

lemma loadDraft_save:
  "\<not> blocked st \<Longrightarrow> loadDraft (saveDraft k t st) k' =
    (if k' = k then (if js_trim t \<noteq> [] then t else []) else loadDraft st k')"
  by (simp add: loadDraft_def saveDraft_def getItem_def setItem_def removeItem_def draftKey_def jm.get_put jm.get_del)

lemma key_nonempty [simp]: "key c \<noteq> []"
  by (cases c) simp_all

lemma conversationKey_simps [simp]: "conversationKey None = []" "conversationKey (Some c) = key c"
  by (simp_all add: conversationKey_def)

lemma conversationKey_eq: "conversationKey a = key c \<longleftrightarrow> a = Some c"
  by (cases a) (auto simp: eq_commute [of "[]"])

lemma js_trim_Nil [simp]: "js_trim [] = []"
  by (simp add: js_trim_def)

definition draft_kept :: "panel \<Rightarrow> bool" where
  "draft_kept p = (prevConversationKey p = conversationKey (cp_active p) \<and>
     (\<forall>c. cp_active p = Some c \<longrightarrow> js_trim (cp_text p) \<noteq> [] \<longrightarrow> loadDraft (drafts p) (key c) = cp_text p))"

lemma draft_kept_view: "draft_view q = draft_view p \<Longrightarrow> draft_kept q = draft_kept p"
  by (simp add: draft_view_def draft_kept_def)

lemma send_draft_view:
  "draft_view (send p) =
    (if cp_active p = None \<or> js_trim (cp_text p) = [] then draft_view p
     else (cp_active p, [], prevConversationKey p, saveDraft (conversationKey (cp_active p)) [] (drafts p)))"
  by (auto simp: send_def draft_view_def pcall_def split: option.split)

lemma key_draft_view: "draft_view (onKeyDown e s p) = (if e \<and> \<not> s then draft_view (send p) else draft_view p)"
  by (simp add: onKeyDown_def split: option.split)

lemma noisy_cases:
  assumes "\<not> quiet e"
  obtains a where "e = Enter a" | v where "e = TypeText v" |
    "\<And>p. draft_view (panel_step e p) = draft_view (send p) \<or> draft_view (panel_step e p) = draft_view p"
  using assms by (cases e) (auto simp: quiet_def key_draft_view)

lemma blocked_step: "blocked (drafts (panel_step e p)) = blocked (drafts p)"
proof (cases "quiet e")
  case True
  then show ?thesis using draft_view_quiet [of e p] by (simp add: draft_view_def)
next
  case False
  have "blocked (drafts (send p)) = blocked (drafts p)" by (simp add: send_def pcall_def split: option.split)
  with False show ?thesis
    by (cases rule: noisy_cases)
      (auto simp: enter_conversation_def handleTextChange_def pcall_def Let_def draft_view_def dest!: meta_spec [of _ p])
qed

lemma draft_kept_send: "\<not> blocked (drafts p) \<Longrightarrow> draft_kept p \<Longrightarrow> draft_kept (send p)"
  by (auto simp: send_def draft_kept_def pcall_def split: option.split)

lemma draft_kept_step:
  assumes "\<not> blocked (drafts p)" "draft_kept p"
  shows "draft_kept (panel_step e p)"
proof (cases "quiet e")
  case True
  then show ?thesis using draft_kept_view [OF draft_view_quiet [OF True, of p]] assms(2) by simp
next
  case False
  then show ?thesis
  proof (cases rule: noisy_cases)
    case (1 a)
    then show ?thesis by (auto simp: draft_kept_def enter_conversation_def pcall_def Let_def)
  next
    case (2 v)
    then show ?thesis using assms by (auto simp: draft_kept_def handleTextChange_def Let_def loadDraft_save)
  next
    case 3
    then show ?thesis using draft_kept_view draft_kept_send [OF assms] assms(2) by metis
  qed
qed

text \<open>What happens while another conversation is open leaves this one's draft alone.\<close>

lemma other_draft_step:
  assumes "\<not> blocked (drafts p)" "draft_kept p" "cp_active p \<noteq> Some c" "e \<noteq> Enter (Some c)"
  shows "loadDraft (drafts (panel_step e p)) (key c) = loadDraft (drafts p) (key c) \<and> cp_active (panel_step e p) \<noteq> Some c"
proof (cases "quiet e")
  case True
  then show ?thesis using draft_view_quiet [OF True, of p] assms(3) by (simp add: draft_view_def)
next
  case False
  have other: "key c \<noteq> conversationKey (cp_active p)" "key c \<noteq> prevConversationKey p"
    using assms(2,3) conversationKey_eq [of "cp_active p" c] by (auto simp: draft_kept_def)
  from False show ?thesis
  proof (cases rule: noisy_cases)
    case (1 a)
    then show ?thesis using assms other by (auto simp: enter_conversation_def pcall_def Let_def loadDraft_save)
  next
    case (2 v)
    then show ?thesis using assms other by (auto simp: handleTextChange_def Let_def loadDraft_save)
  next
    case 3
    have "loadDraft (drafts (send p)) (key c) = loadDraft (drafts p) (key c) \<and> cp_active (send p) \<noteq> Some c"
      using assms other by (auto simp: send_def pcall_def loadDraft_save split: option.split)
    with 3 [of p] assms(3) show ?thesis by (auto simp: draft_view_def)
  qed
qed

lemma other_draft_run:
  assumes "\<not> blocked (drafts p)" "draft_kept p" "cp_active p \<noteq> Some c" "Enter (Some c) \<notin> set es"
  shows "loadDraft (drafts (fold panel_step es p)) (key c) = loadDraft (drafts p) (key c) \<and>
    draft_kept (fold panel_step es p) \<and> cp_active (fold panel_step es p) \<noteq> Some c \<and> \<not> blocked (drafts (fold panel_step es p))"
  using assms
proof (induction es arbitrary: p)
  case (Cons e es)
  then have "draft_kept (panel_step e p)" "\<not> blocked (drafts (panel_step e p))"
    "loadDraft (drafts (panel_step e p)) (key c) = loadDraft (drafts p) (key c) \<and> cp_active (panel_step e p) \<noteq> Some c"
    using draft_kept_step [of p e] blocked_step [of e p] other_draft_step [of p c e] by auto
  with Cons.IH [of "panel_step e p"] Cons.prems(4) show ?case by simp
qed simp

lemma reach_draft_kept:
  assumes "panel_reach st p" "\<not> blocked st"
  shows "draft_kept p \<and> \<not> blocked (drafts p)"
  using assms(1)
proof induction
  case (start p)
  then show ?case using assms(2) by (simp add: open_panel_def draft_kept_def)
next
  case (step p e)
  then show ?case using draft_kept_step [of p e] blocked_step [of e p] by simp
qed

text \<open>
  C28. A half-written message is not lost: in every state the panel can reach, switching to another
  conversation, doing anything there and coming back restores exactly the text that stood in the composer
  (unless it is blank), and the other conversation starts with its own draft, not with this text.
\<close>

theorem draft_survives_switching:
  assumes "panel_reach st p" "\<not> blocked st" "cp_active p = Some c" "js_trim (cp_text p) \<noteq> []" "d \<noteq> c"
    and "Enter (Some c) \<notin> set es" "q = fold panel_step es (panel_step (Enter (Some d)) p)"
  shows "cp_text (panel_step (Enter (Some c)) q) = cp_text p \<and>
    cp_text (panel_step (Enter (Some d)) p) = loadDraft (drafts p) (key d)"
proof -
  let ?r = "panel_step (Enter (Some d)) p"
  have kept: "draft_kept p" "\<not> blocked (drafts p)" using reach_draft_kept [OF assms(1,2)] by auto
  then have prev: "prevConversationKey p = key c" using assms(3) by (simp add: draft_kept_def)
  have r: "cp_active ?r = Some d" "loadDraft (drafts ?r) (key c) = cp_text p"
    "cp_text ?r = loadDraft (drafts p) (key d)"
    using kept prev assms(4,5) by (auto simp: enter_conversation_def pcall_def Let_def loadDraft_save)
  have "loadDraft (drafts q) (key c) = cp_text p \<and> draft_kept q \<and> cp_active q \<noteq> Some c \<and> \<not> blocked (drafts q)"
    using other_draft_run [of ?r c es] r draft_kept_step [OF kept(2,1), of "Enter (Some d)"] blocked_step [of "Enter (Some d)" p] kept assms(5-7) by simp
  moreover then have "prevConversationKey q \<noteq> key c" using conversationKey_eq [of "cp_active q" c] by (auto simp: draft_kept_def)
  ultimately have "cp_text (panel_step (Enter (Some c)) q) = cp_text p"
    by (simp add: enter_conversation_def pcall_def Let_def loadDraft_save)
  with r(3) show ?thesis by simp
qed

definition ex_panel :: panel where
  "ex_panel = \<lparr>cp_active = None, cp_text = [], uploading = False, uploadError = None, dragOver = False, encryptBusy = False,
     replyTo = None, editingID = None, editDraft = [], reactionPickerFor = None, forwardingMsg = None, forwardSearch = [],
     deleteMsgConfirm = None, showPinned = False, staged = [], sendProgress = None, prevConversationKey = [], lastCount = 0,
     preserveScroll = None, scroll = \<lparr>scrollTop = 0, scrollHeight = 0, clientHeight = 0\<rparr>,
     drafts = \<lparr>blocked = False, items = []\<rparr>, calls = []\<rparr>"

definition ex_typing :: panel where
  "ex_typing = panel_step (TypeText ''half'') (panel_step (Enter (Some (Dm 2))) ex_panel)"

lemma ex_typing_reach: "panel_reach \<lparr>blocked = False, items = []\<rparr> ex_typing"
  unfolding ex_typing_def by (intro panel_reach.intros) (simp add: open_panel_def ex_panel_def)

theorem draft_survives_switching_witness:
  "cp_text (panel_step (Enter (Some (Dm 2))) (fold panel_step [TypeText ''other'', PressSend]
     (panel_step (Enter (Some (Dm 3))) ex_typing))) = ''half''"
proof -
  have "cp_active ex_typing = Some (Dm 2)" "cp_text ex_typing = ''half''" "js_trim ''half'' \<noteq> []"
    by (simp_all add: ex_typing_def ex_panel_def enter_conversation_def handleTextChange_def pcall_def Let_def
        js_trim_def js_space_def)
  then show ?thesis
    using draft_survives_switching [OF ex_typing_reach, of "Dm 2" "Dm 3" "[TypeText ''other'', PressSend]"] by simp
qed

section \<open>Files\<close>

text \<open>The uploads of one batch, with nothing in between: the results of the files, in order.\<close>

definition staged_run :: "(string option + int) list \<Rightarrow> staged_job \<times> panel \<Rightarrow> staged_job \<times> panel" where
  "staged_run rs = fold (\<lambda>r (j, p). staged_uploaded r j p) rs"

text \<open>What one file causes: its upload and, if that worked, its message.\<close>

definition file_calls :: "staged_job \<Rightarrow> nat \<Rightarrow> attachment \<Rightarrow> string option + int \<Rightarrow> panel_call list" where
  "file_calls j i a r = UploadFile a #
     (case r of Inl e \<Rightarrow> []
      | Inr f \<Rightarrow> [SendMessage (sj_target j) (if i = 0 then sj_caption j else []) (Some f) (if i = 0 then sj_reply j else None)])"

fun files_calls :: "staged_job \<Rightarrow> nat \<Rightarrow> attachment list \<Rightarrow> (string option + int) list \<Rightarrow> panel_call list" where
  "files_calls j i (a # as) (r # rs) = file_calls j i a r @ files_calls j (Suc i) as rs"
| "files_calls j i _ _ = []"

definition failed_count :: "(string option + int) list \<Rightarrow> nat" where
  "failed_count rs = length (filter (\<lambda>r. case r of Inl e \<Rightarrow> True | Inr f \<Rightarrow> False) rs)"

definition same_batch :: "staged_job \<Rightarrow> staged_job \<Rightarrow> bool" where
  "same_batch j k = (sj_target k = sj_target j \<and> sj_list k = sj_list j \<and> sj_caption k = sj_caption j \<and> sj_reply k = sj_reply j)"

lemma files_calls_same: "same_batch j k \<Longrightarrow> files_calls k i as rs = files_calls j i as rs"
  by (induction j i as rs rule: files_calls.induct) (simp_all add: file_calls_def same_batch_def split: sum.split)

text \<open>The batch is done: nothing is staged or busy, and the error says how many files failed.\<close>

definition batch_ended :: "staged_job \<Rightarrow> panel \<Rightarrow> bool" where
  "batch_ended j p = (staged p = [] \<and> \<not> uploading p \<and> sendProgress p = None \<and> replyTo p = None \<and>
     (uploadError p \<noteq> None) = (0 < sj_failures j))"

lemma staged_uploaded_step:
  assumes "staged_uploaded r j p = (k, q)" "sj_i j < length (sj_list j)"
  shows "same_batch j k \<and> sj_i k = Suc (sj_i j) \<and> sj_failures k = sj_failures j + failed_count [r] \<and>
    calls q = calls p @ drop 1 (file_calls j (sj_i j) (sj_list j ! sj_i j) r) @
      (if Suc (sj_i j) < length (sj_list j) then [UploadFile (sj_list j ! Suc (sj_i j))] else []) \<and>
    (if Suc (sj_i j) < length (sj_list j) then uploadError q = uploadError p else (uploadError p = None \<longrightarrow> batch_ended k q))"
  using assms
  by (cases r) (auto simp: staged_uploaded_def staged_next_def Let_def pcall_def same_batch_def file_calls_def failed_count_def
      batch_ended_def split: if_splits)

lemma staged_run_calls:
  assumes "staged_run rs (j, p) = (k, q)" "length rs = length (sj_list j) - sj_i j" "rs \<noteq> []" "uploadError p = None"
  shows "calls q = calls p @ drop 1 (files_calls j (sj_i j) (drop (sj_i j) (sj_list j)) rs) \<and> batch_ended k q \<and>
    sj_failures k = sj_failures j + failed_count rs"
  using assms
proof (induction rs arbitrary: j p)
  case (Cons r rs)
  obtain j1 p1 where one: "staged_uploaded r j p = (j1, p1)" by fastforce
  have i: "sj_i j < length (sj_list j)" using Cons.prems(2) by simp
  note step = staged_uploaded_step [OF one i]
  have run: "staged_run rs (j1, p1) = (k, q)" using Cons.prems(1) one by (simp add: staged_run_def)
  have drp: "drop (sj_i j) (sj_list j) = sj_list j ! sj_i j # drop (Suc (sj_i j)) (sj_list j)"
    using i by (simp add: Cons_nth_drop_Suc)
  show ?case
  proof (cases "rs = []")
    case True
    then have "\<not> Suc (sj_i j) < length (sj_list j)" "k = j1" "q = p1" using Cons.prems(2) run by (auto simp: staged_run_def)
    with step Cons.prems(4) True drp show ?thesis by (simp add: failed_count_def file_calls_def)
  next
    case False
    then have more: "Suc (sj_i j) < length (sj_list j)" using Cons.prems(2) by (cases rs) auto
    have same: "same_batch j j1" and i1: "sj_i j1 = Suc (sj_i j)" and l1: "sj_list j1 = sj_list j"
      using step by (auto simp: same_batch_def)
    have drp1: "drop (Suc (sj_i j)) (sj_list j) = sj_list j ! Suc (sj_i j) # drop (Suc (Suc (sj_i j))) (sj_list j)"
      using more by (simp add: Cons_nth_drop_Suc)
    have fc: "failed_count (r # rs) = failed_count [r] + failed_count rs" by (simp add: failed_count_def)
    have "calls q = calls p1 @ drop 1 (files_calls j1 (Suc (sj_i j)) (drop (Suc (sj_i j)) (sj_list j)) rs) \<and>
        batch_ended k q \<and> sj_failures k = sj_failures j1 + failed_count rs"
      using Cons.IH [OF run] Cons.prems(2,4) False step more i1 l1 by simp
    moreover have "[UploadFile (sj_list j ! Suc (sj_i j))] @ drop 1 (files_calls j (Suc (sj_i j)) (drop (Suc (sj_i j)) (sj_list j)) rs) =
        files_calls j (Suc (sj_i j)) (drop (Suc (sj_i j)) (sj_list j)) rs"
      using False drp1 by (cases rs) (simp_all add: file_calls_def)
    ultimately show ?thesis
      using step more drp files_calls_same [OF same] fc by (simp add: file_calls_def)
  qed
qed simp

text \<open>
  Staged files go out one at a time and in order: file by file, the upload starts after the one before it has
  ended, and a file that was uploaded is sent at once, to the conversation the user was in when pressing Send. The
  caption and the reply travel with the first file only, a failed file is left out, and in the end nothing is
  staged or busy and there is an error exactly when a file failed.
\<close>

theorem staged_files_are_sent_in_order:
  assumes "cp_active p = Some c" "staged p \<noteq> []" "sendStaged caption p = (Some j, p1)"
    and "length rs = length (staged p)" "staged_run rs (j, p1) = (k, q)"
  shows "calls q = calls p @ files_calls j 0 (staged p) rs \<and> sj_target j = c \<and> sj_caption j = caption \<and>
    sj_reply j = map_option mid (replyTo p) \<and> batch_ended k q \<and> sj_failures k = failed_count rs"
proof -
  have j: "sj_target j = c" "sj_list j = staged p" "sj_i j = 0" "sj_failures j = 0" "sj_caption j = caption"
    "sj_reply j = map_option mid (replyTo p)" "calls p1 = calls p @ [UploadFile (hd (staged p))]" "uploadError p1 = None"
    using assms(1-3) by (auto simp: sendStaged_def Let_def staged_next_def pcall_def hd_conv_nth)
  obtain a as r rs' where "staged p = a # as" "rs = r # rs'" using assms(2,4) by (cases "staged p"; cases rs) auto
  with staged_run_calls [OF assms(5)] j assms(4) show ?thesis by (simp add: file_calls_def)
qed

definition ex_file :: "string \<Rightarrow> attachment" where
  "ex_file n = \<lparr>at_name = n, at_size = 1, at_type = ''image/png''\<rparr>"

definition ex_staged :: panel where
  "ex_staged = ex_panel\<lparr>cp_active := Some (Dm 2), staged := [ex_file ''a'', ex_file ''b'']\<rparr>"

theorem staged_files_are_sent_in_order_witness:
  "calls (snd (staged_run [Inl None, Inr 8] (the (fst (sendStaged ''look'' ex_staged)), snd (sendStaged ''look'' ex_staged)))) =
     [UploadFile (ex_file ''a''), UploadFile (ex_file ''b''), SendMessage (Dm 2) [] (Some 8) None]"
proof -
  let ?s = "sendStaged ''look'' ex_staged"
  let ?r = "staged_run [Inl None, Inr 8] (the (fst ?s), snd ?s)"
  have s: "?s = (Some (the (fst ?s)), snd ?s)" by (simp add: sendStaged_def Let_def ex_staged_def)
  have st: "staged ex_staged = [ex_file ''a'', ex_file ''b'']" "cp_active ex_staged = Some (Dm 2)" "calls ex_staged = []"
    by (simp_all add: ex_staged_def ex_panel_def)
  have "calls (snd ?r) = calls ex_staged @ files_calls (the (fst ?s)) 0 (staged ex_staged) [Inl None, Inr 8] \<and>
      sj_target (the (fst ?s)) = Dm 2"
    using staged_files_are_sent_in_order [OF st(2) _ s, where rs = "[Inl None, Inr 8]" and k = "fst ?r" and q = "snd ?r"] st by simp
  then show ?thesis by (simp add: st file_calls_def)
qed

text \<open>If the first upload fails, the caption and the reply go nowhere, although the other files are sent.\<close>

lemma caption_lost_calls:
  assumes "0 < i" "SendMessage c cap f r \<in> set (files_calls j i as rs)"
  shows "cap = [] \<and> r = None"
  using assms
  by (induction j i as rs rule: files_calls.induct) (auto simp: file_calls_def split: sum.splits)

lemma failed_first_upload_loses_the_caption:
  assumes "SendMessage c cap f r \<in> set (files_calls j 0 as (Inl e # rs))"
  shows "cap = [] \<and> r = None"
  using assms caption_lost_calls [of 1 c cap f r j] by (cases as) (auto simp: file_calls_def)

text \<open>
  Staged files are not bound to the conversation they were picked in: opening another one (a notification or a
  toast does it while the preview is open) keeps them, and Send delivers them there.
\<close>

lemma staged_files_follow_the_user:
  assumes "cp_active p = Some c" "fs \<noteq> []" "sendStaged caption (enter_conversation (Some d) (stageFiles fs p)) = (Some j, q)"
  shows "sj_target j = d \<and> sj_list j = staged p @ fs"
  using assms by (auto simp: sendStaged_def Let_def enter_conversation_def pcall_def stageFiles_def)

section \<open>The view\<close>

lemma handlePaste_first:
  assumes "\<forall>x \<in> set xs. \<not> starts_with (fst x) ''image/''" "starts_with ty ''image/''"
  shows "handlePaste (xs @ (ty, Some a) # ys) p = stageFiles [a] p"
  using assms by (induction xs arbitrary: p) auto

text \<open>Loading older messages keeps the distance from the end of the list, so the view does not move.\<close>

lemma older_messages_keep_the_view:
  assumes "cp_active p = Some c" "n \<noteq> lastCount p" "scrollHeight (scroll p) \<le> h"
    and "0 \<le> scrollTop (scroll p)" "scrollTop (scroll p) + clientHeight (scroll p) \<le> scrollHeight (scroll p)"
  shows "h - scrollTop (scroll (autoscroll n h (loadOlder first p))) = scrollHeight (scroll p) - scrollTop (scroll p)"
  using assms by (simp add: loadOlder_def autoscroll_def pcall_def set_scrollTop_def Let_def)

text \<open>
  But the remembered position serves the first change there is: a live message that arrives before the page uses it
  up, moves the view by its own height, and the page then shifts everything.
\<close>

lemma live_message_uses_up_the_position:
  assumes "cp_active p = Some c" "n \<noteq> lastCount p" "m \<noteq> n" "n \<noteq> 0" "0 \<le> scrollTop (scroll p)"
    and "scrollTop (scroll p) + clientHeight (scroll p) + 120 \<le> scrollHeight (scroll p)"
    and "scrollHeight (scroll p) \<le> h" "h \<le> h'" "q = autoscroll m h' (autoscroll n h (loadOlder first p))"
  shows "scrollTop (scroll q) = scrollTop (scroll p) + (h - scrollHeight (scroll p))"
  using assms by (auto simp: loadOlder_def autoscroll_def pcall_def set_scrollTop_def Let_def)

end
