(* ===== verification/GroupDialog.thy ===== *)
theory GroupDialog
  imports ChatPanel Forms
begin

text \<open>
  The group dialog of the chat panel (\<open>components/ChatPanel.tsx\<close>): who may manage a group, renaming it,
  its topic and icon, roles, adding and removing members, leaving and deleting it; the lists of people the
  dialogs offer; and the swipe that replies to a message. A handler that awaits a request is two definitions,
  the second taking the outcome: \<open>Inl\<close> the error's message (\<open>None\<close> if it has none), \<open>Inr ()\<close> success.
\<close>

section \<open>Who may do what\<close>

definition isGroupOwner :: "user \<Rightarrow> group option \<Rightarrow> bool" where
  "isGroupOwner u g = (case g of None \<Rightarrow> False | Some g \<Rightarrow> g_created_by g = u_id u \<or> u_role u = RoleAdmin)"

definition myGroupRole :: "user \<Rightarrow> group option \<Rightarrow> member_role option" where
  "myGroupRole u g = (case g of None \<Rightarrow> None | Some g \<Rightarrow> map_option gm_role (find (\<lambda>m. ub_id m = u_id u) (g_members g)))"

definition canManageGroup :: "user \<Rightarrow> group option \<Rightarrow> bool" where
  "canManageGroup u g = (isGroupOwner u g \<or> myGroupRole u g = Some GroupAdmin)"

section \<open>State\<close>

datatype group_dialog_call =
    CallDeleteGroup int
  | CallRenameGroup int string
  | CallUpdateTopic int string
  | CallUploadIcon
  | CallSetIcon int int
  | CallSetRole int int string
  | CallAddMembers int "int list"
  | CallRemoveMember int int
  | CallOnBack

record group_panel =
  showGroupInfo :: bool
  deletingGroup :: bool
  editingName :: bool
  nameDraft :: string
  renamingBusy :: bool
  editingTopic :: bool
  topicDraft :: string
  topicBusy :: bool
  groupAvatarBusy :: bool
  roleBusyID :: "int option"
  showAddMembers :: bool
  memberSearch :: string
  newMemberIDs :: "int list"
  addingMembers :: bool
  removingMemberID :: "int option"
  pendingRemoveID :: "int option"
  leavingGroup :: bool
  groupActionError :: "string option"
  panelError :: "string option"
  group_calls :: "group_dialog_call list"

definition gcall :: "group_dialog_call list \<Rightarrow> group_panel \<Rightarrow> group_panel" where
  "gcall cs p = p\<lparr>group_calls := group_calls p @ cs\<rparr>"

text \<open>\<open>setGroupActionError(err?.message ?? text)\<close> in the \<open>catch\<close>.\<close>

definition action_failed :: "outcome \<Rightarrow> string \<Rightarrow> group_panel \<Rightarrow> group_panel" where
  "action_failed r txt p = (case r of Inr _ \<Rightarrow> p | Inl e \<Rightarrow> p\<lparr>groupActionError := Some (nvl e txt)\<rparr>)"

section \<open>The handlers\<close>

definition handleDeleteGroup :: "group option \<Rightarrow> group_panel \<Rightarrow> group_panel" where
  "handleDeleteGroup g p = (case g of None \<Rightarrow> p | Some g \<Rightarrow> gcall [CallDeleteGroup (g_id g)] (p\<lparr>deletingGroup := True\<rparr>))"

definition group_deleted :: "outcome \<Rightarrow> group_panel \<Rightarrow> group_panel" where
  "group_deleted r p =
     (case r of Inr _ \<Rightarrow> gcall [CallOnBack] (p\<lparr>showGroupInfo := False\<rparr>)
      | Inl e \<Rightarrow> p\<lparr>panelError := Some (nvl e ''Could not delete group'')\<rparr>)\<lparr>deletingGroup := False\<rparr>"

definition startRename :: "group option \<Rightarrow> group_panel \<Rightarrow> group_panel" where
  "startRename g p = (case g of None \<Rightarrow> p
   | Some g \<Rightarrow> p\<lparr>editingName := True, nameDraft := g_name g, groupActionError := None\<rparr>)"

definition saveRename :: "group option \<Rightarrow> group_panel \<Rightarrow> group_panel" where
  "saveRename g p = (case g of None \<Rightarrow> p
   | Some g \<Rightarrow>
       (let name = js_trim (nameDraft p) in
        if name = [] \<or> name = g_name g then p\<lparr>editingName := False\<rparr>
        else gcall [CallRenameGroup (g_id g) name] (p\<lparr>renamingBusy := True, groupActionError := None\<rparr>)))"

definition group_renamed :: "outcome \<Rightarrow> group_panel \<Rightarrow> group_panel" where
  "group_renamed r p =
     (action_failed r ''Could not rename group'' (if isl r then p else p\<lparr>editingName := False\<rparr>))\<lparr>renamingBusy := False\<rparr>"

definition startTopicEdit :: "group option \<Rightarrow> group_panel \<Rightarrow> group_panel" where
  "startTopicEdit g p = (case g of None \<Rightarrow> p
   | Some g \<Rightarrow> p\<lparr>editingTopic := True, topicDraft := g_topic g, groupActionError := None\<rparr>)"

definition saveTopic :: "group option \<Rightarrow> group_panel \<Rightarrow> group_panel" where
  "saveTopic g p = (case g of None \<Rightarrow> p
   | Some g \<Rightarrow> gcall [CallUpdateTopic (g_id g) (js_trim (topicDraft p))] (p\<lparr>topicBusy := True\<rparr>))"

definition topic_saved :: "outcome \<Rightarrow> group_panel \<Rightarrow> group_panel" where
  "topic_saved r p =
     (action_failed r ''Could not update topic'' (if isl r then p else p\<lparr>editingTopic := False\<rparr>))\<lparr>topicBusy := False\<rparr>"

definition uploadGroupAvatar :: "group option \<Rightarrow> group_panel \<Rightarrow> group_panel" where
  "uploadGroupAvatar g p = (case g of None \<Rightarrow> p
   | Some g \<Rightarrow> gcall [CallUploadIcon] (p\<lparr>groupAvatarBusy := True, groupActionError := None\<rparr>))"

text \<open>The upload has ended; \<open>g\<close> is the group of the closure.\<close>

definition icon_uploaded :: "group \<Rightarrow> string option + int \<Rightarrow> group_panel \<Rightarrow> group_panel" where
  "icon_uploaded g r p = (case r of
     Inr f \<Rightarrow> gcall [CallSetIcon (g_id g) f] p
   | Inl e \<Rightarrow> (action_failed (Inl e) ''Could not update group icon'' p)\<lparr>groupAvatarBusy := False\<rparr>)"

definition icon_set :: "outcome \<Rightarrow> group_panel \<Rightarrow> group_panel" where
  "icon_set r p = (action_failed r ''Could not update group icon'' p)\<lparr>groupAvatarBusy := False\<rparr>"

definition removeGroupAvatar :: "group option \<Rightarrow> group_panel \<Rightarrow> group_panel" where
  "removeGroupAvatar g p = (case g of None \<Rightarrow> p
   | Some g \<Rightarrow> gcall [CallSetIcon (g_id g) 0] (p\<lparr>groupAvatarBusy := True, groupActionError := None\<rparr>))"

definition icon_removed :: "outcome \<Rightarrow> group_panel \<Rightarrow> group_panel" where
  "icon_removed r p = (action_failed r ''Could not remove group icon'' p)\<lparr>groupAvatarBusy := False\<rparr>"

definition toggleMemberRole :: "group option \<Rightarrow> group_member \<Rightarrow> group_panel \<Rightarrow> group_panel" where
  "toggleMemberRole g m p = (case g of None \<Rightarrow> p
   | Some g \<Rightarrow> gcall [CallSetRole (g_id g) (ub_id m) (if gm_role m = GroupAdmin then ''member'' else ''admin'')]
       (p\<lparr>roleBusyID := Some (ub_id m), groupActionError := None\<rparr>))"

definition role_set :: "outcome \<Rightarrow> group_panel \<Rightarrow> group_panel" where
  "role_set r p = (action_failed r ''Could not update role'' p)\<lparr>roleBusyID := None\<rparr>"

definition tick_member :: "int \<Rightarrow> bool \<Rightarrow> group_panel \<Rightarrow> group_panel" where
  "tick_member u checked p = p\<lparr>newMemberIDs := (if checked then newMemberIDs p @ [u] else removeAll u (newMemberIDs p))\<rparr>"

definition handleAddMembers :: "group option \<Rightarrow> group_panel \<Rightarrow> group_panel" where
  "handleAddMembers g p = (case g of None \<Rightarrow> p
   | Some g \<Rightarrow>
       if newMemberIDs p = [] then p
       else gcall [CallAddMembers (g_id g) (newMemberIDs p)] (p\<lparr>addingMembers := True, groupActionError := None\<rparr>))"

definition members_added :: "outcome \<Rightarrow> group_panel \<Rightarrow> group_panel" where
  "members_added r p =
     (action_failed r ''Could not add members''
       (if isl r then p else p\<lparr>newMemberIDs := [], memberSearch := [], showAddMembers := False\<rparr>))\<lparr>addingMembers := False\<rparr>"

definition handleRemoveMember :: "group option \<Rightarrow> int \<Rightarrow> group_panel \<Rightarrow> group_panel" where
  "handleRemoveMember g userID p = (case g of None \<Rightarrow> p
   | Some g \<Rightarrow> gcall [CallRemoveMember (g_id g) userID]
       (p\<lparr>pendingRemoveID := None, removingMemberID := Some userID, groupActionError := None\<rparr>))"

definition member_removed :: "outcome \<Rightarrow> group_panel \<Rightarrow> group_panel" where
  "member_removed r p = (action_failed r ''Could not remove member'' p)\<lparr>removingMemberID := None\<rparr>"

definition handleLeaveGroup :: "int \<Rightarrow> group option \<Rightarrow> group_panel \<Rightarrow> group_panel" where
  "handleLeaveGroup meID g p = (case g of None \<Rightarrow> p
   | Some g \<Rightarrow> gcall [CallRemoveMember (g_id g) meID] (p\<lparr>leavingGroup := True, groupActionError := None\<rparr>))"

definition group_left :: "outcome \<Rightarrow> group_panel \<Rightarrow> group_panel" where
  "group_left r p = (case r of
     Inr _ \<Rightarrow> gcall [CallOnBack] (p\<lparr>showGroupInfo := False\<rparr>)
   | Inl e \<Rightarrow> (action_failed r ''Could not leave group'' p)\<lparr>leavingGroup := False\<rparr>)"

section \<open>The lists of people\<close>

definition addableUsers :: "int \<Rightarrow> group option \<Rightarrow> string \<Rightarrow> user list \<Rightarrow> user list" where
  "addableUsers meID g search us = filter (\<lambda>u. u_id u \<noteq> meID \<and> \<not> u_disabled u \<and>
     (case g of None \<Rightarrow> True | Some g \<Rightarrow> \<not> list_ex (\<lambda>m. ub_id m = u_id u) (g_members g)) \<and>
     (if search \<noteq> [] then matches_search search (u_display_name u) (u_username u) else True)) us"

definition forward_groups :: "string \<Rightarrow> group list \<Rightarrow> group list" where
  "forward_groups search gs = filter (\<lambda>g. str_includes (js_lower (g_name g)) (js_lower search)) gs"

definition forward_users :: "int \<Rightarrow> string \<Rightarrow> user list \<Rightarrow> user list" where
  "forward_users meID search us = filter (\<lambda>u. matches_search search (u_display_name u) (u_username u))
     (filter (\<lambda>u. u_id u \<noteq> meID \<and> \<not> u_disabled u) us)"

section \<open>Swipe to reply\<close>

datatype axis = Horizontal | Vertical

record swipe =
  dx :: rat
  touch_start :: "(rat \<times> rat) option"
  touch_axis :: "axis option"

definition swipe_start :: "rat \<times> rat \<Rightarrow> swipe \<Rightarrow> swipe" where
  "swipe_start pos w = w\<lparr>touch_start := Some pos, touch_axis := None\<rparr>"

definition swipe_move :: "rat \<times> rat \<Rightarrow> swipe \<Rightarrow> swipe" where
  "swipe_move pos w = (case touch_start w of
     None \<Rightarrow> w
   | Some (x, y) \<Rightarrow>
       (let mx = fst pos - x; my = snd pos - y;
            ax = (if touch_axis w = None \<and> (8 < \<bar>mx\<bar> \<or> 8 < \<bar>my\<bar>)
                  then Some (if \<bar>my\<bar> < \<bar>mx\<bar> then Horizontal else Vertical) else touch_axis w)
        in if ax = Some Horizontal then w\<lparr>dx := max 0 (min mx 90), touch_axis := ax\<rparr> else w\<lparr>touch_axis := ax\<rparr>))"

text \<open>The touch ends: whether it replies.\<close>

definition swipe_end :: "swipe \<Rightarrow> bool \<times> swipe" where
  "swipe_end w = (60 \<le> dx w, w\<lparr>dx := 0, touch_start := None\<rparr>)"

definition still :: swipe where "still = \<lparr>dx = 0, touch_start = None, touch_axis = None\<rparr>"

section \<open>Lemmas\<close>

text \<open>Only someone who may manage a group is offered its management; a site administrator may manage every group.\<close>

lemma plain_member_cannot_manage:
  assumes "u_role u \<noteq> RoleAdmin" "g_created_by g \<noteq> u_id u"
    and "\<forall>m \<in> set (g_members g). ub_id m = u_id u \<longrightarrow> gm_role m = Member"
  shows "\<not> canManageGroup u (Some g)"
  using assms by (auto simp: canManageGroup_def isGroupOwner_def myGroupRole_def find_Some_iff)

text \<open>
  The dialog's drafts are not bound to a group: with the name of one group being edited, opening another and saving
  renames the other.
\<close>

lemma rename_draft_crosses_groups:
  assumes "js_trim (g_name a) = g_name a" "g_name a \<noteq> []" "g_name b \<noteq> g_name a"
  shows "group_calls (saveRename (Some b) (startRename (Some a) p)) = group_calls p @ [CallRenameGroup (g_id b) (g_name a)]"
  using assms by (simp add: saveRename_def startRename_def gcall_def Let_def)

text \<open>Every request of the dialog ends with its busy flag down, whatever its outcome, except leaving the group.\<close>

lemma dialog_is_not_left_busy:
  "\<not> deletingGroup (group_deleted r p)" "\<not> renamingBusy (group_renamed r p)" "\<not> topicBusy (topic_saved r p)"
  "\<not> groupAvatarBusy (icon_set r p)" "\<not> groupAvatarBusy (icon_removed r p)" "roleBusyID (role_set r p) = None"
  "\<not> addingMembers (members_added r p)" "removingMemberID (member_removed r p) = None"
  by (simp_all add: group_deleted_def group_renamed_def topic_saved_def icon_set_def icon_removed_def role_set_def
      members_added_def member_removed_def gcall_def split: sum.split)

lemma swipe_moves:
  assumes "touch_axis w = Some Vertical"
  shows "dx (fold swipe_move ats w) = dx w"
  using assms
proof (induction ats arbitrary: w)
  case (Cons a ats)
  then have "dx (swipe_move a w) = dx w" "touch_axis (swipe_move a w) = Some Vertical"
    by (auto simp: swipe_move_def Let_def split: option.split prod.split)
  with Cons.IH [of "swipe_move a w"] show ?case by simp
qed simp

lemma swipe_bounds: "0 \<le> dx w \<and> dx w \<le> 90 \<Longrightarrow> 0 \<le> dx (fold swipe_move ats w) \<and> dx (fold swipe_move ats w) \<le> 90"
  by (induction ats arbitrary: w) (auto simp: swipe_move_def Let_def split: option.split prod.split)

text \<open>A touch that starts by scrolling the list never replies, however far it then goes sideways.\<close>

lemma scrolling_does_not_reply:
  assumes "8 < \<bar>snd a\<bar>" "\<bar>fst a\<bar> \<le> \<bar>snd a\<bar>" "w = fold swipe_move (a # ats) (swipe_start (0, 0) still)"
  shows "\<not> fst (swipe_end w)"
proof -
  have "touch_axis (swipe_move a (swipe_start (0, 0) still)) = Some Vertical" "dx (swipe_move a (swipe_start (0, 0) still)) = 0"
    using assms(1,2) by (auto simp: swipe_move_def swipe_start_def still_def Let_def)
  with swipe_moves [of _ ats] assms(3) show ?thesis by (simp add: swipe_end_def)
qed

end
