(* ===== verification/ChatsPage.thy ===== *)
theory ChatsPage
  imports ChatPanelLaws GroupDialog ChatStore Api
begin

text \<open>
  The page of conversations (\<open>pages/Chats.tsx\<close>): the filtered and sorted lists of people and groups with
  their last message, creating a group, and the search through all messages with its delayed request.
  \<open>to_iso\<close> stands for \<open>new Date(\<dots>).toISOString()\<close>.
\<close>

section \<open>The lists\<close>

definition lastOf :: "message list option \<Rightarrow> message option" where
  "lastOf msgs = (case msgs of None \<Rightarrow> None | Some ms \<Rightarrow> if ms = [] then None else Some (last ms))"

definition lastTime :: "message list option \<Rightarrow> ms" where
  "lastTime msgs = (case lastOf msgs of None \<Rightarrow> 0 | Some m \<Rightarrow> nvl (date_parse (sent_at m)) 0)"

text \<open>The comparator of both lists: the conversations with unread messages first, then the latest.\<close>

definition convo_cmp :: "chats \<Rightarrow> ('a \<Rightarrow> convo) \<Rightarrow> 'a \<Rightarrow> 'a \<Rightarrow> int" where
  "convo_cmp s c a b =
     (let ua = nvl (unread s (key (c a))) 0; ub = nvl (unread s (key (c b))) 0;
          msgs = (\<lambda>x. case c x of Dm p \<Rightarrow> messagesByDm s p | GroupConvo g \<Rightarrow> messagesByGroup s g)
      in if (0 < ua) \<noteq> (0 < ub) then (if 0 < ua then - 1 else 1)
         else lastTime (msgs b) - lastTime (msgs a))"

definition filteredUsers :: "int \<Rightarrow> string \<Rightarrow> chats \<Rightarrow> user list \<Rightarrow> user list" where
  "filteredUsers meID search s us =
     js_sort (convo_cmp s (\<lambda>u. Dm (u_id u)))
       (filter (\<lambda>u. if search \<noteq> [] then matches_search search (u_display_name u) (u_username u) else True)
         (filter (\<lambda>u. u_id u \<noteq> meID \<and> \<not> u_disabled u) us))"

definition filteredGroups :: "string \<Rightarrow> chats \<Rightarrow> group list" where
  "filteredGroups search s =
     js_sort (convo_cmp s (\<lambda>g. GroupConvo (g_id g)))
       (filter (\<lambda>g. if search \<noteq> [] then str_includes (js_lower (g_name g)) (js_lower search) else True) (groups s))"

definition modalFilteredUsers :: "int \<Rightarrow> string \<Rightarrow> user list \<Rightarrow> user list" where
  "modalFilteredUsers meID search us =
     filter (\<lambda>u. if search \<noteq> [] then matches_search search (u_display_name u) (u_username u) else True)
       (filter (\<lambda>u. u_id u \<noteq> meID \<and> \<not> u_disabled u) us)"

definition hasDraft :: "storage \<Rightarrow> string \<Rightarrow> bool" where
  "hasDraft st k = (js_trim (loadDraft st k) \<noteq> [])"

text \<open>The line under a person's or a group's name, when there is no draft.\<close>

definition preview_text :: "message \<Rightarrow> string" where
  "preview_text m = (if content m \<noteq> [] then content m
     else case mfile m of Some f \<Rightarrow> if fb_name f \<noteq> [] then fb_name f else ''file'' | None \<Rightarrow> ''file'')"

definition user_line :: "user \<Rightarrow> message option \<Rightarrow> string" where
  "user_line u m = (case m of Some m \<Rightarrow> preview_text m | None \<Rightarrow> ''@'' @ u_username u)"

definition group_line :: "group \<Rightarrow> message option \<Rightarrow> string" where
  "group_line g m = (case m of
     Some m \<Rightarrow> (case sender m of None \<Rightarrow> [] | Some b \<Rightarrow> ub_display_name b) @ '':'' @ preview_text m
   | None \<Rightarrow> show_nat (length (g_members g)) @ '' members'')"

section \<open>The page\<close>

record search_input =
  si_query :: string
  si_sender :: int
  si_since :: string
  si_until :: string
  si_hasFile :: bool

datatype page_call =
    CreateGroup string "int list"
  | FetchGroups
  | OpenConvo convo

record chats_page =
  showNewGroup :: bool
  groupName :: string
  members :: "int list"
  groupError :: "string option"
  creatingGroup :: bool
  mobilePanel :: bool
  showSearch :: bool
  search_in :: search_input
  searchResults :: "message list"
  searching :: bool
  searchError :: "string option"
  searchTimer :: "search_filter option"
  searches :: "search_filter list"
  page_calls :: "page_call list"

definition createGroup :: "chats_page \<Rightarrow> chats_page" where
  "createGroup p =
     (if js_trim (groupName p) = [] \<or> creatingGroup p then p
      else p\<lparr>groupError := None, creatingGroup := True,
             page_calls := page_calls p @ [CreateGroup (js_trim (groupName p)) (members p)]\<rparr>)"

definition group_created :: "outcome \<Rightarrow> chats_page \<Rightarrow> chats_page" where
  "group_created r p =
     (case r of
        Inr _ \<Rightarrow> p\<lparr>showNewGroup := False, groupName := [], members := [], page_calls := page_calls p @ [FetchGroups]\<rparr>
      | Inl e \<Rightarrow> p\<lparr>groupError := Some (nvl e ''Could not create group'')\<rparr>)
     \<lparr>creatingGroup := False\<rparr>"

section \<open>Search\<close>

definition hasFilter :: "search_input \<Rightarrow> bool" where
  "hasFilter i = (2 \<le> length (js_trim (si_query i)) \<or> si_sender i \<noteq> 0 \<or> si_since i \<noteq> [] \<or> si_until i \<noteq> [] \<or> si_hasFile i)"

definition search_filter_of :: "(string \<Rightarrow> string) \<Rightarrow> search_input \<Rightarrow> search_filter" where
  "search_filter_of to_iso i =
     (let q = js_trim (si_query i) in
      \<lparr>sf_q = (if 2 \<le> length q then Some q else None),
       sf_senderId = (if si_sender i \<noteq> 0 then Some (si_sender i) else None),
       sf_since = (if si_since i \<noteq> [] then Some (to_iso (si_since i)) else None),
       sf_until = (if si_until i \<noteq> [] then Some (to_iso (si_until i @ ''T23:59:59'')) else None),
       sf_hasFile = si_hasFile i, sf_limit = None\<rparr>)"

text \<open>An input changes: the effect's cleanup stops the timer, then the effect runs.\<close>

definition search_changed :: "(string \<Rightarrow> string) \<Rightarrow> search_input \<Rightarrow> chats_page \<Rightarrow> chats_page" where
  "search_changed to_iso i p =
     (if \<not> hasFilter i then p\<lparr>search_in := i, searchResults := [], searchError := None, searchTimer := None\<rparr>
      else p\<lparr>search_in := i, searching := True, searchTimer := Some (search_filter_of to_iso i)\<rparr>)"

definition search_timer_fires :: "chats_page \<Rightarrow> chats_page" where
  "search_timer_fires p = (case searchTimer p of
     None \<Rightarrow> p | Some f \<Rightarrow> p\<lparr>searchTimer := None, searches := searches p @ [f]\<rparr>)"

text \<open>A request ends: the messages (an empty list for \<open>null\<close>), or the error's message.\<close>

definition search_answered :: "string option + message list \<Rightarrow> chats_page \<Rightarrow> chats_page" where
  "search_answered r p =
     (case r of Inr ms \<Rightarrow> p\<lparr>searchResults := ms, searchError := None\<rparr>
      | Inl e \<Rightarrow> p\<lparr>searchError := Some (nvl e ''Search failed'')\<rparr>)\<lparr>searching := False\<rparr>"

definition openSearchResult :: "(string \<Rightarrow> string) \<Rightarrow> int \<Rightarrow> message \<Rightarrow> chats_page \<Rightarrow> chats_page" where
  "openSearchResult to_iso meID m p =
     (let to = (if num_truthy (group_id m) then Some (GroupConvo (the (group_id m)))
                else (let peer = (if sender_id m = meID then recipient_id m else Some (sender_id m)) in
                      if num_truthy peer then Some (Dm (the peer)) else None));
          p1 = (case to of None \<Rightarrow> p | Some c \<Rightarrow> p\<lparr>page_calls := page_calls p @ [OpenConvo c]\<rparr>)
      in (if si_query (search_in p1) = [] then p1 else search_changed to_iso ((search_in p1)\<lparr>si_query := []\<rparr>) p1)
         \<lparr>showSearch := False, mobilePanel := True\<rparr>)"

section \<open>Properties\<close>

definition convo_key :: "chats \<Rightarrow> convo \<Rightarrow> bool \<times> int" where
  "convo_key s c = (\<not> 0 < nvl (unread s (key c)) 0,
     - lastTime (case c of Dm p \<Rightarrow> messagesByDm s p | GroupConvo g \<Rightarrow> messagesByGroup s g))"

lemma convo_cmp_key: "(convo_cmp s c a b \<le> 0) = (convo_key s (c a) \<le> convo_key s (c b))"
  by (auto simp: convo_cmp_def convo_key_def Let_def less_eq_prod_def)

text \<open>
  The list of people holds exactly the enabled others whose name contains the search, each as often as the directory
  has them, those with unread messages first and each part by its last message, the latest first; people
  who are level keep the directory's order.
\<close>

theorem people_list_is_sorted:
  "filteredUsers meID search s us =
     sort_key (\<lambda>u. convo_key s (Dm (u_id u))) (filter (\<lambda>u. u_id u \<noteq> meID \<and> \<not> u_disabled u \<and>
       (search = [] \<or> matches_search search (u_display_name u) (u_username u))) us)"
proof -
  have "filter (\<lambda>u. if search \<noteq> [] then matches_search search (u_display_name u) (u_username u) else True)
      (filter (\<lambda>u. u_id u \<noteq> meID \<and> \<not> u_disabled u) us) =
    filter (\<lambda>u. u_id u \<noteq> meID \<and> \<not> u_disabled u \<and> (search = [] \<or> matches_search search (u_display_name u) (u_username u))) us"
    unfolding filter_filter by (rule filter_cong) auto
  then show ?thesis
    unfolding filteredUsers_def by (simp add: js_sort_sort_key [where k = "\<lambda>u. convo_key s (Dm (u_id u))"] convo_cmp_key)
qed

lemma group_list_is_sorted:
  "filteredGroups search s = sort_key (\<lambda>g. convo_key s (GroupConvo (g_id g)))
     (filter (\<lambda>g. if search \<noteq> [] then str_includes (js_lower (g_name g)) (js_lower search) else True) (groups s))"
  unfolding filteredGroups_def
  by (rule js_sort_sort_key) (simp add: convo_cmp_key)

text \<open>A draft typed in the composer is what marks its conversation in the list.\<close>

lemma draft_is_marked:
  assumes "cp_active p = Some c" "\<not> blocked (drafts p)"
  shows "hasDraft (drafts (handleTextChange v p)) (key c) = (js_trim v \<noteq> [])"
  using assms by (simp add: hasDraft_def handleTextChange_def Let_def loadDraft_save)

text \<open>
  Emptying the search before its delay has passed leaves the page searching: the timer is stopped, no
  request is made, and nothing is left that would take the indicator down until another search is made.
\<close>

theorem cleared_search_stays_busy:
  assumes "hasFilter i" "\<not> hasFilter j" "q = search_changed to_iso j (search_changed to_iso i p)"
  shows "searching q \<and> searchTimer q = None \<and> searches q = searches p \<and> search_timer_fires q = q"
  using assms by (simp add: search_changed_def search_timer_fires_def)

definition ex_chats_page :: chats_page where
  "ex_chats_page = \<lparr>showNewGroup = False, groupName = [], members = [], groupError = None, creatingGroup = False, mobilePanel = False,
     showSearch = True, search_in = \<lparr>si_query = [], si_sender = 0, si_since = [], si_until = [], si_hasFile = False\<rparr>,
     searchResults = [], searching = False, searchError = None, searchTimer = None, searches = [], page_calls = []\<rparr>"

theorem cleared_search_stays_busy_witness:
  "searching (search_changed id (search_in ex_chats_page) (search_changed id ((search_in ex_chats_page)\<lparr>si_query := ''hello''\<rparr>) ex_chats_page))"
  using cleared_search_stays_busy [of "(search_in ex_chats_page)\<lparr>si_query := ''hello''\<rparr>" "search_in ex_chats_page" _ id ex_chats_page]
  by (simp add: ex_chats_page_def hasFilter_def js_trim_def js_space_def)

text \<open>An answer is not tied to its query: the last one to arrive is shown, even over an emptied search.\<close>

lemma late_answer_is_shown:
  "\<not> hasFilter i \<Longrightarrow> searchResults (search_answered (Inr ms) (search_changed to_iso i p)) = ms"
  by (simp add: search_answered_def)

text \<open>The line under a name shows the stored text of an encrypted message, which is its ciphertext.\<close>

lemma preview_shows_ciphertext:
  "is_encrypted m \<Longrightarrow> content m \<noteq> [] \<Longrightarrow> user_line u (Some m) = content m"
  by (simp add: user_line_def preview_text_def)

lemma group_is_created_once:
  "creatingGroup p \<Longrightarrow> createGroup p = p" "\<not> creatingGroup (group_created r p)"
  by (simp_all add: createGroup_def group_created_def split: sum.split)

end
