(* ===== verification/Shell.thy ===== *)
theory Shell
  imports Stores Strings
begin

text \<open>
  The frame of the application (\<open>pages/Shell.tsx\<close>): which page is shown, the navigation, the banners
  about the connection and notifications, the total of unread messages, and the user's status with its
  automatic change to away. The effect's closure (its timer, the time of the last activity) is part of
  the record; the handlers of the window's events are functions on it.
\<close>

section \<open>Views\<close>

datatype view = ViewChats | ViewDirectory | ViewCalls | ViewRooms | ViewAdmin | ViewSettings

fun view_text :: "view \<Rightarrow> string" where
  "view_text ViewChats = ''chats''"
| "view_text ViewDirectory = ''directory''"
| "view_text ViewCalls = ''calls''"
| "view_text ViewRooms = ''rooms''"
| "view_text ViewAdmin = ''admin''"
| "view_text ViewSettings = ''settings''"

text \<open>\<open>hash.replace("#", "")\<close> takes away the first \<open>#\<close> only.\<close>

definition parseHash :: "string \<Rightarrow> view" where
  "parseHash full =
     (let hash = remove1 (CHR ''#'') full in
      if hash = ''admin'' \<or> starts_with hash ''admin/'' then ViewAdmin
      else if hash = ''chats'' then ViewChats
      else if hash = ''directory'' then ViewDirectory
      else if hash = ''calls'' then ViewCalls
      else if hash = ''rooms'' then ViewRooms
      else if hash = ''settings'' then ViewSettings
      else ViewChats)"

text \<open>The page in the middle; \<open>None\<close> is an empty one.\<close>

definition shown_page :: "view \<Rightarrow> user \<Rightarrow> view option" where
  "shown_page v u = (if v = ViewAdmin \<and> u_role u \<noteq> RoleAdmin then None else Some v)"

definition navItems :: "user \<Rightarrow> int \<Rightarrow> (view \<times> int option) list" where
  "navItems u unreads =
     [(ViewChats, Some unreads), (ViewDirectory, None), (ViewCalls, None), (ViewRooms, None)] @
     (if u_role u = RoleAdmin then [(ViewAdmin, None)] else []) @ [(ViewSettings, None)]"

definition primaryMobile :: "(view \<times> int option) list \<Rightarrow> (view \<times> int option) list" where
  "primaryMobile nav = filter (\<lambda>n. fst n \<in> {ViewChats, ViewDirectory, ViewCalls, ViewRooms}) nav"

definition moreMobile :: "(view \<times> int option) list \<Rightarrow> (view \<times> int option) list" where
  "moreMobile nav = filter (\<lambda>n. fst n \<in> {ViewAdmin, ViewSettings}) nav"

definition moreActive :: "view \<Rightarrow> bool" where
  "moreActive v = (v = ViewAdmin \<or> v = ViewSettings)"

text \<open>\<open>Object.values(unread)\<close>, as a list.\<close>

definition totalUnread :: "int list \<Rightarrow> int" where
  "totalUnread ns = foldl (+) 0 ns"

definition badge_text :: "int option \<Rightarrow> string option" where
  "badge_text b = (case b of None \<Rightarrow> None | Some n \<Rightarrow> if 0 < n then Some (if 99 < n then ''99+'' else show_int n) else None)"

section \<open>The theme button\<close>

definition theme_order :: "string list" where
  "theme_order = [''dark'', ''light'', ''midnight'', ''sunset'', ''forest'', ''cyberpunk'']"

fun indexOf :: "'a \<Rightarrow> 'a list \<Rightarrow> int" where
  "indexOf x [] = - 1"
| "indexOf x (y # ys) = (if x = y then 0 else (let i = indexOf x ys in if i = - 1 then - 1 else i + 1))"

definition cycleTheme :: "string \<Rightarrow> string" where
  "cycleTheme current = theme_order ! nat ((indexOf current theme_order + 1) mod int (length theme_order))"

section \<open>The status\<close>

record shell =
  sh_view :: view
  sh_hash :: string
  sh_connected :: bool
  sh_replaced :: bool
  sh_presence :: presence_state
  awayRef :: bool
  idleTimer :: bool
  lastActivity :: ms
  askNotify :: bool
  sh_storage :: storage

text \<open>\<open>send\<close> of the effect; the first argument is whether the socket is open.\<close>

definition auto_status :: "bool \<Rightarrow> presence \<Rightarrow> shell \<Rightarrow> shell" where
  "auto_status up status s =
     (if myStatus (sh_presence s) = Dnd then s
      else if awayRef s \<noteq> (status = Away)
      then s\<lparr>awayRef := (status = Away), sh_presence := setMyStatus up status (sh_presence s)\<rparr>
      else s)"

text \<open>\<open>reset\<close>, called by every event of the user and when the effect starts.\<close>

definition user_active :: "bool \<Rightarrow> ms \<Rightarrow> shell \<Rightarrow> shell" where
  "user_active up now s =
     (if now - lastActivity s < 2000 then s
      else (auto_status up Online (s\<lparr>lastActivity := now\<rparr>))\<lparr>idleTimer := True\<rparr>)"

definition idle_fires :: "bool \<Rightarrow> shell \<Rightarrow> shell" where
  "idle_fires up s = (if idleTimer s then auto_status up Away (s\<lparr>idleTimer := False\<rparr>) else s)"

definition pickStatus :: "bool \<Rightarrow> presence \<Rightarrow> shell \<Rightarrow> shell" where
  "pickStatus up status s = s\<lparr>awayRef := (status = Away), sh_presence := setMyStatus up status (sh_presence s)\<rparr>"

section \<open>The rest of the frame\<close>

definition onHashChange :: "shell \<Rightarrow> shell" where
  "onHashChange s = s\<lparr>sh_view := parseHash (sh_hash s)\<rparr>"

definition changeView :: "view \<Rightarrow> shell \<Rightarrow> shell" where
  "changeView v s = s\<lparr>sh_view := v, sh_hash := ''#'' @ view_text v\<rparr>"

definition check_socket :: "bool \<Rightarrow> bool \<Rightarrow> shell \<Rightarrow> shell" where
  "check_socket up was_replaced s = s\<lparr>sh_connected := up, sh_replaced := was_replaced\<rparr>"

datatype banner = NoBanner | ReplacedBanner | LostBanner

definition socket_banner :: "shell \<Rightarrow> banner" where
  "socket_banner s = (if sh_connected s then NoBanner else if sh_replaced s then ReplacedBanner else LostBanner)"

definition notify_key :: string where "notify_key = ''vc.notifyAsked''"

text \<open>The first value of \<open>askNotify\<close>: \<open>can_ask\<close> says that the browser supports notifications and has not decided.\<close>

definition ask_at_start :: "bool \<Rightarrow> storage \<Rightarrow> bool" where
  "ask_at_start can_ask st =
     (can_ask \<and> (case getItem st notify_key of None \<Rightarrow> False | Some v \<Rightarrow> v \<noteq> Some ''1''))"

definition dismissNotify :: "shell \<Rightarrow> shell" where
  "dismissNotify s = s\<lparr>askNotify := False, sh_storage := nvl (setItem (sh_storage s) notify_key ''1'') (sh_storage s)\<rparr>"

text \<open>\<open>Shell\<close> is mounted: a new page, whose socket is \<open>up\<close> or not; \<open>frames\<close> is what this account sent before.\<close>

definition mount_shell :: "bool \<Rightarrow> bool \<Rightarrow> string \<Rightarrow> storage \<Rightarrow> presence list \<Rightarrow> ms \<Rightarrow> shell" where
  "mount_shell up can_ask hash st frames now =
     user_active up now \<lparr>sh_view = parseHash hash, sh_hash = hash, sh_connected = up, sh_replaced = False,
       sh_presence = init_presence\<lparr>presence_frames := frames\<rparr>, awayRef = False, idleTimer = False,
       lastActivity = 0, askNotify = ask_at_start can_ask st, sh_storage = st\<rparr>"

section \<open>The status as a machine\<close>

datatype shell_event =
    UserActive bool ms
  | IdleFires bool
  | PickStatus bool presence
  | HashChange string
  | ChangeView view
  | CheckSocket bool bool
  | DismissNotify

fun shell_step :: "shell_event \<Rightarrow> shell \<Rightarrow> shell" where
  "shell_step (UserActive up now) s = user_active up now s"
| "shell_step (IdleFires up) s = idle_fires up s"
| "shell_step (PickStatus up st) s = pickStatus up st s"
| "shell_step (HashChange h) s = onHashChange (s\<lparr>sh_hash := h\<rparr>)"
| "shell_step (ChangeView v) s = changeView v s"
| "shell_step (CheckSocket up r) s = check_socket up r s"
| "shell_step DismissNotify s = dismissNotify s"

fun socket_open :: "shell_event \<Rightarrow> bool" where
  "socket_open (UserActive up now) = up"
| "socket_open (IdleFires up) = up"
| "socket_open (PickStatus up st) = up"
| "socket_open _ = True"

text \<open>The socket was open if the event changed the status; the user picks one of the three statuses.\<close>

definition heard :: "shell_event \<Rightarrow> shell \<Rightarrow> bool" where
  "heard e s = ((socket_open e \<or> myStatus (sh_presence (shell_step e s)) = myStatus (sh_presence s)) \<and>
     (\<forall>up. e \<noteq> PickStatus up Offline))"

inductive shell_reach :: "shell \<Rightarrow> bool" where
  mounted: "shell_reach (mount_shell up can_ask hash st [] now)"
| step: "shell_reach s \<Longrightarrow> heard e s \<Longrightarrow> shell_reach (shell_step e s)"

text \<open>The status the server keeps for the account: the last one it was sent, online before the first.\<close>

definition server_status :: "shell \<Rightarrow> presence" where
  "server_status s = last (Online # presence_frames (sh_presence s))"

lemmas shell_defs = auto_status_def user_active_def idle_fires_def pickStatus_def onHashChange_def changeView_def
  check_socket_def dismissNotify_def setMyStatus_def

text \<open>
  C29. In a page that was opened without a status sent by this account before, and as long as the socket is open at every
  moment the status changes, the status shown is the status told: in every reachable state the server's last word is the
  user's own status and the flag of the automatic change agrees with it. Do not disturb is left by the user's choice alone.
  Neither condition can be dropped: \<open>reload_leaves_the_old_status\<close> and \<open>choosing_offline_is_not_told\<close> below.
\<close>

theorem status_is_what_the_server_knows:
  assumes "shell_reach s"
  shows "server_status s = myStatus (sh_presence s) \<and> awayRef s = (myStatus (sh_presence s) = Away) \<and>
    (myStatus (sh_presence s) = Dnd \<and> myStatus (sh_presence (shell_step e s)) \<noteq> Dnd \<longrightarrow>
      (\<exists>up st. e = PickStatus up st \<and> st = myStatus (sh_presence (shell_step e s))))"
proof -
  have "server_status s = myStatus (sh_presence s) \<and> awayRef s = (myStatus (sh_presence s) = Away)"
    using assms(1)
  proof induction
    case (mounted up can_ask hash st now)
    then show ?case by (simp add: mount_shell_def shell_defs server_status_def init_presence_def)
  next
    case (step s e)
    then show ?case by (cases e) (auto simp: shell_defs server_status_def heard_def Let_def split: if_splits)
  qed
  moreover have "\<exists>up st. e = PickStatus up st \<and> st = myStatus (sh_presence (shell_step e s))"
    if "myStatus (sh_presence s) = Dnd" "myStatus (sh_presence (shell_step e s)) \<noteq> Dnd"
    using that by (cases e) (auto simp: shell_defs split: if_splits)
  ultimately show ?thesis by blast
qed

definition ex_shell :: shell where
  "ex_shell = mount_shell True False [] \<lparr>blocked = False, items = []\<rparr> [] 5000"

theorem status_is_what_the_server_knows_witness:
  "server_status (shell_step (IdleFires True) ex_shell) = Away \<and> awayRef (shell_step (IdleFires True) ex_shell)"
proof -
  have "shell_reach (shell_step (IdleFires True) ex_shell)"
    unfolding ex_shell_def by (intro shell_reach.intros) (simp add: heard_def)
  then show ?thesis
    using status_is_what_the_server_knows [of "shell_step (IdleFires True) ex_shell" "IdleFires True"]
    by (auto simp: ex_shell_def mount_shell_def shell_defs init_presence_def)
qed

text \<open>
  The server remembers a status over reconnects and reloads (\<open>hub.go\<close>, \<open>rememberStatus\<close>), a new page
  does not ask for it: after a reload the page shows Online while the server goes on saying away or do not disturb to
  everyone else, and whatever the user does without picking a status or falling idle again, the page does not correct it.
\<close>

theorem reload_leaves_the_old_status:
  assumes "last (Online # frames) = old" "s = mount_shell up can_ask hash st frames now"
    and "list_all (\<lambda>e. \<not> (\<exists>u. e = IdleFires u) \<and> \<not> (\<exists>u t. e = PickStatus u t)) es"
  shows "server_status (fold shell_step es s) = old \<and> myStatus (sh_presence (fold shell_step es s)) = Online"
proof -
  have "server_status (fold shell_step es s) = old \<and> myStatus (sh_presence (fold shell_step es s)) = Online \<and>
      \<not> awayRef (fold shell_step es s)"
    if "server_status s = old" "myStatus (sh_presence s) = Online" "\<not> awayRef s" for s
    using assms(3) that
  proof (induction es arbitrary: s)
    case (Cons e es)
    have "\<not> (\<exists>u. e = IdleFires u) \<and> \<not> (\<exists>u t. e = PickStatus u t)" using Cons.prems(1) by simp
    then have "server_status (shell_step e s) = old \<and> myStatus (sh_presence (shell_step e s)) = Online \<and> \<not> awayRef (shell_step e s)"
      using Cons.prems(2-4) by (cases e) (simp_all add: shell_defs server_status_def split: if_splits)
    with Cons.IH [of "shell_step e s"] Cons.prems(1) show ?case by simp
  qed simp
  moreover have "server_status s = old" "myStatus (sh_presence s) = Online" "\<not> awayRef s"
    using assms(1,2) by (auto simp: mount_shell_def shell_defs server_status_def init_presence_def)
  ultimately show ?thesis by blast
qed

theorem reload_leaves_the_old_status_witness:
  "server_status (fold shell_step [UserActive True 9000, UserActive True 99000]
     (mount_shell True False [] \<lparr>blocked = False, items = []\<rparr> [Away] 5000)) = Away"
  using reload_leaves_the_old_status [of "[Away]" Away _ True False "[]" "\<lparr>blocked = False, items = []\<rparr>" 5000
      "[UserActive True 9000, UserActive True 99000]"] by simp

text \<open>A status chosen while the socket is down is shown and never sent, not even when the socket comes back.\<close>

lemma choosing_offline_is_not_told:
  assumes "st \<noteq> Offline" "st \<noteq> Away"
  shows "myStatus (sh_presence (fold shell_step [PickStatus False st, CheckSocket True r, UserActive True now] s)) = st \<and>
    server_status (fold shell_step [PickStatus False st, CheckSocket True r, UserActive True now] s) = server_status s"
  using assms by (auto simp: shell_defs server_status_def Let_def)

section \<open>Navigation\<close>

text \<open>The page a click opens is the page its address opens again.\<close>

lemma view_survives_reload: "parseHash (sh_hash (changeView v s)) = v" "sh_view (onHashChange (changeView v s)) = v"
  by (cases v; simp add: changeView_def onHashChange_def parseHash_def starts_with_def)+

lemma navigation_shows_every_item: "set (primaryMobile (navItems u n)) \<union> set (moreMobile (navItems u n)) = set (navItems u n)"
  by (auto simp: navItems_def primaryMobile_def moreMobile_def)

lemma navigation_has_no_dead_ends: "(v, b) \<in> set (navItems u n) \<Longrightarrow> shown_page v u = Some v"
  by (auto simp: navItems_def shown_page_def split: if_splits)

lemma themes_cycle: "t \<in> set theme_order \<Longrightarrow> (cycleTheme ^^ 6) t = t"
proof -
  have "list_all (\<lambda>t. (cycleTheme ^^ 6) t = t) theme_order" by code_simp
  then show "t \<in> set theme_order \<Longrightarrow> (cycleTheme ^^ 6) t = t" by (simp add: list_all_iff)
qed

lemma theme_order_is_THEMES: "theme_order = map tm_id THEMES"
  by (simp add: theme_order_def THEMES_def)

lemma dismissed_is_not_asked_again:
  "\<not> blocked (sh_storage s) \<Longrightarrow> \<not> ask_at_start can_ask (sh_storage (dismissNotify s))"
  by (simp add: ask_at_start_def dismissNotify_def getItem_def setItem_def jm.get_put)

lemma totalUnread_sum: "totalUnread ns = sum_list ns"
proof -
  have "foldl (+) a ns = a + sum_list ns" for a by (induction ns arbitrary: a) simp_all
  then show ?thesis by (simp add: totalUnread_def)
qed

end
