(* ===== verification/Gestures.thy ===== *)
theory Gestures
  imports JsMap Complex_Main
begin

text \<open>
  The two gestures of the call view (\<open>components/CallOverlay.tsx\<close>): the draggable, resizable picture of the
  user (\<open>DraggablePiP\<close>) and the zoomable video (\<open>ZoomableVideo\<close>). Positions are rationals, \<open>hyp\<close> is
  \<open>Math.hypot\<close>. The sizes of the surrounding elements are read from the page at every event; they are
  an argument.
\<close>

type_synonym point = "rat \<times> rat"

text \<open>The client size of an element, and where it stands in the window.\<close>

record box =
  b_width :: rat
  b_height :: rat
  b_left :: rat
  b_top :: rat

definition pinchDistance :: "(rat \<Rightarrow> rat \<Rightarrow> rat) \<Rightarrow> (int, point) jsmap \<Rightarrow> rat" where
  "pinchDistance hyp pointers = (case jm_values pointers of
     a # b # r \<Rightarrow> hyp (fst a - fst b) (snd a - snd b)
   | _ \<Rightarrow> 0)"

section \<open>The picture of the user\<close>

definition PIP_MIN_WIDTH :: rat where "PIP_MIN_WIDTH = 112"
definition PIP_MAX_WIDTH :: rat where "PIP_MAX_WIDTH = 320"
definition PIP_DEFAULT_WIDTH :: rat where "PIP_DEFAULT_WIDTH = 160"

record pip =
  pip_pos :: "point option"
  pip_width :: rat
  dragOffset :: "point option"
  pip_pointers :: "(int, point) jsmap"
  pip_pinch :: "(rat \<times> rat) option"

definition new_pip :: pip where
  "new_pip = \<lparr>pip_pos = None, pip_width = PIP_DEFAULT_WIDTH, dragOffset = None, pip_pointers = [], pip_pinch = None\<rparr>"

definition clampPos :: "box \<Rightarrow> rat \<Rightarrow> point \<Rightarrow> point" where
  "clampPos parent w p =
     (let h = w / (16 / 9);
          maxX = max 8 (b_width parent - w - 8);
          maxY = max 8 (b_height parent - h - 8)
      in (min (max (fst p) 8) maxX, min (max (snd p) 8) maxY))"

text \<open>\<open>el\<close> is where the picture stands.\<close>

definition pip_down :: "(rat \<Rightarrow> rat \<Rightarrow> rat) \<Rightarrow> box \<Rightarrow> point \<Rightarrow> int \<Rightarrow> point \<Rightarrow> pip \<Rightarrow> pip" where
  "pip_down hyp parent el pid c p =
     (let ps = jm_set pid c (pip_pointers p); p1 = p\<lparr>pip_pointers := ps\<rparr> in
      if jm_size ps = 2
      then p1\<lparr>dragOffset := None, pip_pinch := Some (pinchDistance hyp ps, pip_width p)\<rparr>
      else p1\<lparr>dragOffset := Some (fst c - fst el, snd c - snd el),
              pip_pos := (if pip_pos p = None
                then Some (clampPos parent (pip_width p) (fst el - b_left parent, snd el - b_top parent)) else pip_pos p)\<rparr>)"

definition pip_move :: "(rat \<Rightarrow> rat \<Rightarrow> rat) \<Rightarrow> box \<Rightarrow> int \<Rightarrow> point \<Rightarrow> pip \<Rightarrow> pip" where
  "pip_move hyp parent pid c p =
     (if \<not> jm_has (pip_pointers p) pid then p
      else
        (let ps = jm_set pid c (pip_pointers p); p1 = p\<lparr>pip_pointers := ps\<rparr> in
         case (if jm_size ps = 2 then pip_pinch p else None) of
           Some (d0, w0) \<Rightarrow>
             (let dist = pinchDistance hyp ps in
              if 0 < dist \<and> 0 < d0
              then (let nextWidth = min PIP_MAX_WIDTH (max PIP_MIN_WIDTH (w0 * (dist / d0)))
                    in p1\<lparr>pip_width := nextWidth, pip_pos := map_option (clampPos parent nextWidth) (pip_pos p)\<rparr>)
              else p1)
         | None \<Rightarrow>
             (case dragOffset p of
                None \<Rightarrow> p1
              | Some (dx, dy) \<Rightarrow>
                  p1\<lparr>pip_pos := Some (clampPos parent (pip_width p) (fst c - b_left parent - dx, snd c - b_top parent - dy))\<rparr>)))"

definition snap :: "box \<Rightarrow> rat \<Rightarrow> point \<Rightarrow> point" where
  "snap parent w p =
     (let h = w / (16 / 9) in
      (if fst p + w / 2 < b_width parent / 2 then 8 else max 8 (b_width parent - w - 8),
       if snd p + h / 2 < b_height parent / 2 then 8 else max 8 (b_height parent - h - 8)))"

definition pip_end :: "box \<Rightarrow> int \<Rightarrow> pip \<Rightarrow> pip" where
  "pip_end parent pid p =
     (let ps = jm_delete pid (pip_pointers p);
          p1 = p\<lparr>pip_pointers := ps, pip_pinch := (if jm_size ps < 2 then None else pip_pinch p)\<rparr>
      in if 0 < jm_size ps then p1
         else p1\<lparr>dragOffset := None, pip_pos := map_option (snap parent (pip_width p)) (pip_pos p)\<rparr>)"

section \<open>The zoomable video\<close>

definition ZOOM_MIN :: rat where "ZOOM_MIN = 1"
definition ZOOM_MAX :: rat where "ZOOM_MAX = 4"

record zoom =
  z_scale :: rat
  z_pos :: point
  z_pointers :: "(int, point) jsmap"
  z_pinch :: "(rat \<times> rat) option"
  z_drag :: "(point \<times> point) option"
  lastTap :: int

definition new_zoom :: zoom where
  "new_zoom = \<lparr>z_scale = 1, z_pos = (0, 0), z_pointers = [], z_pinch = None, z_drag = None, lastTap = 0\<rparr>"

definition zoom_clamp :: "box \<Rightarrow> point \<Rightarrow> rat \<Rightarrow> point" where
  "zoom_clamp el p s =
     (if s \<le> 1 then (0, 0)
      else (let maxX = b_width el * (s - 1) / 2; maxY = b_height el * (s - 1) / 2
            in (min (max (fst p) (- maxX)) maxX, min (max (snd p) (- maxY)) maxY)))"

definition zoom_reset :: "zoom \<Rightarrow> zoom" where
  "zoom_reset z = z\<lparr>z_scale := 1, z_pos := (0, 0)\<rparr>"

definition zoom_down :: "(rat \<Rightarrow> rat \<Rightarrow> rat) \<Rightarrow> int \<Rightarrow> int \<Rightarrow> point \<Rightarrow> zoom \<Rightarrow> zoom" where
  "zoom_down hyp now pid c z =
     (let ps = jm_set pid c (z_pointers z); z1 = z\<lparr>z_pointers := ps\<rparr> in
      if jm_size ps = 2 then z1\<lparr>z_drag := None, z_pinch := Some (pinchDistance hyp ps, z_scale z)\<rparr>
      else if jm_size ps = 1
      then (let z2 = z1\<lparr>z_drag := Some (z_pos z, c)\<rparr> in
            if now - lastTap z < 300 then (zoom_reset z2)\<lparr>lastTap := 0\<rparr> else z2\<lparr>lastTap := now\<rparr>)
      else z1)"

definition zoom_move :: "(rat \<Rightarrow> rat \<Rightarrow> rat) \<Rightarrow> box \<Rightarrow> int \<Rightarrow> point \<Rightarrow> zoom \<Rightarrow> zoom" where
  "zoom_move hyp el pid c z =
     (if \<not> jm_has (z_pointers z) pid then z
      else
        (let ps = jm_set pid c (z_pointers z); z1 = z\<lparr>z_pointers := ps\<rparr> in
         case (if jm_size ps = 2 then z_pinch z else None) of
           Some (d0, s0) \<Rightarrow>
             (let d = pinchDistance hyp ps in
              if 0 < d \<and> 0 < d0
              then (let nextScale = min ZOOM_MAX (max ZOOM_MIN (s0 * (d / d0)))
                    in z1\<lparr>z_scale := nextScale, z_pos := zoom_clamp el (z_pos z) nextScale\<rparr>)
              else z1)
         | None \<Rightarrow>
             (case z_drag z of
                None \<Rightarrow> z1
              | Some ((x, y), (sx, sy)) \<Rightarrow>
                  if z_scale z \<le> 1 then z1
                  else z1\<lparr>z_pos := zoom_clamp el (x + (fst c - sx), y + (snd c - sy)) (z_scale z)\<rparr>)))"

definition zoom_end :: "int \<Rightarrow> zoom \<Rightarrow> zoom" where
  "zoom_end pid z =
     (let ps = jm_delete pid (z_pointers z) in
      z\<lparr>z_pointers := ps, z_pinch := (if jm_size ps < 2 then None else z_pinch z),
        z_drag := (if jm_size ps = 0 then None else z_drag z)\<rparr>)"

text \<open>The button \<open>Reset zoom\<close> and its text, in percent.\<close>

definition zoom_label :: "zoom \<Rightarrow> int option" where
  "zoom_label z = (if 1 < z_scale z then Some \<lfloor>z_scale z * 100 + 1 / 2\<rfloor> else None)"

section \<open>Sequences of events\<close>

datatype gesture = Down int int point point | Move int point | Up int | DoubleClick

fun pip_step :: "(rat \<Rightarrow> rat \<Rightarrow> rat) \<Rightarrow> box \<Rightarrow> gesture \<Rightarrow> pip \<Rightarrow> pip" where
  "pip_step hyp b (Down now pid el c) p = pip_down hyp b el pid c p"
| "pip_step hyp b (Move pid c) p = pip_move hyp b pid c p"
| "pip_step hyp b (Up pid) p = pip_end b pid p"
| "pip_step hyp b DoubleClick p = p"

fun zoom_step :: "(rat \<Rightarrow> rat \<Rightarrow> rat) \<Rightarrow> box \<Rightarrow> gesture \<Rightarrow> zoom \<Rightarrow> zoom" where
  "zoom_step hyp b (Down now pid el c) z = zoom_down hyp now pid c z"
| "zoom_step hyp b (Move pid c) z = zoom_move hyp b pid c z"
| "zoom_step hyp b (Up pid) z = zoom_end pid z"
| "zoom_step hyp b DoubleClick z = zoom_reset z"

definition inside :: "box \<Rightarrow> rat \<Rightarrow> point \<Rightarrow> bool" where
  "inside b w p = (8 \<le> fst p \<and> fst p \<le> max 8 (b_width b - w - 8) \<and>
     8 \<le> snd p \<and> snd p \<le> max 8 (b_height b - w / (16 / 9) - 8))"

definition pip_ok :: "box \<Rightarrow> pip \<Rightarrow> bool" where
  "pip_ok b p = (PIP_MIN_WIDTH \<le> pip_width p \<and> pip_width p \<le> PIP_MAX_WIDTH \<and>
     (pip_pos p = None \<or> inside b (pip_width p) (the (pip_pos p))))"

lemma inside_clamp [simp]: "inside b w (clampPos b w q)"
  by (auto simp: inside_def clampPos_def Let_def)

lemma inside_snap [simp]: "inside b w (snap b w q)"
  by (auto simp: inside_def snap_def Let_def)

lemma pip_ok_down: "pip_ok b p \<Longrightarrow> pip_ok b (pip_down hyp b el pid c p)"
  by (auto simp: pip_ok_def pip_down_def Let_def split: option.splits)

lemma pip_width_range: "PIP_MIN_WIDTH \<le> min PIP_MAX_WIDTH (max PIP_MIN_WIDTH x) \<and> min PIP_MAX_WIDTH (max PIP_MIN_WIDTH x) \<le> PIP_MAX_WIDTH"
  by (simp add: PIP_MIN_WIDTH_def PIP_MAX_WIDTH_def)

lemma pip_ok_move: "pip_ok b p \<Longrightarrow> pip_ok b (pip_move hyp b pid c p)"
  using pip_width_range
  by (cases "pip_pos p") (auto simp: pip_ok_def pip_move_def Let_def split: option.splits prod.splits)

lemma pip_ok_end: "pip_ok b p \<Longrightarrow> pip_ok b (pip_end b pid p)"
  by (cases "pip_pos p") (auto simp: pip_ok_def pip_end_def Let_def)

lemma pip_ok_step: "pip_ok b p \<Longrightarrow> pip_ok b (pip_step hyp b g p)"
  by (cases g) (simp_all add: pip_ok_down pip_ok_move pip_ok_end)

lemma pip_ok_run: "pip_ok b p \<Longrightarrow> pip_ok b (fold (pip_step hyp b) gs p)"
  by (induction gs arbitrary: p) (auto intro: pip_ok_step)

text \<open>The view around the picture may change its size at any time; nothing in \<open>DraggablePiP\<close> reacts to that.\<close>

datatype pip_event = Gesture gesture | Resize box

fun pip_event_step :: "(rat \<Rightarrow> rat \<Rightarrow> rat) \<Rightarrow> pip_event \<Rightarrow> box \<times> pip \<Rightarrow> box \<times> pip" where
  "pip_event_step hyp (Gesture g) (b, p) = (b, pip_step hyp b g p)"
| "pip_event_step hyp (Resize b') (b, p) = (b', p)"

definition width_ok :: "pip \<Rightarrow> bool" where
  "width_ok p = (PIP_MIN_WIDTH \<le> pip_width p \<and> pip_width p \<le> PIP_MAX_WIDTH)"

lemma width_ok_step: "width_ok p \<Longrightarrow> width_ok (pip_step hyp b g p)"
  using pip_width_range
  by (cases g) (auto simp: width_ok_def pip_down_def pip_move_def pip_end_def Let_def split: option.splits prod.splits)

lemma width_ok_gestures: "width_ok p \<Longrightarrow> width_ok (fold (pip_step hyp b) gs p)"
  by (induction gs arbitrary: p) (auto intro: width_ok_step)

lemma width_ok_events: "width_ok (snd w) \<Longrightarrow> width_ok (snd (fold (pip_event_step hyp) es w))"
proof (induction es arbitrary: w)
  case (Cons e es)
  have "width_ok (snd (pip_event_step hyp e w))"
    using Cons.prems width_ok_step by (cases e; cases w) simp_all
  then show ?case using Cons.IH by simp
qed simp

lemma pip_ok_start: "width_ok p \<Longrightarrow> pip_pos p = None \<Longrightarrow> pip_ok b p"
  by (simp add: width_ok_def pip_ok_def)

text \<open>Lifting the last finger puts the picture back into the view of the moment.\<close>

lemma pip_ok_released: "width_ok p \<Longrightarrow> jm_size (jm_delete pid (pip_pointers p)) = 0 \<Longrightarrow> pip_ok b (pip_end b pid p)"
  by (cases "pip_pos p") (auto simp: width_ok_def pip_ok_def pip_end_def Let_def)

text \<open>
  C30. The width of the user's own picture stays between 112 and 320 pixels whatever is dragged and pinched and however the
  view is resized meanwhile. The whole picture is in the view, eight pixels from its edges, whenever the view has room for it
  and, since the view last changed its size (after the events \<open>es\<close>), either the picture has not been dragged before or
  the last finger has been lifted once: letting go puts it back, every later gesture keeps it there.
\<close>

theorem own_picture_stays_in_view:
  assumes "fold (pip_event_step hyp) es (b0, new_pip) = (b, p0)" "p = fold (pip_step hyp b) gs p0"
    and "pip_pos p0 = None \<or>
      (\<exists>gs1 pid gs2. gs = gs1 @ Up pid # gs2 \<and> jm_size (jm_delete pid (pip_pointers (fold (pip_step hyp b) gs1 p0))) = 0)"
  shows "112 \<le> pip_width p \<and> pip_width p \<le> 320 \<and>
    (\<forall>x y. pip_pos p = Some (x, y) \<and> pip_width p + 16 \<le> b_width b \<and> pip_width p / (16 / 9) + 16 \<le> b_height b \<longrightarrow>
      8 \<le> x \<and> x + pip_width p + 8 \<le> b_width b \<and> 8 \<le> y \<and> y + pip_width p / (16 / 9) + 8 \<le> b_height b)"
proof -
  have "width_ok new_pip" by (simp add: width_ok_def new_pip_def PIP_MIN_WIDTH_def PIP_MAX_WIDTH_def PIP_DEFAULT_WIDTH_def)
  then have w: "width_ok p0" using width_ok_events [of "(b0, new_pip)" hyp es] assms(1) by simp
  have "pip_ok b p"
    using assms(3)
  proof
    assume "pip_pos p0 = None"
    then show ?thesis using w pip_ok_start pip_ok_run assms(2) by simp
  next
    assume "\<exists>gs1 pid gs2. gs = gs1 @ Up pid # gs2 \<and> jm_size (jm_delete pid (pip_pointers (fold (pip_step hyp b) gs1 p0))) = 0"
    then obtain gs1 pid gs2 where gs: "gs = gs1 @ Up pid # gs2"
      "jm_size (jm_delete pid (pip_pointers (fold (pip_step hyp b) gs1 p0))) = 0" by blast
    then have "pip_ok b (pip_end b pid (fold (pip_step hyp b) gs1 p0))"
      using w width_ok_gestures pip_ok_released by blast
    then show ?thesis using pip_ok_run by (simp add: assms(2) gs(1))
  qed
  then show ?thesis by (auto simp: pip_ok_def inside_def PIP_MIN_WIDTH_def PIP_MAX_WIDTH_def max_def split: if_splits)
qed

definition ex_box :: box where
  "ex_box = \<lparr>b_width = 800, b_height = 600, b_left = 0, b_top = 0\<rparr>"

definition manhattan :: "rat \<Rightarrow> rat \<Rightarrow> rat" where "manhattan x y = \<bar>x\<bar> + \<bar>y\<bar>"

lemma ex_drag: "fold (pip_step manhattan ex_box) [Down 0 1 (600, 400) (610, 410), Move 1 (9000, 20), Up 1] new_pip =
  \<lparr>pip_pos = Some (632, 8), pip_width = 160, dragOffset = None, pip_pointers = [], pip_pinch = None\<rparr>"
  by (simp add: ex_box_def new_pip_def pip_down_def pip_move_def pip_end_def PIP_DEFAULT_WIDTH_def clampPos_def snap_def Let_def
      jm_size_def jm_has_def jm_get_def jm_delete_def)

lemma ex_box_dims [simp]: "b_width ex_box = 800" "b_height ex_box = 600"
  by (simp_all add: ex_box_def)

theorem own_picture_stays_in_view_witness:
  "pip_width (fold (pip_step manhattan ex_box) [Down 0 1 (600, 400) (610, 410), Move 1 (9000, 20), Up 1] new_pip) \<le> 320"
proof -
  have e: "fold (pip_event_step manhattan) [Resize ex_box] (ex_box\<lparr>b_width := 400\<rparr>, new_pip) = (ex_box, new_pip)" by simp
  show ?thesis
    using own_picture_stays_in_view [OF e refl, of "[Down 0 1 (600, 400) (610, 410), Move 1 (9000, 20), Up 1]"]
    by (simp add: new_pip_def)
qed

text \<open>
  Until then it can be out of reach: dragged to the right edge of a wide view it is cut off altogether when the view
  becomes narrow (a phone is turned), and touching it is what it would take to bring it back.
\<close>

lemma resizing_loses_the_picture:
  defines "w \<equiv> fold (pip_event_step manhattan)
     [Gesture (Down 0 1 (600, 400) (610, 410)), Gesture (Move 1 (9000, 20)), Gesture (Up 1), Resize (ex_box\<lparr>b_width := 360\<rparr>)]
     (ex_box, new_pip)"
  shows "pip_pos (snd w) = Some (632, 8) \<and> b_width (fst w) = 360 \<and> pip_width (snd w) = 160"
proof -
  have "w = (ex_box\<lparr>b_width := 360\<rparr>, fold (pip_step manhattan ex_box)
      [Down 0 1 (600, 400) (610, 410), Move 1 (9000, 20), Up 1] new_pip)" by (simp add: w_def)
  then show ?thesis unfolding ex_drag by simp
qed

text \<open>Letting go snaps the picture to a corner.\<close>

lemma picture_snaps_to_a_corner:
  assumes "jm_size (jm_delete pid (pip_pointers p)) = 0" "pip_pos (pip_end b pid p) = Some (x, y)"
  shows "x \<in> {8, max 8 (b_width b - pip_width p - 8)} \<and> y \<in> {8, max 8 (b_height b - pip_width p / (16 / 9) - 8)}"
  using assms by (auto simp: pip_end_def snap_def Let_def)

section \<open>Zoom\<close>

definition zoom_ok :: "box \<Rightarrow> zoom \<Rightarrow> bool" where
  "zoom_ok b z = (1 \<le> z_scale z \<and> z_scale z \<le> 4 \<and> \<bar>fst (z_pos z)\<bar> \<le> b_width b * (z_scale z - 1) / 2 \<and>
     \<bar>snd (z_pos z)\<bar> \<le> b_height b * (z_scale z - 1) / 2)"

lemma clamp_abs: "0 \<le> m \<Longrightarrow> \<bar>min (max x (- m)) m\<bar> \<le> (m :: rat)"
  by (auto simp: abs_le_iff min_def max_def)

lemma zoom_ok_clamp:
  assumes "0 \<le> b_width b" "0 \<le> b_height b" "1 \<le> s" "s \<le> 4" "z_scale z = s" "z_pos z = zoom_clamp b q s"
  shows "zoom_ok b z"
  using assms clamp_abs [of "b_width b * (s - 1) / 2" "fst q"] clamp_abs [of "b_height b * (s - 1) / 2" "snd q"]
  by (auto simp: zoom_ok_def zoom_clamp_def Let_def)

lemma zoom_range: "1 \<le> min ZOOM_MAX (max ZOOM_MIN x)" "min ZOOM_MAX (max ZOOM_MIN x) \<le> 4"
  by (simp_all add: ZOOM_MIN_def ZOOM_MAX_def)

lemma zoom_move_result:
  "(z_scale (zoom_move hyp el pid c z) = z_scale z \<and>
      (z_pos (zoom_move hyp el pid c z) = z_pos z \<or> (\<exists>q. z_pos (zoom_move hyp el pid c z) = zoom_clamp el q (z_scale z)))) \<or>
   (\<exists>s q. 1 \<le> s \<and> s \<le> 4 \<and> z_scale (zoom_move hyp el pid c z) = s \<and> z_pos (zoom_move hyp el pid c z) = zoom_clamp el q s)"
proof (cases "jm_has (z_pointers z) pid \<and> jm_size (jm_set pid c (z_pointers z)) = 2 \<and> z_pinch z \<noteq> None")
  case True
  then obtain d0 s0 where "z_pinch z = Some (d0, s0)" by auto
  with True show ?thesis using zoom_range by (cases "z_pos z") (auto simp: zoom_move_def Let_def)
next
  case False
  then show ?thesis by (auto simp: zoom_move_def Let_def split: option.split prod.split)
qed

lemma zoom_ok_step:
  assumes "0 \<le> b_width b" "0 \<le> b_height b" "zoom_ok b z"
  shows "zoom_ok b (zoom_step hyp b g z)"
proof (cases g)
  case (Down now pid el c)
  then show ?thesis using assms by (auto simp: zoom_down_def zoom_reset_def zoom_ok_def Let_def)
next
  case (Move pid c)
  have "1 \<le> z_scale z" "z_scale z \<le> 4" using assms(3) by (auto simp: zoom_ok_def)
  then show ?thesis
    using zoom_move_result [of hyp b pid c z] zoom_ok_clamp [OF assms(1,2)] assms(3) unfolding Move zoom_step.simps
    by (auto simp: zoom_ok_def)
next
  case (Up pid)
  then show ?thesis using assms by (simp add: zoom_end_def zoom_ok_def Let_def)
next
  case DoubleClick
  then show ?thesis by (simp add: zoom_reset_def zoom_ok_def)
qed

lemma zoom_ok_run:
  assumes "0 \<le> b_width b" "0 \<le> b_height b"
  shows "zoom_ok b z \<Longrightarrow> zoom_ok b (fold (zoom_step hyp b) gs z)"
  by (induction gs arbitrary: z) (auto intro: zoom_ok_step [OF assms])

text \<open>
  A zoomed video never leaves a gap: the zoom stays between one and four times, and the picture, scaled about its
  centre and moved, covers the view on every side.
\<close>

lemma zoomed_video_covers_the_view:
  assumes "0 \<le> b_width b" "0 \<le> b_height b" "z = fold (zoom_step hyp b) gs new_zoom"
  shows "1 \<le> z_scale z \<and> z_scale z \<le> 4 \<and>
    fst (z_pos z) - b_width b * (z_scale z - 1) / 2 \<le> 0 \<and> b_width b \<le> fst (z_pos z) + b_width b * (z_scale z + 1) / 2 \<and>
    snd (z_pos z) - b_height b * (z_scale z - 1) / 2 \<le> 0 \<and> b_height b \<le> snd (z_pos z) + b_height b * (z_scale z + 1) / 2"
proof -
  have "zoom_ok b new_zoom" by (simp add: zoom_ok_def new_zoom_def)
  then have "zoom_ok b z" unfolding assms(3) by (rule zoom_ok_run [OF assms(1,2)])
  then show ?thesis by (auto simp: zoom_ok_def abs_le_iff field_simps)
qed

end
