(* ===== verification/Recording.thy ===== *)
theory Recording
  imports JsMap Rtc CallStore Complex_Main
begin

text \<open>
  Recording a call on the own device (\<open>useCallRecording\<close> in \<open>components/CallOverlay.tsx\<close>): the tiles, the
  pool of hidden video elements and audio nodes kept in step with them, the grid the tiles are drawn in, and the life
  of the recorder. The browser's abilities are arguments; what is drawn, saved and released is logged.
\<close>

section \<open>Tiles\<close>

record record_tile =
  t_id :: string
  t_name :: string
  t_video :: "track option"
  t_audio :: "track option"

definition stream_video :: "stream option \<Rightarrow> track option" where
  "stream_video st = (case st of None \<Rightarrow> None | Some ts \<Rightarrow> first_track (getVideoTracks ts))"

definition stream_audio :: "stream option \<Rightarrow> track option" where
  "stream_audio st = (case st of None \<Rightarrow> None | Some ts \<Rightarrow> first_track (getAudioTracks ts))"

definition my_video :: "calls \<Rightarrow> track option" where
  "my_video s = (if sharing s then stream_video (localScreenStream s) else if camOn s then stream_video (localStream s) else None)"

definition remote_of :: "calls \<Rightarrow> int \<Rightarrow> (remote_tracks \<Rightarrow> track option) \<Rightarrow> track option" where
  "remote_of s u f = (case remoteTracks s u of None \<Rightarrow> None | Some ts \<Rightarrow> f ts)"

definition tiles :: "int \<Rightarrow> string \<Rightarrow> calls \<Rightarrow> record_tile list" where
  "tiles meID myName s =
     (if mode s = Sfu
      then map (\<lambda>p.
        let isMe = (p_user_id p = meID) in
        \<lparr>t_id = show_int (p_user_id p),
         t_name = (if isMe then p_display_name p @ '' (you)'' else p_display_name p),
         t_video = (if isMe then my_video s
           else if p_screen p then remote_of s (p_user_id p) rt_screen
           else if p_video_on p then remote_of s (p_user_id p) rt_cam else None),
         t_audio = (if isMe then stream_audio (localStream s) else remote_of s (p_user_id p) rt_mic)\<rparr>)
        (participants s)
      else
        \<lparr>t_id = ''me'', t_name = myName @ '' (you)'', t_video = my_video s, t_audio = stream_audio (localStream s)\<rparr> #
        (case peer s of None \<Rightarrow> []
         | Some p \<Rightarrow> [\<lparr>t_id = ''peer'', t_name = ub_display_name p, t_video = stream_video (remoteStream s),
             t_audio = stream_audio (remoteStream s)\<rparr>]))"

section \<open>The grid\<close>

definition RECORD_W :: rat where "RECORD_W = 1280"
definition RECORD_H :: rat where "RECORD_H = 720"

text \<open>\<open>Math.ceil(Math.sqrt(n))\<close>: the least number whose square is not below \<open>n\<close>.\<close>

definition ceil_sqrt :: "nat \<Rightarrow> nat" where
  "ceil_sqrt n = (case find (\<lambda>c. n \<le> c * c) [0..<Suc n] of Some c \<Rightarrow> c | None \<Rightarrow> 0)"

definition grid_cols :: "nat \<Rightarrow> nat" where "grid_cols len = ceil_sqrt (max 1 len)"
definition grid_rows :: "nat \<Rightarrow> nat" where
  "grid_rows len = (max 1 len + grid_cols len - 1) div grid_cols len"

definition cellW :: "nat \<Rightarrow> rat" where "cellW len = RECORD_W / of_nat (grid_cols len)"
definition cellH :: "nat \<Rightarrow> rat" where "cellH len = RECORD_H / of_nat (grid_rows len)"

definition cell :: "nat \<Rightarrow> nat \<Rightarrow> rat \<times> rat" where
  "cell len i = (of_nat (i mod grid_cols len) * cellW len, of_nat (i div grid_cols len) * cellH len)"

text \<open>Where a video of the given size is drawn: left, top, width, height. A size of 0 counts as 16 or 9.\<close>

definition draw_rect :: "nat \<Rightarrow> nat \<Rightarrow> nat \<Rightarrow> nat \<Rightarrow> rat \<times> rat \<times> rat \<times> rat" where
  "draw_rect len i videoWidth videoHeight =
     (let (x, y) = cell len i;
          vw = of_nat (if videoWidth = 0 then 16 else videoWidth) :: rat;
          vh = of_nat (if videoHeight = 0 then 9 else videoHeight) :: rat;
          scale = min (cellW len / vw) (cellH len / vh);
          dw = vw * scale; dh = vh * scale
      in (x + (cellW len - dw) / 2, y + (cellH len - dh) / 2, dw, dh))"

section \<open>The recorder\<close>

datatype rec_eff =
    PlayVideo track
  | DropVideo track
  | ConnectAudio track
  | DisconnectAudio track
  | CloseAudioContext
  | StopOutTracks
  | CancelFrame
  | DrawFrame
  | StopRecorder
  | SaveFile "string list" string
  | LogError

datatype rec_state = RecNone | RecRunning | RecInactive

record recording =
  rec_on :: bool
  recordError :: "string option"
  rec_recorder :: rec_state
  rec_mime :: string
  chunks :: "string list"
  canvas :: bool
  audioCtx :: bool
  outTracks :: bool
  videoEls :: "track list"
  audioNodes :: "track list"
  rec_tiles :: "record_tile list"
  rec_mounted :: bool
  rec_log :: "rec_eff list"

definition rlog :: "rec_eff list \<Rightarrow> recording \<Rightarrow> recording" where
  "rlog es r = r\<lparr>rec_log := rec_log r @ es\<rparr>"

definition new_recording :: recording where
  "new_recording = \<lparr>rec_on = False, recordError = None, rec_recorder = RecNone, rec_mime = [], chunks = [], canvas = False,
     audioCtx = False, outTracks = False, videoEls = [], audioNodes = [], rec_tiles = [], rec_mounted = True, rec_log = []\<rparr>"

definition wanted :: "(record_tile \<Rightarrow> track option) \<Rightarrow> record_tile list \<Rightarrow> track list" where
  "wanted f ts = remdups (concat (map (\<lambda>t. case f t of None \<Rightarrow> [] | Some v \<Rightarrow> [v]) ts))"

text \<open>The effect on the tiles; \<open>live\<close> says of which audio tracks a source can be made.\<close>

definition reconcile :: "(track \<Rightarrow> bool) \<Rightarrow> record_tile list \<Rightarrow> recording \<Rightarrow> recording" where
  "reconcile live ts r0 =
     (let r = r0\<lparr>rec_tiles := ts\<rparr> in
      if \<not> rec_on r then r
      else
        (let wv = wanted t_video ts;
             keepV = filter (\<lambda>v. v \<in> set wv) (videoEls r);
             newV = filter (\<lambda>v. v \<notin> set keepV) wv;
             r1 = rlog (map DropVideo (filter (\<lambda>v. v \<notin> set wv) (videoEls r)) @ map PlayVideo newV) (r\<lparr>videoEls := keepV @ newV\<rparr>)
         in if \<not> audioCtx r1 then r1
            else
              (let wa = wanted t_audio ts;
                   keepA = filter (\<lambda>a. a \<in> set wa) (audioNodes r1);
                   newA = filter (\<lambda>a. a \<notin> set keepA \<and> live a) wa
               in rlog (map DisconnectAudio (filter (\<lambda>a. a \<notin> set wa) (audioNodes r1)) @ map ConnectAudio newA)
                    (r1\<lparr>audioNodes := keepA @ newA\<rparr>))))"

text \<open>The teardown of \<open>cleanup\<close>, and \<open>cleanup\<close> itself, which leaves it to \<open>onstop\<close> while the recorder runs.\<close>

definition teardown :: "recording \<Rightarrow> recording" where
  "teardown r =
     rlog ([CancelFrame] @ (if outTracks r then [StopOutTracks] else []) @ map DropVideo (videoEls r) @
           map DisconnectAudio (audioNodes r) @ (if audioCtx r then [CloseAudioContext] else []))
       (r\<lparr>outTracks := False, videoEls := [], audioNodes := [], audioCtx := False, canvas := False\<rparr>)"

definition rec_cleanup :: "recording \<Rightarrow> recording" where
  "rec_cleanup r = (if rec_recorder r = RecRunning then rlog [StopRecorder] (r\<lparr>rec_recorder := RecInactive\<rparr>) else teardown r)"

definition stopRecording :: "recording \<Rightarrow> recording" where
  "stopRecording r = (if rec_recorder r = RecRunning then rlog [StopRecorder] (r\<lparr>rec_recorder := RecInactive\<rparr>) else r)"

text \<open>What the browser offers when a recording starts.\<close>

record rec_env =
  re_captureStream :: bool
  re_context2d :: bool
  re_types :: "string \<Rightarrow> bool"
  re_recorder :: bool

definition rec_formats :: "string list" where
  "rec_formats = [''video/webm;codecs=vp9,opus'', ''video/webm'', ''video/mp4'']"

definition not_supported :: string where "not_supported = ''Recording isn't supported in this browser''"

definition start_failed :: "string \<Rightarrow> recording \<Rightarrow> recording" where
  "start_failed txt r = rlog [LogError] ((rec_cleanup r)\<lparr>recordError := Some txt\<rparr>)"

definition startRecording :: "rec_env \<Rightarrow> recording \<Rightarrow> recording" where
  "startRecording env r0 =
     (let r = r0\<lparr>recordError := None\<rparr> in
      if \<not> re_captureStream env then start_failed not_supported r
      else if \<not> re_context2d env then start_failed not_supported r
      else
        (let r1 = r\<lparr>canvas := True, audioCtx := True, outTracks := True\<rparr> in
         case find (re_types env) rec_formats of
           None \<Rightarrow> start_failed not_supported r1
         | Some mime \<Rightarrow>
             if \<not> re_recorder env then start_failed ''Could not start recording'' r1
             else r1\<lparr>chunks := [], rec_mime := mime, rec_recorder := RecRunning, rec_on := True\<rparr>))"

definition ondataavailable :: "string \<Rightarrow> recording \<Rightarrow> recording" where
  "ondataavailable d r = (if d \<noteq> [] then r\<lparr>chunks := chunks r @ [d]\<rparr> else r)"

definition file_ext :: "string \<Rightarrow> string" where
  "file_ext mime = (if starts_with mime ''video/mp4'' then ''mp4'' else ''webm'')"

text \<open>The recorder has stopped (\<open>onstop\<close>); it fires once, when the recorder is inactive.\<close>

definition onstop :: "recording \<Rightarrow> recording" where
  "onstop r =
     (if rec_recorder r \<noteq> RecInactive then r
      else (let r1 = teardown (rlog [SaveFile (chunks r) (file_ext (rec_mime r))] r)
            in r1\<lparr>rec_recorder := RecNone, rec_on := (if rec_mounted r1 then False else rec_on r1)\<rparr>))"

definition unmount :: "recording \<Rightarrow> recording" where
  "unmount r = (rec_cleanup r)\<lparr>rec_mounted := False\<rparr>"

text \<open>A frame is drawn as long as there is a canvas.\<close>

definition draw :: "recording \<Rightarrow> recording" where
  "draw r = (if canvas r then rlog [DrawFrame] r else r)"

section \<open>The grid is filled without overlap\<close>

lemma ceil_sqrt_spec: "n \<le> ceil_sqrt n * ceil_sqrt n" and ceil_sqrt_pos: "0 < n \<Longrightarrow> 0 < ceil_sqrt n"
proof -
  have "find (\<lambda>c. n \<le> c * c) [0..<Suc n] \<noteq> None"
    unfolding find_None_iff by (auto intro!: bexI [of _ n] simp: le_square)
  then obtain c where c: "find (\<lambda>c. n \<le> c * c) [0..<Suc n] = Some c" by blast
  then have "n \<le> c * c" by (auto simp: find_Some_iff simp del: upt_Suc)
  then show le: "n \<le> ceil_sqrt n * ceil_sqrt n" using c by (simp add: ceil_sqrt_def del: upt_Suc)
  then show "0 < n \<Longrightarrow> 0 < ceil_sqrt n" by (cases "ceil_sqrt n") auto
qed

lemma grid_cols_pos [simp]: "0 < grid_cols len"
  by (simp add: grid_cols_def ceil_sqrt_pos)

lemma grid_rows_pos [simp]: "0 < grid_rows len"
proof -
  have "grid_cols len \<le> max 1 len + grid_cols len - 1" by simp
  then show ?thesis unfolding grid_rows_def by (simp add: div_greater_zero_iff)
qed

lemma grid_row: "i < len \<Longrightarrow> i div grid_cols len < grid_rows len"
proof -
  assume i: "i < len"
  let ?c = "grid_cols len"
  have "max 1 len + ?c - 1 = len + ?c - 1" using i by simp
  moreover have "(i + ?c) div ?c \<le> (len + ?c - 1) div ?c" using i by (intro div_le_mono) simp
  moreover have "(i + ?c) div ?c = i div ?c + 1" by simp
  ultimately show ?thesis by (simp add: grid_rows_def)
qed

lemma cell_dims_pos [simp]: "0 < cellW len" "0 < cellH len"
  by (simp_all add: cellW_def cellH_def RECORD_W_def RECORD_H_def)

lemma step_in_range:
  assumes "k < n" "w = W / of_nat n" "(0 :: rat) < W"
  shows "of_nat k * w + w \<le> W"
proof -
  have "of_nat k * w + w = (of_nat k + 1) * w" by (simp add: algebra_simps)
  also have "\<dots> \<le> of_nat n * w" using assms by (intro mult_right_mono) (auto simp flip: of_nat_Suc)
  also have "\<dots> = W" using assms by simp
  finally show ?thesis .
qed

lemma steps_apart: "a < b \<Longrightarrow> 0 < w \<Longrightarrow> of_nat a * w + w \<le> of_nat b * (w :: rat)"
proof -
  assume "a < b" "0 < w"
  then have "(of_nat a + 1) * w \<le> of_nat b * w" by (intro mult_right_mono) (auto simp flip: of_nat_Suc)
  then show ?thesis by (simp add: algebra_simps)
qed

text \<open>The rectangles of two cells share no area.\<close>

definition apart :: "nat \<Rightarrow> rat \<times> rat \<Rightarrow> rat \<times> rat \<Rightarrow> bool" where
  "apart len p q = (fst p + cellW len \<le> fst q \<or> fst q + cellW len \<le> fst p \<or>
     snd p + cellH len \<le> snd q \<or> snd q + cellH len \<le> snd p)"

lemma cells_apart: "i \<noteq> j \<Longrightarrow> apart len (cell len i) (cell len j)"
proof -
  assume ne: "i \<noteq> j"
  let ?c = "grid_cols len"
  consider "i mod ?c < j mod ?c" | "j mod ?c < i mod ?c" | "i div ?c < j div ?c" | "j div ?c < i div ?c"
    using ne by (metis div_mult_mod_eq nat_neq_iff)
  then show ?thesis
    by cases (auto simp: apart_def cell_def intro: steps_apart)
qed

lemma fit_in_cell:
  assumes "(0 :: rat) < vw" "0 < vh" "scale = min (W / vw) (H / vh)"
  shows "vw * scale \<le> W \<and> vh * scale \<le> H"
proof -
  have "scale \<le> W / vw" "scale \<le> H / vh" using assms(3) by simp_all
  then show ?thesis using assms(1,2) by (simp add: pos_le_divide_eq mult.commute)
qed

text \<open>
  The recorded picture shows everyone whole: each tile has a cell of its own inside the 1280 by 720 picture, no two
  cells overlap, and each video is drawn inside its cell with its proportions.
\<close>

theorem recorded_tiles_fit:
  assumes "i < len" "j < len" "i \<noteq> j" "0 < vw" "0 < vh" "draw_rect len i vw vh = (x, y, w, h)"
  shows "0 \<le> fst (cell len i) \<and> fst (cell len i) + cellW len \<le> 1280 \<and> 0 \<le> snd (cell len i) \<and>
    snd (cell len i) + cellH len \<le> 720 \<and> apart len (cell len i) (cell len j) \<and>
    fst (cell len i) \<le> x \<and> x + w \<le> fst (cell len i) + cellW len \<and> snd (cell len i) \<le> y \<and>
    y + h \<le> snd (cell len i) + cellH len \<and> w * of_nat vh = h * of_nat vw"
proof -
  have c: "fst (cell len i) + cellW len \<le> 1280" "snd (cell len i) + cellH len \<le> 720"
    using step_in_range [of "i mod grid_cols len" "grid_cols len" "cellW len" RECORD_W]
      step_in_range [of "i div grid_cols len" "grid_rows len" "cellH len" RECORD_H] grid_row [OF assms(1)]
    by (simp_all add: cell_def cellW_def cellH_def RECORD_W_def RECORD_H_def)
  have pos: "0 \<le> fst (cell len i)" "0 \<le> snd (cell len i)"
    using less_imp_le [OF cell_dims_pos(1) [of len]] less_imp_le [OF cell_dims_pos(2) [of len]] by (simp_all add: cell_def)
  define sc where "sc = min (cellW len / of_nat vw) (cellH len / of_nat vh)"
  have "of_nat vw * sc \<le> cellW len \<and> of_nat vh * sc \<le> cellH len"
    by (rule fit_in_cell) (use assms(4,5) sc_def in auto)
  moreover have "w = of_nat vw * sc" "h = of_nat vh * sc" "x = fst (cell len i) + (cellW len - w) / 2"
    "y = snd (cell len i) + (cellH len - h) / 2"
    using assms(4-6) by (auto simp: draw_rect_def Let_def sc_def split: prod.splits)
  ultimately show ?thesis using c pos cells_apart [OF assms(3), of len] by (auto simp: field_simps)
qed

theorem recorded_tiles_fit_witness:
  "fst (cell 3 1) + cellW 3 \<le> 1280 \<and> apart 3 (cell 3 1) (cell 3 2)"
proof -
  obtain x y w h where "draw_rect 3 1 640 480 = (x, y, w, h)" by (cases "draw_rect 3 1 640 480")
  then show ?thesis using recorded_tiles_fit [of 1 3 2 640 480 x y w h] by simp
qed

section \<open>The pool follows the tiles\<close>

lemma set_wanted: "set (wanted f ts) = {v. \<exists>t \<in> set ts. f t = Some v}"
  by (auto simp: wanted_def split: option.splits)

lemma distinct_wanted [simp]: "distinct (wanted f ts)"
  by (simp add: wanted_def)

text \<open>Exactly the tracks on show have a video element, and of the audible ones exactly the live are mixed in, once each.\<close>

lemma pool_follows_the_tiles:
  assumes "rec_on r" "audioCtx r" "distinct (videoEls r)" "distinct (audioNodes r)" "q = reconcile live ts r"
  shows "set (videoEls q) = set (wanted t_video ts)" "distinct (videoEls q)"
    "set (audioNodes q) = {a \<in> set (wanted t_audio ts). a \<in> set (audioNodes r) \<or> live a}" "distinct (audioNodes q)"
  using assms by (auto simp: reconcile_def Let_def rlog_def)

section \<open>Nothing is left behind\<close>

datatype rec_event = RecStart rec_env | RecStop | RecData string | RecOnStop | RecTiles "track \<Rightarrow> bool" "record_tile list" | RecDraw | RecUnmount

text \<open>The button starts a recording only while none is on; a view that is gone gets no events of React's.\<close>

fun rec_step :: "rec_event \<Rightarrow> recording \<Rightarrow> recording" where
  "rec_step (RecStart env) r = (if rec_mounted r \<and> \<not> rec_on r then startRecording env r else r)"
| "rec_step RecStop r = (if rec_mounted r \<and> rec_on r then stopRecording r else r)"
| "rec_step (RecData d) r = ondataavailable d r"
| "rec_step RecOnStop r = onstop r"
| "rec_step (RecTiles live ts) r = (if rec_mounted r then reconcile live ts r else r)"
| "rec_step RecDraw r = draw r"
| "rec_step RecUnmount r = (if rec_mounted r then unmount r else r)"

definition released :: "recording \<Rightarrow> bool" where
  "released r = (\<not> canvas r \<and> \<not> audioCtx r \<and> \<not> outTracks r \<and> videoEls r = [] \<and> audioNodes r = [])"

definition rec_ok :: "recording \<Rightarrow> bool" where
  "rec_ok r = ((rec_recorder r = RecNone \<longrightarrow> released r) \<and> (rec_mounted r \<longrightarrow> rec_on r = (rec_recorder r \<noteq> RecNone)))"

lemma released_teardown [simp]: "released (teardown r)"
  by (simp add: teardown_def rlog_def released_def)

lemma rec_ok_start_failed:
  "rec_recorder r = RecNone \<Longrightarrow> \<not> rec_on r \<Longrightarrow> rec_ok (start_failed txt r)"
  by (simp add: start_failed_def rec_cleanup_def rlog_def rec_ok_def teardown_def released_def)

lemma rec_ok_step: "rec_ok r \<Longrightarrow> rec_ok (rec_step e r)"
proof (cases e)
  case (RecStart env)
  assume "rec_ok r"
  then show ?thesis
    using RecStart rec_ok_start_failed by (auto simp: startRecording_def Let_def rec_ok_def split: option.split)
next
  case (RecTiles live ts)
  assume "rec_ok r"
  then show ?thesis using RecTiles by (auto simp: reconcile_def Let_def rlog_def rec_ok_def released_def)
next
  case RecOnStop
  assume "rec_ok r"
  then show ?thesis using RecOnStop
    by (auto simp: onstop_def Let_def rec_ok_def teardown_def rlog_def released_def)
qed (auto simp: stopRecording_def ondataavailable_def draw_def unmount_def rec_cleanup_def teardown_def rec_ok_def released_def rlog_def)

lemma rec_ok_run: "rec_ok r \<Longrightarrow> rec_ok (fold rec_step es r)"
  by (induction es arbitrary: r) (auto intro: rec_ok_step)

text \<open>
  A recording leaves nothing behind: whatever happens, and also when the view goes away in the middle of it or the browser
  cannot record, once no recorder is left the canvas, the audio context, the captured tracks, every hidden video and every
  audio node are released, and while the view is shown its button says "recording" exactly as long as there is a recorder.
\<close>

theorem recording_leaves_nothing_behind:
  assumes "r = fold rec_step es new_recording"
  shows "(rec_recorder r = RecNone \<longrightarrow> \<not> canvas r \<and> \<not> audioCtx r \<and> \<not> outTracks r \<and> videoEls r = [] \<and> audioNodes r = []) \<and>
    (rec_mounted r \<longrightarrow> rec_on r = (rec_recorder r \<noteq> RecNone))"
proof -
  have "rec_ok new_recording" by (simp add: rec_ok_def released_def new_recording_def)
  then have "rec_ok r" unfolding assms by (rule rec_ok_run)
  then show ?thesis by (simp add: rec_ok_def released_def)
qed

definition ex_rec_env :: rec_env where
  "ex_rec_env = \<lparr>re_captureStream = True, re_context2d = True, re_types = (\<lambda>t. t = ''video/webm''), re_recorder = True\<rparr>"

theorem recording_leaves_nothing_behind_witness:
  "\<not> audioCtx (fold rec_step [RecStart ex_rec_env, RecData ''x'', RecUnmount, RecOnStop] new_recording)"
proof -
  let ?r = "fold rec_step [RecStart ex_rec_env, RecData ''x'', RecUnmount, RecOnStop] new_recording"
  have "rec_recorder ?r = RecNone"
    by (simp add: new_recording_def startRecording_def ex_rec_env_def rec_formats_def Let_def ondataavailable_def unmount_def
        rec_cleanup_def onstop_def teardown_def rlog_def)
  then show ?thesis using recording_leaves_nothing_behind [OF refl, of "[RecStart ex_rec_env, RecData ''x'', RecUnmount, RecOnStop]"] by blast
qed

text \<open>The file holds everything that was recorded, in order, and is saved once.\<close>

lemma recording_is_saved_whole:
  assumes "rec_recorder r = RecRunning" "q = onstop (fold ondataavailable ds (stopRecording r))"
  shows "SaveFile (chunks r @ filter (\<lambda>d. d \<noteq> []) ds) (file_ext (rec_mime r)) \<in> set (rec_log q) \<and> onstop q = q"
proof -
  have f: "fold ondataavailable ds u = u\<lparr>chunks := chunks u @ filter (\<lambda>d. d \<noteq> []) ds\<rparr>" for u
    by (induction ds arbitrary: u) (simp_all add: ondataavailable_def)
  show ?thesis using assms(1) unfolding assms(2) f by (simp add: stopRecording_def rlog_def onstop_def Let_def teardown_def)
qed

end
