(* ===== verification/CallOverlay.thy ===== *)
theory CallOverlay
  imports CallStore Media Strings
begin

text \<open>
  The call view (\<open>components/CallOverlay.tsx\<close>): what it shows in each state of the call store, which media
  elements it renders and so what the user hears, the dock's controls and keyboard shortcuts, and the lock
  that keeps the screen awake.
\<close>

section \<open>What is shown\<close>

datatype overlay = NoOverlay | MiniCallCard | ConnectingView | DirectView | RoomView

definition overlay_of :: "calls \<Rightarrow> overlay" where
  "overlay_of s =
     (if status s = Idle then NoOverlay
      else if minimized s then MiniCallCard
      else if status s \<in> {Outgoing, ConnectingCall, WaitingApproval} then ConnectingView
      else if mode s = P2p then DirectView else RoomView)"

definition roomTitle :: "calls \<Rightarrow> string option" where
  "roomTitle s =
     (if mode s = P2p then map_option ub_display_name (peer s)
      else case privateRoom s of Some r \<Rightarrow> Some (pr_name r)
        | None \<Rightarrow> Some (case call_group s of Some g \<Rightarrow> g_name g | None \<Rightarrow> ''Group call''))"

definition mini_title :: "calls \<Rightarrow> string option" where
  "mini_title s = (if mode s = P2p then map_option ub_display_name (peer s)
     else Some (case call_group s of Some g \<Rightarrow> g_name g | None \<Rightarrow> ''Group call''))"

definition connecting_text :: "calls \<Rightarrow> string" where
  "connecting_text s = (if status s = Outgoing then (if ringing s then ''Ringing...'' else ''Calling...'')
     else if status s = WaitingApproval then ''Waiting for the host to let you in...'' else ''Connecting...'')"

definition network_bars :: "net_quality \<Rightarrow> nat" where
  "network_bars q = (case q of Good \<Rightarrow> 3 | Fair \<Rightarrow> 2 | Poor \<Rightarrow> 1)"

text \<open>\<open>useElapsed\<close>: the text, with \<open>padStart(2, "0")\<close> and the leading hour 0 taken away.\<close>

definition pad_two :: "int \<Rightarrow> string" where
  "pad_two n = (let t = show_int n in replicate (2 - length t) (CHR ''0'') @ t)"

definition useElapsed :: "ms \<Rightarrow> ms option \<Rightarrow> string" where
  "useElapsed now since =
     (if \<not> num_truthy since then []
      else (let s = max 0 ((now - the since) div 1000); m = s div 60;
                t = show_int (m div 60) @ '':'' @ pad_two (m mod 60) @ '':'' @ pad_two (s mod 60)
            in if starts_with t ''0:'' then drop 2 t else t))"

section \<open>The media elements\<close>

text \<open>A video element with its stream, muted or not; a hidden audio element.\<close>

datatype media_element = VideoElement stream bool | AudioElement track

text \<open>\<open>SfuTile\<close>: the video of one participant, if any.\<close>

definition tile_video :: "calls \<Rightarrow> bool \<Rightarrow> participant_info \<Rightarrow> media_element list" where
  "tile_video s isMe info =
     (let stream = (if isMe then localStream s else None);
          track = (if isMe then None else case remoteTracks s (p_user_id info) of None \<Rightarrow> None | Some ts \<Rightarrow> rt_cam ts);
          showVideo = ((track \<noteq> None \<or> stream \<noteq> None) \<and> (if isMe then camOn s \<or> sharing s else p_video_on info))
      in if \<not> showVideo then []
         else case track of Some t \<Rightarrow> [VideoElement [t] isMe] | None \<Rightarrow> [VideoElement (the stream) isMe])"

text \<open>The screen on show: the remote track, or the own stream.\<close>

definition screen_element :: "int \<Rightarrow> calls \<Rightarrow> media_element option" where
  "screen_element meID s = (case find p_screen (participants s) of
     None \<Rightarrow> None
   | Some p \<Rightarrow>
       if p_user_id p \<noteq> meID
       then (case remoteTracks s (p_user_id p) of
               None \<Rightarrow> None | Some ts \<Rightarrow> map_option (\<lambda>t. VideoElement [t] False) (rt_screen ts))
       else map_option (\<lambda>st. VideoElement st True) (localScreenStream s))"

definition self_picture :: "calls \<Rightarrow> media_element list" where
  "self_picture s =
     (let st = (if sharing s then localScreenStream s else localStream s) in
      if has_video st \<and> (sharing s \<or> camOn s) then [VideoElement (the st) True] else [])"

text \<open>The hidden audio of the participants; \<open>keys\<close> lists the users of \<open>remoteTracks\<close>.\<close>

definition remote_audio :: "int \<Rightarrow> int list \<Rightarrow> calls \<Rightarrow> media_element list" where
  "remote_audio meID keys s = concat (map (\<lambda>u.
     case remoteTracks s u of
       None \<Rightarrow> []
     | Some ts \<Rightarrow> (case rt_mic ts of Some t \<Rightarrow> if u \<noteq> meID then [AudioElement t] else [] | None \<Rightarrow> [])) keys)"

definition overlay_media :: "int \<Rightarrow> int list \<Rightarrow> calls \<Rightarrow> media_element list" where
  "overlay_media meID keys s =
     (case overlay_of s of
        NoOverlay \<Rightarrow> []
      | MiniCallCard \<Rightarrow> []
      | ConnectingView \<Rightarrow> remote_audio meID keys s
      | DirectView \<Rightarrow>
          (if has_video (remoteStream s) then [VideoElement (the (remoteStream s)) False] else []) @ self_picture s @
          remote_audio meID keys s
      | RoomView \<Rightarrow>
          (case screen_element meID s of Some e \<Rightarrow> [e] | None \<Rightarrow> []) @
          concat (map (\<lambda>p. tile_video s (p_user_id p = meID) p) (participants s)) @
          remote_audio meID keys s)"

text \<open>What comes out of the loudspeaker: the audio tracks of elements that are not muted.\<close>

definition audible :: "media_element list \<Rightarrow> track set" where
  "audible es = {t. is_audio t \<and> ((\<exists>st. VideoElement st False \<in> set es \<and> t \<in> set st) \<or> AudioElement t \<in> set es)}"

section \<open>The controls\<close>

definition canPresent :: "int \<Rightarrow> calls \<Rightarrow> bool" where
  "canPresent meID s = (mode s \<noteq> Sfu \<or>
     (case find (\<lambda>p. p_user_id p = meID) (participants s) of None \<Rightarrow> True | Some p \<Rightarrow> p_can_present p))"

text \<open>The share button; \<open>can_capture\<close> is \<open>supportsScreenCapture()\<close>.\<close>

definition click_share :: "bool \<Rightarrow> int \<Rightarrow> calls \<Rightarrow> calls" where
  "click_share can_capture meID s =
     (if \<not> can_capture then s\<lparr>call_toast := Some ''Screen sharing isn't supported on this device/browser''\<rparr>
      else if \<not> canPresent meID s then s\<lparr>call_toast := Some ''Only the host or an approved presenter can share their screen''\<rparr>
      else toggleScreen s)"

definition click_people :: "calls \<Rightarrow> calls" where
  "click_people s = (if \<not> showParticipants s then s\<lparr>showParticipants := True, inCallChat := False\<rparr> else s\<lparr>showParticipants := False\<rparr>)"

definition click_chat :: "calls \<Rightarrow> calls" where
  "click_chat s = (if \<not> inCallChat s then s\<lparr>inCallChat := True, showParticipants := False\<rparr> else s\<lparr>inCallChat := False\<rparr>)"

text \<open>
  The keyboard: \<open>typing\<close> says that the event comes from a field one types in, \<open>modifier\<close> that Meta, Control or Alt is
  down; the second component is the device dialog's \<open>showDevices\<close>.
\<close>

definition call_key :: "call_env \<Rightarrow> bool \<Rightarrow> bool \<Rightarrow> string \<Rightarrow> calls \<times> bool \<Rightarrow> calls \<times> bool" where
  "call_key env typing modifier k st =
     (let (s, showDevices) = st; l = js_lower k in
      if typing \<or> modifier then st
      else if l = ''m'' then (toggleMic env s, showDevices)
      else if l = ''v'' then (toggleCam s, showDevices)
      else if l = ''l'' then (hangup env s, showDevices)
      else if l = ''e'' then (s\<lparr>inCallChat := \<not> inCallChat s\<rparr>, showDevices)
      else if l = ''escape'' \<and> showDevices then (s, False)
      else st)"

definition flip_camera :: "string list \<Rightarrow> string \<Rightarrow> string" where
  "flip_camera ids selected = (case find (\<lambda>i. ids ! i = selected) [0..<length ids] of
     None \<Rightarrow> ids ! 0 | Some i \<Rightarrow> ids ! ((i + 1) mod length ids))"

definition chat_badge :: "int \<Rightarrow> bool \<Rightarrow> string option" where
  "chat_badge chatUnread in_chat = (if 0 < chatUnread \<and> \<not> in_chat then Some (if 9 < chatUnread then ''9+'' else show_int chatUnread) else None)"

definition speaking :: "int \<Rightarrow> int \<Rightarrow> (int \<Rightarrow> bool) \<Rightarrow> int \<Rightarrow> bool" where
  "speaking uid vol sp = sp(uid := 15 < vol)"

text \<open>The effect that opens the conversation of the call when its chat is opened.\<close>

definition in_call_convo :: "calls \<Rightarrow> convo option" where
  "in_call_convo s =
     (if \<not> inCallChat s then None
      else case (mode s, peer s, call_group s) of
        (P2p, Some p, g) \<Rightarrow> Some (Dm (ub_id p))
      | (Sfu, p, Some g) \<Rightarrow> Some (GroupConvo (g_id g))
      | _ \<Rightarrow> None)"

section \<open>Keeping the screen awake\<close>

text \<open>\<open>lock\<close> of the effect's closure, the locks the browser has granted and not released, the requests under way.\<close>

record wake =
  wl_lock :: "nat option"
  wl_held :: "nat list"
  wl_asked :: nat
  wl_mounted :: bool

definition wake_take :: "bool \<Rightarrow> wake \<Rightarrow> wake" where
  "wake_take visible w = (if visible then w\<lparr>wl_asked := wl_asked w + 1\<rparr> else w)"

definition wake_granted :: "nat \<Rightarrow> wake \<Rightarrow> wake" where
  "wake_granted i w = (if wl_asked w = 0 then w else w\<lparr>wl_asked := wl_asked w - 1, wl_lock := Some i, wl_held := wl_held w @ [i]\<rparr>)"

text \<open>The browser drops the locks of a hidden tab; the listener takes a new one when it is visible again.\<close>

definition wake_visibility :: "bool \<Rightarrow> wake \<Rightarrow> wake" where
  "wake_visibility visible w =
     (if \<not> visible then w\<lparr>wl_held := []\<rparr> else if wl_mounted w then wake_take True w else w)"

definition wake_cleanup :: "wake \<Rightarrow> wake" where
  "wake_cleanup w = w\<lparr>wl_mounted := False,
     wl_held := (case wl_lock w of None \<Rightarrow> wl_held w | Some i \<Rightarrow> removeAll i (wl_held w))\<rparr>"

definition wake_mount :: "bool \<Rightarrow> wake" where
  "wake_mount visible = wake_take visible \<lparr>wl_lock = None, wl_held = [], wl_asked = 0, wl_mounted = True\<rparr>"

section \<open>Properties\<close>

lemma remote_audioD:
  assumes "e \<in> set (remote_audio meID keys s)"
  shows "\<exists>v vs t. remoteTracks s v = Some vs \<and> rt_mic vs = Some t \<and> v \<noteq> meID \<and> e = AudioElement t"
proof -
  obtain v where v: "e \<in> set (case remoteTracks s v of None \<Rightarrow> []
     | Some ts \<Rightarrow> (case rt_mic ts of Some t \<Rightarrow> if v \<noteq> meID then [AudioElement t] else [] | None \<Rightarrow> []))"
    using assms by (auto simp: remote_audio_def)
  then obtain vs where vs: "remoteTracks s v = Some vs" by (cases "remoteTracks s v") auto
  then obtain t where t: "rt_mic vs = Some t" using v by (cases "rt_mic vs") auto
  with v vs show ?thesis by (auto split: if_splits)
qed

text \<open>
  In a group call on screen the user hears everyone else and never themselves: every other participant's microphone is
  audible, whatever is on show, and nothing of the own streams is.
\<close>

theorem room_is_heard:
  assumes "status s = ActiveCall" "mode s = Sfu" "\<not> minimized s" "remoteTracks s u = Some ts" "rt_mic ts = Some t"
    and "is_audio t" "u \<noteq> meID" "u \<in> set keys"
    and "own \<in> set (nvl (localStream s) [] @ nvl (localScreenStream s) [])"
    and "\<And>v vs. remoteTracks s v = Some vs \<Longrightarrow> rt_mic vs \<noteq> Some own \<and> rt_cam vs \<noteq> Some own \<and> rt_screen vs \<noteq> Some own"
  shows "t \<in> audible (overlay_media meID keys s) \<and> own \<notin> audible (overlay_media meID keys s)"
proof -
  have view: "overlay_of s = RoomView" using assms(1-3) by (simp add: overlay_of_def)
  have "AudioElement t \<in> set (remote_audio meID keys s)"
    using assms(4,5,7,8) by (auto simp: remote_audio_def intro!: bexI [of _ u])
  then have heard: "t \<in> audible (overlay_media meID keys s)"
    using assms(6) by (simp add: audible_def overlay_media_def view)
  have tile: "own \<notin> set st" if "VideoElement st False \<in> set (tile_video s (p_user_id p = meID) p)" for st p
    using that assms(10) by (auto simp: tile_video_def Let_def split: option.splits if_splits)
  have screen: "own \<notin> set st" if "screen_element meID s = Some (VideoElement st False)" for st
    using that assms(10) by (auto simp: screen_element_def split: option.splits if_splits)
  have mic: "AudioElement own \<notin> set (remote_audio meID keys s)"
  proof
    assume "AudioElement own \<in> set (remote_audio meID keys s)"
    then obtain v vs where "remoteTracks s v = Some vs" "rt_mic vs = Some own" by (blast dest: remote_audioD)
    with assms(10) show False by blast
  qed
  have no_audio: "AudioElement own \<notin> set (tile_video s b p)" for b p
    by (auto simp: tile_video_def Let_def split: option.splits)
  have no_video: "VideoElement st False \<notin> set (remote_audio meID keys s)" for st
    by (auto simp: remote_audio_def split: option.splits if_splits)
  have no_screen: "screen_element meID s \<noteq> Some (AudioElement own)"
    by (auto simp: screen_element_def split: option.splits if_splits)
  have "own \<notin> audible (overlay_media meID keys s)"
    using tile screen mic no_audio no_video no_screen
    by (auto simp: audible_def overlay_media_def view split: option.splits)
  with heard show ?thesis by blast
qed

definition ex_me :: participant_info where
  "ex_me = \<lparr>p_user_id = 1, p_display_name = ''A'', p_avatar_file_id = None, p_muted = False, p_video_on = True,
     p_screen = False, p_host = True, p_locked = False, p_can_present = True\<rparr>"

definition ex_room_call :: calls where
  "ex_room_call = init_calls\<lparr>status := ActiveCall, mode := Sfu, localStream := Some [AudioTrack 5, VideoTrack 2],
     participants := [ex_me, ex_me\<lparr>p_user_id := 2\<rparr>],
     remoteTracks := [2 \<mapsto> \<lparr>rt_mic = Some (AudioTrack 3), rt_cam = Some (VideoTrack 4), rt_screen = None\<rparr>]\<rparr>"

theorem room_is_heard_witness:
  "AudioTrack 3 \<in> audible (overlay_media 1 [2] ex_room_call) \<and> AudioTrack 5 \<notin> audible (overlay_media 1 [2] ex_room_call)"
  by (rule room_is_heard [where u = 2 and ts = "\<lparr>rt_mic = Some (AudioTrack 3), rt_cam = Some (VideoTrack 4), rt_screen = None\<rparr>"])
    (auto simp: ex_room_call_def init_calls_def split: if_splits)

text \<open>
  A voice call is silent: as long as the other side sends no video, the call view renders no element for the
  remote stream (the video element is the only one it has for it), so nothing the other side says is heard.
\<close>

theorem voice_call_is_silent:
  assumes "mode s = P2p" "remoteTracks s = Map.empty" "\<not> has_video (remoteStream s)"
  shows "audible (overlay_media meID keys s) = {}"
proof -
  have "AudioElement t \<notin> set (remote_audio meID keys s)" "VideoElement st False \<notin> set (remote_audio meID keys s)" for t st
    using remote_audioD [of _ meID keys s] assms(2) by fastforce+
  moreover have "VideoElement st False \<notin> set (self_picture s)" "AudioElement t \<notin> set (self_picture s)" for st t
    by (simp_all add: self_picture_def Let_def)
  moreover have "overlay_of s \<noteq> RoomView" using assms(1) by (simp add: overlay_of_def)
  ultimately show ?thesis using assms(3) by (auto simp: overlay_media_def audible_def split: overlay.split)
qed

definition ex_voice_call :: calls where
  "ex_voice_call = init_calls\<lparr>status := ActiveCall, localStream := Some [AudioTrack 5], remoteStream := Some [AudioTrack 2]\<rparr>"

theorem voice_call_is_silent_witness:
  "AudioTrack 2 \<in> set (the (remoteStream ex_voice_call)) \<and> audible (overlay_media 1 [] ex_voice_call) = {}"
  using voice_call_is_silent [of ex_voice_call 1 "[]"] by (simp add: ex_voice_call_def init_calls_def)

text \<open>With video the remote stream is heard; a minimised call renders no element at all, so it falls silent.\<close>

lemma video_call_is_heard:
  assumes "status s = ActiveCall" "mode s = P2p" "\<not> minimized s" "remoteStream s = Some st" "has_video (Some st)"
    and "t \<in> set st" "is_audio t"
  shows "t \<in> audible (overlay_media meID keys s)"
  using assms by (auto simp: overlay_media_def overlay_of_def audible_def)

lemma minimised_call_is_silent: "minimized s \<Longrightarrow> audible (overlay_media meID keys s) = {}"
  by (simp add: overlay_media_def overlay_of_def audible_def)

text \<open>A lock that is granted after the call view is gone is never released: the screen stays awake.\<close>

lemma late_wake_lock_is_kept:
  assumes "wl_asked w = 1" "wl_lock w = None" "wl_held w = []" "q = wake_granted i (wake_cleanup w)"
  shows "wl_held q = [i] \<and> wl_held (wake_cleanup w) = [] \<and> \<not> wl_mounted q"
  using assms by (simp add: wake_granted_def wake_cleanup_def)

text \<open>The people list and the chat are never opened over each other by their buttons.\<close>

lemma one_drawer_at_a_time:
  assumes "\<not> (showParticipants s \<and> inCallChat s)"
  shows "\<not> (showParticipants (click_people s) \<and> inCallChat (click_people s))"
    "\<not> (showParticipants (click_chat s) \<and> inCallChat (click_chat s))"
  using assms by (simp_all add: click_people_def click_chat_def)

text \<open>The key \<open>E\<close> does not close the people list, so it opens the chat beside it.\<close>

lemma chat_key_opens_both:
  assumes "showParticipants s" "\<not> inCallChat s"
  shows "showParticipants (fst (call_key env False False ''e'' (s, d))) \<and> inCallChat (fst (call_key env False False ''e'' (s, d)))"
  using assms by (simp add: call_key_def Let_def js_lower_def js_lower_char_def)

lemma typing_is_not_a_shortcut: "call_key env True modifier k st = st" "call_key env typing True k st = st"
  by (simp_all add: call_key_def split: prod.split)

lemma flip_camera_picks_a_camera: "ids \<noteq> [] \<Longrightarrow> flip_camera ids c \<in> set ids"
  by (auto simp: flip_camera_def split: option.split)

end
