(* ===== verification/TwoPeers.thy ===== *)
theory TwoPeers
  imports DirectLaws
begin

text \<open>
  Two engines of \<open>lib/webrtc/direct.ts\<close> in one call: what each relays travels through the server, which forwards the
  payloads of a call unchanged and in order (\<open>internal/signaling/calls.go\<close>), and is read by the other. Everything either
  browser or user does may fall between any two deliveries.
\<close>

section \<open>The wire\<close>

definition json_truthy :: "json \<Rightarrow> bool" where
  "json_truthy j = (j \<noteq> JNull \<and> j \<noteq> JBool False \<and> j \<noteq> JNum 0 \<and> j \<noteq> JStr [])"

text \<open>How \<open>onRelay\<close> reads a payload.\<close>

definition parse_relay :: "json \<Rightarrow> relayed" where
  "parse_relay data =
     (case data of
        JObj fs \<Rightarrow>
          (let field = (\<lambda>f. nvl (map_of fs f) JNull); kind = field ''kind'' in
           if kind = JStr ''offer'' then Offer (field ''sdp'')
           else if kind = JStr ''answer'' then Answer (field ''sdp'')
           else if kind = JStr ''candidate'' \<and> json_truthy (field ''candidate'') then Candidate (Some (field ''candidate''))
           else OtherKind)
      | _ \<Rightarrow> OtherKind)"

lemma parse_relay_data [simp]:
  "parse_relay (relay_data_of ''offer'' ''sdp'' j) = Offer j"
  "parse_relay (relay_data_of ''answer'' ''sdp'' j) = Answer j"
  "parse_relay (relay_data_of ''candidate'' ''candidate'' (JObj fs)) = Candidate (Some (JObj fs))"
  by (simp_all add: parse_relay_def relay_data_of_def json_truthy_def Let_def nvl_def)

text \<open>The payloads among the effects of an engine, and the candidates among payloads.\<close>

definition payloads :: "dc_eff list \<Rightarrow> json list" where
  "payloads es = concat (map (\<lambda>e. case e of RelayFrame _ _ j \<Rightarrow> [j] | _ \<Rightarrow> []) es)"

definition candidates_in :: "json list \<Rightarrow> json list" where
  "candidates_in js = concat (map (\<lambda>j. case parse_relay j of Candidate (Some c) \<Rightarrow> [c] | _ \<Rightarrow> []) js)"

lemma payloads_append [simp]: "payloads (xs @ ys) = payloads xs @ payloads ys"
  by (simp add: payloads_def)

lemma candidates_in_append [simp]: "candidates_in (xs @ ys) = candidates_in xs @ candidates_in ys"
  by (simp add: candidates_in_def)

section \<open>Both ends\<close>

datatype end_point = CallerEnd | CalleeEnd

primrec far :: "end_point \<Rightarrow> end_point" where
  "far CallerEnd = CalleeEnd"
| "far CalleeEnd = CallerEnd"

lemma far_far [simp]: "far (far x) = x" "far x \<noteq> x" "x \<noteq> far x"
  by (cases x; simp)+

text \<open>The engines, the payloads on their way to each end, and the candidates each browser has found.\<close>

record duo =
  engines :: "end_point \<Rightarrow> direct_call"
  wire :: "end_point \<Rightarrow> json list"
  found :: "end_point \<Rightarrow> json list"

text \<open>
  What happens at an end: the browser finds a candidate, offers are enabled, an offer is asked for, and the steps of
  making one and of answering one, each with its outcome.
\<close>

datatype (plugins only: size code) end_event =
    FoundCandidate "(string \<times> json) list"
  | EnableOffers
  | AskOffer "nat \<Rightarrow> pc_view" bool
  | OfferMade bool bool
  | OfferPut "nat \<Rightarrow> pc_view" bool bool
  | RollbackEnded json bool
  | OfferRead bool
  | AnswerMade bool
  | AnswerPut "nat \<Rightarrow> pc_view" bool
  | AnswerRead bool

primrec end_step :: "end_event \<Rightarrow> direct_call \<Rightarrow> direct_call" where
  "end_step (FoundCandidate fs) d = onicecandidate 1 0 (Some (JObj fs)) d"
| "end_step EnableOffers d = enableRenegotiation d"
| "end_step (AskOffer v r) d = makeOffer v r d"
| "end_step (OfferMade r ok) d = offer_created 0 r ok d"
| "end_step (OfferPut v r ok) d = offer_set v 1 0 r ok d"
| "end_step (RollbackEnded sdp ok) d = rolled_back 0 sdp ok d"
| "end_step (OfferRead ok) d = remote_offer_set 0 ok d"
| "end_step (AnswerMade ok) d = answer_created 0 ok d"
| "end_step (AnswerPut v ok) d = answer_set v 0 ok d"
| "end_step (AnswerRead ok) d = remote_answer_set 0 ok d"

definition found_by :: "end_event \<Rightarrow> json list" where
  "found_by e = (case e of FoundCandidate fs \<Rightarrow> [JObj fs] | _ \<Rightarrow> [])"

text \<open>The engine at \<open>x\<close> becomes \<open>d\<close>; what it relayed meanwhile goes to the other end.\<close>

definition moved :: "end_point \<Rightarrow> direct_call \<Rightarrow> duo \<Rightarrow> duo" where
  "moved x d s = s\<lparr>engines := (engines s)(x := d),
     wire := (wire s)(far x := wire s (far x) @ payloads (drop (length (dlog (engines s x))) (dlog d)))\<rparr>"

inductive duo_step :: "duo \<Rightarrow> duo \<Rightarrow> bool" where
  duo_act: "duo_step s (moved x (end_step e (engines s x)) (s\<lparr>found := (found s)(x := found s x @ found_by e)\<rparr>))"
| duo_deliver: "duo_step s (moved x (onRelay v (parse_relay j) (engines s x)) (s\<lparr>wire := (wire s)(x := js)\<rparr>))"
    if "wire s x = j # js"

text \<open>An engine that has just been started: its media and its connection are there.\<close>

definition started :: "bool \<Rightarrow> int \<Rightarrow> string \<Rightarrow> bool \<Rightarrow> string list option option \<Rightarrow> stream \<Rightarrow> direct_call" where
  "started caller peer cid video ice st =
     start_connected 1 st 0 video (createPC ice (start_media 1 (Some st) (start_as caller peer cid video new_DirectCall)))"

definition duo_start :: "(end_point \<Rightarrow> direct_call) \<Rightarrow> bool" where
  "duo_start ds = (\<forall>x. \<exists>peer cid video ice st. ds x = started (x = CallerEnd) peer cid video ice st)"

inductive duo_reach :: "(end_point \<Rightarrow> direct_call) \<Rightarrow> duo \<Rightarrow> bool" for ds where
  duo_begin: "duo_reach ds \<lparr>engines = ds, wire = (\<lambda>_. []), found = (\<lambda>_. [])\<rparr>"
| duo_next: "duo_reach ds s \<Longrightarrow> duo_step s t \<Longrightarrow> duo_reach ds t"

section \<open>One end\<close>

text \<open>What holds of each engine on its own.\<close>

definition end_ok :: "direct_call \<Rightarrow> bool" where
  "end_ok d = (live 1 0 d \<and> (canOffer d \<longrightarrow> pendingLocalCandidates d = []) \<and>
     (isCaller d \<or> pendingLocalCandidates d = []) \<and> (\<forall>c \<in> set (pendingLocalCandidates d). \<exists>fs. c = JObj fs))"

lemma payloads_simps [simp]:
  "payloads [] = []" "payloads (RelayFrame a b j # es) = j # payloads es" "payloads (SetRemote p j # es) = payloads es"
  "payloads (SetLocal p # es) = payloads es" "payloads (Rollback p # es) = payloads es"
  "payloads (CreateAnswer p # es) = payloads es" "payloads (CreateOffer p # es) = payloads es"
  "payloads (AddIceCandidate p c # es) = payloads es" "payloads (map (AddIceCandidate p) cs) = []"
  "payloads (relay_frame j d # es) = j # payloads es"
  by (simp_all add: payloads_def relay_frame_def)

lemma candidates_in_simps [simp]:
  "candidates_in [] = []" "candidates_in (j # js) = (case parse_relay j of Candidate (Some c) \<Rightarrow> [c] | _ \<Rightarrow> []) @ candidates_in js"
  by (simp_all add: candidates_in_def)

lemma candidates_of_frames:
  "\<forall>c \<in> set cs. \<exists>fs. c = JObj fs \<Longrightarrow>
   candidates_in (payloads (map (\<lambda>c. relay_frame (relay_data_of ''candidate'' ''candidate'' c) d) cs)) = cs"
  by (induction cs) (auto)

text \<open>
  A step of an engine adds effects to its log; the candidates it relays, with those it holds back, are those it had
  and the one found; it takes in none.
\<close>

definition end_grows :: "direct_call \<Rightarrow> direct_call \<Rightarrow> json list \<Rightarrow> bool" where
  "end_grows d d' new = (\<exists>es. dlog d' = dlog d @ es \<and>
     candidates_in (payloads es) @ pendingLocalCandidates d' = pendingLocalCandidates d @ new)"

lemma end_step_grows:
  assumes "end_ok d"
  shows "end_grows d (end_step e d) (found_by e)"
proof (cases e)
  case EnableOffers
  then show ?thesis
    using assms by (simp add: end_grows_def found_by_def enableRenegotiation_def dnotes_def end_ok_def candidates_of_frames)
next
  case (FoundCandidate fs)
  then show ?thesis
    using assms
    by (auto simp: end_grows_def found_by_def onicecandidate_def relay_candidate_def dnote_def end_ok_def)
qed (auto simp: end_grows_def found_by_def makeOffer_def offer_created_def offer_settled_def offer_set_def rolled_back_def
    remote_offer_set_def answer_created_def answer_set_def remote_answer_set_def flush_candidates_def relay_sdp_def
    direct_simps split: option.split)

lemma end_step_ok: "end_ok d \<Longrightarrow> end_ok (end_step e d)"
  by (cases e) (auto simp: end_ok_def live_def onicecandidate_def relay_candidate_def enableRenegotiation_def offer_created_def
    offer_set_def rolled_back_def remote_offer_set_def answer_created_def answer_set_def remote_answer_set_def
    flush_candidates_def relay_sdp_def direct_simps split: option.split)

definition taken_in :: "direct_call \<Rightarrow> json multiset" where
  "taken_in d = mset (added 0 (dlog d)) + mset (pendingCandidates d)"

lemma added_frames [simp]: "added p (map (\<lambda>c. relay_frame (f c) d) cs) = []" "added p (relay_frame j d # es) = added p es"
  by (induction cs) (simp_all add: relay_frame_def)

lemma end_step_takes: "end_ok d \<Longrightarrow> taken_in (end_step e d) = taken_in d"
  by (cases e) (auto simp: taken_in_def end_ok_def onicecandidate_def relay_candidate_def enableRenegotiation_def makeOffer_def
    offer_created_def offer_settled_def offer_set_def rolled_back_def remote_offer_set_def answer_created_def answer_set_def
    remote_answer_set_def flush_candidates_def relay_sdp_def direct_simps split: option.split)

lemma relay_ok: "end_ok d \<Longrightarrow> end_ok (onRelay v r d)"
  by (auto simp: end_ok_def live_def onRelay_def direct_simps split: option.split relayed.split)

lemma relay_grows: "end_grows d (onRelay v r d) []"
  by (auto simp: end_grows_def onRelay_def direct_simps split: option.split relayed.split)

lemma relay_takes:
  "end_ok d \<Longrightarrow> taken_in (onRelay v r d) = taken_in d + mset (case r of Candidate (Some c) \<Rightarrow> [c] | _ \<Rightarrow> [])"
  by (auto simp: taken_in_def end_ok_def live_def onRelay_def direct_simps split: option.split relayed.split)

section \<open>The call\<close>

text \<open>
  Of the candidates found at \<open>x\<close>: those held back before the call was accepted, those on the wire, and those the far
  engine has taken in are all of them.
\<close>

definition duo_ok :: "duo \<Rightarrow> bool" where
  "duo_ok s = (\<forall>x. end_ok (engines s x) \<and>
     mset (found s x) = mset (pendingLocalCandidates (engines s x)) + mset (candidates_in (wire s (far x))) +
       taken_in (engines s (far x)))"

lemma moved_ok:
  assumes "duo_ok s" "end_ok d" "end_grows (engines s x) d new"
    and "mset js + taken_in (engines s x) = taken_in d" "candidates_in (wire s x) = js @ candidates_in w"
    and "s' = s\<lparr>wire := (wire s)(x := w), found := (found s)(x := found s x @ new)\<rparr>"
  shows "duo_ok (moved x d s')"
proof -
  obtain es where es: "dlog d = dlog (engines s x) @ es"
    "candidates_in (payloads es) @ pendingLocalCandidates d = pendingLocalCandidates (engines s x) @ new"
    using assms(3) by (auto simp: end_grows_def)
  have near: "mset (found s x) = mset (pendingLocalCandidates (engines s x)) + mset (candidates_in (wire s (far x))) +
      taken_in (engines s (far x))"
    and away: "mset (found s (far x)) = mset (pendingLocalCandidates (engines s (far x))) + mset (candidates_in (wire s x)) +
      taken_in (engines s x)"
    using assms(1) unfolding duo_ok_def by (metis far_far(1))+
  have sum: "mset (candidates_in (payloads es)) + mset (pendingLocalCandidates d) =
      mset (pendingLocalCandidates (engines s x)) + mset new"
    using arg_cong [OF es(2), of mset] by simp
  have "end_ok (engines (moved x d s') y) \<and>
      mset (found (moved x d s') y) = mset (pendingLocalCandidates (engines (moved x d s') y)) +
        mset (candidates_in (wire (moved x d s') (far y))) + taken_in (engines (moved x d s') (far y))" for y
  proof (cases "y = x")
    case True
    then show ?thesis
      using near sum assms(2) by (simp add: moved_def assms(6) es(1) ac_simps)
  next
    case False
    then have y: "y = far x" by (cases x; cases y) simp_all
    have "end_ok (engines s y)"
      using assms(1) by (simp add: duo_ok_def)
    then show ?thesis
      using away assms(4,5) False by (simp add: y moved_def assms(6) ac_simps)
  qed
  then show ?thesis by (simp add: duo_ok_def)
qed

lemma duo_ok_step:
  assumes "duo_step s t" "duo_ok s"
  shows "duo_ok t"
  using assms
proof (induction rule: duo_step.induct)
  case (duo_act s x e)
  then have "end_ok (engines s x)" by (simp add: duo_ok_def)
  then show ?case
    using duo_act end_step_ok end_step_grows end_step_takes
    by (intro moved_ok [where js = "[]" and w = "wire s x" and s = s and new = "found_by e"]) simp_all
next
  case (duo_deliver s x j js v)
  then have "end_ok (engines s x)" by (simp add: duo_ok_def)
  then show ?case
    using duo_deliver relay_ok relay_grows
    by (intro moved_ok [where js = "case parse_relay j of Candidate (Some c) \<Rightarrow> [c] | _ \<Rightarrow> []" and w = js and s = s and new = "[]"])
      (simp_all add: relay_takes)
qed

lemma started_engine:
  "end_ok (started caller peer cid video ice st)" "taken_in (started caller peer cid video ice st) = {#}"
  "pendingLocalCandidates (started caller peer cid video ice st) = []"
  by (auto simp: started_def start_connected_def createPC_def start_media_def start_as_def new_DirectCall_def attachLocal_def
      add_track_def end_ok_def live_def taken_in_def direct_simps added_def List.map_filter_def split: option.split)

lemma duo_ok_start:
  assumes "duo_start ds"
  shows "duo_ok \<lparr>engines = ds, wire = (\<lambda>_. []), found = (\<lambda>_. [])\<rparr>"
  unfolding duo_ok_def
proof
  fix x
  from assms obtain a b c d e a' b' c' d' e' where
    "ds x = started (x = CallerEnd) a b c d e" "ds (far x) = started (far x = CallerEnd) a' b' c' d' e'"
    unfolding duo_start_def by metis
  then show "end_ok (engines \<lparr>engines = ds, wire = \<lambda>_. [], found = \<lambda>_. []\<rparr> x) \<and>
      mset (found \<lparr>engines = ds, wire = \<lambda>_. [], found = \<lambda>_. []\<rparr> x) =
      mset (pendingLocalCandidates (engines \<lparr>engines = ds, wire = \<lambda>_. [], found = \<lambda>_. []\<rparr> x)) +
      mset (candidates_in (wire \<lparr>engines = ds, wire = \<lambda>_. [], found = \<lambda>_. []\<rparr> (far x))) +
      taken_in (engines \<lparr>engines = ds, wire = \<lambda>_. [], found = \<lambda>_. []\<rparr> (far x))"
    by (simp add: started_engine)
qed

lemma duo_ok_reach: "duo_reach ds s \<Longrightarrow> duo_start ds \<Longrightarrow> duo_ok s"
  by (induction rule: duo_reach.induct) (auto intro: duo_ok_start duo_ok_step)

text \<open>
  C18. End to end, however finding candidates, making offers, answering them and delivering what was relayed interleave: the
  candidates one browser has found are exactly those its engine holds back, those on the wire, those the far engine
  holds until a description is set, and those the far engine has given to its connection, each counted once. A
  browser whose call was accepted holds none back; so once the wire is empty and the far description set, the far
  connection has been given them all.
\<close>

theorem candidates_arrive_end_to_end:
  assumes "duo_start ds" "duo_reach ds s"
  shows "mset (found s x) =
      mset (pendingLocalCandidates (engines s x)) + mset (candidates_in (wire s (far x))) +
      mset (pendingCandidates (engines s (far x))) + mset (added 0 (dlog (engines s (far x)))) \<and>
    (canOffer (engines s x) \<longrightarrow> pendingLocalCandidates (engines s x) = []) \<and>
    (canOffer (engines s x) \<and> wire s (far x) = [] \<and> pendingCandidates (engines s (far x)) = [] \<longrightarrow>
      mset (added 0 (dlog (engines s (far x)))) = mset (found s x))"
proof -
  have "duo_ok s"
    by (rule duo_ok_reach) fact+
  then have "end_ok (engines s x)" "mset (found s x) = mset (pendingLocalCandidates (engines s x)) +
      mset (candidates_in (wire s (far x))) + taken_in (engines s (far x))"
    by (simp_all add: duo_ok_def)
  then show ?thesis
    by (simp add: end_ok_def taken_in_def ac_simps)
qed

definition ex_ds :: "end_point \<Rightarrow> direct_call" where
  "ex_ds x = started (x = CallerEnd) 7 ''c1'' False (Some (Some [])) []"

definition ex_view :: "nat \<Rightarrow> pc_view" where
  "ex_view = (\<lambda>_. \<lparr>signalingState = Stable, connectionState = Connected, localDescription = None,
     has_remoteDescription = False, audio_sender = None\<rparr>)"

definition act_at :: "end_point \<Rightarrow> end_event \<Rightarrow> duo \<Rightarrow> duo" where
  "act_at x e s = moved x (end_step e (engines s x)) (s\<lparr>found := (found s)(x := found s x @ found_by e)\<rparr>)"

definition deliver_at :: "end_point \<Rightarrow> duo \<Rightarrow> duo" where
  "deliver_at x s = moved x (onRelay ex_view (parse_relay (hd (wire s x))) (engines s x)) (s\<lparr>wire := (wire s)(x := tl (wire s x))\<rparr>)"

lemma candidates_arrive_end_to_end_witness:
  "\<exists>s. duo_reach ex_ds s \<and> found s CallerEnd = [JObj []] \<and> mset (added 0 (dlog (engines s CalleeEnd))) = {# JObj [] #}"
proof -
  let ?s0 = "\<lparr>engines = ex_ds, wire = (\<lambda>_. []), found = (\<lambda>_. [])\<rparr>"
  let ?s2 = "act_at CallerEnd EnableOffers (act_at CallerEnd (FoundCandidate []) ?s0)"
  let ?s4 = "act_at CalleeEnd (AnswerPut ex_view True) (deliver_at CalleeEnd ?s2)"
  have w: "wire ?s2 CalleeEnd = [relay_data_of ''candidate'' ''candidate'' (JObj [])]"
    by (code_simp, simp)
  have act: "duo_reach ex_ds s \<Longrightarrow> duo_reach ex_ds (act_at x e s)" for s x e
    unfolding act_at_def by (rule duo_next, assumption, rule duo_act)
  have "duo_reach ex_ds ?s2"
    by (intro act duo_begin)
  then have "duo_reach ex_ds (deliver_at CalleeEnd ?s2)"
    unfolding deliver_at_def by (rule duo_next) (rule duo_deliver, simp add: w)
  then have r: "duo_reach ex_ds ?s4"
    by (rule act)
  have f: "found ?s4 CallerEnd = [JObj []]"
    by code_simp
  have c: "canOffer (engines ?s4 CallerEnd)"
    by code_simp
  have e: "wire ?s4 CalleeEnd = []"
    by (simp add: act_at_def [of CalleeEnd] deliver_at_def moved_def w)
  have p: "pendingCandidates (engines ?s4 CalleeEnd) = []"
    by (simp add: act_at_def [of CalleeEnd] moved_def answer_set_def flush_candidates_def dnotes_def)
  have "duo_start ex_ds"
    unfolding duo_start_def ex_ds_def by blast
  obtain s where s: "duo_reach ex_ds s" "found s CallerEnd = [JObj []]" "canOffer (engines s CallerEnd)"
    "wire s CalleeEnd = []" "pendingCandidates (engines s CalleeEnd) = []"
    by (rule that [OF r f c e p])
  have "canOffer (engines s CallerEnd) \<and> wire s (far CallerEnd) = [] \<and> pendingCandidates (engines s (far CallerEnd)) = []"
    using s by simp
  with candidates_arrive_end_to_end [OF \<open>duo_start ex_ds\<close> s(1), of CallerEnd]
  have "mset (added 0 (dlog (engines s (far CallerEnd)))) = mset (found s CallerEnd)"
    by blast
  then have "mset (added 0 (dlog (engines s CalleeEnd))) = {# JObj [] #}"
    unfolding s(2) far.simps by (simp only: mset.simps)
  with s(1,2) show ?thesis
    by blast
qed

end
