(* ===== verification/RoomsPage.thy ===== *)
theory RoomsPage
  imports CallStore Forms
begin

text \<open>
  The page of private rooms (\<open>pages/Rooms.tsx\<close>): the list of the own rooms, creating and deleting one,
  looking a room up by its code and joining it. Handlers that await a request are two definitions; the
  requests are appended to \<open>r_calls\<close>. Joining goes through the call store.
\<close>

section \<open>State\<close>

record listed_room = private_room +
  pr_owner :: "user_brief option"
  pr_require_passcode :: bool
  pr_require_approval :: bool
  pr_is_owner :: bool

text \<open>The body of \<open>createRoom\<close>: name, passcode (\<open>None\<close>: left out), approval, the people invited.\<close>

datatype rooms_call =
    FetchMyRooms
  | FetchPeople
  | CreateRoom string "string option" bool "int list"
  | DeleteRoom string
  | LookUpRoom string

record rooms_page =
  r_rooms :: "listed_room list"
  r_loaded :: bool
  r_showCreate :: bool
  r_name :: string
  r_passcode :: string
  r_requireApproval :: bool
  r_invited :: "int list"
  r_memberSearch :: string
  r_creating :: bool
  r_createError :: "string option"
  r_joinCode :: string
  r_joinLookup :: "listed_room option"
  r_joinPasscode :: string
  r_joinBusy :: bool
  r_joinError :: "string option"
  r_mounted :: bool
  r_deleteTarget :: "listed_room option"
  r_deleteBusy :: bool
  r_deleteError :: "string option"
  r_calls :: "rooms_call list"

definition init_rooms :: rooms_page where
  "init_rooms = \<lparr>r_rooms = [], r_loaded = False, r_showCreate = False, r_name = [], r_passcode = [],
     r_requireApproval = False, r_invited = [], r_memberSearch = [], r_creating = False, r_createError = None,
     r_joinCode = [], r_joinLookup = None, r_joinPasscode = [], r_joinBusy = False, r_joinError = None,
     r_mounted = True, r_deleteTarget = None, r_deleteBusy = False, r_deleteError = None, r_calls = []\<rparr>"

definition rcall :: "rooms_call list \<Rightarrow> rooms_page \<Rightarrow> rooms_page" where
  "rcall cs p = p\<lparr>r_calls := r_calls p @ cs\<rparr>"

section \<open>The list\<close>

definition loadRooms :: "rooms_page \<Rightarrow> rooms_page" where
  "loadRooms p = rcall [FetchMyRooms] p"

definition rooms_loaded :: "string option + listed_room list \<Rightarrow> rooms_page \<Rightarrow> rooms_page" where
  "rooms_loaded r p =
     (if \<not> r_mounted p then p
      else case r of Inr rs \<Rightarrow> p\<lparr>r_rooms := rs, r_loaded := True\<rparr> | Inl _ \<Rightarrow> p\<lparr>r_loaded := True\<rparr>)"

definition rooms_mount :: "rooms_page \<Rightarrow> rooms_page" where
  "rooms_mount p = rcall [FetchPeople] (loadRooms p)"

definition rooms_unmount :: "rooms_page \<Rightarrow> rooms_page" where
  "rooms_unmount p = p\<lparr>r_mounted := False\<rparr>"

section \<open>Creating a room\<close>

datatype create_edit =
    OpenCreate
  | CloseCreate
  | TypeName string
  | TypePasscode string
  | SwitchApproval bool
  | TypeMemberSearch string
  | TickInvited bool int

primrec edit_create :: "create_edit \<Rightarrow> rooms_page \<Rightarrow> rooms_page" where
  "edit_create OpenCreate p = p\<lparr>r_showCreate := True\<rparr>"
| "edit_create CloseCreate p = p\<lparr>r_showCreate := False\<rparr>"
| "edit_create (TypeName t) p = p\<lparr>r_name := t\<rparr>"
| "edit_create (TypePasscode t) p = p\<lparr>r_passcode := t\<rparr>"
| "edit_create (SwitchApproval b) p = p\<lparr>r_requireApproval := b\<rparr>"
| "edit_create (TypeMemberSearch t) p = p\<lparr>r_memberSearch := t\<rparr>"
| "edit_create (TickInvited b u) p = p\<lparr>r_invited := tick b u (r_invited p)\<rparr>"

definition createRoom :: "rooms_page \<Rightarrow> rooms_page" where
  "createRoom p =
     (if r_creating p then p
      else rcall [CreateRoom (js_trim (r_name p))
                    (if js_trim (r_passcode p) = [] then None else Some (js_trim (r_passcode p)))
                    (r_requireApproval p) (r_invited p)]
             (p\<lparr>r_createError := None, r_creating := True\<rparr>))"

definition room_created :: "failure + unit \<Rightarrow> rooms_page \<Rightarrow> rooms_page" where
  "room_created r p =
     (case r of
        Inr _ \<Rightarrow> loadRooms (p\<lparr>r_showCreate := False, r_name := [], r_passcode := [], r_requireApproval := False,
                            r_invited := [], r_memberSearch := []\<rparr>)
      | Inl (ApiFailure _ m) \<Rightarrow> p\<lparr>r_createError := Some m\<rparr>
      | Inl OtherFailure \<Rightarrow> p\<lparr>r_createError := Some ''Could not create room''\<rparr>)
     \<lparr>r_creating := False\<rparr>"

section \<open>Deleting a room\<close>

definition askDelete :: "listed_room \<Rightarrow> rooms_page \<Rightarrow> rooms_page" where
  "askDelete rm p = p\<lparr>r_deleteError := None, r_deleteTarget := Some rm\<rparr>"

definition cancelDelete :: "rooms_page \<Rightarrow> rooms_page" where
  "cancelDelete p = (if r_deleteBusy p then p else p\<lparr>r_deleteTarget := None\<rparr>)"

text \<open>A click on the dialog's button, which is disabled while a request is under way.\<close>

definition deleteRoom :: "rooms_page \<Rightarrow> rooms_page" where
  "deleteRoom p =
     (if r_deleteBusy p then p
      else case r_deleteTarget p of
        None \<Rightarrow> p
      | Some rm \<Rightarrow> rcall [DeleteRoom (pr_id rm)] (p\<lparr>r_deleteBusy := True, r_deleteError := None\<rparr>))"

text \<open>The request for \<open>rid\<close> has ended.\<close>

definition room_deleted :: "string \<Rightarrow> failure + unit \<Rightarrow> rooms_page \<Rightarrow> rooms_page" where
  "room_deleted rid r p =
     (case r of
        Inr _ \<Rightarrow> p\<lparr>r_rooms := filter (\<lambda>rm. pr_id rm \<noteq> rid) (r_rooms p), r_deleteTarget := None\<rparr>
      | Inl (ApiFailure _ m) \<Rightarrow> p\<lparr>r_deleteError := Some m\<rparr>
      | Inl OtherFailure \<Rightarrow> p\<lparr>r_deleteError := Some ''Could not delete room''\<rparr>)
     \<lparr>r_deleteBusy := False\<rparr>"

section \<open>Joining a room\<close>

definition typeJoinCode :: "string \<Rightarrow> rooms_page \<Rightarrow> rooms_page" where
  "typeJoinCode t p = p\<lparr>r_joinCode := js_upper t, r_joinLookup := None\<rparr>"

definition typeJoinPasscode :: "string \<Rightarrow> rooms_page \<Rightarrow> rooms_page" where
  "typeJoinPasscode t p = p\<lparr>r_joinPasscode := t\<rparr>"

definition lookupJoinCode :: "rooms_page \<Rightarrow> rooms_page" where
  "lookupJoinCode p =
     (let code = js_upper (js_trim (r_joinCode p))
      in if code = [] then p
         else rcall [LookUpRoom code] (p\<lparr>r_joinError := None, r_joinLookup := None, r_joinBusy := True\<rparr>))"

text \<open>The button is disabled without a code and during a look-up; the enter key is not.\<close>

definition clickLookup :: "rooms_page \<Rightarrow> rooms_page" where
  "clickLookup p = (if js_trim (r_joinCode p) = [] \<or> r_joinBusy p then p else lookupJoinCode p)"

definition joinCodeKey :: "string \<Rightarrow> rooms_page \<Rightarrow> rooms_page" where
  "joinCodeKey k p = (if k = ''Enter'' then lookupJoinCode p else p)"

definition room_looked_up :: "failure + listed_room \<Rightarrow> rooms_page \<Rightarrow> rooms_page" where
  "room_looked_up r p =
     (case r of
        Inr rm \<Rightarrow> p\<lparr>r_joinLookup := Some rm\<rparr>
      | Inl f \<Rightarrow> p\<lparr>r_joinError := Some (case f of
            ApiFailure st _ \<Rightarrow> if st = 404 then ''No room with that code'' else ''Could not look up room''
          | OtherFailure \<Rightarrow> ''Could not look up room'')\<rparr>)
     \<lparr>r_joinBusy := False\<rparr>"

definition doJoin :: "call_env \<Rightarrow> listed_room \<Rightarrow> rooms_page \<Rightarrow> calls \<Rightarrow> rooms_page \<times> calls" where
  "doJoin env rm p s =
     (if status s \<noteq> Idle then (p\<lparr>r_joinError := Some ''You're already in a call''\<rparr>, s)
      else (p\<lparr>r_joinError := None\<rparr>,
            joinPrivateRoom env (private_room.truncate rm)
              (if pr_require_passcode rm then Some (r_joinPasscode p) else None) True s))"

section \<open>The copy button\<close>

text \<open>\<open>copies\<close>: what was put on the clipboard; \<open>copy_timers\<close>: the timers that take the tick back.\<close>

record copy_button =
  copied :: bool
  copy_timers :: nat
  copies :: "string list"

definition clickCopy :: "string \<Rightarrow> copy_button \<Rightarrow> copy_button" where
  "clickCopy t b = b\<lparr>copied := True, copy_timers := copy_timers b + 1, copies := copies b @ [t]\<rparr>"

definition copy_timer_fires :: "copy_button \<Rightarrow> copy_button" where
  "copy_timer_fires b = (if copy_timers b = 0 then b else b\<lparr>copied := False, copy_timers := copy_timers b - 1\<rparr>)"

section \<open>Lemmas\<close>

lemmas rooms_page_defs = rcall_def loadRooms_def rooms_loaded_def createRoom_def room_created_def deleteRoom_def
  room_deleted_def lookupJoinCode_def room_looked_up_def

definition creations :: "rooms_call list \<Rightarrow> nat" where
  "creations cs = length (filter (\<lambda>c. case c of CreateRoom _ _ _ _ \<Rightarrow> True | _ \<Rightarrow> False) cs)"

interpretation create_form: request_form edit_create createRoom room_created r_creating "\<lambda>p. creations (r_calls p)"
proof unfold_locales
  show "r_creating (edit_create e p) = r_creating p" for e p by (cases e) simp_all
qed (simp_all add: rooms_page_defs creations_def split: sum.split failure.split)

text \<open>
  The form is what is created: one request at a time, with the trimmed name, a passcode only if one was typed, and
  the people ticked; and it is sent again only when the first has ended. A room that was created leaves the form
  empty and its list is fetched again; a failure leaves the form as it was, with the reason.
\<close>

theorem room_form_creates_what_it_shows:
  assumes "form_reach edit_create createRoom room_created (\<lambda>p. creations (r_calls p)) init_rooms n p"
  shows "n \<le> 1 \<and> (n = 1 \<longrightarrow> createRoom p = p) \<and>
    (n = 0 \<longrightarrow> r_calls (createRoom p) = r_calls p @ [CreateRoom (js_trim (r_name p))
        (if js_trim (r_passcode p) = [] then None else Some (js_trim (r_passcode p))) (r_requireApproval p) (r_invited p)]) \<and>
    (let q = room_created (Inr ()) p in
       (r_name q, r_passcode q, r_requireApproval q, r_invited q, r_showCreate q) = ([], [], False, [], False) \<and>
       r_calls q = r_calls p @ [FetchMyRooms]) \<and>
    (\<forall>f. let q = room_created (Inl f) p in
       (r_name q, r_passcode q, r_requireApproval q, r_invited q, r_showCreate q, r_calls q) =
       (r_name p, r_passcode p, r_requireApproval p, r_invited p, r_showCreate p, r_calls p) \<and> r_createError q \<noteq> None)"
proof -
  have *: "n = (if r_creating p then 1 else 0)"
    by (rule create_form.under_way_iff_busy [OF assms]) (simp add: init_rooms_def)
  have "r_createError (room_created (Inl f) p) \<noteq> None" for f
    by (cases f) (simp_all add: rooms_page_defs)
  moreover have "r_calls (room_created (Inl f) p) = r_calls p" "r_name (room_created (Inl f) p) = r_name p"
    "r_passcode (room_created (Inl f) p) = r_passcode p" "r_requireApproval (room_created (Inl f) p) = r_requireApproval p"
    "r_invited (room_created (Inl f) p) = r_invited p" "r_showCreate (room_created (Inl f) p) = r_showCreate p" for f
    by (cases f; simp add: rooms_page_defs)+
  ultimately show ?thesis using * by (simp add: rooms_page_defs Let_def split: if_splits)
qed

theorem room_form_creates_what_it_shows_witness:
  "r_calls (createRoom (edit_create (TickInvited True 7) (edit_create (TypeName '' Stand-up '') init_rooms))) =
     [CreateRoom ''Stand-up'' None False [7]]"
proof -
  let ?p = "edit_create (TickInvited True 7) (edit_create (TypeName '' Stand-up '') init_rooms)"
  have r: "form_reach edit_create createRoom room_created (\<lambda>p. creations (r_calls p)) init_rooms 0 ?p"
    by (intro form_reach.intros)
  have p: "r_calls ?p = []" "r_name ?p = '' Stand-up ''" "r_passcode ?p = []" "r_requireApproval ?p = False" "r_invited ?p = [7]"
    by (simp_all add: init_rooms_def tick_def)
  have "js_trim '' Stand-up '' = ''Stand-up''" "js_trim [] = []" by (simp_all add: js_trim_def js_space_def)
  with room_form_creates_what_it_shows [OF r] show ?thesis unfolding p by simp
qed

text \<open>
  A room is joined only out of no call; the passcode goes along exactly when the room asks for one; and a refused
  join leaves the call store alone.
\<close>

lemma joining_a_room:
  "(status s \<noteq> Idle \<longrightarrow> snd (doJoin env rm p s) = s \<and> r_joinError (fst (doJoin env rm p s)) \<noteq> None) \<and>
   (status s = Idle \<and> c_up env \<longrightarrow>
      (let t = snd (doJoin env rm p s) in
       status t = ConnectingCall \<and> roomId t = Some (''priv:'' @ pr_id rm) \<and>
       RoomJoin (callEpoch t) (''priv:'' @ pr_id rm) True
         (if pr_require_passcode rm then Some (r_joinPasscode p) else None) \<in> set (trace t)))"
  by (auto simp: doJoin_def joinPrivateRoom_def private_room_id_def open_room_def room_start_def Let_def emit_call_def
      private_room.defs split: if_splits)

text \<open>
  The answer to an earlier look-up is shown whatever code has been typed meanwhile: with another code in the field,
  the page offers to join the first room.
\<close>

lemma late_lookup_shows_another_room:
  assumes "r_joinLookup q = None" "q = typeJoinCode t (lookupJoinCode p)"
  shows "r_joinCode (room_looked_up (Inr rm) q) = js_upper t \<and> r_joinLookup (room_looked_up (Inr rm) q) = Some rm"
  by (simp add: assms(2) typeJoinCode_def lookupJoinCode_def room_looked_up_def rcall_def Let_def)

text \<open>The passcode typed for a room found by its code goes along when another room of the list is started.\<close>

lemma passcode_goes_to_another_room:
  assumes "status s = Idle" "c_up env" "pr_require_passcode b"
  shows "RoomJoin (callEpoch s + 1) (''priv:'' @ pr_id b) True (Some t)
    \<in> set (trace (snd (doJoin env b (typeJoinPasscode t (room_looked_up (Inr a) p)) s)))"
  using joining_a_room [of s env b "typeJoinPasscode t (room_looked_up (Inr a) p)"] assms
  by (simp add: doJoin_def joinPrivateRoom_def open_room_def room_start_def Let_def emit_call_def typeJoinPasscode_def
      private_room_id_def private_room.defs)

lemma only_the_deleted_room_goes:
  "r_rooms (room_deleted rid (Inr ()) p) = filter (\<lambda>rm. pr_id rm \<noteq> rid) (r_rooms p)"
  "r_rooms (room_deleted rid (Inl f) p) = r_rooms p"
  by (cases f; simp add: room_deleted_def)+

text \<open>A tick shows that the text was copied as long as a timer runs; two clicks in a row: the first timer ends it.\<close>

lemma copied_has_a_timer: "copied b \<longrightarrow> copy_timers b \<noteq> 0 \<Longrightarrow> copied (clickCopy t b) \<and> copy_timers (clickCopy t b) \<noteq> 0"
  by (simp add: clickCopy_def)

end
