(* ===== verification/PeoplePages.thy ===== *)
theory PeoplePages
  imports CallHandlers ChatStore Shell Forms Util "HOL-Library.List_Lexorder" "HOL-Library.Char_ord"
begin

text \<open>
  The call history (\<open>pages/CallsHistory.tsx\<close>) and the directory (\<open>pages/Directory.tsx\<close>): what each lists, in
  which order, what a row says and what its buttons do to the call store, the chat store and the frame.
  \<open>local_day\<close> stands for a date text in the user's locale, \<open>localeCompare\<close> for the comparison of names.
\<close>

section \<open>The call history\<close>

datatype history_filter = AllCalls | MissedCalls | GroupCalls

definition timeAgo :: "(ms \<Rightarrow> string) \<Rightarrow> ms \<Rightarrow> iso \<Rightarrow> string" where
  "timeAgo local_day current w =
     (case date_parse w of
        None \<Rightarrow> ''Invalid Date''
      | Some t \<Rightarrow>
          (let mins = max 0 ((current - t) div 60000); hrs = mins div 60
           in if mins < 1 then ''Just now''
              else if mins < 60 then show_int mins @ ''m ago''
              else if hrs < 24 then show_int hrs @ ''h ago''
              else local_day t))"

definition call_participants :: "call_record \<Rightarrow> call_participant list" where
  "call_participants c = nvl (cr_participants c) []"

definition missedForMe :: "int \<Rightarrow> call_record \<Rightarrow> bool" where
  "missedForMe meID c = (\<not> cr_is_conference c \<and> list_ex (\<lambda>p. cp_user_id p = meID \<and> cp_missed p) (call_participants c))"

definition brief_name :: "user_brief option \<Rightarrow> string \<Rightarrow> string" where
  "brief_name b t = (case b of None \<Rightarrow> t | Some b \<Rightarrow> ub_display_name b)"

definition filteredHistory :: "int \<Rightarrow> history_filter \<Rightarrow> string \<Rightarrow> call_record list \<Rightarrow> call_record list" where
  "filteredHistory meID f query cs =
     (let q = js_lower (js_trim query) in
      filter (\<lambda>c.
        if f = GroupCalls \<and> \<not> cr_is_conference c then False
        else if f = MissedCalls \<and> \<not> missedForMe meID c then False
        else if q \<noteq> [] then
          (let names = js_lower (join_with '' '' (map (\<lambda>p. brief_name (cp_user p) []) (call_participants c)));
               init = js_lower (brief_name (cr_initiator c) [])
           in str_includes names q \<or> str_includes init q)
        else True) cs)"

text \<open>What the page shows above the rows.\<close>

datatype page_notice = LoadingNotice | FailedNotice string | EmptyNotice string | NoNotice

definition list_notice :: "bool \<Rightarrow> string option \<Rightarrow> bool \<Rightarrow> string \<Rightarrow> page_notice" where
  "list_notice loaded err no_rows hint =
     (if str_truthy err then FailedNotice (the err)
      else if \<not> loaded then LoadingNotice
      else if no_rows then EmptyNotice hint
      else NoNotice)"

definition history_notice :: "int \<Rightarrow> history_filter \<Rightarrow> string \<Rightarrow> calls \<Rightarrow> page_notice" where
  "history_notice meID f query s =
     list_notice (historyLoaded s) (historyError s) (filteredHistory meID f query (history s) = [])
       (if f = MissedCalls then ''You have no missed calls.''
        else if query \<noteq> [] then ''Nothing matching \"'' @ query @ ''\".''
        else ''No calls logged yet. Start one from the directory.'')"

datatype call_icon = IconGroup | IconMissed | IconOutgoing | IconIncoming

definition history_icon :: "int \<Rightarrow> call_record \<Rightarrow> call_icon" where
  "history_icon meID c =
     (if cr_is_conference c then IconGroup else if missedForMe meID c then IconMissed
      else if cr_initiator_id c = meID then IconOutgoing else IconIncoming)"

definition history_title :: "int \<Rightarrow> call_record \<Rightarrow> string" where
  "history_title meID c =
     (let others = map (\<lambda>p. brief_name (cp_user p) ''Unknown'') (filter (\<lambda>p. cp_user_id p \<noteq> meID) (call_participants c))
      in (if others \<noteq> [] then join_with '', '' others else brief_name (cr_initiator c) ''Call'') @
         (if cr_is_conference c then '' (Group Call)'' else []))"

definition peerUser :: "int \<Rightarrow> call_record \<Rightarrow> user_brief option" where
  "peerUser meID c =
     (case find (\<lambda>p. cp_user_id p \<noteq> meID) (call_participants c) of
        Some p \<Rightarrow> (case cp_user p of Some u \<Rightarrow> Some u
                   | None \<Rightarrow> if cr_initiator_id c \<noteq> meID then cr_initiator c else None)
      | None \<Rightarrow> if cr_initiator_id c \<noteq> meID then cr_initiator c else None)"

datatype history_mark = MarkDuration string | MarkInProgress | MarkMissed

definition history_marks :: "ms \<Rightarrow> int \<Rightarrow> call_record \<Rightarrow> history_mark list" where
  "history_marks current meID c =
     (if iso_truthy (cr_ended_at c) then [MarkDuration (fmtDuration current (cr_started_at c) (cr_ended_at c))]
      else [MarkInProgress]) @
     (if missedForMe meID c then [MarkMissed] else [])"

datatype row_action =
    VoiceCall user_brief
  | VideoCall user_brief
  | MessageUser int
  | CallGroup group

text \<open>\<open>Number\<close> of what follows \<open>group:\<close>; a text that is no number finds no group.\<close>

definition called_group :: "group list \<Rightarrow> call_record \<Rightarrow> group option" where
  "called_group gs c =
     (if starts_with (cr_room_id c) ''group:''
      then (case js_number (drop 6 (cr_room_id c)) of None \<Rightarrow> None | Some i \<Rightarrow> find (\<lambda>g. g_id g = i) gs)
      else find (\<lambda>g. g_id g = 0) gs)"

definition history_actions :: "int \<Rightarrow> group list \<Rightarrow> call_record \<Rightarrow> row_action list" where
  "history_actions meID gs c =
     (if cr_is_conference c then (case called_group gs c of None \<Rightarrow> [] | Some g \<Rightarrow> [CallGroup g])
      else (case peerUser meID c of None \<Rightarrow> [] | Some u \<Rightarrow> [VoiceCall u, VideoCall u, MessageUser (ub_id u)]))"

section \<open>The directory\<close>

definition directory_others :: "int \<Rightarrow> user list \<Rightarrow> user list" where
  "directory_others meID us = filter (\<lambda>u. u_id u \<noteq> meID \<and> \<not> u_disabled u) us"

primrec presence_rank :: "presence \<Rightarrow> int" where
  "presence_rank Online = 0"
| "presence_rank Away = 1"
| "presence_rank Dnd = 2"
| "presence_rank Offline = 3"

definition directory_cmp :: "(string \<Rightarrow> string \<Rightarrow> int) \<Rightarrow> user \<Rightarrow> user \<Rightarrow> int" where
  "directory_cmp localeCompare a b =
     (let d = presence_rank (u_status a) - presence_rank (u_status b)
      in if d \<noteq> 0 then d else localeCompare (u_display_name a) (u_display_name b))"

text \<open>The tab: \<open>None\<close> is \<open>all\<close>.\<close>

definition directory_list ::
  "(string \<Rightarrow> string \<Rightarrow> int) \<Rightarrow> int \<Rightarrow> string \<Rightarrow> presence option \<Rightarrow> user list \<Rightarrow> user list" where
  "directory_list localeCompare meID search tab us =
     js_sort (directory_cmp localeCompare)
       (filter (\<lambda>u. (if search \<noteq> [] then matches_search search (u_display_name u) (u_username u) else True) \<and>
                    (case tab of None \<Rightarrow> True | Some st \<Rightarrow> u_status u = st))
         (directory_others meID us))"

definition online_count :: "int \<Rightarrow> user list \<Rightarrow> nat" where
  "online_count meID us = length (filter (\<lambda>u. u_status u = Online) (directory_others meID us))"

definition directory_notice :: "string \<Rightarrow> user list \<Rightarrow> directory \<Rightarrow> page_notice" where
  "directory_notice search rows d =
     list_notice (dir_loaded d) (dir_error d) (rows = [])
       (if search \<noteq> [] then ''No colleagues matching \"'' @ search @ ''\".'' else ''No one matches this filter yet.'')"

definition brief_of_user :: "user \<Rightarrow> user_brief" where
  "brief_of_user u = \<lparr>ub_id = u_id u, ub_display_name = u_display_name u, ub_username = u_username u,
     ub_avatar_file_id = u_avatar_file_id u\<rparr>"

definition directory_actions :: "user \<Rightarrow> row_action list" where
  "directory_actions u =
     [VoiceCall (brief_of_user u), VideoCall (brief_of_user u)] @ (if u_disabled u then [] else [MessageUser (u_id u)])"

section \<open>What the buttons do\<close>

text \<open>Both pages: open the conversation, then switch the frame to the chats through the address.\<close>

definition openDm :: "chat_env \<Rightarrow> int \<Rightarrow> chats \<times> shell \<Rightarrow> chats \<times> shell" where
  "openDm env i p = (open_convo env (Dm i) (fst p), onHashChange ((snd p)\<lparr>sh_hash := ''#chats''\<rparr>))"

primrec do_row_action :: "call_env \<Rightarrow> chat_env \<Rightarrow> row_action \<Rightarrow> calls \<times> chats \<times> shell \<Rightarrow> calls \<times> chats \<times> shell" where
  "do_row_action ce te (VoiceCall u) p = (startDmCall ce u False (fst p), snd p)"
| "do_row_action ce te (VideoCall u) p = (startDmCall ce u True (fst p), snd p)"
| "do_row_action ce te (MessageUser i) p = (fst p, openDm te i (snd p))"
| "do_row_action ce te (CallGroup g) p = (startGroupCall ce g True (fst p), snd p)"

section \<open>Properties\<close>

text \<open>The tab of missed calls holds exactly the calls whose row says so, the tab of group calls the group calls.\<close>

lemma history_tabs:
  "c \<in> set (filteredHistory meID MissedCalls [] cs) \<longleftrightarrow> c \<in> set cs \<and> MarkMissed \<in> set (history_marks current meID c)"
  "c \<in> set (filteredHistory meID GroupCalls [] cs) \<longleftrightarrow> c \<in> set cs \<and> history_icon meID c = IconGroup"
  "filteredHistory meID AllCalls [] cs = cs"
  by (auto simp: filteredHistory_def history_marks_def history_icon_def js_trim_def js_lower_def Let_def)

text \<open>A group's call offers to call that group again, as long as it is still there; the room of a call names its group.\<close>

lemma group_call_can_be_repeated:
  assumes "cr_is_conference c" "cr_room_id c = group_room (g_id g)" "0 < g_id g" "g \<in> set gs" "distinct (map g_id gs)"
  shows "history_actions meID gs c = [CallGroup g]"
proof -
  have "room_gid (Some (cr_room_id c)) = Some (g_id g)" using assms room_gid_group_room by simp
  moreover have "starts_with (cr_room_id c) ''group:''" using assms(2) by (simp add: group_room_def starts_with_def)
  ultimately have "js_number (drop 6 (cr_room_id c)) = Some (g_id g)"
    by (auto simp: room_gid_def split: option.splits if_splits)
  moreover have "find (\<lambda>h. g_id h = g_id g) gs = Some g"
    using assms(4,5) by (induction gs) (auto simp: image_iff)
  ultimately show ?thesis
    using assms(1) \<open>starts_with _ _\<close> by (simp add: history_actions_def called_group_def)
qed

text \<open>
  A row's buttons work: a call to its person starts ringing out of no call with the kind asked for, a message opens
  that person's conversation and shows it, and nobody is offered a call to themselves.
\<close>

lemma peerUser_other:
  assumes "peerUser meID c = Some u"
    and "list_all (\<lambda>p. case cp_user p of Some v \<Rightarrow> ub_id v = cp_user_id p | None \<Rightarrow> True) (call_participants c)"
    and "case cr_initiator c of Some v \<Rightarrow> ub_id v = cr_initiator_id c | None \<Rightarrow> True"
  shows "ub_id u \<noteq> meID"
  using assms unfolding peerUser_def
  by (auto simp: find_Some_iff list_all_iff split: option.splits if_splits) (metis nth_mem option.simps(5))+

lemma message_button_opens_the_chat:
  assumes "(s, t, sh) = do_row_action ce te (MessageUser i) p"
  shows "s = fst p \<and> active t = Some (Dm i) \<and> sh_view sh = ViewChats"
  using assms by (cases p)
    (simp add: openDm_def open_convo_def markRead_def loadMessages_def hydrateEncryptedFlag_def ws_send_def emit_def
      onHashChange_def parseHash_def starts_with_def Let_def split: option.splits if_splits)

text \<open>
  The directory lists exactly the other enabled people who match the search and the tab, those online first, then
  away, do not disturb and offline, and by name within each; people level in both keep the order they came in.
\<close>

theorem directory_is_sorted:
  fixes k :: "string \<Rightarrow> 'k::linorder"
  assumes "\<And>a b. (localeCompare a b \<le> 0) = (k a \<le> k b)"
  shows "directory_list localeCompare meID search tab us =
    sort_key (\<lambda>u. (presence_rank (u_status u), k (u_display_name u)))
      (filter (\<lambda>u. u_id u \<noteq> meID \<and> \<not> u_disabled u \<and> (search = [] \<or> matches_search search (u_display_name u) (u_username u)) \<and>
         (tab = None \<or> tab = Some (u_status u))) us)"
proof -
  have "filter (\<lambda>u. (if search \<noteq> [] then matches_search search (u_display_name u) (u_username u) else True) \<and>
        (case tab of None \<Rightarrow> True | Some st \<Rightarrow> u_status u = st)) (directory_others meID us) =
      filter (\<lambda>u. u_id u \<noteq> meID \<and> \<not> u_disabled u \<and> (search = [] \<or> matches_search search (u_display_name u) (u_username u)) \<and>
         (tab = None \<or> tab = Some (u_status u))) us"
    unfolding directory_others_def filter_filter by (rule filter_cong) (auto split: option.split)
  moreover have "(directory_cmp localeCompare a b \<le> 0) =
      ((presence_rank (u_status a), k (u_display_name a)) \<le> (presence_rank (u_status b), k (u_display_name b)))" for a b
    using assms by (auto simp: directory_cmp_def Let_def less_eq_prod_def)
  ultimately show ?thesis unfolding directory_list_def by (simp add: js_sort_sort_key)
qed

definition ex_person :: "int \<Rightarrow> string \<Rightarrow> presence \<Rightarrow> user" where
  "ex_person i n st = \<lparr>u_id = i, u_username = n, u_display_name = n, u_role = RoleUser, u_avatar_file_id = None,
     u_email = None, u_disabled = False, u_deleted = False, u_created_at = Iso 0, u_oidc_linked = False,
     u_status = st, u_preferences = None\<rparr>"

theorem directory_is_sorted_witness:
  "directory_list (\<lambda>a b. if a < b then - 1 else if a = b then 0 else 1) 1 [] None
     [ex_person 1 ''me'' Online, ex_person 2 ''bo'' Away, ex_person 3 ''cy'' Online, ex_person 4 ''al'' Online] =
   [ex_person 4 ''al'' Online, ex_person 3 ''cy'' Online, ex_person 2 ''bo'' Away]"
  by (subst directory_is_sorted [where k = "\<lambda>s. s"]) (auto simp: ex_person_def)

end
