(* ===== verification/Widgets.thy ===== *)
theory Widgets
  imports Stores Util Strings
begin

text \<open>
  The shared widgets (\<open>components/ui.tsx\<close>, \<open>lib/cx.ts\<close>): avatars, the focus trap of every dialog, modals,
  switches, menus, buttons, tooltips and the toasts on screen. A widget's local state is a record, a click or
  key a function on it; callbacks of the parent are names in the result. Elements of the page are numbers.
\<close>

section \<open>Class names and avatars\<close>

text \<open>A class that is \<open>false\<close>, \<open>null\<close> or \<open>undefined\<close> is \<open>None\<close>.\<close>

definition cx :: "string option list \<Rightarrow> string" where
  "cx classes = join_with '' '' (map the (filter str_truthy classes))"

text \<open>\<open>s.split(/\s+/)\<close>.\<close>

function split_space :: "string \<Rightarrow> string list" where
  "split_space s =
     (case dropWhile (\<lambda>c. \<not> js_space c) s of
        [] \<Rightarrow> [s]
      | c # r \<Rightarrow> takeWhile (\<lambda>c. \<not> js_space c) s # split_space (dropWhile js_space r))"
  by pat_completeness auto
termination
proof (relation "measure length")
  fix s r :: string and c
  assume "dropWhile (\<lambda>c. \<not> js_space c) s = c # r"
  then have "Suc (length r) \<le> length s" by (metis length_Cons length_dropWhile_le)
  then show "(dropWhile js_space r, s) \<in> measure length"
    using length_dropWhile_le [of js_space r] by simp
qed simp

declare split_space.simps [simp del]

definition initials :: "string \<Rightarrow> string" where
  "initials name =
     (let parts = take 2 (split_space (js_trim name));
          t = concat (map (\<lambda>p. js_upper (take 1 p)) parts)
      in if t = [] then ''?'' else t)"

record avatar =
  av_file :: "int option"
  av_failed :: bool

definition avatar_file_changed :: "int option \<Rightarrow> avatar \<Rightarrow> avatar" where
  "avatar_file_changed f a = (if av_file a = f then a else \<lparr>av_file = f, av_failed = False\<rparr>)"

definition avatar_error :: "avatar \<Rightarrow> avatar" where
  "avatar_error a = a\<lparr>av_failed := True\<rparr>"

datatype avatar_view = AvatarImage string | AvatarInitials string string

definition Avatar :: "string \<Rightarrow> int \<Rightarrow> avatar \<Rightarrow> avatar_view" where
  "Avatar name i a =
     (case av_file a of
        Some f \<Rightarrow> if \<not> av_failed a then AvatarImage (''/api/files/'' @ show_int f)
                  else AvatarInitials (avatarColor i) (initials name)
      | None \<Rightarrow> AvatarInitials (avatarColor i) (initials name))"

definition PresenceDot :: "string \<Rightarrow> string" where
  "PresenceDot status =
     (if status = ''online'' then ''bg-emerald-500 shadow-sm shadow-emerald-500/50''
      else if status = ''away'' then ''bg-amber-400''
      else if status = ''dnd'' then ''bg-rose-500''
      else ''bg-zinc-400 dark:bg-zinc-600'')"

section \<open>The focus trap\<close>

text \<open>
  A dialog on the page: its container, the elements in it that can take the focus now, in the order of the
  document, the one marked \<open>autofocus\<close> and the one the caller names; and the element that had the focus.
\<close>

record dialog =
  dg_container :: nat
  dg_focusable :: "nat list"
  dg_autofocus :: "nat option"
  dg_initial :: "nat option"
  dg_previous :: "nat option"

text \<open>The dialog opens, with the focus on \<open>act\<close>: what has the focus then.\<close>

definition trap_open :: "nat option \<Rightarrow> dialog \<Rightarrow> dialog \<times> nat" where
  "trap_open act d =
     (d\<lparr>dg_previous := act\<rparr>,
      case dg_initial d of Some e \<Rightarrow> e
      | None \<Rightarrow> (case dg_autofocus d of Some e \<Rightarrow> e
                | None \<Rightarrow> (case dg_focusable d of e # _ \<Rightarrow> e | [] \<Rightarrow> dg_container d)))"

text \<open>A key: the dialog is closed, the focus is moved (and the browser kept from moving it), or nothing.\<close>

datatype trap_result = TrapClose | TrapFocus nat | TrapNothing

definition trap_key :: "string \<Rightarrow> bool \<Rightarrow> nat \<Rightarrow> dialog \<Rightarrow> trap_result" where
  "trap_key k shift act d =
     (if k = ''Escape'' then TrapClose
      else if k \<noteq> ''Tab'' then TrapNothing
      else if dg_focusable d = [] then TrapFocus (dg_container d)
      else if shift \<and> act = hd (dg_focusable d) then TrapFocus (last (dg_focusable d))
      else if \<not> shift \<and> act = last (dg_focusable d) then TrapFocus (hd (dg_focusable d))
      else TrapNothing)"

text \<open>The dialog closes: what gets the focus back, if it is still in the page.\<close>

definition trap_close :: "(nat \<Rightarrow> bool) \<Rightarrow> dialog \<Rightarrow> nat option" where
  "trap_close in_page d = (case dg_previous d of None \<Rightarrow> None | Some e \<Rightarrow> if in_page e then Some e else None)"

section \<open>Modals and switches\<close>

datatype modal_click = ClickBackdrop | ClickInside | ClickCross

text \<open>Whether \<open>onClose\<close> runs: a click inside does not reach the backdrop.\<close>

primrec modal_closes :: "modal_click \<Rightarrow> bool" where
  "modal_closes ClickBackdrop = True"
| "modal_closes ClickInside = False"
| "modal_closes ClickCross = True"

definition Switch :: "bool \<Rightarrow> bool \<Rightarrow> bool option" where
  "Switch checked off = (if off then None else Some (\<not> checked))"

section \<open>Buttons\<close>

definition button_disabled :: "bool \<Rightarrow> bool \<Rightarrow> bool" where
  "button_disabled off loading = (off \<or> loading)"

definition icon_button_title :: "string \<Rightarrow> string option \<Rightarrow> string" where
  "icon_button_title label ti = nvl ti label"

text \<open>A field shows its error, or else its hint.\<close>

definition field_note :: "string option \<Rightarrow> string option \<Rightarrow> string option" where
  "field_note hint err = (if str_truthy err then err else if str_truthy hint then hint else None)"

datatype alert_variant = AlertSuccess | AlertError | AlertWarning | AlertInfo

definition alert_role :: "alert_variant \<Rightarrow> string" where
  "alert_role v = (if v = AlertError \<or> v = AlertWarning then ''alert'' else ''status'')"

section \<open>Menus\<close>

record menu =
  mn_open :: bool
  mn_trigger_focus :: nat
  mn_clicked :: "nat list"

text \<open>
  \<open>mn_trigger_focus\<close> counts how often the trigger was given the focus, \<open>mn_clicked\<close> logs the items chosen. An
  item that is a direct child of the menu is cloned with \<open>onSelect\<close>; one inside a fragment is not.
\<close>

datatype menu_event =
    MenuToggle
  | MenuPointer bool
  | MenuKey string
  | MenuChoose nat bool bool

primrec menu_step :: "menu_event \<Rightarrow> menu \<Rightarrow> menu" where
  "menu_step MenuToggle m = m\<lparr>mn_open := \<not> mn_open m\<rparr>"
| "menu_step (MenuPointer inside) m = (if mn_open m \<and> \<not> inside then m\<lparr>mn_open := False\<rparr> else m)"
| "menu_step (MenuKey k) m =
     (if mn_open m \<and> k = ''Escape'' then m\<lparr>mn_open := False, mn_trigger_focus := mn_trigger_focus m + 1\<rparr> else m)"
| "menu_step (MenuChoose i child off) m =
     (if \<not> mn_open m \<or> off then m
      else (m\<lparr>mn_clicked := mn_clicked m @ [i]\<rparr>)\<lparr>mn_open := \<not> child\<rparr>)"

section \<open>Tooltips\<close>

datatype tooltip_event = MouseEnter | MouseLeave | GotFocus | LostFocus

primrec tooltip_step :: "tooltip_event \<Rightarrow> bool \<Rightarrow> bool" where
  "tooltip_step MouseEnter v = True"
| "tooltip_step MouseLeave v = False"
| "tooltip_step GotFocus v = True"
| "tooltip_step LostFocus v = False"

section \<open>Toasts on screen\<close>

definition toast_role :: "toast \<Rightarrow> string" where
  "toast_role t = (if t_variant t = ErrorToast then ''alert'' else ''status'')"

text \<open>A click on a toast: the handler that runs, and the store afterwards.\<close>

definition click_toast :: "toast \<Rightarrow> toasts_state \<Rightarrow> string option \<times> toasts_state" where
  "click_toast t s = (case t_onClick t of None \<Rightarrow> (None, s) | Some h \<Rightarrow> (Some h, dismiss (t_id t) s))"

text \<open>The cross stops the click from reaching the toast.\<close>

definition click_toast_cross :: "toast \<Rightarrow> toasts_state \<Rightarrow> string option \<times> toasts_state" where
  "click_toast_cross t s = (None, dismiss (t_id t) s)"

section \<open>Properties\<close>

lemma cx_skips_what_is_off: "cx [Some ''a'', None, Some [], Some ''b''] = ''a b''"
  by (simp add: cx_def)

lemma initials_nonempty: "initials name \<noteq> []"
  by (simp add: initials_def Let_def)

lemma initials_examples: "initials ''  ada king lovelace '' = ''AK''" "initials ''   '' = ''?''"
  by (simp_all add: initials_def js_trim_def js_space_def split_space.simps js_upper_def char_of_def bit_0)

text \<open>A picture that failed to load gives way to the initials until another picture is set.\<close>

lemma failed_picture_shows_initials:
  "Avatar name i (avatar_error a) = AvatarInitials (avatarColor i) (initials name)"
  "f \<noteq> av_file a \<Longrightarrow> Avatar name i (avatar_file_changed (Some f') (avatar_error a)) =
     (if av_file a = Some f' then AvatarInitials (avatarColor i) (initials name) else AvatarImage (''/api/files/'' @ show_int f'))"
  by (simp_all add: Avatar_def avatar_error_def avatar_file_changed_def split: option.split)

text \<open>
  The tab key walks round the dialog: \<open>browser\<close> is where the browser moves the focus by itself, which within the dialog
  is the next element of the document's order, or the one before with the shift key.
\<close>

definition press_tab :: "(bool \<Rightarrow> nat \<Rightarrow> nat) \<Rightarrow> bool \<Rightarrow> dialog \<Rightarrow> nat \<Rightarrow> nat" where
  "press_tab browser shift d act = (case trap_key ''Tab'' shift act d of TrapFocus e \<Rightarrow> e | _ \<Rightarrow> browser shift act)"

definition browser_order :: "(bool \<Rightarrow> nat \<Rightarrow> nat) \<Rightarrow> nat list \<Rightarrow> bool" where
  "browser_order browser es \<longleftrightarrow> (\<forall>i. Suc i < length es \<longrightarrow>
     browser False (es ! i) = es ! Suc i \<and> browser True (es ! Suc i) = es ! i)"

lemma press_tab_forward:
  assumes "browser_order browser (dg_focusable d)" "distinct (dg_focusable d)" "i < length (dg_focusable d)"
  shows "press_tab browser False d (dg_focusable d ! i) = dg_focusable d ! (Suc i mod length (dg_focusable d))"
proof -
  let ?es = "dg_focusable d"
  have ne: "?es \<noteq> []" using assms(3) by auto
  show ?thesis
  proof (cases "Suc i = length ?es")
    case True
    then have "?es ! i = last ?es" using ne by (metis diff_Suc_1 last_conv_nth)
    with True ne show ?thesis by (simp add: press_tab_def trap_key_def hd_conv_nth)
  next
    case False
    then have i: "Suc i < length ?es" using assms(3) by simp
    then have "?es ! i \<noteq> last ?es" using assms(2) ne by (simp add: last_conv_nth nth_eq_iff_index_eq)
    with i ne assms(1) show ?thesis by (simp add: press_tab_def trap_key_def browser_order_def)
  qed
qed

lemma press_tab_backward:
  assumes "browser_order browser (dg_focusable d)" "distinct (dg_focusable d)" "i < length (dg_focusable d)"
  shows "press_tab browser True d (dg_focusable d ! i) = dg_focusable d ! ((i + length (dg_focusable d) - 1) mod length (dg_focusable d))"
proof (cases i)
  case 0
  then show ?thesis using assms(3) by (cases "dg_focusable d" rule: rev_cases) (auto simp: press_tab_def trap_key_def hd_conv_nth nth_append)
next
  case (Suc j)
  let ?es = "dg_focusable d"
  have "hd ?es = ?es ! 0" using assms(3) by (cases ?es) simp_all
  then have "?es ! i \<noteq> hd ?es" using assms(2,3) Suc nth_eq_iff_index_eq [of ?es i 0] by fastforce
  moreover have "browser True (?es ! i) = ?es ! j" using assms(1,3) Suc by (simp add: browser_order_def)
  moreover have "?es \<noteq> []" using assms(3) by auto
  ultimately show ?thesis using assms(3) Suc by (simp add: press_tab_def trap_key_def)
qed

text \<open>
  The focus never leaves an open dialog by the tab key: \<open>n\<close> presses from one of its elements go \<open>n\<close> elements on,
  starting again at the first after the last; and going back undoes going forward.
\<close>

theorem tab_walks_round_the_dialog:
  assumes "browser_order browser (dg_focusable d)" "distinct (dg_focusable d)" "i < length (dg_focusable d)"
  shows "(press_tab browser False d ^^ n) (dg_focusable d ! i) = dg_focusable d ! ((i + n) mod length (dg_focusable d)) \<and>
    press_tab browser True d (press_tab browser False d (dg_focusable d ! i)) = dg_focusable d ! i"
proof -
  let ?L = "length (dg_focusable d)"
  have L: "0 < ?L" using assms(3) by linarith
  have "(press_tab browser False d ^^ n) (dg_focusable d ! i) = dg_focusable d ! ((i + n) mod ?L)"
  proof (induction n)
    case 0
    show ?case using assms(3) by simp
  next
    case (Suc n)
    then show ?case using press_tab_forward [OF assms(1,2), of "(i + n) mod ?L"] L by (simp add: mod_Suc_eq)
  qed
  moreover have "(Suc i mod ?L + ?L - 1) mod ?L = i"
    using assms(3) by (cases "Suc i = ?L") auto
  then have "press_tab browser True d (press_tab browser False d (dg_focusable d ! i)) = dg_focusable d ! i"
    using press_tab_forward [OF assms] press_tab_backward [OF assms(1,2), of "Suc i mod ?L"] L by simp
  ultimately show ?thesis by blast
qed

definition ex_dialog :: dialog where
  "ex_dialog = \<lparr>dg_container = 50, dg_focusable = [3, 4, 5], dg_autofocus = None, dg_initial = None, dg_previous = None\<rparr>"

theorem tab_walks_round_the_dialog_witness:
  "(press_tab (\<lambda>b e. if b then e - 1 else e + 1) False ex_dialog ^^ 4) 3 = 4"
proof -
  have "browser_order (\<lambda>b e. if b then e - 1 else e + 1) (dg_focusable ex_dialog)"
    by (auto simp: browser_order_def ex_dialog_def less_Suc_eq numeral_eq_Suc)
  moreover have "distinct (dg_focusable ex_dialog)" "0 < length (dg_focusable ex_dialog)" by (simp_all add: ex_dialog_def)
  ultimately show ?thesis
    using tab_walks_round_the_dialog [of "\<lambda>b e. if b then e - 1 else e + 1" ex_dialog 0 4] by (simp add: ex_dialog_def)
qed

text \<open>
  The container itself can have the focus (a click on the dialog's text gives it), and from there the shift key and tab
  are left to the browser, which goes to what comes before the dialog in the page.
\<close>

lemma backtab_leaves_from_the_container:
  assumes "dg_focusable d \<noteq> []" "dg_container d \<notin> set (dg_focusable d)"
  shows "press_tab browser True d (dg_container d) = browser True (dg_container d)"
  using assms by (auto simp: press_tab_def trap_key_def)

text \<open>Opening and closing a dialog gives the focus back.\<close>

lemma focus_is_given_back: "in_page e \<Longrightarrow> trap_close in_page (fst (trap_open (Some e) d)) = Some e"
  by (simp add: trap_close_def trap_open_def)

text \<open>A closed menu chooses nothing; an item chosen directly closes it, after the item's own handler ran.\<close>

lemma menu_choice:
  "\<not> mn_open m \<Longrightarrow> menu_step (MenuChoose i child off) m = m"
  "mn_open m \<Longrightarrow> menu_step (MenuChoose i True False) m = m\<lparr>mn_open := False, mn_clicked := mn_clicked m @ [i]\<rparr>"
  by simp_all

lemma clicked_toast_goes:
  "t_onClick t = Some h \<Longrightarrow> t \<notin> set (toasts (snd (click_toast t s)))"
  "t \<notin> set (toasts (snd (click_toast_cross t s))) \<and> fst (click_toast_cross t s) = None"
  by (simp_all add: click_toast_def click_toast_cross_def dismiss_def)

end
