(* ===== verification/CallDialogs.thy ===== *)
theory CallDialogs
  imports CallHandlers Widgets Forms
begin

text \<open>
  The dialogs around a call: who is in it and what the host may do (\<open>components/ParticipantsSidebar.tsx\<close>), the
  invitation on screen (\<open>components/IncomingCallModal.tsx\<close>), and the requests to join a private room
  (\<open>components/RoomJoinRequests.tsx\<close>). Their buttons act on the call store.
\<close>

section \<open>The participants\<close>

datatype host_action = Mute | MuteLock | Unlock | Kick | GrantPresent | RevokePresent

record sidebar =
  sb_search :: string
  sb_kickTarget :: "participant_info option"

definition myInfo :: "int \<Rightarrow> calls \<Rightarrow> participant_info option" where
  "myInfo meID s = find (\<lambda>p. p_user_id p = meID) (participants s)"

definition isHost :: "int \<Rightarrow> calls \<Rightarrow> bool" where
  "isHost meID s = (case myInfo meID s of None \<Rightarrow> False | Some p \<Rightarrow> p_host p)"

definition isPrivateRoom :: "calls \<Rightarrow> bool" where
  "isPrivateRoom s = (case roomId s of None \<Rightarrow> False | Some r \<Rightarrow> starts_with r ''priv:'')"

text \<open>The effect that asks for the list of those invited.\<close>

definition sidebar_effect :: "call_env \<Rightarrow> int \<Rightarrow> calls \<Rightarrow> calls" where
  "sidebar_effect env meID s = (if isHost meID s \<and> isPrivateRoom s then fetchRoster env s else s)"

definition filteredParticipants :: "sidebar \<Rightarrow> calls \<Rightarrow> participant_info list" where
  "filteredParticipants b s =
     (let q = js_lower (js_trim (sb_search b))
      in if q \<noteq> [] then filter (\<lambda>p. str_includes (js_lower (p_display_name p)) q) (participants s) else participants s)"

definition notJoined :: "calls \<Rightarrow> user_brief list" where
  "notJoined s =
     (case roster s of
        None \<Rightarrow> []
      | Some r \<Rightarrow>
          (let joined = ro_joined r @ map p_user_id (participants s)
           in filter (\<lambda>u. ub_id u \<notin> set joined) (ro_invitees r)))"

text \<open>The invited people are listed for the host of a private room only.\<close>

definition listed_invitees :: "int \<Rightarrow> calls \<Rightarrow> user_brief list" where
  "listed_invitees meID s = (if isHost meID s \<and> isPrivateRoom s then notJoined s else [])"

text \<open>What a row says of a person, and the menu it offers.\<close>

datatype mic_sign = MicLocked | MicMuted | MicLive

definition mic_mark :: "participant_info \<Rightarrow> mic_sign" where
  "mic_mark p = (if p_locked p then MicLocked else if p_muted p then MicMuted else MicLive)"

definition presenter_mark :: "bool \<Rightarrow> participant_info \<Rightarrow> bool" where
  "presenter_mark restricted p = (restricted \<and> p_can_present p \<and> \<not> p_host p)"

definition row_menu :: "int \<Rightarrow> calls \<Rightarrow> participant_info \<Rightarrow> host_action list" where
  "row_menu meID s p =
     (if isHost meID s \<and> p_user_id p \<noteq> meID
      then (if p_muted p then [] else [Mute]) @
           (if p_locked p then [Unlock] else [MuteLock]) @
           (if presenterOnly s then (if p_can_present p then [RevokePresent] else [GrantPresent]) else []) @
           [Kick]
      else [])"

primrec act :: "call_env \<Rightarrow> int \<Rightarrow> host_action \<Rightarrow> sidebar \<times> calls \<Rightarrow> sidebar \<times> calls" where
  "act env u Mute p = (fst p, muteParticipant env u False (snd p))"
| "act env u MuteLock p = (fst p, muteParticipant env u True (snd p))"
| "act env u Unlock p = (fst p, unlockParticipant env u (snd p))"
| "act env u Kick p =
     ((case find (\<lambda>q. p_user_id q = u) (participants (snd p)) of
         None \<Rightarrow> fst p | Some q \<Rightarrow> (fst p)\<lparr>sb_kickTarget := Some q\<rparr>), snd p)"
| "act env u GrantPresent p = (fst p, setPresenter env u True (snd p))"
| "act env u RevokePresent p = (fst p, setPresenter env u False (snd p))"

definition confirmKick :: "call_env \<Rightarrow> sidebar \<times> calls \<Rightarrow> sidebar \<times> calls" where
  "confirmKick env p =
     ((fst p)\<lparr>sb_kickTarget := None\<rparr>,
      case sb_kickTarget (fst p) of None \<Rightarrow> snd p | Some q \<Rightarrow> kickParticipant env (p_user_id q) (snd p))"

definition cancelKick :: "sidebar \<Rightarrow> sidebar" where
  "cancelKick b = b\<lparr>sb_kickTarget := None\<rparr>"

section \<open>The invitation\<close>

datatype invitation = NoInvitation | VideoInvitation incoming_call | VoiceInvitation incoming_call | RoomInvitation room_invite

definition IncomingCallModal :: "calls \<Rightarrow> invitation" where
  "IncomingCallModal s =
     (if status s \<noteq> Idle then NoInvitation
      else case incoming s of
        Some i \<Rightarrow> if in_video i then VideoInvitation i else VoiceInvitation i
      | None \<Rightarrow> (case roomInvite s of None \<Rightarrow> NoInvitation | Some r \<Rightarrow> RoomInvitation r))"

datatype invitation_button = DeclineButton | AnswerVoice | AnswerVideo | AcceptButton | IgnoreButton | JoinButton

definition invitation_buttons :: "invitation \<Rightarrow> invitation_button list" where
  "invitation_buttons i = (case i of
     NoInvitation \<Rightarrow> []
   | VideoInvitation _ \<Rightarrow> [DeclineButton, AnswerVoice, AnswerVideo]
   | VoiceInvitation _ \<Rightarrow> [DeclineButton, AcceptButton]
   | RoomInvitation _ \<Rightarrow> [IgnoreButton, JoinButton])"

primrec press_invitation :: "call_env \<Rightarrow> invitation_button \<Rightarrow> calls \<Rightarrow> calls" where
  "press_invitation env DeclineButton s = declineIncoming env s"
| "press_invitation env AnswerVoice s = acceptIncoming env (Some False) s"
| "press_invitation env AnswerVideo s = acceptIncoming env (Some True) s"
| "press_invitation env AcceptButton s = acceptIncoming env None s"
| "press_invitation env IgnoreButton s = declineRoomInvite s"
| "press_invitation env JoinButton s = acceptRoomInvite s"

text \<open>The escape key of the dialog's focus trap.\<close>

definition invitation_key :: "call_env \<Rightarrow> string \<Rightarrow> bool \<Rightarrow> nat \<Rightarrow> dialog \<Rightarrow> calls \<Rightarrow> calls" where
  "invitation_key env k shift focus d s =
     (if status s \<noteq> Idle \<or> (incoming s = None \<and> roomInvite s = None) then s
      else case trap_key k shift focus d of
        TrapClose \<Rightarrow> (if incoming s \<noteq> None then declineIncoming env s else declineRoomInvite s)
      | _ \<Rightarrow> s)"

section \<open>Requests to join\<close>

datatype join_answer = Admit | Deny

definition answer_request :: "call_env \<Rightarrow> join_request \<Rightarrow> join_answer \<Rightarrow> calls \<Rightarrow> calls" where
  "answer_request env q a s =
     (case a of Admit \<Rightarrow> admitJoinRequest env (jr_roomId q) (ub_id (jr_from q)) s
      | Deny \<Rightarrow> denyJoinRequest env (jr_roomId q) (ub_id (jr_from q)) s)"

section \<open>Properties\<close>

text \<open>The frame an action sends, \<open>None\<close> for removing someone, which first asks.\<close>

primrec host_frame :: "int \<Rightarrow> host_action \<Rightarrow> ws_frame option" where
  "host_frame u Mute = Some (''room:mute-request'', JObj [(''target_user_id'', JNum u), (''lock'', JBool False)])"
| "host_frame u MuteLock = Some (''room:mute-request'', JObj [(''target_user_id'', JNum u), (''lock'', JBool True)])"
| "host_frame u Unlock = Some (''room:unlock-request'', JObj [(''target_user_id'', JNum u)])"
| "host_frame u Kick = None"
| "host_frame u GrantPresent = Some (''room:presenter-request'', JObj [(''target_user_id'', JNum u), (''allowed'', JBool True)])"
| "host_frame u RevokePresent = Some (''room:presenter-request'', JObj [(''target_user_id'', JNum u), (''allowed'', JBool False)])"

lemmas sidebar_defs = muteParticipant_def unlockParticipant_def kickParticipant_def setPresenter_def send_or_toast_def
  send_call_def emit_call_def

lemma find_participant:
  assumes "p \<in> set ps" "distinct (map p_user_id ps)"
  shows "find (\<lambda>q. p_user_id q = p_user_id p) ps = Some p"
  using assms by (induction ps) (auto simp: image_iff)

lemma act_sends:
  assumes "c_up env" "host_frame u a = Some f"
  shows "act env u a (b, s) = (b, s\<lparr>trace := trace s @ [CallFrame f]\<rparr>)"
  using assms by (cases a) (auto simp: sidebar_defs)

text \<open>
  The menu of a row is offered to the host alone, and never for their own row; what is chosen there sends the one frame it
  stands for, to that person; removing someone sends nothing until it is confirmed, and nothing if it is not.
\<close>

theorem host_actions_do_what_they_say:
  assumes "c_up env" "a \<in> set (row_menu meID s p)" "p \<in> set (participants s)" "distinct (map p_user_id (participants s))"
  shows "isHost meID s \<and> p_user_id p \<noteq> meID \<and>
    (case host_frame (p_user_id p) a of
       Some f \<Rightarrow> act env (p_user_id p) a (b, s) = (b, s\<lparr>trace := trace s @ [CallFrame f]\<rparr>)
     | None \<Rightarrow>
         (let q = act env (p_user_id p) a (b, s) in
          snd q = s \<and> sb_kickTarget (fst q) = Some p \<and> sb_kickTarget (cancelKick (fst q)) = None \<and>
          confirmKick env q = (b\<lparr>sb_kickTarget := None\<rparr>,
            s\<lparr>trace := trace s @ [CallFrame (''room:kick-request'', JObj [(''target_user_id'', JNum (p_user_id p))])]\<rparr>)))"
proof (cases "host_frame (p_user_id p) a")
  case None
  then have "a = Kick" by (cases a) simp_all
  with assms find_participant [OF assms(3,4)] show ?thesis
    by (auto simp: row_menu_def confirmKick_def cancelKick_def sidebar_defs Let_def split: if_splits)
next
  case (Some f)
  with assms act_sends [OF assms(1) Some] show ?thesis by (auto simp: row_menu_def split: if_splits)
qed

definition ex_guest :: "int \<Rightarrow> bool \<Rightarrow> participant_info" where
  "ex_guest i host = \<lparr>p_user_id = i, p_display_name = ''p'', p_avatar_file_id = None, p_muted = False, p_video_on = True,
     p_screen = False, p_host = host, p_locked = False, p_can_present = False\<rparr>"

definition ex_call_env :: call_env where
  "ex_call_env = \<lparr>c_now = 0, c_up = True, c_replaced = False, c_me = Some 1, c_uuid = ''u'',
     engine = (\<lambda>e. \<lparr>ev_localStream = None, ev_remoteStream = [], ev_screenStream = None, ev_remoteTracks = Map.empty\<rparr>)\<rparr>"

theorem host_actions_do_what_they_say_witness:
  "sb_kickTarget (fst (act ex_call_env 7 Kick (\<lparr>sb_search = [], sb_kickTarget = None\<rparr>,
     init_calls\<lparr>participants := [ex_guest 1 True, ex_guest 7 False]\<rparr>))) = Some (ex_guest 7 False)"
proof -
  let ?s = "init_calls\<lparr>participants := [ex_guest 1 True, ex_guest 7 False]\<rparr>"
  have "c_up ex_call_env" "Kick \<in> set (row_menu 1 ?s (ex_guest 7 False))" "ex_guest 7 False \<in> set (participants ?s)"
    "distinct (map p_user_id (participants ?s))" "p_user_id (ex_guest 7 False) = 7"
    by (simp_all add: ex_call_env_def row_menu_def isHost_def myInfo_def ex_guest_def)
  from host_actions_do_what_they_say [OF this(1-4), of "\<lparr>sb_search = [], sb_kickTarget = None\<rparr>"] this(5)
  show ?thesis by (simp add: Let_def)
qed

text \<open>Someone who is no host is offered nothing, and no list of those invited.\<close>

lemma guests_command_nobody: "\<not> isHost meID s \<Longrightarrow> row_menu meID s p = [] \<and> listed_invitees meID s = [] \<and> sidebar_effect env meID s = s"
  by (simp add: row_menu_def listed_invitees_def sidebar_effect_def)

lemma invited_but_absent:
  "set (notJoined s) = {u \<in> (case roster s of None \<Rightarrow> {} | Some r \<Rightarrow> set (ro_invitees r)).
     ub_id u \<notin> (case roster s of None \<Rightarrow> {} | Some r \<Rightarrow> set (ro_joined r)) \<and> ub_id u \<notin> p_user_id ` set (participants s)}"
  by (auto simp: notJoined_def Let_def split: option.split)

text \<open>
  Whichever button of an invitation is pressed, that invitation is gone and its ringing stops; answering a call goes on to
  connect it with video exactly if the button says so, and declining starts nothing.
\<close>

lemma invitation_is_answered:
  assumes "b \<in> set (invitation_buttons (IncomingCallModal s))"
  shows "(case IncomingCallModal s of
      RoomInvitation r \<Rightarrow> roomInvite (press_invitation env b s) = None
    | _ \<Rightarrow> incoming (press_invitation env b s) = None) \<and>
    StopRingtone \<in> set (trace (press_invitation env b s)) \<and>
    (b \<in> {AnswerVoice, AnswerVideo, AcceptButton} \<longrightarrow>
       status (press_invitation env b s) = ConnectingCall \<and> camOn (press_invitation env b s) = (b = AnswerVideo)) \<and>
    (b \<in> {DeclineButton, IgnoreButton} \<longrightarrow> status (press_invitation env b s) = Idle)"
  using assms
  by (auto simp: IncomingCallModal_def invitation_buttons_def acceptIncoming_def declineIncoming_def declineRoomInvite_def
      acceptRoomInvite_def open_room_def room_start_def emit_call_def send_call_def Let_def split: option.splits if_splits)

text \<open>The escape key declines what is shown.\<close>

lemma escape_declines:
  assumes "IncomingCallModal s \<noteq> NoInvitation"
  shows "invitation_key env ''Escape'' shift focus d s = press_invitation env (hd (invitation_buttons (IncomingCallModal s))) s"
  using assms
  by (auto simp: IncomingCallModal_def invitation_buttons_def invitation_key_def trap_key_def split: option.splits if_splits)

text \<open>A request to join stays on screen until its answer was really sent.\<close>

lemma unanswered_request_stays:
  "\<not> c_up env \<Longrightarrow> roomJoinRequests (answer_request env q a s) = roomJoinRequests s"
  "c_up env \<Longrightarrow> q \<notin> set (roomJoinRequests (answer_request env q a s))"
  by (cases a; simp add: answer_request_def admitJoinRequest_def denyJoinRequest_def toast_call_def send_call_def emit_call_def
      drop_request_def)+

end
