(* ===== verification/SignIn.thy ===== *)
theory SignIn
  imports Stores Forms
begin

text \<open>
  Signing in (\<open>pages/Login.tsx\<close>), asking for a new password there, and setting it from the link of the
  mail (\<open>pages/ResetPassword.tsx\<close>). Each form is edited, submitted and answered; the button's \<open>disabled\<close>
  is part of submitting, since the browser submits no form whose button is disabled.
\<close>

section \<open>Looking a text up in an object literal\<close>

text \<open>
  \<open>table[k]\<close> where the table is an object literal: its own properties first, then what every object inherits,
  which are functions (shown as nothing) or, for \<open>__proto__\<close>, an object (which React refuses to render).
\<close>

datatype looked_up = FoundText string | FoundFunction | FoundObject

definition object_functions :: "string list" where
  "object_functions = [''constructor'', ''hasOwnProperty'', ''isPrototypeOf'', ''propertyIsEnumerable'',
     ''toLocaleString'', ''toString'', ''valueOf'', ''__defineGetter__'', ''__defineSetter__'',
     ''__lookupGetter__'', ''__lookupSetter__'']"

definition object_get :: "(string \<times> string) list \<Rightarrow> string \<Rightarrow> looked_up option" where
  "object_get table k =
     (case map_of table k of
        Some t \<Rightarrow> Some (FoundText t)
      | None \<Rightarrow> if k \<in> set object_functions then Some FoundFunction
                else if k = ''__proto__'' then Some FoundObject else None)"

section \<open>Signing in\<close>

record login_page =
  lg_username :: string
  lg_password :: string
  lg_showPassword :: bool
  lg_capsOn :: bool
  lg_error :: "string option"
  lg_busy :: bool
  lg_forgotMode :: bool
  lg_resetEnabled :: bool
  lg_ssoLabel :: "string option"
  lg_signedOutNotice :: "string option"
  lg_ssoError :: "looked_up option"
  lg_sent :: "(string \<times> string) list"
  lg_asks :: nat

text \<open>\<open>lg_sent\<close> logs the calls of \<open>login\<close>, \<open>lg_asks\<close> counts the requests for permission to notify.\<close>

definition sso_messages :: "(string \<times> string) list" where
  "sso_messages =
     [(''no_linked_account'', ''No account here is linked to that SSO identity yet. Ask an admin to link your account, or sign in with your username and password.''),
      (''account_disabled'', ''This account is disabled.''),
      (''access_denied'', ''SSO sign-in was cancelled.'')]"

text \<open>The address's query, and whether it is taken out of the address.\<close>

definition login_sso_error :: "(string \<times> string) list \<Rightarrow> looked_up option \<times> bool" where
  "login_sso_error params =
     (case map_of params ''sso-error'' of
        None \<Rightarrow> (None, False)
      | Some code \<Rightarrow>
          if code = [] then (None, False)
          else (Some (nvl (object_get sso_messages code) (FoundText ''SSO sign-in failed. Please try again.'')), True))"

definition reason_key :: string where "reason_key = ''vc.logoutReason''"

definition mount_login :: "(string, string) jsmap \<Rightarrow> (string \<times> string) list \<Rightarrow> login_page \<times> (string, string) jsmap" where
  "mount_login session params =
     (\<lparr>lg_username = [], lg_password = [], lg_showPassword = False, lg_capsOn = False, lg_error = None, lg_busy = False,
       lg_forgotMode = False, lg_resetEnabled = False, lg_ssoLabel = None,
       lg_signedOutNotice = jm_get session reason_key, lg_ssoError = fst (login_sso_error params), lg_sent = [], lg_asks = 0\<rparr>,
      jm_delete reason_key session)"

text \<open>The answers to the two questions asked when the page is shown; an error changes nothing.\<close>

definition reset_enabled_answer :: "bool option \<Rightarrow> login_page \<Rightarrow> login_page" where
  "reset_enabled_answer r p = (case r of None \<Rightarrow> p | Some b \<Rightarrow> p\<lparr>lg_resetEnabled := b\<rparr>)"

definition oidc_config_answer :: "(bool \<times> string option) option \<Rightarrow> login_page \<Rightarrow> login_page" where
  "oidc_config_answer r p = (case r of None \<Rightarrow> p
     | Some (enabled, label) \<Rightarrow> p\<lparr>lg_ssoLabel := (if enabled then Some (nvl label ''Sign in with SSO'') else None)\<rparr>)"

datatype login_edit = LgUsername string | LgPassword string | LgShow | LgCaps bool | LgForgot bool

primrec edit_login :: "login_edit \<Rightarrow> login_page \<Rightarrow> login_page" where
  "edit_login (LgUsername t) p = p\<lparr>lg_username := t\<rparr>"
| "edit_login (LgPassword t) p = p\<lparr>lg_password := t\<rparr>"
| "edit_login LgShow p = p\<lparr>lg_showPassword := \<not> lg_showPassword p\<rparr>"
| "edit_login (LgCaps b) p = p\<lparr>lg_capsOn := b\<rparr>"
| "edit_login (LgForgot b) p = p\<lparr>lg_forgotMode := b\<rparr>"

definition submit_login :: "login_page \<Rightarrow> login_page" where
  "submit_login p =
     (if lg_busy p \<or> lg_username p = [] \<or> lg_password p = [] then p
      else p\<lparr>lg_busy := True, lg_error := None, lg_sent := lg_sent p @ [(js_trim (lg_username p), lg_password p)]\<rparr>)"

text \<open>What \<open>login\<close> of the sign-in store returned: the error's text or nothing.\<close>

definition login_answered :: "string option \<Rightarrow> login_page \<Rightarrow> login_page" where
  "login_answered err p =
     (if str_truthy err then p\<lparr>lg_error := err\<rparr> else p\<lparr>lg_asks := lg_asks p + 1\<rparr>)\<lparr>lg_busy := False\<rparr>"

section \<open>Asking for a new password\<close>

record forgot_form =
  ff_email :: string
  ff_busy :: bool
  ff_message :: "string option"
  ff_sent :: "string list"

definition edit_forgot :: "string \<Rightarrow> forgot_form \<Rightarrow> forgot_form" where
  "edit_forgot t f = f\<lparr>ff_email := t\<rparr>"

text \<open>Once a message is shown the form has no button, and the browser submits a form of one field without one.\<close>

definition submit_forgot :: "forgot_form \<Rightarrow> forgot_form" where
  "submit_forgot f =
     (if \<not> str_truthy (ff_message f) \<and> (ff_busy f \<or> js_trim (ff_email f) = []) then f
      else f\<lparr>ff_busy := True, ff_message := None, ff_sent := ff_sent f @ [js_trim (ff_email f)]\<rparr>)"

text \<open>The server's message, or the error's.\<close>

definition forgot_answered :: "string option + string \<Rightarrow> forgot_form \<Rightarrow> forgot_form" where
  "forgot_answered r f =
     f\<lparr>ff_message := Some (case r of Inr m \<Rightarrow> m | Inl e \<Rightarrow> nvl e ''Could not submit request''), ff_busy := False\<rparr>"

text \<open>How the message is shown: as a success, whatever it is.\<close>

definition forgot_alert :: "forgot_form \<Rightarrow> (string \<times> string) option" where
  "forgot_alert f = (if str_truthy (ff_message f) then Some (''success'', the (ff_message f)) else None)"

section \<open>Setting the new password\<close>

record reset_form =
  rs_password :: string
  rs_confirm :: string
  rs_showPassword :: bool
  rs_busy :: bool
  rs_error :: "string option"
  rs_done :: bool
  rs_sent :: "(string \<times> string) list"

datatype reset_edit = RsPassword string | RsConfirm string | RsShow

primrec edit_reset :: "reset_edit \<Rightarrow> reset_form \<Rightarrow> reset_form" where
  "edit_reset (RsPassword t) f = f\<lparr>rs_password := t\<rparr>"
| "edit_reset (RsConfirm t) f = f\<lparr>rs_confirm := t\<rparr>"
| "edit_reset RsShow f = f\<lparr>rs_showPassword := \<not> rs_showPassword f\<rparr>"

definition init_reset :: reset_form where
  "init_reset = \<lparr>rs_password = [], rs_confirm = [], rs_showPassword = False, rs_busy = False, rs_error = None,
     rs_done = False, rs_sent = []\<rparr>"

text \<open>The form is gone once the password has been changed.\<close>

definition submit_reset :: "string \<Rightarrow> reset_form \<Rightarrow> reset_form" where
  "submit_reset token f =
     (if rs_done f \<or> rs_busy f \<or> rs_password f = [] \<or> rs_confirm f = [] then f
      else if length (rs_password f) < 8 then f\<lparr>rs_error := Some ''Password must be at least 8 characters''\<rparr>
      else if rs_password f \<noteq> rs_confirm f then f\<lparr>rs_error := Some ''Passwords don't match''\<rparr>
      else f\<lparr>rs_error := None, rs_busy := True, rs_sent := rs_sent f @ [(token, rs_password f)]\<rparr>)"

definition reset_answered :: "outcome \<Rightarrow> reset_form \<Rightarrow> reset_form" where
  "reset_answered r f =
     (case r of Inr _ \<Rightarrow> f\<lparr>rs_done := True\<rparr> | Inl e \<Rightarrow> f\<lparr>rs_error := Some (nvl e ''Could not reset password'')\<rparr>)
     \<lparr>rs_busy := False\<rparr>"

section \<open>Properties\<close>

interpretation login_form: request_form edit_login submit_login login_answered lg_busy "\<lambda>p. length (lg_sent p)"
proof unfold_locales
  show "lg_busy (edit_login e p) = lg_busy p" for e p by (cases e) simp_all
qed (simp_all add: submit_login_def login_answered_def)

interpretation reset: request_form edit_reset "submit_reset token" reset_answered rs_busy "\<lambda>f. length (rs_sent f)"
proof unfold_locales
  show "rs_busy (edit_reset e f) = rs_busy f" for e f by (cases e) simp_all
qed (simp_all add: submit_reset_def reset_answered_def split: sum.split)

text \<open>The form for a new password follows the contract once its message is away.\<close>

interpretation forgot: request_form edit_forgot submit_forgot forgot_answered
    "\<lambda>f. ff_busy f \<and> \<not> str_truthy (ff_message f)" "\<lambda>f. length (ff_sent f)"
  by unfold_locales (auto simp: edit_forgot_def submit_forgot_def forgot_answered_def)

lemma reset_reach_valid:
  assumes "form_reach edit_reset (submit_reset token) reset_answered (\<lambda>f. length (rs_sent f)) init_reset n f"
  shows "(\<forall>q \<in> set (rs_sent f). fst q = token \<and> 8 \<le> length (snd q)) \<and> (rs_done f \<longrightarrow> rs_sent f \<noteq> []) \<and> (rs_busy f \<longrightarrow> rs_sent f \<noteq> [])"
  using assms
proof (induction rule: form_reach.induct)
  case form_start
  show ?case by (simp add: init_reset_def)
next
  case (form_edit n s e)
  then show ?case by (cases e) simp_all
next
  case (form_submit n s)
  then show ?case by (auto simp: submit_reset_def)
next
  case (form_answer n s r)
  from reset.under_way_iff_busy [OF form_answer.hyps] have "rs_busy s"
    by (simp add: init_reset_def split: if_splits)
  with form_answer.IH show ?case by (auto simp: reset_answered_def split: sum.split)
qed

text \<open>
  Whatever is typed and pressed, at most one request to change the password is under way, every request carries the
  link's token and a password of at least eight characters that was typed twice, and the page says that the password was
  changed only after a request was made; otherwise pressing the button says what is wrong.
\<close>

theorem only_valid_passwords_are_sent:
  assumes "form_reach edit_reset (submit_reset token) reset_answered (\<lambda>f. length (rs_sent f)) init_reset n f"
  shows "n \<le> 1 \<and> list_all (\<lambda>q. fst q = token \<and> 8 \<le> length (snd q)) (rs_sent f) \<and> (rs_sent f = [] \<longrightarrow> \<not> rs_done f) \<and>
    rs_sent (submit_reset token f) = rs_sent f @
      (if \<not> rs_done f \<and> n = 0 \<and> 8 \<le> length (rs_password f) \<and> rs_password f = rs_confirm f then [(token, rs_password f)] else []) \<and>
    (n = 0 \<and> \<not> rs_done f \<and> rs_password f \<noteq> [] \<and> rs_confirm f \<noteq> [] \<and> rs_sent (submit_reset token f) = rs_sent f \<longrightarrow>
      rs_error (submit_reset token f) \<noteq> None)"
proof -
  have "n = (if rs_busy f then 1 else 0)"
    by (rule reset.under_way_iff_busy [OF assms]) (simp add: init_reset_def)
  with reset_reach_valid [OF assms] show ?thesis
    by (auto simp: submit_reset_def list_all_iff)
qed

theorem only_valid_passwords_are_sent_witness:
  "rs_sent (submit_reset ''t'' (edit_reset (RsConfirm ''12345678'') (edit_reset (RsPassword ''12345678'') init_reset))) =
     [(''t'', ''12345678'')]"
proof -
  let ?f = "edit_reset (RsConfirm ''12345678'') (edit_reset (RsPassword ''12345678'') init_reset)"
  have r: "form_reach edit_reset (submit_reset ''t'') reset_answered (\<lambda>f. length (rs_sent f)) init_reset 0 ?f"
    by (intro form_reach.intros)
  have f: "rs_sent ?f = []" "\<not> rs_done ?f" "rs_password ?f = ''12345678''" "rs_confirm ?f = ''12345678''"
    by (simp_all add: init_reset_def)
  show ?thesis
    using only_valid_passwords_are_sent [OF r, THEN conjunct2, THEN conjunct2, THEN conjunct2, THEN conjunct1] f by simp
qed

text \<open>
  Signing in: one attempt at a time, with the trimmed name and the password as typed; the page asks for permission to
  notify exactly when the store reports no error.
\<close>

lemma one_sign_in_at_a_time:
  assumes "form_reach edit_login submit_login login_answered (\<lambda>p. length (lg_sent p)) (fst (mount_login ss params)) n p"
  shows "n \<le> 1 \<and> (n = 1 \<longrightarrow> submit_login p = p)"
proof -
  have "\<not> lg_busy (fst (mount_login ss params))" by (simp add: mount_login_def)
  from login_form.under_way_iff_busy [OF assms this] show ?thesis by (simp add: submit_login_def split: if_splits)
qed

lemma sign_in_reaches_the_store:
  assumes "(err, a', pg') = login_done to_text resp (a, pg)" "q = login_answered err p"
    and "\<forall>m. resp = Inl (Some m) \<longrightarrow> m \<noteq> []"
  shows "lg_error q = (case resp of Inl m \<Rightarrow> Some (nvl m ''Login failed'') | Inr _ \<Rightarrow> lg_error p)"
    and "auth_me a' = (case resp of Inl _ \<Rightarrow> auth_me a | Inr u \<Rightarrow> Some u)"
    and "lg_asks q = lg_asks p + (if isl resp then 0 else 1)" and "\<not> lg_busy q"
  using assms by (auto simp: login_done_def login_answered_def nvl_def split: sum.splits option.splits)

text \<open>The reason for being signed out is shown once.\<close>

lemma reason_is_shown_once:
  "lg_signedOutNotice (fst (mount_login ss params)) = jm_get ss reason_key"
  "lg_signedOutNotice (fst (mount_login (snd (mount_login ss params)) params')) = None"
  by (simp_all add: mount_login_def jm_get_delete)

text \<open>A failed request for a new password is shown as a success.\<close>

lemma failure_is_shown_as_success:
  "forgot_alert (forgot_answered (Inl None) f) = Some (''success'', ''Could not submit request'')"
  by (simp add: forgot_alert_def forgot_answered_def)

text \<open>An address with a name every object inherits shows an empty error, or one that cannot be rendered.\<close>

lemma inherited_names_are_found:
  "fst (login_sso_error [(''sso-error'', ''constructor'')]) = Some FoundFunction"
  "fst (login_sso_error [(''sso-error'', ''__proto__'')]) = Some FoundObject"
  "fst (login_sso_error [(''sso-error'', ''login_failed'')]) = Some (FoundText ''SSO sign-in failed. Please try again.'')"
  by (simp_all add: login_sso_error_def object_get_def object_functions_def sso_messages_def)

end
