(* ===== verification/DeviceTest.thy ===== *)
theory DeviceTest
  imports Media
begin

text \<open>
  The microphone and camera tests of the settings (the two effects of \<open>pages/Settings.tsx\<close> that acquire a
  device). Each run of an effect is a closure of its own: whether it was cancelled, the stream it was given, and whether
  it made a meter. A change of the test's inputs cleans the last run up and starts another; the browser grants or
  refuses a request at any later moment, also after the page is gone. Streams are numbers.
\<close>

section \<open>State\<close>

record test_run =
  run_cancelled :: bool
  run_stream :: "nat option"
  run_meter :: bool

text \<open>
  \<open>dt_cleanup\<close> is the run whose cleanup the effect has registered, \<open>dt_requests\<close> the requests made, each with its run
  and the exact device; what was granted, stopped and closed is logged.
\<close>

record device_test =
  dt_testing :: bool
  dt_selected :: string
  dt_runs :: "test_run list"
  dt_cleanup :: "nat option"
  dt_shown :: "nat option"
  dt_level :: int
  dt_requests :: "(nat \<times> string option) list"
  dt_granted :: "nat list"
  dt_stopped :: "nat list"
  dt_meters :: "nat list"
  dt_closed :: "nat list"
  dt_mounted :: bool

definition init_test :: "string \<Rightarrow> device_test" where
  "init_test sel = \<lparr>dt_testing = False, dt_selected = sel, dt_runs = [], dt_cleanup = None, dt_shown = None, dt_level = 0,
     dt_requests = [], dt_granted = [], dt_stopped = [], dt_meters = [], dt_closed = [], dt_mounted = True\<rparr>"

definition opt_list :: "'a option \<Rightarrow> 'a list" where
  "opt_list x = (case x of None \<Rightarrow> [] | Some y \<Rightarrow> [y])"

text \<open>The cleanup of the last run: \<open>cancelled = true\<close>, the meter, \<open>stopStream(stream)\<close>.\<close>

definition run_cleanup :: "device_test \<Rightarrow> device_test" where
  "run_cleanup t =
     (case dt_cleanup t of
        None \<Rightarrow> t
      | Some i \<Rightarrow>
          (let r = dt_runs t ! i
           in t\<lparr>dt_runs := (dt_runs t)[i := r\<lparr>run_cancelled := True\<rparr>], dt_cleanup := None,
                dt_closed := dt_closed t @ (if run_meter r then [i] else []),
                dt_stopped := dt_stopped t @ opt_list (run_stream r)\<rparr>))"

definition new_run :: "device_test \<Rightarrow> device_test" where
  "new_run t = t\<lparr>dt_runs := dt_runs t @ [\<lparr>run_cancelled = False, run_stream = None, run_meter = False\<rparr>],
     dt_cleanup := Some (length (dt_runs t)),
     dt_requests := dt_requests t @ [(length (dt_runs t), if dt_selected t \<noteq> [] then Some (dt_selected t) else None)]\<rparr>"

section \<open>The microphone\<close>

definition mic_effect :: "device_test \<Rightarrow> device_test" where
  "mic_effect t = (let t1 = run_cleanup t in if \<not> dt_testing t1 then t1\<lparr>dt_level := 0\<rparr> else new_run t1)"

text \<open>The request of run \<open>i\<close> ends: the stream, and whether a meter could be made; or a refusal.\<close>

definition test_mic_granted :: "nat \<Rightarrow> (nat \<times> bool) option \<Rightarrow> device_test \<Rightarrow> device_test" where
  "test_mic_granted i answer t =
     (let r = dt_runs t ! i in
      case answer of
        Some (s, metered) \<Rightarrow>
          (let t1 = t\<lparr>dt_granted := dt_granted t @ [s]\<rparr> in
           if run_cancelled r then t1\<lparr>dt_stopped := dt_stopped t @ [s]\<rparr>
           else if metered then t1\<lparr>dt_runs := (dt_runs t)[i := r\<lparr>run_stream := Some s, run_meter := True\<rparr>],
                                   dt_meters := dt_meters t @ [i]\<rparr>
           else mic_effect (t1\<lparr>dt_runs := (dt_runs t)[i := r\<lparr>run_stream := Some s\<rparr>], dt_testing := False\<rparr>))
      | None \<Rightarrow> if run_cancelled r then t else mic_effect (t\<lparr>dt_testing := False\<rparr>))"

section \<open>The camera\<close>

definition cam_effect :: "device_test \<Rightarrow> device_test" where
  "cam_effect t =
     (let t1 = run_cleanup t in
      if \<not> dt_testing t1 then t1\<lparr>dt_stopped := dt_stopped t1 @ opt_list (dt_shown t1), dt_shown := None\<rparr>
      else new_run t1)"

definition test_cam_granted :: "nat \<Rightarrow> (nat \<times> bool) option \<Rightarrow> device_test \<Rightarrow> device_test" where
  "test_cam_granted i answer t =
     (let r = dt_runs t ! i in
      case answer of
        Some (s, _) \<Rightarrow>
          (let t1 = t\<lparr>dt_granted := dt_granted t @ [s]\<rparr> in
           if run_cancelled r then t1\<lparr>dt_stopped := dt_stopped t @ [s]\<rparr>
           else t1\<lparr>dt_runs := (dt_runs t)[i := r\<lparr>run_stream := Some s\<rparr>], dt_shown := Some s\<rparr>)
      | None \<Rightarrow> if run_cancelled r then t else cam_effect (t\<lparr>dt_testing := False\<rparr>))"

section \<open>Events\<close>

text \<open>
  \<open>TestGranted\<close> answers a request under way; once the page is gone no input changes, but requests are still answered.
\<close>

datatype test_event = TestToggle | TestSelect string | TestGranted nat "(nat \<times> bool) option" | TestUnmount

definition test_step ::
  "(device_test \<Rightarrow> device_test) \<Rightarrow> (nat \<Rightarrow> (nat \<times> bool) option \<Rightarrow> device_test \<Rightarrow> device_test) \<Rightarrow>
    test_event \<Rightarrow> device_test \<Rightarrow> device_test" where
  "test_step eff granted e t =
     (case e of
        TestToggle \<Rightarrow> if dt_mounted t then eff (t\<lparr>dt_testing := \<not> dt_testing t\<rparr>) else t
      | TestSelect i \<Rightarrow> if \<not> dt_mounted t then t
                       else if i = dt_selected t then t else eff (t\<lparr>dt_selected := i\<rparr>)
      | TestGranted i a \<Rightarrow>
          if i \<in> fst ` set (dt_requests t)
          then granted i a (t\<lparr>dt_requests := filter (\<lambda>q. fst q \<noteq> i) (dt_requests t)\<rparr>) else t
      | TestUnmount \<Rightarrow> if dt_mounted t then (run_cleanup t)\<lparr>dt_mounted := False\<rparr> else t)"

definition test_run_events ::
  "(device_test \<Rightarrow> device_test) \<Rightarrow> (nat \<Rightarrow> (nat \<times> bool) option \<Rightarrow> device_test \<Rightarrow> device_test) \<Rightarrow>
    test_event list \<Rightarrow> device_test \<Rightarrow> device_test" where
  "test_run_events eff granted es t = fold (test_step eff granted) es t"

section \<open>The invariant\<close>

text \<open>
  Every run but the one to be cleaned up is cancelled, requests are those of runs without a stream, every stream granted is
  stopped or held by the current run, and so for the meters; the current run belongs to a test that is on.
\<close>

definition current_run :: "device_test \<Rightarrow> test_run option" where
  "current_run t = map_option (\<lambda>i. dt_runs t ! i) (dt_cleanup t)"

definition test_ok :: "device_test \<Rightarrow> bool" where
  "test_ok t \<longleftrightarrow>
     (\<forall>i < length (dt_runs t). dt_cleanup t \<noteq> Some i \<longrightarrow> run_cancelled (dt_runs t ! i)) \<and>
     (\<forall>i. dt_cleanup t = Some i \<longrightarrow> i < length (dt_runs t) \<and> \<not> run_cancelled (dt_runs t ! i) \<and> dt_testing t \<and> dt_mounted t) \<and>
     (\<forall>q \<in> set (dt_requests t). fst q < length (dt_runs t) \<and> run_stream (dt_runs t ! fst q) = None \<and>
        \<not> run_meter (dt_runs t ! fst q)) \<and>
     (\<forall>s \<in> set (dt_granted t). s \<in> set (dt_stopped t) \<or> Option.bind (current_run t) run_stream = Some s) \<and>
     (\<forall>i \<in> set (dt_meters t). i \<in> set (dt_closed t) \<or> (dt_cleanup t = Some i \<and> run_meter (dt_runs t ! i)))"

lemma test_ok_init: "test_ok (init_test sel)"
  by (simp add: test_ok_def init_test_def)

lemma test_ok_cleanup: "test_ok t \<Longrightarrow> test_ok (run_cleanup t) \<and> dt_cleanup (run_cleanup t) = None"
  by (cases "dt_cleanup t")
    (auto simp: test_ok_def run_cleanup_def current_run_def opt_list_def nth_list_update Let_def split: option.splits)

lemma test_ok_new_run: "test_ok t \<Longrightarrow> dt_cleanup t = None \<Longrightarrow> dt_testing t \<Longrightarrow> dt_mounted t \<Longrightarrow> test_ok (new_run t)"
  by (auto simp: test_ok_def new_run_def current_run_def nth_append less_Suc_eq split: option.splits)

lemma test_ok_frame:
  assumes "test_ok t" "dt_runs u = dt_runs t" "dt_cleanup u = dt_cleanup t" "dt_mounted u = dt_mounted t"
    "dt_cleanup t \<noteq> None \<Longrightarrow> dt_testing u" "set (dt_requests u) \<subseteq> set (dt_requests t)"
    "set (dt_granted u) - set (dt_stopped u) \<subseteq> set (dt_granted t) - set (dt_stopped t)"
    "dt_meters u = dt_meters t" "dt_closed u = dt_closed t"
  shows "test_ok u"
proof -
  have "q \<in> set (dt_requests t)" if "q \<in> set (dt_requests u)" for q using assms(6) that by blast
  moreover have "s \<in> set (dt_granted t) \<and> s \<notin> set (dt_stopped t)" if "s \<in> set (dt_granted u)" "s \<notin> set (dt_stopped u)" for s
    using assms(7) that by blast
  moreover have "dt_cleanup t = Some i \<Longrightarrow> dt_testing u" for i using assms(5) by simp
  moreover have "\<forall>i < length (dt_runs t). dt_cleanup t \<noteq> Some i \<longrightarrow> run_cancelled (dt_runs t ! i)"
    and "\<And>i. dt_cleanup t = Some i \<Longrightarrow> i < length (dt_runs t) \<and> \<not> run_cancelled (dt_runs t ! i) \<and> dt_mounted t"
    and "\<And>q. q \<in> set (dt_requests t) \<Longrightarrow> fst q < length (dt_runs t) \<and> run_stream (dt_runs t ! fst q) = None \<and>
        \<not> run_meter (dt_runs t ! fst q)"
    and "\<And>s. s \<in> set (dt_granted t) \<Longrightarrow> s \<notin> set (dt_stopped t) \<Longrightarrow> Option.bind (current_run t) run_stream = Some s"
    and "\<forall>i \<in> set (dt_meters t). i \<in> set (dt_closed t) \<or> (dt_cleanup t = Some i \<and> run_meter (dt_runs t ! i))"
    using assms(1) by (simp_all add: test_ok_def) blast
  moreover have "current_run u = current_run t" by (simp add: current_run_def assms(2,3))
  ultimately show ?thesis unfolding test_ok_def assms(2-4,8,9) by simp metis
qed

lemma test_ok_mic_effect:
  assumes "test_ok (t\<lparr>dt_testing := True\<rparr>)" "dt_mounted t"
  shows "test_ok (mic_effect t)"
proof -
  have c: "test_ok (run_cleanup (t\<lparr>dt_testing := True\<rparr>))" "dt_cleanup (run_cleanup (t\<lparr>dt_testing := True\<rparr>)) = None"
    using test_ok_cleanup [OF assms(1)] by simp_all
  have eq: "run_cleanup t = (run_cleanup (t\<lparr>dt_testing := True\<rparr>))\<lparr>dt_testing := dt_testing t\<rparr>"
    by (simp add: run_cleanup_def Let_def split: option.split)
  have ok: "test_ok (run_cleanup t)" "dt_cleanup (run_cleanup t) = None"
    unfolding eq using c by (auto intro: test_ok_frame [OF c(1)])
  have m: "dt_mounted (run_cleanup t)" "dt_testing (run_cleanup t) = dt_testing t"
    using assms(2) by (simp_all add: run_cleanup_def Let_def split: option.split)
  have "test_ok ((run_cleanup t)\<lparr>dt_level := 0\<rparr>)" using ok by (auto intro: test_ok_frame [OF ok(1)])
  then show ?thesis
    unfolding mic_effect_def Let_def using ok m test_ok_new_run [OF ok] by simp
qed

lemma test_ok_cam_effect:
  assumes "test_ok (t\<lparr>dt_testing := True\<rparr>)" "dt_mounted t"
  shows "test_ok (cam_effect t)"
proof -
  have "cam_effect t = (if dt_testing (run_cleanup t) then mic_effect t
      else (run_cleanup t)\<lparr>dt_stopped := dt_stopped (run_cleanup t) @ opt_list (dt_shown (run_cleanup t)), dt_shown := None\<rparr>)"
    by (simp add: cam_effect_def mic_effect_def Let_def)
  moreover have "test_ok ((run_cleanup t)\<lparr>dt_stopped := xs, dt_shown := None\<rparr>)"
    if "\<not> dt_testing (run_cleanup t)" "set (dt_stopped (run_cleanup t)) \<subseteq> set xs" for xs
  proof -
    have eq: "mic_effect t = (run_cleanup t)\<lparr>dt_level := 0\<rparr>" using that by (simp add: mic_effect_def Let_def)
    have "dt_cleanup (run_cleanup t) = None" by (simp add: run_cleanup_def Let_def split: option.split)
    then show ?thesis
      using that by (intro test_ok_frame [OF test_ok_mic_effect [OF assms]]) (auto simp: eq)
  qed
  ultimately show ?thesis using test_ok_mic_effect [OF assms] by simp
qed

text \<open>A stream that is granted to a run: stopped if the run is cancelled, held by the current run otherwise.\<close>

lemma test_ok_late:
  assumes "test_ok t"
  shows "test_ok (t\<lparr>dt_granted := dt_granted t @ [s], dt_stopped := dt_stopped t @ [s]\<rparr>)"
  by (rule test_ok_frame [OF assms]) (use assms in \<open>auto simp: test_ok_def\<close>)

lemma test_ok_hold:
  assumes "test_ok t" "dt_cleanup t = Some i" "run_stream (dt_runs t ! i) = None" "\<not> run_meter (dt_runs t ! i)"
    and "\<forall>q \<in> set (dt_requests t). fst q \<noteq> i"
  shows "test_ok (t\<lparr>dt_granted := dt_granted t @ [s], dt_runs := (dt_runs t)[i := (dt_runs t ! i)\<lparr>run_stream := Some s, run_meter := m\<rparr>],
     dt_meters := dt_meters t @ (if m then [i] else [])\<rparr>)"
  using assms by (auto simp: test_ok_def current_run_def nth_list_update)

lemma request_of_current:
  assumes "test_ok t" "i \<in> fst ` set (dt_requests t)"
  shows "i < length (dt_runs t) \<and> run_stream (dt_runs t ! i) = None \<and> \<not> run_meter (dt_runs t ! i) \<and>
    (\<not> run_cancelled (dt_runs t ! i) \<longrightarrow> dt_cleanup t = Some i \<and> dt_mounted t \<and> dt_testing t)"
  using assms by (auto simp: test_ok_def)

lemma test_ok_mic_granted:
  assumes "test_ok t" "\<forall>q \<in> set (dt_requests t). fst q \<noteq> i" "i < length (dt_runs t)"
    and "run_stream (dt_runs t ! i) = None" "\<not> run_meter (dt_runs t ! i)"
    and "\<not> run_cancelled (dt_runs t ! i) \<longrightarrow> dt_cleanup t = Some i \<and> dt_mounted t \<and> dt_testing t"
  shows "test_ok (test_mic_granted i a t)"
proof (cases "run_cancelled (dt_runs t ! i)")
  case True
  then show ?thesis using assms(1) test_ok_late [OF assms(1)] by (auto simp: test_mic_granted_def Let_def split: option.split)
next
  case False
  then have c: "dt_cleanup t = Some i" "dt_mounted t" "dt_testing t" using assms(6) by auto
  have id: "t\<lparr>dt_testing := True\<rparr> = t" using c(3) by (cases t) simp
  note hold = test_ok_hold [OF assms(1) c(1) assms(4,5,2)]
  show ?thesis
  proof (cases a)
    case None
    have "test_ok (mic_effect (t\<lparr>dt_testing := False\<rparr>))"
      by (rule test_ok_mic_effect) (simp_all add: id c assms(1))
    then show ?thesis using None False by (simp add: test_mic_granted_def Let_def)
  next
    case (Some p)
    obtain s m where p: "p = (s, m)" by (cases p)
    let ?u = "t\<lparr>dt_granted := dt_granted t @ [s], dt_runs := (dt_runs t)[i := (dt_runs t ! i)\<lparr>run_stream := Some s\<rparr>]\<rparr>"
    have r: "(dt_runs t ! i)\<lparr>run_stream := Some s, run_meter := False\<rparr> = (dt_runs t ! i)\<lparr>run_stream := Some s\<rparr>"
      using assms(5) by (cases "dt_runs t ! i") simp
    have u: "test_ok ?u" using hold [where s = s and m = False] by (simp add: r)
    have "test_ok (?u\<lparr>dt_testing := True\<rparr>)" by (rule test_ok_frame [OF u]) (use c in simp_all)
    then have "test_ok (mic_effect (?u\<lparr>dt_testing := False\<rparr>))"
      by (intro test_ok_mic_effect) (use c in simp_all)
    then show ?thesis using Some p False hold [where s = s and m = True] by (simp add: test_mic_granted_def Let_def)
  qed
qed

lemma test_ok_cam_granted:
  assumes "test_ok t" "\<forall>q \<in> set (dt_requests t). fst q \<noteq> i" "i < length (dt_runs t)"
    and "run_stream (dt_runs t ! i) = None" "\<not> run_meter (dt_runs t ! i)"
    and "\<not> run_cancelled (dt_runs t ! i) \<longrightarrow> dt_cleanup t = Some i \<and> dt_mounted t \<and> dt_testing t"
  shows "test_ok (test_cam_granted i a t)"
proof (cases "run_cancelled (dt_runs t ! i)")
  case True
  then show ?thesis using assms(1) test_ok_late [OF assms(1)] by (auto simp: test_cam_granted_def Let_def split: option.split)
next
  case False
  then have c: "dt_cleanup t = Some i" "dt_mounted t" "dt_testing t" using assms(6) by auto
  have id: "t\<lparr>dt_testing := True\<rparr> = t" using c(3) by (cases t) simp
  show ?thesis
  proof (cases a)
    case None
    have "test_ok (cam_effect (t\<lparr>dt_testing := False\<rparr>))"
      by (rule test_ok_cam_effect) (simp_all add: id c assms(1))
    then show ?thesis using None False by (simp add: test_cam_granted_def Let_def)
  next
    case (Some p)
    obtain s m where p: "p = (s, m)" by (cases p)
    have r: "(dt_runs t ! i)\<lparr>run_stream := Some s, run_meter := False\<rparr> = (dt_runs t ! i)\<lparr>run_stream := Some s\<rparr>"
      using assms(5) by (cases "dt_runs t ! i") simp
    let ?u = "t\<lparr>dt_granted := dt_granted t @ [s], dt_runs := (dt_runs t)[i := (dt_runs t ! i)\<lparr>run_stream := Some s\<rparr>]\<rparr>"
    have u: "test_ok ?u"
      using test_ok_hold [OF assms(1) c(1) assms(4,5,2), where s = s and m = False] by (simp add: r)
    have "test_ok (?u\<lparr>dt_shown := Some s\<rparr>)" by (rule test_ok_frame [OF u]) (use c in simp_all)
    then show ?thesis unfolding Some p test_cam_granted_def using False by (simp add: Let_def)
  qed
qed

lemma test_ok_step:
  assumes "test_ok t" "(eff, granted) \<in> {(mic_effect, test_mic_granted), (cam_effect, test_cam_granted)}"
  shows "test_ok (test_step eff granted e t)"
proof -
  have eff: "test_ok (eff u)" if "test_ok (u\<lparr>dt_testing := True\<rparr>)" "dt_mounted u" for u
    using assms(2) test_ok_mic_effect [OF that] test_ok_cam_effect [OF that] by auto
  show ?thesis
  proof (cases e)
    case TestToggle
    have "test_ok (t\<lparr>dt_testing := True\<rparr>)" using assms(1) by (auto intro: test_ok_frame)
    then show ?thesis using TestToggle assms(1) by (auto simp: test_step_def intro!: eff)
  next
    case (TestSelect i)
    have "test_ok (t\<lparr>dt_selected := i, dt_testing := True\<rparr>)" using assms(1) by (auto intro: test_ok_frame)
    then show ?thesis using TestSelect assms(1) by (auto simp: test_step_def intro!: eff)
  next
    case (TestGranted i a)
    show ?thesis
    proof (cases "i \<in> fst ` set (dt_requests t)")
      case True
      let ?u = "t\<lparr>dt_requests := filter (\<lambda>q. fst q \<noteq> i) (dt_requests t)\<rparr>"
      have u: "test_ok ?u" by (rule test_ok_frame [OF assms(1)]) (use assms(1) in \<open>auto simp: test_ok_def\<close>)
      from request_of_current [OF assms(1) True] assms(2) show ?thesis
        using TestGranted True test_ok_mic_granted [OF u, of i a] test_ok_cam_granted [OF u, of i a]
        by (auto simp: test_step_def)
    qed (use TestGranted assms(1) in \<open>simp add: test_step_def\<close>)
  next
    case TestUnmount
    have "test_ok ((run_cleanup t)\<lparr>dt_mounted := False\<rparr>)"
      using test_ok_cleanup [OF assms(1)] by (auto simp: test_ok_def current_run_def)
    then show ?thesis using TestUnmount assms(1) by (simp add: test_step_def)
  qed
qed

lemma test_ok_run:
  assumes "test_ok t" "(eff, granted) \<in> {(mic_effect, test_mic_granted), (cam_effect, test_cam_granted)}"
  shows "test_ok (test_run_events eff granted es t)"
  using assms(1) unfolding test_run_events_def
  by (induction es arbitrary: t) (simp_all add: test_ok_step [OF _ assms(2)])

section \<open>Nothing is left capturing\<close>

text \<open>
  Whatever is switched, chosen, granted late or refused, a device is captured only for the test that is on: every stream
  the browser ever granted has been stopped, but at most the one of the run under way; and once the test is off or the
  page is gone, all of them have been, and every meter is closed.
\<close>

theorem device_tests_release_their_devices:
  assumes "(eff, granted) \<in> {(mic_effect, test_mic_granted), (cam_effect, test_cam_granted)}"
    and "t = test_run_events eff granted es (init_test sel)"
  shows "set (dt_granted t) - set (dt_stopped t) \<subseteq> set (opt_list (Option.bind (current_run t) run_stream)) \<and>
    (\<not> (dt_testing t \<and> dt_mounted t) \<longrightarrow>
      set (dt_granted t) \<subseteq> set (dt_stopped t) \<and> set (dt_meters t) \<subseteq> set (dt_closed t))"
proof -
  have ok: "test_ok t" unfolding assms(2) by (rule test_ok_run [OF test_ok_init assms(1)])
  then have "\<not> (dt_testing t \<and> dt_mounted t) \<Longrightarrow> dt_cleanup t = None" by (auto simp: test_ok_def)
  with ok show ?thesis by (auto simp: test_ok_def current_run_def opt_list_def split: option.splits)
qed

theorem device_tests_release_their_devices_witness:
  "dt_stopped (test_run_events cam_effect test_cam_granted
     [TestToggle, TestSelect ''b'', TestGranted 0 (Some (7, True)), TestGranted 1 (Some (8, True)), TestUnmount] (init_test [])) = [7, 8] \<and>
   set (dt_granted (test_run_events cam_effect test_cam_granted
     [TestToggle, TestSelect ''b'', TestGranted 0 (Some (7, True)), TestGranted 1 (Some (8, True)), TestUnmount] (init_test [])))
     \<subseteq> {7, 8}"
proof -
  let ?es = "[TestToggle, TestSelect ''b'', TestGranted 0 (Some (7, True)), TestGranted 1 (Some (8, True)), TestUnmount]"
  let ?t = "test_run_events cam_effect test_cam_granted ?es (init_test [])"
  note defs = test_run_events_def test_step_def cam_effect_def test_cam_granted_def init_test_def run_cleanup_def new_run_def
    opt_list_def Let_def
  have "dt_stopped ?t = [7, 8]" "\<not> dt_mounted ?t" by (simp_all add: defs)
  with device_tests_release_their_devices [of cam_effect test_cam_granted ?t ?es "[]"] show ?thesis by simp
qed

end
