(* ===== verification/SettingsPage.thy ===== *)
theory SettingsPage
  imports SignIn Media DeviceTest
begin

text \<open>
  The settings (\<open>pages/Settings.tsx\<close>): the profile and its picture, the appearance, single sign-on, devices,
  notifications and the password. The tests of the devices are \<open>DeviceTest\<close>, the backup section is
  \<open>BackupDialogs\<close>. What a handler's closure captured (the account it started from) is an argument of its
  continuation. \<open>to_text\<close> is the JSON text of the cached preferences.
\<close>

section \<open>State\<close>

text \<open>A change of the own account: the fields the client sends.\<close>

datatype settings_call =
    SelfProfile string string
  | SelfAvatar "int option"
  | SelfPassword string string
  | UploadAvatar
  | SavePreferences user_preferences
  | OidcUnlink
  | ReadMe

record settings =
  se_displayName :: string
  se_email :: string
  se_saved :: bool
  se_saved_timers :: nat
  se_profileError :: "string option"
  se_avatarBusy :: bool
  se_devices :: device_list
  se_prefs :: user_preferences
  se_themeSaving :: bool
  se_badge :: bool
  se_badge_timers :: nat
  se_ssoEnabled :: bool
  se_ssoBusy :: bool
  se_ssoNotice :: "(bool \<times> looked_up) option"
  se_pwd_current :: string
  se_pwd_next :: string
  se_pwdMsg :: "(bool \<times> string) option"
  se_pwdBusy :: bool
  se_notifStatus :: permission
  se_calls :: "settings_call list"

definition se_call :: "settings_call list \<Rightarrow> settings \<Rightarrow> settings" where
  "se_call cs s = s\<lparr>se_calls := se_calls s @ cs\<rparr>"

text \<open>The page with the account and the appearance it changes.\<close>

type_synonym settings_world = "settings \<times> auth_state \<times> page"

definition link_messages :: "(string \<times> string) list" where
  "link_messages =
     [(''already_linked'', ''That SSO identity is already linked to a different account.''),
      (''session_expired'', ''Your session expired before linking finished -- please try again.''),
      (''session_mismatch'', ''Linking must be started and finished as the same signed-in user.'')]"

text \<open>The notice of the address's query, and whether the query is taken away.\<close>

definition link_notice :: "(string \<times> string) list \<Rightarrow> (bool \<times> looked_up) option \<times> bool" where
  "link_notice params =
     (let linked = map_of params ''sso''; code = map_of params ''sso-error'' in
      if \<not> str_truthy linked \<and> \<not> str_truthy code then (None, False)
      else if linked = Some ''linked'' then (Some (True, FoundText ''SSO connected to your account.''), True)
      else (Some (False, nvl (object_get link_messages (nvl code [])) (FoundText ''Could not connect SSO.'')), True))"

definition mount_settings :: "auth_state \<times> page \<Rightarrow> (string \<times> string) list \<Rightarrow> browser \<Rightarrow> settings" where
  "mount_settings w params b =
     \<lparr>se_displayName = (case auth_me (fst w) of None \<Rightarrow> [] | Some u \<Rightarrow> u_display_name u),
      se_email = (case auth_me (fst w) of None \<Rightarrow> [] | Some u \<Rightarrow> nvl (u_email u) []),
      se_saved = False, se_saved_timers = 0, se_profileError = None, se_avatarBusy = False, se_devices = no_devices,
      se_prefs = nvl (Option.bind (auth_me (fst w)) u_preferences) (currentPreferences (snd w)),
      se_themeSaving = False, se_badge = False, se_badge_timers = 0, se_ssoEnabled = False, se_ssoBusy = False,
      se_ssoNotice = fst (link_notice params), se_pwd_current = [], se_pwd_next = [], se_pwdMsg = None, se_pwdBusy = False,
      se_notifStatus = getNotificationPermissionStatus b, se_calls = []\<rparr>"

section \<open>The account in the store\<close>

text \<open>
  \<open>setMe\<close>, and the effect that follows the preferences of the account: each answer brings a new object, so it runs
  whether or not they differ.
\<close>

definition store_me :: "(user_preferences \<Rightarrow> string) \<Rightarrow> user \<Rightarrow> settings_world \<Rightarrow> settings_world" where
  "store_me to_text u w =
     (case w of (s, a, pg) \<Rightarrow>
        (let (a1, pg1) = setMe to_text (Some u) (a, pg);
             s1 = (case u_preferences u of Some p \<Rightarrow> s\<lparr>se_prefs := p\<rparr> | None \<Rightarrow> s)
         in (s1, a1, pg1)))"

section \<open>The profile\<close>

definition save :: "settings \<Rightarrow> settings" where
  "save s = (if js_trim (se_displayName s) = [] then s
     else se_call [SelfProfile (se_displayName s) (se_email s)] (s\<lparr>se_profileError := None\<rparr>))"

text \<open>The server's answer may hold an account (\<open>"id" in updated\<close>) or not.\<close>

definition profile_saved ::
  "(user_preferences \<Rightarrow> string) \<Rightarrow> string option + user option \<Rightarrow> settings_world \<Rightarrow> settings_world" where
  "profile_saved to_text r w =
     (case r of
        Inl e \<Rightarrow> (case w of (s, x) \<Rightarrow> (s\<lparr>se_profileError := Some (nvl e ''Could not save profile'')\<rparr>, x))
      | Inr u \<Rightarrow>
          (case (case u of None \<Rightarrow> w | Some u \<Rightarrow> store_me to_text u w) of
             (s, x) \<Rightarrow> (s\<lparr>se_saved := True, se_saved_timers := se_saved_timers s + 1\<rparr>, x)))"

definition saved_timer_fires :: "settings \<Rightarrow> settings" where
  "saved_timer_fires s = (if se_saved_timers s = 0 then s
     else s\<lparr>se_saved := False, se_saved_timers := se_saved_timers s - 1\<rparr>)"

definition uploadAvatar :: "settings \<Rightarrow> settings" where
  "uploadAvatar s = se_call [UploadAvatar] (s\<lparr>se_profileError := None, se_avatarBusy := True\<rparr>)"

definition avatar_failed :: "string option \<Rightarrow> string \<Rightarrow> settings \<Rightarrow> settings" where
  "avatar_failed e t s = s\<lparr>se_profileError := Some (nvl e t), se_avatarBusy := False\<rparr>"

definition avatar_uploaded :: "string option + int \<Rightarrow> settings \<Rightarrow> settings" where
  "avatar_uploaded r s =
     (case r of Inr f \<Rightarrow> se_call [SelfAvatar (Some f)] s | Inl e \<Rightarrow> avatar_failed e ''Could not update avatar'' s)"

definition removeAvatar :: "settings \<Rightarrow> settings" where
  "removeAvatar s = se_call [SelfAvatar None] (s\<lparr>se_profileError := None, se_avatarBusy := True\<rparr>)"

text \<open>The last request of either: \<open>t\<close> is the text for an error without one.\<close>

definition avatar_set ::
  "(user_preferences \<Rightarrow> string) \<Rightarrow> string \<Rightarrow> string option + user option \<Rightarrow> settings_world \<Rightarrow> settings_world" where
  "avatar_set to_text t r w =
     (case r of
        Inl e \<Rightarrow> (case w of (s, x) \<Rightarrow> (avatar_failed e t s, x))
      | Inr u \<Rightarrow> (case (case u of None \<Rightarrow> w | Some u \<Rightarrow> store_me to_text u w) of
                   (s, x) \<Rightarrow> (s\<lparr>se_avatarBusy := False\<rparr>, x)))"

section \<open>The appearance\<close>

datatype preference = PrefTheme string | PrefAccent string | PrefRadius string

primrec with_preference :: "preference \<Rightarrow> user_preferences \<Rightarrow> user_preferences" where
  "with_preference (PrefTheme t) p = p\<lparr>p_theme := t\<rparr>"
| "with_preference (PrefAccent t) p = p\<lparr>p_accent_color := t\<rparr>"
| "with_preference (PrefRadius t) p = p\<lparr>p_radius := t\<rparr>"

definition updatePreference ::
  "(user_preferences \<Rightarrow> string) \<Rightarrow> preference \<Rightarrow> settings_world \<Rightarrow> settings_world" where
  "updatePreference to_text k w =
     (case w of (s, a, pg) \<Rightarrow>
        (let p = with_preference k (se_prefs s); (pg1, merged) = savePreferencesToDb to_text (all_prefs p) pg
         in (se_call [SavePreferences merged] (s\<lparr>se_prefs := p, se_themeSaving := True\<rparr>), a, pg1)))"

text \<open>\<open>mine\<close> is the account of the closure, \<open>merged\<close> what was asked to be saved.\<close>

definition preference_saved ::
  "(user_preferences \<Rightarrow> string) \<Rightarrow> user option \<Rightarrow> user_preferences \<Rightarrow> user_preferences option \<Rightarrow>
    settings_world \<Rightarrow> settings_world" where
  "preference_saved to_text mine merged answer w =
     (case w of (s, a, pg) \<Rightarrow>
        (let (pg1, persisted) = preferences_saved to_text merged answer pg;
             (s2, x) = (case mine of
                          None \<Rightarrow> (s, a, pg1)
                        | Some u \<Rightarrow> store_me to_text (u\<lparr>u_preferences := Some persisted\<rparr>) (s, a, pg1))
         in (s2\<lparr>se_badge := True, se_badge_timers := se_badge_timers s2 + 1, se_themeSaving := False\<rparr>, x)))"

definition badge_timer_fires :: "settings \<Rightarrow> settings" where
  "badge_timer_fires s = (if se_badge_timers s = 0 then s
     else s\<lparr>se_badge := False, se_badge_timers := se_badge_timers s - 1\<rparr>)"

text \<open>What is ticked in the three lists, and the name above each.\<close>

definition active_theme_name :: "settings \<Rightarrow> string" where
  "active_theme_name s = (case find (\<lambda>t. tm_id t = p_theme (se_prefs s)) THEMES of
     None \<Rightarrow> p_theme (se_prefs s) | Some t \<Rightarrow> tm_name t)"

definition ticked_themes :: "settings \<Rightarrow> string list" where
  "ticked_themes s = filter (\<lambda>i. p_theme (se_prefs s) = i) (map tm_id THEMES)"

section \<open>Single sign-on\<close>

definition sso_config_answer :: "bool option \<Rightarrow> settings \<Rightarrow> settings" where
  "sso_config_answer r s = (case r of None \<Rightarrow> s | Some b \<Rightarrow> s\<lparr>se_ssoEnabled := b\<rparr>)"

definition unlinkSso :: "settings \<Rightarrow> settings" where
  "unlinkSso s = (if se_ssoBusy s then s else se_call [OidcUnlink] (s\<lparr>se_ssoBusy := True, se_ssoNotice := None\<rparr>))"

definition sso_failed :: "string option \<Rightarrow> settings \<Rightarrow> settings" where
  "sso_failed e s = s\<lparr>se_ssoNotice := Some (False, FoundText (nvl e ''Could not disconnect SSO'')), se_ssoBusy := False\<rparr>"

definition sso_unlinked :: "outcome \<Rightarrow> settings \<Rightarrow> settings" where
  "sso_unlinked r s = (case r of Inr _ \<Rightarrow> se_call [ReadMe] s | Inl e \<Rightarrow> sso_failed e s)"

definition sso_me_read :: "(user_preferences \<Rightarrow> string) \<Rightarrow> string option + user \<Rightarrow> settings_world \<Rightarrow> settings_world" where
  "sso_me_read to_text r w =
     (case r of
        Inl e \<Rightarrow> (case w of (s, x) \<Rightarrow> (sso_failed e s, x))
      | Inr u \<Rightarrow> (case store_me to_text u w of
          (s, x) \<Rightarrow> (s\<lparr>se_ssoNotice := Some (True, FoundText ''SSO disconnected.''), se_ssoBusy := False\<rparr>, x)))"

text \<open>The notice is part of the section, which is shown only where single sign-on is configured.\<close>

definition shown_sso_notice :: "settings \<Rightarrow> (bool \<times> looked_up) option" where
  "shown_sso_notice s = (if se_ssoEnabled s then se_ssoNotice s else None)"

section \<open>Devices and notifications\<close>

definition devices_answer :: "device list option \<Rightarrow> settings \<times> media_state \<Rightarrow> settings \<times> media_state" where
  "devices_answer r p = (let (l, m) = devices_listed r (snd p) in ((fst p)\<lparr>se_devices := l\<rparr>, m))"

text \<open>Choosing a device: the choice the test uses, and the preference; the empty choice takes it back.\<close>

definition choose_device :: "dev_kind \<Rightarrow> string \<Rightarrow> media_state \<Rightarrow> media_state" where
  "choose_device k i m = fst (setPreferredDevice k (if i = [] then None else Some i) m)"

definition handleRequestNotifs :: "browser \<Rightarrow> settings \<Rightarrow> settings" where
  "handleRequestNotifs b' s = s\<lparr>se_notifStatus := getNotificationPermissionStatus b'\<rparr>"

datatype notif_hint = NoWarning | NeedsHttps | BlockedHere

definition notif_warning :: "browser \<Rightarrow> settings \<Rightarrow> notif_hint" where
  "notif_warning b s =
     (if se_notifStatus s = Denied then (if secure_context b then BlockedHere else NeedsHttps) else NoWarning)"

section \<open>The password\<close>

datatype pwd_edit = PwdCurrent string | PwdNext string

primrec edit_password :: "pwd_edit \<Rightarrow> settings \<Rightarrow> settings" where
  "edit_password (PwdCurrent t) s = s\<lparr>se_pwd_current := t\<rparr>"
| "edit_password (PwdNext t) s = s\<lparr>se_pwd_next := t\<rparr>"

definition changePassword :: "settings \<Rightarrow> settings" where
  "changePassword s =
     (if se_pwdBusy s \<or> se_pwd_current s = [] \<or> length (se_pwd_next s) < 8 then s
      else se_call [SelfPassword (se_pwd_current s) (se_pwd_next s)] (s\<lparr>se_pwdMsg := None, se_pwdBusy := True\<rparr>))"

definition password_changed :: "outcome \<Rightarrow> settings \<Rightarrow> settings" where
  "password_changed r s =
     (case r of
        Inr _ \<Rightarrow> s\<lparr>se_pwdMsg := Some (True, ''Password changed successfully.''), se_pwd_current := [], se_pwd_next := []\<rparr>
      | Inl e \<Rightarrow> s\<lparr>se_pwdMsg := Some (False, nvl e ''Could not change password'')\<rparr>)
     \<lparr>se_pwdBusy := False\<rparr>"

section \<open>Properties\<close>

definition is_password :: "settings_call \<Rightarrow> bool" where
  "is_password c = (case c of SelfPassword _ _ \<Rightarrow> True | _ \<Rightarrow> False)"

interpretation password_form: request_form edit_password changePassword password_changed se_pwdBusy
    "\<lambda>s. length (filter is_password (se_calls s))"
proof unfold_locales
  show "se_pwdBusy (edit_password e s) = se_pwdBusy s" for e s by (cases e) simp_all
qed (simp_all add: changePassword_def password_changed_def se_call_def is_password_def split: sum.split)

lemma one_password_change_at_a_time:
  assumes "form_reach edit_password changePassword password_changed (\<lambda>s. length (filter is_password (se_calls s))) s0 n s"
    and "\<not> se_pwdBusy s0"
  shows "n \<le> 1"
  by (rule password_form.one_at_a_time [OF assms])

text \<open>
  A choice of appearance is in force at once, in the page, in the cache and in the ticks, before the server has
  answered; and an answer that agrees changes nothing of it but the account in the store.
\<close>

theorem chosen_appearance_is_in_force:
  assumes "proper p" "p = with_preference k (se_prefs s)" "(s1, a1, pg1) = updatePreference to_text k (s, a, pg)"
    and "(s2, a2, pg2) = preference_saved to_text (auth_me a1) p (Some p) (s1, a1, pg1)" "auth_me a = Some u"
  shows "se_prefs s1 = p \<and> currentPreferences pg1 = p \<and> a1 = a \<and> se_calls s1 = se_calls s @ [SavePreferences p] \<and>
    se_prefs s2 = p \<and> currentPreferences pg2 = p \<and> looks pg2 = looks pg1 \<and>
    auth_me a2 = Some (u\<lparr>u_preferences := Some p\<rparr>) \<and> \<not> se_themeSaving s2"
  using assms
  by (auto simp: updatePreference_def preference_saved_def savePreferencesToDb_def preferences_saved_def store_me_def setMe_def
      prefs_applied_def applyTheme_def looks_def se_call_def Let_def split: if_splits)

text \<open>
  The account of the closure is written back whole: a profile saved while a choice of appearance is being saved is undone
  in the store by the answer, and the page shows the old name until the next reload.
\<close>

lemma late_preference_reverts_the_profile:
  assumes "auth_me a = Some u" "(s1, a1, pg1) = profile_saved to_text (Inr (Some (u\<lparr>u_display_name := nm\<rparr>))) (s, a, pg)"
    and "(s2, a2, pg2) = preference_saved to_text (auth_me a) p answer (s1, a1, pg1)"
  shows "map_option u_display_name (auth_me a1) = Some nm \<and> map_option u_display_name (auth_me a2) = Some (u_display_name u)"
  using assms
  by (auto simp: profile_saved_def preference_saved_def store_me_def setMe_def Let_def preferences_saved_def
      split: option.splits if_splits)

text \<open>A notice about linking an account is not shown where single sign-on is not configured, though its query is taken away.\<close>

lemma link_notice_needs_the_section:
  "\<not> se_ssoEnabled s \<Longrightarrow> shown_sso_notice s = None"
  "link_notice [(''sso'', ''linked'')] = (Some (True, FoundText ''SSO connected to your account.''), True)"
  by (simp_all add: shown_sso_notice_def link_notice_def)

lemma busy_flags_come_down:
  "\<not> se_avatarBusy (fst (avatar_set to_text t r (s, a, pg)))" "\<not> se_ssoBusy (fst (sso_me_read to_text r' (s, a, pg)))"
  "isl q \<Longrightarrow> \<not> se_avatarBusy (avatar_uploaded q s)" "isl o' \<Longrightarrow> \<not> se_ssoBusy (sso_unlinked o' s)"
  by (auto simp: avatar_set_def sso_me_read_def avatar_uploaded_def sso_unlinked_def avatar_failed_def sso_failed_def
      split: sum.split option.split prod.split)

lemma chosen_device_is_preferred:
  "\<not> blocked (media_storage m) \<Longrightarrow> i \<noteq> [] \<Longrightarrow> load_prefs (media_storage (choose_device k i m)) k = Some i"
  "\<not> blocked (media_storage m) \<Longrightarrow> load_prefs (media_storage (choose_device k [] m)) k = None"
  by (simp_all add: choose_device_def setPreferredDevice_def load_prefs_def setItem_def removeItem_def getItem_def jm_get_set
      jm_get_delete mnote_def Let_def)

end
