(* ===== verification/AdminUsers.thy ===== *)
theory AdminUsers
  imports Shell Forms Util
begin

text \<open>
  The administration of people (\<open>pages/Admin.tsx\<close>): the tab in the address, the list with its filters, creating,
  editing, suspending, signing out, removing and erasing an account. Every action goes through \<open>run\<close>, whose closure
  (what to say and which dialog to close) is a job until its request is answered; so is unlinking single sign-on.
  Buttons that are not shown or disabled are part of the guards.
\<close>

section \<open>The tab\<close>

datatype admin_tab = TabUsers | TabAudit | TabSettings | TabBackups

definition parseAdminTab :: "string \<Rightarrow> admin_tab" where
  "parseAdminTab full =
     (let hash = remove1 (CHR ''#'') full;
          sub = (if starts_with hash ''admin/'' then drop 6 hash else [])
      in if sub = ''audit'' then TabAudit else if sub = ''settings'' then TabSettings
         else if sub = ''backups'' then TabBackups else TabUsers)"

primrec tab_text :: "admin_tab \<Rightarrow> string" where
  "tab_text TabUsers = ''users''"
| "tab_text TabAudit = ''audit''"
| "tab_text TabSettings = ''settings''"
| "tab_text TabBackups = ''backups''"

text \<open>The address \<open>setTab\<close> writes.\<close>

definition tab_hash :: "admin_tab \<Rightarrow> string" where
  "tab_hash t = ''#'' @ (if t = TabUsers then ''admin'' else ''admin/'' @ tab_text t)"

section \<open>The list\<close>

datatype user_filter = FilterAll | FilterAdmin | FilterUser | FilterSuspended | FilterDeleted

definition FILTERS :: "(user_filter \<times> string) list" where
  "FILTERS = [(FilterAll, ''All''), (FilterAdmin, ''Admins''), (FilterUser, ''Users''), (FilterSuspended, ''Suspended''),
     (FilterDeleted, ''Deleted'')]"

primrec matchesFilter :: "user \<Rightarrow> user_filter \<Rightarrow> bool" where
  "matchesFilter u FilterAll = (\<not> u_deleted u)"
| "matchesFilter u FilterAdmin = (\<not> u_deleted u \<and> u_role u = RoleAdmin)"
| "matchesFilter u FilterUser = (\<not> u_deleted u \<and> u_role u = RoleUser)"
| "matchesFilter u FilterSuspended = (\<not> u_deleted u \<and> u_disabled u)"
| "matchesFilter u FilterDeleted = u_deleted u"

text \<open>\<open>for (u) for (f) if (matchesFilter(u, f)) c[f]++\<close>.\<close>

definition filter_counts :: "user list \<Rightarrow> user_filter \<Rightarrow> nat" where
  "filter_counts us =
     fold (\<lambda>u c. fold (\<lambda>f c. if matchesFilter u f then c(f := c f + 1) else c) (map fst FILTERS) c) us (\<lambda>f. 0)"

definition admin_users :: "string \<Rightarrow> user_filter \<Rightarrow> user list \<Rightarrow> user list" where
  "admin_users search f us =
     (let q = js_lower (js_trim search) in
      filter (\<lambda>u. matchesFilter u f \<and>
        (q = [] \<or> str_includes (js_lower (u_display_name u)) q \<or> str_includes (js_lower (u_username u)) q \<or>
         str_includes (js_lower (nvl (u_email u) [])) q)) us)"

text \<open>What the list shows instead of people: whether it is loading, the directory's error, or that nobody matches.\<close>

datatype users_notice = UsersLoading | UsersFailed string | UsersNone string "string option"

definition users_notices :: "bool \<Rightarrow> string option \<Rightarrow> string \<Rightarrow> user_filter \<Rightarrow> user list \<Rightarrow> users_notice list" where
  "users_notices loaded err search f us =
     (if \<not> loaded \<and> nvl err [] = [] then [UsersLoading] else []) @
     (if nvl err [] \<noteq> [] \<and> us = [] then [UsersFailed (nvl err [])] else []) @
     (if loaded \<and> admin_users search f us = []
      then [UsersNone (if f = FilterDeleted then ''No deleted accounts'' else if f = FilterSuspended then ''Nobody is suspended''
                       else ''No matching users'')
              (if search \<noteq> [] then Some ''Try a different search.'' else None)]
      else [])"

definition status_pill :: "user \<Rightarrow> string" where
  "status_pill u = (if u_deleted u then ''Deleted'' else if u_disabled u then ''Suspended''
     else presenceLabel (case u_status u of Online \<Rightarrow> ''online'' | Away \<Rightarrow> ''away'' | Dnd \<Rightarrow> ''dnd'' | Offline \<Rightarrow> ''offline''))"

datatype row_button = RowErase | RowEdit | RowReactivate | RowSuspend | RowDelete

definition row_buttons :: "int \<Rightarrow> user \<Rightarrow> row_button list" where
  "row_buttons meID u =
     (if u_deleted u then [RowErase]
      else RowEdit # (if u_id u = meID then [] else [if u_disabled u then RowReactivate else RowSuspend, RowDelete]))"

record admin_stats =
  as_users :: nat
  as_online :: nat
  as_active_calls :: nat
  as_db_driver :: string
  as_total_bytes :: nat

definition stat_cards :: "admin_stats \<Rightarrow> (string \<times> string) list" where
  "stat_cards st = [(''Accounts'', show_nat (as_users st)), (''Online now'', show_nat (as_online st)),
     (''Active calls'', show_nat (as_active_calls st)),
     (''Storage ('' @ as_db_driver st @ '')'', fmtBytes (as_total_bytes st))]"

section \<open>Generated passwords\<close>

definition password_alphabet :: string where
  "password_alphabet = ''ABCDEFGHJKLMNPQRSTUVWXYZabcdefghijkmnopqrstuvwxyz23456789''"

text \<open>The fourteen random bytes are the argument.\<close>

definition generatePassword :: "8 word list \<Rightarrow> string" where
  "generatePassword bytes = map (\<lambda>b. password_alphabet ! (unat b mod length password_alphabet)) bytes"

text \<open>The password field: its value and whether it is readable.\<close>

record secret_field =
  sf_value :: string
  sf_show :: bool

definition generate_clicked :: "8 word list \<Rightarrow> secret_field \<Rightarrow> secret_field" where
  "generate_clicked bytes f = f\<lparr>sf_value := generatePassword bytes, sf_show := True\<rparr>"

definition copy_offered :: "secret_field \<Rightarrow> string option" where
  "copy_offered f = (if sf_value f \<noteq> [] then Some (sf_value f) else None)"

definition show_clicked :: "secret_field \<Rightarrow> secret_field" where
  "show_clicked f = f\<lparr>sf_show := \<not> sf_show f\<rparr>"

section \<open>State\<close>

record edit_form =
  ef_display_name :: string
  ef_role :: role
  ef_password :: string
  ef_email :: string

record create_form =
  cf_username :: string
  cf_display_name :: string
  cf_password :: string
  cf_role :: role
  cf_email :: string

definition empty_create :: create_form where
  "empty_create = \<lparr>cf_username = [], cf_display_name = [], cf_password = [], cf_role = RoleUser, cf_email = []\<rparr>"

datatype delete_mode = RemoveMode | EraseMode

text \<open>A change of an account: name, role, email, and a password if one was typed.\<close>

datatype account_request =
    UpdateUser int string role string "string option"
  | DisableUser int bool
  | CreateUser create_form
  | SignOutUser int
  | DeleteUser int bool
  | UnlinkUser int

datatype admin_effect =
    Request account_request
  | ReloadUsers
  | ReloadStats
  | SayDone string

datatype then_close = CloseEditing | CloseCreating | CloseSuspending | CloseDeleting | CloseNothing

record admin =
  ad_stats :: "admin_stats option"
  ad_editing :: "user option"
  ad_creating :: bool
  ad_userToDelete :: "user option"
  ad_deleteMode :: delete_mode
  ad_eraseConfirm :: string
  ad_userToSuspend :: "user option"
  ad_busy :: bool
  ad_unlinking :: bool
  ad_search :: string
  ad_filter :: user_filter
  ad_editForm :: edit_form
  ad_createForm :: create_form
  ad_error :: "string option"
  ad_tab :: admin_tab
  ad_hash :: string
  ad_jobs :: "(string \<times> then_close) list"
  ad_unlinks :: "user list"
  ad_log :: "admin_effect list"

text \<open>\<open>ad_jobs\<close> are the runs whose request is under way, \<open>ad_unlinks\<close> the accounts being unlinked.\<close>

definition ad_do :: "admin_effect list \<Rightarrow> admin \<Rightarrow> admin" where
  "ad_do es a = a\<lparr>ad_log := ad_log a @ es\<rparr>"

definition mount_admin :: "string \<Rightarrow> admin" where
  "mount_admin hash = \<lparr>ad_stats = None, ad_editing = None, ad_creating = False, ad_userToDelete = None,
     ad_deleteMode = RemoveMode, ad_eraseConfirm = [], ad_userToSuspend = None, ad_busy = False, ad_unlinking = False,
     ad_search = [], ad_filter = FilterAll,
     ad_editForm = \<lparr>ef_display_name = [], ef_role = RoleUser, ef_password = [], ef_email = []\<rparr>,
     ad_createForm = empty_create, ad_error = None, ad_tab = parseAdminTab hash, ad_hash = hash, ad_jobs = [],
     ad_unlinks = [], ad_log = [ReloadUsers, ReloadStats]\<rparr>"

definition setTab :: "admin_tab \<Rightarrow> admin \<Rightarrow> admin" where
  "setTab t a = a\<lparr>ad_tab := t, ad_hash := tab_hash t\<rparr>"

definition admin_hashchange :: "string \<Rightarrow> admin \<Rightarrow> admin" where
  "admin_hashchange h a = a\<lparr>ad_hash := h, ad_tab := parseAdminTab h\<rparr>"

definition modalOpen :: "admin \<Rightarrow> bool" where
  "modalOpen a = (ad_editing a \<noteq> None \<or> ad_creating a \<or> ad_userToDelete a \<noteq> None \<or> ad_userToSuspend a \<noteq> None)"

text \<open>The error is shown in the open dialog, or on the page if there is none.\<close>

definition page_error :: "admin \<Rightarrow> string option" where
  "page_error a = (if modalOpen a then None else ad_error a)"

definition stats_loaded :: "admin_stats option \<Rightarrow> admin \<Rightarrow> admin" where
  "stats_loaded r a = (case r of None \<Rightarrow> a | Some st \<Rightarrow> a\<lparr>ad_stats := Some st\<rparr>)"

definition refresh_admin :: "admin \<Rightarrow> admin" where
  "refresh_admin a = ad_do [ReloadUsers, ReloadStats] a"

section \<open>Actions\<close>

text \<open>\<open>run\<close> up to its \<open>await\<close>, and from there.\<close>

definition run :: "account_request \<Rightarrow> string \<Rightarrow> then_close \<Rightarrow> admin \<Rightarrow> admin" where
  "run q success k a =
     ad_do [Request q] (a\<lparr>ad_error := None, ad_busy := True, ad_jobs := ad_jobs a @ [(success, k)]\<rparr>)"

primrec close_dialog :: "then_close \<Rightarrow> admin \<Rightarrow> admin" where
  "close_dialog CloseEditing a = a\<lparr>ad_editing := None\<rparr>"
| "close_dialog CloseCreating a = a\<lparr>ad_creating := False, ad_createForm := empty_create\<rparr>"
| "close_dialog CloseSuspending a = a\<lparr>ad_userToSuspend := None\<rparr>"
| "close_dialog CloseDeleting a = a\<lparr>ad_userToDelete := None\<rparr>"
| "close_dialog CloseNothing a = a"

definition admin_run_done :: "string \<times> then_close \<Rightarrow> outcome \<Rightarrow> admin \<Rightarrow> admin" where
  "admin_run_done job r a =
     (let a1 = a\<lparr>ad_jobs := remove1 job (ad_jobs a)\<rparr> in
      case r of
        Inr _ \<Rightarrow> refresh_admin (close_dialog (snd job) (ad_do [SayDone (fst job)] a1))
      | Inl e \<Rightarrow> a1\<lparr>ad_error := Some (nvl e ''Something went wrong'')\<rparr>)
     \<lparr>ad_busy := False\<rparr>"

definition openEdit :: "user \<Rightarrow> admin \<Rightarrow> admin" where
  "openEdit u a = a\<lparr>ad_editing := Some u, ad_error := None,
     ad_editForm := \<lparr>ef_display_name = u_display_name u, ef_role = u_role u, ef_password = [], ef_email = nvl (u_email u) []\<rparr>\<rparr>"

definition openDelete :: "user \<Rightarrow> admin \<Rightarrow> admin" where
  "openDelete u a = a\<lparr>ad_error := None, ad_eraseConfirm := [],
     ad_deleteMode := (if u_deleted u then EraseMode else RemoveMode), ad_userToDelete := Some u\<rparr>"

definition openSuspend :: "user \<Rightarrow> admin \<Rightarrow> admin" where
  "openSuspend u a = a\<lparr>ad_error := None, ad_userToSuspend := Some u\<rparr>"

primrec press_row :: "row_button \<Rightarrow> user \<Rightarrow> admin \<Rightarrow> admin" where
  "press_row RowErase u = openDelete u"
| "press_row RowEdit u = openEdit u"
| "press_row RowReactivate u = openSuspend u"
| "press_row RowSuspend u = openSuspend u"
| "press_row RowDelete u = openDelete u"

text \<open>The role cannot be changed while the own account is being edited.\<close>

definition chooseRole :: "int \<Rightarrow> role \<Rightarrow> admin \<Rightarrow> admin" where
  "chooseRole meID r a =
     (if map_option u_id (ad_editing a) = Some meID then a
      else a\<lparr>ad_editForm := (ad_editForm a)\<lparr>ef_role := r\<rparr>\<rparr>)"

definition typeEdit :: "string \<Rightarrow> string \<Rightarrow> string \<Rightarrow> admin \<Rightarrow> admin" where
  "typeEdit nm pw email a =
     a\<lparr>ad_editForm := (ad_editForm a)\<lparr>ef_display_name := nm, ef_password := pw, ef_email := email\<rparr>\<rparr>"

definition admin_saveEdit :: "admin \<Rightarrow> admin" where
  "admin_saveEdit a =
     (case ad_editing a of
        None \<Rightarrow> a
      | Some u \<Rightarrow>
          if ad_busy a then a
          else (let f = ad_editForm a; changed = ef_password f \<noteq> [] in
            run (UpdateUser (u_id u) (ef_display_name f) (ef_role f) (ef_email f) (if changed then Some (ef_password f) else None))
              (if changed then ''Saved. '' @ u_display_name u @ '' was signed out and must use the new password.''
               else ''Saved changes to '' @ u_display_name u @ ''.'')
              CloseEditing a))"

definition saveCreate :: "admin \<Rightarrow> admin" where
  "saveCreate a =
     (let f = ad_createForm a in
      if \<not> ad_creating a \<or> ad_busy a \<or> cf_username f = [] \<or> length (cf_password f) < 8 then a
      else run (CreateUser f) (''Created '' @ (if cf_display_name f \<noteq> [] then cf_display_name f else cf_username f) @ ''.'')
             CloseCreating a)"

definition confirmSuspend :: "admin \<Rightarrow> admin" where
  "confirmSuspend a =
     (case ad_userToSuspend a of
        None \<Rightarrow> a
      | Some u \<Rightarrow>
          if ad_busy a then a
          else run (DisableUser (u_id u) (\<not> u_disabled u))
                 (u_display_name u @ (if u_disabled u then '' can sign in again.'' else '' is suspended and was signed out.''))
                 CloseSuspending a)"

definition signOutEverywhere :: "int \<Rightarrow> admin \<Rightarrow> admin" where
  "signOutEverywhere meID a =
     (case ad_editing a of
        None \<Rightarrow> a
      | Some u \<Rightarrow> if u_id u = meID \<or> ad_busy a then a
                  else run (SignOutUser (u_id u)) (u_display_name u @ '' was signed out of every device.'') CloseNothing a)"

definition confirmDelete :: "admin \<Rightarrow> admin" where
  "confirmDelete a =
     (case ad_userToDelete a of
        None \<Rightarrow> a
      | Some u \<Rightarrow>
          (let erase = (ad_deleteMode a = EraseMode) in
           if ad_busy a \<or> (erase \<and> js_trim (ad_eraseConfirm a) \<noteq> u_username u) then a
           else run (DeleteUser (u_id u) erase)
                  (u_display_name u @ (if erase then '' and all their data were erased.'' else '' was removed.''))
                  CloseDeleting a))"

text \<open>The two ways to delete are offered only for an account that was not removed yet.\<close>

definition chooseDelete :: "delete_mode \<Rightarrow> admin \<Rightarrow> admin" where
  "chooseDelete m a =
     (case ad_userToDelete a of None \<Rightarrow> a | Some u \<Rightarrow> if u_deleted u then a else a\<lparr>ad_deleteMode := m\<rparr>)"

definition unlinkUserSso :: "admin \<Rightarrow> admin" where
  "unlinkUserSso a =
     (case ad_editing a of
        None \<Rightarrow> a
      | Some u \<Rightarrow>
          if \<not> u_oidc_linked u \<or> ad_unlinking a then a
          else ad_do [Request (UnlinkUser (u_id u))] (a\<lparr>ad_unlinking := True, ad_error := None, ad_unlinks := ad_unlinks a @ [u]\<rparr>))"

text \<open>\<open>u\<close> is the \<open>editing\<close> of the closure.\<close>

definition sso_unlinked_user :: "user \<Rightarrow> outcome \<Rightarrow> admin \<Rightarrow> admin" where
  "sso_unlinked_user u r a =
     (let a1 = a\<lparr>ad_unlinks := remove1 u (ad_unlinks a)\<rparr> in
      case r of
        Inr _ \<Rightarrow> ad_do [SayDone ''Single sign-on unlinked.'', ReloadUsers] (a1\<lparr>ad_editing := Some (u\<lparr>u_oidc_linked := False\<rparr>)\<rparr>)
      | Inl e \<Rightarrow> a1\<lparr>ad_error := Some (nvl e ''Could not unlink SSO'')\<rparr>)
     \<lparr>ad_unlinking := False\<rparr>"

section \<open>Events\<close>

datatype admin_event =
    PressRow row_button user
  | ChooseRole role
  | TypeEdit string string string
  | SaveEdit
  | OpenCreate
  | TypeCreate create_form
  | SaveCreate
  | ConfirmSuspend
  | SignOutClicked
  | ChooseDelete delete_mode
  | TypeConfirm string
  | ConfirmDelete
  | UnlinkClicked
  | CloseDialog then_close
  | RunAnswered "string \<times> then_close" outcome
  | UnlinkAnswered user outcome

text \<open>A dialog is closed by its button, its cross, the escape key or a click beside it, also while a request is under way.\<close>

definition dismissed :: "then_close \<Rightarrow> admin \<Rightarrow> admin" where
  "dismissed k a = (case k of CloseCreating \<Rightarrow> a\<lparr>ad_creating := False\<rparr> | _ \<Rightarrow> close_dialog k a)"

primrec admin_step :: "int \<Rightarrow> admin_event \<Rightarrow> admin \<Rightarrow> admin" where
  "admin_step meID (PressRow b u) a = (if b \<in> set (row_buttons meID u) then press_row b u a else a)"
| "admin_step meID (ChooseRole r) a = chooseRole meID r a"
| "admin_step meID (TypeEdit n p m) a = typeEdit n p m a"
| "admin_step meID SaveEdit a = admin_saveEdit a"
| "admin_step meID OpenCreate a = a\<lparr>ad_creating := True, ad_error := None\<rparr>"
| "admin_step meID (TypeCreate f) a = a\<lparr>ad_createForm := f\<rparr>"
| "admin_step meID SaveCreate a = saveCreate a"
| "admin_step meID ConfirmSuspend a = confirmSuspend a"
| "admin_step meID SignOutClicked a = signOutEverywhere meID a"
| "admin_step meID (ChooseDelete m) a = chooseDelete m a"
| "admin_step meID (TypeConfirm t) a = a\<lparr>ad_eraseConfirm := t\<rparr>"
| "admin_step meID ConfirmDelete a = confirmDelete a"
| "admin_step meID UnlinkClicked a = unlinkUserSso a"
| "admin_step meID (CloseDialog k) a = dismissed k a"
| "admin_step meID (RunAnswered j r) a = (if j \<in> set (ad_jobs a) then admin_run_done j r a else a)"
| "admin_step meID (UnlinkAnswered u r) a = (if u \<in> set (ad_unlinks a) then sso_unlinked_user u r a else a)"

definition admin_run :: "int \<Rightarrow> admin_event list \<Rightarrow> admin \<Rightarrow> admin" where
  "admin_run meID es a = fold (admin_step meID) es a"

section \<open>The tab and the list\<close>

text \<open>A reload, or a bookmark, lands on the tab that was written to the address, inside the administration view.\<close>

lemma parseAdminTab_tab_hash [simp]: "parseAdminTab (tab_hash t) = t"
  by (cases t) (simp_all add: parseAdminTab_def tab_hash_def starts_with_def)

lemma setTab_consistent: "parseAdminTab (ad_hash (setTab t a)) = ad_tab (setTab t a)"
  by (simp add: setTab_def)

lemma tab_hash_in_admin: "parseHash (tab_hash t) = ViewAdmin"
  by (cases t) (simp_all only: tab_hash_def tab_text.simps admin_tab.distinct if_True if_False, code_simp+)

lemma count_filters:
  "fold (\<lambda>f c. if matchesFilter u f then c(f := c f + (1::nat)) else c) (map fst FILTERS) c =
     (\<lambda>g. c g + (if matchesFilter u g then 1 else 0))"
proof
  fix g
  show "fold (\<lambda>f c. if matchesFilter u f then c(f := c f + (1::nat)) else c) (map fst FILTERS) c g =
     c g + (if matchesFilter u g then 1 else 0)"
    by (cases g) (simp_all add: FILTERS_def)
qed

lemma filter_counts_from:
  "fold (\<lambda>u c. fold (\<lambda>f c. if matchesFilter u f then c(f := c f + (1::nat)) else c) (map fst FILTERS) c) us c g =
     c g + length (filter (\<lambda>u. matchesFilter u g) us)"
  by (induction us arbitrary: c) (simp_all add: count_filters del: list.map)

text \<open>The number on a filter's tab is the length of the list the tab shows when nothing is searched.\<close>

lemma filter_counts_length: "filter_counts us f = length (admin_users [] f us)"
  by (simp add: filter_counts_def filter_counts_from admin_users_def js_trim_def js_lower_def
      cong: filter_cong)

section \<open>Generated passwords\<close>

lemma password_alphabet_length: "length password_alphabet = 57"
  by (simp add: password_alphabet_def)

lemma generatePassword_length [simp]: "length (generatePassword bs) = length bs"
  by (simp add: generatePassword_def)

lemma generatePassword_letters: "set (generatePassword bs) \<subseteq> set password_alphabet"
proof
  fix c
  assume "c \<in> set (generatePassword bs)"
  then obtain b :: "8 word" where "c = password_alphabet ! (unat b mod length password_alphabet)"
    by (auto simp: generatePassword_def)
  moreover have "unat b mod length password_alphabet < length password_alphabet"
    by (rule mod_less_divisor) (simp add: password_alphabet_length)
  ultimately show "c \<in> set password_alphabet"
    by simp
qed

text \<open>Generating makes the password readable and offers it for copying.\<close>

lemma generated_password_is_shown:
  "bs \<noteq> [] \<Longrightarrow> sf_show (generate_clicked bs f) \<and> copy_offered (generate_clicked bs f) = Some (generatePassword bs)"
  by (simp add: generate_clicked_def copy_offered_def generatePassword_def)

text \<open>A list that is there never shows a notice, and an empty one always does once it is loaded.\<close>

lemma users_notices_iff: "loaded \<Longrightarrow> us \<noteq> [] \<Longrightarrow> (users_notices loaded err search f us = []) = (admin_users search f us \<noteq> [])"
  by (simp add: users_notices_def)

text \<open>A generated password of fourteen bytes is long enough for the account to be created.\<close>

lemma generated_password_accepted:
  assumes "length bs = 14" "ad_creating a" "\<not> ad_busy a" "cf_username (ad_createForm a) \<noteq> []"
    "cf_password (ad_createForm a) = generatePassword bs"
  shows "Request (CreateUser (ad_createForm a)) \<in> set (ad_log (saveCreate a))"
  using assms by (simp add: saveCreate_def run_def ad_do_def Let_def)

section \<open>What is done to whom\<close>

text \<open>
  The account that a request locks out or signs out, if any; a new password ends all of its sessions as well
  (\<open>users_handlers.go\<close>).
\<close>

fun locked_out :: "account_request \<Rightarrow> int option" where
  "locked_out (DisableUser i _) = Some i"
| "locked_out (SignOutUser i) = Some i"
| "locked_out (DeleteUser i _) = Some i"
| "locked_out (UpdateUser i nm role email pw) = (if pw = None then None else Some i)"
| "locked_out _ = None"

text \<open>
  Of the administrator \<open>meID\<close> after clicking rows of \<open>P\<close>, those of \<open>E\<close> to edit them, typing confirmations in \<open>T\<close> and
  passwords in \<open>W\<close>: the dialogs to suspend and to delete are about somebody else, the edited accounts are of \<open>E\<close>, and
  every request so far locked out somebody else or gave an edited account a typed password; an erased account is one
  whose name was typed.
\<close>

definition own_password :: "int \<Rightarrow> user set \<Rightarrow> string set \<Rightarrow> account_request \<Rightarrow> bool" where
  "own_password meID E W q = (\<exists>u \<in> E. u_id u = meID \<and> (\<exists>nm role email. \<exists>pw \<in> W. q = UpdateUser meID nm role email (Some pw)))"

definition deliberate :: "int \<Rightarrow> user set \<Rightarrow> user set \<Rightarrow> string set \<Rightarrow> string set \<Rightarrow> admin \<Rightarrow> bool" where
  "deliberate meID P E T W a =
     ((\<forall>u. ad_editing a = Some u \<or> u \<in> set (ad_unlinks a) \<longrightarrow> u_id u \<in> u_id ` E) \<and> ef_password (ad_editForm a) \<in> insert [] W \<and>
      (\<forall>u. ad_userToSuspend a = Some u \<longrightarrow> u_id u \<noteq> meID) \<and>
      (\<forall>u. ad_userToDelete a = Some u \<longrightarrow> u_id u \<noteq> meID \<and> u \<in> P) \<and> ad_eraseConfirm a \<in> T \<and>
      (\<forall>q. Request q \<in> set (ad_log a) \<longrightarrow> (locked_out q = Some meID \<longrightarrow> own_password meID E W q) \<and>
        (\<forall>i. q = DeleteUser i True \<longrightarrow> (\<exists>u \<in> P. u_id u = i \<and> u_username u \<in> js_trim ` T))))"

lemma deliberate_run:
  assumes "deliberate meID P E T W a" "locked_out q = Some meID \<Longrightarrow> own_password meID E W q"
    "\<And>i. q = DeleteUser i True \<Longrightarrow> \<exists>u \<in> P. u_id u = i \<and> u_username u \<in> js_trim ` T"
  shows "deliberate meID P E T W (run q t k a)"
  using assms by (auto simp: deliberate_def run_def ad_do_def)

lemma deliberate_close: "deliberate meID P E T W a \<Longrightarrow> deliberate meID P E T W (close_dialog k a)"
  by (cases k) (simp_all add: deliberate_def)

lemma deliberate_say: "deliberate meID P E T W a \<Longrightarrow> deliberate meID P E T W (ad_do [SayDone t] a)"
  by (simp add: deliberate_def ad_do_def)

lemma deliberate_run_done:
  assumes "deliberate meID P E T W a"
  shows "deliberate meID P E T W (admin_run_done j r a)"
proof (cases r)
  case (Inl e)
  with assms show ?thesis
    by (simp add: admin_run_done_def Let_def deliberate_def)
next
  case (Inr v)
  have "deliberate meID P E T W (a\<lparr>ad_jobs := remove1 j (ad_jobs a)\<rparr>)"
    using assms by (simp add: deliberate_def)
  from deliberate_close [OF deliberate_say [OF this], of "snd j" "fst j"] Inr show ?thesis
    by (simp add: admin_run_done_def Let_def refresh_admin_def ad_do_def deliberate_def)
qed

lemma deliberate_press:
  assumes "deliberate meID P E T W a" "b \<in> set (row_buttons meID u)" "u_deleted u \<longrightarrow> u_id u \<noteq> meID" "u \<in> P" "b = RowEdit \<Longrightarrow> u \<in> E" "[] \<in> T"
  shows "deliberate meID P E T W (press_row b u a)"
  using assms
  by (cases b) (auto simp: deliberate_def row_buttons_def openEdit_def openDelete_def openSuspend_def split: if_splits)

lemma deliberate_confirm:
  assumes "deliberate meID P E T W a"
  shows "deliberate meID P E T W (confirmSuspend a)" "deliberate meID P E T W (confirmDelete a)"
    "deliberate meID P E T W (signOutEverywhere meID a)"
proof -
  show "deliberate meID P E T W (confirmSuspend a)"
  proof (cases "ad_userToSuspend a")
    case (Some u)
    with assms have "u_id u \<noteq> meID"
      by (simp add: deliberate_def)
    with Some show ?thesis
      by (auto simp: confirmSuspend_def assms intro!: deliberate_run)
  qed (simp add: confirmSuspend_def assms)
  show "deliberate meID P E T W (signOutEverywhere meID a)"
    using assms by (cases "ad_editing a") (auto simp: signOutEverywhere_def intro!: deliberate_run)
  show "deliberate meID P E T W (confirmDelete a)"
  proof (cases "ad_userToDelete a")
    case (Some u)
    with assms have u: "u_id u \<noteq> meID" "u \<in> P" "ad_eraseConfirm a \<in> T"
      by (simp_all add: deliberate_def)
    have "js_trim (ad_eraseConfirm a) \<in> js_trim ` T"
      using u by simp
    then have "js_trim (ad_eraseConfirm a) = u_username u \<Longrightarrow> \<exists>v \<in> P. u_id v = u_id u \<and> u_username v \<in> js_trim ` T"
      using u(2) by auto
    with u(1) show ?thesis
      by (auto simp: confirmDelete_def Some Let_def assms intro!: deliberate_run)
  qed (simp add: confirmDelete_def assms)
qed

lemma deliberate_save:
  assumes "deliberate meID P E T W a"
  shows "deliberate meID P E T W (admin_saveEdit a)" "deliberate meID P E T W (saveCreate a)" "deliberate meID P E T W (unlinkUserSso a)"
    "u \<in> set (ad_unlinks a) \<Longrightarrow> deliberate meID P E T W (sso_unlinked_user u r a)"
proof -
  show "deliberate meID P E T W (admin_saveEdit a)"
  proof (cases "ad_editing a")
    case (Some u)
    with assms have "u_id u \<in> u_id ` E" "ef_password (ad_editForm a) \<in> insert [] W"
      by (simp_all add: deliberate_def)
    then have "own_password meID E W (UpdateUser (u_id u) nm r m (Some (ef_password (ad_editForm a))))"
      if "u_id u = meID" "ef_password (ad_editForm a) \<noteq> []" for nm r m
      using that by (fastforce simp: own_password_def)
    then show ?thesis
      using Some assms by (auto simp: admin_saveEdit_def Let_def intro!: deliberate_run)
  qed (simp add: admin_saveEdit_def assms)
  show "deliberate meID P E T W (saveCreate a)"
    using assms by (auto simp: saveCreate_def Let_def intro!: deliberate_run)
  show "deliberate meID P E T W (unlinkUserSso a)"
    using assms by (cases "ad_editing a") (auto simp: unlinkUserSso_def deliberate_def ad_do_def)
  show "deliberate meID P E T W (sso_unlinked_user u r a)" if "u \<in> set (ad_unlinks a)"
    using assms that set_remove1_subset [of u "ad_unlinks a"]
    by (cases r) (auto simp: sso_unlinked_user_def Let_def deliberate_def ad_do_def)
qed

text \<open>What the list and the confirmation field contribute: removed accounts are never the own one.\<close>

fun event_within :: "int \<Rightarrow> user set \<Rightarrow> user set \<Rightarrow> string set \<Rightarrow> string set \<Rightarrow> admin_event \<Rightarrow> bool" where
  "event_within meID P E T W (PressRow b u) = (u \<in> P \<and> (b = RowEdit \<longrightarrow> u \<in> E) \<and> (u_deleted u \<longrightarrow> u_id u \<noteq> meID))"
| "event_within meID P E T W (TypeConfirm t) = (t \<in> T)"
| "event_within meID P E T W (TypeEdit nm pw email) = (pw \<in> W)"
| "event_within meID P E T W _ = True"

lemma deliberate_step:
  assumes "deliberate meID P E T W a" "event_within meID P E T W e" "[] \<in> T"
  shows "deliberate meID P E T W (admin_step meID e a)"
proof (cases e)
  case (PressRow b u)
  with assms show ?thesis
    by (simp add: deliberate_press)
next
  case (CloseDialog k)
  with assms show ?thesis
    by (cases k) (simp_all add: dismissed_def deliberate_def)
qed (use assms in \<open>simp_all add: deliberate_confirm deliberate_save deliberate_run_done\<close>,
     (simp_all add: deliberate_def chooseRole_def typeEdit_def chooseDelete_def split: option.splits)?)

lemma deliberate_admin_run:
  assumes "deliberate meID P E T W a" "list_all (event_within meID P E T W) es" "[] \<in> T"
  shows "deliberate meID P E T W (admin_run meID es a)"
  using assms by (induction es arbitrary: a) (simp_all add: admin_run_def deliberate_step)

lemma deliberate_mount: "[] \<in> T \<Longrightarrow> deliberate meID P E T W (mount_admin h)"
  by (simp add: deliberate_def mount_admin_def)

text \<open>
  C31. On any run of the page, whatever the order of clicks and answers: no request suspends or deletes the administrator's
  own account, and a request that signs it out is a new password for it, one that was typed into the form for editing in a
  run in which the own row was opened there (perhaps for another account: \<open>late_unlink_mixes_accounts\<close>); and an account is erased with all its data only if its row was clicked and its username
  was typed into the confirmation field (up to white space around it). The list shows the own account as one that is not
  removed.
\<close>

theorem lock_outs_are_deliberate:
  assumes "list_all (event_within meID UNIV UNIV UNIV UNIV) es"
    and "Request q \<in> set (ad_log (admin_run meID es (mount_admin h)))"
  shows "(locked_out q = Some meID \<longrightarrow> (\<exists>nm role email pw. q = UpdateUser meID nm role email (Some pw) \<and>
      (\<exists>u. PressRow RowEdit u \<in> set es \<and> u_id u = meID) \<and> (\<exists>n m. TypeEdit n pw m \<in> set es))) \<and>
    (\<forall>i. q = DeleteUser i True \<longrightarrow>
      (\<exists>b u t. PressRow b u \<in> set es \<and> u_id u = i \<and> t \<in> {[]} \<union> {t. TypeConfirm t \<in> set es} \<and> js_trim t = u_username u))"
proof -
  let ?P = "{u. \<exists>b. PressRow b u \<in> set es}"
  let ?T = "{[]} \<union> {t. TypeConfirm t \<in> set es}"
  let ?E = "{u. PressRow RowEdit u \<in> set es}" and ?W = "{pw. \<exists>n m. TypeEdit n pw m \<in> set es}"
  have "list_all (event_within meID ?P ?E ?T ?W) es"
    unfolding list_all_iff
  proof
    fix e
    assume e: "e \<in> set es"
    with assms(1) have "event_within meID UNIV UNIV UNIV UNIV e"
      by (simp add: list_all_iff)
    with e show "event_within meID ?P ?E ?T ?W e"
      by - (cases e, auto)
  qed
  from deliberate_admin_run [OF deliberate_mount this, of h] assms(2) show ?thesis
    by (fastforce simp: deliberate_def own_password_def)
qed

definition example_user :: "int \<Rightarrow> string \<Rightarrow> user" where
  "example_user i nm = \<lparr>u_id = i, u_username = nm, u_display_name = nm, u_role = RoleUser, u_avatar_file_id = None,
     u_email = None, u_disabled = False, u_deleted = False, u_created_at = Iso 0, u_oidc_linked = True, u_status = Offline,
     u_preferences = None\<rparr>"

lemma lock_outs_are_deliberate_witness:
  "(\<exists>b u t. PressRow b u \<in> {PressRow RowDelete (example_user 2 ''bob'')} \<and> u_id u = 2 \<and> js_trim t = u_username u)"
proof -
  let ?es = "[PressRow RowDelete (example_user 2 ''bob''), ChooseDelete EraseMode, TypeConfirm '' bob '', ConfirmDelete]"
  have "js_trim '' bob '' = ''bob''"
    by code_simp
  then have "Request (DeleteUser 2 True) \<in> set (ad_log (admin_run 1 ?es (mount_admin [])))"
    by (simp add: admin_run_def row_buttons_def openDelete_def confirmDelete_def chooseDelete_def run_def ad_do_def
        mount_admin_def example_user_def Let_def)
  then have "(\<forall>i. DeleteUser 2 True = DeleteUser i True \<longrightarrow>
      (\<exists>b u t. PressRow b u \<in> set ?es \<and> u_id u = i \<and> t \<in> {[]} \<union> {t. TypeConfirm t \<in> set ?es} \<and> js_trim t = u_username u))"
    by (rule lock_outs_are_deliberate [rotated, THEN conjunct2]) (simp add: example_user_def)
  then show ?thesis
    by auto
qed

section \<open>Answers that come late\<close>

text \<open>
  The answer to unlinking \<open>x\<close> reopens the dialog on \<open>x\<close> but leaves the form as it is. If the administrator has meanwhile
  moved on to \<open>y\<close>, the next save writes the name, the role and the address of \<open>y\<close> to the account of \<open>x\<close>; the role also
  when \<open>x\<close> is the administrator, whose own role the form does not offer to change.
\<close>

theorem late_unlink_mixes_accounts:
  assumes "\<not> u_deleted x" "u_oidc_linked x" "\<not> u_deleted y"
  shows "Request (UpdateUser (u_id x) (u_display_name y) (u_role y) (nvl (u_email y) []) None) \<in>
     set (ad_log (admin_run meID [PressRow RowEdit x, UnlinkClicked, CloseDialog CloseEditing, PressRow RowEdit y,
       UnlinkAnswered x (Inr ()), SaveEdit] (mount_admin h)))"
  using assms
  by (simp add: admin_run_def row_buttons_def openEdit_def unlinkUserSso_def dismissed_def sso_unlinked_user_def
      admin_saveEdit_def run_def ad_do_def mount_admin_def Let_def)

lemma late_unlink_mixes_accounts_witness:
  "Request (UpdateUser 1 ''bob'' RoleUser [] None) \<in>
     set (ad_log (admin_run 1 [PressRow RowEdit (example_user 1 ''ann''), UnlinkClicked, CloseDialog CloseEditing,
       PressRow RowEdit (example_user 2 ''bob''), UnlinkAnswered (example_user 1 ''ann'') (Inr ()), SaveEdit] (mount_admin [])))"
  using late_unlink_mixes_accounts [of "example_user 1 ''ann''" "example_user 2 ''bob''" 1 "[]"]
  by (simp add: example_user_def)

text \<open>The dialog can be closed while a save is under way; its answer then closes the dialog opened since.\<close>

lemma late_save_closes_another_dialog:
  assumes "\<not> u_deleted x" "\<not> u_deleted y" "ad_busy a = False" "ad_jobs a = []"
  shows "ad_editing (admin_run meID [PressRow RowEdit x, SaveEdit, CloseDialog CloseEditing, PressRow RowEdit y,
     RunAnswered (''Saved changes to '' @ u_display_name x @ ''.'', CloseEditing) (Inr ())] a) = None"
  using assms
  by (simp add: admin_run_def row_buttons_def openEdit_def dismissed_def admin_saveEdit_def run_def admin_run_done_def
      refresh_admin_def ad_do_def Let_def)

section \<open>One action at a time\<close>

lemma run_guard:
  "ad_busy a \<Longrightarrow> admin_saveEdit a = a" "ad_busy a \<Longrightarrow> saveCreate a = a" "ad_busy a \<Longrightarrow> confirmSuspend a = a"
  "ad_busy a \<Longrightarrow> signOutEverywhere meID a = a" "ad_busy a \<Longrightarrow> confirmDelete a = a"
  by (simp_all add: admin_saveEdit_def saveCreate_def confirmSuspend_def signOutEverywhere_def confirmDelete_def Let_def
      split: option.splits)

text \<open>Every dialog's action is one run at a time: the jobs and the busy flag agree on every run of the page.\<close>

definition jobs_ok :: "admin \<Rightarrow> bool" where
  "jobs_ok a = (length (ad_jobs a) = (if ad_busy a then 1 else 0) \<and> length (ad_unlinks a) = (if ad_unlinking a then 1 else 0))"

lemma jobs_ok_run: "jobs_ok a \<Longrightarrow> \<not> ad_busy a \<Longrightarrow> jobs_ok (run q t k a)"
  by (simp add: jobs_ok_def run_def ad_do_def)

lemma jobs_ok_run_done:
  assumes "jobs_ok a" "j \<in> set (ad_jobs a)"
  shows "jobs_ok (admin_run_done j r a)"
proof -
  have "length (ad_jobs a) = 1"
    using assms by (cases "ad_busy a") (auto simp: jobs_ok_def)
  then have "ad_jobs a = [j]"
    using assms(2) by (cases "ad_jobs a") auto
  with assms(1) show ?thesis
    by (cases r; cases "snd j") (simp_all add: jobs_ok_def admin_run_done_def Let_def refresh_admin_def ad_do_def)
qed

lemma jobs_ok_unlinked:
  assumes "jobs_ok a" "u \<in> set (ad_unlinks a)"
  shows "jobs_ok (sso_unlinked_user u r a)"
proof -
  have "length (ad_unlinks a) = 1"
    using assms by (cases "ad_unlinking a") (auto simp: jobs_ok_def)
  then have "ad_unlinks a = [u]"
    using assms(2) by (cases "ad_unlinks a") auto
  with assms(1) show ?thesis
    by (cases r) (simp_all add: jobs_ok_def sso_unlinked_user_def Let_def ad_do_def)
qed

lemma jobs_ok_press: "jobs_ok a \<Longrightarrow> jobs_ok (press_row b u a)"
  by (cases b) (simp_all add: jobs_ok_def openEdit_def openDelete_def openSuspend_def)

lemma jobs_ok_actions:
  assumes "jobs_ok a"
  shows "jobs_ok (admin_saveEdit a)" "jobs_ok (saveCreate a)" "jobs_ok (confirmSuspend a)" "jobs_ok (confirmDelete a)"
    "jobs_ok (signOutEverywhere meID a)" "jobs_ok (unlinkUserSso a)"
  using assms
  by (simp_all add: admin_saveEdit_def saveCreate_def confirmSuspend_def confirmDelete_def signOutEverywhere_def Let_def
      jobs_ok_run split: option.splits)
    (cases "ad_editing a"; auto simp: unlinkUserSso_def jobs_ok_def ad_do_def)

lemma jobs_ok_forms:
  assumes "jobs_ok a"
  shows "jobs_ok (chooseRole meID r a)" "jobs_ok (typeEdit n p m a)" "jobs_ok (chooseDelete d a)"
    "jobs_ok (a\<lparr>ad_creating := c, ad_error := er\<rparr>)" "jobs_ok (a\<lparr>ad_createForm := f\<rparr>)" "jobs_ok (a\<lparr>ad_eraseConfirm := t\<rparr>)"
  using assms
  by (cases "ad_userToDelete a"; simp add: chooseRole_def typeEdit_def chooseDelete_def; simp add: jobs_ok_def)+

lemma jobs_ok_step:
  assumes "jobs_ok a"
  shows "jobs_ok (admin_step meID e a)"
proof (cases e)
  case (CloseDialog k)
  with assms show ?thesis
    by (cases k) (simp_all add: dismissed_def jobs_ok_def)
qed (simp_all add: assms jobs_ok_press jobs_ok_actions jobs_ok_run_done jobs_ok_unlinked jobs_ok_forms)

lemma one_action_at_a_time: "jobs_ok (admin_run meID es (mount_admin h))"
proof -
  have "jobs_ok a \<Longrightarrow> jobs_ok (fold (admin_step meID) es a)" for a
    by (induction es arbitrary: a) (simp_all add: jobs_ok_step)
  from this [of "mount_admin h"] show ?thesis
    by (simp add: admin_run_def jobs_ok_def mount_admin_def)
qed

end
