(* ===== verification/AdminServer.thy ===== *)
theory AdminServer
  imports Forms JsMap "HOL-Library.Multiset"
begin

text \<open>
  The audit log and the server settings of the administration (\<open>pages/Admin.tsx\<close>), with the server's query for the log
  (\<open>internal/db/audit.go\<close>). The log is read page by page while entries are still being written; the settings
  are grouped in the order the server lists them, and each row is edited, saved or reset on its own.
\<close>

section \<open>The audit log\<close>

record audit_entry =
  ae_id :: int
  ae_actor_id :: "int option"
  ae_actor_name :: string
  ae_action :: string
  ae_target_type :: string
  ae_target_id :: "int option"
  ae_detail :: string
  ae_ip :: string
  ae_created_at :: iso

text \<open>A request for a page: the first one, or the one before an entry.\<close>

datatype audit_load = FirstPage | PageBefore int

text \<open>The query parameter of \<open>api.auditLog\<close>: \<open>before ? ... : ...\<close> drops a zero.\<close>

primrec before_param :: "audit_load \<Rightarrow> int option" where
  "before_param FirstPage = None"
| "before_param (PageBefore b) = (if b = 0 then None else Some b)"

text \<open>\<open>ListAudit\<close> without the filters the client never sends: newest first, at most a hundred.\<close>

definition ListAudit :: "audit_entry list \<Rightarrow> int option \<Rightarrow> audit_entry list" where
  "ListAudit log before =
     take 100 (case before of None \<Rightarrow> log | Some b \<Rightarrow> if b > 0 then filter (\<lambda>e. ae_id e < b) log else log)"

text \<open>\<open>al_loads\<close> are the requests under way.\<close>

record audit_log =
  al_entries :: "audit_entry list"
  al_loading :: bool
  al_loadingMore :: bool
  al_done :: bool
  al_query :: string
  al_mounted :: bool
  al_loads :: "audit_load list"

definition mount_audit :: audit_log where
  "mount_audit = \<lparr>al_entries = [], al_loading = True, al_loadingMore = False, al_done = False, al_query = [],
     al_mounted = True, al_loads = [FirstPage]\<rparr>"

definition unmount_audit :: "audit_log \<Rightarrow> audit_log" where
  "unmount_audit l = l\<lparr>al_mounted := False\<rparr>"

text \<open>\<open>load\<close> after its \<open>await\<close>, then what its caller does in \<open>finally\<close>. A failed request has no page.\<close>

definition audit_page :: "audit_load \<Rightarrow> audit_entry list \<Rightarrow> audit_log \<Rightarrow> audit_log" where
  "audit_page r page l =
     (if al_mounted l
      then l\<lparr>al_entries := (if before_param r \<noteq> None then al_entries l @ page else page),
             al_done := al_done l \<or> length page < 100\<rparr>
      else l)"

definition audit_answered :: "audit_load \<Rightarrow> audit_entry list option \<Rightarrow> audit_log \<Rightarrow> audit_log" where
  "audit_answered r res l =
     (let l1 = l\<lparr>al_loads := remove1 r (al_loads l)\<rparr>;
          l2 = (case res of None \<Rightarrow> l1 | Some page \<Rightarrow> audit_page r page l1)
      in if \<not> al_mounted l2 then l2
         else case r of FirstPage \<Rightarrow> l2\<lparr>al_loading := False\<rparr> | PageBefore _ \<Rightarrow> l2\<lparr>al_loadingMore := False\<rparr>)"

text \<open>The button is shown while there may be more and something is listed, and is disabled while loading.\<close>

definition loadMore :: "audit_log \<Rightarrow> audit_log" where
  "loadMore l =
     (if al_done l \<or> al_entries l = [] \<or> al_loadingMore l \<or> \<not> al_mounted l then l
      else l\<lparr>al_loadingMore := True, al_loads := al_loads l @ [PageBefore (ae_id (last (al_entries l)))]\<rparr>)"

definition audit_text :: "audit_entry \<Rightarrow> string" where
  "audit_text e = ae_actor_name e @ '' '' @ ae_action e @ '' '' @ ae_target_type e @ '' '' @ ae_detail e @ '' '' @ ae_ip e"

definition audit_filtered :: "audit_log \<Rightarrow> audit_entry list" where
  "audit_filtered l =
     (let q = js_trim (al_query l) in
      if q \<noteq> [] then filter (\<lambda>e. str_includes (js_lower (audit_text e)) (js_lower q)) (al_entries l) else al_entries l)"

definition audit_target :: "audit_entry \<Rightarrow> string" where
  "audit_target e = ae_target_type e @
     (case ae_target_id e of Some t \<Rightarrow> if t \<noteq> 0 then '' #'' @ show_int t else [] | None \<Rightarrow> [])"

definition audit_empty_text :: "audit_log \<Rightarrow> string option" where
  "audit_empty_text l =
     (if \<not> al_loading l \<and> audit_filtered l = []
      then Some (if al_query l \<noteq> [] then ''No entries match this filter.'' else ''No audit entries yet.'') else None)"

section \<open>Reading a growing log\<close>

text \<open>
  The server's log, newest entry first, the page, and the answers on their way. An entry is written, a request is
  served from the log as it then is, its answer arrives or is lost.
\<close>

record audit_sys =
  sy_log :: "audit_entry list"
  sy_client :: audit_log
  sy_answers :: "(audit_load \<times> audit_entry list) list"

inductive audit_step :: "audit_sys \<Rightarrow> audit_sys \<Rightarrow> bool" where
  audit_write: "audit_step s (s\<lparr>sy_log := e # sy_log s\<rparr>)" if "list_all (\<lambda>d. ae_id d < ae_id e) (sy_log s)" "0 < ae_id e"
| audit_serve: "audit_step s (s\<lparr>sy_answers := sy_answers s @ [(r, ListAudit (sy_log s) (before_param r))]\<rparr>)"
    if "r \<in> set (al_loads (sy_client s))" "r \<notin> fst ` set (sy_answers s)"
| audit_deliver: "audit_step s (s\<lparr>sy_client := audit_answered r res (sy_client s), sy_answers := remove1 (r, p) (sy_answers s)\<rparr>)"
    if "(r, p) \<in> set (sy_answers s)" "res = Some p \<or> res = None"
| audit_refuse: "audit_step s (s\<lparr>sy_client := audit_answered r None (sy_client s)\<rparr>)"
    if "r \<in> set (al_loads (sy_client s))" "r \<notin> fst ` set (sy_answers s)"
| audit_more: "audit_step s (s\<lparr>sy_client := loadMore (sy_client s)\<rparr>)"
| audit_type: "audit_step s (s\<lparr>sy_client := (sy_client s)\<lparr>al_query := q\<rparr>\<rparr>)"
| audit_leave: "audit_step s (s\<lparr>sy_client := unmount_audit (sy_client s)\<rparr>)"

inductive audit_reach :: "audit_entry list \<Rightarrow> audit_sys \<Rightarrow> bool" for log where
  audit_start: "audit_reach log \<lparr>sy_log = log, sy_client = mount_audit, sy_answers = []\<rparr>"
| audit_next: "audit_reach log s \<Longrightarrow> audit_step s t \<Longrightarrow> audit_reach log t"

text \<open>A log as the database keeps it: positive keys, newest first.\<close>

definition newest_first :: "audit_entry list \<Rightarrow> bool" where
  "newest_first log = (sorted_wrt (\<lambda>a b. ae_id b < ae_id a) log \<and> list_all (\<lambda>e. 0 < ae_id e) log)"

text \<open>The entries are a gapless part of the log; if \<open>whole\<close> is set it reaches the oldest entry.\<close>

definition gapless :: "bool \<Rightarrow> audit_entry list \<Rightarrow> audit_entry list \<Rightarrow> bool" where
  "gapless whole xs log = (\<exists>newer rest. log = newer @ xs @ rest \<and> (whole \<longrightarrow> rest = []))"

text \<open>At most one request is under way, for the entries that follow those listed.\<close>

definition audit_inv :: "audit_sys \<Rightarrow> bool" where
  "audit_inv s =
     (let l = sy_client s in
      newest_first (sy_log s) \<and> gapless (al_done l) (al_entries l) (sy_log s) \<and>
      (al_loads l \<noteq> [] \<longrightarrow> \<not> al_done l) \<and>
      (al_loads l = [] \<or> al_loads l = [FirstPage] \<and> al_entries l = [] \<or>
       al_entries l \<noteq> [] \<and> al_loads l = [PageBefore (ae_id (last (al_entries l)))] \<and> (al_mounted l \<longrightarrow> al_loadingMore l)) \<and>
      (sy_answers s = [] \<or>
       (\<exists>r p. sy_answers s = [(r, p)] \<and> al_loads l = [r] \<and> gapless (length p < 100) (al_entries l @ p) (sy_log s))))"

section \<open>Server settings\<close>

datatype setting_kind = KindString | KindInt | KindBool | KindSecret

datatype setting_source = FromEnv | FromDb | FromDefault

record setting_view =
  sv_key :: string
  sv_label :: string
  sv_description :: string
  sv_kind :: setting_kind
  sv_group :: string
  sv_editable :: bool
  sv_value :: string
  sv_source :: setting_source

primrec SOURCE_LABEL :: "setting_source \<Rightarrow> string" where
  "SOURCE_LABEL FromEnv = ''Environment / .env''"
| "SOURCE_LABEL FromDb = ''Set here''"
| "SOURCE_LABEL FromDefault = ''Default''"

text \<open>\<open>ss_loads\<close> counts the requests for the list under way.\<close>

record server_settings =
  ss_settings :: "setting_view list"
  ss_loading :: bool
  ss_loads :: nat

definition load_settings :: "bool \<Rightarrow> server_settings \<Rightarrow> server_settings" where
  "load_settings showSpinner s =
     (if showSpinner then s\<lparr>ss_loading := True\<rparr> else s)\<lparr>ss_loads := ss_loads s + 1\<rparr>"

definition mount_server_settings :: server_settings where
  "mount_server_settings = load_settings True \<lparr>ss_settings = [], ss_loading = True, ss_loads = 0\<rparr>"

definition reloadAfterEdit :: "server_settings \<Rightarrow> server_settings" where
  "reloadAfterEdit = load_settings False"

definition settings_answered :: "setting_view list option \<Rightarrow> server_settings \<Rightarrow> server_settings" where
  "settings_answered res s =
     (case res of None \<Rightarrow> s | Some xs \<Rightarrow> s\<lparr>ss_settings := xs\<rparr>)\<lparr>ss_loading := False, ss_loads := ss_loads s - 1\<rparr>"

definition group_setting :: "setting_view \<Rightarrow> (string, setting_view list) jsmap \<Rightarrow> (string, setting_view list) jsmap" where
  "group_setting x byGroup =
     (let m = (if jm_has byGroup (sv_group x) then byGroup else jm_set (sv_group x) [] byGroup)
      in jm_set (sv_group x) (the (jm_get m (sv_group x)) @ [x]) m)"

definition setting_groups :: "setting_view list \<Rightarrow> (string, setting_view list) jsmap" where
  "setting_groups xs = fold group_setting xs []"

section \<open>One setting\<close>

datatype setting_request = UpdateSetting string string | ResetSetting string

definition lockTitle :: "setting_view \<Rightarrow> string" where
  "lockTitle v = (if sv_source v = FromEnv then ''Set by an environment variable or .env file -- edit that, then restart''
     else ''Fixed at server start -- change via environment/.env and restart'')"

definition shown_value :: "setting_view \<Rightarrow> string" where
  "shown_value v = (if sv_value v = [] then ''empty'' else sv_value v)"

text \<open>The switch of a boolean: whether it is on, and disabled.\<close>

definition setting_switch :: "setting_view \<Rightarrow> bool \<Rightarrow> bool \<times> bool" where
  "setting_switch v busy = (sv_value v = ''true'', \<not> sv_editable v \<or> busy)"

text \<open>\<open>sr_requests\<close> are the requests under way, \<open>sr_saved\<close> counts the calls of \<open>onSaved\<close>.\<close>

record setting_row =
  sr_editing :: bool
  sr_draft :: string
  sr_busy :: bool
  sr_error :: "string option"
  sr_requests :: "setting_request list"
  sr_saved :: nat

definition mount_row :: "setting_view \<Rightarrow> setting_row" where
  "mount_row v = \<lparr>sr_editing = False, sr_draft = sv_value v, sr_busy = False, sr_error = None, sr_requests = [], sr_saved = 0\<rparr>"

definition edit_setting :: "setting_view \<Rightarrow> setting_row \<Rightarrow> setting_row" where
  "edit_setting v r = r\<lparr>sr_draft := (if sv_kind v = KindSecret then [] else sv_value v), sr_error := None, sr_editing := True\<rparr>"

definition save_setting :: "setting_view \<Rightarrow> string \<Rightarrow> setting_row \<Rightarrow> setting_row" where
  "save_setting v value r = r\<lparr>sr_busy := True, sr_error := None, sr_requests := sr_requests r @ [UpdateSetting (sv_key v) value]\<rparr>"

definition reset_setting :: "setting_view \<Rightarrow> setting_row \<Rightarrow> setting_row" where
  "reset_setting v r = r\<lparr>sr_busy := True, sr_error := None, sr_requests := sr_requests r @ [ResetSetting (sv_key v)]\<rparr>"

definition setting_answered :: "setting_request \<Rightarrow> outcome \<Rightarrow> setting_row \<Rightarrow> setting_row" where
  "setting_answered q res r =
     (let r1 = r\<lparr>sr_requests := remove1 q (sr_requests r)\<rparr> in
      case res of
        Inr _ \<Rightarrow> (case q of UpdateSetting _ _ \<Rightarrow> r1\<lparr>sr_editing := False\<rparr> | ResetSetting _ \<Rightarrow> r1)\<lparr>sr_saved := sr_saved r + 1\<rparr>
      | Inl e \<Rightarrow> r1\<lparr>sr_error := Some (nvl e (case q of UpdateSetting _ _ \<Rightarrow> ''Could not save'' | ResetSetting _ \<Rightarrow> ''Could not reset''))\<rparr>)
     \<lparr>sr_busy := False\<rparr>"

text \<open>
  The controls of a row. A boolean is a switch that saves at once; everything else is edited, and the enter key saves
  also while a request is under way.
\<close>

datatype row_click = FlipSwitch bool | ClickEdit | TypeDraft string | PressEnter | ClickSave | ClickCancel | ClickReset

definition row_control :: "setting_view \<Rightarrow> row_click \<Rightarrow> setting_row \<Rightarrow> setting_row" where
  "row_control v c r =
     (if sv_kind v = KindBool
      then (case c of FlipSwitch nxt \<Rightarrow>
              if sv_editable v \<and> \<not> sr_busy r then save_setting v (if nxt then ''true'' else ''false'') r else r
            | _ \<Rightarrow> r)
      else (case c of
              FlipSwitch _ \<Rightarrow> r
            | ClickEdit \<Rightarrow> if sv_editable v \<and> \<not> sr_editing r then edit_setting v r else r
            | TypeDraft t \<Rightarrow> if sr_editing r then r\<lparr>sr_draft := t\<rparr> else r
            | PressEnter \<Rightarrow> if sr_editing r then save_setting v (sr_draft r) r else r
            | ClickSave \<Rightarrow> if sr_editing r \<and> \<not> sr_busy r then save_setting v (sr_draft r) r else r
            | ClickCancel \<Rightarrow> if sr_editing r \<and> \<not> sr_busy r then r\<lparr>sr_editing := False\<rparr> else r
            | ClickReset \<Rightarrow> if sv_editable v \<and> \<not> sr_editing r \<and> sv_source v = FromDb \<and> \<not> sr_busy r
                then reset_setting v r else r))"

section \<open>Pages of the log\<close>

lemma newest_first_append:
  "newest_first (xs @ ys) = (newest_first xs \<and> newest_first ys \<and> (\<forall>x \<in> set xs. \<forall>y \<in> set ys. ae_id y < ae_id x))"
  by (auto simp: newest_first_def sorted_wrt_append)

lemma newest_first_Cons:
  "newest_first (x # xs) = (0 < ae_id x \<and> list_all (\<lambda>d. ae_id d < ae_id x) xs \<and> newest_first xs)"
  by (auto simp: newest_first_def list_all_iff)

lemma newest_first_ids: "newest_first xs \<Longrightarrow> distinct (map ae_id xs)"
  by (induction xs) (auto simp: newest_first_Cons list_all_iff)

lemma gapless_Cons: "gapless w xs log \<Longrightarrow> gapless w xs (e # log)"
  unfolding gapless_def by (metis append_Cons)

lemma gapless_empty [simp]: "gapless False [] log"
  by (simp add: gapless_def exI [of _ "[]"])

lemma gapless_first: "gapless (length (take 100 log) < 100) (take 100 log) log"
  unfolding gapless_def by (rule exI [of _ "[]"], rule exI [of _ "drop 100 log"]) simp

text \<open>The entries before the last one shown are the rest of the log.\<close>

lemma before_last:
  assumes "newest_first (newer @ es @ rest)" "es \<noteq> []"
  shows "filter (\<lambda>e. ae_id e < ae_id (last es)) (newer @ es @ rest) = rest" "0 < ae_id (last es)"
proof -
  obtain fs x where es: "es = fs @ [x]"
    using assms(2) by (metis append_butlast_last_id)
  have "\<forall>e \<in> set (newer @ fs). \<not> ae_id e < ae_id x" "\<forall>e \<in> set rest. ae_id e < ae_id x"
    using assms(1) by (auto simp: es newest_first_append newest_first_Cons list_all_iff dest: less_asym)
  then show "filter (\<lambda>e. ae_id e < ae_id (last es)) (newer @ es @ rest) = rest"
    by (auto simp: es intro: filter_True)
  show "0 < ae_id (last es)"
    using assms(1) by (simp add: es newest_first_append newest_first_Cons)
qed

lemma gapless_next:
  assumes "newest_first log" "gapless False es log" "es \<noteq> []" "p = ListAudit log (before_param (PageBefore (ae_id (last es))))"
  shows "gapless (length p < 100) (es @ p) log"
proof -
  obtain newer rest where log: "log = newer @ es @ rest"
    using assms(2) by (auto simp: gapless_def)
  have "p = take 100 rest"
    using before_last [of newer es rest] assms by (simp add: ListAudit_def log)
  then show ?thesis
    unfolding gapless_def
    by (intro exI [of _ newer] exI [of _ "drop 100 rest"]) (simp add: log)
qed

lemma audit_inv_start: "newest_first log \<Longrightarrow> audit_inv \<lparr>sy_log = log, sy_client = mount_audit, sy_answers = []\<rparr>"
  by (simp add: audit_inv_def mount_audit_def)

lemma audit_inv_write:
  assumes "audit_inv s" "list_all (\<lambda>d. ae_id d < ae_id e) (sy_log s)" "0 < ae_id e"
  shows "audit_inv (s\<lparr>sy_log := e # sy_log s\<rparr>)"
  using assms by (auto simp: audit_inv_def Let_def newest_first_Cons gapless_Cons)

lemma audit_inv_serve:
  assumes inv: "audit_inv s" and r: "r \<in> set (al_loads (sy_client s))" "r \<notin> fst ` set (sy_answers s)"
  shows "audit_inv (s\<lparr>sy_answers := sy_answers s @ [(r, ListAudit (sy_log s) (before_param r))]\<rparr>)"
proof -
  let ?es = "al_entries (sy_client s)" and ?p = "ListAudit (sy_log s) (before_param r)"
  have none: "sy_answers s = []" and one: "al_loads (sy_client s) = [r]" and fresh: "\<not> al_done (sy_client s)"
    using inv r by (auto simp: audit_inv_def Let_def)
  have nf: "newest_first (sy_log s)" and gap: "gapless False ?es (sy_log s)"
    using inv fresh by (simp_all add: audit_inv_def Let_def)
  have "gapless (length ?p < 100) (?es @ ?p) (sy_log s)"
  proof (cases r)
    case FirstPage
    with inv one have "?es = []"
      by (auto simp: audit_inv_def Let_def)
    then show ?thesis
      using gapless_first [of "sy_log s"] by (simp add: ListAudit_def FirstPage)
  next
    case (PageBefore b)
    with inv one have "?es \<noteq> []" "b = ae_id (last ?es)"
      by (auto simp: audit_inv_def Let_def)
    with gapless_next [OF nf gap] PageBefore show ?thesis
      by simp
  qed
  with inv none one fresh gap show ?thesis
    by (simp add: audit_inv_def Let_def)
qed

text \<open>An answer that arrives, or a request that fails, settles the only request under way.\<close>

lemma audit_inv_lost:
  assumes "audit_inv s" "al_loads (sy_client s) = [r]"
  shows "audit_inv (s\<lparr>sy_client := audit_answered r None (sy_client s), sy_answers := []\<rparr>)"
  using assms by (auto simp: audit_inv_def audit_answered_def Let_def split: audit_load.splits)

lemma audit_inv_page:
  assumes inv: "audit_inv s" and ans: "sy_answers s = [(r, p)]"
  shows "audit_inv (s\<lparr>sy_client := audit_answered r (Some p) (sy_client s), sy_answers := []\<rparr>)"
proof -
  let ?l = "sy_client s"
  from inv ans have gap: "gapless (length p < 100) (al_entries ?l @ p) (sy_log s)" and one: "al_loads ?l = [r]"
    by (auto simp: audit_inv_def Let_def)
  have nf: "newest_first (sy_log s)" and fresh: "\<not> al_done ?l"
    using inv one by (auto simp: audit_inv_def Let_def)
  have app: "before_param r \<noteq> None \<or> al_entries ?l = []"
  proof (cases r)
    case (PageBefore b)
    then have "al_entries ?l \<noteq> []" "b = ae_id (last (al_entries ?l))"
      using inv one by (auto simp: audit_inv_def Let_def)
    with before_last(2) [of _ "al_entries ?l"] nf gap PageBefore show ?thesis
      by (auto simp: gapless_def)
  next
    case FirstPage
    with inv one have "al_entries ?l = []"
      by (auto simp: audit_inv_def Let_def)
    then show ?thesis by simp
  qed
  show ?thesis
  proof (cases "al_mounted ?l")
    case True
    then show ?thesis
      unfolding audit_inv_def audit_answered_def audit_page_def Let_def
      by (cases r) (use nf gap fresh one app in \<open>auto split: if_splits\<close>)
  next
    case False
    with inv one show ?thesis
      by (auto simp: audit_inv_def audit_answered_def audit_page_def Let_def)
  qed
qed

lemma audit_inv_more: "audit_inv s \<Longrightarrow> audit_inv (s\<lparr>sy_client := loadMore (sy_client s)\<rparr>)"
  by (auto simp: audit_inv_def loadMore_def Let_def)

lemma audit_inv_step:
  assumes "audit_step s t" "audit_inv s"
  shows "audit_inv t"
  using assms
proof (induction rule: audit_step.induct)
  case (audit_deliver r p s res)
  then have "sy_answers s = [(r, p)]" "al_loads (sy_client s) = [r]"
    by (auto simp: audit_inv_def Let_def)
  with audit_deliver audit_inv_page [of s r p] audit_inv_lost [of s r] show ?case
    by auto
next
  case (audit_refuse r s)
  then have "sy_answers s = []" "al_loads (sy_client s) = [r]"
    by (auto simp: audit_inv_def Let_def)
  then have "audit_inv (s\<lparr>sy_client := audit_answered r None (sy_client s), sy_answers := []\<rparr>)" "s = s\<lparr>sy_answers := []\<rparr>"
    using audit_refuse audit_inv_lost [of s r] by simp_all
  then show ?case
    by (metis audit_sys.update_convs(2,3) audit_sys.surjective)
next
  case (audit_leave s)
  then show ?case
    by (auto simp: audit_inv_def unmount_audit_def Let_def)
next
  case (audit_type s q)
  then show ?case
    by (auto simp: audit_inv_def Let_def)
qed (simp_all add: audit_inv_write audit_inv_serve audit_inv_more)

lemma audit_inv_reach: "audit_reach log s \<Longrightarrow> newest_first log \<Longrightarrow> audit_inv s"
  by (induction rule: audit_reach.induct) (auto intro: audit_inv_start audit_inv_step)

text \<open>
  C32. Whatever is written to the log meanwhile, whichever answers are slow or lost: the table always lists a gapless part
  of the log, newest first and without repetition, from some entry down to wherever it was read, and once the
  button is gone for good the part reaches down to the oldest entry. At most one page is being loaded.
\<close>

theorem audit_table_is_gapless:
  assumes "audit_reach log s" "newest_first log"
  shows "gapless (al_done (sy_client s)) (al_entries (sy_client s)) (sy_log s) \<and> newest_first (al_entries (sy_client s)) \<and>
    distinct (map ae_id (al_entries (sy_client s))) \<and> length (al_loads (sy_client s)) \<le> 1"
proof -
  have inv: "audit_inv s"
    by (rule audit_inv_reach) fact+
  then have gap: "gapless (al_done (sy_client s)) (al_entries (sy_client s)) (sy_log s)" and nf: "newest_first (sy_log s)"
    by (simp_all add: audit_inv_def Let_def)
  then have "newest_first (al_entries (sy_client s))"
    by (auto simp: gapless_def newest_first_append)
  with inv gap newest_first_ids show ?thesis
    by (auto simp: audit_inv_def Let_def)
qed

definition ex_entry :: "int \<Rightarrow> audit_entry" where
  "ex_entry i = \<lparr>ae_id = i, ae_actor_id = None, ae_actor_name = ''ann'', ae_action = ''login'', ae_target_type = [],
     ae_target_id = None, ae_detail = [], ae_ip = [], ae_created_at = Iso 0\<rparr>"

lemma audit_table_is_gapless_witness:
  "gapless True [ex_entry 2, ex_entry 1] [ex_entry 3, ex_entry 2, ex_entry 1] \<and> newest_first [ex_entry 2, ex_entry 1]"
proof -
  let ?log = "[ex_entry 2, ex_entry 1]"
  let ?s0 = "\<lparr>sy_log = ?log, sy_client = mount_audit, sy_answers = []\<rparr>"
  let ?s1 = "?s0\<lparr>sy_answers := sy_answers ?s0 @ [(FirstPage, ListAudit (sy_log ?s0) (before_param FirstPage))]\<rparr>"
  let ?s2 = "?s1\<lparr>sy_log := ex_entry 3 # sy_log ?s1\<rparr>"
  let ?s3 = "?s2\<lparr>sy_client := audit_answered FirstPage (Some ?log) (sy_client ?s2),
     sy_answers := remove1 (FirstPage, ?log) (sy_answers ?s2)\<rparr>"
  have "audit_reach ?log ?s1"
    by (rule audit_next [OF audit_start]) (rule audit_serve; simp add: mount_audit_def)
  then have "audit_reach ?log ?s2"
    by (rule audit_next) (rule audit_write; simp add: ex_entry_def)
  then have "audit_reach ?log ?s3"
    by (rule audit_next) (rule audit_deliver; simp add: ListAudit_def)
  moreover have "newest_first ?log"
    by (simp add: newest_first_def ex_entry_def)
  ultimately show ?thesis
    by (drule_tac audit_table_is_gapless) (simp_all add: audit_answered_def audit_page_def mount_audit_def)
qed

section \<open>Reading all of it\<close>

text \<open>One round: the page under way arrives from a log that does not change, and the next is asked for.\<close>

definition audit_round :: "audit_entry list \<Rightarrow> audit_log \<Rightarrow> audit_log" where
  "audit_round log l =
     (case al_loads l of [] \<Rightarrow> l
      | r # _ \<Rightarrow> loadMore (audit_answered r (Some (ListAudit log (before_param r))) l))"

text \<open>\<open>k\<close> pages were read and the next is under way.\<close>

definition pages_read :: "audit_entry list \<Rightarrow> nat \<Rightarrow> audit_log \<Rightarrow> bool" where
  "pages_read log k l =
     (al_mounted l \<and> \<not> al_done l \<and> al_entries l = take (100 * k) log \<and> 100 * k \<le> length log \<and>
      (if k = 0 then al_loads l = [FirstPage] \<and> \<not> al_loadingMore l
       else al_loads l = [PageBefore (ae_id (last (al_entries l)))]))"

lemma pages_read_page:
  assumes "newest_first log" "pages_read log k l"
  shows "ListAudit log (before_param (hd (al_loads l))) = take 100 (drop (100 * k) log)"
proof (cases "k = 0")
  case False
  with assms(2) have es: "al_entries l = take (100 * k) log" "take (100 * k) log \<noteq> []" "hd (al_loads l) = PageBefore (ae_id (last (al_entries l)))"
    by (auto simp: pages_read_def)
  with before_last [of "[]" "take (100 * k) log" "drop (100 * k) log"] assms(1) show ?thesis
    by (simp add: ListAudit_def)
qed (use assms in \<open>simp add: pages_read_def ListAudit_def\<close>)

lemma answered_page:
  assumes "al_mounted l" "\<not> al_done l" "al_loads l = [r]" "before_param r \<noteq> None \<or> al_entries l = []"
    "r = FirstPage \<longrightarrow> \<not> al_loadingMore l"
  shows "al_entries (audit_answered r (Some p) l) = al_entries l @ p" "al_loads (audit_answered r (Some p) l) = []"
    "al_mounted (audit_answered r (Some p) l)" "\<not> al_loadingMore (audit_answered r (Some p) l)"
    "al_done (audit_answered r (Some p) l) = (length p < 100)"
  using assms by (auto simp: audit_answered_def audit_page_def Let_def split: audit_load.splits)

lemma pages_read_round:
  assumes "newest_first log" "pages_read log k l"
  shows "if 100 * Suc k \<le> length log then pages_read log (Suc k) (audit_round log l)
    else al_entries (audit_round log l) = log \<and> al_done (audit_round log l) \<and> al_loads (audit_round log l) = []"
proof -
  obtain r where r: "al_loads l = [r]" "before_param r \<noteq> None \<or> al_entries l = []" "r = FirstPage \<longrightarrow> \<not> al_loadingMore l"
  proof (cases "k = 0")
    case False
    with assms(2) have "al_entries l = take (100 * k) log" "take (100 * k) log \<noteq> []"
      by (auto simp: pages_read_def)
    then have "0 < ae_id (last (al_entries l))"
      using before_last(2) [of "[]" "take (100 * k) log" "drop (100 * k) log"] assms(1) by simp
    with False assms(2) that show ?thesis
      by (auto simp: pages_read_def)
  qed (use assms(2) in \<open>auto simp: pages_read_def\<close>)
  let ?p = "take 100 (drop (100 * k) log)"
  have page: "ListAudit log (before_param r) = ?p"
    using pages_read_page [OF assms] r(1) by simp
  have es: "al_entries l @ ?p = take (100 * Suc k) log"
    using assms(2) take_add [of "100 * k" 100 log] by (simp add: pages_read_def add.commute)
  have st: "al_mounted l" "\<not> al_done l" "100 * k \<le> length log"
    using assms(2) by (simp_all add: pages_read_def)
  let ?l = "audit_answered r (Some ?p) l"
  have ans: "al_entries ?l = take (100 * Suc k) log" "al_loads ?l = []" "al_mounted ?l" "\<not> al_loadingMore ?l"
    "al_done ?l = (length ?p < 100)"
    using answered_page [OF st(1,2) r, of ?p] es by simp_all
  show ?thesis
  proof (cases "100 * Suc k \<le> length log")
    case True
    moreover from this have "length ?p = 100" "take (100 * Suc k) log \<noteq> []"
      by auto
    ultimately show ?thesis
      using ans by (simp add: audit_round_def r(1) page loadMore_def pages_read_def)
  next
    case False
    then have "length ?p < 100" "take (100 * Suc k) log = log"
      using st(3) by simp_all
    with False ans show ?thesis
      by (simp add: audit_round_def r(1) page loadMore_def)
  qed
qed

lemma pages_read_rounds:
  assumes "newest_first log" "100 * k \<le> length log"
  shows "pages_read log k ((audit_round log ^^ k) mount_audit)"
  using assms(2)
proof (induction k)
  case (Suc k)
  then show ?case
    using pages_read_round [OF assms(1) Suc.IH] by simp
qed (simp add: pages_read_def mount_audit_def)

text \<open>
  Pressing the button whenever it is there reads the whole log: the table is complete, and says so, after one page for
  every full hundred of entries and one more; that last page may be empty.
\<close>

theorem audit_log_is_read_to_its_end:
  assumes "newest_first log"
  shows "let l = (audit_round log ^^ (length log div 100 + 1)) mount_audit in
    al_entries l = log \<and> al_done l \<and> al_loads l = [] \<and> loadMore l = l"
proof -
  let ?k = "length log div 100"
  have k: "100 * ?k \<le> length log" "\<not> 100 * Suc ?k \<le> length log"
    by (simp_all add: dividend_less_times_div not_le)
  from pages_read_round [OF assms pages_read_rounds [OF assms k(1)]] k(2) show ?thesis
    by (simp add: Let_def loadMore_def)
qed

lemma audit_log_is_read_to_its_end_witness:
  "let l = (audit_round [ex_entry 2, ex_entry 1] ^^ (length [ex_entry 2, ex_entry 1] div 100 + 1)) mount_audit in
    al_entries l = [ex_entry 2, ex_entry 1] \<and> al_done l \<and> al_loads l = [] \<and> loadMore l = l"
  by (rule audit_log_is_read_to_its_end) (simp add: newest_first_def ex_entry_def)

section \<open>The groups of settings\<close>

lemma get_group_setting:
  "jm_get (group_setting x m) g = (if g = sv_group x then Some (nvl (jm_get m g) [] @ [x]) else jm_get m g)"
  by (cases "jm_get m (sv_group x)") (auto simp: group_setting_def jm_has_def jm.get_put Let_def nvl_def)

lemma keys_group_setting:
  "jm_keys (group_setting x m) = (if jm_get m (sv_group x) = None then jm_keys m @ [sv_group x] else jm_keys m)"
  by (auto simp: group_setting_def jm_has_def jm.get_put jm.keys_put Let_def)

lemma invar_group_setting: "jm_inv m \<Longrightarrow> jm_inv (group_setting x m)"
  by (auto simp: group_setting_def Let_def intro!: jm.invar_put)

lemma get_setting_groups_from:
  "jm_get (fold group_setting xs m) g =
     (if filter (\<lambda>x. sv_group x = g) xs = [] then jm_get m g else Some (nvl (jm_get m g) [] @ filter (\<lambda>x. sv_group x = g) xs))"
  by (induction xs arbitrary: m) (auto simp: get_group_setting nvl_def split: option.splits)

lemma invar_setting_groups: "jm_inv (setting_groups xs)"
proof -
  have "jm_inv m \<Longrightarrow> jm_inv (fold group_setting xs m)" for m
    by (induction xs arbitrary: m) (simp_all add: invar_group_setting)
  then show ?thesis
    by (simp add: setting_groups_def jm_inv_def)
qed

lemma get_setting_groups:
  "jm_get (setting_groups xs) g = (let ys = filter (\<lambda>x. sv_group x = g) xs in if ys = [] then None else Some ys)"
  unfolding setting_groups_def get_setting_groups_from by (simp add: Let_def jm_get_def nvl_def)

text \<open>The sections in the order in which the groups first occur.\<close>

lemma keys_setting_groups:
  "jm_keys (setting_groups xs) = rev (remdups (rev (map sv_group xs)))"
proof (induction xs rule: rev_induct)
  case (snoc x xs)
  have "jm_keys (setting_groups (xs @ [x])) =
      (if jm_get (setting_groups xs) (sv_group x) = None then jm_keys (setting_groups xs) @ [sv_group x] else jm_keys (setting_groups xs))"
    by (simp add: setting_groups_def keys_group_setting)
  moreover have "(jm_get (setting_groups xs) (sv_group x) = None) = (sv_group x \<notin> sv_group ` set xs)"
    by (simp add: get_setting_groups Let_def filter_empty_conv image_iff) metis
  ultimately show ?case
    using snoc by simp
qed (simp add: setting_groups_def jm_keys_def)

lemma mset_concat_groups:
  "distinct gs \<Longrightarrow> mset (concat (map (\<lambda>g. filter (\<lambda>x. f x = g) xs) gs)) = filter_mset (\<lambda>x. f x \<in> set gs) (mset xs)"
proof (induction gs)
  case (Cons g gs)
  have "filter_mset (\<lambda>x. f x \<in> set (g # gs)) (mset xs) = filter_mset (\<lambda>x. f x = g) (mset xs) + filter_mset (\<lambda>x. f x \<in> set gs) (mset xs)"
    using Cons.prems by (induction xs) auto
  with Cons show ?case by simp
qed simp

text \<open>
  C33. Every setting is shown in exactly one section, the one of its group, in the order of the list; the sections stand in
  the order in which the server's list first names them.
\<close>

theorem every_setting_has_its_place:
  "jm_keys (setting_groups xs) = rev (remdups (rev (map sv_group xs))) \<and>
   map snd (setting_groups xs) = map (\<lambda>g. filter (\<lambda>x. sv_group x = g) xs) (jm_keys (setting_groups xs)) \<and>
   mset (concat (map snd (setting_groups xs))) = mset xs"
proof -
  have keys: "set (jm_keys (setting_groups xs)) = sv_group ` set xs"
    by (simp add: keys_setting_groups)
  have sections: "map snd (setting_groups xs) = map (\<lambda>g. filter (\<lambda>x. sv_group x = g) xs) (jm_keys (setting_groups xs))"
    using jm_values_eq [OF invar_setting_groups [of xs]] keys
    by (auto simp: jm_values_def get_setting_groups Let_def filter_empty_conv)
  moreover have "filter_mset (\<lambda>x. sv_group x \<in> sv_group ` set xs) (mset xs) = mset xs"
    by (auto intro: filter_mset_True simp: filter_mset_eq_conv)
  ultimately show ?thesis
    using mset_concat_groups [of "jm_keys (setting_groups xs)" sv_group xs] invar_setting_groups [of xs]
    by (simp add: keys keys_setting_groups jm_inv_keys)
qed

text \<open>The list is replaced by a placeholder only by the first load and by a refresh, never after a save.\<close>

lemma reload_keeps_the_list: "\<not> ss_loading s \<Longrightarrow> \<not> ss_loading (reloadAfterEdit s)"
  by (simp add: reloadAfterEdit_def load_settings_def)

section \<open>Editing a setting\<close>

lemma switch_saves_at_once:
  assumes "sv_kind v = KindBool" "sv_editable v" "\<not> sr_busy r"
  shows "sr_requests (row_control v (FlipSwitch b) r) = sr_requests r @ [UpdateSetting (sv_key v) (if b then ''true'' else ''false'')]"
  using assms by (simp add: row_control_def save_setting_def)

text \<open>A setting that may not be edited is never sent, whatever is clicked.\<close>

lemma pinned_settings_are_not_sent:
  assumes "\<not> sv_editable v" "\<not> sr_editing r" "sr_requests r = []"
  shows "sr_requests (fold (row_control v) cs r) = []"
proof -
  have "sr_requests (row_control v c r) = [] \<and> \<not> sr_editing (row_control v c r)"
    if "sr_requests r = []" "\<not> sr_editing r" for c r
    using that assms(1) by (cases c) (simp_all add: row_control_def)
  then show ?thesis
    using assms(2,3) by (induction cs arbitrary: r) simp_all
qed

text \<open>
  The field of a secret says that leaving it blank cancels. Pressing enter on the blank field, or the save button, asks
  the server to replace the secret by the empty string.
\<close>

theorem blank_secret_is_saved:
  assumes "sv_kind v = KindSecret" "sv_editable v"
  shows "sr_requests (row_control v PressEnter (row_control v ClickEdit (mount_row v))) = [UpdateSetting (sv_key v) []] \<and>
    sr_requests (row_control v ClickSave (row_control v ClickEdit (mount_row v))) = [UpdateSetting (sv_key v) []]"
  using assms by (simp add: row_control_def edit_setting_def save_setting_def mount_row_def)

definition ex_secret :: setting_view where
  "ex_secret = \<lparr>sv_key = ''TURN_SECRET'', sv_label = ''TURN secret'', sv_description = [], sv_kind = KindSecret,
     sv_group = ''Calling & Media'', sv_editable = True, sv_value = ''********'', sv_source = FromDb\<rparr>"

lemma blank_secret_is_saved_witness:
  "sr_requests (row_control ex_secret PressEnter (row_control ex_secret ClickEdit (mount_row ex_secret))) = [UpdateSetting ''TURN_SECRET'' []]"
  using blank_secret_is_saved [of ex_secret] by (simp add: ex_secret_def)

text \<open>The enter key does not look at the busy flag: two saves can be under way, and the first answer clears it.\<close>

lemma enter_saves_twice:
  assumes "sv_kind v \<noteq> KindBool" "sr_editing r" "sr_requests r = []"
  shows "length (sr_requests (row_control v PressEnter (row_control v PressEnter r))) = 2"
    "\<not> sr_busy (setting_answered q res (row_control v PressEnter (row_control v PressEnter r)))"
  using assms by (simp_all add: row_control_def save_setting_def setting_answered_def Let_def)

end
