(* ===== verification/AdminBackups.thy ===== *)
theory AdminBackups
  imports Complex_Main Forms
begin

text \<open>
  Backups (\<open>pages/AdminBackups.tsx\<close>): the list of snapshots, taking one now, restoring a snapshot or an uploaded file, and
  the wait for the server that restarts itself. Waiting is a loop over the clock: what the clock says and what becomes of
  each probe are the parameters.
\<close>

section \<open>Waiting for the server\<close>

text \<open>
  What \<open>Date.now()\<close> says at each look at the clock, and what becomes of each probe: answered well, answered badly or
  refused, or never settled at all, since \<open>fetch\<close> is called without a time limit. \<open>None\<close> is a wait that never ends.
\<close>

partial_function (option) wait_loop :: "int \<Rightarrow> (nat \<Rightarrow> int) \<Rightarrow> (nat \<Rightarrow> bool option) \<Rightarrow> nat \<Rightarrow> (bool \<times> nat) option" where
  "wait_loop deadline clock probe i =
     (if clock (Suc i) < deadline
      then (case probe i of
              None \<Rightarrow> None
            | Some ok \<Rightarrow> if ok then Some (True, Suc i) else wait_loop deadline clock probe (Suc i))
      else Some (False, i))"

text \<open>Whether the server came back, and how often it was asked. The clock is read once before the first pause of 2.5 seconds.\<close>

definition waitForServer :: "(nat \<Rightarrow> int) \<Rightarrow> (nat \<Rightarrow> bool option) \<Rightarrow> (bool \<times> nat) option" where
  "waitForServer clock probe = wait_loop (clock 0 + 120000) clock probe 0"

section \<open>State\<close>

record backup_snapshot =
  bs_name :: string
  bs_size :: nat
  bs_created_at :: iso

datatype restore_source = FromSnapshot string | FromFile string

datatype restore_job = SendingRestore restore_source | WaitingForServer

record backups =
  bk_loading :: bool
  bk_supported :: bool
  bk_reason :: "string option"
  bk_snapshots :: "backup_snapshot list"
  bk_creating :: bool
  bk_confirm :: "restore_source option"
  bk_restoring :: bool
  bk_progress :: "rat option"
  bk_phase :: "string option"
  bk_error :: "string option"
  bk_creates :: nat
  bk_restores :: "restore_source list"
  bk_jobs :: "restore_job list"
  bk_reloaded :: bool
  bk_toasts :: "string list"

text \<open>
  \<open>bk_creates\<close> counts the backups asked for, \<open>bk_restores\<close> are the restores sent, \<open>bk_jobs\<close> the runs of \<open>restore\<close> under way;
  \<open>bk_reloaded\<close>: the page was told to reload.
\<close>

definition mount_backups :: backups where
  "mount_backups = \<lparr>bk_loading = True, bk_supported = True, bk_reason = None, bk_snapshots = [], bk_creating = False,
     bk_confirm = None, bk_restoring = False, bk_progress = None, bk_phase = None, bk_error = None, bk_creates = 0,
     bk_restores = [], bk_jobs = [], bk_reloaded = False, bk_toasts = []\<rparr>"

section \<open>The list\<close>

text \<open>What \<open>api.listBackups\<close> answers.\<close>

record backup_list =
  bl_supported :: bool
  bl_reason :: "string option"
  bl_snapshots :: "backup_snapshot list option"

definition backups_loaded :: "string option + backup_list \<Rightarrow> backups \<Rightarrow> backups" where
  "backups_loaded res b =
     (case res of
        Inr l \<Rightarrow> b\<lparr>bk_supported := bl_supported l, bk_reason := bl_reason l, bk_snapshots := nvl (bl_snapshots l) []\<rparr>
      | Inl e \<Rightarrow> b\<lparr>bk_error := Some (nvl e ''Could not load backups'')\<rparr>)
     \<lparr>bk_loading := False\<rparr>"

definition createNow :: "backups \<Rightarrow> backups" where
  "createNow b = (if bk_creating b then b else b\<lparr>bk_creating := True, bk_creates := bk_creates b + 1\<rparr>)"

text \<open>The backup is made or not; a made one is followed by loading the list, whose answer ends the run.\<close>

definition backup_created :: "(string option + backup_snapshot) \<times> (string option + backup_list) \<Rightarrow> backups \<Rightarrow> backups" where
  "backup_created r b =
     (case fst r of
        Inr s \<Rightarrow> backups_loaded (snd r) (b\<lparr>bk_toasts := bk_toasts b @ [''Backup '' @ bs_name s @ '' saved.'']\<rparr>)
      | Inl e \<Rightarrow> b\<lparr>bk_toasts := bk_toasts b @ [nvl e ''Could not create a backup'']\<rparr>)
     \<lparr>bk_creating := False\<rparr>"

section \<open>Restoring\<close>

definition restore :: "backups \<Rightarrow> backups" where
  "restore b =
     (case bk_confirm b of
        None \<Rightarrow> b
      | Some src \<Rightarrow>
          if bk_restoring b then b
          else b\<lparr>bk_restoring := True, bk_error := None,
                 bk_phase := Some (case src of FromSnapshot _ \<Rightarrow> ''Checking the backup...'' | FromFile _ \<Rightarrow> ''Uploading...''),
                 bk_restores := bk_restores b @ [src], bk_jobs := bk_jobs b @ [SendingRestore src]\<rparr>)"

definition restore_progress :: "rat \<Rightarrow> backups \<Rightarrow> backups" where
  "restore_progress f b =
     (let b1 = b\<lparr>bk_progress := Some f\<rparr> in if f \<ge> 1 then b1\<lparr>bk_phase := Some ''Checking the backup...''\<rparr> else b1)"

text \<open>The answer: an error, or whether the server restarts itself.\<close>

definition restore_answered :: "restore_source \<Rightarrow> string option + bool \<Rightarrow> backups \<Rightarrow> backups" where
  "restore_answered src res b =
     (let b1 = b\<lparr>bk_progress := None, bk_jobs := remove1 (SendingRestore src) (bk_jobs b)\<rparr> in
      case res of
        Inr restarting \<Rightarrow>
          if restarting
          then b1\<lparr>bk_phase := Some ''Restarting the server with the restored data...'', bk_jobs := bk_jobs b1 @ [WaitingForServer]\<rparr>
          else b1\<lparr>bk_phase := None, bk_restoring := False, bk_confirm := None,
                  bk_toasts := bk_toasts b @ [''Backup accepted. Restart the server to finish restoring it.'']\<rparr>
      | Inl e \<Rightarrow> b1\<lparr>bk_phase := None, bk_restoring := False, bk_error := Some (nvl e ''Could not restore the backup'')\<rparr>)"

definition NOT_BACK :: string where
  "NOT_BACK = ''The server hasn't come back yet. If it isn't running under Docker, systemd or the Windows service, start it again yourself.''"

definition server_waited :: "bool \<Rightarrow> backups \<Rightarrow> backups" where
  "server_waited came_back b =
     (let b1 = b\<lparr>bk_jobs := remove1 WaitingForServer (bk_jobs b)\<rparr> in
      if came_back then b1\<lparr>bk_reloaded := True\<rparr>
      else b1\<lparr>bk_phase := None, bk_restoring := False, bk_error := Some NOT_BACK\<rparr>)"

section \<open>Events\<close>

text \<open>
  The dialog's escape, backdrop and buttons do nothing while a restore is under way. A chosen file or a snapshot's button
  opens it.
\<close>

datatype backup_event =
    Loaded "string option + backup_list"
  | ClickCreate
  | Created "string option + backup_snapshot" "string option + backup_list"
  | ChooseFile "string option"
  | ChooseSnapshot string
  | CloseRestore
  | ClickRestore
  | Progressed rat
  | RestoreAnswered restore_source "string option + bool"
  | Waited "nat \<Rightarrow> int" "nat \<Rightarrow> bool option"

primrec backup_step :: "backup_event \<Rightarrow> backups \<Rightarrow> backups" where
  "backup_step (Loaded r) b = backups_loaded r b"
| "backup_step ClickCreate b = createNow b"
| "backup_step (Created r l) b = (if bk_creating b then backup_created (r, l) b else b)"
| "backup_step (ChooseFile f) b = (case f of None \<Rightarrow> b | Some n \<Rightarrow> b\<lparr>bk_confirm := Some (FromFile n)\<rparr>)"
| "backup_step (ChooseSnapshot n) b = b\<lparr>bk_confirm := Some (FromSnapshot n)\<rparr>"
| "backup_step CloseRestore b = (if bk_restoring b then b else b\<lparr>bk_confirm := None\<rparr>)"
| "backup_step ClickRestore b = restore b"
| "backup_step (Progressed f) b =
     (if \<exists>n \<in> set (bk_jobs b). case n of SendingRestore (FromFile _) \<Rightarrow> True | _ \<Rightarrow> False then restore_progress f b else b)"
| "backup_step (RestoreAnswered src r) b = (if SendingRestore src \<in> set (bk_jobs b) then restore_answered src r b else b)"
| "backup_step (Waited clock probe) b =
     (if WaitingForServer \<in> set (bk_jobs b)
      then (case waitForServer clock probe of None \<Rightarrow> b | Some r \<Rightarrow> server_waited (fst r) b) else b)"

definition backup_run :: "backup_event list \<Rightarrow> backups \<Rightarrow> backups" where
  "backup_run es b = fold backup_step es b"

section \<open>The wait is bounded\<close>

text \<open>Whatever the clock and the server do: a wait that ends tells the truth.\<close>

definition told_truly :: "int \<Rightarrow> (nat \<Rightarrow> int) \<Rightarrow> (nat \<Rightarrow> bool option) \<Rightarrow> nat \<Rightarrow> bool \<times> nat \<Rightarrow> bool" where
  "told_truly deadline clock probe i r = (case r of (came_back, n) \<Rightarrow>
     i \<le> n \<and> (\<forall>j. i \<le> j \<and> j < n - (if came_back then 1 else 0) \<longrightarrow> probe j = Some False) \<and>
     (if came_back then i < n \<and> probe (n - 1) = Some True else deadline \<le> clock (Suc n)))"

lemma told_truly_back: "probe i = Some False \<Longrightarrow> told_truly deadline clock probe (Suc i) r \<Longrightarrow> told_truly deadline clock probe i r"
proof (cases r)
  case (Pair came_back n)
  assume p: "probe i = Some False" and t: "told_truly deadline clock probe (Suc i) r"
  have "probe j = Some False" if "i \<le> j" "j < n - (if came_back then 1 else 0)" for j
    using that t p by (cases "j = i") (auto simp: told_truly_def Pair)
  then show ?thesis using t by (auto simp: told_truly_def Pair)
qed

lemma told_truly_now:
  "probe i = Some True \<Longrightarrow> told_truly deadline clock probe i (True, Suc i)"
  "deadline \<le> clock (Suc i) \<Longrightarrow> told_truly deadline clock probe i (False, i)"
  by (auto simp: told_truly_def)

lemma wait_loop_result: "wait_loop deadline clock probe i = Some r \<Longrightarrow> told_truly deadline clock probe i r"
proof (rule wait_loop.raw_induct [where P = told_truly])
  fix self deadline clock probe i r
  assume IH: "\<And>deadline clock probe i r. self deadline clock probe i = Some r \<Longrightarrow> told_truly deadline clock probe i r"
    and "(if clock (Suc i) < deadline
       then case probe i of None \<Rightarrow> None | Some ok \<Rightarrow> if ok then Some (True, Suc i) else self deadline clock probe (Suc i)
       else Some (False, i)) = Some r"
  then show "told_truly deadline clock probe i r"
    using IH [of deadline clock probe "Suc i" r] told_truly_back [of probe i deadline clock r]
    by (auto simp: told_truly_now split: if_splits option.splits)
qed

text \<open>A wait over a clock that moves on by the pauses at least, with probes that settle, asks once every second and a half.\<close>

lemma wait_loop_ends:
  assumes settles: "\<And>j. probe j \<noteq> None" and moves: "\<And>j. clock (Suc j) + 1500 \<le> clock (Suc (Suc j))"
    and "deadline - clock (Suc i) \<le> 1500 * int k"
  shows "\<exists>came_back n. wait_loop deadline clock probe i = Some (came_back, n) \<and> n \<le> i + k"
  using assms(3)
proof (induction k arbitrary: i)
  case 0
  then show ?case by (intro exI [of _ False] exI [of _ i]) (subst wait_loop.simps, simp)
next
  case (Suc k)
  obtain ok where ok: "probe i = Some ok" using settles by blast
  have "deadline - clock (Suc (Suc i)) \<le> 1500 * int k" using Suc.prems moves [of i] by simp
  from Suc.IH [OF this] obtain came_back n where "wait_loop deadline clock probe (Suc i) = Some (came_back, n)" "n \<le> Suc i + k" by blast
  then show ?case using ok by (cases "clock (Suc i) < deadline"; cases ok) (subst (1) wait_loop.simps; auto)+
qed

text \<open>
  C34. If every probe settles and the clock is not set back, so that it moves on by the pauses at least, the wait ends. It
  asks at most 79 times; it reports the server back exactly at the first probe that was answered well, and gives up only
  when two minutes are over and every probe had failed. Neither condition can be dropped
  (\<open>a_hanging_probe_holds_the_wait\<close>, \<open>a_clock_that_stands_still_holds_the_wait\<close>).
\<close>

theorem the_wait_for_the_server_ends:
  assumes "\<And>j. probe j \<noteq> None" "clock 0 + 2500 \<le> clock 1" "\<And>j. clock (Suc j) + 1500 \<le> clock (Suc (Suc j))"
  shows "\<exists>came_back n. waitForServer clock probe = Some (came_back, n) \<and> n \<le> 79 \<and>
     (if came_back then 0 < n \<and> probe (n - 1) = Some True \<and> (\<forall>j. j < n - 1 \<longrightarrow> probe j = Some False)
      else clock 0 + 120000 \<le> clock (Suc n) \<and> (\<forall>j. j < n \<longrightarrow> probe j = Some False))"
proof -
  have "clock 0 + 120000 - clock (Suc 0) \<le> 1500 * int 79" using assms(2) by simp
  from wait_loop_ends [of probe clock, OF assms(1,3) this] obtain came_back n
    where w: "wait_loop (clock 0 + 120000) clock probe 0 = Some (came_back, n)" "n \<le> 79" by auto
  with wait_loop_result [OF w(1)] show ?thesis
    by (intro exI [of _ came_back] exI [of _ n]) (auto simp: waitForServer_def told_truly_def split: if_splits)
qed

lemma the_wait_for_the_server_ends_witness:
  "\<exists>came_back n. waitForServer (\<lambda>i. 2500 * int i) (\<lambda>i. Some (i = 1)) = Some (came_back, n) \<and> n \<le> 79"
proof -
  have "\<exists>came_back n. waitForServer (\<lambda>i. 2500 * int i) (\<lambda>i. Some (i = 1)) = Some (came_back, n) \<and> n \<le> 79 \<and>
     (if came_back then 0 < n \<and> Some (n - 1 = 1) = Some True \<and> (\<forall>j. j < n - 1 \<longrightarrow> Some (j = 1) = Some False)
      else 2500 * int 0 + 120000 \<le> 2500 * int (Suc n) \<and> (\<forall>j. j < n \<longrightarrow> Some (j = 1) = Some False))"
    by (rule the_wait_for_the_server_ends) simp_all
  then show ?thesis by blast
qed

text \<open>A connection that is accepted and never answered: the dialog says that the server is restarting for ever.\<close>

lemma a_hanging_probe_holds_the_wait:
  assumes "clock 1 < clock 0 + 120000" "probe 0 = None" "WaitingForServer \<in> set (bk_jobs b)"
  shows "waitForServer clock probe = None" "backup_step (Waited clock probe) b = b"
proof -
  show *: "waitForServer clock probe = None"
    using assms(1,2) unfolding waitForServer_def by (subst wait_loop.simps) simp
  then show "backup_step (Waited clock probe) b = b" by simp
qed

lemma a_clock_that_stands_still_holds_the_wait:
  assumes "\<And>j. clock j < clock 0 + 120000" "\<And>j. probe j = Some False"
  shows "waitForServer clock probe = None"
proof (rule ccontr)
  assume "waitForServer clock probe \<noteq> None"
  then obtain came_back n where "wait_loop (clock 0 + 120000) clock probe 0 = Some (came_back, n)"
    by (auto simp: waitForServer_def)
  from wait_loop_result [OF this] show False
    using assms(1) [of "Suc n"] assms(2) by (auto simp: told_truly_def split: if_splits)
qed

section \<open>Taking a backup\<close>

text \<open>Everything else that happens on the page.\<close>

definition backup_other :: "backup_event \<Rightarrow> backups \<Rightarrow> backups" where
  "backup_other e b = (case e of ClickCreate \<Rightarrow> b | Created _ _ \<Rightarrow> b | _ \<Rightarrow> backup_step e b)"

lemma creating_kept [simp]:
  "bk_creating (backups_loaded r b) = bk_creating b" "bk_creating (restore b) = bk_creating b"
  "bk_creating (restore_progress f b) = bk_creating b" "bk_creating (restore_answered src q b) = bk_creating b"
  "bk_creating (server_waited w b) = bk_creating b"
  by (simp_all add: backups_loaded_def restore_def restore_progress_def restore_answered_def server_waited_def Let_def
      split: sum.splits option.splits)

text \<open>Backups are taken one at a time, and the button is free again however the run ended.\<close>

interpretation backup_now: request_form backup_other createNow backup_created bk_creating bk_creates
proof
  fix e b r
  show "bk_creating (backup_other e b) = bk_creating b"
    by (cases e) (simp_all add: backup_other_def split: option.splits)
  show "bk_creating b \<Longrightarrow> createNow b = b" "\<not> bk_creating b \<Longrightarrow> bk_creates (createNow b) = bk_creates b + (if bk_creating (createNow b) then 1 else 0)"
    by (simp_all add: createNow_def)
  show "\<not> bk_creating (backup_created r b)"
    by (simp add: backup_created_def)
qed

lemma one_backup_at_a_time:
  assumes "form_reach backup_other createNow backup_created bk_creates mount_backups n b"
  shows "n \<le> 1"
  by (rule backup_now.one_at_a_time [OF assms]) (simp add: mount_backups_def)

text \<open>A message about a list that could not be loaded outlives the next list that could.\<close>

lemma load_error_stays:
  "bk_error (backup_run [Loaded (Inl None), ClickCreate, Created (Inr s) (Inr l)] mount_backups) = Some ''Could not load backups''"
  by (simp add: backup_run_def backups_loaded_def createNow_def backup_created_def mount_backups_def nvl_def)

section \<open>A restore from start to end\<close>

text \<open>\<open>W\<close> are the waits that took place.\<close>

definition restore_ok :: "((nat \<Rightarrow> int) \<times> (nat \<Rightarrow> bool option)) set \<Rightarrow> backups \<Rightarrow> bool" where
  "restore_ok W b =
     (bk_restoring b = (bk_jobs b \<noteq> [] \<or> bk_reloaded b) \<and> length (bk_jobs b) \<le> 1 \<and>
      (if bk_restoring b then bk_confirm b \<noteq> None \<and> bk_phase b \<noteq> None else bk_phase b = None \<and> bk_progress b = None) \<and>
      (WaitingForServer \<in> set (bk_jobs b) \<longrightarrow> bk_progress b = None) \<and>
      (bk_reloaded b \<longrightarrow> bk_jobs b = [] \<and> (\<exists>(clock, probe) \<in> W. \<exists>n. waitForServer clock probe = Some (True, n))))"

lemma restore_ok_quiet:
  assumes "restore_ok W b" "bk_jobs c = bk_jobs b" "bk_restoring c = bk_restoring b" "bk_reloaded c = bk_reloaded b"
    "bk_phase c = bk_phase b" "bk_progress c = bk_progress b"
    "bk_confirm c = bk_confirm b \<or> bk_confirm c \<noteq> None \<or> \<not> bk_restoring b"
  shows "restore_ok W c"
  using assms by (auto simp: restore_ok_def)

lemma restore_ok_loaded: "restore_ok W b \<Longrightarrow> restore_ok W (backups_loaded r b)"
  by (erule restore_ok_quiet) (auto simp: backups_loaded_def restore_ok_def split: sum.splits)

lemma restore_ok_create: "restore_ok W b \<Longrightarrow> restore_ok W (createNow b)"
  by (erule restore_ok_quiet) (auto simp: createNow_def restore_ok_def)

lemma restore_ok_created: "restore_ok W b \<Longrightarrow> restore_ok W (backup_created r b)"
  by (erule restore_ok_quiet)
    (auto simp: backup_created_def backups_loaded_def restore_ok_def split: sum.splits)

lemma restore_ok_restore: "restore_ok W b \<Longrightarrow> restore_ok W (restore b)"
  by (cases "bk_confirm b") (auto simp: restore_def restore_ok_def)

lemma one_job: "length xs \<le> Suc 0 \<Longrightarrow> x \<in> set xs \<Longrightarrow> xs = [x]"
  by (cases xs) auto

lemma restore_ok_job: "restore_ok W b \<Longrightarrow> j \<in> set (bk_jobs b) \<Longrightarrow> bk_jobs b = [j]"
  by (rule one_job) (simp_all add: restore_ok_def)

lemma restore_ok_progress:
  assumes "restore_ok W b" "SendingRestore src \<in> set (bk_jobs b)"
  shows "restore_ok W (restore_progress f b)"
  using assms(1) restore_ok_job [OF assms] by (auto simp: restore_progress_def restore_ok_def Let_def)

lemma restore_ok_answered:
  assumes "restore_ok W b" "SendingRestore src \<in> set (bk_jobs b)"
  shows "restore_ok W (restore_answered src r b)"
  using assms(1) restore_ok_job [OF assms]
  by (cases r) (auto simp: restore_answered_def restore_ok_def Let_def)

lemma restore_ok_waited:
  assumes "restore_ok W b" "WaitingForServer \<in> set (bk_jobs b)" "(clock, probe) \<in> W" "waitForServer clock probe = Some r"
  shows "restore_ok W (server_waited (fst r) b)"
  using assms(1,3,4) restore_ok_job [OF assms(1,2)]
  by (cases r) (auto simp: server_waited_def restore_ok_def Let_def intro!: bexI [of _ "(clock, probe)"])

primrec waits_within :: "((nat \<Rightarrow> int) \<times> (nat \<Rightarrow> bool option)) set \<Rightarrow> backup_event \<Rightarrow> bool" where
  "waits_within W (Loaded r) = True"
| "waits_within W ClickCreate = True"
| "waits_within W (Created r l) = True"
| "waits_within W (ChooseFile f) = True"
| "waits_within W (ChooseSnapshot n) = True"
| "waits_within W CloseRestore = True"
| "waits_within W ClickRestore = True"
| "waits_within W (Progressed f) = True"
| "waits_within W (RestoreAnswered src r) = True"
| "waits_within W (Waited clock probe) = ((clock, probe) \<in> W)"

lemma restore_ok_step:
  assumes "restore_ok W b" "waits_within W e"
  shows "restore_ok W (backup_step e b)"
proof (cases e)
  case (ChooseFile f)
  with assms show ?thesis
    by (cases f) (auto intro: restore_ok_quiet [OF assms(1)])
next
  case (Progressed f)
  with assms restore_ok_progress show ?thesis
    by (auto split: restore_job.splits)
next
  case (Waited clock probe)
  with assms show ?thesis
    by (cases "waitForServer clock probe") (auto intro: restore_ok_waited)
qed (use assms in \<open>auto simp: restore_ok_loaded restore_ok_create restore_ok_created restore_ok_restore restore_ok_answered
  intro: restore_ok_quiet\<close>)

lemma restore_ok_run:
  "restore_ok W b \<Longrightarrow> list_all (waits_within W) es \<Longrightarrow> restore_ok W (backup_run es b)"
  by (induction es arbitrary: b) (simp_all add: backup_run_def restore_ok_step)

text \<open>
  On any run of the page: the busy flag says whether a restore is under way, there is one at most, its dialog stays open
  with a phase shown until it is settled, and nothing of it is shown afterwards. The page reloads only after a probe
  that the server answered well.
\<close>

theorem a_restore_is_settled:
  "let b = backup_run es mount_backups in
   bk_restoring b = (bk_jobs b \<noteq> [] \<or> bk_reloaded b) \<and> length (bk_jobs b) \<le> 1 \<and>
   (if bk_restoring b then bk_confirm b \<noteq> None \<and> bk_phase b \<noteq> None else bk_phase b = None \<and> bk_progress b = None) \<and>
   (bk_reloaded b \<longrightarrow> (\<exists>clock probe n. Waited clock probe \<in> set es \<and> probe n = Some True))"
proof -
  let ?W = "{(clock, probe). Waited clock probe \<in> set es}"
  have "list_all (waits_within ?W) es"
    unfolding list_all_iff
  proof
    fix e
    assume "e \<in> set es"
    then show "waits_within ?W e"
      by - (cases e, auto)
  qed
  then have ok: "restore_ok ?W (backup_run es mount_backups)"
    by (intro restore_ok_run) (simp_all add: restore_ok_def mount_backups_def)
  have "\<exists>n. probe n = Some True" if "waitForServer clock probe = Some (True, n)" for clock probe n
    using wait_loop_result [OF that [unfolded waitForServer_def]] by (auto simp: told_truly_def)
  with ok show ?thesis
    unfolding restore_ok_def Let_def by blast
qed

lemma a_restore_is_settled_witness:
  "\<exists>clock probe n. Waited clock probe \<in> {Waited (\<lambda>i. int i) (\<lambda>_. Some True)} \<and> probe n = Some True"
proof -
  let ?es = "[ChooseFile (Some ''all.zip''), ClickRestore, Progressed 1, RestoreAnswered (FromFile ''all.zip'') (Inr True),
    Waited (\<lambda>i. int i) (\<lambda>_. Some True)]"
  have "waitForServer (\<lambda>i. int i) (\<lambda>_. Some True) = Some (True, 1)"
    unfolding waitForServer_def by (subst wait_loop.simps) simp
  then have "bk_reloaded (backup_run ?es mount_backups)"
    by (simp add: backup_run_def mount_backups_def restore_def restore_progress_def restore_answered_def server_waited_def)
  with a_restore_is_settled [of ?es] have "\<exists>clock probe n. Waited clock probe \<in> set ?es \<and> probe n = Some True"
    unfolding Let_def by blast
  then show ?thesis
    by auto
qed

end
