(* ===== verification/CallControls.thy ===== *)
theory CallControls
  imports CallOverlay CallLaws ChatLaws
begin

text \<open>
  The dock of the call view and what surrounds it (\<open>ControlsBar\<close>, \<open>SfuTile\<close>, \<open>MiniCallCard\<close> and the header in
  \<open>components/CallOverlay.tsx\<close>): the buttons and when they are offered, the panel that chooses devices,
  picture in picture, the timer that takes the call store's notices away, and the effect that tells the chat
  store whether the call covers the chat. The last part puts the dock beside the call store (which of its
  notices are ever seen) and beside the chat store (which messages count as unread during a call).
\<close>

section \<open>When the dock exists\<close>

text \<open>\<open>ControlsBar\<close> is part of every view of a call but the small card.\<close>

definition dock_mounted :: "calls \<Rightarrow> bool" where
  "dock_mounted s = (overlay_of s \<noteq> NoOverlay \<and> overlay_of s \<noteq> MiniCallCard)"

definition shown_toast :: "calls \<Rightarrow> string option" where
  "shown_toast s = (if dock_mounted s \<and> str_truthy (call_toast s) then call_toast s else None)"

lemma dock_mounted_iff: "dock_mounted s \<longleftrightarrow> status s \<noteq> Idle \<and> \<not> minimized s"
  by (simp add: dock_mounted_def overlay_of_def)

section \<open>The buttons\<close>

text \<open>The share button of the dock with its \<open>disabled\<close>, and the button of the banner above it.\<close>

definition share_disabled :: "bool \<Rightarrow> int \<Rightarrow> calls \<Rightarrow> bool" where
  "share_disabled can_capture meID s = (\<not> sharing s \<and> (\<not> can_capture \<or> \<not> canPresent meID s))"

definition share_hint :: "bool \<Rightarrow> int \<Rightarrow> calls \<Rightarrow> string" where
  "share_hint can_capture meID s =
     (if \<not> can_capture then ''Screen sharing is not supported on this device or browser''
      else if \<not> canPresent meID s then ''Only the host or an approved presenter can share''
      else if sharing s then ''Stop sharing'' else ''Share screen'')"

definition press_share :: "bool \<Rightarrow> int \<Rightarrow> calls \<Rightarrow> calls" where
  "press_share can_capture meID s = (if share_disabled can_capture meID s then s else click_share can_capture meID s)"

definition press_stop :: "calls \<Rightarrow> calls" where
  "press_stop s = (if sharing s then toggleScreen s else s)"

text \<open>The hand button is offered in room calls only.\<close>

definition handRaised :: "int \<Rightarrow> calls \<Rightarrow> bool" where
  "handRaised uid s = (raisedHands s uid = Some True)"

definition press_hand :: "call_env \<Rightarrow> calls \<Rightarrow> calls" where
  "press_hand env s = (if mode s = Sfu then toggleRaiseHand env s else s)"

text \<open>The record button: the notice first, then the recorder is asked to start; or it is asked to stop.\<close>

datatype record_command = StartRecorder | StopRecorder

definition press_record :: "bool \<Rightarrow> calls \<Rightarrow> calls \<times> record_command" where
  "press_record recording s =
     (if recording then (s, StopRecorder)
      else (toast_call ''Recording -- saved to this device. Please let others know.'' s, StartRecorder))"

text \<open>The effect on \<open>recordError\<close>.\<close>

definition record_error_effect :: "string option \<Rightarrow> calls \<Rightarrow> calls" where
  "record_error_effect recordError s = (if str_truthy recordError then s\<lparr>call_toast := recordError\<rparr> else s)"

section \<open>Picture in picture\<close>

text \<open>The call's video elements in the document, each with whether it has a picture (\<open>videoWidth > 0\<close>).\<close>

datatype pip_action = LeavePip | RequestPip nat | NothingToPop

definition togglePip :: "bool \<Rightarrow> bool list \<Rightarrow> pip_action" where
  "togglePip in_pip videos =
     (if in_pip then LeavePip
      else (case find (\<lambda>i. videos ! i) [0..<length videos] of
              Some i \<Rightarrow> RequestPip i
            | None \<Rightarrow> if videos = [] then NothingToPop else RequestPip 0))"

text \<open>\<open>ok\<close>: what was called did not throw.\<close>

definition pip_outcome :: "pip_action \<Rightarrow> bool \<Rightarrow> calls \<Rightarrow> calls" where
  "pip_outcome a ok s =
     (if a = NothingToPop then toast_call ''There's no video to pop out yet'' s
      else if ok then s else toast_call ''Couldn't open picture-in-picture'' s)"

section \<open>Choosing devices\<close>

text \<open>
  The panel's state: whether it is shown, the devices and the three choices, and the listener its effect has
  registered for device changes.
\<close>

record dock_panel =
  dp_showDevices :: bool
  dp_devices :: device_list
  dp_mic :: string
  dp_cam :: string
  dp_speaker :: string
  dp_listener :: "nat option"

definition stored_choice :: "dev_kind \<Rightarrow> media_state \<Rightarrow> string" where
  "stored_choice k m = nvl (getPreferredDevice k m) []"

definition mount_panel :: "media_state \<Rightarrow> dock_panel" where
  "mount_panel m = \<lparr>dp_showDevices = False, dp_devices = no_devices, dp_mic = stored_choice MicPref m,
     dp_cam = stored_choice CamPref m, dp_speaker = stored_choice SpeakerPref m, dp_listener = None\<rparr>"

text \<open>\<open>refresh\<close>: the devices are asked for (\<open>panel_devices\<close> is the answer), the choices read again.\<close>

definition refresh_panel :: "media_state \<Rightarrow> dock_panel \<Rightarrow> dock_panel" where
  "refresh_panel m p = p\<lparr>dp_mic := stored_choice MicPref m, dp_cam := stored_choice CamPref m,
     dp_speaker := stored_choice SpeakerPref m\<rparr>"

definition panel_devices :: "device list option \<Rightarrow> dock_panel \<times> media_state \<Rightarrow> dock_panel \<times> media_state" where
  "panel_devices answer w = (let (l, m) = devices_listed answer (snd w) in ((fst w)\<lparr>dp_devices := l\<rparr>, m))"

text \<open>
  \<open>showDevices\<close> changes and the effect follows: the old one's cleanup takes its listener back, the new
  one registers \<open>cb\<close> if the panel is shown.
\<close>

definition set_showDevices :: "nat \<Rightarrow> bool \<Rightarrow> dock_panel \<times> media_state \<Rightarrow> dock_panel \<times> media_state" where
  "set_showDevices cb on w =
     (let (p, m) = w in
      if dp_showDevices p = on then w
      else
        (let m1 = (case dp_listener p of None \<Rightarrow> m | Some old \<Rightarrow> offDevicesChanged old m);
             p1 = p\<lparr>dp_showDevices := on, dp_listener := None\<rparr>
         in if on then ((refresh_panel m1 p1)\<lparr>dp_listener := Some cb\<rparr>, onDevicesChanged cb m1) else (p1, m1)))"

definition unmount_panel :: "dock_panel \<times> media_state \<Rightarrow> dock_panel \<times> media_state" where
  "unmount_panel w =
     (case dp_listener (fst w) of
        None \<Rightarrow> w | Some old \<Rightarrow> ((fst w)\<lparr>dp_listener := None\<rparr>, offDevicesChanged old (snd w)))"

text \<open>A choice: microphone and camera go through the call store, the speaker is only a preference.\<close>

definition choose_mic :: "string \<Rightarrow> dock_panel \<times> calls \<Rightarrow> dock_panel \<times> calls" where
  "choose_mic d w = ((fst w)\<lparr>dp_mic := d\<rparr>, switchDevice MicDevice d (snd w))"

definition choose_cam :: "string \<Rightarrow> dock_panel \<times> calls \<Rightarrow> dock_panel \<times> calls" where
  "choose_cam d w = ((fst w)\<lparr>dp_cam := d\<rparr>, switchDevice CamDevice d (snd w))"

definition choose_speaker :: "string \<Rightarrow> dock_panel \<times> media_state \<Rightarrow> dock_panel \<times> media_state" where
  "choose_speaker d w =
     ((fst w)\<lparr>dp_speaker := d\<rparr>, fst (setPreferredDevice SpeakerPref (if d = [] then None else Some d) (snd w)))"

text \<open>The flip button is offered with more than one camera.\<close>

definition press_flip :: "dock_panel \<times> calls \<Rightarrow> dock_panel \<times> calls" where
  "press_flip w =
     (let ids = map (fst \<circ> snd) (cams (dp_devices (fst w))) in
      if 1 < length ids then choose_cam (flip_camera ids (dp_cam (fst w))) w else w)"

definition device_label :: "string \<Rightarrow> device \<Rightarrow> string" where
  "device_label kind d = (let (i, l) = snd d in if l \<noteq> [] then l else kind @ '' ('' @ take 5 i @ '')'')"

section \<open>Tiles, the small card and the header\<close>

definition tile_name :: "int \<Rightarrow> participant_info \<Rightarrow> string" where
  "tile_name meID p = p_display_name p @ (if p_user_id p = meID then '' (you)'' else [])"

text \<open>The host's button on the tile of someone who is not muted.\<close>

definition mute_offered :: "int \<Rightarrow> calls \<Rightarrow> participant_info \<Rightarrow> bool" where
  "mute_offered meID s p = (p_user_id p \<noteq> meID \<and> \<not> p_muted p \<and>
     (case find (\<lambda>q. p_user_id q = meID) (participants s) of None \<Rightarrow> False | Some my \<Rightarrow> p_host my))"

definition press_mute :: "call_env \<Rightarrow> int \<Rightarrow> participant_info \<Rightarrow> calls \<Rightarrow> calls" where
  "press_mute env meID p s = (if mute_offered meID s p then muteParticipant env (p_user_id p) False s else s)"

text \<open>The small card: its line of status, its bars, and its button that makes the call large again.\<close>

definition reconnecting :: "calls \<Rightarrow> bool" where
  "reconnecting s = (wsReconnecting s \<or> mediaReconnecting s)"

definition mini_status :: "string \<Rightarrow> calls \<Rightarrow> string \<times> nat option" where
  "mini_status elapsed s =
     (if reconnecting s then (''Reconnecting...'', None)
      else (if elapsed = [] then ''Connected'' else elapsed, Some (network_bars (networkQuality s))))"

definition press_maximize :: "calls \<Rightarrow> calls" where
  "press_maximize s = (if overlay_of s = MiniCallCard then s\<lparr>minimized := False\<rparr> else s)"

text \<open>The header: the time, the count of participants, the bars, and the banner below it.\<close>

definition header_time :: "string \<Rightarrow> string" where
  "header_time elapsed = (if elapsed = [] then ''Calling...'' else elapsed)"

definition header_count :: "calls \<Rightarrow> string option" where
  "header_count s =
     (if mode s \<noteq> Sfu then None
      else (let n = length (participants s) in
            Some (show_nat n @ (if n = 1 then '' participant'' else '' participants''))))"

definition header_bars :: "calls \<Rightarrow> nat option" where
  "header_bars s = (if status s = ActiveCall then Some (network_bars (networkQuality s)) else None)"

definition reconnect_banner :: "calls \<Rightarrow> bool" where
  "reconnect_banner s = (reconnecting s \<and> status s = ActiveCall)"

definition people_drawer :: "calls \<Rightarrow> bool" where
  "people_drawer s = (mode s = Sfu \<and> showParticipants s)"

definition press_minimize :: "calls \<Rightarrow> calls" where
  "press_minimize s = s\<lparr>minimized := True\<rparr>"

section \<open>The dock's effects\<close>

text \<open>
  What a render of the call view does, from the call store's old state \<open>s\<close> to the new one \<open>s'\<close>. The
  effect on the notice: if it changed, the old timer is cleared and a new one started for a notice that is
  not empty; mounting starts, unmounting clears.
\<close>

definition toast_effect :: "calls \<Rightarrow> calls \<Rightarrow> bool \<Rightarrow> bool" where
  "toast_effect s s' running =
     (if \<not> dock_mounted s' then False
      else if dock_mounted s \<and> call_toast s = call_toast s' then running
      else str_truthy (call_toast s'))"

text \<open>The effect on \<open>inCallChat\<close>: the cleanup says that nothing is covered, the effect says what is.\<close>

definition cover_effect :: "calls \<Rightarrow> calls \<Rightarrow> chats \<Rightarrow> chats" where
  "cover_effect s s' ch =
     (let again = (dock_mounted s \<and> dock_mounted s' \<and> inCallChat s = inCallChat s');
          ch1 = (if dock_mounted s \<and> \<not> again then ch\<lparr>callCovering := False\<rparr> else ch)
      in if dock_mounted s' \<and> \<not> again then ch1\<lparr>callCovering := \<not> inCallChat s'\<rparr> else ch1)"

text \<open>The conversation of the call, its unread messages, and the badge on the chat button.\<close>

definition callConvoKey :: "calls \<Rightarrow> string option" where
  "callConvoKey s = (case peer s of Some p \<Rightarrow> Some (key (Dm (ub_id p)))
     | None \<Rightarrow> map_option (\<lambda>g. key (GroupConvo (g_id g))) (call_group s))"

definition chatUnread :: "calls \<Rightarrow> chats \<Rightarrow> int" where
  "chatUnread s ch = (case callConvoKey s of Some k \<Rightarrow> if k \<noteq> [] then nvl (unread ch k) 0 else 0 | None \<Rightarrow> 0)"

definition chat_button_badge :: "calls \<Rightarrow> chats \<Rightarrow> string option" where
  "chat_button_badge s ch = chat_badge (chatUnread s ch) (inCallChat s)"

text \<open>
  The runs of the two stores with the call view between them: an event of the call store and the render
  after it, the timer of the notice, an event of the chat store. The state: the calls, whether the timer
  runs, the chats.
\<close>

inductive view_reach :: "calls \<Rightarrow> bool \<Rightarrow> chats \<Rightarrow> bool" where
  view_start: "view_reach init_calls False init_chats"
| view_call: "view_reach s running ch \<Longrightarrow> frame_ok ev s \<Longrightarrow> s' = call_step env ev s \<Longrightarrow>
    view_reach s' (toast_effect s s' running) (cover_effect s s' ch)"
| view_timer: "view_reach s True ch \<Longrightarrow> s' = s\<lparr>call_toast := None\<rparr> \<Longrightarrow>
    view_reach s' (toast_effect s s' False) (cover_effect s s' ch)"
| view_chat: "view_reach s running ch \<Longrightarrow> (\<And>b. ev \<noteq> SetCovering b) \<Longrightarrow> view_reach s running (chat_step cenv ev ch)"

section \<open>Notices\<close>

definition starts_clean :: "calls \<Rightarrow> bool" where
  "starts_clean s' = (status s' \<noteq> Idle \<longrightarrow> call_toast s' = None)"

lemma starts_clean_actions:
  assumes "calls_ok s" "status s = Idle"
  shows "starts_clean (startDmCall env p v s)" "starts_clean (acceptIncoming env w s)"
    "starts_clean (startGroupCall env g v s)" "starts_clean (acceptRoomInvite s)"
    "starts_clean (joinPrivateRoom env i pc v s)" "starts_clean (declineIncoming env s)" "starts_clean (hangup env s)"
    "starts_clean (startDmCall_done env e p c v ok s)" "starts_clean (acceptIncoming_done env e c v ok s)"
    "starts_clean (startGroupCall_done env e c v ok s)" "starts_clean (acceptRoomInvite_done env e c ok s)"
    "starts_clean (joinPrivateRoom_done env e c v ok err s)" "starts_clean (onState env e st s)"
    "starts_clean (declineRoomInvite s)" "starts_clean (switchDevice_done env e dk ok s)"
  using calls_ok_idle [OF assms] assms(2)
  by (auto simp: starts_clean_def idle_ok_def startDmCall_def acceptIncoming_def startGroupCall_def acceptRoomInvite_def
      joinPrivateRoom_def declineIncoming_def hangup_def startDmCall_done_def acceptIncoming_done_def
      startGroupCall_done_def acceptRoomInvite_done_def joinPrivateRoom_done_def onState_def declineRoomInvite_def switchDevice_done_def
      direct_current_def room_current_def open_room_def room_start_def calls_eq Let_def split: option.splits)

lemma starts_clean_frames:
  assumes "calls_ok s" "status s = Idle"
  shows "starts_clean (on_call_outgoing c s)" "starts_clean (on_call_invite env c f v s)" "starts_clean (on_call_ringing co s)"
    "starts_clean (on_call_accepted co s)" "starts_clean (on_call_declined co s)" "starts_clean (on_call_ended co r s)"
    "starts_clean (on_webrtc_relay d s)" "starts_clean (on_room_invite rr n f g s)" "starts_clean (on_room_joined env co b ps s)"
    "starts_clean (on_room_participant co pp s)" "starts_clean (on_room_left co u s)" "starts_clean (on_room_closed co s)"
    "starts_clean (on_join_pending co s)" "starts_clean (on_join_approved co s)" "starts_clean (on_join_denied co s)"
    "starts_clean (on_room_removed s)" "starts_clean (on_room_ended co gg s)" "starts_clean (on_ws_close env s)"
    "starts_clean (reconnect_timer_fires env s)" "starts_clean (on_ws_open env s)" "starts_clean (on_call_error dd s)"
  using calls_ok_idle [OF assms] assms(2)
  by (auto simp: starts_clean_def idle_ok_def on_call_outgoing_def on_call_invite_def on_call_ringing_def on_call_accepted_def
      on_call_declined_def on_call_ended_def on_webrtc_relay_def on_room_invite_def on_room_joined_def on_room_participant_def
      on_room_left_def on_room_closed_def on_join_pending_def on_join_approved_def on_join_denied_def on_room_removed_def
      on_room_ended_def on_ws_close_def reconnect_timer_fires_def on_ws_open_def on_call_error_def mark_room_def unmark_room_def
      p2p_idle_def
      direct_current_def room_current_def open_room_def room_start_def calls_eq Let_def
      split: option.splits relay_data.splits)

lemma starts_clean_core: "core s' = core s \<Longrightarrow> status s = Idle \<Longrightarrow> starts_clean s'"
  by (simp add: core_def starts_clean_def)

lemma starts_clean_step:
  assumes "calls_ok s" "status s = Idle"
  shows "starts_clean (call_step env ev s)"
  using assms
  by (cases ev; simp add: call_step_def starts_clean_actions starts_clean_frames starts_clean_core core_handlers)

lemma view_calls: "view_reach s running ch \<Longrightarrow> call_reach s"
proof (induction rule: view_reach.induct)
  case (view_timer s ch s')
  then have "s' = call_step env (SetToast None) s" "frame_ok (SetToast None) s" for env
    by (simp_all add: call_step_def frame_ok_def)
  then show ?case using call_reach.step [OF view_timer.IH] by metis
qed (auto intro: call_reach.intros)

text \<open>
  C14. A notice that comes with the end of a call is never seen. The store's notices are shown by the dock,
  which exists only during a call that is not minimised; in every reachable state without a call nothing
  is shown, and whatever starts the next call takes the notice away first. So \<open>Call declined\<close>, \<open>Could
  not access microphone/camera\<close>, \<open>You were removed from the call by the host\<close>, the server's reason for
  refusing a call and the rest are set and never displayed.
\<close>

theorem notices_of_ended_calls_are_never_seen:
  assumes "call_reach s" "status s = Idle"
  shows "shown_toast s = None \<and>
    (status (call_step env ev s) \<noteq> Idle \<longrightarrow> call_toast (call_step env ev s) = None)"
proof -
  have "shown_toast s = None" using assms(2) by (simp add: shown_toast_def dock_mounted_iff)
  moreover have "starts_clean (call_step env ev s)"
    using starts_clean_step [OF call_reach_ok [OF assms(1)] assms(2)] .
  ultimately show ?thesis by (simp add: starts_clean_def)
qed

definition ex_declined :: calls where
  "ex_declined = call_step ex_cenv (WsCallDeclined (Some ''p2p-u'')) ex_dm"

lemma ex_declined_reach: "call_reach ex_declined"
  unfolding ex_declined_def by (rule call_reach.step [OF ex_dm_reach]) (simp add: frame_ok_def)

theorem notices_of_ended_calls_are_never_seen_witness:
  "call_toast ex_declined = Some ''Call declined'' \<and> shown_toast ex_declined = None \<and>
     call_toast (call_step ex_cenv (StartDm ex_peer False) ex_declined) = None"
proof -
  have idle: "status ex_declined = Idle" and t: "call_toast ex_declined = Some ''Call declined''"
    by (simp_all add: ex_declined_def call_step_def on_call_declined_def calls_eq Let_def p2p_idle_def names_other_def)
  have "status (call_step ex_cenv (StartDm ex_peer False) ex_declined) \<noteq> Idle"
    using idle by (simp add: call_step_def startDmCall_def calls_eq Let_def)
  then show ?thesis
    using notices_of_ended_calls_are_never_seen [OF ex_declined_reach idle, of ex_cenv "StartDm ex_peer False"] t by blast
qed

section \<open>What the effects keep\<close>

lemmas covering_basic = decryptPending_emits markRead_def ws_send_def count_unread_def updateMessage_def ack_patch_def
  drop_pending_def send_fail_def hydrateEncryptedFlag_def loadMessages_def drop_group_def setEncrypted_def

lemma covering_calls:
  "callCovering (fst (ws_send env ty d s)) = callCovering s"
  "callCovering (decryptPending ms s) = callCovering s"
  "callCovering (markRead env c s) = callCovering s"
  "callCovering (count_unread env u c msg s) = callCovering s"
  "callCovering (updateMessage env r f s) = callCovering s"
  "callCovering (ack_patch c i m s) = callCovering s"
  "callCovering (drop_pending cid s) = callCovering s"
  "callCovering (send_fail t c i s) = callCovering s"
  "callCovering (hydrateEncryptedFlag env c s) = callCovering s"
  "callCovering (loadMessages c b s) = callCovering s"
  "callCovering (drop_group g s) = callCovering s"
  "callCovering (fst (setEncrypted c on (s, l))) = callCovering s"
  by (simp_all add: covering_basic emit_def Let_def split: option.split)

lemma covering_sending:
  "callCovering (send_or_fail env j d s) = callCovering s"
  "callCovering (ack_timeout cid s) = callCovering s"
  "callCovering (open_convo env c s) = callCovering s"
  "callCovering (sendMessage env c t f r s) = callCovering s"
  "callCovering (keys_checked env j k s) = callCovering s"
  "callCovering (encrypted_done env j p s) = callCovering s"
  by (simp_all add: send_or_fail_def ack_timeout_def open_convo_def sendMessage_def keys_checked_def
      encrypted_done_def covering_calls ws_send_def emit_def Let_def split: option.split prod.split)

lemma covering_retry: "callCovering (retryMessage env m s) = callCovering s"
  by (simp add: retryMessage_def covering_sending Let_def split: option.split)

lemma covering_step:
  assumes "\<And>b. ev \<noteq> SetCovering b"
  shows "callCovering (chat_step env ev s) = callCovering s"
  using assms
  by (cases ev; simp add: chat_step_def covering_calls covering_sending covering_retry
      decrypt_done_def loadMessages_done_def fetchGroups_done_def fetchRecent_def fetchRecent_done_def deleteGroup_done_def
      group_done_def removeGroupMember_done_def deleteMessage_def editMessage_def reactToMessage_def pinMessage_def
      fetchSaved_done_def toggleSave_def toggleSave_done_def sendTyping_def on_visibility_def registerWs_def
      on_message_sent_def on_error_def on_message_new_def on_message_deleted_def on_message_edited_def
      on_message_pinned_def on_message_reaction_def on_typing_def on_message_read_def on_unread_def markDeleted_def
      ws_send_def emit_def Let_def split: option.split)

definition view_ok :: "calls \<Rightarrow> bool \<Rightarrow> chats \<Rightarrow> bool" where
  "view_ok s running ch \<longleftrightarrow>
     callCovering ch = (dock_mounted s \<and> \<not> inCallChat s) \<and> running = (dock_mounted s \<and> str_truthy (call_toast s))"

lemma view_ok_render: "view_ok s running ch \<Longrightarrow> view_ok s' (toast_effect s s' running) (cover_effect s s' ch)"
  by (auto simp: view_ok_def toast_effect_def cover_effect_def Let_def)

lemma view_ok_timer:
  "view_ok s True ch \<Longrightarrow> s' = s\<lparr>call_toast := None\<rparr> \<Longrightarrow> view_ok s' (toast_effect s s' False) (cover_effect s s' ch)"
  by (auto simp: view_ok_def toast_effect_def cover_effect_def Let_def)

lemma view_reach_ok: "view_reach s running ch \<Longrightarrow> view_ok s running ch"
proof (induction rule: view_reach.induct)
  case view_start
  show ?case by (simp add: view_ok_def dock_mounted_iff init_fields init_calls_def)
next
  case (view_call s running ch ev s' env)
  from this(4) show ?case by (rule view_ok_render)
next
  case (view_timer s ch s')
  from this(3,2) show ?case by (rule view_ok_timer)
next
  case (view_chat s running ch ev cenv)
  then show ?case by (simp add: view_ok_def covering_step)
qed

text \<open>Every notice that is seen goes: its timer runs, and when it fires nothing is shown.\<close>

lemma shown_notices_end:
  assumes "view_reach s running ch" "shown_toast s \<noteq> None"
  shows "running \<and> shown_toast (s\<lparr>call_toast := None\<rparr>) = None"
  using view_reach_ok [OF assms(1)] assms(2) by (auto simp: view_ok_def shown_toast_def split: if_splits)

text \<open>A notice that comes again while it is shown does not stay longer: the old timer goes on.\<close>

lemma repeated_notice_is_cut_short:
  "dock_mounted s \<Longrightarrow> call_toast s = Some t \<Longrightarrow> toast_effect s (toast_call t s) running = running"
  by (simp add: toast_effect_def toast_call_def dock_mounted_iff)

section \<open>Unread messages during a call\<close>

lemma key_is_text: "key c \<noteq> []" by (cases c) simp_all

lemma chatUnread_at: "callConvoKey s = Some (key c) \<Longrightarrow> chatUnread s ch = nvl (unread ch (key c)) 0"
  by (simp add: chatUnread_def key_is_text)

lemma on_message_new_eq:
  fixes ch :: chats
  assumes "me env = Some u" "incoming_convo (u_id u) msg = Some c"
  defines "ch1 \<equiv> decryptPending [msg] (set_bucket c (place {} msg (bucket c ch)) ch)"
  shows "on_message_new env msg ch =
    (if is_active c ch \<and> \<not> hidden env then markRead env c ch1 else count_unread env u c msg ch1)"
    and "unread ch1 = unread ch"
proof -
  have "is_active c ch1 = is_active c ch"
    by (cases c; simp add: is_active_def decryptPending_emits ch1_def)
  then show "on_message_new env msg ch =
    (if is_active c ch \<and> \<not> hidden env then markRead env c ch1 else count_unread env u c msg ch1)"
    using assms(1,2) by (simp add: on_message_new_def ch1_def [symmetric] Let_def)
  show "unread ch1 = unread ch" by (cases c; simp add: decryptPending_emits ch1_def)
qed

text \<open>
  C15. While a call covers the screen, a message that arrives in the call's own conversation counts as
  unread and the chat button says so, even if that conversation is the one open underneath: the call view's
  effect keeps the chat store told whether the chat is covered, over every run of the two stores.
\<close>

theorem covered_chat_counts_as_unread:
  assumes "view_reach s running ch" "dock_mounted s" "\<not> inCallChat s" "callConvoKey s = Some (key c)"
    and "me env = Some u" "incoming_convo (u_id u) msg = Some c" "unread ch (key c) = n" "0 \<le> nvl n 0"
    and "ch' = on_message_new env msg ch"
  shows "unread ch' (key c) = Some (nvl n 0 + 1) \<and>
    chat_button_badge s ch' = Some (if 9 < nvl n 0 + 1 then ''9+'' else show_int (nvl n 0 + 1))"
proof -
  have "callCovering ch" using view_reach_ok [OF assms(1)] assms(2,3) by (simp add: view_ok_def)
  then have "\<not> is_active c ch" by (simp add: is_active_def)
  then have "unread ch' (key c) = Some (nvl n 0 + 1)"
    using on_message_new_eq [OF assms(5,6), of ch] assms(7,9) by (simp add: unread_count_unread)
  then show ?thesis
    using assms(3,8) by (simp add: chat_button_badge_def chatUnread_at [OF assms(4)] chat_badge_def)
qed

definition ex_call_view :: calls where
  "ex_call_view = call_step ex_cenv (StartDm ex_peer True) init_calls"

lemma ex_call_view_reach:
  "view_reach ex_call_view (toast_effect init_calls ex_call_view False) (cover_effect init_calls ex_call_view init_chats)"
  by (rule view_call [OF view_start _ ex_call_view_def]) (simp add: frame_ok_def)

lemma ex_call_view_simps:
  "status ex_call_view = Outgoing" "peer ex_call_view = Some ex_peer" "\<not> inCallChat ex_call_view"
  "\<not> minimized ex_call_view"
  by (simp_all add: ex_call_view_def call_step_def startDmCall_def calls_eq Let_def init_calls_def)

theorem covered_chat_counts_as_unread_witness:
  "chat_button_badge ex_call_view
     (on_message_new ex_env (ex_msg 3 50 ''hi'') (cover_effect init_calls ex_call_view init_chats)) = Some ''1''"
proof -
  have c: "incoming_convo (u_id ex_user) (ex_msg 3 50 ''hi'') = Some (Dm 9)"
    by (simp add: incoming_convo_def ex_defs)
  have m: "me ex_env = Some ex_user" by (simp add: ex_env_def)
  have n: "unread (cover_effect init_calls ex_call_view init_chats) (key (Dm 9)) = None"
    by (simp add: cover_effect_def Let_def init_fields)
  have one: "show_nat (Suc 0) = ''1''" by code_simp
  have k: "callConvoKey ex_call_view = Some (key (Dm 9))"
    by (simp add: callConvoKey_def ex_call_view_simps ex_peer_def)
  show ?thesis
    using covered_chat_counts_as_unread [OF ex_call_view_reach _ _ k m c n _ refl]
    by (simp add: ex_call_view_simps dock_mounted_iff show_int_def one)
qed

text \<open>With the call's chat opened, and its conversation so opened, nothing counts and no badge is shown.\<close>

lemma open_chat_is_read:
  assumes "view_reach s running ch" "dock_mounted s" "inCallChat s" "active ch = Some c"
    and "me env = Some u" "\<not> hidden env" "incoming_convo (u_id u) msg = Some c"
  shows "\<not> num_truthy (unread (on_message_new env msg ch) (key c)) \<and>
    chat_button_badge s (on_message_new env msg ch) = None"
proof -
  have "is_active c ch" using view_reach_ok [OF assms(1)] assms(2-4) by (simp add: view_ok_def is_active_def)
  then have "on_message_new env msg ch = markRead env c (decryptPending [msg] (set_bucket c (place {} msg (bucket c ch)) ch))"
    using on_message_new_eq(1) [OF assms(5,7), of ch] assms(6) by simp
  then show ?thesis
    using assms(3) by (simp add: unread_markRead num_truthy_def chat_button_badge_def chat_badge_def)
qed

text \<open>
  But returning to the tab during the call marks the covered conversation as read, receipt included: the
  listener on the page's visibility does not ask whether a call covers the chat.
\<close>

lemma returning_reads_the_covered_chat:
  assumes "view_reach s running ch" "dock_mounted s" "\<not> inCallChat s" "active ch = Some c"
    and "me env = Some u" "\<not> hidden env" "ws_up env" "ch' = on_visibility env ch"
  shows "callCovering ch \<and> \<not> num_truthy (unread ch' (key c)) \<and>
    last (out ch') = SendFrame (''message:read'', JObj [(''peer_id'', dm_field c), (''group_id'', group_field c)])"
  using view_reach_ok [OF assms(1)] assms(2-)
  by (auto simp: view_ok_def on_visibility_def unread_markRead num_truthy_def markRead_def ws_send_def emit_def)

text \<open>And the end of the call, which uncovers the conversation, does not mark it as read.\<close>

lemma uncovered_chat_stays_unread:
  assumes "view_reach s running ch" "dock_mounted s" "\<not> dock_mounted s'" "ch' = cover_effect s s' ch"
  shows "\<not> callCovering ch' \<and> unread ch' = unread ch \<and> out ch' = out ch"
  using assms(2-) by (simp add: cover_effect_def Let_def)

section \<open>The controls\<close>

text \<open>
  A presenter who is no longer allowed to present and still shares: the dock's button, labelled as stopping,
  only says that one may not share; the banner's button stops.
\<close>

lemma revoked_presenter_is_refused:
  assumes "sharing s" "\<not> canPresent meID s"
  shows "\<not> share_disabled can_capture meID s" "press_share True meID s =
     s\<lparr>call_toast := Some ''Only the host or an approved presenter can share their screen''\<rparr>"
    "press_stop s = on_engine (room s) RoomStopScreen s"
  using assms by (simp_all add: share_disabled_def press_share_def click_share_def press_stop_def toggleScreen_def)

lemma not_allowed_cannot_start:
  assumes "\<not> sharing s" "\<not> can_capture \<or> \<not> canPresent meID s"
  shows "press_share can_capture meID s = s"
  using assms by (simp add: press_share_def share_disabled_def)

lemma hand_goes_up_and_down:
  assumes "mode s = Sfu" "str_truthy (roomId s)" "c_me env = Some u"
  shows "handRaised u (press_hand env s) = (\<not> handRaised u s)"
  using assms by (simp add: press_hand_def toggleRaiseHand_def handRaised_def calls_eq Let_def)

lemma guests_mute_nobody:
  assumes "find (\<lambda>q. p_user_id q = meID) (participants s) = Some my" "\<not> p_host my"
  shows "press_mute env meID p s = s"
  using assms by (simp add: press_mute_def mute_offered_def)

lemma pip_prefers_a_picture:
  assumes "i < length videos" "videos ! i" "togglePip False videos = RequestPip j"
  shows "j < length videos \<and> videos ! j"
proof -
  have "find (\<lambda>i. videos ! i) [0..<length videos] \<noteq> None" using assms(1,2) by (auto simp: find_None_iff)
  then obtain k where k: "find (\<lambda>i. videos ! i) [0..<length videos] = Some k" by auto
  then have "k < length videos \<and> videos ! k" by (auto simp: find_Some_iff)
  then show ?thesis using assms(3) k by (simp add: togglePip_def)
qed

text \<open>The panel listens for device changes exactly while it is shown, and gives its listener back.\<close>

lemma panel_listens_while_shown:
  assumes "dp_listener (fst w) = None" "\<not> dp_showDevices (fst w)" "cb \<notin> set (deviceListeners (snd w))"
    and "w1 = set_showDevices cb True w"
  shows "cb \<in> set (deviceListeners (snd w1)) \<and>
    deviceListeners (snd (set_showDevices cb2 False w1)) = deviceListeners (snd w) \<and>
    deviceListeners (snd (unmount_panel w1)) = deviceListeners (snd w)"
  using assms
  by (cases w) (simp add: set_showDevices_def refresh_panel_def onDevicesChanged_def offDevicesChanged_def
      unmount_panel_def Let_def)

lemma flip_chooses_a_camera:
  assumes "1 < length (cams (dp_devices p))"
  shows "dp_cam (fst (press_flip (p, s))) \<in> (fst \<circ> snd) ` set (cams (dp_devices p))"
proof -
  have "cams (dp_devices p) \<noteq> []" using assms by auto
  then have "flip_camera (map (fst \<circ> snd) (cams (dp_devices p))) (dp_cam p) \<in> set (map (fst \<circ> snd) (cams (dp_devices p)))"
    by (intro flip_camera_picks_a_camera) simp
  then show ?thesis using assms by (simp add: press_flip_def choose_cam_def Let_def)
qed

text \<open>The small card names a private room like any call without a group; the full view names the room.\<close>

lemma small_card_forgets_the_room:
  assumes "mode s = Sfu" "privateRoom s = Some r" "call_group s = None"
  shows "roomTitle s = Some (pr_name r) \<and> mini_title s = Some ''Group call''"
  using assms by (simp add: roomTitle_def mini_title_def)

end
