(* ===== verification/Attachments.thy ===== *)
theory Attachments
  imports ChatPanelLaws Util
begin

text \<open>
  The preview of the files about to be sent (\<open>components/AttachmentPreview.tsx\<close>) beside the chat panel
  that owns them: the object URLs of its thumbnails, the caption, its buttons and their guards. The browser's
  object URLs are numbered in the order of their creation; \<open>pv_live\<close> lists those not yet revoked.
\<close>

section \<open>The preview\<close>

record preview =
  pv_caption :: string
  pv_files :: "attachment list"
  pv_urls :: "nat option list"
  pv_fresh :: nat
  pv_live :: "nat list"

definition is_image :: "attachment \<Rightarrow> bool" where "is_image f = starts_with (at_type f) ''image/''"
definition is_video :: "attachment \<Rightarrow> bool" where "is_video f = starts_with (at_type f) ''video/''"

definition has_thumbnail :: "attachment \<Rightarrow> bool" where "has_thumbnail f = (is_image f \<or> is_video f)"

text \<open>\<open>useMemo\<close>: one URL per picture or video, in order.\<close>

fun make_urls :: "nat \<Rightarrow> attachment list \<Rightarrow> nat option list" where
  "make_urls n [] = []"
| "make_urls n (f # fs) = (if has_thumbnail f then Some n # make_urls (n + 1) fs else None # make_urls n fs)"

definition url_ids :: "nat option list \<Rightarrow> nat list" where
  "url_ids us = map the (filter (\<lambda>u. u \<noteq> None) us)"

text \<open>
  A render with another list of files: the new URLs are made, then the old effect's cleanup revokes the
  old ones, and the effect on the number of files empties the caption when there are none left.
\<close>

definition preview_render :: "attachment list \<Rightarrow> preview \<Rightarrow> preview" where
  "preview_render fs v =
     (if fs = pv_files v then v
      else
        (let us = make_urls (pv_fresh v) fs in
         v\<lparr>pv_files := fs, pv_urls := us, pv_fresh := pv_fresh v + length (url_ids us),
           pv_live := filter (\<lambda>i. i \<notin> set (url_ids (pv_urls v))) (pv_live v @ url_ids us),
           pv_caption := (if fs = [] then [] else pv_caption v)\<rparr>))"

definition preview_mount :: "attachment list \<Rightarrow> preview" where
  "preview_mount fs = preview_render fs \<lparr>pv_caption = [], pv_files = [], pv_urls = [], pv_fresh = 0, pv_live = []\<rparr>"

definition preview_unmount :: "preview \<Rightarrow> preview" where
  "preview_unmount v = v\<lparr>pv_live := filter (\<lambda>i. i \<notin> set (url_ids (pv_urls v))) (pv_live v)\<rparr>"

text \<open>One tile per file: the picture, the video (with controls if it is the only file), or an icon with name and size.\<close>

datatype preview_icon = MusicIcon | FilmIcon | FileIcon
datatype preview_tile = PictureTile nat | VideoTile nat bool | IconTile preview_icon string string

definition preview_tile :: "bool \<Rightarrow> attachment \<Rightarrow> nat option \<Rightarrow> preview_tile" where
  "preview_tile single f u =
     (case u of
        Some i \<Rightarrow> if is_image f then PictureTile i
                  else if is_video f then VideoTile i single
                  else IconTile (if starts_with (at_type f) ''audio/'' then MusicIcon else FileIcon) (at_name f)
                    (fmtBytes (nat (at_size f)))
      | None \<Rightarrow> IconTile (if starts_with (at_type f) ''audio/'' then MusicIcon else if is_video f then FilmIcon else FileIcon)
          (at_name f) (fmtBytes (nat (at_size f))))"

definition preview_tiles :: "preview \<Rightarrow> preview_tile list" where
  "preview_tiles v = map (\<lambda>q. preview_tile (length (pv_files v) = 1) (fst q) (snd q)) (zip (pv_files v) (pv_urls v))"

definition preview_title :: "attachment list \<Rightarrow> string" where
  "preview_title fs = (if length fs = 1 then ''Send file'' else ''Send '' @ show_nat (length fs) @ '' files'')"

definition preview_total :: "attachment list \<Rightarrow> int" where
  "preview_total fs = foldl (\<lambda>n f. n + at_size f) 0 fs"

definition preview_summary :: "bool \<Rightarrow> attachment list \<Rightarrow> string" where
  "preview_summary encrypted fs = show_nat (length fs) @ (if length fs = 1 then '' file'' else '' files'') @ '' - '' @
     fmtBytes (nat (preview_total fs)) @
     (if encrypted then '' - the caption is end-to-end encrypted, the file itself is stored on your server'' else [])"

text \<open>\<open>Math.round(progress * 100)\<close>.\<close>

definition preview_percent :: "rat \<Rightarrow> int" where
  "preview_percent progress = floor (progress * 100 + 1 / 2)"

section \<open>The preview and the panel\<close>

text \<open>
  The panel's \<open>staged\<close> and \<open>uploading\<close> are the preview's \<open>files\<close> and \<open>sending\<close>. The batches under way
  are the runs of \<open>sendStaged\<close> that have not ended. \<open>Dropped\<close> covers every way files are added: the button,
  the clipboard, and dropping them, for which the dialog is part of the panel's element.
\<close>

record attach =
  aw_panel :: panel
  aw_preview :: preview
  aw_jobs :: "staged_job list"

datatype attach_event =
    PressSendFiles
  | EnterInCaption
  | TypeCaption string
  | RemoveFile nat
  | CancelFiles
  | Dropped "attachment list"
  | UploadEnds nat "string option + int"
  | OtherConversation "convo option"

text \<open>The next state of the panel, and the render of the preview that follows.\<close>

definition shown_after :: "panel \<Rightarrow> attach \<Rightarrow> attach" where
  "shown_after p w = w\<lparr>aw_panel := p, aw_preview := preview_render (staged p) (aw_preview w)\<rparr>"

definition job_running :: "staged_job \<Rightarrow> bool" where
  "job_running j = (sj_i j < length (sj_list j))"

definition start_batch :: "attach \<Rightarrow> attach" where
  "start_batch w =
     (case sendStaged (pv_caption (aw_preview w)) (aw_panel w) of
        (None, p) \<Rightarrow> shown_after p w
      | (Some j, p) \<Rightarrow> (shown_after p w)\<lparr>aw_jobs := aw_jobs w @ [j]\<rparr>)"

definition attach_step :: "attach_event \<Rightarrow> attach \<Rightarrow> attach" where
  "attach_step e w =
     (let p = aw_panel w; sending = uploading p; shown = (staged p \<noteq> []) in
      case e of
        PressSendFiles \<Rightarrow> if sending \<or> \<not> shown then w else start_batch w
      | EnterInCaption \<Rightarrow> if shown \<and> \<not> sending then start_batch w else w
      | TypeCaption t \<Rightarrow> if shown \<and> \<not> sending then w\<lparr>aw_preview := (aw_preview w)\<lparr>pv_caption := t\<rparr>\<rparr> else w
      | RemoveFile i \<Rightarrow> if shown \<and> \<not> sending then shown_after (unstage i p) w else w
      | CancelFiles \<Rightarrow> if shown \<and> \<not> sending then shown_after (p\<lparr>staged := []\<rparr>) w else w
      | Dropped fs \<Rightarrow> shown_after (stageFiles fs p) w
      | UploadEnds k r \<Rightarrow>
          if k < length (aw_jobs w)
          then (let (j, p1) = staged_uploaded r (aw_jobs w ! k) p in
                (shown_after p1 w)\<lparr>aw_jobs := (if job_running j then (aw_jobs w)[k := j]
                   else take k (aw_jobs w) @ drop (k + 1) (aw_jobs w))\<rparr>)
          else w
      | OtherConversation a \<Rightarrow> shown_after (enter_conversation a p) w)"

inductive attach_reach :: "attach \<Rightarrow> bool" where
  attach_start: "staged p = [] \<Longrightarrow> \<not> uploading p \<Longrightarrow>
    attach_reach \<lparr>aw_panel = p, aw_preview = preview_mount [], aw_jobs = []\<rparr>"
| attach_more: "attach_reach w \<Longrightarrow> attach_reach (attach_step e w)"

section \<open>Thumbnails\<close>

lemma length_make_urls: "length (make_urls n fs) = length fs"
  by (induction n fs rule: make_urls.induct) simp_all

lemma make_urls_thumbnails: "list_all2 (\<lambda>f u. (u \<noteq> None) = has_thumbnail f) fs (make_urls n fs)"
  by (induction n fs rule: make_urls.induct) simp_all

lemma url_ids_simps [simp]: "url_ids [] = []" "url_ids (None # us) = url_ids us" "url_ids (Some i # us) = i # url_ids us"
  by (simp_all add: url_ids_def)

lemma url_ids_make: "url_ids (make_urls n fs) = [n..<n + length (url_ids (make_urls n fs))]"
proof (induction n fs rule: make_urls.induct)
  case (2 n f fs)
  then show ?case by (cases "has_thumbnail f") (simp_all add: upt_conv_Cons del: upt_Suc)
qed simp

definition preview_ok :: "preview \<Rightarrow> bool" where
  "preview_ok v \<longleftrightarrow> pv_live v = url_ids (pv_urls v) \<and> (\<forall>i \<in> set (pv_live v). i < pv_fresh v) \<and>
     list_all2 (\<lambda>f u. (u \<noteq> None) = has_thumbnail f) (pv_files v) (pv_urls v)"

lemma preview_ok_render:
  assumes "preview_ok v"
  shows "preview_ok (preview_render fs v)"
proof (cases "fs = pv_files v")
  case False
  let ?us = "make_urls (pv_fresh v) fs"
  have new: "set (url_ids ?us) = {pv_fresh v..<pv_fresh v + length (url_ids ?us)}"
    using url_ids_make [of "pv_fresh v" fs] by (metis set_upt)
  have old: "set (url_ids (pv_urls v)) \<subseteq> {..<pv_fresh v}" using assms by (auto simp: preview_ok_def)
  have "filter (\<lambda>i. i \<notin> set (url_ids (pv_urls v))) (pv_live v) = []"
    using assms by (simp add: preview_ok_def)
  moreover have "filter (\<lambda>i. i \<notin> set (url_ids (pv_urls v))) (url_ids ?us) = url_ids ?us"
    using new old by (intro filter_True) fastforce
  ultimately show ?thesis
    using False new make_urls_thumbnails by (simp add: preview_ok_def preview_render_def Let_def)
qed (simp add: preview_render_def assms)

lemma preview_files_render: "pv_files (preview_render fs v) = fs"
  by (simp add: preview_render_def Let_def)

definition attach_ok :: "attach \<Rightarrow> bool" where
  "attach_ok w \<longleftrightarrow> preview_ok (aw_preview w) \<and> pv_files (aw_preview w) = staged (aw_panel w) \<and>
     uploading (aw_panel w) = (aw_jobs w \<noteq> []) \<and> length (aw_jobs w) \<le> 1 \<and> (\<forall>j \<in> set (aw_jobs w). job_running j)"

lemma attach_ok_shown:
  assumes "attach_ok w" "uploading p = uploading (aw_panel w)"
  shows "attach_ok (shown_after p w)"
  using assms by (simp add: attach_ok_def shown_after_def preview_ok_render preview_files_render)

lemma uploading_quiet [simp]:
  "uploading (stageFiles fs p) = uploading p" "uploading (unstage i p) = uploading p"
  "uploading (enter_conversation a p) = uploading p"
  by (simp_all add: stageFiles_def unstage_def enter_conversation_def Let_def pcall_def)

lemma attach_ok_start:
  assumes "attach_ok w" "\<not> uploading (aw_panel w)"
  shows "attach_ok (start_batch w)"
proof (cases "cp_active (aw_panel w) = None \<or> staged (aw_panel w) = []")
  case True
  then have "sendStaged (pv_caption (aw_preview w)) (aw_panel w) = (None, aw_panel w)"
    by (auto simp: sendStaged_def split: option.split)
  then show ?thesis using attach_ok_shown [OF assms(1)] by (simp add: start_batch_def)
next
  case False
  then obtain c where c: "cp_active (aw_panel w) = Some c" by auto
  obtain j p where jp: "sendStaged (pv_caption (aw_preview w)) (aw_panel w) = (Some j, p)"
    "job_running j" "uploading p"
    using False c by (auto simp: sendStaged_def Let_def job_running_def staged_next_def pcall_def)
  have "aw_jobs w = []" using assms by (simp add: attach_ok_def)
  then show ?thesis
    using jp assms(1) by (simp add: start_batch_def attach_ok_def shown_after_def preview_ok_render preview_files_render)
qed

lemma staged_uploaded_job:
  assumes "staged_uploaded r j p = (j1, p1)" "uploading p"
  shows "uploading p1 = job_running j1"
  using assms
  by (cases r) (auto simp: staged_uploaded_def Let_def job_running_def staged_next_def pcall_def split: if_splits)

lemma attach_ok_ends:
  assumes "attach_ok w" "k < length (aw_jobs w)"
  shows "attach_ok (attach_step (UploadEnds k r) w)"
proof -
  obtain a where one: "aw_jobs w = [a]" "k = 0"
    using assms by (auto simp: attach_ok_def length_Suc_conv le_Suc_eq)
  obtain j1 p1 where u: "staged_uploaded r a (aw_panel w) = (j1, p1)" by (cases "staged_uploaded r a (aw_panel w)")
  have "uploading (aw_panel w)" using assms by (auto simp: attach_ok_def)
  then have "uploading p1 = job_running j1" using staged_uploaded_job [OF u] by simp
  then show ?thesis
    using assms(1) u one by (simp add: attach_step_def Let_def attach_ok_def shown_after_def preview_ok_render preview_files_render)
qed

lemma attach_ok_step:
  assumes "attach_ok w"
  shows "attach_ok (attach_step e w)"
proof (cases e)
  case (UploadEnds k r)
  then show ?thesis using attach_ok_ends [OF assms, of k r] assms by (cases "k < length (aw_jobs w)") (simp_all add: attach_step_def Let_def)
next
  case (TypeCaption t)
  then show ?thesis using assms by (auto simp: attach_step_def Let_def attach_ok_def preview_ok_def)
qed (use assms in \<open>simp_all add: attach_step_def Let_def attach_ok_start attach_ok_shown\<close>)

lemma attach_ok_reach: "attach_reach w \<Longrightarrow> attach_ok w"
proof (induction rule: attach_reach.induct)
  case (attach_start p)
  then show ?case by (simp add: attach_ok_def preview_mount_def preview_render_def preview_ok_def)
qed (rule attach_ok_step)

text \<open>
  The files' thumbnails cost nothing that is not given back, and the files are sent once. In every run
  of the preview and its panel the object URLs not yet revoked are exactly those of the thumbnails on show
  (none without files, and none once the preview is gone), every picture and video has one; and at
  most one batch of uploads is under way, exactly while the panel says it is uploading.
\<close>

theorem attachments_are_released_and_sent_once:
  assumes "attach_reach w"
  shows "pv_live (aw_preview w) = url_ids (pv_urls (aw_preview w)) \<and>
    list_all2 (\<lambda>f u. (u \<noteq> None) = has_thumbnail f) (staged (aw_panel w)) (pv_urls (aw_preview w)) \<and>
    (staged (aw_panel w) = [] \<longrightarrow> pv_live (aw_preview w) = []) \<and> pv_live (preview_unmount (aw_preview w)) = [] \<and>
    length (aw_jobs w) \<le> 1 \<and> uploading (aw_panel w) = (aw_jobs w \<noteq> [])"
proof -
  from attach_ok_reach [OF assms] have ok: "preview_ok (aw_preview w)" "pv_files (aw_preview w) = staged (aw_panel w)"
    "length (aw_jobs w) \<le> 1" "uploading (aw_panel w) = (aw_jobs w \<noteq> [])" by (simp_all add: attach_ok_def)
  then show ?thesis by (auto simp: preview_ok_def preview_unmount_def)
qed

definition ex_files :: "attachment list" where
  "ex_files = [\<lparr>at_name = ''a.png'', at_size = 10, at_type = ''image/png''\<rparr>,
     \<lparr>at_name = ''b.txt'', at_size = 5, at_type = ''text/plain''\<rparr>]"

definition ex_attach :: attach where
  "ex_attach = attach_step PressSendFiles (attach_step (Dropped ex_files) (attach_step (OtherConversation (Some (Dm 2)))
     \<lparr>aw_panel = ex_panel, aw_preview = preview_mount [], aw_jobs = []\<rparr>))"

theorem attachments_are_released_and_sent_once_witness:
  "pv_live (aw_preview ex_attach) = [0] \<and> length (aw_jobs ex_attach) = 1 \<and> pv_live (preview_unmount (aw_preview ex_attach)) = []"
proof -
  have r: "attach_reach ex_attach"
    unfolding ex_attach_def by (intro attach_more attach_start) (simp_all add: ex_panel_def)
  have u: "pv_urls (aw_preview ex_attach) = [Some 0, None]" "uploading (aw_panel ex_attach)" by code_simp+
  show ?thesis
    using attachments_are_released_and_sent_once [OF r] u by (cases "aw_jobs ex_attach") auto
qed

text \<open>
  Files that are added while a batch is sent are lost: the batch sends the list it began with, and its
  end empties the list of the panel.
\<close>

lemma files_added_while_sending_are_lost:
  assumes "sj_i j + 1 = length (sj_list j)" "fs \<noteq> []" "q = snd (staged_uploaded (Inr f) j (stageFiles fs p))"
  shows "set fs \<subseteq> set (staged (stageFiles fs p)) \<and> staged q = [] \<and>
    (\<forall>a. UploadFile a \<in> set (calls q) \<longrightarrow> UploadFile a \<in> set (calls p))"
  using assms by (auto simp: staged_uploaded_def Let_def staged_next_def pcall_def stageFiles_def)

lemma percent_bounds:
  assumes "0 \<le> f" "f \<le> 1" "sj_i j < length (sj_list j)" "sendProgress (staged_progress j f p) = Some r"
  shows "0 \<le> preview_percent r \<and> preview_percent r \<le> 100"
proof -
  have r: "r = (of_nat (sj_i j) + f) / of_nat (length (sj_list j))" using assms(4) by (simp add: staged_progress_def)
  have "of_nat (sj_i j) + (1 :: rat) \<le> of_nat (length (sj_list j))"
    using assms(3) by (metis Suc_leI of_nat_Suc of_nat_le_iff add.commute)
  then have "of_nat (sj_i j) + f \<le> of_nat (length (sj_list j))" using assms(2) by linarith
  moreover have "(0 :: rat) < of_nat (length (sj_list j))" using assms(3) by (cases "sj_list j") simp_all
  ultimately have "0 \<le> r" "r \<le> 1" using assms(1) by (simp_all add: r divide_le_eq)
  then show ?thesis by (simp add: preview_percent_def floor_le_iff le_floor_iff)
qed

lemma every_file_has_a_tile:
  "length (preview_tiles (preview_mount fs)) = length fs"
  by (simp add: preview_tiles_def preview_mount_def preview_render_def Let_def length_make_urls)

end
