(* ===== verification/MessageRows.thy ===== *)
theory MessageRows
  imports ChatLaws ChatPanelLaws Util
begin

text \<open>
  The list of messages of the chat panel (\<open>components/ChatPanel.tsx\<close>, from the header to the composer): what is
  shown of each message, the actions offered on it and what they do, the pinned messages, the line above the
  composer while replying, and the viewer for pictures. A row is the data the component turns into elements;
  what it says about a message can be read off it.
\<close>

section \<open>One message\<close>

datatype bubble_text = NoText | EncryptedText encrypted_view | PlainText "segment list"

text \<open>The line below the text: the failure with its retry button, or \<open>edited\<close>, the time and the ticks.\<close>

datatype bubble_foot = FailedFoot | SentFoot bool string "ticks option"

datatype bubble = DeletedBubble | EditBubble string | MessageBubble "(file_view \<times> file_brief) list" bubble_text bubble_foot

text \<open>What the panel knows beside the message: who looks, in which kind of conversation, and the stores' answers.\<close>

record row_env =
  re_me :: user
  re_isDM :: bool
  re_members :: "group_member list option"
  re_known :: "string set"
  re_decrypted :: "int \<Rightarrow> string option option"
  re_saved :: "int set"
  re_fmtDay :: "iso \<Rightarrow> string"
  re_fmtTime :: "iso \<Rightarrow> string"

abbreviation re_meID :: "row_env \<Rightarrow> int" where "re_meID env \<equiv> u_id (re_me env)"

definition bubble_text_of :: "row_env \<Rightarrow> message \<Rightarrow> bubble_text" where
  "bubble_text_of env m =
     (if is_encrypted m then EncryptedText (EncryptedContent (re_decrypted env (mid m)) (re_known env) (u_username (re_me env)))
      else if content m \<noteq> [] then PlainText (FormattedContent (content m) (re_known env) (u_username (re_me env)))
      else NoText)"

definition bubble_foot_of :: "row_env \<Rightarrow> message \<Rightarrow> bubble_foot" where
  "bubble_foot_of env m =
     (if failed m then FailedFoot
      else SentFoot (iso_truthy (edited_at m)) (re_fmtTime env (sent_at m))
        (if sender_id m = re_meID env \<and> 0 < mid m then Some (Ticks m) else None))"

definition bubble_of :: "row_env \<Rightarrow> panel \<Rightarrow> message \<Rightarrow> bubble" where
  "bubble_of env p m =
     (if iso_truthy (deleted_at m) then DeletedBubble
      else if editingID p = Some (mid m) then EditBubble (editDraft p)
      else MessageBubble (case mfile m of None \<Rightarrow> [] | Some f \<Rightarrow> map (\<lambda>v. (v, f)) (file_views f))
        (bubble_text_of env m) (bubble_foot_of env m))"

text \<open>A row: the day above it, the side, the name, the line it replies to, the bubble, reactions and actions.\<close>

record message_row =
  mr_day :: "string option"
  mr_mine :: bool
  mr_faded :: bool
  mr_swipe :: bool
  mr_name :: "string option"
  mr_reply :: "(string \<times> reply_text) option"
  mr_bubble :: bubble
  mr_pills :: "(string \<times> nat \<times> bool) list"
  mr_offered :: "message_action list"
  mr_picker :: bool
  mr_saved_mark :: bool

definition message_row_of :: "row_env \<Rightarrow> panel \<Rightarrow> string option \<times> message \<Rightarrow> message_row" where
  "message_row_of env p dm =
     (let m = snd dm; gone = iso_truthy (deleted_at m); mine = (sender_id m = re_meID env);
          acts = message_actions (re_meID env) (u_role (re_me env) = RoleAdmin) (re_members env) m
      in \<lparr>mr_day = fst dm, mr_mine = mine, mr_faded = pending m, mr_swipe = canActOn m,
          mr_name = (if \<not> mine \<and> \<not> re_isDM env \<and> \<not> gone then map_option ub_display_name (sender m) else None),
          mr_reply = (if gone then None else map_option reply_line (reply_to m)),
          mr_bubble = bubble_of env p m,
          mr_pills = (if gone then [] else ReactionPills (nvl (reactions m) []) (re_meID env)),
          mr_offered = acts,
          mr_picker = (acts \<noteq> [] \<and> reactionPickerFor p = Some (mid m)),
          mr_saved_mark = (acts \<noteq> [] \<and> mid m \<in> re_saved env)\<rparr>)"

definition message_rows :: "row_env \<Rightarrow> panel \<Rightarrow> message list \<Rightarrow> message_row list" where
  "message_rows env p ms = map (message_row_of env p) (day_lines (re_fmtDay env) [] ms)"

text \<open>A file that is neither picture, video nor sound: its name, its size and its extension in capitals.\<close>

definition last_piece :: "string \<Rightarrow> string" where
  "last_piece name = rev (takeWhile (\<lambda>c. c \<noteq> CHR ''.'') (rev name))"

definition download_line :: "(string \<Rightarrow> string) \<Rightarrow> int \<Rightarrow> string \<Rightarrow> string \<times> string" where
  "download_line toUpper bytes name = (name, fmtBytes (nat bytes) @ '' - '' @ toUpper (last_piece name))"

section \<open>What the actions do\<close>

text \<open>The calls to the chat store that do not go through the panel.\<close>

datatype store_call = CallPin message bool | CallSave message | CallRetry message

definition take_action :: "message \<Rightarrow> message_action \<Rightarrow> panel \<Rightarrow> panel \<times> store_call list" where
  "take_action m a p =
     (case a of
        ActReact \<Rightarrow> (toggle_reaction_picker m p, [])
      | ActReply \<Rightarrow> (reply_to_message m p, [])
      | ActEdit \<Rightarrow> (startEdit m p, [])
      | ActSave \<Rightarrow> (p, [CallSave m])
      | ActForward \<Rightarrow> (p\<lparr>forwardingMsg := Some m\<rparr>, [])
      | ActPin \<Rightarrow> (p, [CallPin m (\<not> iso_truthy (pinned_at m))])
      | ActDelete \<Rightarrow> (p\<lparr>deleteMsgConfirm := Some m\<rparr>, []))"

text \<open>An action is taken if it is offered; the retry button is part of the foot of a failed message.\<close>

definition press_action :: "row_env \<Rightarrow> message \<Rightarrow> message_action \<Rightarrow> panel \<Rightarrow> panel \<times> store_call list" where
  "press_action env m a p =
     (if a \<in> set (message_actions (re_meID env) (u_role (re_me env) = RoleAdmin) (re_members env) m)
      then take_action m a p else (p, []))"

definition press_retry :: "row_env \<Rightarrow> message \<Rightarrow> panel \<Rightarrow> store_call list" where
  "press_retry env m p = (case bubble_of env p m of
     MessageBubble fs t FailedFoot \<Rightarrow> [CallRetry m] | _ \<Rightarrow> [])"

text \<open>The keys of the field in which a message is edited.\<close>

definition edit_key :: "string \<Rightarrow> bool \<Rightarrow> message \<Rightarrow> panel \<Rightarrow> panel" where
  "edit_key k shiftKey m p =
     (if k = ''Enter'' \<and> \<not> shiftKey then saveEdit m p
      else if k = ''Escape'' then p\<lparr>editingID := None\<rparr> else p)"

section \<open>Around the list\<close>

text \<open>The button for older messages, with the stores' \<open>hasMore\<close> and \<open>historyLoading\<close>.\<close>

definition press_older :: "(string \<Rightarrow> bool option) \<Rightarrow> (string \<Rightarrow> bool option) \<Rightarrow> message list \<Rightarrow> panel \<Rightarrow> panel" where
  "press_older has_more loading ms p =
     (let k = conversationKey (cp_active p) in
      if cp_active p = None \<or> has_more k \<noteq> Some True \<or> loading k = Some True then p
      else loadOlder (case ms of [] \<Rightarrow> None | m # ms' \<Rightarrow> Some (mid m)) p)"

text \<open>The pinned messages: the heading, and per message the name, the clip, the text and whether it can be unpinned.\<close>

definition pinned_heading :: "message list \<Rightarrow> string option" where
  "pinned_heading ps = (if ps = [] then None
     else Some (show_nat (length ps) @ '' pinned message'' @ (if length ps = 1 then [] else ''s'')))"

definition brief_text :: "message \<Rightarrow> bool \<times> string" where
  "brief_text m = (content m = [] \<and> mfile m \<noteq> None,
     if content m \<noteq> [] then content m else case mfile m of None \<Rightarrow> [] | Some f \<Rightarrow> fb_name f)"

definition pinned_line :: "row_env \<Rightarrow> message \<Rightarrow> string \<times> (bool \<times> string) \<times> bool" where
  "pinned_line env m = (case sender m of None \<Rightarrow> ''Someone'' | Some u \<Rightarrow> ub_display_name u, brief_text m,
     canPin m (re_meID env) (u_role (re_me env) = RoleAdmin) (re_members env))"

definition toggle_pinned :: "panel \<Rightarrow> panel" where
  "toggle_pinned p = p\<lparr>showPinned := \<not> showPinned p\<rparr>"

definition press_unpin :: "row_env \<Rightarrow> message \<Rightarrow> store_call list" where
  "press_unpin env m = (if canPin m (re_meID env) (u_role (re_me env) = RoleAdmin) (re_members env) then [CallPin m False] else [])"

text \<open>The line above the composer, its button, and the composer's own button, placeholder and file button.\<close>

definition reply_bar :: "int \<Rightarrow> panel \<Rightarrow> (string \<times> bool \<times> string) option" where
  "reply_bar meID p = map_option (\<lambda>m. (''Replying to '' @
     (if sender_id m = meID then ''yourself'' else case sender m of None \<Rightarrow> ''message'' | Some u \<Rightarrow> ub_display_name u),
     brief_text m)) (replyTo p)"

definition cancel_reply :: "panel \<Rightarrow> panel" where
  "cancel_reply p = p\<lparr>replyTo := None\<rparr>"

definition press_send :: "panel \<Rightarrow> panel" where
  "press_send p = (if js_trim (cp_text p) = [] then p else send p)"

definition composer_hint :: "bool \<Rightarrow> string" where
  "composer_hint encrypted = (if encrypted then ''Encrypted message... (Enter to send)'' else ''Type a message... (Enter to send)'')"

definition pick_files :: "attachment list \<Rightarrow> panel \<Rightarrow> panel" where
  "pick_files fs p = (if uploading p then p else stageFiles fs p)"

section \<open>The picture viewer\<close>

definition open_picture :: "message \<Rightarrow> (int \<times> string) option \<Rightarrow> (int \<times> string) option" where
  "open_picture m lightbox = (case mfile m of
     Some f \<Rightarrow> if ShowImage \<in> set (file_views f) then Some (fb_id f, fb_name f) else lightbox | None \<Rightarrow> lightbox)"

definition lightbox_key :: "string \<Rightarrow> (int \<times> string) option \<Rightarrow> (int \<times> string) option" where
  "lightbox_key k lightbox = (if k = ''Escape'' then None else lightbox)"

section \<open>Properties\<close>

lemma row_of_deleted:
  assumes "iso_truthy (deleted_at m)"
  shows "message_row_of env p (d, m) =
    message_row_of env p (d, m\<lparr>content := t, mfile := f, reply_to := r, reactions := rs, sender := b, is_encrypted := e\<rparr>)"
  using assms by (simp add: message_row_of_def Let_def bubble_of_def message_actions_def canActOn_def)

lemma row_of_encrypted:
  assumes "is_encrypted m"
  shows "message_row_of env p (d, m) = message_row_of env p (d, m\<lparr>content := t\<rparr>)"
proof -
  have "bubble_of env p m = bubble_of env p (m\<lparr>content := t\<rparr>)"
    using assms by (simp add: bubble_of_def bubble_text_of_def bubble_foot_of_def Ticks_def)
  moreover have "canPin (m\<lparr>content := t\<rparr>) i a ms = canPin m i a ms" for i a ms
    by (cases ms) (simp_all add: canPin_def)
  then have "message_actions i a ms m = message_actions i a ms (m\<lparr>content := t\<rparr>)" for i a ms
    using assms by (simp add: message_actions_def canActOn_def)
  ultimately show ?thesis by (simp add: message_row_of_def Let_def canActOn_def)
qed

text \<open>
  The list discloses no more than it may. A deleted message is shown as deleted and nothing else: its row is
  the same whatever its text, its file, the message it replied to and its reactions were. An
  encrypted message is shown by what was decrypted: its row is the same whatever its stored text (the
  ciphertext) is.
\<close>

theorem rows_disclose_no_more_than_they_may:
  "(iso_truthy (deleted_at m) \<longrightarrow> message_row_of env p (d, m) =
      message_row_of env p (d, m\<lparr>content := t, mfile := f, reply_to := r, reactions := rs, sender := b, is_encrypted := e\<rparr>)) \<and>
   (is_encrypted m \<longrightarrow> message_row_of env p (d, m) = message_row_of env p (d, m\<lparr>content := t\<rparr>))"
  by (simp add: row_of_deleted row_of_encrypted)

definition ex_row_env :: row_env where
  "ex_row_env = \<lparr>re_me = ex_user, re_isDM = True, re_members = None, re_known = {}, re_decrypted = (\<lambda>_. Some (Some ''hi'')),
     re_saved = {}, re_fmtDay = (\<lambda>_. ''Today''), re_fmtTime = (\<lambda>_. ''10:00'')\<rparr>"

theorem rows_disclose_no_more_than_they_may_witness:
  "message_row_of ex_row_env ex_panel (None, (ex_msg 3 50 ''a'')\<lparr>is_encrypted := True\<rparr>) =
     message_row_of ex_row_env ex_panel (None, (ex_msg 3 50 ''b'')\<lparr>is_encrypted := True\<rparr>)"
  using rows_disclose_no_more_than_they_may [where m = "(ex_msg 3 50 ''a'')\<lparr>is_encrypted := True\<rparr>" and t = "''b''"
      and env = ex_row_env and p = ex_panel and d = None]
  by (simp add: ex_msg_def)

text \<open>The pinned messages and the reply bar do not: their text is the stored one, the ciphertext included.\<close>

lemma pinned_and_reply_lines_show_the_stored_text:
  assumes "content m \<noteq> []"
  shows "fst (snd (pinned_line env m)) = (False, content m)"
    "reply_bar meID (reply_to_message m p) = Some (''Replying to '' @
       (if sender_id m = meID then ''yourself'' else case sender m of None \<Rightarrow> ''message'' | Some u \<Rightarrow> ub_display_name u), False, content m)"
  using assms by (simp_all add: pinned_line_def brief_text_def reply_bar_def reply_to_message_def)

text \<open>Every message has its row, in the list's order.\<close>

lemma day_lines_messages: "map snd (day_lines fmt d ms) = ms"
  by (induction fmt d ms rule: day_lines.induct) simp_all

lemma every_message_has_its_row: "length (message_rows env p ms) = length ms"
  using arg_cong [OF day_lines_messages, of length] by (simp add: message_rows_def)

text \<open>
  Each day is announced once. Messages of one day are shown together, as they are in a list in the order of time;
  then no two rows carry the same day, and the row of a message with another day than the one before carries its own.
\<close>

definition days_together :: "string list \<Rightarrow> bool" where
  "days_together ds = (\<forall>i j k. i \<le> j \<and> j \<le> k \<and> k < length ds \<and> ds ! i = ds ! k \<longrightarrow> ds ! j = ds ! i)"

definition headings :: "(string option \<times> message) list \<Rightarrow> string list" where
  "headings ls = map the (filter (\<lambda>d. d \<noteq> None) (map fst ls))"

lemma headings_simps [simp]:
  "headings [] = []" "headings ((None, m) # ls) = headings ls" "headings ((Some d, m) # ls) = d # headings ls"
  by (simp_all add: headings_def)

lemma days_together_tl: "days_together (d # ds) \<Longrightarrow> days_together ds"
proof (unfold days_together_def, intro allI impI)
  fix i j k
  assume a: "\<forall>i j k. i \<le> j \<and> j \<le> k \<and> k < length (d # ds) \<and> (d # ds) ! i = (d # ds) ! k \<longrightarrow> (d # ds) ! j = (d # ds) ! i"
    and b: "i \<le> j \<and> j \<le> k \<and> k < length ds \<and> ds ! i = ds ! k"
  from a [rule_format, of "Suc i" "Suc j" "Suc k"] b show "ds ! j = ds ! i" by simp
qed

lemma days_together_left:
  assumes "days_together (d # e # ds)" "d \<noteq> e"
  shows "d \<notin> set (e # ds)"
proof
  assume "d \<in> set (e # ds)"
  then obtain k where "k < length (e # ds)" "(e # ds) ! k = d" by (metis in_set_conv_nth)
  then have "(d # e # ds) ! Suc 0 = (d # e # ds) ! 0"
    using assms(1) [unfolded days_together_def, rule_format, of 0 "Suc 0" "Suc k"] by simp
  with assms(2) show False by simp
qed

lemma headings_days: "set (headings (day_lines fmt d ms)) \<subseteq> set (map (\<lambda>m. fmt (sent_at m)) ms)"
  by (induction fmt d ms rule: day_lines.induct) auto

lemma headings_distinct:
  "days_together (d # map (\<lambda>m. fmt (sent_at m)) ms) \<Longrightarrow>
     distinct (headings (day_lines fmt d ms)) \<and> d \<notin> set (headings (day_lines fmt d ms))"
proof (induction fmt d ms rule: day_lines.induct)
  case (2 fmt d m ms)
  let ?e = "fmt (sent_at m)"
  have IH: "distinct (headings (day_lines fmt ?e ms)) \<and> ?e \<notin> set (headings (day_lines fmt ?e ms))"
    using "2.IH" days_together_tl "2.prems" by simp
  show ?case
  proof (cases "?e = d")
    case False
    then have "d \<notin> set (?e # map (\<lambda>m. fmt (sent_at m)) ms)" using days_together_left "2.prems" by fastforce
    then show ?thesis using IH False headings_days [of fmt ?e ms] by auto
  qed (use IH in simp)
qed simp

lemma row_days: "map mr_day (message_rows env p ms) = map fst (day_lines (re_fmtDay env) [] ms)"
  by (simp add: message_rows_def message_row_of_def Let_def)

lemma each_day_is_announced_once:
  assumes "days_together (map (\<lambda>m. re_fmtDay env (sent_at m)) ms)" "\<And>m. m \<in> set ms \<Longrightarrow> re_fmtDay env (sent_at m) \<noteq> []"
  shows "distinct (map the (filter (\<lambda>d. d \<noteq> None) (map mr_day (message_rows env p ms))))"
proof (cases ms)
  case (Cons m ms')
  let ?d = "re_fmtDay env (sent_at m)"
  have "distinct (headings (day_lines (re_fmtDay env) ?d ms')) \<and> ?d \<notin> set (headings (day_lines (re_fmtDay env) ?d ms'))"
    using headings_distinct assms(1) Cons by simp
  moreover have "?d \<noteq> []" using assms(2) Cons by simp
  ultimately have "distinct (headings (day_lines (re_fmtDay env) [] (m # ms')))" by simp
  then show ?thesis unfolding row_days headings_def Cons .
qed (simp add: message_rows_def)

text \<open>What has not reached the server offers nothing but a second try, and only after it failed.\<close>

lemma unsent_messages_offer_retry_only:
  assumes "mid m \<le> 0"
  shows "press_action env m a p = (p, [])" "\<not> mr_swipe (message_row_of env p (d, m))"
    "press_retry env m p \<noteq> [] \<Longrightarrow> failed m \<and> press_retry env m p = [CallRetry m]"
  using assms by (auto simp: press_action_def message_actions_def canActOn_def message_row_of_def Let_def press_retry_def
      bubble_of_def bubble_foot_of_def split: bubble.splits bubble_foot.splits if_splits)

lemma others_cannot_edit_or_delete:
  assumes "sender_id m \<noteq> re_meID env"
  shows "press_action env m ActEdit p = (p, [])" "press_action env m ActDelete p = (p, [])"
  using assms by (simp_all add: press_action_def message_actions_def)

text \<open>Editing starts from the message's text, and leaving it as it was sends nothing.\<close>

lemma unchanged_edit_is_not_sent:
  assumes "content m = js_trim (content m)"
  shows "calls (edit_key ''Enter'' False m (startEdit m p)) = calls p"
    "editingID (edit_key ''Enter'' False m (startEdit m p)) = None"
  using assms by (simp_all add: edit_key_def startEdit_def saveEdit_def Let_def)

lemma older_messages_are_asked_for_once:
  "loading (conversationKey (cp_active p)) = Some True \<Longrightarrow> press_older has_more loading ms p = p"
  by (simp add: press_older_def Let_def)

end
