(* ===== verification/AppRoot.thy ===== *)
theory AppRoot
  imports WsClient
begin

text \<open>
  The effects of the application's root (\<open>App.tsx\<close>): what is started when somebody is signed in, what the
  root listens to on the socket, and what is taken back when the account changes or leaves. Handlers are
  named by the order in which closures are made, whoever makes them; what ends a session beyond that
  (the stores, the storage) is in \<open>Session\<close>.
\<close>

section \<open>State\<close>

text \<open>What the root calls: the stores, the engine of the keys, the call, the browser.\<close>

datatype root_call =
    RootFetchUsers
  | RootRegisterChats
  | RootFetchGroups
  | RootFetchRecent
  | RootRegisterCalls
  | RootFetchHistory
  | RootRegisterDevice int
  | RootApplyPresence json
  | RootSyncPresence json
  | RootAskAccount
  | RootHangup
  | RootClearData
  | RootReload string

record root =
  ro_ws :: ws_client
  ro_next :: nat
  ro_mine :: "nat set"
  ro_live :: "(int \<times> (string \<times> nat) list) option"
  ro_unauthorized :: bool
  ro_signedOut :: bool
  ro_calls :: "root_call list"

definition root_note :: "root_call list \<Rightarrow> root \<Rightarrow> root" where
  "root_note cs r = r\<lparr>ro_calls := ro_calls r @ cs\<rparr>"

definition init_root :: root where
  "init_root = \<lparr>ro_ws = init_ws, ro_next = 0, ro_mine = {}, ro_live = None, ro_unauthorized = False,
     ro_signedOut = False, ro_calls = []\<rparr>"

section \<open>Being signed in\<close>

text \<open>The frames the root listens to, in the order of its calls of \<open>ws.on\<close>.\<close>

definition root_frames :: "string list" where
  "root_frames = [''force:logout'', ''ws:open'', ''presence:update'', ''presence:sync'', ''directory:changed'', ''account:updated'']"

text \<open>
  The effect: the first listener, the handler for answers that say the session is over, the fetches, the
  connection, the other listeners. The flag \<open>signedOut\<close> is the effect's own.
\<close>

definition root_effect :: "string \<Rightarrow> int \<Rightarrow> root \<Rightarrow> root" where
  "root_effect url meID r =
     (let n = ro_next r;
          hs = zip root_frames [n..<n + 6];
          c1 = on (fst (hd hs)) (snd (hd hs)) (ro_ws r);
          c2 = connect url c1;
          c3 = fold (\<lambda>p. on (fst p) (snd p)) (tl hs) c2
      in root_note [RootFetchUsers, RootRegisterChats, RootFetchGroups, RootFetchRecent, RootRegisterCalls,
           RootFetchHistory, RootRegisterDevice meID]
         (r\<lparr>ro_ws := c3, ro_next := n + 6, ro_mine := ro_mine r \<union> set (map snd hs), ro_live := Some (meID, hs),
            ro_unauthorized := True, ro_signedOut := False\<rparr>))"

text \<open>Its cleanup; \<open>present\<close> says whether the auth store has an account then.\<close>

definition root_cleanup :: "bool \<Rightarrow> root \<Rightarrow> root" where
  "root_cleanup present r =
     (case ro_live r of
        None \<Rightarrow> r
      | Some (i, hs) \<Rightarrow>
          (let c = fold (\<lambda>p. off (fst p) (snd p)) hs (ro_ws r);
               r1 = r\<lparr>ro_ws := c, ro_unauthorized := False, ro_live := None\<rparr>;
               r2 = (if present then r1 else root_note [RootHangup] r1)
           in r2\<lparr>ro_ws := disconnect (ro_ws r2)\<rparr>))"

text \<open>The account in the auth store changed: the effect depends on its id.\<close>

definition account_changed :: "string \<Rightarrow> int option \<Rightarrow> root \<Rightarrow> root" where
  "account_changed url a r =
     (if map_option fst (ro_live r) = a then r
      else (let r1 = root_cleanup (a \<noteq> None) r in case a of None \<Rightarrow> r1 | Some i \<Rightarrow> root_effect url i r1))"

section \<open>What the listeners do\<close>

definition force_sign_out :: "string \<Rightarrow> root \<Rightarrow> root" where
  "force_sign_out reason r =
     (if ro_signedOut r then r
      else root_note [RootHangup, RootClearData, RootReload reason]
        (r\<lparr>ro_signedOut := True, ro_ws := disconnect (ro_ws r)\<rparr>))"

definition root_handler :: "string \<Rightarrow> (json \<Rightarrow> string) \<Rightarrow> json \<Rightarrow> root \<Rightarrow> root" where
  "root_handler ty reason d r =
     (if ty = ''force:logout'' then force_sign_out (reason d) r
      else if ty = ''ws:open'' then root_note [RootFetchUsers, RootFetchGroups, RootFetchRecent, RootFetchHistory] r
      else if ty = ''presence:update'' then root_note [RootApplyPresence d] r
      else if ty = ''presence:sync'' then root_note [RootSyncPresence d] r
      else if ty = ''directory:changed'' then root_note [RootFetchUsers] r
      else if ty = ''account:updated'' then root_note [RootAskAccount] r
      else r)"

text \<open>An answer 401 anywhere (\<open>setUnauthorizedHandler\<close>).\<close>

definition unauthorized :: "root \<Rightarrow> root" where
  "unauthorized r = (if ro_unauthorized r then force_sign_out ''Your session expired. Please sign in again.'' r else r)"

text \<open>A frame reaches the root through the listeners of the effect that is live.\<close>

definition root_receives :: "string \<Rightarrow> (json \<Rightarrow> string) \<Rightarrow> json \<Rightarrow> root \<Rightarrow> root" where
  "root_receives ty reason d r =
     (case ro_live r of
        None \<Rightarrow> r
      | Some (i, hs) \<Rightarrow>
          fold (\<lambda>h. if (ty, h) \<in> set hs then root_handler ty reason d else (\<lambda>x. x))
            (nvl (jm_get (handlers (ro_ws r)) ty) []) r)"

section \<open>The first effect\<close>

text \<open>
  It reads the theme from local storage, outside a \<open>try\<close>: with storage that throws, the effect throws and the
  account is never asked for. The result: whether the page is dark and whether \<open>init\<close> is called.
\<close>

definition app_boot :: "storage \<Rightarrow> (bool \<times> bool) option" where
  "app_boot st = (case getItem st ''vc.theme'' of None \<Rightarrow> None | Some t \<Rightarrow> Some (t \<noteq> Some ''light'', True))"

section \<open>The runs\<close>

text \<open>Whether an event of the socket is not a subscription (those are steps of their own).\<close>

fun no_subscription :: "ws_event \<Rightarrow> bool" where
  "no_subscription (On ty h) = False"
| "no_subscription (Off ty h) = False"
| "no_subscription (SockClose evs i) = (\<forall>e \<in> set evs. no_subscription e)"
| "no_subscription ev = True"

datatype root_event =
    Account "int option" string
  | FrameArrives string json
  | Answer401
  | SocketStep ws_event
  | OtherListens string
  | OtherStops string nat

text \<open>Other parts listen with closures of their own, and stop only those.\<close>

definition root_step :: "(json \<Rightarrow> string) \<Rightarrow> root_event \<Rightarrow> root \<Rightarrow> root" where
  "root_step reason e r =
     (case e of
        Account a url \<Rightarrow> account_changed url a r
      | FrameArrives ty d \<Rightarrow> root_receives ty reason d r
      | Answer401 \<Rightarrow> unauthorized r
      | SocketStep ev \<Rightarrow> if no_subscription ev then r\<lparr>ro_ws := ws_step ev (ro_ws r)\<rparr> else r
      | OtherListens ty \<Rightarrow> r\<lparr>ro_ws := on ty (ro_next r) (ro_ws r), ro_next := ro_next r + 1\<rparr>
      | OtherStops ty h \<Rightarrow> if h \<in> ro_mine r then r else r\<lparr>ro_ws := off ty h (ro_ws r)\<rparr>)"

inductive root_reach :: "(json \<Rightarrow> string) \<Rightarrow> root \<Rightarrow> bool" for reason where
  root_start: "root_reach reason init_root"
| root_more: "root_reach reason r \<Longrightarrow> root_reach reason (root_step reason e r)"

section \<open>Listeners\<close>

definition listeners :: "ws_client \<Rightarrow> string \<Rightarrow> nat list" where
  "listeners c ty = nvl (jm_get (handlers c) ty) []"

lemma listeners_on: "listeners (on ty h c) t =
    (if t = ty \<and> h \<notin> set (listeners c ty) then listeners c ty @ [h] else listeners c t)"
  by (auto simp: listeners_def on_def Let_def jm_get_set)

lemma listeners_off: "listeners (off ty h c) t = (if t = ty then filter (\<lambda>x. x \<noteq> h) (listeners c t) else listeners c t)"
  by (auto simp: listeners_def off_def jm_get_set split: option.split)

lemma handlers_quiet [simp]:
  "handlers (connect url c) = handlers c" "handlers (disconnect c) = handlers c" "handlers (note_ws e c) = handlers c"
  "handlers (close_socket i c) = handlers c" "handlers (fst (send ty jo c)) = handlers c" "handlers (emit_ws ty d c) = handlers c"
  "handlers (scheduleReconnect c) = handlers c"
  by (simp_all add: connect_def disconnect_def note_ws_def close_socket_def send_def emit_ws_eq scheduleReconnect_def
      Let_def split: option.split)

lemma handlers_call: "no_subscription ev \<Longrightarrow> handlers (ws_call ev c) = handlers c"
  by (cases ev) (simp_all add: ws_call_def)

lemma handlers_calls: "\<forall>e \<in> set evs. no_subscription e \<Longrightarrow> handlers (fold ws_call evs c) = handlers c"
  by (induction evs arbitrary: c) (simp_all add: handlers_call)

lemma handlers_step: "no_subscription ev \<Longrightarrow> handlers (ws_step ev c) = handlers c"
  by (cases ev) (simp_all add: ws_step_def handlers_call timer_fires_def onopen_def onmessage_def onclose_def onerror_def
      handlers_calls Let_def split: ws_message.split)

lemma listeners_quiet [simp]:
  "listeners (connect url c) = listeners c" "listeners (disconnect c) = listeners c"
  "no_subscription ev \<Longrightarrow> listeners (ws_step ev c) = listeners c"
  by (simp_all add: listeners_def fun_eq_iff handlers_step)

lemma set_listeners_on_all:
  "set (listeners (fold (\<lambda>p. on (fst p) (snd p)) hs c) t) = set (listeners c t) \<union> {h. (t, h) \<in> set hs}"
  by (induction hs arbitrary: c) (auto simp: listeners_on)

lemma set_listeners_off_all:
  "set (listeners (fold (\<lambda>p. off (fst p) (snd p)) hs c) t) = set (listeners c t) - {h. (t, h) \<in> set hs}"
  by (induction hs arbitrary: c) (auto simp: listeners_off)

lemma distinct_on: "distinct (listeners c t) \<Longrightarrow> distinct (listeners (on ty h c) t)"
  by (auto simp: listeners_on)

lemma distinct_on_all: "distinct (listeners c t) \<Longrightarrow> distinct (listeners (fold (\<lambda>p. on (fst p) (snd p)) hs c) t)"
  by (induction hs arbitrary: c) (simp_all add: distinct_on)

lemma distinct_off: "distinct (listeners c t) \<Longrightarrow> distinct (listeners (off ty h c) t)"
  by (auto simp: listeners_off)

lemma distinct_off_all: "distinct (listeners c t) \<Longrightarrow> distinct (listeners (fold (\<lambda>p. off (fst p) (snd p)) hs c) t)"
  by (induction hs arbitrary: c) (simp_all add: distinct_off)

definition live_handlers :: "root \<Rightarrow> (string \<times> nat) list" where
  "live_handlers r = (case ro_live r of None \<Rightarrow> [] | Some (i, hs) \<Rightarrow> hs)"

definition root_ok :: "root \<Rightarrow> bool" where
  "root_ok r \<longleftrightarrow>
     (\<forall>ty h. h \<in> ro_mine r \<longrightarrow> (h \<in> set (listeners (ro_ws r) ty)) = ((ty, h) \<in> set (live_handlers r))) \<and>
     (\<forall>ty. distinct (listeners (ro_ws r) ty) \<and> set (listeners (ro_ws r) ty) \<subseteq> {..<ro_next r}) \<and>
     ro_mine r \<subseteq> {..<ro_next r} \<and> snd ` set (live_handlers r) \<subseteq> ro_mine r \<and>
     (ro_live r \<noteq> None \<longrightarrow> map fst (live_handlers r) = root_frames) \<and> ro_unauthorized r = (ro_live r \<noteq> None)"

lemma root_ok_init: "root_ok init_root"
  by (simp add: root_ok_def init_root_def live_handlers_def listeners_def init_ws_def jm_get_def)

text \<open>Steps that change neither the listeners nor what the effect holds.\<close>

lemma root_ok_same:
  assumes "root_ok r" "listeners (ro_ws r') = listeners (ro_ws r)"
    and "ro_next r' = ro_next r" "ro_mine r' = ro_mine r" "ro_live r' = ro_live r" "ro_unauthorized r' = ro_unauthorized r"
  shows "root_ok r'"
  using assms by (simp add: root_ok_def live_handlers_def)

lemma root_ok_note: "root_ok r \<Longrightarrow> root_ok (root_note cs r)"
  by (rule root_ok_same) (simp_all add: root_note_def)

lemma root_ok_force: "root_ok r \<Longrightarrow> root_ok (force_sign_out reason r)"
  by (cases "ro_signedOut r") (auto simp: force_sign_out_def root_note_def intro: root_ok_same)

lemma root_ok_handler: "root_ok r \<Longrightarrow> root_ok (root_handler ty reason d r)"
  by (simp add: root_handler_def root_ok_force root_ok_note)

lemma root_ok_dispatch:
  "root_ok r \<Longrightarrow> root_ok (fold (\<lambda>h. if P h then root_handler ty reason d else (\<lambda>x. x)) ks r)"
  by (induction ks arbitrary: r) (simp_all add: root_ok_handler)

lemma root_ok_receives: "root_ok r \<Longrightarrow> root_ok (root_receives ty reason d r)"
  by (cases "ro_live r") (auto simp: root_receives_def intro: root_ok_dispatch)

lemma effect_handlers:
  "listeners (ro_ws (root_effect url i r)) =
     listeners (fold (\<lambda>p. on (fst p) (snd p)) (zip root_frames [ro_next r..<ro_next r + 6]) (ro_ws r))"
proof -
  obtain q hs where z: "zip root_frames [ro_next r..<ro_next r + 6] = q # hs"
    by (cases "zip root_frames [ro_next r..<ro_next r + 6]") (simp_all add: root_frames_def del: upt_Suc)
  have "listeners (fold (\<lambda>p. on (fst p) (snd p)) hs c) = listeners (fold (\<lambda>p. on (fst p) (snd p)) hs c')"
    if "listeners c = listeners c'" for c c'
    using that by (induction hs arbitrary: c c') (simp_all add: fun_eq_iff listeners_on)
  from this [of "connect url (on (fst q) (snd q) (ro_ws r))" "on (fst q) (snd q) (ro_ws r)"]
  show ?thesis by (simp add: root_effect_def Let_def root_note_def z)
qed

lemma root_ok_effect:
  assumes "root_ok r" "ro_live r = None"
  shows "root_ok (root_effect url i r)"
proof -
  let ?hs = "zip root_frames [ro_next r..<ro_next r + 6]"
  have len: "length root_frames = 6" by (simp add: root_frames_def)
  have fresh: "set (map snd ?hs) = {ro_next r..<ro_next r + 6}" by (simp add: len del: upt_Suc)
  have mine: "ro_mine r \<subseteq> {..<ro_next r}" using assms(1) by (simp add: root_ok_def)
  have old: "h \<notin> ro_mine r" if "h \<in> set (map snd ?hs)" for h
  proof -
    have "ro_next r \<le> h" using that unfolding fresh by simp
    then show ?thesis using mine by auto
  qed
  have unheard: "h \<notin> set (listeners (ro_ws r) ty)" if "h \<in> ro_mine r" for h ty
    using assms that by (simp add: root_ok_def live_handlers_def)
  have live: "live_handlers (root_effect url i r) = ?hs" "ro_live (root_effect url i r) \<noteq> None"
    and flds: "ro_mine (root_effect url i r) = ro_mine r \<union> set (map snd ?hs)" "ro_next (root_effect url i r) = ro_next r + 6"
      "ro_unauthorized (root_effect url i r)"
    by (simp_all add: root_effect_def Let_def root_note_def live_handlers_def)
  have hs_fst: "map fst ?hs = root_frames" by (simp add: len)
  have heard: "set (listeners (ro_ws (root_effect url i r)) ty) = set (listeners (ro_ws r) ty) \<union> {h. (ty, h) \<in> set ?hs}" for ty
    by (simp add: effect_handlers set_listeners_on_all)
  have in_hs: "(ty, h) \<in> set ?hs \<Longrightarrow> h \<in> set (map snd ?hs)" for ty h by force
  have a: "(h \<in> set (listeners (ro_ws (root_effect url i r)) ty)) = ((ty, h) \<in> set ?hs)"
    if "h \<in> ro_mine r \<union> set (map snd ?hs)" for ty h
  proof (cases "h \<in> ro_mine r")
    case True
    then show ?thesis using unheard old in_hs by (auto simp: heard)
  next
    case False
    then have "h \<in> {ro_next r..<ro_next r + 6}" using that unfolding fresh by simp
    moreover have "set (listeners (ro_ws r) ty) \<subseteq> {..<ro_next r}" using assms(1) by (simp add: root_ok_def)
    ultimately have "h \<notin> set (listeners (ro_ws r) ty)" by auto
    then show ?thesis by (simp add: heard)
  qed
  have b: "distinct (listeners (ro_ws (root_effect url i r)) ty)" for ty
    using assms(1) by (simp add: effect_handlers distinct_on_all root_ok_def)
  have c: "set (listeners (ro_ws (root_effect url i r)) ty) \<subseteq> {..<ro_next r + 6}" for ty
  proof -
    have "set (listeners (ro_ws r) ty) \<subseteq> {..<ro_next r}" using assms(1) by (simp add: root_ok_def)
    moreover have "{h. (ty, h) \<in> set ?hs} \<subseteq> {ro_next r..<ro_next r + 6}" using in_hs unfolding fresh by blast
    ultimately show ?thesis unfolding heard by force
  qed
  have d: "ro_mine r \<union> set (map snd ?hs) \<subseteq> {..<ro_next r + 6}"
    using mine unfolding fresh by force
  have e: "snd ` set ?hs \<subseteq> ro_mine r \<union> set (map snd ?hs)" by auto
  show ?thesis unfolding root_ok_def live(1) flds
    by (intro conjI allI impI; (rule a b c d e hs_fst)?; use live(2) flds(3) in simp)
qed

lemma root_ok_cleanup:
  assumes "root_ok r"
  shows "root_ok (root_cleanup present r)" "ro_live (root_cleanup present r) = None"
proof -
  have "root_ok (root_cleanup present r) \<and> ro_live (root_cleanup present r) = None"
  proof (cases "ro_live r")
    case (Some ih)
    obtain i hs where ih: "ih = (i, hs)" by (cases ih)
    then have hs: "live_handlers r = hs" using Some by (simp add: live_handlers_def)
    have ws: "listeners (ro_ws (root_cleanup present r)) = listeners (fold (\<lambda>p. off (fst p) (snd p)) hs (ro_ws r))"
      using Some ih by (simp add: root_cleanup_def Let_def root_note_def)
    have flds: "ro_live (root_cleanup present r) = None" "ro_next (root_cleanup present r) = ro_next r"
      "ro_mine (root_cleanup present r) = ro_mine r" "\<not> ro_unauthorized (root_cleanup present r)"
      using Some ih by (simp_all add: root_cleanup_def Let_def root_note_def)
    have none: "live_handlers (root_cleanup present r) = []" by (simp add: live_handlers_def flds)
    have "h \<notin> set (listeners (ro_ws (root_cleanup present r)) ty)" if "h \<in> ro_mine r" for ty h
      using assms that by (simp add: root_ok_def ws set_listeners_off_all hs)
    moreover have "distinct (listeners (ro_ws (root_cleanup present r)) ty)"
      "set (listeners (ro_ws (root_cleanup present r)) ty) \<subseteq> {..<ro_next r}" for ty
      using assms by (auto simp: root_ok_def ws set_listeners_off_all distinct_off_all)
    ultimately show ?thesis using assms by (simp add: root_ok_def flds none)
  qed (simp add: root_cleanup_def assms)
  then show "root_ok (root_cleanup present r)" "ro_live (root_cleanup present r) = None" by simp_all
qed

lemma root_ok_account: "root_ok r \<Longrightarrow> root_ok (account_changed url a r)"
  by (simp add: account_changed_def Let_def root_ok_cleanup root_ok_effect split: option.split)

lemma root_ok_step:
  assumes "root_ok r"
  shows "root_ok (root_step reason e r)"
proof (cases e)
  case (SocketStep ev)
  then show ?thesis using root_ok_same [OF assms] assms by (simp add: root_step_def)
next
  case (OtherListens ty)
  then show ?thesis
    using assms by (fastforce simp: root_step_def root_ok_def listeners_on live_handlers_def less_Suc_eq)
next
  case (OtherStops ty h)
  then show ?thesis using assms by (fastforce simp: root_step_def root_ok_def listeners_off live_handlers_def)
next
  case Answer401
  then show ?thesis using assms by (simp add: root_step_def unauthorized_def root_ok_force)
qed (simp_all add: root_step_def assms root_ok_account root_ok_receives)

lemma root_reach_ok: "root_reach reason r \<Longrightarrow> root_ok r"
  by (induction rule: root_reach.induct) (simp_all add: root_ok_init root_ok_step)

section \<open>Properties\<close>

lemma live_effect: "ro_live (root_effect url i r) \<noteq> None"
  by (simp add: root_effect_def Let_def root_note_def)

lemma dispatch_none: "\<forall>h \<in> set ks. \<not> P h \<Longrightarrow> fold (\<lambda>h. if P h then f else (\<lambda>x. x)) ks r = r"
  by (induction ks) simp_all

lemma dispatch_one:
  assumes "distinct ks" "h \<in> set ks" "P h" "\<And>k. k \<in> set ks \<Longrightarrow> P k \<Longrightarrow> k = h"
  shows "fold (\<lambda>h. if P h then f else (\<lambda>x. x)) ks r = f r"
  using assms
proof (induction ks arbitrary: r)
  case (Cons k ks)
  show ?case
  proof (cases "k = h")
    case True
    then have "\<forall>j \<in> set ks. \<not> P j" using Cons.prems by force
    then show ?thesis using True Cons.prems(3) dispatch_none [of ks P f "f r"] by simp
  next
    case False
    then have "\<not> P k" using Cons.prems(4) by auto
    moreover have "fold (\<lambda>h. if P h then f else (\<lambda>x. x)) ks r = f r"
    proof (rule Cons.IH)
      show "h \<in> set ks" using Cons.prems(2) False by simp
      show "k = h" if "k \<in> set ks" "P k" for k using Cons.prems(4) [of k] that by simp
    qed (use Cons.prems(1,3) in simp_all)
    ultimately show ?thesis by simp
  qed
qed simp

lemma distinct_fst_unique: "distinct (map fst hs) \<Longrightarrow> (t, h) \<in> set hs \<Longrightarrow> (t, k) \<in> set hs \<Longrightarrow> k = h"
  by (meson eq_key_imp_eq_value)

lemma distinct_root_frames: "distinct root_frames"
  by (simp add: root_frames_def)

text \<open>
  C16. The root hears every frame once while somebody is signed in, and nothing after they left. In every run of
  sign-ins, sign-outs, changes of account, frames, answers 401, events of the socket and subscriptions of
  the other parts: with an account, a frame the root cares for runs its handler exactly once and no other
  frame runs any; without one, no closure of the root is left on the socket, no frame does anything, and
  an answer 401 signs nobody out.
\<close>

theorem the_root_hears_every_frame_once:
  assumes "root_reach reason r"
  shows "(ro_live r \<noteq> None \<longrightarrow> root_receives ty reason d r = (if ty \<in> set root_frames then root_handler ty reason d r else r)) \<and>
    (ro_live r = None \<longrightarrow> root_receives ty reason d r = r \<and> set (listeners (ro_ws r) ty) \<inter> ro_mine r = {} \<and> unauthorized r = r)"
proof -
  have ok: "root_ok r" using root_reach_ok [OF assms] .
  have "root_receives ty reason d r = (if ty \<in> set root_frames then root_handler ty reason d r else r)"
    if live: "ro_live r = Some (i, hs)" for i hs
  proof -
    have hs: "live_handlers r = hs" "map fst hs = root_frames" using ok live by (simp_all add: root_ok_def live_handlers_def)
    have recv: "root_receives ty reason d r =
        fold (\<lambda>h. if (ty, h) \<in> set hs then root_handler ty reason d else (\<lambda>x. x)) (listeners (ro_ws r) ty) r"
      using live by (simp add: root_receives_def listeners_def)
    show ?thesis
    proof (cases "ty \<in> set root_frames")
      case True
      then obtain h where h: "(ty, h) \<in> set hs" unfolding hs(2) [symmetric] by auto
      moreover have "snd ` set (live_handlers r) \<subseteq> ro_mine r" using ok by (simp add: root_ok_def)
      ultimately have "h \<in> ro_mine r" using hs(1) by force
      then have here: "h \<in> set (listeners (ro_ws r) ty)" using ok h hs(1) by (simp add: root_ok_def)
      have dist: "distinct (listeners (ro_ws r) ty)" using ok by (simp add: root_ok_def)
      have one: "k = h" if "(ty, k) \<in> set hs" for k
        using distinct_fst_unique [OF _ h that] hs(2) distinct_root_frames by simp
      have "root_receives ty reason d r = root_handler ty reason d r"
        unfolding recv by (rule dispatch_one [where h = h]) (fact here dist h | erule one)+
      then show ?thesis using True by simp
    next
      case False
      then have "(ty, h) \<notin> set hs" for h unfolding hs(2) [symmetric] by force
      moreover have "fold (\<lambda>h x. x) ks r = r" for ks :: "nat list" by (induction ks) simp_all
      ultimately show ?thesis using False recv by simp
    qed
  qed
  moreover have "set (listeners (ro_ws r) ty) \<inter> ro_mine r = {}" if "ro_live r = None"
    using ok that by (auto simp: root_ok_def live_handlers_def)
  moreover have "root_receives ty reason d r = r" "unauthorized r = r" if "ro_live r = None"
    using ok that by (simp_all add: root_receives_def unauthorized_def root_ok_def)
  ultimately show ?thesis by auto
qed

definition ex_root :: root where
  "ex_root = root_step (\<lambda>_. ''bye'') (Account (Some 7) ''wss://h/ws'') (root_step (\<lambda>_. ''bye'') (OtherListens ''directory:changed'') init_root)"

theorem the_root_hears_every_frame_once_witness:
  "last (ro_calls (root_receives ''directory:changed'' (\<lambda>_. ''bye'') (JObj []) ex_root)) = RootFetchUsers \<and>
   root_receives ''call:invite'' (\<lambda>_. ''bye'') (JObj []) ex_root = ex_root"
proof -
  have r: "root_reach (\<lambda>_. ''bye'') ex_root" unfolding ex_root_def by (intro root_more root_start)
  have live: "ro_live ex_root \<noteq> None"
    by (simp add: ex_root_def root_step_def account_changed_def root_cleanup_def init_root_def live_effect Let_def)
  have dc: "root_receives ''directory:changed'' (\<lambda>_. ''bye'') (JObj []) ex_root =
      root_handler ''directory:changed'' (\<lambda>_. ''bye'') (JObj []) ex_root"
    and ci: "root_receives ''call:invite'' (\<lambda>_. ''bye'') (JObj []) ex_root = ex_root"
    using the_root_hears_every_frame_once [OF r] live by (simp_all add: root_frames_def)
  show ?thesis unfolding dc ci by (simp add: root_handler_def root_note_def)
qed

text \<open>However many requests fail at once, the page is reloaded once.\<close>

lemma one_sign_out: "unauthorized (unauthorized r) = unauthorized r"
  by (simp add: unauthorized_def force_sign_out_def root_note_def)

lemma signing_out_twice: "force_sign_out a (force_sign_out b r) = force_sign_out b r"
  by (simp add: force_sign_out_def root_note_def)

text \<open>An update of the account signed in (another name, another role) restarts nothing.\<close>

lemma same_account_is_left_alone: "map_option fst (ro_live r) = a \<Longrightarrow> account_changed url a r = r"
  by (simp add: account_changed_def)

text \<open>Where local storage cannot be read, the first effect throws before it asks for the account.\<close>

lemma blocked_storage_stops_the_start: "blocked st \<Longrightarrow> app_boot st = None"
  by (simp add: app_boot_def getItem_def)

lemma boot_asks_for_the_account: "\<not> blocked st \<Longrightarrow> \<exists>dark. app_boot st = Some (dark, True)"
  by (simp add: app_boot_def getItem_def)

end
