(* ===== verification/ChatList.thy ===== *)
theory ChatList
  imports ChatsPage CallHandlers Shell
begin

text \<open>
  What the page of conversations shows and does beyond its lists (\<open>pages/Chats.tsx\<close>): a row per group and per
  person with its line, its badge and the mark of a call that is on, the buttons above the list, the dialog
  for a new group, the search dialog's results, and the saved messages. \<open>ChatsPage\<close> holds the lists and
  the search itself.
\<close>

section \<open>Rows\<close>

text \<open>The line under the name: the draft; the last message with its sender (in groups) and a clip; or a hint.\<close>

datatype row_line = DraftLine string | LastLine "string option" bool string | HintLine string

definition stored_draft :: "storage \<Rightarrow> string \<Rightarrow> string" where
  "stored_draft st k = (case getItem st (''vc.draft.'' @ k) of None \<Rightarrow> [] | Some v \<Rightarrow> nvl v [])"

definition clip_shown :: "message \<Rightarrow> bool" where
  "clip_shown m = (content m = [] \<and> mfile m \<noteq> None)"

definition group_row_line :: "storage \<Rightarrow> group \<Rightarrow> message option \<Rightarrow> row_line" where
  "group_row_line st g m =
     (let k = key (GroupConvo (g_id g)) in
      if hasDraft st k then DraftLine (stored_draft st k)
      else case m of
        Some x \<Rightarrow> LastLine (Some (case sender x of None \<Rightarrow> [] | Some b \<Rightarrow> ub_display_name b)) (clip_shown x) (preview_text x)
      | None \<Rightarrow> HintLine (show_nat (length (g_members g)) @ '' members''))"

definition user_row_line :: "storage \<Rightarrow> user \<Rightarrow> message option \<Rightarrow> row_line" where
  "user_row_line st u m =
     (let k = key (Dm (u_id u)) in
      if hasDraft st k then DraftLine (stored_draft st k)
      else case m of Some x \<Rightarrow> LastLine None (clip_shown x) (preview_text x) | None \<Rightarrow> HintLine (''@'' @ u_username u))"

definition row_badge :: "int \<Rightarrow> string option" where
  "row_badge n = (if 0 < n then Some (if 99 < n then ''99+'' else show_int n) else None)"

record convo_row =
  cw_convo :: convo
  cw_name :: string
  cw_label :: string
  cw_line :: row_line
  cw_badge :: "string option"
  cw_live :: bool
  cw_selected :: bool

definition unread_label :: "int \<Rightarrow> string" where
  "unread_label n = (if 0 < n then '', '' @ show_int n @ '' unread'' else [])"

definition group_row :: "storage \<Rightarrow> bool int_record \<Rightarrow> chats \<Rightarrow> group \<Rightarrow> convo_row" where
  "group_row st rooms s g =
     (let c = GroupConvo (g_id g); n = nvl (unread s (key c)) 0; live = (rooms (g_id g) = Some True)
      in \<lparr>cw_convo = c, cw_name = g_name g,
          cw_label = ''Open '' @ g_name g @ unread_label n @ (if live then '', live call'' else []),
          cw_line = group_row_line st g (lastOf (messagesByGroup s (g_id g))),
          cw_badge = row_badge n, cw_live = live, cw_selected = (active s = Some c)\<rparr>)"

definition user_row :: "storage \<Rightarrow> chats \<Rightarrow> user \<Rightarrow> convo_row" where
  "user_row st s u =
     (let c = Dm (u_id u); n = nvl (unread s (key c)) 0
      in \<lparr>cw_convo = c, cw_name = u_display_name u, cw_label = ''Open chat with '' @ u_display_name u @ unread_label n,
          cw_line = user_row_line st u (lastOf (messagesByDm s (u_id u))),
          cw_badge = row_badge n, cw_live = False, cw_selected = (active s = Some c)\<rparr>)"

text \<open>The whole list: the groups, then the people.\<close>

definition convo_rows :: "storage \<Rightarrow> bool int_record \<Rightarrow> int \<Rightarrow> string \<Rightarrow> chats \<Rightarrow> user list \<Rightarrow> convo_row list" where
  "convo_rows st rooms meID search s us =
     map (group_row st rooms s) (filteredGroups search s) @ map (user_row st s) (filteredUsers meID search s us)"

text \<open>Without a conversation: the hint, and whether the button to the directory is there.\<close>

definition empty_list :: "string \<Rightarrow> convo_row list \<Rightarrow> (string \<times> bool) option" where
  "empty_list search rows =
     (if rows \<noteq> [] then None
      else if search \<noteq> [] then Some (''Try a different search term.'', False)
      else Some (''Start a chat from the directory or create a group.'', True))"

text \<open>A row is clicked; and the button that joins the call of a group.\<close>

definition click_convo :: "convo \<Rightarrow> chats_page \<Rightarrow> chats_page" where
  "click_convo c p = p\<lparr>page_calls := page_calls p @ [OpenConvo c], mobilePanel := True\<rparr>"

definition press_join :: "call_env \<Rightarrow> bool int_record \<Rightarrow> group \<Rightarrow> CallStore.calls \<Rightarrow> CallStore.calls" where
  "press_join env rooms g s = (if rooms (g_id g) = Some True then startGroupCall env g True s else s)"

section \<open>The dialogs\<close>

record chat_list =
  cl_page :: chats_page
  cl_search :: string
  cl_memberSearch :: string
  cl_showSaved :: bool
  cl_savedList :: "message list"
  cl_savedLoading :: bool
  cl_asked :: nat

definition press_new_group :: "chat_list \<Rightarrow> chat_list" where
  "press_new_group l = l\<lparr>cl_memberSearch := [], cl_page := (cl_page l)\<lparr>groupError := None, showNewGroup := True\<rparr>\<rparr>"

definition tick_group_member :: "int \<Rightarrow> bool \<Rightarrow> chats_page \<Rightarrow> chats_page" where
  "tick_group_member uid checked p = p\<lparr>members := tick checked uid (members p)\<rparr>"

text \<open>The error of a new group is shown in its dialog, or above the list when the dialog was closed.\<close>

definition shown_group_error :: "chats_page \<Rightarrow> (bool \<times> string) option" where
  "shown_group_error p = map_option (\<lambda>e. (showNewGroup p, e)) (if str_truthy (groupError p) then groupError p else None)"

text \<open>Closing the search keeps its text and clears the other filters.\<close>

definition close_search :: "(string \<Rightarrow> string) \<Rightarrow> chats_page \<Rightarrow> chats_page" where
  "close_search to_iso p =
     (let i = (search_in p)\<lparr>si_sender := 0, si_since := [], si_until := [], si_hasFile := False\<rparr>;
          p1 = p\<lparr>showSearch := False\<rparr>
      in if i = search_in p then p1 else search_changed to_iso i p1)"

definition nothing_found :: "chats_page \<Rightarrow> bool" where
  "nothing_found p = (\<not> searching p \<and> hasFilter (search_in p) \<and> searchResults p = [])"

text \<open>A result, of the search or among the saved messages: who, in which group, and the text shown.\<close>

definition result_line :: "group list \<Rightarrow> message \<Rightarrow> string \<times> string option \<times> string" where
  "result_line gs m =
     (case sender m of None \<Rightarrow> ''Someone'' | Some b \<Rightarrow> ub_display_name b,
      if num_truthy (group_id m) then map_option g_name (find (\<lambda>g. Some (g_id g) = group_id m) gs) else None,
      if is_encrypted m then ''Encrypted message''
      else if content m \<noteq> [] then content m else case mfile m of None \<Rightarrow> [] | Some f \<Rightarrow> fb_name f)"

text \<open>The saved messages: asked for at every opening; the answer, or a failure, which nothing handles.\<close>

definition press_saved :: "chat_list \<Rightarrow> chat_list" where
  "press_saved l = l\<lparr>cl_showSaved := True, cl_savedLoading := True, cl_asked := cl_asked l + 1\<rparr>"

definition saved_answered :: "message list option \<Rightarrow> chat_list \<Rightarrow> chat_list" where
  "saved_answered r l = (case r of Some ms \<Rightarrow> l\<lparr>cl_savedList := ms\<rparr> | None \<Rightarrow> l)\<lparr>cl_savedLoading := False\<rparr>"

definition no_saved_shown :: "chat_list \<Rightarrow> bool" where
  "no_saved_shown l = (cl_showSaved l \<and> \<not> cl_savedLoading l \<and> cl_savedList l = [])"

definition pick_saved :: "(string \<Rightarrow> string) \<Rightarrow> int \<Rightarrow> message \<Rightarrow> chat_list \<Rightarrow> chat_list" where
  "pick_saved to_iso meID m l = l\<lparr>cl_showSaved := False, cl_page := openSearchResult to_iso meID m (cl_page l)\<rparr>"

section \<open>Properties\<close>

lemma row_convos:
  "map cw_convo (convo_rows st rooms meID search s us) =
     map (\<lambda>g. GroupConvo (g_id g)) (filteredGroups search s) @ map (\<lambda>u. Dm (u_id u)) (filteredUsers meID search s us)"
  by (simp add: convo_rows_def group_row_def user_row_def Let_def)

lemma set_filteredUsers:
  "set (filteredUsers meID search s us) = {u \<in> set us. u_id u \<noteq> meID \<and> \<not> u_disabled u \<and>
     (search = [] \<or> matches_search search (u_display_name u) (u_username u))}"
  by (auto simp: filteredUsers_def set_js_sort)

lemma set_filteredGroups:
  "set (filteredGroups search s) = {g \<in> set (groups s). search = [] \<or> str_includes (js_lower (g_name g)) (js_lower search)}"
  by (auto simp: filteredGroups_def set_js_sort)

lemma row_badge_unread:
  assumes "w \<in> set (convo_rows st rooms meID search s us)"
  shows "cw_badge w = row_badge (nvl (unread s (key (cw_convo w))) 0)"
  using assms by (auto simp: convo_rows_def group_row_def user_row_def Let_def)

text \<open>
  Unread messages are found from the list, in a conversation that has a row: without a search, every group of the store
  and every enabled other person of the directory has exactly the rows the directory and the store give it, a
  row carries a badge exactly if its conversation has unread messages, and a click on it opens that conversation. The
  conversation with a person who is disabled has no row, whatever is unread in it.
\<close>

theorem unread_conversations_have_their_row:
  assumes "rows = convo_rows st rooms meID [] s us"
  shows "cw_convo ` set rows = (\<lambda>g. GroupConvo (g_id g)) ` set (groups s) \<union>
      (\<lambda>u. Dm (u_id u)) ` {u \<in> set us. u_id u \<noteq> meID \<and> \<not> u_disabled u} \<and>
    (\<forall>w \<in> set rows. (cw_badge w \<noteq> None) = (0 < nvl (unread s (key (cw_convo w))) 0) \<and>
      last (page_calls (click_convo (cw_convo w) p)) = OpenConvo (cw_convo w)) \<and>
    ((\<forall>u \<in> set us. u_id u = i \<longrightarrow> u_disabled u) \<longrightarrow> Dm i \<notin> cw_convo ` set rows)"
proof -
  have "cw_convo ` set rows = set (map cw_convo rows)" by simp
  also have "\<dots> = (\<lambda>g. GroupConvo (g_id g)) ` set (groups s) \<union>
      (\<lambda>u. Dm (u_id u)) ` {u \<in> set us. u_id u \<noteq> meID \<and> \<not> u_disabled u}"
    unfolding assms row_convos by (simp add: set_filteredUsers set_filteredGroups image_def)
  finally have rows: "cw_convo ` set rows = (\<lambda>g. GroupConvo (g_id g)) ` set (groups s) \<union>
      (\<lambda>u. Dm (u_id u)) ` {u \<in> set us. u_id u \<noteq> meID \<and> \<not> u_disabled u}" .
  have "(cw_badge w \<noteq> None) = (0 < nvl (unread s (key (cw_convo w))) 0)" if "w \<in> set rows" for w
    using row_badge_unread that unfolding assms by (simp add: row_badge_def)
  moreover have "last (page_calls (click_convo c p)) = OpenConvo c" for c by (simp add: click_convo_def)
  moreover have "Dm i \<notin> cw_convo ` set rows" if "\<forall>u \<in> set us. u_id u = i \<longrightarrow> u_disabled u"
    unfolding rows using that by auto
  ultimately show ?thesis using rows by blast
qed

definition ex_contact :: "int \<Rightarrow> bool \<Rightarrow> user" where
  "ex_contact i off = \<lparr>u_id = i, u_username = ''bo'', u_display_name = ''Bo'', u_role = RoleUser, u_avatar_file_id = None,
     u_email = None, u_disabled = off, u_deleted = False, u_created_at = Iso 0, u_oidc_linked = False, u_status = Online,
     u_preferences = None\<rparr>"

definition ex_unread :: chats where
  "ex_unread = init_chats\<lparr>unread := [key (Dm 4) \<mapsto> 3, key (Dm 5) \<mapsto> 2]\<rparr>"

theorem unread_conversations_have_their_row_witness:
  "cw_convo ` set (convo_rows \<lparr>blocked = False, items = []\<rparr> Map.empty 1 [] ex_unread [ex_contact 4 False, ex_contact 5 True]) = {Dm 4}"
proof -
  have "{u \<in> set [ex_contact 4 False, ex_contact 5 True]. u_id u \<noteq> 1 \<and> \<not> u_disabled u} = {ex_contact 4 False}"
    by (auto simp: ex_contact_def)
  moreover have "groups ex_unread = []" "u_id (ex_contact 4 False) = 4"
    by (simp_all add: ex_unread_def init_chats_def ex_contact_def)
  ultimately show ?thesis
    using unread_conversations_have_their_row [OF refl, of "\<lparr>blocked = False, items = []\<rparr>" Map.empty 1 ex_unread
      "[ex_contact 4 False, ex_contact 5 True]" ex_chats_page 5] by (simp del: list.set(2))
qed

text \<open>
  The total beside \<open>Chats\<close> in the navigation counts them all the same: with nothing unread but messages of a
  person who was disabled, the total is positive and no row of the list has a badge.
\<close>

lemma unread_of_the_disabled_cannot_be_found:
  assumes "unread s = [key (Dm i) \<mapsto> n]" "0 < n" "\<forall>u \<in> set us. u_id u = i \<longrightarrow> u_disabled u"
    and "w \<in> set (convo_rows st rooms meID search s us)"
  shows "0 < totalUnread [n] \<and> cw_badge w = None"
proof -
  have "cw_convo w \<in> set (map cw_convo (convo_rows st rooms meID search s us))" using assms(4) by simp
  then have "cw_convo w \<noteq> Dm i" using assms(3) unfolding row_convos by (auto simp: set_filteredUsers)
  then have "key (cw_convo w) \<noteq> key (Dm i)" by (metis key_inj)
  then show ?thesis
    using assms(1,2) row_badge_unread [OF assms(4)] by (simp add: row_badge_def totalUnread_def)
qed

text \<open>A failing request for the saved messages looks like an account without any.\<close>

lemma failed_saved_looks_empty:
  "cl_savedList l = [] \<Longrightarrow> no_saved_shown (saved_answered None (press_saved l))"
  by (simp add: no_saved_shown_def saved_answered_def press_saved_def)

text \<open>With two requests under way the first answer takes the indicator down.\<close>

lemma first_answer_ends_loading: "\<not> cl_savedLoading (saved_answered r (press_saved (press_saved l)))"
  by (simp add: saved_answered_def split: option.split)

text \<open>Results never show the stored text of an encrypted message.\<close>

lemma results_hide_ciphertext: "is_encrypted m \<Longrightarrow> snd (snd (result_line gs m)) = ''Encrypted message''"
  by (simp add: result_line_def)

text \<open>What is typed in a conversation and not sent is what its row shows.\<close>

lemma row_shows_the_draft:
  assumes "cp_active p = Some (Dm (u_id u))" "\<not> blocked (drafts p)" "js_trim v \<noteq> []"
  shows "user_row_line (drafts (handleTextChange v p)) u m = DraftLine v"
proof -
  have "hasDraft (drafts (handleTextChange v p)) (key (Dm (u_id u)))"
    using assms draft_is_marked [of p "Dm (u_id u)" v] by simp
  moreover have "stored_draft st k = loadDraft st k" for st k by (simp add: stored_draft_def loadDraft_def draftKey_def)
  ultimately show ?thesis
    using assms by (simp add: user_row_line_def Let_def handleTextChange_def loadDraft_save)
qed

lemma closing_the_search_keeps_its_text:
  "si_query (search_in (close_search to_iso p)) = si_query (search_in p) \<and> \<not> showSearch (close_search to_iso p)"
  by (simp add: close_search_def Let_def search_changed_def)

end
