(* ===== verification/ServerWire.thy ===== *)
theory ServerWire
  imports Messages
begin

text \<open>
  The server's side of the socket (\<open>internal/signaling/client.go\<close>): how a frame is read (decoding of its data,
  the limits on how many frames a client may send, the flag of a client that is being closed) and the frames the server
  writes. A decoded field has the value the language gives it when it is absent; a field of the wrong type fails the whole
  decoding.
\<close>

section \<open>Decoding\<close>

text \<open>
  \<open>json.Unmarshal\<close> into a struct: the data must be there; \<open>null\<close> leaves every field alone; a repeated field counts last.
  Names are compared exactly here; the clients of this repository send them as declared.
\<close>

definition go_fields :: "json option \<Rightarrow> (string \<times> json) list option" where
  "go_fields data = (case data of Some (JObj fs) \<Rightarrow> Some (rev fs) | Some JNull \<Rightarrow> Some [] | _ \<Rightarrow> None)"

definition int64 :: "int \<Rightarrow> bool" where
  "int64 n = (- (2 ^ 63) \<le> n \<and> n < 2 ^ 63)"

definition go_str :: "string \<Rightarrow> (string \<times> json) list \<Rightarrow> string option" where
  "go_str f fs = (case map_of fs f of
     None \<Rightarrow> Some [] | Some JNull \<Rightarrow> Some [] | Some (JStr x) \<Rightarrow> Some x | _ \<Rightarrow> None)"

definition go_int :: "string \<Rightarrow> (string \<times> json) list \<Rightarrow> int option" where
  "go_int f fs = (case map_of fs f of
     None \<Rightarrow> Some 0 | Some JNull \<Rightarrow> Some 0 | Some (JNum n) \<Rightarrow> (if int64 n then Some n else None) | _ \<Rightarrow> None)"

definition go_bool :: "string \<Rightarrow> (string \<times> json) list \<Rightarrow> bool option" where
  "go_bool f fs = (case map_of fs f of
     None \<Rightarrow> Some False | Some JNull \<Rightarrow> Some False | Some (JBool b) \<Rightarrow> Some b | _ \<Rightarrow> None)"

text \<open>A pointer field: nil when absent or \<open>null\<close>.\<close>

definition go_int_ptr :: "string \<Rightarrow> (string \<times> json) list \<Rightarrow> int option option" where
  "go_int_ptr f fs = (case map_of fs f of
     None \<Rightarrow> Some None | Some JNull \<Rightarrow> Some None | Some (JNum n) \<Rightarrow> (if int64 n then Some (Some n) else None) | _ \<Rightarrow> None)"

definition go_str_ptr :: "string \<Rightarrow> (string \<times> json) list \<Rightarrow> string option option" where
  "go_str_ptr f fs = (case map_of fs f of
     None \<Rightarrow> Some None | Some JNull \<Rightarrow> Some None | Some (JStr x) \<Rightarrow> Some (Some x) | _ \<Rightarrow> None)"

text \<open>A \<open>json.RawMessage\<close> keeps what is there; nothing, when the field is absent.\<close>

definition go_raw :: "string \<Rightarrow> (string \<times> json) list \<Rightarrow> json option" where
  "go_raw f fs = map_of fs f"

lemmas go_defs = go_fields_def go_str_def go_int_def go_bool_def go_int_ptr_def go_str_ptr_def go_raw_def

section \<open>Frames the server writes\<close>

datatype srv_frame =
    SrvError string string
  | SrvCallEnded string string
  | SrvCallOutgoing string user_brief bool
  | SrvCallInvite string user_brief bool
  | SrvCallRinging string
  | SrvCallAccepted string user_brief
  | SrvCallDeclined string
  | SrvRelay int string "json option"
  | SrvReplaced
  | SrvForceLogout string
  | SrvPresence int string
  | SrvRoomError string
  | SrvJoinPending string
  | SrvJoinRequest string user_brief
  | SrvJoinApproved string
  | SrvJoinDenied string
  | SrvChatError string "string option"
  | SrvMsgNew message
  | SrvMsgSent string message
  | SrvMsgDeleted int int "int option" "int option"
  | SrvMsgEdited message
  | SrvReaction int int "int option" "int option" int string bool
  | SrvPinned int int "int option" "int option" "iso option"
  | SrvTyping int string "int option"
  | SrvRead int
  | SrvGroupRead int int

section \<open>How often a client may send\<close>

text \<open>Instants are nanoseconds; a limiter starts with the zero instant, which is before every other.\<close>

record rate_limiter =
  rl_count :: nat
  rl_resetAt :: int

definition new_limiter :: rate_limiter where
  "new_limiter = \<lparr>rl_count = 0, rl_resetAt = 0\<rparr>"

definition msgRateMax :: nat where "msgRateMax = 60"

definition sigRateMax :: nat where "sigRateMax = 400"

definition msgRateWindow :: int where "msgRateWindow = 10000000000"

definition allow_msg :: "int \<Rightarrow> nat \<Rightarrow> rate_limiter \<Rightarrow> rate_limiter \<times> bool" where
  "allow_msg t m l =
     (let l1 = (if t > rl_resetAt l then \<lparr>rl_count = 0, rl_resetAt = t + msgRateWindow\<rparr> else l) in
      if rl_count l1 \<ge> m then (l1, False) else (l1\<lparr>rl_count := rl_count l1 + 1\<rparr>, True))"

definition signalingTypes :: "string list" where
  "signalingTypes = [''webrtc:relay'', ''sfu:pub-offer'', ''sfu:pub-ice'', ''sfu:sub-answer'', ''sfu:sub-ice'', ''sfu:track-state'']"

text \<open>The two budgets of one client, and whether it is being closed.\<close>

record limits =
  rateLim :: rate_limiter
  sigLim :: rate_limiter
  finishing :: bool

definition new_limits :: limits where
  "new_limits = \<lparr>rateLim = new_limiter, sigLim = new_limiter, finishing = False\<rparr>"

datatype verdict = Ignored | TooFast | Routed

text \<open>\<open>readPump\<close> on one frame, up to \<open>route\<close>; \<open>None\<close> is data that is no envelope.\<close>

definition readPump :: "int \<Rightarrow> (string \<times> json option) option \<Rightarrow> limits \<Rightarrow> limits \<times> verdict" where
  "readPump t env l =
     (if finishing l then (l, Ignored)
      else (case env of
        None \<Rightarrow> (l, Ignored)
      | Some (ty, _) \<Rightarrow>
          if ty = [] then (l, Ignored)
          else if ty \<in> set signalingTypes
          then (case allow_msg t sigRateMax (sigLim l) of (m, ok) \<Rightarrow> (l\<lparr>sigLim := m\<rparr>, if ok then Routed else TooFast))
          else (case allow_msg t msgRateMax (rateLim l) of (m, ok) \<Rightarrow> (l\<lparr>rateLim := m\<rparr>, if ok then Routed else TooFast))))"

text \<open>The verdicts on a list of frames that arrive at given instants.\<close>

fun read_all :: "(int \<times> (string \<times> json option) option) list \<Rightarrow> limits \<Rightarrow> limits \<times> verdict list" where
  "read_all [] l = (l, [])"
| "read_all ((t, env) # es) l =
     (case readPump t env l of (l1, v) \<Rightarrow> (case read_all es l1 of (l2, vs) \<Rightarrow> (l2, v # vs)))"

text \<open>How many of the frames that arrive at the given instants a limiter lets through.\<close>

fun let_through :: "nat \<Rightarrow> int list \<Rightarrow> rate_limiter \<Rightarrow> nat" where
  "let_through m [] l = 0"
| "let_through m (t # ts) l = (case allow_msg t m l of (l1, ok) \<Rightarrow> (if ok then 1 else 0) + let_through m ts l1)"

lemma allowed_in_window:
  "\<forall>t \<in> set ts. t \<le> rl_resetAt l \<Longrightarrow> let_through m ts l = min (length ts) (m - rl_count l)"
  by (induction ts arbitrary: l) (auto simp: allow_msg_def Let_def)

text \<open>Within one window exactly the first \<open>m\<close> frames pass.\<close>

lemma window_lets_the_first_through:
  assumes "t > rl_resetAt l" "\<forall>x \<in> set ts. x \<le> t + msgRateWindow" "0 < m"
  shows "let_through m (t # ts) l = min (Suc (length ts)) m"
  using assms allowed_in_window [of ts "\<lparr>rl_count = 1, rl_resetAt = t + msgRateWindow\<rparr>" m]
  by (auto simp: allow_msg_def Let_def)

text \<open>
  Signalling and other frames do not use up each other's budget: what a client sends otherwise cannot cost it a
  candidate.
\<close>

lemma budgets_are_separate:
  assumes "ty \<in> set signalingTypes"
  shows "rateLim (fst (readPump t (Some (ty, d)) l)) = rateLim l"
  using assms by (auto simp: readPump_def split: prod.split)

lemma finishing_client_is_mute: "finishing l \<Longrightarrow> readPump t env l = (l, Ignored)"
  by (simp add: readPump_def)

text \<open>The window is fixed, not sliding: twice the budget can pass around its end.\<close>

lemma allowed_append:
  "let_through m (replicate n t @ ys) l = let_through m (replicate n t) l + let_through m ys (((\<lambda>l. fst (allow_msg t m l)) ^^ n) l)"
  by (induction n arbitrary: l) (auto simp: funpow_Suc_right simp del: funpow.simps(2) split: prod.split)

lemma limiter_after_window:
  "t \<le> rl_resetAt l \<Longrightarrow> n \<le> m - rl_count l \<Longrightarrow>
   ((\<lambda>l. fst (allow_msg t m l)) ^^ n) l = l\<lparr>rl_count := rl_count l + n\<rparr>"
  by (induction n) (auto simp: allow_msg_def Let_def)

lemma two_windows_meet:
  assumes "rl_resetAt l = t" "rl_count l = 0" "0 < m"
  shows "let_through m (replicate m t @ replicate m (t + 1)) l = 2 * m"
proof -
  obtain k where k: "m = Suc k"
    using assms(3) by (cases m) auto
  have "let_through m (replicate m (t + 1)) (l\<lparr>rl_count := m\<rparr>) = m"
    unfolding k replicate_Suc
    by (subst window_lets_the_first_through) (use assms in \<open>auto simp: msgRateWindow_def\<close>)
  then show ?thesis
    using assms by (simp add: allowed_append limiter_after_window allowed_in_window)
qed

end
