(* ===== verification/ServerCalls.thy ===== *)
theory ServerCalls
  imports ServerWire
begin

text \<open>
  The server's one to one calls (\<open>internal/signaling/calls.go\<close>) and the part of the hub they rest on: who is connected
  (\<open>register\<close>, \<open>unregister\<close>, \<open>KickUser\<close> in \<open>hub.go\<close>) and who is in a conference room. Each handler runs whole: what
  it does between two locks never depends on a state that another handler may have left in between, except where a
  call is looked up first and ended later, and ending checks again. Timers are events: a stopped timer may still fire if it
  was already running, which the model allows at any time.
\<close>

section \<open>State\<close>

datatype call_phase = RingingCall | ActiveCall | EndedCall

record p2pCall =
  pc_id :: string
  pc_caller :: int
  pc_callee :: int
  pc_db :: int
  pc_state :: call_phase
  pc_timer :: bool

record hub_client =
  hc_conn :: nat
  hc_user :: user
  hc_device :: string
  hc_session :: string
  hc_finishing :: bool

datatype hub_db_op =
    DbCreateCall string int
  | DbAddParticipant int int bool
  | DbMissed int int
  | DbLeft int int
  | DbEndCall int
  | DbDeleteSession string

text \<open>
  \<open>p2p_grace\<close> holds the timer object of a user whose socket dropped, by its number. \<open>h_sent\<close> is what was handed to
  \<open>SendRaw\<close> for each connection, oldest first. \<open>h_pending\<close> is how many frames wait in a connection's channel, and
  \<open>h_shut\<close> are the connections that were closed because their channel had no room for a frame: that frame was dropped.
\<close>

record hub =
  h_clients :: "int \<rightharpoonup> hub_client"
  p2p_calls :: "string \<rightharpoonup> p2pCall"
  p2p_byUser :: "int \<rightharpoonup> string"
  p2p_grace :: "int \<rightharpoonup> nat"
  h_timers :: nat
  h_in_room :: "int set"
  h_sent :: "(nat \<times> srv_frame) list"
  h_pending :: "nat \<Rightarrow> nat"
  h_shut :: "nat set"
  h_db :: "hub_db_op list"

definition new_hub :: hub where
  "new_hub = \<lparr>h_clients = Map.empty, p2p_calls = Map.empty, p2p_byUser = Map.empty, p2p_grace = Map.empty, h_timers = 0,
     h_in_room = {}, h_sent = [], h_pending = (\<lambda>_. 0), h_shut = {}, h_db = []\<rparr>"

definition briefOf :: "user \<Rightarrow> user_brief" where
  "briefOf u = \<lparr>ub_id = u_id u, ub_display_name = u_display_name u, ub_username = u_username u,
     ub_avatar_file_id = u_avatar_file_id u\<rparr>"

definition hc_uid :: "hub_client \<Rightarrow> int" where
  "hc_uid c = u_id (hc_user c)"

text \<open>The room of a client's channel (\<open>make(chan []byte, 256)\<close>), and what \<open>SendRaw\<close> returns: whether the frame had room.\<close>

definition send_buffer :: nat where "send_buffer = 256"

definition send_ok :: "hub_client \<Rightarrow> hub \<Rightarrow> bool" where
  "send_ok c h = (h_pending h (hc_conn c) < send_buffer)"

definition channel_put :: "nat \<Rightarrow> hub \<Rightarrow> hub" where
  "channel_put n h =
     (if h_pending h n < send_buffer then h\<lparr>h_pending := (h_pending h)(n := h_pending h n + 1)\<rparr>
      else h\<lparr>h_shut := insert n (h_shut h)\<rparr>)"

lemma channel_put_simps [simp]:
  "h_clients (channel_put n h) = h_clients h" "p2p_calls (channel_put n h) = p2p_calls h"
  "p2p_byUser (channel_put n h) = p2p_byUser h" "p2p_grace (channel_put n h) = p2p_grace h"
  "h_in_room (channel_put n h) = h_in_room h" "h_timers (channel_put n h) = h_timers h" "h_sent (channel_put n h) = h_sent h"
  "h_db (channel_put n h) = h_db h"
  by (simp_all add: channel_put_def)

definition client_send :: "hub_client \<Rightarrow> srv_frame \<Rightarrow> hub \<Rightarrow> hub" where
  "client_send c f h = channel_put (hc_conn c) (h\<lparr>h_sent := h_sent h @ [(hc_conn c, f)]\<rparr>)"

definition sendToUser :: "int \<Rightarrow> srv_frame \<Rightarrow> hub \<Rightarrow> hub" where
  "sendToUser u f h = (case h_clients h u of None \<Rightarrow> h | Some c \<Rightarrow> client_send c f h)"

text \<open>What \<open>sendToUser\<close> returns.\<close>

definition user_send_ok :: "int \<Rightarrow> hub \<Rightarrow> bool" where
  "user_send_ok u h = (case h_clients h u of None \<Rightarrow> False | Some c \<Rightarrow> send_ok c h)"

text \<open>
  \<open>writePump\<close> takes frames from the channel at its own pace, and frames that are not modelled here (presence, requests of
  others) take room in it: between two handlers a channel holds any number of frames, and may have overflowed.
\<close>

definition channel_moves :: "(nat \<Rightarrow> nat) \<Rightarrow> nat set \<Rightarrow> hub \<Rightarrow> hub" where
  "channel_moves p shut h = h\<lparr>h_pending := p, h_shut := h_shut h \<union> shut\<rparr>"

definition db_note :: "hub_db_op list \<Rightarrow> hub \<Rightarrow> hub" where
  "db_note ops h = h\<lparr>h_db := h_db h @ ops\<rparr>"

section \<open>Calls\<close>

definition finalizeDB :: "p2pCall \<Rightarrow> hub \<Rightarrow> hub" where
  "finalizeDB c h =
     (if pc_db c > 0
      then db_note [DbLeft (pc_db c) (pc_caller c), DbLeft (pc_db c) (pc_callee c), DbEndCall (pc_db c)] h
      else h)"

text \<open>\<open>end\<close>: \<open>None\<close> ends a call in any state.\<close>

definition p2p_end :: "string \<Rightarrow> call_phase option \<Rightarrow> hub \<Rightarrow> hub \<times> p2pCall option" where
  "p2p_end cid expected h =
     (case p2p_calls h cid of
        None \<Rightarrow> (h, None)
      | Some c \<Rightarrow>
          if pc_state c = EndedCall \<or> (expected \<noteq> None \<and> expected \<noteq> Some (pc_state c)) then (h, None)
          else
            (let c1 = c\<lparr>pc_state := EndedCall, pc_timer := False\<rparr>;
                 drop = (\<lambda>u m. if m u = Some (pc_id c) then m(u := None) else m);
                 h1 = h\<lparr>p2p_calls := (p2p_calls h)(pc_id c := None),
                        p2p_byUser := drop (pc_callee c) (drop (pc_caller c) (p2p_byUser h))\<rparr>
             in (finalizeDB c1 h1, Some c1)))"

definition p2p_accept :: "string \<Rightarrow> int \<Rightarrow> hub \<Rightarrow> hub \<times> p2pCall option" where
  "p2p_accept cid uid h =
     (case p2p_calls h cid of
        None \<Rightarrow> (h, None)
      | Some c \<Rightarrow>
          if pc_state c \<noteq> RingingCall \<or> pc_callee c \<noteq> uid then (h, None)
          else (let c1 = c\<lparr>pc_state := ActiveCall, pc_timer := False\<rparr>
                in (h\<lparr>p2p_calls := (p2p_calls h)(cid \<mapsto> c1)\<rparr>, Some c1)))"

definition callForUser :: "int \<Rightarrow> hub \<Rightarrow> p2pCall option" where
  "callForUser u h = (case p2p_byUser h u of None \<Rightarrow> None | Some cid \<Rightarrow> p2p_calls h cid)"

text \<open>The other party, as every handler computes it.\<close>

definition other_party :: "p2pCall \<Rightarrow> int \<Rightarrow> int" where
  "other_party c u = (if pc_caller c = u then pc_callee c else pc_caller c)"

text \<open>
  \<open>invite\<close>; \<open>row\<close> is the row the database made for the call and the two flags whether the participants could be
  added.
\<close>

definition p2p_invite ::
  "int option \<Rightarrow> bool \<Rightarrow> bool \<Rightarrow> user \<Rightarrow> user \<Rightarrow> string \<Rightarrow> bool \<Rightarrow> hub \<Rightarrow> hub" where
  "p2p_invite row added1 added2 caller callee cid video h =
     (let ended = (\<lambda>reason. sendToUser (u_id caller) (SrvCallEnded cid reason)) in
      if p2p_calls h cid \<noteq> None then h
      else if p2p_byUser h (u_id caller) \<noteq> None then ended ''busy'' h
      else if p2p_byUser h (u_id callee) \<noteq> None then ended ''busy'' h
      else (case row of
        None \<Rightarrow> ended ''server-error'' h
      | Some r \<Rightarrow>
          let call = \<lparr>pc_id = cid, pc_caller = u_id caller, pc_callee = u_id callee, pc_db = r,
                       pc_state = RingingCall, pc_timer = False\<rparr>;
              h1 = db_note [DbCreateCall cid (u_id caller)] h in
          if \<not> added1 then ended ''server-error'' (finalizeDB call h1)
          else let h2 = db_note [DbAddParticipant r (u_id caller) True] h1 in
          if \<not> added2 then ended ''server-error'' (finalizeDB call h2)
          else let h3 = db_note [DbAddParticipant r (u_id callee) False] h2 in
          if h_clients h (u_id callee) = None
          then ended ''offline'' (finalizeDB call (db_note [DbMissed r (u_id callee)] h3))
          else sendToUser (u_id callee) (SrvCallInvite cid (briefOf caller) video)
                (sendToUser (u_id caller) (SrvCallOutgoing cid (briefOf callee) video)
                  (h3\<lparr>p2p_calls := (p2p_calls h3)(cid \<mapsto> call\<lparr>pc_timer := True\<rparr>),
                      p2p_byUser := (p2p_byUser h3)(u_id caller \<mapsto> cid, u_id callee \<mapsto> cid)\<rparr>))))"

section \<open>Handlers\<close>

text \<open>
  What the database answers during \<open>handleCallInvite\<close>: the accounts, and the outcomes \<open>invite\<close> takes; \<open>fresh\<close> is
  the identifier \<open>newCallID\<close> would make.
\<close>

record invite_db =
  iv_users :: "int \<Rightarrow> user option"
  iv_row :: "int option"
  iv_added1 :: bool
  iv_added2 :: bool
  iv_fresh :: string

definition handleCallInvite :: "invite_db \<Rightarrow> hub_client \<Rightarrow> json option \<Rightarrow> hub \<Rightarrow> hub" where
  "handleCallInvite db c data h =
     (case go_fields data of
        None \<Rightarrow> client_send c (SrvError ''call'' ''invalid call request'') h
      | Some fs \<Rightarrow>
         (case (go_int ''callee_id'' fs, go_str ''call_id'' fs, go_bool ''video'' fs) of
            (Some callee, Some cid, Some video) \<Rightarrow>
              if callee = 0 \<or> callee = hc_uid c then client_send c (SrvCallEnded cid ''unavailable'') h
              else
                (let cid1 = (if cid = [] then iv_fresh db else cid) in
                 case iv_users db callee of
                   None \<Rightarrow> client_send c (SrvCallEnded cid1 ''unavailable'') h
                 | Some u \<Rightarrow>
                     if u_disabled u then client_send c (SrvCallEnded cid1 ''unavailable'') h
                     else if hc_uid c \<in> h_in_room h \<or> u_id u \<in> h_in_room h
                     then client_send c (SrvCallEnded cid1 ''busy'') h
                     else p2p_invite (iv_row db) (iv_added1 db) (iv_added2 db) (hc_user c) u cid1 video h)
          | _ \<Rightarrow> client_send c (SrvError ''call'' ''invalid call request'') h))"

text \<open>The handlers that take only a call's identifier ignore data they cannot read.\<close>

definition go_call_id :: "json option \<Rightarrow> string option" where
  "go_call_id data = (case go_fields data of None \<Rightarrow> None | Some fs \<Rightarrow> go_str ''call_id'' fs)"

definition handleCallRinging :: "hub_client \<Rightarrow> json option \<Rightarrow> hub \<Rightarrow> hub" where
  "handleCallRinging c data h =
     (case go_call_id data of
        None \<Rightarrow> h
      | Some cid \<Rightarrow>
         (case p2p_calls h cid of
            None \<Rightarrow> h
          | Some call \<Rightarrow>
              if pc_state call = RingingCall \<and> pc_callee call = hc_uid c
              then sendToUser (pc_caller call) (SrvCallRinging (pc_id call)) h else h))"

definition handleCallAccept :: "bool \<Rightarrow> hub_client \<Rightarrow> json option \<Rightarrow> hub \<Rightarrow> hub" where
  "handleCallAccept added c data h =
     (case go_call_id data of
        None \<Rightarrow> h
      | Some cid \<Rightarrow>
         (case p2p_accept cid (hc_uid c) h of
            (h1, None) \<Rightarrow> client_send c (SrvCallEnded cid ''unavailable'') h1
          | (h1, Some call) \<Rightarrow>
              if \<not> added
              then
                (case p2p_end (pc_id call) (Some ActiveCall) h1 of
                   (h2, ended) \<Rightarrow>
                     client_send c (SrvCallEnded (pc_id call) ''server-error'')
                       (case ended of
                          None \<Rightarrow> h2
                        | Some e \<Rightarrow> sendToUser (pc_caller e) (SrvCallEnded (pc_id e) ''server-error'') h2))
              else sendToUser (pc_caller call) (SrvCallAccepted (pc_id call) (briefOf (hc_user c)))
                     (db_note [DbAddParticipant (pc_db call) (hc_uid c) True] h1)))"

definition handleCallDecline :: "hub_client \<Rightarrow> json option \<Rightarrow> hub \<Rightarrow> hub" where
  "handleCallDecline c data h =
     (case go_call_id data of
        None \<Rightarrow> h
      | Some cid \<Rightarrow>
         (case p2p_calls h cid of
            None \<Rightarrow> h
          | Some call \<Rightarrow>
              if pc_callee call \<noteq> hc_uid c then h
              else
                (case p2p_end cid (Some RingingCall) h of
                   (h1, None) \<Rightarrow> h1
                 | (h1, Some e) \<Rightarrow>
                     sendToUser (pc_callee e) (SrvCallEnded (pc_id e) ''declined'')
                       (sendToUser (pc_caller e) (SrvCallDeclined (pc_id e))
                         (db_note [DbMissed (pc_db e) (pc_callee e)] h1)))))"

definition handleCallHangup :: "hub_client \<Rightarrow> json option \<Rightarrow> hub \<Rightarrow> hub" where
  "handleCallHangup c data h =
     (case go_call_id data of
        None \<Rightarrow> h
      | Some cid \<Rightarrow>
         (case p2p_calls h cid of
            None \<Rightarrow> h
          | Some call \<Rightarrow>
              if pc_caller call \<noteq> hc_uid c \<and> pc_callee call \<noteq> hc_uid c then h
              else
                (case p2p_end (pc_id call) None h of
                   (h1, None) \<Rightarrow> h1
                 | (h1, Some e) \<Rightarrow>
                     client_send c (SrvCallEnded (pc_id e) ''hangup'')
                       (sendToUser (other_party call (hc_uid c)) (SrvCallEnded (pc_id e) ''hangup'') h1))))"

text \<open>What \<open>webrtc:relay\<close> carries: whom it is for, which call, and a payload nobody reads.\<close>

definition go_relay :: "json option \<Rightarrow> (int \<times> string \<times> json option) option" where
  "go_relay data =
     (case go_fields data of
        None \<Rightarrow> None
      | Some fs \<Rightarrow>
         (case (go_int ''to'' fs, go_str ''call_id'' fs) of
            (Some to_id, Some cid) \<Rightarrow> Some (to_id, cid, go_raw ''data'' fs)
          | _ \<Rightarrow> None))"

definition handleRelay :: "hub_client \<Rightarrow> json option \<Rightarrow> hub \<Rightarrow> hub" where
  "handleRelay c data h =
     (case go_relay data of
        None \<Rightarrow> h
      | Some (to_id, cid, payload) \<Rightarrow>
         (case p2p_calls h cid of
            None \<Rightarrow> h
          | Some call \<Rightarrow>
              if pc_caller call \<noteq> hc_uid c \<and> pc_callee call \<noteq> hc_uid c then h
              else if to_id = hc_uid c \<or> (to_id \<noteq> pc_caller call \<and> to_id \<noteq> pc_callee call) then h
              else sendToUser to_id (SrvRelay (hc_uid c) cid payload) h))"

definition p2p_timeout :: "string \<Rightarrow> hub \<Rightarrow> hub" where
  "p2p_timeout cid h =
     (case p2p_end cid (Some RingingCall) h of
        (h1, None) \<Rightarrow> h1
      | (h1, Some e) \<Rightarrow>
          sendToUser (pc_callee e) (SrvCallEnded (pc_id e) ''missed'')
            (sendToUser (pc_caller e) (SrvCallEnded (pc_id e) ''no-answer'')
              (db_note [DbMissed (pc_db e) (pc_callee e)] h1)))"

section \<open>Dropped sockets\<close>

definition scheduleDisconnect :: "int \<Rightarrow> hub \<Rightarrow> hub" where
  "scheduleDisconnect u h =
     (if p2p_byUser h u = None then h
      else h\<lparr>p2p_grace := (p2p_grace h)(u \<mapsto> h_timers h), h_timers := h_timers h + 1\<rparr>)"

definition p2p_onDisconnect :: "int \<Rightarrow> hub \<Rightarrow> hub" where
  "p2p_onDisconnect u h =
     (case callForUser u h of
        None \<Rightarrow> h
      | Some call \<Rightarrow>
         (case p2p_end (pc_id call) None h of
            (h1, None) \<Rightarrow> h1
          | (h1, Some e) \<Rightarrow> sendToUser (other_party call u) (SrvCallEnded (pc_id e) ''hangup'') h1))"

text \<open>The grace timer of \<open>u\<close> with number \<open>t\<close> fires.\<close>

definition grace_fires :: "int \<Rightarrow> nat \<Rightarrow> hub \<Rightarrow> hub" where
  "grace_fires u t h =
     (if p2p_grace h u = Some t then p2p_onDisconnect u (h\<lparr>p2p_grace := (p2p_grace h)(u := None)\<rparr>) else h)"

definition p2p_resume :: "int \<Rightarrow> string \<Rightarrow> hub \<Rightarrow> hub \<times> bool" where
  "p2p_resume u cid h =
     (if p2p_byUser h u \<noteq> Some cid then (h, False)
      else (h\<lparr>p2p_grace := (p2p_grace h)(u := None)\<rparr>, True))"

definition handleCallResume :: "hub_client \<Rightarrow> json option \<Rightarrow> hub \<Rightarrow> hub" where
  "handleCallResume c data h =
     (case go_call_id data of
        None \<Rightarrow> h
      | Some cid \<Rightarrow>
          if cid = [] then h
          else (case p2p_resume (hc_uid c) cid h of
                  (h1, True) \<Rightarrow> h1
                | (h1, False) \<Rightarrow> client_send c (SrvCallEnded cid ''hangup'') h1))"

text \<open>The last frame and, behind it, the sentinel that makes \<open>writePump\<close> close the socket.\<close>

definition finish_client :: "hub_client \<Rightarrow> srv_frame \<Rightarrow> hub \<Rightarrow> hub" where
  "finish_client c f h = (if hc_finishing c then h else channel_put (hc_conn c) (client_send c f h))"

text \<open>
  A connection takes its user's place; the one it replaces, if any, is told why and closed. Presence and the messages
  that were missed go out after that (\<open>onConnect\<close>) and do not concern calls.
\<close>

definition hub_register :: "hub_client \<Rightarrow> hub \<Rightarrow> hub" where
  "hub_register c h =
     (let u = hc_uid c; h1 = h\<lparr>h_clients := (h_clients h)(u \<mapsto> c)\<rparr> in
      case h_clients h u of
        None \<Rightarrow> h1
      | Some old \<Rightarrow>
          if hc_device old \<noteq> [] \<and> hc_device old = hc_device c
          then scheduleDisconnect u (finish_client old SrvReplaced h1)
          else p2p_onDisconnect u
                 (finish_client old (SrvForceLogout ''signed_in_elsewhere'')
                   (if hc_session old \<noteq> [] then db_note [DbDeleteSession (hc_session old)] h1 else h1)))"

definition hub_unregister :: "hub_client \<Rightarrow> hub \<Rightarrow> hub" where
  "hub_unregister c h =
     (let u = hc_uid c in
      if map_option hc_conn (h_clients h u) \<noteq> Some (hc_conn c) then h
      else scheduleDisconnect u (h\<lparr>h_clients := (h_clients h)(u := None)\<rparr>))"

definition KickUser :: "int \<Rightarrow> string \<Rightarrow> hub \<Rightarrow> hub" where
  "KickUser u reason h =
     (let h1 = (case h_clients h u of
                  None \<Rightarrow> h
                | Some c \<Rightarrow> (finish_client c (SrvForceLogout reason) h)
                             \<lparr>h_clients := (h_clients h)(u \<mapsto> c\<lparr>hc_finishing := True\<rparr>)\<rparr>)
      in p2p_onDisconnect u (h1\<lparr>h_in_room := h_in_room h1 - {u}\<rparr>))"

text \<open>Joining and leaving a conference room, as far as calls see it: a user in a call is turned away.\<close>

definition room_joined_by :: "hub_client \<Rightarrow> hub \<Rightarrow> hub" where
  "room_joined_by c h =
     (if callForUser (hc_uid c) h \<noteq> None then client_send c (SrvRoomError ''you are already in a call'') h
      else h\<lparr>h_in_room := insert (hc_uid c) (h_in_room h)\<rparr>)"

definition room_left_by :: "int \<Rightarrow> hub \<Rightarrow> hub" where
  "room_left_by u h = h\<lparr>h_in_room := h_in_room h - {u}\<rparr>"

definition p2p_count :: "string list \<Rightarrow> hub \<Rightarrow> nat" where
  "p2p_count cids h = length (filter (\<lambda>cid. case p2p_calls h cid of None \<Rightarrow> False | Some c \<Rightarrow> pc_state c \<noteq> EndedCall) cids)"

text \<open>What \<open>route\<close> runs for the frames of calls; \<open>added\<close> is whether the callee could be marked as having joined.\<close>

definition route_call :: "invite_db \<Rightarrow> bool \<Rightarrow> hub_client \<Rightarrow> string \<Rightarrow> json option \<Rightarrow> hub \<Rightarrow> hub" where
  "route_call db added c ty data h =
     (if ty = ''call:invite'' then handleCallInvite db c data h
      else if ty = ''call:ringing'' then handleCallRinging c data h
      else if ty = ''call:accept'' then handleCallAccept added c data h
      else if ty = ''call:decline'' then handleCallDecline c data h
      else if ty = ''call:hangup'' then handleCallHangup c data h
      else if ty = ''call:resume'' then handleCallResume c data h
      else if ty = ''webrtc:relay'' then handleRelay c data h
      else h)"

lemmas hub_handler_defs =
  handleCallRinging_def handleCallAccept_def handleCallDecline_def handleCallHangup_def handleRelay_def handleCallResume_def

end
