(* ===== verification/ServerCallLaws.thy ===== *)
theory ServerCallLaws
  imports ServerCalls
begin

text \<open>
  What the server promises about one to one calls: a user is in one call at most and never in a conference as well, a call
  always has its two parties, rings with a timer, and outlives a dropped socket only while the grace timer runs; what is
  relayed stays between the two parties.
\<close>

section \<open>The events\<close>

definition users_ok :: "(int \<Rightarrow> user option) \<Rightarrow> bool" where
  "users_ok us = (\<forall>i u. us i = Some u \<longrightarrow> u_id u = i)"

inductive hub_step :: "hub \<Rightarrow> hub \<Rightarrow> bool" where
  connects: "hub_step h (hub_register c h)" if "\<not> hc_finishing c"
| drops: "hub_step h (hub_unregister c h)"
| frame: "hub_step h (route_call db added c ty data h)"
    if "h_clients h (hc_uid c) = Some c" "\<not> hc_finishing c" "users_ok (iv_users db)"
| rings_out: "hub_step h (p2p_timeout cid h)"
| grace_ends: "hub_step h (grace_fires u t h)"
| kicks: "hub_step h (KickUser u reason h)"
| joins: "hub_step h (room_joined_by c h)" if "h_clients h (hc_uid c) = Some c"
| leaves: "hub_step h (room_left_by u h)"
| pumps: "hub_step h (channel_moves p shut h)"

inductive hub_reach :: "hub \<Rightarrow> bool" where
  hub_begin: "hub_reach new_hub"
| hub_next: "hub_reach h \<Longrightarrow> hub_step h h' \<Longrightarrow> hub_reach h'"

section \<open>The invariant\<close>

text \<open>
  A call is found under its identifier, joins two people who are both marked as being in it, and rings exactly as long as
  its timer is armed; nobody marked is without a call, nor in a room; and whoever is in a call without a connection has a
  grace timer, those in \<open>U\<close> excepted.
\<close>

definition call_ok :: "hub \<Rightarrow> string \<Rightarrow> p2pCall \<Rightarrow> bool" where
  "call_ok h cid c = (pc_id c = cid \<and> pc_caller c \<noteq> pc_callee c \<and> pc_state c \<noteq> EndedCall \<and>
     (pc_timer c \<longleftrightarrow> pc_state c = RingingCall) \<and>
     p2p_byUser h (pc_caller c) = Some cid \<and> p2p_byUser h (pc_callee c) = Some cid)"

definition hub_ok_but :: "int set \<Rightarrow> hub \<Rightarrow> bool" where
  "hub_ok_but U h = ((\<forall>u c. h_clients h u = Some c \<longrightarrow> hc_uid c = u) \<and>
     (\<forall>cid c. p2p_calls h cid = Some c \<longrightarrow> call_ok h cid c) \<and>
     (\<forall>u cid. p2p_byUser h u = Some cid \<longrightarrow>
        (\<exists>c. p2p_calls h cid = Some c \<and> (u = pc_caller c \<or> u = pc_callee c)) \<and> u \<notin> h_in_room h) \<and>
     (\<forall>u. u \<notin> U \<and> p2p_byUser h u \<noteq> None \<and> h_clients h u = None \<longrightarrow> p2p_grace h u \<noteq> None))"

abbreviation hub_ok :: "hub \<Rightarrow> bool" where
  "hub_ok \<equiv> hub_ok_but {}"

text \<open>The part of the hub the invariant reads; sending and writing to the database leave it alone.\<close>

definition hub_core :: "hub \<Rightarrow> (int \<rightharpoonup> hub_client) \<times> (string \<rightharpoonup> p2pCall) \<times> (int \<rightharpoonup> string) \<times> (int \<rightharpoonup> nat) \<times> int set" where
  "hub_core h = (h_clients h, p2p_calls h, p2p_byUser h, p2p_grace h, h_in_room h)"

lemma hub_core_put [simp]: "hub_core (channel_put n h) = hub_core h"
  by (simp add: hub_core_def)

lemma hub_core_sends [simp]:
  "hub_core (client_send c f h) = hub_core h" "hub_core (db_note ops h) = hub_core h"
  "hub_core (sendToUser u f h) = hub_core h" "hub_core (finalizeDB call h) = hub_core h"
  "hub_core (finish_client c f h) = hub_core h"
  by (auto simp: hub_core_def client_send_def db_note_def sendToUser_def finalizeDB_def finish_client_def split: option.split)

lemma hub_fields_sends [simp]:
  "h_clients (client_send c f h) = h_clients h" "p2p_calls (client_send c f h) = p2p_calls h"
  "p2p_byUser (client_send c f h) = p2p_byUser h" "p2p_grace (client_send c f h) = p2p_grace h"
  "h_in_room (client_send c f h) = h_in_room h" "h_timers (client_send c f h) = h_timers h"
  "h_clients (db_note ops h) = h_clients h" "p2p_calls (db_note ops h) = p2p_calls h"
  "p2p_byUser (db_note ops h) = p2p_byUser h" "p2p_grace (db_note ops h) = p2p_grace h"
  "h_in_room (db_note ops h) = h_in_room h" "h_timers (db_note ops h) = h_timers h" "h_sent (db_note ops h) = h_sent h"
  by (simp_all add: client_send_def db_note_def)

lemma hub_fields_more [simp]:
  "h_clients (sendToUser u f h) = h_clients h" "p2p_calls (sendToUser u f h) = p2p_calls h"
  "p2p_byUser (sendToUser u f h) = p2p_byUser h" "p2p_grace (sendToUser u f h) = p2p_grace h"
  "h_in_room (sendToUser u f h) = h_in_room h" "h_timers (sendToUser u f h) = h_timers h"
  "h_clients (finalizeDB call h) = h_clients h" "p2p_calls (finalizeDB call h) = p2p_calls h"
  "p2p_byUser (finalizeDB call h) = p2p_byUser h" "p2p_grace (finalizeDB call h) = p2p_grace h"
  "h_in_room (finalizeDB call h) = h_in_room h" "h_sent (finalizeDB call h) = h_sent h"
  "h_clients (finish_client c f h) = h_clients h" "p2p_calls (finish_client c f h) = p2p_calls h"
  "p2p_byUser (finish_client c f h) = p2p_byUser h" "p2p_grace (finish_client c f h) = p2p_grace h"
  "h_in_room (finish_client c f h) = h_in_room h"
  by (auto simp: sendToUser_def finalizeDB_def finish_client_def split: option.split)

lemma hub_core_moves [simp]: "hub_core (channel_moves p shut h) = hub_core h"
  by (simp add: channel_moves_def hub_core_def)

lemma hub_ok_core: "hub_core h = hub_core h' \<Longrightarrow> hub_ok_but U h = hub_ok_but U h'"
  by (simp add: hub_core_def hub_ok_but_def call_ok_def)

lemma hub_ok_sends [simp]:
  "hub_ok_but U (client_send c f h) = hub_ok_but U h" "hub_ok_but U (db_note ops h) = hub_ok_but U h"
  "hub_ok_but U (sendToUser u f h) = hub_ok_but U h" "hub_ok_but U (finalizeDB call h) = hub_ok_but U h"
  "hub_ok_but U (finish_client c f h) = hub_ok_but U h" "hub_ok_but U (channel_moves p shut h) = hub_ok_but U h"
  by (rule hub_ok_core, simp)+

lemma hub_okD:
  assumes "hub_ok_but U h"
  shows "h_clients h u = Some c \<Longrightarrow> hc_uid c = u"
    "p2p_calls h cid = Some k \<Longrightarrow> call_ok h cid k"
    "p2p_byUser h u = Some cid \<Longrightarrow> \<exists>k. p2p_calls h cid = Some k \<and> (u = pc_caller k \<or> u = pc_callee k)"
    "p2p_byUser h u = Some cid \<Longrightarrow> u \<notin> h_in_room h"
    "u \<notin> U \<Longrightarrow> p2p_byUser h u \<noteq> None \<Longrightarrow> h_clients h u = None \<Longrightarrow> p2p_grace h u \<noteq> None"
  using assms unfolding hub_ok_but_def by blast+

section \<open>Every operation keeps it\<close>

lemma end_cases:
  assumes "hub_ok_but U h"
  obtains "p2p_end cid ex h = (h, None)"
  | c where "p2p_calls h cid = Some c" "ex = None \<or> ex = Some (pc_state c)"
      "p2p_end cid ex h = (finalizeDB (c\<lparr>pc_state := EndedCall, pc_timer := False\<rparr>)
         (h\<lparr>p2p_calls := (p2p_calls h)(cid := None),
            p2p_byUser := (p2p_byUser h)(pc_caller c := None, pc_callee c := None)\<rparr>),
         Some (c\<lparr>pc_state := EndedCall, pc_timer := False\<rparr>))"
proof (cases "p2p_calls h cid")
  case None
  then have "p2p_end cid ex h = (h, None)" by (simp add: p2p_end_def)
  then show ?thesis by (rule that(1))
next
  case (Some c)
  then have c: "pc_id c = cid" "p2p_byUser h (pc_caller c) = Some cid" "p2p_byUser h (pc_callee c) = Some cid"
    "pc_caller c \<noteq> pc_callee c" "pc_state c \<noteq> EndedCall"
    using hub_okD(2) [OF assms Some] by (simp_all add: call_ok_def)
  show ?thesis
  proof (cases "ex = None \<or> ex = Some (pc_state c)")
    case True
    then show ?thesis
      using Some c by (intro that(2) [of c]) (auto simp: p2p_end_def Let_def)
  next
    case False
    then show ?thesis
      using Some by (intro that(1)) (auto simp: p2p_end_def)
  qed
qed

lemma hub_ok_removed:
  assumes "hub_ok_but U h" "p2p_calls h cid = Some c"
  shows "hub_ok_but (U - {pc_caller c, pc_callee c}) (h\<lparr>p2p_calls := (p2p_calls h)(cid := None),
    p2p_byUser := (p2p_byUser h)(pc_caller c := None, pc_callee c := None)\<rparr>)"
proof -
  have c: "call_ok h cid c"
    using assms by (rule hub_okD)
  have apart: "pc_caller k \<notin> {pc_caller c, pc_callee c} \<and> pc_callee k \<notin> {pc_caller c, pc_callee c}"
    if "p2p_calls h cid' = Some k" "cid' \<noteq> cid" for cid' k
    using hub_okD(2) [OF assms(1) that(1)] c that(2) by (auto simp: call_ok_def)
  have other: "cid' \<noteq> cid" if "p2p_byUser h u = Some cid'" "u \<notin> {pc_caller c, pc_callee c}" for u cid'
    using hub_okD(3) [OF assms(1) that(1)] assms(2) that(2) by auto
  show ?thesis
    unfolding hub_ok_but_def
  proof (intro conjI allI impI)
    fix cid' k
    assume "p2p_calls (h\<lparr>p2p_calls := (p2p_calls h)(cid := None),
      p2p_byUser := (p2p_byUser h)(pc_caller c := None, pc_callee c := None)\<rparr>) cid' = Some k"
    then have k: "p2p_calls h cid' = Some k" "cid' \<noteq> cid"
      by (auto split: if_splits)
    then show "call_ok (h\<lparr>p2p_calls := (p2p_calls h)(cid := None),
      p2p_byUser := (p2p_byUser h)(pc_caller c := None, pc_callee c := None)\<rparr>) cid' k"
      using apart [OF k] hub_okD(2) [OF assms(1) k(1)] by (simp add: call_ok_def)
  qed (use hub_okD [OF assms(1)] other in \<open>auto split: if_splits\<close>)
qed

lemma hub_ok_weaken: "hub_ok_but U h \<Longrightarrow> U \<subseteq> V \<Longrightarrow> hub_ok_but V h"
  unfolding hub_ok_but_def by blast

lemma hub_ok_end:
  assumes ok: "hub_ok_but U h"
  shows "hub_ok_but U (fst (p2p_end cid ex h))"
  using ok
proof (cases rule: end_cases [of U h cid ex])
  case (2 c)
  then show ?thesis
    using hub_ok_removed [OF ok 2(1)] by (auto intro: hub_ok_weaken)
qed (simp add: ok)

lemma hub_ok_ended: "p2p_end cid ex h = (h', r) \<Longrightarrow> hub_ok_but U h \<Longrightarrow> hub_ok_but U h'"
  using hub_ok_end by (metis fst_conv)

lemma hub_ok_changed:
  assumes ok: "hub_ok_but U h" and c: "p2p_calls h cid = Some c" "pc_id c' = pc_id c" "pc_caller c' = pc_caller c"
    "pc_callee c' = pc_callee c" "pc_state c' \<noteq> EndedCall" "pc_timer c' \<longleftrightarrow> pc_state c' = RingingCall"
  shows "hub_ok_but U (h\<lparr>p2p_calls := (p2p_calls h)(cid \<mapsto> c')\<rparr>)"
  unfolding hub_ok_but_def
proof (intro conjI allI impI)
  fix cid' k
  assume "p2p_calls (h\<lparr>p2p_calls := (p2p_calls h)(cid \<mapsto> c')\<rparr>) cid' = Some k"
  then show "call_ok (h\<lparr>p2p_calls := (p2p_calls h)(cid \<mapsto> c')\<rparr>) cid' k"
  proof (cases "cid' = cid")
    case True
    then have "k = c'"
      using \<open>p2p_calls (h\<lparr>p2p_calls := (p2p_calls h)(cid \<mapsto> c')\<rparr>) cid' = Some k\<close> by simp
    moreover have "call_ok (h\<lparr>p2p_calls := (p2p_calls h)(cid \<mapsto> c')\<rparr>) cid c'"
      using hub_okD(2) [OF ok c(1)] unfolding call_ok_def c(2-4) using c(5,6) by simp
    ultimately show ?thesis using True by simp
  qed (use hub_okD(2) [OF ok, of cid' k] in \<open>simp add: call_ok_def\<close>)
next
  fix u cid'
  assume "p2p_byUser (h\<lparr>p2p_calls := (p2p_calls h)(cid \<mapsto> c')\<rparr>) u = Some cid'"
  then obtain k where "p2p_calls h cid' = Some k" "u = pc_caller k \<or> u = pc_callee k"
    using hub_okD(3) [OF ok, of u cid'] by auto
  with c show "\<exists>k. p2p_calls (h\<lparr>p2p_calls := (p2p_calls h)(cid \<mapsto> c')\<rparr>) cid' = Some k \<and> (u = pc_caller k \<or> u = pc_callee k)"
    by (cases "cid' = cid") simp_all
qed (use hub_okD(1,4,5) [OF ok] in simp_all)

lemma hub_ok_accepted: "p2p_accept cid uid h = (h', r) \<Longrightarrow> hub_ok_but U h \<Longrightarrow> hub_ok_but U h'"
  by (auto simp: p2p_accept_def Let_def hub_ok_changed split: option.splits if_splits)

lemma hub_ok_new_call:
  assumes ok: "hub_ok_but U h" and free: "p2p_calls h cid = None" "p2p_byUser h a = None" "p2p_byUser h b = None"
    and sides: "a \<noteq> b" "a \<notin> h_in_room h" "b \<notin> h_in_room h" "h_clients h a \<noteq> None" "h_clients h b \<noteq> None"
    and call: "pc_id c = cid" "pc_caller c = a" "pc_callee c = b" "pc_state c = RingingCall" "pc_timer c"
  shows "hub_ok_but U (h\<lparr>p2p_calls := (p2p_calls h)(cid \<mapsto> c), p2p_byUser := (p2p_byUser h)(a \<mapsto> cid, b \<mapsto> cid)\<rparr>)"
  unfolding hub_ok_but_def
proof (intro conjI allI impI)
  fix cid' k
  assume k: "p2p_calls (h\<lparr>p2p_calls := (p2p_calls h)(cid \<mapsto> c), p2p_byUser := (p2p_byUser h)(a \<mapsto> cid, b \<mapsto> cid)\<rparr>) cid' = Some k"
  show "call_ok (h\<lparr>p2p_calls := (p2p_calls h)(cid \<mapsto> c), p2p_byUser := (p2p_byUser h)(a \<mapsto> cid, b \<mapsto> cid)\<rparr>) cid' k"
  proof (cases "cid' = cid")
    case True
    then show ?thesis using k call sides by (auto simp: call_ok_def)
  next
    case False
    then have "call_ok h cid' k"
      using k hub_okD(2) [OF ok] by auto
    then show ?thesis using free False by (auto simp: call_ok_def)
  qed
next
  fix u cid'
  assume u: "p2p_byUser (h\<lparr>p2p_calls := (p2p_calls h)(cid \<mapsto> c), p2p_byUser := (p2p_byUser h)(a \<mapsto> cid, b \<mapsto> cid)\<rparr>) u = Some cid'"
  show "\<exists>k. p2p_calls (h\<lparr>p2p_calls := (p2p_calls h)(cid \<mapsto> c), p2p_byUser := (p2p_byUser h)(a \<mapsto> cid, b \<mapsto> cid)\<rparr>) cid' = Some k \<and>
      (u = pc_caller k \<or> u = pc_callee k)"
  proof (cases "u = a \<or> u = b")
    case True
    then show ?thesis using u call by (auto split: if_splits)
  next
    case False
    then have "p2p_byUser h u = Some cid'" using u by simp
    with free(1) hub_okD(3) [OF ok this] show ?thesis by auto
  qed
qed (use hub_okD [OF ok] sides in \<open>auto split: if_splits\<close>)

lemma hub_ok_invite:
  assumes "hub_ok_but U h" "u_id a \<noteq> u_id b" "u_id a \<notin> h_in_room h" "u_id b \<notin> h_in_room h" "h_clients h (u_id a) \<noteq> None"
  shows "hub_ok_but U (p2p_invite row ok1 ok2 a b cid video h)"
proof -
  have new: "hub_ok_but U (h'\<lparr>p2p_calls := (p2p_calls h)(cid \<mapsto> c), p2p_byUser := (p2p_byUser h)(u_id a \<mapsto> cid, u_id b \<mapsto> cid)\<rparr>)"
    if "hub_core h' = hub_core h" "p2p_calls h cid = None" "p2p_byUser h (u_id a) = None" "p2p_byUser h (u_id b) = None"
      "h_clients h (u_id b) \<noteq> None" "pc_id c = cid" "pc_caller c = u_id a" "pc_callee c = u_id b" "pc_state c = RingingCall" "pc_timer c"
    for h' c
    using hub_ok_new_call [OF assms(1) that(2-4) assms(2-5) that(5-)] that(1)
    by (simp add: hub_ok_but_def hub_core_def call_ok_def)
  show ?thesis
    using assms(1) by (auto simp: p2p_invite_def Let_def hub_core_def split: option.split intro!: new)
qed

lemma hub_ok_not_in_call: "hub_ok_but {u} h \<Longrightarrow> p2p_byUser h u = None \<Longrightarrow> hub_ok h"
  unfolding hub_ok_but_def by (metis empty_iff singletonD)

lemma hub_ok_disconnect: "hub_ok_but {u} h \<Longrightarrow> hub_ok (p2p_onDisconnect u h)"
proof -
  assume ok: "hub_ok_but {u} h"
  show ?thesis
  proof (cases "p2p_byUser h u")
    case None
    with None have "hub_ok h" using ok by (metis hub_ok_not_in_call)
    with None show ?thesis by (simp add: p2p_onDisconnect_def callForUser_def)
  next
    case (Some cid)
    then obtain c where c: "p2p_calls h cid = Some c" "u = pc_caller c \<or> u = pc_callee c"
      using hub_okD(3) [OF ok] by blast
    then have "pc_id c = cid" "pc_state c \<noteq> EndedCall"
      using hub_okD(2) [OF ok c(1)] by (simp_all add: call_ok_def)
    then have "p2p_onDisconnect u h = sendToUser (other_party c u) (SrvCallEnded cid ''hangup'') (fst (p2p_end cid None h))"
      using Some c(1) by (auto simp: p2p_onDisconnect_def callForUser_def p2p_end_def Let_def)
    moreover have "hub_ok (fst (p2p_end cid None h))"
      using ok
    proof (cases rule: end_cases [of "{u}" h cid None])
      case 1
      then show ?thesis
        using c(1) \<open>pc_state c \<noteq> EndedCall\<close> by (simp add: p2p_end_def Let_def)
    next
      case (2 c')
      then have "c' = c" using c(1) by simp
      then have "{u} - {pc_caller c', pc_callee c'} = {}" using c(2) by auto
      then show ?thesis
        using hub_ok_removed [OF ok 2(1)] 2(3) by simp
    qed
    ultimately show ?thesis by simp
  qed
qed

lemma hub_ok_armed: "hub_ok_but {u} h \<Longrightarrow> hub_ok (h\<lparr>p2p_grace := (p2p_grace h)(u \<mapsto> t), h_timers := n\<rparr>)"
  unfolding hub_ok_but_def call_ok_def by simp

lemma hub_ok_schedule: "hub_ok_but {u} h \<Longrightarrow> hub_ok (scheduleDisconnect u h)"
  by (simp add: scheduleDisconnect_def hub_ok_not_in_call hub_ok_armed)

lemma hub_ok_connect: "hub_ok h \<Longrightarrow> hub_ok (hub_register c h)"
proof -
  assume ok: "hub_ok h"
  let ?h1 = "h\<lparr>h_clients := (h_clients h)(hc_uid c \<mapsto> c)\<rparr>"
  have "hub_ok ?h1"
    using ok unfolding hub_ok_but_def call_ok_def by auto
  then have "hub_ok_but {hc_uid c} ?h1" by (rule hub_ok_weaken) simp
  then show ?thesis
    using \<open>hub_ok ?h1\<close>
    by (auto simp: hub_register_def Let_def split: option.split intro!: hub_ok_schedule hub_ok_disconnect)
qed

lemma hub_ok_drop: "hub_ok h \<Longrightarrow> hub_ok (hub_unregister c h)"
proof -
  assume ok: "hub_ok h"
  have "hub_ok_but {hc_uid c} (h\<lparr>h_clients := (h_clients h)(hc_uid c := None)\<rparr>)"
    using ok unfolding hub_ok_but_def call_ok_def by auto
  then show ?thesis
    using ok by (auto simp: hub_unregister_def Let_def intro: hub_ok_schedule)
qed

lemma hub_ok_kick: "hub_ok h \<Longrightarrow> hub_ok (KickUser u reason h)"
proof -
  assume ok: "hub_ok h"
  let ?h1 = "case h_clients h u of None \<Rightarrow> h | Some c \<Rightarrow> (finish_client c (SrvForceLogout reason) h)
    \<lparr>h_clients := (h_clients h)(u \<mapsto> c\<lparr>hc_finishing := True\<rparr>)\<rparr>"
  have "hub_ok_but {u} (?h1\<lparr>h_in_room := h_in_room h - {u}\<rparr>)"
    using ok unfolding hub_ok_but_def call_ok_def by (auto split: option.split if_splits simp: hc_uid_def)
  then show ?thesis
    using hub_ok_disconnect by (auto simp: KickUser_def split: option.splits)
qed

lemma hub_ok_grace: "hub_ok h \<Longrightarrow> hub_ok (grace_fires u t h)"
proof -
  assume ok: "hub_ok h"
  then have "hub_ok_but {u} (h\<lparr>p2p_grace := (p2p_grace h)(u := None)\<rparr>)"
    unfolding hub_ok_but_def call_ok_def by auto
  then show ?thesis
    using ok by (simp add: grace_fires_def hub_ok_disconnect)
qed

lemma hub_ok_resume: "hub_ok h \<Longrightarrow> h_clients h u \<noteq> None \<Longrightarrow> hub_ok (fst (p2p_resume u cid h))"
  unfolding hub_ok_but_def call_ok_def p2p_resume_def by auto

lemma hub_ok_room:
  "hub_ok h \<Longrightarrow> hub_ok (room_left_by u h)"
  "hub_ok h \<Longrightarrow> hub_ok (room_joined_by c h)"
proof -
  assume ok: "hub_ok h"
  then show "hub_ok (room_left_by u h)"
    unfolding hub_ok_but_def call_ok_def room_left_by_def by auto
  have "p2p_byUser h (hc_uid c) = None" if "callForUser (hc_uid c) h = None"
    using that hub_okD(3) [OF ok, of "hc_uid c"] by (cases "p2p_byUser h (hc_uid c)") (auto simp: callForUser_def)
  then show "hub_ok (room_joined_by c h)"
    using ok unfolding room_joined_by_def
    by (auto simp: hub_ok_but_def call_ok_def)
qed

lemma hub_ok_timeout: "hub_ok h \<Longrightarrow> hub_ok (p2p_timeout cid h)"
  by (auto simp: p2p_timeout_def split: prod.split option.split elim: hub_ok_ended)

lemma hub_ok_frames:
  assumes "hub_ok h"
  shows "hub_ok (handleCallRinging c data h)" "hub_ok (handleRelay c data h)" "hub_ok (handleCallDecline c data h)"
    "hub_ok (handleCallHangup c data h)" "hub_ok (handleCallAccept added c data h)"
    "h_clients h (hc_uid c) \<noteq> None \<Longrightarrow> hub_ok (handleCallResume c data h)"
  using assms hub_ok_resume [OF assms]
  by (auto simp: hub_handler_defs split: option.split prod.split bool.split
      intro: hub_ok_ended [OF _ assms] hub_ok_accepted [OF _ assms] hub_ok_ended [OF _ hub_ok_accepted [OF _ assms]])
    (metis fst_conv)+

lemma hub_ok_call_invite:
  assumes "hub_ok h" "h_clients h (hc_uid c) \<noteq> None" "users_ok (iv_users db)"
  shows "hub_ok (handleCallInvite db c data h)"
proof -
  have "hub_ok (p2p_invite row a1 a2 (hc_user c) u cid video h)"
    if "iv_users db i = Some u" "i \<noteq> hc_uid c" "hc_uid c \<notin> h_in_room h" "u_id u \<notin> h_in_room h" for row a1 a2 u i cid video
    by (rule hub_ok_invite) (use that assms in \<open>auto simp: users_ok_def hc_uid_def\<close>)
  then show ?thesis
    using assms(1) by (auto simp: handleCallInvite_def Let_def split: option.split)
qed

lemma hub_ok_step: "hub_step h h' \<Longrightarrow> hub_ok h \<Longrightarrow> hub_ok h'"
proof (induction rule: hub_step.induct)
  case (frame h c db added ty data)
  then have "h_clients h (hc_uid c) \<noteq> None" by simp
  with frame show ?case
    by (simp add: route_call_def hub_ok_frames hub_ok_call_invite)
qed (simp_all add: hub_ok_connect hub_ok_drop hub_ok_timeout hub_ok_grace hub_ok_kick hub_ok_room)

lemma hub_reach_ok: "hub_reach h \<Longrightarrow> hub_ok h"
proof (induction rule: hub_reach.induct)
  case hub_begin
  show ?case by (simp add: hub_ok_but_def new_hub_def)
next
  case (hub_next h h')
  then show ?case by (auto intro: hub_ok_step)
qed

section \<open>What holds in every reachable state\<close>

text \<open>
  C35. A user is a party of one call at most; nobody in a call is in a conference room as well; and the call of somebody
  whose connection is gone has a grace timer that will end it.
\<close>

theorem a_user_is_in_one_call:
  assumes "hub_reach h" "p2p_calls h x = Some k" "p2p_calls h y = Some l"
    and "u \<in> {pc_caller k, pc_callee k}" "u \<in> {pc_caller l, pc_callee l}"
  shows "x = y \<and> u \<notin> h_in_room h \<and> (h_clients h u = None \<longrightarrow> p2p_grace h u \<noteq> None)"
proof -
  note ok = hub_reach_ok [OF assms(1)]
  have "p2p_byUser h u = Some x" "p2p_byUser h u = Some y"
    using hub_okD(2) [OF ok assms(2)] hub_okD(2) [OF ok assms(3)] assms(4,5) by (auto simp: call_ok_def)
  then show ?thesis
    using hub_okD(4,5) [OF ok] by auto
qed

text \<open>A call rings exactly while its timer runs; when that fires, both parties are free and the callee has missed it.\<close>

lemma ringing_ends:
  assumes "hub_reach h" "p2p_calls h cid = Some k"
  shows "(pc_state k = RingingCall \<longleftrightarrow> pc_timer k) \<and>
    (pc_state k = RingingCall \<longrightarrow>
      p2p_calls (p2p_timeout cid h) cid = None \<and> p2p_byUser (p2p_timeout cid h) (pc_caller k) = None \<and>
      p2p_byUser (p2p_timeout cid h) (pc_callee k) = None)"
  using hub_okD(2) [OF hub_reach_ok [OF assms(1)] assms(2)] assms(2)
  by (auto simp: call_ok_def p2p_timeout_def p2p_end_def Let_def)

text \<open>
  C36. What a client asks to have relayed either goes nowhere or to exactly one connection: that of the other party of the
  call it names, in which the sender is itself; it is sent there unchanged and signed with the sender's identifier.
\<close>

theorem relay_stays_in_the_call:
  assumes "hub_reach h"
  shows "handleRelay c data h = h \<or>
    (\<exists>to_id cid payload k d. go_relay data = Some (to_id, cid, payload) \<and> p2p_calls h cid = Some k \<and>
       hc_uid c \<noteq> to_id \<and> {hc_uid c, to_id} = {pc_caller k, pc_callee k} \<and>
       h_clients h to_id = Some d \<and> hc_uid d = to_id \<and>
       handleRelay c data h = client_send d (SrvRelay (hc_uid c) cid payload) h)"
proof (cases "handleRelay c data h = h")
  case False
  obtain to_id cid payload where r: "go_relay data = Some (to_id, cid, payload)"
    using False by (cases "go_relay data") (auto simp: handleRelay_def)
  obtain k where k: "p2p_calls h cid = Some k"
    using False r by (cases "p2p_calls h cid") (auto simp: handleRelay_def)
  have p: "pc_caller k = hc_uid c \<or> pc_callee k = hc_uid c" "to_id \<noteq> hc_uid c" "to_id = pc_caller k \<or> to_id = pc_callee k"
    using False r k by (auto simp: handleRelay_def split: if_splits)
  then have run: "handleRelay c data h = sendToUser to_id (SrvRelay (hc_uid c) cid payload) h"
    using r k by (auto simp: handleRelay_def)
  then obtain d where d: "h_clients h to_id = Some d"
    using False by (cases "h_clients h to_id") (auto simp: sendToUser_def)
  have "hc_uid d = to_id"
    using hub_okD(1) [OF hub_reach_ok [OF assms] d] .
  moreover have "{hc_uid c, to_id} = {pc_caller k, pc_callee k}"
    using p by auto
  ultimately show ?thesis
    using r k p(2) d run by (auto simp: sendToUser_def)
qed simp

text \<open>Hanging up frees both parties and tells both.\<close>

lemma hanging_up_ends_the_call:
  assumes "hub_reach h" "p2p_calls h cid = Some k" "hc_uid c \<in> {pc_caller k, pc_callee k}" "go_call_id data = Some cid"
  shows "let h' = handleCallHangup c data h in
    p2p_calls h' cid = None \<and> p2p_byUser h' (pc_caller k) = None \<and> p2p_byUser h' (pc_callee k) = None \<and>
    (hc_conn c, SrvCallEnded cid ''hangup'') \<in> set (h_sent h') \<and>
    (\<forall>d. h_clients h (other_party k (hc_uid c)) = Some d \<longrightarrow> (hc_conn d, SrvCallEnded cid ''hangup'') \<in> set (h_sent h'))"
  using hub_okD(2) [OF hub_reach_ok [OF assms(1)] assms(2)] assms(2-4)
  by (auto simp: call_ok_def handleCallHangup_def p2p_end_def Let_def client_send_def sendToUser_def split: option.splits)

text \<open>Accepting cannot take a call from somebody else: only the callee of a ringing call becomes its second party.\<close>

lemma only_the_callee_accepts:
  assumes "p2p_calls (handleCallAccept added c data h) cid = Some k" "pc_state k = ActiveCall"
  shows "p2p_calls h cid = Some k \<or> pc_callee k = hc_uid c"
  using assms
  by (auto simp: handleCallAccept_def p2p_accept_def p2p_end_def Let_def split: option.splits if_splits)

section \<open>The grace timer\<close>

text \<open>
  The timer of a dropped socket is not tied to a call: when it fires it ends whatever call its user is in by then, though
  both are connected, and says so to the other party only.
\<close>

lemma grace_ends_any_call:
  assumes "hub_reach h" "p2p_byUser h u = Some cid" "p2p_grace h u = Some t" "h_clients h u = Some c"
    and "\<forall>d. h_clients h v = Some d \<and> hc_conn d = hc_conn c \<longrightarrow> v = u" "p2p_calls h cid = Some k" "v = other_party k u"
  shows "p2p_calls (grace_fires u t h) cid = None \<and> (\<forall>f. (hc_conn c, f) \<in> set (h_sent (grace_fires u t h)) \<longrightarrow> (hc_conn c, f) \<in> set (h_sent h))"
proof -
  have k: "call_ok h cid k" "u = pc_caller k \<or> u = pc_callee k"
    using hub_okD(2,3) [OF hub_reach_ok [OF assms(1)]] assms(2,6) by fastforce+
  then have "v \<noteq> u"
    using assms(7) by (auto simp: call_ok_def other_party_def)
  then show ?thesis
    using assms k by (auto simp: grace_fires_def p2p_onDisconnect_def callForUser_def p2p_end_def Let_def call_ok_def
      sendToUser_def client_send_def split: option.splits)
qed

section \<open>Sample data\<close>

definition ex_account :: "int \<Rightarrow> user" where
  "ex_account i = \<lparr>u_id = i, u_username = ''u'' @ show_int i, u_display_name = ''User'', u_role = RoleUser,
     u_avatar_file_id = None, u_email = None, u_disabled = False, u_deleted = False, u_created_at = Iso 0,
     u_oidc_linked = False, u_status = Online, u_preferences = None\<rparr>"

definition ex_conn :: "nat \<Rightarrow> int \<Rightarrow> hub_client" where
  "ex_conn n i = \<lparr>hc_conn = n, hc_user = ex_account i, hc_device = ''d'', hc_session = ''s'', hc_finishing = False\<rparr>"

definition ex_db :: invite_db where
  "ex_db = \<lparr>iv_users = (\<lambda>i. Some (ex_account i)), iv_row = Some 1, iv_added1 = True, iv_added2 = True, iv_fresh = ''p2p-0''\<rparr>"

definition ex_invite :: "int \<Rightarrow> string \<Rightarrow> json option" where
  "ex_invite to_id cid = Some (JObj [(''callee_id'', JNum to_id), (''call_id'', JStr cid), (''video'', JBool True)])"

definition ex_call_id :: "string \<Rightarrow> json option" where
  "ex_call_id cid = Some (JObj [(''call_id'', JStr cid)])"

lemmas ex_hub_defs = ex_account_def ex_conn_def ex_db_def ex_invite_def ex_call_id_def

text \<open>Users 7 and 9 in an active call.\<close>

definition ex_called :: hub where
  "ex_called = route_call ex_db True (ex_conn 2 9) ''call:accept'' (ex_call_id ''c1'')
     (route_call ex_db True (ex_conn 1 7) ''call:invite'' (ex_invite 9 ''c1'')
       (hub_register (ex_conn 3 5) (hub_register (ex_conn 2 9) (hub_register (ex_conn 1 7) new_hub))))"

text \<open>7's socket drops, 9 hangs up, 7 comes back, asks for its call in vain, and calls 5, who accepts.\<close>

definition ex_second_call :: hub where
  "ex_second_call = route_call ex_db True (ex_conn 3 5) ''call:accept'' (ex_call_id ''c2'')
     (route_call ex_db True (ex_conn 4 7) ''call:invite'' (ex_invite 5 ''c2'')
       (route_call ex_db True (ex_conn 4 7) ''call:resume'' (ex_call_id ''c1'')
         (hub_register (ex_conn 4 7)
           (route_call ex_db True (ex_conn 2 9) ''call:hangup'' (ex_call_id ''c1'')
             (hub_unregister (ex_conn 1 7) ex_called)))))"

lemma ex_users_ok: "users_ok (iv_users ex_db)"
  by (simp add: users_ok_def ex_hub_defs)

lemma ex_frame:
  assumes "hub_reach h" "h_clients h (hc_uid (ex_conn n i)) = Some (ex_conn n i)"
  shows "hub_reach (route_call ex_db True (ex_conn n i) ty d h)"
  by (rule hub_next [OF assms(1)], rule hub_step.frame [OF assms(2)]) (simp_all add: ex_users_ok, simp add: ex_conn_def)

lemma ex_connects: "hub_reach h \<Longrightarrow> hub_reach (hub_register (ex_conn n i) h)"
  by (erule hub_next, rule hub_step.connects) (simp add: ex_conn_def)

lemma ex_called_reach: "hub_reach ex_called"
  unfolding ex_called_def
  by (intro ex_frame ex_connects hub_begin) (code_simp, code_simp)

lemma ex_second_call_reach: "hub_reach ex_second_call"
  unfolding ex_second_call_def
  by (intro ex_frame ex_connects hub_next [OF ex_called_reach] hub_step.drops) code_simp+

lemma ex_called_simps:
  "p2p_byUser ex_called 7 = Some ''c1''" "p2p_byUser ex_called 9 = Some ''c1''" "h_clients ex_called 9 = Some (ex_conn 2 9)"
  "map_option pc_state (p2p_calls ex_called ''c1'') = Some ActiveCall" "map_option pc_caller (p2p_calls ex_called ''c1'') = Some 7"
  by code_simp+

theorem a_user_is_in_one_call_witness:
  "\<exists>k. p2p_calls ex_called ''c1'' = Some k \<and> 7 \<notin> h_in_room ex_called"
proof -
  obtain k where k: "p2p_calls ex_called ''c1'' = Some k" "pc_caller k = 7"
    using ex_called_simps(4,5) by (cases "p2p_calls ex_called ''c1''") auto
  then show ?thesis
    using a_user_is_in_one_call [OF ex_called_reach k(1) k(1), of 7] by auto
qed

definition ex_relayed :: "json option" where
  "ex_relayed = Some (JObj [(''to'', JNum 9), (''call_id'', JStr ''c1''), (''data'', JStr ''x'')])"

theorem relay_stays_in_the_call_witness:
  "\<exists>d. h_clients ex_called 9 = Some d \<and> handleRelay (ex_conn 1 7) ex_relayed ex_called =
     client_send d (SrvRelay 7 ''c1'' (Some (JStr ''x''))) ex_called"
proof -
  have "length (h_sent (handleRelay (ex_conn 1 7) ex_relayed ex_called)) \<noteq> length (h_sent ex_called)"
    by code_simp
  then have "handleRelay (ex_conn 1 7) ex_relayed ex_called \<noteq> ex_called" by metis
  moreover have "go_relay ex_relayed = Some (9, ''c1'', Some (JStr ''x''))" "hc_uid (ex_conn 1 7) = 7"
    by code_simp+
  ultimately show ?thesis
    using relay_stays_in_the_call [OF ex_called_reach, of "ex_conn 1 7" ex_relayed] by auto
qed

text \<open>
  The second call is active, both its parties are connected, and the timer that is left from the first call ends it; the
  caller, whose timer it is, is told nothing.
\<close>

lemma stale_grace_ends_the_next_call:
  "hub_reach ex_second_call \<and> map_option pc_state (p2p_calls ex_second_call ''c2'') = Some ActiveCall \<and>
   h_clients ex_second_call 7 = Some (ex_conn 4 7) \<and> h_clients ex_second_call 5 = Some (ex_conn 3 5) \<and>
   p2p_grace ex_second_call 7 = Some 0 \<and> p2p_calls (grace_fires 7 0 ex_second_call) ''c2'' = None \<and>
   h_sent (grace_fires 7 0 ex_second_call) = h_sent ex_second_call @ [(3, SrvCallEnded ''c2'' ''hangup'')]"
proof (intro conjI)
  show "hub_reach ex_second_call" by (rule ex_second_call_reach)
qed (code_simp+)

end
