(* ===== verification/SignalPath.thy ===== *)
theory SignalPath
  imports TwoPeers ServerCallLaws
begin

text \<open>
  The engines of a one to one call and the server between them: what an engine relays leaves as frames, the server reads
  each against the sender's budget (\<open>readPump\<close>), finds the call and hands the payload to the other party's connection
  (\<open>handleRelay\<close>), while everybody else's frames, timers and sockets keep the server busy. This is what carries the wire of the
  two engines.
\<close>

section \<open>The frames of an engine\<close>

definition relay_json :: "int \<Rightarrow> string \<Rightarrow> json \<Rightarrow> json" where
  "relay_json to_id cid j = JObj [(''to'', JNum to_id), (''call_id'', JStr cid), (''data'', j)]"

definition relay_ws :: "int \<Rightarrow> string \<Rightarrow> json \<Rightarrow> ws_frame" where
  "relay_ws to_id cid j = (''webrtc:relay'', relay_json to_id cid j)"

definition frames_of :: "dc_eff list \<Rightarrow> ws_frame list" where
  "frames_of es = concat (map (\<lambda>e. case e of RelayFrame to_id cid j \<Rightarrow> [relay_ws to_id cid j] | _ \<Rightarrow> []) es)"

lemma frames_payloads: "frames_of es = map (relay_ws to_id cid) js \<Longrightarrow> payloads es = js"
proof (induction es arbitrary: js)
  case (Cons e es)
  show ?case
  proof (cases "\<exists>p i j. e = RelayFrame p i j")
    case True
    then obtain p i j where e: "e = RelayFrame p i j" by blast
    with Cons.prems obtain js' where js: "js = j # js'" "frames_of es = map (relay_ws to_id cid) js'"
      by (cases js) (auto simp: frames_of_def relay_ws_def relay_json_def)
    then show ?thesis using Cons.IH [OF js(2)] e by simp
  next
    case False
    then have "frames_of (e # es) = frames_of es" "payloads (e # es) = payloads es"
      by (cases e; simp add: frames_of_def payloads_def)+
    then show ?thesis using Cons by simp
  qed
qed (simp add: frames_of_def payloads_def)

text \<open>The payloads that were handed to a connection as relayed by a user in a call.\<close>

definition relayed_by :: "int \<Rightarrow> string \<Rightarrow> srv_frame \<Rightarrow> json list" where
  "relayed_by u cid f = (case f of SrvRelay v i (Some j) \<Rightarrow> if v = u \<and> i = cid then [j] else [] | _ \<Rightarrow> [])"

definition arrived :: "nat \<Rightarrow> int \<Rightarrow> string \<Rightarrow> hub \<Rightarrow> json list" where
  "arrived conn u cid h = concat (map (\<lambda>(n, f). if n = conn then relayed_by u cid f else []) (h_sent h))"

section \<open>The server reads a frame\<close>

text \<open>One frame at instant \<open>t\<close>: over its budget it is answered with an error and dropped.\<close>

definition serve :: "invite_db \<Rightarrow> bool \<Rightarrow> hub_client \<Rightarrow> int \<times> ws_frame \<Rightarrow> limits \<times> hub \<Rightarrow> limits \<times> hub" where
  "serve db joined_ok c x s =
     (case x of (t, (ty, data)) \<Rightarrow>
       (case readPump t (Some (ty, Some data)) (fst s) of
          (l, Ignored) \<Rightarrow> (l, snd s)
        | (l, TooFast) \<Rightarrow> (l, client_send c (SrvError ''rate-limit'' ''sending too fast; slow down'') (snd s))
        | (l, Routed) \<Rightarrow> (l, route_call db joined_ok c ty (Some data) (snd s))))"

text \<open>When a relayed frame is let through: 400 fit in a window of ten seconds.\<close>

lemma relay_verdict:
  assumes "\<not> finishing l"
  shows "snd (readPump t (Some (''webrtc:relay'', d)) l) =
    (if t > rl_resetAt (sigLim l) \<or> rl_count (sigLim l) < sigRateMax then Routed else TooFast)"
  using assms by (auto simp: readPump_def signalingTypes_def allow_msg_def sigRateMax_def Let_def)

section \<open>What goes on beside\<close>

text \<open>Everything the hub does but reading a relayed frame of \<open>c\<close>.\<close>

inductive aside :: "hub_client \<Rightarrow> hub \<Rightarrow> hub \<Rightarrow> bool" for c where
  aside_connects: "aside c h (hub_register x h)" if "\<not> hc_finishing x"
| aside_drops: "aside c h (hub_unregister x h)"
| aside_frame: "aside c h (route_call db joined_ok x ty data h)"
    if "h_clients h (hc_uid x) = Some x" "users_ok (iv_users db)" "hc_uid x \<noteq> hc_uid c \<or> ty \<noteq> ''webrtc:relay''"
| aside_rings_out: "aside c h (p2p_timeout i h)"
| aside_grace: "aside c h (grace_fires u t h)"
| aside_kicks: "aside c h (KickUser u reason h)"
| aside_joins: "aside c h (room_joined_by x h)"
| aside_leaves: "aside c h (room_left_by u h)"
| aside_pumps: "aside c h (channel_moves p shut h)"
| aside_other: "aside c h (client_send x f h)" if "relayed_by (hc_uid c) i f = []" "\<And>i. relayed_by (hc_uid c) i f = []"

text \<open>None of it is taken for a payload of \<open>c\<close>.\<close>

definition silent :: "int \<Rightarrow> hub \<Rightarrow> hub \<Rightarrow> bool" where
  "silent u h h' = (\<exists>fs. h_sent h' = h_sent h @ fs \<and> list_all (\<lambda>x. \<forall>i. relayed_by u i (snd x) = []) fs)"

lemma silent_arrived: "silent u h h' \<Longrightarrow> arrived n u cid h' = arrived n u cid h"
proof -
  have "concat (map (\<lambda>(m, f). if m = n then relayed_by u cid f else []) fs) = []" if "list_all (\<lambda>x. \<forall>i. relayed_by u i (snd x) = []) fs" for fs
    using that by (induction fs) auto
  then show "silent u h h' \<Longrightarrow> arrived n u cid h' = arrived n u cid h" by (auto simp: silent_def arrived_def)
qed

lemma silent_same: "h_sent h' = h_sent h \<Longrightarrow> silent u h h'"
  by (simp add: silent_def)

lemma silent_send: "silent u h h' \<Longrightarrow> (\<And>i. relayed_by u i f = []) \<Longrightarrow> silent u h (client_send x f h')"
  by (auto simp: silent_def client_send_def)

lemma silent_put: "silent u h h' \<Longrightarrow> silent u h (channel_put n h')"
  by (simp add: silent_def)

lemma silent_user: "silent u h h' \<Longrightarrow> (\<And>i. relayed_by u i f = []) \<Longrightarrow> silent u h (sendToUser x f h')"
  by (auto simp: sendToUser_def intro: silent_send split: option.split)

lemma silent_finish: "silent u h h' \<Longrightarrow> (\<And>i. relayed_by u i f = []) \<Longrightarrow> silent u h (finish_client x f h')"
  by (auto simp: finish_client_def intro: silent_send silent_put)

lemma silent_note: "silent u h h' \<Longrightarrow> silent u h (db_note ops h')" "silent u h h' \<Longrightarrow> silent u h (finalizeDB k h')"
  by (simp_all add: silent_def)

lemma silent_end: "p2p_end cid x h = (h1, r) \<Longrightarrow> silent u h h1"
  by (auto simp: p2p_end_def Let_def intro!: silent_note(2) silent_same split: option.splits if_splits)

lemma silent_accept: "p2p_accept cid v h = (h1, r) \<Longrightarrow> silent u h h1"
  by (auto simp: p2p_accept_def Let_def intro!: silent_same split: option.splits if_splits)

lemma silent_trans: "silent u h h1 \<Longrightarrow> silent u h1 h2 \<Longrightarrow> silent u h h2"
  by (auto simp: silent_def list_all_append)

lemma relayed_by_other [simp]:
  "relayed_by u i (SrvError a b) = []" "relayed_by u i (SrvCallEnded s b) = []" "relayed_by u i (SrvCallOutgoing s p y) = []"
  "relayed_by u i (SrvCallInvite s p y) = []" "relayed_by u i (SrvCallRinging s) = []" "relayed_by u i (SrvCallAccepted s p) = []"
  "relayed_by u i (SrvCallDeclined s) = []" "relayed_by u i SrvReplaced = []" "relayed_by u i (SrvForceLogout s) = []"
  "relayed_by u i (SrvRoomError s) = []" "v \<noteq> u \<Longrightarrow> relayed_by u i (SrvRelay v s d) = []"
  by (simp_all add: relayed_by_def split: option.split)

lemmas silent_intros = silent_send silent_user silent_finish silent_note silent_put

lemma silent_disconnect: "silent u h (p2p_onDisconnect x h)"
  by (auto simp: p2p_onDisconnect_def intro!: silent_intros intro: silent_end silent_same split: option.split prod.split)

lemma silent_call_frames:
  "silent u h (handleCallInvite db x data h)" "silent u h (handleCallRinging x data h)" "silent u h (handleCallAccept ok x data h)"
  "silent u h (handleCallDecline x data h)" "silent u h (handleCallHangup x data h)" "silent u h (handleCallResume x data h)"
  "hc_uid x \<noteq> u \<Longrightarrow> silent u h (handleRelay x data h)"
proof -
  have "silent u h (p2p_invite row a1 a2 p q cid y h)" for row a1 a2 p q cid y
    by (auto simp: p2p_invite_def Let_def intro!: silent_intros intro: silent_same split: option.split)
  then show "silent u h (handleCallInvite db x data h)"
    by (auto simp: handleCallInvite_def Let_def intro!: silent_intros intro: silent_same split: option.split)
  show "silent u h (handleCallRinging x data h)"
    by (auto simp: handleCallRinging_def intro!: silent_intros intro: silent_same split: option.split)
  show "silent u h (handleCallAccept ok x data h)"
    by (auto simp: handleCallAccept_def intro!: silent_intros intro: silent_same silent_accept silent_trans [OF silent_accept silent_end]
        split: option.split prod.split)
  show "silent u h (handleCallDecline x data h)" "silent u h (handleCallHangup x data h)"
    by (auto simp: handleCallDecline_def handleCallHangup_def intro!: silent_intros intro: silent_same silent_end split: option.split prod.split)
  show "silent u h (handleCallResume x data h)"
    by (auto simp: handleCallResume_def p2p_resume_def intro!: silent_intros intro: silent_same split: option.split)
  show "silent u h (handleRelay x data h)" if "hc_uid x \<noteq> u"
    using that by (auto simp: handleRelay_def intro!: silent_intros intro: silent_same split: option.split)
qed

lemma silent_more:
  "silent u h h' \<Longrightarrow> silent u h (p2p_onDisconnect x h')" "silent u h h' \<Longrightarrow> silent u h (scheduleDisconnect x h')"
  "silent u h h' \<Longrightarrow> silent u h (h'\<lparr>h_clients := cs\<rparr>)" "silent u h h' \<Longrightarrow> silent u h (h'\<lparr>h_in_room := r\<rparr>)" "silent u h h"
  by (rule silent_trans [OF _ silent_disconnect], assumption) (auto simp: silent_def scheduleDisconnect_def)

lemma aside_silent:
  assumes "aside c h h'"
  shows "silent (hc_uid c) h h'"
  using assms
proof cases
  case (aside_connects x)
  then show ?thesis
    by (auto simp: hub_register_def Let_def intro!: silent_intros silent_more split: option.split)
next
  case (aside_drops x)
  then show ?thesis by (auto simp: hub_unregister_def Let_def intro!: silent_more)
next
  case (aside_frame x db joined_ok ty data)
  then show ?thesis by (auto simp: route_call_def silent_call_frames intro: silent_more)
next
  case (aside_rings_out i)
  then show ?thesis
    by (auto simp: p2p_timeout_def intro!: silent_intros intro: silent_end split: option.split prod.split)
next
  case (aside_grace u t)
  then show ?thesis by (auto simp: grace_fires_def intro: silent_more silent_same silent_trans [OF silent_same silent_disconnect])
next
  case (aside_kicks u reason)
  then show ?thesis by (auto simp: KickUser_def Let_def intro!: silent_intros silent_more split: option.split)
next
  case (aside_joins x)
  then show ?thesis by (auto simp: room_joined_by_def intro!: silent_intros silent_more)
next
  case (aside_other i f x)
  then show ?thesis by (auto intro!: silent_send silent_more)
qed (auto simp: room_left_by_def channel_moves_def intro: silent_same)

section \<open>The wire\<close>

text \<open>The call lasts, and the other party's connection keeps up.\<close>

definition wire_up :: "hub_client \<Rightarrow> hub_client \<Rightarrow> string \<Rightarrow> hub \<Rightarrow> bool" where
  "wire_up c d cid h =
     ((case p2p_calls h cid of None \<Rightarrow> False | Some k \<Rightarrow> {hc_uid c, hc_uid d} = {pc_caller k, pc_callee k}) \<and>
      h_clients h (hc_uid d) = Some d \<and> hc_conn d \<notin> h_shut h)"

text \<open>
  A run of the server from \<open>(l0, h0)\<close> on: frames in which \<open>c\<close> has something relayed to \<open>d\<close>, each with what the reading loop made
  of it, between anything else \<open>c\<close>'s limits and the hub go through. The wire is up whenever such a frame has been read.
\<close>

inductive signal_run :: "hub_client \<Rightarrow> hub_client \<Rightarrow> string \<Rightarrow> limits \<Rightarrow> hub \<Rightarrow> (json \<times> verdict) list \<Rightarrow> limits \<Rightarrow> hub \<Rightarrow> bool"
  for c d cid l0 h0 where
  rr_start: "signal_run c d cid l0 h0 [] l0 h0"
| rr_relay: "signal_run c d cid l0 h0 fs l h \<Longrightarrow> wire_up c d cid h \<Longrightarrow>
    serve db joined_ok c (t, relay_ws (hc_uid d) cid j) (l, h) = (l', h') \<Longrightarrow> wire_up c d cid h' \<Longrightarrow>
    signal_run c d cid l0 h0 (fs @ [(j, snd (readPump t (Some (''webrtc:relay'', Some (relay_json (hc_uid d) cid j))) l))]) l' h'"
| rr_read: "signal_run c d cid l0 h0 fs l h \<Longrightarrow> signal_run c d cid l0 h0 fs (fst (readPump t env l)) h"
| rr_aside: "signal_run c d cid l0 h0 fs l h \<Longrightarrow> aside c h h' \<Longrightarrow> signal_run c d cid l0 h0 fs l h'"

lemma relayed_one:
  assumes "wire_up c d cid h" "hc_uid c \<noteq> hc_uid d" "int64 (hc_uid d)"
  shows "route_call db joined_ok c ''webrtc:relay'' (Some (relay_json (hc_uid d) cid j)) h = client_send d (SrvRelay (hc_uid c) cid (Some j)) h"
proof -
  have "go_relay (Some (relay_json (hc_uid d) cid j)) = Some (hc_uid d, cid, Some j)"
    using assms(3) by (simp add: go_relay_def relay_json_def go_defs)
  moreover obtain k where k: "p2p_calls h cid = Some k" "{hc_uid c, hc_uid d} = {pc_caller k, pc_callee k}" "h_clients h (hc_uid d) = Some d"
    using assms(1) by (auto simp: wire_up_def split: option.splits)
  moreover have "pc_caller k = hc_uid c \<or> pc_callee k = hc_uid c" "hc_uid d = pc_caller k \<or> hc_uid d = pc_callee k"
    using k(2) by (auto simp: doubleton_eq_iff)
  ultimately show ?thesis
    using assms(2) by (auto simp: route_call_def handleRelay_def sendToUser_def)
qed

lemma served_one:
  assumes "wire_up c d cid h" "hc_uid c \<noteq> hc_uid d" "int64 (hc_uid d)"
    and "serve db joined_ok c (t, relay_ws (hc_uid d) cid j) (l, h) = (l', h')"
  shows "arrived (hc_conn d) (hc_uid c) cid h' = arrived (hc_conn d) (hc_uid c) cid h @
    (if snd (readPump t (Some (''webrtc:relay'', Some (relay_json (hc_uid d) cid j))) l) = Routed then [j] else [])"
proof (cases "readPump t (Some (''webrtc:relay'', Some (relay_json (hc_uid d) cid j))) l")
  case (Pair l1 v)
  have "arrived (hc_conn d) (hc_uid c) cid (client_send d (SrvRelay (hc_uid c) cid (Some j)) h) = arrived (hc_conn d) (hc_uid c) cid h @ [j]"
    by (simp add: arrived_def client_send_def relayed_by_def)
  moreover have "arrived (hc_conn d) (hc_uid c) cid (client_send c (SrvError x y) h) = arrived (hc_conn d) (hc_uid c) cid h" for x y
    by (simp add: arrived_def client_send_def)
  ultimately show ?thesis
    using Pair assms(4) relayed_one [OF assms(1-3), of db joined_ok j] by (cases v) (auto simp: serve_def relay_ws_def)
qed

text \<open>
  C19. While a call lasts and the other party's connection keeps up, the server is the wire between the two engines, whatever other clients,
  timers and sockets do in between: of what one engine has relayed, exactly the payloads its rate limit lets
  through are handed to the other party's connection, in order and unchanged; if it lets all through, all of them.
\<close>

theorem the_server_is_the_wire:
  assumes "signal_run c d cid l0 h0 fs l h" "hc_uid c \<noteq> hc_uid d" "int64 (hc_uid d)"
    and "frames_of es = map (\<lambda>x. relay_ws (hc_uid d) cid (fst x)) fs"
  shows "payloads es = map fst fs \<and>
    arrived (hc_conn d) (hc_uid c) cid h = arrived (hc_conn d) (hc_uid c) cid h0 @ map fst (filter (\<lambda>x. snd x = Routed) fs)"
proof
  have "frames_of es = map (relay_ws (hc_uid d) cid) (map fst fs)" using assms(4) by simp
  then show "payloads es = map fst fs" by (rule frames_payloads)
  show "arrived (hc_conn d) (hc_uid c) cid h = arrived (hc_conn d) (hc_uid c) cid h0 @ map fst (filter (\<lambda>x. snd x = Routed) fs)"
    using assms(1)
  proof (induction rule: signal_run.induct)
    case (rr_relay fs l h db joined_ok t j l' h')
    then show ?case using served_one [OF rr_relay.hyps(2) assms(2,3) rr_relay.hyps(3)] by simp
  next
    case (rr_aside fs l h h')
    then show ?case using silent_arrived [OF aside_silent] by simp
  qed simp_all
qed

definition ex_limits :: limits where
  "ex_limits = new_limits\<lparr>sigLim := \<lparr>rl_count = 399, rl_resetAt = 50\<rparr>\<rparr>"

text \<open>Two candidates with one place left in the window, and somebody else's call request in between.\<close>

lemma ex_relay_run:
  "\<exists>l h. signal_run (ex_conn 1 7) (ex_conn 2 9) ''c1'' ex_limits ex_called [(JStr ''x'', Routed), (JStr ''y'', TooFast)] l h"
proof -
  define h1 where "h1 = client_send (ex_conn 2 9) (SrvRelay 7 ''c1'' (Some (JStr ''x''))) ex_called"
  define h2 where "h2 = route_call ex_db True (ex_conn 3 5) ''call:invite'' (ex_invite 9 ''c3'') h1"
  define h3 where "h3 = client_send (ex_conn 1 7) (SrvError ''rate-limit'' ''sending too fast; slow down'') h2"
  define l1 where "l1 = ex_limits\<lparr>sigLim := \<lparr>rl_count = 400, rl_resetAt = 50\<rparr>\<rparr>"
  note defs = h1_def h2_def h3_def
  let ?run = "signal_run (ex_conn 1 7) (ex_conn 2 9) ''c1'' ex_limits ex_called"
  let ?j = "\<lambda>x. Some (''webrtc:relay'', Some (relay_json (hc_uid (ex_conn 2 9)) ''c1'' (JStr x)))"
  have up: "wire_up (ex_conn 1 7) (ex_conn 2 9) ''c1'' ex_called" "wire_up (ex_conn 1 7) (ex_conn 2 9) ''c1'' h1"
    "wire_up (ex_conn 1 7) (ex_conn 2 9) ''c1'' h2" "wire_up (ex_conn 1 7) (ex_conn 2 9) ''c1'' h3"
    unfolding defs by code_simp+
  have uid: "hc_uid (ex_conn n i) = i" for n i by (simp add: ex_hub_defs hc_uid_def)
  have v: "readPump 40 (?j ''x'') ex_limits = (l1, Routed)" "readPump 40 (?j ''y'') l1 = (l1, TooFast)"
    by (simp_all add: readPump_def l1_def ex_limits_def new_limits_def signalingTypes_def allow_msg_def sigRateMax_def)
  have s1: "serve ex_db True (ex_conn 1 7) (40, relay_ws (hc_uid (ex_conn 2 9)) ''c1'' (JStr ''x'')) (ex_limits, ex_called) = (l1, h1)"
    using v(1) relayed_one [OF up(1), of ex_db True "JStr ''x''"] by (simp add: serve_def relay_ws_def uid int64_def h1_def)
  have s3: "serve ex_db True (ex_conn 1 7) (40, relay_ws (hc_uid (ex_conn 2 9)) ''c1'' (JStr ''y'')) (l1, h2) = (l1, h3)"
    using v(2) by (simp add: serve_def relay_ws_def h3_def)
  have "?run ([] @ [(JStr ''x'', snd (readPump 40 (?j ''x'') ex_limits))]) l1 h1"
    by (rule rr_relay [OF rr_start up(1) s1 up(2)])
  then have "?run [(JStr ''x'', Routed)] l1 h1" by (simp add: v(1))
  moreover have "aside (ex_conn 1 7) h1 h2"
    unfolding h2_def
  proof (rule aside_frame)
    show "h_clients h1 (hc_uid (ex_conn 3 5)) = Some (ex_conn 3 5)" unfolding h1_def by code_simp
  qed (simp_all add: ex_users_ok uid)
  ultimately have "?run [(JStr ''x'', Routed)] l1 h2" by (rule rr_aside)
  then have "?run ([(JStr ''x'', Routed)] @ [(JStr ''y'', snd (readPump 40 (?j ''y'') l1))]) l1 h3"
    by (rule rr_relay [OF _ up(3) s3 up(4)])
  then show ?thesis using v(2) by auto
qed

theorem the_server_is_the_wire_witness:
  "\<exists>h. arrived 2 7 ''c1'' h = [JStr ''x''] \<and> payloads [RelayFrame 9 ''c1'' (JStr ''x''), SetLocal 0, RelayFrame 9 ''c1'' (JStr ''y'')] = [JStr ''x'', JStr ''y'']"
proof -
  obtain l h where r: "signal_run (ex_conn 1 7) (ex_conn 2 9) ''c1'' ex_limits ex_called [(JStr ''x'', Routed), (JStr ''y'', TooFast)] l h"
    using ex_relay_run by blast
  have uid: "hc_uid (ex_conn n i) = i" "hc_conn (ex_conn n i) = n" "int64 9" for n i
    by (simp_all add: ex_hub_defs hc_uid_def int64_def)
  have "arrived 2 7 ''c1'' ex_called = []" by code_simp
  then show ?thesis
    using the_server_is_the_wire [OF r, of "[RelayFrame 9 ''c1'' (JStr ''x''), SetLocal 0, RelayFrame 9 ''c1'' (JStr ''y'')]"]
    by (intro exI [of _ h]) (simp add: uid frames_of_def)
qed

end
