(* ===== verification/ServerRooms.thy ===== *)
theory ServerRooms
  imports ServerWire
begin

text \<open>
  The server's conference rooms (\<open>internal/sfu\<close>): who is in which room, who hosts it, which tracks are forwarded to
  whom, muting and locking, the restriction of screen sharing, and the offers to subscribers. A participant and a
  forwarded track are objects with a number. Every call of the library's peer connections may return an error: which calls
  of a connection do is settled when it is made; what the browser sends on them arrives as events. A Go map has no order: where the code walks one, the model
  walks the participants in the order they joined.
\<close>

section \<open>State\<close>

record sfu_info =
  pi_user :: int
  pi_muted :: bool
  pi_video :: bool
  pi_screen :: bool
  pi_host :: bool
  pi_locked :: bool
  pi_can_present :: bool

datatype sfu_signal =
    SigJoined string "sfu_info list" bool
  | SigSubOffer "nat list"
  | SigMuted int bool
  | SigUnlocked int
  | SigRemoved int
  | SigError string

datatype sfu_event =
    EventRoomCreated string int
  | EventJoined string int sfu_info
  | EventLeft string int
  | EventUpdated string int sfu_info
  | EventRoomClosed string

datatype track_key = MicKey | CamKey | ScreenKey

text \<open>
  \<open>sp_out\<close> is what was sent to the participant's own client. \<open>sp_fails\<close> says of each further call of the subscriber
  connection (to add or remove a track, to create an offer, to set it) whether it returns an error; past its end none does.
  \<open>sp_unoffered\<close> is a ghost: the last attempt to make an offer failed.
\<close>

record sfu_participant =
  sp_obj :: nat
  sp_info :: sfu_info
  sp_senders :: "nat list"
  sp_subPending :: bool
  sp_subAgain :: bool
  sp_screenPending :: "int option"
  sp_fails :: "bool list"
  sp_unoffered :: bool
  sp_out :: "sfu_signal list"

record sfu_room =
  rm_order :: "int list"
  rm_participants :: "int \<rightharpoonup> sfu_participant"
  rm_tracks :: "int \<Rightarrow> track_key \<rightharpoonup> nat"
  rm_mutedTracks :: "int \<Rightarrow> track_key \<rightharpoonup> nat"
  rm_locked :: "int set"
  rm_presenterOnly :: bool
  rm_presenters :: "int set"

record sfu_engine =
  e_max :: nat
  e_rooms :: "string \<rightharpoonup> sfu_room"
  e_users :: "int \<rightharpoonup> string"
  e_objs :: nat
  e_events :: "sfu_event list"

definition newRoom :: sfu_room where
  "newRoom = \<lparr>rm_order = [], rm_participants = Map.empty, rm_tracks = (\<lambda>_. Map.empty), rm_mutedTracks = (\<lambda>_. Map.empty),
     rm_locked = {}, rm_presenterOnly = False, rm_presenters = {}\<rparr>"

definition new_engine :: "nat \<Rightarrow> sfu_engine" where
  "new_engine m = \<lparr>e_max = m, e_rooms = Map.empty, e_users = Map.empty, e_objs = 0, e_events = []\<rparr>"

definition emit_event :: "sfu_event \<Rightarrow> sfu_engine \<Rightarrow> sfu_engine" where
  "emit_event ev e = e\<lparr>e_events := e_events e @ [ev]\<rparr>"

definition set_room :: "string \<Rightarrow> sfu_room \<Rightarrow> sfu_engine \<Rightarrow> sfu_engine" where
  "set_room rid r e = e\<lparr>e_rooms := (e_rooms e)(rid \<mapsto> r)\<rparr>"

definition canPresentLocked :: "sfu_room \<Rightarrow> int \<Rightarrow> bool \<Rightarrow> bool" where
  "canPresentLocked r u host = (host \<or> \<not> rm_presenterOnly r \<or> u \<in> rm_presenters r)"

definition snapshotLocked :: "sfu_room \<Rightarrow> sfu_info list" where
  "snapshotLocked r = concat (map (\<lambda>u. case rm_participants r u of None \<Rightarrow> [] | Some p \<Rightarrow> [sp_info p]) (rm_order r))"

section \<open>What a subscriber is sent\<close>

definition sp_send :: "sfu_signal \<Rightarrow> sfu_participant \<Rightarrow> sfu_participant" where
  "sp_send s p = p\<lparr>sp_out := sp_out p @ [s]\<rparr>"

text \<open>A call of the connection: whether it failed, and the participant after it.\<close>

definition pc_fails :: "sfu_participant \<Rightarrow> bool" where
  "pc_fails p = (sp_fails p \<noteq> [] \<and> hd (sp_fails p))"

definition pc_called :: "sfu_participant \<Rightarrow> sfu_participant" where
  "pc_called p = p\<lparr>sp_fails := tl (sp_fails p)\<rparr>"

text \<open>\<open>renegotiateSubLocked\<close>: \<open>CreateOffer\<close>, then \<open>SetLocalDescription\<close>; an error of either is dropped.\<close>

definition renegotiateSub :: "sfu_participant \<Rightarrow> sfu_participant" where
  "renegotiateSub p =
     (if sp_subPending p then p\<lparr>sp_subAgain := True\<rparr>
      else if pc_fails p then (pc_called p)\<lparr>sp_unoffered := True\<rparr>
      else if pc_fails (pc_called p) then (pc_called (pc_called p))\<lparr>sp_unoffered := True\<rparr>
      else sp_send (SigSubOffer (sp_senders p)) ((pc_called (pc_called p))\<lparr>sp_subPending := True, sp_unoffered := False\<rparr>))"

definition addSender :: "nat \<Rightarrow> sfu_participant \<Rightarrow> sfu_participant" where
  "addSender t p =
     (if t \<in> set (sp_senders p) then p
      else if pc_fails p then pc_called p
      else renegotiateSub ((pc_called p)\<lparr>sp_senders := sp_senders p @ [t]\<rparr>))"

definition removeSender :: "nat \<Rightarrow> sfu_participant \<Rightarrow> sfu_participant" where
  "removeSender t p =
     (if t \<notin> set (sp_senders p) then p
      else if pc_fails p then pc_called p
      else renegotiateSub ((pc_called p)\<lparr>sp_senders := filter (\<lambda>x. x \<noteq> t) (sp_senders p)\<rparr>))"

text \<open>An answer; \<open>ok\<close> is whether it could be applied.\<close>

definition onSubAnswer :: "bool \<Rightarrow> sfu_participant \<Rightarrow> sfu_participant" where
  "onSubAnswer ok p =
     (if \<not> ok then p
      else let p1 = p\<lparr>sp_subPending := False\<rparr> in
        if sp_subAgain p1 then renegotiateSub (p1\<lparr>sp_subAgain := False\<rparr>) else p1)"

text \<open>The offer last made, which a resumed client may not have got.\<close>

definition last_offer :: "sfu_participant \<Rightarrow> nat list option" where
  "last_offer p = (case concat (map (\<lambda>s. case s of SigSubOffer ts \<Rightarrow> [ts] | _ \<Rightarrow> []) (sp_out p)) of
     [] \<Rightarrow> None | xs \<Rightarrow> Some (last xs))"

definition resendSubscriberOffer :: "sfu_participant \<Rightarrow> sfu_participant" where
  "resendSubscriberOffer p =
     (if \<not> sp_subPending p then p
      else (case last_offer p of None \<Rightarrow> p | Some ts \<Rightarrow> sp_send (SigSubOffer ts) p))"

text \<open>Everyone in the room but \<open>u\<close>.\<close>

definition to_others :: "int \<Rightarrow> (sfu_participant \<Rightarrow> sfu_participant) \<Rightarrow> sfu_room \<Rightarrow> sfu_room" where
  "to_others u f r = r\<lparr>rm_participants := (\<lambda>v. if v = u then rm_participants r v else map_option f (rm_participants r v))\<rparr>"

definition to_one :: "int \<Rightarrow> (sfu_participant \<Rightarrow> sfu_participant) \<Rightarrow> sfu_room \<Rightarrow> sfu_room" where
  "to_one u f r = r\<lparr>rm_participants := (rm_participants r)(u := map_option f (rm_participants r u))\<rparr>"

definition track_keys :: "track_key list" where
  "track_keys = [MicKey, CamKey, ScreenKey]"

definition published :: "(track_key \<rightharpoonup> nat) \<Rightarrow> nat list" where
  "published byKey = List.map_filter byKey track_keys"

text \<open>The tracks of everyone but \<open>u\<close>, which a newcomer is given.\<close>

definition existing_tracks :: "int \<Rightarrow> sfu_room \<Rightarrow> nat list" where
  "existing_tracks u r = concat (map (\<lambda>v. if v = u then [] else published (rm_tracks r v)) (rm_order r))"

section \<open>Who is in a room\<close>

definition roomForUser :: "int \<Rightarrow> sfu_engine \<Rightarrow> (string \<times> sfu_room) option" where
  "roomForUser u e = (case e_users e u of None \<Rightarrow> None | Some rid \<Rightarrow> map_option (Pair rid) (e_rooms e rid))"

definition sfu_lookup :: "int \<Rightarrow> sfu_engine \<Rightarrow> (string \<times> sfu_room \<times> sfu_participant) option" where
  "sfu_lookup u e =
     (case roomForUser u e of
        None \<Rightarrow> None
      | Some (rid, r) \<Rightarrow> (case rm_participants r u of None \<Rightarrow> None | Some p \<Rightarrow> Some (rid, r, p)))"

definition RoomUserIDs :: "string \<Rightarrow> sfu_engine \<Rightarrow> int list" where
  "RoomUserIDs rid e = (case e_rooms e rid of None \<Rightarrow> [] | Some r \<Rightarrow> filter (\<lambda>u. rm_participants r u \<noteq> None) (rm_order r))"

text \<open>
  \<open>updateInfo\<close>; nothing, if the participant has been replaced since. \<open>f\<close> may read the room.
\<close>

definition updateInfo ::
  "string \<Rightarrow> int \<Rightarrow> nat \<Rightarrow> (sfu_room \<Rightarrow> sfu_info \<Rightarrow> sfu_info) \<Rightarrow> sfu_engine \<Rightarrow> sfu_engine" where
  "updateInfo rid u obj f e =
     (case e_rooms e rid of
        None \<Rightarrow> e
      | Some r \<Rightarrow>
         (case rm_participants r u of
            None \<Rightarrow> e
          | Some p \<Rightarrow>
              if sp_obj p \<noteq> obj then e
              else let i = f r (sp_info p) in
                emit_event (EventUpdated rid u i) (set_room rid (to_one u (\<lambda>p. p\<lparr>sp_info := i\<rparr>) r) e)))"

text \<open>
  \<open>remove\<close>: the tables forget the user, the others stop receiving its tracks, the earliest joiner left becomes the host if
  the host went, and an empty room goes.
\<close>

definition without_user :: "int \<Rightarrow> sfu_room \<Rightarrow> sfu_room" where
  "without_user u r = r\<lparr>rm_participants := (rm_participants r)(u := None), rm_order := filter (\<lambda>v. v \<noteq> u) (rm_order r),
     rm_tracks := (rm_tracks r)(u := Map.empty), rm_mutedTracks := (rm_mutedTracks r)(u := Map.empty),
     rm_locked := rm_locked r - {u}, rm_presenters := rm_presenters r - {u}\<rparr>"

definition promoted :: "bool \<Rightarrow> sfu_room \<Rightarrow> int option" where
  "promoted wasHost r =
     (if wasHost \<and> rm_order r \<noteq> [] \<and> rm_participants r (hd (rm_order r)) \<noteq> None then Some (hd (rm_order r)) else None)"

definition promote :: "int option \<Rightarrow> sfu_room \<Rightarrow> sfu_room" where
  "promote nh r = (case nh of None \<Rightarrow> r | Some v \<Rightarrow> to_one v (\<lambda>p. p\<lparr>sp_info := (sp_info p)\<lparr>pi_host := True\<rparr>\<rparr>) r)"

definition remove_user :: "string \<Rightarrow> int \<Rightarrow> sfu_engine \<Rightarrow> sfu_engine" where
  "remove_user rid u e =
     (case e_rooms e rid of
        None \<Rightarrow> e
      | Some r \<Rightarrow>
         (case rm_participants r u of
            None \<Rightarrow> e
          | Some p \<Rightarrow>
             (let r1 = without_user u r;
                  nh = promoted (pi_host (sp_info p)) r1;
                  r2 = promote nh r1;
                  r3 = to_others u (\<lambda>q. fold removeSender (published (rm_tracks r u)) q) r2;
                  e1 = emit_event (EventLeft rid u)
                        (set_room rid r3 (if e_users e u = Some rid then e\<lparr>e_users := (e_users e)(u := None)\<rparr> else e));
                  e2 = (case nh of None \<Rightarrow> e1
                        | Some v \<Rightarrow> (case rm_participants r2 v of None \<Rightarrow> e1
                            | Some q \<Rightarrow> emit_event (EventUpdated rid v (sp_info q)) e1))
              in if rm_order r3 = [] then emit_event (EventRoomClosed rid) (e2\<lparr>e_rooms := (e_rooms e2)(rid := None)\<rparr>)
                 else e2)))"

definition sfu_leave :: "int \<Rightarrow> sfu_engine \<Rightarrow> sfu_engine" where
  "sfu_leave u e = (case e_users e u of None \<Rightarrow> e | Some rid \<Rightarrow> remove_user rid u e)"

definition LeaveRoom :: "string \<Rightarrow> int \<Rightarrow> sfu_engine \<Rightarrow> sfu_engine \<times> bool" where
  "LeaveRoom rid u e =
     (case e_rooms e rid of
        None \<Rightarrow> (e, False)
      | Some r \<Rightarrow> if rm_participants r u = None then (e, False) else (remove_user rid u e, True))"

definition sfu_closeRoom :: "string \<Rightarrow> sfu_engine \<Rightarrow> sfu_engine" where
  "sfu_closeRoom rid e = fold sfu_leave (RoomUserIDs rid e) e"

datatype join_error = ErrRoomFull | ErrAlreadyInRoom | ErrSubscriber

text \<open>
  A participant that is not there yet; \<open>sub\<close> is whether a connection could be made for it, and which of its calls will fail.
\<close>

definition join_new :: "bool list option \<Rightarrow> string \<Rightarrow> int \<Rightarrow> bool \<Rightarrow> sfu_engine \<Rightarrow> sfu_engine \<times> join_error option" where
  "join_new sub rid u video e =
     (let created = (e_rooms e rid = None); r = nvl (e_rooms e rid) newRoom in
      if length (rm_order r) \<ge> e_max e then (e, Some ErrRoomFull)
      else if sub = None then (e, Some ErrSubscriber)
      else
        (let host = (rm_order r = []);
             i = \<lparr>pi_user = u, pi_muted = False, pi_video = video, pi_screen = False, pi_host = host, pi_locked = False,
                  pi_can_present = canPresentLocked r u host\<rparr>;
             p = \<lparr>sp_obj = e_objs e, sp_info = i, sp_senders = [], sp_subPending = False, sp_subAgain = False,
                  sp_screenPending = None, sp_fails = the sub, sp_unoffered = False, sp_out = []\<rparr>;
             r1 = r\<lparr>rm_participants := (rm_participants r)(u \<mapsto> p), rm_order := rm_order r @ [u]\<rparr>;
             p1 = sp_send (SigJoined rid (snapshotLocked r1) False) (fold addSender (existing_tracks u r1) p);
             e1 = (set_room rid (to_one u (\<lambda>_. p1) r1) e)\<lparr>e_users := (e_users e)(u \<mapsto> rid), e_objs := e_objs e + 1\<rparr>;
             e2 = (if created then emit_event (EventRoomCreated rid u) e1 else e1)
         in (emit_event (EventJoined rid u i) e2, None)))"

text \<open>\<open>Join\<close>; \<open>alive\<close> is whether a participant that is already there can be resumed.\<close>

definition sfu_join :: "bool \<Rightarrow> bool list option \<Rightarrow> string \<Rightarrow> int \<Rightarrow> bool \<Rightarrow> bool \<Rightarrow> sfu_engine \<Rightarrow> sfu_engine \<times> join_error option" where
  "sfu_join alive sub rid u video resume e =
     (if e_users e u \<noteq> None \<and> e_users e u \<noteq> Some rid then (e, Some ErrAlreadyInRoom)
      else (case e_rooms e rid of
        None \<Rightarrow> join_new sub rid u video e
      | Some r \<Rightarrow>
         (case rm_participants r u of
            None \<Rightarrow> join_new sub rid u video e
          | Some p \<Rightarrow>
              if resume \<and> alive
              then (set_room rid (to_one u (\<lambda>p. resendSubscriberOffer (sp_send (SigJoined rid (snapshotLocked r) True) p)) r) e, None)
              else join_new sub rid u video (remove_user rid u e))))"

section \<open>Tracks\<close>

definition publish_track :: "string \<Rightarrow> int \<Rightarrow> nat \<Rightarrow> track_key \<Rightarrow> nat \<Rightarrow> sfu_engine \<Rightarrow> sfu_engine" where
  "publish_track rid u obj k t e =
     (case e_rooms e rid of
        None \<Rightarrow> e
      | Some r \<Rightarrow>
         (case rm_participants r u of
            None \<Rightarrow> e
          | Some p \<Rightarrow>
             (let drop_previous = (\<lambda>r'. case rm_tracks r u k of None \<Rightarrow> r' | Some old \<Rightarrow> to_others u (removeSender old) r') in
              if sp_obj p \<noteq> obj then e
              else if k = MicKey \<and> u \<in> rm_locked r
              then set_room rid (drop_previous
                     (r\<lparr>rm_mutedTracks := (rm_mutedTracks r)(u := (rm_mutedTracks r u)(MicKey \<mapsto> t)),
                        rm_tracks := (rm_tracks r)(u := (rm_tracks r u)(MicKey := None))\<rparr>)) e
              else set_room rid (to_others u (addSender t) (drop_previous
                     (r\<lparr>rm_tracks := (rm_tracks r)(u := (rm_tracks r u)(k \<mapsto> t))\<rparr>))) e)))"

text \<open>\<open>unpublish\<close>; \<open>expected\<close> restricts it to one track.\<close>

definition unpublish :: "string \<Rightarrow> int \<Rightarrow> track_key \<Rightarrow> nat option \<Rightarrow> sfu_engine \<Rightarrow> sfu_engine \<times> bool" where
  "unpublish rid u k expected e =
     (case e_rooms e rid of
        None \<Rightarrow> (e, False)
      | Some r \<Rightarrow>
         (case rm_tracks r u k of
            None \<Rightarrow> (e, False)
          | Some t \<Rightarrow>
              if expected \<noteq> None \<and> expected \<noteq> Some t then (e, False)
              else (set_room rid (to_others u (removeSender t)
                      (r\<lparr>rm_tracks := (rm_tracks r)(u := (rm_tracks r u)(k := None))\<rparr>)) e, True)))"

definition forceMuteMic :: "int \<Rightarrow> sfu_room \<Rightarrow> sfu_room" where
  "forceMuteMic u r =
     (case rm_tracks r u MicKey of
        None \<Rightarrow> r
      | Some t \<Rightarrow> to_others u (removeSender t)
          (r\<lparr>rm_tracks := (rm_tracks r)(u := (rm_tracks r u)(MicKey := None)),
             rm_mutedTracks := (rm_mutedTracks r)(u := (rm_mutedTracks r u)(MicKey \<mapsto> t))\<rparr>))"

definition restoreMic :: "int \<Rightarrow> sfu_room \<Rightarrow> sfu_room" where
  "restoreMic u r =
     (case rm_mutedTracks r u MicKey of
        None \<Rightarrow> r
      | Some t \<Rightarrow> to_others u (addSender t)
          (r\<lparr>rm_mutedTracks := (rm_mutedTracks r)(u := (rm_mutedTracks r u)(MicKey := None)),
             rm_tracks := (rm_tracks r)(u := (rm_tracks r u)(MicKey \<mapsto> t))\<rparr>))"

definition on_room :: "string \<Rightarrow> (sfu_room \<Rightarrow> sfu_room) \<Rightarrow> sfu_engine \<Rightarrow> sfu_engine" where
  "on_room rid f e = (case e_rooms e rid of None \<Rightarrow> e | Some r \<Rightarrow> set_room rid (f r) e)"

text \<open>
  \<open>onTrack\<close>: a track of the browser arrives at instant \<open>now\<close> (nanoseconds); \<open>kind_audio\<close> and \<open>id_screen\<close> are what
  \<open>trackKey\<close> reads, \<open>t\<close> is the forwarding track made for it.
\<close>

definition trackKey :: "bool \<Rightarrow> bool \<Rightarrow> track_key" where
  "trackKey kind_audio id_screen = (if kind_audio then MicKey else if id_screen then ScreenKey else CamKey)"

definition screenPendingTTL :: int where "screenPendingTTL = 5000000000"

definition onTrack :: "int \<Rightarrow> int \<Rightarrow> nat \<Rightarrow> bool \<Rightarrow> bool \<Rightarrow> nat \<Rightarrow> sfu_engine \<Rightarrow> sfu_engine" where
  "onTrack now u obj kind_audio id_screen t e =
     (case sfu_lookup u e of
        None \<Rightarrow> e
      | Some (rid, r, p) \<Rightarrow>
          if sp_obj p \<noteq> obj then e
          else
            (let key0 = trackKey kind_audio id_screen;
                 announced = (case sp_screenPending p of None \<Rightarrow> False | Some at \<Rightarrow> now - at < screenPendingTTL);
                 e1 = (if key0 = CamKey \<and> announced
                       then on_room rid (to_one u (\<lambda>p. p\<lparr>sp_screenPending := None\<rparr>)) e else e);
                 k = (if key0 = CamKey \<and> announced then ScreenKey else key0)
             in if k = ScreenKey \<and> \<not> pi_can_present (sp_info p) then e1
                else (let e2 = publish_track rid u obj k t e1 in
                      case k of
                        MicKey \<Rightarrow> e2
                      | CamKey \<Rightarrow> updateInfo rid u obj (\<lambda>_ i. i\<lparr>pi_video := True\<rparr>) e2
                      | ScreenKey \<Rightarrow> updateInfo rid u obj (\<lambda>_ i. i\<lparr>pi_screen := True\<rparr>) e2)))"

text \<open>\<open>forward\<close> once the browser's track has ended.\<close>

definition sfu_track_ended :: "string \<Rightarrow> int \<Rightarrow> nat \<Rightarrow> track_key \<Rightarrow> nat \<Rightarrow> sfu_engine \<Rightarrow> sfu_engine" where
  "sfu_track_ended rid u obj k t e =
     (case unpublish rid u k (Some t) e of
        (e1, False) \<Rightarrow> e1
      | (e1, True) \<Rightarrow>
         (case k of
            MicKey \<Rightarrow> updateInfo rid u obj (\<lambda>_ i. i\<lparr>pi_muted := True\<rparr>) e1
          | CamKey \<Rightarrow> updateInfo rid u obj (\<lambda>_ i. i\<lparr>pi_video := False\<rparr>) e1
          | ScreenKey \<Rightarrow> updateInfo rid u obj (\<lambda>_ i. i\<lparr>pi_screen := False\<rparr>) e1))"

definition tell :: "string \<Rightarrow> int \<Rightarrow> sfu_signal \<Rightarrow> sfu_engine \<Rightarrow> sfu_engine" where
  "tell rid u s = on_room rid (to_one u (sp_send s))"

text \<open>\<open>onTrackState\<close>: the toggles a client reports, with the two refusals.\<close>

definition onTrackState :: "int \<Rightarrow> int \<Rightarrow> bool \<Rightarrow> bool \<Rightarrow> bool \<Rightarrow> sfu_engine \<Rightarrow> sfu_engine" where
  "onTrackState now u muted video screen e =
     (case sfu_lookup u e of
        None \<Rightarrow> e
      | Some (rid, r, p) \<Rightarrow>
         (let i = sp_info p;
              refused = (screen \<and> \<not> pi_screen i \<and> \<not> pi_can_present i);
              e1 = (if screen \<and> \<not> pi_screen i
                    then (if \<not> pi_can_present i
                          then tell rid u (SigError ''only the host or an approved presenter can share their screen'') e
                          else on_room rid (to_one u (\<lambda>p. p\<lparr>sp_screenPending := Some now\<rparr>)) e)
                    else e);
              screen1 = (screen \<and> \<not> refused);
              e2 = (if \<not> screen1 \<and> pi_screen i then fst (unpublish rid u ScreenKey None e1) else e1);
              locked = (\<not> muted \<and> pi_muted i \<and> u \<in> rm_locked r);
              e3 = (if \<not> muted \<and> pi_muted i
                    then (if u \<in> rm_locked r then tell rid u (SigError ''the host has locked your microphone'') e2
                          else on_room rid (restoreMic u) e2)
                    else e2);
              muted1 = (muted \<or> locked)
          in updateInfo rid u (sp_obj p) (\<lambda>_ i. i\<lparr>pi_muted := muted1, pi_video := video, pi_screen := screen1\<rparr>) e3))"

section \<open>What the host may do\<close>

definition is_host :: "int \<Rightarrow> bool \<Rightarrow> sfu_engine \<Rightarrow> bool" where
  "is_host u admin e = (case sfu_lookup u e of None \<Rightarrow> False | Some (_, _, p) \<Rightarrow> pi_host (sp_info p) \<or> admin)"

text \<open>The target of a host's request, if the requester may and both are in one room.\<close>

definition requireHost :: "int \<Rightarrow> int \<Rightarrow> bool \<Rightarrow> sfu_engine \<Rightarrow> (string \<times> sfu_participant) option" where
  "requireHost requester target admin e =
     (if \<not> is_host requester admin e then None
      else (case (sfu_lookup requester e, sfu_lookup target e) of
              (Some (rid, _, _), Some (rid', _, t)) \<Rightarrow> if rid' = rid then Some (rid, t) else None
            | _ \<Rightarrow> None))"

definition MuteRequest :: "int \<Rightarrow> int \<Rightarrow> bool \<Rightarrow> bool \<Rightarrow> sfu_engine \<Rightarrow> sfu_engine \<times> bool" where
  "MuteRequest requester target admin lock e =
     (case requireHost requester target admin e of
        None \<Rightarrow> (e, False)
      | Some (rid, t) \<Rightarrow>
         (let e1 = tell rid target (SigMuted requester lock) e;
              e2 = updateInfo rid target (sp_obj t) (\<lambda>_ i. i\<lparr>pi_muted := True, pi_locked := lock\<rparr>) e1;
              e3 = on_room rid (forceMuteMic target) e2
          in (if lock then on_room rid (\<lambda>r. r\<lparr>rm_locked := insert target (rm_locked r)\<rparr>) e3 else e3, True)))"

definition UnlockRequest :: "int \<Rightarrow> int \<Rightarrow> bool \<Rightarrow> sfu_engine \<Rightarrow> sfu_engine \<times> bool" where
  "UnlockRequest requester target admin e =
     (case requireHost requester target admin e of
        None \<Rightarrow> (e, False)
      | Some (rid, t) \<Rightarrow>
          (tell rid target (SigUnlocked requester)
            (updateInfo rid target (sp_obj t) (\<lambda>_ i. i\<lparr>pi_locked := False\<rparr>)
              (on_room rid (\<lambda>r. r\<lparr>rm_locked := rm_locked r - {target}\<rparr>) e)), True))"

definition KickRequest :: "int \<Rightarrow> int \<Rightarrow> bool \<Rightarrow> sfu_engine \<Rightarrow> sfu_engine \<times> bool" where
  "KickRequest requester target admin e =
     (case requireHost requester target admin e of
        None \<Rightarrow> (e, False)
      | Some (rid, t) \<Rightarrow> (remove_user rid target (tell rid target (SigRemoved requester) e), True))"

text \<open>Everyone whose standing changes is announced, in the order they joined.\<close>

definition announce :: "string \<Rightarrow> (int \<times> sfu_info) list \<Rightarrow> sfu_engine \<Rightarrow> sfu_engine" where
  "announce rid is e = fold (\<lambda>(u, i). emit_event (EventUpdated rid u i)) is e"

definition with_standing :: "(int \<Rightarrow> sfu_info \<Rightarrow> sfu_info) \<Rightarrow> sfu_room \<Rightarrow> sfu_room" where
  "with_standing f r = r\<lparr>rm_participants := (\<lambda>v. map_option (\<lambda>p. p\<lparr>sp_info := f v (sp_info p)\<rparr>) (rm_participants r v))\<rparr>"

definition infos :: "sfu_room \<Rightarrow> (int \<times> sfu_info) list" where
  "infos r = concat (map (\<lambda>u. case rm_participants r u of None \<Rightarrow> [] | Some p \<Rightarrow> [(u, sp_info p)]) (rm_order r))"

definition claim_standing :: "sfu_room \<Rightarrow> int \<Rightarrow> int \<Rightarrow> sfu_info \<Rightarrow> sfu_info" where
  "claim_standing r u v i =
     (if pi_host i = (v = u) then i else i\<lparr>pi_host := (v = u), pi_can_present := canPresentLocked r v (v = u)\<rparr>)"

definition ClaimHost :: "string \<Rightarrow> int \<Rightarrow> sfu_engine \<Rightarrow> sfu_engine" where
  "ClaimHost rid u e =
     (case e_rooms e rid of
        None \<Rightarrow> e
      | Some r \<Rightarrow>
         (case rm_participants r u of
            None \<Rightarrow> e
          | Some p \<Rightarrow>
              if pi_host (sp_info p) then e
              else (let r1 = with_standing (claim_standing r u) r in
                    announce rid (filter (\<lambda>(v, i). (v, i) \<notin> set (infos r)) (infos r1)) (set_room rid r1 e))))"

definition SetPresenterOnly :: "int \<Rightarrow> bool \<Rightarrow> bool \<Rightarrow> sfu_engine \<Rightarrow> sfu_engine \<times> bool" where
  "SetPresenterOnly requester enabled admin e =
     (case sfu_lookup requester e of
        None \<Rightarrow> (e, False)
      | Some (rid, r, p) \<Rightarrow>
          if \<not> pi_host (sp_info p) \<and> \<not> admin then (e, False)
          else (let r0 = r\<lparr>rm_presenterOnly := enabled\<rparr>;
                    r1 = with_standing (\<lambda>v i. i\<lparr>pi_can_present := canPresentLocked r0 v (pi_host i)\<rparr>) r0
                in (announce rid (infos r1) (set_room rid r1 e), True)))"

definition SetPresenter :: "int \<Rightarrow> int \<Rightarrow> bool \<Rightarrow> bool \<Rightarrow> sfu_engine \<Rightarrow> sfu_engine \<times> bool" where
  "SetPresenter requester target allowed admin e =
     (case requireHost requester target admin e of
        None \<Rightarrow> (e, False)
      | Some (rid, t) \<Rightarrow>
         (let e1 = on_room rid (\<lambda>r. r\<lparr>rm_presenters :=
                (if allowed then insert target (rm_presenters r) else rm_presenters r - {target})\<rparr>) e
          in (updateInfo rid target (sp_obj t) (\<lambda>r i. i\<lparr>pi_can_present := canPresentLocked r target (pi_host i)\<rparr>) e1, True)))"

end
