(* ===== verification/ServerRoomLaws.thy ===== *)
theory ServerRoomLaws
  imports ServerRooms
begin

text \<open>
  What the server promises about conference rooms: the index of who is where is exact, every room has one host and no
  more people than allowed, a locked microphone is not forwarded, a forced mute silences the track it finds, and a
  subscriber that has answered knows exactly the tracks it is sent. And four places where the tables part.
\<close>

section \<open>The events\<close>

definition track_arrives :: "int \<Rightarrow> int \<Rightarrow> nat \<Rightarrow> bool \<Rightarrow> bool \<Rightarrow> sfu_engine \<Rightarrow> sfu_engine" where
  "track_arrives now u obj audio screen e = onTrack now u obj audio screen (e_objs e) (e\<lparr>e_objs := e_objs e + 1\<rparr>)"

datatype (plugins only: size code) sfu_op =
    OpJoin bool "bool list option" string int bool bool
  | OpLeave int
  | OpLeaveRoom string int
  | OpCloseRoom string
  | OpClaim string int
  | OpMute int int bool bool
  | OpUnlock int int bool
  | OpKick int int bool
  | OpPresenterOnly int bool bool
  | OpPresenter int int bool bool
  | OpTrack int int nat bool bool
  | OpTrackEnded string int nat track_key nat
  | OpTrackState int int bool bool bool
  | OpAnswer string int bool

primrec sfu_step :: "sfu_op \<Rightarrow> sfu_engine \<Rightarrow> sfu_engine" where
  "sfu_step (OpJoin al ok rid u v res) e = fst (sfu_join al ok rid u v res e)"
| "sfu_step (OpLeave u) e = sfu_leave u e"
| "sfu_step (OpLeaveRoom rid u) e = fst (LeaveRoom rid u e)"
| "sfu_step (OpCloseRoom rid) e = sfu_closeRoom rid e"
| "sfu_step (OpClaim rid u) e = ClaimHost rid u e"
| "sfu_step (OpMute a b adm l) e = fst (MuteRequest a b adm l e)"
| "sfu_step (OpUnlock a b adm) e = fst (UnlockRequest a b adm e)"
| "sfu_step (OpKick a b adm) e = fst (KickRequest a b adm e)"
| "sfu_step (OpPresenterOnly a en adm) e = fst (SetPresenterOnly a en adm e)"
| "sfu_step (OpPresenter a b al adm) e = fst (SetPresenter a b al adm e)"
| "sfu_step (OpTrack now u obj au sc) e = track_arrives now u obj au sc e"
| "sfu_step (OpTrackEnded rid u obj k t) e = sfu_track_ended rid u obj k t e"
| "sfu_step (OpTrackState now u m v sc) e = onTrackState now u m v sc e"
| "sfu_step (OpAnswer rid u ok) e = on_room rid (to_one u (onSubAnswer ok)) e"

definition sfu_run :: "nat \<Rightarrow> sfu_op list \<Rightarrow> sfu_engine" where
  "sfu_run m ops = fold sfu_step ops (new_engine m)"

section \<open>Who is where, and who is the host\<close>

text \<open>The part of the engine this concerns: the index, and for each room the order of joining and who hosts.\<close>

definition hosts :: "sfu_room \<Rightarrow> int \<rightharpoonup> bool" where
  "hosts r = (\<lambda>u. map_option (\<lambda>p. pi_host (sp_info p)) (rm_participants r u))"

definition room_view :: "sfu_room \<Rightarrow> int list \<times> (int \<rightharpoonup> bool)" where
  "room_view r = (rm_order r, hosts r)"

type_synonym sfu_view = "(int \<rightharpoonup> string) \<times> (string \<rightharpoonup> int list \<times> (int \<rightharpoonup> bool)) \<times> nat"

definition view :: "sfu_engine \<Rightarrow> sfu_view" where
  "view e = (e_users e, (\<lambda>rid. map_option room_view (e_rooms e rid)), e_max e)"

fun rview_ok :: "nat \<Rightarrow> int list \<times> (int \<rightharpoonup> bool) \<Rightarrow> bool" where
  "rview_ok m (order, hs) = (distinct order \<and> set order = dom hs \<and> order \<noteq> [] \<and> length order \<le> m \<and>
     (\<exists>u. \<forall>v. hs v = Some True \<longleftrightarrow> v = u))"

fun view_ok :: "sfu_view \<Rightarrow> bool" where
  "view_ok (us, rooms, m) = ((\<forall>rid v. rooms rid = Some v \<longrightarrow> rview_ok m v) \<and>
     (\<forall>u rid. us u = Some rid \<longleftrightarrow> (\<exists>v. rooms rid = Some v \<and> u \<in> dom (snd v))))"

abbreviation members_ok :: "sfu_engine \<Rightarrow> bool" where
  "members_ok e \<equiv> view_ok (view e)"

lemma dom_hosts [simp]: "dom (hosts r) = dom (rm_participants r)"
  by (auto simp: hosts_def)

lemma hosts_to_others [simp]: "(\<And>p. pi_host (sp_info (f p)) = pi_host (sp_info p)) \<Longrightarrow> room_view (to_others u f r) = room_view r"
  by (auto simp: room_view_def hosts_def to_others_def option.map_comp comp_def fun_eq_iff)

lemma hosts_to_one [simp]: "(\<And>p. pi_host (sp_info (f p)) = pi_host (sp_info p)) \<Longrightarrow> room_view (to_one u f r) = room_view r"
  by (auto simp: room_view_def hosts_def to_one_def option.map_comp comp_def fun_eq_iff)

lemma room_view_tables [simp]:
  "room_view (r\<lparr>rm_tracks := t\<rparr>) = room_view r" "room_view (r\<lparr>rm_mutedTracks := t\<rparr>) = room_view r"
  "room_view (r\<lparr>rm_locked := l\<rparr>) = room_view r" "room_view (r\<lparr>rm_presenters := l\<rparr>) = room_view r"
  "room_view (r\<lparr>rm_presenterOnly := b\<rparr>) = room_view r"
  by (simp_all add: room_view_def hosts_def)

lemma sp_info_ops [simp]:
  "sp_info (sp_send s p) = sp_info p" "sp_info (renegotiateSub p) = sp_info p" "sp_info (addSender t p) = sp_info p"
  "sp_info (removeSender t p) = sp_info p" "sp_info (onSubAnswer ok p) = sp_info p" "sp_info (resendSubscriberOffer p) = sp_info p"
  by (auto simp: sp_send_def renegotiateSub_def pc_called_def addSender_def removeSender_def onSubAnswer_def resendSubscriberOffer_def Let_def
      split: option.split)

lemma sp_info_folds [simp]:
  "sp_info (fold removeSender ts p) = sp_info p" "sp_info (fold addSender ts p) = sp_info p"
  by (induction ts arbitrary: p) simp_all

lemma view_simps [simp]:
  "view (emit_event ev e) = view e" "view (e\<lparr>e_objs := n\<rparr>) = view e" "view (e\<lparr>e_events := es\<rparr>) = view e"
  "e_rooms (emit_event ev e) = e_rooms e" "e_users (emit_event ev e) = e_users e" "e_max (emit_event ev e) = e_max e"
  "e_users (set_room rid r e) = e_users e" "e_max (set_room rid r e) = e_max e" "e_objs (emit_event ev e) = e_objs e"
  "e_objs (set_room rid r e) = e_objs e" "e_rooms (set_room rid r e) = (e_rooms e)(rid \<mapsto> r)"
  by (simp_all add: view_def emit_event_def set_room_def)

lemma view_set_room: "e_rooms e rid = Some r \<Longrightarrow> room_view r' = room_view r \<Longrightarrow> view (set_room rid r' e) = view e"
  by (auto simp: view_def set_room_def fun_eq_iff)

lemma view_on_room: "(\<And>r. room_view (f r) = room_view r) \<Longrightarrow> view (on_room rid f e) = view e"
  by (auto simp: on_room_def intro: view_set_room split: option.split)

lemma view_updateInfo: "(\<And>r i. pi_host (f r i) = pi_host i) \<Longrightarrow> view (updateInfo rid u obj f e) = view e"
proof -
  assume f: "\<And>r i. pi_host (f r i) = pi_host i"
  have "room_view (to_one u (\<lambda>p. p\<lparr>sp_info := f r (sp_info q)\<rparr>) r) = room_view r" if "rm_participants r u = Some q" for r q
    using that f by (auto simp: room_view_def hosts_def to_one_def fun_eq_iff)
  then show ?thesis
    by (auto simp: updateInfo_def Let_def intro!: view_set_room split: option.split)
qed

lemma view_tell [simp]: "view (tell rid u s e) = view e"
  by (simp add: tell_def view_on_room)

lemma view_unpublish: "view (fst (unpublish rid u k ex e)) = view e"
  by (auto simp: unpublish_def intro!: view_set_room split: option.split)

lemma room_view_mics [simp]: "room_view (forceMuteMic u r) = room_view r" "room_view (restoreMic u r) = room_view r"
  by (auto simp: forceMuteMic_def restoreMic_def split: option.split)

lemma view_publish: "view (publish_track rid u obj k t e) = view e"
  by (auto simp: publish_track_def Let_def intro!: view_set_room split: option.split)

lemma view_onTrack: "view (onTrack now u obj a s t e) = view e"
  by (auto simp: onTrack_def Let_def view_updateInfo view_publish view_on_room split: option.split prod.split track_key.split)

lemma view_track_ended: "view (sfu_track_ended rid u obj k t e) = view e"
proof -
  have "view e1 = view e" if "unpublish rid u k (Some t) e = (e1, b)" for e1 b
    using view_unpublish [of rid u k "Some t" e] that by simp
  then show ?thesis
    by (auto simp: sfu_track_ended_def view_updateInfo split: prod.split bool.split track_key.split)
qed

lemma view_onTrackState: "view (onTrackState now u m v sc e) = view e"
  by (simp add: onTrackState_def Let_def view_updateInfo view_on_room view_unpublish split: option.split prod.split)

lemma view_mute: "view (fst (MuteRequest a b adm l e)) = view e" "view (fst (UnlockRequest a b adm e)) = view e"
  by (auto simp: MuteRequest_def UnlockRequest_def Let_def view_updateInfo view_on_room split: option.split prod.split)

lemma view_presenter: "view (fst (SetPresenter a b al adm e)) = view e"
  by (auto simp: SetPresenter_def Let_def view_updateInfo view_on_room split: option.split prod.split)

lemma view_announce [simp]: "view (announce rid is e) = view e" "e_rooms (announce rid is e) = e_rooms e"
  by (induction "is" arbitrary: e) (auto simp: announce_def)

lemma view_presenter_only: "view (fst (SetPresenterOnly a en adm e)) = view e"
  by (auto simp: SetPresenterOnly_def Let_def sfu_lookup_def roomForUser_def room_view_def hosts_def with_standing_def option.map_comp comp_def
      intro!: view_set_room split: option.splits)

lemma hosts_without [simp]: "hosts (without_user u r) = (hosts r)(u := None)" "rm_order (without_user u r) = filter (\<lambda>v. v \<noteq> u) (rm_order r)"
  by (auto simp: hosts_def without_user_def fun_eq_iff)

lemma hosts_promote: "rm_participants r v \<noteq> None \<Longrightarrow> hosts (promote (Some v) r) = (hosts r)(v \<mapsto> True)"
  by (auto simp: hosts_def promote_def to_one_def fun_eq_iff)

lemma rm_order_promote [simp]: "rm_order (promote nh r) = rm_order r" "rm_order (to_others u f r) = rm_order r" "rm_order (to_one u f r) = rm_order r"
  by (auto simp: promote_def to_one_def to_others_def split: option.split)

text \<open>A room that somebody leaves and that is not empty then has one host again.\<close>

lemma room_without:
  assumes ok: "rview_ok m (room_view r)" and p: "rm_participants r u = Some p" and left: "filter (\<lambda>v. v \<noteq> u) (rm_order r) \<noteq> []"
  shows "rview_ok m (room_view (promote (promoted (pi_host (sp_info p)) (without_user u r)) (without_user u r)))"
proof -
  let ?r = "without_user u r" and ?o = "filter (\<lambda>v. v \<noteq> u) (rm_order r)"
  obtain w where w: "\<And>v. hosts r v = Some True \<longleftrightarrow> v = w"
    using ok by (auto simp: room_view_def)
  have members: "set ?o = dom (rm_participants ?r)" "distinct ?o" "length ?o \<le> m"
    using ok order_trans [OF length_filter_le [of "\<lambda>v. v \<noteq> u" "rm_order r"], of m] by (auto simp: room_view_def without_user_def)
  have "hosts r u = Some (pi_host (sp_info p))"
    using p by (simp add: hosts_def)
  then have wasHost: "pi_host (sp_info p) \<longleftrightarrow> u = w"
    using w [of u] by auto
  show ?thesis
  proof (cases "u = w")
    case True
    let ?v = "hd ?o"
    have v: "rm_participants ?r ?v \<noteq> None"
      using members(1) left hd_in_set [OF left] by blast
    then have nh: "promoted (pi_host (sp_info p)) ?r = Some ?v"
      using True wasHost left by (simp add: promoted_def)
    have "hosts (promote (Some ?v) ?r) x = Some True \<longleftrightarrow> x = ?v" for x
      unfolding hosts_promote [OF v] using w [of x] True by auto
    moreover have "dom (hosts (promote (Some ?v) ?r)) = set ?o"
      unfolding hosts_promote [OF v] using v members(1) by (auto simp: dom_def hosts_def without_user_def)
    ultimately show ?thesis
      unfolding nh using members left by (auto simp: room_view_def simp del: dom_hosts)
  next
    case False
    then have "promoted (pi_host (sp_info p)) ?r = None"
      using wasHost by (simp add: promoted_def)
    moreover have "((hosts r)(u := None)) v = Some True \<longleftrightarrow> v = w" for v
      using w [of v] False by auto
    moreover have "dom ((hosts r)(u := None)) = set ?o"
      using members(1) by (auto simp: dom_def hosts_def without_user_def)
    ultimately show ?thesis
      using members left by (auto simp: room_view_def promote_def simp del: fun_upd_apply dom_fun_upd)
  qed
qed

lemma view_member:
  "(\<exists>v. map_option room_view x = Some v \<and> u \<in> dom (snd v)) \<longleftrightarrow> (\<exists>r. x = Some r \<and> rm_participants r u \<noteq> None)"
  by (cases x) (auto simp: room_view_def domIff hosts_def)

lemma view_room:
  "(\<forall>rid v. map_option f (g rid) = Some v \<longrightarrow> P v) \<longleftrightarrow> (\<forall>rid r. g rid = Some r \<longrightarrow> P (f r))"
  by auto

lemma members_ok_iff:
  "members_ok e \<longleftrightarrow> (\<forall>rid r. e_rooms e rid = Some r \<longrightarrow> rview_ok (e_max e) (room_view r)) \<and>
     (\<forall>u rid. e_users e u = Some rid \<longleftrightarrow> (\<exists>r. e_rooms e rid = Some r \<and> rm_participants r u \<noteq> None))"
  unfolding view_def view_ok.simps view_member view_room ..

lemma view_okD:
  assumes "members_ok e"
  shows "e_rooms e rid = Some r \<Longrightarrow> rview_ok (e_max e) (room_view r)"
    "e_users e u = Some rid \<longleftrightarrow> (\<exists>r. e_rooms e rid = Some r \<and> rm_participants r u \<noteq> None)"
  using assms unfolding members_ok_iff by blast+

lemma view_okI:
  assumes "\<And>rid r. e_rooms e rid = Some r \<Longrightarrow> rview_ok (e_max e) (room_view r)"
    and "\<And>u rid. e_users e u = Some rid \<longleftrightarrow> (\<exists>r. e_rooms e rid = Some r \<and> rm_participants r u \<noteq> None)"
  shows "members_ok e"
  using assms unfolding members_ok_iff by blast

text \<open>What is left after \<open>remove\<close>, up to the announcements.\<close>

definition left_room :: "int \<Rightarrow> sfu_room \<Rightarrow> sfu_participant \<Rightarrow> sfu_room" where
  "left_room u r p = to_others u (\<lambda>q. fold removeSender (published (rm_tracks r u)) q)
     (promote (promoted (pi_host (sp_info p)) (without_user u r)) (without_user u r))"

lemma remove_user_fields:
  assumes "e_rooms e rid = Some r" "rm_participants r u = Some p"
  shows "e_rooms (remove_user rid u e) =
      (if filter (\<lambda>v. v \<noteq> u) (rm_order r) = [] then (e_rooms e)(rid := None) else (e_rooms e)(rid \<mapsto> left_room u r p))"
    "e_users (remove_user rid u e) = (if e_users e u = Some rid then (e_users e)(u := None) else e_users e)"
    "e_max (remove_user rid u e) = e_max e"
  using assms
  by (auto simp: remove_user_def Let_def left_room_def emit_event_def set_room_def split: option.split)

lemma participants_left:
  "rm_participants (left_room u r p) v = None \<longleftrightarrow> v = u \<or> rm_participants r v = None"
  by (auto simp: left_room_def to_others_def promote_def to_one_def without_user_def promoted_def split: option.splits)

lemma members_ok_remove:
  assumes "members_ok e"
  shows "members_ok (remove_user rid u e)"
proof (cases "\<exists>r p. e_rooms e rid = Some r \<and> rm_participants r u = Some p")
  case False
  then have "remove_user rid u e = e"
    by (auto simp: remove_user_def split: option.split)
  then show ?thesis using assms by simp
next
  case True
  then obtain r p where r: "e_rooms e rid = Some r" "rm_participants r u = Some p" by blast
  note fields = remove_user_fields [OF r]
  have inside: "e_users e u = Some rid"
    using view_okD(2) [OF assms, of u rid] r by auto
  have members: "set (rm_order r) = dom (rm_participants r)"
    using view_okD(1) [OF assms r(1)] by (simp add: room_view_def)
  have empty: "filter (\<lambda>v. v \<noteq> u) (rm_order r) = [] \<longleftrightarrow> (\<forall>v. v \<noteq> u \<longrightarrow> rm_participants r v = None)"
    using members by (auto simp: filter_empty_conv domIff)
  have only: "rm_participants r' u = None" if "e_rooms e rid' = Some r'" "rid' \<noteq> rid" for rid' r'
    using view_okD(2) [OF assms, of u rid'] inside that by auto
  show ?thesis
  proof (rule view_okI)
    fix rid' r'
    assume "e_rooms (remove_user rid u e) rid' = Some r'"
    then show "rview_ok (e_max (remove_user rid u e)) (room_view r')"
      using view_okD(1) [OF assms] room_without [OF view_okD(1) [OF assms r(1)] r(2)]
      by (auto simp: fields left_room_def split: if_splits)
  next
    fix v rid'
    show "e_users (remove_user rid u e) v = Some rid' \<longleftrightarrow>
        (\<exists>r. e_rooms (remove_user rid u e) rid' = Some r \<and> rm_participants r v \<noteq> None)"
    proof (cases "v = u")
      case True
      then show ?thesis
        using inside only by (auto simp: fields participants_left split: if_splits)
    next
      case False
      show ?thesis
      proof (cases "rid' = rid")
        case True
        have "e_users e v = Some rid \<longleftrightarrow> rm_participants r v \<noteq> None"
          using view_okD(2) [OF assms, of v rid] r(1) by auto
        then show ?thesis
          using True False inside empty participants_left [of u r p v]
          by (cases "filter (\<lambda>v. v \<noteq> u) (rm_order r) = []") (simp_all add: fields del: not_None_eq)
      qed (use False inside view_okD(2) [OF assms, of v rid'] in \<open>auto simp: fields\<close>)
    qed
  qed
qed

lemma members_ok_leave: "members_ok e \<Longrightarrow> members_ok (sfu_leave u e)"
  by (auto simp: sfu_leave_def members_ok_remove simp del: view_ok.simps split: option.split)

lemma members_ok_fold: "members_ok e \<Longrightarrow> members_ok (fold sfu_leave us e)"
  by (induction us arbitrary: e) (simp_all add: members_ok_leave del: view_ok.simps)

text \<open>A newcomer is the host exactly when the room was empty.\<close>

lemma room_view_joined:
  "room_view (to_one u (\<lambda>_. q) (r\<lparr>rm_participants := (rm_participants r)(u \<mapsto> p), rm_order := rm_order r @ [u]\<rparr>)) =
   (rm_order r @ [u], (hosts r)(u \<mapsto> pi_host (sp_info q)))"
  by (auto simp: room_view_def hosts_def to_one_def fun_eq_iff)

lemma rview_joined:
  assumes "rview_ok m (room_view r) \<or> room_view r = ([], Map.empty)" "hosts r u = None" "length (rm_order r) < m"
  shows "rview_ok m (rm_order r @ [u], (hosts r)(u \<mapsto> (rm_order r = [])))"
proof (cases "rm_order r = []")
  case True
  then have "hosts r = Map.empty"
    using assms(1) by (auto simp: room_view_def)
  then show ?thesis using True assms(3) by auto
next
  case False
  then have ok: "rview_ok m (room_view r)" using assms(1) by (auto simp: room_view_def)
  then obtain w where w: "\<And>v. hosts r v = Some True \<longleftrightarrow> v = w"
    by (auto simp: room_view_def)
  then have "((hosts r)(u \<mapsto> False)) v = Some True \<longleftrightarrow> v = w" for v
    using assms(2) w [of u] w [of v] by auto
  moreover have "u \<notin> set (rm_order r)"
    using ok assms(2) by (auto simp: room_view_def domIff hosts_def)
  moreover have "set (rm_order r) = dom (hosts r)" "distinct (rm_order r)"
    using ok by (simp_all add: room_view_def)
  ultimately show ?thesis
    using False assms(3) by (auto simp del: fun_upd_apply dom_hosts)
qed

lemma join_new_fields:
  assumes "snd (join_new ok rid u v e) = None"
  shows "\<exists>r'. e_rooms (fst (join_new ok rid u v e)) = (e_rooms e)(rid \<mapsto> r') \<and>
      room_view r' = (rm_order (nvl (e_rooms e rid) newRoom) @ [u],
        (hosts (nvl (e_rooms e rid) newRoom))(u \<mapsto> (rm_order (nvl (e_rooms e rid) newRoom) = []))) \<and>
      e_users (fst (join_new ok rid u v e)) = (e_users e)(u \<mapsto> rid) \<and> e_max (fst (join_new ok rid u v e)) = e_max e \<and>
      length (rm_order (nvl (e_rooms e rid) newRoom)) < e_max e"
  using assms
  by (auto simp: join_new_def Let_def room_view_joined emit_event_def set_room_def sp_send_def split: if_splits
      intro!: exI [of _ "the (e_rooms (fst (join_new ok rid u v e)) rid)"])

lemma members_ok_join_new:
  assumes "members_ok e" "e_users e u = None"
  shows "members_ok (fst (join_new ok rid u v e))"
proof (cases "snd (join_new ok rid u v e)")
  case (Some err)
  then have "fst (join_new ok rid u v e) = e"
    by (auto simp: join_new_def Let_def split: if_splits)
  then show ?thesis using assms by simp
next
  case None
  let ?r = "nvl (e_rooms e rid) newRoom"
  from join_new_fields [OF None] obtain r' where r': "e_rooms (fst (join_new ok rid u v e)) = (e_rooms e)(rid \<mapsto> r')"
      "room_view r' = (rm_order ?r @ [u], (hosts ?r)(u \<mapsto> (rm_order ?r = [])))"
      "e_users (fst (join_new ok rid u v e)) = (e_users e)(u \<mapsto> rid)" "e_max (fst (join_new ok rid u v e)) = e_max e"
      "length (rm_order ?r) < e_max e"
    by blast
  have old: "rview_ok (e_max e) (room_view ?r) \<or> room_view ?r = ([], Map.empty)"
    using view_okD(1) [OF assms(1)] by (cases "e_rooms e rid") (auto simp: nvl_def newRoom_def room_view_def hosts_def)
  have absent: "rm_participants r u = None" if "e_rooms e x = Some r" for x r
    using view_okD(2) [OF assms(1), of u x] assms(2) that by auto
  have new: "hosts ?r u = None"
    using absent by (cases "e_rooms e rid") (auto simp: nvl_def newRoom_def hosts_def)
  have inside: "rm_participants r' x \<noteq> None \<longleftrightarrow> x = u \<or> (\<exists>r. e_rooms e rid = Some r \<and> rm_participants r x \<noteq> None)" for x
  proof -
    have "hosts r' = (hosts ?r)(u \<mapsto> (rm_order ?r = []))"
      using r'(2) by (simp add: room_view_def)
    then have "hosts r' x \<noteq> None \<longleftrightarrow> x = u \<or> hosts ?r x \<noteq> None"
      by simp
    then show ?thesis
      by (cases "e_rooms e rid") (auto simp: hosts_def nvl_def newRoom_def)
  qed
  show ?thesis
  proof (rule view_okI)
    fix x r
    assume "e_rooms (fst (join_new ok rid u v e)) x = Some r"
    then show "rview_ok (e_max (fst (join_new ok rid u v e))) (room_view r)"
      using view_okD(1) [OF assms(1)] rview_joined [OF old new r'(5)] r' by (cases "x = rid") (auto simp del: rview_ok.simps)
  next
    fix x y
    show "e_users (fst (join_new ok rid u v e)) x = Some y \<longleftrightarrow>
        (\<exists>r. e_rooms (fst (join_new ok rid u v e)) y = Some r \<and> rm_participants r x \<noteq> None)"
      using view_okD(2) [OF assms(1), of x y] inside [of x] absent assms(2) unfolding r'(1,3)
      by (cases "x = u"; cases "y = rid") auto
  qed
qed

lemma room_participants_join_new: "e_users (fst (join_new ok rid u v e)) w = (if w = u \<and> snd (join_new ok rid u v e) = None then Some rid else e_users e w)"
  by (auto simp: join_new_def Let_def emit_event_def set_room_def)

lemma users_after_remove:
  assumes "members_ok e"
  shows "e_users e u = Some rid \<Longrightarrow> e_users (remove_user rid u e) u = None"
  using view_okD(2) [OF assms, of u rid] by (auto simp: remove_user_fields simp del: view_ok.simps)

lemma members_ok_join: "members_ok e \<Longrightarrow> members_ok (fst (sfu_join al ok rid u v res e))"
proof -
  assume m: "members_ok e"
  have here: "e_users e u = Some rid" if "e_rooms e rid = Some r" "rm_participants r u = Some p" for r p
    using view_okD(2) [OF m, of u rid] that by auto
  have away: "e_users e u = None"
    if "e_users e u = None \<or> e_users e u = Some rid" "\<forall>r. e_rooms e rid = Some r \<longrightarrow> rm_participants r u = None"
    using view_okD(2) [OF m, of u rid] that by auto
  show ?thesis
    using m here away users_after_remove [OF m, of u rid] members_ok_remove [OF m, of rid u]
    by (auto simp: sfu_join_def members_ok_join_new view_set_room simp del: view_ok.simps split: option.splits)
qed

lemma members_ok_claim: "members_ok e \<Longrightarrow> members_ok (ClaimHost rid u e)"
proof (cases "\<exists>r p. e_rooms e rid = Some r \<and> rm_participants r u = Some p \<and> \<not> pi_host (sp_info p)")
  case True
  assume m: "members_ok e"
  obtain r p where r: "e_rooms e rid = Some r" "rm_participants r u = Some p" "\<not> pi_host (sp_info p)"
    using True by blast
  let ?r = "with_standing (claim_standing r u) r"
  have "rm_participants ?r v \<noteq> None \<longleftrightarrow> rm_participants r v \<noteq> None" for v
    by (simp add: with_standing_def)
  moreover have "hosts ?r v = map_option (\<lambda>_. v = u) (hosts r v)" for v
    by (cases "rm_participants r v") (auto simp: hosts_def with_standing_def claim_standing_def)
  then have "hosts ?r v = Some True \<longleftrightarrow> v = u" for v
    using r(2) by (auto simp: hosts_def)
  ultimately have "rview_ok (e_max e) (room_view ?r)"
    using view_okD(1) [OF m r(1)] by (auto simp: room_view_def with_standing_def domIff set_eq_iff)
  then have "members_ok (set_room rid ?r e)"
    using m r(1) \<open>\<And>v. rm_participants ?r v \<noteq> None \<longleftrightarrow> rm_participants r v \<noteq> None\<close>
    by (auto simp: members_ok_iff simp del: rview_ok.simps view_ok.simps)
  then show ?thesis
    using r by (simp add: ClaimHost_def Let_def del: view_ok.simps)
next
  case False
  then have "ClaimHost rid u e = e"
    by (auto simp: ClaimHost_def split: option.split)
  then show "members_ok e \<Longrightarrow> ?thesis" by simp
qed

lemma members_ok_kick: "members_ok e \<Longrightarrow> members_ok (fst (KickRequest a b adm e))"
proof -
  assume "members_ok e"
  then have "members_ok (tell rid b s e)" for rid s by (simp del: view_ok.simps)
  with \<open>members_ok e\<close> show ?thesis
    by (auto simp: KickRequest_def members_ok_remove simp del: view_ok.simps split: option.split)
qed

lemma members_ok_step: "members_ok e \<Longrightarrow> members_ok (sfu_step op e)"
proof (cases op)
  case (OpLeaveRoom rid u)
  assume "members_ok e"
  then show ?thesis
    using OpLeaveRoom by (auto simp: LeaveRoom_def members_ok_remove simp del: view_ok.simps split: option.split)
next
  case (OpTrack now u obj au sc)
  assume "members_ok e"
  then show ?thesis
    using OpTrack by (simp add: track_arrives_def view_onTrack del: view_ok.simps)
next
  case (OpAnswer rid u ok)
  assume "members_ok e"
  then show ?thesis
    using OpAnswer by (simp add: view_on_room del: view_ok.simps)
qed (simp_all add: members_ok_join members_ok_leave sfu_closeRoom_def members_ok_fold members_ok_claim members_ok_kick view_mute
    view_presenter view_presenter_only view_track_ended view_onTrackState del: view_ok.simps)

lemma members_ok_run: "members_ok (sfu_run m ops)"
proof -
  have "members_ok (new_engine m)"
    by (simp add: view_def new_engine_def)
  moreover have "members_ok e \<Longrightarrow> members_ok (fold sfu_step ops e)" for e
    by (induction ops arbitrary: e) (simp_all add: members_ok_step del: view_ok.simps)
  ultimately show ?thesis by (simp add: sfu_run_def del: view_ok.simps)
qed

lemma e_max_view: "view e = view e' \<Longrightarrow> e_max e = e_max e'"
  by (simp add: view_def)

lemma e_max_remove [simp]: "e_max (remove_user rid u e) = e_max e"
  by (simp add: remove_user_def Let_def emit_event_def set_room_def split: option.split)

lemma e_max_joins [simp]: "e_max (fst (join_new ok rid u v e)) = e_max e" "e_max (fst (sfu_join al ok rid u v res e)) = e_max e"
proof -
  show new: "e_max (fst (join_new ok rid u v e)) = e_max e" for e
    by (simp add: join_new_def Let_def emit_event_def set_room_def)
  show "e_max (fst (sfu_join al ok rid u v res e)) = e_max e"
    by (simp add: sfu_join_def new split: option.split)
qed

lemma e_max_leave [simp]: "e_max (sfu_leave u e) = e_max e" "e_max (fold sfu_leave us e) = e_max e"
proof -
  show leave: "e_max (sfu_leave u e) = e_max e" for u e
    by (simp add: sfu_leave_def split: option.split)
  show "e_max (fold sfu_leave us e) = e_max e"
    by (induction us arbitrary: e) (simp_all add: leave)
qed

lemma e_max_step: "e_max (sfu_step op e) = e_max e"
proof (cases op)
  case (OpClaim rid u)
  then show ?thesis
    by (simp add: ClaimHost_def Let_def e_max_view [OF view_announce(1)] split: option.split)
next
  case (OpKick a b adm)
  then show ?thesis
    by (simp add: KickRequest_def e_max_view [OF view_tell] split: option.split)
next
  case (OpTrack now u obj au sc)
  then show ?thesis
    using e_max_view [OF view_onTrack [of now u obj au sc "e_objs e" "e\<lparr>e_objs := e_objs e + 1\<rparr>"]] by (simp add: track_arrives_def)
next
  case (OpAnswer rid u ok)
  then show ?thesis
    using e_max_view [OF view_on_room [of "to_one u (onSubAnswer ok)" rid e]] by simp
qed (simp_all add: LeaveRoom_def sfu_closeRoom_def e_max_view [OF view_mute(1)] e_max_view [OF view_mute(2)]
    e_max_view [OF view_presenter] e_max_view [OF view_presenter_only] e_max_view [OF view_track_ended]
    e_max_view [OF view_onTrackState] split: option.split)

lemma e_max_run: "e_max (sfu_run m ops) = m"
proof -
  have "e_max (fold sfu_step ops e) = e_max e" for e
    by (induction ops arbitrary: e) (simp_all add: e_max_step)
  then show ?thesis by (simp add: sfu_run_def new_engine_def)
qed

text \<open>
  C37. However people join, resume, leave, are removed, and claim or lose the host's role: every room has exactly one host,
  somebody in it and no more people than the limit, each once in the order of joining, and the index of who is in which room is
  exact, so nobody is in two.
\<close>

theorem every_room_has_one_host:
  assumes "e_rooms (sfu_run m ops) rid = Some r"
  shows "(\<exists>!u. \<exists>p. rm_participants r u = Some p \<and> pi_host (sp_info p)) \<and>
    distinct (rm_order r) \<and> set (rm_order r) = dom (rm_participants r) \<and> rm_order r \<noteq> [] \<and> length (rm_order r) \<le> m \<and>
    dom (rm_participants r) = {u. e_users (sfu_run m ops) u = Some rid}"
proof -
  note ok = members_ok_run [of m ops]
  have r: "rview_ok m (room_view r)"
    using view_okD(1) [OF ok assms] by (simp add: e_max_run del: rview_ok.simps)
  then obtain w where w: "\<And>v. hosts r v = Some True \<longleftrightarrow> v = w"
    by (auto simp: room_view_def)
  have "(\<exists>p. rm_participants r v = Some p \<and> pi_host (sp_info p)) \<longleftrightarrow> v = w" for v
    using w [of v] by (cases "rm_participants r v") (auto simp: hosts_def)
  moreover have "dom (rm_participants r) = {u. e_users (sfu_run m ops) u = Some rid}"
    using view_okD(2) [OF ok, of _ rid] assms by auto
  ultimately show ?thesis
    using r by (auto simp: room_view_def)
qed

section \<open>Microphones and offers\<close>

text \<open>What a subscriber was last offered is what it is sent, unless a newer offer is waiting for an answer to an older one.\<close>

definition offers :: "sfu_participant \<Rightarrow> nat list list" where
  "offers p = concat (map (\<lambda>s. case s of SigSubOffer ts \<Rightarrow> [ts] | _ \<Rightarrow> []) (sp_out p))"

definition sub_ok :: "sfu_participant \<Rightarrow> bool" where
  "sub_ok p = ((sp_subPending p \<longrightarrow> offers p \<noteq> []) \<and>
     (if sp_subAgain p then sp_subPending p
      else \<not> sp_unoffered p \<longrightarrow> sp_senders p = (if offers p = [] then [] else last (offers p))) \<and> (sp_unoffered p \<longrightarrow> \<not> sp_subPending p))"

lemma last_offer_offers: "last_offer p = (if offers p = [] then None else Some (last (offers p)))"
  by (simp add: last_offer_def offers_def [symmetric] split: list.split)

lemma offers_send [simp]: "offers (sp_send s p) = offers p @ (case s of SigSubOffer ts \<Rightarrow> [ts] | _ \<Rightarrow> [])"
  by (simp add: offers_def sp_send_def)

lemma offers_fields [simp]:
  "offers (p\<lparr>sp_info := i\<rparr>) = offers p" "offers (p\<lparr>sp_senders := ts\<rparr>) = offers p" "offers (p\<lparr>sp_subPending := b\<rparr>) = offers p"
  "offers (p\<lparr>sp_subAgain := b\<rparr>) = offers p" "offers (p\<lparr>sp_screenPending := x\<rparr>) = offers p"
  "offers (p\<lparr>sp_unoffered := b\<rparr>) = offers p" "offers (pc_called p) = offers p"
  by (simp_all add: offers_def pc_called_def)

lemma pc_called_fields [simp]:
  "sp_senders (pc_called p) = sp_senders p" "sp_subPending (pc_called p) = sp_subPending p" "sp_subAgain (pc_called p) = sp_subAgain p"
  "sp_unoffered (pc_called p) = sp_unoffered p" "sp_unoffered (sp_send s p) = sp_unoffered p"
  by (simp_all add: pc_called_def sp_send_def)

lemma sp_send_fields [simp]:
  "sp_senders (sp_send s p) = sp_senders p" "sp_subPending (sp_send s p) = sp_subPending p" "sp_subAgain (sp_send s p) = sp_subAgain p"
  by (simp_all add: sp_send_def)

lemma sub_ok_renegotiate:
  "(sp_subAgain p \<longrightarrow> sp_subPending p) \<Longrightarrow> (sp_subPending p \<longrightarrow> offers p \<noteq> []) \<Longrightarrow> (sp_unoffered p \<longrightarrow> \<not> sp_subPending p) \<Longrightarrow>
   sub_ok (renegotiateSub p)"
  by (auto simp: sub_ok_def renegotiateSub_def)

lemma sub_ok_ops [simp]:
  assumes "sub_ok p"
  shows "sub_ok (addSender t p)" "sub_ok (removeSender t p)" "sub_ok (onSubAnswer ok p)" "sub_ok (resendSubscriberOffer p)"
    "sub_ok (p\<lparr>sp_info := i\<rparr>)" "sub_ok (p\<lparr>sp_screenPending := x\<rparr>)"
  using assms
  by (auto simp: addSender_def removeSender_def onSubAnswer_def resendSubscriberOffer_def last_offer_offers Let_def
      intro!: sub_ok_renegotiate)
    (auto simp: sub_ok_def split: if_splits)

lemma sub_ok_send [simp]: "sub_ok p \<Longrightarrow> (\<And>ts. s \<noteq> SigSubOffer ts) \<Longrightarrow> sub_ok (sp_send s p)"
  by (cases s) (auto simp: sub_ok_def)

lemma sub_ok_folds [simp]: "sub_ok p \<Longrightarrow> sub_ok (fold removeSender ts p)" "sub_ok p \<Longrightarrow> sub_ok (fold addSender ts p)"
  by (induction ts arbitrary: p) simp_all

text \<open>A room in which this holds of everybody, and in which nobody whose microphone is locked has it forwarded.\<close>

definition room_ok :: "sfu_room \<Rightarrow> bool" where
  "room_ok r = ((\<forall>u p. rm_participants r u = Some p \<longrightarrow> sub_ok p) \<and> (\<forall>u \<in> rm_locked r. rm_tracks r u MicKey = None))"

definition rooms_ok :: "sfu_engine \<Rightarrow> bool" where
  "rooms_ok e = (\<forall>rid r. e_rooms e rid = Some r \<longrightarrow> room_ok r)"

lemma rooms_okD: "rooms_ok e \<Longrightarrow> e_rooms e rid = Some r \<Longrightarrow> room_ok r"
  by (simp add: rooms_ok_def)

lemma rooms_ok_set [simp]: "rooms_ok e \<Longrightarrow> room_ok r \<Longrightarrow> rooms_ok (set_room rid r e)"
  by (simp add: rooms_ok_def)

lemma rooms_ok_quiet [simp]:
  "rooms_ok (emit_event ev e) = rooms_ok e" "rooms_ok (e\<lparr>e_objs := n\<rparr>) = rooms_ok e" "rooms_ok (e\<lparr>e_users := us\<rparr>) = rooms_ok e"
  "rooms_ok (announce rid is e) = rooms_ok e"
  by (simp_all add: rooms_ok_def)

lemma room_ok_others [simp]: "room_ok r \<Longrightarrow> (\<And>p. sub_ok p \<Longrightarrow> sub_ok (f p)) \<Longrightarrow> room_ok (to_others u f r)"
  by (auto simp: room_ok_def to_others_def split: if_splits)

lemma room_ok_one [simp]: "room_ok r \<Longrightarrow> (\<And>p. sub_ok p \<Longrightarrow> sub_ok (f p)) \<Longrightarrow> room_ok (to_one u f r)"
  by (auto simp: room_ok_def to_one_def)

lemma room_ok_standing [simp]: "room_ok r \<Longrightarrow> room_ok (with_standing f r)"
  by (auto simp: room_ok_def with_standing_def)

lemma room_ok_tables:
  "room_ok r \<Longrightarrow> room_ok (r\<lparr>rm_mutedTracks := m\<rparr>)" "room_ok r \<Longrightarrow> room_ok (r\<lparr>rm_presenters := l\<rparr>)"
  "room_ok r \<Longrightarrow> room_ok (r\<lparr>rm_presenterOnly := b\<rparr>)" "room_ok r \<Longrightarrow> room_ok (r\<lparr>rm_locked := rm_locked r - U\<rparr>)"
  "room_ok r \<Longrightarrow> k \<noteq> MicKey \<or> x = None \<or> u \<notin> rm_locked r \<Longrightarrow> room_ok (r\<lparr>rm_tracks := (rm_tracks r)(u := (rm_tracks r u)(k := x))\<rparr>)"
  "room_ok r \<Longrightarrow> k \<noteq> MicKey \<or> x = None \<or> u \<notin> rm_locked r \<Longrightarrow>
   room_ok (r\<lparr>rm_mutedTracks := m, rm_tracks := (rm_tracks r)(u := (rm_tracks r u)(k := x))\<rparr>)"
  by (auto simp: room_ok_def)

lemma rooms_ok_on_room [simp]: "rooms_ok e \<Longrightarrow> (\<And>r. room_ok r \<Longrightarrow> room_ok (f r)) \<Longrightarrow> rooms_ok (on_room rid f e)"
  by (auto simp: on_room_def rooms_okD split: option.split)

lemma rooms_ok_updateInfo [simp]: "rooms_ok e \<Longrightarrow> rooms_ok (updateInfo rid u obj f e)"
  by (auto simp: updateInfo_def Let_def rooms_okD split: option.split)

lemma rooms_ok_tell [simp]: "rooms_ok e \<Longrightarrow> (\<And>ts. s \<noteq> SigSubOffer ts) \<Longrightarrow> rooms_ok (tell rid u s e)"
  by (simp add: tell_def)


lemma rooms_ok_unpublish [simp]: "rooms_ok e \<Longrightarrow> rooms_ok (fst (unpublish rid u k ex e))"
  by (auto simp: unpublish_def rooms_okD room_ok_tables split: option.split)

lemma rooms_ok_publish [simp]: "rooms_ok e \<Longrightarrow> rooms_ok (publish_track rid u obj k t e)"
  by (auto simp: publish_track_def Let_def rooms_okD room_ok_tables split: option.split
      intro!: rooms_ok_set room_ok_others) 

lemma room_ok_mute [simp]: "room_ok r \<Longrightarrow> room_ok (forceMuteMic u r)"
  by (auto simp: forceMuteMic_def room_ok_def to_others_def split: option.split if_splits)

lemma room_ok_restore: "room_ok r \<Longrightarrow> u \<notin> rm_locked r \<Longrightarrow> room_ok (restoreMic u r)"
  by (auto simp: restoreMic_def room_ok_tables split: option.split)

lemma lookup_room: "sfu_lookup u e = Some (rid, r, p) \<Longrightarrow> e_rooms e rid = Some r \<and> rm_participants r u = Some p"
  by (auto simp: sfu_lookup_def roomForUser_def split: option.splits)


text \<open>Which microphones are locked in a room.\<close>

definition locked_in :: "string \<Rightarrow> sfu_engine \<Rightarrow> int set option" where
  "locked_in rid e = map_option rm_locked (e_rooms e rid)"

lemma rm_locked_ops [simp]: "rm_locked (to_one u f r) = rm_locked r" "rm_locked (to_others u f r) = rm_locked r"
  by (simp_all add: to_one_def to_others_def)

lemma locked_in_ops [simp]:
  "locked_in rid (tell rid' u s e) = locked_in rid e" "locked_in rid (on_room rid' (to_one u f) e) = locked_in rid e"
  "locked_in rid (fst (unpublish rid' u k ex e)) = locked_in rid e"
  by (auto simp: locked_in_def tell_def on_room_def unpublish_def split: option.split)

lemma rooms_ok_restore:
  "rooms_ok e \<Longrightarrow> locked_in rid e = Some L \<Longrightarrow> u \<notin> L \<Longrightarrow> rooms_ok (on_room rid (restoreMic u) e)"
  by (auto simp: on_room_def locked_in_def rooms_okD room_ok_restore split: option.split)

lemma rooms_ok_trackState: "rooms_ok e \<Longrightarrow> rooms_ok (onTrackState now u m v sc e)"
proof (cases "sfu_lookup u e")
  case (Some x)
  assume ok: "rooms_ok e"
  obtain rid r p where x: "x = (rid, r, p)" by (cases x)
  have L: "locked_in rid e = Some (rm_locked r)"
    using lookup_room [of u e rid r p] Some x by (simp add: locked_in_def)
  show ?thesis
    using ok Some x by (auto simp: onTrackState_def Let_def L intro!: rooms_ok_updateInfo rooms_ok_restore)
qed (simp add: onTrackState_def)

lemma rooms_ok_onTrack: "rooms_ok e \<Longrightarrow> rooms_ok (onTrack now u obj a s t e)"
  by (auto simp: onTrack_def Let_def split: option.split track_key.split)

lemma rooms_ok_track_ended: "rooms_ok e \<Longrightarrow> rooms_ok (sfu_track_ended rid u obj k t e)"
proof -
  assume "rooms_ok e"
  then have "rooms_ok e1" if "unpublish rid u k (Some t) e = (e1, b)" for e1 b
    using rooms_ok_unpublish [of e rid u k "Some t"] that by simp
  then show ?thesis
    by (auto simp: sfu_track_ended_def split: prod.split bool.split track_key.split)
qed

lemma rooms_ok_lock:
  assumes "rooms_ok e"
  shows "rooms_ok (on_room rid (\<lambda>r. r\<lparr>rm_locked := insert u (rm_locked r)\<rparr>) (on_room rid (forceMuteMic u) e))"
proof -
  have "room_ok ((forceMuteMic u r)\<lparr>rm_locked := insert u (rm_locked (forceMuteMic u r))\<rparr>)" if "room_ok r" for r
    using that by (auto simp: forceMuteMic_def room_ok_def to_others_def split: option.split if_splits)
  then show ?thesis
    using assms by (auto simp: on_room_def rooms_okD split: option.split intro!: rooms_ok_set)
qed

lemma rooms_ok_hosts:
  assumes "rooms_ok e"
  shows "rooms_ok (fst (MuteRequest a b adm l e))" "rooms_ok (fst (UnlockRequest a b adm e))"
    "rooms_ok (fst (SetPresenter a b al adm e))" "rooms_ok (fst (SetPresenterOnly a en adm e))" "rooms_ok (ClaimHost rid u e)"
proof -
  show "rooms_ok (fst (MuteRequest a b adm l e))"
    using assms by (auto simp: MuteRequest_def Let_def rooms_ok_lock split: option.split prod.split)
  show "rooms_ok (fst (UnlockRequest a b adm e))" "rooms_ok (fst (SetPresenter a b al adm e))"
    using assms by (auto simp: UnlockRequest_def SetPresenter_def Let_def room_ok_tables split: option.split prod.split)
  show "rooms_ok (fst (SetPresenterOnly a en adm e))"
    using assms by (auto dest!: lookup_room simp: SetPresenterOnly_def Let_def room_ok_tables rooms_okD split: option.split prod.split
      intro!: rooms_ok_set room_ok_standing)
  show "rooms_ok (ClaimHost rid u e)"
    using assms by (auto simp: ClaimHost_def Let_def rooms_okD split: option.split)
qed

lemma room_ok_promote [simp]: "room_ok r \<Longrightarrow> room_ok (promote nh r)"
  by (auto simp: promote_def split: option.split)

lemma room_ok_without: "room_ok r \<Longrightarrow> room_ok (without_user u r)"
  by (auto simp: room_ok_def without_user_def)

lemma rooms_ok_remove: "rooms_ok e \<Longrightarrow> rooms_ok (remove_user rid u e)"
proof (cases "\<exists>r p. e_rooms e rid = Some r \<and> rm_participants r u = Some p")
  case True
  assume ok: "rooms_ok e"
  obtain r p where r: "e_rooms e rid = Some r" "rm_participants r u = Some p" using True by blast
  have "room_ok (left_room u r p)"
    using rooms_okD [OF ok r(1)] by (simp add: left_room_def room_ok_without)
  then show ?thesis
    using ok by (auto simp: rooms_ok_def remove_user_fields [OF r])
next
  case False
  then have "remove_user rid u e = e" by (auto simp: remove_user_def split: option.split)
  then show "rooms_ok e \<Longrightarrow> ?thesis" by simp
qed

lemma rooms_ok_leaves: "rooms_ok e \<Longrightarrow> rooms_ok (sfu_leave u e)" "rooms_ok e \<Longrightarrow> rooms_ok (fold sfu_leave us e)"
proof -
  show leave: "rooms_ok e \<Longrightarrow> rooms_ok (sfu_leave u e)" for u e
    by (simp add: sfu_leave_def rooms_ok_remove split: option.split)
  show "rooms_ok e \<Longrightarrow> rooms_ok (fold sfu_leave us e)"
    by (induction us arbitrary: e) (simp_all add: leave)
qed

lemma sub_ok_new: "sub_ok \<lparr>sp_obj = n, sp_info = i, sp_senders = [], sp_subPending = False, sp_subAgain = False,
    sp_screenPending = None, sp_fails = fs, sp_unoffered = False, sp_out = []\<rparr>"
  by (simp add: sub_ok_def offers_def)

lemma rooms_ok_join_new: "rooms_ok e \<Longrightarrow> rooms_ok (fst (join_new ok rid u v e))"
proof -
  assume "rooms_ok e"
  then have "room_ok (nvl (e_rooms e rid) newRoom)"
    by (cases "e_rooms e rid") (auto simp: nvl_def room_ok_def newRoom_def rooms_ok_def)
  then have "room_ok ((nvl (e_rooms e rid) newRoom)\<lparr>rm_participants := (rm_participants (nvl (e_rooms e rid) newRoom))(u \<mapsto> p),
      rm_order := os\<rparr>)" if "sub_ok p" for p os
    using that by (auto simp: room_ok_def)
  then show ?thesis
    using \<open>rooms_ok e\<close> by (auto simp: join_new_def Let_def sub_ok_new intro!: rooms_ok_set room_ok_one)
qed

lemma rooms_ok_join: "rooms_ok e \<Longrightarrow> rooms_ok (fst (sfu_join al ok rid u v res e))"
  by (auto simp: sfu_join_def rooms_ok_join_new rooms_ok_remove rooms_okD split: option.split)

lemma rooms_ok_step: "rooms_ok e \<Longrightarrow> rooms_ok (sfu_step op e)"
proof (cases op)
  case (OpLeaveRoom rid u)
  assume "rooms_ok e"
  then show ?thesis
    using OpLeaveRoom by (auto simp: LeaveRoom_def rooms_ok_remove split: option.split)
next
  case (OpKick a b adm)
  assume "rooms_ok e"
  then show ?thesis
    using OpKick by (auto simp: KickRequest_def rooms_ok_remove split: option.split)
qed (simp_all add: rooms_ok_join rooms_ok_leaves sfu_closeRoom_def rooms_ok_hosts track_arrives_def rooms_ok_onTrack
    rooms_ok_track_ended rooms_ok_trackState)

lemma rooms_ok_run: "rooms_ok (sfu_run m ops)"
proof -
  have "rooms_ok e \<Longrightarrow> rooms_ok (fold sfu_step ops e)" for e
    by (induction ops arbitrary: e) (simp_all add: rooms_ok_step)
  moreover have "rooms_ok (new_engine m)"
    by (simp add: new_engine_def rooms_ok_def)
  ultimately show ?thesis by (simp add: sfu_run_def)
qed


text \<open>What a participant's own client can bring about without leaving.\<close>

fun client_op :: "sfu_op \<Rightarrow> bool" where
  "client_op (OpTrack _ _ _ _ _) = True"
| "client_op (OpTrackEnded _ _ _ _ _) = True"
| "client_op (OpTrackState _ _ _ _ _) = True"
| "client_op (OpAnswer _ _ _) = True"
| "client_op _ = False"

lemma locked_in_update [simp]: "locked_in rid (updateInfo rid' u obj f e) = locked_in rid e"
  by (auto simp: locked_in_def updateInfo_def Let_def emit_event_def set_room_def split: option.split)

lemma locked_in_mics [simp]: "locked_in rid (on_room rid' (restoreMic u) e) = locked_in rid e"
  by (auto simp: locked_in_def on_room_def restoreMic_def split: option.split)

lemma locked_in_publish [simp]: "locked_in rid (publish_track rid' u obj k t e) = locked_in rid e"
  by (auto simp: locked_in_def publish_track_def Let_def split: option.split)

lemma locked_in_client:
  assumes "client_op op"
  shows "locked_in rid (sfu_step op e) = locked_in rid e"
proof (cases op)
  case (OpTrackEnded rid' u obj k t)
  have "locked_in rid e1 = locked_in rid e" if "unpublish rid' u k (Some t) e = (e1, b)" for e1 b
    using locked_in_ops(3) [of rid rid' u k "Some t" e] that by simp
  with OpTrackEnded show ?thesis
    by (auto simp: sfu_track_ended_def split: prod.split bool.split track_key.split)
next
  case (OpTrack now u obj au sc)
  then show ?thesis
    by (auto simp: track_arrives_def onTrack_def Let_def split: option.split track_key.split) (simp_all add: locked_in_def)
next
  case (OpTrackState now u m v sc)
  then show ?thesis
    by (simp add: onTrackState_def Let_def split: option.split prod.split)
qed (use assms in simp_all)

text \<open>The tracks that arrive while \<open>ops\<close> happen and are not microphones of \<open>u\<close>.\<close>

fun other_arrivals :: "int \<Rightarrow> sfu_op list \<Rightarrow> sfu_engine \<Rightarrow> nat set" where
  "other_arrivals u [] e = {}"
| "other_arrivals u (op # ops) e =
     (case op of OpTrack now w obj audio screen \<Rightarrow> if w = u \<and> audio then {} else {e_objs e} | _ \<Rightarrow> {}) \<union>
     other_arrivals u ops (sfu_step op e)"

text \<open>What reaches subscribers, or could be put back on the air for somebody other than \<open>u\<close>, is among \<open>S\<close>.\<close>

definition only_from :: "int \<Rightarrow> nat set \<Rightarrow> int \<Rightarrow> sfu_room \<Rightarrow> bool" where
  "only_from u S v r = ((\<forall>p. rm_participants r v = Some p \<longrightarrow> set (sp_senders p) \<subseteq> S) \<and>
     (\<forall>w t. w \<noteq> u \<longrightarrow> rm_mutedTracks r w MicKey = Some t \<longrightarrow> t \<in> S))"

definition only_in :: "int \<Rightarrow> nat set \<Rightarrow> int \<Rightarrow> string \<Rightarrow> sfu_engine \<Rightarrow> bool" where
  "only_in u S v rid e = (\<forall>r. e_rooms e rid = Some r \<longrightarrow> only_from u S v r)"

lemma senders_ops:
  "set (sp_senders (renegotiateSub p)) = set (sp_senders p)" "set (sp_senders (removeSender t p)) \<subseteq> set (sp_senders p)"
  "set (sp_senders (addSender t p)) \<subseteq> insert t (set (sp_senders p))" "sp_senders (onSubAnswer ok p) = sp_senders p"
  by (auto simp: renegotiateSub_def removeSender_def addSender_def onSubAnswer_def Let_def)

lemma only_from_others:
  "only_from u S v r \<Longrightarrow> (\<And>p. set (sp_senders p) \<subseteq> S \<Longrightarrow> set (sp_senders (f p)) \<subseteq> S) \<Longrightarrow> only_from u S v (to_others w f r)"
  "only_from u S v r \<Longrightarrow> (\<And>p. set (sp_senders p) \<subseteq> S \<Longrightarrow> set (sp_senders (f p)) \<subseteq> S) \<Longrightarrow> only_from u S v (to_one w f r)"
  by (fastforce simp: only_from_def to_others_def to_one_def split: if_splits)+

lemma only_from_tables:
  "only_from u S v (r\<lparr>rm_tracks := ts\<rparr>) = only_from u S v r"
  "only_from u S v r \<Longrightarrow> w = u \<or> x = None \<or> the x \<in> S \<Longrightarrow>
   only_from u S v (r\<lparr>rm_mutedTracks := (rm_mutedTracks r)(w := (rm_mutedTracks r w)(MicKey := x))\<rparr>)"
  by (auto simp: only_from_def)

lemma only_from_drop: "only_from u S v r \<Longrightarrow> only_from u S v (to_others w (removeSender t) r)"
  using senders_ops(2) by (blast intro: only_from_others(1) order.trans)

lemma only_from_add: "only_from u S v r \<Longrightarrow> t \<in> S \<Longrightarrow> only_from u S v (to_others w (addSender t) r)"
  using senders_ops(3) by (blast intro: only_from_others(1) order.trans)

lemma only_from_restore: "only_from u S v r \<Longrightarrow> w \<noteq> u \<Longrightarrow> only_from u S v (restoreMic w r)"
  unfolding restoreMic_def by (auto simp: only_from_tables(1) split: option.split intro!: only_from_add only_from_tables(2)) (simp add: only_from_def)

lemma only_in_set: "only_in u S v rid e \<Longrightarrow> (rid' = rid \<Longrightarrow> only_from u S v r) \<Longrightarrow> only_in u S v rid (set_room rid' r e)"
  by (simp add: only_in_def)

lemma only_inD: "only_in u S v rid e \<Longrightarrow> e_rooms e rid = Some r \<Longrightarrow> only_from u S v r"
  by (simp add: only_in_def)

lemma only_in_on_room:
  "only_in u S v rid e \<Longrightarrow> (\<And>r. only_from u S v r \<Longrightarrow> only_from u S v (f r)) \<Longrightarrow> only_in u S v rid (on_room rid' f e)"
  by (auto simp: only_in_def on_room_def split: option.split)

lemma only_in_updateInfo: "only_in u S v rid e \<Longrightarrow> only_in u S v rid (updateInfo rid' w obj f e)"
  by (auto simp: updateInfo_def Let_def only_in_def split: option.split intro!: only_from_others(2))

lemma only_in_tell: "only_in u S v rid e \<Longrightarrow> only_in u S v rid (tell rid' w s e)"
  unfolding tell_def by (rule only_in_on_room) (auto intro!: only_from_others(2))

lemma only_in_unpublish: "only_in u S v rid e \<Longrightarrow> only_in u S v rid (fst (unpublish rid' w k ex e))"
  by (auto simp: unpublish_def split: option.split
      intro!: only_in_set only_from_drop only_from_tables(1) [THEN iffD2] dest: only_inD)

lemma only_in_publish:
  assumes "only_in u S v rid e" "locked_in rid e = Some L" "u \<in> L" "w = u \<and> k = MicKey \<or> t \<in> S"
  shows "only_in u S v rid (publish_track rid' w obj k t e)"
proof (cases "e_rooms e rid'")
  case (Some r)
  have r: "only_from u S v r" "u \<in> rm_locked r" if "rid' = rid"
    using that assms(1-3) Some by (auto dest: only_inD simp: locked_in_def)
  show ?thesis
    using assms(1,4) r Some
    by (auto simp: publish_track_def Let_def split: option.split
        simp: only_from_tables(1) intro!: only_in_set only_from_add only_from_drop only_from_tables(2))
qed (simp add: publish_track_def assms(1))

lemma only_in_mono: "only_in u S v rid e \<Longrightarrow> S \<subseteq> S' \<Longrightarrow> only_in u S' v rid e"
  by (fastforce simp: only_in_def only_from_def)

lemma only_in_pending: "only_in u S v rid e \<Longrightarrow> only_in u S v rid (on_room rid' (to_one w (\<lambda>p. p\<lparr>sp_screenPending := x\<rparr>)) e)"
  by (rule only_in_on_room) (auto intro!: only_from_others(2))

lemma only_in_state:
  assumes "only_in u S v rid e" "locked_in rid e = Some L" "u \<in> L"
  shows "only_in u S v rid (onTrackState now w m vi sc e)"
proof (cases "sfu_lookup w e")
  case (Some x)
  obtain rid' r p where x: "x = (rid', r, p)" by (cases x)
  have "w \<noteq> u" if "w \<notin> rm_locked r" "rid' = rid"
    using lookup_room [of w e rid' r p] Some x that assms(2,3) by (auto simp: locked_in_def)
  then have restore: "only_in u S v rid (on_room rid' (restoreMic w) e1)" if "only_in u S v rid e1" "w \<notin> rm_locked r" for e1
    using that by (cases "rid' = rid") (auto intro!: only_in_on_room only_from_restore simp: only_in_def on_room_def split: option.split)
  show ?thesis
    using assms(1) Some x
    by (auto simp: onTrackState_def Let_def
        intro!: only_in_updateInfo only_in_tell only_in_unpublish restore only_in_pending)
qed (simp add: onTrackState_def assms(1))

lemma only_in_onTrack:
  assumes "only_in u S v rid e" "locked_in rid e = Some L" "u \<in> L" "w = u \<and> audio \<or> t \<in> S"
  shows "only_in u S v rid (onTrack now w obj audio screen t e)"
proof (cases "sfu_lookup w e")
  case (Some x)
  obtain rid' r p where x: "x = (rid', r, p)" by (cases x)
  have pub: "only_in u S v rid (publish_track rid' w obj k t e1)"
    if "only_in u S v rid e1" "locked_in rid e1 = Some L" "audio \<longrightarrow> k = MicKey" for k e1
    using only_in_publish [OF that(1,2) assms(3)] that(3) assms(4) by blast
  show ?thesis
  proof (cases audio)
    case True
    then show ?thesis
      using Some x assms(1,2) pub by (simp add: onTrack_def trackKey_def)
  next
    case False
    then have "only_in u S v rid (updateInfo rid' w obj f (publish_track rid' w obj k t e1))"
      if "only_in u S v rid e1" "locked_in rid e1 = Some L" for k e1 f
      using pub [OF that] by (simp add: only_in_updateInfo)
    then show ?thesis
      using Some x False assms(1,2) only_in_pending [OF assms(1), of rid' w None]
      by (simp add: onTrack_def trackKey_def Let_def split: option.split)
  qed
qed (simp add: onTrack_def assms(1))

lemma only_in_step:
  assumes "only_in u S v rid e" "locked_in rid e = Some L" "u \<in> L" "client_op op"
  shows "only_in u (S \<union> other_arrivals u [op] e) v rid (sfu_step op e)"
proof (cases op)
  case (OpTrack now w obj audio screen)
  let ?S = "S \<union> other_arrivals u [op] e" and ?e = "e\<lparr>e_objs := e_objs e + 1\<rparr>"
  have "only_in u ?S v rid e" by (rule only_in_mono [OF assms(1)]) simp
  then have "only_in u ?S v rid ?e" "locked_in rid ?e = Some L"
    using assms(2) by (simp_all add: only_in_def locked_in_def)
  moreover have "w = u \<and> audio \<or> e_objs e \<in> ?S" by (simp add: OpTrack)
  ultimately show ?thesis
    using only_in_onTrack [OF _ _ assms(3)] unfolding OpTrack sfu_step.simps track_arrives_def by blast
next
  case (OpTrackEnded rid' w obj k t)
  have "only_in u S v rid (sfu_track_ended rid' w obj k t e)"
    using only_in_unpublish [OF assms(1), of rid' w k "Some t"]
    by (cases "unpublish rid' w k (Some t) e"; cases k)
      (auto simp: sfu_track_ended_def only_in_updateInfo split: bool.split)
  then show ?thesis by (simp add: OpTrackEnded)
next
  case (OpTrackState now w m vi sc)
  then show ?thesis using only_in_state [OF assms(1-3)] by simp
next
  case (OpAnswer rid' w ok)
  have "only_in u S v rid (on_room rid' (to_one w (onSubAnswer ok)) e)"
    using assms(1) by (rule only_in_on_room) (auto intro!: only_from_others(2) simp: senders_ops)
  then show ?thesis by (simp add: OpAnswer)
qed (use assms(4) in simp_all)

lemma only_in_run:
  assumes "list_all client_op ops" "only_in u S v rid e" "locked_in rid e = Some L" "u \<in> L"
  shows "only_in u (S \<union> other_arrivals u ops e) v rid (fold sfu_step ops e)"
  using assms
proof (induction ops arbitrary: e S)
  case (Cons op ops)
  have "only_in u (S \<union> other_arrivals u [op] e) v rid (sfu_step op e)" "locked_in rid (sfu_step op e) = Some L"
    using only_in_step [OF Cons.prems(2-4)] locked_in_client Cons.prems(1,3) by simp_all
  from Cons.IH [OF _ this Cons.prems(4)] Cons.prems(1) show ?case
    by (simp add: Un_assoc)
qed simp


text \<open>
  C39. A subscriber that owes the server no answer has last been offered exactly the tracks it is sent, unless the last
  attempt to make it an offer failed. One that owes an answer has an offer to answer, and either that names exactly the
  tracks it is sent or another offer is due: when the answer comes, it is made, so that after the answer, too, the last
  offer names exactly the tracks sent, unless it fails.
\<close>

theorem subscribers_know_their_tracks:
  assumes "e_rooms (sfu_run m ops) rid = Some r" "rm_participants r u = Some p"
  shows "if sp_subPending p
    then offers p \<noteq> [] \<and> (sp_senders p = last (offers p) \<or> sp_subAgain p) \<and>
      (sp_unoffered (onSubAnswer True p) \<or>
       sp_senders (onSubAnswer True p) = sp_senders p \<and> last (offers (onSubAnswer True p)) = sp_senders p)
    else sp_unoffered p \<or> sp_senders p = (if offers p = [] then [] else last (offers p))"
proof -
  have "sub_ok p" using rooms_okD [OF rooms_ok_run assms(1)] assms(2) by (auto simp: room_ok_def)
  then show ?thesis by (auto simp: sub_ok_def onSubAnswer_def renegotiateSub_def Let_def split: if_splits)
qed

text \<open>
  An offer that could not be made is not tried again: here the connection of 1 takes the new microphone and fails to make
  the offer. Until something else changes nothing tells the client of the track.
\<close>

lemma a_failed_offer_is_not_retried:
  "map_option (\<lambda>p. (sp_senders p, offers p, sp_subPending p, sp_subAgain p, sp_unoffered p))
     (Option.bind (e_rooms (sfu_run 8 [OpJoin True (Some [False, True]) ''r'' 1 True False, OpJoin True (Some []) ''r'' 2 True False,
       OpTrack 0 2 1 True False]) ''r'') (\<lambda>r. rm_participants r 1)) = Some ([2], [], False, False, True)"
  by code_simp

text \<open>A forced mute takes the microphone it finds away from everybody whose connection lets go of it.\<close>

lemma a_forced_mute_silences:
  assumes "rm_tracks r u MicKey = Some t" "v \<noteq> u" "rm_participants (forceMuteMic u r) v = Some q"
    and "\<not> pc_fails (the (rm_participants r v))"
  shows "t \<notin> set (sp_senders q) \<and> rm_tracks (forceMuteMic u r) u MicKey = None"
proof -
  obtain p where p: "rm_participants r v = Some p" "q = removeSender t p"
    using assms by (auto simp: forceMuteMic_def to_others_def)
  then show ?thesis
    using assms(1,4) by (auto simp: removeSender_def renegotiateSub_def sp_send_def forceMuteMic_def to_others_def)
qed

section \<open>Sample data, and where the tables part\<close>

text \<open>Users 1, who hosts, and 2, whose microphone is track 2.\<close>

definition ex_room_ops :: "sfu_op list" where
  "ex_room_ops = [OpJoin True (Some []) ''r'' 1 True False, OpJoin True (Some []) ''r'' 2 True False, OpTrack 0 2 1 True False]"

definition ex_sfu_room :: "sfu_op list \<Rightarrow> sfu_room" where
  "ex_sfu_room ops = the (e_rooms (sfu_run 8 (ex_room_ops @ ops)) ''r'')"

definition ex_senders :: "sfu_op list \<Rightarrow> nat list" where
  "ex_senders ops = (case rm_participants (ex_sfu_room ops) 1 of None \<Rightarrow> [] | Some p \<Rightarrow> sp_senders p)"

lemma ex_sfu_room: "e_rooms (sfu_run 8 (ex_room_ops @ ops)) ''r'' \<noteq> None \<Longrightarrow>
    e_rooms (sfu_run 8 (ex_room_ops @ ops)) ''r'' = Some (ex_sfu_room ops)"
  by (auto simp: ex_sfu_room_def)

theorem every_room_has_one_host_witness: "\<exists>!u. \<exists>p. rm_participants (ex_sfu_room []) u = Some p \<and> pi_host (sp_info p)"
proof -
  have "e_rooms (sfu_run 8 (ex_room_ops @ [])) ''r'' \<noteq> None"
    by code_simp
  from every_room_has_one_host [OF ex_sfu_room [OF this]] show ?thesis by blast
qed


theorem subscribers_know_their_tracks_witness:
  "map_option offers (rm_participants (ex_sfu_room [OpAnswer ''r'' 1 True]) 1) = Some [[2]] \<and>
   ex_senders [OpAnswer ''r'' 1 True] = [2]"
proof -
  have some: "e_rooms (sfu_run 8 (ex_room_ops @ [OpAnswer ''r'' 1 True])) ''r'' \<noteq> None"
    by code_simp
  obtain p where p: "rm_participants (ex_sfu_room [OpAnswer ''r'' 1 True]) 1 = Some p" "\<not> sp_subPending p" "offers p = [[2]]" "\<not> sp_unoffered p"
  proof -
    have "map_option (\<lambda>p. (sp_subPending p, offers p, sp_unoffered p)) (rm_participants (ex_sfu_room [OpAnswer ''r'' 1 True]) 1) =
        Some (False, [[2]], False)"
      by code_simp
    then show ?thesis using that by auto
  qed
  show ?thesis
    using subscribers_know_their_tracks [OF ex_sfu_room [OF some] p(1)] p by (simp add: ex_senders_def)
qed

text \<open>
  The host mutes 2, whose client then publishes a second microphone and says it is unmuted. The first track is put
  back in the second's place, which nothing remembers any more: when the host locks 2, the first is taken away and the second
  is forwarded for as long as it lasts.
\<close>

lemma a_second_microphone_escapes_the_lock:
  "let ops = [OpMute 1 2 False False, OpTrack 0 2 1 True False, OpTrackState 0 2 False True False, OpMute 1 2 False True] in
   2 \<in> rm_locked (ex_sfu_room ops) \<and> ex_senders ops = [3]"
  by code_simp

text \<open>Reloading the page lifts the host's lock.\<close>

lemma rejoining_lifts_the_lock:
  "2 \<in> rm_locked (ex_sfu_room [OpMute 1 2 False True]) \<and>
   2 \<notin> rm_locked (ex_sfu_room [OpMute 1 2 False True, OpJoin True (Some []) ''r'' 2 True False])"
  by code_simp

text \<open>Muting somebody who is locked once more, without locking, shows everybody an unlocked microphone that is still locked.\<close>

lemma muting_again_hides_the_lock:
  "let ops = [OpMute 1 2 False True, OpMute 1 2 False False] in
   2 \<in> rm_locked (ex_sfu_room ops) \<and> map_option (\<lambda>p. pi_locked (sp_info p)) (rm_participants (ex_sfu_room ops) 2) = Some False"
  by code_simp

text \<open>In a room where only presenters may share, the host that is promoted when the host leaves may not.\<close>

lemma the_promoted_host_may_not_present:
  "let ops = [OpPresenterOnly 1 True False, OpLeave 1] in
   map_option (\<lambda>p. (pi_host (sp_info p), pi_can_present (sp_info p))) (rm_participants (ex_sfu_room ops) 2) = Some (True, False) \<and>
   canPresentLocked (ex_sfu_room ops) 2 True"
  by code_simp

text \<open>Restricting who may present does not end a share that is on.\<close>

lemma a_share_survives_the_restriction:
  "let ops = [OpTrackState 0 2 False True True, OpTrack 0 2 1 False False, OpPresenterOnly 1 True False] in
   rm_tracks (ex_sfu_room ops) 2 ScreenKey = Some 3 \<and>
   map_option (\<lambda>p. pi_can_present (sp_info p)) (rm_participants (ex_sfu_room ops) 2) = Some False"
  by code_simp

end
