(* ===== verification/ServerGate.thy ===== *)
theory ServerGate
  imports ServerCalls
begin

text \<open>
  Who may join a private room (\<open>internal/signaling/private_rooms.go\<close>): the owner; somebody the owner has just admitted,
  once; otherwise an invited user who knows the passcode, if there is one, and whose request waits for the owner, if the room
  wants that. Wrong passcodes are limited (\<open>internal/auth/limiter.go\<close>). What the database holds may differ from one
  event to the next; checking a passcode against its hash is a parameter.
\<close>

section \<open>Limiting attempts\<close>

record attempt =
  at_count :: nat
  at_until :: int

record login_limiter =
  attempts :: "string \<rightharpoonup> attempt"
  ll_max :: nat
  ll_window :: int

definition newLoginLimiter :: "nat \<Rightarrow> int \<Rightarrow> login_limiter" where
  "newLoginLimiter m w = \<lparr>attempts = Map.empty, ll_max = m, ll_window = w\<rparr>"

definition passcode_limiter :: login_limiter where
  "passcode_limiter = newLoginLimiter 5 900000000000"

definition limiter_reserve :: "int \<Rightarrow> string \<Rightarrow> login_limiter \<Rightarrow> login_limiter \<times> bool" where
  "limiter_reserve t k l =
     (let a = (case attempts l k of
                 None \<Rightarrow> \<lparr>at_count = 0, at_until = t + ll_window l\<rparr>
               | Some a \<Rightarrow> if t > at_until a then \<lparr>at_count = 0, at_until = t + ll_window l\<rparr> else a) in
      if at_count a \<ge> ll_max l then (l\<lparr>attempts := (attempts l)(k \<mapsto> a)\<rparr>, False)
      else (l\<lparr>attempts := (attempts l)(k \<mapsto> a\<lparr>at_count := at_count a + 1\<rparr>)\<rparr>, True))"

definition limiter_success :: "string \<Rightarrow> login_limiter \<Rightarrow> login_limiter" where
  "limiter_success k l = l\<lparr>attempts := (attempts l)(k := None)\<rparr>"

definition limiter_refund :: "string \<Rightarrow> login_limiter \<Rightarrow> login_limiter" where
  "limiter_refund k l =
     (case attempts l k of
        None \<Rightarrow> l
      | Some a \<Rightarrow> if at_count a > 0 then l\<lparr>attempts := (attempts l)(k \<mapsto> a\<lparr>at_count := at_count a - 1\<rparr>)\<rparr> else l)"

definition limiter_allowed :: "int \<Rightarrow> string \<Rightarrow> login_limiter \<Rightarrow> login_limiter \<times> bool" where
  "limiter_allowed t k l =
     (case attempts l k of
        None \<Rightarrow> (l, True)
      | Some a \<Rightarrow>
          if t > at_until a then (l\<lparr>attempts := (attempts l)(k := None)\<rparr>, True)
          else (l, at_count a < ll_max l))"

text \<open>The clean-up drops what has expired.\<close>

definition limiter_cleanup :: "int \<Rightarrow> login_limiter \<Rightarrow> login_limiter" where
  "limiter_cleanup t l = l\<lparr>attempts := (\<lambda>k. case attempts l k of None \<Rightarrow> None
     | Some a \<Rightarrow> if t > at_until a then None else Some a)\<rparr>"

section \<open>The gate\<close>

record gate_room =
  pr_name :: string
  pr_owner :: int
  pr_hash :: "string option"
  pr_approval :: bool

text \<open>The database at one moment, and the check of a passcode.\<close>

record gate_db =
  gd_rooms :: "string \<rightharpoonup> gate_room"
  gd_allowed :: "string \<Rightarrow> int \<Rightarrow> bool option"
  gd_verify :: "string \<Rightarrow> string \<Rightarrow> bool"

text \<open>\<open>g_log\<close> is what was sent and to whom, and who got through by a waiting approval.\<close>

datatype gate_note =
    GateSent int srv_frame
  | ByApproval string int

record gate =
  g_pending :: "string \<Rightarrow> int set"
  g_approved :: "string \<Rightarrow> int set"
  g_limiter :: login_limiter
  g_log :: "gate_note list"

definition new_gate :: gate where
  "new_gate = \<lparr>g_pending = (\<lambda>_. {}), g_approved = (\<lambda>_. {}), g_limiter = passcode_limiter, g_log = []\<rparr>"

definition gate_note :: "gate_note list \<Rightarrow> gate \<Rightarrow> gate" where
  "gate_note ns g = g\<lparr>g_log := g_log g @ ns\<rparr>"

definition priv_id :: "string \<Rightarrow> string" where
  "priv_id rid = ''priv:'' @ rid"

definition privRoomID :: "string \<Rightarrow> string option" where
  "privRoomID rid = (if take 5 rid = ''priv:'' \<and> drop 5 rid \<noteq> [] then Some (drop 5 rid) else None)"

definition markPending :: "string \<Rightarrow> int \<Rightarrow> gate \<Rightarrow> gate" where
  "markPending rid u g = g\<lparr>g_pending := (g_pending g)(rid := insert u (g_pending g rid))\<rparr>"

definition clearPending :: "string \<Rightarrow> int \<Rightarrow> gate \<Rightarrow> gate \<times> bool" where
  "clearPending rid u g = (g\<lparr>g_pending := (g_pending g)(rid := g_pending g rid - {u})\<rparr>, u \<in> g_pending g rid)"

definition markApproved :: "string \<Rightarrow> int \<Rightarrow> gate \<Rightarrow> gate" where
  "markApproved rid u g = g\<lparr>g_approved := (g_approved g)(rid := insert u (g_approved g rid))\<rparr>"

definition consumeApproved :: "string \<Rightarrow> int \<Rightarrow> gate \<Rightarrow> gate \<times> bool" where
  "consumeApproved rid u g =
     (if u \<notin> g_approved g rid then (g, False)
      else (g\<lparr>g_approved := (g_approved g)(rid := g_approved g rid - {u})\<rparr>, True))"

definition dropUserEverywhere :: "int \<Rightarrow> gate \<Rightarrow> gate" where
  "dropUserEverywhere u g = g\<lparr>g_pending := (\<lambda>rid. g_pending g rid - {u}), g_approved := (\<lambda>rid. g_approved g rid - {u})\<rparr>"

definition room_error :: "int \<Rightarrow> string \<Rightarrow> gate \<Rightarrow> gate \<times> bool" where
  "room_error u msg g = (gate_note [GateSent u (SrvRoomError msg)] g, False)"

definition limiter_key :: "string \<Rightarrow> int \<Rightarrow> string" where
  "limiter_key rid u = rid @ ''|'' @ show_int u"

text \<open>The check of a passcode at instant \<open>t\<close>; \<open>None\<close> when it passes.\<close>

definition check_passcode ::
  "gate_db \<Rightarrow> int \<Rightarrow> string \<Rightarrow> int \<Rightarrow> string \<Rightarrow> string option \<Rightarrow> gate \<Rightarrow> gate \<times> string option" where
  "check_passcode db t rid u hash passcode g =
     (if \<not> str_truthy passcode then (g, Some ''this room requires a passcode'')
      else (case limiter_reserve t (limiter_key rid u) (g_limiter g) of
              (l, False) \<Rightarrow> (g\<lparr>g_limiter := l\<rparr>, Some ''too many wrong passcodes; try again in a few minutes'')
            | (l, True) \<Rightarrow>
                if \<not> gd_verify db hash (the passcode) then (g\<lparr>g_limiter := l\<rparr>, Some ''incorrect passcode'')
                else (g\<lparr>g_limiter := limiter_success (limiter_key rid u) l\<rparr>, None)))"

definition authorizePrivateRoomJoin ::
  "gate_db \<Rightarrow> int \<Rightarrow> user \<Rightarrow> string \<Rightarrow> string option \<Rightarrow> gate \<Rightarrow> gate \<times> bool" where
  "authorizePrivateRoomJoin db t usr rid passcode g =
     (let u = u_id usr in
      case gd_rooms db rid of
        None \<Rightarrow> room_error u ''room not found'' g
      | Some room \<Rightarrow>
          if pr_owner room = u then (g, True)
          else (case consumeApproved rid u g of
            (g1, True) \<Rightarrow> (gate_note [ByApproval rid u] g1, True)
          | (g1, False) \<Rightarrow>
             (case gd_allowed db rid u of
                None \<Rightarrow> room_error u ''could not verify invite'' g1
              | Some False \<Rightarrow> room_error u ''you are not invited to this room'' g1
              | Some True \<Rightarrow>
                 (case (case pr_hash room of None \<Rightarrow> (g1, None) | Some h \<Rightarrow> check_passcode db t rid u h passcode g1) of
                    (g2, Some msg) \<Rightarrow> room_error u msg g2
                  | (g2, None) \<Rightarrow>
                      if pr_approval room
                      then (gate_note [GateSent u (SrvJoinPending (priv_id rid)),
                                       GateSent (pr_owner room) (SrvJoinRequest (priv_id rid) (briefOf usr))]
                             (markPending rid u g2), False)
                      else (g2, True)))))"

text \<open>The owner's answer to a request.\<close>

definition respondToJoinRequest :: "gate_db \<Rightarrow> int \<Rightarrow> bool \<Rightarrow> json option \<Rightarrow> gate \<Rightarrow> gate" where
  "respondToJoinRequest db owner admit data g =
     (case go_fields data of
        None \<Rightarrow> g
      | Some fs \<Rightarrow>
         (case (go_str ''room_id'' fs, go_int ''user_id'' fs) of
            (Some room_id, Some u) \<Rightarrow>
              if u = 0 then g
              else (case privRoomID room_id of
                None \<Rightarrow> g
              | Some rid \<Rightarrow>
                 (case gd_rooms db rid of
                    None \<Rightarrow> g
                  | Some room \<Rightarrow>
                      if pr_owner room \<noteq> owner then g
                      else (case clearPending rid u g of
                        (g1, False) \<Rightarrow> g1
                      | (g1, True) \<Rightarrow>
                          if admit then gate_note [GateSent u (SrvJoinApproved room_id)] (markApproved rid u g1)
                          else gate_note [GateSent u (SrvJoinDenied room_id)] g1)))
          | _ \<Rightarrow> g))"

section \<open>What happens to a gate\<close>

datatype (plugins only: size code) gate_event =
    Asks gate_db int user string "string option"
  | Answers gate_db int bool "json option"
  | LeavesOrDrops int

primrec gate_step :: "gate_event \<Rightarrow> gate \<Rightarrow> gate" where
  "gate_step (Asks db t usr rid passcode) g = fst (authorizePrivateRoomJoin db t usr rid passcode g)"
| "gate_step (Answers db owner admit data) g = respondToJoinRequest db owner admit data g"
| "gate_step (LeavesOrDrops u) g = dropUserEverywhere u g"

definition gate_run :: "gate_event list \<Rightarrow> gate" where
  "gate_run es = fold gate_step es new_gate"

text \<open>How often a request of \<open>u\<close> was parked, approved, and an approval used.\<close>

definition parked :: "string \<Rightarrow> int \<Rightarrow> gate_note list \<Rightarrow> nat" where
  "parked rid u ns = length (filter (\<lambda>n. n = GateSent u (SrvJoinPending (priv_id rid))) ns)"

definition approvals :: "string \<Rightarrow> int \<Rightarrow> gate_note list \<Rightarrow> nat" where
  "approvals rid u ns = length (filter (\<lambda>n. n = GateSent u (SrvJoinApproved (priv_id rid))) ns)"

definition used :: "string \<Rightarrow> int \<Rightarrow> gate_note list \<Rightarrow> nat" where
  "used rid u ns = length (filter (\<lambda>n. n = ByApproval rid u) ns)"

lemmas gate_counts = parked_def approvals_def used_def

definition counts_ok :: "gate \<Rightarrow> bool" where
  "counts_ok g = (\<forall>rid u. used rid u (g_log g) + (if u \<in> g_approved g rid then 1 else 0) \<le> approvals rid u (g_log g) \<and>
     approvals rid u (g_log g) + (if u \<in> g_pending g rid then 1 else 0) \<le> parked rid u (g_log g))"

lemma counts_okD:
  "counts_ok g \<Longrightarrow> used rid u (g_log g) + (if u \<in> g_approved g rid then 1 else 0) \<le> approvals rid u (g_log g)"
  "counts_ok g \<Longrightarrow> approvals rid u (g_log g) + (if u \<in> g_pending g rid then 1 else 0) \<le> parked rid u (g_log g)"
  by (simp_all add: counts_ok_def)

lemma counts_ok_quiet:
  assumes "counts_ok g" "g_log g' = g_log g" "\<And>rid. g_pending g' rid \<subseteq> g_pending g rid" "\<And>rid. g_approved g' rid \<subseteq> g_approved g rid"
  shows "counts_ok g'"
  unfolding counts_ok_def
proof (intro allI conjI)
  fix rid u
  show "used rid u (g_log g') + (if u \<in> g_approved g' rid then 1 else 0) \<le> approvals rid u (g_log g')"
    using counts_okD(1) [OF assms(1), of rid u] assms(2) assms(4) [of rid] by (auto split: if_splits)
  show "approvals rid u (g_log g') + (if u \<in> g_pending g' rid then 1 else 0) \<le> parked rid u (g_log g')"
    using counts_okD(2) [OF assms(1), of rid u] assms(2) assms(3) [of rid] by (auto split: if_splits)
qed

lemma counts_append [simp]:
  "parked rid u (xs @ ys) = parked rid u xs + parked rid u ys" "approvals rid u (xs @ ys) = approvals rid u xs + approvals rid u ys"
  "used rid u (xs @ ys) = used rid u xs + used rid u ys"
  by (simp_all add: gate_counts)

lemma counts_note [simp]:
  "parked rid u (n # ns) = (if n = GateSent u (SrvJoinPending (priv_id rid)) then 1 else 0) + parked rid u ns"
  "approvals rid u (n # ns) = (if n = GateSent u (SrvJoinApproved (priv_id rid)) then 1 else 0) + approvals rid u ns"
  "used rid u (n # ns) = (if n = ByApproval rid u then 1 else 0) + used rid u ns"
  "parked rid u [] = 0" "approvals rid u [] = 0" "used rid u [] = 0"
  by (simp_all add: gate_counts)

lemma counts_okI:
  assumes "\<And>rid u. used rid u (g_log g) + (if u \<in> g_approved g rid then 1 else 0) \<le> approvals rid u (g_log g)"
    and "\<And>rid u. approvals rid u (g_log g) + (if u \<in> g_pending g rid then 1 else 0) \<le> parked rid u (g_log g)"
  shows "counts_ok g"
  using assms by (simp add: counts_ok_def)

lemma counts_ok_error: "counts_ok g \<Longrightarrow> counts_ok (fst (room_error u msg g))"
  by (simp add: counts_ok_def room_error_def gate_note_def)

lemma check_passcode_quiet:
  "g_log (fst (check_passcode db t rid u h p g)) = g_log g" "g_pending (fst (check_passcode db t rid u h p g)) = g_pending g"
  "g_approved (fst (check_passcode db t rid u h p g)) = g_approved g"
  by (auto simp: check_passcode_def split: prod.split bool.split)

lemma counts_ok_checked: "check_passcode db t rid u h p g = (g', r) \<Longrightarrow> counts_ok g \<Longrightarrow> counts_ok g'"
  using check_passcode_quiet [of db t rid u h p g] by (auto intro: counts_ok_quiet)

lemma counts_ok_park:
  "counts_ok g \<Longrightarrow> counts_ok (gate_note [GateSent u (SrvJoinPending (priv_id rid)), GateSent v (SrvJoinRequest x b)] (markPending rid u g))"
  by (rule counts_okI; frule counts_okD(1); frule counts_okD(2)) (auto simp: gate_note_def markPending_def split: if_splits)

lemma counts_ok_use:
  "counts_ok g \<Longrightarrow> consumeApproved rid u g = (g', True) \<Longrightarrow> counts_ok (gate_note [ByApproval rid u] g')"
  by (rule counts_okI; frule counts_okD(1); frule counts_okD(2)) (auto simp: gate_note_def consumeApproved_def split: if_splits)

lemma priv_id_inj [simp]: "priv_id x = priv_id y \<longleftrightarrow> x = y"
  by (simp add: priv_id_def)

lemma counts_ok_admit:
  assumes "counts_ok g" "u \<in> g_pending g rid"
  shows "counts_ok (gate_note [GateSent u (SrvJoinApproved (priv_id rid))]
    (markApproved rid u (g\<lparr>g_pending := (g_pending g)(rid := g_pending g rid - {u})\<rparr>)))"
proof (rule counts_okI)
  fix r v
  note c = counts_okD(1) [OF assms(1), of r v] counts_okD(2) [OF assms(1), of r v]
  show "used r v (g_log (gate_note [GateSent u (SrvJoinApproved (priv_id rid))] (markApproved rid u
        (g\<lparr>g_pending := (g_pending g)(rid := g_pending g rid - {u})\<rparr>)))) +
      (if v \<in> g_approved (gate_note [GateSent u (SrvJoinApproved (priv_id rid))] (markApproved rid u
        (g\<lparr>g_pending := (g_pending g)(rid := g_pending g rid - {u})\<rparr>))) r then 1 else 0) \<le>
      approvals r v (g_log (gate_note [GateSent u (SrvJoinApproved (priv_id rid))] (markApproved rid u
        (g\<lparr>g_pending := (g_pending g)(rid := g_pending g rid - {u})\<rparr>))))"
    using c by (auto simp: gate_note_def markApproved_def split: if_splits)
  show "approvals r v (g_log (gate_note [GateSent u (SrvJoinApproved (priv_id rid))] (markApproved rid u
        (g\<lparr>g_pending := (g_pending g)(rid := g_pending g rid - {u})\<rparr>)))) +
      (if v \<in> g_pending (gate_note [GateSent u (SrvJoinApproved (priv_id rid))] (markApproved rid u
        (g\<lparr>g_pending := (g_pending g)(rid := g_pending g rid - {u})\<rparr>))) r then 1 else 0) \<le>
      parked r v (g_log (gate_note [GateSent u (SrvJoinApproved (priv_id rid))] (markApproved rid u
        (g\<lparr>g_pending := (g_pending g)(rid := g_pending g rid - {u})\<rparr>))))"
    using c assms(2) by (auto simp: gate_note_def markApproved_def split: if_splits)
qed

lemma consume_none: "consumeApproved rid u g = (g', False) \<Longrightarrow> g' = g"
  by (auto simp: consumeApproved_def split: if_splits)

lemma counts_ok_ask: "counts_ok g \<Longrightarrow> counts_ok (fst (authorizePrivateRoomJoin db t usr rid p g))"
  using counts_ok_error [of g]
  by (auto simp: authorizePrivateRoomJoin_def Let_def split: option.split prod.split bool.split dest!: consume_none
      intro: counts_ok_use counts_ok_park counts_ok_checked counts_ok_error)

lemma privRoomID_inverse: "privRoomID room_id = Some rid \<Longrightarrow> room_id = priv_id rid"
  using append_take_drop_id [of 5 room_id] unfolding privRoomID_def priv_id_def by (metis option.distinct(1) option.sel)

lemma counts_ok_answer: "counts_ok g \<Longrightarrow> counts_ok (respondToJoinRequest db owner admit data g)"
proof -
  assume ok: "counts_ok g"
  have cleared: "counts_ok (g\<lparr>g_pending := (g_pending g)(rid := g_pending g rid - {u})\<rparr>)" for rid u
    by (rule counts_ok_quiet [OF ok]) auto
  have denied: "counts_ok (gate_note [GateSent u (SrvJoinDenied x)] g')" if "counts_ok g'" for u x g'
    using that by (simp add: counts_ok_def gate_note_def)
  have admitted: "counts_ok (gate_note [GateSent u (SrvJoinApproved room_id)]
      (markApproved rid u (g\<lparr>g_pending := (g_pending g)(rid := g_pending g rid - {u})\<rparr>)))"
    if "privRoomID room_id = Some rid" "u \<in> g_pending g rid" for rid u room_id
  proof -
    have "room_id = priv_id rid"
      using that(1) by (rule privRoomID_inverse)
    then show ?thesis
      using counts_ok_admit [OF ok that(2)] by simp
  qed
  show ?thesis
    using ok cleared denied admitted
    by (auto simp: respondToJoinRequest_def clearPending_def split: option.split bool.split)
qed

lemma counts_ok_run: "counts_ok (gate_run es)"
proof -
  have "counts_ok (gate_step e g)" if "counts_ok g" for e g
    using that by (cases e) (auto simp: counts_ok_ask counts_ok_answer dropUserEverywhere_def intro: counts_ok_quiet)
  then have "counts_ok g \<Longrightarrow> counts_ok (fold gate_step es g)" for g
    by (induction es arbitrary: g) simp_all
  then show ?thesis
    by (simp add: gate_run_def counts_ok_def new_gate_def)
qed


section \<open>Who gets through\<close>

text \<open>
  C40. Whoever gets past the gate of a private room without being its owner either was let in by the owner, an approval that
  this uses up, or was invited, to a room that does not ask the owner, and gave the passcode if it has one. And over
  any history: approvals that were used are at most those the owner gave, which are at most the requests that had passed the
  checks.
\<close>

theorem the_gate_admits_whom_it_should:
  assumes "authorizePrivateRoomJoin db t usr rid passcode (gate_run es) = (g', True)"
  shows "\<exists>room. gd_rooms db rid = Some room \<and>
    (pr_owner room = u_id usr \<or>
     (u_id usr \<in> g_approved (gate_run es) rid \<and> u_id usr \<notin> g_approved g' rid \<and>
        used rid (u_id usr) (g_log g') \<le> approvals rid (u_id usr) (g_log g') \<and>
        approvals rid (u_id usr) (g_log g') \<le> parked rid (u_id usr) (g_log g')) \<or>
     (gd_allowed db rid (u_id usr) = Some True \<and> \<not> pr_approval room \<and>
        (\<forall>h. pr_hash room = Some h \<longrightarrow> (\<exists>code. passcode = Some code \<and> gd_verify db h code))))"
proof -
  have ok: "counts_ok g'"
    using counts_ok_ask [OF counts_ok_run [of es], of db t usr rid passcode] assms by simp
  have code: "\<exists>code. p = Some code \<and> gd_verify db h code" if "check_passcode db t rid u h p g = (g2, None)" for u h p g g2
    using that by (cases p) (auto simp: check_passcode_def str_truthy_def split: if_splits prod.splits bool.splits)
  from assms obtain room where room: "gd_rooms db rid = Some room"
    by (cases "gd_rooms db rid") (auto simp: authorizePrivateRoomJoin_def room_error_def Let_def)
  consider "pr_owner room = u_id usr"
    | "pr_owner room \<noteq> u_id usr" "u_id usr \<in> g_approved (gate_run es) rid"
    | "pr_owner room \<noteq> u_id usr" "u_id usr \<notin> g_approved (gate_run es) rid" by blast
  then show ?thesis
  proof cases
    case 1
    then show ?thesis using room by blast
  next
    case 2
    then have "u_id usr \<notin> g_approved g' rid"
      using assms room by (auto simp: authorizePrivateRoomJoin_def Let_def consumeApproved_def gate_note_def)
    then show ?thesis
      using room 2 counts_okD [OF ok, where rid = rid and u = "u_id usr"] by (auto split: if_splits)
  next
    case 3
    then show ?thesis
      using assms room code
      by (auto simp: authorizePrivateRoomJoin_def Let_def consumeApproved_def room_error_def
          split: option.splits bool.splits prod.splits if_splits)
  qed
qed

text \<open>
  A passcode cannot be guessed at leisure: of any number of attempts on one key within the window of the first, at
  most five are checked, unless one is right.
\<close>

fun reserved :: "int list \<Rightarrow> string \<Rightarrow> login_limiter \<Rightarrow> nat" where
  "reserved [] k l = 0"
| "reserved (t # ts) k l = (case limiter_reserve t k l of (l1, ok) \<Rightarrow> (if ok then 1 else 0) + reserved ts k l1)"

lemma reserved_in_window:
  "attempts l k = Some a \<Longrightarrow> \<forall>t \<in> set ts. t \<le> at_until a \<Longrightarrow> reserved ts k l = min (length ts) (ll_max l - at_count a)"
  by (induction ts arbitrary: l a) (auto simp: limiter_reserve_def Let_def)

lemma five_guesses:
  assumes "attempts l k = None" "ll_max l = 5" "\<forall>x \<in> set ts. x \<le> t + ll_window l"
  shows "reserved (t # ts) k l \<le> 5"
  using assms reserved_in_window [of "l\<lparr>attempts := (attempts l)(k \<mapsto> \<lparr>at_count = 1, at_until = t + ll_window l\<rparr>)\<rparr>" k
    "\<lparr>at_count = 1, at_until = t + ll_window l\<rparr>" ts]
  by (simp add: limiter_reserve_def Let_def)

text \<open>One user's guesses do not lock another out.\<close>

lemma guesses_are_counted_apart: "k \<noteq> k' \<Longrightarrow> attempts (fst (limiter_reserve t k l)) k' = attempts l k'"
  by (simp add: limiter_reserve_def Let_def)

section \<open>Sample data\<close>

definition ex_private :: gate_room where
  "ex_private = \<lparr>pr_name = ''Room'', pr_owner = 7, pr_hash = Some ''h'', pr_approval = True\<rparr>"

definition ex_gate_db :: gate_db where
  "ex_gate_db = \<lparr>gd_rooms = [''ab'' \<mapsto> ex_private], gd_allowed = (\<lambda>_ u. Some (u = 9)), gd_verify = (\<lambda>h p. p = ''1234'')\<rparr>"

definition ex_guest :: user where
  "ex_guest = \<lparr>u_id = 9, u_username = ''bob'', u_display_name = ''Bob'', u_role = RoleUser, u_avatar_file_id = None,
     u_email = None, u_disabled = False, u_deleted = False, u_created_at = Iso 0, u_oidc_linked = False, u_status = Online,
     u_preferences = None\<rparr>"

definition ex_admitted :: "gate_event list" where
  "ex_admitted = [Asks ex_gate_db 0 ex_guest ''ab'' (Some ''1234''),
     Answers ex_gate_db 7 True (Some (JObj [(''room_id'', JStr ''priv:ab''), (''user_id'', JNum 9)]))]"

theorem the_gate_admits_whom_it_should_witness:
  "\<exists>g'. authorizePrivateRoomJoin ex_gate_db 1 ex_guest ''ab'' None (gate_run ex_admitted) = (g', True) \<and>
     9 \<in> g_approved (gate_run ex_admitted) ''ab'' \<and> 9 \<notin> g_approved g' ''ab''"
proof -
  have "snd (authorizePrivateRoomJoin ex_gate_db 1 ex_guest ''ab'' None (gate_run ex_admitted))"
    by code_simp
  then obtain g' where g': "authorizePrivateRoomJoin ex_gate_db 1 ex_guest ''ab'' None (gate_run ex_admitted) = (g', True)"
    by (metis prod.collapse)
  have "gd_rooms ex_gate_db ''ab'' = Some ex_private" "pr_owner ex_private = 7" "pr_approval ex_private" "u_id ex_guest = 9"
    by (simp_all add: ex_gate_db_def ex_private_def ex_guest_def)
  with the_gate_admits_whom_it_should [OF g'] g' show ?thesis by auto
qed

text \<open>A second visit needs a second approval.\<close>

lemma an_approval_admits_once:
  "\<not> snd (authorizePrivateRoomJoin ex_gate_db 2 ex_guest ''ab'' (Some ''1234'')
     (gate_run (ex_admitted @ [Asks ex_gate_db 1 ex_guest ''ab'' None])))"
  by code_simp

text \<open>An approval outlives the invitation: withdrawn in between, the guest still gets in.\<close>

lemma an_approval_outlives_the_invitation:
  "snd (authorizePrivateRoomJoin (ex_gate_db\<lparr>gd_allowed := (\<lambda>_ _. Some False)\<rparr>) 1 ex_guest ''ab'' None (gate_run ex_admitted))"
  by code_simp

end
