(* ===== verification/ServerChat.thy ===== *)
theory ServerChat
  imports ServerCalls
begin

text \<open>
  The server's part of the chat: the handlers of \<open>internal/signaling/chat.go\<close> over the rows of \<open>internal/db/chat.go\<close>, and
  the delivery of what arrived while somebody was away (\<open>onConnect\<close> in \<open>hub.go\<close>). Strings are counted the way the server
  counts them: characters for a plain text, bytes of UTF-8 for what is sealed.
\<close>

section \<open>Strings\<close>

text \<open>\<open>strings.TrimSpace\<close> on the characters of this model: it also takes the next-line character, which JavaScript keeps.\<close>

definition go_space :: "char \<Rightarrow> bool" where
  "go_space c = (of_char c \<in> {9, 10, 11, 12, 13, 32, 133, 160 :: nat})"

definition TrimSpace :: "string \<Rightarrow> string" where
  "TrimSpace s = rev (dropWhile go_space (rev (dropWhile go_space s)))"

definition utf8_len :: "string \<Rightarrow> nat" where
  "utf8_len s = sum_list (map (\<lambda>c. if of_char c < (128 :: nat) then 1 else 2) s)"

section \<open>The rows\<close>

text \<open>
  What the chat reads and writes of the database. A row of \<open>messages\<close> is a \<open>message\<close> whose runtime fields are empty;
  identifiers are never used twice (\<open>AUTOINCREMENT\<close>). \<open>cd_members\<close> is the table of groups, users and roles.
\<close>

record chat_db =
  cd_rows :: "int \<rightharpoonup> message"
  cd_last :: int
  cd_users :: "int \<rightharpoonup> user"
  cd_files :: "int \<rightharpoonup> file_brief"
  cd_members :: "(int \<times> int \<times> member_role) list"
  cd_reactions :: "message_reaction list"
  cd_group_read :: "int \<times> int \<rightharpoonup> int"

text \<open>How the database answers while one frame is handled: the clock, whether reads, writes and marks succeed.\<close>

record db_env =
  de_now :: iso
  de_read_ok :: bool
  de_write_ok :: bool
  de_mark_ok :: bool
  de_can_access :: "int \<Rightarrow> int \<Rightarrow> bool"

definition GetMessage :: "db_env \<Rightarrow> int \<Rightarrow> chat_db \<Rightarrow> message option" where
  "GetMessage e i d = (if de_read_ok e then cd_rows d i else None)"

definition new_row ::
  "iso \<Rightarrow> int \<Rightarrow> int \<Rightarrow> int option \<Rightarrow> int option \<Rightarrow> int option \<Rightarrow> int option \<Rightarrow> string \<Rightarrow> (string \<times> string) option \<Rightarrow> message" where
  "new_row at i from rec grp fid reply txt enc =
     \<lparr>mid = i, sender_id = from, recipient_id = rec, group_id = grp, file_id = fid, content = txt, sent_at = at,
      delivered_at = None, read_at = None, deleted_at = None, edited_at = None, reply_to_id = reply, pinned_at = None,
      is_encrypted = (enc \<noteq> None), enc_iv = map_option fst enc, enc_keys = map_option snd enc, reply_to = None,
      reactions = None, sender = None, mfile = None, pending = False, failed = False, clientID = None\<rparr>"

definition insert_row :: "message \<Rightarrow> chat_db \<Rightarrow> chat_db" where
  "insert_row m d = d\<lparr>cd_rows := (cd_rows d)(mid m \<mapsto> m), cd_last := mid m\<rparr>"

definition change_row :: "int \<Rightarrow> (message \<Rightarrow> message) \<Rightarrow> chat_db \<Rightarrow> chat_db" where
  "change_row i f d = d\<lparr>cd_rows := (cd_rows d)(i := map_option f (cd_rows d i))\<rparr>"

text \<open>An update of one row that also says whose row it must be and that it is not deleted; no row: \<open>ErrNotFound\<close>.\<close>

definition update_own :: "db_env \<Rightarrow> int \<Rightarrow> int \<Rightarrow> (message \<Rightarrow> message) \<Rightarrow> chat_db \<Rightarrow> chat_db \<times> message option" where
  "update_own e i who f d =
     (case cd_rows d i of
        None \<Rightarrow> (d, None)
      | Some m \<Rightarrow>
          if \<not> de_write_ok e \<or> sender_id m \<noteq> who \<or> deleted_at m \<noteq> None then (d, None)
          else (change_row i f d, GetMessage e i (change_row i f d)))"

definition DeleteMessage :: "db_env \<Rightarrow> int \<Rightarrow> int \<Rightarrow> chat_db \<Rightarrow> chat_db \<times> message option" where
  "DeleteMessage e i who = update_own e i who (\<lambda>m. m\<lparr>content := [], file_id := None, deleted_at := Some (de_now e)\<rparr>)"

definition EditMessage :: "db_env \<Rightarrow> int \<Rightarrow> int \<Rightarrow> string \<Rightarrow> chat_db \<Rightarrow> chat_db \<times> message option" where
  "EditMessage e i who txt = update_own e i who (\<lambda>m. m\<lparr>content := txt, edited_at := Some (de_now e)\<rparr>)"

definition PinMessage :: "db_env \<Rightarrow> int \<Rightarrow> bool \<Rightarrow> chat_db \<Rightarrow> chat_db \<times> message option" where
  "PinMessage e i pin d =
     (case cd_rows d i of
        None \<Rightarrow> (d, None)
      | Some m \<Rightarrow>
          if \<not> de_write_ok e \<or> (pin \<and> deleted_at m \<noteq> None) then (d, None)
          else (let d1 = change_row i (\<lambda>m. m\<lparr>pinned_at := if pin then Some (de_now e) else None\<rparr>) d
                in (d1, GetMessage e i d1)))"

definition is_reaction :: "int \<Rightarrow> int \<Rightarrow> string \<Rightarrow> message_reaction \<Rightarrow> bool" where
  "is_reaction i u emoji r = (mr_message_id r = i \<and> mr_user_id r = u \<and> mr_emoji r = emoji)"

definition ToggleReaction :: "db_env \<Rightarrow> int \<Rightarrow> int \<Rightarrow> string \<Rightarrow> chat_db \<Rightarrow> chat_db \<times> bool option" where
  "ToggleReaction e i u emoji d =
     (if \<not> de_read_ok e \<or> \<not> de_write_ok e then (d, None)
      else if list_ex (is_reaction i u emoji) (cd_reactions d)
      then (d\<lparr>cd_reactions := filter (\<lambda>r. \<not> is_reaction i u emoji r) (cd_reactions d)\<rparr>, Some False)
      else (d\<lparr>cd_reactions := cd_reactions d @ [\<lparr>mr_message_id = i, mr_user_id = u, mr_emoji = emoji\<rparr>]\<rparr>, Some True))"

definition MarkDelivered :: "int list \<Rightarrow> iso \<Rightarrow> chat_db \<Rightarrow> chat_db" where
  "MarkDelivered is at d =
     fold (\<lambda>i. change_row i (\<lambda>m. if delivered_at m = None then m\<lparr>delivered_at := Some at\<rparr> else m)) is d"

definition MarkDirectRead :: "int \<Rightarrow> int \<Rightarrow> iso \<Rightarrow> chat_db \<Rightarrow> chat_db" where
  "MarkDirectRead from to_id at d =
     d\<lparr>cd_rows := (\<lambda>i. map_option (\<lambda>m. if sender_id m = from \<and> recipient_id m = Some to_id \<and> read_at m = None
        then m\<lparr>read_at := Some at\<rparr> else m) (cd_rows d i))\<rparr>"

definition IsGroupMember :: "db_env \<Rightarrow> int \<Rightarrow> int \<Rightarrow> chat_db \<Rightarrow> bool option" where
  "IsGroupMember e g u d =
     (if de_read_ok e then Some (list_ex (\<lambda>(g', u', _). g' = g \<and> u' = u) (cd_members d)) else None)"

definition GroupMemberIDs :: "db_env \<Rightarrow> int \<Rightarrow> chat_db \<Rightarrow> int list option" where
  "GroupMemberIDs e g d =
     (if de_read_ok e then Some (map (\<lambda>(_, u, _). u) (filter (\<lambda>(g', _, _). g' = g) (cd_members d))) else None)"

definition GroupMemberRole :: "db_env \<Rightarrow> int \<Rightarrow> int \<Rightarrow> chat_db \<Rightarrow> member_role option" where
  "GroupMemberRole e g u d =
     (if de_read_ok e then map_option (\<lambda>(_, _, r). r) (find (\<lambda>(g', u', _). g' = g \<and> u' = u) (cd_members d)) else None)"

text \<open>The identifiers in use lie between 1 and the last one given out.\<close>

definition group_last :: "int \<Rightarrow> chat_db \<Rightarrow> int option" where
  "group_last g d =
     (case filter (\<lambda>i. case cd_rows d i of None \<Rightarrow> False | Some m \<Rightarrow> group_id m = Some g) [1..cd_last d] of
        [] \<Rightarrow> None | is \<Rightarrow> Some (last is))"

definition MarkGroupRead :: "int \<Rightarrow> int \<Rightarrow> chat_db \<Rightarrow> chat_db" where
  "MarkGroupRead g u d =
     (case group_last g d of
        None \<Rightarrow> d
      | Some i \<Rightarrow> d\<lparr>cd_group_read := (cd_group_read d)((g, u) \<mapsto>
          (case cd_group_read d (g, u) of None \<Rightarrow> i | Some j \<Rightarrow> max j i))\<rparr>)"

text \<open>The newest rows of a listing up to its limit, oldest first.\<close>

definition listMessages :: "(message \<Rightarrow> bool) \<Rightarrow> nat \<Rightarrow> chat_db \<Rightarrow> message list" where
  "listMessages P n d =
     rev (take n (rev (filter P (List.map_filter (cd_rows d) [1..cd_last d]))))"

definition UndeliveredDirect :: "int \<Rightarrow> nat \<Rightarrow> chat_db \<Rightarrow> message list" where
  "UndeliveredDirect u n d = listMessages (\<lambda>m. recipient_id m = Some u \<and> delivered_at m = None) n d"

section \<open>What is sent along with a row\<close>

definition ReplyPreview :: "chat_db \<Rightarrow> int \<Rightarrow> message_preview option" where
  "ReplyPreview d i = map_option (\<lambda>r. \<lparr>mp_id = mid r, mp_content = content r, mp_has_file = (file_id r \<noteq> None),
     mp_deleted = (deleted_at r \<noteq> None), mp_is_encrypted = is_encrypted r,
     mp_sender = map_option briefOf (cd_users d (sender_id r))\<rparr>) (cd_rows d i)"

definition enrich :: "db_env \<Rightarrow> chat_db \<Rightarrow> message \<Rightarrow> message" where
  "enrich e d m =
     (if \<not> de_read_ok e then m
      else let rs = filter (\<lambda>r. mr_message_id r = mid m) (cd_reactions d) in
        m\<lparr>sender := map_option briefOf (cd_users d (sender_id m)),
          mfile := Option.bind (file_id m) (cd_files d),
          reply_to := Option.bind (reply_to_id m) (ReplyPreview d),
          reactions := (if rs = [] then None else Some rs)\<rparr>)"

section \<open>Who may\<close>

record chat_srv =
  cs_hub :: hub
  cs_db :: chat_db

definition cs_send :: "hub_client \<Rightarrow> srv_frame \<Rightarrow> chat_srv \<Rightarrow> chat_srv" where
  "cs_send c f s = s\<lparr>cs_hub := client_send c f (cs_hub s)\<rparr>"

definition cs_user :: "int \<Rightarrow> srv_frame \<Rightarrow> chat_srv \<Rightarrow> chat_srv" where
  "cs_user u f s = s\<lparr>cs_hub := sendToUser u f (cs_hub s)\<rparr>"

definition canSeeMessage :: "db_env \<Rightarrow> int \<Rightarrow> message \<Rightarrow> chat_db \<Rightarrow> bool" where
  "canSeeMessage e me m d =
     (if sender_id m = me then True
      else (case (recipient_id m, group_id m) of
          (Some r, _) \<Rightarrow> r = me
        | (None, Some g) \<Rightarrow> IsGroupMember e g me d = Some True
        | (None, None) \<Rightarrow> False))"

definition srv_canPin :: "db_env \<Rightarrow> user \<Rightarrow> message \<Rightarrow> chat_db \<Rightarrow> bool" where
  "srv_canPin e me m d =
     (if sender_id m = u_id me \<or> u_role me = RoleAdmin then True
      else (case group_id m of
          Some g \<Rightarrow> (case GroupMemberRole e g (u_id me) d of
              None \<Rightarrow> False | Some r \<Rightarrow> r = Owner \<or> r = GroupAdmin)
        | None \<Rightarrow> recipient_id m = Some (u_id me)))"

definition replyTargetValid :: "db_env \<Rightarrow> int \<Rightarrow> int option \<Rightarrow> int option \<Rightarrow> int \<Rightarrow> chat_db \<Rightarrow> bool" where
  "replyTargetValid e i rec grp from d =
     (case GetMessage e i d of
        None \<Rightarrow> False
      | Some t \<Rightarrow>
          if deleted_at t \<noteq> None then False
          else (case (grp, rec) of
              (Some g, _) \<Rightarrow> group_id t = Some g
            | (None, Some r) \<Rightarrow>
                group_id t = None \<and> (sender_id t = from \<or> recipient_id t = Some from) \<and>
                (sender_id t = r \<or> recipient_id t = Some r)
            | (None, None) \<Rightarrow> False))"

text \<open>To everybody a message concerns, the caller last.\<close>

definition broadcastToConversationRaw :: "db_env \<Rightarrow> hub_client \<Rightarrow> message \<Rightarrow> srv_frame \<Rightarrow> chat_srv \<Rightarrow> chat_srv" where
  "broadcastToConversationRaw e c m f s =
     (case (recipient_id m, group_id m) of
        (Some r, _) \<Rightarrow> cs_send c f (cs_user (if r = hc_uid c then sender_id m else r) f s)
      | (None, Some g) \<Rightarrow>
          (case GroupMemberIDs e g (cs_db s) of
             None \<Rightarrow> s
           | Some us \<Rightarrow> cs_send c f (fold (\<lambda>u. cs_user u f) (filter (\<lambda>u. u \<noteq> hc_uid c) us) s))
      | (None, None) \<Rightarrow> s)"

section \<open>Sending\<close>

record send_payload =
  sm_client :: string
  sm_recipient :: "int option"
  sm_group :: "int option"
  sm_content :: string
  sm_file :: "int option"
  sm_reply :: "int option"
  sm_encrypted :: bool
  sm_iv :: string
  sm_keys :: string

definition send_payload_of :: "json option \<Rightarrow> send_payload option" where
  "send_payload_of data =
     (case go_fields data of
        None \<Rightarrow> None
      | Some fs \<Rightarrow>
         (case (go_str ''client_id'' fs, go_int_ptr ''recipient_id'' fs, go_int_ptr ''group_id'' fs, go_str ''content'' fs,
                go_int_ptr ''file_id'' fs) of
            (Some cid, Some rec, Some grp, Some txt, Some fid) \<Rightarrow>
             (case (go_int_ptr ''reply_to_id'' fs, go_bool ''encrypted'' fs, go_str ''enc_iv'' fs, go_str ''enc_keys'' fs) of
                (Some reply, Some enc, Some iv, Some keys) \<Rightarrow>
                  Some \<lparr>sm_client = cid, sm_recipient = rec, sm_group = grp, sm_content = txt, sm_file = fid,
                    sm_reply = reply, sm_encrypted = enc, sm_iv = iv, sm_keys = keys\<rparr>
              | _ \<Rightarrow> None)
          | _ \<Rightarrow> None))"

definition sendMessageError :: "hub_client \<Rightarrow> string \<Rightarrow> string \<Rightarrow> chat_srv \<Rightarrow> chat_srv" where
  "sendMessageError c cid txt = cs_send c (SrvChatError txt (Some cid))"

definition insertMessage ::
  "db_env \<Rightarrow> int \<Rightarrow> int option \<Rightarrow> int option \<Rightarrow> send_payload \<Rightarrow> chat_db \<Rightarrow> chat_db \<times> message option" where
  "insertMessage e from rec grp p d =
     (if \<not> de_write_ok e then (d, None)
      else let m = new_row (de_now e) (cd_last d + 1) from rec grp (sm_file p) (sm_reply p) (sm_content p)
                     (if sm_encrypted p then Some (sm_iv p, sm_keys p) else None);
               d1 = insert_row m d
           in (d1, GetMessage e (mid m) d1))"

text \<open>The checks of \<open>handleMessageSend\<close> in their order, on the content as it is stored.\<close>

definition send_refused :: "db_env \<Rightarrow> int \<Rightarrow> send_payload \<Rightarrow> chat_db \<Rightarrow> string option option" where
  "send_refused e me p d =
     (if \<not> sm_encrypted p \<and> length (sm_content p) > 8000 then Some (Some ''message too long (8000 chars max)'')
      else if sm_encrypted p \<and> (utf8_len (sm_content p) > 32000 \<or> utf8_len (sm_keys p) > 65536)
      then Some (Some ''message too large'')
      else if sm_recipient p \<noteq> None \<and> sm_group p \<noteq> None
      then Some (Some ''message cannot target both a user and a group'')
      else if \<exists>r \<in> set_option (sm_recipient p). r \<le> 0 \<or> r = me then Some (Some ''invalid message recipient'')
      else if \<exists>g \<in> set_option (sm_group p). g \<le> 0 then Some (Some ''invalid message group'')
      else if sm_recipient p = None \<and> sm_group p = None
      then Some (Some ''message needs recipient_id or group_id'')
      else if sm_content p = [] \<and> sm_file p = None then Some None
      else if \<exists>i \<in> set_option (sm_reply p). \<not> replyTargetValid e i (sm_recipient p) (sm_group p) me d
      then Some (Some ''invalid reply target'')
      else None)"

definition cannot_attach :: "db_env \<Rightarrow> int \<Rightarrow> send_payload \<Rightarrow> bool" where
  "cannot_attach e me p = (\<exists>f \<in> set_option (sm_file p). \<not> (de_read_ok e \<and> de_can_access e f me))"

definition sendGroupMessage :: "db_env \<Rightarrow> hub_client \<Rightarrow> int \<Rightarrow> send_payload \<Rightarrow> chat_srv \<Rightarrow> chat_srv" where
  "sendGroupMessage e c g p s =
     (let refuse = (\<lambda>txt. sendMessageError c (sm_client p) txt) in
      if IsGroupMember e g (hc_uid c) (cs_db s) \<noteq> Some True then refuse ''you are not a member of this group'' s
      else if cannot_attach e (hc_uid c) p then refuse ''invalid file reference'' s
      else (case GroupMemberIDs e g (cs_db s) of
        None \<Rightarrow> refuse ''could not load group members'' s
      | Some us \<Rightarrow>
         (case insertMessage e (hc_uid c) None (Some g) p (cs_db s) of
            (d, None) \<Rightarrow> refuse ''could not store message'' (s\<lparr>cs_db := d\<rparr>)
          | (d, Some m) \<Rightarrow>
              let m1 = enrich e d m in
              cs_send c (SrvMsgSent (sm_client p) m1)
                (fold (\<lambda>u. cs_user u (SrvMsgNew m1)) (filter (\<lambda>u. u \<noteq> hc_uid c) us) (s\<lparr>cs_db := d\<rparr>)))))"

definition sendDirectMessage :: "db_env \<Rightarrow> hub_client \<Rightarrow> int \<Rightarrow> send_payload \<Rightarrow> chat_srv \<Rightarrow> chat_srv" where
  "sendDirectMessage e c r p s =
     (let refuse = (\<lambda>txt. sendMessageError c (sm_client p) txt) in
      case (if de_read_ok e then cd_users (cs_db s) r else None) of
        None \<Rightarrow> refuse ''recipient not found'' s
      | Some ur \<Rightarrow>
          if u_disabled ur then refuse ''recipient is disabled'' s
          else if cannot_attach e (hc_uid c) p then refuse ''invalid file reference'' s
          else (case insertMessage e (hc_uid c) (Some r) None p (cs_db s) of
              (d, None) \<Rightarrow> refuse ''could not store message'' (s\<lparr>cs_db := d\<rparr>)
            | (d, Some m) \<Rightarrow>
                let m1 = enrich e d m;
                    pushed = user_send_ok (u_id ur) (cs_hub s);
                    s1 = cs_user (u_id ur) (SrvMsgNew m1) (s\<lparr>cs_db := d\<rparr>);
                    marked = pushed \<and> de_mark_ok e;
                    s2 = (if marked then s1\<lparr>cs_db := MarkDelivered [mid m] (de_now e) d\<rparr> else s1)
                in cs_send c (SrvMsgSent (sm_client p) (if marked then m1\<lparr>delivered_at := Some (de_now e)\<rparr> else m1)) s2))"

definition handleMessageSend :: "db_env \<Rightarrow> hub_client \<Rightarrow> json option \<Rightarrow> chat_srv \<Rightarrow> chat_srv" where
  "handleMessageSend e c data s =
     (case send_payload_of data of
        None \<Rightarrow> cs_send c (SrvChatError ''malformed message'' None) s
      | Some p0 \<Rightarrow>
         (let p = (if sm_encrypted p0 then p0 else p0\<lparr>sm_content := TrimSpace (sm_content p0)\<rparr>) in
          case send_refused e (hc_uid c) p (cs_db s) of
            Some None \<Rightarrow> s
          | Some (Some txt) \<Rightarrow> sendMessageError c (sm_client p) txt s
          | None \<Rightarrow>
             (case (sm_group p, sm_recipient p) of
                (Some g, _) \<Rightarrow> sendGroupMessage e c g p s
              | (None, Some r) \<Rightarrow> sendDirectMessage e c r p s
              | (None, None) \<Rightarrow> s)))"

section \<open>Changing what was sent\<close>

text \<open>A decoded identifier is good when it is positive.\<close>

definition go_id :: "(string \<times> json) list \<Rightarrow> int option" where
  "go_id fs = Option.bind (go_int ''id'' fs) (\<lambda>i. if i \<le> 0 then None else Some i)"

definition chat_error :: "hub_client \<Rightarrow> string \<Rightarrow> chat_srv \<Rightarrow> chat_srv" where
  "chat_error c txt = cs_send c (SrvChatError txt None)"

definition handleMessageDelete :: "db_env \<Rightarrow> hub_client \<Rightarrow> json option \<Rightarrow> chat_srv \<Rightarrow> chat_srv" where
  "handleMessageDelete e c data s =
     (case Option.bind (go_fields data) go_id of
        None \<Rightarrow> s
      | Some i \<Rightarrow>
         (case DeleteMessage e i (hc_uid c) (cs_db s) of
            (d, None) \<Rightarrow> chat_error c ''could not delete message'' (s\<lparr>cs_db := d\<rparr>)
          | (d, Some m) \<Rightarrow>
              broadcastToConversationRaw e c m (SrvMsgDeleted (mid m) (sender_id m) (recipient_id m) (group_id m))
                (s\<lparr>cs_db := d\<rparr>)))"

definition edit_refused :: "db_env \<Rightarrow> int \<Rightarrow> string \<Rightarrow> chat_db \<Rightarrow> string option" where
  "edit_refused e i txt d =
     (if \<exists>m \<in> set_option (GetMessage e i d). is_encrypted m
      then Some ''encrypted messages can't be edited -- delete and resend instead''
      else if txt = [] then Some ''message cannot be empty''
      else if length txt > 8000 then Some ''message too long (8000 chars max)''
      else None)"

definition handleMessageEdit :: "db_env \<Rightarrow> hub_client \<Rightarrow> json option \<Rightarrow> chat_srv \<Rightarrow> chat_srv" where
  "handleMessageEdit e c data s =
     (case Option.bind (go_fields data) (\<lambda>fs. Option.bind (go_str ''content'' fs) (\<lambda>t. map_option (\<lambda>i. (i, t)) (go_id fs))) of
        None \<Rightarrow> s
      | Some (i, t) \<Rightarrow>
         (case edit_refused e i (TrimSpace t) (cs_db s) of
            Some why \<Rightarrow> chat_error c why s
          | None \<Rightarrow>
             (case EditMessage e i (hc_uid c) (TrimSpace t) (cs_db s) of
                (d, None) \<Rightarrow> chat_error c ''could not edit message'' (s\<lparr>cs_db := d\<rparr>)
              | (d, Some m) \<Rightarrow>
                  broadcastToConversationRaw e c m (SrvMsgEdited (enrich e d m)) (s\<lparr>cs_db := d\<rparr>))))"

definition handleMessageReact :: "db_env \<Rightarrow> hub_client \<Rightarrow> json option \<Rightarrow> chat_srv \<Rightarrow> chat_srv" where
  "handleMessageReact e c data s =
     (case Option.bind (go_fields data) (\<lambda>fs. Option.bind (go_str ''emoji'' fs) (\<lambda>t. map_option (\<lambda>i. (i, t)) (go_id fs))) of
        None \<Rightarrow> s
      | Some (i, emoji) \<Rightarrow>
          if emoji = [] \<or> length emoji > 8 then s
          else (case GetMessage e i (cs_db s) of
              None \<Rightarrow> s
            | Some m \<Rightarrow>
                if \<not> canSeeMessage e (hc_uid c) m (cs_db s) then s
                else (case ToggleReaction e i (hc_uid c) emoji (cs_db s) of
                    (d, None) \<Rightarrow> s\<lparr>cs_db := d\<rparr>
                  | (d, Some added) \<Rightarrow>
                      broadcastToConversationRaw e c m
                        (SrvReaction (mid m) (sender_id m) (recipient_id m) (group_id m) (hc_uid c) emoji added)
                        (s\<lparr>cs_db := d\<rparr>))))"

definition handleMessagePin :: "db_env \<Rightarrow> hub_client \<Rightarrow> json option \<Rightarrow> chat_srv \<Rightarrow> chat_srv" where
  "handleMessagePin e c data s =
     (case Option.bind (go_fields data) (\<lambda>fs. Option.bind (go_bool ''pinned'' fs) (\<lambda>b. map_option (\<lambda>i. (i, b)) (go_id fs))) of
        None \<Rightarrow> s
      | Some (i, pin) \<Rightarrow>
         (case GetMessage e i (cs_db s) of
            None \<Rightarrow> s
          | Some m \<Rightarrow>
              if \<not> canSeeMessage e (hc_uid c) m (cs_db s) then s
              else if \<not> srv_canPin e (hc_user c) m (cs_db s)
              then chat_error c ''you cannot pin messages in this conversation'' s
              else (case PinMessage e i pin (cs_db s) of
                  (d, None) \<Rightarrow> chat_error c ''could not update pin'' (s\<lparr>cs_db := d\<rparr>)
                | (d, Some u) \<Rightarrow>
                    broadcastToConversationRaw e c u
                      (SrvPinned (mid u) (sender_id u) (recipient_id u) (group_id u) (pinned_at u)) (s\<lparr>cs_db := d\<rparr>))))"

section \<open>Typing, reading, coming back\<close>

text \<open>Where the two fields of a frame point: a person first, else a group.\<close>

definition go_target :: "string \<Rightarrow> json option \<Rightarrow> (int option \<times> int option) option" where
  "go_target f data = Option.bind (go_fields data) (\<lambda>fs. Option.bind (go_int_ptr f fs) (\<lambda>p.
     map_option (\<lambda>g. (p, g)) (go_int_ptr ''group_id'' fs)))"

definition to_group :: "db_env \<Rightarrow> hub_client \<Rightarrow> int \<Rightarrow> srv_frame \<Rightarrow> chat_srv \<Rightarrow> chat_srv" where
  "to_group e c g f s = (case GroupMemberIDs e g (cs_db s) of
     None \<Rightarrow> s | Some us \<Rightarrow> fold (\<lambda>u. cs_user u f) (filter (\<lambda>u. u \<noteq> hc_uid c) us) s)"

definition handleTyping :: "db_env \<Rightarrow> hub_client \<Rightarrow> json option \<Rightarrow> chat_srv \<Rightarrow> chat_srv" where
  "handleTyping e c data s =
     (case go_target ''recipient_id'' data of
        None \<Rightarrow> s
      | Some (Some r, _) \<Rightarrow>
          if r = hc_uid c then s else cs_user r (SrvTyping (hc_uid c) (u_display_name (hc_user c)) None) s
      | Some (None, Some g) \<Rightarrow>
          if IsGroupMember e g (hc_uid c) (cs_db s) = Some True
          then to_group e c g (SrvTyping (hc_uid c) (u_display_name (hc_user c)) (Some g)) s else s
      | Some (None, None) \<Rightarrow> s)"

definition handleRead :: "db_env \<Rightarrow> hub_client \<Rightarrow> json option \<Rightarrow> chat_srv \<Rightarrow> chat_srv" where
  "handleRead e c data s =
     (case go_target ''peer_id'' data of
        None \<Rightarrow> s
      | Some (Some p, _) \<Rightarrow>
          if \<not> de_write_ok e then s
          else cs_user p (SrvRead (hc_uid c)) (s\<lparr>cs_db := MarkDirectRead p (hc_uid c) (de_now e) (cs_db s)\<rparr>)
      | Some (None, Some g) \<Rightarrow>
          if IsGroupMember e g (hc_uid c) (cs_db s) = Some True
          then to_group e c g (SrvGroupRead (hc_uid c) g)
                 (if de_write_ok e then s\<lparr>cs_db := MarkGroupRead g (hc_uid c) (cs_db s)\<rparr> else s)
          else s
      | Some (None, None) \<Rightarrow> s)"

text \<open>What waited for somebody who was away, pushed to the new connection; what its channel had room for is marked as delivered.\<close>

definition push_offline :: "hub_client \<Rightarrow> (message \<Rightarrow> srv_frame) \<Rightarrow> message list \<Rightarrow> chat_srv \<Rightarrow> chat_srv \<times> int list" where
  "push_offline c f ms s =
     fold (\<lambda>m (t, sent). (cs_send c (f m) t, if send_ok c (cs_hub t) then sent @ [mid m] else sent)) ms (s, [])"

definition deliver_offline :: "db_env \<Rightarrow> hub_client \<Rightarrow> chat_srv \<Rightarrow> chat_srv" where
  "deliver_offline e c s =
     (if \<not> de_read_ok e then s
      else let ms = UndeliveredDirect (hc_uid c) 200 (cs_db s);
               (s1, toMark) = push_offline c (\<lambda>m. SrvMsgNew (enrich e (cs_db s) m)) ms s
           in if de_mark_ok e then s1\<lparr>cs_db := MarkDelivered toMark (de_now e) (cs_db s)\<rparr> else s1)"

section \<open>Any chat frame\<close>

definition route_chat :: "db_env \<Rightarrow> hub_client \<Rightarrow> string \<Rightarrow> json option \<Rightarrow> chat_srv \<Rightarrow> chat_srv" where
  "route_chat e c ty data s =
     (if ty = ''message:send'' then handleMessageSend e c data s
      else if ty = ''message:delete'' then handleMessageDelete e c data s
      else if ty = ''message:edit'' then handleMessageEdit e c data s
      else if ty = ''message:react'' then handleMessageReact e c data s
      else if ty = ''message:pin'' then handleMessagePin e c data s
      else if ty = ''message:typing'' then handleTyping e c data s
      else if ty = ''message:read'' then handleRead e c data s
      else s)"

end
