(* ===== verification/ServerChatLaws.thy ===== *)
theory ServerChatLaws
  imports ServerChat
begin

text \<open>
  What the chat handlers keep: the rows stay numbered and owned, the connections are untouched, and every frame about a
  message goes to somebody the message concerns.
\<close>

section \<open>What a handler leaves alone\<close>

lemma cs_send_simps [simp]:
  "cs_db (cs_send c f s) = cs_db s" "h_clients (cs_hub (cs_send c f s)) = h_clients (cs_hub s)"
  "h_sent (cs_hub (cs_send c f s)) = h_sent (cs_hub s) @ [(hc_conn c, f)]"
  by (simp_all add: cs_send_def client_send_def)

lemma cs_user_simps [simp]:
  "cs_db (cs_user u f s) = cs_db s" "h_clients (cs_hub (cs_user u f s)) = h_clients (cs_hub s)"
  "h_sent (cs_hub (cs_user u f s)) = h_sent (cs_hub s) @
     (case h_clients (cs_hub s) u of None \<Rightarrow> [] | Some c \<Rightarrow> [(hc_conn c, f)])"
  by (simp_all add: cs_user_def sendToUser_def client_send_def split: option.split)

lemma fold_user_simps [simp]:
  "cs_db (fold (\<lambda>u. cs_user u f) us s) = cs_db s"
  "h_clients (cs_hub (fold (\<lambda>u. cs_user u f) us s)) = h_clients (cs_hub s)"
  "h_sent (cs_hub (fold (\<lambda>u. cs_user u f) us s)) = h_sent (cs_hub s) @
     List.map_filter (\<lambda>u. map_option (\<lambda>c. (hc_conn c, f)) (h_clients (cs_hub s) u)) us"
  by (induction us arbitrary: s) (auto simp: List.map_filter_simps split: option.splits)

lemma fold_send_simps [simp]:
  "cs_db (fold (\<lambda>m. cs_send c (g m)) ms s) = cs_db s"
  "h_clients (cs_hub (fold (\<lambda>m. cs_send c (g m)) ms s)) = h_clients (cs_hub s)"
  "h_sent (cs_hub (fold (\<lambda>m. cs_send c (g m)) ms s)) = h_sent (cs_hub s) @ map (\<lambda>m. (hc_conn c, g m)) ms"
  by (induction ms arbitrary: s) auto

section \<open>Who is told\<close>

text \<open>The sender, recipient and group of the message a frame is about.\<close>

fun frame_about :: "srv_frame \<Rightarrow> (int \<times> int option \<times> int option) option" where
  "frame_about (SrvMsgNew m) = Some (sender_id m, recipient_id m, group_id m)"
| "frame_about (SrvMsgSent _ m) = Some (sender_id m, recipient_id m, group_id m)"
| "frame_about (SrvMsgEdited m) = Some (sender_id m, recipient_id m, group_id m)"
| "frame_about (SrvMsgDeleted _ u r g) = Some (u, r, g)"
| "frame_about (SrvReaction _ u r g _ _ _) = Some (u, r, g)"
| "frame_about (SrvPinned _ u r g _) = Some (u, r, g)"
| "frame_about _ = None"

definition concerns :: "int \<times> int option \<times> int option \<Rightarrow> chat_db \<Rightarrow> int \<Rightarrow> bool" where
  "concerns a d u = (case a of (from, rec, grp) \<Rightarrow>
     u = from \<or> rec = Some u \<or> (\<exists>g r. grp = Some g \<and> (g, u, r) \<in> set (cd_members d)))"

text \<open>The connection of a person: the client being served, or the one registered for it.\<close>

definition conn_of :: "hub_client \<Rightarrow> hub \<Rightarrow> int \<Rightarrow> nat set" where
  "conn_of c h u = (if hc_uid c = u then {hc_conn c} else {}) \<union> hc_conn ` set_option (h_clients h u)"

definition told_right :: "hub_client \<Rightarrow> chat_srv \<Rightarrow> nat \<times> srv_frame \<Rightarrow> bool" where
  "told_right c s x = (\<forall>a \<in> set_option (frame_about (snd x)). \<exists>u. concerns a (cs_db s) u \<and> fst x \<in> conn_of c (cs_hub s) u)"

definition tells :: "hub_client \<Rightarrow> chat_srv \<Rightarrow> chat_srv \<Rightarrow> bool" where
  "tells c s t = (h_clients (cs_hub t) = h_clients (cs_hub s) \<and> cd_members (cs_db t) = cd_members (cs_db s) \<and>
     (\<exists>new. h_sent (cs_hub t) = h_sent (cs_hub s) @ new \<and> list_all (told_right c s) new))"

lemma tells_refl [simp]: "tells c s s"
  by (simp add: tells_def)

lemma tells_db: "tells c s t \<Longrightarrow> cd_members d = cd_members (cs_db t) \<Longrightarrow> tells c s (t\<lparr>cs_db := d\<rparr>)"
  by (simp add: tells_def)

lemma conn_of_self: "hc_conn c \<in> conn_of c h (hc_uid c)"
  by (simp add: conn_of_def)

lemma conn_of_client: "h_clients h u = Some d \<Longrightarrow> hc_conn d \<in> conn_of c h u"
  by (simp add: conn_of_def)

lemma tells_send:
  assumes "tells c s t" "\<And>a. frame_about f = Some a \<Longrightarrow> concerns a (cs_db s) (hc_uid c)"
  shows "tells c s (cs_send c f t)"
proof -
  have "told_right c s (hc_conn c, f)"
    using assms(2) by (auto simp: told_right_def intro!: exI [of _ "hc_uid c"] conn_of_self)
  then show ?thesis using assms(1) by (auto simp: tells_def)
qed

lemma tells_user:
  assumes "tells c s t" "\<And>a. frame_about f = Some a \<Longrightarrow> concerns a (cs_db s) u"
  shows "tells c s (cs_user u f t)"
proof -
  have "told_right c s (hc_conn d, f)" if "h_clients (cs_hub s) u = Some d" for d
    using assms(2) that by (auto simp: told_right_def intro!: exI [of _ u] conn_of_client)
  then show ?thesis using assms(1) by (auto simp: tells_def split: option.split)
qed

lemma tells_users:
  assumes "tells c s t" "\<And>a u. frame_about f = Some a \<Longrightarrow> u \<in> set us \<Longrightarrow> concerns a (cs_db s) u"
  shows "tells c s (fold (\<lambda>u. cs_user u f) us t)"
  using assms
proof (induction us arbitrary: t)
  case (Cons u us)
  have "tells c s (cs_user u f t)" by (rule tells_user) (use Cons.prems in auto)
  then have "tells c s (fold (\<lambda>u. cs_user u f) us (cs_user u f t))" by (rule Cons.IH) (use Cons.prems in auto)
  then show ?case by simp
qed simp

lemma tells_error: "tells c s t \<Longrightarrow> tells c s (sendMessageError c cid txt t)" "tells c s t \<Longrightarrow> tells c s (chat_error c txt t)"
  by (auto simp: sendMessageError_def chat_error_def intro: tells_send)

lemma members_changes [simp]:
  "cd_members (change_row i f d) = cd_members d" "cd_members (insert_row m d) = cd_members d"
  "cd_members (MarkDelivered is at d) = cd_members d" "cd_members (MarkDirectRead a b at d) = cd_members d"
  "cd_members (MarkGroupRead g u d) = cd_members d"
proof -
  show "cd_members (MarkDelivered is at d) = cd_members d"
    unfolding MarkDelivered_def by (induction "is" arbitrary: d) (simp_all add: change_row_def)
qed (simp_all add: change_row_def insert_row_def MarkDirectRead_def MarkGroupRead_def split: option.split)

lemma GroupMemberIDs_in: "GroupMemberIDs e g d = Some us \<Longrightarrow> u \<in> set us \<Longrightarrow> \<exists>r. (g, u, r) \<in> set (cd_members d)"
  by (auto simp: GroupMemberIDs_def split: if_splits)

lemma IsGroupMember_in: "IsGroupMember e g u d = Some True \<Longrightarrow> \<exists>r. (g, u, r) \<in> set (cd_members d)"
  by (auto simp: IsGroupMember_def list_ex_iff split: if_splits)

lemma concerns_simps:
  "concerns (from, rec, grp) d from" "concerns (from, Some r, grp) d r"
  "(g, u, r') \<in> set (cd_members d) \<Longrightarrow> concerns (from, rec, Some g) d u"
  by (auto simp: concerns_def)

lemma canSee_concerns: "canSeeMessage e u m d \<Longrightarrow> concerns (sender_id m, recipient_id m, group_id m) d u"
  by (auto simp: canSeeMessage_def concerns_def dest: IsGroupMember_in split: if_splits option.splits)

lemma tells_broadcast:
  assumes "tells c s t" "concerns (sender_id m, recipient_id m, group_id m) (cs_db s) (hc_uid c)"
    and "frame_about f = Some (sender_id m, recipient_id m, group_id m)"
  shows "tells c s (broadcastToConversationRaw e c m f t)"
proof (cases "recipient_id m")
  case (Some r)
  then show ?thesis using assms
    by (auto simp: broadcastToConversationRaw_def intro!: tells_send tells_user simp: concerns_simps)
next
  case None
  have mem: "cd_members (cs_db t) = cd_members (cs_db s)" using assms(1) by (simp add: tells_def)
  have "tells c s (cs_send c f (fold (\<lambda>u. cs_user u f) (filter (\<lambda>u. u \<noteq> hc_uid c) us) t))"
    if us: "group_id m = Some g" "GroupMemberIDs e g (cs_db t) = Some us" for g us
  proof (rule tells_send [OF tells_users [OF assms(1)]])
    show "concerns a (cs_db s) u" if "frame_about f = Some a" "u \<in> set (filter (\<lambda>u. u \<noteq> hc_uid c) us)" for a u
      using that us assms(3) GroupMemberIDs_in [OF us(2), of u] by (auto simp: mem intro: concerns_simps(3))
  qed (use assms in simp)
  then show ?thesis using assms(1) None by (simp add: broadcastToConversationRaw_def split: option.split)
qed

section \<open>The rows a change leaves\<close>

text \<open>A row keeps its number and whose it is.\<close>

definition row_about :: "message \<Rightarrow> int \<times> int option \<times> int option" where
  "row_about m = (sender_id m, recipient_id m, group_id m)"

lemma update_own_Some:
  assumes "update_own e i who f d = (d', Some m)" "\<And>m. row_about (f m) = row_about m"
  obtains r where "cd_rows d i = Some r" "sender_id r = who" "m = f r" "d' = change_row i f d" "row_about m = row_about r"
  using assms by (auto simp: update_own_def GetMessage_def change_row_def split: option.splits if_splits)

lemma update_own_members: "update_own e i who f d = (d', x) \<Longrightarrow> cd_members d' = cd_members d"
  by (auto simp: update_own_def split: option.splits if_splits)

lemma PinMessage_Some:
  assumes "PinMessage e i pin d = (d', Some m)"
  obtains r where "cd_rows d i = Some r" "row_about m = row_about r"
  using assms by (auto simp: PinMessage_def GetMessage_def change_row_def row_about_def Let_def split: option.splits if_splits)

lemma PinMessage_members: "PinMessage e i pin d = (d', x) \<Longrightarrow> cd_members d' = cd_members d"
  by (auto simp: PinMessage_def Let_def split: option.splits if_splits)

lemma insertMessage_Some:
  assumes "insertMessage e from rec grp p d = (d', Some m)"
  shows "row_about m = (from, rec, grp)" "cd_members d' = cd_members d"
  using assms by (auto simp: insertMessage_def GetMessage_def insert_row_def new_row_def row_about_def Let_def split: if_splits)

lemma insertMessage_members: "insertMessage e from rec grp p d = (d', x) \<Longrightarrow> cd_members d' = cd_members d"
  by (auto simp: insertMessage_def Let_def split: if_splits)

lemma enrich_about [simp]: "row_about (enrich e d m) = row_about m" "row_about (m\<lparr>delivered_at := t\<rparr>) = row_about m"
  by (simp_all add: enrich_def row_about_def Let_def)

lemma frame_about_row [simp]:
  "frame_about (SrvMsgNew m) = Some (row_about m)" "frame_about (SrvMsgSent cid m) = Some (row_about m)"
  "frame_about (SrvMsgEdited m) = Some (row_about m)"
  by (simp_all add: row_about_def)

declare frame_about.simps(1-3) [simp del]

lemma tells_changed: "tells c s s \<Longrightarrow> cd_members d = cd_members (cs_db s) \<Longrightarrow> tells c s (s\<lparr>cs_db := d\<rparr>)"
  by (simp add: tells_def)

lemma tells_group_send: "tells c s (sendGroupMessage e c g p s)"
proof -
  have "tells c s (cs_send c (SrvMsgSent (sm_client p) (enrich e d m))
        (fold (\<lambda>u. cs_user u (SrvMsgNew (enrich e d m))) (filter (\<lambda>u. u \<noteq> hc_uid c) us) (s\<lparr>cs_db := d\<rparr>)))"
    if "insertMessage e (hc_uid c) None (Some g) p (cs_db s) = (d, Some m)" "GroupMemberIDs e g (cs_db s) = Some us" for d m us
  proof (rule tells_send [OF tells_users [OF tells_changed]])
    show "concerns a (cs_db s) u" if "frame_about (SrvMsgNew (enrich e d m)) = Some a" "u \<in> set (filter (\<lambda>u. u \<noteq> hc_uid c) us)" for a u
      using that insertMessage_Some(1) [OF \<open>insertMessage _ _ _ _ _ _ = _\<close>] GroupMemberIDs_in [OF \<open>GroupMemberIDs _ _ _ = _\<close>, of u]
      by (auto intro: concerns_simps(3))
    show "concerns a (cs_db s) (hc_uid c)" if "frame_about (SrvMsgSent (sm_client p) (enrich e d m)) = Some a" for a
      using that insertMessage_Some(1) [OF \<open>insertMessage _ _ _ _ _ _ = _\<close>] by (auto intro: concerns_simps(1))
  qed (use insertMessage_Some(2) [OF that(1)] in simp_all)
  then show ?thesis
    by (auto simp: sendGroupMessage_def Let_def intro!: tells_error tells_changed dest: insertMessage_members
        split: option.split prod.split)
qed

definition users_keyed :: "chat_db \<Rightarrow> bool" where
  "users_keyed d = (\<forall>i u. cd_users d i = Some u \<longrightarrow> u_id u = i)"

lemma tells_direct_send:
  assumes "users_keyed (cs_db s)"
  shows "tells c s (sendDirectMessage e c r p s)"
proof -
  have "tells c s (cs_send c (SrvMsgSent (sm_client p) (if b then (enrich e d m)\<lparr>delivered_at := Some (de_now e)\<rparr> else enrich e d m))
      (if b then (cs_user r (SrvMsgNew (enrich e d m)) (s\<lparr>cs_db := d\<rparr>))\<lparr>cs_db := MarkDelivered [mid m] (de_now e) d\<rparr>
       else cs_user r (SrvMsgNew (enrich e d m)) (s\<lparr>cs_db := d\<rparr>)))"
    if ins: "insertMessage e (hc_uid c) (Some r) None p (cs_db s) = (d, Some m)" for d m b
  proof (rule tells_send)
    have "tells c s (cs_user r (SrvMsgNew (enrich e d m)) (s\<lparr>cs_db := d\<rparr>))"
      by (rule tells_user [OF tells_changed]) (use insertMessage_Some [OF ins] in \<open>auto intro: concerns_simps(2)\<close>)
    then show "tells c s (if b then (cs_user r (SrvMsgNew (enrich e d m)) (s\<lparr>cs_db := d\<rparr>))\<lparr>cs_db := MarkDelivered [mid m] (de_now e) d\<rparr>
       else cs_user r (SrvMsgNew (enrich e d m)) (s\<lparr>cs_db := d\<rparr>))"
      by (auto intro!: tells_db)
    show "concerns a (cs_db s) (hc_uid c)"
      if "frame_about (SrvMsgSent (sm_client p) (if b then (enrich e d m)\<lparr>delivered_at := Some (de_now e)\<rparr> else enrich e d m)) = Some a" for a
      using that insertMessage_Some(1) [OF ins] by (cases b) (auto simp: concerns_simps(1))
  qed
  note sent = this
  have "u_id ur = r" if "cd_users (cs_db s) r = Some ur" for ur
    using assms that by (simp add: users_keyed_def)
  then show ?thesis
    by (auto simp: sendDirectMessage_def Let_def intro!: tells_error tells_changed sent [where b = True, simplified]
        sent [where b = False, simplified] dest: insertMessage_members
        split: option.split prod.split)
qed

lemma tells_own_change:
  assumes "update_own e i (hc_uid c) f (cs_db s) = (d, Some m)" "\<And>m. row_about (f m) = row_about m"
    and "frame_about x = Some (row_about m)"
  shows "tells c s (broadcastToConversationRaw e c m x (s\<lparr>cs_db := d\<rparr>))"
proof (rule tells_broadcast [OF tells_changed])
  obtain r where r: "sender_id r = hc_uid c" "row_about m = row_about r"
    using assms(1) by (rule update_own_Some) (use assms(2) in auto)
  then show "concerns (sender_id m, recipient_id m, group_id m) (cs_db s) (hc_uid c)"
    by (simp add: row_about_def concerns_def)
  show "frame_about x = Some (sender_id m, recipient_id m, group_id m)" using assms(3) by (simp add: row_about_def)
qed (use update_own_members [OF assms(1)] in simp_all)

lemma tells_delete: "tells c s (handleMessageDelete e c data s)"
proof -
  have own: "tells c s (broadcastToConversationRaw e c m (SrvMsgDeleted (mid m) (sender_id m) (recipient_id m) (group_id m))
      (s\<lparr>cs_db := d\<rparr>))" if "DeleteMessage e i (hc_uid c) (cs_db s) = (d, Some m)" for i d m
    using that unfolding DeleteMessage_def by (rule tells_own_change) (simp_all add: row_about_def)
  show ?thesis
    by (auto simp: handleMessageDelete_def intro!: own tells_error tells_changed split: option.split prod.split)
      (simp add: DeleteMessage_def update_own_members)
qed

lemma tells_edit: "tells c s (handleMessageEdit e c data s)"
proof -
  have own: "tells c s (broadcastToConversationRaw e c m (SrvMsgEdited (enrich e d m)) (s\<lparr>cs_db := d\<rparr>))"
    if "EditMessage e i (hc_uid c) t (cs_db s) = (d, Some m)" for i t d m
    using that unfolding EditMessage_def by (rule tells_own_change) (simp add: row_about_def, simp)
  show ?thesis
    by (auto simp: handleMessageEdit_def intro!: own tells_error tells_changed split: option.split prod.split)
      (simp add: EditMessage_def update_own_members)
qed

lemma ToggleReaction_members: "ToggleReaction e i u emoji d = (d', x) \<Longrightarrow> cd_members d' = cd_members d"
  by (auto simp: ToggleReaction_def split: if_splits)

lemma tells_react: "tells c s (handleMessageReact e c data s)"
  by (auto simp: handleMessageReact_def intro!: tells_broadcast tells_changed canSee_concerns dest: ToggleReaction_members
      split: option.split prod.split)

lemma tells_pin: "tells c s (handleMessagePin e c data s)"
proof -
  have pin: "tells c s (broadcastToConversationRaw e c u (SrvPinned (mid u) (sender_id u) (recipient_id u) (group_id u) (pinned_at u))
      (s\<lparr>cs_db := d\<rparr>))"
    if h: "GetMessage e i (cs_db s) = Some m" "canSeeMessage e (hc_uid c) m (cs_db s)" "PinMessage e i b (cs_db s) = (d, Some u)" for i m b d u
  proof (rule tells_broadcast [OF tells_changed])
    obtain r where "cd_rows (cs_db s) i = Some r" "row_about u = row_about r" using h(3) by (rule PinMessage_Some)
    then show "concerns (sender_id u, recipient_id u, group_id u) (cs_db s) (hc_uid c)"
      using canSee_concerns [OF h(2)] h(1) by (auto simp: GetMessage_def row_about_def split: if_splits)
  qed (use PinMessage_members [OF h(3)] in simp_all)
  show ?thesis
    by (auto simp: handleMessagePin_def intro!: pin tells_error tells_changed dest: PinMessage_members
        split: option.split prod.split)
qed

lemma tells_group_notice:
  assumes "tells c s t" "frame_about f = None"
  shows "tells c s (to_group e c g f t)"
  using assms by (auto simp: to_group_def intro: tells_users split: option.split)

lemma tells_quiet: "tells c s (handleTyping e c data s)" "tells c s (handleRead e c data s)"
  by (auto simp: handleTyping_def handleRead_def intro!: tells_user tells_group_notice tells_changed split: option.split)

text \<open>
  C3. Whatever frame a client sends, every frame about a message that leaves the server because of it goes to a connection of somebody the message
  concerns: its sender, its recipient or a member of its group. No other connection learns of it.
\<close>

theorem messages_reach_their_parties_only:
  assumes "users_keyed (cs_db s)" "x \<in> set (drop (length (h_sent (cs_hub s))) (h_sent (cs_hub (route_chat e c ty data s))))"
    and "frame_about (snd x) = Some a"
  shows "\<exists>u. concerns a (cs_db s) u \<and> fst x \<in> conn_of c (cs_hub s) u"
proof -
  have "tells c s (handleMessageSend e c data s)"
    by (auto simp: handleMessageSend_def Let_def intro!: tells_send tells_error tells_group_send tells_direct_send assms(1)
        split: option.split)
  then have "tells c s (route_chat e c ty data s)"
    by (simp add: route_chat_def tells_delete tells_edit tells_react tells_pin tells_quiet)
  then have "told_right c s x" using assms(2) by (auto simp: tells_def list_all_iff)
  then show ?thesis using assms(3) by (simp add: told_right_def)
qed

text \<open>Two people are connected, and a third, when one writes to another.\<close>

definition ex_person :: "int \<Rightarrow> user" where
  "ex_person i = \<lparr>u_id = i, u_username = ''u'', u_display_name = ''U'', u_role = RoleUser, u_avatar_file_id = None,
     u_email = None, u_disabled = False, u_deleted = False, u_created_at = Iso 0, u_oidc_linked = False, u_status = Online,
     u_preferences = None\<rparr>"

definition ex_link :: "nat \<Rightarrow> int \<Rightarrow> hub_client" where
  "ex_link n i = \<lparr>hc_conn = n, hc_user = ex_person i, hc_device = ''d'', hc_session = ''s'', hc_finishing = False\<rparr>"

definition ex_db :: chat_db where
  "ex_db = \<lparr>cd_rows = Map.empty, cd_last = 0, cd_users = [5 \<mapsto> ex_person 5, 7 \<mapsto> ex_person 7, 9 \<mapsto> ex_person 9], cd_files = Map.empty,
     cd_members = [], cd_reactions = [], cd_group_read = Map.empty\<rparr>"

definition ex_srv :: chat_srv where
  "ex_srv = \<lparr>cs_hub = new_hub\<lparr>h_clients := [5 \<mapsto> ex_link 1 5, 7 \<mapsto> ex_link 2 7, 9 \<mapsto> ex_link 3 9]\<rparr>, cs_db = ex_db\<rparr>"

definition ex_db_env :: db_env where
  "ex_db_env = \<lparr>de_now = Iso 1000, de_read_ok = True, de_write_ok = True, de_mark_ok = True, de_can_access = (\<lambda>_ _. True)\<rparr>"

definition ex_hi :: json where
  "ex_hi = JObj [(''client_id'', JStr ''c''), (''recipient_id'', JNum 7), (''content'', JStr ''hi'')]"

definition ex_said :: chat_srv where
  "ex_said = route_chat ex_db_env (ex_link 1 5) ''message:send'' (Some ex_hi) ex_srv"

theorem messages_reach_their_parties_only_witness:
  "\<exists>u. concerns (5, Some 7, None) ex_db u \<and> 2 \<in> conn_of (ex_link 1 5) (cs_hub ex_srv) u"
proof -
  let ?new = "drop (length (h_sent (cs_hub ex_srv))) (h_sent (cs_hub ex_said))"
  have "users_keyed (cs_db ex_srv)" by (auto simp: users_keyed_def ex_srv_def ex_db_def ex_person_def)
  moreover have "?new \<noteq> []" by code_simp
  then have "hd ?new \<in> set ?new" by (rule hd_in_set)
  moreover have "frame_about (snd (hd ?new)) = Some (5, Some 7, None)" "fst (hd ?new) = 2" by code_simp+
  ultimately show ?thesis
    using messages_reach_their_parties_only [of ex_srv "hd ?new" ex_db_env "ex_link 1 5" "''message:send''" "Some ex_hi"]
    by (simp add: ex_said_def) (simp add: ex_srv_def)
qed

text \<open>
  A text of nothing but a next-line character is kept by the client's \<open>trim\<close> and gone after the server's: the server neither
  stores nor answers it, so the sender's bubble waits for its timeout.
\<close>

lemma an_invisible_text_gets_no_answer:
  "let data = JObj [(''client_id'', JStr ''c''), (''recipient_id'', JNum 7), (''content'', JStr [char_of (133 :: nat)])] in
    handleMessageSend e (ex_link 1 5) (Some data) s = s \<and> js_trim [char_of (133 :: nat)] \<noteq> []"
  by (simp add: handleMessageSend_def send_payload_of_def go_defs send_refused_def TrimSpace_def go_space_def js_trim_def js_space_def
      ex_link_def hc_uid_def ex_person_def int64_def Let_def)

end
