(* ===== verification/ChatLearn.thy ===== *)
theory ChatLearn
  imports ServerChatLaws ChatLaws
begin

text \<open>
  One person's chat store against the server's rows. The server handles the frames of every client and queues frames for
  the person's connection; the store handles them later, in their order. What the store knows of the messages the other
  side of a conversation wrote is then what the rows say, but for the frames that are still under way.
\<close>

section \<open>What counts\<close>

text \<open>A message without what is only dressing (names, previews, times of delivery and reading) or only the sender's.\<close>

definition known :: "message \<Rightarrow> message" where
  "known m = m\<lparr>delivered_at := None, read_at := None,
     deleted_at := (if deleted_at m = None then None else Some (Iso 0)), reply_to := None,
     reactions := Some (nvl (reactions m) []), sender := None, mfile := None, pending := False, failed := False, clientID := None\<rparr>"

definition rows_view :: "int \<Rightarrow> int \<Rightarrow> chat_db \<Rightarrow> int \<rightharpoonup> message" where
  "rows_view a b d i =
     (case cd_rows d i of
        None \<Rightarrow> None
      | Some m \<Rightarrow>
          if row_about m = (a, Some b, None)
          then Some (known (m\<lparr>reactions := Some (filter (\<lambda>r. mr_message_id r = i) (cd_reactions d))\<rparr>)) else None)"

definition client_view :: "int \<Rightarrow> chats \<Rightarrow> int \<rightharpoonup> message" where
  "client_view a s i = (case bucket_abs (bucket (Dm a) s) i of
     None \<Rightarrow> None | Some m \<Rightarrow> if sender_id m = a then Some (known m) else None)"

section \<open>The store handles a frame\<close>

definition frame_ref :: "int \<Rightarrow> int \<Rightarrow> int option \<Rightarrow> int option \<Rightarrow> msg_ref" where
  "frame_ref i from rec grp = \<lparr>r_id = i, r_sender_id = from, r_recipient_id = rec, r_group_id = grp\<rparr>"

fun hear :: "chat_env \<Rightarrow> srv_frame \<Rightarrow> chats \<Rightarrow> chats" where
  "hear env (SrvMsgNew m) = on_message_new env m"
| "hear env (SrvMsgSent cid m) = on_message_sent cid m"
| "hear env (SrvChatError _ cid) = on_error cid"
| "hear env (SrvMsgDeleted i u r g) = on_message_deleted env (frame_ref i u r g)"
| "hear env (SrvMsgEdited m) = on_message_edited env m"
| "hear env (SrvReaction i u r g who emoji yes) = on_message_reaction env (frame_ref i u r g) who emoji yes"
| "hear env (SrvPinned i u r g t) = on_message_pinned env (frame_ref i u r g) t"
| "hear env (SrvTyping from nm g) = on_typing env from (Some nm) g"
| "hear env (SrvRead from) = on_message_read env from"
| "hear env _ = (\<lambda>s. s)"

text \<open>The same on a view: what each frame says about the messages \<open>a\<close> wrote to \<open>b\<close>.\<close>

definition gone :: "message \<Rightarrow> message" where
  "gone m = m\<lparr>content := [], file_id := None, deleted_at := Some (Iso 0)\<rparr>"

definition between :: "int \<Rightarrow> int \<Rightarrow> int \<times> int option \<times> int option \<Rightarrow> bool" where
  "between a b x = (x = (a, Some b, None) \<or> x = (b, Some a, None))"

definition at_id :: "bool \<Rightarrow> int \<Rightarrow> (message \<Rightarrow> message) \<Rightarrow> (int \<rightharpoonup> message) \<Rightarrow> int \<rightharpoonup> message" where
  "at_id q i f V = (if q then V(i := map_option f (V i)) else V)"

fun learn :: "int \<Rightarrow> int \<Rightarrow> srv_frame \<Rightarrow> (int \<rightharpoonup> message) \<Rightarrow> int \<rightharpoonup> message" where
  "learn a b (SrvMsgNew m) V = (if row_about m = (a, Some b, None) then V(mid m \<mapsto> known m) else V)"
| "learn a b (SrvMsgDeleted i u r g) V = at_id (between a b (u, r, g)) i gone V"
| "learn a b (SrvMsgEdited m) V = at_id (row_about m = (a, Some b, None)) (mid m) (\<lambda>_. known m) V"
| "learn a b (SrvReaction i u r g who emoji yes) V = at_id (between a b (u, r, g)) i (with_reaction who emoji yes) V"
| "learn a b (SrvPinned i u r g t) V = at_id (between a b (u, r, g)) i (\<lambda>m. m\<lparr>pinned_at := t\<rparr>) V"
| "learn a b _ V = V"

section \<open>A store that hears a frame learns what it says\<close>

declare bucket.simps [simp del] set_bucket.simps [simp del]

lemma abs_patch_at:
  assumes "\<And>m. mid m = i \<Longrightarrow> mid (f m) = i"
  shows "bucket_abs (patch_id i f xs) j = (if j = i then map_option f (bucket_abs xs i) else bucket_abs xs j)"
  unfolding patch_id_def using assms by (induction xs) auto

lemma mids_patch_at: "(\<And>m. mid m = i \<Longrightarrow> mid (f m) = i) \<Longrightarrow> map mid (patch_id i f xs) = map mid xs"
  unfolding patch_id_def by (induction xs) auto

lemma distinct_place: "distinct (map mid xs) \<Longrightarrow> distinct (map mid (place ids m xs))"
  unfolding place_def distinct_mid_sort by (rule place_distinct)

text \<open>The row a frame is about, and when a frame for \<open>b\<close>'s connection tells of it truly.\<close>

fun frame_row :: "srv_frame \<Rightarrow> (int \<times> int \<times> int option \<times> int option) option" where
  "frame_row (SrvMsgNew m) = Some (mid m, row_about m)"
| "frame_row (SrvMsgSent _ m) = Some (mid m, row_about m)"
| "frame_row (SrvMsgEdited m) = Some (mid m, row_about m)"
| "frame_row (SrvMsgDeleted i u r g) = Some (i, u, r, g)"
| "frame_row (SrvReaction i u r g _ _ _) = Some (i, u, r, g)"
| "frame_row (SrvPinned i u r g _) = Some (i, u, r, g)"
| "frame_row _ = None"

definition for_b :: "int \<Rightarrow> int \<times> int option \<times> int option \<Rightarrow> bool" where
  "for_b b x = (case x of (u, r, g) \<Rightarrow> (r = None) = (g \<noteq> None) \<and> (g = None \<longrightarrow> u = b \<or> r = Some b))"

definition true_frame :: "int \<Rightarrow> chat_db \<Rightarrow> srv_frame \<Rightarrow> bool" where
  "true_frame b d f =
     ((case frame_row f of None \<Rightarrow> True | Some (i, x) \<Rightarrow> for_b b x \<and> (\<exists>m. cd_rows d i = Some m \<and> row_about m = x)) \<and>
      (\<forall>cid m. f = SrvMsgSent cid m \<longrightarrow> sender_id m = b))"

lemma rows_view_about: "rows_view a b d i = Some v \<Longrightarrow> \<exists>m. cd_rows d i = Some m \<and> row_about m = (a, Some b, None)"
  by (simp add: rows_view_def split: option.splits if_splits)

lemma known_simps [simp]: "sender_id (known m) = sender_id m" "mid (known m) = mid m" "recipient_id (known m) = recipient_id m"
  by (simp_all add: known_def)

lemma known_patches:
  "known (m\<lparr>content := [], mfile := None, file_id := None, deleted_at := Some t\<rparr>) = gone (known m)"
  "known (m\<lparr>pinned_at := p\<rparr>) = (known m)\<lparr>pinned_at := p\<rparr>"
  "known (with_reaction u e b m) = with_reaction u e b (known m)"
  "known (m\<lparr>read_at := t'\<rparr>) = known m" "known (m\<lparr>pending := x, failed := y\<rparr>) = known m"
  by (simp_all add: known_def gone_def with_reaction_def Let_def)

text \<open>
  What the list of the conversation holds: what \<open>a\<close> wrote is a row \<open>a\<close> wrote to \<open>b\<close>, anything else with a number of the
  server is a row of the same sender. Optimistic bubbles stay at ids that are not positive.
\<close>

definition rows_num :: "chat_db \<Rightarrow> bool" where
  "rows_num d = (\<forall>i r. cd_rows d i = Some r \<longrightarrow> 0 < i \<and> mid r = i \<and> i \<le> cd_last d)"

definition held :: "int \<Rightarrow> int \<Rightarrow> chat_db \<Rightarrow> int \<Rightarrow> message \<Rightarrow> bool" where
  "held a b d i x =
     (if sender_id x = a then \<exists>r. cd_rows d i = Some r \<and> row_about r = (a, Some b, None)
      else 0 < i \<longrightarrow> (\<exists>r. cd_rows d i = Some r \<and> sender_id r = sender_id x))"

definition in_step :: "int \<Rightarrow> int \<Rightarrow> chat_db \<Rightarrow> chats \<Rightarrow> bool" where
  "in_step a b d s =
     (distinct (map mid (bucket (Dm a) s)) \<and>
      (\<forall>cid pa. jm_get (pendingAcks s) cid = Some pa \<longrightarrow> pa_opt pa \<le> 0) \<and>
      (\<forall>i x. bucket_abs (bucket (Dm a) s) i = Some x \<longrightarrow> held a b d i x))"

lemma in_stepD:
  assumes "in_step a b d s"
  shows "distinct (map mid (bucket (Dm a) s))" "jm_get (pendingAcks s) cid = Some pa \<Longrightarrow> pa_opt pa \<le> 0"
    and "bucket_abs (bucket (Dm a) s) i = Some x \<Longrightarrow> held a b d i x"
  using assms by (auto simp: in_step_def)

lemma client_view_same: "bucket (Dm a) t = bucket (Dm a) s \<Longrightarrow> client_view a t = client_view a s"
  by (simp add: client_view_def fun_eq_iff)

lemma in_step_same:
  "in_step a b d s \<Longrightarrow> bucket (Dm a) t = bucket (Dm a) s \<Longrightarrow> \<forall>cid pa. jm_get (pendingAcks t) cid = Some pa \<longrightarrow> pa_opt pa \<le> 0 \<Longrightarrow>
    in_step a b d t"
  by (simp add: in_step_def)

lemma placed:
  assumes "in_step a b d s" "rows_num d" "bucket (Dm a) t = place ids m (bucket (Dm a) s)" "\<And>i. i \<in> ids \<Longrightarrow> i \<le> 0"
    and "cd_rows d (mid m) = Some r" "sender_id r = sender_id m" "sender_id m = a \<Longrightarrow> row_about r = (a, Some b, None)"
    and "\<forall>cid pa. jm_get (pendingAcks t) cid = Some pa \<longrightarrow> pa_opt pa \<le> 0"
  shows "in_step a b d t" "client_view a t = (if sender_id m = a then (client_view a s)(mid m \<mapsto> known m) else client_view a s)"
proof -
  let ?B = "bucket_abs (bucket (Dm a) s)"
  note d = in_stepD(1) [OF assms(1)] and h = in_stepD(3) [OF assms(1)]
  have abs: "bucket_abs (bucket (Dm a) t) i = (if i = mid m then Some m else if i \<in> ids then None else ?B i)" for i
    using abs_place [OF d] assms(3) by simp
  have "held a b d i x" if "bucket_abs (bucket (Dm a) t) i = Some x" for i x
    using that h [of i x] assms(5-7) by (auto simp: abs held_def split: if_splits)
  moreover have "distinct (map mid (bucket (Dm a) t))" using distinct_place [OF d] assms(3) by simp
  ultimately show "in_step a b d t" using assms(8) by (simp add: in_step_def)
  have old: "client_view a s i = None" if "i \<in> ids" for i
  proof (cases "?B i")
    case (Some x)
    then have "sender_id x \<noteq> a" using h [OF Some] that assms(2,4) by (fastforce simp: held_def rows_num_def split: if_splits)
    then show ?thesis using Some by (simp add: client_view_def)
  qed (simp add: client_view_def)
  have own: "client_view a s (mid m) = None" if "sender_id m \<noteq> a"
  proof (cases "?B (mid m)")
    case (Some x)
    then have "sender_id x \<noteq> a" using h [OF Some] that assms(5,6) by (auto simp: held_def row_about_def split: if_splits)
    then show ?thesis using Some by (simp add: client_view_def)
  qed (simp add: client_view_def)
  show "client_view a t = (if sender_id m = a then (client_view a s)(mid m \<mapsto> known m) else client_view a s)"
    using old own by (auto simp: client_view_def abs fun_eq_iff)
qed

lemma patched:
  assumes "in_step a b d s" "bucket (Dm a) t = patch_id i f (bucket (Dm a) s)" "\<And>m. mid m = i \<Longrightarrow> mid (f m) = i"
    and "\<And>x. bucket_abs (bucket (Dm a) s) i = Some x \<Longrightarrow> sender_id (f x) = sender_id x"
    and "\<And>x. sender_id x = a \<Longrightarrow> known (f x) = g (known x)"
    and "\<forall>cid pa. jm_get (pendingAcks t) cid = Some pa \<longrightarrow> pa_opt pa \<le> 0"
  shows "in_step a b d t" "client_view a t = at_id True i g (client_view a s)"
proof -
  let ?B = "bucket_abs (bucket (Dm a) s)"
  note h = in_stepD(3) [OF assms(1)]
  have abs: "bucket_abs (bucket (Dm a) t) j = (if j = i then map_option f (?B i) else ?B j)" for j
    using abs_patch_at [of i f] assms(2,3) by simp
  have "held a b d j x" if x: "bucket_abs (bucket (Dm a) t) j = Some x" for j x
  proof (cases "j = i")
    case True
    then obtain y where "?B i = Some y" "x = f y" using x by (auto simp: abs)
    then show ?thesis using h [of i y] assms(4) [of y] True by (simp add: held_def)
  next
    case False
    then show ?thesis using x h [of j x] by (simp add: abs)
  qed
  moreover have "distinct (map mid (bucket (Dm a) t))"
    using in_stepD(1) [OF assms(1)] mids_patch_at [of i f] assms(2,3) by simp
  ultimately show "in_step a b d t" using assms(6) by (simp add: in_step_def)
  show "client_view a t = at_id True i g (client_view a s)"
    using assms(4,5) by (auto simp: client_view_def abs at_id_def fun_eq_iff split: option.split)
qed

lemma mapped:
  assumes "in_step a b d s" "bucket (Dm a) t = map_if P f (bucket (Dm a) s)" "\<And>m. mid (f m) = mid m"
    and "\<And>m. sender_id (f m) = sender_id m" "\<And>m. known (f m) = known m"
    and "\<forall>cid pa. jm_get (pendingAcks t) cid = Some pa \<longrightarrow> pa_opt pa \<le> 0"
  shows "in_step a b d t" "client_view a t = client_view a s"
proof -
  have abs: "bucket_abs (map_if P f xs) i = map_option (\<lambda>m. if P m then f m else m) (bucket_abs xs i)" for xs i
    using assms(3) by (induction xs) auto
  have mids: "map mid (map_if P f xs) = map mid xs" for xs using assms(3) by (induction xs) auto
  have "held a b d j x" if x: "bucket_abs (bucket (Dm a) t) j = Some x" for j x
  proof -
    obtain y where "bucket_abs (bucket (Dm a) s) j = Some y" "sender_id x = sender_id y"
      using x assms(4) by (auto simp: abs assms(2) split: if_splits)
    then show ?thesis using in_stepD(3) [OF assms(1), of j y] by (simp add: held_def)
  qed
  then show "in_step a b d t" using in_stepD(1) [OF assms(1)] assms(6) by (simp add: in_step_def mids assms(2))
  show "client_view a t = client_view a s" using assms(4,5) by (auto simp: client_view_def assms(2) abs fun_eq_iff split: option.splits)
qed

text \<open>The acknowledgements a frame leaves are among those there were.\<close>

lemma pending_drop: "jm_get (pendingAcks (drop_pending cid s)) k = Some pa \<Longrightarrow> jm_get (pendingAcks s) k = Some pa"
  by (simp add: drop_pending_def jm.get_del emit_def split: if_splits)

lemma pending_new: "pendingAcks (on_message_new env m s) = pendingAcks s"
  by (simp add: on_message_new_def decryptPending_emits markRead_def count_unread_def ws_send_def emit_def set_bucket.simps Let_def
      split: option.split)

lemma hear_new:
  assumes "in_step a b d s" "rows_num d" "me env = Some u" "u_id u = b" "a \<noteq> b" "a \<noteq> 0" "true_frame b d (SrvMsgNew m)"
  shows "in_step a b d (on_message_new env m s)" (is "?P")
    and "client_view a (on_message_new env m s) = learn a b (SrvMsgNew m) (client_view a s)" (is "?Q")
proof -
  obtain r where r: "cd_rows d (mid m) = Some r" "row_about r = row_about m" "for_b b (row_about m)"
    using assms(7) by (auto simp: true_frame_def)
  have pend: "\<forall>cid pa. jm_get (pendingAcks (on_message_new env m s)) cid = Some pa \<longrightarrow> pa_opt pa \<le> 0"
    using in_stepD(2) [OF assms(1)] by (simp add: pending_new)
  have inc: "arrives_in env m (Dm a) \<longleftrightarrow> row_about m = (a, Some b, None)"
    using assms(3-6) r(3) by (auto simp: arrives_in_def incoming_convo_def for_b_def row_about_def split: if_splits)
  show ?P ?Q
  proof (atomize(full), cases "row_about m = (a, Some b, None)")
    case True
    then have "bucket (Dm a) (on_message_new env m s) = place {} m (bucket (Dm a) s)"
      using inc by (simp add: bucket_on_message_new)
    note placed [OF assms(1,2) this _ r(1) _ _ pend]
    then show "?P \<and> ?Q" using True r(2) by (auto simp: row_about_def)
  next
    case False
    then have "bucket (Dm a) (on_message_new env m s) = bucket (Dm a) s" using inc by (auto simp: bucket_on_message_new)
    then show "?P \<and> ?Q" using False by (simp add: in_step_same [OF assms(1) _ pend] client_view_same [of a "on_message_new env m s" s])
  qed
qed

lemma hear_sent:
  assumes "in_step a b d s" "rows_num d" "a \<noteq> b" "true_frame b d (SrvMsgSent cid m)"
  shows "in_step a b d (on_message_sent cid m s)" (is "?P") and "client_view a (on_message_sent cid m s) = client_view a s" (is "?Q")
proof -
  obtain r where r: "cd_rows d (mid m) = Some r" "sender_id r = sender_id m" "sender_id m = b"
    using assms(4) by (auto simp: true_frame_def row_about_def)
  have pend: "\<forall>k pa. jm_get (pendingAcks (on_message_sent cid m s)) k = Some pa \<longrightarrow> pa_opt pa \<le> 0"
    using in_stepD(2) [OF assms(1)]
    by (auto simp: on_message_sent_def decryptPending_emits ack_patch_def jm_get_delete split: option.splits if_splits)
  have b: "bucket (Dm a) (on_message_sent cid m s) = (case jm_get (pendingAcks s) cid of
      None \<Rightarrow> bucket (Dm a) s
    | Some pa \<Rightarrow> if pa_convo pa = Dm a then place {pa_opt pa} m (bucket (Dm a) s) else bucket (Dm a) s)"
    by (auto simp: on_message_sent_def bucket_ack_patch split: option.split)
  show ?P ?Q
  proof (atomize(full), cases "\<exists>pa. jm_get (pendingAcks s) cid = Some pa \<and> pa_convo pa = Dm a")
    case True
    then obtain pa where pa: "jm_get (pendingAcks s) cid = Some pa" "pa_convo pa = Dm a" by blast
    then have "bucket (Dm a) (on_message_sent cid m s) = place {pa_opt pa} m (bucket (Dm a) s)" using b by simp
    note placed [OF assms(1,2) this _ r(1,2) _ pend]
    then show "?P \<and> ?Q" using in_stepD(2) [OF assms(1) pa(1)] assms(3) r(3) by simp
  next
    case False
    then have "bucket (Dm a) (on_message_sent cid m s) = bucket (Dm a) s" using b by (auto split: option.split)
    then show "?P \<and> ?Q" by (simp add: in_step_same [OF assms(1) _ pend] client_view_same [of a "on_message_sent cid m s" s])
  qed
qed

lemma ref_here:
  assumes "my_id env = Some b" "for_b b x" "a \<noteq> b" "x = (r_sender_id ref, r_recipient_id ref, r_group_id ref)"
  shows "ref_convo env ref = Some (Dm a) \<longleftrightarrow> between a b x"
  using assms by (auto simp: ref_convo_def for_b_def between_def split: option.split)

lemma pending_update: "pendingAcks (updateMessage env ref f s) = pendingAcks s"
  by (simp add: updateMessage_def split: option.split)

lemma hear_update:
  assumes "in_step a b d s" "my_id env = Some b" "a \<noteq> b" "for_b b x" "x = (r_sender_id ref, r_recipient_id ref, r_group_id ref)"
    and "\<And>m. mid m = r_id ref \<Longrightarrow> mid (f m) = r_id ref"
    and "\<And>x. bucket_abs (bucket (Dm a) s) (r_id ref) = Some x \<Longrightarrow> sender_id (f x) = sender_id x"
    and "between a b x \<Longrightarrow> (\<And>y. sender_id y = a \<Longrightarrow> known (f y) = g (known y))"
  shows "in_step a b d (updateMessage env ref f s)" (is "?P")
    and "client_view a (updateMessage env ref f s) = at_id (between a b x) (r_id ref) g (client_view a s)" (is "?Q")
proof -
  have pend: "\<forall>cid pa. jm_get (pendingAcks (updateMessage env ref f s)) cid = Some pa \<longrightarrow> pa_opt pa \<le> 0"
    using in_stepD(2) [OF assms(1)] by (simp add: pending_update)
  have b: "bucket (Dm a) (updateMessage env ref f s) =
      (if between a b x then patch_id (r_id ref) f (bucket (Dm a) s) else bucket (Dm a) s)"
    by (simp add: bucket_updateMessage ref_here [OF assms(2,4,3,5)])
  show ?P ?Q
  proof (atomize(full), cases "between a b x")
    case True
    then have "bucket (Dm a) (updateMessage env ref f s) = patch_id (r_id ref) f (bucket (Dm a) s)" using b by simp
    note patched [OF assms(1) this assms(6,7) _ pend, of g]
    then show "?P \<and> ?Q" using assms(8) True by simp
  next
    case False
    then have "bucket (Dm a) (updateMessage env ref f s) = bucket (Dm a) s" using b by simp
    then show "?P \<and> ?Q" using False by (simp add: at_id_def in_step_same [OF assms(1) _ pend] client_view_same [of a "updateMessage env ref f s" s])
  qed
qed

lemma hear_edited:
  assumes "in_step a b d s" "rows_num d" "my_id env = Some b" "a \<noteq> b" "true_frame b d (SrvMsgEdited m)"
  shows "in_step a b d (on_message_edited env m s)"
    and "client_view a (on_message_edited env m s) = learn a b (SrvMsgEdited m) (client_view a s)"
proof -
  obtain r where r: "cd_rows d (mid m) = Some r" "row_about r = row_about m" "for_b b (row_about m)"
    using assms(5) by (auto simp: true_frame_def)
  have pos: "0 < mid m" using assms(2) r(1) by (auto simp: rows_num_def)
  have ref: "row_about m = (r_sender_id (ref_of m), r_recipient_id (ref_of m), r_group_id (ref_of m))" "r_id (ref_of m) = mid m"
    by (simp_all add: row_about_def ref_of_def)
  have own: "sender_id m = sender_id x" if "bucket_abs (bucket (Dm a) s) (r_id (ref_of m)) = Some x" for x
    using in_stepD(3) [OF assms(1) that] r(1,2) pos ref(2) by (auto simp: held_def row_about_def split: if_splits)
  note up = hear_update [OF assms(1,3,4) r(3) ref(1), where f = "\<lambda>_. m" and g = "\<lambda>_. known m"]
  show "in_step a b d (on_message_edited env m s)"
    unfolding on_message_edited_def by (rule up(1)) (use own ref(2) in auto)
  have "client_view a (on_message_edited env m s) = at_id (between a b (row_about m)) (mid m) (\<lambda>_. known m) (client_view a s)"
    unfolding on_message_edited_def using up(2) own ref(2) by auto
  moreover have "client_view a s (mid m) = None" if "sender_id m \<noteq> a"
    using own that ref(2) by (auto simp: client_view_def split: option.split)
  ultimately show "client_view a (on_message_edited env m s) = learn a b (SrvMsgEdited m) (client_view a s)"
    using assms(4) by (auto simp: at_id_def between_def row_about_def)
qed

lemma with_reaction_simps [simp]:
  "mid (with_reaction u e y m) = mid m" "sender_id (with_reaction u e y m) = sender_id m"
  by (simp_all add: with_reaction_def Let_def)

lemma hear_changes:
  assumes "in_step a b d s" "my_id env = Some b" "a \<noteq> b"
    and "true_frame b d f" "f = SrvMsgDeleted i u r g \<or> f = SrvReaction i u r g who emoji yes \<or> f = SrvPinned i u r g t"
  shows "in_step a b d (hear env f s)" "client_view a (hear env f s) = learn a b f (client_view a s)"
proof -
  have x: "for_b b (u, r, g)" using assms(4,5) by (auto simp: true_frame_def)
  note up = hear_update [OF assms(1-3) x, of "frame_ref i u r g"]
  show "in_step a b d (hear env f s)" "client_view a (hear env f s) = learn a b f (client_view a s)"
    using assms(5) up [of "\<lambda>m. m\<lparr>content := [], mfile := None, file_id := None, deleted_at := Some (Iso (now env))\<rparr>" gone]
      up [of "with_reaction who emoji yes" "with_reaction who emoji yes"]
      up [of "\<lambda>m. m\<lparr>pinned_at := t\<rparr>" "\<lambda>m. m\<lparr>pinned_at := t\<rparr>"]
    by (auto simp: on_message_deleted_def markDeleted_def on_message_reaction_def on_message_pinned_def known_patches frame_ref_def)
qed

lemma in_step_fail:
  assumes "in_step a b d s"
  shows "in_step a b d (send_fail k c i s)" "client_view a (send_fail k c i s) = client_view a s"
proof -
  have p: "\<forall>cid pa. jm_get (pendingAcks (send_fail k c i s)) cid = Some pa \<longrightarrow> pa_opt pa \<le> 0"
    using in_stepD(2) [OF assms] by (auto simp: send_fail_def Let_def jm_get_delete split: if_splits)
  have b: "bucket (Dm a) (send_fail k c i s) =
      map_if (\<lambda>m. Dm a = c \<and> mid m = i) (\<lambda>m. m\<lparr>pending := False, failed := True\<rparr>) (bucket (Dm a) s)"
    by (simp add: bucket_send_fail patch_id_def map_if_none)
  show "in_step a b d (send_fail k c i s)" "client_view a (send_fail k c i s) = client_view a s"
    using mapped [OF assms b _ _ _ p] by (simp_all add: known_patches)
qed

lemma hear_quiet:
  assumes "in_step a b d s"
  shows "in_step a b d (on_error cid s)" "client_view a (on_error cid s) = client_view a s"
    and "in_step a b d (on_message_read env from s)" "client_view a (on_message_read env from s) = client_view a s"
    and "in_step a b d (on_typing env from nm g s)" "client_view a (on_typing env from nm g s) = client_view a s"
proof -
  note pend = in_stepD(2) [OF assms]
  show "in_step a b d (on_error cid s)" "client_view a (on_error cid s) = client_view a s"
    using assms by (simp_all add: on_error_def ack_timeout_def in_step_fail split: option.split)
  have b: "bucket (Dm a) (on_message_read env from s) = map_if (\<lambda>m. a = from \<and> my_id env = Some (sender_id m) \<and>
      recipient_id m = Some from \<and> \<not> iso_truthy (read_at m)) (\<lambda>m. m\<lparr>read_at := Some (Iso (now env))\<rparr>) (bucket (Dm a) s)"
    by (cases "a = from") (auto simp: on_message_read_def map_if_none bucket_set_bucket map_if_def split: option.split)
  have p: "\<forall>cid pa. jm_get (pendingAcks (on_message_read env from s)) cid = Some pa \<longrightarrow> pa_opt pa \<le> 0"
    using pend by (simp add: on_message_read_def set_bucket.simps split: option.split)
  show "in_step a b d (on_message_read env from s)" "client_view a (on_message_read env from s) = client_view a s"
    using mapped [OF assms b _ _ _ p] by (simp_all add: known_patches)
  have b: "bucket (Dm a) (on_typing env from nm g s) = bucket (Dm a) s" "pendingAcks (on_typing env from nm g s) = pendingAcks s"
    by (simp_all add: on_typing_def Let_def bucket.simps)
  then show "in_step a b d (on_typing env from nm g s)" "client_view a (on_typing env from nm g s) = client_view a s"
    using in_step_same [OF assms b(1)] pend client_view_same [OF b(1)] by simp_all
qed

lemma hear_learns:
  assumes "in_step a b d s" "rows_num d" "me env = Some u" "u_id u = b" "a \<noteq> b" "a \<noteq> 0" "true_frame b d f"
  shows "in_step a b d (hear env f s) \<and> client_view a (hear env f s) = learn a b f (client_view a s)"
proof -
  have my: "my_id env = Some b" using assms(3,4) by (simp add: my_id_def)
  note new = hear_new [OF assms(1-6)] and sent = hear_sent [OF assms(1,2,5)]
    and edited = hear_edited [OF assms(1,2) my assms(5)] and changes = hear_changes [OF assms(1) my assms(5,7)]
    and quiet = hear_quiet [OF assms(1)]
  show ?thesis
  proof (cases f)
    case (SrvMsgNew m) then show ?thesis using new [of m] assms(7) by simp
  next
    case (SrvMsgSent cid m) then show ?thesis using sent [of cid m] assms(7) by simp
  next
    case (SrvMsgEdited m) then show ?thesis using edited [of m] assms(7) by simp
  next
    case (SrvMsgDeleted i u r g) then show ?thesis using changes [of i u r g] by simp
  next
    case (SrvReaction i u r g who emoji yes) then show ?thesis using changes [of i u r g who emoji yes] by simp
  next
    case (SrvPinned i u r g t) then show ?thesis using changes [of i u r g _ _ _ t] by simp
  qed (use assms(1) quiet in auto)
qed

section \<open>The server's side\<close>

definition queue :: "nat \<Rightarrow> chat_srv \<Rightarrow> srv_frame list" where
  "queue n s = map snd (filter (\<lambda>x. fst x = n) (h_sent (cs_hub s)))"

text \<open>\<open>n\<close> is \<open>b\<close>'s connection and nobody else's.\<close>

definition wired :: "int \<Rightarrow> nat \<Rightarrow> chat_srv \<Rightarrow> bool" where
  "wired b n s = ((\<exists>c. h_clients (cs_hub s) b = Some c \<and> hc_conn c = n) \<and>
     (\<forall>u c. h_clients (cs_hub s) u = Some c \<longrightarrow> hc_uid c = u \<and> (hc_conn c = n \<longrightarrow> u = b)))"

lemma wiredD:
  assumes "wired b n s" "h_clients (cs_hub s) u = Some c"
  shows "hc_uid c = u" "hc_conn c = n \<longleftrightarrow> u = b"
proof -
  have all: "\<forall>u c. h_clients (cs_hub s) u = Some c \<longrightarrow> hc_uid c = u \<and> (hc_conn c = n \<longrightarrow> u = b)"
    and here: "\<exists>c. h_clients (cs_hub s) b = Some c \<and> hc_conn c = n" using assms(1) unfolding wired_def by blast+
  show "hc_uid c = u" using all assms(2) by blast
  show "hc_conn c = n \<longleftrightarrow> u = b"
  proof
    assume "u = b"
    then show "hc_conn c = n" using here assms(2) by simp
  qed (use all assms(2) in blast)
qed

lemma wired_here: "wired b n s \<Longrightarrow> h_clients (cs_hub s) b \<noteq> None"
  unfolding wired_def by blast

lemma wired_same: "wired b n s \<Longrightarrow> h_clients (cs_hub t) = h_clients (cs_hub s) \<Longrightarrow> wired b n t"
  by (simp add: wired_def)

lemma queue_db [simp]: "queue n (s\<lparr>cs_db := d\<rparr>) = queue n s"
  by (simp add: queue_def)

lemma queue_send:
  assumes "wired b n s" "h_clients (cs_hub s) u = Some c"
  shows "queue n (cs_send c f t) = queue n t @ (if u = b then [f] else [])"
proof -
  show ?thesis using wiredD(2) [OF assms] by (simp add: queue_def)
qed

lemma queue_user:
  assumes "wired b n t"
  shows "queue n (cs_user u f t) = queue n t @ (if u = b then [f] else [])"
proof (cases "h_clients (cs_hub t) u")
  case None
  then have "u \<noteq> b" using wired_here [OF assms] by auto
  then show ?thesis using None by (simp add: queue_def)
next
  case (Some c)
  then show ?thesis using wiredD(2) [OF assms Some] by (simp add: queue_def)
qed

lemma queue_users:
  assumes "wired b n t"
  shows "queue n (fold (\<lambda>u. cs_user u f) us t) = queue n t @ concat (map (\<lambda>u. if u = b then [f] else []) us)"
  using assms
proof (induction us arbitrary: t)
  case (Cons u us)
  have "wired b n (cs_user u f t)" by (rule wired_same [OF Cons.prems]) simp
  then show ?case using Cons.IH queue_user [OF Cons.prems] by simp
qed simp

definition shaped :: "chat_db \<Rightarrow> bool" where
  "shaped d = (\<forall>i r. cd_rows d i = Some r \<longrightarrow> (recipient_id r = None) = (group_id r \<noteq> None))"

definition db_ok :: "chat_db \<Rightarrow> bool" where
  "db_ok d = (rows_num d \<and> shaped d \<and> users_keyed d \<and> 0 \<le> cd_last d)"

definition grows :: "chat_db \<Rightarrow> chat_db \<Rightarrow> bool" where
  "grows d e = (\<forall>i r. cd_rows d i = Some r \<longrightarrow> (\<exists>r'. cd_rows e i = Some r' \<and> row_about r' = row_about r))"

lemma grows_refl [simp]: "grows d d"
  by (simp add: grows_def)

lemma growsD: "grows d e \<Longrightarrow> cd_rows d i = Some r \<Longrightarrow> \<exists>r'. cd_rows e i = Some r' \<and> row_about r' = row_about r"
  by (simp add: grows_def)

lemma true_frame_grows: "true_frame b d f \<Longrightarrow> grows d e \<Longrightarrow> true_frame b e f"
proof -
  assume t: "true_frame b d f" and g: "grows d e"
  have "case frame_row f of None \<Rightarrow> True | Some (i, x) \<Rightarrow> for_b b x \<and> (\<exists>m. cd_rows e i = Some m \<and> row_about m = x)"
  proof (cases "frame_row f")
    case (Some y)
    obtain i x where y: "y = (i, x)" by (cases y)
    then obtain m where "for_b b x" "cd_rows d i = Some m" "row_about m = x" using t Some by (auto simp: true_frame_def)
    then show ?thesis using growsD [OF g] Some y by auto
  qed simp
  then show ?thesis using t by (simp add: true_frame_def)
qed

lemma in_step_grows: "in_step a b d s \<Longrightarrow> grows d e \<Longrightarrow> in_step a b e s"
proof -
  assume s: "in_step a b d s" and g: "grows d e"
  have "held a b e i x" if h: "held a b d i x" for i x
  proof (cases "sender_id x = a \<or> 0 < i")
    case True
    then obtain r where r: "cd_rows d i = Some r" "if sender_id x = a then row_about r = (a, Some b, None) else sender_id r = sender_id x"
      using h by (auto simp: held_def split: if_splits)
    obtain r' where "cd_rows e i = Some r'" "row_about r' = row_about r" using growsD [OF g r(1)] by blast
    then show ?thesis using r(2) by (auto simp: held_def row_about_def split: if_splits)
  qed (simp add: held_def)
  then show ?thesis using s by (simp add: in_step_def)
qed

text \<open>A step of the server as \<open>b\<close> hears of it: what is queued says exactly what became of the rows.\<close>

definition mirrors :: "int \<Rightarrow> int \<Rightarrow> nat \<Rightarrow> chat_srv \<Rightarrow> chat_srv \<Rightarrow> bool" where
  "mirrors a b n s t =
     (h_clients (cs_hub t) = h_clients (cs_hub s) \<and> db_ok (cs_db t) \<and> grows (cs_db s) (cs_db t) \<and>
      (\<exists>fs. queue n t = queue n s @ fs \<and> list_all (true_frame b (cs_db t)) fs \<and>
         fold (learn a b) fs (rows_view a b (cs_db s)) = rows_view a b (cs_db t)))"

lemma mirrorsI:
  assumes "h_clients (cs_hub t) = h_clients (cs_hub s)" "db_ok (cs_db t)" "grows (cs_db s) (cs_db t)"
    and "queue n t = queue n s @ fs" "list_all (true_frame b (cs_db t)) fs"
    and "fold (learn a b) fs (rows_view a b (cs_db s)) = rows_view a b (cs_db t)"
  shows "mirrors a b n s t"
  using assms by (auto simp: mirrors_def)

lemma mirrors_refl [simp]: "db_ok (cs_db s) \<Longrightarrow> mirrors a b n s s"
  by (rule mirrorsI [where fs = "[]"]) simp_all

text \<open>Frames about no message say nothing of the rows.\<close>

lemma quiet_frame: "frame_row f = None \<Longrightarrow> true_frame b d f" "frame_row f = None \<Longrightarrow> learn a b f V = V"
  by (cases f; simp add: true_frame_def; fail)+

lemma mirrors_quiet:
  assumes "mirrors a b n s t" "frame_row f = None" "queue n t' = queue n t @ replicate k f"
    and "cs_db t' = cs_db t" "h_clients (cs_hub t') = h_clients (cs_hub t)"
  shows "mirrors a b n s t'"
proof -
  have "fold (learn a b) (replicate k f) V = V" for V
    by (induction k) (simp_all add: quiet_frame(2) [OF assms(2)])
  then show ?thesis
    using assms quiet_frame(1) [OF assms(2)] by (auto simp: mirrors_def list_all_iff)
qed

lemma mirrors_send:
  assumes "mirrors a b n s t" "frame_row f = None" "wired b n s" "h_clients (cs_hub s) u = Some c"
  shows "mirrors a b n s (cs_send c f t)"
proof (rule mirrors_quiet [OF assms(1,2), where k = "if u = b then 1 else 0"])
  show "queue n (cs_send c f t) = queue n t @ replicate (if u = b then 1 else 0) f"
    using queue_send [OF assms(3,4), of f t] by simp
qed simp_all

lemma mirrors_user:
  assumes "mirrors a b n s t" "frame_row f = None" "wired b n s"
  shows "mirrors a b n s (cs_user u f t)"
proof (rule mirrors_quiet [OF assms(1,2), where k = "if u = b then 1 else 0"])
  have "wired b n t" using assms(1) by (auto intro!: wired_same [OF assms(3)] simp: mirrors_def)
  then show "queue n (cs_user u f t) = queue n t @ replicate (if u = b then 1 else 0) f"
    using queue_user [of b n t u f] by simp
qed simp_all

lemma mirrors_users:
  assumes "mirrors a b n s t" "frame_row f = None" "wired b n s"
  shows "mirrors a b n s (fold (\<lambda>u. cs_user u f) us t)"
  using assms(1) by (induction us arbitrary: t) (auto intro: mirrors_user [OF _ assms(2,3)])

lemma learn_elsewhere: "frame_row f = Some (i, x) \<Longrightarrow> \<not> between a b x \<Longrightarrow> learn a b f V = V"
  by (cases f) (auto simp: between_def at_id_def)

lemma broadcast_queue:
  assumes "wired b n s" "h_clients (cs_hub s) u = Some c" "h_clients (cs_hub t) = h_clients (cs_hub s)" "a \<noteq> b"
    and "(recipient_id m = None) = (group_id m \<noteq> None)" "\<And>r. recipient_id m = Some r \<Longrightarrow> u = sender_id m \<or> u = r"
  obtains k where "queue n (broadcastToConversationRaw e c m f t) = queue n t @ replicate k f"
    and "k > 0 \<Longrightarrow> for_b b (row_about m)" "between a b (row_about m) \<Longrightarrow> k = 1"
proof (cases "recipient_id m")
  case (Some r)
  then have g: "group_id m = None" using assms(5) by auto
  define v where "v = (if r = u then sender_id m else r)"
  have uid: "hc_uid c = u" by (rule wiredD(1) [OF assms(1,2)])
  have w: "wired b n t" by (rule wired_same [OF assms(1,3)])
  have u: "u = sender_id m \<or> u = r" using assms(6) Some by simp
  have q: "queue n (broadcastToConversationRaw e c m f t) =
      queue n t @ replicate ((if v = b then 1 else 0) + (if u = b then 1 else 0)) f"
    using Some uid queue_send [OF assms(1,2)] queue_user [OF w] by (simp add: broadcastToConversationRaw_def v_def)
  show ?thesis
  proof (rule that [OF q])
    show "for_b b (row_about m)" if "(if v = b then 1 else 0) + (if u = b then 1 else 0) > (0::nat)"
      using that u Some g by (auto simp: for_b_def row_about_def v_def split: if_splits)
    show "(if v = b then 1 else 0) + (if u = b then 1 else 0) = (1::nat)" if "between a b (row_about m)"
      using that u Some g assms(4) by (auto simp: between_def row_about_def v_def)
  qed
next
  case None
  then obtain g where g: "group_id m = Some g" using assms(5) by auto
  have w: "wired b n t" by (rule wired_same [OF assms(1,3)])
  have rep: "\<exists>k. concat (map (\<lambda>u. if u = b then [f] else []) us) = replicate k f" for us
  proof (induction us)
    case (Cons x us)
    then show ?case by (auto intro: exI [of _ "Suc _"])
  qed (auto intro: exI [of _ 0])
  have "\<exists>k. queue n (broadcastToConversationRaw e c m f t) = queue n t @ replicate k f"
  proof (cases "GroupMemberIDs e g (cs_db t)")
    case (Some us)
    obtain k where "concat (map (\<lambda>u. if u = b then [f] else []) (filter (\<lambda>u. u \<noteq> hc_uid c) us)) = replicate k f" using rep by blast
    then have "queue n (broadcastToConversationRaw e c m f t) = queue n t @ replicate (k + (if u = b then 1 else 0)) f"
      using None g Some queue_send [OF assms(1,2)] queue_users [OF w]
      by (simp add: broadcastToConversationRaw_def replicate_add)
    then show ?thesis by blast
  qed (use None g in \<open>auto simp: broadcastToConversationRaw_def intro: exI [of _ 0]\<close>)
  then show ?thesis using that None g by (auto simp: for_b_def row_about_def between_def)
qed

lemma mirrors_broadcast:
  assumes "wired b n s" "h_clients (cs_hub s) u = Some c" "a \<noteq> b" "db_ok d" "grows (cs_db s) d"
    and "cd_rows d (mid m) = Some r" "row_about r = row_about m" "\<And>r. recipient_id m = Some r \<Longrightarrow> u = sender_id m \<or> u = r"
    and "frame_row f = Some (mid m, row_about m)" "\<And>cid x. f \<noteq> SrvMsgSent cid x"
    and "rows_view a b d = learn a b f (rows_view a b (cs_db s))"
  shows "mirrors a b n s (broadcastToConversationRaw e c m f (s\<lparr>cs_db := d\<rparr>))"
proof -
  let ?t = "broadcastToConversationRaw e c m f (s\<lparr>cs_db := d\<rparr>)"
  have shape: "(recipient_id m = None) = (group_id m \<noteq> None)"
  proof -
    have "(recipient_id r = None) = (group_id r \<noteq> None)" using assms(4,6) unfolding db_ok_def shaped_def by blast
    then show ?thesis using assms(7) by (simp add: row_about_def)
  qed
  obtain k where k: "queue n ?t = queue n s @ replicate k f" "k > 0 \<Longrightarrow> for_b b (row_about m)" "between a b (row_about m) \<Longrightarrow> k = 1"
    using broadcast_queue [OF assms(1,2) _ assms(3) shape assms(8), where t = "s\<lparr>cs_db := d\<rparr>" and e = e and f = f] by auto
  have same: "h_clients (cs_hub ?t) = h_clients (cs_hub s)" "cs_db ?t = d"
    by (simp_all add: broadcastToConversationRaw_def split: option.split)
  have "fold (learn a b) (replicate k f) (rows_view a b (cs_db s)) = rows_view a b d"
  proof (cases "between a b (row_about m)")
    case True
    then show ?thesis using k(3) assms(11) by simp
  next
    case False
    have id: "learn a b f V = V" for V by (rule learn_elsewhere [OF assms(9) False])
    have "fold (learn a b) (replicate k f) V = V" for V by (induction k) (simp_all add: id)
    then show ?thesis using assms(11) id by simp
  qed
  moreover have "list_all (true_frame b d) (replicate k f)"
    using k(2) assms(6,7,9,10) by (auto simp: list_all_iff true_frame_def)
  ultimately show ?thesis using mirrorsI [of ?t s n "replicate k f" b a] k(1) same assms(4,5) by simp
qed

section \<open>Each handler is mirrored\<close>

lemma rows_mapped_ok:
  assumes "db_ok d" "cd_rows e = (\<lambda>i. map_option (F i) (cd_rows d i))" "cd_users e = cd_users d" "cd_last e = cd_last d"
    and "\<And>i r. row_about (F i r) = row_about r" "\<And>i r. mid (F i r) = mid r"
  shows "db_ok e" "grows d e"
proof -
  have row: "\<exists>r0. cd_rows d j = Some r0 \<and> row_about r = row_about r0 \<and> mid r = mid r0" if "cd_rows e j = Some r" for j r
    using that assms(2,5,6) by auto
  have "rows_num e"
    unfolding rows_num_def
  proof (intro allI impI)
    fix j r assume "cd_rows e j = Some r"
    then obtain r0 where "cd_rows d j = Some r0" "mid r = mid r0" using row by blast
    then show "0 < j \<and> mid r = j \<and> j \<le> cd_last e" using assms(1,4) by (simp add: db_ok_def rows_num_def)
  qed
  moreover have "shaped e"
    unfolding shaped_def
  proof (intro allI impI)
    fix j r assume "cd_rows e j = Some r"
    then obtain r0 where r0: "cd_rows d j = Some r0" "row_about r = row_about r0" using row by blast
    have "(recipient_id r0 = None) = (group_id r0 \<noteq> None)" using assms(1) r0(1) unfolding db_ok_def shaped_def by blast
    then show "(recipient_id r = None) = (group_id r \<noteq> None)" using r0(2) by (simp add: row_about_def)
  qed
  ultimately show "db_ok e" using assms(1,3,4) by (simp add: db_ok_def users_keyed_def)
  show "grows d e" using assms(2,5) by (auto simp: grows_def)
qed

lemma change_row_ok:
  assumes "db_ok d" "\<And>r. row_about (f r) = row_about r" "\<And>r. mid (f r) = mid r"
  shows "db_ok (change_row i f d)" "grows d (change_row i f d)"
  by (rule rows_mapped_ok [OF assms(1), where F = "\<lambda>j. if j = i then f else id"];
      simp add: change_row_def fun_eq_iff option.map_id assms(2,3))+

lemma view_change:
  assumes "\<And>r. row_about (f r) = row_about r" "\<And>r rs. known ((f r)\<lparr>reactions := rs\<rparr>) = g (known (r\<lparr>reactions := rs\<rparr>))"
  shows "rows_view a b (change_row i f d) = (rows_view a b d)(i := map_option g (rows_view a b d i))"
  using assms by (auto simp: rows_view_def change_row_def fun_eq_iff split: option.split)

lemma at_id_view:
  assumes "cd_rows d i = Some r"
  shows "at_id (between a b (row_about r)) i g (rows_view a b d) = (rows_view a b d)(i := map_option g (rows_view a b d i))"
  using assms by (auto simp: at_id_def rows_view_def between_def fun_eq_iff)

lemma about_of: "row_about r = row_about m \<Longrightarrow> (sender_id m, recipient_id m, group_id m) = row_about r"
  by (simp add: row_about_def)

text \<open>The reactions come and go with the same toggling on both sides.\<close>

lemma view_toggle:
  assumes "ToggleReaction e i u emoji d = (d', Some yes)" "rows_num d"
  shows "rows_view a b d' = (rows_view a b d)(i := map_option (with_reaction u emoji yes) (rows_view a b d i))"
    and "cd_rows d' = cd_rows d" "cd_users d' = cd_users d" "cd_last d' = cd_last d"
proof -
  let ?new = "\<lparr>mr_message_id = i, mr_user_id = u, mr_emoji = emoji\<rparr>"
  let ?F = "\<lambda>d j. filter (\<lambda>r. mr_message_id r = j) (cd_reactions d)"
  show same: "cd_rows d' = cd_rows d" "cd_users d' = cd_users d" "cd_last d' = cd_last d"
    using assms(1) by (auto simp: ToggleReaction_def split: if_splits)
  have other: "?F d' j = ?F d j" if "j \<noteq> i" for j
  proof -
    have "filter (\<lambda>r. mr_message_id r = j \<and> \<not> is_reaction i u emoji r) (cd_reactions d) = ?F d j"
      using that by (auto simp: is_reaction_def intro: filter_cong)
    then show ?thesis using assms(1) that by (auto simp: ToggleReaction_def conj_commute split: if_splits)
  qed
  have here: "?F d' i = (let w = filter (\<lambda>r. \<not> same_reaction u emoji r) (?F d i) in if yes then w @ [?new] else w)"
  proof -
    have eq: "filter (\<lambda>r. \<not> same_reaction u emoji r) (?F d i) =
        filter (\<lambda>r. mr_message_id r = i \<and> \<not> is_reaction i u emoji r) (cd_reactions d)"
      by (auto simp: is_reaction_def same_reaction_def intro: filter_cong)
    show ?thesis
    proof (cases yes)
      case True
      then have "\<not> list_ex (is_reaction i u emoji) (cd_reactions d)" and d': "d' = d\<lparr>cd_reactions := cd_reactions d @ [?new]\<rparr>"
        using assms(1) by (auto simp: ToggleReaction_def split: if_splits)
      then have "filter (\<lambda>r. mr_message_id r = i \<and> \<not> is_reaction i u emoji r) (cd_reactions d) = ?F d i"
        by (auto simp: list_ex_iff intro: filter_cong)
      then show ?thesis using True d' eq by simp
    next
      case False
      then have "d' = d\<lparr>cd_reactions := filter (\<lambda>r. \<not> is_reaction i u emoji r) (cd_reactions d)\<rparr>"
        using assms(1) by (auto simp: ToggleReaction_def split: if_splits)
      then show ?thesis using False eq by (simp add: conj_commute)
    qed
  qed
  have "rows_view a b d' j = (if j = i then map_option (with_reaction u emoji yes) (rows_view a b d i) else rows_view a b d j)" for j
    using other [of j] here assms(2)
    by (cases "j = i") (auto simp: rows_num_def rows_view_def same known_def with_reaction_def Let_def split: option.split)
  then show "rows_view a b d' = (rows_view a b d)(i := map_option (with_reaction u emoji yes) (rows_view a b d i))"
    by (simp add: fun_eq_iff)
qed

lemma enrich_simps [simp]: "mid (enrich e d m) = mid m" "sender_id (enrich e d m) = sender_id m"
  "recipient_id (enrich e d m) = recipient_id m" "group_id (enrich e d m) = group_id m"
  by (simp_all add: enrich_def Let_def)

lemma update_own_None:
  assumes "update_own e i who f d = (d', None)" "de_read_ok e"
  shows "d' = d"
  using assms by (auto simp: update_own_def GetMessage_def change_row_def split: option.splits if_splits)

lemma mirrors_own:
  assumes "wired b n s" "h_clients (cs_hub s) u = Some c" "a \<noteq> b" "db_ok (cs_db s)"
    and "update_own e i u f (cs_db s) = (d, Some m)" "\<And>r. row_about (f r) = row_about r" "\<And>r. mid (f r) = mid r"
    and "x = SrvMsgDeleted (mid m) (sender_id m) (recipient_id m) (group_id m) \<and>
        (\<forall>r rs. known ((f r)\<lparr>reactions := rs\<rparr>) = gone (known (r\<lparr>reactions := rs\<rparr>))) \<or>
      x = SrvMsgEdited (enrich e' d m) \<and> de_read_ok e'"
  shows "mirrors a b n s (broadcastToConversationRaw e c m x (s\<lparr>cs_db := d\<rparr>))"
proof -
  obtain r where r: "cd_rows (cs_db s) i = Some r" "sender_id r = u" "m = f r" "d = change_row i f (cs_db s)" "row_about m = row_about r"
    using assms(5) by (rule update_own_Some) (use assms(6) in auto)
  have i: "mid m = i" "mid r = i" using assms(4,7) r(1,3) by (auto simp: db_ok_def rows_num_def)
  have row: "cd_rows d (mid m) = Some m" using r i by (simp add: change_row_def)
  note ok = change_row_ok [OF assms(4), where f = f and i = i, OF assms(6,7), folded r(4)]
  have view: "rows_view a b d = learn a b x (rows_view a b (cs_db s))"
  proof (cases "x = SrvMsgEdited (enrich e' d m)")
    case True
    have about: "row_about (enrich e' d m) = row_about r" "mid (enrich e' d m) = i" using r(5) i by simp_all
    have d: "cd_rows d = (cd_rows (cs_db s))(i \<mapsto> m)" "cd_reactions d = cd_reactions (cs_db s)"
      by (simp_all add: r(4) change_row_def r(1) r(3) [symmetric])
    have known: "known (m\<lparr>reactions := Some (filter (\<lambda>q. mr_message_id q = i) (cd_reactions (cs_db s)))\<rparr>) = known (enrich e' d m)"
      using True assms(8) i(1) d(2) by (auto simp: enrich_def known_def Let_def)
    have "rows_view a b d j = (if j = i then (if row_about r = (a, Some b, None) then Some (known (enrich e' d m)) else None)
        else rows_view a b (cs_db s) j)" for j
      using r(5) by (simp add: rows_view_def d known split: option.split)
    moreover have "rows_view a b (cs_db s) i = None \<longleftrightarrow> row_about r \<noteq> (a, Some b, None)"
      by (simp add: rows_view_def r(1))
    ultimately show ?thesis using about by (auto simp: True at_id_def fun_eq_iff)
  next
    case False
    then have "x = SrvMsgDeleted (mid m) (sender_id m) (recipient_id m) (group_id m)"
      and g: "\<And>r rs. known ((f r)\<lparr>reactions := rs\<rparr>) = gone (known (r\<lparr>reactions := rs\<rparr>))"
      using assms(8) by auto
    then show ?thesis
      using at_id_view [OF r(1), of a b gone] about_of [of r m] r(5) i(1)
      by (simp add: r(4) view_change [OF assms(6) g])
  qed
  show ?thesis
    by (rule mirrors_broadcast [OF assms(1-3) ok row refl _ _ _ view])
      (use r assms(8) in \<open>auto simp: row_about_def enrich_def Let_def\<close>)
qed

lemma mirrors_error:
  assumes "mirrors a b n s t" "wired b n s" "h_clients (cs_hub s) u = Some c"
  shows "mirrors a b n s (sendMessageError c cid txt t)" "mirrors a b n s (chat_error c txt t)"
  unfolding sendMessageError_def chat_error_def by (rule mirrors_send [OF assms(1) _ assms(2,3)]; simp)+

lemma mirrors_delete:
  assumes "wired b n s" "h_clients (cs_hub s) u = Some c" "a \<noteq> b" "db_ok (cs_db s)" "de_read_ok e"
  shows "mirrors a b n s (handleMessageDelete e c data s)"
proof -
  have uid: "hc_uid c = u" by (rule wiredD(1) [OF assms(1,2)])
  have own: "mirrors a b n s (broadcastToConversationRaw e c m (SrvMsgDeleted (mid m) (sender_id m) (recipient_id m) (group_id m))
      (s\<lparr>cs_db := d\<rparr>))" if "ServerChat.DeleteMessage e i u (cs_db s) = (d, Some m)" for i d m
    using that unfolding ServerChat.DeleteMessage_def
    by (rule mirrors_own [OF assms(1-4), where e' = e]) (simp_all add: row_about_def known_def gone_def)
  have none: "s\<lparr>cs_db := d\<rparr> = s" if "ServerChat.DeleteMessage e i u (cs_db s) = (d, None)" for i d
    using update_own_None [of e i u _ "cs_db s" d] that assms(5) by (simp add: ServerChat.DeleteMessage_def)
  show ?thesis
    by (auto simp: handleMessageDelete_def uid none assms(4) intro!: own mirrors_error [OF _ assms(1,2)]
        split: option.split prod.split)
qed

lemma mirrors_edit:
  assumes "wired b n s" "h_clients (cs_hub s) u = Some c" "a \<noteq> b" "db_ok (cs_db s)" "de_read_ok e"
  shows "mirrors a b n s (handleMessageEdit e c data s)"
proof -
  have uid: "hc_uid c = u" by (rule wiredD(1) [OF assms(1,2)])
  have own: "mirrors a b n s (broadcastToConversationRaw e c m (SrvMsgEdited (enrich e d m)) (s\<lparr>cs_db := d\<rparr>))"
    if "ServerChat.EditMessage e i u t (cs_db s) = (d, Some m)" for i t d m
    using that unfolding ServerChat.EditMessage_def
    by (rule mirrors_own [OF assms(1-4), where e' = e]) (simp_all add: row_about_def assms(5))
  have none: "s\<lparr>cs_db := d\<rparr> = s" if "ServerChat.EditMessage e i u t (cs_db s) = (d, None)" for i t d
    using update_own_None [of e i u _ "cs_db s" d] that assms(5) by (simp add: ServerChat.EditMessage_def)
  show ?thesis
    by (auto simp: handleMessageEdit_def uid none assms(4) intro!: own mirrors_error [OF _ assms(1,2)]
        split: option.split prod.split)
qed

lemma canSee_party: "canSeeMessage e u m d \<Longrightarrow> recipient_id m = Some r \<Longrightarrow> u = sender_id m \<or> u = r"
  by (auto simp: canSeeMessage_def split: if_splits)

lemma mirrors_react:
  assumes "wired b n s" "h_clients (cs_hub s) u = Some c" "a \<noteq> b" "db_ok (cs_db s)"
  shows "mirrors a b n s (handleMessageReact e c data s)"
proof -
  have uid: "hc_uid c = u" by (rule wiredD(1) [OF assms(1,2)])
  have react: "mirrors a b n s (broadcastToConversationRaw e c m
      (SrvReaction (mid m) (sender_id m) (recipient_id m) (group_id m) u emoji yes) (s\<lparr>cs_db := d\<rparr>))"
    if h: "GetMessage e i (cs_db s) = Some m" "canSeeMessage e u m (cs_db s)" "ToggleReaction e i u emoji (cs_db s) = (d, Some yes)"
    for i m emoji d yes
  proof -
    have row: "cd_rows (cs_db s) i = Some m" using h(1) by (simp add: GetMessage_def split: if_splits)
    have i: "mid m = i" using assms(4) row by (simp add: db_ok_def rows_num_def)
    have num: "rows_num (cs_db s)" using assms(4) by (simp add: db_ok_def)
    note t = view_toggle [OF h(3) num]
    have ok: "db_ok d" "grows (cs_db s) d"
      using assms(4) t(2-4) by (simp_all add: db_ok_def rows_num_def shaped_def users_keyed_def grows_def)
    have view: "rows_view a b d = learn a b (SrvReaction (mid m) (sender_id m) (recipient_id m) (group_id m) u emoji yes) (rows_view a b (cs_db s))"
      using at_id_view [OF row, of a b "with_reaction u emoji yes"] t(1) i by (simp add: row_about_def)
    show ?thesis
      by (rule mirrors_broadcast [OF assms(1-3) ok _ refl canSee_party [OF h(2)] _ _ view]) (use row i t(2) in \<open>auto simp: row_about_def\<close>)
  qed
  have none: "s\<lparr>cs_db := d\<rparr> = s" if "ToggleReaction e i u emoji (cs_db s) = (d, None)" for i emoji d
    using that by (auto simp: ToggleReaction_def split: if_splits)
  show ?thesis
    by (auto simp: handleMessageReact_def uid none assms(4) intro!: react split: option.split prod.split)
qed

lemma mirrors_pin:
  assumes "wired b n s" "h_clients (cs_hub s) u = Some c" "a \<noteq> b" "db_ok (cs_db s)" "de_read_ok e"
  shows "mirrors a b n s (handleMessagePin e c data s)"
proof -
  have uid: "hc_uid c = u" by (rule wiredD(1) [OF assms(1,2)])
  have pin: "mirrors a b n s (broadcastToConversationRaw e c m
      (SrvPinned (mid m) (sender_id m) (recipient_id m) (group_id m) (pinned_at m)) (s\<lparr>cs_db := d\<rparr>))"
    if h: "GetMessage e i (cs_db s) = Some m0" "canSeeMessage e u m0 (cs_db s)" "ServerChat.PinMessage e i yes (cs_db s) = (d, Some m)"
    for i m0 yes d m
  proof -
    let ?f = "\<lambda>m. m\<lparr>pinned_at := if yes then Some (de_now e) else None\<rparr>"
    have row0: "cd_rows (cs_db s) i = Some m0" using h(1) by (simp add: GetMessage_def split: if_splits)
    have d: "d = change_row i ?f (cs_db s)" "m = ?f m0"
      using h(3) row0 by (auto simp: ServerChat.PinMessage_def GetMessage_def change_row_def Let_def split: if_splits)
    have i: "mid m = i" using assms(4) row0 d(2) by (simp add: db_ok_def rows_num_def)
    have about: "row_about m = row_about m0" by (simp add: d(2) row_about_def)
    note ok = change_row_ok [OF assms(4), where f = ?f and i = i, folded d(1)]
    have row: "cd_rows d (mid m) = Some m" using row0 d i by (simp add: change_row_def)
    have "rows_view a b d = (rows_view a b (cs_db s))(i := map_option (\<lambda>x. x\<lparr>pinned_at := pinned_at m\<rparr>) (rows_view a b (cs_db s) i))"
      unfolding d(1) by (rule view_change) (simp_all add: row_about_def known_def d(2))
    then have view: "rows_view a b d = learn a b (SrvPinned (mid m) (sender_id m) (recipient_id m) (group_id m) (pinned_at m)) (rows_view a b (cs_db s))"
      using at_id_view [OF row0, of a b "\<lambda>x. x\<lparr>pinned_at := pinned_at m\<rparr>"] about i by (simp add: row_about_def)
    show ?thesis
      by (rule mirrors_broadcast [OF assms(1-3) ok row refl _ _ _ view])
        (use canSee_party [OF h(2)] d(2) in \<open>auto simp: row_about_def\<close>)
  qed
  have none: "s\<lparr>cs_db := d\<rparr> = s" if "ServerChat.PinMessage e i yes (cs_db s) = (d, None)" for i yes d
    using that assms(5) by (auto simp: ServerChat.PinMessage_def GetMessage_def change_row_def Let_def split: option.splits if_splits)
  show ?thesis
    by (auto simp: handleMessagePin_def uid none assms(4) intro!: pin mirrors_error [OF _ assms(1,2)]
        split: option.split prod.split)
qed

lemma mirrors_silent:
  assumes "db_ok d" "grows (cs_db s) d" "rows_view a b d = rows_view a b (cs_db s)"
  shows "mirrors a b n s (s\<lparr>cs_db := d\<rparr>)"
  by (rule mirrorsI [where fs = "[]"]) (use assms in simp_all)

lemma mark_read_ok:
  assumes "db_ok d"
  shows "db_ok (MarkDirectRead p q t d)" "grows d (MarkDirectRead p q t d)"
    and "rows_view a b (MarkDirectRead p q t d) = rows_view a b d"
proof -
  let ?F = "\<lambda>m. if sender_id m = p \<and> recipient_id m = Some q \<and> read_at m = None then m\<lparr>read_at := Some t\<rparr> else m"
  have F: "row_about (?F r) = row_about r" "mid (?F r) = mid r" "known ((?F r)\<lparr>reactions := rs\<rparr>) = known (r\<lparr>reactions := rs\<rparr>)" for r rs
    by (simp_all add: row_about_def known_def)
  show "db_ok (MarkDirectRead p q t d)" "grows d (MarkDirectRead p q t d)"
    by (rule rows_mapped_ok [OF assms, where F = "\<lambda>_. ?F"]; simp add: MarkDirectRead_def row_about_def)+
  show "rows_view a b (MarkDirectRead p q t d) = rows_view a b d"
    using F by (auto simp: rows_view_def MarkDirectRead_def fun_eq_iff split: option.split)
qed

lemma mark_group_ok:
  assumes "db_ok d"
  shows "db_ok (MarkGroupRead g u d)" "grows d (MarkGroupRead g u d)" "rows_view a b (MarkGroupRead g u d) = rows_view a b d"
  using assms by (auto simp: MarkGroupRead_def db_ok_def rows_num_def shaped_def users_keyed_def rows_view_def fun_eq_iff
      grows_def split: option.splits)

lemma mark_delivered_ok:
  assumes "db_ok d"
  shows "db_ok (MarkDelivered is t d) \<and> grows d (MarkDelivered is t d) \<and> rows_view a b (MarkDelivered is t d) = rows_view a b d"
  using assms
proof (induction "is" arbitrary: d)
  case (Cons i "is")
  let ?F = "\<lambda>m. if delivered_at m = None then m\<lparr>delivered_at := Some t\<rparr> else m"
  note one = change_row_ok [OF Cons.prems, of ?F i]
  have ok: "db_ok (change_row i ?F d)" "grows d (change_row i ?F d)" by (rule one; simp add: row_about_def)+
  have view: "rows_view a b (change_row i ?F d) = rows_view a b d"
    using view_change [of ?F id a b i d] by (simp add: row_about_def known_def option.map_id)
  have "grows d (MarkDelivered is t (change_row i ?F d))"
    using ok(2) Cons.IH [OF ok(1)] by (fastforce simp: grows_def)
  then show ?case using Cons.IH [OF ok(1)] view by (simp add: MarkDelivered_def)
qed (simp add: MarkDelivered_def)

lemma mirrors_typing:
  assumes "wired b n s" "db_ok (cs_db s)"
  shows "mirrors a b n s (handleTyping e c data s)"
  using assms by (auto simp: handleTyping_def to_group_def intro!: mirrors_user mirrors_users split: option.split)

lemma mirrors_read:
  assumes "wired b n s" "db_ok (cs_db s)"
  shows "mirrors a b n s (handleRead e c data s)"
proof -
  have "mirrors a b n s (s\<lparr>cs_db := MarkDirectRead p q t (cs_db s)\<rparr>)" "mirrors a b n s (s\<lparr>cs_db := MarkGroupRead g u (cs_db s)\<rparr>)" for p q t g u
    by (rule mirrors_silent; simp add: mark_read_ok mark_group_ok assms(2))+
  then show ?thesis
    using assms by (auto simp: handleRead_def to_group_def intro!: mirrors_user mirrors_users split: option.split)
qed

text \<open>A new row.\<close>

lemma inserted:
  assumes "insertMessage e from rec grp p d = (d', Some m)" "db_ok d" "(rec = None) = (grp \<noteq> None)" "de_read_ok e"
  shows "db_ok d'" "grows d d'" "cd_rows d' (mid m) = Some m" "row_about m = (from, rec, grp)"
    and "rows_view a b d' = (if (from, rec, grp) = (a, Some b, None) then (rows_view a b d)(mid m \<mapsto> known (enrich e d' m)) else rows_view a b d)"
proof -
  have m: "m = new_row (de_now e) (cd_last d + 1) from rec grp (sm_file p) (sm_reply p) (sm_content p)
      (if sm_encrypted p then Some (sm_iv p, sm_keys p) else None)" and d': "d' = insert_row m d"
    using assms(1) by (auto simp: insertMessage_def GetMessage_def insert_row_def new_row_def Let_def split: if_splits)
  have i: "mid m = cd_last d + 1" and about: "row_about m = (from, rec, grp)" by (simp_all add: m new_row_def row_about_def)
  have num: "0 < j \<and> mid r = j \<and> j \<le> cd_last d" if "cd_rows d j = Some r" for j r
    using assms(2) that by (simp add: db_ok_def rows_num_def)
  have fresh: "cd_rows d (mid m) = None"
    using num [of "mid m"] i by (cases "cd_rows d (mid m)") auto
  show row: "cd_rows d' (mid m) = Some m" by (simp add: d' insert_row_def)
  show "row_about m = (from, rec, grp)" by (rule about)
  show "grows d d'" using fresh by (auto simp: grows_def d' insert_row_def)
  have "rows_num d'" using num i assms(2) by (force simp: rows_num_def d' insert_row_def db_ok_def)
  moreover have "shaped d'"
    using assms(2,3) about by (simp add: shaped_def d' insert_row_def db_ok_def row_about_def)
  ultimately show "db_ok d'" using assms(2) i by (simp add: db_ok_def d' insert_row_def users_keyed_def)
  have known: "known (m\<lparr>reactions := Some (filter (\<lambda>q. mr_message_id q = mid m) (cd_reactions d))\<rparr>) = known (enrich e d' m)"
    using assms(4) by (auto simp: enrich_def known_def Let_def d' insert_row_def)
  have "rows_view a b d' j = (if j = mid m then (if (from, rec, grp) = (a, Some b, None) then Some (known (enrich e d' m)) else None)
      else rows_view a b d j)" for j
    using about known by (simp add: rows_view_def d' insert_row_def split: option.split)
  moreover have "rows_view a b d (mid m) = None" using fresh by (simp add: rows_view_def)
  ultimately show "rows_view a b d' = (if (from, rec, grp) = (a, Some b, None) then (rows_view a b d)(mid m \<mapsto> known (enrich e d' m)) else rows_view a b d)"
    by (auto simp: fun_eq_iff)
qed

lemma insertMessage_None: "insertMessage e from rec grp p d = (d', None) \<Longrightarrow> de_read_ok e \<Longrightarrow> d' = d"
  by (auto simp: insertMessage_def GetMessage_def insert_row_def Let_def split: if_splits)

lemma mirrors_group_send:
  assumes "wired b n s" "h_clients (cs_hub s) u = Some c" "a \<noteq> b" "db_ok (cs_db s)" "de_read_ok e"
  shows "mirrors a b n s (sendGroupMessage e c g p s)"
proof -
  have uid: "hc_uid c = u" by (rule wiredD(1) [OF assms(1,2)])
  have sent: "mirrors a b n s (cs_send c (SrvMsgSent (sm_client p) (enrich e d m))
        (fold (\<lambda>u. cs_user u (SrvMsgNew (enrich e d m))) us (s\<lparr>cs_db := d\<rparr>)))" (is "mirrors a b n s ?t")
    if ins: "insertMessage e u None (Some g) p (cs_db s) = (d, Some m)" for d m us
  proof -
    note new = inserted [OF ins assms(4) _ assms(5), simplified]
    let ?m = "enrich e d m"
    have w: "wired b n (s\<lparr>cs_db := d\<rparr>)" by (rule wired_same [OF assms(1)]) simp
    define fs where "fs = concat (map (\<lambda>u. if u = b then [SrvMsgNew ?m] else []) us) @ (if u = b then [SrvMsgSent (sm_client p) ?m] else [])"
    have fs: "f = SrvMsgNew ?m \<or> (f = SrvMsgSent (sm_client p) ?m \<and> u = b)" if "f \<in> set fs" for f
      using that by (auto simp: fs_def split: if_splits)
    have about: "row_about ?m = (u, None, Some g)" using new(4) by simp
    show ?thesis
    proof (rule mirrorsI [where fs = fs])
      show "queue n ?t = queue n s @ fs" using queue_send [OF assms(1,2)] queue_users [OF w] by (simp add: fs_def)
      have "true_frame b d f" if "f \<in> set fs" for f
        using fs [OF that] new(3,4) by (elim disjE) (auto simp: true_frame_def for_b_def row_about_def)
      then show "list_all (true_frame b (cs_db ?t)) fs" by (simp add: list_all_iff)
      have "learn a b f V = V" if "f \<in> set fs" for f V using fs [OF that] about by auto
      then have "fold (learn a b) fs V = V" for V by (induction fs) auto
      then show "fold (learn a b) fs (rows_view a b (cs_db s)) = rows_view a b (cs_db ?t)" using new(5) by simp
    qed (use new in simp_all)
  qed
  have none: "s\<lparr>cs_db := d\<rparr> = s" if "insertMessage e u None (Some g) p (cs_db s) = (d, None)" for d
    using insertMessage_None [OF that assms(5)] by simp
  show ?thesis
    by (auto simp: sendGroupMessage_def Let_def uid none assms(4) intro!: sent mirrors_error [OF _ assms(1,2)]
        split: option.split prod.split)
qed

lemma mirrors_direct_send:
  assumes "wired b n s" "h_clients (cs_hub s) u = Some c" "a \<noteq> b" "db_ok (cs_db s)" "de_read_ok e"
  shows "mirrors a b n s (sendDirectMessage e c r p s)"
proof -
  have uid: "hc_uid c = u" by (rule wiredD(1) [OF assms(1,2)])
  have sent: "mirrors a b n s (cs_send c (SrvMsgSent (sm_client p) m') t2)" (is "mirrors a b n s ?t")
    if ins: "insertMessage e u (Some r) None p (cs_db s) = (d, Some m)"
      and t2: "t2 = (cs_user r (SrvMsgNew (enrich e d m)) (s\<lparr>cs_db := d\<rparr>))\<lparr>cs_db := d2\<rparr>"
        "db_ok d2 \<and> grows d d2 \<and> rows_view a b d2 = rows_view a b d" "row_about m' = row_about m" "mid m' = mid m" for d m m' t2 d2
  proof -
    note new = inserted [OF ins assms(4) _ assms(5), simplified]
    let ?m = "enrich e d m"
    have w: "wired b n (s\<lparr>cs_db := d\<rparr>)" by (rule wired_same [OF assms(1)]) simp
    define fs where "fs = (if r = b then [SrvMsgNew ?m] else []) @ (if u = b then [SrvMsgSent (sm_client p) m'] else [])"
    obtain m2 where m2: "cd_rows d2 (mid m) = Some m2" "row_about m2 = row_about m"
      using growsD [OF _ new(3)] t2(2) by blast
    show ?thesis
    proof (rule mirrorsI [where fs = fs])
      show "queue n ?t = queue n s @ fs" using queue_send [OF assms(1,2)] queue_user [OF w] by (simp add: fs_def t2(1))
      show "list_all (true_frame b (cs_db ?t)) fs"
        using m2 new(4) t2(3,4) by (auto simp: fs_def t2(1) true_frame_def for_b_def row_about_def)
      show "fold (learn a b) fs (rows_view a b (cs_db s)) = rows_view a b (cs_db ?t)"
        using new(4,5) t2(2) assms(3) by (auto simp: fs_def t2(1))
      show "grows (cs_db s) (cs_db ?t)" using new(2) t2(2) by (fastforce simp: t2(1) grows_def)
    qed (use t2 in simp_all)
  qed
  have ur: "u_id ur = r" if "cd_users (cs_db s) r = Some ur" for ur
    using assms(4) that by (simp add: db_ok_def users_keyed_def)
  have none: "s\<lparr>cs_db := d\<rparr> = s" if "insertMessage e u (Some r) None p (cs_db s) = (d, None)" for d
    using insertMessage_None [OF that assms(5)] by simp
  have ok: "db_ok d" if "insertMessage e u (Some r) None p (cs_db s) = (d, Some m)" for d m
    using inserted(1) [OF that assms(4) _ assms(5)] by simp
  have plain: "mirrors a b n s (cs_send c (SrvMsgSent (sm_client p) (enrich e d m)) (cs_user r (SrvMsgNew (enrich e d m)) (s\<lparr>cs_db := d\<rparr>)))"
    if "insertMessage e u (Some r) None p (cs_db s) = (d, Some m)" for d m
    by (rule sent [OF that, where ?d2.0 = d]) (use ok [OF that] in \<open>simp_all add: cs_user_def\<close>)
  have marked: "mirrors a b n s (cs_send c (SrvMsgSent (sm_client p) ((enrich e d m)\<lparr>delivered_at := Some (de_now e)\<rparr>))
      ((cs_user r (SrvMsgNew (enrich e d m)) (s\<lparr>cs_db := d\<rparr>))\<lparr>cs_db := MarkDelivered [mid m] (de_now e) d\<rparr>))"
    if "insertMessage e u (Some r) None p (cs_db s) = (d, Some m)" for d m
    by (rule sent [OF that refl mark_delivered_ok [OF ok [OF that]]]) simp_all
  show ?thesis
    by (auto simp: sendDirectMessage_def Let_def uid none ur assms(4) intro!: plain marked mirrors_error [OF _ assms(1,2)]
        split: option.split prod.split)
qed

lemma mirrors_step:
  assumes "wired b n s" "h_clients (cs_hub s) u = Some c" "a \<noteq> b" "db_ok (cs_db s)" "de_read_ok e"
  shows "mirrors a b n s (route_chat e c ty data s)"
proof -
  have "mirrors a b n s (handleMessageSend e c data s)"
    by (auto simp: handleMessageSend_def Let_def assms(4) intro!: mirrors_send [OF _ _ assms(1,2)] mirrors_error [OF _ assms(1,2)]
        mirrors_group_send [OF assms] mirrors_direct_send [OF assms] split: option.split)
  then show ?thesis
    by (simp add: route_chat_def assms(4) mirrors_delete [OF assms] mirrors_edit [OF assms] mirrors_react [OF assms(1-4)]
        mirrors_pin [OF assms] mirrors_typing [OF assms(1,4)] mirrors_read [OF assms(1,4)])
qed

end
