(* ===== verification/ChatMirror.thy ===== *)
theory ChatMirror
  imports ChatLearn
begin

text \<open>
  One person's chat store and the server as they run together: the server handles the frames of every client, the store handles
  what was queued for it whenever it gets to it, and its user writes, edits, deletes, pins, reacts and loads history.
\<close>

section \<open>The person's own steps\<close>

text \<open>Sending leaves what the other side wrote alone, whether the socket is up or not.\<close>

lemma in_step_sends:
  assumes "in_step a b d s" "rows_num d" "me env = Some u" "u_id u \<noteq> a" "0 \<le> now env"
  shows "in_step a b d (sendMessage env c t f r s)" (is ?P) "client_view a (sendMessage env c t f r s) = client_view a s" (is ?Q)
proof -
  let ?o = "optimistic_message env u c t f r (client_id_of env) s" and ?s1 = "send_begun env u c t f r s"
  let ?B = "bucket_abs (bucket (Dm a) s)"
  have opt: "opt_id env s \<le> 0" using assms(5) by (simp add: opt_id_def)
  have o: "mid ?o = opt_id env s" "sender_id ?o \<noteq> a" using assms(4) mid_optimistic by (auto simp: optimistic_message_def)
  have abs: "bucket_abs (bucket (Dm a) ?s1) i = (if c = Dm a \<and> i = opt_id env s then Some ?o else ?B i)" for i
    using abs_place [OF in_stepD(1) [OF assms(1)], of "{opt_id env s}" ?o] o(1) by auto
  have own: "client_view a s (opt_id env s) = None"
  proof (cases "?B (opt_id env s)")
    case (Some x)
    have "sender_id x \<noteq> a"
    proof
      assume "sender_id x = a"
      then obtain r where "cd_rows d (opt_id env s) = Some r" using in_stepD(3) [OF assms(1) Some] by (auto simp: held_def)
      then show False using assms(2) opt unfolding rows_num_def by fastforce
    qed
    then show ?thesis using Some by (simp add: client_view_def)
  qed (simp add: client_view_def)
  have "distinct (map mid (bucket (Dm a) ?s1))"
    using in_stepD(1) [OF assms(1)] by (cases "c = Dm a") (auto simp: distinct_place)
  moreover have "held a b d i x" if x: "bucket_abs (bucket (Dm a) ?s1) i = Some x" for i x
  proof -
    have "(if c = Dm a \<and> i = opt_id env s then Some ?o else ?B i) = Some x" using x by (simp only: abs)
    then show ?thesis using in_stepD(3) [OF assms(1), of i x] o(2) opt by (auto simp: held_def split: if_splits)
  qed
  moreover have "pa_opt pa \<le> 0" if "jm_get (pendingAcks ?s1) k = Some pa" for k pa
    using that in_stepD(2) [OF assms(1), of k pa] opt by (auto simp: jm_get_set split: if_splits)
  ultimately have one: "in_step a b d ?s1" by (simp add: in_step_def)
  have view: "client_view a ?s1 = client_view a s"
  proof
    fix i
    show "client_view a ?s1 i = client_view a s i"
      using o(2) own unfolding client_view_def abs by auto
  qed
  have emits: "in_step a b d (emit x w) = in_step a b d w" "client_view a (emit x w) = client_view a w" for x w
    by (simp_all add: in_step_def client_view_def fun_eq_iff emit_def bucket.simps)
  show ?P ?Q
  proof (atomize(full), cases "js_trim t \<noteq> [] \<or> num_truthy f")
    case True
    then show "?P \<and> ?Q" using one view
      by (simp add: sendMessage_begun [OF assms(3) True] Let_def send_or_fail_def ws_send_def emits in_step_fail)
  next
    case False
    then show "?P \<and> ?Q" using assms(1) by (simp add: sendMessage_def)
  qed
qed

lemma bucket_ws [simp]:
  "bucket c (fst (ws_send env ty d s)) = bucket c s" "pendingAcks (fst (ws_send env ty d s)) = pendingAcks s"
  by (simp_all add: ws_send_def emit_def bucket.simps)

lemma bucket_update:
  "bucket c (updateMessage env ref f s) = (if ref_convo env ref = Some c then patch_id (r_id ref) f (bucket c s) else bucket c s)"
  "pendingAcks (updateMessage env ref f s) = pendingAcks s"
  by (auto simp: updateMessage_def set_bucket.simps bucket.simps split: option.split convo.split)

text \<open>A guess about a message: what pinning or reacting shows until the server has said so.\<close>

definition unmarked :: "message \<Rightarrow> message" where
  "unmarked m = m\<lparr>pinned_at := None, reactions := None\<rparr>"

text \<open>Two views agree on the messages of \<open>S\<close>, but for the pin and the reactions of those in \<open>T\<close>.\<close>

definition agree :: "int set \<Rightarrow> int set \<Rightarrow> (int \<rightharpoonup> message) \<Rightarrow> (int \<rightharpoonup> message) \<Rightarrow> bool" where
  "agree S T V W = (\<forall>i \<in> S. if i \<in> T then map_option unmarked (V i) = map_option unmarked (W i) else V i = W i)"

lemma agreeD:
  assumes "agree S T V W" "i \<in> S"
  shows "i \<notin> T \<Longrightarrow> V i = W i" "map_option unmarked (V i) = map_option unmarked (W i)"
proof -
  have "if i \<in> T then map_option unmarked (V i) = map_option unmarked (W i) else V i = W i"
    using assms unfolding agree_def by (rule bspec)
  then show "i \<notin> T \<Longrightarrow> V i = W i" "map_option unmarked (V i) = map_option unmarked (W i)" by (cases "i \<in> T"; simp)+
qed

lemma agree_at:
  assumes "agree S T V W" "\<And>x y. unmarked x = unmarked y \<Longrightarrow> unmarked (f x) = unmarked (f y)"
  shows "agree S T (at_id q i f V) (at_id q i f W)"
proof -
  have f: "map_option unmarked (map_option f x) = map_option unmarked (map_option f y)"
    if xy: "map_option unmarked x = map_option unmarked y" for x y
  proof (cases x)
    case None
    then show ?thesis using xy by (cases y) simp_all
  next
    case (Some u)
    then obtain v where v: "y = Some v" using xy by (cases y) auto
    then have "unmarked u = unmarked v" using xy Some by simp
    then have "unmarked (f u) = unmarked (f v)" by (rule assms(2))
    then show ?thesis using Some v by simp
  qed
  show ?thesis
    unfolding agree_def
  proof
    fix j assume j: "j \<in> S"
    show "if j \<in> T then map_option unmarked (at_id q i f V j) = map_option unmarked (at_id q i f W j) else at_id q i f V j = at_id q i f W j"
    proof (cases "q \<and> j = i")
      case True
      then show ?thesis using agreeD [OF assms(1) j] f [of "V j" "W j"] by (cases "j \<in> T") (simp_all add: at_id_def)
    next
      case False
      then have "at_id q i f V j = V j" "at_id q i f W j = W j" by (auto simp: at_id_def)
      then show ?thesis using agreeD [OF assms(1) j] by (cases "j \<in> T") simp_all
    qed
  qed
qed

lemma unmarked_patches:
  "unmarked (gone m) = gone (unmarked m)" "unmarked (with_reaction u e y m) = unmarked m" "unmarked (m\<lparr>pinned_at := t\<rparr>) = unmarked m"
  by (simp_all add: unmarked_def gone_def with_reaction_def Let_def)

lemma agree_learn: "agree S T V W \<Longrightarrow> agree S T (learn a b f V) (learn a b f W)"
proof -
  assume V: "agree S T V W"
  have at: "agree S T (at_id q i g V) (at_id q i g W)" if "\<And>x. unmarked (g x) = h (unmarked x)" for q i g h
    by (rule agree_at [OF V]) (simp add: that)
  have new: "agree S T (V(i \<mapsto> x)) (W(i \<mapsto> x))" for i x using V by (simp add: agree_def)
  show ?thesis
  proof (cases f)
    case (SrvMsgNew m) then show ?thesis using V new by simp
  next
    case (SrvMsgDeleted i u r g) then show ?thesis using at [of gone gone, OF unmarked_patches(1)] by simp
  next
    case (SrvMsgEdited m)
    have "agree S T (at_id q i (\<lambda>_. known m) V) (at_id q i (\<lambda>_. known m) W)" for q i
      by (rule at [where h = "\<lambda>_. unmarked (known m)"]) simp
    then show ?thesis using SrvMsgEdited by simp
  next
    case (SrvReaction i u r g who emoji yes)
    have "agree S T (at_id q i (with_reaction who emoji yes) V) (at_id q i (with_reaction who emoji yes) W)" for q i
      by (rule at [where h = "\<lambda>x. x"]) (rule unmarked_patches)
    then show ?thesis using SrvReaction by simp
  next
    case (SrvPinned i u r g t)
    have "agree S T (at_id q i (\<lambda>m. m\<lparr>pinned_at := t\<rparr>) V) (at_id q i (\<lambda>m. m\<lparr>pinned_at := t\<rparr>) W)" for q i
      by (rule at [where h = "\<lambda>x. x"]) (rule unmarked_patches)
    then show ?thesis using SrvPinned by simp
  qed (use V in simp_all)
qed

lemma agree_learns: "agree S T V W \<Longrightarrow> agree S T (fold (learn a b) fs V) (fold (learn a b) fs W)"
  by (induction fs arbitrary: V W) (simp_all add: agree_learn)

lemma agree_trans: "agree S T U V \<Longrightarrow> agree S T V W \<Longrightarrow> agree S T U W"
  by (simp add: agree_def)

lemma ref_of_id [simp]: "r_id (ref_of m) = mid m"
  by (simp add: ref_of_def)

lemma in_step_ws:
  assumes "in_step a b d s"
  shows "in_step a b d (fst (ws_send env ty j s)) \<and> client_view a (fst (ws_send env ty j s)) = client_view a s"
proof
  show "in_step a b d (fst (ws_send env ty j s))"
    by (rule in_step_same [OF assms]) (use in_stepD(2) [OF assms] in simp_all)
  show "client_view a (fst (ws_send env ty j s)) = client_view a s" by (rule client_view_same) simp
qed

text \<open>Changing or deleting a message of one's own leaves what the other side wrote alone.\<close>

definition not_theirs :: "int \<Rightarrow> chat_env \<Rightarrow> message \<Rightarrow> chats \<Rightarrow> bool" where
  "not_theirs a env m s = (sender_id m \<noteq> a \<and> (m \<in> set (bucket (Dm a) s) \<or> ref_convo env (ref_of m) \<noteq> Some (Dm a)))"

lemma abs_of_held: "distinct (map mid xs) \<Longrightarrow> m \<in> set xs \<Longrightarrow> bucket_abs xs (mid m) = Some m"
  by (simp add: bucket_abs_in)

lemma in_step_own_change:
  assumes "in_step a b d s" "not_theirs a env m s" "\<And>x. mid (f x) = mid x" "\<And>x. sender_id (f x) = sender_id x"
  shows "in_step a b d (updateMessage env (ref_of m) f (fst (ws_send env ty j s)))" (is "in_step a b d ?t")
    and "client_view a (updateMessage env (ref_of m) f (fst (ws_send env ty j s))) = client_view a s"
proof -
  let ?B = "bucket_abs (bucket (Dm a) s)"
  have p: "\<forall>cid pa. jm_get (pendingAcks ?t) cid = Some pa \<longrightarrow> pa_opt pa \<le> 0"
    using in_stepD(2) [OF assms(1)] by (simp add: bucket_update)
  show "in_step a b d ?t" "client_view a ?t = client_view a s"
  proof (atomize(full), cases "ref_convo env (ref_of m) = Some (Dm a)")
    case False
    then have "bucket (Dm a) ?t = bucket (Dm a) s" by (simp add: bucket_update)
    then show "in_step a b d ?t \<and> client_view a ?t = client_view a s"
      using in_step_same [OF assms(1) _ p] client_view_same by blast
  next
    case True
    then have m: "?B (mid m) = Some m"
      using assms(2) abs_of_held [OF in_stepD(1) [OF assms(1)]] by (simp add: not_theirs_def)
    have b: "bucket (Dm a) ?t = patch_id (mid m) f (bucket (Dm a) s)"
      using True by (simp add: bucket_update)
    have abs: "bucket_abs (bucket (Dm a) ?t) i = (if i = mid m then Some (f m) else ?B i)" for i
      using abs_patch_at [of "mid m" f "bucket (Dm a) s" i] m assms(3) b by simp
    have "held a b d i x" if x: "bucket_abs (bucket (Dm a) ?t) i = Some x" for i x
      using x in_stepD(3) [OF assms(1), of i x] in_stepD(3) [OF assms(1) m] assms(4) by (auto simp: abs held_def split: if_splits)
    moreover have "distinct (map mid (bucket (Dm a) ?t))"
      using in_stepD(1) [OF assms(1)] mids_patch_at [of "mid m" f] assms(3) b by simp
    ultimately have "in_step a b d ?t" using p by (simp add: in_step_def)
    moreover have "client_view a ?t = client_view a s"
      using m assms(2,4) by (auto simp: client_view_def abs not_theirs_def fun_eq_iff)
    ultimately show "in_step a b d ?t \<and> client_view a ?t = client_view a s" by blast
  qed
qed

lemma in_step_edits:
  assumes "in_step a b d s" "not_theirs a env m s"
  shows "in_step a b d (editMessage env m t s) \<and> client_view a (editMessage env m t s) = client_view a s"
    "in_step a b d (deleteMessage env m s) \<and> client_view a (deleteMessage env m s) = client_view a s"
proof -
  note own = in_step_own_change [OF assms]
  note stays = in_step_ws [OF assms(1)]
  show "in_step a b d (editMessage env m t s) \<and> client_view a (editMessage env m t s) = client_view a s"
    using stays [of env "''message:edit''" "JObj [(''id'', JNum (mid m)), (''content'', JStr (js_trim t))]"] assms(1)
      own [of "\<lambda>m. m\<lparr>content := js_trim t, edited_at := Some (Iso (now env))\<rparr>" "''message:edit''"
        "JObj [(''id'', JNum (mid m)), (''content'', JStr (js_trim t))]"]
    by (simp add: editMessage_def Let_def case_prod_beta)
  show "in_step a b d (deleteMessage env m s) \<and> client_view a (deleteMessage env m s) = client_view a s"
    using stays [of env "''message:delete''" "JObj [(''id'', JNum (mid m))]"]
      own [of "\<lambda>m. m\<lparr>content := [], mfile := None, file_id := None, deleted_at := Some (Iso (now env))\<rparr>" "''message:delete''"
        "JObj [(''id'', JNum (mid m))]"]
    by (simp add: deleteMessage_def markDeleted_def case_prod_beta)
qed

text \<open>Pinning and reacting change the pin and the reactions of that message at once, nothing else.\<close>

lemma in_step_marks:
  assumes "in_step a b d s" "\<And>x. mid (f x) = mid x" "\<And>x. sender_id (f x) = sender_id x" "\<And>x. unmarked (known (f x)) = unmarked (known x)"
    and "agree S T (client_view a s) W"
  shows "in_step a b d (updateMessage env (ref_of m) f (fst (ws_send env ty j s))) \<and>
    agree S (insert (mid m) T) (client_view a (updateMessage env (ref_of m) f (fst (ws_send env ty j s)))) W"
proof -
  let ?t = "updateMessage env (ref_of m) f (fst (ws_send env ty j s))"
  let ?B = "bucket_abs (bucket (Dm a) s)"
  have p: "\<forall>cid pa. jm_get (pendingAcks ?t) cid = Some pa \<longrightarrow> pa_opt pa \<le> 0"
    using in_stepD(2) [OF assms(1)] by (simp add: bucket_update)
  have abs: "bucket_abs (bucket (Dm a) ?t) i =
      (if ref_convo env (ref_of m) = Some (Dm a) \<and> i = mid m then map_option f (?B i) else ?B i)" for i
    by (simp add: bucket_update abs_patch_at assms(2))
  have "held a b d i x" if x: "bucket_abs (bucket (Dm a) ?t) i = Some x" for i x
  proof -
    obtain y where "?B i = Some y" "sender_id x = sender_id y" using x assms(3) by (auto simp: abs split: if_splits)
    then show ?thesis using in_stepD(3) [OF assms(1), of i y] by (simp add: held_def)
  qed
  moreover have "distinct (map mid (bucket (Dm a) ?t))"
    using in_stepD(1) [OF assms(1)] mids_patch_at [of "r_id (ref_of m)" f] assms(2) by (simp add: bucket_update)
  ultimately have one: "in_step a b d ?t" using p by (simp add: in_step_def)
  have "map_option unmarked (client_view a ?t (mid m)) = map_option unmarked (client_view a s (mid m))"
    using assms(3,4) by (auto simp: client_view_def abs split: option.split)
  moreover have "client_view a ?t i = client_view a s i" if "i \<noteq> mid m" for i using that by (simp add: client_view_def abs)
  moreover note agreeD(2) [OF assms(5)]
  ultimately have "agree S (insert (mid m) T) (client_view a ?t) W"
    using agreeD(1) [OF assms(5)] unfolding agree_def by (metis insert_iff)
  with one show ?thesis by blast
qed

lemma agree_more: "agree S T V W \<Longrightarrow> agree S (insert i T) V W"
  using agreeD [of S T V W] unfolding agree_def by (metis insert_iff)

lemma in_step_guesses:
  assumes "in_step a b d s" "agree S T (client_view a s) W"
  shows "in_step a b d (reactToMessage env m e s) \<and> agree S (insert (mid m) T) (client_view a (reactToMessage env m e s)) W"
    "in_step a b d (pinMessage env m y s) \<and> agree S (insert (mid m) T) (client_view a (pinMessage env m y s)) W"
proof -
  have stays: "in_step a b d (fst (ws_send env ty j s)) \<and> agree S (insert (mid m) T) (client_view a (fst (ws_send env ty j s))) W" for ty j
    using in_step_ws [OF assms(1), of env ty j] agree_more [OF assms(2)] by simp
  note mark = in_step_marks [OF assms(1) _ _ _ assms(2)]
  have react: "in_step a b d (updateMessage env (ref_of m) (\<lambda>m. m\<lparr>reactions := R m\<rparr>) (fst (ws_send env ty j s))) \<and>
      agree S (insert (mid m) T) (client_view a (updateMessage env (ref_of m) (\<lambda>m. m\<lparr>reactions := R m\<rparr>) (fst (ws_send env ty j s)))) W" for R ty j
    by (rule mark) (simp_all add: unmarked_def known_def)
  show "in_step a b d (reactToMessage env m e s) \<and> agree S (insert (mid m) T) (client_view a (reactToMessage env m e s)) W"
  proof (cases "my_id env")
    case None
    then show ?thesis using assms(1) agree_more [OF assms(2)] by (simp add: reactToMessage_def)
  next
    case (Some my)
    let ?j = "JObj [(''id'', JNum (mid m)), (''emoji'', JStr e)]"
    show ?thesis
      using stays [of "''message:react''" ?j] react [of _ "''message:react''" ?j] Some
      by (simp add: reactToMessage_def Let_def case_prod_beta)
  qed
  let ?j = "JObj [(''id'', JNum (mid m)), (''pinned'', JBool y)]"
  have "in_step a b d (updateMessage env (ref_of m) (\<lambda>m. m\<lparr>pinned_at := t\<rparr>) (fst (ws_send env ''message:pin'' ?j s))) \<and>
      agree S (insert (mid m) T) (client_view a (updateMessage env (ref_of m) (\<lambda>m. m\<lparr>pinned_at := t\<rparr>) (fst (ws_send env ''message:pin'' ?j s)))) W" for t
    by (rule mark) (simp_all add: unmarked_def known_def)
  then show "in_step a b d (pinMessage env m y s) \<and> agree S (insert (mid m) T) (client_view a (pinMessage env m y s)) W"
    using stays [of "''message:pin''" ?j] by (simp add: pinMessage_def case_prod_beta)
qed

lemma merge_page_distinct: "distinct (map mid (merge_page xs ms))"
proof -
  have inv: "byId_inv (byId ms (byId xs []))" by (intro byId_inv_fold) simp
  then show ?thesis by (simp add: merge_page_def distinct_mid_sort byId_values byId_inv_def jm_inv_keys)
qed

lemma merge_page_one: "mid x = mid m \<Longrightarrow> merge_page [x] [m] = [m]"
  by (simp add: merge_page_def byId_def jm_values_def)

lemma pending_loaded: "pendingAcks (loadMessages_done c (Some ms) s) = pendingAcks s"
  by (cases c) (simp_all add: loadMessages_done_def decryptPending_emits set_bucket.simps)

text \<open>A page of history: rows of the conversation as they are now.\<close>

definition is_page :: "int \<Rightarrow> int \<Rightarrow> chat_db \<Rightarrow> message list \<Rightarrow> bool" where
  "is_page a b d ms = list_all (\<lambda>m. \<exists>e. de_read_ok e \<and> map_option (enrich e d) (cd_rows d (mid m)) = Some m \<and> between a b (row_about m)) ms"

lemma known_enriched:
  assumes "de_read_ok e" "mid r = i"
  shows "known (enrich e d r) = known (r\<lparr>reactions := Some (filter (\<lambda>x. mr_message_id x = i) (cd_reactions d))\<rparr>)"
  using assms by (auto simp: enrich_def known_def Let_def nvl_def)

lemma page_row:
  assumes "is_page a b d ms" "rows_num d" "m \<in> set ms"
  obtains r where "cd_rows d (mid m) = Some r" "row_about r = row_about m" "between a b (row_about m)"
    "row_about m = (a, Some b, None) \<Longrightarrow> rows_view a b d (mid m) = Some (known m)"
proof -
  obtain e r where r: "de_read_ok e" "cd_rows d (mid m) = Some r" "enrich e d r = m" "between a b (row_about m)"
    using assms(1,3) by (auto simp: is_page_def list_all_iff)
  have num: "mid r = mid m" using assms(2) r(2) by (simp add: rows_num_def)
  have about: "row_about r = row_about m" using r(3) enrich_about(1) by metis
  show ?thesis
    by (rule that [OF r(2) about r(4)]) (use r known_enriched [OF r(1) num, of d] about in \<open>simp add: rows_view_def\<close>)
qed

lemma in_step_loads:
  assumes "in_step a b d s" "rows_num d" "is_page a b d ms" "a \<noteq> b" "agree S T (client_view a s) (rows_view a b d)"
  shows "in_step a b d (loadMessages_done (Dm a) (Some ms) s)" (is "in_step a b d ?t")
    and "agree (S \<union> mid ` set ms) T (client_view a (loadMessages_done (Dm a) (Some ms) s)) (rows_view a b d)"
proof -
  let ?B = "bucket_abs (bucket (Dm a) s)"
  have bucket: "bucket (Dm a) ?t = merge_page (bucket (Dm a) s) ms" by (simp add: bucket_loadMessages_done)
  have abs: "bucket_abs (bucket (Dm a) ?t) i = (case bucket_abs (rev ms) i of Some m \<Rightarrow> Some m | None \<Rightarrow> ?B i)" for i
    using in_stepD(1) [OF assms(1)] by (simp add: bucket abs_merge_page_any bucket_abs_rev map_add_def split: option.split)
  have inms: "m \<in> set ms \<and> mid m = i" if "bucket_abs (rev ms) i = Some m" for i m
    using that by (auto simp: bucket_abs_def dest!: map_of_SomeD)
  have none: "i \<notin> mid ` set ms" if "bucket_abs (rev ms) i = None" for i
    using that by (force simp: bucket_abs_def map_of_eq_None_iff)
  have "held a b d i x" if x: "bucket_abs (bucket (Dm a) ?t) i = Some x" for i x
  proof (cases "bucket_abs (rev ms) i")
    case None
    then show ?thesis using x in_stepD(3) [OF assms(1), of i x] by (simp add: abs)
  next
    case (Some m)
    then have m: "m \<in> set ms" "mid m = i" "x = m" using inms x by (auto simp: abs)
    obtain r where "cd_rows d (mid m) = Some r" "row_about r = row_about m" "between a b (row_about m)"
      using page_row [OF assms(3,2) m(1)] by blast
    then show ?thesis using m assms(4) by (auto simp: held_def between_def row_about_def)
  qed
  moreover have "distinct (map mid (bucket (Dm a) ?t))"
    unfolding bucket by (rule merge_page_distinct)
  moreover have "pendingAcks ?t = pendingAcks s" by (simp add: pending_loaded)
  ultimately show "in_step a b d ?t" using in_stepD(2) [OF assms(1)] by (simp add: in_step_def)
  show "agree (S \<union> mid ` set ms) T (client_view a ?t) (rows_view a b d)"
    unfolding agree_def
  proof
    fix i assume i: "i \<in> S \<union> mid ` set ms"
    show "if i \<in> T then map_option unmarked (client_view a ?t i) = map_option unmarked (rows_view a b d i)
      else client_view a ?t i = rows_view a b d i"
    proof (cases "bucket_abs (rev ms) i")
      case None
      then have "i \<in> S" "client_view a ?t i = client_view a s i" using i none by (auto simp: client_view_def abs)
      then show ?thesis using agreeD [OF assms(5), of i] by (cases "i \<in> T") simp_all
    next
      case (Some m)
      then have m: "m \<in> set ms" "mid m = i" using inms by auto
      obtain r where r: "cd_rows d (mid m) = Some r" "row_about r = row_about m" "between a b (row_about m)"
        "row_about m = (a, Some b, None) \<Longrightarrow> rows_view a b d (mid m) = Some (known m)"
        using page_row [OF assms(3,2) m(1)] by blast
      have "client_view a ?t i = rows_view a b d i"
      proof (cases "sender_id m = a")
        case True
        then have "row_about m = (a, Some b, None)" using r(3) assms(4) by (auto simp: between_def row_about_def)
        then show ?thesis using r(4) Some m True by (simp add: client_view_def abs)
      next
        case False
        then have "row_about r \<noteq> (a, Some b, None)" using r(2) by (auto simp: row_about_def)
        then show ?thesis using r(1) Some m False by (simp add: client_view_def abs rows_view_def)
      qed
      then show ?thesis by simp
    qed
  qed
qed

section \<open>The mirror\<close>

text \<open>
  The server, how many of the queued frames the store has handled, and the store; \<open>S\<close> are the messages the store has
  loaded or that came later, \<open>T\<close> those its user has pinned or reacted to. Anybody connected may send any frame at any time (the
  database's reads succeed), the channels fill and drain, others come and go and call each other; as long as the connection
  was not shut, the store handles its frames whenever it gets to it. Its user sends messages and has them fail, edits and deletes messages, pins and reacts, loads history while nothing is under way, and
  does what leaves that list alone.
\<close>

inductive mirror :: "int \<Rightarrow> int \<Rightarrow> nat \<Rightarrow> chat_srv \<Rightarrow> nat \<Rightarrow> chats \<Rightarrow> int set \<Rightarrow> int set \<Rightarrow> bool" for a b n where
  starts: "db_ok (cs_db v) \<Longrightarrow> wired b n v \<Longrightarrow> in_step a b (cs_db v) s \<Longrightarrow> agree S {} (client_view a s) (rows_view a b (cs_db v)) \<Longrightarrow>
    mirror a b n v (length (queue n v)) s S {}"
| serves: "mirror a b n v k s S T \<Longrightarrow> h_clients (cs_hub v) u = Some c \<Longrightarrow> de_read_ok e \<Longrightarrow>
    mirror a b n (route_chat e c ty data v) k s S T"
| pumps: "mirror a b n v k s S T \<Longrightarrow> mirror a b n (v\<lparr>cs_hub := channel_moves p shut (cs_hub v)\<rparr>) k s S T"
| links: "mirror a b n v k s S T \<Longrightarrow> wired b n (v\<lparr>cs_hub := h\<rparr>) \<Longrightarrow> queue n (v\<lparr>cs_hub := h\<rparr>) = queue n v @ fs \<Longrightarrow>
    list_all (\<lambda>f. frame_row f = None) fs \<Longrightarrow> mirror a b n (v\<lparr>cs_hub := h\<rparr>) k s S T"
| hears: "mirror a b n v k s S T \<Longrightarrow> n \<notin> h_shut (cs_hub v) \<Longrightarrow> k < length (queue n v) \<Longrightarrow> me env = Some u \<Longrightarrow> u_id u = b \<Longrightarrow>
    mirror a b n v (Suc k) (hear env (queue n v ! k) s) S T"
| sends: "mirror a b n v k s S T \<Longrightarrow> me env = Some u \<Longrightarrow> u_id u = b \<Longrightarrow> 0 \<le> now env \<Longrightarrow>
    mirror a b n v k (sendMessage env c t f r s) S T"
| fails: "mirror a b n v k s S T \<Longrightarrow> mirror a b n v k (send_fail cid c i s) S T"
| edits: "mirror a b n v k s S T \<Longrightarrow> not_theirs a env m s \<Longrightarrow> mirror a b n v k (editMessage env m t s) S T"
| deletes: "mirror a b n v k s S T \<Longrightarrow> not_theirs a env m s \<Longrightarrow> mirror a b n v k (deleteMessage env m s) S T"
| reacts: "mirror a b n v k s S T \<Longrightarrow> mirror a b n v k (reactToMessage env m emoji s) S (insert (mid m) T)"
| pins: "mirror a b n v k s S T \<Longrightarrow> mirror a b n v k (pinMessage env m y s) S (insert (mid m) T)"
| loads: "mirror a b n v k s S T \<Longrightarrow> k = length (queue n v) \<Longrightarrow> is_page a b (cs_db v) ms \<Longrightarrow>
    mirror a b n v k (loadMessages_done (Dm a) (Some ms) s) (S \<union> mid ` set ms) T"
| browses: "mirror a b n v k s S T \<Longrightarrow> bucket (Dm a) s' = bucket (Dm a) s \<Longrightarrow> pendingAcks s' = pendingAcks s \<Longrightarrow>
    mirror a b n v k s' S T"

definition mirror_ok :: "int \<Rightarrow> int \<Rightarrow> nat \<Rightarrow> chat_srv \<Rightarrow> nat \<Rightarrow> chats \<Rightarrow> int set \<Rightarrow> int set \<Rightarrow> bool" where
  "mirror_ok a b n v k s S T =
     (db_ok (cs_db v) \<and> wired b n v \<and> in_step a b (cs_db v) s \<and> k \<le> length (queue n v) \<and>
      list_all (true_frame b (cs_db v)) (drop k (queue n v)) \<and>
      agree S T (fold (learn a b) (drop k (queue n v)) (client_view a s)) (rows_view a b (cs_db v)))"

lemma mirror_ok_serves:
  assumes "mirror_ok a b n v k s S T" "h_clients (cs_hub v) u = Some c" "de_read_ok e" "a \<noteq> b"
  shows "mirror_ok a b n (route_chat e c ty data v) k s S T"
proof -
  let ?w = "route_chat e c ty data v"
  have ok: "db_ok (cs_db v)" "wired b n v" "in_step a b (cs_db v) s" "k \<le> length (queue n v)"
    "list_all (true_frame b (cs_db v)) (drop k (queue n v))"
    "agree S T (fold (learn a b) (drop k (queue n v)) (client_view a s)) (rows_view a b (cs_db v))"
    using assms(1) by (simp_all add: mirror_ok_def)
  have "mirrors a b n v ?w" by (rule mirrors_step [OF ok(2) assms(2,4) ok(1) assms(3)])
  then obtain fs where m: "h_clients (cs_hub ?w) = h_clients (cs_hub v)" "db_ok (cs_db ?w)" "grows (cs_db v) (cs_db ?w)"
    "queue n ?w = queue n v @ fs" "list_all (true_frame b (cs_db ?w)) fs"
    "fold (learn a b) fs (rows_view a b (cs_db v)) = rows_view a b (cs_db ?w)"
    by (auto simp: mirrors_def)
  have "list_all (true_frame b (cs_db ?w)) (drop k (queue n v))"
    using ok(5) true_frame_grows [OF _ m(3)] by (auto simp: list_all_iff)
  moreover have "agree S T (fold (learn a b) (drop k (queue n ?w)) (client_view a s)) (rows_view a b (cs_db ?w))"
    using agree_learns [OF ok(6), of a b fs] ok(4) m(4,6) by simp
  ultimately show ?thesis
    using ok(4) m wired_same [OF ok(2) m(1)] in_step_grows [OF ok(3) m(3)] by (simp add: mirror_ok_def)
qed

lemma mirror_ok_hears:
  assumes "mirror_ok a b n v k s S T" "k < length (queue n v)" "me env = Some u" "u_id u = b" "a \<noteq> b" "a \<noteq> 0"
  shows "mirror_ok a b n v (Suc k) (hear env (queue n v ! k) s) S T"
proof -
  have d: "drop k (queue n v) = queue n v ! k # drop (Suc k) (queue n v)" using assms(2) by (simp add: Cons_nth_drop_Suc)
  then have "true_frame b (cs_db v) (queue n v ! k)" using assms(1) by (simp add: mirror_ok_def)
  then have "in_step a b (cs_db v) (hear env (queue n v ! k) s) \<and>
      client_view a (hear env (queue n v ! k) s) = learn a b (queue n v ! k) (client_view a s)"
    using hear_learns [of a b "cs_db v" s env u "queue n v ! k"] assms(1,3-6) by (simp add: mirror_ok_def db_ok_def)
  then show ?thesis using assms(1,2) d by (simp add: mirror_ok_def)
qed

text \<open>A step of the user that keeps the list in step and the view, but for marks.\<close>

lemma mirror_ok_own:
  assumes "mirror_ok a b n v k s S T" "in_step a b (cs_db v) t" "agree UNIV T' (client_view a t) (client_view a s)" "T \<subseteq> T'"
  shows "mirror_ok a b n v k t S T'"
proof -
  let ?fs = "drop k (queue n v)"
  have t: "agree UNIV T' (fold (learn a b) ?fs (client_view a t)) (fold (learn a b) ?fs (client_view a s))"
    by (rule agree_learns [OF assms(3)])
  have s: "agree S T (fold (learn a b) ?fs (client_view a s)) (rows_view a b (cs_db v))" using assms(1) by (simp add: mirror_ok_def)
  have "agree S T' (fold (learn a b) ?fs (client_view a t)) (rows_view a b (cs_db v))"
    unfolding agree_def
  proof
    fix i assume i: "i \<in> S"
    show "if i \<in> T' then map_option unmarked (fold (learn a b) ?fs (client_view a t) i) = map_option unmarked (rows_view a b (cs_db v) i)
      else fold (learn a b) ?fs (client_view a t) i = rows_view a b (cs_db v) i"
      using agreeD [OF t, of i] agreeD [OF s i] assms(4) by (cases "i \<in> T'") auto
  qed
  then show ?thesis using assms(1,2) by (simp add: mirror_ok_def)
qed

lemma agree_refl [simp]: "agree S T V V"
  by (simp add: agree_def)

lemma mirror_holds:
  assumes "mirror a b n v k s S T" "a \<noteq> b" "a \<noteq> 0"
  shows "mirror_ok a b n v k s S T"
  using assms(1)
proof (induction rule: mirror.induct)
  case (serves v k s S T u c e ty data)
  then show ?case by (intro mirror_ok_serves assms(2))
next
  case (pumps v k s S T p shut)
  then show ?case by (simp add: mirror_ok_def wired_def queue_def channel_moves_def)
next
  case (links v k s S T h fs)
  have "fold (learn a b) fs V = V" if "list_all (\<lambda>f. frame_row f = None) fs" for V fs
    using that by (induction fs arbitrary: V) (simp_all add: quiet_frame(2))
  moreover have "list_all (true_frame b (cs_db v)) fs"
    using links(4) quiet_frame(1) by (auto simp: list_all_iff)
  ultimately show ?case using links by (simp add: mirror_ok_def)
next
  case (hears v k s S T env u)
  then show ?case by (intro mirror_ok_hears assms(2,3))
next
  case (sends v k s S T env u c t f r)
  then have i: "in_step a b (cs_db v) s" "rows_num (cs_db v)" by (simp_all add: mirror_ok_def db_ok_def)
  have "u_id u \<noteq> a" using sends assms(2) by simp
  note own = in_step_sends [OF i sends(2) this sends(4)]
  show ?case using mirror_ok_own [OF sends.IH own(1)] by (simp add: own(2))
next
  case (fails v k s S T cid c i)
  then have "in_step a b (cs_db v) s" by (simp add: mirror_ok_def)
  note own = in_step_fail [OF this, of cid c i]
  show ?case using mirror_ok_own [OF fails.IH own(1)] by (simp add: own(2))
next
  case (edits v k s S T env m t)
  then have "in_step a b (cs_db v) s" by (simp add: mirror_ok_def)
  note own = in_step_edits(1) [OF this edits(2), of t]
  show ?case using mirror_ok_own [OF edits.IH own [THEN conjunct1]] own by simp
next
  case (deletes v k s S T env m)
  then have "in_step a b (cs_db v) s" by (simp add: mirror_ok_def)
  note own = in_step_edits(2) [OF this deletes(2)]
  show ?case using mirror_ok_own [OF deletes.IH own [THEN conjunct1]] own by simp
next
  case (reacts v k s S T env m emoji)
  then have "in_step a b (cs_db v) s" by (simp add: mirror_ok_def)
  note own = in_step_guesses(1) [OF this agree_refl, where S = UNIV and T = T and m = m and env = env and e = emoji]
  show ?case using mirror_ok_own [OF reacts.IH own [THEN conjunct1] own [THEN conjunct2]] by blast
next
  case (pins v k s S T env m y)
  then have "in_step a b (cs_db v) s" by (simp add: mirror_ok_def)
  note own = in_step_guesses(2) [OF this agree_refl, where S = UNIV and T = T and m = m and env = env and y = y]
  show ?case using mirror_ok_own [OF pins.IH own [THEN conjunct1] own [THEN conjunct2]] by blast
next
  case (loads v k s S T ms)
  then have ok: "in_step a b (cs_db v) s" "rows_num (cs_db v)" "agree S T (client_view a s) (rows_view a b (cs_db v))"
    by (simp_all add: mirror_ok_def db_ok_def)
  show ?case using in_step_loads [OF ok(1,2) loads(3) assms(2) ok(3)] loads by (simp add: mirror_ok_def)
next
  case (browses v k s S T s')
  then show ?case using client_view_same [of a s' s] by (simp add: mirror_ok_def in_step_def)
qed (simp add: mirror_ok_def)


text \<open>Somebody writes, the other side hears it.\<close>

definition ex_heard :: chats where
  "ex_heard = hear (ex_env\<lparr>me := Some (ex_person 7)\<rparr>) (queue 2 ex_said ! 0) init_chats"

lemma ex_mirror: "mirror 5 7 2 ex_said 1 ex_heard UNIV {}"
proof -
  have "mirror 5 7 2 ex_srv (length (queue 2 ex_srv)) init_chats UNIV {}"
  proof (rule mirror.starts)
    show "db_ok (cs_db ex_srv)"
      by (auto simp: db_ok_def rows_num_def shaped_def users_keyed_def ex_srv_def ex_db_def ex_person_def)
    show "wired 7 2 ex_srv" by (auto simp: wired_def ex_srv_def ex_link_def hc_uid_def ex_person_def)
    show "in_step 5 7 (cs_db ex_srv) init_chats" by (simp add: in_step_def init_chats_def bucket.simps jm_get_def)
    show "agree UNIV {} (client_view 5 init_chats) (rows_view 5 7 (cs_db ex_srv))"
      by (simp add: agree_def client_view_def rows_view_def init_chats_def ex_srv_def ex_db_def bucket.simps)
  qed
  then have "mirror 5 7 2 ex_srv 0 init_chats UNIV {}" by (simp add: queue_def ex_srv_def new_hub_def)
  then have "mirror 5 7 2 ex_said 0 init_chats UNIV {}"
    unfolding ex_said_def by (rule mirror.serves [where u = 5]) (simp_all add: ex_srv_def ex_db_env_def)
  then have "mirror 5 7 2 ex_said (Suc 0) ex_heard UNIV {}"
    unfolding ex_heard_def by (rule mirror.hears [where u = "ex_person 7"]) (code_simp | simp add: ex_person_def)+
  then show ?thesis by simp
qed


text \<open>
  A page of history that was read before an edit and comes in after the frame that told of it: the store falls back to the
  text before, although nothing is under way.
\<close>

lemma a_late_page_reverts_an_edit:
  assumes "bucket (Dm a) s = [m\<lparr>content := new_text\<rparr>]" "content m \<noteq> new_text"
  shows "bucket (Dm a) (loadMessages_done (Dm a) (Some [m]) s) = [m]"
  using assms by (simp add: bucket_loadMessages_done merge_page_one)

end
