(* ===== verification/SealedPath.thy ===== *)
theory SealedPath
  imports ServerChatLaws CryptoLaws ChatLaws
begin

text \<open>
  A sealed message on its whole way: the sender's store seals it and sends a frame (\<open>store/chats.ts\<close>, \<open>lib/crypto.ts\<close>), the
  server stores and pushes what it was given (\<open>internal/signaling/chat.go\<close>), the reader's device opens it.
\<close>

section \<open>The frame\<close>

definition sealed_frame :: "send_job \<Rightarrow> encrypted_payload \<Rightarrow> json" where
  "sealed_frame job p = JObj (base_payload job @ sealed_fields p)"

lemma sealed_frame_sent:
  assumes "me env = Some u" "js_trim t \<noteq> []" "isEncrypted c s" "ws_up env3"
    and "job = send_job_of env u c t f r s"
  shows "\<exists>es. out (encrypted_done env3 job (Some p) (keys_checked env2 job (Some []) (sendMessage env c t f r s))) =
    es @ [SendFrame (''message:send'', sealed_frame job p)]"
proof -
  have "out (encrypted_done env3 job (Some p) w) = out w @ [SendFrame (''message:send'', sealed_frame job p)]" for w
    using assms(4) by (simp add: encrypted_done_def send_or_fail_def ws_send_def emit_def sealed_frame_def sealed_fields_def)
  then show ?thesis by blast
qed

text \<open>What the server reads of it.\<close>

lemma sealed_frame_read:
  assumes "j_convo job = Dm b" "j_file job = None" "j_reply job = None" "int64 b"
  shows "send_payload_of (Some (sealed_frame job p)) =
    Some \<lparr>sm_client = j_client job, sm_recipient = Some b, sm_group = None, sm_content = ep_ciphertext p, sm_file = None,
      sm_reply = None, sm_encrypted = True, sm_iv = ep_iv p, sm_keys = ep_encKeys p\<rparr>"
proof -
  let ?fs = "[(''enc_keys'', JStr (ep_encKeys p)), (''enc_iv'', JStr (ep_iv p)), (''encrypted'', JBool True),
      (''content'', JStr (ep_ciphertext p)), (''reply_to_id'', JNull), (''file_id'', JNull), (''group_id'', JNull),
      (''recipient_id'', JNum b), (''client_id'', JStr (j_client job))]"
  have "go_fields (Some (sealed_frame job p)) = Some ?fs"
    using assms(1-3) by (simp add: sealed_frame_def base_payload_def sealed_fields_def go_fields_def jopt_def)
  moreover have "go_str ''client_id'' ?fs = Some (j_client job)" "go_str ''content'' ?fs = Some (ep_ciphertext p)"
    "go_str ''enc_iv'' ?fs = Some (ep_iv p)" "go_str ''enc_keys'' ?fs = Some (ep_encKeys p)" by (simp_all add: go_str_def)
  moreover have "go_int_ptr ''recipient_id'' ?fs = Some (Some b)" "go_int_ptr ''group_id'' ?fs = Some None"
    "go_int_ptr ''file_id'' ?fs = Some None" "go_int_ptr ''reply_to_id'' ?fs = Some None"
    using assms(4) by (simp_all add: go_int_ptr_def)
  moreover have "go_bool ''encrypted'' ?fs = Some True" by (simp add: go_bool_def)
  ultimately show ?thesis by (simp only: send_payload_of_def option.case prod.case)
qed

section \<open>The server hands it on\<close>

text \<open>The frame had room in the connection's channel and the connection lives on.\<close>

lemma sent_with_room:
  assumes "send_ok cb h" "hc_conn cb \<notin> h_shut h"
  shows "hc_conn cb \<notin> h_shut (client_send cb f h)" "hc_conn c \<noteq> hc_conn cb \<Longrightarrow> hc_conn cb \<notin> h_shut h' \<Longrightarrow> hc_conn cb \<notin> h_shut (client_send c f h')"
  using assms by (auto simp: client_send_def channel_put_def send_ok_def)

definition fits :: "encrypted_payload \<Rightarrow> bool" where
  "fits p = (ep_ciphertext p \<noteq> [] \<and> utf8_len (ep_ciphertext p) \<le> 32000 \<and> utf8_len (ep_encKeys p) \<le> 65536)"

lemma sealed_frame_pushed:
  assumes "j_convo job = Dm b" "j_file job = None" "j_reply job = None" "int64 b" "0 < b" "hc_uid c \<noteq> b" "fits p"
    and "cd_users (cs_db v) b = Some ub" "u_id ub = b" "\<not> u_disabled ub" "h_clients (cs_hub v) b = Some cb"
    and "de_read_ok e" "de_write_ok e"
    and "w = route_chat e c ''message:send'' (Some (sealed_frame job p)) v"
    and "send_ok cb (cs_hub v)" "hc_conn cb \<notin> h_shut (cs_hub v)" "hc_conn c \<noteq> hc_conn cb"
  shows "\<exists>m r. h_sent (cs_hub w) = h_sent (cs_hub v) @ [(hc_conn cb, SrvMsgNew m), (hc_conn c, SrvMsgSent (j_client job) r)] \<and>
    hc_conn cb \<notin> h_shut (cs_hub w) \<and> carries m p \<and> row_about m = (hc_uid c, Some b, None) \<and> map_option content (cd_rows (cs_db w) (mid m)) = Some (ep_ciphertext p)"
proof -
  let ?p = "\<lparr>sm_client = j_client job, sm_recipient = Some b, sm_group = None, sm_content = ep_ciphertext p, sm_file = None,
      sm_reply = None, sm_encrypted = True, sm_iv = ep_iv p, sm_keys = ep_encKeys p\<rparr>"
  define m where "m = new_row (de_now e) (cd_last (cs_db v) + 1) (hc_uid c) (Some b) None None None (ep_ciphertext p) (Some (ep_iv p, ep_encKeys p))"
  define d where "d = insert_row m (cs_db v)"
  have ins: "insertMessage e (hc_uid c) (Some b) None ?p (cs_db v) = (d, Some m)"
    using assms(12,13) by (simp add: insertMessage_def m_def d_def GetMessage_def insert_row_def new_row_def Let_def)
  have ok: "send_refused e (hc_uid c) ?p (cs_db v) = None" "\<not> cannot_attach e (hc_uid c) ?p"
    using assms(5-7) by (simp_all add: send_refused_def cannot_attach_def fits_def)
  have w: "w = sendDirectMessage e c b ?p v"
    using ok(1) by (simp add: assms(14) route_chat_def handleMessageSend_def sealed_frame_read [OF assms(1-4)])
  have carry: "carries (enrich e d m) p" "row_about m = (hc_uid c, Some b, None)" "content m = ep_ciphertext p" "mid (enrich e d m) = mid m"
    by (simp_all add: carries_def m_def new_row_def enrich_def Let_def row_about_def)
  have row: "cd_rows d (mid m) = Some m" by (simp add: d_def insert_row_def)
  have kept: "map_option content (cd_rows (MarkDelivered [mid m] t d) (mid m)) = Some (ep_ciphertext p)" for t
    using row carry(3) by (simp add: MarkDelivered_def change_row_def)
  have "h_sent (cs_hub w) = h_sent (cs_hub v) @ [(hc_conn cb, SrvMsgNew (enrich e d m)),
      (hc_conn c, SrvMsgSent (j_client job) (if de_mark_ok e then (enrich e d m)\<lparr>delivered_at := Some (de_now e)\<rparr> else enrich e d m))]"
    using assms(8-12,15) ins ok(2) by (simp add: w sendDirectMessage_def Let_def user_send_ok_def)
  moreover have "hc_conn cb \<notin> h_shut (cs_hub w)"
    using assms(8-12) ins ok(2) sent_with_room [OF assms(15,16)] assms(17)
    by (simp add: w sendDirectMessage_def Let_def cs_send_def cs_user_def sendToUser_def)
  moreover have "map_option content (cd_rows (cs_db w) (mid (enrich e d m))) = Some (ep_ciphertext p)"
    using assms(8-12,15) ins ok(2) kept row carry(3,4) by (simp add: w sendDirectMessage_def Let_def user_send_ok_def)
  ultimately show ?thesis using carry(1,2) by (metis enrich_about(1))
qed

text \<open>
  C2. A message sealed on one device, sent through the server and opened on a device it was sealed for: the sender's store hands the
  socket one frame, the server answers it with one message for the reader's connection and the acknowledgement, keeps only the
  sealed text in its row, and the reader's device opens the message it is pushed to exactly what was written. What is asked
  for: no other key the message is sealed for has the device's identifier (two accounts of one browser would), the reader is
  another, active account with a connection of its own, whose channel has room for the frame (or else the server drops it
  and closes the connection), the parts of the message fit the server's limits, and the database answers.
\<close>

theorem a_sealed_message_reaches_its_reader:
  assumes "platform_ok pub pf" "encryptForRecipients pf (pub sk, sk) keys ck iv ivs (js_trim t) = Some p"
    and "parse_keys pf (ep_encKeys p) = Some (sealed_entries pf (pub sk, sk) ck ivs keys)" "ep_encKeys p \<noteq> []"
    and "length ivs = length keys" "list_all is_bytes ivs" "is_bytes iv" "iv \<noteq> []" "dk \<in> set keys"
    and "parse_jwk pf (public_key_jwk dk) = Some (pub dsk)" "\<forall>d \<in> set keys. dk_device_id d = dk_device_id dk \<longrightarrow> d = dk"
    and "me env = Some u" "js_trim t \<noteq> []" "isEncrypted (Dm b) s" "ws_up env3" "job = send_job_of env u (Dm b) t None None s"
    and "int64 b" "0 < b" "hc_uid c \<noteq> b" "fits p" "cd_users (cs_db v) b = Some ub" "u_id ub = b" "\<not> u_disabled ub"
    and "h_clients (cs_hub v) b = Some cb" "de_read_ok e" "de_write_ok e"
    and "send_ok cb (cs_hub v)" "hc_conn cb \<notin> h_shut (cs_hub v)" "hc_conn c \<noteq> hc_conn cb"
  shows "\<exists>es data m r w. w = route_chat e c ''message:send'' (Some data) v \<and>
    out (encrypted_done env3 job (Some p) (keys_checked env2 job (Some []) (sendMessage env (Dm b) t None None s))) =
      es @ [SendFrame (''message:send'', data)] \<and>
    h_sent (cs_hub w) = h_sent (cs_hub v) @ [(hc_conn cb, SrvMsgNew m), (hc_conn c, SrvMsgSent (client_id_of env) r)] \<and> hc_conn cb \<notin> h_shut (cs_hub w) \<and>
    map_option content (cd_rows (cs_db w) (mid m)) = Some (ep_ciphertext p) \<and>
    decryptNow pf (dk_device_id dk) cur backup (Some dsk) m = Some (js_trim t)"
proof -
  have job: "j_convo job = Dm b" "j_file job = None" "j_reply job = None" "j_client job = client_id_of env"
    by (simp_all add: assms(16) send_job_of_def)
  obtain es where "out (encrypted_done env3 job (Some p) (keys_checked env2 job (Some []) (sendMessage env (Dm b) t None None s))) =
      es @ [SendFrame (''message:send'', sealed_frame job p)]"
    using sealed_frame_sent [OF assms(12-16)] by blast
  moreover obtain m r where
    "h_sent (cs_hub (route_chat e c ''message:send'' (Some (sealed_frame job p)) v)) =
      h_sent (cs_hub v) @ [(hc_conn cb, SrvMsgNew m), (hc_conn c, SrvMsgSent (client_id_of env) r)]"
    "carries m p" "hc_conn cb \<notin> h_shut (cs_hub (route_chat e c ''message:send'' (Some (sealed_frame job p)) v))"
    "map_option content (cd_rows (cs_db (route_chat e c ''message:send'' (Some (sealed_frame job p)) v)) (mid m)) = Some (ep_ciphertext p)"
    using sealed_frame_pushed [OF job(1-3) assms(17-26) refl assms(27-29)] job(4) by auto
  moreover have "decryptNow pf (dk_device_id dk) cur backup (Some dsk) m = Some (js_trim t)"
    by (rule sealed_opens_on_device [OF assms(1-8) \<open>carries m p\<close> assms(9-11)])
  ultimately show ?thesis by blast
qed

definition ex_writer :: chat_env where
  "ex_writer = ex_env\<lparr>me := Some (ex_person 5)\<rparr>"

definition ex_sealing :: chats where
  "ex_sealing = init_chats\<lparr>encryptedConvos := [key (Dm 7) \<mapsto> True]\<rparr>"

definition ex_job :: send_job where
  "ex_job = send_job_of ex_writer (ex_person 5) (Dm 7) ''hi'' None None ex_sealing"

definition ex_phone :: "device_key list" where
  "ex_phone = [ex_key 7 ''phone'' 2]"

theorem a_sealed_message_reaches_its_reader_witness:
  "\<exists>data m. SendFrame (''message:send'', data) \<in>
      set (out (encrypted_done ex_writer ex_job (Some (ex_payload ex_phone))
        (keys_checked ex_writer ex_job (Some []) (sendMessage ex_writer (Dm 7) ''hi'' None None ex_sealing)))) \<and>
    (2, SrvMsgNew m) \<in> set (h_sent (cs_hub (route_chat ex_db_env (ex_link 1 5) ''message:send'' (Some data) ex_srv))) \<and>
    decryptNow (ex_pf (ex_sealed ex_phone)) ''phone'' None None (Some 2) m = Some ''hi''"
proof -
  have hi: "js_trim ''hi'' = ''hi''" by code_simp
  have keys: "ex_phone \<noteq> []" "ex_key 7 ''phone'' 2 \<in> set ex_phone" "dk_device_id (ex_key 7 ''phone'' 2) = ''phone''"
    by (simp_all add: ex_phone_def ex_key_def)
  have parts: "length (map (\<lambda>_. [7]) ex_phone) = length ex_phone" "list_all is_bytes (map (\<lambda>_. [7]) ex_phone)"
    "is_bytes [9]" "[9 :: byte] \<noteq> []" "\<forall>d \<in> set ex_phone. dk_device_id d = dk_device_id (ex_key 7 ''phone'' 2) \<longrightarrow> d = ex_key 7 ''phone'' 2"
    by (simp_all add: is_bytes_def ex_phone_def)
  have client: "me ex_writer = Some (ex_person 5)" "isEncrypted (Dm 7) ex_sealing" "ws_up ex_writer"
    by (simp_all add: ex_writer_def ex_env_def ex_sealing_def isEncrypted_def)
  have server: "cd_users (cs_db ex_srv) 7 = Some (ex_person 7)" "u_id (ex_person 7) = 7" "\<not> u_disabled (ex_person 7)"
    "h_clients (cs_hub ex_srv) 7 = Some (ex_link 2 7)" "hc_uid (ex_link 1 5) \<noteq> 7" "de_read_ok ex_db_env" "de_write_ok ex_db_env"
    "hc_conn (ex_link 2 7) = 2" "int64 7" "send_ok (ex_link 2 7) (cs_hub ex_srv)" "hc_conn (ex_link 2 7) \<notin> h_shut (cs_hub ex_srv)"
    "hc_conn (ex_link 1 5) \<noteq> hc_conn (ex_link 2 7)"
    by (simp_all add: send_ok_def send_buffer_def new_hub_def ex_srv_def ex_db_def ex_person_def ex_link_def hc_uid_def ex_db_env_def int64_def)
  have "b64encode [5, 104, 105] = ''BWhp''" "utf8_len ''BWhp'' = 4" "utf8_len ''keys'' = 4" by code_simp+
  then have fits: "fits (ex_payload ex_phone)"
    by (simp add: fits_def ex_payload_def encryptForRecipients_def ex_phone_def ex_pf_def char_code_def)
  note pay = ex_payload [OF keys(1)]
  have sealed: "encryptForRecipients (ex_pf (ex_sealed ex_phone)) (ex_pub 4, 4) ex_phone 5 [9] (map (\<lambda>_. [7]) ex_phone) (js_trim ''hi'') =
      Some (ex_payload ex_phone)" unfolding hi by (rule pay(1))
  obtain data m es r where "out (encrypted_done ex_writer ex_job (Some (ex_payload ex_phone))
        (keys_checked ex_writer ex_job (Some []) (sendMessage ex_writer (Dm 7) ''hi'' None None ex_sealing))) =
      es @ [SendFrame (''message:send'', data)]"
    "h_sent (cs_hub (route_chat ex_db_env (ex_link 1 5) ''message:send'' (Some data) ex_srv)) =
      h_sent (cs_hub ex_srv) @ [(2, SrvMsgNew m), (hc_conn (ex_link 1 5), SrvMsgSent (client_id_of ex_writer) r)]"
    "decryptNow (ex_pf (ex_sealed ex_phone)) ''phone'' None None (Some 2) m = Some ''hi''"
    using a_sealed_message_reaches_its_reader [OF ex_pf_ok sealed pay(2,3) parts(1-4) keys(2) ex_key_jwk parts(5)
      client(1) _ client(2,3) ex_job_def server(9) _ server(5) fits server(1-4,6,7,10-12),
        where ?env2.0 = ex_writer and cur = None and backup = None] hi server(8) keys(3)
    by auto
  then show ?thesis by (intro exI [of _ data] exI [of _ m]) simp
qed

end
