(* ===== verification/Spec2Isabelle.thy ===== *)
theory Spec2Isabelle
  imports ChatLaws CallLaws WsClient DirectLaws RoomLaws Util CryptoLaws Session Media Api ChatsPage Shell
    Gestures Recording CallOverlay TwoPeers RoomsPage PeoplePages Widgets CallDialogs SignIn BackupDialogs
    DeviceTest SettingsPage AdminUsers AdminServer AdminBackups CallControls Attachments MessageRows AppRoot ChatList
    SignalPath ServerRoomLaws ServerGate ChatMirror SealedPath
begin

text \<open>
  This development verifies the web client of the video call application, the TypeScript under
  \<open>src/web/src\<close>, and the parts of the Go server under \<open>src/server/internal\<close> that a call passes through. The rest of
  the server, the Android client and the browser are the environment: the client meets them as frames, answers,
  callbacks and permissions, and so does the model.

  \<^bold>\<open>How the client is put together.\<close> One socket (\<open>lib/ws.ts\<close>) carries typed frames in both
  directions and one REST client (\<open>lib/api.ts\<close>) everything else. Zustand stores hold the state:
  the chats, the calls, and four small ones (toasts, presence, directory, sign-in). Each store
  registers handlers for the frames it understands and has actions the pages call. A call is carried
  by an engine around WebRTC peer connections: \<open>DirectCall\<close> for two people, \<open>RoomClient\<close> for a room,
  with a shared network monitor. Messages may be end-to-end encrypted (\<open>lib/crypto.ts\<close>). The React
  components show the stores and keep local state of their own: the composer's drafts, the position of
  the own picture, the recorder.

  \<^bold>\<open>How it is modelled.\<close> A store, an engine or a component is a record with the source's fields; each
  operation, handler or effect is a definition that returns the changed record. What leaves the client
  (a frame, a REST call, a sound, a callback) is appended to a log in the record or returned as a list,
  in the order the source produces it. An \<open>async\<close> function is cut at its awaits: one definition up to
  the first await, and one continuation per await that takes the outcome, with what the closure
  captured (an epoch, a generation, a conversation) kept as an argument or in a job record. Between the
  two anything else may happen, so the step relations and event lists interleave continuations freely.
  Timers are entries of the state that a separate event fires. Errors are \<open>option\<close> or sum values, and
  every early return is a branch. JavaScript's \<open>Map\<close> and \<open>Set\<close> are insertion-ordered association lists;
  numbers are \<open>int\<close>, or exact rationals where the source computes fractions; bytes of identifiers and
  keys are \<open>8 word\<close>; strings are character lists.

  \<^bold>\<open>The theories and the code they model.\<close>
  \<^item> \<open>Prelude\<close>: JavaScript's operators, dates, numbers in strings, arrays; the collections of rules.
    \<open>JsMap\<close>: maps and sets, with the interface \<open>js_map\<close>, and local storage. \<open>Strings\<close>: case, substrings,
    and \<open>split\<close> by a pattern, with the interface \<open>matcher\<close>.
  \<^item> \<open>Messages\<close>: \<open>lib/types.ts\<close>, the order on messages and the operations on a conversation's list, with
    the interface \<open>message_bucket\<close> that says what the store relies on.
  \<^item> \<open>ChatStore\<close>, \<open>ChatHandlers\<close>: \<open>store/chats.ts\<close>; \<open>ChatInv\<close> is the invariant of the lists over the
    reachable states, \<open>ChatLaws\<close> the properties.
  \<^item> \<open>Rtc\<close>: tracks, streams and connections, with the interface \<open>candidate_queue\<close>; \<open>NetMonitor\<close>:
    \<open>lib/webrtc/netmonitor.ts\<close>.
  \<^item> \<open>CallStore\<close>, \<open>CallHandlers\<close>: \<open>store/calls.ts\<close>; \<open>CallInv\<close> is the invariant that ties status, mode,
    identifiers, engines and stream together, \<open>CallLaws\<close> the properties.
  \<^item> \<open>DirectCall\<close>, \<open>DirectLaws\<close>: \<open>lib/webrtc/direct.ts\<close>. \<open>RoomClient\<close>, \<open>RoomLaws\<close>: \<open>lib/webrtc/sfu.ts\<close>.
  \<^item> \<open>WsClient\<close>: \<open>lib/ws.ts\<close>. \<open>Api\<close>: \<open>lib/api.ts\<close>. \<open>Util\<close>: \<open>lib/util.ts\<close>. \<open>Media\<close>: \<open>lib/media.ts\<close>.
  \<^item> \<open>Base64\<close>, \<open>Crypto\<close>, \<open>CryptoLaws\<close>: \<open>lib/crypto.ts\<close>.
  \<^item> \<open>Theme\<close>: \<open>lib/theme.ts\<close>. \<open>Stores\<close>: \<open>store/toast.ts\<close>, \<open>store/presence.ts\<close>, \<open>store/directory.ts\<close>,
    \<open>store/auth.ts\<close>. \<open>Session\<close>: \<open>lib/session.ts\<close> and what ends a session in \<open>App.tsx\<close>; \<open>AppRoot\<close>: the
    effects of \<open>App.tsx\<close> and its listeners on the socket.
  \<^item> \<open>MessageView\<close>, \<open>ChatPanel\<close>, \<open>ChatPanelLaws\<close>, \<open>GroupDialog\<close>, \<open>MessageRows\<close>: \<open>components/ChatPanel.tsx\<close>;
    \<open>Attachments\<close>: \<open>components/AttachmentPreview.tsx\<close> beside it.
    \<open>Shell\<close>: \<open>pages/Shell.tsx\<close>. \<open>ChatsPage\<close>, \<open>ChatList\<close>: \<open>pages/Chats.tsx\<close>. \<open>CallOverlay\<close>, \<open>CallControls\<close>,
    \<open>Gestures\<close>, \<open>Recording\<close>: \<open>components/CallOverlay.tsx\<close>; \<open>CallControls\<close> also puts the call view between the
    two stores (the notices of the one, the unread counters of the other).
  \<^item> \<open>TwoPeers\<close>: two engines of \<open>DirectCall\<close> and the wire between them. \<open>SignalPath\<close>: the server under that
    wire, from the frames of one engine through the server's read loop and relay to the other.
  \<^item> The server: \<open>ServerWire\<close> is the decoding of frames and the read loop with its budgets (\<open>signaling/client.go\<close>);
    \<open>ServerCalls\<close> the socket hub and the one to one calls (\<open>signaling/hub.go\<close>, \<open>signaling/calls.go\<close>), \<open>ServerCallLaws\<close>
    their reachable states; \<open>ServerRooms\<close> the conference rooms (\<open>sfu/engine.go\<close>, \<open>room.go\<close>, \<open>participant.go\<close>),
    \<open>ServerRoomLaws\<close> their runs; \<open>ServerGate\<close> the gate of the private rooms and the limiter of guesses
    (\<open>signaling/private_rooms.go\<close>, \<open>auth/limiter.go\<close>); \<open>ServerChat\<close> the chat and its rows (\<open>signaling/chat.go\<close>,
    \<open>db/chat.go\<close>), \<open>ServerChatLaws\<close> whom it tells. The server's locks make each operation one step of the model;
    timers are entries of the state that a separate step fires, the rows the database returns are arguments.
    A connection's channel holds 256 frames; a frame that finds it full is dropped and the connection closed, and what
    the sending then reports (a message is not marked as delivered) is a branch of the operations.
  \<^item> \<open>ChatLearn\<close>, \<open>ChatMirror\<close>: one store of \<open>ChatHandlers\<close> that handles, in its own time, what \<open>ServerChat\<close> queues for it:
    what a frame teaches the store and how the rows change, then the runs of both with the store's own optimistic changes.
    \<open>SealedPath\<close>: a sealed message from the sender's store through the server to the reader's device.
  \<^item> \<open>Forms\<close>: what the forms of the pages share, with the interface \<open>request_form\<close>. \<open>RoomsPage\<close>: \<open>pages/Rooms.tsx\<close>.
    \<open>PeoplePages\<close>: \<open>pages/CallsHistory.tsx\<close> and \<open>pages/Directory.tsx\<close>. \<open>SignIn\<close>: \<open>pages/Login.tsx\<close> and
    \<open>pages/ResetPassword.tsx\<close>. \<open>SettingsPage\<close>, \<open>DeviceTest\<close>: \<open>pages/Settings.tsx\<close>. \<open>BackupDialogs\<close>:
    \<open>components/KeyBackup.tsx\<close>.
  \<^item> \<open>AdminUsers\<close>: the people of \<open>pages/Admin.tsx\<close>; \<open>AdminServer\<close>: its audit log and server settings, with the
    server's query for the log (\<open>internal/db/audit.go\<close>); \<open>AdminBackups\<close>: \<open>pages/AdminBackups.tsx\<close>.
  \<^item> \<open>Widgets\<close>: \<open>components/ui.tsx\<close> and \<open>lib/cx.ts\<close>. \<open>CallDialogs\<close>: \<open>components/ParticipantsSidebar.tsx\<close>,
    \<open>IncomingCallModal.tsx\<close> and \<open>RoomJoinRequests.tsx\<close>.

  \<^bold>\<open>What the lemmas show.\<close>
  \<^item> Chats: in every reachable state each list is sorted and free of duplicates; a send ends as the
    server's copy or as a failed bubble; the order of arrival does not matter; a conversation the user
    chose to encrypt sends no plain text; counters follow the screen.
  \<^item> Calls: the fields fit together in every reachable state; every way out of a call shuts its engine
    down; callbacks of superseded engines are ignored for ever; a dropped socket has its grace period. The invariant asks of
    the server that no removal from a room comes during a one to one call; a lemma shows what happens otherwise.
  \<^item> Engines: candidates are neither lost nor added twice nor misrouted, closing at any moment of the
    start releases what was captured, closed engines are inert, rejoining publishes the same media.
    Two engines together deliver every candidate exactly once, however their steps and deliveries interleave.
  \<^item> Socket and REST: a wanted connection is pursued, stale sockets are mute, exactly the calls that
    write carry the token, a lost session is noticed.
  \<^item> Encryption: a sealed message opens on each device of its recipients and through the backup, the
    cache is bounded and true to what was opened however requests overlap, and refines an abstract least-recently-used
    cache when those for one message do not; concurrent requests for the key make one key and end; after a log-out
    exactly the listed fields differ from those of a fresh page.
  \<^item> Pages: text is shown faithfully, drafts survive, files go in order, lists are the sorted filter of
    what they show, gestures put the own picture into the view of the moment, recorded tiles stay within their bounds, recordings and device tests
    clean up, a form has one request under way and its busy flag says so, the preview of files gives its
    object URLs back, a row of messages shows nothing of a deleted or sealed text, the root of the app hears each
    frame once, a conversation covered by a call counts as unread, every unread conversation has its row.
  \<^item> Administration: nobody suspends or deletes their own account, signs it out but by its new password, or erases one
    without its name typed; the audit
    table is a gapless part of a log that keeps growing and becomes complete; every setting has its place;
    a restore is settled and the wait for the restarting server ends if its probes do.
  \<^item> Server: a user is in one call at most and its call survives or ends with its connection; what one party
    relays reaches exactly the other party; while a call lasts and the connections keep up the server is the wire between
    its engines, for what the rate limit lets through; a conference room has one host, a lock lets no further microphone of
    its user through, subscribers are offered what they are sent unless an offer fails;
    frames about a message go to its parties only, a client that has handled its frames knows the messages of the
    other side as the rows do; the gate of a private room admits nobody it should not, and a waiting approval admits once.
  \<^item> Where the code does something other than it means to, a lemma named after the behaviour shows a
    concrete run.

  \<^bold>\<open>Interfaces.\<close> A client of a shared part works against a locale: \<open>js_map\<close> (the tables), \<open>message_bucket\<close>
  (the lists of the chat store), \<open>candidate_queue\<close> (both engines), \<open>matcher\<close> (splitting text), \<open>request_form\<close>
  (editing, submitting and answering a form: rooms, sign-in, both password resets, the password of the
  settings, the key backup, taking a backup); each is interpreted on the model's own definitions where
  those stand.

  \<^bold>\<open>Parameters.\<close> Cryptographic primitives, the JSON parser, locale-dependent comparison and the browser's
  permissions are arguments of the definitions that use them; the laws used (decryption undoes encryption
  under the same key, JSON parsing undoes printing, comparison is a linear preorder) are named hypotheses
  and each such property has an instance with concrete functions. Random bytes, clocks and identifiers
  are arguments too.

  \<^bold>\<open>Bounds and fuel.\<close> No definition runs on fuel: loops over lists are structural, and those that are not
  (encoding bytes in chunks, splitting a text by a pattern) have termination proofs. Asking the restarting server until the
  deadline need not end, and is a partial function whose end is proved under its conditions. The only bounds are the source's own (sizes of pages and caches, delays, retries), written as constants under their names.

  \<^bold>\<open>Not modelled.\<close> The rest of the server (its REST handlers, sign-in, database, backups, presence, the packets and
  negotiations the WebRTC library carries) and the Android client; what the browser does behind a
  call; JSX markup, styles and icons, of which only what is shown when and which handler it calls is
  modelled; oscillators and drawing contexts, which are effects; date texts in the user's locale.
\<close>

end
